(* ===== verification/Prelude.thy ===== *)
theory Prelude
  imports Main "HOL-Library.Word"
begin

unbundle bit_operations_syntax

text \<open>
  Shared vocabulary of the development: the Go machine types, the byte-level
  helpers of \<^verbatim>\<open>encoding/binary\<close> and \<^verbatim>\<open>copy\<close>, the parts of \<^verbatim>\<open>net.IP\<close> that the
  daemon uses, and the generic facts on lists and words that the component
  theories rest on.

  Conventions. A Go slice of bytes is a list of 8-bit words; a nil slice and an
  empty one are the same list. A Go \<^verbatim>\<open>int\<close> that holds a length or an index is a
  natural number; fixed-width integers keep their width. A function that returns
  an \<^verbatim>\<open>error\<close> returns a value of a sum type with the error on the left. A run-time
  panic (a slice expression out of range, an unlock of an unlocked mutex) is
  \<^const>\<open>None\<close> of an option type, in the functions where the guards of the source
  do not exclude it.
\<close>

section \<open>Types\<close>

type_synonym byte = "8 word"
type_synonym bytes = "byte list"
type_synonym u16 = "16 word"
type_synonym u32 = "32 word"
type_synonym u64 = "64 word"

section \<open>Collections of facts\<close>

named_theorems codec_simps \<open>round trips and lengths of the byte codecs\<close>
named_theorems word_size_simps \<open>values of machine words as natural numbers\<close>

lemma bit_byte_ge [simp]: "8 \<le> n \<Longrightarrow> \<not> bit (b :: byte) n"
  using bit_imp_le_length [of b n] by auto

section \<open>Big-endian integers (encoding/binary)\<close>

definition Uint16 :: "bytes \<Rightarrow> u16" where
  "Uint16 b = push_bit 8 (ucast (b ! 0)) OR ucast (b ! 1)"

definition Uint32 :: "bytes \<Rightarrow> u32" where
  "Uint32 b = push_bit 24 (ucast (b ! 0)) OR push_bit 16 (ucast (b ! 1))
     OR push_bit 8 (ucast (b ! 2)) OR ucast (b ! 3)"

definition PutUint16 :: "u16 \<Rightarrow> bytes" where
  "PutUint16 v = [ucast (drop_bit 8 v), ucast v]"

definition PutUint32 :: "u32 \<Rightarrow> bytes" where
  "PutUint32 v = [ucast (drop_bit 24 v), ucast (drop_bit 16 v), ucast (drop_bit 8 v), ucast v]"

lemma length_PutUint16 [simp, codec_simps]: "length (PutUint16 v) = 2"
  by (simp add: PutUint16_def)

lemma length_PutUint32 [simp, codec_simps]: "length (PutUint32 v) = 4"
  by (simp add: PutUint32_def)

lemma PutUint16_not_Nil [simp]: "PutUint16 v \<noteq> []"
  by (simp add: PutUint16_def)

lemma PutUint32_not_Nil [simp]: "PutUint32 v \<noteq> []"
  by (simp add: PutUint32_def)

lemma Uint16_PutUint16 [simp, codec_simps]: "Uint16 (PutUint16 v @ r) = v"
  unfolding Uint16_def PutUint16_def
  by (rule bit_word_eqI) (auto simp: bit_simps)

lemma Uint32_PutUint32 [simp, codec_simps]: "Uint32 (PutUint32 v @ r) = v"
  unfolding Uint32_def PutUint32_def
  by (rule bit_word_eqI, rename_tac n, case_tac "n < 8"; case_tac "n < 16"; case_tac "n < 24")
    (auto simp: bit_simps)

lemma Uint16_PutUint16_alone [simp, codec_simps]: "Uint16 (PutUint16 v) = v"
  using Uint16_PutUint16 [of v "[]"] by simp

lemma Uint32_PutUint32_alone [simp, codec_simps]: "Uint32 (PutUint32 v) = v"
  using Uint32_PutUint32 [of v "[]"] by simp

lemma PutUint16_Uint16 [codec_simps]: "PutUint16 (Uint16 [a, b]) = [a, b]"
  by (auto simp: PutUint16_def Uint16_def intro!: bit_word_eqI simp: bit_simps
      dest: bit_imp_le_length)

lemma PutUint32_Uint32 [codec_simps]: "PutUint32 (Uint32 [a, b, c, d]) = [a, b, c, d]"
  by (auto simp: PutUint32_def Uint32_def intro!: bit_word_eqI simp: bit_simps
      dest: bit_imp_le_length)

lemma Uint32_take [simp]: "4 \<le> n \<Longrightarrow> Uint32 (take n b) = Uint32 b"
  by (simp add: Uint32_def)

lemma Uint16_take [simp]: "2 \<le> n \<Longrightarrow> Uint16 (take n b) = Uint16 b"
  by (simp add: Uint16_def)

section \<open>Slices\<close>

text \<open>
  \<^verbatim>\<open>s[i:j]\<close> where the bounds are known to hold, and the checked form, which is
  \<^const>\<open>None\<close> where Go panics with "slice bounds out of range".
\<close>

definition slice :: "nat \<Rightarrow> nat \<Rightarrow> 'a list \<Rightarrow> 'a list" where
  "slice i j s = take (j - i) (drop i s)"

definition go_slice :: "nat \<Rightarrow> nat \<Rightarrow> 'a list \<Rightarrow> 'a list option" where
  "go_slice i j s = (if i \<le> j \<and> j \<le> length s then Some (slice i j s) else None)"

text \<open>\<^verbatim>\<open>copy(dst[i:], src)\<close>: overwrites as many elements as both slices have.\<close>

definition copy_at :: "nat \<Rightarrow> 'a list \<Rightarrow> 'a list \<Rightarrow> 'a list" where
  "copy_at i src dst = take i dst @ take (length dst - i) src @ drop (i + length src) dst"

lemma length_slice [simp]: "length (slice i j s) = min (j - i) (length s - i)"
  by (simp add: slice_def)

lemma slice_append_drop: "i \<le> j \<Longrightarrow> slice i j s @ drop j s = drop i s"
  using append_take_drop_id [of "j - i" "drop i s"] by (simp add: slice_def)

lemma length_copy_at [simp]: "i \<le> length dst \<Longrightarrow> length (copy_at i src dst) = length dst"
  by (simp add: copy_at_def)

lemma copy_at_append [simp]:
  "length a = i \<Longrightarrow> length b = length src \<Longrightarrow> copy_at i src (a @ b @ c) = a @ src @ c"
  by (simp add: copy_at_def)

lemma copy_at_replicate [codec_simps]:
  "length src \<le> n \<Longrightarrow> copy_at 0 src (replicate n x) = src @ replicate (n - length src) x"
  by (simp add: copy_at_def)

lemma go_slice_Some_iff:
  "go_slice i j s = Some t \<longleftrightarrow> i \<le> j \<and> j \<le> length s \<and> t = slice i j s"
  by (auto simp: go_slice_def)

text \<open>The bytes of a string literal.\<close>

definition strBytes :: "string \<Rightarrow> bytes" where
  "strBytes s = map of_char s"

section \<open>Machine words as numbers\<close>

lemma byte_unat_less [simp]: "unat (b :: byte) < 256"
  using unsigned_less [of b, where 'a = nat] by simp

lemma byte_unat_le: "unat (b :: byte) \<le> 255"
  using byte_unat_less [of b] by linarith

lemma u16_unat_less [simp]: "unat (b :: u16) < 65536"
  using unsigned_less [of b, where 'a = nat] by simp

lemma unat_ucast_8 [simp, word_size_simps]:
  "unat (ucast (b :: byte) :: u16) = unat b"
  "unat (ucast (b :: byte) :: u32) = unat b"
  by (simp_all add: unsigned_ucast_eq take_bit_nat_eq_self_iff order_less_trans [OF byte_unat_less])

lemma u32_unat_less [simp]: "unat (b :: u32) < 4294967296"
  using unsigned_less [of b, where 'a = nat] by simp

lemma unat_ucast_32_64 [simp, word_size_simps]: "unat (ucast (b :: u32) :: u64) = unat b"
  by (simp add: unsigned_ucast_eq take_bit_nat_eq_self_iff order_less_trans [OF u32_unat_less])

lemma byte_of_nat_unat [word_size_simps]:
  "n < 256 \<Longrightarrow> unat (of_nat n :: byte) = n"
  by (simp add: unat_of_nat)

lemma u16_of_nat_unat [word_size_simps]:
  "n < 65536 \<Longrightarrow> unat (of_nat n :: u16) = n"
  by (simp add: unat_of_nat)

end
