(* ===== verification/EspReplay.thy ===== *)
theory EspReplay
  imports Prelude
begin

unbundle bit_operations_syntax

text \<open>
  The anti-replay window of \<^verbatim>\<open>internal/esp/replay.go\<close>: a bitmap of 64-bit words
  whose bit \<open>k\<close> says whether the sequence number \<open>lastSeq - k\<close> has been accepted.
  The word and bit loops of \<^verbatim>\<open>shiftBitmap\<close> are kept as loops. The theory relates the
  bitmap to the abstract window of RFC 4303 (the highest number \<open>T\<close> and the set of
  accepted numbers in \<open>(T - W, T]\<close>), and shows that no number is accepted twice.
\<close>

section \<open>The code\<close>

record ReplayWindow =
  bitmap :: "u64 list"
  lastSeq :: u64
  rsize :: u32

definition DefaultReplayWindowSize :: u32 where
  "DefaultReplayWindowSize = 128"

definition NewReplayWindow :: "u32 \<Rightarrow> ReplayWindow" where
  "NewReplayWindow size0 =
     (let size1 = (if size0 = 0 then DefaultReplayWindowSize else size0);
          words = (size1 + 63) div 64
      in \<lparr>bitmap = replicate (unat words) 0, lastSeq = 0, rsize = words * 64\<rparr>)"

definition Check :: "ReplayWindow \<Rightarrow> u64 \<Rightarrow> bool" where
  "Check rw seq =
     (if seq = 0 then False
      else if lastSeq rw = 0 then True
      else if seq > lastSeq rw then True
      else
        (let diff = lastSeq rw - seq in
         if diff \<ge> ucast (rsize rw) then False
         else
           (let wordIndex = diff div 64; bitIndex = diff mod 64 in
            if unat wordIndex \<ge> length (bitmap rw) then False
            else if (bitmap rw ! unat wordIndex) AND push_bit (unat bitIndex) 1 \<noteq> 0 then False
            else True)))"

definition setBit :: "ReplayWindow \<Rightarrow> u64 \<Rightarrow> ReplayWindow" where
  "setBit rw offset =
     (let wordIndex = offset div 64; bitIndex = offset mod 64 in
      if unat wordIndex < length (bitmap rw)
      then rw\<lparr>bitmap := (bitmap rw)[unat wordIndex :=
             (bitmap rw ! unat wordIndex) OR push_bit (unat bitIndex) 1]\<rparr>
      else rw)"

text \<open>
  The three loops of \<^verbatim>\<open>shiftBitmap\<close>. The first runs while \<open>i \<ge> wordShift\<close>; it is
  entered only with \<open>wordShift > 0\<close>, which the guard repeats so that the counter
  stays a natural number.
\<close>

fun shiftWordsLoop :: "nat \<Rightarrow> nat \<Rightarrow> u64 list \<Rightarrow> u64 list" where
  "shiftWordsLoop wordShift i bm =
     (if 0 < wordShift \<and> wordShift \<le> i
      then shiftWordsLoop wordShift (i - 1) (bm[i := bm ! (i - wordShift)])
      else bm)"

declare shiftWordsLoop.simps [simp del]

function zeroWordsLoop :: "nat \<Rightarrow> nat \<Rightarrow> u64 list \<Rightarrow> u64 list" where
  "zeroWordsLoop wordShift i bm =
     (if i < wordShift \<and> i < length bm
      then zeroWordsLoop wordShift (Suc i) (bm[i := 0])
      else bm)"
  by pat_completeness auto
termination
  by (relation "measure (\<lambda>(w, i, bm). length bm - i)") auto

declare zeroWordsLoop.simps [simp del]

primrec shiftBitsLoop :: "nat \<Rightarrow> nat \<Rightarrow> u64 list \<Rightarrow> u64 list" where
  "shiftBitsLoop bitShift 0 bm = bm"
| "shiftBitsLoop bitShift (Suc i) bm =
     shiftBitsLoop bitShift i
       (bm[Suc i := push_bit bitShift (bm ! Suc i) OR drop_bit (64 - bitShift) (bm ! i)])"

definition shiftBitmap :: "ReplayWindow \<Rightarrow> u64 \<Rightarrow> ReplayWindow" where
  "shiftBitmap rw n =
     (if n \<ge> ucast (rsize rw)
      then rw\<lparr>bitmap := replicate (length (bitmap rw)) 0\<rparr>
      else
        (let words = length (bitmap rw);
             wordShift = unat (n div 64);
             bitShift = unat (n mod 64);
             bm0 = bitmap rw;
             bm1 = (if wordShift > 0
                    then zeroWordsLoop wordShift 0 (shiftWordsLoop wordShift (words - 1) bm0)
                    else bm0);
             bm2 = (if bitShift > 0
                    then (let bm = shiftBitsLoop bitShift (words - 1) bm1
                          in bm[0 := push_bit bitShift (bm ! 0)])
                    else bm1)
         in rw\<lparr>bitmap := bm2\<rparr>))"

definition Advance :: "ReplayWindow \<Rightarrow> u64 \<Rightarrow> ReplayWindow" where
  "Advance rw seq =
     (if seq = 0 then rw
      else if lastSeq rw = 0 then setBit (rw\<lparr>lastSeq := seq\<rparr>) 0
      else if seq > lastSeq rw then
        setBit ((shiftBitmap rw (seq - lastSeq rw))\<lparr>lastSeq := seq\<rparr>) 0
      else
        (let diff = lastSeq rw - seq in
         if diff < ucast (rsize rw) then setBit rw diff else rw))"

section \<open>The bitmap as a predicate on offsets\<close>

definition wbit :: "u64 list \<Rightarrow> nat \<Rightarrow> bool" where
  "wbit bm k \<longleftrightarrow> k < 64 * length bm \<and> bit (bm ! (k div 64)) (k mod 64)"

lemma length_shiftWordsLoop [simp]: "length (shiftWordsLoop w i bm) = length bm"
  by (induction w i bm rule: shiftWordsLoop.induct) (subst shiftWordsLoop.simps, simp)

lemma length_zeroWordsLoop [simp]: "length (zeroWordsLoop w i bm) = length bm"
  by (induction w i bm rule: zeroWordsLoop.induct) (subst zeroWordsLoop.simps, simp)

lemma length_shiftBitsLoop [simp]: "length (shiftBitsLoop b i bm) = length bm"
  by (induction i arbitrary: bm) simp_all

lemma nth_shiftWordsLoop:
  assumes "0 < w" and "i < length bm" and "j < length bm"
  shows "shiftWordsLoop w i bm ! j = (if w \<le> j \<and> j \<le> i then bm ! (j - w) else bm ! j)"
  using assms
proof (induction w i bm rule: shiftWordsLoop.induct)
  case (1 w i bm)
  show ?case
  proof (cases "w \<le> i")
    case True
    with 1 have "shiftWordsLoop w (i - 1) (bm[i := bm ! (i - w)]) ! j =
      (if w \<le> j \<and> j \<le> i - 1 then (bm[i := bm ! (i - w)]) ! (j - w)
       else (bm[i := bm ! (i - w)]) ! j)"
      by simp
    with True 1(2-4) show ?thesis
      by (subst shiftWordsLoop.simps) (auto simp: nth_list_update)
  next
    case False
    with 1(2-4) show ?thesis by (subst shiftWordsLoop.simps) auto
  qed
qed

lemma nth_zeroWordsLoop:
  assumes "j < length bm"
  shows "zeroWordsLoop w i bm ! j = (if i \<le> j \<and> j < w then 0 else bm ! j)"
  using assms
proof (induction w i bm rule: zeroWordsLoop.induct)
  case (1 w i bm)
  show ?case
  proof (cases "i < w \<and> i < length bm")
    case True
    with 1 show ?thesis by (subst zeroWordsLoop.simps) (auto simp: nth_list_update)
  next
    case False
    with 1 show ?thesis by (subst zeroWordsLoop.simps) auto
  qed
qed

lemma nth_shiftBitsLoop:
  assumes "i < length bm" and "j < length bm"
  shows "shiftBitsLoop b i bm ! j =
    (if 0 < j \<and> j \<le> i then push_bit b (bm ! j) OR drop_bit (64 - b) (bm ! (j - 1)) else bm ! j)"
  using assms by (induction i arbitrary: bm) (auto simp: nth_list_update le_Suc_eq)

lemma bit_u64_ge [simp]: "64 \<le> n \<Longrightarrow> \<not> bit (b :: u64) n"
  using bit_imp_le_length [of b n] by auto

lemma div_mod_64_diff:
  fixes k w :: nat
  assumes "64 * w \<le> k"
  shows "(k - 64 * w) div 64 = k div 64 - w" and "(k - 64 * w) mod 64 = k mod 64"
proof -
  from assms obtain j where "k = j + w * 64" by (metis le_Suc_ex add.commute mult.commute)
  then show "(k - 64 * w) div 64 = k div 64 - w" and "(k - 64 * w) mod 64 = k mod 64"
    by simp_all
qed

lemma nat_64_le_iff: "64 * w \<le> k \<longleftrightarrow> w \<le> k div (64::nat)"
  by (simp add: less_eq_div_iff_mult_less_eq mult.commute)

text \<open>Moving whole words moves every offset by a multiple of 64.\<close>

lemma wbit_shift_words:
  assumes "0 < w"
  shows "wbit (zeroWordsLoop w 0 (shiftWordsLoop w (length bm - 1) bm)) k \<longleftrightarrow>
    k < 64 * length bm \<and> 64 * w \<le> k \<and> wbit bm (k - 64 * w)"
proof (cases "k < 64 * length bm")
  case True
  then have q: "k div 64 < length bm" by auto
  then have "zeroWordsLoop w 0 (shiftWordsLoop w (length bm - 1) bm) ! (k div 64) =
      (if w \<le> k div 64 then bm ! (k div 64 - w) else 0)"
    using assms by (auto simp: nth_zeroWordsLoop nth_shiftWordsLoop)
  with True q show ?thesis
    by (auto simp: wbit_def div_mod_64_diff nat_64_le_iff)
next
  case False
  then show ?thesis by (simp add: wbit_def)
qed

text \<open>The bit loop moves every offset by less than 64, carrying between words.\<close>

definition shiftBits :: "nat \<Rightarrow> u64 list \<Rightarrow> u64 list" where
  "shiftBits b bm = (let bm' = shiftBitsLoop b (length bm - 1) bm in bm'[0 := push_bit b (bm' ! 0)])"

lemma length_shiftBits [simp]: "length (shiftBits b bm) = length bm"
  by (simp add: shiftBits_def Let_def)

lemma nth_shiftBits:
  assumes "j < length bm"
  shows "shiftBits b bm ! j =
    (if j = 0 then push_bit b (bm ! 0) else push_bit b (bm ! j) OR drop_bit (64 - b) (bm ! (j - 1)))"
  using assms by (auto simp: shiftBits_def Let_def nth_list_update nth_shiftBitsLoop)

lemma wbit_shift_bits:
  assumes b: "0 < b" "b < 64"
  shows "wbit (shiftBits b bm) k \<longleftrightarrow> k < 64 * length bm \<and> b \<le> k \<and> wbit bm (k - b)"
proof (cases "k < 64 * length bm")
  case True
  define q r where "q = k div 64" and "r = k mod 64"
  have k: "k = 64 * q + r" and r: "r < 64" and q: "q < length bm"
    using True by (auto simp: q_def r_def)
  show ?thesis
  proof (cases "b \<le> r")
    case br: True
    then have "k - b = 64 * q + (r - b)" using k by simp
    then have "(k - b) div 64 = q" "(k - b) mod 64 = r - b" using r by auto
    moreover have "b \<le> k" "k - b < 64 * length bm" using k br True by auto
    ultimately show ?thesis using br True q r b
      by (auto simp: wbit_def nth_shiftBits q_def [symmetric] r_def [symmetric] bit_simps)
  next
    case br: False
    show ?thesis
    proof (cases "q = 0")
      case True
      with br k q r show ?thesis
        by (auto simp: wbit_def nth_shiftBits bit_simps)
    next
      case q0: False
      then have "k - b = 64 * (q - 1) + (64 + r - b)" using k br b by (cases q) auto
      moreover have "64 + r - b < 64" using br by auto
      ultimately have "(k - b) div 64 = q - 1" "(k - b) mod 64 = 64 + r - b" by auto
      moreover have "b \<le> k" using k q0 b by auto
      ultimately show ?thesis using br True q q0 r b
        by (auto simp: wbit_def nth_shiftBits q_def [symmetric] r_def [symmetric] bit_simps)
    qed
  qed
next
  case False
  then show ?thesis by (simp add: wbit_def)
qed

lemma length_setBit [simp]: "length (bitmap (setBit rw off)) = length (bitmap rw)"
  by (simp add: setBit_def Let_def)

lemma setBit_fields [simp]:
  "lastSeq (setBit rw off) = lastSeq rw" "rsize (setBit rw off) = rsize rw"
  by (simp_all add: setBit_def Let_def)

lemma shiftBitmap_fields [simp]:
  "lastSeq (shiftBitmap rw n) = lastSeq rw" "rsize (shiftBitmap rw n) = rsize rw"
  "length (bitmap (shiftBitmap rw n)) = length (bitmap rw)"
  by (simp_all add: shiftBitmap_def Let_def)

lemma wbit_setBit:
  "wbit (bitmap (setBit rw off)) k \<longleftrightarrow>
     wbit (bitmap rw) k \<or> (unat off < 64 * length (bitmap rw) \<and> k = unat off)"
proof (cases "unat off < 64 * length (bitmap rw)")
  case True
  then have q: "unat off div 64 < length (bitmap rw)" by auto
  have "bit (push_bit (unat off mod 64) (1::u64)) (k mod 64) \<longleftrightarrow> k mod 64 = unat off mod 64"
    by (auto simp: bit_simps)
  with True q show ?thesis
    by (auto simp: setBit_def Let_def wbit_def unat_div_distrib unat_mod_distrib
        nth_list_update bit_or_iff) (metis div_mod_decomp)+
next
  case False
  then have "\<not> unat off div 64 < length (bitmap rw)" by auto
  with False show ?thesis by (simp add: setBit_def Let_def unat_div_distrib)
qed

definition rw_wf :: "ReplayWindow \<Rightarrow> bool" where
  "rw_wf rw \<longleftrightarrow> unat (rsize rw) = 64 * length (bitmap rw)"

lemma wbit_zeros [simp]: "\<not> wbit (replicate n 0) k"
  by (auto simp: wbit_def)

lemma wbit_shiftBitmap:
  assumes "rw_wf rw"
  shows "wbit (bitmap (shiftBitmap rw n)) k \<longleftrightarrow>
    k < 64 * length (bitmap rw) \<and> unat n \<le> k \<and> wbit (bitmap rw) (k - unat n)"
proof (cases "n \<ge> ucast (rsize rw)")
  case True
  then have "64 * length (bitmap rw) \<le> unat n"
    using assms by (simp add: word_le_nat_alt rw_wf_def)
  with True show ?thesis by (auto simp: shiftBitmap_def)
next
  case False
  define w b where "w = unat (n div 64)" and "b = unat (n mod 64)"
  have wb: "w = unat n div 64" "b = unat n mod 64"
    by (simp_all add: w_def b_def unat_div_distrib unat_mod_distrib)
  then have n: "unat n = 64 * w + b" and b: "b < 64" by simp_all
  define bm1 where "bm1 = (if w > 0
      then zeroWordsLoop w 0 (shiftWordsLoop w (length (bitmap rw) - 1) (bitmap rw)) else bitmap rw)"
  have len: "length bm1 = length (bitmap rw)" by (simp add: bm1_def)
  have 1: "wbit bm1 j \<longleftrightarrow> j < 64 * length (bitmap rw) \<and> 64 * w \<le> j \<and> wbit (bitmap rw) (j - 64 * w)" for j
    using wbit_shift_words [of w "bitmap rw" j] by (auto simp: bm1_def wbit_def)
  have "bitmap (shiftBitmap rw n) = (if b > 0 then shiftBits b bm1 else bm1)"
    using False by (simp add: shiftBitmap_def Let_def bm1_def w_def b_def shiftBits_def)
  then have "wbit (bitmap (shiftBitmap rw n)) k \<longleftrightarrow> k < 64 * length (bitmap rw) \<and> b \<le> k \<and> wbit bm1 (k - b)"
    using wbit_shift_bits [of b bm1 k] b len by (auto simp: 1)
  then show ?thesis by (auto simp: 1 n add.commute)
qed

lemma Check_within:
  assumes "rw_wf rw" and "seq \<noteq> 0" and "seq \<le> lastSeq rw"
  shows "Check rw seq \<longleftrightarrow> unat (lastSeq rw - seq) < unat (rsize rw) \<and>
    \<not> wbit (bitmap rw) (unat (lastSeq rw - seq))"
proof -
  have c: "\<not> lastSeq rw < seq" "lastSeq rw \<noteq> 0"
    using assms by (auto simp: not_less)
  have "ucast (rsize rw) \<le> lastSeq rw - seq \<longleftrightarrow> \<not> unat (lastSeq rw - seq) < unat (rsize rw)"
    by (simp add: word_le_nat_alt not_less)
  with c assms show ?thesis
    by (auto simp: Check_def Let_def and_exp_eq_0_iff_not_bit wbit_def rw_wf_def
        unat_div_distrib unat_mod_distrib)
qed

section \<open>Refinement of the abstract window\<close>

text \<open>
  The abstract window is the set \<open>H\<close> of all sequence numbers accepted so far.
  The code's state represents \<open>H\<close> when its highest number is \<open>lastSeq\<close> and the bits
  agree with \<open>H\<close> inside the window.
\<close>

definition represents :: "ReplayWindow \<Rightarrow> u64 set \<Rightarrow> bool" where
  "represents rw H \<longleftrightarrow> rw_wf rw \<and> 0 \<notin> H \<and> (\<forall>s\<in>H. s \<le> lastSeq rw) \<and>
     (lastSeq rw \<noteq> 0 \<longrightarrow> lastSeq rw \<in> H) \<and>
     (lastSeq rw = 0 \<longrightarrow> (\<forall>k. \<not> wbit (bitmap rw) k)) \<and>
     (\<forall>s. 0 < s \<and> s \<le> lastSeq rw \<and> unat (lastSeq rw - s) < unat (rsize rw) \<longrightarrow>
        (wbit (bitmap rw) (unat (lastSeq rw - s)) \<longleftrightarrow> s \<in> H))"

text \<open>RFC 4303: accept a number that is new and not left of the window.\<close>

definition fresh :: "u64 set \<Rightarrow> ReplayWindow \<Rightarrow> u64 \<Rightarrow> bool" where
  "fresh H rw seq \<longleftrightarrow> seq \<noteq> 0 \<and> seq \<notin> H \<and>
     (seq > lastSeq rw \<or> unat (lastSeq rw) - unat seq < unat (rsize rw))"

lemma Check_iff_fresh:
  assumes "represents rw H"
  shows "Check rw seq \<longleftrightarrow> fresh H rw seq"
proof -
  consider "seq = 0" | "seq \<noteq> 0" "seq > lastSeq rw" | "seq \<noteq> 0" "seq \<le> lastSeq rw"
    by fastforce
  then show ?thesis
  proof cases
    case 2
    with assms show ?thesis by (auto simp: Check_def fresh_def represents_def)
  next
    case 3
    then have 0: "lastSeq rw \<noteq> 0" "0 < seq" by (auto simp: word_gt_0)
    have d: "unat (lastSeq rw - seq) = unat (lastSeq rw) - unat seq"
      using 3 by (simp add: unat_sub)
    have "Check rw seq \<longleftrightarrow> unat (lastSeq rw - seq) < unat (rsize rw) \<and>
        \<not> wbit (bitmap rw) (unat (lastSeq rw - seq))"
      using 3 assms by (intro Check_within) (auto simp: represents_def)
    with 3 0 assms show ?thesis by (auto simp: fresh_def represents_def d)
  qed (simp add: Check_def fresh_def)
qed

lemma Advance_rw_wf [simp]: "rw_wf rw \<Longrightarrow> rw_wf (Advance rw seq)"
  by (simp add: Advance_def rw_wf_def Let_def)

lemma lastSeq_Advance: "lastSeq (Advance rw seq) = (if seq > lastSeq rw then seq else lastSeq rw)"
  by (auto simp: Advance_def Let_def word_gt_0)

lemma rsize_Advance [simp]: "rsize (Advance rw seq) = rsize rw"
  by (simp add: Advance_def Let_def)

lemma wbit_Advance_new:
  assumes "rw_wf rw" and "seq > lastSeq rw" and "lastSeq rw = 0 \<longrightarrow> (\<forall>k. \<not> wbit (bitmap rw) k)"
  shows "wbit (bitmap (Advance rw seq)) k \<longleftrightarrow> k < unat (rsize rw) \<and>
    (k = 0 \<or> (unat seq - unat (lastSeq rw) \<le> k \<and>
       wbit (bitmap rw) (k - (unat seq - unat (lastSeq rw)))))"
proof (cases "lastSeq rw = 0")
  case True
  with assms show ?thesis
    by (auto simp: Advance_def wbit_setBit rw_wf_def)
next
  case False
  have d: "unat (seq - lastSeq rw) = unat seq - unat (lastSeq rw)"
    using assms(2) by (intro unat_sub) simp
  have "seq \<noteq> 0" using assms(2) by auto
  with False assms show ?thesis
    by (auto simp: Advance_def wbit_setBit wbit_shiftBitmap d rw_wf_def)
qed

lemma wbit_Advance_old:
  assumes "rw_wf rw" and "seq \<noteq> 0" and "seq \<le> lastSeq rw"
  shows "wbit (bitmap (Advance rw seq)) k \<longleftrightarrow> wbit (bitmap rw) k \<or>
    (unat (lastSeq rw - seq) < unat (rsize rw) \<and> k = unat (lastSeq rw - seq))"
proof -
  have "\<not> lastSeq rw < seq" "lastSeq rw \<noteq> 0" using assms by (auto simp: not_less)
  with assms show ?thesis
    by (auto simp: Advance_def Let_def wbit_setBit rw_wf_def word_less_nat_alt)
qed

lemma Advance_represents:
  assumes R: "represents rw H" and F: "fresh H rw seq"
  shows "represents (Advance rw seq) (insert seq H)"
proof (cases "seq > lastSeq rw")
  case True
  have "(wbit (bitmap (Advance rw seq)) (unat (seq - s)) \<longleftrightarrow> s \<in> insert seq H)"
    if "0 < s" "s \<le> seq" "unat (seq - s) < unat (rsize rw)" for s
  proof -
    have d: "unat (seq - s) = unat seq - unat s" using that by (simp add: unat_sub)
    have w: "wbit (bitmap (Advance rw seq)) (unat (seq - s)) \<longleftrightarrow>
      s = seq \<or> (unat s \<le> unat (lastSeq rw) \<and> wbit (bitmap rw) (unat (lastSeq rw) - unat s))"
      using R True that
      by (subst wbit_Advance_new)
        (auto simp: represents_def d word_less_nat_alt word_le_nat_alt word_unat_eq_iff)
    show ?thesis
    proof (cases "s \<le> lastSeq rw")
      case sl: True
      then have "unat (lastSeq rw - s) = unat (lastSeq rw) - unat s" by (simp add: unat_sub)
      moreover have "unat (lastSeq rw) - unat s < unat (rsize rw)"
        using that d True by (simp add: word_less_nat_alt)
      ultimately show ?thesis using R sl that
        by (auto simp: w represents_def word_le_nat_alt)
    next
      case False
      then show ?thesis using R by (auto simp: w represents_def word_le_nat_alt)
    qed
  qed
  with R F True show ?thesis
    by (auto simp: represents_def lastSeq_Advance fresh_def)
next
  case False
  then have le: "seq \<le> lastSeq rw" "seq \<noteq> 0" using F by (auto simp: fresh_def)
  then have d: "unat (lastSeq rw - seq) < unat (rsize rw)"
    using F False by (simp add: fresh_def unat_sub)
  have "unat (lastSeq rw - s) = unat (lastSeq rw - seq) \<longleftrightarrow> s = seq" for s
    by (auto simp flip: word_unat_eq_iff dest: diff_left_imp_eq)
  with R le False d show ?thesis
    by (auto simp: represents_def lastSeq_Advance wbit_Advance_old)
qed

lemma rw_wf_New: "rw_wf (NewReplayWindow n)"
proof -
  define x :: u32 where "x = (if n = 0 then DefaultReplayWindowSize else n) + 63"
  have "unat x div 64 * 64 \<le> unat x" by simp
  also have "\<dots> < 2 ^ 32" using u32_unat_less [of x] by simp
  finally have "unat (x div 64 * 64) = 64 * unat (x div 64)"
    by (simp add: unat_word_ariths unat_div_distrib mult.commute)
  then show ?thesis by (simp add: rw_wf_def NewReplayWindow_def Let_def x_def)
qed

lemma New_represents: "represents (NewReplayWindow n) {}"
  using rw_wf_New [of n]
  by (simp add: represents_def) (simp add: NewReplayWindow_def Let_def)

lemma lastSeq_is_Max: "represents rw H \<Longrightarrow> lastSeq rw = Max (insert 0 H)"
  by (rule sym, rule Max_eqI) (auto simp: represents_def)

section \<open>The guard as an interface\<close>

text \<open>
  What the ESP receive path relies on: a check that refuses everything already
  accepted, and an update that records what has been accepted.
\<close>

primrec deliver :: "('s \<Rightarrow> 'n \<Rightarrow> bool) \<Rightarrow> ('s \<Rightarrow> 'n \<Rightarrow> 's) \<Rightarrow> 's \<Rightarrow> 'n list \<Rightarrow> 'n list \<times> 's" where
  "deliver check advance s [] = ([], s)"
| "deliver check advance s (n # ns) =
     (if check s n
      then (let (out, s') = deliver check advance (advance s n) ns in (n # out, s'))
      else deliver check advance s ns)"

locale replay_guard =
  fixes check :: "'s \<Rightarrow> 'n \<Rightarrow> bool"
    and advance :: "'s \<Rightarrow> 'n \<Rightarrow> 's"
    and rep :: "'s \<Rightarrow> 'n set \<Rightarrow> bool"
  assumes check_new: "rep s H \<Longrightarrow> check s n \<Longrightarrow> n \<notin> H"
    and advance_rep: "rep s H \<Longrightarrow> check s n \<Longrightarrow> rep (advance s n) (insert n H)"
begin

lemma deliver_once:
  assumes "rep s H" and "deliver check advance s ns = (out, s')"
  shows "distinct out \<and> set out \<inter> H = {} \<and> rep s' (H \<union> set out)"
  using assms
proof (induction ns arbitrary: s H out)
  case Nil
  then show ?case by simp
next
  case (Cons n ns)
  show ?case
  proof (cases "check s n")
    case True
    with Cons.prems obtain out' where o: "deliver check advance (advance s n) ns = (out', s')"
      "out = n # out'" by (auto split: prod.splits)
    with Cons.IH [OF advance_rep [OF Cons.prems(1) True] o(1)] check_new [OF Cons.prems(1) True]
    show ?thesis by auto
  next
    case False
    with Cons.prems Cons.IH [OF Cons.prems(1)] show ?thesis by simp
  qed
qed

end

lemma fresh_D: "fresh H rw seq \<Longrightarrow> seq \<notin> H"
  by (simp add: fresh_def)

interpretation rw: replay_guard Check Advance represents
  by unfold_locales (auto simp: Check_iff_fresh intro: Advance_represents fresh_D dest: fresh_D)

section \<open>Properties\<close>

text \<open>
  C3. Anti-replay safety: whatever sequence numbers arrive at a fresh window of any
  size, and in whatever order, none passes \<open>Check\<close> (each passing one being recorded
  with \<open>Advance\<close>) twice.
\<close>

theorem replay_no_duplicates:
  "distinct (fst (deliver Check Advance (NewReplayWindow n) seqs))"
  using rw.deliver_once [OF New_represents [of n]] by (metis prod.collapse)

text \<open>The window of RFC 4303 over the set \<open>H\<close> of accepted numbers.\<close>

definition window_accepts :: "nat \<Rightarrow> u64 set \<Rightarrow> u64 \<Rightarrow> bool" where
  "window_accepts W H seq \<longleftrightarrow> seq \<noteq> 0 \<and> seq \<notin> H \<and> unat (Max (insert 0 H)) < unat seq + W"

lemma fresh_iff_window_accepts:
  "represents rw H \<Longrightarrow> fresh H rw seq \<longleftrightarrow> window_accepts (unat (rsize rw)) H seq"
  by (auto simp: fresh_def window_accepts_def lastSeq_is_Max [symmetric] word_less_nat_alt)

text \<open>
  C15. Refinement: after any run, the bitmap window accepts exactly the numbers that the
  RFC 4303 window over the set of accepted numbers accepts: new, non-zero, and less than
  the window size behind the highest accepted one. Nothing new inside the window is lost.
\<close>

theorem replay_refines_rfc_window:
  "Check (snd (deliver Check Advance (NewReplayWindow n) seqs)) seq \<longleftrightarrow>
   window_accepts (unat (rsize (snd (deliver Check Advance (NewReplayWindow n) seqs))))
     (set (fst (deliver Check Advance (NewReplayWindow n) seqs))) seq"
proof -
  obtain out rw where d: "deliver Check Advance (NewReplayWindow n) seqs = (out, rw)"
    by fastforce
  then have "represents rw (set out)"
    using rw.deliver_once [OF New_represents [of n]] by fastforce
  then show ?thesis
    by (simp add: d Check_iff_fresh fresh_iff_window_accepts)
qed

text \<open>
  The constructor rounds the requested size up to the next multiple of 64, for every
  request up to \<open>2 ^ 32 - 64\<close>; the two's-complement wrap of the rounding starts there.
\<close>

theorem NewReplayWindow_rounds_up:
  assumes "0 < n" and "unat n \<le> 2 ^ 32 - 64"
  shows "unat (rsize (NewReplayWindow n)) = 64 * ((unat n + 63) div 64) \<and>
    unat n \<le> unat (rsize (NewReplayWindow n)) \<and>
    length (bitmap (NewReplayWindow n)) = (unat n + 63) div 64"
proof -
  have "unat (n + 63) = unat n + 63"
    using assms(2) by (simp add: unat_word_ariths)
  then have "length (bitmap (NewReplayWindow n)) = (unat n + 63) div 64"
    using assms(1) by (simp add: NewReplayWindow_def Let_def unat_div_distrib)
  with rw_wf_New [of n] show ?thesis by (simp add: rw_wf_def)
qed

theorem NewReplayWindow_rounds_up_witness:
  "unat (rsize (NewReplayWindow 100)) = 64 * ((unat (100 :: u32) + 63) div 64)"
  using NewReplayWindow_rounds_up [of 100] by simp

text \<open>Past that bound the rounding wraps: the largest request gives an empty window.\<close>

lemma NewReplayWindow_wraps: "rsize (NewReplayWindow 4294967295) = 0 \<and> bitmap (NewReplayWindow 4294967295) = []"
  by (simp add: NewReplayWindow_def)

end
