(* ===== verification/NetIP.thy ===== *)
theory NetIP
  imports Prelude
begin

text \<open>
  The part of Go's \<^verbatim>\<open>net.IP\<close> that the daemon uses. An IP is a byte slice of 4 or 16
  bytes; the empty list is nil (or an invalid address). \<^verbatim>\<open>String()\<close> is used only as a map
  key and in log lines, so its text is represented by the datum that it prints.
\<close>

type_synonym ip = bytes

text \<open>A UDP endpoint.\<close>

record udp_addr =
  addrIP :: ip
  addrPort :: nat

definition v4InV6Prefix :: bytes where
  "v4InV6Prefix = replicate 10 0 @ [255, 255]"

definition To4 :: "ip \<Rightarrow> ip" where
  "To4 ip =
     (if length ip = 4 then ip
      else if length ip = 16 \<and> take 12 ip = v4InV6Prefix then drop 12 ip
      else [])"

definition To16 :: "ip \<Rightarrow> ip" where
  "To16 ip =
     (if length ip = 4 then v4InV6Prefix @ ip
      else if length ip = 16 then ip
      else [])"

definition IPEqual :: "ip \<Rightarrow> ip \<Rightarrow> bool" where
  "IPEqual ip x =
     (if length ip = length x then ip = x
      else if length ip = 4 \<and> length x = 16 then take 12 x = v4InV6Prefix \<and> ip = drop 12 x
      else if length ip = 16 \<and> length x = 4 then take 12 ip = v4InV6Prefix \<and> drop 12 ip = x
      else False)"

datatype ip_text = TextNil | TextV4 bytes | TextV6 bytes | TextBad bytes

definition IPString :: "ip \<Rightarrow> ip_text" where
  "IPString ip =
     (if ip = [] then TextNil
      else if length ip \<noteq> 4 \<and> length ip \<noteq> 16 then TextBad ip
      else if To4 ip \<noteq> [] then TextV4 (To4 ip)
      else TextV6 ip)"

lemma length_v4InV6Prefix [simp]: "length v4InV6Prefix = 12"
  by (simp add: v4InV6Prefix_def)

lemma To4_length4 [simp]: "length ip = 4 \<Longrightarrow> To4 ip = ip"
  by (simp add: To4_def)

lemma To4_cases: "To4 ip = [] \<or> length (To4 ip) = 4"
  by (simp add: To4_def)

lemma To4_Nil [simp]: "To4 [] = []"
  by (simp add: To4_def)

lemma To4_To4 [simp]: "To4 (To4 ip) = To4 ip"
  using To4_cases [of ip] by auto

text \<open>The 16-byte form is a sound map key: it identifies exactly the equal addresses.\<close>

lemma To16_eq_iff_IPEqual:
  assumes "length a = 4 \<or> length a = 16" and "length b = 4 \<or> length b = 16"
  shows "To16 a = To16 b \<longleftrightarrow> IPEqual a b"
  using assms append_take_drop_id [of 12 a] append_take_drop_id [of 12 b]
  by (auto simp: To16_def IPEqual_def) (metis append_eq_conv_conj length_v4InV6Prefix)+

end
