(* ===== verification/EspSa.thy ===== *)
theory EspSa
  imports EspReplay NetIP
begin

text \<open>
  Cipher and integrity suites (\<^verbatim>\<open>internal/esp/cipher.go\<close>, \<^verbatim>\<open>integrity.go\<close>), the
  security association and the SA database (\<^verbatim>\<open>sa.go\<close>).

  Suites are the source's \<^verbatim>\<open>uint8\<close> codes, so that every \<^verbatim>\<open>default\<close> branch is a case of
  the model. The ciphers behind Go's \<^verbatim>\<open>cipher.AEAD\<close> and \<^verbatim>\<open>cipher.Block\<close> interfaces, and
  HMAC, are values of the interface records below; the constructors that produce them
  (\<^verbatim>\<open>aes.NewCipher\<close>, \<^verbatim>\<open>cipher.NewGCM\<close>, \<^verbatim>\<open>chacha20poly1305.New\<close>) are a record of functions
  passed to the code that calls them. Go pointers to an SA are addresses (natural
  numbers) of a store, because the database, the SPD and the default slot of the engine
  share them.
\<close>

section \<open>Interfaces of the cryptographic libraries\<close>

record aead =
  Seal :: "bytes \<Rightarrow> bytes \<Rightarrow> bytes \<Rightarrow> bytes"
  Open :: "bytes \<Rightarrow> bytes \<Rightarrow> bytes \<Rightarrow> bytes option"
  Overhead :: nat

record block =
  EncryptBlock :: "bytes \<Rightarrow> bytes"
  DecryptBlock :: "bytes \<Rightarrow> bytes"

datatype hash_alg = SHA1 | SHA256 | SHA384 | SHA512

type_synonym hmac_fun = "hash_alg \<Rightarrow> bytes \<Rightarrow> bytes \<Rightarrow> bytes"

record crypto_lib =
  aesNewCipher :: "bytes \<Rightarrow> block option"
  cipherNewGCM :: "block \<Rightarrow> aead option"
  chachaNew :: "bytes \<Rightarrow> aead option"

section \<open>Cipher suites\<close>

type_synonym CipherSuite = byte

abbreviation (input) AES128GCM :: CipherSuite where "AES128GCM \<equiv> 1"
abbreviation (input) AES256GCM :: CipherSuite where "AES256GCM \<equiv> 2"
abbreviation (input) CHACHA20POLY1305 :: CipherSuite where "CHACHA20POLY1305 \<equiv> 3"
abbreviation (input) AES128CBC :: CipherSuite where "AES128CBC \<equiv> 10"
abbreviation (input) AES256CBC :: CipherSuite where "AES256CBC \<equiv> 11"

definition IsAEAD :: "CipherSuite \<Rightarrow> bool" where
  "IsAEAD suite =
     (if suite = AES128GCM \<or> suite = AES256GCM \<or> suite = CHACHA20POLY1305 then True else False)"

definition AEADKeySize :: "CipherSuite \<Rightarrow> nat" where
  "AEADKeySize suite =
     (if suite = AES128GCM then 16
      else if suite = AES256GCM then 32
      else if suite = CHACHA20POLY1305 then 32
      else 0)"

definition CipherKeySize :: "CipherSuite \<Rightarrow> nat" where
  "CipherKeySize suite =
     (if suite = AES128GCM then 16
      else if suite = AES256GCM then 32
      else if suite = CHACHA20POLY1305 then 32
      else if suite = AES128CBC then 16
      else if suite = AES256CBC then 32
      else 0)"

definition aesBlockSize :: nat where
  "aesBlockSize = 16"

definition CBCIVSize :: "CipherSuite \<Rightarrow> nat" where
  "CBCIVSize suite = (if suite = AES128CBC \<or> suite = AES256CBC then aesBlockSize else 0)"

definition CBCBlockSize :: "CipherSuite \<Rightarrow> nat" where
  "CBCBlockSize suite = (if suite = AES128CBC \<or> suite = AES256CBC then aesBlockSize else 0)"

definition AEADSaltSize :: "CipherSuite \<Rightarrow> nat" where
  "AEADSaltSize suite = 4"

definition AEADIVSize :: "CipherSuite \<Rightarrow> nat" where
  "AEADIVSize suite = 8"

definition AEADNonceSize :: "CipherSuite \<Rightarrow> nat" where
  "AEADNonceSize suite = 12"

definition AEADOverhead :: "CipherSuite \<Rightarrow> aead \<Rightarrow> nat" where
  "AEADOverhead suite a = AEADIVSize suite + Overhead a"

datatype esp_error =
    UnsupportedSuite CipherSuite
  | BadKeySize nat nat
  | CipherInit
  | UnsupportedInteg byte
  | BadSaltLen nat
  | BadIVLen nat
  | NilSA
  | SpiZero
  | SpiReserved u32
  | SpiExists u32
  | RandomFailed
  | AEADNotInitialized
  | CBCNotInitialized
  | IntegNotInitialized
  | SeqOverflow
  | PacketTooShort nat nat
  | ReplayRejected u32 u32
  | AuthFailed
  | NotBlockAligned nat
  | PlaintextTooShort nat
  | BadPadLength nat nat
  | NattTooShort nat
  | NilSender
  | Panic

text \<open>\<open>Panic\<close> is not a Go error: it is the run-time panic of a call whose guard is missing.\<close>

definition NewAEAD :: "crypto_lib \<Rightarrow> CipherSuite \<Rightarrow> bytes \<Rightarrow> esp_error + aead" where
  "NewAEAD cl suite key =
     (let expectedKeySize = AEADKeySize suite in
      if expectedKeySize = 0 then Inl (UnsupportedSuite suite)
      else if length key \<noteq> expectedKeySize then Inl (BadKeySize expectedKeySize (length key))
      else if suite = AES128GCM \<or> suite = AES256GCM then
        (case aesNewCipher cl key of
           None \<Rightarrow> Inl CipherInit
         | Some block \<Rightarrow>
             (case cipherNewGCM cl block of None \<Rightarrow> Inl CipherInit | Some a \<Rightarrow> Inr a))
      else if suite = CHACHA20POLY1305 then
        (case chachaNew cl key of None \<Rightarrow> Inl CipherInit | Some a \<Rightarrow> Inr a)
      else Inl (UnsupportedSuite suite))"

definition BuildNonce :: "bytes \<Rightarrow> bytes \<Rightarrow> esp_error + bytes" where
  "BuildNonce salt iv =
     (if length salt \<noteq> 4 then Inl (BadSaltLen (length salt))
      else if length iv \<noteq> 8 then Inl (BadIVLen (length iv))
      else Inr (copy_at 4 iv (copy_at 0 salt (replicate 12 0))))"

definition SequenceToIV :: "u64 \<Rightarrow> bytes" where
  "SequenceToIV seqNum =
     [ucast (drop_bit 56 seqNum), ucast (drop_bit 48 seqNum), ucast (drop_bit 40 seqNum),
      ucast (drop_bit 32 seqNum), ucast (drop_bit 24 seqNum), ucast (drop_bit 16 seqNum),
      ucast (drop_bit 8 seqNum), ucast seqNum]"

lemmas suite_defs =
  IsAEAD_def AEADKeySize_def CipherKeySize_def aesBlockSize_def CBCIVSize_def CBCBlockSize_def
  AEADSaltSize_def AEADIVSize_def AEADNonceSize_def AEADOverhead_def

lemma IsAEAD_iff_key: "IsAEAD suite \<longleftrightarrow> AEADKeySize suite \<noteq> 0"
  by (simp add: suite_defs)

lemma CBC_not_AEAD: "CBCBlockSize suite \<noteq> 0 \<Longrightarrow> \<not> IsAEAD suite"
  by (auto simp: suite_defs split: if_splits)

lemma BuildNonce_ok:
  "length salt = 4 \<Longrightarrow> length iv = 8 \<Longrightarrow> BuildNonce salt iv = Inr (salt @ iv)"
  by (simp add: BuildNonce_def copy_at_def)

lemma BuildNonce_Inr_iff:
  "BuildNonce salt iv = Inr nonce \<longleftrightarrow> length salt = 4 \<and> length iv = 8 \<and> nonce = salt @ iv"
  by (cases "length salt = 4"; cases "length iv = 8") (auto simp: BuildNonce_ok, auto simp: BuildNonce_def)

lemma length_SequenceToIV [simp]: "length (SequenceToIV s) = 8"
  by (simp add: SequenceToIV_def)

text \<open>The explicit IV determines the sequence number, so nonces of one SA never repeat.\<close>

lemma SequenceToIV_inj: "SequenceToIV s = SequenceToIV t \<longleftrightarrow> s = t"
proof
  assume e: "SequenceToIV s = SequenceToIV t"
  show "s = t"
  proof (rule bit_word_eqI)
    fix n :: nat
    assume n: "n < LENGTH(64)"
    have "bit (ucast (drop_bit (8 * k) s) :: byte) j = bit (ucast (drop_bit (8 * k) t) :: byte) j"
      if "k < 8" for k j
    proof -
      have "k = 0 \<or> k = 1 \<or> k = 2 \<or> k = 3 \<or> k = 4 \<or> k = 5 \<or> k = 6 \<or> k = 7"
        using that by linarith
      then show ?thesis using e by (elim disjE) (simp_all add: SequenceToIV_def)
    qed
    from this [of "n div 8" "n mod 8"] n show "bit s n = bit t n"
      by (auto simp: bit_simps)
  qed
qed simp

section \<open>Integrity suites\<close>

type_synonym IntegritySuite = byte

abbreviation (input) IntegNone :: IntegritySuite where "IntegNone \<equiv> 0"
abbreviation (input) IntegHMAC_SHA1_96 :: IntegritySuite where "IntegHMAC_SHA1_96 \<equiv> 1"
abbreviation (input) IntegHMAC_SHA256_128 :: IntegritySuite where "IntegHMAC_SHA256_128 \<equiv> 2"
abbreviation (input) IntegHMAC_SHA384_192 :: IntegritySuite where "IntegHMAC_SHA384_192 \<equiv> 3"
abbreviation (input) IntegHMAC_SHA512_256 :: IntegritySuite where "IntegHMAC_SHA512_256 \<equiv> 4"

definition IntegrityKeySize :: "IntegritySuite \<Rightarrow> nat" where
  "IntegrityKeySize suite =
     (if suite = IntegHMAC_SHA1_96 then 20
      else if suite = IntegHMAC_SHA256_128 then 32
      else if suite = IntegHMAC_SHA384_192 then 48
      else if suite = IntegHMAC_SHA512_256 then 64
      else 0)"

definition IntegrityICVSize :: "IntegritySuite \<Rightarrow> nat" where
  "IntegrityICVSize suite =
     (if suite = IntegHMAC_SHA1_96 then 12
      else if suite = IntegHMAC_SHA256_128 then 16
      else if suite = IntegHMAC_SHA384_192 then 24
      else if suite = IntegHMAC_SHA512_256 then 32
      else 0)"

record IntegrityAlgorithm =
  ia_suite :: IntegritySuite
  ia_key :: bytes
  ia_hash :: hash_alg
  ia_icvSize :: nat

definition NewIntegrity :: "IntegritySuite \<Rightarrow> bytes \<Rightarrow> esp_error + IntegrityAlgorithm" where
  "NewIntegrity suite key =
     (let expectedKeySize = IntegrityKeySize suite;
          mk = (\<lambda>h. Inr \<lparr>ia_suite = suite, ia_key = key, ia_hash = h,
                         ia_icvSize = IntegrityICVSize suite\<rparr>)
      in
      if expectedKeySize = 0 then Inl (UnsupportedInteg suite)
      else if length key \<noteq> expectedKeySize then Inl (BadKeySize expectedKeySize (length key))
      else if suite = IntegHMAC_SHA1_96 then mk SHA1
      else if suite = IntegHMAC_SHA256_128 then mk SHA256
      else if suite = IntegHMAC_SHA384_192 then mk SHA384
      else if suite = IntegHMAC_SHA512_256 then mk SHA512
      else Inl (UnsupportedInteg suite))"

text \<open>\<^verbatim>\<open>full[:icvSize]\<close> copied into a fresh slice of \<open>icvSize\<close> bytes.\<close>

definition Compute :: "hmac_fun \<Rightarrow> IntegrityAlgorithm \<Rightarrow> bytes \<Rightarrow> bytes" where
  "Compute hmac ia data =
     copy_at 0 (slice 0 (ia_icvSize ia) (hmac (ia_hash ia) (ia_key ia) data))
       (replicate (ia_icvSize ia) 0)"

definition Verify :: "hmac_fun \<Rightarrow> IntegrityAlgorithm \<Rightarrow> bytes \<Rightarrow> bytes \<Rightarrow> bool" where
  "Verify hmac ia data icv =
     (if length icv \<noteq> ia_icvSize ia then False else Compute hmac ia data = icv)"

lemma length_Compute [simp]: "length (Compute hmac ia data) = ia_icvSize ia"
  by (simp add: Compute_def)

lemma Verify_Compute [simp]: "Verify hmac ia data (Compute hmac ia data)"
  by (simp add: Verify_def)

lemma Verify_iff: "Verify hmac ia data icv \<longleftrightarrow> icv = Compute hmac ia data"
  by (auto simp: Verify_def)

lemma NewIntegrity_icv:
  "NewIntegrity suite key = Inr ia \<Longrightarrow>
     ia_icvSize ia = IntegrityICVSize suite \<and> ia_suite ia = suite \<and> ia_key ia = key \<and>
     length key = IntegrityKeySize suite \<and> IntegrityKeySize suite \<noteq> 0"
  by (auto simp: NewIntegrity_def Let_def split: if_splits)

section \<open>Security associations\<close>

record SecurityAssociation =
  SPI :: u32
  SeqNum :: u64
  ESN :: bool
  Suite :: CipherSuite
  AEAD :: "aead option"
  CBCBlock :: "block option"
  Salt :: bytes
  IntegSuite :: IntegritySuite
  Integrity :: "IntegrityAlgorithm option"
  Replay :: "ReplayWindow option"
  PeerAddr :: "udp_addr option"
  TunnelMode :: bool

definition NewSecurityAssociation ::
  "crypto_lib \<Rightarrow> u32 \<Rightarrow> CipherSuite \<Rightarrow> bytes \<Rightarrow> bytes \<Rightarrow> udp_addr option \<Rightarrow> bool \<Rightarrow>
   esp_error + SecurityAssociation" where
  "NewSecurityAssociation cl spi suite key salt peer withReplay =
     (case NewAEAD cl suite key of
        Inl e \<Rightarrow> Inl e
      | Inr a \<Rightarrow> Inr
          \<lparr>SPI = spi, SeqNum = 0, ESN = False, Suite = suite, AEAD = Some a, CBCBlock = None,
           Salt = copy_at 0 salt (replicate (AEADSaltSize suite) 0), IntegSuite = IntegNone,
           Integrity = None,
           Replay = (if withReplay then Some (NewReplayWindow DefaultReplayWindowSize) else None),
           PeerAddr = peer, TunnelMode = True\<rparr>)"

definition NewCBCSecurityAssociation ::
  "crypto_lib \<Rightarrow> u32 \<Rightarrow> CipherSuite \<Rightarrow> bytes \<Rightarrow> IntegritySuite \<Rightarrow> bytes \<Rightarrow> udp_addr option \<Rightarrow> bool \<Rightarrow>
   esp_error + SecurityAssociation" where
  "NewCBCSecurityAssociation cl spi suite encrKey integSuite integKey peer withReplay =
     (let expectedKeySize = CipherKeySize suite in
      if expectedKeySize = 0 then Inl (UnsupportedSuite suite)
      else if length encrKey \<noteq> expectedKeySize
        then Inl (BadKeySize expectedKeySize (length encrKey))
      else (case aesNewCipher cl encrKey of
              None \<Rightarrow> Inl CipherInit
            | Some block \<Rightarrow>
                (case NewIntegrity integSuite integKey of
                   Inl e \<Rightarrow> Inl e
                 | Inr integ \<Rightarrow> Inr
                     \<lparr>SPI = spi, SeqNum = 0, ESN = False, Suite = suite, AEAD = None,
                      CBCBlock = Some block, Salt = [], IntegSuite = integSuite,
                      Integrity = Some integ,
                      Replay = (if withReplay then Some (NewReplayWindow DefaultReplayWindowSize)
                                else None),
                      PeerAddr = peer, TunnelMode = True\<rparr>)))"

text \<open>
  What the packet code needs of an SA: an AEAD suite comes with its cipher and a 4-byte
  salt, a CBC suite with its block cipher and an integrity algorithm.
\<close>

definition sa_ready :: "SecurityAssociation \<Rightarrow> bool" where
  "sa_ready sa \<longleftrightarrow>
     (if IsAEAD (Suite sa) then AEAD sa \<noteq> None \<and> length (Salt sa) = 4
      else CBCBlock sa \<noteq> None \<and> Integrity sa \<noteq> None \<and> CBCBlockSize (Suite sa) = 16)"

lemma NewAEAD_suite: "NewAEAD cl suite key = Inr a \<Longrightarrow> IsAEAD suite \<and> length key = AEADKeySize suite"
  by (auto simp: NewAEAD_def Let_def IsAEAD_iff_key split: if_splits)

lemma NewSecurityAssociation_ready:
  assumes "NewSecurityAssociation cl spi suite key salt peer wr = Inr sa"
  shows "sa_ready sa \<and> SPI sa = spi \<and> SeqNum sa = 0 \<and> \<not> ESN sa"
  using assms NewAEAD_suite [of cl suite key]
  by (auto simp: NewSecurityAssociation_def sa_ready_def AEADSaltSize_def split: sum.splits)

lemma NewCBCSecurityAssociation_ready:
  assumes "NewCBCSecurityAssociation cl spi suite ek is ik peer wr = Inr sa" and "\<not> IsAEAD suite"
  shows "sa_ready sa \<and> SPI sa = spi \<and> SeqNum sa = 0 \<and> \<not> ESN sa"
  using assms
  by (auto simp: NewCBCSecurityAssociation_def sa_ready_def Let_def suite_defs
      split: sum.splits option.splits if_splits)

section \<open>Documented behaviour of the library ciphers\<close>

text \<open>
  Named hypotheses on the interface values: an AEAD of the Go library adds a 16-byte tag
  and opens what it sealed; a block cipher keeps the block length and inverts itself; an
  HMAC is as long as its hash.
\<close>

definition aead_ok :: "aead \<Rightarrow> bool" where
  "aead_ok a \<longleftrightarrow> Overhead a = 16 \<and>
     (\<forall>nonce p ad. length nonce = 12 \<longrightarrow>
        length (Seal a nonce p ad) = length p + 16 \<and> Open a nonce (Seal a nonce p ad) ad = Some p)"

definition block_ok :: "block \<Rightarrow> bool" where
  "block_ok b \<longleftrightarrow>
     (\<forall>x. length x = 16 \<longrightarrow> length (EncryptBlock b x) = 16 \<and> DecryptBlock b (EncryptBlock b x) = x)"

text \<open>Concrete instances, for witnesses.\<close>

definition example_aead :: aead where
  "example_aead =
     \<lparr>Seal = (\<lambda>nonce p ad. p @ replicate 16 0),
      Open = (\<lambda>nonce c ad. if 16 \<le> length c \<and> drop (length c - 16) c = replicate 16 0
                then Some (take (length c - 16) c) else None),
      Overhead = 16\<rparr>"

definition example_block :: block where
  "example_block = \<lparr>EncryptBlock = rev, DecryptBlock = rev\<rparr>"

definition example_sa :: SecurityAssociation where
  "example_sa =
     \<lparr>SPI = 256, SeqNum = 0, ESN = False, Suite = AES256GCM, AEAD = Some example_aead,
      CBCBlock = None, Salt = [1, 2, 3, 4], IntegSuite = IntegNone, Integrity = None,
      Replay = Some (NewReplayWindow DefaultReplayWindowSize),
      PeerAddr = None, TunnelMode = True\<rparr>"

definition example_cbc_sa :: SecurityAssociation where
  "example_cbc_sa =
     \<lparr>SPI = 257, SeqNum = 0, ESN = False, Suite = AES256CBC, AEAD = None,
      CBCBlock = Some example_block, Salt = [], IntegSuite = IntegHMAC_SHA256_128,
      Integrity = Some \<lparr>ia_suite = IntegHMAC_SHA256_128, ia_key = replicate 32 7,
        ia_hash = SHA256, ia_icvSize = 16\<rparr>,
      Replay = Some (NewReplayWindow DefaultReplayWindowSize),
      PeerAddr = None, TunnelMode = True\<rparr>"

lemma example_aead_ok [simp]: "aead_ok example_aead"
  by (simp add: aead_ok_def example_aead_def)

lemma example_block_ok [simp]: "block_ok example_block"
  by (simp add: block_ok_def example_block_def)

lemma example_sa_fields:
  "SPI example_sa = 256" "SeqNum example_sa = 0" "ESN example_sa = False" "IsAEAD (Suite example_sa)"
  "AEAD example_sa = Some example_aead" "Replay example_sa = Some (NewReplayWindow DefaultReplayWindowSize)"
  "PeerAddr example_sa = None"
  by (simp_all add: example_sa_def suite_defs)

end
