(* ===== verification/EspPacket.thy ===== *)
theory EspPacket
  imports EspSa
begin

unbundle bit_operations_syntax

text \<open>
  ESP packet processing, \<^verbatim>\<open>internal/esp/packet.go\<close>: header, trailer, AEAD and CBC
  encryption and decryption. \<^verbatim>\<open>Encrypt\<close> and \<^verbatim>\<open>Decrypt\<close> take the SA and return it updated
  (the sequence counter of the sender, the replay window of the receiver). The CBC mode
  of \<^verbatim>\<open>crypto/cipher\<close> is spelled out over the block cipher; the bytes that \<^verbatim>\<open>rand.Read\<close>
  delivers for the IV are an argument, \<^const>\<open>None\<close> when it fails.
\<close>

section \<open>Header\<close>

definition ESPHeaderLen :: nat where "ESPHeaderLen = 8"
definition ESPTrailerMinLen :: nat where "ESPTrailerMinLen = 2"

abbreviation (input) NextHeaderIPv4 :: byte where "NextHeaderIPv4 \<equiv> 4"
abbreviation (input) NextHeaderUDP :: byte where "NextHeaderUDP \<equiv> 17"
abbreviation (input) NextHeaderIPv6 :: byte where "NextHeaderIPv6 \<equiv> 41"
abbreviation (input) NextHeaderDummy :: byte where "NextHeaderDummy \<equiv> 59"

record ESPHeader =
  hSPI :: u32
  hSeqNum :: u32

definition ParseHeader :: "bytes \<Rightarrow> esp_error + ESPHeader" where
  "ParseHeader buf =
     (if length buf < ESPHeaderLen then Inl (PacketTooShort ESPHeaderLen (length buf))
      else Inr \<lparr>hSPI = Uint32 (slice 0 4 buf), hSeqNum = Uint32 (slice 4 8 buf)\<rparr>)"

definition MarshalHeader :: "bytes \<Rightarrow> ESPHeader \<Rightarrow> bytes" where
  "MarshalHeader buf hdr = copy_at 4 (PutUint32 (hSeqNum hdr)) (copy_at 0 (PutUint32 (hSPI hdr)) buf)"

lemma MarshalHeader_append:
  "length a = 8 \<Longrightarrow> MarshalHeader (a @ b) hdr = PutUint32 (hSPI hdr) @ PutUint32 (hSeqNum hdr) @ b"
  by (simp add: MarshalHeader_def copy_at_def)

lemma ParseHeader_encoded [simp]:
  "ParseHeader (PutUint32 spi @ PutUint32 seq @ rest) = Inr \<lparr>hSPI = spi, hSeqNum = seq\<rparr>"
  by (simp add: ParseHeader_def ESPHeaderLen_def slice_def)

section \<open>Trailer\<close>

text \<open>\<^verbatim>\<open>for i := 0; i < padLen; i++ { result[payloadLen+i] = byte(i + 1) }\<close>\<close>

primrec fillPad :: "nat \<Rightarrow> nat \<Rightarrow> bytes \<Rightarrow> bytes" where
  "fillPad payloadLen 0 result = result"
| "fillPad payloadLen (Suc i) result = (fillPad payloadLen i result)[payloadLen + i := of_nat (i + 1)]"

definition buildTrailer :: "nat \<Rightarrow> bytes \<Rightarrow> byte \<Rightarrow> bytes" where
  "buildTrailer align payload nextHeader =
     (let payloadLen = length payload;
          totalWithoutPad = payloadLen + ESPTrailerMinLen;
          remainder = totalWithoutPad mod align;
          padLen = (if remainder \<noteq> 0 then align - remainder else 0);
          result0 = copy_at 0 payload (replicate (payloadLen + padLen + ESPTrailerMinLen) 0);
          result1 = fillPad payloadLen padLen result0;
          result2 = result1[payloadLen + padLen := of_nat padLen]
      in result2[payloadLen + padLen + 1 := nextHeader])"

definition buildESPTrailer :: "bytes \<Rightarrow> byte \<Rightarrow> bytes" where
  "buildESPTrailer payload nextHeader = buildTrailer 4 payload nextHeader"

definition buildESPTrailerCBC :: "bytes \<Rightarrow> byte \<Rightarrow> nat \<Rightarrow> bytes" where
  "buildESPTrailerCBC payload nextHeader blockSize0 =
     (let blockSize = (if blockSize0 < 4 then 4 else blockSize0)
      in buildTrailer blockSize payload nextHeader)"

text \<open>The padding bytes are compared with the default scheme and only logged.\<close>

definition stripESPTrailer :: "bytes \<Rightarrow> esp_error + bytes \<times> byte" where
  "stripESPTrailer plaintext =
     (if length plaintext < ESPTrailerMinLen then Inl (PlaintextTooShort (length plaintext))
      else
        (let nextHeader = plaintext ! (length plaintext - 1);
             padLen = unat (plaintext ! (length plaintext - 2));
             trailerLen = padLen + ESPTrailerMinLen
         in if trailerLen > length plaintext then Inl (BadPadLength padLen (length plaintext))
            else
              (let padStart = length plaintext - ESPTrailerMinLen - padLen
               in Inr (take padStart plaintext, nextHeader))))"

definition padLength :: "nat \<Rightarrow> nat \<Rightarrow> nat" where
  "padLength align n = (if (n + 2) mod align \<noteq> 0 then align - (n + 2) mod align else 0)"

definition padding :: "nat \<Rightarrow> bytes" where
  "padding n = map (\<lambda>i. of_nat (i + 1)) [0..<n]"

lemma length_padding [simp]: "length (padding n) = n"
  by (simp add: padding_def)

lemma padding_Suc: "padding (Suc n) = padding n @ [of_nat (n + 1)]"
  by (simp add: padding_def)

lemma fillPad_eq:
  "length p = m \<Longrightarrow> i \<le> length z \<Longrightarrow> fillPad m i (p @ z) = p @ padding i @ drop i z"
proof (induction i)
  case 0
  then show ?case by (simp add: padding_def)
next
  case (Suc i)
  then have "fillPad m (Suc i) (p @ z) = (p @ padding i @ drop i z)[m + i := of_nat (i + 1)]"
    by simp
  also have "\<dots> = p @ padding i @ (drop i z)[0 := of_nat (i + 1)]"
    using Suc.prems by (simp add: list_update_append)
  also have "(drop i z)[0 := of_nat (i + 1)] = of_nat (i + 1) # drop (Suc i) z"
    using Suc.prems by (simp add: Cons_nth_drop_Suc [symmetric])
  finally show ?case by (simp add: padding_Suc)
qed

text \<open>The trailer in closed form: payload, 1, 2, 3, ..., pad length, next header.\<close>

lemma buildTrailer_eq:
  "buildTrailer align payload nh =
     payload @ padding (padLength align (length payload)) @
     [of_nat (padLength align (length payload)), nh]"
proof -
  define n k where "n = length payload" and "k = padLength align n"
  have r0: "copy_at 0 payload (replicate (n + k + 2) 0) = payload @ replicate (k + 2) 0"
    by (subst copy_at_replicate) (simp_all add: n_def)
  have r1: "fillPad n k (payload @ replicate (k + 2) 0) = payload @ padding k @ [0, 0]"
    by (subst fillPad_eq, simp_all only: replicate_add n_def) (simp_all add: numeral_2_eq_2)
  have "buildTrailer align payload nh =
      (fillPad n k (copy_at 0 payload (replicate (n + k + 2) 0)))[n + k := of_nat k, n + k + 1 := nh]"
    by (simp only: buildTrailer_def Let_def ESPTrailerMinLen_def n_def k_def padLength_def)
  also have "\<dots> = payload @ padding k @ [of_nat k, nh]"
    unfolding r0 r1 by (simp add: list_update_append n_def)
  finally show ?thesis by (simp only: n_def k_def)
qed

lemma padLength_less: "0 < align \<Longrightarrow> padLength align n < align"
  by (simp add: padLength_def)

lemma padLength_aligned: "0 < align \<Longrightarrow> align dvd n + padLength align n + 2"
proof -
  assume a: "0 < align"
  show ?thesis
  proof (cases "(n + 2) mod align = 0")
    case True
    then show ?thesis by (simp add: padLength_def dvd_eq_mod_eq_0)
  next
    case False
    then have "n + padLength align n + 2 = (n + 2) + (align - (n + 2) mod align)"
      by (simp add: padLength_def)
    also have "\<dots> = (n + 2) div align * align + align"
      using a mod_less_divisor [OF a, of "n + 2"] div_mult_mod_eq [of "n + 2" align] by linarith
    finally show ?thesis by simp
  qed
qed

lemma stripESPTrailer_append:
  "unat pl = length pad \<Longrightarrow> stripESPTrailer (payload @ pad @ [pl, nh]) = Inr (payload, nh)"
  by (simp add: stripESPTrailer_def ESPTrailerMinLen_def Let_def nth_append)

lemma stripESPTrailer_buildTrailer:
  assumes "0 < align" and "align \<le> 256"
  shows "stripESPTrailer (buildTrailer align payload nh) = Inr (payload, nh)"
proof -
  have "padLength align (length payload) < 256"
    using padLength_less [OF assms(1), of "length payload"] assms(2) by simp
  then show ?thesis
    by (simp add: buildTrailer_eq stripESPTrailer_append byte_of_nat_unat)
qed

text \<open>
  The ESP trailer round-trips and is aligned: for the 4-byte alignment of AEAD suites
  and the 16-byte blocks of CBC, stripping a built trailer returns the payload and the
  next header, the result is a multiple of the alignment, fewer padding bytes than the
  alignment are added, and they are 1, 2, 3, ... as RFC 4303 asks.
\<close>

theorem esp_trailer_roundtrip:
  "stripESPTrailer (buildESPTrailer payload nh) = Inr (payload, nh) \<and>
   stripESPTrailer (buildESPTrailerCBC payload nh 16) = Inr (payload, nh) \<and>
   4 dvd length (buildESPTrailer payload nh) \<and> 16 dvd length (buildESPTrailerCBC payload nh 16) \<and>
   length (buildESPTrailer payload nh) < length payload + 2 + 4 \<and>
   length (buildESPTrailerCBC payload nh 16) < length payload + 2 + 16 \<and>
   (\<exists>k. buildESPTrailer payload nh =
      payload @ map (\<lambda>i. of_nat (i + 1)) [0..<k] @ [of_nat k, nh])"
proof (intro conjI)
  show "stripESPTrailer (buildESPTrailer payload nh) = Inr (payload, nh)"
    "stripESPTrailer (buildESPTrailerCBC payload nh 16) = Inr (payload, nh)"
    by (simp_all add: buildESPTrailer_def buildESPTrailerCBC_def stripESPTrailer_buildTrailer)
  show "\<exists>k. buildESPTrailer payload nh =
      payload @ map (\<lambda>i. of_nat (i + 1)) [0..<k] @ [of_nat k, nh]"
    unfolding buildESPTrailer_def buildTrailer_eq padding_def by blast
qed (use padLength_aligned [of 4 "length payload"] padLength_aligned [of 16 "length payload"]
    padLength_less [of 4 "length payload"] padLength_less [of 16 "length payload"] in
    \<open>simp_all add: buildESPTrailer_def buildESPTrailerCBC_def buildTrailer_eq\<close>)

section \<open>CBC mode of crypto/cipher\<close>

definition xorBytes :: "bytes \<Rightarrow> bytes \<Rightarrow> bytes" where
  "xorBytes a b = map2 (XOR) a b"

function cbcEncrypt :: "block \<Rightarrow> bytes \<Rightarrow> bytes \<Rightarrow> bytes" where
  "cbcEncrypt b iv src =
     (if src = [] then []
      else (let c = EncryptBlock b (xorBytes iv (take aesBlockSize src))
            in c @ cbcEncrypt b c (drop aesBlockSize src)))"
  by pat_completeness auto
termination
  by (relation "measure (\<lambda>(b, iv, src). length src)") (auto simp: aesBlockSize_def)

function cbcDecrypt :: "block \<Rightarrow> bytes \<Rightarrow> bytes \<Rightarrow> bytes" where
  "cbcDecrypt b iv src =
     (if src = [] then []
      else xorBytes iv (DecryptBlock b (take aesBlockSize src)) @
           cbcDecrypt b (take aesBlockSize src) (drop aesBlockSize src))"
  by pat_completeness auto
termination
  by (relation "measure (\<lambda>(b, iv, src). length src)") (auto simp: aesBlockSize_def)

declare cbcEncrypt.simps [simp del] cbcDecrypt.simps [simp del]

lemma length_xorBytes [simp]: "length (xorBytes a b) = min (length a) (length b)"
  by (simp add: xorBytes_def)

lemma xorBytes_twice: "length a = length b \<Longrightarrow> xorBytes a (xorBytes a b) = b"
  by (rule nth_equalityI) (simp_all add: xorBytes_def)

lemma cbc_roundtrip:
  assumes "block_ok b" and "length iv = 16" and "16 dvd length src"
  shows "length (cbcEncrypt b iv src) = length src \<and>
    cbcDecrypt b iv (cbcEncrypt b iv src) = src"
  using assms
proof (induction b iv src rule: cbcEncrypt.induct)
  case (1 b iv src)
  show ?case
  proof (cases "src = []")
    case True
    then show ?thesis by (simp add: cbcEncrypt.simps cbcDecrypt.simps)
  next
    case False
    with "1.prems" have l: "16 \<le> length src" by (intro dvd_imp_le) auto
    define x where "x = xorBytes iv (take 16 src)"
    define c where "c = EncryptBlock b x"
    have x: "length x = 16" using l "1.prems" by (simp add: x_def)
    have c: "length c = 16" "DecryptBlock b c = x"
      using "1.prems"(1) x by (simp_all add: c_def block_ok_def)
    have e: "cbcEncrypt b iv src = c @ cbcEncrypt b c (drop 16 src)"
      using False by (subst cbcEncrypt.simps) (simp add: Let_def aesBlockSize_def c_def x_def)
    have IH: "length (cbcEncrypt b c (drop 16 src)) = length (drop 16 src) \<and>
        cbcDecrypt b c (cbcEncrypt b c (drop 16 src)) = drop 16 src"
      using "1.IH" [OF False] "1.prems" c False
      by (simp add: aesBlockSize_def c_def x_def dvd_minus_self)
    have "cbcDecrypt b iv (c @ r) = xorBytes iv x @ cbcDecrypt b c r" for r
      using c by (subst cbcDecrypt.simps) (auto simp: aesBlockSize_def)
    moreover have "xorBytes iv x = take 16 src"
      using l "1.prems" by (simp add: x_def xorBytes_twice)
    ultimately show ?thesis using e IH c l by simp
  qed
qed

section \<open>Encryption\<close>

text \<open>The atomic increment wraps at \<open>2 ^ 64\<close>; it happens before the overflow test.\<close>

definition encryptAEAD ::
  "SecurityAssociation \<Rightarrow> bytes \<Rightarrow> byte \<Rightarrow> (esp_error + bytes) \<times> SecurityAssociation" where
  "encryptAEAD sa plainPayload nextHeader =
     (case AEAD sa of
        None \<Rightarrow> (Inl AEADNotInitialized, sa)
      | Some a \<Rightarrow>
          (let newSeq = SeqNum sa + 1;
               sa' = sa\<lparr>SeqNum := newSeq\<rparr>;
               seqLow = ucast (newSeq AND 0xFFFFFFFF) :: u32
           in
           if newSeq > 0xFFFFFFFF \<and> \<not> ESN sa then (Inl SeqOverflow, sa')
           else
             (let padded = buildESPTrailer plainPayload nextHeader;
                  hdr = \<lparr>hSPI = SPI sa, hSeqNum = seqLow\<rparr>;
                  iv = SequenceToIV newSeq
              in
              case BuildNonce (Salt sa) iv of
                Inl e \<Rightarrow> (Inl e, sa')
              | Inr nonce \<Rightarrow>
                  (let aad = MarshalHeader (replicate ESPHeaderLen 0) hdr;
                       ciphertext = Seal a nonce padded aad;
                       espPacketLen = ESPHeaderLen + length iv + length ciphertext;
                       p0 = MarshalHeader (replicate espPacketLen 0) hdr;
                       p1 = copy_at ESPHeaderLen iv p0;
                       p2 = copy_at (ESPHeaderLen + length iv) ciphertext p1
                   in (Inr p2, sa')))))"

text \<open>
  A suite without a CBC IV size makes \<^verbatim>\<open>NewCBCEncrypter\<close> panic on the empty IV.
\<close>

definition encryptCBC ::
  "hmac_fun \<Rightarrow> bytes option \<Rightarrow> SecurityAssociation \<Rightarrow> bytes \<Rightarrow> byte \<Rightarrow>
   (esp_error + bytes) \<times> SecurityAssociation" where
  "encryptCBC hmac rnd sa plainPayload nextHeader =
     (case CBCBlock sa of
        None \<Rightarrow> (Inl CBCNotInitialized, sa)
      | Some blk \<Rightarrow>
     (case Integrity sa of
        None \<Rightarrow> (Inl IntegNotInitialized, sa)
      | Some ia \<Rightarrow>
          (let newSeq = SeqNum sa + 1;
               sa' = sa\<lparr>SeqNum := newSeq\<rparr>;
               seqLow = ucast (newSeq AND 0xFFFFFFFF) :: u32
           in
           if newSeq > 0xFFFFFFFF \<and> \<not> ESN sa then (Inl SeqOverflow, sa')
           else
             (let padded = buildESPTrailerCBC plainPayload nextHeader (CBCBlockSize (Suite sa));
                  hdr = \<lparr>hSPI = SPI sa, hSeqNum = seqLow\<rparr>;
                  ivSize = CBCIVSize (Suite sa)
              in
              case rnd of
                None \<Rightarrow> (Inl RandomFailed, sa')
              | Some bs \<Rightarrow>
                  (let iv = take ivSize bs in
                   if ivSize \<noteq> aesBlockSize then (Inl Panic, sa')
                   else
                     (let ciphertext = cbcEncrypt blk iv padded;
                          icvSize = ia_icvSize ia;
                          espPacketLen = ESPHeaderLen + ivSize + length ciphertext + icvSize;
                          p0 = MarshalHeader (replicate espPacketLen 0) hdr;
                          p1 = copy_at ESPHeaderLen iv p0;
                          p2 = copy_at (ESPHeaderLen + ivSize) ciphertext p1;
                          icv = Compute hmac ia (take (ESPHeaderLen + ivSize + length ciphertext) p2);
                          p3 = copy_at (ESPHeaderLen + ivSize + length ciphertext) icv p2
                      in (Inr p3, sa')))))))"

definition Encrypt ::
  "hmac_fun \<Rightarrow> bytes option \<Rightarrow> SecurityAssociation \<Rightarrow> bytes \<Rightarrow> byte \<Rightarrow>
   (esp_error + bytes) \<times> SecurityAssociation" where
  "Encrypt hmac rnd sa plainPayload nextHeader =
     (if IsAEAD (Suite sa) then encryptAEAD sa plainPayload nextHeader
      else encryptCBC hmac rnd sa plainPayload nextHeader)"

section \<open>Decryption\<close>

definition replayCheck :: "SecurityAssociation \<Rightarrow> u64 \<Rightarrow> bool" where
  "replayCheck sa seq = (case Replay sa of None \<Rightarrow> True | Some rw \<Rightarrow> Check rw seq)"

definition replayAdvance :: "SecurityAssociation \<Rightarrow> u64 \<Rightarrow> SecurityAssociation" where
  "replayAdvance sa seq =
     (case Replay sa of None \<Rightarrow> sa | Some rw \<Rightarrow> sa\<lparr>Replay := Some (Advance rw seq)\<rparr>)"

text \<open>The tail both decrypters share: strip the trailer, drop dummy packets.\<close>

definition finishDecrypt :: "bytes \<Rightarrow> esp_error + bytes \<times> byte" where
  "finishDecrypt plaintext =
     (case stripESPTrailer plaintext of
        Inl e \<Rightarrow> Inl e
      | Inr (innerPayload, nextHeader) \<Rightarrow>
          if nextHeader = NextHeaderDummy then Inr ([], NextHeaderDummy)
          else Inr (innerPayload, nextHeader))"

definition decryptAEAD ::
  "SecurityAssociation \<Rightarrow> bytes \<Rightarrow> (esp_error + bytes \<times> byte) \<times> SecurityAssociation" where
  "decryptAEAD sa espPacket =
     (case AEAD sa of
        None \<Rightarrow> (Inl AEADNotInitialized, sa)
      | Some a \<Rightarrow>
          (let ivSize = AEADIVSize (Suite sa);
               tagSize = Overhead a;
               minPacketSize = ESPHeaderLen + ivSize + ESPTrailerMinLen + tagSize
           in
           if length espPacket < minPacketSize
           then (Inl (PacketTooShort minPacketSize (length espPacket)), sa)
           else
           (case ParseHeader espPacket of
              Inl e \<Rightarrow> (Inl e, sa)
            | Inr hdr \<Rightarrow>
                (let seq64 = ucast (hSeqNum hdr) :: u64 in
                 if \<not> replayCheck sa seq64 then (Inl (ReplayRejected (hSPI hdr) (hSeqNum hdr)), sa)
                 else
                   (let iv = slice ESPHeaderLen (ESPHeaderLen + ivSize) espPacket in
                    case BuildNonce (Salt sa) iv of
                      Inl e \<Rightarrow> (Inl e, sa)
                    | Inr nonce \<Rightarrow>
                        (let aad = take ESPHeaderLen espPacket;
                             ciphertext = drop (ESPHeaderLen + ivSize) espPacket
                         in
                         case Open a nonce ciphertext aad of
                           None \<Rightarrow> (Inl AuthFailed, sa)
                         | Some plaintext \<Rightarrow>
                             (finishDecrypt plaintext, replayAdvance sa seq64)))))))"

text \<open>
  The trailing bytes of \<^verbatim>\<open>decryptCBC\<close>: a suite without a block size divides by zero.
\<close>

definition decryptCBC ::
  "hmac_fun \<Rightarrow> SecurityAssociation \<Rightarrow> bytes \<Rightarrow>
   (esp_error + bytes \<times> byte) \<times> SecurityAssociation" where
  "decryptCBC hmac sa espPacket =
     (case CBCBlock sa of
        None \<Rightarrow> (Inl CBCNotInitialized, sa)
      | Some blk \<Rightarrow>
     (case Integrity sa of
        None \<Rightarrow> (Inl IntegNotInitialized, sa)
      | Some ia \<Rightarrow>
          (let ivSize = CBCIVSize (Suite sa);
               icvSize = ia_icvSize ia;
               blockSize = CBCBlockSize (Suite sa);
               minPacketSize = ESPHeaderLen + ivSize + blockSize + icvSize;
               n = length espPacket
           in
           if n < minPacketSize then (Inl (PacketTooShort minPacketSize n), sa)
           else
           (case ParseHeader espPacket of
              Inl e \<Rightarrow> (Inl e, sa)
            | Inr hdr \<Rightarrow>
                (let macData = take (n - icvSize) espPacket;
                     receivedICV = drop (n - icvSize) espPacket
                 in
                 if \<not> Verify hmac ia macData receivedICV then (Inl AuthFailed, sa)
                 else
                   (let seq64 = ucast (hSeqNum hdr) :: u64 in
                    if \<not> replayCheck sa seq64
                    then (Inl (ReplayRejected (hSPI hdr) (hSeqNum hdr)), sa)
                    else
                      (let iv = slice ESPHeaderLen (ESPHeaderLen + ivSize) espPacket;
                           ciphertext = slice (ESPHeaderLen + ivSize) (n - icvSize) espPacket
                       in
                       if blockSize = 0 then (Inl Panic, sa)
                       else if length ciphertext mod blockSize \<noteq> 0
                       then (Inl (NotBlockAligned (length ciphertext)), sa)
                       else (finishDecrypt (cbcDecrypt blk iv ciphertext),
                             replayAdvance sa seq64))))))))"

definition Decrypt ::
  "hmac_fun \<Rightarrow> SecurityAssociation \<Rightarrow> bytes \<Rightarrow>
   (esp_error + bytes \<times> byte) \<times> SecurityAssociation" where
  "Decrypt hmac sa espPacket =
     (if IsAEAD (Suite sa) then decryptAEAD sa espPacket else decryptCBC hmac sa espPacket)"

section \<open>Closed forms\<close>

definition seqLow :: "SecurityAssociation \<Rightarrow> u32" where
  "seqLow sa = ucast ((SeqNum sa + 1) AND 0xFFFFFFFF)"

definition overflows :: "SecurityAssociation \<Rightarrow> bool" where
  "overflows sa \<longleftrightarrow> SeqNum sa + 1 > 0xFFFFFFFF \<and> \<not> ESN sa"

definition espHeader :: "SecurityAssociation \<Rightarrow> bytes" where
  "espHeader sa = PutUint32 (SPI sa) @ PutUint32 (seqLow sa)"

definition aeadPacket :: "SecurityAssociation \<Rightarrow> aead \<Rightarrow> bytes \<Rightarrow> byte \<Rightarrow> bytes" where
  "aeadPacket sa a p nh =
     espHeader sa @ SequenceToIV (SeqNum sa + 1) @
     Seal a (Salt sa @ SequenceToIV (SeqNum sa + 1)) (buildESPTrailer p nh) (espHeader sa)"

definition cbcBody :: "SecurityAssociation \<Rightarrow> block \<Rightarrow> bytes \<Rightarrow> bytes \<Rightarrow> byte \<Rightarrow> bytes" where
  "cbcBody sa blk iv p nh = espHeader sa @ iv @ cbcEncrypt blk iv (buildESPTrailerCBC p nh 16)"

lemma length_espHeader [simp]: "length (espHeader sa) = 8"
  by (simp add: espHeader_def)

lemma MarshalHeader_replicate:
  "8 \<le> n \<Longrightarrow> MarshalHeader (replicate n 0) \<lparr>hSPI = SPI sa, hSeqNum = seqLow sa\<rparr> =
     espHeader sa @ replicate (n - 8) 0"
  using MarshalHeader_append [of "replicate 8 0" "replicate (n - 8) 0"]
  by (simp add: espHeader_def replicate_add [symmetric])

lemma copy_at_tail:
  "length a = i \<Longrightarrow> length src \<le> n \<Longrightarrow>
     copy_at i src (a @ replicate n x) = (a @ src) @ replicate (n - length src) x"
  by (simp add: copy_at_def)

lemma copy_at_last:
  "length a = i \<Longrightarrow> length src = n \<Longrightarrow> copy_at i src (a @ replicate n x) = a @ src"
  by (simp add: copy_at_tail)

lemma encryptAEAD_overflow:
  "AEAD sa = Some a \<Longrightarrow> overflows sa \<Longrightarrow>
     encryptAEAD sa p nh = (Inl SeqOverflow, sa\<lparr>SeqNum := SeqNum sa + 1\<rparr>)"
  by (simp add: encryptAEAD_def overflows_def Let_def)

lemma encryptAEAD_eq:
  assumes "AEAD sa = Some a" and "length (Salt sa) = 4" and "\<not> overflows sa"
  shows "encryptAEAD sa p nh = (Inr (aeadPacket sa a p nh), sa\<lparr>SeqNum := SeqNum sa + 1\<rparr>)"
proof -
  define iv c where "iv = SequenceToIV (SeqNum sa + 1)"
    and "c = Seal a (Salt sa @ iv) (buildESPTrailer p nh) (espHeader sa)"
  have "BuildNonce (Salt sa) iv = Inr (Salt sa @ iv)" "length iv = 8"
    using assms(2) by (simp_all add: BuildNonce_ok iv_def)
  moreover have "copy_at 16 c (copy_at 8 iv (espHeader sa @ replicate (8 + length c) 0)) = espHeader sa @ iv @ c"
    using copy_at_tail [of "espHeader sa @ iv" 16 c "length c"]
    by (simp add: copy_at_tail iv_def)
  moreover have "MarshalHeader (replicate (8 + 8 + length c) 0) \<lparr>hSPI = SPI sa, hSeqNum = seqLow sa\<rparr> =
      espHeader sa @ replicate (8 + length c) 0"
    by (subst MarshalHeader_replicate) simp_all
  moreover have "MarshalHeader (replicate 8 0) \<lparr>hSPI = SPI sa, hSeqNum = seqLow sa\<rparr> = espHeader sa"
    by (subst MarshalHeader_replicate) simp_all
  ultimately show ?thesis
    using assms
    by (simp add: encryptAEAD_def overflows_def Let_def ESPHeaderLen_def
        seqLow_def [symmetric] iv_def [symmetric] c_def [symmetric] aeadPacket_def)
qed

lemma encryptCBC_eq:
  assumes "CBCBlock sa = Some blk" and "Integrity sa = Some ia" and "CBCBlockSize (Suite sa) = 16"
    and "\<not> overflows sa" and "length iv = 16"
  shows "encryptCBC hmac (Some iv) sa p nh =
    (Inr (cbcBody sa blk iv p nh @ Compute hmac ia (cbcBody sa blk iv p nh)),
     sa\<lparr>SeqNum := SeqNum sa + 1\<rparr>)"
proof -
  have ivs: "CBCIVSize (Suite sa) = 16"
    using assms(3) by (auto simp: CBCIVSize_def CBCBlockSize_def split: if_splits)
  define c k where "c = cbcEncrypt blk iv (buildESPTrailerCBC p nh 16)" and "k = ia_icvSize ia"
  define b where "b = espHeader sa @ iv @ c"
  have "MarshalHeader (replicate (8 + 16 + length c + k) 0) \<lparr>hSPI = SPI sa, hSeqNum = seqLow sa\<rparr> =
      espHeader sa @ replicate (16 + length c + k) 0"
    by (subst MarshalHeader_replicate) simp_all
  moreover have "copy_at 24 c (copy_at 8 iv (espHeader sa @ replicate (16 + length c + k) 0)) =
      b @ replicate k 0"
    using assms(5) copy_at_tail [of "espHeader sa @ iv" 24 c "length c + k"]
    by (simp add: copy_at_tail b_def)
  moreover have "take (24 + length c) (b @ replicate k 0) = b"
    using assms(5) by (simp add: b_def)
  moreover have "copy_at (24 + length c) (Compute hmac ia b) (b @ replicate k 0) = b @ Compute hmac ia b"
    using assms(5) by (subst copy_at_last) (simp_all add: b_def k_def)
  ultimately show ?thesis
    using assms ivs
    by (simp add: encryptCBC_def overflows_def Let_def ESPHeaderLen_def aesBlockSize_def
        seqLow_def [symmetric] c_def [symmetric] k_def [symmetric] cbcBody_def b_def)
qed

lemma encryptCBC_overflow:
  "CBCBlock sa = Some blk \<Longrightarrow> Integrity sa = Some ia \<Longrightarrow> overflows sa \<Longrightarrow>
     encryptCBC hmac rnd sa p nh = (Inl SeqOverflow, sa\<lparr>SeqNum := SeqNum sa + 1\<rparr>)"
  by (simp add: encryptCBC_def overflows_def Let_def)

text \<open>What a successful \<open>Encrypt\<close> returns, for both kinds of suite.\<close>

lemma Encrypt_Inr_cases:
  assumes "sa_ready sa" and "length iv = 16" and "Encrypt hmac (Some iv) sa p nh = (Inr pkt, sa')"
  obtains (aead) a where "IsAEAD (Suite sa)" "AEAD sa = Some a" "length (Salt sa) = 4"
      "pkt = aeadPacket sa a p nh"
  | (cbc) b ia where "\<not> IsAEAD (Suite sa)" "CBCBlock sa = Some b" "Integrity sa = Some ia"
      "CBCBlockSize (Suite sa) = 16"
      "pkt = cbcBody sa b iv p nh @ Compute hmac ia (cbcBody sa b iv p nh)"
proof (cases "IsAEAD (Suite sa)")
  case True
  then obtain a where "AEAD sa = Some a" "length (Salt sa) = 4"
    using assms(1) by (auto simp: sa_ready_def)
  with True assms(3) aead show thesis
    by (cases "overflows sa") (auto simp: Encrypt_def encryptAEAD_eq encryptAEAD_overflow)
next
  case False
  then obtain b ia where "CBCBlock sa = Some b" "Integrity sa = Some ia"
    "CBCBlockSize (Suite sa) = 16"
    using assms(1) by (auto simp: sa_ready_def)
  with False assms(2,3) cbc show thesis
    by (cases "overflows sa") (auto simp: Encrypt_def encryptCBC_eq encryptCBC_overflow)
qed

section \<open>Sender and receiver\<close>

text \<open>Two ends of one SA: same algorithms, keys and salt.\<close>

definition same_keys :: "SecurityAssociation \<Rightarrow> SecurityAssociation \<Rightarrow> bool" where
  "same_keys sa rx \<longleftrightarrow> Suite rx = Suite sa \<and> AEAD rx = AEAD sa \<and> CBCBlock rx = CBCBlock sa \<and>
     Salt rx = Salt sa \<and> Integrity rx = Integrity sa"

definition ciphers_ok :: "SecurityAssociation \<Rightarrow> bool" where
  "ciphers_ok sa \<longleftrightarrow> (\<forall>a. AEAD sa = Some a \<longrightarrow> aead_ok a) \<and> (\<forall>b. CBCBlock sa = Some b \<longrightarrow> block_ok b)"

lemma finishDecrypt_trailer:
  assumes "nh \<noteq> NextHeaderDummy"
  shows "finishDecrypt (buildESPTrailer p nh) = Inr (p, nh)"
    and "finishDecrypt (buildESPTrailerCBC p nh 16) = Inr (p, nh)"
  using assms
  by (simp_all add: finishDecrypt_def buildESPTrailer_def buildESPTrailerCBC_def
      stripESPTrailer_buildTrailer)

lemma length_trailer_ge:
  "2 \<le> length (buildESPTrailer p nh)" "16 dvd length (buildESPTrailerCBC p nh 16)"
  "length (buildESPTrailerCBC p nh 16) \<noteq> 0"
  using padLength_aligned [of 16 "length p"]
  by (simp_all add: buildESPTrailer_def buildESPTrailerCBC_def buildTrailer_eq)

lemma decryptAEAD_packet:
  assumes "AEAD rx = Some a" and "aead_ok a" and "Salt rx = Salt sa" and "length (Salt sa) = 4"
    and "replayCheck rx (ucast (seqLow sa))" and "nh \<noteq> NextHeaderDummy"
  shows "decryptAEAD rx (aeadPacket sa a p nh) =
    (Inr (p, nh), replayAdvance rx (ucast (seqLow sa)))"
proof -
  define iv where "iv = SequenceToIV (SeqNum sa + 1)"
  define c where "c = Seal a (Salt sa @ iv) (buildESPTrailer p nh) (espHeader sa)"
  have lc: "length c = length (buildESPTrailer p nh) + 16"
    and op: "Open a (Salt sa @ iv) c (espHeader sa) = Some (buildESPTrailer p nh)"
    and ov: "Overhead a = 16"
    using assms(2,4) by (simp_all add: aead_ok_def c_def iv_def)
  have pk: "aeadPacket sa a p nh = espHeader sa @ iv @ c"
    by (simp add: aeadPacket_def c_def iv_def)
  have iv: "length iv = 8" by (simp add: iv_def)
  have "ParseHeader (espHeader sa @ iv @ c) = Inr \<lparr>hSPI = SPI sa, hSeqNum = seqLow sa\<rparr>"
    by (simp add: espHeader_def)
  with assms lc op ov iv length_trailer_ge(1) [of p nh] show ?thesis
    by (simp add: decryptAEAD_def pk Let_def AEADIVSize_def ESPHeaderLen_def ESPTrailerMinLen_def
        slice_def BuildNonce_ok finishDecrypt_trailer)
qed

lemma decryptCBC_packet:
  assumes "CBCBlock rx = Some blk" and "block_ok blk" and "Integrity rx = Some ia"
    and "CBCBlockSize (Suite rx) = 16" and "length iv = 16"
    and "replayCheck rx (ucast (seqLow sa))" and "nh \<noteq> NextHeaderDummy"
  shows "decryptCBC hmac rx (cbcBody sa blk iv p nh @ Compute hmac ia (cbcBody sa blk iv p nh)) =
    (Inr (p, nh), replayAdvance rx (ucast (seqLow sa)))"
proof -
  have ivs: "CBCIVSize (Suite rx) = 16"
    using assms(4) by (auto simp: CBCIVSize_def CBCBlockSize_def split: if_splits)
  define t c where "t = buildESPTrailerCBC p nh 16" and "c = cbcEncrypt blk iv t"
  have t: "16 dvd length t" "16 \<le> length t"
    using length_trailer_ge(2,3) [of p nh] by (auto simp: t_def intro: dvd_imp_le)
  then have c: "length c = length t" "cbcDecrypt blk iv c = t"
    using cbc_roundtrip [OF assms(2,5), of t] by (simp_all add: c_def)
  define body where "body = espHeader sa @ iv @ c"
  have b: "cbcBody sa blk iv p nh = body" "length body = 24 + length c"
    by (simp_all add: cbcBody_def body_def t_def c_def assms(5))
  have h: "ParseHeader (body @ Compute hmac ia body) = Inr \<lparr>hSPI = SPI sa, hSeqNum = seqLow sa\<rparr>"
    by (simp add: espHeader_def body_def)
  have s: "slice 8 24 (body @ Compute hmac ia body) = iv"
    "slice 24 (24 + length c) (body @ Compute hmac ia body) = c"
    using assms(5) by (simp_all add: slice_def body_def)
  show ?thesis
    using assms ivs t c h s b
    by (simp add: decryptCBC_def Let_def ESPHeaderLen_def finishDecrypt_trailer dvd_eq_mod_eq_0
        t_def [symmetric]) (simp add: t_def finishDecrypt_trailer)
qed

lemma Decrypt_Encrypt:
  assumes "sa_ready sa" and "ciphers_ok sa" and "same_keys sa rx" and "\<not> overflows sa"
    and "length iv = 16" and "replayCheck rx (ucast (seqLow sa))" and "nh \<noteq> NextHeaderDummy"
  shows "\<exists>pkt. Encrypt hmac (Some iv) sa p nh = (Inr pkt, sa\<lparr>SeqNum := SeqNum sa + 1\<rparr>) \<and>
    Decrypt hmac rx pkt = (Inr (p, nh), replayAdvance rx (ucast (seqLow sa)))"
proof (cases "IsAEAD (Suite sa)")
  case True
  then obtain a where a: "AEAD sa = Some a" "length (Salt sa) = 4" "aead_ok a"
    using assms(1,2) by (auto simp: sa_ready_def ciphers_ok_def)
  with True assms show ?thesis
    by (auto simp: Encrypt_def Decrypt_def encryptAEAD_eq same_keys_def intro!: decryptAEAD_packet)
next
  case False
  then obtain b ia where b: "CBCBlock sa = Some b" "Integrity sa = Some ia" "block_ok b"
    "CBCBlockSize (Suite sa) = 16"
    using assms(1,2) by (auto simp: sa_ready_def ciphers_ok_def)
  with False assms show ?thesis
    by (auto simp: Encrypt_def Decrypt_def encryptCBC_eq same_keys_def intro!: decryptCBC_packet)
qed

text \<open>
  C8. End to end: what one side encrypts, the other side decrypts to the same payload
  and next header, for AEAD and for CBC suites, whenever the sequence space is not
  exhausted and the receiver's window admits the sequence number; the window is
  advanced by exactly that number. (Library ciphers are assumed to invert themselves.)
\<close>

theorem esp_end_to_end:
  assumes "sa_ready sa" and "ciphers_ok sa" and "same_keys sa rx" and "\<not> overflows sa"
    and "length iv = 16" and "replayCheck rx (ucast (seqLow sa))" and "nh \<noteq> NextHeaderDummy"
  shows "\<exists>pkt. Encrypt hmac (Some iv) sa p nh = (Inr pkt, sa\<lparr>SeqNum := SeqNum sa + 1\<rparr>) \<and>
    Decrypt hmac rx pkt = (Inr (p, nh), replayAdvance rx (ucast (seqLow sa)))"
  using assms by (rule Decrypt_Encrypt)

lemma example_ready [simp]:
  "sa_ready example_sa" "ciphers_ok example_sa" "sa_ready example_cbc_sa" "ciphers_ok example_cbc_sa"
  by (simp_all add: sa_ready_def ciphers_ok_def example_sa_def example_cbc_sa_def suite_defs)

lemma example_first [simp]:
  "\<not> overflows example_sa" "replayCheck example_sa (ucast (seqLow example_sa))"
  "\<not> overflows example_cbc_sa" "replayCheck example_cbc_sa (ucast (seqLow example_cbc_sa))"
  by (simp_all add: overflows_def example_sa_def example_cbc_sa_def replayCheck_def seqLow_def
      Check_def NewReplayWindow_def DefaultReplayWindowSize_def)

theorem esp_end_to_end_witness:
  "(\<exists>pkt. Encrypt (\<lambda>_ _ _. replicate 32 9) (Some (replicate 16 5)) example_sa [10, 11] 4 =
      (Inr pkt, example_sa\<lparr>SeqNum := SeqNum example_sa + 1\<rparr>)) \<and>
   (\<exists>pkt. Encrypt (\<lambda>_ _ _. replicate 32 9) (Some (replicate 16 5)) example_cbc_sa [10, 11] 4 =
      (Inr pkt, example_cbc_sa\<lparr>SeqNum := SeqNum example_cbc_sa + 1\<rparr>))"
  using esp_end_to_end [of example_sa example_sa "replicate 16 5" 4 "\<lambda>_ _ _. replicate 32 9" "[10, 11]"]
    esp_end_to_end [of example_cbc_sa example_cbc_sa "replicate 16 5" 4 "\<lambda>_ _ _. replicate 32 9" "[10, 11]"]
  by (auto simp: same_keys_def)

section \<open>The receiver's window\<close>

text \<open>The sequence number a packet claims, and whether its integrity check passes.\<close>

definition pktSeq :: "bytes \<Rightarrow> u32" where
  "pktSeq pkt = Uint32 (slice 4 8 pkt)"

definition authentic :: "hmac_fun \<Rightarrow> SecurityAssociation \<Rightarrow> bytes \<Rightarrow> bool" where
  "authentic hmac sa pkt \<longleftrightarrow>
     (if IsAEAD (Suite sa)
      then (\<exists>a pt. AEAD sa = Some a \<and>
              Open a (Salt sa @ slice 8 16 pkt) (drop 16 pkt) (take 8 pkt) = Some pt)
      else (\<exists>ia. Integrity sa = Some ia \<and>
              drop (length pkt - ia_icvSize ia) pkt =
              Compute hmac ia (take (length pkt - ia_icvSize ia) pkt)))"

lemma ParseHeader_seq: "ParseHeader pkt = Inr hdr \<Longrightarrow> hSeqNum hdr = pktSeq pkt"
  by (auto simp: ParseHeader_def pktSeq_def split: if_splits)

lemma decryptAEAD_cases:
  assumes "decryptAEAD sa pkt = (r, sa')" and "IsAEAD (Suite sa)"
  shows "(sa' = sa \<and> (\<exists>e. r = Inl e)) \<or>
    (replayCheck sa (ucast (pktSeq pkt)) \<and> authentic hmac sa pkt \<and>
     sa' = replayAdvance sa (ucast (pktSeq pkt)))"
  using assms
  by (auto simp: decryptAEAD_def Let_def authentic_def ESPHeaderLen_def AEADIVSize_def BuildNonce_Inr_iff
      dest!: ParseHeader_seq split: option.splits sum.splits if_splits)

lemma decryptCBC_cases:
  assumes "decryptCBC hmac sa pkt = (r, sa')" and "\<not> IsAEAD (Suite sa)"
  shows "(sa' = sa \<and> (\<exists>e. r = Inl e)) \<or>
    (replayCheck sa (ucast (pktSeq pkt)) \<and> authentic hmac sa pkt \<and>
     sa' = replayAdvance sa (ucast (pktSeq pkt)))"
  using assms
  by (auto simp: decryptCBC_def Let_def authentic_def Verify_iff
      dest!: ParseHeader_seq split: option.splits sum.splits if_splits)

lemma Decrypt_cases:
  assumes "Decrypt hmac sa pkt = (r, sa')"
  shows "(sa' = sa \<and> (\<exists>e. r = Inl e)) \<or>
    (replayCheck sa (ucast (pktSeq pkt)) \<and> authentic hmac sa pkt \<and>
     sa' = replayAdvance sa (ucast (pktSeq pkt)))"
proof (cases "IsAEAD (Suite sa)")
  case True
  with assms decryptAEAD_cases show ?thesis by (simp add: Decrypt_def)
next
  case False
  with assms decryptCBC_cases show ?thesis by (simp add: Decrypt_def)
qed

text \<open>
  Forged packets cannot touch the anti-replay state: \<open>Decrypt\<close> changes the SA only
  for a packet that passed both the replay check and the integrity check of its suite,
  and then only by advancing the window to its sequence number. Any other packet is an
  error and leaves the SA as it was.
\<close>

theorem decrypt_window_only_moves_on_authentic:
  "(snd (Decrypt hmac sa pkt) = sa \<and> isl (fst (Decrypt hmac sa pkt))) \<or>
   (replayCheck sa (ucast (pktSeq pkt)) \<and> authentic hmac sa pkt \<and>
    snd (Decrypt hmac sa pkt) = replayAdvance sa (ucast (pktSeq pkt)))"
  using Decrypt_cases [of hmac sa pkt "fst (Decrypt hmac sa pkt)" "snd (Decrypt hmac sa pkt)"]
  by auto

text \<open>A receiver fed a list of packets: the sequence numbers of those it delivers.\<close>

primrec receiveAll :: "hmac_fun \<Rightarrow> SecurityAssociation \<Rightarrow> bytes list \<Rightarrow> u32 list" where
  "receiveAll hmac sa [] = []"
| "receiveAll hmac sa (pkt # pkts) =
     (let (r, sa') = Decrypt hmac sa pkt in
      (case r of Inl _ \<Rightarrow> [] | Inr _ \<Rightarrow> [pktSeq pkt]) @ receiveAll hmac sa' pkts)"

lemma receiveAll_distinct:
  assumes "Replay sa = Some rw" and "represents rw H"
  shows "distinct (receiveAll hmac sa pkts) \<and> ucast ` set (receiveAll hmac sa pkts) \<inter> H = {}"
  using assms
proof (induction pkts arbitrary: sa rw H)
  case Nil
  then show ?case by simp
next
  case (Cons pkt pkts)
  obtain r sa' where d: "Decrypt hmac sa pkt = (r, sa')" by fastforce
  let ?s = "ucast (pktSeq pkt) :: u64"
  have inj: "ucast (x :: u32) = (ucast y :: u64) \<longleftrightarrow> x = y" for x y
    by (metis ucast_up_ucast_id is_up_def source_size_def target_size_def is_up word_size nat_le_linear unat_ucast_32_64 word_unat_eq_iff)
  from Decrypt_cases [OF d] show ?case
  proof (elim disjE conjE exE)
    fix e assume "sa' = sa" "r = Inl e"
    with Cons d show ?thesis by simp
  next
    assume c: "replayCheck sa ?s" "sa' = replayAdvance sa ?s"
    then have rc: "Check rw ?s" and sa': "Replay sa' = Some (Advance rw ?s)"
      using Cons.prems by (simp_all add: replayCheck_def replayAdvance_def)
    have IH: "distinct (receiveAll hmac sa' pkts) \<and>
        ucast ` set (receiveAll hmac sa' pkts) \<inter> insert ?s H = {}"
      using Cons.IH [OF sa' rw.advance_rep [OF Cons.prems(2) rc]] .
    moreover have "?s \<notin> H" using rw.check_new [OF Cons.prems(2) rc] .
    ultimately show ?thesis using d by (auto split: sum.splits)
  qed
qed

text \<open>
  No ESP packet is delivered twice: an SA with a fresh window, fed any packets in
  any order (replays, forgeries, reordering), delivers at most one packet per sequence
  number.
\<close>

theorem esp_receiver_no_replay:
  assumes "Replay sa = Some (NewReplayWindow n)"
  shows "distinct (receiveAll hmac sa pkts)"
  using receiveAll_distinct [OF assms New_represents] by blast

theorem esp_receiver_no_replay_witness:
  "distinct (receiveAll (\<lambda>_ _ _. []) example_sa
     [espHeader example_sa @ replicate 20 0, espHeader example_sa @ replicate 20 0])"
  by (rule esp_receiver_no_replay [where n = DefaultReplayWindowSize]) (simp add: example_sa_def)

section \<open>The sender's sequence numbers\<close>

lemma Encrypt_SeqNum:
  assumes "sa_ready sa"
  shows "snd (Encrypt hmac rnd sa p nh) = sa\<lparr>SeqNum := SeqNum sa + 1\<rparr>"
  using assms
  by (auto simp: sa_ready_def Encrypt_def encryptAEAD_def encryptCBC_def Let_def
      split: option.splits sum.splits)

text \<open>
  A sender's run over its calls of \<open>Encrypt\<close> (random draw, payload, next header): the packets it
  produces, \<open>None\<close> where it returned an error.
\<close>

primrec sendAll ::
  "hmac_fun \<Rightarrow> SecurityAssociation \<Rightarrow> (bytes option \<times> bytes \<times> byte) list \<Rightarrow> bytes option list" where
  "sendAll hmac sa [] = []"
| "sendAll hmac sa (x # xs) =
     (let (r, sa') = Encrypt hmac (fst x) sa (fst (snd x)) (snd (snd x)) in
      (case r of Inl _ \<Rightarrow> None | Inr pkt \<Rightarrow> Some pkt) # sendAll hmac sa' xs)"

lemma sendAll_nth:
  assumes "IsAEAD (Suite sa)" and "AEAD sa = Some a" and "length (Salt sa) = 4" and "i < length xs"
  shows "sendAll hmac sa xs ! i =
    (let sa_i = sa\<lparr>SeqNum := SeqNum sa + of_nat i\<rparr> in
     if overflows sa_i then None else Some (aeadPacket sa_i a (fst (snd (xs ! i))) (snd (snd (xs ! i)))))"
  using assms
proof (induction xs arbitrary: sa i)
  case (Cons x xs)
  have e: "sendAll hmac sa (x # xs) =
      (if overflows sa then None else Some (aeadPacket sa a (fst (snd x)) (snd (snd x)))) #
      sendAll hmac (sa\<lparr>SeqNum := SeqNum sa + 1\<rparr>) xs"
    using Cons.prems
    by (cases "overflows sa") (simp_all add: Encrypt_def encryptAEAD_eq encryptAEAD_overflow)
  show ?case
  proof (cases i)
    case 0
    then show ?thesis by (simp add: e Let_def del: sendAll.simps)
  next
    case (Suc j)
    with Cons show ?thesis by (simp add: e Let_def add.assoc del: sendAll.simps)
  qed
qed simp

lemma seqLow_unat: "unat (seqLow sa) = unat (SeqNum sa + 1) mod 2 ^ 32"
proof -
  have m: "0xFFFFFFFF = (mask 32 :: u64)"
    by (simp add: mask_eq_exp_minus_1)
  have "seqLow sa = ucast (SeqNum sa + 1)"
    unfolding seqLow_def m by (rule bit_word_eqI) (simp add: bit_simps)
  then show ?thesis by (simp add: unsigned_ucast_eq take_bit_eq_mod)
qed

lemma overflows_iff:
  "\<not> ESN sa \<Longrightarrow> overflows sa \<longleftrightarrow> 2 ^ 32 \<le> unat (SeqNum sa + 1)"
  by (simp add: overflows_def word_less_nat_alt not_less Suc_le_eq [symmetric])

lemma pktSeq_aeadPacket [simp]: "pktSeq (aeadPacket sa a p nh) = seqLow sa"
  by (simp add: pktSeq_def aeadPacket_def espHeader_def slice_def)

lemma iv_aeadPacket [simp]: "slice 8 16 (aeadPacket sa a p nh) = SequenceToIV (SeqNum sa + 1)"
  by (simp add: aeadPacket_def slice_def)

lemma SeqNum_run:
  fixes s :: u64
  assumes "unat s + n < 2 ^ 64" and "i < n"
  shows "unat (s + of_nat i + 1) = unat s + i + 1"
proof -
  have "s + of_nat i + 1 = of_nat (unat s + i + 1)" by simp
  also have "unat (of_nat (unat s + i + 1) :: u64) = unat s + i + 1"
    using assms by (simp only: unat_of_nat) simp
  finally show ?thesis .
qed

text \<open>
  C16. An AEAD sender never seals under one nonce twice (RFC 4106, RFC 4303 3.3.3), with and without
  ESN. In any run of calls of \<open>Encrypt\<close>, the \<open>i\<close>-th call seals its padded payload, with the header
  of its packet as associated data, under the nonce that consists of the salt and the 64-bit
  sequence number of the call; the explicit part of that nonce is what the packet carries; and the
  nonces of different calls differ, as do the sequence numbers in the headers of the packets
  without ESN, since the call returns an error there exactly when the counter has passed
  \<open>2 ^ 32 - 1\<close>. (The 64-bit counter itself wraps after \<open>2 ^ 64\<close> calls.)
\<close>

theorem sender_never_reuses_nonce:
  assumes "sa_ready sa" and "IsAEAD (Suite sa)" and "AEAD sa = Some a"
    and "unat (SeqNum sa) + length xs < 2 ^ 64"
  shows "let seq = (\<lambda>i. unat (SeqNum sa) + i + 1);
             nonce = (\<lambda>i. Salt sa @ SequenceToIV (of_nat (seq i)));
             hdr = (\<lambda>i. PutUint32 (SPI sa) @ PutUint32 (of_nat (seq i)))
    in inj_on nonce {..<length xs} \<and>
       (\<not> ESN sa \<longrightarrow> inj_on hdr {i. i < length xs \<and> sendAll hmac sa xs ! i \<noteq> None}) \<and>
       (\<forall>i<length xs. length (nonce i) = 12 \<and>
          sendAll hmac sa xs ! i =
            (if \<not> ESN sa \<and> 2 ^ 32 \<le> seq i then None
             else Some (hdr i @ drop 4 (nonce i) @
               Seal a (nonce i) (buildESPTrailer (fst (snd (xs ! i))) (snd (snd (xs ! i)))) (hdr i))))"
proof -
  have salt: "length (Salt sa) = 4" using assms(1,2) by (auto simp: sa_ready_def)
  define seq where "seq i = unat (SeqNum sa) + i + 1" for i
  have word: "SeqNum sa + of_nat i + 1 = of_nat (seq i)" for i by (simp add: seq_def)
  have unat: "unat (of_nat (seq i) :: u64) = seq i" if "i < length xs" for i
    using SeqNum_run [OF assms(4) that] unfolding word seq_def .
  have inj: "(of_nat (seq i) :: u64) = of_nat (seq j) \<longleftrightarrow> i = j" if "i < length xs" "j < length xs" for i j
    using unat [OF that(1)] unat [OF that(2)] by (metis seq_def add_left_cancel add_right_cancel)
  define at where "at i = sa\<lparr>SeqNum := SeqNum sa + of_nat i\<rparr>" for i
  have low: "seqLow (at i) = of_nat (seq i)" if "i < length xs" for i
    using seqLow_unat [of "at i"] unat [OF that]
    by (simp add: word_unat_eq_iff at_def word unsigned_of_nat take_bit_eq_mod)
  have ovf: "overflows (at i) \<longleftrightarrow> \<not> ESN sa \<and> 2 ^ 32 \<le> seq i" if "i < length xs" for i
    using overflows_iff [of "at i"] unat [OF that] by (auto simp: at_def word overflows_def)
  define hdr where "hdr = (\<lambda>i. PutUint32 (SPI sa) @ PutUint32 (of_nat (seq i)))"
  have run: "sendAll hmac sa xs ! i =
      (if \<not> ESN sa \<and> 2 ^ 32 \<le> seq i then None
       else Some (hdr i @ drop 4 (Salt sa @ SequenceToIV (of_nat (seq i))) @
         Seal a (Salt sa @ SequenceToIV (of_nat (seq i)))
           (buildESPTrailer (fst (snd (xs ! i))) (snd (snd (xs ! i)))) (hdr i)))" if "i < length xs" for i
    using sendAll_nth [OF assms(2,3) salt that, of hmac] ovf [OF that] low [OF that] salt
    by (simp add: at_def [symmetric] Let_def aeadPacket_def espHeader_def hdr_def) (simp add: at_def word)
  have small: "\<not> 2 ^ 32 \<le> seq i" if "i < length xs" "sendAll hmac sa xs ! i \<noteq> None" "\<not> ESN sa" for i
    using run [OF that(1)] that by (auto split: if_splits)
  have "inj_on (\<lambda>i. Salt sa @ SequenceToIV (of_nat (seq i))) {..<length xs}"
    by (auto simp: inj_on_def SequenceToIV_inj inj)
  moreover have "inj_on hdr {i. i < length xs \<and> sendAll hmac sa xs ! i \<noteq> None}" if "\<not> ESN sa"
  proof (rule inj_onI)
    fix i j
    assume "i \<in> {i. i < length xs \<and> sendAll hmac sa xs ! i \<noteq> None}" "j \<in> {i. i < length xs \<and> sendAll hmac sa xs ! i \<noteq> None}"
      and h: "hdr i = hdr j"
    then have sm: "\<not> 2 ^ 32 \<le> seq i" "\<not> 2 ^ 32 \<le> seq j" using small that by auto
    from h have "(of_nat (seq i) :: u32) = of_nat (seq j)" unfolding hdr_def by (metis same_append_eq Uint32_PutUint32_alone)
    moreover have "unat (of_nat (seq k) :: u32) = seq k" if "\<not> 2 ^ 32 \<le> seq k" for k
      using that by (simp add: unsigned_of_nat take_bit_nat_eq_self)
    ultimately have "seq i = seq j" using sm by metis
    then show "i = j" by (simp add: seq_def)
  qed
  ultimately show ?thesis
    using run salt unfolding Let_def hdr_def seq_def by simp
qed

theorem sender_never_reuses_nonce_witness:
  "sendAll (\<lambda>_ _ _. []) example_sa [(None, [1], 4), (None, [1], 4)] ! 1 =
     Some (PutUint32 256 @ PutUint32 2 @ SequenceToIV 2 @ Seal example_aead (Salt example_sa @ SequenceToIV 2) (buildESPTrailer [1] 4) (PutUint32 256 @ PutUint32 2))"
proof -
  let ?xs = "[(None, [1], 4), (None, [1], 4)] :: (bytes option \<times> bytes \<times> byte) list"
  have r: "sa_ready example_sa" "IsAEAD (Suite example_sa)" "AEAD example_sa = Some example_aead"
    "unat (SeqNum example_sa) + length ?xs < 2 ^ 64" "\<not> ESN example_sa" "SeqNum example_sa = 0" "SPI example_sa = 256"
    "length (Salt example_sa) = 4"
    by (simp_all add: example_sa_fields) (simp add: example_sa_def)
  from sender_never_reuses_nonce [OF r(1-4), of "\<lambda>_ _ _. []", unfolded Let_def, THEN conjunct2, THEN conjunct2, rule_format, of 1]
  show ?thesis using r(5-8) by (simp del: sendAll.simps)
qed

end
