(* ===== verification/EspNatt.thy ===== *)
theory EspNatt
  imports EspPacket NetIP
begin

text \<open>
  NAT traversal (\<^verbatim>\<open>internal/esp/natt.go\<close>) and the buffer pool (\<^verbatim>\<open>pool.go\<close>): telling IKE,
  ESP and keepalive datagrams apart on UDP port 4500.
\<close>

definition NonESPMarkerLen :: nat where "NonESPMarkerLen = 4"
definition MinNATTESPPacketLen :: nat where "MinNATTESPPacketLen = ESPHeaderLen + 1"

datatype PacketType = PacketTypeESP | PacketTypeIKE | PacketTypeKeepalive

definition ClassifyNATT :: "bytes \<Rightarrow> esp_error + PacketType \<times> bytes" where
  "ClassifyNATT buf =
     (if length buf = 1 \<and> buf ! 0 = 0xFF then Inr (PacketTypeKeepalive, [])
      else if length buf < NonESPMarkerLen then Inl (NattTooShort (length buf))
      else if buf ! 0 = 0 \<and> buf ! 1 = 0 \<and> buf ! 2 = 0 \<and> buf ! 3 = 0
        then Inr (PacketTypeIKE, drop NonESPMarkerLen buf)
      else if length buf < MinNATTESPPacketLen then Inl (PacketTooShort MinNATTESPPacketLen (length buf))
      else Inr (PacketTypeESP, buf))"

definition PrependNonESPMarker :: "bytes \<Rightarrow> bytes" where
  "PrependNonESPMarker ikePacket =
     copy_at NonESPMarkerLen ikePacket (replicate (NonESPMarkerLen + length ikePacket) 0)"

definition NATTKeepalivePacket :: bytes where
  "NATTKeepalivePacket = [0xFF]"

definition IsNATTKeepalive :: "bytes \<Rightarrow> bool" where
  "IsNATTKeepalive buf \<longleftrightarrow> length buf = 1 \<and> buf ! 0 = 0xFF"

text \<open>The datagrams a send produces: port, data and destination.\<close>

definition SendNATTKeepalive :: "bool \<Rightarrow> udp_addr option \<Rightarrow> esp_error + nat \<times> bytes \<times> udp_addr" where
  "SendNATTKeepalive haveSender peer =
     (case peer of
        None \<Rightarrow> Inl NilSender
      | Some a \<Rightarrow> if \<not> haveSender then Inl NilSender else Inr (4500, NATTKeepalivePacket, a))"

section \<open>The buffer pool\<close>

text \<open>
  A \<^verbatim>\<open>sync.Pool\<close> may hand out any buffer put into it, or a new one: the choice is an
  argument. A buffer is its contents; its capacity is the length of the list.
\<close>

record BufferPool =
  bp_pool :: "bytes list"
  bp_size :: nat

definition NewBufferPool :: "nat \<Rightarrow> BufferPool" where
  "NewBufferPool bufferSize = \<lparr>bp_pool = [], bp_size = bufferSize\<rparr>"

definition PoolGet :: "nat option \<Rightarrow> BufferPool \<Rightarrow> bytes \<times> BufferPool" where
  "PoolGet choice bp =
     (case choice of
        None \<Rightarrow> (replicate (bp_size bp) 0, bp)
      | Some i \<Rightarrow>
          if i < length (bp_pool bp)
          then (replicate (length (bp_pool bp ! i)) 0,
                bp\<lparr>bp_pool := take i (bp_pool bp) @ drop (Suc i) (bp_pool bp)\<rparr>)
          else (replicate (bp_size bp) 0, bp))"

definition PoolPut :: "bytes \<Rightarrow> BufferPool \<Rightarrow> BufferPool" where
  "PoolPut buf bp = (if length buf \<noteq> bp_size bp then bp else bp\<lparr>bp_pool := buf # bp_pool bp\<rparr>)"

definition pool_ok :: "BufferPool \<Rightarrow> bool" where
  "pool_ok bp \<longleftrightarrow> (\<forall>b\<in>set (bp_pool bp). length b = bp_size bp)"

lemma pool_ok_ops:
  "pool_ok (NewBufferPool n)" "pool_ok bp \<Longrightarrow> pool_ok (PoolPut buf bp)"
  "pool_ok bp \<Longrightarrow> pool_ok (snd (PoolGet c bp))"
  by (auto simp: pool_ok_def NewBufferPool_def PoolPut_def PoolGet_def
      dest: in_set_takeD in_set_dropD split: option.splits)

text \<open>A history of the pool: buffers put back, and gets with the pool's choice.\<close>

definition poolStep :: "bytes + nat option \<Rightarrow> BufferPool \<Rightarrow> BufferPool" where
  "poolStep ev bp = (case ev of Inl buf \<Rightarrow> PoolPut buf bp | Inr c \<Rightarrow> snd (PoolGet c bp))"

lemma poolStep_ok:
  "pool_ok bp \<Longrightarrow> pool_ok (poolStep ev bp)" "bp_size (poolStep ev bp) = bp_size bp"
  by (simp_all add: poolStep_def pool_ok_ops split: sum.splits)
    (auto simp: PoolPut_def PoolGet_def split: option.splits)

lemma fold_poolStep_ok:
  "pool_ok bp \<Longrightarrow> pool_ok (fold poolStep evs bp) \<and> bp_size (fold poolStep evs bp) = bp_size bp"
  by (induction evs arbitrary: bp) (simp_all add: poolStep_ok)

text \<open>
  No data leaks between uses of pooled buffers: after any history of puts (of buffers
  of any size and content) and gets, whichever buffer the pool hands out has the
  configured size and is all zero.
\<close>

theorem pool_get_zeroed:
  "fst (PoolGet c (fold poolStep evs (NewBufferPool n))) = replicate n 0"
  using fold_poolStep_ok [OF pool_ok_ops(1) [of n], of evs]
  by (auto simp: PoolGet_def pool_ok_def NewBufferPool_def split: option.splits)

section \<open>Properties of the demultiplexer\<close>

lemma ClassifyNATT_marker:
  "ClassifyNATT (PrependNonESPMarker ike) = Inr (PacketTypeIKE, ike)"
proof -
  have "PrependNonESPMarker ike = [0, 0, 0, 0] @ ike"
    unfolding PrependNonESPMarker_def NonESPMarkerLen_def
    by (simp only: replicate_add) (simp add: copy_at_def numeral_eq_Suc)
  then show ?thesis by (simp add: ClassifyNATT_def NonESPMarkerLen_def)
qed

lemma PutUint32_zero_iff: "PutUint32 v = [0, 0, 0, 0] \<longleftrightarrow> v = 0"
  using Uint32_PutUint32_alone [of v]
  by (auto simp: Uint32_def) (simp add: PutUint32_def)

lemma ClassifyNATT_esp:
  assumes "spi \<noteq> 0" and "rest \<noteq> []"
  shows "ClassifyNATT (PutUint32 spi @ PutUint32 seq @ rest) =
    Inr (PacketTypeESP, PutUint32 spi @ PutUint32 seq @ rest)"
proof -
  have "\<not> (PutUint32 spi ! 0 = 0 \<and> PutUint32 spi ! 1 = 0 \<and> PutUint32 spi ! 2 = 0 \<and> PutUint32 spi ! 3 = 0)"
    using PutUint32_zero_iff [of spi] assms(1) by (simp add: PutUint32_def)
  with assms(2) show ?thesis
    by (cases rest)
      (auto simp: ClassifyNATT_def NonESPMarkerLen_def MinNATTESPPacketLen_def ESPHeaderLen_def nth_append)
qed

lemma Encrypt_header:
  assumes "sa_ready sa" and "length iv = 16" and "Encrypt hmac (Some iv) sa p nh = (Inr pkt, sa')"
  obtains rest where "rest \<noteq> []" "pkt = PutUint32 (SPI sa) @ PutUint32 (seqLow sa) @ rest"
proof -
  have "\<exists>rest. rest \<noteq> [] \<and> pkt = PutUint32 (SPI sa) @ PutUint32 (seqLow sa) @ rest"
    using assms
  proof (cases rule: Encrypt_Inr_cases)
    case (aead a)
    then show ?thesis
      by (intro exI [of _ "drop 8 pkt"]) (simp add: aeadPacket_def espHeader_def SequenceToIV_def)
  next
    case (cbc b ia)
    with assms(2) show ?thesis
      by (intro exI [of _ "drop 8 pkt"]) (auto simp: cbcBody_def espHeader_def)
  qed
  with that show thesis by blast
qed

text \<open>
  Demultiplexing on port 4500 is exact: an IKE message sent with the Non-ESP marker
  comes back as that IKE message, every packet \<open>Encrypt\<close> produces for an SA with a
  non-zero SPI is classified as ESP and handed on unchanged, and the keepalive is
  recognised as such.
\<close>

theorem natt_demultiplexing:
  assumes "sa_ready sa" and "ciphers_ok sa" and "SPI sa \<noteq> 0" and "length iv = 16"
    and "Encrypt hmac (Some iv) sa p nh = (Inr pkt, sa')"
  shows "ClassifyNATT pkt = Inr (PacketTypeESP, pkt) \<and>
    ClassifyNATT (PrependNonESPMarker ike) = Inr (PacketTypeIKE, ike) \<and>
    ClassifyNATT NATTKeepalivePacket = Inr (PacketTypeKeepalive, [])"
proof -
  obtain rest where r: "rest \<noteq> []" "pkt = PutUint32 (SPI sa) @ PutUint32 (seqLow sa) @ rest"
    using Encrypt_header [OF assms(1,4,5)] .
  show ?thesis
    using ClassifyNATT_esp [OF assms(3) r(1)] r(2)
    by (simp add: ClassifyNATT_marker) (simp add: ClassifyNATT_def NATTKeepalivePacket_def)
qed

theorem natt_demultiplexing_witness:
  "\<exists>pkt. ClassifyNATT pkt = Inr (PacketTypeESP, pkt) \<and> length pkt > 8"
proof -
  obtain pkt where e: "Encrypt (\<lambda>_ _ _. []) (Some (replicate 16 5)) example_sa [1] 4 =
      (Inr pkt, example_sa\<lparr>SeqNum := SeqNum example_sa + 1\<rparr>)"
    using encryptAEAD_eq [of example_sa example_aead "[1]" 4]
    by (auto simp: Encrypt_def example_sa_fields) (simp add: example_sa_def)
  then have "ClassifyNATT pkt = Inr (PacketTypeESP, pkt)"
    using natt_demultiplexing [of example_sa "replicate 16 5" "\<lambda>_ _ _. []" "[1]" 4 pkt]
    by (simp add: example_sa_fields)
  then show ?thesis
    by (intro exI [of _ pkt]) (auto simp: ClassifyNATT_def NonESPMarkerLen_def
        MinNATTESPPacketLen_def ESPHeaderLen_def split: if_splits)
qed

end
