(* ===== verification/EspSaDb.thy ===== *)
theory EspSaDb
  imports EspSa
begin

text \<open>
  The SA database of \<^verbatim>\<open>internal/esp/sa.go\<close>. Its maps hold pointers; a pointer is an
  address of the store, and a nil pointer is \<^const>\<open>None\<close>. The store is read by the
  database operations (they look at \<^verbatim>\<open>sa.SPI\<close>) and never written by them. The random
  draws of \<^verbatim>\<open>GenerateSPI\<close> are a list of results of \<^verbatim>\<open>rand.Read\<close>; running out of draws
  is "has not returned yet".
\<close>

type_synonym sa_ref = nat
type_synonym sa_store = "sa_ref \<Rightarrow> SecurityAssociation"

record SADatabase =
  bySPI :: "u32 \<rightharpoonup> sa_ref"
  outbound :: "sa_ref list"

definition NewSADatabase :: SADatabase where
  "NewSADatabase = \<lparr>bySPI = Map.empty, outbound = []\<rparr>"

fun GenerateSPI :: "u32 option list \<Rightarrow> (esp_error + u32) option" where
  "GenerateSPI [] = None"
| "GenerateSPI (None # draws) = Some (Inl RandomFailed)"
| "GenerateSPI (Some spi # draws) = (if spi > 255 then Some (Inr spi) else GenerateSPI draws)"

definition AddInbound :: "sa_store \<Rightarrow> SADatabase \<Rightarrow> sa_ref option \<Rightarrow> esp_error + SADatabase" where
  "AddInbound st db ptr =
     (case ptr of
        None \<Rightarrow> Inl NilSA
      | Some r \<Rightarrow>
          (let spi = SPI (st r) in
           if spi = 0 then Inl SpiZero
           else if spi \<le> 255 then Inl (SpiReserved spi)
           else if bySPI db spi \<noteq> None then Inl (SpiExists spi)
           else Inr (db\<lparr>bySPI := (bySPI db)(spi \<mapsto> r)\<rparr>)))"

definition AddOutbound :: "SADatabase \<Rightarrow> sa_ref option \<Rightarrow> esp_error + SADatabase" where
  "AddOutbound db ptr =
     (case ptr of
        None \<Rightarrow> Inl NilSA
      | Some r \<Rightarrow> Inr (db\<lparr>outbound := outbound db @ [r]\<rparr>))"

definition LookupBySPI :: "SADatabase \<Rightarrow> u32 \<Rightarrow> sa_ref option" where
  "LookupBySPI db spi = bySPI db spi"

definition OutboundSAs :: "SADatabase \<Rightarrow> sa_ref list" where
  "OutboundSAs db = outbound db"

definition RemoveInbound :: "SADatabase \<Rightarrow> u32 \<Rightarrow> SADatabase" where
  "RemoveInbound db spi =
     (case bySPI db spi of
        Some _ \<Rightarrow> db\<lparr>bySPI := (bySPI db)(spi := None)\<rparr>
      | None \<Rightarrow> db)"

text \<open>The loop of \<^verbatim>\<open>RemoveOutbound\<close>: the first SA with that SPI is cut out.\<close>

fun removeFirst :: "sa_store \<Rightarrow> u32 \<Rightarrow> sa_ref list \<Rightarrow> sa_ref list" where
  "removeFirst st spi [] = []"
| "removeFirst st spi (r # rs) = (if SPI (st r) = spi then rs else r # removeFirst st spi rs)"

definition RemoveOutbound :: "sa_store \<Rightarrow> SADatabase \<Rightarrow> u32 \<Rightarrow> SADatabase" where
  "RemoveOutbound st db spi = db\<lparr>outbound := removeFirst st spi (outbound db)\<rparr>"

definition InboundCount :: "SADatabase \<Rightarrow> nat" where
  "InboundCount db = card (dom (bySPI db))"

definition OutboundCount :: "SADatabase \<Rightarrow> nat" where
  "OutboundCount db = length (outbound db)"

section \<open>Invariant\<close>

text \<open>
  Every inbound entry is filed under the SPI of the SA it points to, and no reserved
  SPI (0-255) is ever a key. \<open>SPI\<close> fields never change after construction, so the
  invariant is stable under every store update that keeps them.
\<close>

definition db_ok :: "sa_store \<Rightarrow> SADatabase \<Rightarrow> bool" where
  "db_ok st db \<longleftrightarrow> finite (dom (bySPI db)) \<and>
     (\<forall>spi r. bySPI db spi = Some r \<longrightarrow> SPI (st r) = spi \<and> 255 < spi)"

lemma db_ok_New [simp]: "db_ok st NewSADatabase"
  by (simp add: db_ok_def NewSADatabase_def)

lemma AddInbound_Inr_iff:
  "AddInbound st db ptr = Inr db' \<longleftrightarrow>
     (\<exists>r. ptr = Some r \<and> 255 < SPI (st r) \<and> bySPI db (SPI (st r)) = None \<and>
          db' = db\<lparr>bySPI := (bySPI db)(SPI (st r) \<mapsto> r)\<rparr>)"
  by (auto simp: AddInbound_def Let_def not_le split: option.splits if_splits)

lemma db_ok_AddInbound: "db_ok st db \<Longrightarrow> AddInbound st db ptr = Inr db' \<Longrightarrow> db_ok st db'"
  by (auto simp: AddInbound_Inr_iff db_ok_def split: if_splits)

lemma db_ok_AddOutbound: "db_ok st db \<Longrightarrow> AddOutbound db ptr = Inr db' \<Longrightarrow> db_ok st db'"
  by (auto simp: AddOutbound_def db_ok_def split: option.splits)

lemma db_ok_RemoveInbound [simp]: "db_ok st db \<Longrightarrow> db_ok st (RemoveInbound db spi)"
  by (auto simp: RemoveInbound_def db_ok_def split: option.splits if_splits
      elim: finite_subset [rotated])

lemma db_ok_RemoveOutbound [simp]: "db_ok st db \<Longrightarrow> db_ok st (RemoveOutbound st db spi)"
  by (simp add: RemoveOutbound_def db_ok_def)

lemma db_ok_store_update:
  "db_ok st db \<Longrightarrow> (\<And>r. SPI (st' r) = SPI (st r)) \<Longrightarrow> db_ok st' db"
  by (simp add: db_ok_def)

section \<open>The table as an interface\<close>

text \<open>
  What the engine relies on: lookup after insertion and removal, under an invariant that
  the operations keep. A failed insertion is \<open>Inl\<close>.
\<close>

locale spi_table =
  fixes lookup :: "'d \<Rightarrow> 'k \<Rightarrow> 'r option"
    and insert :: "'d \<Rightarrow> 'r \<Rightarrow> 'e + 'd"
    and remove :: "'d \<Rightarrow> 'k \<Rightarrow> 'd"
    and key :: "'r \<Rightarrow> 'k"
    and ok :: "'d \<Rightarrow> bool"
  assumes lookup_insert: "insert d r = Inr d' \<Longrightarrow> lookup d' = (lookup d)(key r \<mapsto> r)"
    and insert_new: "insert d r = Inr d' \<Longrightarrow> lookup d (key r) = None"
    and lookup_remove: "lookup (remove d k) = (lookup d)(k := None)"
    and ok_insert: "ok d \<Longrightarrow> insert d r = Inr d' \<Longrightarrow> ok d'"
    and ok_remove: "ok d \<Longrightarrow> ok (remove d k)"
    and ok_lookup: "ok d \<Longrightarrow> lookup d k = Some r \<Longrightarrow> key r = k"
begin

lemma insert_lookup_same: "insert d r = Inr d' \<Longrightarrow> lookup d' (key r) = Some r"
  by (simp add: lookup_insert)

lemma insert_keeps_others: "insert d r = Inr d' \<Longrightarrow> lookup d k = Some q \<Longrightarrow> lookup d' k = Some q"
  using insert_new [of d r d'] by (auto simp: lookup_insert)

lemma insert_remove: "insert d r = Inr d' \<Longrightarrow> lookup (remove d' (key r)) = lookup d"
  using insert_new [of d r d'] by (auto simp: lookup_insert lookup_remove)

lemma lookup_inj:
  "ok d \<Longrightarrow> lookup d k = Some r \<Longrightarrow> lookup d k' = Some r \<Longrightarrow> k = k'"
  by (metis ok_lookup)

end

interpretation sadb: spi_table LookupBySPI "\<lambda>db r. AddInbound st db (Some r)" RemoveInbound
    "\<lambda>r. SPI (st r)" "db_ok st" for st
  by unfold_locales
    (auto simp: LookupBySPI_def AddInbound_Inr_iff RemoveInbound_def db_ok_def
      split: option.splits elim: finite_subset [rotated])

lemma OutboundCount_AddOutbound:
  "AddOutbound db (Some r) = Inr db' \<Longrightarrow> OutboundCount db' = Suc (OutboundCount db)"
  by (auto simp: AddOutbound_def OutboundCount_def)

lemma removeFirst_absent: "spi \<notin> SPI ` st ` set rs \<Longrightarrow> removeFirst st spi rs = rs"
  by (induction rs) auto

lemma removeFirst_mset:
  "spi \<in> SPI ` st ` set rs \<Longrightarrow> \<exists>pre r post. rs = pre @ r # post \<and> SPI (st r) = spi \<and>
     spi \<notin> SPI ` st ` set pre \<and> removeFirst st spi rs = pre @ post"
proof (induction rs)
  case (Cons a rs)
  show ?case
  proof (cases "SPI (st a) = spi")
    case True
    then show ?thesis by (intro exI [of _ "[]"]) auto
  next
    case False
    with Cons obtain pre r post where "rs = pre @ r # post" "SPI (st r) = spi"
      "spi \<notin> SPI ` st ` set pre" "removeFirst st spi rs = pre @ post" by auto
    with False show ?thesis by (intro exI [of _ "a # pre"] exI [of _ r] exI [of _ post]) auto
  qed
qed simp

lemma InboundCount_AddInbound:
  assumes "db_ok st db" and "AddInbound st db ptr = Inr db'"
  shows "InboundCount db' = Suc (InboundCount db)"
  using assms by (auto simp: AddInbound_Inr_iff InboundCount_def db_ok_def card_insert_if domIff)

lemma GenerateSPI_returns:
  assumes "Some spi \<in> set draws" and "None \<notin> set draws" and "255 < spi"
  shows "\<exists>v. GenerateSPI draws = Some (Inr v) \<and> 255 < v"
  using assms by (induction draws rule: GenerateSPI.induct) auto

lemma GenerateSPI_range: "GenerateSPI draws = Some (Inr v) \<Longrightarrow> 255 < v"
  by (induction draws rule: GenerateSPI.induct) (auto split: if_splits)

text \<open>
  A generated SPI is never in the reserved range 0-255 and is always acceptable to
  \<open>AddInbound\<close>: registering a new SA under it fails only if that SPI is already taken.
\<close>

theorem generated_spi_is_registrable:
  assumes "GenerateSPI draws = Some (Inr v)" and "SPI (st r) = v" and "LookupBySPI db v = None"
  shows "\<exists>db'. AddInbound st db (Some r) = Inr db' \<and> LookupBySPI db' v = Some r \<and>
    (\<forall>k. k \<noteq> v \<longrightarrow> LookupBySPI db' k = LookupBySPI db k) \<and>
    LookupBySPI (RemoveInbound db' v) = LookupBySPI db"
proof -
  have "255 < v" using assms(1) by (rule GenerateSPI_range)
  then obtain db' where a: "AddInbound st db (Some r) = Inr db'"
    using assms by (simp add: AddInbound_Inr_iff LookupBySPI_def)
  with sadb.insert_lookup_same [OF a] sadb.lookup_insert [OF a] sadb.insert_remove [OF a] assms(2)
  show ?thesis by auto
qed

theorem generated_spi_is_registrable_witness:
  "\<exists>db'. AddInbound (\<lambda>_. example_sa) NewSADatabase (Some 7) = Inr db' \<and>
     LookupBySPI db' 256 = Some 7"
  using generated_spi_is_registrable [of "[Some 12, Some 256]" 256
      "\<lambda>_. example_sa" 7 NewSADatabase]
  by (auto simp: LookupBySPI_def NewSADatabase_def example_sa_def)

end
