(* ===== verification/EspEngine.thy ===== *)
theory EspEngine
  imports EspNatt EspSaDb
begin

unbundle bit_operations_syntax

text \<open>
  The ESP data plane of \<^verbatim>\<open>internal/esp/engine.go\<close>: one inbound datagram
  (\<^verbatim>\<open>HandleInboundESP\<close>), one iteration of the outbound loop, and the SPD operations.
  The state holds the store of SAs that the database, the SPD and the default slot point
  into. What the code does to the outside (TUN writes, UDP sends, calls of the L2TP
  handler) is the list of effects of a step; failures of the writes and sends are only logged
  by the code. The L2TP handler is an interface value that the engine calls before it returns:
  it is an argument, with a state of its own (\<open>'w\<close>, everything that the call may change), and
  \<^const>\<open>None\<close> where it panics. A step is \<^const>\<open>None\<close> where the code panics, the handler included.
\<close>

record engine =
  store :: sa_store
  saDB :: SADatabase
  defaultOutSA :: "sa_ref option"
  nattPort :: nat
  hasL2TP :: bool
  spd :: "ip \<rightharpoonup> sa_ref"
  hasTunReader :: bool
  hasTunWriter :: bool
  hasSender :: bool
  running :: bool

text \<open>\<open>ToL2TP\<close> records a call of the handler that has returned.\<close>

datatype effect = TunWrite bytes | ToL2TP bytes udp_addr | UdpSend nat bytes udp_addr

type_synonym 'w l2tp_handler = "bytes \<Rightarrow> udp_addr \<Rightarrow> 'w \<Rightarrow> 'w option"

definition NewEngine ::
  "sa_store \<Rightarrow> SADatabase option \<Rightarrow> bool \<Rightarrow> sa_ref option \<Rightarrow> nat \<Rightarrow> bool \<Rightarrow> bool \<Rightarrow> bool \<Rightarrow> engine option" where
  "NewEngine st db havePool dflt port tr tw us =
     (case db of
        None \<Rightarrow> None
      | Some d \<Rightarrow>
          if \<not> havePool then None
          else Some \<lparr>store = st, saDB = d, defaultOutSA = dflt,
                     nattPort = (if port = 0 then 4500 else port), hasL2TP = False,
                     spd = Map.empty, hasTunReader = tr, hasTunWriter = tw, hasSender = us,
                     running = False\<rparr>)"

definition SetDefaultOutboundSA :: "engine \<Rightarrow> sa_ref option \<Rightarrow> engine" where
  "SetDefaultOutboundSA e sa = e\<lparr>defaultOutSA := sa\<rparr>"

definition SetL2TPHandler :: "engine \<Rightarrow> bool \<Rightarrow> engine" where
  "SetL2TPHandler e h = e\<lparr>hasL2TP := h\<rparr>"

definition AddOutboundSA :: "engine \<Rightarrow> ip \<Rightarrow> sa_ref \<Rightarrow> engine" where
  "AddOutboundSA e dstIP sa = e\<lparr>spd := (spd e)(To16 dstIP \<mapsto> sa)\<rparr>"

definition RemoveOutboundSA :: "engine \<Rightarrow> ip \<Rightarrow> engine" where
  "RemoveOutboundSA e dstIP = e\<lparr>spd := (spd e)(To16 dstIP := None)\<rparr>"

text \<open>
  The error of \<^verbatim>\<open>AddInbound\<close> is discarded here, as in the source, which then reads
  \<^verbatim>\<open>sa.SPI\<close> for the log line: a nil SA panics.
\<close>

definition AddInboundSA :: "engine \<Rightarrow> sa_ref option \<Rightarrow> engine option" where
  "AddInboundSA e sa =
     (let e' = (case AddInbound (store e) (saDB e) sa of Inl _ \<Rightarrow> e | Inr db \<Rightarrow> e\<lparr>saDB := db\<rparr>)
      in if sa = None then None else Some e')"

definition RemoveInboundSA :: "engine \<Rightarrow> u32 \<Rightarrow> engine" where
  "RemoveInboundSA e spi = e\<lparr>saDB := RemoveInbound (saDB e) spi\<rparr>"

definition handleInnerUDP ::
  "'w l2tp_handler \<Rightarrow> engine \<Rightarrow> bytes \<Rightarrow> udp_addr \<Rightarrow> 'w \<Rightarrow> (effect list \<times> 'w) option" where
  "handleInnerUDP handler e udpData remoteAddr w =
     (if length udpData < 8 then Some ([], w)
      else
        (let dstPort = Uint16 (slice 2 4 udpData) in
         if dstPort = 1701 then
           (if hasL2TP e then
              (let l2tpPayload = drop 8 udpData in
               case handler l2tpPayload remoteAddr w of
                 None \<Rightarrow> None
               | Some w' \<Rightarrow> Some ([ToL2TP l2tpPayload remoteAddr], w'))
            else Some ([], w))
         else if hasTunWriter e then Some ([TunWrite udpData], w)
         else Some ([], w)))"

text \<open>NAT rebinding: the peer address follows the sender's IP (not its port).\<close>

definition updatePeer :: "SecurityAssociation \<Rightarrow> udp_addr \<Rightarrow> SecurityAssociation" where
  "updatePeer sa remoteAddr =
     (case PeerAddr sa of
        Some a \<Rightarrow> if \<not> IPEqual (addrIP a) (addrIP remoteAddr)
                  then sa\<lparr>PeerAddr := Some remoteAddr\<rparr> else sa
      | None \<Rightarrow> sa)"

text \<open>From decryption on: update the SA and the peer address, route by next header.\<close>

definition decryptAndRoute ::
  "hmac_fun \<Rightarrow> 'w l2tp_handler \<Rightarrow> engine \<Rightarrow> sa_ref \<Rightarrow> bytes \<Rightarrow> udp_addr \<Rightarrow> 'w \<Rightarrow>
   (effect list \<times> engine \<times> 'w) option" where
  "decryptAndRoute hmac handler e r espData remoteAddr w =
     (case Decrypt hmac (store e r) espData of
        (Inl err, sa') \<Rightarrow>
          if err = Panic then None
          else Some ([], e\<lparr>store := (store e)(r := sa')\<rparr>, w)
      | (Inr (innerPacket, nextHeader), sa') \<Rightarrow>
          (let sa'' = updatePeer sa' remoteAddr;
               e' = e\<lparr>store := (store e)(r := sa'')\<rparr>
           in
           if nextHeader = NextHeaderUDP
           then (case handleInnerUDP handler e' innerPacket remoteAddr w of
                   None \<Rightarrow> None
                 | Some (effs, w') \<Rightarrow> Some (effs, e', w'))
           else if nextHeader = NextHeaderDummy then Some ([], e', w)
           else Some (if hasTunWriter e' then [TunWrite innerPacket] else [], e', w)))"

definition HandleInboundESP ::
  "hmac_fun \<Rightarrow> 'w l2tp_handler \<Rightarrow> engine \<Rightarrow> bytes \<Rightarrow> nat \<Rightarrow> udp_addr \<Rightarrow> 'w \<Rightarrow>
   (effect list \<times> engine \<times> 'w) option" where
  "HandleInboundESP hmac handler e buf n remoteAddr w =
     (if n < ESPHeaderLen then Some ([], e, w)
      else
      (case ClassifyNATT (take n buf) of
         Inl _ \<Rightarrow> Some ([], e, w)
       | Inr (pktType, espData) \<Rightarrow>
           if pktType = PacketTypeIKE then Some ([], e, w)
           else if pktType = PacketTypeKeepalive then Some ([], e, w)
           else
           (case ParseHeader espData of
              Inl _ \<Rightarrow> Some ([], e, w)
            | Inr hdr \<Rightarrow>
                (case LookupBySPI (saDB e) (hSPI hdr) of
                   None \<Rightarrow> Some ([], e, w)
                 | Some r \<Rightarrow> decryptAndRoute hmac handler e r espData remoteAddr w))))"

section \<open>Outbound\<close>

definition detectIPVersion :: "bytes \<Rightarrow> byte" where
  "detectIPVersion packet =
     (if length packet = 0 then NextHeaderIPv4
      else
        (let version = drop_bit 4 (packet ! 0) in
         if version = 4 then NextHeaderIPv4
         else if version = 6 then NextHeaderIPv6
         else NextHeaderIPv4))"

definition extractDstIP :: "bytes \<Rightarrow> ip" where
  "extractDstIP packet =
     (if length packet < 20 then []
      else
        (let version = drop_bit 4 (packet ! 0) in
         if version = 4 then slice 16 20 packet
         else if version = 6 then
           (if length packet < 40 then [] else slice 24 40 packet)
         else []))"

definition selectOutSA :: "engine \<Rightarrow> ip \<Rightarrow> sa_ref option" where
  "selectOutSA e dstIP =
     (let outSA = (if dstIP \<noteq> [] then spd e (To16 dstIP) else None)
      in case outSA of None \<Rightarrow> defaultOutSA e | Some r \<Rightarrow> Some r)"

text \<open>One iteration of \<^verbatim>\<open>outboundLoop\<close>, for the packet that \<^verbatim>\<open>ReadPacket\<close> returned.\<close>

definition outboundStep ::
  "hmac_fun \<Rightarrow> bytes option \<Rightarrow> engine \<Rightarrow> bytes \<Rightarrow> (effect list \<times> engine) option" where
  "outboundStep hmac rnd e packet =
     (if length packet = 0 then Some ([], e)
      else
        (let nextHeader = detectIPVersion packet; dstIP = extractDstIP packet in
         case selectOutSA e dstIP of
           None \<Rightarrow> Some ([], e)
         | Some r \<Rightarrow>
             (case Encrypt hmac rnd (store e r) packet nextHeader of
                (Inl err, sa') \<Rightarrow>
                  if err = Panic then None
                  else Some ([], e\<lparr>store := (store e)(r := sa')\<rparr>)
              | (Inr espPacket, sa') \<Rightarrow>
                  (let e' = e\<lparr>store := (store e)(r := sa')\<rparr> in
                   case PeerAddr sa' of
                     Some peer \<Rightarrow>
                       Some (if hasSender e then [UdpSend (nattPort e) espPacket peer] else [], e')
                   | None \<Rightarrow> Some ([], e')))))"

text \<open>\<^verbatim>\<open>Start\<close>: refused while running; otherwise the loops run until the context ends.\<close>

definition StartEngine :: "engine \<Rightarrow> engine" where
  "StartEngine e = (if running e then e else e\<lparr>running := True\<rparr>)"

definition StopEngine :: "engine \<Rightarrow> engine" where
  "StopEngine e = e\<lparr>running := False\<rparr>"

section \<open>What an inbound step does\<close>

text \<open>The engine invariant: the database is well-formed and every registered SA is usable.\<close>

definition engine_ok :: "engine \<Rightarrow> bool" where
  "engine_ok e \<longleftrightarrow> db_ok (store e) (saDB e) \<and>
     (\<forall>spi r. bySPI (saDB e) spi = Some r \<longrightarrow> sa_ready (store e r))"

lemma replayAdvance_fields [simp]:
  "SPI (replayAdvance sa s) = SPI sa" "SeqNum (replayAdvance sa s) = SeqNum sa"
  "Suite (replayAdvance sa s) = Suite sa" "AEAD (replayAdvance sa s) = AEAD sa"
  "CBCBlock (replayAdvance sa s) = CBCBlock sa" "Salt (replayAdvance sa s) = Salt sa"
  "Integrity (replayAdvance sa s) = Integrity sa" "PeerAddr (replayAdvance sa s) = PeerAddr sa"
  by (simp_all add: replayAdvance_def split: option.splits)

lemma updatePeer_fields [simp]:
  "SPI (updatePeer sa a) = SPI sa" "SeqNum (updatePeer sa a) = SeqNum sa"
  "Suite (updatePeer sa a) = Suite sa" "AEAD (updatePeer sa a) = AEAD sa"
  "CBCBlock (updatePeer sa a) = CBCBlock sa" "Salt (updatePeer sa a) = Salt sa"
  "Integrity (updatePeer sa a) = Integrity sa" "Replay (updatePeer sa a) = Replay sa"
  by (simp_all add: updatePeer_def split: option.splits)

lemma sa_ready_cong:
  "Suite a = Suite b \<Longrightarrow> AEAD a = AEAD b \<Longrightarrow> CBCBlock a = CBCBlock b \<Longrightarrow> Salt a = Salt b \<Longrightarrow>
     Integrity a = Integrity b \<Longrightarrow> sa_ready a = sa_ready b"
  by (simp add: sa_ready_def)

lemma stripESPTrailer_no_panic: "finishDecrypt pt \<noteq> Inl Panic"
  by (auto simp: finishDecrypt_def stripESPTrailer_def Let_def split: if_splits)

lemma Decrypt_ready_no_panic:
  assumes "sa_ready sa"
  shows "fst (Decrypt hmac sa pkt) \<noteq> Inl Panic"
  using assms
  by (auto simp: Decrypt_def decryptAEAD_def decryptCBC_def sa_ready_def Let_def ParseHeader_def
      BuildNonce_def stripESPTrailer_no_panic split: option.splits sum.splits if_splits)

text \<open>The SA an inbound datagram is for, when it gets as far as decryption.\<close>

definition inboundSA :: "engine \<Rightarrow> bytes \<Rightarrow> sa_ref option" where
  "inboundSA e pkt = LookupBySPI (saDB e) (Uint32 (slice 0 4 pkt))"

text \<open>
  Every inbound step either leaves the engine as it is and does nothing, or concerns one
  registered SA and a packet that is authentic and new for it.
\<close>

lemma ClassifyNATT_esp_D:
  "ClassifyNATT pkt = Inr (PacketTypeESP, d) \<Longrightarrow> d = pkt \<and> 9 \<le> length pkt"
  by (auto simp: ClassifyNATT_def MinNATTESPPacketLen_def ESPHeaderLen_def split: if_splits)

lemma HandleInboundESP_eq:
  assumes "n \<le> length buf"
  shows "HandleInboundESP hmac h e buf n addr w =
    (if ClassifyNATT (take n buf) \<noteq> Inr (PacketTypeESP, take n buf) then Some ([], e, w)
     else (case inboundSA e (take n buf) of
             None \<Rightarrow> Some ([], e, w)
           | Some r \<Rightarrow> decryptAndRoute hmac h e r (take n buf) addr w))"
proof (cases "\<exists>d. ClassifyNATT (take n buf) = Inr (PacketTypeESP, d)")
  case False
  then show ?thesis
    by (auto simp: HandleInboundESP_def split: sum.splits prod.splits) (metis PacketType.exhaust)+
next
  case True
  then have "ClassifyNATT (take n buf) = Inr (PacketTypeESP, take n buf)" "9 \<le> length (take n buf)"
    using ClassifyNATT_esp_D by blast+
  with assms show ?thesis
    by (simp add: HandleInboundESP_def ESPHeaderLen_def ParseHeader_def inboundSA_def)
qed

text \<open>The L2TP payload that a step hands to the handler: of an authentic UDP datagram for port 1701.\<close>

definition l2tpPayloadOf :: "hmac_fun \<Rightarrow> engine \<Rightarrow> bytes \<Rightarrow> bytes option" where
  "l2tpPayloadOf hmac e pkt =
     (if ClassifyNATT pkt \<noteq> Inr (PacketTypeESP, pkt) then None
      else
      (case inboundSA e pkt of
         None \<Rightarrow> None
       | Some r \<Rightarrow>
           (case fst (Decrypt hmac (store e r) pkt) of
              Inl _ \<Rightarrow> None
            | Inr (inner, nh) \<Rightarrow>
                if nh = NextHeaderUDP \<and> 8 \<le> length inner \<and> Uint16 (slice 2 4 inner) = 1701 \<and> hasL2TP e
                then Some (drop 8 inner) else None)))"

lemma handleInnerUDP_cases:
  "handleInnerUDP h e inner addr w =
    (if 8 \<le> length inner \<and> Uint16 (slice 2 4 inner) = 1701 \<and> hasL2TP e
     then map_option (Pair [ToL2TP (drop 8 inner) addr]) (h (drop 8 inner) addr w)
     else Some (if 8 \<le> length inner \<and> Uint16 (slice 2 4 inner) \<noteq> 1701 \<and> hasTunWriter e then [TunWrite inner] else [], w))"
  by (auto simp: handleInnerUDP_def Let_def split: option.split)

text \<open>What the handler sees of a step, and that nothing else decides about a panic.\<close>

lemma HandleInboundESP_l2tp:
  assumes "n \<le> length buf" and "\<And>r. inboundSA e (take n buf) = Some r \<Longrightarrow> fst (Decrypt hmac (store e r) (take n buf)) \<noteq> Inl Panic"
  shows "HandleInboundESP hmac h e buf n addr w = None \<longleftrightarrow>
      (\<exists>p. l2tpPayloadOf hmac e (take n buf) = Some p \<and> h p addr w = None)"
    and "HandleInboundESP hmac h e buf n addr w = Some (effs, e', w') \<Longrightarrow>
      (case l2tpPayloadOf hmac e (take n buf) of
         None \<Rightarrow> w' = w \<and> (\<forall>p a. ToL2TP p a \<notin> set effs)
       | Some p \<Rightarrow> h p addr w = Some w' \<and> effs = [ToL2TP p addr])"
  using assms(2)
  by (auto simp: HandleInboundESP_eq [OF assms(1)] decryptAndRoute_def handleInnerUDP_cases l2tpPayloadOf_def Let_def
      split: option.splits prod.splits sum.splits if_splits)

lemma HandleInboundESP_cases:
  assumes "HandleInboundESP hmac h e buf n addr w = Some (effs, e', w')" and "n \<le> length buf"
  shows "(effs = [] \<and> e' = e \<and> w' = w) \<or>
    (\<exists>r s. inboundSA e (take n buf) = Some r \<and>
       replayCheck (store e r) (ucast (pktSeq (take n buf))) \<and>
       authentic hmac (store e r) (take n buf) \<and>
       (s = replayAdvance (store e r) (ucast (pktSeq (take n buf))) \<and> effs = [] \<and> w' = w \<or>
        s = updatePeer (replayAdvance (store e r) (ucast (pktSeq (take n buf)))) addr) \<and>
       e' = e\<lparr>store := (store e)(r := s)\<rparr>)"
proof (cases "effs = [] \<and> e' = e \<and> w' = w")
  case False
  with assms obtain r where r: "inboundSA e (take n buf) = Some r"
    "decryptAndRoute hmac h e r (take n buf) addr w = Some (effs, e', w')"
    by (auto simp: HandleInboundESP_eq split: if_splits option.splits)
  obtain res sa' where d: "Decrypt hmac (store e r) (take n buf) = (res, sa')" by fastforce
  have "\<not> (sa' = store e r \<and> (\<exists>x. res = Inl x))"
    using False r d by (auto simp: decryptAndRoute_def split: if_splits)
  with Decrypt_cases [OF d] have c: "replayCheck (store e r) (ucast (pktSeq (take n buf)))"
    "authentic hmac (store e r) (take n buf)"
    "sa' = replayAdvance (store e r) (ucast (pktSeq (take n buf)))" by auto
  from r(2) d have "(e' = e\<lparr>store := (store e)(r := sa')\<rparr> \<and> effs = [] \<and> w' = w) \<or>
      e' = e\<lparr>store := (store e)(r := updatePeer sa' addr)\<rparr>"
    by (auto simp: decryptAndRoute_def Let_def split: sum.splits if_splits option.splits)
  with r(1) c show ?thesis by blast
qed simp

text \<open>A payload handed to the handler comes from an authentic packet that is new in its window.\<close>

lemma l2tpPayloadOf_authentic:
  assumes "l2tpPayloadOf hmac e pkt = Some p"
  shows "\<exists>r. inboundSA e pkt = Some r \<and> replayCheck (store e r) (ucast (pktSeq pkt)) \<and> authentic hmac (store e r) pkt"
proof -
  obtain r where r: "inboundSA e pkt = Some r" "\<not> isl (fst (Decrypt hmac (store e r) pkt))"
    using assms by (auto simp: l2tpPayloadOf_def split: option.splits sum.splits if_splits)
  with Decrypt_cases [of hmac "store e r" pkt "fst (Decrypt hmac (store e r) pkt)" "snd (Decrypt hmac (store e r) pkt)"]
  show ?thesis by auto
qed

lemma engine_ok_store_update:
  assumes "engine_ok e" and "SPI s = SPI (store e r)" and "sa_ready (store e r) \<Longrightarrow> sa_ready s"
  shows "engine_ok (e\<lparr>store := (store e)(r := s)\<rparr>)"
  using assms by (auto simp: engine_ok_def db_ok_def)

lemma sa_ready_replayAdvance [simp]:
  "sa_ready (replayAdvance sa s) = sa_ready sa" "sa_ready (updatePeer sa a) = sa_ready sa"
  by (rule sa_ready_cong; simp)+

lemma engine_ok_ready:
  "engine_ok e \<Longrightarrow> inboundSA e pkt = Some r \<Longrightarrow> fst (Decrypt hmac (store e r) pkt) \<noteq> Inl Panic"
  by (rule Decrypt_ready_no_panic) (auto simp: engine_ok_def inboundSA_def LookupBySPI_def)

lemma inbound_ok_step:
  assumes "engine_ok e" and "n \<le> length buf" and "HandleInboundESP hmac h e buf n addr w = Some (effs, e', w')"
  shows "engine_ok e' \<and> saDB e' = saDB e \<and> spd e' = spd e"
  using HandleInboundESP_cases [OF assms(3,2)] assms(1) by (auto intro!: engine_ok_store_update)

text \<open>
  C14. The data plane has no panic of its own, and keeps its invariant. With well-formed SAs
  registered, a datagram from anywhere panics exactly when the registered L2TP handler panics on
  the payload that the datagram carries for it: \<open>l2tpPayloadOf\<close>, the bytes behind the UDP header
  of an inner datagram for port 1701, decrypted under a registered SA. Every other datagram is
  processed to completion: the SA database and the SPD stay as they are and well-formed, and the
  handler's state changes only by that one call. (The L2TP server does panic on some payloads.)
\<close>

theorem inbound_no_panic_keeps_invariant:
  assumes "engine_ok e" and "n \<le> length buf"
  shows "(HandleInboundESP hmac h e buf n addr w = None \<longleftrightarrow>
      (\<exists>p. l2tpPayloadOf hmac e (take n buf) = Some p \<and> h p addr w = None)) \<and>
    (\<forall>effs e' w'. HandleInboundESP hmac h e buf n addr w = Some (effs, e', w') \<longrightarrow>
       engine_ok e' \<and> saDB e' = saDB e \<and> spd e' = spd e \<and>
       (case l2tpPayloadOf hmac e (take n buf) of
          None \<Rightarrow> w' = w \<and> (\<forall>p a. ToL2TP p a \<notin> set effs)
        | Some p \<Rightarrow> h p addr w = Some w' \<and> effs = [ToL2TP p addr]))"
proof -
  note l = HandleInboundESP_l2tp [OF assms(2) engine_ok_ready [OF assms(1)], of hmac h addr w]
  show ?thesis
  proof (intro conjI [OF l(1)] allI impI)
    fix effs e' w'
    assume run: "HandleInboundESP hmac h e buf n addr w = Some (effs, e', w')"
    show "engine_ok e' \<and> saDB e' = saDB e \<and> spd e' = spd e \<and>
       (case l2tpPayloadOf hmac e (take n buf) of
          None \<Rightarrow> w' = w \<and> (\<forall>p a. ToL2TP p a \<notin> set effs)
        | Some p \<Rightarrow> h p addr w = Some w' \<and> effs = [ToL2TP p addr])"
      using inbound_ok_step [OF assms run] l(2) [OF _ run] by simp
  qed
qed

section \<open>Concrete engines for witnesses\<close>

definition example_peer :: udp_addr where
  "example_peer = \<lparr>addrIP = [198, 51, 100, 7], addrPort = 4500\<rparr>"

definition example_engine :: engine where
  "example_engine =
     \<lparr>store = (\<lambda>_. example_sa\<lparr>PeerAddr := Some example_peer\<rparr>),
      saDB = \<lparr>bySPI = [256 \<mapsto> 0], outbound = []\<rparr>, defaultOutSA = Some 1, nattPort = 4500,
      hasL2TP = False, spd = Map.empty, hasTunReader = True, hasTunWriter = True,
      hasSender = True, running = False\<rparr>"

lemma example_engine_ok: "engine_ok example_engine"
  by (auto simp: engine_ok_def example_engine_def db_ok_def example_sa_def sa_ready_def suite_defs
      split: if_splits)

section \<open>Safety\<close>

text \<open>
  C13. Nothing reaches the TUN device or the L2TP server unless it is protected: an
  inbound datagram causes an effect, or a change of the L2TP handler's state, only if its SPI is
  registered, its integrity check passes under that SA, and its sequence number is new in that
  SA's window.
\<close>

theorem inbound_effects_are_authentic:
  assumes "HandleInboundESP hmac h e buf n addr w = Some (effs, e', w')" and "n \<le> length buf"
    and "effs \<noteq> [] \<or> w' \<noteq> w"
  shows "\<exists>r. LookupBySPI (saDB e) (Uint32 (slice 0 4 (take n buf))) = Some r \<and>
    authentic hmac (store e r) (take n buf) \<and>
    replayCheck (store e r) (ucast (pktSeq (take n buf)))"
  using HandleInboundESP_cases [OF assms(1,2)] assms(3) by (auto simp: inboundSA_def)

text \<open>
  An engine fed a list of datagrams: which (SPI, sequence number) pairs it acted on, and whether
  it got to the end of the list. A panic, which is one of the handler that it has called, ends the
  run after that datagram.
\<close>

primrec inboundAll ::
  "hmac_fun \<Rightarrow> 'w l2tp_handler \<Rightarrow> engine \<Rightarrow> 'w \<Rightarrow> (bytes \<times> udp_addr) list \<Rightarrow> (u32 \<times> u32) list \<times> bool" where
  "inboundAll hmac h e w [] = ([], True)"
| "inboundAll hmac h e w (d # ds) =
     (let pair = (Uint32 (slice 0 4 (fst d)), pktSeq (fst d)) in
      case HandleInboundESP hmac h e (fst d) (length (fst d)) (snd d) w of
        None \<Rightarrow> ([pair], False)
      | Some (effs, e', w') \<Rightarrow>
          (let (rest, done) = inboundAll hmac h e' w' ds
           in ((if effs \<noteq> [] then [pair] else []) @ rest, done)))"

text \<open>Every registered SA has a window, which represents what was delivered for its SPI.\<close>

definition windows_represent :: "engine \<Rightarrow> (u32 \<Rightarrow> u64 set) \<Rightarrow> bool" where
  "windows_represent e H \<longleftrightarrow> db_ok (store e) (saDB e) \<and>
     (\<forall>spi r. bySPI (saDB e) spi = Some r \<longrightarrow>
        (\<exists>rw. Replay (store e r) = Some rw \<and> represents rw (H spi)))"

lemma Replay_replayAdvance:
  "Replay sa = Some rw \<Longrightarrow> Replay (replayAdvance sa s) = Some (Advance rw s)"
  by (simp add: replayAdvance_def)

lemma windows_represent_step:
  assumes W: "windows_represent e H" and r: "inboundSA e pkt = Some r"
    and c: "replayCheck (store e r) (ucast (pktSeq pkt))"
    and s: "Replay sa' = Replay (replayAdvance (store e r) (ucast (pktSeq pkt)))" "SPI sa' = SPI (store e r)"
  shows "ucast (pktSeq pkt) \<notin> H (Uint32 (slice 0 4 pkt))" and
    "windows_represent (e\<lparr>store := (store e)(r := sa')\<rparr>)
      (H(Uint32 (slice 0 4 pkt) := insert (ucast (pktSeq pkt)) (H (Uint32 (slice 0 4 pkt)))))"
proof -
  let ?k = "Uint32 (slice 0 4 pkt)" and ?s = "ucast (pktSeq pkt) :: u64"
  have b: "bySPI (saDB e) ?k = Some r" using r by (simp add: inboundSA_def LookupBySPI_def)
  then obtain rw where rw: "Replay (store e r) = Some rw" "represents rw (H ?k)"
    using W by (auto simp: windows_represent_def)
  with c have ck: "Check rw ?s" by (simp add: replayCheck_def)
  show "?s \<notin> H ?k" using rw.check_new [OF rw(2) ck] .
  have uniq: "k = ?k" if "bySPI (saDB e) k = Some r" for k
    using W b that unfolding windows_represent_def db_ok_def by metis
  have "represents (Advance rw ?s) (insert ?s (H ?k))" using rw.advance_rep [OF rw(2) ck] .
  moreover have "Replay sa' = Some (Advance rw ?s)"
    using s(1) rw(1) by (simp add: Replay_replayAdvance)
  ultimately have new: "\<exists>w. Replay sa' = Some w \<and> represents w (insert ?s (H ?k))" by blast
  have "\<exists>w. Replay (((store e)(r := sa')) q) = Some w \<and>
      represents w ((H(?k := insert ?s (H ?k))) k)" if q: "bySPI (saDB e) k = Some q" for k q
  proof (cases "q = r")
    case True
    with uniq q have "k = ?k" by blast
    with new True show ?thesis by simp
  next
    case False
    with q b have "k \<noteq> ?k" by auto
    with W q False show ?thesis by (simp add: windows_represent_def)
  qed
  moreover have "db_ok ((store e)(r := sa')) (saDB e)"
    using W s(2) by (auto simp: windows_represent_def db_ok_def)
  ultimately show "windows_represent (e\<lparr>store := (store e)(r := sa')\<rparr>)
      (H(?k := insert ?s (H ?k)))"
    by (simp add: windows_represent_def)
qed

lemma windows_represent_new:
  assumes "windows_represent e H" and "inboundSA e pkt = Some r" and "replayCheck (store e r) (ucast (pktSeq pkt))"
  shows "ucast (pktSeq pkt) \<notin> H (Uint32 (slice 0 4 pkt))"
  using windows_represent_step(1) [OF assms refl] by (metis replayAdvance_fields(1))

lemma inboundAll_distinct:
  assumes "windows_represent e H" and "engine_ok e"
  shows "distinct (fst (inboundAll hmac h e w ds)) \<and>
    (\<forall>(spi, seq)\<in>set (fst (inboundAll hmac h e w ds)). ucast seq \<notin> H spi) \<and>
    ((\<forall>p a w. h p a w \<noteq> None) \<longrightarrow> snd (inboundAll hmac h e w ds))"
  using assms
proof (induction ds arbitrary: e H w)
  case Nil
  then show ?case by simp
next
  case (Cons d ds)
  let ?p = "fst d"
  let ?k = "Uint32 (slice 0 4 ?p)" and ?s = "ucast (pktSeq ?p) :: u64"
  note l2tp = HandleInboundESP_l2tp(1) [of "length ?p" ?p e hmac h "snd d" w, simplified, OF engine_ok_ready [OF Cons.prems(2)]]
  show ?case
  proof (cases "HandleInboundESP hmac h e ?p (length ?p) (snd d) w")
    case None
    with l2tp obtain p where p: "l2tpPayloadOf hmac e ?p = Some p" "h p (snd d) w = None" by auto
    with l2tpPayloadOf_authentic [OF p(1)] windows_represent_new [OF Cons.prems(1)] have "?s \<notin> H ?k" by blast
    moreover have "\<not> (\<forall>p a w. h p a w \<noteq> None)" using p(2) by blast
    ultimately show ?thesis using None by simp
  next
    case (Some res)
    obtain effs e' w' where res: "res = (effs, e', w')" by (cases res) auto
    note run = Some [unfolded res]
    have ok: "engine_ok e'" using inbound_ok_step [OF Cons.prems(2) order_refl run] by simp
    obtain rest fin where i: "inboundAll hmac h e' w' ds = (rest, fin)" by fastforce
    have out: "inboundAll hmac h e w (d # ds) = ((if effs \<noteq> [] then [(?k, pktSeq ?p)] else []) @ rest, fin)"
      using run i by (simp add: Let_def)
    have eq: "ucast (x :: u32) = (ucast y :: u64) \<longleftrightarrow> x = y" for x y
      by (metis unat_ucast_32_64 word_unat_eq_iff)
    from HandleInboundESP_cases [OF run] consider "effs = []" "e' = e"
      | r s where "inboundSA e ?p = Some r" "replayCheck (store e r) ?s"
        "s = replayAdvance (store e r) ?s \<or> s = updatePeer (replayAdvance (store e r) ?s) (snd d)"
        "e' = e\<lparr>store := (store e)(r := s)\<rparr>"
      by (auto simp del: fun_upd_apply)
    then show ?thesis
    proof cases
      case 1
      with Cons.IH [OF Cons.prems, of w'] i out show ?thesis by simp
    next
      case 2
      have "Replay s = Replay (replayAdvance (store e r) ?s)" "SPI s = SPI (store e r)"
        using 2(3) by auto
      note w = windows_represent_step [OF Cons.prems(1) 2(1,2) this]
      from Cons.IH [OF w(2) [folded 2(4)] ok, of w'] i w(1) out show ?thesis
        by (auto split: if_splits)
    qed
  qed
qed

text \<open>
  C7. No replay through the whole data plane: with a fresh window in every registered
  SA, an attacker who injects, reorders and replays datagrams from any addresses can make
  the engine act on each (SPI, sequence number) pair at most once, a call of the L2TP handler
  that panics included; and unless the handler panics the engine gets through all of them.
\<close>

theorem data_plane_no_replay:
  assumes "engine_ok e"
    and "\<And>spi r. bySPI (saDB e) spi = Some r \<Longrightarrow> \<exists>n. Replay (store e r) = Some (NewReplayWindow n)"
  shows "distinct (fst (inboundAll hmac h e w ds)) \<and>
    ((\<forall>p a w. h p a w \<noteq> None) \<longrightarrow> snd (inboundAll hmac h e w ds))"
proof -
  have "windows_represent e (\<lambda>_. {})"
    using assms New_represents by (fastforce simp: windows_represent_def engine_ok_def)
  from inboundAll_distinct [OF this assms(1), of hmac h w ds] show ?thesis by simp
qed

theorem data_plane_no_replay_witness:
  "distinct (fst (inboundAll (\<lambda>_ _ _. []) (\<lambda>p _ w. Some (w @ [p])) example_engine []
     [(replicate 64 1, example_peer), (replicate 64 1, example_peer)])) \<and>
   snd (inboundAll (\<lambda>_ _ _. []) (\<lambda>p _ w. Some (w @ [p])) example_engine []
     [(replicate 64 1, example_peer), (replicate 64 1, example_peer)])"
  using data_plane_no_replay [OF example_engine_ok, of "\<lambda>_ _ _. []" "\<lambda>p _ w. Some (w @ [p])" "[]"
      "[(replicate 64 1, example_peer), (replicate 64 1, example_peer)]"]
  by (auto simp: example_engine_def example_sa_def simp del: inboundAll.simps)

section \<open>From one engine to the other\<close>

text \<open>The version nibble never selects the dummy protocol, so no TUN packet is lost as a dummy.\<close>

lemma detectIPVersion_not_dummy [simp]: "detectIPVersion p \<noteq> NextHeaderDummy"
  and detectIPVersion_not_udp [simp]: "detectIPVersion p \<noteq> NextHeaderUDP"
  by (simp_all add: detectIPVersion_def Let_def)

lemma pkt_fields:
  assumes "pkt = PutUint32 spi @ PutUint32 seq @ rest"
  shows "Uint32 (slice 0 4 pkt) = spi" and "pktSeq pkt = seq"
  using assms by (simp_all add: pktSeq_def slice_def)

lemma tunnel_step:
  assumes "selectOutSA tx (extractDstIP packet) = Some r" and "packet \<noteq> []"
    and "sa_ready (store tx r)" and "ciphers_ok (store tx r)" and "\<not> overflows (store tx r)"
    and "PeerAddr (store tx r) = Some peer" and "hasSender tx" and "SPI (store tx r) \<noteq> 0"
    and "LookupBySPI (saDB rx) (SPI (store tx r)) = Some q"
    and "same_keys (store tx r) (store rx q)"
    and "replayCheck (store rx q) (ucast (seqLow (store tx r)))"
    and "hasTunWriter rx" and "length iv = 16"
  shows "\<exists>dgram tx' rx'.
    outboundStep hmac (Some iv) tx packet = Some ([UdpSend (nattPort tx) dgram peer], tx') \<and>
    HandleInboundESP hmac h rx dgram (length dgram) from w = Some ([TunWrite packet], rx', w)"
proof -
  let ?sa = "store tx r" and ?nh = "detectIPVersion packet"
  obtain pkt where e: "Encrypt hmac (Some iv) ?sa packet ?nh = (Inr pkt, ?sa\<lparr>SeqNum := SeqNum ?sa + 1\<rparr>)"
    and d: "Decrypt hmac (store rx q) pkt =
      (Inr (packet, ?nh), replayAdvance (store rx q) (ucast (seqLow ?sa)))"
    using Decrypt_Encrypt [OF assms(3,4,10,5,13,11), of ?nh hmac packet] by auto
  obtain rest where rest: "rest \<noteq> []" "pkt = PutUint32 (SPI ?sa) @ PutUint32 (seqLow ?sa) @ rest"
    using Encrypt_header [OF assms(3,13) e] .
  have c: "ClassifyNATT pkt = Inr (PacketTypeESP, pkt)"
    using ClassifyNATT_esp [OF assms(8) rest(1)] rest(2) by simp
  have "outboundStep hmac (Some iv) tx packet =
      Some ([UdpSend (nattPort tx) pkt peer], tx\<lparr>store := (store tx)(r := ?sa\<lparr>SeqNum := SeqNum ?sa + 1\<rparr>)\<rparr>)"
    using assms(1,2,6,7) e by (simp add: outboundStep_def Let_def)
  moreover have "inboundSA rx pkt = Some q"
    using assms(9) pkt_fields(1) [OF rest(2)] by (simp add: inboundSA_def)
  then have "\<exists>rx'. HandleInboundESP hmac h rx pkt (length pkt) from w = Some ([TunWrite packet], rx', w)"
    using c d assms(12) by (simp add: HandleInboundESP_eq decryptAndRoute_def Let_def)
  ultimately show ?thesis by blast
qed

lemma example_tx:
  "selectOutSA (example_engine\<lparr>defaultOutSA := Some 0\<rparr>) (extractDstIP [0x45, 0, 0, 1]) = Some 0"
  "store example_engine q = example_sa\<lparr>PeerAddr := Some example_peer\<rparr>"
  "LookupBySPI (saDB example_engine) 256 = Some 0" "hasSender example_engine"
  "hasTunWriter example_engine" "nattPort example_engine = 4500"
  "sa_ready (example_sa\<lparr>PeerAddr := p\<rparr>)" "ciphers_ok (example_sa\<lparr>PeerAddr := p\<rparr>)"
  "\<not> overflows (example_sa\<lparr>PeerAddr := p\<rparr>)"
  "replayCheck (example_sa\<lparr>PeerAddr := p\<rparr>) (ucast (seqLow (example_sa\<lparr>PeerAddr := p\<rparr>)))"
  "SPI (example_sa\<lparr>PeerAddr := p\<rparr>) = 256" "same_keys s s"
  using example_ready example_first
  by (simp_all add: example_engine_def selectOutSA_def extractDstIP_def LookupBySPI_def same_keys_def
      sa_ready_def ciphers_ok_def overflows_def replayCheck_def seqLow_def example_sa_fields)

lemma example_tunnel:
  "\<exists>dgram tx' rx'.
    outboundStep (\<lambda>_ _ _. []) (Some (replicate 16 5))
      (example_engine\<lparr>defaultOutSA := Some 0\<rparr>) [0x45, 0, 0, 1] =
      Some ([UdpSend 4500 dgram example_peer], tx') \<and>
    HandleInboundESP (\<lambda>_ _ _. []) (\<lambda>_ _ w. Some w) example_engine dgram (length dgram) example_peer () =
      Some ([TunWrite [0x45, 0, 0, 1]], rx', ())"
  using tunnel_step [of "example_engine\<lparr>defaultOutSA := Some 0\<rparr>" "[0x45, 0, 0, 1]" 0
      example_peer example_engine 0 "replicate 16 5" "\<lambda>_ _ _. []" "\<lambda>_ _ w. Some w" example_peer "()"]
  by (simp add: example_tx)

text \<open>
  C4. The tunnel carries packets: a packet read from the TUN device of one engine and
  sent over UDP is written to the TUN device of the other engine unchanged, when the
  SA chosen by the SPD is registered there with the same keys and the receiver's window
  admits its sequence number, whatever address the datagram appears to come from.
\<close>

theorem tunnel_end_to_end:
  assumes "selectOutSA tx (extractDstIP packet) = Some r" and "packet \<noteq> []"
    and "sa_ready (store tx r)" and "ciphers_ok (store tx r)" and "\<not> overflows (store tx r)"
    and "PeerAddr (store tx r) = Some peer" and "hasSender tx" and "SPI (store tx r) \<noteq> 0"
    and "LookupBySPI (saDB rx) (SPI (store tx r)) = Some q"
    and "same_keys (store tx r) (store rx q)"
    and "replayCheck (store rx q) (ucast (seqLow (store tx r)))"
    and "hasTunWriter rx" and "length iv = 16"
  shows "\<exists>dgram tx' rx'.
    outboundStep hmac (Some iv) tx packet = Some ([UdpSend (nattPort tx) dgram peer], tx') \<and>
    HandleInboundESP hmac h rx dgram (length dgram) from w = Some ([TunWrite packet], rx', w)"
  using assms by (rule tunnel_step)

theorem tunnel_end_to_end_witness:
  "\<exists>dgram tx' rx'.
    outboundStep (\<lambda>_ _ _. []) (Some (replicate 16 5))
      (example_engine\<lparr>defaultOutSA := Some 0\<rparr>) [0x45, 0, 0, 1] =
      Some ([UdpSend 4500 dgram example_peer], tx') \<and>
    HandleInboundESP (\<lambda>_ _ _. []) (\<lambda>_ _ w. Some w) example_engine dgram (length dgram) example_peer () =
      Some ([TunWrite [0x45, 0, 0, 1]], rx', ())"
  using tunnel_end_to_end [of "example_engine\<lparr>defaultOutSA := Some 0\<rparr>" "[0x45, 0, 0, 1]" 0
      example_peer example_engine 0 "replicate 16 5" "\<lambda>_ _ _. []" "\<lambda>_ _ w. Some w" example_peer "()"]
  by (simp add: example_tx)

text \<open>
  The SPD selects as configured: after an SA is added for a destination, packets to
  any form of that address use it, and packets to every other address are treated as
  before; removing it makes packets to that address fall back to the default SA; with no
  SA at all a packet is dropped and the engine is unchanged.
\<close>

theorem spd_selection:
  assumes "length dst = 4 \<or> length dst = 16" and "length q = 4 \<or> length q = 16"
  shows "selectOutSA (AddOutboundSA e dst r) q =
      (if IPEqual dst q then Some r else selectOutSA e q) \<and>
    selectOutSA (RemoveOutboundSA e dst) q =
      (if IPEqual dst q then defaultOutSA e else selectOutSA e q) \<and>
    (selectOutSA e (extractDstIP packet) = None \<longrightarrow> outboundStep hmac rnd e packet = Some ([], e))"
proof -
  have "q \<noteq> []" using assms(2) by auto
  moreover have "To16 dst = To16 q \<longleftrightarrow> IPEqual dst q" using assms by (rule To16_eq_iff_IPEqual)
  ultimately show ?thesis
    by (auto simp: selectOutSA_def AddOutboundSA_def RemoveOutboundSA_def outboundStep_def Let_def
        split: option.split)
qed

theorem spd_selection_witness:
  "selectOutSA (AddOutboundSA example_engine [10, 0, 0, 1] 7) (v4InV6Prefix @ [10, 0, 0, 1]) = Some 7 \<and>
   selectOutSA (AddOutboundSA example_engine [10, 0, 0, 1] 7) [10, 0, 0, 2] = Some 1"
  using spd_selection [of "[10, 0, 0, 1]" "v4InV6Prefix @ [10, 0, 0, 1]" example_engine 7]
    spd_selection [of "[10, 0, 0, 1]" "[10, 0, 0, 2]" example_engine 7]
  by (simp add: IPEqual_def selectOutSA_def example_engine_def)

text \<open>NAT rebinding follows a new address, but not a new port of the same address.\<close>

lemma rebinding_ignores_port:
  assumes "PeerAddr sa = Some a" and "addrIP b = addrIP a"
  shows "updatePeer sa b = sa"
  using assms by (simp add: updatePeer_def IPEqual_def)

lemma rebinding_follows_ip:
  assumes "PeerAddr sa = Some a" and "\<not> IPEqual (addrIP a) (addrIP b)"
  shows "PeerAddr (updatePeer sa b) = Some b"
  using assms by (simp add: updatePeer_def)

theorem inbound_effects_are_authentic_witness:
  "\<exists>dgram effs rx' r. HandleInboundESP (\<lambda>_ _ _. []) (\<lambda>_ _ w. Some w) example_engine dgram (length dgram) example_peer () =
      Some (effs, rx', ()) \<and> effs \<noteq> [] \<and> authentic (\<lambda>_ _ _. []) (store example_engine r) dgram"
proof -
  have "\<exists>r. LookupBySPI (saDB example_engine) (Uint32 (slice 0 4 (take (length d) d))) = Some r \<and>
      authentic (\<lambda>_ _ _. []) (store example_engine r) (take (length d) d) \<and>
      replayCheck (store example_engine r) (ucast (pktSeq (take (length d) d)))"
    if "HandleInboundESP (\<lambda>_ _ _. []) (\<lambda>_ _ w. Some w) example_engine d (length d) example_peer () = Some (effs, e', ())"
      "effs \<noteq> []" for d effs e'
    by (rule inbound_effects_are_authentic [OF that(1) order_refl disjI1 [OF that(2)]])
  with example_tunnel show ?thesis by (metis list.distinct(1) take_all_iff order_refl)
qed

text \<open>A datagram that carries four bytes for the L2TP handler.\<close>

definition l2tpDatagram :: bytes where
  "l2tpDatagram = PutUint16 1701 @ PutUint16 1701 @ [0, 12, 0, 0, 1, 2, 3, 4]"

definition l2tp_engine :: engine where
  "l2tp_engine = example_engine\<lparr>hasL2TP := True\<rparr>"

lemma l2tp_engine_ok: "engine_ok l2tp_engine"
  using example_engine_ok by (simp add: engine_ok_def l2tp_engine_def)

lemma example_l2tp: "\<exists>pkt. l2tpPayloadOf (\<lambda>_ _ _. []) l2tp_engine pkt = Some [1, 2, 3, 4]"
proof -
  let ?sa = "example_sa\<lparr>PeerAddr := Some example_peer\<rparr>"
  obtain pkt where e: "Encrypt (\<lambda>_ _ _. []) (Some (replicate 16 5)) ?sa l2tpDatagram NextHeaderUDP =
      (Inr pkt, ?sa\<lparr>SeqNum := SeqNum ?sa + 1\<rparr>)"
    and d: "Decrypt (\<lambda>_ _ _. []) ?sa pkt = (Inr (l2tpDatagram, NextHeaderUDP), replayAdvance ?sa (ucast (seqLow ?sa)))"
    using Decrypt_Encrypt [of ?sa ?sa "replicate 16 5" NextHeaderUDP "\<lambda>_ _ _. []" l2tpDatagram] by (auto simp: example_tx)
  obtain rest where rest: "rest \<noteq> []" "pkt = PutUint32 (SPI ?sa) @ PutUint32 (seqLow ?sa) @ rest"
    by (rule Encrypt_header [OF example_tx(7) _ e]) simp_all
  have "ClassifyNATT pkt = Inr (PacketTypeESP, pkt)"
    using ClassifyNATT_esp [OF _ rest(1), of "SPI ?sa" "seqLow ?sa"] rest(2) by (simp add: example_tx)
  moreover have "inboundSA l2tp_engine pkt = Some 0"
    using pkt_fields(1) [OF rest(2)] example_tx(3,11) by (simp add: inboundSA_def l2tp_engine_def)
  moreover have "store l2tp_engine 0 = ?sa" by (simp add: l2tp_engine_def example_engine_def)
  ultimately show ?thesis
    using d by (intro exI [of _ pkt]) (simp add: l2tpPayloadOf_def l2tpDatagram_def slice_def l2tp_engine_def)
qed

text \<open>A handler that wants six bytes of header panics on it, and one that does not is called with it.\<close>

theorem inbound_no_panic_keeps_invariant_witness:
  "\<exists>pkt. HandleInboundESP (\<lambda>_ _ _. []) (\<lambda>p _ w. if length p < 6 then None else Some (w @ [p])) l2tp_engine
       pkt (length pkt) example_peer [] = None \<and>
     (\<exists>e'. HandleInboundESP (\<lambda>_ _ _. []) (\<lambda>p _ w. Some (w @ [p])) l2tp_engine pkt (length pkt) example_peer [] =
        Some ([ToL2TP [1, 2, 3, 4] example_peer], e', [[1, 2, 3, 4]]) \<and> engine_ok e')"
proof -
  obtain pkt where p: "l2tpPayloadOf (\<lambda>_ _ _. []) l2tp_engine pkt = Some [1, 2, 3, 4]" using example_l2tp by blast
  note t = inbound_no_panic_keeps_invariant [OF l2tp_engine_ok order_refl, of "\<lambda>_ _ _. []" _ pkt example_peer "[]"]
  show ?thesis
    using t [of "\<lambda>p _ w. if length p < 6 then None else Some (w @ [p])"] t [of "\<lambda>p _ w. Some (w @ [p])"] p
    by (cases "HandleInboundESP (\<lambda>_ _ _. []) (\<lambda>p _ w. Some (w @ [p])) l2tp_engine pkt (length pkt) example_peer []") auto
qed

end
