(* ===== verification/EspPmtu.thy ===== *)
theory EspPmtu
  imports EspPacket NetIP
begin

unbundle bit_operations_syntax

text \<open>
  Path MTU handling, \<^verbatim>\<open>internal/esp/pmtu.go\<close>: the per-peer table, the ESP overhead, the
  MTU arithmetic, and the ICMP "fragmentation needed" message with its Internet
  checksums. Go \<^verbatim>\<open>int\<close>s that may go negative here are integers.
\<close>

definition MinMTU :: int where "MinMTU = 576"
definition DefaultMTU :: int where "DefaultMTU = 1280"

section \<open>The table\<close>

record PMTUManager =
  defaultMTU :: int
  byPeer :: "ip_text \<rightharpoonup> int"

definition NewPMTUManager :: "int \<Rightarrow> PMTUManager" where
  "NewPMTUManager d = \<lparr>defaultMTU = (if d < MinMTU then DefaultMTU else d), byPeer = Map.empty\<rparr>"

definition GetMTU :: "PMTUManager \<Rightarrow> ip \<Rightarrow> int" where
  "GetMTU m peerIP =
     (case byPeer m (IPString peerIP) of Some mtu \<Rightarrow> mtu | None \<Rightarrow> defaultMTU m)"

definition SetMTU :: "PMTUManager \<Rightarrow> ip \<Rightarrow> int \<Rightarrow> PMTUManager" where
  "SetMTU m peerIP mtu0 =
     (let mtu = (if mtu0 < MinMTU then MinMTU else mtu0)
      in m\<lparr>byPeer := (byPeer m)(IPString peerIP \<mapsto> mtu)\<rparr>)"

section \<open>Overhead and MTU arithmetic\<close>

definition CalculateESPOverhead :: "CipherSuite \<Rightarrow> IntegritySuite \<Rightarrow> bool \<Rightarrow> nat" where
  "CalculateESPOverhead suite integSuite nattEncap =
     ESPHeaderLen +
     (if IsAEAD suite then AEADIVSize suite + 16 + (4 + 2)
      else CBCIVSize suite + (CBCBlockSize suite + 2) + IntegrityICVSize integSuite) +
     (if nattEncap then 28 else 0)"

definition CheckPacketExceedsMTU :: "int \<Rightarrow> int \<Rightarrow> int \<Rightarrow> bool \<times> int" where
  "CheckPacketExceedsMTU innerPacketLen pathMTU espOverhead =
     (let max0 = pathMTU - espOverhead;
          maxInnerSize = (if max0 < 0 then 0 else max0)
      in if innerPacketLen > maxInnerSize then (True, maxInnerSize) else (False, maxInnerSize))"

definition InnerMTUFromPath :: "int \<Rightarrow> int \<Rightarrow> u16" where
  "InnerMTUFromPath pathMTU espOverhead =
     (let i0 = pathMTU - espOverhead;
          i1 = (if i0 < MinMTU then MinMTU else i0);
          i2 = (if i1 > 65535 then 65535 else i1)
      in word_of_int i2)"

definition HasDFBit :: "bytes \<Rightarrow> bool" where
  "HasDFBit packet = (if length packet < 7 then False else packet ! 6 AND 0x40 \<noteq> 0)"

section \<open>ICMP fragmentation needed\<close>

fun sumPairs :: "bytes \<Rightarrow> u32 \<Rightarrow> u32" where
  "sumPairs (a # b # rest) s = sumPairs rest (s + ucast (Uint16 [a, b]))"
| "sumPairs [a] s = s + push_bit 8 (ucast a)"
| "sumPairs [] s = s"

function foldCarry :: "u32 \<Rightarrow> u32" where
  "foldCarry s = (if s > 0xFFFF then foldCarry ((s AND 0xFFFF) + drop_bit 16 s) else s)"
  by pat_completeness auto

lemma and_FFFF: "unat ((s :: u32) AND 0xFFFF) = unat s mod 65536"
proof -
  have "s AND 0xFFFF = take_bit 16 s" by (simp add: take_bit_eq_mask mask_eq_exp_minus_1)
  then show ?thesis by (simp only: unsigned_take_bit_eq) (simp add: take_bit_eq_mod)
qed

lemma unat_foldStep:
  "unat (((s :: u32) AND 0xFFFF) + drop_bit 16 s) = unat s mod 65536 + unat s div 65536"
proof -
  have d: "unat (drop_bit 16 s) = unat s div 65536"
    by (simp only: unat_drop_bit_eq) (simp add: drop_bit_eq_div)
  have "unat s div 65536 < 65536"
    by (rule less_mult_imp_div_less) (simp add: order_less_trans [OF u32_unat_less])
  then show ?thesis by (simp add: unat_word_ariths and_FFFF d)
qed

termination foldCarry
proof (relation "measure unat", goal_cases)
  case (2 s)
  then have "65536 \<le> unat s" by (simp add: word_less_nat_alt)
  then have "1 \<le> unat s div 65536" by (simp add: less_eq_div_iff_mult_less_eq)
  then have "unat s mod 65536 + unat s div 65536 < unat s"
    using div_mult_mod_eq [of "unat s" 65536] by linarith
  then show ?case by (simp only: in_measure unat_foldStep)
qed simp

declare foldCarry.simps [simp del]

definition icmpChecksum :: "bytes \<Rightarrow> u16" where
  "icmpChecksum data = NOT (ucast (foldCarry (sumPairs data 0)))"

fun sumHeader :: "nat \<Rightarrow> bytes \<Rightarrow> u32 \<Rightarrow> u32" where
  "sumHeader i (a # b # rest) s =
     sumHeader (i + 2) rest (if i = 10 then s else s + ucast (Uint16 [a, b]))"
| "sumHeader i [a] s = s"
| "sumHeader i [] s = s"

definition ipv4HeaderChecksum :: "bytes \<Rightarrow> u16" where
  "ipv4HeaderChecksum header = NOT (ucast (foldCarry (sumHeader 0 header 0)))"

definition buildIPv4ICMPPacket :: "bytes \<Rightarrow> bytes \<Rightarrow> bytes" where
  "buildIPv4ICMPPacket originalPacket icmpPayload =
     (if length originalPacket < 20 then icmpPayload
      else
        (let totalLen = 20 + length icmpPayload;
             p0 = (replicate totalLen 0)[0 := 0x45, 1 := 0];
             p1 = copy_at 2 (PutUint16 (of_nat totalLen)) p0;
             p2 = p1[8 := 64, 9 := 1];
             p3 = copy_at 12 (slice 16 20 originalPacket) p2;
             p4 = copy_at 16 (slice 12 16 originalPacket) p3;
             p5 = copy_at 20 icmpPayload p4;
             ipChecksum = ipv4HeaderChecksum (take 20 p5)
         in copy_at 10 (PutUint16 ipChecksum) p5))"

definition buildICMPMessage :: "bytes \<Rightarrow> u16 \<Rightarrow> bytes" where
  "buildICMPMessage originalPacket nextHopMTU =
     (let origLen = (if length originalPacket > 28 then 28 else length originalPacket);
          icmpLen = 8 + origLen;
          i0 = (replicate icmpLen 0)[0 := 3, 1 := 4];
          i1 = copy_at 6 (PutUint16 nextHopMTU) i0;
          i2 = copy_at 8 (take origLen originalPacket) i1;
          checksum = icmpChecksum i2
      in copy_at 2 (PutUint16 checksum) i2)"

definition BuildICMPFragNeeded :: "bytes \<Rightarrow> u16 \<Rightarrow> bytes" where
  "BuildICMPFragNeeded originalPacket nextHopMTU =
     buildIPv4ICMPPacket originalPacket (buildICMPMessage originalPacket nextHopMTU)"

section \<open>The Internet checksum\<close>

text \<open>The value of a byte string as a sum of 16-bit words (RFC 1071), in the integers.\<close>

fun wordSum :: "bytes \<Rightarrow> nat" where
  "wordSum (a # b # rest) = 256 * unat a + unat b + wordSum rest"
| "wordSum [a] = 256 * unat a"
| "wordSum [] = 0"

lemma unat_Uint16 [simp]: "unat (Uint16 [a, b]) = 256 * unat a + unat b"
proof -
  have "Uint16 [a, b] = push_bit 8 (ucast a) + (ucast b :: u16)"
    unfolding Uint16_def
    by (simp, subst disjunctive_add) (auto simp: bit_simps)
  also have "unat \<dots> = 256 * unat a + unat b"
    using byte_unat_le [of a] byte_unat_le [of b]
    by (simp add: unat_word_ariths push_bit_eq_mult)
  finally show ?thesis .
qed

lemma unat_ucast_16_32 [simp]: "unat (ucast (w :: u16) :: u32) = unat w"
  by (simp add: unsigned_ucast_eq take_bit_nat_eq_self_iff order_less_trans [OF u16_unat_less])

lemma wordSum_bound: "wordSum d \<le> 65535 * ((length d + 1) div 2)"
proof (induction d rule: wordSum.induct)
  case (1 a b rest)
  then show ?case using byte_unat_le [of a] byte_unat_le [of b] by simp
next
  case (2 a)
  then show ?case using byte_unat_le [of a] by simp
qed simp

lemma unat_sumPairs:
  "unat s + wordSum d < 2 ^ 32 \<Longrightarrow> unat (sumPairs d s) = unat s + wordSum d"
proof (induction d s rule: sumPairs.induct)
  case (1 a b rest s)
  then show ?case by (simp add: unat_word_ariths)
next
  case (2 a s)
  then have "unat (push_bit 8 (ucast a) :: u32) = 256 * unat a"
    by (simp add: push_bit_eq_mult unat_word_ariths)
  with 2 show ?case by (simp add: unat_word_ariths)
qed simp

lemma foldCarry_spec:
  "unat (foldCarry s) \<le> 65535 \<and> unat (foldCarry s) mod 65535 = unat s mod 65535 \<and>
   (unat (foldCarry s) = 0 \<longleftrightarrow> unat s = 0)"
proof (induction s rule: foldCarry.induct)
  case (1 s)
  show ?case
  proof (cases "s > 0xFFFF")
    case True
    let ?t = "(s AND 0xFFFF) + drop_bit 16 s"
    have u: "unat s = unat s div 65536 * 65536 + unat s mod 65536" by simp
    have ge: "65536 \<le> unat s" using True by (simp add: word_less_nat_alt)
    then have q: "1 \<le> unat s div 65536" by (simp add: less_eq_div_iff_mult_less_eq)
    have "unat s = unat ?t + 65535 * (unat s div 65536)"
      using u unfolding unat_foldStep by linarith
    then have "unat s mod 65535 = unat ?t mod 65535"
      by (metis mod_mult_self2)
    moreover have "unat ?t \<noteq> 0" using q by (simp add: unat_foldStep)
    ultimately show ?thesis
      using "1.IH" [OF True] True ge by (subst (1 2 3) foldCarry.simps) auto
  next
    case False
    then show ?thesis by (subst (1 2 3) foldCarry.simps) (auto simp: word_less_nat_alt)
  qed
qed

lemma unat_NOT_ucast:
  "unat (x :: u32) \<le> 65535 \<Longrightarrow> unat (NOT (ucast x :: u16)) = 65535 - unat x"
proof -
  assume x: "unat x \<le> 65535"
  then have "unat (ucast x :: u16) = unat x"
    by (simp add: unsigned_ucast_eq take_bit_nat_eq_self_iff)
  moreover have "NOT (ucast x :: u16) = - 1 - ucast x"
    by (simp only: not_eq_complement) simp
  moreover have "unat (- 1 - ucast x :: u16) = unat (- 1 :: u16) - unat (ucast x :: u16)"
    by (rule unat_sub) simp
  moreover have "unat (- 1 :: u16) = 65535"
    by (simp only: unsigned_minus_1_eq_mask) (simp add: mask_eq_exp_minus_1)
  ultimately show ?thesis by simp
qed

lemma unat_icmpChecksum:
  assumes "length d \<le> 65536"
  shows "(unat (icmpChecksum d) + wordSum d) mod 65535 = 0" and "unat (icmpChecksum d) \<le> 65535"
    and "icmpChecksum d = 0 \<longleftrightarrow> wordSum d \<noteq> 0 \<and> wordSum d mod 65535 = 0"
proof -
  have "wordSum d \<le> 65535 * 32768"
  proof (rule order_trans [OF wordSum_bound mult_le_mono2])
    have "(length d + 1) div 2 \<le> (65536 + 1) div 2" using assms by (intro div_le_mono) simp
    then show "(length d + 1) div 2 \<le> 32768" by simp
  qed
  then have s: "unat (sumPairs d 0) = wordSum d" by (subst unat_sumPairs) simp_all
  let ?f = "unat (foldCarry (sumPairs d 0))"
  have f: "?f \<le> 65535" "?f mod 65535 = wordSum d mod 65535" "?f = 0 \<longleftrightarrow> wordSum d = 0"
    using foldCarry_spec [of "sumPairs d 0"] by (simp_all add: s)
  have c: "unat (icmpChecksum d) = 65535 - ?f"
    using f(1) by (simp add: icmpChecksum_def unat_NOT_ucast)
  have "(65535 - ?f + wordSum d) mod 65535 = (65535 - ?f + ?f) mod 65535"
    using f(2) by (metis mod_add_right_eq)
  then show "(unat (icmpChecksum d) + wordSum d) mod 65535 = 0" using f(1) by (simp add: c)
  show "unat (icmpChecksum d) \<le> 65535" by (simp add: c)
  have "icmpChecksum d = 0 \<longleftrightarrow> unat (icmpChecksum d) = 0" by (simp only: unat_0_iff)
  also have "\<dots> \<longleftrightarrow> ?f = 65535" unfolding c using f(1) by linarith
  also have "\<dots> \<longleftrightarrow> ?f \<noteq> 0 \<and> ?f mod 65535 = 0"
    using f(1) by (cases "?f = 65535") auto
  also have "\<dots> \<longleftrightarrow> wordSum d \<noteq> 0 \<and> wordSum d mod 65535 = 0"
    unfolding f(2) by (simp only: f(3))
  finally show "icmpChecksum d = 0 \<longleftrightarrow> wordSum d \<noteq> 0 \<and> wordSum d mod 65535 = 0" .
qed

lemma wordSum_append: "even (length a) \<Longrightarrow> wordSum (a @ b) = wordSum a + wordSum b"
  by (induction a rule: wordSum.induct) auto

lemma wordSum_PutUint16: "wordSum (PutUint16 v) = unat v"
proof -
  have "unat v = unat (Uint16 (PutUint16 v))" by simp
  also have "\<dots> = 256 * unat (PutUint16 v ! 0) + unat (PutUint16 v ! 1)"
    by (subst unat_Uint16 [symmetric]) (simp add: PutUint16_def)
  finally show ?thesis by (simp add: PutUint16_def)
qed

text \<open>Writing the checksum into its zeroed field makes the checksum of the whole zero.\<close>

lemma checksum_verifies:
  assumes "even (length a)" and "length a + 2 + length c \<le> 65536" and "wordSum (a @ [0, 0] @ c) \<noteq> 0"
  shows "icmpChecksum (a @ PutUint16 (icmpChecksum (a @ [0, 0] @ c)) @ c) = 0"
proof -
  let ?d = "a @ [0, 0] @ c" and ?k = "icmpChecksum (a @ [0, 0] @ c)"
  have e: "wordSum (a @ PutUint16 ?k @ c) = unat ?k + wordSum ?d"
    using assms(1) by (simp add: wordSum_append wordSum_PutUint16)
  have "(unat ?k + wordSum ?d) mod 65535 = 0"
    by (rule unat_icmpChecksum(1)) (use assms(2) in simp)
  with e assms(3) show ?thesis
    by (subst unat_icmpChecksum(3)) (use assms(2) in simp_all)
qed

lemma list4: "length xs = 4 \<Longrightarrow> \<exists>a b c d. xs = [a, b, c, d]"
  by (auto simp: numeral_eq_Suc length_Suc_conv)

lemma ipv4HeaderChecksum_eq:
  assumes "length src = 4" and "length dst = 4"
  shows "ipv4HeaderChecksum ([v, t] @ PutUint16 n @ [0, 0, 0, 0, ttl, pr] @ [0, 0] @ src @ dst) =
    icmpChecksum ([v, t] @ PutUint16 n @ [0, 0, 0, 0, ttl, pr] @ [0, 0] @ src @ dst)"
proof -
  obtain a b c d where s: "src = [a, b, c, d]" using list4 [OF assms(1)] by blast
  obtain e f g h where "dst = [e, f, g, h]" using list4 [OF assms(2)] by blast
  moreover have "ucast (Uint16 [0, 0]) = (0 :: u32)" by (simp add: Uint16_def)
  ultimately show ?thesis
    by (simp add: s ipv4HeaderChecksum_def icmpChecksum_def PutUint16_def)
qed

lemma buildICMPMessage_eq:
  "buildICMPMessage orig mtu =
    [3, 4] @ PutUint16 (icmpChecksum ([3, 4] @ [0, 0] @ [0, 0] @ PutUint16 mtu @ take 28 orig)) @
    [0, 0] @ PutUint16 mtu @ take 28 orig"
proof -
  define n where "n = (if length orig > 28 then 28 else length orig)"
  have t: "take n orig = take 28 orig" and n: "length (take 28 orig) = n" by (auto simp: n_def)
  have "replicate (8 + n) (0 :: byte) = [0, 0, 0, 0, 0, 0] @ [0, 0] @ replicate n 0"
    by (simp only: replicate_add) (simp add: numeral_eq_Suc)
  then have "copy_at 8 (take n orig) (copy_at 6 (PutUint16 mtu)
      ((replicate (8 + n) 0)[0 := 3, 1 := 4])) =
      [3, 4] @ [0, 0] @ [0, 0] @ PutUint16 mtu @ take 28 orig"
    using n by (simp add: t copy_at_def PutUint16_def)
  then show ?thesis
    unfolding buildICMPMessage_def Let_def n_def [symmetric]
    by (simp add: copy_at_def PutUint16_def numeral_2_eq_2)
qed

text \<open>Reading back an IPv4 packet: source, destination and total length.\<close>

lemma buildIPv4ICMPPacket_eq:
  assumes "20 \<le> length orig"
  shows "buildIPv4ICMPPacket orig icmp =
    (let n = of_nat (20 + length icmp) :: u16; src = slice 16 20 orig; dst = slice 12 16 orig in
     [0x45, 0] @ PutUint16 n @ [0, 0, 0, 0, 64, 1] @
     PutUint16 (icmpChecksum ([0x45, 0] @ PutUint16 n @ [0, 0, 0, 0, 64, 1] @ [0, 0] @ src @ dst)) @
     src @ dst @ icmp)"
proof -
  define n src dst where "n = (of_nat (20 + length icmp) :: u16)" and "src = slice 16 20 orig"
    and "dst = slice 12 16 orig"
  have l: "length src = 4" "length dst = 4" using assms by (simp_all add: src_def dst_def)
  have r: "replicate (20 + length icmp) (0 :: byte) = replicate 20 0 @ replicate (length icmp) 0"
    by (rule replicate_add)
  have z: "replicate 20 (0 :: byte) = [0, 0, 0, 0, 0, 0, 0, 0, 0, 0, 0, 0] @ [0, 0, 0, 0] @ [0, 0, 0, 0]"
    by (simp add: numeral_eq_Suc)
  define p5 where "p5 = copy_at 20 icmp (copy_at 16 dst (copy_at 12 src ((copy_at 2 (PutUint16 n)
      ((replicate (20 + length icmp) 0)[0 := 0x45, 1 := 0]))[8 := 64, 9 := 1])))"
  define pre where "pre = [0x45, 0] @ PutUint16 n @ [0, 0, 0, 0, 64, 1 :: byte]"
  have pre: "length pre = 10" by (simp add: pre_def)
  have p5: "p5 = pre @ [0, 0] @ src @ dst @ icmp"
    using l unfolding p5_def pre_def r z by (simp add: copy_at_def PutUint16_def numeral_eq_Suc)
  have "buildIPv4ICMPPacket orig icmp = copy_at 10 (PutUint16 (ipv4HeaderChecksum (take 20 p5))) p5"
    unfolding p5_def n_def src_def dst_def buildIPv4ICMPPacket_def Let_def using assms by simp
  also have "take 20 p5 = pre @ [0, 0] @ src @ dst"
    using l pre by (simp add: p5)
  also have "ipv4HeaderChecksum (pre @ [0, 0] @ src @ dst) = icmpChecksum (pre @ [0, 0] @ src @ dst)"
    using ipv4HeaderChecksum_eq [OF l, of "0x45" 0 n 64 1] by (simp add: pre_def)
  also have "copy_at 10 (PutUint16 c) p5 = pre @ PutUint16 c @ src @ dst @ icmp" for c
    unfolding p5 using pre by (intro copy_at_append) simp_all
  finally show ?thesis
    by (simp only: Let_def n_def [symmetric] src_def [symmetric] dst_def [symmetric] pre_def append_assoc)
qed

section \<open>Properties\<close>

text \<open>
  The ICMP error that \<open>BuildICMPFragNeeded\<close> builds for an IPv4 packet is well formed:
  an IPv4 packet of the stated total length from the original destination to the original
  source, whose header checksum and ICMP checksum both verify (the Internet checksum over
  each is zero), carrying type 3, code 4, the next-hop MTU and the first 28 bytes of the
  original packet.
\<close>

theorem icmp_frag_needed_well_formed:
  assumes "20 \<le> length pkt"
  shows "length (BuildICMPFragNeeded pkt mtu) = 28 + min 28 (length pkt) \<and>
    slice 2 4 (BuildICMPFragNeeded pkt mtu) = PutUint16 (of_nat (length (BuildICMPFragNeeded pkt mtu))) \<and>
    slice 12 16 (BuildICMPFragNeeded pkt mtu) = slice 16 20 pkt \<and>
    slice 16 20 (BuildICMPFragNeeded pkt mtu) = slice 12 16 pkt \<and>
    icmpChecksum (take 20 (BuildICMPFragNeeded pkt mtu)) = 0 \<and>
    icmpChecksum (drop 20 (BuildICMPFragNeeded pkt mtu)) = 0 \<and>
    slice 20 22 (BuildICMPFragNeeded pkt mtu) = [3, 4] \<and>
    slice 26 28 (BuildICMPFragNeeded pkt mtu) = PutUint16 mtu \<and>
    drop 28 (BuildICMPFragNeeded pkt mtu) = take 28 pkt"
proof -
  let ?icmp = "buildICMPMessage pkt mtu"
  have li: "length ?icmp = 8 + min 28 (length pkt)" by (simp add: buildICMPMessage_eq)
  let ?n = "of_nat (20 + length ?icmp) :: u16"
  let ?pre = "[0x45, 0] @ PutUint16 ?n @ [0, 0, 0, 0, 64, 1 :: byte]"
  let ?a = "slice 16 20 pkt @ slice 12 16 pkt"
  have la: "length (slice 16 20 pkt) = 4" "length (slice 12 16 pkt) = 4" using assms by simp_all
  have B: "BuildICMPFragNeeded pkt mtu =
      (?pre @ PutUint16 (icmpChecksum (?pre @ [0, 0] @ ?a)) @ ?a) @ ?icmp"
    using buildIPv4ICMPPacket_eq [OF assms, of ?icmp]
    by (simp only: BuildICMPFragNeeded_def Let_def append_assoc)
  have h: "length (?pre @ PutUint16 (icmpChecksum (?pre @ [0, 0] @ ?a)) @ ?a) = 20"
    using la by simp
  have c1: "icmpChecksum (?pre @ PutUint16 (icmpChecksum (?pre @ [0, 0] @ ?a)) @ ?a) = 0"
    by (rule checksum_verifies) (use la in simp_all)
  have c2: "icmpChecksum ?icmp = 0"
    using checksum_verifies [of "[3, 4]" "[0, 0] @ PutUint16 mtu @ take 28 pkt"]
    by (simp add: buildICMPMessage_eq)
  have s: "slice 2 4 ((?pre @ x) @ y) = PutUint16 ?n" "slice 12 16 ((?pre @ PutUint16 k @ ?a) @ y) =
      slice 16 20 pkt" "slice 16 20 ((?pre @ PutUint16 k @ ?a) @ y) = slice 12 16 pkt" for x y k
    using la by (simp_all add: slice_def)
  have t: "slice 20 22 (hd20 @ ?icmp) = [3, 4]" "slice 26 28 (hd20 @ ?icmp) = PutUint16 mtu"
    "drop 28 (hd20 @ ?icmp) = take 28 pkt" if "length hd20 = 20" for hd20
    using that by (simp_all add: slice_def buildICMPMessage_eq)
  have L: "length (BuildICMPFragNeeded pkt mtu) = 20 + length ?icmp"
    unfolding B length_append [of _ ?icmp] h ..
  show ?thesis
    unfolding L
    by (intro conjI; (unfold B)?)
      (use li c1 c2 h s t [OF h] in \<open>simp_all only: take_append drop_append\<close>, simp_all add: li)
qed

theorem icmp_frag_needed_well_formed_witness:
  "icmpChecksum (drop 20 (BuildICMPFragNeeded (replicate 40 7) 1214)) = 0 \<and>
   length (BuildICMPFragNeeded (replicate 40 7) 1214) = 56"
  using icmp_frag_needed_well_formed [of "replicate 40 7" 1214] by simp

definition integ_ok :: "SecurityAssociation \<Rightarrow> bool" where
  "integ_ok sa \<longleftrightarrow> (\<forall>ia. Integrity sa = Some ia \<longrightarrow> ia_icvSize ia = IntegrityICVSize (IntegSuite sa))"

lemma constructors_integ_ok:
  "NewSecurityAssociation cl spi suite key salt peer wr = Inr sa \<Longrightarrow> integ_ok sa"
  "NewCBCSecurityAssociation cl spi suite ek is ik peer wr = Inr sa \<Longrightarrow> integ_ok sa"
  by (auto simp: NewSecurityAssociation_def NewCBCSecurityAssociation_def integ_ok_def Let_def
      dest: NewIntegrity_icv split: sum.splits option.splits if_splits)

lemma esp_overhead_bound:
  assumes "sa_ready sa" and "ciphers_ok sa" and "integ_ok sa" and "length iv = 16"
    and "Encrypt hmac (Some iv) sa p nh = (Inr pkt, sa')"
  shows "length pkt \<le> length p + CalculateESPOverhead (Suite sa) (IntegSuite sa) False"
  using assms(1,4,5)
proof (cases rule: Encrypt_Inr_cases)
  case (aead a)
  then have "length pkt = 8 + 8 + (length (buildESPTrailer p nh) + 16)"
    using assms(2) by (simp add: aeadPacket_def ciphers_ok_def aead_ok_def)
  then show ?thesis
    using aead(1) padLength_less [of 4 "length p"]
    by (simp add: CalculateESPOverhead_def ESPHeaderLen_def AEADIVSize_def buildESPTrailer_def
        buildTrailer_eq)
next
  case (cbc b ia)
  have "16 dvd length (buildESPTrailerCBC p nh 16)" by (rule length_trailer_ge)
  then have "length (cbcEncrypt b iv (buildESPTrailerCBC p nh 16)) = length (buildESPTrailerCBC p nh 16)"
    using cbc_roundtrip [of b iv] assms(2,4) cbc by (simp add: ciphers_ok_def)
  moreover have "CBCIVSize (Suite sa) = 16"
    using cbc(4) by (auto simp: CBCIVSize_def CBCBlockSize_def split: if_splits)
  ultimately show ?thesis
    using cbc assms(3,4) padLength_less [of 16 "length p"]
    by (simp add: CalculateESPOverhead_def ESPHeaderLen_def cbcBody_def integ_ok_def
        buildESPTrailerCBC_def buildTrailer_eq)
qed

lemma mtu_fits:
  assumes "sa_ready sa" and "ciphers_ok sa" and "integ_ok sa" and "length iv = 16" and "p \<noteq> []"
    and "\<not> fst (CheckPacketExceedsMTU (int (length p)) path
           (int (CalculateESPOverhead (Suite sa) (IntegSuite sa) True)))"
    and "Encrypt hmac (Some iv) sa p nh = (Inr pkt, sa')"
  shows "int (length pkt) + 28 \<le> path"
proof -
  have "length pkt \<le> length p + CalculateESPOverhead (Suite sa) (IntegSuite sa) False"
    using assms by (intro esp_overhead_bound)
  moreover have "CalculateESPOverhead (Suite sa) (IntegSuite sa) True =
      CalculateESPOverhead (Suite sa) (IntegSuite sa) False + 28"
    by (simp add: CalculateESPOverhead_def)
  moreover have "0 < length p" using assms(5) by simp
  ultimately show ?thesis
    using assms(6) by (simp add: CheckPacketExceedsMTU_def Let_def split: if_splits)
qed

text \<open>
  The MTU check is sound: a non-empty inner packet that \<open>CheckPacketExceedsMTU\<close>
  admits for a path MTU and the overhead that \<open>CalculateESPOverhead\<close> predicts (with the
  28 bytes of outer IP and UDP header) fits the path once it is encrypted, for every suite.
\<close>

theorem mtu_check_sound:
  assumes "sa_ready sa" and "ciphers_ok sa" and "integ_ok sa" and "length iv = 16" and "p \<noteq> []"
    and "\<not> fst (CheckPacketExceedsMTU (int (length p)) path
           (int (CalculateESPOverhead (Suite sa) (IntegSuite sa) True)))"
    and "Encrypt hmac (Some iv) sa p nh = (Inr pkt, sa')"
  shows "int (length pkt) + 28 \<le> path"
  using assms by (rule mtu_fits)

theorem mtu_check_sound_witness:
  "\<exists>pkt. fst (Encrypt (\<lambda>_ _ _. []) (Some (replicate 16 5)) example_sa [1, 2] 4) = Inr pkt \<and>
     int (length pkt) + 28 \<le> 576"
proof -
  obtain pkt where e: "Encrypt (\<lambda>_ _ _. []) (Some (replicate 16 5)) example_sa [1, 2] 4 =
      (Inr pkt, example_sa\<lparr>SeqNum := SeqNum example_sa + 1\<rparr>)"
    using encryptAEAD_eq [of example_sa example_aead "[1, 2]" 4]
    by (auto simp: Encrypt_def example_sa_fields) (simp add: example_sa_def)
  have "int (length pkt) + 28 \<le> 576"
    by (rule mtu_check_sound [OF _ _ _ _ _ _ e])
      (simp_all add: example_sa_def integ_ok_def CheckPacketExceedsMTU_def Let_def
        CalculateESPOverhead_def ESPHeaderLen_def suite_defs
        example_ready [unfolded example_sa_def])
  with e show ?thesis by auto
qed

lemma esp_grows:
  assumes "sa_ready sa" and "ciphers_ok sa" and "length iv = 16" and "Encrypt hmac (Some iv) sa p nh = (Inr pkt, sa')"
  shows "length p < length pkt"
  using assms(1,3,4)
proof (cases rule: Encrypt_Inr_cases)
  case (aead a)
  then have "length pkt = 8 + 8 + (length (buildESPTrailer p nh) + 16)"
    using assms(2) by (simp add: aeadPacket_def ciphers_ok_def aead_ok_def)
  then show ?thesis by (simp add: buildESPTrailer_def buildTrailer_eq)
next
  case (cbc b ia)
  have "16 dvd length (buildESPTrailerCBC p nh 16)" by (rule length_trailer_ge)
  then have "length (cbcEncrypt b iv (buildESPTrailerCBC p nh 16)) = length (buildESPTrailerCBC p nh 16)"
    using cbc_roundtrip [of b iv] assms(2,3) cbc by (simp add: ciphers_ok_def)
  then show ?thesis using cbc assms(3) by (simp add: cbcBody_def buildESPTrailerCBC_def buildTrailer_eq)
qed

lemma InnerMTUFromPath_eq:
  "int (unat (InnerMTUFromPath path oh)) = max MinMTU (min 65535 (path - oh))"
proof -
  define i where "i = max MinMTU (min 65535 (path - oh))"
  have i: "0 \<le> i" "i \<le> 65535" by (simp_all add: i_def MinMTU_def)
  then have "int (unat (word_of_int i :: u16)) = i"
    by (simp add: unsigned_of_int take_bit_int_eq_self nat_eq_iff take_bit_nat_eq_self)
  moreover have "InnerMTUFromPath path oh = word_of_int i"
    by (simp add: InnerMTUFromPath_def Let_def i_def MinMTU_def max_def min_def)
  ultimately show ?thesis by (simp add: i_def)
qed

text \<open>
  C17. What the inner MTU advertised for a path is worth, for every suite, with the overhead that
  \<open>CalculateESPOverhead\<close> predicts for an SA. If the path leaves at least 576 bytes inside, then
  every inner packet up to the advertised size fits the path once it is really encrypted, its outer
  IP and UDP headers included. On any narrower path the clamp of \<open>InnerMTUFromPath\<close> advertises 576
  bytes all the same, and a packet of that size is refused again by \<open>CheckPacketExceedsMTU\<close>; on a
  path of 576 bytes, the smallest that the table keeps, no encrypted packet of that size fits.
\<close>

theorem advertised_inner_mtu_fits_iff:
  assumes "sa_ready sa" and "ciphers_ok sa" and "integ_ok sa"
    and "oh = int (CalculateESPOverhead (Suite sa) (IntegSuite sa) True)"
    and "adv = unat (InnerMTUFromPath path oh)"
  shows "(576 + oh \<le> path \<longrightarrow>
      (\<forall>p iv nh pkt sa'. p \<noteq> [] \<longrightarrow> length p \<le> adv \<longrightarrow> length iv = 16 \<longrightarrow>
         Encrypt hmac (Some iv) sa p nh = (Inr pkt, sa') \<longrightarrow> int (length pkt) + 28 \<le> path)) \<and>
    (path < 576 + oh \<longrightarrow> adv = 576 \<and> fst (CheckPacketExceedsMTU (int adv) path oh)) \<and>
    (path \<le> MinMTU \<longrightarrow>
      (\<forall>p iv nh pkt sa'. length p = adv \<longrightarrow> length iv = 16 \<longrightarrow>
         Encrypt hmac (Some iv) sa p nh = (Inr pkt, sa') \<longrightarrow> path < int (length pkt) + 28))"
proof -
  have adv: "int adv = max 576 (min 65535 (path - oh))"
    unfolding assms(5) InnerMTUFromPath_eq by (simp add: MinMTU_def)
  have oh: "0 \<le> oh" by (simp add: assms(4))
  have "int (length pkt) + 28 \<le> path"
    if "576 + oh \<le> path" "p \<noteq> []" "length p \<le> adv" "length iv = 16" "Encrypt hmac (Some iv) sa p nh = (Inr pkt, sa')"
    for p iv nh pkt sa'
  proof (rule mtu_fits [OF assms(1-3) that(4,2) _ that(5)])
    have "0 < length p" using that(2) by simp
    then show "\<not> fst (CheckPacketExceedsMTU (int (length p)) path (int (CalculateESPOverhead (Suite sa) (IntegSuite sa) True)))"
      using that(1,3) adv unfolding assms(4) [symmetric] by (simp add: CheckPacketExceedsMTU_def Let_def)
  qed
  moreover have "adv = 576 \<and> fst (CheckPacketExceedsMTU (int adv) path oh)" if "path < 576 + oh"
    using that adv by (simp add: CheckPacketExceedsMTU_def Let_def)
  moreover have "path < int (length pkt) + 28"
    if "path \<le> MinMTU" "length p = adv" "length iv = 16" "Encrypt hmac (Some iv) sa p nh = (Inr pkt, sa')" for p iv nh pkt sa'
    using esp_grows [OF assms(1,2) that(3,4)] that(1,2) adv by (simp add: MinMTU_def)
  ultimately show ?thesis by blast
qed

theorem advertised_inner_mtu_fits_iff_witness:
  "fst (CheckPacketExceedsMTU 576 576 66) \<and>
   (\<exists>pkt. fst (Encrypt (\<lambda>_ _ _. []) (Some (replicate 16 5)) example_sa (replicate 1434 0) 4) = Inr pkt \<and> int (length pkt) + 28 \<le> 1500)"
proof -
  have oh: "66 = int (CalculateESPOverhead (Suite example_sa) (IntegSuite example_sa) True)"
    by (simp add: example_sa_def CalculateESPOverhead_def ESPHeaderLen_def suite_defs)
  have i: "integ_ok example_sa" by (simp add: integ_ok_def example_sa_def)
  note t = advertised_inner_mtu_fits_iff [OF example_ready(1,2) i oh refl]
  have "int (unat (InnerMTUFromPath 576 66)) = 576" "int (unat (InnerMTUFromPath 1500 66)) = 1434"
    unfolding InnerMTUFromPath_eq by (simp_all add: MinMTU_def)
  then have adv: "unat (InnerMTUFromPath 576 66) = 576" "unat (InnerMTUFromPath 1500 66) = 1434" by linarith+
  obtain pkt where e: "Encrypt (\<lambda>_ _ _. []) (Some (replicate 16 5)) example_sa (replicate 1434 0) 4 =
      (Inr pkt, example_sa\<lparr>SeqNum := SeqNum example_sa + 1\<rparr>)"
    using encryptAEAD_eq [of example_sa example_aead "replicate 1434 0" 4]
    by (auto simp: Encrypt_def example_sa_fields) (simp add: example_sa_def)
  have "int (length pkt) + 28 \<le> 1500"
    by (rule t [of 1500, THEN conjunct1, rule_format, OF _ _ _ _ e]) (simp_all add: adv)
  moreover have "fst (CheckPacketExceedsMTU 576 576 66)"
    using t [of 576 "\<lambda>_ _ _. []"] adv(1) by simp
  ultimately show ?thesis using e by auto
qed

lemma GetMTU_SetMTU:
  "GetMTU (SetMTU m a mtu) b =
     (if IPString a = IPString b then max MinMTU mtu else GetMTU m b)"
  by (auto simp: GetMTU_def SetMTU_def Let_def max_def split: option.splits)

definition pmtu_ok :: "PMTUManager \<Rightarrow> bool" where
  "pmtu_ok m \<longleftrightarrow> MinMTU \<le> defaultMTU m \<and> (\<forall>k v. byPeer m k = Some v \<longrightarrow> MinMTU \<le> v)"

lemma pmtu_ok_ops:
  "pmtu_ok (NewPMTUManager d)" "pmtu_ok m \<Longrightarrow> pmtu_ok (SetMTU m a v)"
  "pmtu_ok m \<Longrightarrow> MinMTU \<le> GetMTU m a"
  by (auto simp: pmtu_ok_def NewPMTUManager_def SetMTU_def GetMTU_def MinMTU_def DefaultMTU_def
      Let_def split: if_splits option.splits)

end
