(* ===== verification/Ppp.thy ===== *)
theory Ppp
  imports Prelude
begin

unbundle bit_operations_syntax

text \<open>
  PPP framing (\<^verbatim>\<open>internal/l2tp/ppp.go\<close>) and what the three PPP control protocols have
  in common: the loop over type-length-value options, and the response builder, whose
  16-bit length may wrap. \<^const>\<open>None\<close> is a run-time panic.
\<close>

abbreviation (input) PPPProtoIPv4 :: u16 where "PPPProtoIPv4 \<equiv> 0x0021"
abbreviation (input) PPPProtoIPCP :: u16 where "PPPProtoIPCP \<equiv> 0x8021"
abbreviation (input) PPPProtoIPv6CP :: u16 where "PPPProtoIPv6CP \<equiv> 0x8057"
abbreviation (input) PPPProtoCCP :: u16 where "PPPProtoCCP \<equiv> 0x80FD"
abbreviation (input) PPPProtoLCP :: u16 where "PPPProtoLCP \<equiv> 0xC021"
abbreviation (input) PPPProtoPAP :: u16 where "PPPProtoPAP \<equiv> 0xC023"
abbreviation (input) PPPProtoCHAP :: u16 where "PPPProtoCHAP \<equiv> 0xC223"

section \<open>Frames\<close>

record PPPFrame =
  Protocol :: u16
  FramePayload :: bytes

datatype ppp_error =
    PppTooShort nat | PppNoAddrControl nat | PppControlByte byte | PppNoProtocol | PppProtoTruncated

definition ParsePPPFrame :: "bytes \<Rightarrow> ppp_error + PPPFrame" where
  "ParsePPPFrame data =
     (if length data < 2 then Inl (PppTooShort (length data))
      else if data ! 0 = 0xFF \<and> length data < 4 then Inl (PppNoAddrControl (length data))
      else if data ! 0 = 0xFF \<and> data ! 1 \<noteq> 0x03 then Inl (PppControlByte (data ! 1))
      else
        (let offset = (if data ! 0 = 0xFF then 2 else 0); remaining = drop offset data in
         if length remaining < 1 then Inl PppNoProtocol
         else if remaining ! 0 AND 0x01 \<noteq> 0 then
           Inr \<lparr>Protocol = ucast (remaining ! 0), FramePayload = drop (offset + 1) data\<rparr>
         else if length remaining < 2 then Inl PppProtoTruncated
         else Inr \<lparr>Protocol = Uint16 (slice 0 2 remaining), FramePayload = drop (offset + 2) data\<rparr>))"

definition SerializePPPFrame :: "u16 \<Rightarrow> bytes \<Rightarrow> bytes" where
  "SerializePPPFrame proto payload = [0xFF, 0x03] @ PutUint16 proto @ payload"

definition SerializePPPFrameCompact :: "u16 \<Rightarrow> bytes \<Rightarrow> bytes" where
  "SerializePPPFrameCompact proto payload = PutUint16 proto @ payload"

text \<open>The protocol numbers of RFC 1661: the high byte is even.\<close>

definition proto_wf :: "u16 \<Rightarrow> bool" where
  "proto_wf proto \<longleftrightarrow> (ucast (drop_bit 8 proto) :: byte) AND 0x01 = 0"

lemma proto_wf_known [simp]:
  "proto_wf PPPProtoIPv4" "proto_wf PPPProtoIPCP" "proto_wf PPPProtoIPv6CP" "proto_wf PPPProtoCCP"
  "proto_wf PPPProtoLCP" "proto_wf PPPProtoPAP" "proto_wf PPPProtoCHAP"
  by (simp_all add: proto_wf_def)

lemma Parse_SerializePPPFrame:
  assumes "proto_wf proto"
  shows "ParsePPPFrame (SerializePPPFrame proto p) = Inr \<lparr>Protocol = proto, FramePayload = p\<rparr>"
    and "ParsePPPFrame (SerializePPPFrameCompact proto p) = Inr \<lparr>Protocol = proto, FramePayload = p\<rparr>"
proof -
  have b: "PutUint16 proto ! 0 = ucast (drop_bit 8 proto)" by (simp add: PutUint16_def)
  have ff: "(ucast (drop_bit 8 proto) :: byte) \<noteq> 0xFF" using assms by (auto simp: proto_wf_def)
  have e: "(ucast (drop_bit 8 proto) :: byte) AND 1 = 0" using assms by (simp add: proto_wf_def)
  have u: "Uint16 (slice 0 2 (PutUint16 proto @ p)) = proto" by (simp add: slice_def)
  show "ParsePPPFrame (SerializePPPFrame proto p) = Inr \<lparr>Protocol = proto, FramePayload = p\<rparr>"
    using e u by (simp add: ParsePPPFrame_def SerializePPPFrame_def nth_append b)
  show "ParsePPPFrame (SerializePPPFrameCompact proto p) = Inr \<lparr>Protocol = proto, FramePayload = p\<rparr>"
    using e u ff by (simp add: ParsePPPFrame_def SerializePPPFrameCompact_def nth_append b)
qed

text \<open>
  PPP framing is a round trip in both forms the daemon writes: with address and
  control bytes and without them, every payload of every two-byte protocol number comes
  back unchanged, for all protocols the daemon uses.
\<close>

theorem ppp_frame_roundtrip:
  assumes "proto \<in> {PPPProtoIPv4, PPPProtoIPCP, PPPProtoIPv6CP, PPPProtoCCP, PPPProtoLCP,
    PPPProtoPAP, PPPProtoCHAP}"
  shows "ParsePPPFrame (SerializePPPFrame proto p) = Inr \<lparr>Protocol = proto, FramePayload = p\<rparr> \<and>
    ParsePPPFrame (SerializePPPFrameCompact proto p) = Inr \<lparr>Protocol = proto, FramePayload = p\<rparr>"
  using Parse_SerializePPPFrame [of proto p] assms by auto

theorem ppp_frame_roundtrip_witness:
  "ParsePPPFrame (SerializePPPFrame 0xC021 [9, 1, 0, 4]) =
     Inr \<lparr>Protocol = 0xC021, FramePayload = [9, 1, 0, 4]\<rparr>"
  using ppp_frame_roundtrip [of "0xC021" "[9, 1, 0, 4]"] by simp

section \<open>Options\<close>

text \<open>
  The options that the loops of LCP and IPCP visit, each with its two header bytes. The
  loops stop silently at the first malformed option.
\<close>

function optionsOf :: "bytes \<Rightarrow> bytes list" where
  "optionsOf options =
     (if length options < 2 then []
      else
        (let optLen = unat (options ! 1) in
         if optLen < 2 \<or> optLen > length options then []
         else take optLen options # optionsOf (drop optLen options)))"
  by pat_completeness auto
termination
  by (relation "measure length") auto

declare optionsOf.simps [simp del]

lemma optionsOf_Nil [simp]: "optionsOf [] = []"
  by (subst optionsOf.simps) simp

lemma optionsOf_length:
  "od \<in> set (optionsOf bs) \<Longrightarrow> 2 \<le> length od \<and> length od = unat (od ! 1)"
proof (induction bs rule: optionsOf.induct)
  case (1 bs)
  then show ?case
    by (subst (asm) (2) optionsOf.simps) (auto simp: Let_def split: if_splits)
qed

lemma optionsOf_sum: "sum_list (map length (optionsOf bs)) \<le> length bs"
proof (induction bs rule: optionsOf.induct)
  case (1 bs)
  then show ?case
    by (subst optionsOf.simps) (auto simp: Let_def min_def)
qed

lemma optionsOf_concat_prefix: "\<exists>rest. bs = concat (optionsOf bs) @ rest"
proof (induction bs rule: optionsOf.induct)
  case (1 bs)
  show ?case
  proof (cases "length bs < 2 \<or> unat (bs ! 1) < 2 \<or> unat (bs ! 1) > length bs")
    case True
    then show ?thesis by (subst optionsOf.simps) (auto simp: Let_def)
  next
    case False
    with 1 obtain rest where "drop (unat (bs ! 1)) bs = concat (optionsOf (drop (unat (bs ! 1)) bs)) @ rest"
      by auto
    moreover from False have "optionsOf bs = take (unat (bs ! 1)) bs # optionsOf (drop (unat (bs ! 1)) bs)"
      by (subst optionsOf.simps) (auto simp: Let_def)
    ultimately show ?thesis by (metis append.assoc append_take_drop_id concat.simps(2))
  qed
qed

text \<open>A single well-formed option in front.\<close>

lemma optionsOf_Cons:
  assumes "length v < 254" and "n = of_nat (2 + length v)"
  shows "optionsOf (t # n # v @ rest) = (t # n # v) # optionsOf rest"
proof -
  have "unat (n :: byte) = 2 + length v" using assms by (simp only: byte_of_nat_unat)
  then show ?thesis by (subst optionsOf.simps) simp
qed

section \<open>Responses\<close>

definition buildResponse :: "byte \<Rightarrow> byte \<Rightarrow> bytes \<Rightarrow> bytes option" where
  "buildResponse code ident data =
     (let pktLen = (of_nat (4 + length data) :: u16); n = unat pktLen in
      if n < 4 then None
      else Some ([code, ident] @ PutUint16 pktLen @ take (n - 4) data))"

lemma buildResponse_Some:
  assumes "length data < 65532"
  shows "buildResponse code ident data =
    Some ([code, ident] @ PutUint16 (of_nat (4 + length data)) @ data)"
proof -
  have "unat (of_nat (4 + length data) :: u16) = 4 + length data"
    using assms by (intro u16_of_nat_unat) simp
  then show ?thesis by (simp add: buildResponse_def Let_def del: of_nat_add)
qed

text \<open>The header of a received control packet: code, identifier, and the stated body.\<close>

definition pppHeader :: "bytes \<Rightarrow> (byte \<times> byte \<times> nat) option" where
  "pppHeader data =
     (if length data < 4 then None
      else
        (let pktLen = unat (Uint16 (slice 2 4 data)) in
         if pktLen > length data then None
         else Some (data ! 0, data ! 1, pktLen)))"

definition pppPacket :: "byte \<Rightarrow> byte \<Rightarrow> bytes \<Rightarrow> bytes" where
  "pppPacket code ident body = [code, ident] @ PutUint16 (of_nat (4 + length body)) @ body"

lemma buildResponse_pppPacket:
  "length data < 65532 \<Longrightarrow> buildResponse code ident data = Some (pppPacket code ident data)"
  by (simp add: buildResponse_Some pppPacket_def)

lemma pppHeader_pppPacket:
  assumes "length body < 65532"
  shows "pppHeader (pppPacket code ident body) = Some (code, ident, 4 + length body)"
    and "go_slice 4 (4 + length body) (pppPacket code ident body) = Some body"
proof -
  have "unat (of_nat (4 + length body) :: u16) = 4 + length body"
    using assms by (intro u16_of_nat_unat) simp
  then show "pppHeader (pppPacket code ident body) = Some (code, ident, 4 + length body)"
    by (simp add: pppHeader_def pppPacket_def slice_def Let_def del: of_nat_add)
  show "go_slice 4 (4 + length body) (pppPacket code ident body) = Some body"
    by (simp add: go_slice_def slice_def pppPacket_def)
qed

end
