(* ===== verification/Lcp.thy ===== *)
theory Lcp
  imports Ppp
begin

unbundle bit_operations_syntax

text \<open>
  The LCP handler of \<^verbatim>\<open>internal/l2tp/lcp.go\<close>. An operation returns the new handler and
  its response, if any; \<^const>\<open>None\<close> outside is a run-time panic. Random magic numbers are
  arguments (where a loop draws several, only the last one is kept, and the argument is
  that one).
\<close>

abbreviation (input) LCPConfigureRequest :: byte where "LCPConfigureRequest \<equiv> 1"
abbreviation (input) LCPConfigureAck :: byte where "LCPConfigureAck \<equiv> 2"
abbreviation (input) LCPConfigureNak :: byte where "LCPConfigureNak \<equiv> 3"
abbreviation (input) LCPConfigureReject :: byte where "LCPConfigureReject \<equiv> 4"
abbreviation (input) LCPTerminateRequest :: byte where "LCPTerminateRequest \<equiv> 5"
abbreviation (input) LCPTerminateAck :: byte where "LCPTerminateAck \<equiv> 6"
abbreviation (input) LCPProtocolReject :: byte where "LCPProtocolReject \<equiv> 8"
abbreviation (input) LCPEchoRequest :: byte where "LCPEchoRequest \<equiv> 9"
abbreviation (input) LCPEchoReply :: byte where "LCPEchoReply \<equiv> 10"

abbreviation (input) LCPOptMRU :: byte where "LCPOptMRU \<equiv> 1"
abbreviation (input) LCPOptAuthProto :: byte where "LCPOptAuthProto \<equiv> 3"
abbreviation (input) LCPOptMagicNumber :: byte where "LCPOptMagicNumber \<equiv> 5"
abbreviation (input) LCPOptPFCompress :: byte where "LCPOptPFCompress \<equiv> 7"
abbreviation (input) LCPOptACFCompress :: byte where "LCPOptACFCompress \<equiv> 8"

datatype lcp_state = LCPStateInitial | LCPStateReqSent | LCPStateAckRcvd | LCPStateAckSent
  | LCPStateOpened | LCPStateClosed

definition defaultMRU :: u16 where "defaultMRU = 1500"

record LCPHandler =
  lcpState :: lcp_state
  localMagic :: u32
  remoteMagic :: u32
  lcpMru :: u16
  lcpNextID :: byte
  lcpOursAcked :: bool
  lcpPeerAcked :: bool

definition NewLCPHandler :: "u32 \<Rightarrow> LCPHandler" where
  "NewLCPHandler magic =
     \<lparr>lcpState = LCPStateInitial, localMagic = magic, remoteMagic = 0, lcpMru = defaultMRU,
      lcpNextID = 0, lcpOursAcked = False, lcpPeerAcked = False\<rparr>"

definition LcpIsOpened :: "LCPHandler \<Rightarrow> bool" where
  "LcpIsOpened h \<longleftrightarrow> lcpState h = LCPStateOpened"

definition lcpRequestOptions :: "LCPHandler \<Rightarrow> bytes" where
  "lcpRequestOptions h =
     [LCPOptMRU, 4] @ PutUint16 (lcpMru h) @
     [LCPOptAuthProto, 5] @ PutUint16 PPPProtoCHAP @ [5] @
     [LCPOptMagicNumber, 6] @ PutUint32 (localMagic h)"

definition LcpBuildConfigureRequest :: "LCPHandler \<Rightarrow> LCPHandler \<times> bytes" where
  "LcpBuildConfigureRequest h0 =
     (let h = h0\<lparr>lcpNextID := lcpNextID h0 + 1\<rparr>;
          opts = lcpRequestOptions h;
          pkt = [LCPConfigureRequest, lcpNextID h] @ PutUint16 (of_nat (4 + length opts)) @ opts
      in (if lcpState h = LCPStateInitial then h\<lparr>lcpState := LCPStateReqSent\<rparr> else h, pkt))"

definition lcpCheckOpened :: "LCPHandler \<Rightarrow> LCPHandler" where
  "lcpCheckOpened h =
     (if lcpOursAcked h \<and> lcpPeerAcked h then h\<lparr>lcpState := LCPStateOpened\<rparr> else h)"

text \<open>One option of a Configure-Request: the handler and the three option lists.\<close>

definition lcpRequestOption ::
  "bytes \<Rightarrow> LCPHandler \<times> bytes \<times> bytes \<times> bytes \<Rightarrow> LCPHandler \<times> bytes \<times> bytes \<times> bytes" where
  "lcpRequestOption optData st =
     (case st of (h, ack, nak, rej) \<Rightarrow>
      let optType = optData ! 0; optLen = length optData in
      if optType = LCPOptMRU then
        (if optLen \<ge> 4 then
           (let peerMRU = Uint16 (slice 2 4 optData) in
            if peerMRU \<ge> 128 \<and> peerMRU \<le> 16384
            then (h\<lparr>lcpMru := peerMRU\<rparr>, ack @ optData, nak, rej)
            else (h, ack, nak @ [LCPOptMRU, 4] @ PutUint16 defaultMRU, rej))
         else (h, ack, nak, rej @ optData))
      else if optType = LCPOptAuthProto then
        (if optLen \<ge> 4 then
           (let proto = Uint16 (slice 2 4 optData) in
            if proto = PPPProtoCHAP then (h, ack @ optData, nak, rej)
            else (h, ack, nak @ [LCPOptAuthProto, 5] @ PutUint16 PPPProtoCHAP @ [5], rej))
         else (h, ack, nak, rej @ optData))
      else if optType = LCPOptMagicNumber then
        (if optLen \<ge> 6
         then (h\<lparr>remoteMagic := Uint32 (slice 2 6 optData)\<rparr>, ack @ optData, nak, rej)
         else (h, ack, nak, rej @ optData))
      else if optType = LCPOptPFCompress then (h, ack @ optData, nak, rej)
      else if optType = LCPOptACFCompress then (h, ack @ optData, nak, rej)
      else (h, ack, nak, rej @ optData))"

definition respond :: "'h \<Rightarrow> bytes option \<Rightarrow> ('h \<times> bytes option) option" where
  "respond h r = (case r of None \<Rightarrow> None | Some pkt \<Rightarrow> Some (h, Some pkt))"

definition lcpHandleConfigureRequest ::
  "byte \<Rightarrow> bytes \<Rightarrow> LCPHandler \<Rightarrow> (LCPHandler \<times> bytes option) option" where
  "lcpHandleConfigureRequest ident options h0 =
     (case fold lcpRequestOption (optionsOf options) (h0, [], [], []) of
        (h, ack, nak, rej) \<Rightarrow>
          if length rej > 0 then respond h (buildResponse LCPConfigureReject ident rej)
          else if length nak > 0 then respond h (buildResponse LCPConfigureNak ident nak)
          else
            (let h' = lcpCheckOpened (h\<lparr>lcpPeerAcked := True\<rparr>)
             in respond h' (buildResponse LCPConfigureAck ident ack)))"

definition lcpHandleConfigureAck :: "byte \<Rightarrow> LCPHandler \<Rightarrow> LCPHandler" where
  "lcpHandleConfigureAck ident h =
     (if ident \<noteq> lcpNextID h then h else lcpCheckOpened (h\<lparr>lcpOursAcked := True\<rparr>))"

definition lcpNakOption :: "u32 \<Rightarrow> bytes \<Rightarrow> LCPHandler \<Rightarrow> LCPHandler" where
  "lcpNakOption rnd optData h =
     (let optType = optData ! 0 in
      if optType = LCPOptMRU then
        (if length optData \<ge> 4 then h\<lparr>lcpMru := Uint16 (slice 2 4 optData)\<rparr> else h)
      else if optType = LCPOptAuthProto then h
      else if optType = LCPOptMagicNumber then h\<lparr>localMagic := rnd\<rparr>
      else h)"

definition lcpHandleConfigureNak :: "u32 \<Rightarrow> bytes \<Rightarrow> LCPHandler \<Rightarrow> LCPHandler \<times> bytes" where
  "lcpHandleConfigureNak rnd options h =
     LcpBuildConfigureRequest (fold (lcpNakOption rnd) (optionsOf options) h)"

text \<open>The Reject loop returns from inside at a rejected authentication option.\<close>

definition authRequired :: bytes where
  "authRequired = [65, 117, 116, 104, 101, 110, 116, 105, 99, 97, 116, 105, 111, 110, 32,
     114, 101, 113, 117, 105, 114, 101, 100]"

fun lcpRejectLoop :: "bytes list \<Rightarrow> LCPHandler \<Rightarrow> (LCPHandler \<times> bytes option) option" where
  "lcpRejectLoop [] h = (case LcpBuildConfigureRequest h of (h', pkt) \<Rightarrow> Some (h', Some pkt))"
| "lcpRejectLoop (optData # opts) h =
     (let optType = optData ! 0 in
      if optType = LCPOptAuthProto then
        (let h' = h\<lparr>lcpState := LCPStateClosed\<rparr>
         in respond h' (buildResponse LCPTerminateRequest (lcpNextID h') authRequired))
      else if optType = LCPOptMagicNumber then lcpRejectLoop opts (h\<lparr>localMagic := 0\<rparr>)
      else lcpRejectLoop opts h)"

definition lcpHandleTerminateRequest :: "byte \<Rightarrow> LCPHandler \<Rightarrow> (LCPHandler \<times> bytes option) option" where
  "lcpHandleTerminateRequest ident h =
     respond (h\<lparr>lcpState := LCPStateClosed\<rparr>) (buildResponse LCPTerminateAck ident [])"

definition lcpHandleEchoRequest ::
  "byte \<Rightarrow> bytes \<Rightarrow> LCPHandler \<Rightarrow> (LCPHandler \<times> bytes option) option" where
  "lcpHandleEchoRequest ident payload h =
     respond h (buildResponse LCPEchoReply ident
       (PutUint32 (localMagic h) @ (if length payload > 4 then drop 4 payload else [])))"

definition LcpHandle :: "u32 \<Rightarrow> bytes \<Rightarrow> LCPHandler \<Rightarrow> (LCPHandler \<times> bytes option) option" where
  "LcpHandle rnd data h =
     (case pppHeader data of
        None \<Rightarrow> Some (h, None)
      | Some (code, ident, pktLen) \<Rightarrow>
          (case go_slice 4 pktLen data of
             None \<Rightarrow> None
           | Some payload \<Rightarrow>
               if code = LCPConfigureRequest then lcpHandleConfigureRequest ident payload h
               else if code = LCPConfigureAck then Some (lcpHandleConfigureAck ident h, None)
               else if code = LCPConfigureNak then
                 (case lcpHandleConfigureNak rnd payload h of (h', pkt) \<Rightarrow> Some (h', Some pkt))
               else if code = LCPConfigureReject then lcpRejectLoop (optionsOf payload) h
               else if code = LCPTerminateRequest then lcpHandleTerminateRequest ident h
               else if code = LCPEchoRequest then lcpHandleEchoRequest ident payload h
               else Some (h, None)))"

definition BuildProtocolReject :: "u16 \<Rightarrow> bytes \<Rightarrow> LCPHandler \<Rightarrow> (LCPHandler \<times> bytes) option" where
  "BuildProtocolReject rejectedProto rejectedPacket h0 =
     (let h = h0\<lparr>lcpNextID := lcpNextID h0 + 1\<rparr>;
          maxData = unat (lcpMru h) - 4 - 2;
          data = PutUint16 rejectedProto @
            (if length rejectedPacket > maxData then take maxData rejectedPacket else rejectedPacket)
      in case buildResponse LCPProtocolReject (lcpNextID h) data of
           None \<Rightarrow> None
         | Some pkt \<Rightarrow> Some (h, pkt))"

section \<open>The negotiation invariant\<close>

text \<open>The link is open only when both sides have acknowledged.\<close>

definition lcp_ok :: "LCPHandler \<Rightarrow> bool" where
  "lcp_ok h \<longleftrightarrow> (LcpIsOpened h \<longrightarrow> lcpOursAcked h \<and> lcpPeerAcked h)"

lemma lcp_ok_New [simp]: "lcp_ok (NewLCPHandler m)"
  by (simp add: lcp_ok_def LcpIsOpened_def NewLCPHandler_def)

lemma lcp_ok_BuildConfigureRequest [simp]:
  "lcp_ok h \<Longrightarrow> lcp_ok (fst (LcpBuildConfigureRequest h))"
  by (simp add: lcp_ok_def LcpIsOpened_def LcpBuildConfigureRequest_def Let_def)

lemma lcp_ok_checkOpened [simp]: "lcp_ok h \<Longrightarrow> lcp_ok (lcpCheckOpened h)"
  by (simp add: lcp_ok_def LcpIsOpened_def lcpCheckOpened_def)

lemma lcpRequestOption_fields:
  "lcpRequestOption od (h, ack, nak, rej) = (h', ack', nak', rej') \<Longrightarrow>
     lcpState h' = lcpState h \<and> lcpOursAcked h' = lcpOursAcked h \<and> lcpPeerAcked h' = lcpPeerAcked h \<and>
     lcpNextID h' = lcpNextID h \<and> localMagic h' = localMagic h"
  by (auto simp: lcpRequestOption_def Let_def split: if_splits)

lemma fold_lcpRequestOption_fields:
  "fold lcpRequestOption ods (h, ack, nak, rej) = (h', ack', nak', rej') \<Longrightarrow>
     lcpState h' = lcpState h \<and> lcpOursAcked h' = lcpOursAcked h \<and> lcpPeerAcked h' = lcpPeerAcked h \<and>
     lcpNextID h' = lcpNextID h \<and> localMagic h' = localMagic h"
proof (induction ods arbitrary: h ack nak rej)
  case (Cons od ods)
  obtain h1 a1 n1 r1 where s: "lcpRequestOption od (h, ack, nak, rej) = (h1, a1, n1, r1)"
    by (metis prod_cases4)
  with Cons.prems have "fold lcpRequestOption ods (h1, a1, n1, r1) = (h', ack', nak', rej')" by simp
  from Cons.IH [OF this] lcpRequestOption_fields [OF s] show ?case by simp
qed simp

lemma fold_lcpNakOption_fields:
  "lcpState (fold (lcpNakOption rnd) ods h) = lcpState h \<and>
   lcpOursAcked (fold (lcpNakOption rnd) ods h) = lcpOursAcked h \<and>
   lcpPeerAcked (fold (lcpNakOption rnd) ods h) = lcpPeerAcked h"
  by (induction ods arbitrary: h) (simp_all add: lcpNakOption_def Let_def)

lemma respond_Some: "respond h r = Some (h', x) \<longleftrightarrow> h' = h \<and> r \<noteq> None \<and> x = r"
  by (auto simp: respond_def split: option.splits)

lemma lcp_ok_reject: "lcpRejectLoop opts h = Some (h', r) \<Longrightarrow> lcp_ok h \<Longrightarrow> lcp_ok h'"
proof (induction opts h rule: lcpRejectLoop.induct)
  case (1 h)
  then show ?case by (auto split: prod.splits) (metis fst_conv lcp_ok_BuildConfigureRequest)
next
  case (2 od opts h)
  show ?case
  proof (cases "od ! 0 = LCPOptAuthProto")
    case True
    with 2 show ?thesis by (auto simp: Let_def respond_Some lcp_ok_def LcpIsOpened_def)
  next
    case False
    with 2 show ?thesis
      by (cases "od ! 0 = LCPOptMagicNumber") (auto simp: Let_def lcp_ok_def LcpIsOpened_def)
  qed
qed

lemma LcpHandle_cases:
  assumes "LcpHandle rnd data h = Some (h', r)"
  shows "h' = h \<or> (\<exists>ident pl. lcpHandleConfigureRequest ident pl h = Some (h', r)) \<or>
    (\<exists>ident. h' = lcpHandleConfigureAck ident h) \<or>
    (\<exists>pl. h' = fst (lcpHandleConfigureNak rnd pl h)) \<or>
    (\<exists>pl. lcpRejectLoop (optionsOf pl) h = Some (h', r)) \<or>
    (\<exists>ident. lcpHandleTerminateRequest ident h = Some (h', r))"
proof (cases "pppHeader data")
  case None
  with assms show ?thesis by (simp add: LcpHandle_def)
next
  case (Some x)
  obtain code ident n where x: "x = (code, ident, n)" by (cases x)
  with Some assms obtain pl where g: "go_slice 4 n data = Some pl"
    by (auto simp: LcpHandle_def split: option.splits)
  note hd = assms [unfolded LcpHandle_def Some x option.case prod.case g]
  show ?thesis
  proof (cases "code = LCPConfigureNak")
    case True
    with hd show ?thesis by (cases "lcpHandleConfigureNak rnd pl h") (auto intro: exI [of _ pl])
  next
    case False
    with hd show ?thesis
      by (auto simp: lcpHandleEchoRequest_def respond_Some split: if_splits)
  qed
qed

lemma LcpHandle_ok:
  assumes "LcpHandle rnd data h = Some (h', r)" and "lcp_ok h"
  shows "lcp_ok h'"
proof -
  have req: "lcp_ok h'" if "lcpHandleConfigureRequest ident pl h = Some (h', r)" for ident pl
  proof -
    obtain h1 a n j where f: "fold lcpRequestOption (optionsOf pl) (h, [], [], []) = (h1, a, n, j)"
      by (metis prod_cases4)
    from fold_lcpRequestOption_fields [OF f] assms(2) have "lcp_ok h1" "lcp_ok (h1\<lparr>lcpPeerAcked := True\<rparr>)"
      by (auto simp: lcp_ok_def LcpIsOpened_def)
    with that show ?thesis
      by (auto simp: lcpHandleConfigureRequest_def f respond_Some Let_def split: if_splits)
  qed
  have ackd: "lcp_ok (lcpHandleConfigureAck ident h)" for ident
  proof -
    have "lcp_ok (h\<lparr>lcpOursAcked := True\<rparr>)" using assms(2) by (auto simp: lcp_ok_def LcpIsOpened_def)
    with assms(2) show ?thesis by (simp add: lcpHandleConfigureAck_def)
  qed
  have nakd: "lcp_ok (fst (lcpHandleConfigureNak rnd pl h))" for pl
    using assms(2) fold_lcpNakOption_fields [of rnd "optionsOf pl" h]
    by (simp add: lcpHandleConfigureNak_def lcp_ok_def LcpIsOpened_def LcpBuildConfigureRequest_def Let_def)
  have trm: "lcp_ok h'" if "lcpHandleTerminateRequest ident h = Some (h', r)" for ident
    using that by (auto simp: lcpHandleTerminateRequest_def respond_Some lcp_ok_def LcpIsOpened_def)
  from LcpHandle_cases [OF assms(1)] show ?thesis
    using assms(2) req ackd nakd trm lcp_ok_reject by (elim disjE exE) auto
qed

section \<open>Answers to a Configure-Request\<close>

text \<open>The options the daemon accepts, and those it answers with a suggestion.\<close>

definition lcpAcceptable :: "bytes \<Rightarrow> bool" where
  "lcpAcceptable od \<longleftrightarrow>
     (od ! 0 = LCPOptMRU \<and> 4 \<le> length od \<and> 128 \<le> Uint16 (slice 2 4 od) \<and> Uint16 (slice 2 4 od) \<le> 16384) \<or>
     (od ! 0 = LCPOptAuthProto \<and> 4 \<le> length od \<and> Uint16 (slice 2 4 od) = PPPProtoCHAP) \<or>
     (od ! 0 = LCPOptMagicNumber \<and> 6 \<le> length od) \<or>
     od ! 0 = LCPOptPFCompress \<or> od ! 0 = LCPOptACFCompress"

definition lcpNegotiable :: "bytes \<Rightarrow> bool" where
  "lcpNegotiable od \<longleftrightarrow> \<not> lcpAcceptable od \<and> 4 \<le> length od \<and>
     (od ! 0 = LCPOptMRU \<or> od ! 0 = LCPOptAuthProto)"

lemma lcpRequestOption_cases:
  assumes "lcpRequestOption od (h, ack, nak, rej) = (h', ack', nak', rej')"
  shows "(lcpAcceptable od \<and> ack' = ack @ od \<and> nak' = nak \<and> rej' = rej) \<or>
    (lcpNegotiable od \<and> ack' = ack \<and> (\<exists>x. nak' = nak @ x \<and> x \<noteq> [] \<and> length x \<le> 2 * length od) \<and> rej' = rej) \<or>
    (\<not> lcpAcceptable od \<and> \<not> lcpNegotiable od \<and> ack' = ack \<and> nak' = nak \<and> rej' = rej @ od)"
  using assms
  by (auto simp: lcpRequestOption_def lcpAcceptable_def lcpNegotiable_def Let_def split: if_splits)

lemma fold_lcpRequestOption:
  assumes "fold lcpRequestOption ods (h, ack, nak, rej) = (h', ack', nak', rej')"
    and "\<forall>od\<in>set ods. od \<noteq> []"
  shows "(\<exists>x. nak' = nak @ x \<and> (x = [] \<longleftrightarrow> (\<forall>od\<in>set ods. \<not> lcpNegotiable od)) \<and>
      length x \<le> 2 * sum_list (map length ods)) \<and>
    rej' = rej @ concat (filter (\<lambda>od. \<not> lcpAcceptable od \<and> \<not> lcpNegotiable od) ods) \<and>
    ack' = ack @ concat (filter lcpAcceptable ods)"
  using assms
proof (induction ods arbitrary: h ack nak rej)
  case (Cons od ods)
  obtain h1 a1 n1 r1 where s: "lcpRequestOption od (h, ack, nak, rej) = (h1, a1, n1, r1)"
    by (metis prod_cases4)
  with Cons.prems have "fold lcpRequestOption ods (h1, a1, n1, r1) = (h', ack', nak', rej')"
    "\<forall>od\<in>set ods. od \<noteq> []" by simp_all
  note ih = Cons.IH [OF this]
  have neg: "lcpNegotiable od \<Longrightarrow> \<not> lcpAcceptable od" by (simp add: lcpNegotiable_def)
  from lcpRequestOption_cases [OF s] show ?case
  proof (elim disjE conjE)
    assume "lcpAcceptable od" "a1 = ack @ od" "n1 = nak" "r1 = rej"
    with ih neg show ?thesis by auto
  next
    assume a: "lcpNegotiable od" "a1 = ack" "\<exists>x. n1 = nak @ x \<and> x \<noteq> [] \<and> length x \<le> 2 * length od" "r1 = rej"
    then obtain x where x: "n1 = nak @ x" "x \<noteq> []" "length x \<le> 2 * length od" by blast
    from ih obtain y where y: "nak' = n1 @ y" "length y \<le> 2 * sum_list (map length ods)" by blast
    from ih a x y neg show ?thesis by (auto intro!: exI [of _ "x @ y"])
  next
    assume "\<not> lcpAcceptable od" "\<not> lcpNegotiable od" "a1 = ack" "n1 = nak" "r1 = rej @ od"
    with ih show ?thesis by auto
  qed
qed simp

lemma sum_filter_le: "sum_list (map length (filter P ods)) \<le> sum_list (map length ods)"
  by (induction ods) auto

lemma optionsOf_nonempty: "\<forall>od\<in>set (optionsOf bs). od \<noteq> []"
  using optionsOf_length [of _ bs] by fastforce

lemma concat_filter_all: "\<forall>x\<in>set xs. P x \<Longrightarrow> filter P xs = xs"
  by (simp add: filter_id_conv)

lemma lcp_request_answer:
  assumes "length options \<le> 30000"
  shows "\<exists>h' resp. lcpHandleConfigureRequest ident options h = Some (h', Some resp) \<and>
    (if \<forall>od\<in>set (optionsOf options). lcpAcceptable od
     then resp = pppPacket LCPConfigureAck ident (concat (optionsOf options)) \<and> lcpPeerAcked h' \<and>
       LcpIsOpened h' = (lcpOursAcked h \<or> LcpIsOpened h) \<and> lcpOursAcked h' = lcpOursAcked h
     else (if \<forall>od\<in>set (optionsOf options). lcpAcceptable od \<or> lcpNegotiable od
           then resp ! 0 = LCPConfigureNak
           else resp = pppPacket LCPConfigureReject ident
                 (concat (filter (\<lambda>od. \<not> lcpAcceptable od \<and> \<not> lcpNegotiable od) (optionsOf options)))) \<and>
       lcpPeerAcked h' = lcpPeerAcked h \<and> LcpIsOpened h' = LcpIsOpened h)"
proof -
  let ?ods = "optionsOf options"
  obtain h1 ack nak rej where f: "fold lcpRequestOption ?ods (h, [], [], []) = (h1, ack, nak, rej)"
    by (metis prod_cases4)
  from fold_lcpRequestOption [OF f optionsOf_nonempty]
  have nak: "nak = [] \<longleftrightarrow> (\<forall>od\<in>set ?ods. \<not> lcpNegotiable od)" "length nak \<le> 2 * sum_list (map length ?ods)"
    and rej: "rej = concat (filter (\<lambda>od. \<not> lcpAcceptable od \<and> \<not> lcpNegotiable od) ?ods)"
    and ack: "ack = concat (filter lcpAcceptable ?ods)"
    by auto
  have l: "sum_list (map length ?ods) \<le> 30000" using optionsOf_sum [of options] assms by linarith
  have len: "length ack < 65532" "length nak < 65532" "length rej < 65532"
    using l nak(2) sum_filter_le [of lcpAcceptable ?ods]
      sum_filter_le [of "\<lambda>od. \<not> lcpAcceptable od \<and> \<not> lcpNegotiable od" ?ods]
    by (simp_all add: ack rej length_concat)
  note flds = fold_lcpRequestOption_fields [OF f]
  have rej0: "rej = [] \<longleftrightarrow> (\<forall>od\<in>set ?ods. lcpAcceptable od \<or> lcpNegotiable od)"
    using optionsOf_nonempty [of options] by (auto simp: rej)
  show ?thesis
  proof (cases "\<forall>od\<in>set ?ods. lcpAcceptable od")
    case True
    then have "rej = []" "nak = []" using rej0 nak(1) by (auto simp: lcpNegotiable_def)
    moreover have "ack = concat ?ods" using concat_filter_all [of ?ods lcpAcceptable] True by (simp add: ack)
    ultimately show ?thesis
      using True len flds
      by (auto simp: lcpHandleConfigureRequest_def f respond_def buildResponse_pppPacket Let_def
          lcpCheckOpened_def LcpIsOpened_def)
  next
    case False
    then have "rej \<noteq> [] \<or> nak \<noteq> []" using rej0 nak(1) by auto
    then show ?thesis
      using False len flds rej0
      by (auto simp: lcpHandleConfigureRequest_def f respond_def buildResponse_pppPacket
          LcpIsOpened_def pppPacket_def simp flip: rej)
  qed
qed

text \<open>
  The LCP answers are those of RFC 1661: a Configure-Request whose options are all
  acceptable is acknowledged by echoing exactly its options, and only then is the peer's
  side acknowledged (and the link open if ours already was); otherwise unknown options
  are all returned in a Reject, or, when every option is known, a Nak is sent, and the
  state of the link does not move. A request for an authentication protocol other than
  CHAP is never acknowledged.
\<close>

theorem lcp_answers:
  assumes "length options \<le> 30000"
  shows "\<exists>h' resp. lcpHandleConfigureRequest ident options h = Some (h', Some resp) \<and>
    (if \<forall>od\<in>set (optionsOf options). lcpAcceptable od
     then resp = pppPacket LCPConfigureAck ident (concat (optionsOf options)) \<and> lcpPeerAcked h' \<and>
       LcpIsOpened h' = (lcpOursAcked h \<or> LcpIsOpened h) \<and> lcpOursAcked h' = lcpOursAcked h
     else (if \<forall>od\<in>set (optionsOf options). lcpAcceptable od \<or> lcpNegotiable od
           then resp ! 0 = LCPConfigureNak
           else resp = pppPacket LCPConfigureReject ident
                 (concat (filter (\<lambda>od. \<not> lcpAcceptable od \<and> \<not> lcpNegotiable od) (optionsOf options)))) \<and>
       lcpPeerAcked h' = lcpPeerAcked h \<and> LcpIsOpened h' = LcpIsOpened h)"
  using assms by (rule lcp_request_answer)

theorem lcp_answers_witness:
  "\<exists>h' resp. lcpHandleConfigureRequest 7 [] (NewLCPHandler 5) = Some (h', Some resp) \<and>
     resp = pppPacket 2 7 [] \<and> lcpPeerAcked h'"
  using lcp_answers [of "[]" 7 "NewLCPHandler 5"] by auto

section \<open>When the handler panics\<close>

text \<open>
  For any packet of at most 30000 bytes the LCP handler panics exactly when the packet
  states a length below the four bytes of its own header; nothing else in an LCP packet,
  whatever its code, identifier and options, can make it panic.
\<close>

theorem lcp_panics_iff_short_length:
  assumes "length data \<le> 30000"
  shows "LcpHandle rnd data h = None \<longleftrightarrow> 4 \<le> length data \<and> unat (Uint16 (slice 2 4 data)) < 4"
proof (cases "pppHeader data")
  case None
  then have "\<not> (4 \<le> length data \<and> unat (Uint16 (slice 2 4 data)) < 4)"
    by (auto simp: pppHeader_def Let_def split: if_splits)
  with None show ?thesis by (simp add: LcpHandle_def)
next
  case (Some x)
  obtain code ident n where x: "x = (code, ident, n)" by (cases x)
  with Some have n: "4 \<le> length data" "n = unat (Uint16 (slice 2 4 data))" "n \<le> length data"
    by (auto simp: pppHeader_def Let_def split: if_splits)
  show ?thesis
  proof (cases "n < 4")
    case True
    with n Some x show ?thesis by (simp add: LcpHandle_def go_slice_def)
  next
    case False
    let ?pl = "slice 4 n data"
    have pl: "length ?pl \<le> 30000" using assms by simp
    have "lcpHandleConfigureRequest ident ?pl h \<noteq> None" using lcp_request_answer [OF pl] by fastforce
    moreover have "lcpRejectLoop opts h \<noteq> None" for opts
      by (induction opts h rule: lcpRejectLoop.induct)
        (auto simp: respond_def buildResponse_pppPacket authRequired_def Let_def split: prod.splits)
    moreover have "lcpHandleTerminateRequest ident h \<noteq> None"
      by (simp add: lcpHandleTerminateRequest_def respond_def buildResponse_pppPacket)
    moreover have "lcpHandleEchoRequest ident ?pl h \<noteq> None"
      using pl by (simp add: lcpHandleEchoRequest_def respond_def buildResponse_pppPacket)
    moreover have "go_slice 4 n data = Some ?pl" using False n by (simp add: go_slice_def)
    ultimately have "LcpHandle rnd data h \<noteq> None"
      using Some x by (auto simp: LcpHandle_def split: prod.splits)
    with False n show ?thesis by auto
  qed
qed

theorem lcp_panics_iff_short_length_witness:
  "LcpHandle 0 [9, 1, 0, 3] (NewLCPHandler 5) = None"
  using lcp_panics_iff_short_length [of "[9, 1, 0, 3]" 0 "NewLCPHandler 5"]
  by (simp add: Uint16_def slice_def)

end
