(* ===== verification/Chap.thy ===== *)
theory Chap
  imports Ppp
begin

unbundle bit_operations_syntax

text \<open>
  CHAP authentication (\<^verbatim>\<open>internal/l2tp/chap.go\<close>) and the user database of
  \<^verbatim>\<open>profile.go\<close>. The MD5 function and the random challenge are arguments, so what is
  proved holds for every hash function; names and passwords are byte strings.
\<close>

abbreviation (input) CHAPChallenge :: byte where "CHAPChallenge \<equiv> 1"
abbreviation (input) CHAPResponse :: byte where "CHAPResponse \<equiv> 2"
abbreviation (input) CHAPSuccess :: byte where "CHAPSuccess \<equiv> 3"
abbreviation (input) CHAPFailure :: byte where "CHAPFailure \<equiv> 4"

section \<open>The user database\<close>

text \<open>
  A profile file is read and parsed outside (\<^verbatim>\<open>os.ReadFile\<close>, the YAML package): the
  argument lists, per path, the profile or \<^const>\<open>None\<close> for a file that could not be used.
\<close>

record L2TPProfile =
  profUsername :: bytes
  profPassword :: bytes

type_synonym ProfileUserDB = "bytes \<rightharpoonup> bytes"

definition NewProfileUserDB :: ProfileUserDB where
  "NewProfileUserDB = Map.empty"

fun LoadProfiles :: "L2TPProfile option list \<Rightarrow> ProfileUserDB \<Rightarrow> ProfileUserDB" where
  "LoadProfiles [] db = db"
| "LoadProfiles (None # ps) db = LoadProfiles ps db"
| "LoadProfiles (Some p # ps) db =
     (if profUsername p = [] then LoadProfiles ps db
      else LoadProfiles ps (db(profUsername p \<mapsto> profPassword p)))"

definition LookupUser :: "ProfileUserDB \<Rightarrow> bytes \<Rightarrow> bytes option" where
  "LookupUser db username = db username"

definition Reload :: "L2TPProfile option list \<Rightarrow> ProfileUserDB \<Rightarrow> ProfileUserDB" where
  "Reload ps db = LoadProfiles ps Map.empty"

lemma LoadProfiles_nameless: "db [] = None \<Longrightarrow> LoadProfiles ps db [] = None"
  by (induction ps db rule: LoadProfiles.induct) auto

lemma LoadProfiles_preserves:
  "LookupUser db u = Some pw \<Longrightarrow> \<forall>p. Some p \<in> set ps \<longrightarrow> profUsername p \<noteq> u \<Longrightarrow>
     LookupUser (LoadProfiles ps db) u = Some pw"
  by (induction ps db rule: LoadProfiles.induct) (auto simp: LookupUser_def)

lemma LoadProfiles_append: "LoadProfiles (ps @ qs) db = LoadProfiles qs (LoadProfiles ps db)"
  by (induction ps db rule: LoadProfiles.induct) (auto simp: fun_upd_def)

section \<open>The handler\<close>

record CHAPHandler =
  challengeID :: byte
  challenge :: bytes
  serverName :: bytes
  authenticated :: bool
  chapUsername :: bytes

definition NewCHAPHandler :: "bytes \<Rightarrow> CHAPHandler" where
  "NewCHAPHandler name =
     \<lparr>challengeID = 0, challenge = [], serverName = name, authenticated = False, chapUsername = []\<rparr>"

definition BuildChallenge :: "bytes \<Rightarrow> CHAPHandler \<Rightarrow> (CHAPHandler \<times> bytes) option" where
  "BuildChallenge rnd h0 =
     (let h = h0\<lparr>challengeID := challengeID h0 + 1, challenge := rnd\<rparr>;
          totalLen = (of_nat (4 + 1 + length (challenge h) + length (serverName h)) :: u16);
          n = unat totalLen
      in if n < 5 + length (challenge h) then None
         else Some (h, [CHAPChallenge, challengeID h] @ PutUint16 totalLen @
                [of_nat (length (challenge h))] @ challenge h @
                take (n - (5 + length (challenge h))) (serverName h)))"

definition computeMD5Response :: "(bytes \<Rightarrow> bytes) \<Rightarrow> CHAPHandler \<Rightarrow> byte \<Rightarrow> bytes \<Rightarrow> bytes" where
  "computeMD5Response md5 h ident secret = md5 ([ident] @ secret @ challenge h)"

text \<open>The comparison loop, which never leaves early.\<close>

definition constantTimeEq :: "bytes \<Rightarrow> bytes \<Rightarrow> bool" where
  "constantTimeEq responseValue expected =
     foldl (\<lambda>match i. if responseValue ! i \<noteq> expected ! i then False else match) True
       [0..<length expected]"

definition malformedResponse :: bytes where
  "malformedResponse = [109, 97, 108, 102, 111, 114, 109, 101, 100, 32, 114, 101, 115, 112, 111, 110, 115, 101]"

definition authenticationFailed :: bytes where
  "authenticationFailed = [97, 117, 116, 104, 101, 110, 116, 105, 99, 97, 116, 105, 111, 110, 32,
     102, 97, 105, 108, 101, 100]"

definition welcomePrefix :: bytes where
  "welcomePrefix = [87, 101, 108, 99, 111, 109, 101, 32]"

definition chapFailure :: "byte \<Rightarrow> bytes \<Rightarrow> bytes option" where
  "chapFailure ident msg = buildResponse CHAPFailure ident msg"

definition chapSuccess :: "byte \<Rightarrow> bytes \<Rightarrow> bytes option" where
  "chapSuccess ident msg = buildResponse CHAPSuccess ident msg"

definition chapHandleResponse ::
  "(bytes \<Rightarrow> bytes) \<Rightarrow> ProfileUserDB \<Rightarrow> byte \<Rightarrow> bytes \<Rightarrow> CHAPHandler \<Rightarrow> CHAPHandler \<times> bytes option" where
  "chapHandleResponse md5 db ident payload h =
     (if length payload < 1 then (h, chapFailure ident malformedResponse)
      else
      (let valueSize = unat (payload ! 0) in
       if 1 + valueSize > length payload then (h, chapFailure ident malformedResponse)
       else
       (let responseValue = slice 1 (1 + valueSize) payload;
            peerName = drop (1 + valueSize) payload
        in case LookupUser db peerName of
             None \<Rightarrow> (h, chapFailure ident authenticationFailed)
           | Some password \<Rightarrow>
               (let expected = computeMD5Response md5 h ident password in
                if length responseValue \<noteq> length expected then
                  (h, chapFailure ident authenticationFailed)
                else if \<not> constantTimeEq responseValue expected then
                  (h, chapFailure ident authenticationFailed)
                else
                  (h\<lparr>authenticated := True, chapUsername := peerName\<rparr>,
                   chapSuccess ident (welcomePrefix @ peerName))))))"

text \<open>The builders panic where their 16-bit length wraps below the header.\<close>

definition ChapHandle ::
  "(bytes \<Rightarrow> bytes) \<Rightarrow> ProfileUserDB \<Rightarrow> bytes \<Rightarrow> CHAPHandler \<Rightarrow> (CHAPHandler \<times> bytes option) option" where
  "ChapHandle md5 db data h =
     (case pppHeader data of
        None \<Rightarrow> Some (h, None)
      | Some (code, ident, pktLen) \<Rightarrow>
          if code = CHAPResponse then
            (case go_slice 4 pktLen data of
               None \<Rightarrow> None
             | Some payload \<Rightarrow>
                 (case chapHandleResponse md5 db ident payload h of
                    (h', None) \<Rightarrow> None
                  | (h', Some pkt) \<Rightarrow> Some (h', Some pkt)))
          else Some (h, None))"

section \<open>Authentication\<close>

lemma constantTimeEq_fold:
  "foldl (\<lambda>m i. if a ! i \<noteq> b ! i then False else m) m js \<longleftrightarrow> m \<and> (\<forall>i\<in>set js. a ! i = b ! i)"
  by (induction js arbitrary: m) auto

lemma constantTimeEq_iff: "length a = length b \<Longrightarrow> constantTimeEq a b \<longleftrightarrow> a = b"
  by (auto simp: constantTimeEq_def constantTimeEq_fold intro: nth_equalityI)

text \<open>A response that proves knowledge of the user's password for this challenge.\<close>

definition chapProof ::
  "(bytes \<Rightarrow> bytes) \<Rightarrow> ProfileUserDB \<Rightarrow> bytes \<Rightarrow> bytes \<Rightarrow> byte \<Rightarrow> bytes \<Rightarrow> bool" where
  "chapProof md5 db user chal ident payload \<longleftrightarrow>
     (\<exists>password. LookupUser db user = Some password \<and>
        (let digest = md5 ([ident] @ password @ chal)
         in length digest < 256 \<and> payload = [of_nat (length digest)] @ digest @ user))"

lemma byte_of_unat [simp]: "of_nat (unat (b :: byte)) = b"
  by simp

lemma chapHandleResponse_cases:
  assumes "chapHandleResponse md5 db ident payload h = (h', r)"
  shows "(chapProof md5 db (chapUsername h') (challenge h) ident payload \<and>
      h' = h\<lparr>authenticated := True, chapUsername := chapUsername h'\<rparr> \<and>
      r = chapSuccess ident (welcomePrefix @ chapUsername h')) \<or>
    (h' = h \<and> (\<exists>msg. r = chapFailure ident msg \<and> length msg < 100))"
proof (cases "h' = h \<and> (\<exists>msg. r = chapFailure ident msg \<and> length msg < 100)")
  case False
  have m: "length malformedResponse < 100" "length authenticationFailed < 100"
    by (simp_all add: malformedResponse_def authenticationFailed_def)
  let ?n = "unat (payload ! 0)"
  from False assms m have p: "payload \<noteq> []" "1 + ?n \<le> length payload"
    by (auto simp: chapHandleResponse_def Let_def split: if_splits)
  obtain pw where pw: "LookupUser db (drop (1 + ?n) payload) = Some pw"
    using False assms m p by (auto simp: chapHandleResponse_def Let_def split: option.splits)
  let ?e = "computeMD5Response md5 h ident pw"
  have e: "length (slice 1 (1 + ?n) payload) = length ?e" "slice 1 (1 + ?n) payload = ?e"
    and h': "h' = h\<lparr>authenticated := True, chapUsername := drop (1 + ?n) payload\<rparr>"
      "r = chapSuccess ident (welcomePrefix @ drop (1 + ?n) payload)"
    using False assms m p pw constantTimeEq_iff [of "slice 1 (1 + ?n) payload" ?e]
    by (auto simp: chapHandleResponse_def Let_def split: if_splits)
  have len: "length ?e = ?n" using e(1) p by simp
  have "payload = (payload ! 0) # drop 1 payload" using p by (cases payload) auto
  also have "drop 1 payload = slice 1 (1 + ?n) payload @ drop (1 + ?n) payload"
    using slice_append_drop [of 1 "1 + ?n" payload] by simp
  finally have "payload = [of_nat (length ?e)] @ ?e @ drop (1 + ?n) payload"
    using e(2) len by simp
  moreover have "length ?e < 256" using len by simp
  ultimately show ?thesis
    using pw h' by (auto simp: chapProof_def computeMD5Response_def Let_def)
qed simp

text \<open>A packet that carries such a response.\<close>

definition chapProofIn ::
  "(bytes \<Rightarrow> bytes) \<Rightarrow> ProfileUserDB \<Rightarrow> bytes \<Rightarrow> bytes \<Rightarrow> bytes \<Rightarrow> bool" where
  "chapProofIn md5 db user chal data \<longleftrightarrow>
     (\<exists>ident n. pppHeader data = Some (CHAPResponse, ident, n) \<and> 4 \<le> n \<and>
        chapProof md5 db user chal ident (slice 4 n data))"

lemma ChapHandle_cases:
  assumes "ChapHandle md5 db data h = Some (h', r)"
  shows "h' = h \<or> (chapProofIn md5 db (chapUsername h') (challenge h) data \<and>
    h' = h\<lparr>authenticated := True, chapUsername := chapUsername h'\<rparr>)"
proof (cases "h' = h")
  case False
  with assms obtain ident n pkt where c: "pppHeader data = Some (CHAPResponse, ident, n)" "4 \<le> n"
    "chapHandleResponse md5 db ident (slice 4 n data) h = (h', Some pkt)"
    by (auto simp: ChapHandle_def go_slice_def split: option.splits if_splits prod.splits)
  from chapHandleResponse_cases [OF c(3)] False c(1,2) show ?thesis
    unfolding chapProofIn_def by blast
qed simp

lemma ChapHandle_accepts:
  assumes "chapProof md5 db user (challenge h) ident payload" and "length payload < 65000"
  shows "ChapHandle md5 db (pppPacket CHAPResponse ident payload) h =
    Some (h\<lparr>authenticated := True, chapUsername := user\<rparr>,
      Some (pppPacket CHAPSuccess ident (welcomePrefix @ user)))"
proof -
  obtain pw where pw: "LookupUser db user = Some pw" "length (md5 (ident # pw @ challenge h)) < 256"
    "payload = of_nat (length (md5 (ident # pw @ challenge h))) # md5 (ident # pw @ challenge h) @ user"
    using assms(1) by (auto simp: chapProof_def Let_def)
  let ?d = "md5 (ident # pw @ challenge h)"
  have n: "unat (of_nat (length ?d) :: byte) = length ?d" using pw(2) by (rule byte_of_nat_unat)
  have s: "slice 1 (1 + length ?d) payload = ?d" "drop (1 + length ?d) payload = user"
    by (simp_all add: pw(3) slice_def)
  have "chapHandleResponse md5 db ident payload h =
      (h\<lparr>authenticated := True, chapUsername := user\<rparr>, chapSuccess ident (welcomePrefix @ user))"
    using pw n s by (simp add: chapHandleResponse_def Let_def computeMD5Response_def constantTimeEq_iff)
  moreover have "chapSuccess ident (welcomePrefix @ user) = Some (pppPacket CHAPSuccess ident (welcomePrefix @ user))"
    using assms(2) pw(3) by (simp add: chapSuccess_def buildResponse_pppPacket welcomePrefix_def)
  ultimately show ?thesis
    using pppHeader_pppPacket [of payload CHAPResponse ident] assms(2) by (simp add: ChapHandle_def)
qed

text \<open>
  CHAP authenticates exactly the holders of a password: in any state, a CHAP packet
  makes the handler authenticated (when it was not) only if it carries, for a user of the
  database, the digest of the identifier, that user's password and the current challenge,
  and the user recorded is that one; and such a packet is always accepted and answered
  with Success.
\<close>

theorem chap_authenticates_exactly_holders:
  "(ChapHandle md5 db data h = Some (h', r) \<and> authenticated h' \<and> \<not> authenticated h \<longrightarrow>
      chapProofIn md5 db (chapUsername h') (challenge h) data) \<and>
   (chapProof md5 db user (challenge h) ident payload \<and> length payload < 65000 \<longrightarrow>
      ChapHandle md5 db (pppPacket CHAPResponse ident payload) h =
        Some (h\<lparr>authenticated := True, chapUsername := user\<rparr>,
          Some (pppPacket CHAPSuccess ident (welcomePrefix @ user))))"
  using ChapHandle_cases [of md5 db data h h' r] ChapHandle_accepts [of md5 db user h ident payload]
  by auto

text \<open>A database with one user, a stand-in digest, and the packet of that user.\<close>

definition example_users :: ProfileUserDB where
  "example_users = [[117] \<mapsto> [112, 119]]"

definition example_md5 :: "bytes \<Rightarrow> bytes" where
  "example_md5 x = [of_nat (length x)]"

theorem chap_authenticates_exactly_holders_witness:
  "\<exists>h' r. ChapHandle example_md5 example_users (pppPacket 2 1 [1, 19, 117])
       ((NewCHAPHandler [115])\<lparr>challenge := replicate 16 0\<rparr>) = Some (h', r) \<and>
     chapUsername h' = [117] \<and>
     chapProofIn example_md5 example_users [117] (replicate 16 0) (pppPacket 2 1 [1, 19, 117])"
proof -
  let ?h = "(NewCHAPHandler [115])\<lparr>challenge := replicate 16 0\<rparr>"
  have p: "chapProof example_md5 example_users [117] (challenge ?h) 1 [1, 19, 117]"
    by (simp add: chapProof_def example_md5_def example_users_def LookupUser_def)
  have a: "ChapHandle example_md5 example_users (pppPacket 2 1 [1, 19, 117]) ?h =
      Some (?h\<lparr>authenticated := True, chapUsername := [117]\<rparr>, Some (pppPacket 3 1 (welcomePrefix @ [117])))"
    using chap_authenticates_exactly_holders [of _ _ _ ?h _ _ "[117]" 1 "[1, 19, 117]"] p by fastforce
  have "chapProofIn example_md5 example_users [117] (replicate 16 0) (pppPacket 2 1 [1, 19, 117])"
    using chap_authenticates_exactly_holders [of example_md5 example_users _ ?h] a
    by (fastforce simp: NewCHAPHandler_def)
  with a show ?thesis by simp
qed

end
