(* ===== verification/Ipcp.thy ===== *)
theory Ipcp
  imports Ppp NetIP
begin

unbundle bit_operations_syntax

text \<open>
  The IPCP handler of \<^verbatim>\<open>internal/l2tp/ipcp.go\<close>: the peer is led to the address that the
  pool assigned to it. \<^const>\<open>None\<close> is a run-time panic (a stated length below the header,
  or an index into the nil result of \<^verbatim>\<open>To4\<close> for a configured address that is not IPv4).
\<close>

abbreviation (input) IPCPOptIPAddress :: byte where "IPCPOptIPAddress \<equiv> 3"
abbreviation (input) IPCPOptPrimaryDNS :: byte where "IPCPOptPrimaryDNS \<equiv> 129"
abbreviation (input) IPCPOptSecondaryDNS :: byte where "IPCPOptSecondaryDNS \<equiv> 131"

abbreviation (input) IPCPConfigureRequest :: byte where "IPCPConfigureRequest \<equiv> 1"
abbreviation (input) IPCPConfigureAck :: byte where "IPCPConfigureAck \<equiv> 2"
abbreviation (input) IPCPConfigureNak :: byte where "IPCPConfigureNak \<equiv> 3"
abbreviation (input) IPCPConfigureReject :: byte where "IPCPConfigureReject \<equiv> 4"

definition netIPv4 :: "byte \<Rightarrow> byte \<Rightarrow> byte \<Rightarrow> byte \<Rightarrow> ip" where
  "netIPv4 a b c d = v4InV6Prefix @ [a, b, c, d]"

lemma To4_netIPv4 [simp]: "To4 (netIPv4 a b c d) = [a, b, c, d]"
  by (simp add: netIPv4_def To4_def)

definition defaultPrimaryDNS :: ip where "defaultPrimaryDNS = netIPv4 1 1 1 1"
definition defaultSecondaryDNS :: ip where "defaultSecondaryDNS = netIPv4 1 0 0 1"
definition zeroIP :: ip where "zeroIP = netIPv4 0 0 0 0"

record IPCPHandler =
  ipcpAssigned :: ip
  ipcpGateway :: ip
  primaryDNS :: ip
  secondaryDNS :: ip
  ipcpNextID :: byte
  ipcpPeerAcked :: bool
  ipcpOursAcked :: bool
  ipcpOpened :: bool

definition NewIPCPHandler :: "ip \<Rightarrow> ip \<Rightarrow> ip \<Rightarrow> ip \<Rightarrow> IPCPHandler" where
  "NewIPCPHandler assigned gw dns1 dns2 =
     \<lparr>ipcpAssigned = assigned, ipcpGateway = gw,
      primaryDNS = (if dns1 = [] then defaultPrimaryDNS else dns1),
      secondaryDNS = (if dns2 = [] then defaultSecondaryDNS else dns2),
      ipcpNextID = 0, ipcpPeerAcked = False, ipcpOursAcked = False, ipcpOpened = False\<rparr>"

definition IpcpBuildConfigureRequest :: "IPCPHandler \<Rightarrow> IPCPHandler \<times> bytes" where
  "IpcpBuildConfigureRequest h0 =
     (let h = h0\<lparr>ipcpNextID := ipcpNextID h0 + 1\<rparr>;
          gw0 = To4 (ipcpGateway h);
          gw = (if gw0 = [] then To4 (netIPv4 0 0 0 0) else gw0);
          opts = [IPCPOptIPAddress, 6, gw ! 0, gw ! 1, gw ! 2, gw ! 3]
      in (h, [IPCPConfigureRequest, ipcpNextID h] @ PutUint16 (of_nat (4 + length opts)) @ opts))"

definition ipcpCheckOpened :: "IPCPHandler \<Rightarrow> IPCPHandler" where
  "ipcpCheckOpened h = (if ipcpOursAcked h \<and> ipcpPeerAcked h then h\<lparr>ipcpOpened := True\<rparr> else h)"

text \<open>One address option: acknowledged, or answered with the address that was configured.\<close>

definition ipcpAddressOption ::
  "byte \<Rightarrow> ip \<Rightarrow> bytes \<Rightarrow> bytes \<times> bytes \<times> bytes \<Rightarrow> (bytes \<times> bytes \<times> bytes) option" where
  "ipcpAddressOption optType configured optData st =
     (case st of (ack, nak, rej) \<Rightarrow>
      if length optData \<ge> 6 then
        (let requested = slice 2 6 optData; v4 = To4 configured in
         if IPEqual requested zeroIP \<or> \<not> IPEqual requested configured then
           (if length v4 < 4 then None
            else Some (ack, nak @ [optType, 6, v4 ! 0, v4 ! 1, v4 ! 2, v4 ! 3], rej))
         else Some (ack @ optData, nak, rej))
      else Some (ack, nak, rej @ optData))"

fun ipcpRequestLoop ::
  "IPCPHandler \<Rightarrow> bytes list \<Rightarrow> bytes \<times> bytes \<times> bytes \<Rightarrow> (bytes \<times> bytes \<times> bytes) option" where
  "ipcpRequestLoop h [] st = Some st"
| "ipcpRequestLoop h (optData # opts) (ack, nak, rej) =
     (let optType = optData ! 0;
          r = (if optType = IPCPOptIPAddress then
                 ipcpAddressOption optType (ipcpAssigned h) optData (ack, nak, rej)
               else if optType = IPCPOptPrimaryDNS then
                 ipcpAddressOption optType (primaryDNS h) optData (ack, nak, rej)
               else if optType = IPCPOptSecondaryDNS then
                 ipcpAddressOption optType (secondaryDNS h) optData (ack, nak, rej)
               else Some (ack, nak, rej @ optData))
      in case r of None \<Rightarrow> None | Some st' \<Rightarrow> ipcpRequestLoop h opts st')"

definition ipcpHandleConfigureRequest ::
  "byte \<Rightarrow> bytes \<Rightarrow> IPCPHandler \<Rightarrow> (IPCPHandler \<times> bytes option) option" where
  "ipcpHandleConfigureRequest ident options h =
     (case ipcpRequestLoop h (optionsOf options) ([], [], []) of
        None \<Rightarrow> None
      | Some (ack, nak, rej) \<Rightarrow>
          if length rej > 0 then
            (case buildResponse IPCPConfigureReject ident rej of
               None \<Rightarrow> None | Some pkt \<Rightarrow> Some (h, Some pkt))
          else if length nak > 0 then
            (case buildResponse IPCPConfigureNak ident nak of
               None \<Rightarrow> None | Some pkt \<Rightarrow> Some (h, Some pkt))
          else
            (let h' = ipcpCheckOpened (h\<lparr>ipcpPeerAcked := True\<rparr>) in
             case buildResponse IPCPConfigureAck ident ack of
               None \<Rightarrow> None | Some pkt \<Rightarrow> Some (h', Some pkt)))"

definition ipcpHandleConfigureAck :: "byte \<Rightarrow> IPCPHandler \<Rightarrow> IPCPHandler" where
  "ipcpHandleConfigureAck ident h =
     (if ident \<noteq> ipcpNextID h then h else ipcpCheckOpened (h\<lparr>ipcpOursAcked := True\<rparr>))"

text \<open>The Nak loop only logs; the request is sent again.\<close>

definition ipcpHandleConfigureNak :: "IPCPHandler \<Rightarrow> IPCPHandler \<times> bytes" where
  "ipcpHandleConfigureNak h = IpcpBuildConfigureRequest h"

definition IpcpHandle :: "bytes \<Rightarrow> IPCPHandler \<Rightarrow> (IPCPHandler \<times> bytes option) option" where
  "IpcpHandle data h =
     (case pppHeader data of
        None \<Rightarrow> Some (h, None)
      | Some (code, ident, pktLen) \<Rightarrow>
          (case go_slice 4 pktLen data of
             None \<Rightarrow> None
           | Some payload \<Rightarrow>
               if code = IPCPConfigureRequest then ipcpHandleConfigureRequest ident payload h
               else if code = IPCPConfigureAck then Some (ipcpHandleConfigureAck ident h, None)
               else if code = IPCPConfigureNak then
                 (case ipcpHandleConfigureNak h of (h', pkt) \<Rightarrow> Some (h', Some pkt))
               else Some (h, None)))"

section \<open>Address assignment\<close>

definition ipcpConfigured :: "IPCPHandler \<Rightarrow> byte \<Rightarrow> ip option" where
  "ipcpConfigured h t =
     (if t = IPCPOptIPAddress then Some (ipcpAssigned h)
      else if t = IPCPOptPrimaryDNS then Some (primaryDNS h)
      else if t = IPCPOptSecondaryDNS then Some (secondaryDNS h) else None)"

text \<open>The option asks for what is configured (and that is not the zero address).\<close>

definition ipcpGood :: "IPCPHandler \<Rightarrow> bytes \<Rightarrow> bool" where
  "ipcpGood h od \<longleftrightarrow> (\<exists>c. ipcpConfigured h (od ! 0) = Some c \<and> 6 \<le> length od \<and>
     IPEqual (slice 2 6 od) c \<and> \<not> IPEqual (slice 2 6 od) zeroIP)"

definition ipcpKnown :: "IPCPHandler \<Rightarrow> bytes \<Rightarrow> bool" where
  "ipcpKnown h od \<longleftrightarrow> ipcpConfigured h (od ! 0) \<noteq> None \<and> 6 \<le> length od"

definition ipcpNakFor :: "IPCPHandler \<Rightarrow> bytes \<Rightarrow> bytes" where
  "ipcpNakFor h od = [od ! 0, 6] @ To4 (the (ipcpConfigured h (od ! 0)))"

text \<open>The configured addresses are IPv4 addresses.\<close>

definition ipcp_wf :: "IPCPHandler \<Rightarrow> bool" where
  "ipcp_wf h \<longleftrightarrow> To4 (ipcpAssigned h) \<noteq> [] \<and> To4 (primaryDNS h) \<noteq> [] \<and> To4 (secondaryDNS h) \<noteq> []"

lemma ipcp_list4: "length (xs :: 'a list) = 4 \<Longrightarrow> [xs ! 0, xs ! 1, xs ! 2, xs ! 3] = xs"
  by (auto simp: numeral_eq_Suc length_Suc_conv)

lemma ipcpRequestLoop_eq:
  assumes "ipcp_wf h"
  shows "ipcpRequestLoop h ods (ack, nak, rej) =
    Some (ack @ concat (filter (ipcpGood h) ods),
          nak @ concat (map (ipcpNakFor h) (filter (\<lambda>od. ipcpKnown h od \<and> \<not> ipcpGood h od) ods)),
          rej @ concat (filter (\<lambda>od. \<not> ipcpKnown h od) ods))"
proof (induction ods arbitrary: ack nak rej)
  case (Cons od ods)
  have l: "length (To4 c) = 4" if "ipcpConfigured h t = Some c" for t c
    using that assms To4_cases [of c] by (auto simp: ipcpConfigured_def ipcp_wf_def split: if_splits)
  show ?case
  proof (cases "ipcpConfigured h (od ! 0)")
    case None
    then have "\<not> ipcpKnown h od" "\<not> ipcpGood h od" by (simp_all add: ipcpKnown_def ipcpGood_def)
    moreover from None have "od ! 0 \<noteq> IPCPOptIPAddress" "od ! 0 \<noteq> IPCPOptPrimaryDNS"
      "od ! 0 \<noteq> IPCPOptSecondaryDNS"
      by (auto simp: ipcpConfigured_def split: if_splits)
    ultimately show ?thesis by (simp add: Cons.IH Let_def)
  next
    case (Some c)
    have e: "ipcpRequestLoop h (od # ods) (ack, nak, rej) =
        (case ipcpAddressOption (od ! 0) c od (ack, nak, rej) of None \<Rightarrow> None
         | Some st \<Rightarrow> ipcpRequestLoop h ods st)"
      using Some by (auto simp: ipcpConfigured_def Let_def split: if_splits)
    have n: "ipcpNakFor h od = [od ! 0, 6, To4 c ! 0, To4 c ! 1, To4 c ! 2, To4 c ! 3]"
      using ipcp_list4 [OF l [OF Some]] Some by (simp add: ipcpNakFor_def)
    have k: "ipcpKnown h od \<longleftrightarrow> 6 \<le> length od"
      "ipcpGood h od \<longleftrightarrow> 6 \<le> length od \<and> IPEqual (slice 2 6 od) c \<and> \<not> IPEqual (slice 2 6 od) zeroIP"
      using Some by (auto simp: ipcpKnown_def ipcpGood_def)
    show ?thesis
      unfolding e using l [OF Some]
      by (auto simp: ipcpAddressOption_def Cons.IH n k Let_def)
  qed
qed simp

lemma ipcpNakFor_length: "ipcp_wf h \<Longrightarrow> ipcpKnown h od \<Longrightarrow> length (ipcpNakFor h od) = 6"
  using To4_cases
  by (auto simp: ipcpNakFor_def ipcpKnown_def ipcp_wf_def ipcpConfigured_def split: if_splits)

lemma sum_filter_length: "sum_list (map length (filter P ods)) \<le> sum_list (map length ods)"
  by (induction ods) auto

lemma nak_sum:
  "ipcp_wf h \<Longrightarrow> sum_list (map length (map (ipcpNakFor h) (filter (\<lambda>od. ipcpKnown h od \<and> \<not> ipcpGood h od) ods)))
     \<le> sum_list (map length ods)"
  by (induction ods) (auto simp: ipcpNakFor_length, auto simp: ipcpKnown_def)

lemma ipcp_request_answer:
  assumes "ipcp_wf h" and "length options < 65532"
  defines "ods \<equiv> optionsOf options"
  shows "ipcpHandleConfigureRequest ident options h =
    (if \<forall>od\<in>set ods. ipcpGood h od then
       Some (ipcpCheckOpened (h\<lparr>ipcpPeerAcked := True\<rparr>), Some (pppPacket IPCPConfigureAck ident (concat ods)))
     else if \<forall>od\<in>set ods. ipcpKnown h od then
       Some (h, Some (pppPacket IPCPConfigureNak ident
         (concat (map (ipcpNakFor h) (filter (\<lambda>od. \<not> ipcpGood h od) ods)))))
     else Some (h, Some (pppPacket IPCPConfigureReject ident (concat (filter (\<lambda>od. \<not> ipcpKnown h od) ods)))))"
proof -
  let ?nak = "concat (map (ipcpNakFor h) (filter (\<lambda>od. ipcpKnown h od \<and> \<not> ipcpGood h od) ods))"
  let ?rej = "concat (filter (\<lambda>od. \<not> ipcpKnown h od) ods)"
  let ?ack = "concat (filter (ipcpGood h) ods)"
  have l: "sum_list (map length ods) < 65532" using optionsOf_sum [of options] assms(2) by (simp add: ods_def)
  have len: "length ?ack < 65532" "length ?nak < 65532" "length ?rej < 65532"
    using l sum_filter_length [of _ ods] nak_sum [OF assms(1), of ods]
    unfolding length_concat by (meson order_le_less_trans)+
  have ne: "\<forall>od\<in>set ods. od \<noteq> []" using optionsOf_length [of _ options] by (fastforce simp: ods_def)
  have gk: "ipcpGood h od \<Longrightarrow> ipcpKnown h od" for od by (auto simp: ipcpGood_def ipcpKnown_def)
  have rej0: "?rej = [] \<longleftrightarrow> (\<forall>od\<in>set ods. ipcpKnown h od)" using ne by auto
  have nak0: "?nak = [] \<longleftrightarrow> (\<forall>od\<in>set ods. ipcpKnown h od \<longrightarrow> ipcpGood h od)"
    by (auto simp: ipcpNakFor_def)
  have eq: "ipcpHandleConfigureRequest ident options h =
    (if ?rej \<noteq> [] then Some (h, Some (pppPacket IPCPConfigureReject ident ?rej))
     else if ?nak \<noteq> [] then Some (h, Some (pppPacket IPCPConfigureNak ident ?nak))
     else Some (ipcpCheckOpened (h\<lparr>ipcpPeerAcked := True\<rparr>), Some (pppPacket IPCPConfigureAck ident ?ack)))"
  proof -
    define ack nak rej where d: "ack = ?ack" "nak = ?nak" "rej = ?rej"
    have "ipcpRequestLoop h (optionsOf options) ([], [], []) = Some (ack, nak, rej)"
      using ipcpRequestLoop_eq [OF assms(1)] by (simp only: d ods_def append_Nil)
    moreover have "length ack < 65532" "length nak < 65532" "length rej < 65532"
      using len by (simp_all only: d)
    ultimately show ?thesis
      unfolding d [symmetric] by (simp add: ipcpHandleConfigureRequest_def buildResponse_pppPacket Let_def)
  qed
  show ?thesis
  proof (cases "\<forall>od\<in>set ods. ipcpKnown h od")
    case False
    then show ?thesis using eq rej0 gk by auto
  next
    case known: True
    then have f: "filter (\<lambda>od. ipcpKnown h od \<and> \<not> ipcpGood h od) ods = filter (\<lambda>od. \<not> ipcpGood h od) ods"
      by (intro filter_cong) auto
    show ?thesis
    proof (cases "\<forall>od\<in>set ods. ipcpGood h od")
      case True
      then have "filter (ipcpGood h) ods = ods" by (simp add: filter_id_conv)
      with True known eq rej0 nak0 show ?thesis by simp
    next
      case False
      with known nak0 have "?nak \<noteq> []" by blast
      moreover from False have "\<not> Ball (set ods) (ipcpGood h)" by blast
      ultimately show ?thesis using known eq rej0 f by auto
    qed
  qed
qed

text \<open>
  The peer gets the address the pool assigned and no other: an IPCP request is
  acknowledged exactly when each of its options asks for the configured value (the
  assigned address, the DNS servers), and the Ack echoes its options; otherwise every
  unknown option comes back in a Reject, or, with none, each option that asks for
  something else is answered with the configured address, and the state does not move.
\<close>

theorem ipcp_assigns_only_configured:
  assumes "ipcp_wf h" and "length options < 65532"
  shows "ipcpHandleConfigureRequest ident options h =
    (if \<forall>od\<in>set (optionsOf options). ipcpGood h od then
       Some (ipcpCheckOpened (h\<lparr>ipcpPeerAcked := True\<rparr>),
         Some (pppPacket IPCPConfigureAck ident (concat (optionsOf options))))
     else if \<forall>od\<in>set (optionsOf options). ipcpKnown h od then
       Some (h, Some (pppPacket IPCPConfigureNak ident
         (concat (map (ipcpNakFor h) (filter (\<lambda>od. \<not> ipcpGood h od) (optionsOf options))))))
     else Some (h, Some (pppPacket IPCPConfigureReject ident
         (concat (filter (\<lambda>od. \<not> ipcpKnown h od) (optionsOf options))))))"
  using assms by (rule ipcp_request_answer)

definition example_ipcp :: IPCPHandler where
  "example_ipcp = NewIPCPHandler [192, 168, 42, 10] [192, 168, 42, 1] [] []"

lemma example_ipcp_wf: "ipcp_wf example_ipcp"
  by (simp add: ipcp_wf_def example_ipcp_def NewIPCPHandler_def defaultPrimaryDNS_def
      defaultSecondaryDNS_def netIPv4_def To4_def)

theorem ipcp_assigns_only_configured_witness:
  "ipcpHandleConfigureRequest 1 [3, 6, 0, 0, 0, 0] example_ipcp =
     Some (example_ipcp, Some (pppPacket 3 1 [3, 6, 192, 168, 42, 10]))"
proof -
  have o1: "optionsOf [3, 6, 0, 0, 0, 0] = [[3, 6, 0, 0, 0, 0]]"
    using optionsOf_Cons [of "[0, 0, 0, 0]" 6 3 "[]"] by simp
  have k: "ipcpKnown example_ipcp [3, 6, 0, 0, 0, 0]" "\<not> ipcpGood example_ipcp [3, 6, 0, 0, 0, 0]"
    by (simp_all add: ipcpKnown_def ipcpGood_def ipcpConfigured_def slice_def IPEqual_def zeroIP_def
        netIPv4_def)
  have n: "ipcpNakFor example_ipcp [3, 6, 0, 0, 0, 0] = [3, 6, 192, 168, 42, 10]"
    by (simp add: ipcpNakFor_def ipcpConfigured_def example_ipcp_def NewIPCPHandler_def)
  show ?thesis
    using ipcp_assigns_only_configured [OF example_ipcp_wf, of "[3, 6, 0, 0, 0, 0]" 1] o1 k n by simp
qed

section \<open>The negotiation invariant\<close>

definition ipcp_ok :: "IPCPHandler \<Rightarrow> bool" where
  "ipcp_ok h \<longleftrightarrow> (ipcpOpened h \<longrightarrow> ipcpOursAcked h \<and> ipcpPeerAcked h)"

lemma ipcpHandleConfigureRequest_cases:
  "ipcpHandleConfigureRequest ident pl h = Some (h', r) \<Longrightarrow>
     h' = h \<or> h' = ipcpCheckOpened (h\<lparr>ipcpPeerAcked := True\<rparr>)"
  by (auto simp: ipcpHandleConfigureRequest_def Let_def split: option.splits prod.splits if_splits)

lemma IpcpHandle_cases:
  assumes "IpcpHandle data h = Some (h', r)"
  shows "h' = h \<or> h' = ipcpCheckOpened (h\<lparr>ipcpPeerAcked := True\<rparr>) \<or>
    h' = ipcpCheckOpened (h\<lparr>ipcpOursAcked := True\<rparr>) \<or> h' = h\<lparr>ipcpNextID := ipcpNextID h + 1\<rparr>"
  using assms ipcpHandleConfigureRequest_cases
  by (fastforce simp: IpcpHandle_def ipcpHandleConfigureAck_def ipcpHandleConfigureNak_def
      IpcpBuildConfigureRequest_def Let_def split: option.splits if_splits prod.splits)

lemma IpcpHandle_ok: "IpcpHandle data h = Some (h', r) \<Longrightarrow> ipcp_ok h \<Longrightarrow> ipcp_ok h'"
  by (drule IpcpHandle_cases) (auto simp: ipcp_ok_def ipcpCheckOpened_def split: if_splits)

lemma IpcpHandle_addresses:
  "IpcpHandle data h = Some (h', r) \<Longrightarrow> ipcpAssigned h' = ipcpAssigned h \<and> ipcpGateway h' = ipcpGateway h \<and>
     primaryDNS h' = primaryDNS h \<and> secondaryDNS h' = secondaryDNS h"
  by (drule IpcpHandle_cases) (auto simp: ipcpCheckOpened_def)

lemma IpcpHandle_panics_iff:
  assumes "ipcp_wf h" and "length data < 65532"
  shows "IpcpHandle data h = None \<longleftrightarrow> 4 \<le> length data \<and> unat (Uint16 (slice 2 4 data)) < 4"
proof (cases "pppHeader data")
  case None
  then have "\<not> (4 \<le> length data \<and> unat (Uint16 (slice 2 4 data)) < 4)"
    by (auto simp: pppHeader_def Let_def split: if_splits)
  with None show ?thesis by (simp add: IpcpHandle_def)
next
  case (Some x)
  obtain code ident n where x: "x = (code, ident, n)" by (cases x)
  with Some have n: "4 \<le> length data" "n = unat (Uint16 (slice 2 4 data))" "n \<le> length data"
    by (auto simp: pppHeader_def Let_def split: if_splits)
  have "ipcpHandleConfigureRequest ident (slice 4 n data) h \<noteq> None"
    using ipcp_request_answer [OF assms(1), of "slice 4 n data" ident] assms(2) by simp
  with Some x n show ?thesis
    by (auto simp: IpcpHandle_def go_slice_def ipcpHandleConfigureNak_def IpcpBuildConfigureRequest_def Let_def)
qed

end
