(* ===== verification/L2tpPacket.thy ===== *)
theory L2tpPacket
  imports Prelude
begin

unbundle bit_operations_syntax

text \<open>
  The L2TPv2 codec of \<^verbatim>\<open>internal/l2tp/packet.go\<close>: message headers, attribute-value
  pairs, their builders and getters. A Go string that goes on the wire is its bytes.
\<close>

section \<open>Constants\<close>

abbreviation (input) flagType :: u16 where "flagType \<equiv> 0x8000"
abbreviation (input) flagLength :: u16 where "flagLength \<equiv> 0x4000"
abbreviation (input) flagSequence :: u16 where "flagSequence \<equiv> 0x0800"
abbreviation (input) flagOffset :: u16 where "flagOffset \<equiv> 0x0200"
abbreviation (input) flagPriority :: u16 where "flagPriority \<equiv> 0x0100"
abbreviation (input) versionMask :: u16 where "versionMask \<equiv> 0x000F"
abbreviation (input) version2 :: u16 where "version2 \<equiv> 0x0002"

abbreviation (input) MsgSCCRQ :: u16 where "MsgSCCRQ \<equiv> 1"
abbreviation (input) MsgSCCRP :: u16 where "MsgSCCRP \<equiv> 2"
abbreviation (input) MsgSCCCN :: u16 where "MsgSCCCN \<equiv> 3"
abbreviation (input) MsgStopCCN :: u16 where "MsgStopCCN \<equiv> 4"
abbreviation (input) MsgHello :: u16 where "MsgHello \<equiv> 6"
abbreviation (input) MsgICRQ :: u16 where "MsgICRQ \<equiv> 10"
abbreviation (input) MsgICRP :: u16 where "MsgICRP \<equiv> 11"
abbreviation (input) MsgICCN :: u16 where "MsgICCN \<equiv> 12"
abbreviation (input) MsgCDN :: u16 where "MsgCDN \<equiv> 14"

abbreviation (input) AVPMessageType :: u16 where "AVPMessageType \<equiv> 0"
abbreviation (input) AVPResultCode :: u16 where "AVPResultCode \<equiv> 1"
abbreviation (input) AVPProtocolVersion :: u16 where "AVPProtocolVersion \<equiv> 2"
abbreviation (input) AVPFramingCap :: u16 where "AVPFramingCap \<equiv> 3"
abbreviation (input) AVPBearerCap :: u16 where "AVPBearerCap \<equiv> 4"
abbreviation (input) AVPFirmwareRevision :: u16 where "AVPFirmwareRevision \<equiv> 6"
abbreviation (input) AVPHostName :: u16 where "AVPHostName \<equiv> 7"
abbreviation (input) AVPVendorName :: u16 where "AVPVendorName \<equiv> 8"
abbreviation (input) AVPAssignedTunnelID :: u16 where "AVPAssignedTunnelID \<equiv> 9"
abbreviation (input) AVPReceiveWindowSize :: u16 where "AVPReceiveWindowSize \<equiv> 10"
abbreviation (input) AVPChallenge :: u16 where "AVPChallenge \<equiv> 11"
abbreviation (input) AVPChallengeResponse :: u16 where "AVPChallengeResponse \<equiv> 13"
abbreviation (input) AVPAssignedSessionID :: u16 where "AVPAssignedSessionID \<equiv> 14"
abbreviation (input) AVPCallSerialNumber :: u16 where "AVPCallSerialNumber \<equiv> 15"
abbreviation (input) AVPFramingType :: u16 where "AVPFramingType \<equiv> 19"
abbreviation (input) AVPTxConnectSpeed :: u16 where "AVPTxConnectSpeed \<equiv> 24"

datatype l2tp_error =
    L2tpTooShort nat | L2tpVersion u16 | MissingLSBits | TruncatedLength | LengthExceeds nat nat
  | TruncatedIDs | TruncatedSeq | TruncatedOffset | HeaderOverflows nat nat
  | AVPTooSmall nat | AVPExceeds nat nat

section \<open>The message header\<close>

record L2TPHeader =
  IsControl :: bool
  HasLength :: bool
  HasSequence :: bool
  HasOffset :: bool
  Priority :: bool
  HdrLength :: u16
  TunnelID :: u16
  SessionID :: u16
  HdrNs :: u16
  HdrNr :: u16

definition minControlHeaderLen :: nat where "minControlHeaderLen = 12"
definition minDataHeaderLen :: nat where "minDataHeaderLen = 6"

text \<open>The optional fields, in order: each stage yields its values and the next offset.\<close>

definition parseLengthField :: "bool \<Rightarrow> bytes \<Rightarrow> l2tp_error + u16 \<times> nat" where
  "parseLengthField present data =
     (if \<not> present then Inr (0, 2)
      else if length data < 4 then Inl TruncatedLength
      else
        (let len = Uint16 (slice 2 4 data) in
         if unat len > length data then Inl (LengthExceeds (unat len) (length data))
         else Inr (len, 4)))"

definition parseSeqFields :: "bool \<Rightarrow> nat \<Rightarrow> bytes \<Rightarrow> l2tp_error + u16 \<times> u16 \<times> nat" where
  "parseSeqFields present off data =
     (if \<not> present then Inr (0, 0, off)
      else if length data < off + 4 then Inl TruncatedSeq
      else Inr (Uint16 (slice off (off + 2) data), Uint16 (slice (off + 2) (off + 4) data), off + 4))"

definition parseOffsetField :: "bool \<Rightarrow> nat \<Rightarrow> bytes \<Rightarrow> l2tp_error + nat" where
  "parseOffsetField present off data =
     (if \<not> present then Inr off
      else if length data < off + 2 then Inl TruncatedOffset
      else Inr (off + 2 + unat (Uint16 (slice off (off + 2) data))))"

definition ParseL2TPHeader :: "bytes \<Rightarrow> l2tp_error + L2TPHeader \<times> bytes" where
  "ParseL2TPHeader data =
     (if length data < minDataHeaderLen then Inl (L2tpTooShort (length data))
      else
      (let flags = Uint16 (slice 0 2 data); ver = flags AND versionMask in
       if ver \<noteq> version2 then Inl (L2tpVersion ver)
       else
       (let isControl = (flags AND flagType \<noteq> 0);
            hasLength = (flags AND flagLength \<noteq> 0);
            hasSequence = (flags AND flagSequence \<noteq> 0);
            hasOffset = (flags AND flagOffset \<noteq> 0)
        in
        if isControl \<and> (\<not> hasLength \<or> \<not> hasSequence) then Inl MissingLSBits
        else
        (case parseLengthField hasLength data of
           Inl err \<Rightarrow> Inl err
         | Inr (len, off1) \<Rightarrow>
             if length data < off1 + 4 then Inl TruncatedIDs
             else
             (case parseSeqFields hasSequence (off1 + 4) data of
                Inl err \<Rightarrow> Inl err
              | Inr (ns, nr, off2) \<Rightarrow>
                  (case parseOffsetField hasOffset off2 data of
                     Inl err \<Rightarrow> Inl err
                   | Inr off3 \<Rightarrow>
                       (let end0 = (if hasLength then unat len else length data) in
                        if off3 > end0 then Inl (HeaderOverflows off3 end0)
                        else Inr (\<lparr>IsControl = isControl, HasLength = hasLength,
                                   HasSequence = hasSequence, HasOffset = hasOffset,
                                   Priority = (flags AND flagPriority \<noteq> 0), HdrLength = len,
                                   TunnelID = Uint16 (slice off1 (off1 + 2) data),
                                   SessionID = Uint16 (slice (off1 + 2) (off1 + 4) data),
                                   HdrNs = ns, HdrNr = nr\<rparr>,
                                  slice off3 end0 data))))))))"

definition headerFlags :: "L2TPHeader \<Rightarrow> u16" where
  "headerFlags h =
     version2 OR (if IsControl h then flagType OR flagLength OR flagSequence else 0)
       OR (if HasLength h then flagLength else 0)
       OR (if HasSequence h then flagSequence else 0)
       OR (if HasOffset h then flagOffset else 0)
       OR (if Priority h then flagPriority else 0)"

text \<open>The fields are written one after the other into a buffer of exactly their size; the
  offset field is never written, even when its flag is set.\<close>

definition SerializeL2TPHeader :: "L2TPHeader \<Rightarrow> bytes" where
  "SerializeL2TPHeader h =
     (let flags = headerFlags h in
      PutUint16 flags @
      (if flags AND flagLength \<noteq> 0 then PutUint16 (HdrLength h) else []) @
      PutUint16 (TunnelID h) @ PutUint16 (SessionID h) @
      (if flags AND flagSequence \<noteq> 0 then PutUint16 (HdrNs h) @ PutUint16 (HdrNr h) else []))"

definition BuildControlHeader :: "u16 \<Rightarrow> u16 \<Rightarrow> u16 \<Rightarrow> u16 \<Rightarrow> nat \<Rightarrow> bytes" where
  "BuildControlHeader tunnelID sessionID ns nr payloadLen =
     SerializeL2TPHeader
       \<lparr>IsControl = True, HasLength = True, HasSequence = True, HasOffset = False, Priority = False,
        HdrLength = of_nat (minControlHeaderLen + payloadLen), TunnelID = tunnelID,
        SessionID = sessionID, HdrNs = ns, HdrNr = nr\<rparr>"

definition BuildDataHeader :: "u16 \<Rightarrow> u16 \<Rightarrow> bytes" where
  "BuildDataHeader tunnelID sessionID =
     SerializeL2TPHeader
       \<lparr>IsControl = False, HasLength = False, HasSequence = False, HasOffset = False,
        Priority = False, HdrLength = 0, TunnelID = tunnelID, SessionID = sessionID,
        HdrNs = 0, HdrNr = 0\<rparr>"

definition BuildZLB :: "u16 \<Rightarrow> u16 \<Rightarrow> u16 \<Rightarrow> bytes" where
  "BuildZLB tunnelID ns nr = BuildControlHeader tunnelID 0 ns nr 0"

section \<open>Attribute-value pairs\<close>

record AVP =
  Mandatory :: bool
  Hidden :: bool
  VendorID :: u16
  AttrType :: u16
  AvpValue :: bytes

definition avpHeaderLen :: nat where "avpHeaderLen = 6"

abbreviation (input) avpFlagMandatory :: u16 where "avpFlagMandatory \<equiv> 0x8000"
abbreviation (input) avpFlagHidden :: u16 where "avpFlagHidden \<equiv> 0x4000"
abbreviation (input) avpLengthMask :: u16 where "avpLengthMask \<equiv> 0x03FF"

function ParseAVPs :: "bytes \<Rightarrow> l2tp_error + AVP list" where
  "ParseAVPs data =
     (if length data < avpHeaderLen then Inr []
      else
      (let flagsLen = Uint16 (slice 0 2 data);
           avpLen = unat (flagsLen AND avpLengthMask)
       in
       if avpLen < avpHeaderLen then Inl (AVPTooSmall avpLen)
       else if avpLen > length data then Inl (AVPExceeds avpLen (length data))
       else
         (let avp = \<lparr>Mandatory = (flagsLen AND avpFlagMandatory \<noteq> 0),
                     Hidden = (flagsLen AND avpFlagHidden \<noteq> 0),
                     VendorID = Uint16 (slice 2 4 data), AttrType = Uint16 (slice 4 6 data),
                     AvpValue = slice avpHeaderLen avpLen data\<rparr>
          in case ParseAVPs (drop avpLen data) of
               Inl err \<Rightarrow> Inl err
             | Inr rest \<Rightarrow> Inr (avp # rest))))"
  by pat_completeness auto
termination
  by (relation "measure length") (auto simp: avpHeaderLen_def)

declare ParseAVPs.simps [simp del]

definition SerializeAVP :: "AVP \<Rightarrow> bytes" where
  "SerializeAVP avp =
     (let totalLen = avpHeaderLen + length (AvpValue avp);
          flagsLen = (of_nat totalLen AND avpLengthMask)
            OR (if Mandatory avp then avpFlagMandatory else 0)
            OR (if Hidden avp then avpFlagHidden else 0)
      in PutUint16 flagsLen @ PutUint16 (VendorID avp) @ PutUint16 (AttrType avp) @ AvpValue avp)"

primrec SerializeAVPs :: "AVP list \<Rightarrow> bytes" where
  "SerializeAVPs [] = []"
| "SerializeAVPs (avp # avps) = SerializeAVP avp @ SerializeAVPs avps"

section \<open>Builders\<close>

definition mkAVP :: "bool \<Rightarrow> u16 \<Rightarrow> bytes \<Rightarrow> AVP" where
  "mkAVP m attr val =
     \<lparr>Mandatory = m, Hidden = False, VendorID = 0, AttrType = attr, AvpValue = val\<rparr>"

definition NewMessageTypeAVP :: "u16 \<Rightarrow> AVP" where
  "NewMessageTypeAVP msgType = mkAVP True AVPMessageType (PutUint16 msgType)"
definition NewAssignedTunnelIDAVP :: "u16 \<Rightarrow> AVP" where
  "NewAssignedTunnelIDAVP tunnelID = mkAVP True AVPAssignedTunnelID (PutUint16 tunnelID)"
definition NewAssignedSessionIDAVP :: "u16 \<Rightarrow> AVP" where
  "NewAssignedSessionIDAVP sessionID = mkAVP True AVPAssignedSessionID (PutUint16 sessionID)"
definition NewProtocolVersionAVP :: AVP where
  "NewProtocolVersionAVP = mkAVP True AVPProtocolVersion [1, 0]"
definition NewHostNameAVP :: "bytes \<Rightarrow> AVP" where
  "NewHostNameAVP hostname = mkAVP True AVPHostName hostname"
definition NewVendorNameAVP :: "bytes \<Rightarrow> AVP" where
  "NewVendorNameAVP vendor = mkAVP False AVPVendorName vendor"
definition NewFramingCapAVP :: AVP where
  "NewFramingCapAVP = mkAVP True AVPFramingCap (PutUint32 0x00000003)"
definition NewBearerCapAVP :: AVP where
  "NewBearerCapAVP = mkAVP True AVPBearerCap (PutUint32 0x00000003)"
definition NewReceiveWindowSizeAVP :: "u16 \<Rightarrow> AVP" where
  "NewReceiveWindowSizeAVP windowSize = mkAVP True AVPReceiveWindowSize (PutUint16 windowSize)"
definition NewFirmwareRevisionAVP :: "u16 \<Rightarrow> AVP" where
  "NewFirmwareRevisionAVP revision = mkAVP False AVPFirmwareRevision (PutUint16 revision)"
definition NewChallengeAVP :: "bytes \<Rightarrow> AVP" where
  "NewChallengeAVP challenge = mkAVP True AVPChallenge challenge"
definition NewChallengeResponseAVP :: "bytes \<Rightarrow> AVP" where
  "NewChallengeResponseAVP response = mkAVP True AVPChallengeResponse response"
definition NewResultCodeAVP :: "u16 \<Rightarrow> u16 \<Rightarrow> bytes \<Rightarrow> AVP" where
  "NewResultCodeAVP resultCode errorCode errorMsg =
     mkAVP True AVPResultCode
       (PutUint16 resultCode @
        (if errorCode \<noteq> 0 \<or> errorMsg \<noteq> [] then PutUint16 errorCode @ errorMsg else []))"
definition NewCallSerialNumberAVP :: "u32 \<Rightarrow> AVP" where
  "NewCallSerialNumberAVP serial = mkAVP True AVPCallSerialNumber (PutUint32 serial)"
definition NewFramingTypeAVP :: "bool \<Rightarrow> bool \<Rightarrow> AVP" where
  "NewFramingTypeAVP async sync =
     mkAVP True AVPFramingType
       (PutUint32 ((if async then 2 else 0) OR (if sync then 1 else 0)))"
definition NewTxConnectSpeedAVP :: "u32 \<Rightarrow> AVP" where
  "NewTxConnectSpeedAVP bps = mkAVP True AVPTxConnectSpeed (PutUint32 bps)"

section \<open>Getters\<close>

primrec GetMessageType :: "AVP list \<Rightarrow> u16" where
  "GetMessageType [] = 0"
| "GetMessageType (avp # avps) =
     (if VendorID avp = 0 \<and> AttrType avp = AVPMessageType \<and> length (AvpValue avp) \<ge> 2
      then Uint16 (AvpValue avp) else GetMessageType avps)"

primrec GetAVPUint16 :: "AVP list \<Rightarrow> u16 \<Rightarrow> u16 option" where
  "GetAVPUint16 [] attr = None"
| "GetAVPUint16 (avp # avps) attr =
     (if VendorID avp = 0 \<and> AttrType avp = attr \<and> length (AvpValue avp) \<ge> 2
      then Some (Uint16 (AvpValue avp)) else GetAVPUint16 avps attr)"

primrec GetAVPUint32 :: "AVP list \<Rightarrow> u16 \<Rightarrow> u32 option" where
  "GetAVPUint32 [] attr = None"
| "GetAVPUint32 (avp # avps) attr =
     (if VendorID avp = 0 \<and> AttrType avp = attr \<and> length (AvpValue avp) \<ge> 4
      then Some (Uint32 (AvpValue avp)) else GetAVPUint32 avps attr)"

primrec GetAVPBytes :: "AVP list \<Rightarrow> u16 \<Rightarrow> bytes option" where
  "GetAVPBytes [] attr = None"
| "GetAVPBytes (avp # avps) attr =
     (if VendorID avp = 0 \<and> AttrType avp = attr then Some (AvpValue avp) else GetAVPBytes avps attr)"

definition GetAVPString :: "AVP list \<Rightarrow> u16 \<Rightarrow> bytes option" where
  "GetAVPString avps attr =
     (case GetAVPBytes avps attr of None \<Rightarrow> None | Some v \<Rightarrow> Some v)"

section \<open>Round trips\<close>

text \<open>A header that \<open>SerializeL2TPHeader\<close> can express: no offset field, absent fields zero.\<close>

definition header_wf :: "L2TPHeader \<Rightarrow> bool" where
  "header_wf h \<longleftrightarrow> \<not> HasOffset h \<and> (IsControl h \<longrightarrow> HasLength h \<and> HasSequence h) \<and>
     (\<not> HasLength h \<longrightarrow> HdrLength h = 0) \<and>
     (\<not> HasSequence h \<longrightarrow> HdrNs h = 0 \<and> HdrNr h = 0)"

definition headerLen :: "L2TPHeader \<Rightarrow> nat" where
  "headerLen h = 6 + (if HasLength h then 2 else 0) + (if HasSequence h then 4 else 0)"

lemma headerFlags_bits:
  assumes "header_wf h"
  shows "headerFlags h AND versionMask = version2"
    "headerFlags h AND flagType \<noteq> 0 \<longleftrightarrow> IsControl h"
    "headerFlags h AND flagLength \<noteq> 0 \<longleftrightarrow> HasLength h"
    "headerFlags h AND flagSequence \<noteq> 0 \<longleftrightarrow> HasSequence h"
    "headerFlags h AND flagOffset \<noteq> 0 \<longleftrightarrow> HasOffset h"
    "headerFlags h AND flagPriority \<noteq> 0 \<longleftrightarrow> Priority h"
  using assms
  by (cases "IsControl h"; cases "HasLength h"; cases "HasSequence h"; cases "Priority h";
      simp add: headerFlags_def header_wf_def)+

lemma SerializeL2TPHeader_wf:
  assumes "header_wf h"
  shows "SerializeL2TPHeader h =
    PutUint16 (headerFlags h) @ (if HasLength h then PutUint16 (HdrLength h) else []) @
    PutUint16 (TunnelID h) @ PutUint16 (SessionID h) @
    (if HasSequence h then PutUint16 (HdrNs h) @ PutUint16 (HdrNr h) else [])"
  using headerFlags_bits(3,4) [OF assms] by (simp add: SerializeL2TPHeader_def Let_def)

lemma length_SerializeL2TPHeader: "header_wf h \<Longrightarrow> length (SerializeL2TPHeader h) = headerLen h"
  by (simp add: SerializeL2TPHeader_wf headerLen_def)

text \<open>Reading a field that was written at a known position.\<close>

lemma Uint16_slice_append:
  "length p = i \<Longrightarrow> j = i + 2 \<Longrightarrow> Uint16 (slice i j (p @ PutUint16 v @ r)) = v"
  by (simp add: slice_def)

lemma slice_append_right: "length p \<le> i \<Longrightarrow> slice i j (p @ r) = slice (i - length p) (j - length p) r"
  by (simp add: slice_def)

lemma slice_prefix: "slice 0 (length a) (a @ b) = a" "slice 0 (length a) a = a"
  by (simp_all add: slice_def)

lemma Uint16_slice_0: "Uint16 (slice 0 2 (PutUint16 v @ r)) = v"
  using Uint16_slice_append [of "[]" 0 2 v r] by simp

lemma Parse_Serialize_header:
  assumes "header_wf h" and "HasLength h \<Longrightarrow> unat (HdrLength h) = headerLen h + length payload"
    and "\<not> HasLength h \<Longrightarrow> junk = []"
  shows "ParseL2TPHeader (SerializeL2TPHeader h @ payload @ junk) = Inr (h, payload)"
proof -
  note bits = headerFlags_bits [OF assms(1)]
  have wf: "IsControl h \<longrightarrow> HasLength h \<and> HasSequence h" "\<not> HasOffset h"
    "\<not> HasLength h \<Longrightarrow> HdrLength h = 0" "\<not> HasSequence h \<Longrightarrow> HdrNs h = 0 \<and> HdrNr h = 0"
    using assms(1) by (auto simp: header_wf_def)
  have f: "headerFlags h AND versionMask = version2" "(headerFlags h AND flagType \<noteq> 0) = IsControl h"
    "(headerFlags h AND flagLength \<noteq> 0) = HasLength h"
    "(headerFlags h AND flagSequence \<noteq> 0) = HasSequence h"
    "(headerFlags h AND flagOffset \<noteq> 0) = HasOffset h"
    "(headerFlags h AND flagPriority \<noteq> 0) = Priority h"
    using bits by blast+
  show ?thesis
    using wf assms(2,3)
    by (cases "HasLength h"; cases "HasSequence h";
        simp add: ParseL2TPHeader_def Let_def SerializeL2TPHeader_wf [OF assms(1)] f Uint16_slice_0
          parseLengthField_def parseSeqFields_def parseOffsetField_def minDataHeaderLen_def
          slice_append_right slice_prefix headerLen_def)
qed

section \<open>AVP round trips\<close>

definition avp_wf :: "AVP \<Rightarrow> bool" where
  "avp_wf a \<longleftrightarrow> length (AvpValue a) \<le> 1017"

lemma avp_flags:
  fixes m hd :: bool
  assumes "n < 1024"
  defines "f \<equiv> ((of_nat n :: u16) AND avpLengthMask) OR (if m then avpFlagMandatory else 0)
            OR (if hd then avpFlagHidden else 0)"
  shows "unat (f AND avpLengthMask) = n" and "(f AND avpFlagMandatory \<noteq> 0) = m"
    and "(f AND avpFlagHidden \<noteq> 0) = hd"
proof -
  have mk: "(avpLengthMask :: u16) = mask 10" by (simp add: mask_eq_exp_minus_1)
  have u: "unat ((of_nat n :: u16) AND avpLengthMask) = n"
    unfolding mk take_bit_eq_mask [symmetric]
    using assms(1) by (simp add: unsigned_take_bit_eq unat_of_nat take_bit_nat_eq_self_iff)
  have "f AND avpLengthMask = of_nat n AND avpLengthMask"
    by (simp add: f_def bit.conj_disj_distrib2 and.assoc)
  with u show "unat (f AND avpLengthMask) = n" by simp
  have z: "((of_nat n :: u16) AND avpLengthMask) AND avpFlagMandatory = 0"
    "((of_nat n :: u16) AND avpLengthMask) AND avpFlagHidden = 0"
    by (simp_all add: and.assoc)
  show "(f AND avpFlagMandatory \<noteq> 0) = m" "(f AND avpFlagHidden \<noteq> 0) = hd"
    by (simp_all add: f_def bit.conj_disj_distrib2 z)
qed

lemma length_SerializeAVP [simp]: "length (SerializeAVP a) = 6 + length (AvpValue a)"
  by (simp add: SerializeAVP_def)

lemma Parse_SerializeAVP:
  assumes "avp_wf a"
  shows "ParseAVPs (SerializeAVP a @ data) =
    (case ParseAVPs data of Inl e \<Rightarrow> Inl e | Inr rest \<Rightarrow> Inr (a # rest))"
proof -
  let ?n = "6 + length (AvpValue a)"
  have n: "?n < 1024" using assms by (simp add: avp_wf_def)
  define f where "f = ((of_nat ?n :: u16) AND avpLengthMask) OR (if Mandatory a then avpFlagMandatory else 0)
            OR (if Hidden a then avpFlagHidden else 0)"
  note fl = avp_flags [OF n, where m = "Mandatory a" and hd = "Hidden a", folded f_def]
  have s: "SerializeAVP a @ data =
      PutUint16 f @ PutUint16 (VendorID a) @ PutUint16 (AttrType a) @ AvpValue a @ data"
    by (simp add: SerializeAVP_def f_def avpHeaderLen_def Let_def)
  have sl: "Uint16 (slice 0 2 (SerializeAVP a @ data)) = f"
    "Uint16 (slice 2 4 (SerializeAVP a @ data)) = VendorID a"
    "Uint16 (slice 4 6 (SerializeAVP a @ data)) = AttrType a"
    "slice 6 ?n (SerializeAVP a @ data) = AvpValue a"
    "drop ?n (SerializeAVP a @ data) = data"
    by (simp_all add: s Uint16_slice_0 slice_append_right slice_prefix)
  have eta: "\<lparr>Mandatory = Mandatory a, Hidden = Hidden a, VendorID = VendorID a,
      AttrType = AttrType a, AvpValue = AvpValue a\<rparr> = a" by simp
  show ?thesis
    by (subst ParseAVPs.simps) (simp add: sl fl Let_def avpHeaderLen_def split: sum.split)
qed

lemma ParseAVPs_short: "length data < 6 \<Longrightarrow> ParseAVPs data = Inr []"
  by (subst ParseAVPs.simps) (simp add: avpHeaderLen_def)

lemma Parse_SerializeAVPs:
  "\<forall>a\<in>set avps. avp_wf a \<Longrightarrow> length junk < 6 \<Longrightarrow> ParseAVPs (SerializeAVPs avps @ junk) = Inr avps"
  by (induction avps) (simp_all add: ParseAVPs_short Parse_SerializeAVP)

text \<open>
  The AVP codec is a round trip: any list of attribute-value pairs with values of at
  most 1017 bytes (the 10-bit length field) parses back to itself from its serialisation,
  and up to five stray bytes after it are ignored.
\<close>

theorem avps_roundtrip:
  assumes "\<forall>a\<in>set avps. length (AvpValue a) \<le> 1017" and "length junk < 6"
  shows "ParseAVPs (SerializeAVPs avps @ junk) = Inr avps"
  using assms by (intro Parse_SerializeAVPs) (simp_all add: avp_wf_def)

theorem avps_roundtrip_witness:
  "ParseAVPs (SerializeAVPs [NewMessageTypeAVP 6, NewHostNameAVP [115, 119]] @ [1, 2]) =
     Inr [NewMessageTypeAVP 6, NewHostNameAVP [115, 119]]"
  by (rule avps_roundtrip)
    (simp_all add: NewMessageTypeAVP_def NewHostNameAVP_def mkAVP_def PutUint16_def)

text \<open>A longer value does not survive: its length wraps in the 10-bit field.\<close>

lemma long_avp_is_corrupted:
  assumes "length (AvpValue a) = 1018"
  shows "ParseAVPs (SerializeAVP a) = Inl (AVPTooSmall 0)"
proof -
  have z: "((of_nat 1024 :: u16) AND avpLengthMask) = 0" by simp
  have "Uint16 (slice 0 2 (SerializeAVP a)) AND avpLengthMask = 0"
    using assms z
    by (simp add: SerializeAVP_def Let_def avpHeaderLen_def Uint16_slice_0 bit.conj_disj_distrib2)
  then show ?thesis
    using assms by (subst ParseAVPs.simps) (simp add: avpHeaderLen_def Let_def)
qed

section \<open>Control messages\<close>

lemma BuildControlHeader_eq:
  "BuildControlHeader tid sid ns nr n =
     PutUint16 0xC802 @ PutUint16 (of_nat (12 + n)) @ PutUint16 tid @ PutUint16 sid @
     PutUint16 ns @ PutUint16 nr"
  by (simp add: BuildControlHeader_def SerializeL2TPHeader_def headerFlags_def minControlHeaderLen_def)

lemma Parse_BuildControlHeader:
  assumes "length payload < 65524"
  shows "\<exists>h. ParseL2TPHeader (BuildControlHeader tid sid ns nr (length payload) @ payload) = Inr (h, payload) \<and>
    IsControl h \<and> TunnelID h = tid \<and> SessionID h = sid \<and> HdrNs h = ns \<and> HdrNr h = nr"
proof -
  let ?h = "\<lparr>IsControl = True, HasLength = True, HasSequence = True, HasOffset = False, Priority = False,
        HdrLength = of_nat (minControlHeaderLen + length payload), TunnelID = tid,
        SessionID = sid, HdrNs = ns, HdrNr = nr\<rparr>"
  have "unat (HdrLength ?h) = headerLen ?h + length payload"
    using assms by (simp add: headerLen_def minControlHeaderLen_def unat_of_nat del: of_nat_add)
  then have "ParseL2TPHeader (SerializeL2TPHeader ?h @ payload @ []) = Inr (?h, payload)"
    by (intro Parse_Serialize_header) (simp_all add: header_wf_def)
  then show ?thesis by (simp add: BuildControlHeader_def)
qed

lemma Parse_BuildDataHeader:
  "\<exists>h. ParseL2TPHeader (BuildDataHeader tid sid @ payload) = Inr (h, payload) \<and>
    \<not> IsControl h \<and> TunnelID h = tid \<and> SessionID h = sid"
proof -
  let ?h = "\<lparr>IsControl = False, HasLength = False, HasSequence = False, HasOffset = False,
        Priority = False, HdrLength = 0, TunnelID = tid, SessionID = sid, HdrNs = 0, HdrNr = 0\<rparr>"
  have "ParseL2TPHeader (SerializeL2TPHeader ?h @ payload @ []) = Inr (?h, payload)"
    by (intro Parse_Serialize_header) (simp_all add: header_wf_def)
  then show ?thesis by (simp add: BuildDataHeader_def)
qed

text \<open>
  A control message arrives as it was built: from the header and AVPs that the server
  writes for a message type, the parser recovers the tunnel, session and sequence numbers,
  the AVPs and the message type; a data message is never mistaken for control and hands on
  its PPP frame unchanged; what follows the stated length is not read.
\<close>

theorem control_message_roundtrip:
  assumes "\<forall>a\<in>set avps. length (AvpValue a) \<le> 1017"
    and "body = SerializeAVPs (NewMessageTypeAVP m # avps)" and "length body < 65524"
  shows "(\<exists>h. ParseL2TPHeader (BuildControlHeader tid sid ns nr (length body) @ body) = Inr (h, body) \<and>
      IsControl h \<and> TunnelID h = tid \<and> SessionID h = sid \<and> HdrNs h = ns \<and> HdrNr h = nr) \<and>
    ParseAVPs body = Inr (NewMessageTypeAVP m # avps) \<and>
    GetMessageType (NewMessageTypeAVP m # avps) = m \<and>
    (\<exists>h. ParseL2TPHeader (BuildDataHeader tid sid @ frame) = Inr (h, frame) \<and>
      \<not> IsControl h \<and> TunnelID h = tid \<and> SessionID h = sid)"
proof -
  have "ParseAVPs body = Inr (NewMessageTypeAVP m # avps)"
    using assms(1,2) Parse_SerializeAVPs [of "NewMessageTypeAVP m # avps" "[]"]
    by (simp add: avp_wf_def) (simp add: NewMessageTypeAVP_def mkAVP_def)
  moreover have "GetMessageType (NewMessageTypeAVP m # avps) = m"
    by (simp add: NewMessageTypeAVP_def mkAVP_def)
  ultimately show ?thesis
    using Parse_BuildControlHeader [OF assms(3)] Parse_BuildDataHeader by blast
qed

theorem control_message_roundtrip_witness:
  "\<exists>h. ParseL2TPHeader (BuildControlHeader 7 0 1 2 8 @ SerializeAVPs [NewMessageTypeAVP 6]) =
     Inr (h, SerializeAVPs [NewMessageTypeAVP 6]) \<and> HdrNs h = 1"
  using control_message_roundtrip [of "[]" "SerializeAVPs [NewMessageTypeAVP 6]" 6 7 0 1 2 "[]"]
  by (auto simp: NewMessageTypeAVP_def mkAVP_def)

section \<open>Bounds\<close>

lemma ParseAVPs_bound:
  "ParseAVPs data = Inr avps \<Longrightarrow> (\<Sum>a\<leftarrow>avps. 6 + length (AvpValue a)) \<le> length data"
proof (induction data arbitrary: avps rule: ParseAVPs.induct)
  case (1 data)
  let ?n = "unat (Uint16 (slice 0 2 data) AND avpLengthMask)"
  show ?case
  proof (cases "length data < 6 \<or> ?n < 6 \<or> ?n > length data")
    case True
    with 1(2) show ?thesis
      by (subst (asm) ParseAVPs.simps) (auto simp: avpHeaderLen_def Let_def split: if_splits)
  next
    case False
    with 1(2) obtain a rest where r: "ParseAVPs (drop ?n data) = Inr rest" "avps = a # rest"
      "AvpValue a = slice 6 ?n data"
      by (subst (asm) ParseAVPs.simps) (auto simp: avpHeaderLen_def Let_def split: sum.splits)
    with 1(1) [OF _ refl refl _ _ refl r(1)] False show ?thesis
      by (auto simp: avpHeaderLen_def min_def)
  qed
qed

lemma ParseL2TPHeader_bound:
  assumes "ParseL2TPHeader data = Inr (h, payload)"
  shows "\<exists>off. 6 \<le> off \<and> payload = slice off (if HasLength h then unat (HdrLength h) else length data) data \<and>
    off \<le> (if HasLength h then unat (HdrLength h) else length data) \<and>
    (if HasLength h then unat (HdrLength h) else length data) \<le> length data"
proof -
  obtain len off1 ns nr off2 off3 where
    l: "parseLengthField (HasLength h) data = Inr (len, off1)"
    and q: "parseSeqFields (HasSequence h) (off1 + 4) data = Inr (ns, nr, off2)"
    and f: "parseOffsetField (HasOffset h) off2 data = Inr off3"
    and e: "off3 \<le> (if HasLength h then unat (HdrLength h) else length data)" "HdrLength h = len"
    "payload = slice off3 (if HasLength h then unat (HdrLength h) else length data) data"
    using assms by (auto simp: ParseL2TPHeader_def Let_def split: if_splits sum.splits)
  from l have "2 \<le> off1" "HasLength h \<Longrightarrow> unat len \<le> length data"
    by (auto simp: parseLengthField_def Let_def split: if_splits)
  moreover from q have "off1 + 4 \<le> off2" by (auto simp: parseSeqFields_def split: if_splits)
  moreover from f have "off2 \<le> off3" by (auto simp: parseOffsetField_def split: if_splits)
  ultimately have "6 \<le> off3" "HasLength h \<Longrightarrow> unat (HdrLength h) \<le> length data" using e by simp_all
  with e show ?thesis by (intro exI [of _ off3]) auto
qed

text \<open>
  Parsing untrusted datagrams stays in bounds: whatever the bytes, the payload that
  the header parser hands on is a contiguous part of the datagram that ends at the stated
  length (or at its end when no length is stated), and the values of the parsed AVPs
  together with their headers fit in the bytes they were parsed from.
\<close>

theorem l2tp_parsers_stay_in_bounds:
  assumes "ParseL2TPHeader data = Inr (h, payload)"
  defines "stop \<equiv> (if HasLength h then unat (HdrLength h) else length data)"
  shows "(\<exists>off\<ge>6. off \<le> stop \<and> stop \<le> length data \<and> payload = take (stop - off) (drop off data)) \<and>
    (ParseAVPs payload = Inr avps \<longrightarrow>
       (\<Sum>a\<leftarrow>avps. 6 + length (AvpValue a)) \<le> length payload \<and> length payload < length data)"
  using ParseL2TPHeader_bound [OF assms(1)] ParseAVPs_bound [of payload avps]
  by (auto simp: stop_def slice_def)

theorem l2tp_parsers_stay_in_bounds_witness:
  "\<exists>h. ParseL2TPHeader [0xC8, 2, 0, 12, 0, 1, 0, 0, 0, 0, 0, 0, 99] = Inr (h, []) \<and>
     (\<exists>off\<ge>6. off \<le> 12 \<and> [] = take (12 - off) (drop off [0xC8 :: byte, 2, 0, 12, 0, 1, 0, 0, 0, 0, 0, 0, 99]))"
proof -
  obtain h where h: "ParseL2TPHeader [0xC8, 2, 0, 12, 0, 1, 0, 0, 0, 0, 0, 0, 99] = Inr (h, [])"
    "HasLength h" "HdrLength h = 12"
    by (simp add: ParseL2TPHeader_def minDataHeaderLen_def slice_def Uint16_def parseLengthField_def
        parseSeqFields_def parseOffsetField_def)
  with l2tp_parsers_stay_in_bounds [OF h(1)] show ?thesis by auto
qed

end
