(* ===== verification/L2tpSession.thy ===== *)
theory L2tpSession
  imports Lcp Chap Ipcp L2tpPacket
begin

text \<open>
  An L2TP session (\<^verbatim>\<open>internal/l2tp/session.go\<close>): the PPP phases LCP, CHAP, IPCP and
  data. \<open>HandleData\<close> is one data message: the new session, the PPP frames to send back,
  and the packets written to the TUN device; \<^const>\<open>None\<close> is a run-time panic of one of
  the handlers. A session always has a tunnel and a server.
\<close>

datatype session_state = SessionIdle | SessionWaitConnect | SessionEstablished | SessionClosed
datatype ppp_phase = PPPPhaseLCP | PPPPhaseCHAP | PPPPhaseIPCP | PPPPhaseData

record Session =
  sessState :: session_state
  localSessionID :: u16
  remoteSessionID :: u16
  lcpHandler :: "LCPHandler option"
  chapHandler :: "CHAPHandler option"
  ipcpHandler :: "IPCPHandler option"
  pppPhase :: ppp_phase
  assignedIP :: ip
  sessUsername :: bytes

text \<open>What the handlers rely on: the digest, the users, and whether a TUN device is there;
  and the randomness of one step.\<close>

record ppp_env =
  envMd5 :: "bytes \<Rightarrow> bytes"
  envUsers :: ProfileUserDB
  envHasTun :: bool

record ppp_rnd =
  rndMagic :: u32
  rndChallenge :: bytes

definition newSession :: "u16 \<Rightarrow> u16 \<Rightarrow> Session" where
  "newSession localID remoteID =
     \<lparr>sessState = SessionWaitConnect, localSessionID = localID, remoteSessionID = remoteID,
      lcpHandler = None, chapHandler = None, ipcpHandler = None, pppPhase = PPPPhaseLCP,
      assignedIP = [], sessUsername = []\<rparr>"

definition handleICCN :: "Session \<Rightarrow> Session option" where
  "handleICCN s =
     (if sessState s \<noteq> SessionWaitConnect then None
      else Some (s\<lparr>sessState := SessionEstablished\<rparr>))"

definition InitPPP :: "bytes \<Rightarrow> u32 \<Rightarrow> ip \<Rightarrow> ip \<Rightarrow> ip \<Rightarrow> ip \<Rightarrow> Session \<Rightarrow> Session \<times> bytes" where
  "InitPPP hostname magic assigned gw dns1 dns2 s =
     (case LcpBuildConfigureRequest (NewLCPHandler magic) of
        (lcp, lcpReq) \<Rightarrow>
          (s\<lparr>lcpHandler := Some lcp, chapHandler := Some (NewCHAPHandler hostname),
             ipcpHandler := Some (NewIPCPHandler assigned gw dns1 dns2), assignedIP := assigned,
             pppPhase := PPPPhaseLCP\<rparr>,
           SerializePPPFrame PPPProtoLCP lcpReq))"

type_synonym session_result = "(Session \<times> bytes list \<times> bytes list) option"

definition handleLCP :: "ppp_rnd \<Rightarrow> bytes \<Rightarrow> Session \<Rightarrow> session_result" where
  "handleLCP rnd data s =
     (case lcpHandler s of
        None \<Rightarrow> Some (s, [], [])
      | Some h \<Rightarrow>
          (case LcpHandle (rndMagic rnd) data h of
             None \<Rightarrow> None
           | Some (h', resp) \<Rightarrow>
               (let s1 = s\<lparr>lcpHandler := Some h'\<rparr>;
                    out = (case resp of None \<Rightarrow> [] | Some r \<Rightarrow> [SerializePPPFrame PPPProtoLCP r])
                in if LcpIsOpened h' \<and> pppPhase s1 = PPPPhaseLCP then
                     (let s2 = s1\<lparr>pppPhase := PPPPhaseCHAP\<rparr> in
                      case chapHandler s2 of
                        None \<Rightarrow> Some (s2, out, [])
                      | Some c \<Rightarrow>
                          (case BuildChallenge (rndChallenge rnd) c of
                             None \<Rightarrow> None
                           | Some (c', pkt) \<Rightarrow>
                               Some (s2\<lparr>chapHandler := Some c'\<rparr>,
                                     out @ [SerializePPPFrame PPPProtoCHAP pkt], [])))
                   else Some (s1, out, []))))"

definition handleCHAP :: "ppp_env \<Rightarrow> bytes \<Rightarrow> Session \<Rightarrow> session_result" where
  "handleCHAP env data s =
     (case chapHandler s of
        None \<Rightarrow> Some (s, [], [])
      | Some c \<Rightarrow>
          if pppPhase s \<noteq> PPPPhaseCHAP then Some (s, [], [])
          else
          (case ChapHandle (envMd5 env) (envUsers env) data c of
             None \<Rightarrow> None
           | Some (c', resp) \<Rightarrow>
               (let s1 = s\<lparr>chapHandler := Some c'\<rparr>;
                    out = (case resp of None \<Rightarrow> [] | Some r \<Rightarrow> [SerializePPPFrame PPPProtoCHAP r])
                in if authenticated c' then
                     (let s2 = s1\<lparr>sessUsername := chapUsername c', pppPhase := PPPPhaseIPCP\<rparr> in
                      case ipcpHandler s2 of
                        None \<Rightarrow> Some (s2, out, [])
                      | Some i \<Rightarrow>
                          (case IpcpBuildConfigureRequest i of
                             (i', pkt) \<Rightarrow>
                               Some (s2\<lparr>ipcpHandler := Some i'\<rparr>,
                                     out @ [SerializePPPFrame PPPProtoIPCP pkt], [])))
                   else Some (s1, out, []))))"

definition handleIPCP :: "bytes \<Rightarrow> Session \<Rightarrow> session_result" where
  "handleIPCP data s =
     (case ipcpHandler s of
        None \<Rightarrow> Some (s, [], [])
      | Some i \<Rightarrow>
          if pppPhase s \<noteq> PPPPhaseIPCP then Some (s, [], [])
          else
          (case IpcpHandle data i of
             None \<Rightarrow> None
           | Some (i', resp) \<Rightarrow>
               (let s1 = s\<lparr>ipcpHandler := Some i'\<rparr>;
                    out = (case resp of None \<Rightarrow> [] | Some r \<Rightarrow> [SerializePPPFrame PPPProtoIPCP r])
                in if ipcpOpened i' \<and> pppPhase s1 = PPPPhaseIPCP
                   then Some (s1\<lparr>pppPhase := PPPPhaseData\<rparr>, out, [])
                   else Some (s1, out, []))))"

definition handleIPv4 :: "ppp_env \<Rightarrow> bytes \<Rightarrow> Session \<Rightarrow> session_result" where
  "handleIPv4 env data s =
     (if pppPhase s \<noteq> PPPPhaseData then Some (s, [], [])
      else Some (s, [], if \<not> envHasTun env \<or> length data = 0 then [] else [data]))"

definition rejectProtocol :: "u16 \<Rightarrow> bytes \<Rightarrow> Session \<Rightarrow> session_result" where
  "rejectProtocol proto payload s =
     (case lcpHandler s of
        None \<Rightarrow> Some (s, [], [])
      | Some h \<Rightarrow>
          (case BuildProtocolReject proto payload h of
             None \<Rightarrow> None
           | Some (h', rej) \<Rightarrow>
               Some (s\<lparr>lcpHandler := Some h'\<rparr>, [SerializePPPFrame PPPProtoLCP rej], [])))"

definition HandleData :: "ppp_env \<Rightarrow> ppp_rnd \<Rightarrow> bytes \<Rightarrow> Session \<Rightarrow> session_result" where
  "HandleData env rnd payload s =
     (if sessState s \<noteq> SessionEstablished then Some (s, [], [])
      else
      (case ParsePPPFrame payload of
         Inl _ \<Rightarrow> Some (s, [], [])
       | Inr frame \<Rightarrow>
           if Protocol frame = PPPProtoLCP then handleLCP rnd (FramePayload frame) s
           else if Protocol frame = PPPProtoCHAP then handleCHAP env (FramePayload frame) s
           else if Protocol frame = PPPProtoIPCP then handleIPCP (FramePayload frame) s
           else if Protocol frame = PPPProtoIPv4 then handleIPv4 env (FramePayload frame) s
           else rejectProtocol (Protocol frame) (FramePayload frame) s))"

text \<open>\<open>SendData\<close>: the datagram, when the session is established.\<close>

definition SendData :: "u16 \<Rightarrow> Session \<Rightarrow> bytes \<Rightarrow> bytes option" where
  "SendData remoteTunnelID s pppFrame =
     (if sessState s \<noteq> SessionEstablished then None
      else Some (BuildDataHeader remoteTunnelID (remoteSessionID s) @ pppFrame))"

text \<open>\<open>close\<close>: the closed session, and the address to release.\<close>

definition closeSession :: "Session \<Rightarrow> Session \<times> ip option" where
  "closeSession s =
     (if sessState s = SessionClosed then (s, None)
      else (s\<lparr>sessState := SessionClosed\<rparr>, if assignedIP s \<noteq> [] then Some (assignedIP s) else None))"

section \<open>Runs of a session\<close>

primrec sessionRun ::
  "ppp_env \<Rightarrow> (ppp_rnd \<times> bytes) list \<Rightarrow> Session \<Rightarrow> (Session \<times> bytes list) option" where
  "sessionRun env [] s = Some (s, [])"
| "sessionRun env (ev # evs) s =
     (case HandleData env (fst ev) (snd ev) s of
        None \<Rightarrow> None
      | Some (s', _, tun) \<Rightarrow>
          (case sessionRun env evs s' of
             None \<Rightarrow> None
           | Some (s'', tuns) \<Rightarrow> Some (s'', tun @ tuns)))"

text \<open>A frame of the run that proves a user's password for a challenge that was drawn.\<close>

definition provesUser :: "ppp_env \<Rightarrow> bytes set \<Rightarrow> bytes \<Rightarrow> bytes \<Rightarrow> bool" where
  "provesUser env chals user payload \<longleftrightarrow>
     (\<exists>frame chal. ParsePPPFrame payload = Inr frame \<and> Protocol frame = PPPProtoCHAP \<and>
        chal \<in> chals \<and> chapProofIn (envMd5 env) (envUsers env) user chal (FramePayload frame))"

text \<open>
  The invariant: before CHAP the handler is not authenticated; from CHAP on its challenge
  was drawn; after CHAP the user is proven; the data phase needs IPCP opened.
\<close>

definition sess_inv :: "ppp_env \<Rightarrow> bytes set \<Rightarrow> bytes set \<Rightarrow> Session \<Rightarrow> bool" where
  "sess_inv env chals frames s \<longleftrightarrow>
     (\<exists>h c i. lcpHandler s = Some h \<and> chapHandler s = Some c \<and> ipcpHandler s = Some i \<and>
        lcp_ok h \<and> ipcp_ok i \<and>
        (pppPhase s \<in> {PPPPhaseLCP, PPPPhaseCHAP} \<longrightarrow> \<not> authenticated c) \<and>
        (pppPhase s \<noteq> PPPPhaseLCP \<longrightarrow> challenge c \<in> chals) \<and>
        (pppPhase s \<in> {PPPPhaseIPCP, PPPPhaseData} \<longrightarrow>
           (\<exists>f\<in>frames. provesUser env chals (sessUsername s) f)) \<and>
        (pppPhase s = PPPPhaseData \<longrightarrow> ipcpOpened i))"

lemma provesUser_mono:
  "provesUser env chals u f \<Longrightarrow> chals \<subseteq> chals' \<Longrightarrow> provesUser env chals' u f"
  unfolding provesUser_def by blast

lemma BuildProtocolReject_ok: "BuildProtocolReject p d h = Some (h', r) \<Longrightarrow> lcp_ok h \<Longrightarrow> lcp_ok h'"
  by (auto simp: BuildProtocolReject_def Let_def lcp_ok_def LcpIsOpened_def split: option.splits)

lemma IpcpBuild_ok: "IpcpBuildConfigureRequest i = (i', pkt) \<Longrightarrow> ipcp_ok i \<Longrightarrow> ipcp_ok i'"
  by (auto simp: IpcpBuildConfigureRequest_def Let_def ipcp_ok_def)

lemma BuildChallenge_fields:
  "BuildChallenge r c = Some (c', pkt) \<Longrightarrow> challenge c' = r \<and> authenticated c' = authenticated c"
  by (auto simp: BuildChallenge_def Let_def split: if_splits)

lemma sess_inv_mono:
  "sess_inv env chals frames s \<Longrightarrow> chals \<subseteq> chals' \<Longrightarrow> frames \<subseteq> frames' \<Longrightarrow>
     sess_inv env chals' frames' s"
  unfolding sess_inv_def using provesUser_mono by blast

lemma handleLCP_inv:
  assumes "handleLCP rnd d s = Some (s', out, tun)" and "sess_inv env chals frames s"
    and "rndChallenge rnd \<in> chals"
  shows "sess_inv env chals frames s' \<and> tun = []"
proof -
  obtain h c i where s: "lcpHandler s = Some h" "chapHandler s = Some c" "ipcpHandler s = Some i"
    "lcp_ok h" using assms(2) by (auto simp: sess_inv_def)
  obtain h' r where h: "LcpHandle (rndMagic rnd) d h = Some (h', r)"
    using assms(1) s by (auto simp: handleLCP_def split: option.splits)
  have ok: "lcp_ok h'" using LcpHandle_ok [OF h s(4)] .
  show ?thesis
  proof (cases "LcpIsOpened h' \<and> pppPhase s = PPPPhaseLCP")
    case False
    then have "s' = s\<lparr>lcpHandler := Some h'\<rparr>" "tun = []"
      using assms(1) s h by (auto simp: handleLCP_def Let_def)
    with assms(2) ok s show ?thesis by (simp add: sess_inv_def)
  next
    case True
    then obtain c' pkt where c: "BuildChallenge (rndChallenge rnd) c = Some (c', pkt)"
      and s': "s' = s\<lparr>lcpHandler := Some h', pppPhase := PPPPhaseCHAP, chapHandler := Some c'\<rparr>" "tun = []"
      using assms(1) s h by (auto simp: handleLCP_def Let_def split: option.splits)
    with True assms(2,3) ok s BuildChallenge_fields [OF c] show ?thesis by (auto simp: sess_inv_def)
  qed
qed

lemma handleCHAP_inv:
  assumes "handleCHAP env d s = Some (s', out, tun)" and "sess_inv env chals frames s"
    and "ParsePPPFrame payload = Inr frame" "Protocol frame = PPPProtoCHAP" "FramePayload frame = d"
  shows "sess_inv env chals (insert payload frames) s' \<and> tun = []"
proof (cases "pppPhase s = PPPPhaseCHAP")
  case False
  then have "s' = s" "tun = []" using assms(1) by (auto simp: handleCHAP_def split: option.splits)
  with sess_inv_mono [OF assms(2)] show ?thesis by blast
next
  case True
  obtain h c i where s: "lcpHandler s = Some h" "chapHandler s = Some c" "ipcpHandler s = Some i"
    "lcp_ok h" "ipcp_ok i" "\<not> authenticated c" "challenge c \<in> chals"
    using assms(2) True by (auto simp: sess_inv_def)
  obtain c' r where h: "ChapHandle (envMd5 env) (envUsers env) d c = Some (c', r)"
    using assms(1) s True by (auto simp: handleCHAP_def split: option.splits)
  show ?thesis
  proof (cases "authenticated c'")
    case False
    then have "c' = c" using ChapHandle_cases [OF h] by (metis CHAPHandler.select_convs(4) CHAPHandler.surjective CHAPHandler.update_convs(4) CHAPHandler.update_convs(5))
    with False have "s' = s" "tun = []"
      using assms(1) s h True by (auto simp: handleCHAP_def Let_def)
    with sess_inv_mono [OF assms(2)] show ?thesis by blast
  next
    case auth: True
    with ChapHandle_cases [OF h] s(6) have p: "chapProofIn (envMd5 env) (envUsers env) (chapUsername c') (challenge c) d"
      "challenge c' = challenge c" by (auto dest: arg_cong [where f = challenge])
    obtain i' pkt where i: "IpcpBuildConfigureRequest i = (i', pkt)" by fastforce
    have s': "s' = s\<lparr>chapHandler := Some c', sessUsername := chapUsername c', pppPhase := PPPPhaseIPCP,
        ipcpHandler := Some i'\<rparr>" "tun = []"
      using assms(1) s h True auth i by (auto simp: handleCHAP_def Let_def)
    have "provesUser env chals (chapUsername c') payload"
      using p(1) s(7) assms(3-5) by (auto simp: provesUser_def)
    with s' s p(2) IpcpBuild_ok [OF i] show ?thesis by (auto simp: sess_inv_def)
  qed
qed

lemma handleIPCP_inv:
  assumes "handleIPCP d s = Some (s', out, tun)" and "sess_inv env chals frames s"
  shows "sess_inv env chals frames s' \<and> tun = []"
proof (cases "pppPhase s = PPPPhaseIPCP")
  case False
  then have "s' = s" "tun = []" using assms(1) by (auto simp: handleIPCP_def split: option.splits)
  with assms(2) show ?thesis by blast
next
  case True
  obtain h c i where s: "lcpHandler s = Some h" "chapHandler s = Some c" "ipcpHandler s = Some i" "ipcp_ok i"
    using assms(2) by (auto simp: sess_inv_def)
  obtain i' r where h: "IpcpHandle d i = Some (i', r)"
    using assms(1) s True by (auto simp: handleIPCP_def split: option.splits)
  have ok: "ipcp_ok i'" using IpcpHandle_ok [OF h s(4)] .
  have "tun = []" "s' = (if ipcpOpened i' then s\<lparr>ipcpHandler := Some i', pppPhase := PPPPhaseData\<rparr>
      else s\<lparr>ipcpHandler := Some i'\<rparr>)"
    using assms(1) s h True by (auto simp: handleIPCP_def Let_def split: if_splits)
  with assms(2) s ok True show ?thesis by (auto simp: sess_inv_def split: if_splits)
qed

lemma HandleData_inv:
  assumes "HandleData env rnd payload s = Some (s', out, tun)" and "sess_inv env chals frames s"
    and "rndChallenge rnd \<in> chals"
  shows "sess_inv env chals (insert payload frames) s' \<and>
    (tun \<noteq> [] \<longrightarrow> pppPhase s' = PPPPhaseData \<and> sessUsername s' = sessUsername s \<and>
       (\<exists>f. ParsePPPFrame payload = Inr f \<and> Protocol f = PPPProtoIPv4 \<and> tun = [FramePayload f]))"
proof -
  have mono: "sess_inv env chals frames x \<Longrightarrow> sess_inv env chals (insert payload frames) x" for x
    using sess_inv_mono by blast
  show ?thesis
  proof (cases "sessState s = SessionEstablished \<and> (\<exists>f. ParsePPPFrame payload = Inr f)")
    case False
    then have "s' = s" "tun = []" using assms(1) by (auto simp: HandleData_def split: sum.splits if_splits)
    with mono assms(2) show ?thesis by blast
  next
    case True
    then obtain f where f: "ParsePPPFrame payload = Inr f" by blast
    note hd = assms(1) [unfolded HandleData_def f sum.case]
    consider "handleLCP rnd (FramePayload f) s = Some (s', out, tun)"
      | "Protocol f = PPPProtoCHAP" "handleCHAP env (FramePayload f) s = Some (s', out, tun)"
      | "handleIPCP (FramePayload f) s = Some (s', out, tun)"
      | "Protocol f = PPPProtoIPv4" "handleIPv4 env (FramePayload f) s = Some (s', out, tun)"
      | "rejectProtocol (Protocol f) (FramePayload f) s = Some (s', out, tun)"
      using hd True by (auto split: if_splits)
    then show ?thesis
    proof cases
      case 1
      with handleLCP_inv [OF 1 assms(2,3)] mono show ?thesis by blast
    next
      case 2
      with handleCHAP_inv [OF 2(2) assms(2) f 2(1) refl] show ?thesis by blast
    next
      case 3
      with handleIPCP_inv [OF 3 assms(2)] mono show ?thesis by blast
    next
      case 4
      then show ?thesis using mono assms(2) f by (auto simp: handleIPv4_def split: if_splits)
    next
      case 5
      obtain h where h: "lcpHandler s = Some h" "lcp_ok h" using assms(2) by (auto simp: sess_inv_def)
      with 5 obtain h' r where b: "BuildProtocolReject (Protocol f) (FramePayload f) h = Some (h', r)"
        "s' = s\<lparr>lcpHandler := Some h'\<rparr>" "tun = []"
        by (auto simp: rejectProtocol_def split: option.splits)
      from assms(2) BuildProtocolReject_ok [OF b(1) h(2)] b have "sess_inv env chals frames s'"
        by (auto simp: sess_inv_def)
      with mono b(3) show ?thesis by blast
    qed
  qed
qed

lemma data_user_fixed:
  assumes "HandleData env rnd payload s = Some (s', out, tun)" and "pppPhase s = PPPPhaseData"
  shows "pppPhase s' = PPPPhaseData \<and> sessUsername s' = sessUsername s"
  using assms
  by (auto simp: HandleData_def handleLCP_def handleCHAP_def handleIPCP_def handleIPv4_def
      rejectProtocol_def Let_def split: if_splits sum.splits option.splits)

lemma HandleData_keeps:
  assumes "HandleData env rnd payload s = Some (s', out, tun)"
  shows "assignedIP s' = assignedIP s \<and> sessState s' = sessState s"
  using assms
  by (auto simp: HandleData_def handleLCP_def handleCHAP_def handleIPCP_def handleIPv4_def
      rejectProtocol_def Let_def IpcpBuildConfigureRequest_def split: if_splits sum.splits option.splits)

lemma sessionRun_data:
  assumes "sessionRun env evs s = Some (s', tuns)" and "pppPhase s = PPPPhaseData"
  shows "sessUsername s' = sessUsername s"
  using assms
proof (induction evs arbitrary: s tuns)
  case (Cons ev evs)
  then obtain s1 os tun tuns1 where d: "HandleData env (fst ev) (snd ev) s = Some (s1, os, tun)"
    and r: "sessionRun env evs s1 = Some (s', tuns1)"
    by (auto split: option.splits prod.splits)
  from data_user_fixed [OF d Cons.prems(2)] Cons.IH [OF r] show ?case by simp
qed simp

lemma sessionRun_inv:
  assumes "sessionRun env evs s = Some (s', tuns)" and "sess_inv env chals frames s"
    and "\<forall>ev\<in>set evs. rndChallenge (fst ev) \<in> chals"
  shows "sess_inv env chals (frames \<union> snd ` set evs) s' \<and>
    (\<forall>p\<in>set tuns. (\<exists>f. \<exists>ev\<in>set evs. ParsePPPFrame (snd ev) = Inr f \<and> Protocol f = PPPProtoIPv4 \<and> p = FramePayload f) \<and>
       (\<exists>fr\<in>frames \<union> snd ` set evs. provesUser env chals (sessUsername s') fr))"
  using assms
proof (induction evs arbitrary: s frames tuns)
  case Nil
  then show ?case by simp
next
  case (Cons ev evs)
  then obtain s1 os tun tuns1 where d: "HandleData env (fst ev) (snd ev) s = Some (s1, os, tun)"
    and r: "sessionRun env evs s1 = Some (s', tuns1)" and t: "tuns = tun @ tuns1"
    by (auto split: option.splits prod.splits)
  note i = HandleData_inv [OF d Cons.prems(2)]
  have i1: "sess_inv env chals (insert (snd ev) frames) s1" using i Cons.prems(3) by auto
  note ih = Cons.IH [OF r i1]
  have fr: "insert (snd ev) frames \<union> snd ` set evs = frames \<union> snd ` set (ev # evs)" by auto
  have allc: "\<forall>ev\<in>set evs. rndChallenge (fst ev) \<in> chals" using Cons.prems(3) by simp
  note ih' = ih [OF allc]
  have now: "(\<exists>f. \<exists>e\<in>set (ev # evs). ParsePPPFrame (snd e) = Inr f \<and> Protocol f = PPPProtoIPv4 \<and> p = FramePayload f) \<and>
       (\<exists>fr\<in>frames \<union> snd ` set (ev # evs). provesUser env chals (sessUsername s') fr)"
    if p: "p \<in> set tun" for p
  proof -
    from p have "tun \<noteq> []" by auto
    with i Cons.prems(3) obtain f where f: "pppPhase s1 = PPPPhaseData" "ParsePPPFrame (snd ev) = Inr f"
      "Protocol f = PPPProtoIPv4" "tun = [FramePayload f]" by auto
    from i1 f(1) have "\<exists>fr\<in>insert (snd ev) frames. provesUser env chals (sessUsername s1) fr"
      by (auto simp: sess_inv_def)
    with sessionRun_data [OF r f(1)] f p show ?thesis by auto
  qed
  have later: "(\<exists>f. \<exists>e\<in>set (ev # evs). ParsePPPFrame (snd e) = Inr f \<and> Protocol f = PPPProtoIPv4 \<and> p = FramePayload f) \<and>
       (\<exists>fr\<in>frames \<union> snd ` set (ev # evs). provesUser env chals (sessUsername s') fr)"
    if p: "p \<in> set tuns1" for p
    using ih' [THEN conjunct2, rule_format, OF p] unfolding fr by (meson list.set_intros(2))
  show ?case
    unfolding t set_append fr [symmetric] using ih' now later unfolding fr by blast
qed

lemma InitPPP_inv: "sess_inv env chals frames (fst (InitPPP hn m a g d1 d2 s))"
proof -
  obtain l p where b: "LcpBuildConfigureRequest (NewLCPHandler m) = (l, p)" by fastforce
  have "lcp_ok l" using lcp_ok_BuildConfigureRequest [OF lcp_ok_New, of m] b by simp
  with b show ?thesis
    by (auto simp: InitPPP_def sess_inv_def NewCHAPHandler_def ipcp_ok_def NewIPCPHandler_def)
qed

text \<open>
  C5. No traffic without authentication: on a session that the server has initialised,
  whatever PPP frames a peer sends in whatever order, every packet that reaches the TUN
  device is the payload of one of its IPv4 frames, and among its frames is a CHAP response
  with the digest of the password of the recorded user for a challenge the server drew.
\<close>

theorem data_requires_authentication:
  assumes "sessionRun env evs (fst (InitPPP hostname magic addr gw dns1 dns2 s)) = Some (s', tuns)"
    and "p \<in> set tuns"
  shows "(\<exists>f. \<exists>ev\<in>set evs. ParsePPPFrame (snd ev) = Inr f \<and> Protocol f = PPPProtoIPv4 \<and> p = FramePayload f) \<and>
    (\<exists>fr\<in>snd ` set evs. provesUser env ((rndChallenge \<circ> fst) ` set evs) (sessUsername s') fr)"
  using sessionRun_inv [OF assms(1), of "(rndChallenge \<circ> fst) ` set evs" "{}"] InitPPP_inv assms(2)
  by auto

section \<open>The handshake completes\<close>

lemma LcpHandle_ack:
  "LcpHandle rnd (pppPacket LCPConfigureAck (lcpNextID h) []) h =
     Some (lcpCheckOpened (h\<lparr>lcpOursAcked := True\<rparr>), None)"
  using pppHeader_pppPacket [of "[]" LCPConfigureAck "lcpNextID h"]
  by (simp add: LcpHandle_def lcpHandleConfigureAck_def)

lemma LcpHandle_request:
  assumes "length options \<le> 30000" and "\<forall>od\<in>set (optionsOf options). lcpAcceptable od"
  shows "\<exists>h' resp. LcpHandle rnd (pppPacket LCPConfigureRequest ident options) h = Some (h', Some resp) \<and>
    lcpPeerAcked h' \<and> lcpOursAcked h' = lcpOursAcked h \<and> lcpNextID h' = lcpNextID h \<and>
    (LcpIsOpened h' \<longleftrightarrow> lcpOursAcked h \<or> LcpIsOpened h)"
proof -
  obtain h' resp where r: "lcpHandleConfigureRequest ident options h = Some (h', Some resp)"
    "lcpPeerAcked h'" "LcpIsOpened h' = (lcpOursAcked h \<or> LcpIsOpened h)" "lcpOursAcked h' = lcpOursAcked h"
    using lcp_request_answer [OF assms(1), of ident h] assms(2) by auto
  obtain h1 a n j where f: "fold lcpRequestOption (optionsOf options) (h, [], [], []) = (h1, a, n, j)"
    by (metis prod_cases4)
  have "lcpNextID h' = lcpNextID h"
    using r(1) fold_lcpRequestOption_fields [OF f]
    by (auto simp: lcpHandleConfigureRequest_def f respond_Some lcpCheckOpened_def Let_def split: if_splits)
  with r pppHeader_pppPacket [of options LCPConfigureRequest ident] assms(1) show ?thesis
    by (auto simp: LcpHandle_def)
qed

lemma ParseFrame_known:
  "ParsePPPFrame (SerializePPPFrame PPPProtoLCP p) = Inr \<lparr>Protocol = PPPProtoLCP, FramePayload = p\<rparr>"
  "ParsePPPFrame (SerializePPPFrame PPPProtoCHAP p) = Inr \<lparr>Protocol = PPPProtoCHAP, FramePayload = p\<rparr>"
  "ParsePPPFrame (SerializePPPFrame PPPProtoIPCP p) = Inr \<lparr>Protocol = PPPProtoIPCP, FramePayload = p\<rparr>"
  "ParsePPPFrame (SerializePPPFrame PPPProtoIPv4 p) = Inr \<lparr>Protocol = PPPProtoIPv4, FramePayload = p\<rparr>"
  by (rule Parse_SerializePPPFrame; simp)+

lemma sessionRun_Cons:
  "HandleData env r d s = Some (s', os, tun) \<Longrightarrow> sessionRun env evs s' = Some (s'', tuns) \<Longrightarrow>
     sessionRun env ((r, d) # evs) s = Some (s'', tun @ tuns)"
  by simp

text \<open>Each step of the handshake, on a session in the phase it belongs to.\<close>

lemma step_lcp_request:
  assumes "sessState s = SessionEstablished" "lcpHandler s = Some h" "\<not> lcpOursAcked h" "\<not> LcpIsOpened h"
    and "length options \<le> 30000" "\<forall>od\<in>set (optionsOf options). lcpAcceptable od"
  shows "\<exists>h' out. HandleData env rnd (SerializePPPFrame PPPProtoLCP (pppPacket LCPConfigureRequest ident options)) s =
      Some (s\<lparr>lcpHandler := Some h'\<rparr>, out, []) \<and> lcpPeerAcked h' \<and> lcpNextID h' = lcpNextID h \<and>
      \<not> LcpIsOpened h'"
proof -
  obtain h' resp where "LcpHandle (rndMagic rnd) (pppPacket LCPConfigureRequest ident options) h = Some (h', Some resp)"
    "lcpPeerAcked h'" "lcpNextID h' = lcpNextID h" "\<not> LcpIsOpened h'"
    using LcpHandle_request [OF assms(5,6), of "rndMagic rnd" ident h] assms(3,4) by auto
  with assms(1,2) show ?thesis by (simp add: HandleData_def ParseFrame_known handleLCP_def Let_def) blast
qed

lemma step_lcp_ack:
  assumes "sessState s = SessionEstablished" "lcpHandler s = Some h" "lcpPeerAcked h" "lcpNextID h = ident"
    and "pppPhase s = PPPPhaseLCP" "chapHandler s = Some c"
    and "length (rndChallenge rnd) + length (serverName c) < 65000"
  shows "\<exists>h' c' out. HandleData env rnd (SerializePPPFrame PPPProtoLCP (pppPacket LCPConfigureAck ident [])) s =
      Some (s\<lparr>lcpHandler := Some h', pppPhase := PPPPhaseCHAP, chapHandler := Some c'\<rparr>, out, []) \<and>
      challenge c' = rndChallenge rnd"
proof -
  have "unat (of_nat (4 + 1 + length (rndChallenge rnd) + length (serverName c)) :: u16) =
      4 + 1 + length (rndChallenge rnd) + length (serverName c)"
    using assms(7) by (intro u16_of_nat_unat) simp
  then obtain c' pkt where "BuildChallenge (rndChallenge rnd) c = Some (c', pkt)"
    by (simp add: BuildChallenge_def Let_def del: of_nat_add)
  with assms BuildChallenge_fields [of "rndChallenge rnd" c c' pkt] show ?thesis
    using LcpHandle_ack [of "rndMagic rnd" h]
    by (simp add: HandleData_def ParseFrame_known handleLCP_def Let_def lcpCheckOpened_def LcpIsOpened_def)
      blast
qed

lemma step_chap:
  assumes "sessState s = SessionEstablished" "pppPhase s = PPPPhaseCHAP" "chapHandler s = Some c"
    and "ipcpHandler s = Some i" "chapProof (envMd5 env) (envUsers env) user (challenge c) ident resp"
    and "length resp < 65000"
  shows "\<exists>c' out. HandleData env rnd (SerializePPPFrame PPPProtoCHAP (pppPacket CHAPResponse ident resp)) s =
      Some (s\<lparr>chapHandler := Some c', sessUsername := user, pppPhase := PPPPhaseIPCP,
        ipcpHandler := Some (i\<lparr>ipcpNextID := ipcpNextID i + 1\<rparr>)\<rparr>, out, [])"
  using assms ChapHandle_accepts [OF assms(5,6)]
  by (simp add: HandleData_def ParseFrame_known handleCHAP_def Let_def IpcpBuildConfigureRequest_def) blast

lemma step_ipcp_ack:
  assumes "sessState s = SessionEstablished" "pppPhase s = PPPPhaseIPCP" "ipcpHandler s = Some i"
    and "ipcpNextID i = ident" "\<not> ipcpPeerAcked i" "\<not> ipcpOpened i"
  shows "\<exists>out. HandleData env rnd (SerializePPPFrame PPPProtoIPCP (pppPacket IPCPConfigureAck ident [])) s =
      Some (s\<lparr>ipcpHandler := Some (i\<lparr>ipcpOursAcked := True\<rparr>)\<rparr>, out, [])"
  using assms pppHeader_pppPacket [of "[]" IPCPConfigureAck ident]
  by (simp add: HandleData_def ParseFrame_known handleIPCP_def IpcpHandle_def ipcpHandleConfigureAck_def
      ipcpCheckOpened_def Let_def)

lemma step_ipcp_request:
  assumes "sessState s = SessionEstablished" "pppPhase s = PPPPhaseIPCP" "ipcpHandler s = Some i"
    and "ipcp_wf i" "ipcpOursAcked i" "length (ipcpAssigned i) = 4" "ipcpAssigned i \<noteq> [0, 0, 0, 0]"
  shows "\<exists>i' out. HandleData env rnd (SerializePPPFrame PPPProtoIPCP
        (pppPacket IPCPConfigureRequest ident ([IPCPOptIPAddress, 6] @ ipcpAssigned i))) s =
      Some (s\<lparr>ipcpHandler := Some i', pppPhase := PPPPhaseData\<rparr>, out, [])"
proof -
  let ?opts = "[IPCPOptIPAddress, 6] @ ipcpAssigned i"
  have ods: "optionsOf ?opts = [?opts]"
    using optionsOf_Cons [of "ipcpAssigned i" 6 IPCPOptIPAddress "[]"] assms(6) by simp
  have z: "\<not> IPEqual (ipcpAssigned i) zeroIP"
    using assms(6,7) by (simp add: IPEqual_def zeroIP_def netIPv4_def)
  have "ipcpGood i ?opts"
    using assms(6) z by (simp add: ipcpGood_def ipcpConfigured_def slice_def IPEqual_def)
  then have "ipcpHandleConfigureRequest ident ?opts i =
      Some (ipcpCheckOpened (i\<lparr>ipcpPeerAcked := True\<rparr>), Some (pppPacket IPCPConfigureAck ident ?opts))"
    using ipcp_request_answer [OF assms(4), of ?opts ident] ods assms(6) by simp
  with assms pppHeader_pppPacket [of ?opts IPCPConfigureRequest ident] show ?thesis
    by (simp add: HandleData_def ParseFrame_known handleIPCP_def IpcpHandle_def ipcpCheckOpened_def Let_def)
      blast
qed

lemma step_ipv4:
  assumes "sessState s = SessionEstablished" "pppPhase s = PPPPhaseData" "envHasTun env" "p \<noteq> []"
  shows "HandleData env rnd (SerializePPPFrame PPPProtoIPv4 p) s = Some (s, [], [p])"
  using assms by (simp add: HandleData_def ParseFrame_known handleIPv4_def)

lemma handshake_run:
  assumes "sessState s = SessionEstablished" and "envHasTun env" and "p \<noteq> []"
    and "length options \<le> 30000" and "\<forall>od\<in>set (optionsOf options). lcpAcceptable od"
    and "chapProof (envMd5 env) (envUsers env) user (rndChallenge r2) id3 resp" and "length resp < 65000"
    and "length (rndChallenge r2) + length hostname < 65000"
    and "length addr = 4" and "addr \<noteq> [0, 0, 0, 0]" and "dns1 = [] \<or> To4 dns1 \<noteq> []" and "dns2 = [] \<or> To4 dns2 \<noteq> []"
  shows "\<exists>s'. sessionRun env
      [(r1, SerializePPPFrame PPPProtoLCP (pppPacket LCPConfigureRequest id1 options)),
       (r2, SerializePPPFrame PPPProtoLCP (pppPacket LCPConfigureAck 1 [])),
       (r3, SerializePPPFrame PPPProtoCHAP (pppPacket CHAPResponse id3 resp)),
       (r4, SerializePPPFrame PPPProtoIPCP (pppPacket IPCPConfigureAck 1 [])),
       (r5, SerializePPPFrame PPPProtoIPCP (pppPacket IPCPConfigureRequest id5 ([IPCPOptIPAddress, 6] @ addr))),
       (r6, SerializePPPFrame PPPProtoIPv4 p)]
      (fst (InitPPP hostname magic addr gw dns1 dns2 s)) = Some (s', [p]) \<and>
    pppPhase s' = PPPPhaseData \<and> sessUsername s' = user \<and> assignedIP s' = addr"
proof -
  define s0 where "s0 = fst (InitPPP hostname magic addr gw dns1 dns2 s)"
  obtain l pk where l: "LcpBuildConfigureRequest (NewLCPHandler magic) = (l, pk)"
    "lcpNextID l = 1" "\<not> lcpOursAcked l" "\<not> LcpIsOpened l"
    by (simp add: LcpBuildConfigureRequest_def NewLCPHandler_def Let_def LcpIsOpened_def)
  let ?i = "NewIPCPHandler addr gw dns1 dns2"
  have s0: "sessState s0 = SessionEstablished" "lcpHandler s0 = Some l" "chapHandler s0 = Some (NewCHAPHandler hostname)"
    "ipcpHandler s0 = Some ?i" "pppPhase s0 = PPPPhaseLCP" "assignedIP s0 = addr"
    using assms(1) l(1) by (simp_all add: s0_def InitPPP_def)
  obtain l1 out1 where 1: "HandleData env r1 (SerializePPPFrame PPPProtoLCP (pppPacket LCPConfigureRequest id1 options)) s0 =
      Some (s0\<lparr>lcpHandler := Some l1\<rparr>, out1, [])" "lcpPeerAcked l1" "lcpNextID l1 = 1"
    using step_lcp_request [OF s0(1,2) l(3,4) assms(4,5), of env r1 id1] l(2) by auto
  obtain l2 c2 out2 where 2: "HandleData env r2 (SerializePPPFrame PPPProtoLCP (pppPacket LCPConfigureAck 1 [])) (s0\<lparr>lcpHandler := Some l1\<rparr>) =
      Some (s0\<lparr>lcpHandler := Some l2, pppPhase := PPPPhaseCHAP, chapHandler := Some c2\<rparr>, out2, [])"
    "challenge c2 = rndChallenge r2"
    using step_lcp_ack [of "s0\<lparr>lcpHandler := Some l1\<rparr>" l1 1 "NewCHAPHandler hostname" r2 env] 1 s0 assms(8)
    by (auto simp: NewCHAPHandler_def)
  let ?s2 = "s0\<lparr>lcpHandler := Some l2, pppPhase := PPPPhaseCHAP, chapHandler := Some c2\<rparr>"
  let ?i3 = "?i\<lparr>ipcpNextID := ipcpNextID ?i + 1\<rparr>"
  obtain c3 out3 where 3: "HandleData env r3 (SerializePPPFrame PPPProtoCHAP (pppPacket CHAPResponse id3 resp)) ?s2 =
      Some (?s2\<lparr>chapHandler := Some c3, sessUsername := user, pppPhase := PPPPhaseIPCP, ipcpHandler := Some ?i3\<rparr>, out3, [])"
    using step_chap [of ?s2 c2 ?i env user id3 resp r3] s0 2(2) assms(6,7) by auto
  let ?s3 = "?s2\<lparr>chapHandler := Some c3, sessUsername := user, pppPhase := PPPPhaseIPCP, ipcpHandler := Some ?i3\<rparr>"
  let ?i4 = "?i3\<lparr>ipcpOursAcked := True\<rparr>"
  obtain out4 where 4: "HandleData env r4 (SerializePPPFrame PPPProtoIPCP (pppPacket IPCPConfigureAck 1 [])) ?s3 =
      Some (?s3\<lparr>ipcpHandler := Some ?i4\<rparr>, out4, [])"
    using step_ipcp_ack [of ?s3 ?i3 1 env r4] s0 by (auto simp: NewIPCPHandler_def)
  let ?s4 = "?s3\<lparr>ipcpHandler := Some ?i4\<rparr>"
  have wf: "ipcp_wf ?i4"
    using assms(9,11,12)
    by (auto simp: ipcp_wf_def NewIPCPHandler_def defaultPrimaryDNS_def defaultSecondaryDNS_def)
  have a: "ipcpAssigned ?i4 = addr" "ipcpOursAcked ?i4" by (simp_all add: NewIPCPHandler_def)
  obtain i5 out5 where 5: "HandleData env r5 (SerializePPPFrame PPPProtoIPCP
      (pppPacket IPCPConfigureRequest id5 ([IPCPOptIPAddress, 6] @ addr))) ?s4 =
      Some (?s4\<lparr>ipcpHandler := Some i5, pppPhase := PPPPhaseData\<rparr>, out5, [])"
    using step_ipcp_request [of ?s4 ?i4 env r5 id5] s0 wf a assms(9,10) by auto
  let ?s5 = "?s4\<lparr>ipcpHandler := Some i5, pppPhase := PPPPhaseData\<rparr>"
  have 6: "HandleData env r6 (SerializePPPFrame PPPProtoIPv4 p) ?s5 = Some (?s5, [], [p])"
    using step_ipv4 [of ?s5 env p r6] s0 assms(2,3) by simp
  have run6: "sessionRun env [(r6, SerializePPPFrame PPPProtoIPv4 p)] ?s5 = Some (?s5, [p] @ [])"
    by (rule sessionRun_Cons [OF 6]) simp
  note run = sessionRun_Cons [OF 1(1) sessionRun_Cons [OF 2(1) sessionRun_Cons [OF 3
      sessionRun_Cons [OF 4 sessionRun_Cons [OF 5 run6]]]]]
  have "pppPhase ?s5 = PPPPhaseData" "sessUsername ?s5 = user" "assignedIP ?s5 = addr"
    using s0(6) by simp_all
  with run show ?thesis unfolding s0_def [symmetric] append_Nil append_Nil2 by blast
qed

text \<open>Concrete client and session, for the witnesses.\<close>

definition example_env :: ppp_env where
  "example_env = \<lparr>envMd5 = example_md5, envUsers = example_users, envHasTun = True\<rparr>"

definition example_rnd :: ppp_rnd where
  "example_rnd = \<lparr>rndMagic = 7, rndChallenge = replicate 16 0\<rparr>"

definition example_session :: Session where
  "example_session = (newSession 2 9)\<lparr>sessState := SessionEstablished\<rparr>"

definition example_script :: "(ppp_rnd \<times> bytes) list" where
  "example_script =
     [(example_rnd, SerializePPPFrame PPPProtoLCP (pppPacket LCPConfigureRequest 1 [])),
      (example_rnd, SerializePPPFrame PPPProtoLCP (pppPacket LCPConfigureAck 1 [])),
      (example_rnd, SerializePPPFrame PPPProtoCHAP (pppPacket CHAPResponse 1 [1, 19, 117])),
      (example_rnd, SerializePPPFrame PPPProtoIPCP (pppPacket IPCPConfigureAck 1 [])),
      (example_rnd, SerializePPPFrame PPPProtoIPCP
        (pppPacket IPCPConfigureRequest 1 ([IPCPOptIPAddress, 6] @ [192, 168, 42, 10]))),
      (example_rnd, SerializePPPFrame PPPProtoIPv4 [0x45])]"

lemma example_proof: "chapProof example_md5 example_users [117] (replicate 16 0) 1 [1, 19, 117]"
  by (simp add: chapProof_def example_md5_def example_users_def LookupUser_def)

lemma example_handshake:
  "\<exists>s'. sessionRun example_env example_script
      (fst (InitPPP [115] 3 [192, 168, 42, 10] [192, 168, 42, 1] [] [] example_session)) = Some (s', [[0x45]]) \<and>
    sessUsername s' = [117]"
  using handshake_run [of example_session example_env "[0x45]" "[]" "[117]" example_rnd 1
      "[1, 19, 117]" "[115]" "[192, 168, 42, 10]" "[]" "[]" example_rnd 1 example_rnd example_rnd example_rnd 1
      example_rnd 3 "[192, 168, 42, 1]"] example_proof
  by (auto simp: example_script_def example_session_def example_env_def example_rnd_def)

text \<open>
  A conforming client gets through: on an established session, a client whose LCP
  options are acceptable, who acknowledges the server's first LCP and IPCP requests, who
  answers the challenge with the right digest and asks for the assigned address reaches
  the data phase in six frames, without a panic, as the right user; its next IPv4 packet,
  and nothing else, is written to the TUN device.
\<close>

theorem handshake_reaches_data_phase:
  assumes "sessState s = SessionEstablished" and "envHasTun env" and "p \<noteq> []"
    and "length options \<le> 30000" and "\<forall>od\<in>set (optionsOf options). lcpAcceptable od"
    and "chapProof (envMd5 env) (envUsers env) user (rndChallenge r2) id3 resp" and "length resp < 65000"
    and "length (rndChallenge r2) + length hostname < 65000"
    and "length addr = 4" and "addr \<noteq> [0, 0, 0, 0]" and "dns1 = [] \<or> To4 dns1 \<noteq> []" and "dns2 = [] \<or> To4 dns2 \<noteq> []"
  shows "\<exists>s'. sessionRun env
      [(r1, SerializePPPFrame PPPProtoLCP (pppPacket LCPConfigureRequest id1 options)),
       (r2, SerializePPPFrame PPPProtoLCP (pppPacket LCPConfigureAck 1 [])),
       (r3, SerializePPPFrame PPPProtoCHAP (pppPacket CHAPResponse id3 resp)),
       (r4, SerializePPPFrame PPPProtoIPCP (pppPacket IPCPConfigureAck 1 [])),
       (r5, SerializePPPFrame PPPProtoIPCP (pppPacket IPCPConfigureRequest id5 ([IPCPOptIPAddress, 6] @ addr))),
       (r6, SerializePPPFrame PPPProtoIPv4 p)]
      (fst (InitPPP hostname magic addr gw dns1 dns2 s)) = Some (s', [p]) \<and>
    pppPhase s' = PPPPhaseData \<and> sessUsername s' = user \<and> assignedIP s' = addr"
  using assms by (rule handshake_run)

theorem handshake_reaches_data_phase_witness:
  "\<exists>s'. sessionRun example_env example_script
      (fst (InitPPP [115] 3 [192, 168, 42, 10] [192, 168, 42, 1] [] [] example_session)) = Some (s', [[0x45]]) \<and>
    sessUsername s' = [117]"
  using handshake_reaches_data_phase [of example_session example_env "[0x45]" "[]" "[117]" example_rnd 1
      "[1, 19, 117]" "[115]" "[192, 168, 42, 10]" "[]" "[]" example_rnd 1 example_rnd example_rnd example_rnd 1
      example_rnd 3 "[192, 168, 42, 1]"] example_proof
  by (auto simp: example_script_def example_session_def example_env_def example_rnd_def)

theorem data_requires_authentication_witness:
  "\<exists>fr\<in>snd ` set example_script.
     provesUser example_env ((rndChallenge \<circ> fst) ` set example_script) [117] fr"
proof -
  obtain s' where "sessionRun example_env example_script
      (fst (InitPPP [115] 3 [192, 168, 42, 10] [192, 168, 42, 1] [] [] example_session)) = Some (s', [[0x45]])"
    "sessUsername s' = [117]"
    using example_handshake by blast
  with data_requires_authentication [of example_env example_script "[115]" 3 "[192, 168, 42, 10]"
      "[192, 168, 42, 1]" "[]" "[]" example_session s' "[[0x45]]" "[0x45]"]
  show ?thesis by auto
qed

section \<open>One packet\<close>

text \<open>A four-byte LCP packet that states length 3 takes an established session's daemon
  down before any authentication.\<close>

lemma unauthenticated_crash:
  assumes "sessState s = SessionEstablished" and "lcpHandler s = Some h"
  shows "HandleData env rnd (SerializePPPFrame PPPProtoLCP [9, 1, 0, 3]) s = None"
proof -
  have "pppHeader [9, 1, 0, 3] = Some (9, 1, 3)" by (simp add: pppHeader_def slice_def Uint16_def)
  with assms show ?thesis
    by (simp add: HandleData_def ParseFrame_known handleLCP_def LcpHandle_def go_slice_def)
qed

text \<open>Terminating LCP does not stop the data phase.\<close>

lemma terminate_keeps_data_phase:
  assumes "sessState s = SessionEstablished" and "lcpHandler s = Some h" and "pppPhase s = PPPPhaseData"
  shows "\<exists>s' out. HandleData env rnd (SerializePPPFrame PPPProtoLCP (pppPacket LCPTerminateRequest 1 [])) s =
    Some (s', out, []) \<and> pppPhase s' = PPPPhaseData"
  using assms pppHeader_pppPacket [of "[]" LCPTerminateRequest 1]
  by (simp add: HandleData_def ParseFrame_known handleLCP_def LcpHandle_def lcpHandleTerminateRequest_def
      respond_def buildResponse_pppPacket Let_def)

end
