(* ===== verification/L2tpControl.thy ===== *)
theory L2tpControl
  imports L2tpPacket "HOL-Library.Sublist"
begin

unbundle bit_operations_syntax

text \<open>
  The reliable control channel of \<^verbatim>\<open>internal/l2tp/control.go\<close>. Times are nanoseconds.
  What \<^verbatim>\<open>sendFunc\<close> is called with is returned by the operation. Every method but
  \<^verbatim>\<open>SendZLB\<close> holds the mutex for its whole body, so an operation is one step.
\<close>

section \<open>State and operations\<close>

definition second :: nat where "second = 1000000000"
definition defaultRetransmitInterval :: nat where "defaultRetransmitInterval = 1 * second"
definition maxRetransmitInterval :: nat where "maxRetransmitInterval = 8 * second"
definition defaultMaxRetries :: nat where "defaultMaxRetries = 5"
definition defaultReceiveWindow :: u16 where "defaultReceiveWindow = 4"
definition defaultHelloInterval :: nat where "defaultHelloInterval = 60 * second"

record pendingMessage =
  pmData :: bytes
  pmNs :: u16
  pmRetries :: nat
  nextRetransmit :: nat
  pmInterval :: nat

record ControlChannel =
  sendNs :: u16
  recvNr :: u16
  peerRecvWindow :: u16
  pending :: "pendingMessage list"
  maxRetries :: nat
  remoteTID :: u16

definition NewControlChannel :: ControlChannel where
  "NewControlChannel =
     \<lparr>sendNs = 0, recvNr = 0, peerRecvWindow = defaultReceiveWindow, pending = [],
      maxRetries = defaultMaxRetries, remoteTID = 0\<rparr>"

definition SetPeerWindow :: "u16 \<Rightarrow> ControlChannel \<Rightarrow> ControlChannel" where
  "SetPeerWindow w cc = cc\<lparr>peerRecvWindow := (if w = 0 then defaultReceiveWindow else w)\<rparr>"

definition SetRemoteTunnelID :: "u16 \<Rightarrow> ControlChannel \<Rightarrow> ControlChannel" where
  "SetRemoteTunnelID tid cc = cc\<lparr>remoteTID := tid\<rparr>"

definition Send :: "nat \<Rightarrow> bytes \<Rightarrow> ControlChannel \<Rightarrow> ControlChannel \<times> bytes" where
  "Send now avpPayload cc =
     (let ns = sendNs cc; nr = recvNr cc;
          hdr = BuildControlHeader (remoteTID cc) 0 ns nr (length avpPayload);
          msg = hdr @ avpPayload;
          pm = \<lparr>pmData = msg, pmNs = ns, pmRetries = 0,
                nextRetransmit = now + defaultRetransmitInterval,
                pmInterval = defaultRetransmitInterval\<rparr>
      in (cc\<lparr>pending := pending cc @ [pm], sendNs := ns + 1\<rparr>, msg))"

definition SendZLB :: "ControlChannel \<Rightarrow> bytes" where
  "SendZLB cc = BuildZLB (remoteTID cc) (sendNs cc) (recvNr cc)"

definition seqLessThan :: "u16 \<Rightarrow> u16 \<Rightarrow> bool" where
  "seqLessThan a b = (let diff = (b - a) AND 0xFFFF in diff > 0 \<and> diff < 32768)"

definition acknowledgeUpTo :: "u16 \<Rightarrow> ControlChannel \<Rightarrow> ControlChannel" where
  "acknowledgeUpTo nr cc =
     cc\<lparr>pending := filter (\<lambda>pm. \<not> seqLessThan (pmNs pm) nr) (pending cc)\<rparr>"

definition Receive :: "u16 \<Rightarrow> u16 \<Rightarrow> bool \<Rightarrow> ControlChannel \<Rightarrow> ControlChannel \<times> bool" where
  "Receive ns nr isZLB cc0 =
     (let cc = acknowledgeUpTo nr cc0 in
      if isZLB then (cc, False)
      else if ns \<noteq> recvNr cc then (cc, False)
      else (cc\<lparr>recvNr := ns + 1\<rparr>, True))"

text \<open>
  The loop of \<^verbatim>\<open>CheckRetransmit\<close>: the messages afterwards (those after a timed-out one
  are not visited), what is sent, and whether the limit was exceeded.
\<close>

definition backoff :: "nat \<Rightarrow> nat" where
  "backoff interval =
     (let i = interval * 2 in if i > maxRetransmitInterval then maxRetransmitInterval else i)"

definition setNr :: "u16 \<Rightarrow> bytes \<Rightarrow> bytes" where
  "setNr nr msg =
     (if length msg \<ge> 12 then msg[10 := ucast (drop_bit 8 nr), 11 := ucast nr] else msg)"

definition retransmit :: "nat \<Rightarrow> u16 \<Rightarrow> pendingMessage \<Rightarrow> pendingMessage" where
  "retransmit now nr pm =
     (let pm1 = pm\<lparr>pmRetries := pmRetries pm + 1\<rparr>;
          pm2 = pm1\<lparr>pmInterval := backoff (pmInterval pm1)\<rparr>;
          pm3 = pm2\<lparr>nextRetransmit := now + pmInterval pm2\<rparr>
      in pm3\<lparr>pmData := setNr nr (pmData pm3)\<rparr>)"

fun retransmitLoop ::
  "nat \<Rightarrow> ControlChannel \<Rightarrow> pendingMessage list \<Rightarrow> pendingMessage list \<times> bytes list \<times> bool" where
  "retransmitLoop now cc [] = ([], [], False)"
| "retransmitLoop now cc (pm # pms) =
     (if now < nextRetransmit pm then
        (case retransmitLoop now cc pms of (q, out, dead) \<Rightarrow> (pm # q, out, dead))
      else if pmRetries pm + 1 > maxRetries cc then
        (pm\<lparr>pmRetries := pmRetries pm + 1\<rparr> # pms, [], True)
      else
        (let pm' = retransmit now (recvNr cc) pm in
         case retransmitLoop now cc pms of (q, out, dead) \<Rightarrow> (pm' # q, pmData pm' # out, dead)))"

text \<open>
  The mutex of the method: \<^verbatim>\<open>Unlock\<close> of an unlocked \<^verbatim>\<open>sync.Mutex\<close> is a fatal error of
  the process (\<^const>\<open>None\<close>). The timeout branch unlocks explicitly, and the deferred
  unlock still runs at the return.
\<close>

definition Unlock :: "bool \<Rightarrow> bool option" where
  "Unlock held = (if held then Some False else None)"

definition CheckRetransmit ::
  "nat \<Rightarrow> ControlChannel \<Rightarrow> (ControlChannel \<times> bytes list \<times> bool) option" where
  "CheckRetransmit now cc =
     (case retransmitLoop now cc (pending cc) of
        (q, out, dead) \<Rightarrow>
          (let cc' = cc\<lparr>pending := q\<rparr>; held = True in
           case (if dead then Unlock held else Some held) of
             None \<Rightarrow> None
           | Some held' \<Rightarrow>
               (case Unlock held' of
                  None \<Rightarrow> None
                | Some _ \<Rightarrow> Some (cc', out, \<not> dead))))"

definition PendingCount :: "ControlChannel \<Rightarrow> nat" where
  "PendingCount cc = length (pending cc)"

section \<open>Sequence arithmetic\<close>

lemma u16_and_mask [simp]: "(x :: u16) AND 0xFFFF = x"
proof -
  have "(0xFFFF :: u16) = mask 16" by (simp add: mask_eq_exp_minus_1)
  moreover have "x AND mask 16 = x"
    unfolding take_bit_eq_mask [symmetric] by (simp add: take_bit_word_eq_self)
  ultimately show ?thesis by (simp only:)
qed

lemma seqLessThan_iff: "seqLessThan a b \<longleftrightarrow> 0 < unat (b - a) \<and> unat (b - a) < 32768"
  by (simp add: seqLessThan_def word_less_nat_alt Let_def)

lemma u16_inj: "i < 65536 \<Longrightarrow> j < 65536 \<Longrightarrow> (of_nat i :: u16) = of_nat j \<longleftrightarrow> i = j"
  by (metis u16_of_nat_unat)

lemma seqLessThan_offset:
  assumes "i < 65536" and "j < 65536"
  shows "seqLessThan (b + of_nat i) (b + of_nat j) \<longleftrightarrow>
    (i < j \<and> j - i < 32768) \<or> (j < i \<and> 32768 < i - j)"
proof -
  have e: "(b + of_nat j) - (b + of_nat i) = (of_nat j - of_nat i :: u16)" by simp
  show ?thesis
  proof (cases "i \<le> j")
    case True
    then have "(of_nat j - of_nat i :: u16) = of_nat (j - i)" by (simp add: of_nat_diff)
    moreover have "unat (of_nat (j - i) :: u16) = j - i" using assms by (simp add: u16_of_nat_unat)
    ultimately show ?thesis using True by (auto simp: seqLessThan_iff e)
  next
    case False
    then have "(of_nat j - of_nat i :: u16) = - of_nat (i - j)" by (simp add: of_nat_diff)
    also have "\<dots> = of_nat (65536 - (i - j))"
      using assms False by (simp add: of_nat_diff)
    finally have eq: "(of_nat j - of_nat i :: u16) = of_nat (65536 - (i - j))" .
    have "unat (of_nat j - of_nat i :: u16) = 65536 - (i - j)"
      unfolding eq using False by (intro u16_of_nat_unat) linarith
    then show ?thesis using False assms by (auto simp: seqLessThan_iff e)
  qed
qed

section \<open>Acknowledgement\<close>

text \<open>The oldest unacknowledged number, and: the pending messages are consecutive from it.\<close>

definition base :: "ControlChannel \<Rightarrow> u16" where
  "base cc = sendNs cc - of_nat (length (pending cc))"

definition pend_ok :: "ControlChannel \<Rightarrow> bool" where
  "pend_ok cc \<longleftrightarrow> (\<forall>i<length (pending cc). pmNs (pending cc ! i) = base cc + of_nat i)"

lemma filter_eq_drop:
  assumes "\<And>i. i < length xs \<Longrightarrow> P (xs ! i) \<longleftrightarrow> j \<le> i"
  shows "filter P xs = drop j xs"
proof -
  have "filter P (take j xs) = []"
    using assms by (auto simp: filter_empty_conv in_set_conv_nth)
  moreover have "filter P (drop j xs) = drop j xs"
    using assms by (auto simp: filter_id_conv in_set_conv_nth)
  ultimately show ?thesis by (metis append_Nil append_take_drop_id filter_append)
qed

lemma pend_ok_Send: "pend_ok cc \<Longrightarrow> pend_ok (fst (Send now p cc)) \<and> base (fst (Send now p cc)) = base cc"
  by (auto simp: pend_ok_def base_def Send_def Let_def nth_append less_Suc_eq)

lemma ack_prefix:
  assumes "pend_ok cc" and "length (pending cc) < 32768" and "j \<le> length (pending cc)"
  shows "acknowledgeUpTo (base cc + of_nat j) cc = cc\<lparr>pending := drop j (pending cc)\<rparr>"
proof -
  have "filter (\<lambda>pm. \<not> seqLessThan (pmNs pm) (base cc + of_nat j)) (pending cc) = drop j (pending cc)"
  proof (rule filter_eq_drop)
    fix i assume i: "i < length (pending cc)"
    then have "seqLessThan (pmNs (pending cc ! i)) (base cc + of_nat j) \<longleftrightarrow>
        (i < j \<and> j - i < 32768) \<or> (j < i \<and> 32768 < i - j)"
      using assms seqLessThan_offset [of i j "base cc"] by (simp add: pend_ok_def)
    with i assms show "(\<not> seqLessThan (pmNs (pending cc ! i)) (base cc + of_nat j)) = (j \<le> i)"
      by linarith
  qed
  then show ?thesis by (simp add: acknowledgeUpTo_def)
qed

lemma ack_stale:
  assumes "pend_ok cc" and "length (pending cc) + d \<le> 32768"
  shows "acknowledgeUpTo (base cc - of_nat d) cc = cc"
proof -
  have "filter (\<lambda>pm. \<not> seqLessThan (pmNs pm) (base cc - of_nat d)) (pending cc) = drop 0 (pending cc)"
  proof (rule filter_eq_drop)
    fix i assume i: "i < length (pending cc)"
    have "base cc - of_nat d + of_nat (d + i) = base cc + of_nat i" by simp
    then have "seqLessThan (pmNs (pending cc ! i)) (base cc - of_nat d) \<longleftrightarrow>
        seqLessThan ((base cc - of_nat d) + of_nat (d + i)) ((base cc - of_nat d) + of_nat 0)"
      using assms(1) i by (simp add: pend_ok_def)
    also have "\<dots> \<longleftrightarrow> (d + i < 0 \<and> 0 - (d + i) < 32768) \<or> (0 < d + i \<and> 32768 < d + i - 0)"
      using assms(2) i by (intro seqLessThan_offset) linarith+
    finally show "(\<not> seqLessThan (pmNs (pending cc ! i)) (base cc - of_nat d)) = (0 \<le> i)"
      using assms(2) i by simp
  qed
  then show ?thesis by (simp add: acknowledgeUpTo_def)
qed

text \<open>
  An acknowledgement frees exactly what it acknowledges: with at most 32767 messages
  outstanding, an \<open>Nr\<close> that is \<open>j\<close> past the oldest outstanding message removes the first
  \<open>j\<close> messages from the retransmission queue and keeps the rest consecutive, and a stale
  \<open>Nr\<close> from an old packet removes nothing, across the wrap of the 16-bit numbers.
\<close>

theorem ack_frees_exactly_the_prefix:
  assumes "pend_ok cc" and "length (pending cc) < 32768"
  shows "(j \<le> length (pending cc) \<longrightarrow>
      acknowledgeUpTo (base cc + of_nat j) cc = cc\<lparr>pending := drop j (pending cc)\<rparr> \<and>
      pend_ok (acknowledgeUpTo (base cc + of_nat j) cc)) \<and>
    (length (pending cc) + d \<le> 32768 \<longrightarrow> acknowledgeUpTo (base cc - of_nat d) cc = cc)"
proof (intro conjI [of "_ \<longrightarrow> _"] impI)
  assume j: "j \<le> length (pending cc)"
  have "pend_ok (cc\<lparr>pending := drop j (pending cc)\<rparr>)"
    using assms(1) j by (auto simp: pend_ok_def base_def of_nat_diff)
  with ack_prefix [OF assms j]
  show "acknowledgeUpTo (base cc + of_nat j) cc = cc\<lparr>pending := drop j (pending cc)\<rparr> \<and>
      pend_ok (acknowledgeUpTo (base cc + of_nat j) cc)" by simp
next
  assume "length (pending cc) + d \<le> 32768"
  then show "acknowledgeUpTo (base cc - of_nat d) cc = cc" by (rule ack_stale [OF assms(1)])
qed

text \<open>A channel with two outstanding messages, whose numbers wrap.\<close>

definition example_channel :: ControlChannel where
  "example_channel =
     fst (Send 0 [2] (fst (Send 0 [1] (NewControlChannel\<lparr>sendNs := 65535\<rparr>))))"

lemma example_channel_ok: "pend_ok example_channel \<and> length (pending example_channel) = 2 \<and>
    base example_channel = 65535"
proof -
  have "pend_ok (NewControlChannel\<lparr>sendNs := 65535\<rparr>) \<and> base (NewControlChannel\<lparr>sendNs := 65535\<rparr>) = 65535"
    by (simp add: pend_ok_def base_def NewControlChannel_def)
  then have "pend_ok example_channel \<and> base example_channel = 65535"
    unfolding example_channel_def by (metis pend_ok_Send)
  moreover have "length (pending example_channel) = 2"
    by (simp add: example_channel_def Send_def NewControlChannel_def Let_def)
  ultimately show ?thesis by blast
qed

theorem ack_frees_exactly_the_prefix_witness:
  "length (pending (acknowledgeUpTo 0 example_channel)) = 1 \<and>
   acknowledgeUpTo 65534 example_channel = example_channel"
proof -
  have w: "base example_channel + of_nat 1 = 0" "base example_channel - of_nat 1 = 65534"
    using example_channel_ok by simp_all
  show ?thesis
    using ack_frees_exactly_the_prefix [of example_channel 1 1, unfolded w] example_channel_ok
    by auto
qed

section \<open>Retransmission\<close>

lemma retransmitLoop_dead:
  "snd (snd (retransmitLoop now cc pms)) \<longleftrightarrow>
     (\<exists>pm\<in>set pms. nextRetransmit pm \<le> now \<and> maxRetries cc \<le> pmRetries pm)"
proof (induction pms)
  case (Cons pm pms)
  obtain q os dead where r: "retransmitLoop now cc pms = (q, os, dead)" by (metis prod_cases3)
  with Cons show ?case by (auto simp: Let_def not_less)
qed simp

lemma CheckRetransmit_eq:
  "CheckRetransmit now cc =
     (case retransmitLoop now cc (pending cc) of
        (q, out, dead) \<Rightarrow> if dead then None else Some (cc\<lparr>pending := q\<rparr>, out, True))"
  by (simp add: CheckRetransmit_def Unlock_def Let_def split: prod.splits)

text \<open>
  A peer that stops acknowledging crashes the daemon: \<open>CheckRetransmit\<close> reaches the
  fatal second unlock exactly when some outstanding message is due and has already been
  retransmitted \<open>maxRetries\<close> times; in every other case it returns and reports the tunnel
  alive, so its "tunnel dead" result is never seen by the caller.
\<close>

theorem retransmit_timeout_is_fatal:
  "(if \<exists>pm\<in>set (pending cc). nextRetransmit pm \<le> now \<and> maxRetries cc \<le> pmRetries pm
    then CheckRetransmit now cc = None
    else \<exists>cc' out. CheckRetransmit now cc = Some (cc', out, True))"
  using retransmitLoop_dead [of now cc "pending cc"]
  by (auto simp: CheckRetransmit_eq split: prod.splits)

section \<open>Histories of a sender\<close>

text \<open>The datagram of a message, and its \<open>Nr\<close> rewritten.\<close>

definition datagram :: "u16 \<Rightarrow> u16 \<Rightarrow> u16 \<Rightarrow> bytes \<Rightarrow> bytes" where
  "datagram tid ns nr p = BuildControlHeader tid 0 ns nr (length p) @ p"

lemma setNr_datagram: "setNr nr' (datagram tid ns nr p) = datagram tid ns nr' p"
  by (simp add: setNr_def datagram_def BuildControlHeader_eq PutUint16_def)

text \<open>
  All histories of a channel to a peer: what was given to \<open>Send\<close>, and what was put on
  the wire, first transmissions, retransmissions and bare acknowledgements alike.
\<close>

inductive chan_run :: "u16 \<Rightarrow> ControlChannel \<Rightarrow> bytes list \<Rightarrow> bytes list \<Rightarrow> bool" for tid where
  start: "chan_run tid (SetRemoteTunnelID tid NewControlChannel) [] []"
| send: "chan_run tid cc P W \<Longrightarrow> Send now p cc = (cc', m) \<Longrightarrow> chan_run tid cc' (P @ [p]) (W @ [m])"
| recv: "chan_run tid cc P W \<Longrightarrow> Receive ns nr z cc = (cc', acc) \<Longrightarrow> chan_run tid cc' P W"
| zlb: "chan_run tid cc P W \<Longrightarrow> chan_run tid cc P (W @ [SendZLB cc])"
| tick: "chan_run tid cc P W \<Longrightarrow> CheckRetransmit now cc = Some (cc', ms, alive) \<Longrightarrow>
    chan_run tid cc' P (W @ ms)"
| window: "chan_run tid cc P W \<Longrightarrow> chan_run tid (SetPeerWindow w cc) P W"

text \<open>A datagram that carries one of the messages, or only an acknowledgement.\<close>

definition carries :: "u16 \<Rightarrow> bytes list \<Rightarrow> bytes \<Rightarrow> bool" where
  "carries tid P m \<longleftrightarrow>
     (\<exists>i<length P. \<exists>nr. m = datagram tid (of_nat i) nr (P ! i)) \<or> (\<exists>ns nr. m = BuildZLB tid ns nr)"

definition pm_ok :: "u16 \<Rightarrow> bytes list \<Rightarrow> pendingMessage \<Rightarrow> bool" where
  "pm_ok tid P pm \<longleftrightarrow>
     (\<exists>i<length P. pmNs pm = of_nat i \<and> (\<exists>nr. pmData pm = datagram tid (of_nat i) nr (P ! i))) \<and>
     pmRetries pm \<le> defaultMaxRetries \<and> pmInterval pm = min (2 ^ pmRetries pm) 8 * second"

definition chan_inv :: "u16 \<Rightarrow> ControlChannel \<Rightarrow> bytes list \<Rightarrow> bytes list \<Rightarrow> bool" where
  "chan_inv tid cc P W \<longleftrightarrow> remoteTID cc = tid \<and> sendNs cc = of_nat (length P) \<and>
     maxRetries cc = defaultMaxRetries \<and> (\<forall>pm\<in>set (pending cc). pm_ok tid P pm) \<and>
     (\<forall>m\<in>set W. carries tid P m)"

lemma carries_mono: "carries tid P m \<Longrightarrow> carries tid (P @ [p]) m"
  unfolding carries_def by (metis less_SucI length_append_singleton nth_append)

lemma pm_ok_mono: "pm_ok tid P pm \<Longrightarrow> pm_ok tid (P @ [p]) pm"
  unfolding pm_ok_def by (metis less_SucI length_append_singleton nth_append)

lemma pm_ok_retransmit:
  assumes "pm_ok tid P pm" and "\<not> defaultMaxRetries < Suc (pmRetries pm)"
  shows "pm_ok tid P (retransmit now nr pm) \<and> carries tid P (pmData (retransmit now nr pm))"
proof -
  obtain i nr0 where i: "i < length P" "pmNs pm = of_nat i" "pmData pm = datagram tid (of_nat i) nr0 (P ! i)"
    using assms(1) by (auto simp: pm_ok_def)
  have b: "backoff (min (2 ^ k) 8 * second) = min (2 ^ Suc k) 8 * second" for k :: nat
    by (simp add: backoff_def maxRetransmitInterval_def second_def Let_def min_def)
  have "pmInterval (retransmit now nr pm) = min (2 ^ pmRetries (retransmit now nr pm)) 8 * second"
    using assms(1) b [of "pmRetries pm"] by (simp add: retransmit_def Let_def pm_ok_def)
  moreover have "pmData (retransmit now nr pm) = datagram tid (of_nat i) nr (P ! i)"
    by (simp add: retransmit_def Let_def i(3) setNr_datagram)
  moreover have "pmNs (retransmit now nr pm) = of_nat i" "pmRetries (retransmit now nr pm) = pmRetries pm + 1"
    by (simp_all add: retransmit_def Let_def i(2))
  ultimately show ?thesis using i(1) assms(2) by (auto simp: pm_ok_def carries_def)
qed

lemma retransmitLoop_inv:
  assumes "\<forall>pm\<in>set pms. pm_ok tid P pm" and "maxRetries cc = defaultMaxRetries"
    and "retransmitLoop now cc pms = (q, ms, False)"
  shows "(\<forall>pm\<in>set q. pm_ok tid P pm) \<and> (\<forall>m\<in>set ms. carries tid P m)"
  using assms
proof (induction pms arbitrary: q ms)
  case (Cons pm pms)
  then show ?case
    by (auto split: if_splits prod.splits simp: Let_def dest: pm_ok_retransmit [where now = now and nr = "recvNr cc"])
qed simp

lemma chan_run_inv: "chan_run tid cc P W \<Longrightarrow> chan_inv tid cc P W"
proof (induction rule: chan_run.induct)
  case start
  then show ?case by (simp add: chan_inv_def SetRemoteTunnelID_def NewControlChannel_def)
next
  case (send cc P W now p cc' m)
  have m: "m = datagram tid (of_nat (length P)) (recvNr cc) p"
    using send by (auto simp: Send_def Let_def datagram_def chan_inv_def)
  have "pm_ok tid (P @ [p]) \<lparr>pmData = m, pmNs = sendNs cc, pmRetries = 0,
      nextRetransmit = now + defaultRetransmitInterval, pmInterval = defaultRetransmitInterval\<rparr>"
    using send.IH by (auto simp: pm_ok_def m chan_inv_def defaultRetransmitInterval_def intro!: exI [of _ "length P"])
  moreover have "carries tid (P @ [p]) m"
    by (auto simp: carries_def m intro!: exI [of _ "length P"])
  ultimately show ?case
    using send pm_ok_mono [of tid P] carries_mono [of tid P]
    by (auto simp: chan_inv_def Send_def Let_def)
next
  case (recv cc P W ns nr z cc' acc)
  then show ?case
    by (auto simp: chan_inv_def Receive_def acknowledgeUpTo_def Let_def split: if_splits)
next
  case (zlb cc P W)
  then show ?case by (auto simp: chan_inv_def carries_def SendZLB_def)
next
  case (tick cc P W now cc' ms alive)
  then obtain q where "retransmitLoop now cc (pending cc) = (q, ms, False)" "cc' = cc\<lparr>pending := q\<rparr>"
    by (auto simp: CheckRetransmit_eq split: prod.splits if_splits)
  with retransmitLoop_inv [of "pending cc" tid P cc now q ms] tick.IH show ?case
    by (auto simp: chan_inv_def)
next
  case (window cc P W w)
  then show ?case by (auto simp: chan_inv_def SetPeerWindow_def)
qed

text \<open>
  Backoff is bounded: in every history, each outstanding message has been
  retransmitted at most five times, and its interval is one second doubled once per
  retransmission and capped at eight seconds; what sits in the queue is the message that
  was sent, with at most its \<open>Nr\<close> field brought up to date.
\<close>

theorem retransmission_backoff:
  assumes "chan_run tid cc P W" and "pm \<in> set (pending cc)"
  shows "pmRetries pm \<le> 5 \<and> pmInterval pm = min (2 ^ pmRetries pm) 8 * second \<and>
    (\<exists>i<length P. \<exists>nr. pmNs pm = of_nat i \<and> pmData pm = datagram tid (of_nat i) nr (P ! i))"
  using chan_run_inv [OF assms(1)] assms(2) by (fastforce simp: chan_inv_def pm_ok_def defaultMaxRetries_def)

lemma example_run: "\<exists>cc P W. chan_run 7 cc P W \<and> P = [[1], [2]] \<and> length (pending cc) = 2 \<and>
    W = [datagram 7 0 0 [1], datagram 7 1 0 [2]]"
proof -
  let ?c0 = "SetRemoteTunnelID 7 NewControlChannel"
  have 1: "chan_run 7 (fst (Send 0 [1] ?c0)) ([] @ [[1]]) ([] @ [snd (Send 0 [1] ?c0)])"
    by (rule chan_run.send [OF chan_run.start]) simp
  have 2: "chan_run 7 (fst (Send 0 [2] (fst (Send 0 [1] ?c0)))) (([] @ [[1]]) @ [[2]])
      (([] @ [snd (Send 0 [1] ?c0)]) @ [snd (Send 0 [2] (fst (Send 0 [1] ?c0)))])"
    by (rule chan_run.send [OF 1]) simp
  have "length (pending (fst (Send 0 [2] (fst (Send 0 [1] ?c0))))) = 2"
    "snd (Send 0 [1] ?c0) = datagram 7 0 0 [1]"
    "snd (Send 0 [2] (fst (Send 0 [1] ?c0))) = datagram 7 1 0 [2]"
    by (simp_all add: Send_def Let_def NewControlChannel_def SetRemoteTunnelID_def datagram_def)
  with 2 show ?thesis by (intro exI) (auto intro: 2)
qed

theorem retransmission_backoff_witness:
  "\<exists>cc W pm. chan_run 7 cc [[1], [2]] W \<and> pm \<in> set (pending cc) \<and> pmRetries pm \<le> 5"
proof -
  obtain cc W where r: "chan_run 7 cc [[1], [2]] W" "length (pending cc) = 2"
    using example_run by blast
  then have "hd (pending cc) \<in> set (pending cc)" by (cases "pending cc") auto
  with r retransmission_backoff [OF r(1) this] show ?thesis by blast
qed

section \<open>Exactly-once, in-order delivery\<close>

text \<open>
  The receiving side of \<^verbatim>\<open>handleControlMessage\<close>: the numbers go through \<open>Receive\<close>, and
  the body is processed only when that returns true.
\<close>

definition channelInput :: "bytes \<Rightarrow> ControlChannel \<Rightarrow> ControlChannel \<times> bytes option" where
  "channelInput data cc =
     (case ParseL2TPHeader data of
        Inl _ \<Rightarrow> (cc, None)
      | Inr (hdr, payload) \<Rightarrow>
          if \<not> IsControl hdr then (cc, None)
          else (case Receive (HdrNs hdr) (HdrNr hdr) (length payload = 0) cc of
                  (cc', inOrder) \<Rightarrow> (cc', if inOrder then Some payload else None)))"

primrec channelInputs :: "bytes list \<Rightarrow> ControlChannel \<Rightarrow> bytes list" where
  "channelInputs [] cc = []"
| "channelInputs (d # ds) cc =
     (case channelInput d cc of
        (cc', None) \<Rightarrow> channelInputs ds cc'
      | (cc', Some p) \<Rightarrow> p # channelInputs ds cc')"

lemma channelInput_datagram:
  assumes "length p < 65524"
  shows "channelInput (datagram tid ns nr p) cc =
    (let cc' = acknowledgeUpTo nr cc in
     if p = [] \<or> ns \<noteq> recvNr cc then (cc', None) else (cc'\<lparr>recvNr := ns + 1\<rparr>, Some p))"
proof -
  obtain h where "ParseL2TPHeader (datagram tid ns nr p) = Inr (h, p)" "IsControl h"
    "HdrNs h = ns" "HdrNr h = nr"
    using Parse_BuildControlHeader [OF assms, of tid 0 ns nr] by (auto simp: datagram_def)
  then show ?thesis by (simp add: channelInput_def Receive_def Let_def acknowledgeUpTo_def)
qed

lemma BuildZLB_datagram: "BuildZLB tid ns nr = datagram tid ns nr []"
  by (simp add: BuildZLB_def datagram_def)

lemma recvNr_ack [simp]: "recvNr (acknowledgeUpTo nr cc) = recvNr cc"
  by (simp add: acknowledgeUpTo_def)

text \<open>One datagram of a sender, at a receiver that expects message \<open>r\<close>.\<close>

lemma channelInput_carried:
  assumes "carries tid P d" and "length P < 65536" and "\<forall>p\<in>set P. p \<noteq> [] \<and> length p < 65524"
    and "recvNr cc = of_nat r" and "r \<le> length P"
  shows "\<exists>cc'. (channelInput d cc = (cc', None) \<and> recvNr cc' = of_nat r) \<or>
    (r < length P \<and> channelInput d cc = (cc', Some (P ! r)) \<and> recvNr cc' = of_nat (Suc r))"
proof (cases "\<exists>ns nr. d = BuildZLB tid ns nr")
  case True
  then show ?thesis
    using assms(4) channelInput_datagram [of "[]"] by (auto simp: BuildZLB_datagram Let_def)
next
  case False
  then obtain i nr where i: "i < length P" "d = datagram tid (of_nat i) nr (P ! i)"
    using assms(1) by (auto simp: carries_def)
  have p: "P ! i \<noteq> []" "length (P ! i) < 65524" using assms(3) i(1) by auto
  have "(of_nat i :: u16) = of_nat r \<longleftrightarrow> i = r" using i(1) assms(2,5) u16_inj [of i r] by simp
  with i p assms(4) show ?thesis
    by (cases "i = r") (auto simp: channelInput_datagram Let_def)
qed

lemma channelInputs_take:
  assumes "length P < 65536" and "\<forall>p\<in>set P. p \<noteq> [] \<and> length p < 65524"
    and "recvNr cc = of_nat r" and "r \<le> length P" and "\<forall>d\<in>set ds. carries tid P d"
  shows "\<exists>n. channelInputs ds cc = take n (drop r P)"
  using assms(3,4,5)
proof (induction ds arbitrary: cc r)
  case Nil
  then show ?case by (intro exI [of _ 0]) simp
next
  case (Cons d ds)
  from channelInput_carried [OF _ assms(1,2) Cons.prems(1,2), of tid d] Cons.prems(3)
  obtain cc' where "(channelInput d cc = (cc', None) \<and> recvNr cc' = of_nat r) \<or>
    (r < length P \<and> channelInput d cc = (cc', Some (P ! r)) \<and> recvNr cc' = of_nat (Suc r))"
    by auto
  then show ?case
  proof (elim disjE conjE)
    assume "channelInput d cc = (cc', None)" "recvNr cc' = of_nat r"
    with Cons.IH [of cc' r] Cons.prems(2,3) show ?thesis by simp
  next
    assume a: "r < length P" "channelInput d cc = (cc', Some (P ! r))" "recvNr cc' = of_nat (Suc r)"
    with Cons.IH [of cc' "Suc r"] Cons.prems(3) obtain n where
      "channelInputs ds cc' = take n (drop (Suc r) P)" by auto
    with a show ?thesis by (intro exI [of _ "Suc n"]) (simp add: Cons_nth_drop_Suc [symmetric])
  qed
qed

lemma channelInputs_complete:
  assumes "length P < 65536" and "\<forall>p\<in>set P. p \<noteq> [] \<and> length p < 65524"
    and "recvNr cc = of_nat r" and "r \<le> length P" and "\<forall>d\<in>set ds. carries tid P d"
    and "subseq (map f [r..<length P]) ds"
    and "\<And>i. i < length P \<Longrightarrow> \<exists>nr. f i = datagram tid (of_nat i) nr (P ! i)"
  shows "channelInputs ds cc = drop r P"
  using assms(3-6)
proof (induction ds arbitrary: cc r)
  case Nil
  then have "map f [r..<length P] = []" by (metis list_emb_Nil2)
  then show ?case by auto
next
  case (Cons d ds)
  show ?case
  proof (cases "r < length P")
    case False
    with channelInputs_take [OF assms(1,2) Cons.prems(1-3)] Cons.prems(2) show ?thesis by auto
  next
    case True
    from channelInput_carried [OF _ assms(1,2) Cons.prems(1,2), of tid d] Cons.prems(3)
    obtain cc' where c: "(channelInput d cc = (cc', None) \<and> recvNr cc' = of_nat r) \<or>
      (channelInput d cc = (cc', Some (P ! r)) \<and> recvNr cc' = of_nat (Suc r))"
      by auto
    have up: "map f [r..<length P] = f r # map f [Suc r..<length P]"
      using True by (simp add: upt_conv_Cons)
    show ?thesis
    proof (cases "channelInput d cc = (cc', None)")
      case False
      with c have a: "channelInput d cc = (cc', Some (P ! r))" "recvNr cc' = of_nat (Suc r)" by auto
      have "subseq (map f [Suc r..<length P]) ds"
        using Cons.prems(4) by (simp only: up) (metis subseq_Cons2' subseq_Cons2_neq subseq_Cons')
      with a Cons.IH [of cc' "Suc r"] Cons.prems(3) True show ?thesis
        by (simp add: Cons_nth_drop_Suc)
    next
      case none: True
      obtain nr where "f r = datagram tid (of_nat r) nr (P ! r)" using assms(7) True by blast
      moreover have "P ! r \<noteq> []" "length (P ! r) < 65524" using assms(2) True by auto
      ultimately have "d \<noteq> f r"
        using none Cons.prems(1) by (auto simp: channelInput_datagram Let_def)
      then have "subseq (map f [r..<length P]) ds"
        using Cons.prems(4) by (simp only: up) (metis subseq_Cons2_neq)
      moreover have "recvNr cc' = of_nat r" using c none by auto
      ultimately show ?thesis using none Cons.IH [of cc' r] Cons.prems(2,3) by simp
    qed
  qed
qed

text \<open>
  C10. Control messages are processed in order and exactly once: whatever the network does
  with the datagrams of a sender (loss, duplication, reordering, retransmissions with a
  rewritten \<open>Nr\<close>, bare acknowledgements in between), a new receiver processes a prefix of
  the messages the sender sent, and all of them as soon as one copy of each has arrived
  in order. (Fewer than 65536 messages, each with a body and below the length limit.)
\<close>

theorem control_exactly_once_in_order:
  assumes "chan_run tid cc P W" and "length P < 65536"
    and "\<forall>p\<in>set P. p \<noteq> [] \<and> length p < 65524" and "set ds \<subseteq> set W"
  shows "prefix (channelInputs ds NewControlChannel) P \<and>
    (subseq (map (\<lambda>i. datagram tid (of_nat i) (nr i) (P ! i)) [0..<length P]) ds \<longrightarrow>
       channelInputs ds NewControlChannel = P)"
proof (intro conjI impI)
  have c: "\<forall>d\<in>set ds. carries tid P d"
    using chan_run_inv [OF assms(1)] assms(4) by (auto simp: chan_inv_def)
  have r: "recvNr NewControlChannel = of_nat 0" by (simp add: NewControlChannel_def)
  show "prefix (channelInputs ds NewControlChannel) P"
    using channelInputs_take [OF assms(2,3) r _ c] by (auto simp: take_is_prefix)
  assume "subseq (map (\<lambda>i. datagram tid (of_nat i) (nr i) (P ! i)) [0..<length P]) ds"
  from channelInputs_complete [OF assms(2,3) r _ c this] show
    "channelInputs ds NewControlChannel = P" by auto
qed

theorem control_exactly_once_in_order_witness:
  "channelInputs [datagram 7 1 0 [2], datagram 7 0 0 [1], datagram 7 0 0 [1], datagram 7 1 0 [2],
     datagram 7 0 0 [1]] NewControlChannel = [[1], [2]]"
proof -
  obtain cc W where "chan_run 7 cc [[1], [2]] W" "W = [datagram 7 0 0 [1], datagram 7 1 0 [2]]"
    using example_run by blast
  moreover have "datagram 7 0 0 [1] \<noteq> datagram 7 1 0 [2]"
    by (simp add: datagram_def BuildControlHeader_eq PutUint16_def)
  then have "subseq (map (\<lambda>i. datagram 7 (of_nat i) 0 ([[1], [2]] ! i)) [0..<length [[1 :: byte], [2]]])
      [datagram 7 1 0 [2], datagram 7 0 0 [1], datagram 7 0 0 [1], datagram 7 1 0 [2], datagram 7 0 0 [1]]"
    by (simp add: upt_rec)
  ultimately show ?thesis
    by (intro control_exactly_once_in_order [of 7 cc _ W _ "\<lambda>_. 0", THEN conjunct2, THEN mp]) auto
qed

end
