(* ===== verification/L2tpTunnel.thy ===== *)
theory L2tpTunnel
  imports L2tpSession L2tpControl "HOL-Library.AList"
begin

text \<open>
  A tunnel (\<^verbatim>\<open>internal/l2tp/tunnel.go\<close>): the control-connection state machine and its
  sessions. The session map is an association list (its order is the order in which the
  Go loop may visit it; the loops only release addresses). An operation returns the new
  tunnel, the datagrams sent to its peer, and the addresses released to the pool.
\<close>

datatype tunnel_state = TunnelIdle | TunnelWaitCtlConn | TunnelEstablished | TunnelDead

datatype tunnel_error = ErrInvalidState | ErrMissingAVP | ErrSessionNotFound | ErrUnsupportedVersion

record Tunnel =
  tunState :: tunnel_state
  localTunnelID :: u16
  remoteTunnelID :: u16
  peerAddr :: udp_addr
  peerHostname :: bytes
  control :: ControlChannel
  sessions :: "(u16 \<times> Session) list"
  nextSessionID :: u32
  helloInterval :: nat
  lastActivity :: nat

type_synonym tunnel_out = "Tunnel \<times> bytes list \<times> ip list"

definition newTunnel :: "u16 \<Rightarrow> udp_addr \<Rightarrow> nat \<Rightarrow> Tunnel" where
  "newTunnel localID addr now =
     \<lparr>tunState = TunnelIdle, localTunnelID = localID, remoteTunnelID = 0, peerAddr = addr,
      peerHostname = [], control = NewControlChannel, sessions = [], nextSessionID = 1,
      helloInterval = defaultHelloInterval, lastActivity = now\<rparr>"

text \<open>A reliable send on the tunnel's control channel.\<close>

definition controlSend :: "nat \<Rightarrow> AVP list \<Rightarrow> Tunnel \<Rightarrow> Tunnel \<times> bytes" where
  "controlSend now avps t =
     (case Send now (SerializeAVPs avps) (control t) of (cc, msg) \<Rightarrow> (t\<lparr>control := cc\<rparr>, msg))"

definition sendStopCCN :: "nat \<Rightarrow> u16 \<Rightarrow> u16 \<Rightarrow> bytes \<Rightarrow> Tunnel \<Rightarrow> Tunnel \<times> bytes" where
  "sendStopCCN now resultCode errorCode errorMsg t =
     controlSend now
       [NewMessageTypeAVP MsgStopCCN, NewAssignedTunnelIDAVP (localTunnelID t),
        NewResultCodeAVP resultCode errorCode errorMsg]
       (t\<lparr>tunState := TunnelDead\<rparr>)"

definition HandleSCCRQ ::
  "nat \<Rightarrow> AVP list \<Rightarrow> bytes \<Rightarrow> Tunnel \<Rightarrow> Tunnel \<times> bytes list \<times> tunnel_error option" where
  "HandleSCCRQ now avps hostname t =
     (if tunState t \<noteq> TunnelIdle then (t, [], Some ErrInvalidState)
      else
      (case GetAVPUint16 avps AVPAssignedTunnelID of
         None \<Rightarrow> (t, [], Some ErrMissingAVP)
       | Some tid \<Rightarrow>
           if tid = 0 then (t, [], Some ErrMissingAVP)
           else
           (let t1 = t\<lparr>remoteTunnelID := tid, control := SetRemoteTunnelID tid (control t)\<rparr>;
                t2 = (case GetAVPUint16 avps AVPReceiveWindowSize of
                        None \<Rightarrow> t1
                      | Some w \<Rightarrow> t1\<lparr>control := SetPeerWindow w (control t1)\<rparr>);
                t3 = (case GetAVPString avps AVPHostName of
                        None \<Rightarrow> t2 | Some hn \<Rightarrow> t2\<lparr>peerHostname := hn\<rparr>);
                badVersion = (case GetAVPBytes avps AVPProtocolVersion of
                        None \<Rightarrow> False | Some ver \<Rightarrow> length ver \<ge> 2 \<and> ver ! 0 \<noteq> 1)
            in
            if badVersion then
              (case sendStopCCN now 5 0 (strBytes ''unsupported version'') t3 of
                 (t4, msg) \<Rightarrow> (t4, [msg], Some ErrUnsupportedVersion))
            else
              (case controlSend now
                 [NewMessageTypeAVP MsgSCCRP, NewProtocolVersionAVP, NewFramingCapAVP,
                  NewHostNameAVP hostname, NewVendorNameAVP (strBytes ''SWAN-NG''),
                  NewAssignedTunnelIDAVP (localTunnelID t3),
                  NewReceiveWindowSizeAVP defaultReceiveWindow, NewFirmwareRevisionAVP 0x0100,
                  NewBearerCapAVP]
                 (t3\<lparr>tunState := TunnelWaitCtlConn\<rparr>) of
                 (t4, msg) \<Rightarrow> (t4, [msg], None)))))"

definition HandleSCCCN :: "Tunnel \<Rightarrow> tunnel_error + Tunnel" where
  "HandleSCCCN t =
     (if tunState t \<noteq> TunnelWaitCtlConn then Inl ErrInvalidState
      else Inr (t\<lparr>tunState := TunnelEstablished\<rparr>))"

text \<open>The counters of tunnel and session identifiers, which skip 0 when its low 16 bits wrap.\<close>

definition allocID :: "u32 \<Rightarrow> u16 \<times> u32" where
  "allocID n =
     (let n1 = n + 1; sid = ucast n1 :: u16 in
      if sid = 0 then (ucast (n1 + 1), n1 + 1) else (sid, n1))"

definition HandleICRQ :: "nat \<Rightarrow> AVP list \<Rightarrow> Tunnel \<Rightarrow> tunnel_error + Tunnel \<times> bytes" where
  "HandleICRQ now avps t =
     (if tunState t \<noteq> TunnelEstablished then Inl ErrInvalidState
      else
      (case GetAVPUint16 avps AVPAssignedSessionID of
         None \<Rightarrow> Inl ErrMissingAVP
       | Some remoteSID \<Rightarrow>
           if remoteSID = 0 then Inl ErrMissingAVP
           else
           (case allocID (nextSessionID t) of
              (localSID, n) \<Rightarrow>
                Inr (controlSend now [NewMessageTypeAVP MsgICRP, NewAssignedSessionIDAVP localSID]
                  (t\<lparr>nextSessionID := n,
                     sessions := AList.update localSID (newSession localSID remoteSID) (sessions t)\<rparr>)))))"

definition HandleICCN :: "u16 \<Rightarrow> Tunnel \<Rightarrow> tunnel_error + Tunnel" where
  "HandleICCN sid t =
     (case map_of (sessions t) sid of
        None \<Rightarrow> Inl ErrSessionNotFound
      | Some s \<Rightarrow>
          (case handleICCN s of
             None \<Rightarrow> Inl ErrInvalidState
           | Some s' \<Rightarrow> Inr (t\<lparr>sessions := AList.update sid s' (sessions t)\<rparr>)))"

definition HandleHello :: "nat \<Rightarrow> Tunnel \<Rightarrow> Tunnel" where
  "HandleHello now t = t\<lparr>lastActivity := now\<rparr>"

text \<open>What closing a session gives back.\<close>

definition released :: "Session \<Rightarrow> ip list" where
  "released s = (case snd (closeSession s) of None \<Rightarrow> [] | Some ip \<Rightarrow> [ip])"

definition HandleCDN :: "AVP list \<Rightarrow> Tunnel \<Rightarrow> tunnel_out" where
  "HandleCDN avps t =
     (case GetAVPUint16 avps AVPAssignedSessionID of
        None \<Rightarrow> (t, [], [])
      | Some sid \<Rightarrow>
          (case map_of (sessions t) sid of
             None \<Rightarrow> (t, [], [])
           | Some s \<Rightarrow> (t\<lparr>sessions := AList.delete sid (sessions t)\<rparr>, [], released s)))"

definition closeAll :: "(u16 \<times> Session) list \<Rightarrow> ip list" where
  "closeAll ss = concat (map (\<lambda>(_, s). released s) ss)"

definition HandleStopCCN :: "Tunnel \<Rightarrow> tunnel_out" where
  "HandleStopCCN t =
     (let t' = t\<lparr>tunState := TunnelDead, sessions := []\<rparr>
      in (t', [SendZLB (control t')], closeAll (sessions t)))"

definition SendCDN :: "nat \<Rightarrow> u16 \<Rightarrow> u16 \<Rightarrow> Tunnel \<Rightarrow> tunnel_out" where
  "SendCDN now sid resultCode t =
     (case controlSend now
        [NewMessageTypeAVP MsgCDN, NewAssignedSessionIDAVP sid, NewResultCodeAVP resultCode 0 []] t of
        (t1, msg) \<Rightarrow>
          (case map_of (sessions t1) sid of
             None \<Rightarrow> (t1, [msg], [])
           | Some s \<Rightarrow> (t1\<lparr>sessions := AList.delete sid (sessions t1)\<rparr>, [msg], released s)))"

definition GetSession :: "u16 \<Rightarrow> Tunnel \<Rightarrow> Session option" where
  "GetSession sid t = map_of (sessions t) sid"

definition SessionCount :: "Tunnel \<Rightarrow> nat" where
  "SessionCount t = length (sessions t)"

definition sendHello :: "nat \<Rightarrow> Tunnel \<Rightarrow> Tunnel \<times> bytes" where
  "sendHello now t = controlSend now [NewMessageTypeAVP MsgHello] t"

text \<open>The two tickers of \<^verbatim>\<open>Run\<close>. A retransmit tick that finds the limit exceeded is
  the fatal unlock of \<open>CheckRetransmit\<close>.\<close>

definition retransmitTick :: "nat \<Rightarrow> Tunnel \<Rightarrow> (Tunnel \<times> bytes list) option" where
  "retransmitTick now t =
     (case CheckRetransmit now (control t) of
        None \<Rightarrow> None
      | Some (cc, ms, alive) \<Rightarrow>
          Some (if alive then t\<lparr>control := cc\<rparr> else t\<lparr>control := cc, tunState := TunnelDead\<rparr>, ms))"

definition helloTick :: "nat \<Rightarrow> Tunnel \<Rightarrow> Tunnel \<times> bytes list" where
  "helloTick now t =
     (if tunState t \<noteq> TunnelEstablished then (t, [])
      else if now - lastActivity t \<ge> helloInterval t
        then (case sendHello now t of (t', msg) \<Rightarrow> (t', [msg]))
      else (t, []))"

definition CloseTunnel :: "nat \<Rightarrow> Tunnel \<Rightarrow> tunnel_out" where
  "CloseTunnel now t =
     (let (t1, ms) = (if tunState t = TunnelEstablished \<or> tunState t = TunnelWaitCtlConn
                      then (case sendStopCCN now 1 0 (strBytes ''shutdown'') t of (t', m) \<Rightarrow> (t', [m]))
                      else (t, []))
      in (t1\<lparr>sessions := [], tunState := TunnelDead\<rparr>, ms, closeAll (sessions t1)))"

definition computeL2TPChallengeResponse :: "(bytes \<Rightarrow> bytes) \<Rightarrow> byte \<Rightarrow> bytes \<Rightarrow> bytes \<Rightarrow> bytes" where
  "computeL2TPChallengeResponse md5 msgType sharedSecret chal = md5 ([msgType] @ sharedSecret @ chal)"

section \<open>What the operations leave alone\<close>

lemma controlSend_fields [simp]:
  "sessions (fst (controlSend now avps t)) = sessions t"
  "tunState (fst (controlSend now avps t)) = tunState t"
  "localTunnelID (fst (controlSend now avps t)) = localTunnelID t"
  "peerAddr (fst (controlSend now avps t)) = peerAddr t"
  "nextSessionID (fst (controlSend now avps t)) = nextSessionID t"
  by (simp_all add: controlSend_def split: prod.splits)

lemma controlSend_eqs:
  assumes "controlSend now avps t = (t', m)"
  shows "sessions t' = sessions t" "tunState t' = tunState t" "localTunnelID t' = localTunnelID t"
    "peerAddr t' = peerAddr t" "nextSessionID t' = nextSessionID t"
  using controlSend_fields [of now avps t] assms by simp_all

lemma HandleSCCRQ_sessions:
  assumes "HandleSCCRQ now avps hn t = (t', ms, e)"
  shows "sessions t' = sessions t \<and> localTunnelID t' = localTunnelID t \<and> peerAddr t' = peerAddr t"
  using assms
  by (auto simp: HandleSCCRQ_def Let_def sendStopCCN_def
      split: if_splits option.splits prod.splits dest: controlSend_eqs)

text \<open>A request that the daemon serves.\<close>

definition sccrqOk :: "AVP list \<Rightarrow> bool" where
  "sccrqOk avps \<longleftrightarrow>
     (case GetAVPUint16 avps AVPAssignedTunnelID of None \<Rightarrow> False | Some tid \<Rightarrow> tid \<noteq> 0) \<and>
     (case GetAVPBytes avps AVPProtocolVersion of None \<Rightarrow> True | Some ver \<Rightarrow> length ver < 2 \<or> ver ! 0 = 1)"

lemma controlSend_state:
  "controlSend now avps t = (t', m) \<Longrightarrow> tunState t' = tunState t \<and> remoteTunnelID t' = remoteTunnelID t"
  by (auto simp: controlSend_def split: prod.splits)

lemma HandleSCCRQ_cases:
  assumes "HandleSCCRQ now avps hn t = (t', ms, err)" and "tunState t = TunnelIdle"
  shows "if sccrqOk avps
    then err = None \<and> tunState t' = TunnelWaitCtlConn \<and> length ms = 1 \<and>
      GetAVPUint16 avps AVPAssignedTunnelID = Some (remoteTunnelID t')
    else err \<noteq> None \<and> tunState t' \<in> {TunnelIdle, TunnelDead}"
  using assms
  by (auto simp: HandleSCCRQ_def Let_def sendStopCCN_def sccrqOk_def
      split: if_splits option.splits prod.splits dest!: controlSend_state)

text \<open>
  The control connection follows RFC 2661: a connection request is served only in the
  idle state and only with a non-zero tunnel identifier and protocol version 1, and then
  leads to wait-ctl-conn with one reply; only a connected message in that state
  establishes the tunnel; calls are refused before that; whatever a request contains, it
  never establishes the tunnel by itself.
\<close>

theorem tunnel_state_machine:
  "(let r = HandleSCCRQ now avps hn t; t' = fst r in
      if tunState t \<noteq> TunnelIdle then r = (t, [], Some ErrInvalidState)
      else if sccrqOk avps then snd (snd r) = None \<and> tunState t' = TunnelWaitCtlConn \<and>
        length (fst (snd r)) = 1 \<and> GetAVPUint16 avps AVPAssignedTunnelID = Some (remoteTunnelID t')
      else snd (snd r) \<noteq> None \<and> tunState t' \<in> {TunnelIdle, TunnelDead}) \<and>
   HandleSCCCN t = (if tunState t = TunnelWaitCtlConn then Inr (t\<lparr>tunState := TunnelEstablished\<rparr>)
                    else Inl ErrInvalidState) \<and>
   (tunState t = TunnelEstablished \<or> HandleICRQ now avps t = Inl ErrInvalidState)"
  using HandleSCCRQ_cases [of now avps hn t "fst (HandleSCCRQ now avps hn t)"
      "fst (snd (HandleSCCRQ now avps hn t))" "snd (snd (HandleSCCRQ now avps hn t))"]
  by (auto simp: HandleSCCCN_def HandleICRQ_def Let_def) (simp_all add: HandleSCCRQ_def)

end
