(* ===== verification/NetText.thy ===== *)
theory NetText
  imports NetIP "HOL-Library.Char_ord"
begin

text \<open>
  The text forms of addresses: Go's \<^verbatim>\<open>net.ParseIP\<close> (dotted IPv4, and IPv6 with an
  ellipsis and an embedded IPv4 tail), \<^verbatim>\<open>strings.SplitN\<close> and \<^verbatim>\<open>strings.TrimSpace\<close>, as the
  pool and the configuration use them. A string is the list of its bytes; white space is
  the ASCII white space.
\<close>

section \<open>Strings\<close>

definition charCode :: "char \<Rightarrow> nat" where
  "charCode c = of_char c"

definition isSpaceChar :: "char \<Rightarrow> bool" where
  "isSpaceChar c \<longleftrightarrow> charCode c = 32 \<or> (9 \<le> charCode c \<and> charCode c \<le> 13)"

definition TrimSpace :: "string \<Rightarrow> string" where
  "TrimSpace s = rev (dropWhile isSpaceChar (rev (dropWhile isSpaceChar s)))"

definition SplitN2 :: "char \<Rightarrow> string \<Rightarrow> string list" where
  "SplitN2 sep s =
     (if sep \<in> set s
      then [takeWhile (\<lambda>c. c \<noteq> sep) s, drop 1 (dropWhile (\<lambda>c. c \<noteq> sep) s)]
      else [s])"

lemma SplitN2_append: "sep \<notin> set x \<Longrightarrow> SplitN2 sep (x @ sep # y) = [x, y]"
proof -
  assume "sep \<notin> set x"
  then have "\<forall>c\<in>set x. c \<noteq> sep" by auto
  then show ?thesis by (simp add: SplitN2_def takeWhile_append2 dropWhile_append2)
qed

definition isDigit :: "char \<Rightarrow> bool" where
  "isDigit c \<longleftrightarrow> 48 \<le> charCode c \<and> charCode c \<le> 57"

definition hexVal :: "char \<Rightarrow> nat option" where
  "hexVal c =
     (if isDigit c then Some (charCode c - 48)
      else if 97 \<le> charCode c \<and> charCode c \<le> 102 then Some (charCode c - 87)
      else if 65 \<le> charCode c \<and> charCode c \<le> 70 then Some (charCode c - 55)
      else None)"

section \<open>\<open>net.ParseIP\<close>\<close>

text \<open>The loop over the text, with the previous byte, the current octet, its digits, and
  the finished octets.\<close>

fun parseIPv4Fields :: "char option \<Rightarrow> nat \<Rightarrow> nat \<Rightarrow> bytes \<Rightarrow> string \<Rightarrow> bytes option" where
  "parseIPv4Fields prev val digLen fs [] =
     (if length fs < 3 then None else Some (fs @ [of_nat val]))"
| "parseIPv4Fields prev val digLen fs (c # cs) =
     (if isDigit c then
        (if digLen = 1 \<and> val = 0 then None
         else
           (let v = val * 10 + (charCode c - 48) in
            if v > 255 then None else parseIPv4Fields (Some c) v (digLen + 1) fs cs))
      else if c = CHR ''.'' then
        (if prev = None \<or> cs = [] \<or> prev = Some (CHR ''.'') then None
         else if length fs = 3 then None
         else parseIPv4Fields (Some c) 0 0 (fs @ [of_nat val]) cs)
      else None)"

definition hexValue :: "string \<Rightarrow> nat" where
  "hexValue ds = foldl (\<lambda>acc c. acc * 16 + the (hexVal c)) 0 ds"

function parseIPv6Loop :: "bytes \<Rightarrow> nat option \<Rightarrow> string \<Rightarrow> (bytes \<times> nat option) option" where
  "parseIPv6Loop ip ellipsis s =
     (if 16 \<le> length ip then (if s = [] then Some (ip, ellipsis) else None)
      else
       (let ds = takeWhile (\<lambda>c. hexVal c \<noteq> None) s; rest = dropWhile (\<lambda>c. hexVal c \<noteq> None) s in
        if length ds > 4 \<or> ds = [] then None
        else if rest \<noteq> [] \<and> hd rest = CHR ''.'' then
          (if ellipsis = None \<and> length ip \<noteq> 12 then None
           else if length ip + 4 > 16 then None
           else (case parseIPv4Fields None 0 0 [] s of
                   None \<Rightarrow> None
                 | Some v4 \<Rightarrow> Some (ip @ v4, ellipsis)))
        else
          (let ip' = ip @ PutUint16 (of_nat (hexValue ds)) in
           if rest = [] then Some (ip', ellipsis)
           else if hd rest \<noteq> CHR '':'' \<or> length rest = 1 then None
           else if rest ! 1 = CHR '':'' then
             (if ellipsis \<noteq> None then None
              else if length rest = 2 then Some (ip', Some (length ip'))
              else parseIPv6Loop ip' (Some (length ip')) (drop 2 rest))
           else parseIPv6Loop ip' ellipsis (drop 1 rest))))"
  by pat_completeness auto
termination
  by (relation "measure (\<lambda>(ip, _, _). 16 - length ip)") (auto simp: PutUint16_def)

definition expandEllipsis :: "bytes \<Rightarrow> nat option \<Rightarrow> bytes option" where
  "expandEllipsis ip ellipsis =
     (if length ip < 16 then
        (case ellipsis of
           None \<Rightarrow> None
         | Some e \<Rightarrow> Some (take e ip @ replicate (16 - length ip) 0 @ drop e ip))
      else if ellipsis \<noteq> None then None
      else Some ip)"

definition parseIPv6 :: "string \<Rightarrow> bytes option" where
  "parseIPv6 s =
     (if CHR ''%'' \<in> set s then None
      else
       (let lead = (2 \<le> length s \<and> s ! 0 = CHR '':'' \<and> s ! 1 = CHR '':'');
            s1 = (if lead then drop 2 s else s)
        in if lead \<and> s1 = [] then Some (replicate 16 0)
        else (case parseIPv6Loop [] (if lead then Some 0 else None) s1 of
                None \<Rightarrow> None
              | Some (ip, e) \<Rightarrow> expandEllipsis ip e)))"

text \<open>\<^verbatim>\<open>ParseIP\<close>: the 16-byte form, or nil. The first of \<^verbatim>\<open>. : %\<close> decides the family; an
  address with a zone is refused.\<close>

definition ParseIP :: "string \<Rightarrow> ip" where
  "ParseIP s =
     (case dropWhile (\<lambda>c. c \<notin> {CHR ''.'', CHR '':'', CHR ''%''}) s of
        [] \<Rightarrow> []
      | c # _ \<Rightarrow>
          if c = CHR ''.'' then
            (case parseIPv4Fields None 0 0 [] s of None \<Rightarrow> [] | Some v4 \<Rightarrow> v4InV6Prefix @ v4)
          else if c = CHR '':'' then
            (case parseIPv6 s of None \<Rightarrow> [] | Some ip \<Rightarrow> ip)
          else [])"

section \<open>Printing IPv4, and the round trip\<close>

definition digitChar :: "nat \<Rightarrow> char" where
  "digitChar n = char_of (48 + n)"

definition showOctet :: "byte \<Rightarrow> string" where
  "showOctet b =
     (let n = unat b in
      if n < 10 then [digitChar n]
      else if n < 100 then [digitChar (n div 10), digitChar (n mod 10)]
      else [digitChar (n div 100), digitChar (n div 10 mod 10), digitChar (n mod 10)])"

definition showIPv4 :: "byte \<Rightarrow> byte \<Rightarrow> byte \<Rightarrow> byte \<Rightarrow> string" where
  "showIPv4 a b c d =
     showOctet a @ ''.'' @ showOctet b @ ''.'' @ showOctet c @ ''.'' @ showOctet d"

lemma charCode_digitChar [simp]: "n < 10 \<Longrightarrow> charCode (digitChar n) = 48 + n"
  by (simp add: charCode_def digitChar_def of_char_of)

lemma isDigit_digitChar [simp]: "n < 10 \<Longrightarrow> isDigit (digitChar n)"
  by (simp add: isDigit_def)

lemma charCode_punct [simp]:
  "charCode CHR ''.'' = 46" "charCode CHR '':'' = 58" "charCode CHR ''%'' = 37"
  "charCode CHR ''-'' = 45" "charCode CHR '' '' = 32"
  by (simp_all add: charCode_def)

lemma not_isDigit_punct [simp]:
  "\<not> isDigit CHR ''.''" "\<not> isDigit CHR '':''" "\<not> isDigit CHR ''%''" "\<not> isDigit CHR ''-''"
  "\<not> isDigit CHR '' ''"
  by (simp_all add: isDigit_def)

lemma isDigit_not_space: "isDigit c \<Longrightarrow> \<not> isSpaceChar c"
  by (auto simp: isDigit_def isSpaceChar_def)

lemma showOctet_digits: "c \<in> set (showOctet b) \<Longrightarrow> isDigit c"
  using byte_unat_le [of b] by (auto simp: showOctet_def Let_def split: if_splits)

lemma showOctet_nonempty [simp]: "showOctet b \<noteq> []"
  by (simp add: showOctet_def Let_def)

lemma three_digits:
  fixes n :: nat
  shows "n div 100 * 10 + n div 10 mod 10 = n div 10" and "n div 10 * 10 + n mod 10 = n"
proof -
  have "n div 100 = n div 10 div 10" by (simp flip: div_mult2_eq)
  then show "n div 100 * 10 + n div 10 mod 10 = n div 10" by simp
qed simp

text \<open>One octet through the loop.\<close>

lemma parse_octet:
  "parseIPv4Fields prev 0 0 fs (showOctet b @ cs) =
     parseIPv4Fields (Some (last (showOctet b))) (unat b) (length (showOctet b)) fs cs"
proof -
  have b: "unat b < 256" using byte_unat_le [of b] by linarith
  consider "unat b < 10" | "10 \<le> unat b" "unat b < 100" | "100 \<le> unat b" by linarith
  then show ?thesis
  proof cases
    case 1
    then show ?thesis by (simp add: showOctet_def Let_def)
  next
    case 2
    then have "unat b div 10 < 10" "unat b div 10 \<noteq> 0" by auto
    with 2 show ?thesis by (simp add: showOctet_def Let_def)
  next
    case 3
    then have d: "unat b div 100 < 10" "unat b div 100 \<noteq> 0" "unat b div 10 mod 10 < 10"
      using b by linarith+
    have le: "unat b div 10 \<le> 255" "\<not> 255 < unat b" using b by linarith+
    from 3 b d le show ?thesis
      by (simp add: showOctet_def Let_def three_digits)
  qed
qed

lemma last_showOctet [simp]: "last (showOctet b) \<noteq> CHR ''.''"
  using showOctet_digits [of "last (showOctet b)" b] by (metis not_isDigit_punct(1) last_in_set showOctet_nonempty)

lemma parse_showIPv4: "parseIPv4Fields None 0 0 [] (showIPv4 a b c d) = Some [a, b, c, d]"
  using parse_octet [where cs = "[]"] by (simp add: showIPv4_def parse_octet)

lemma dropWhile_showIPv4:
  "dropWhile (\<lambda>c. c \<notin> {CHR ''.'', CHR '':'', CHR ''%''}) (showIPv4 a b c d) =
     ''.'' @ showOctet b @ ''.'' @ showOctet c @ ''.'' @ showOctet d"
proof -
  have "\<forall>x\<in>set (showOctet a). x \<notin> {CHR ''.'', CHR '':'', CHR ''%''}"
    using showOctet_digits by fastforce
  then show ?thesis by (simp add: showIPv4_def dropWhile_append2)
qed

lemma ParseIP_showIPv4: "ParseIP (showIPv4 a b c d) = v4InV6Prefix @ [a, b, c, d]"
  using dropWhile_showIPv4 [of a b c d] by (simp add: ParseIP_def parse_showIPv4)

lemma To4_mapped [simp]: "To4 (v4InV6Prefix @ [a, b, c, d]) = [a, b, c, d]"
  by (simp add: To4_def)

lemma showIPv4_chars: "x \<in> set (showIPv4 a b c d) \<Longrightarrow> isDigit x \<or> x = CHR ''.''"
  by (auto simp: showIPv4_def dest: showOctet_digits)

lemma showIPv4_not_space: "x \<in> set (showIPv4 a b c d) \<Longrightarrow> \<not> isSpaceChar x"
  using showIPv4_chars [of x a b c d] isDigit_not_space [of x] by (auto simp: isSpaceChar_def)

lemma dropWhile_no_space: "s \<noteq> [] \<Longrightarrow> \<not> isSpaceChar (hd s) \<Longrightarrow> dropWhile isSpaceChar s = s"
  by (cases s) auto

lemma TrimSpace_surrounded:
  assumes "s \<noteq> []" and "\<And>x. x \<in> set s \<Longrightarrow> \<not> isSpaceChar x"
    and "\<And>x. x \<in> set p \<union> set q \<Longrightarrow> isSpaceChar x"
  shows "TrimSpace (p @ s @ q) = s"
proof -
  have "dropWhile isSpaceChar (p @ s @ q) = s @ q"
    using assms by (simp add: dropWhile_append2 dropWhile_no_space)
  moreover have "dropWhile isSpaceChar (rev q @ rev s) = dropWhile isSpaceChar (rev s)"
    using assms(3) by (intro dropWhile_append2) auto
  moreover have "dropWhile isSpaceChar (rev s) = rev s"
    using assms(1,2) by (intro dropWhile_no_space) (auto simp: hd_rev)
  ultimately show ?thesis by (simp add: TrimSpace_def)
qed

end
