(* ===== verification/Ipam.thy ===== *)
theory Ipam
  imports NetText
begin

text \<open>
  The address pool of \<^verbatim>\<open>internal/ipam/pool.go\<close>: a range of IPv4 addresses with an
  allocation bitmap and a next-fit cursor. Every method holds the pool's lock for its
  whole body, so an operation is one step on the state. A failing operation leaves the
  pool as it was, so the result is an error or the new pool.
\<close>

datatype ipam_error =
    InvalidRange | InvalidStartIP | InvalidEndIP | StartAfterEnd | ZeroIP
  | PoolTooLarge nat | PoolExhausted | NotIPv4 | OutsideRange | AlreadyAllocated | NotAllocated

record Pool =
  startIP :: u32
  endIP :: u32
  poolSize :: nat
  allocBits :: "bool list"
  nextFree :: nat

definition ipToUint32 :: "ip \<Rightarrow> u32" where
  "ipToUint32 ip = (let v4 = To4 ip in if v4 = [] then 0 else Uint32 v4)"

definition uint32ToIP :: "u32 \<Rightarrow> ip" where
  "uint32ToIP n = PutUint32 n"

definition parseRange :: "string \<Rightarrow> ipam_error + ip \<times> ip" where
  "parseRange rangeStr =
     (let parts = SplitN2 (CHR ''-'') rangeStr in
      if length parts \<noteq> 2 then Inl InvalidRange
      else
        (let s = To4 (ParseIP (TrimSpace (parts ! 0)));
             e = To4 (ParseIP (TrimSpace (parts ! 1)))
         in if s = [] then Inl InvalidStartIP
            else if e = [] then Inl InvalidEndIP
            else Inr (s, e)))"

definition NewPool :: "string \<Rightarrow> ipam_error + Pool" where
  "NewPool rangeStr =
     (case parseRange rangeStr of
        Inl err \<Rightarrow> Inl err
      | Inr (s, e) \<Rightarrow>
          (let startN = ipToUint32 s; endN = ipToUint32 e in
           if startN > endN then Inl StartAfterEnd
           else if startN = 0 \<or> endN = 0 then Inl ZeroIP
           else
             (let size = unat (endN - startN) + 1 in
              if size > 65536 then Inl (PoolTooLarge size)
              else Inr \<lparr>startIP = startN, endIP = endN, poolSize = size,
                        allocBits = replicate size False, nextFree = 0\<rparr>)))"

text \<open>The loop of \<^verbatim>\<open>Allocate\<close> from iteration \<open>i\<close> on, with \<open>k\<close> iterations left.\<close>

primrec allocLoop :: "Pool \<Rightarrow> nat \<Rightarrow> nat \<Rightarrow> nat option" where
  "allocLoop p i 0 = None"
| "allocLoop p i (Suc k) =
     (let idx = (nextFree p + i) mod poolSize p in
      if \<not> allocBits p ! idx then Some idx else allocLoop p (i + 1) k)"

definition Allocate :: "Pool \<Rightarrow> ipam_error + ip \<times> Pool" where
  "Allocate p =
     (case allocLoop p 0 (poolSize p) of
        None \<Rightarrow> Inl PoolExhausted
      | Some idx \<Rightarrow>
          Inr (uint32ToIP (startIP p + of_nat idx),
               p\<lparr>allocBits := (allocBits p)[idx := True], nextFree := (idx + 1) mod poolSize p\<rparr>))"

definition AllocateSpecific :: "Pool \<Rightarrow> ip \<Rightarrow> ipam_error + Pool" where
  "AllocateSpecific p ip0 =
     (let ip = To4 ip0 in
      if ip = [] then Inl NotIPv4
      else
        (let n = ipToUint32 ip in
         if n < startIP p \<or> n > endIP p then Inl OutsideRange
         else
           (let idx = unat (n - startIP p) in
            if allocBits p ! idx then Inl AlreadyAllocated
            else Inr (p\<lparr>allocBits := (allocBits p)[idx := True]\<rparr>))))"

definition Release :: "Pool \<Rightarrow> ip \<Rightarrow> ipam_error + Pool" where
  "Release p ip0 =
     (let ip = To4 ip0 in
      if ip = [] then Inl NotIPv4
      else
        (let n = ipToUint32 ip in
         if n < startIP p \<or> n > endIP p then Inl OutsideRange
         else
           (let idx = unat (n - startIP p) in
            if \<not> allocBits p ! idx then Inl NotAllocated
            else
              (let p' = p\<lparr>allocBits := (allocBits p)[idx := False]\<rparr> in
               Inr (if idx < nextFree p' then p'\<lparr>nextFree := idx\<rparr> else p')))))"

definition Available :: "Pool \<Rightarrow> nat" where
  "Available p = foldl (\<lambda>count allocated. if \<not> allocated then count + 1 else count) 0 (allocBits p)"

definition PoolSize :: "Pool \<Rightarrow> nat" where "PoolSize p = poolSize p"
definition StartIP :: "Pool \<Rightarrow> ip" where "StartIP p = uint32ToIP (startIP p)"
definition EndIP :: "Pool \<Rightarrow> ip" where "EndIP p = uint32ToIP (endIP p)"

section \<open>The invariant and the abstraction\<close>

definition ipam_ok :: "Pool \<Rightarrow> bool" where
  "ipam_ok p \<longleftrightarrow> startIP p \<le> endIP p \<and> poolSize p = unat (endIP p - startIP p) + 1 \<and>
     length (allocBits p) = poolSize p \<and> nextFree p < poolSize p"

text \<open>What the bitmap stands for: the set of addresses in use, out of those of the range.\<close>

definition ipAt :: "Pool \<Rightarrow> nat \<Rightarrow> ip" where
  "ipAt p i = uint32ToIP (startIP p + of_nat i)"

definition inUse :: "Pool \<Rightarrow> ip set" where
  "inUse p = ipAt p ` {i. i < poolSize p \<and> allocBits p ! i}"

definition poolRange :: "Pool \<Rightarrow> ip set" where
  "poolRange p = ipAt p ` {i. i < poolSize p}"

lemma length_uint32ToIP [simp]: "length (uint32ToIP n) = 4"
  by (simp add: uint32ToIP_def)

lemma uint32ToIP_nonempty [simp]: "uint32ToIP n \<noteq> []"
  using length_uint32ToIP [of n] by (metis length_0_conv zero_neq_numeral)

lemma ipToUint32_inverse [simp]: "ipToUint32 (uint32ToIP n) = n"
  by (simp add: ipToUint32_def) (simp add: uint32ToIP_def)

lemma uint32ToIP_inverse: "length ip = 4 \<Longrightarrow> uint32ToIP (ipToUint32 ip) = ip"
  by (auto simp: ipToUint32_def uint32ToIP_def PutUint32_Uint32 numeral_eq_Suc length_Suc_conv)

lemma uint32ToIP_inject [simp]: "uint32ToIP m = uint32ToIP n \<longleftrightarrow> m = n"
  by (metis ipToUint32_inverse)

lemma ipam_ok_bound: "ipam_ok p \<Longrightarrow> unat (startIP p) + poolSize p = unat (endIP p) + 1"
  by (simp add: ipam_ok_def unat_sub word_le_nat_alt)

lemma ipAt_offset:
  assumes "ipam_ok p" and "i < poolSize p"
  shows "unat (startIP p + of_nat i) = unat (startIP p) + i"
proof -
  have "unat (startIP p) + i < 4294967296"
    using ipam_ok_bound [OF assms(1)] assms(2) u32_unat_less [of "endIP p"] by linarith
  then show ?thesis by (simp add: unat_word_ariths(1) unat_of_nat)
qed

lemma ipAt_inject:
  assumes "ipam_ok p" and "i < poolSize p" and "j < poolSize p"
  shows "ipAt p i = ipAt p j \<longleftrightarrow> i = j"
proof
  assume "ipAt p i = ipAt p j"
  then have "unat (startIP p + of_nat i) = unat (startIP p + of_nat j)" by (simp add: ipAt_def)
  then show "i = j" using ipAt_offset [OF assms(1,2)] ipAt_offset [OF assms(1,3)] by linarith
qed simp

text \<open>An address inside the range is that of its index.\<close>

lemma range_index:
  assumes "ipam_ok p" and "length ip = 4"
    and "\<not> (ipToUint32 ip < startIP p \<or> ipToUint32 ip > endIP p)"
  shows "unat (ipToUint32 ip - startIP p) < poolSize p \<and> ipAt p (unat (ipToUint32 ip - startIP p)) = ip"
proof -
  let ?n = "ipToUint32 ip"
  have le: "startIP p \<le> ?n" "?n \<le> endIP p" using assms(3) by auto
  then have "unat (?n - startIP p) \<le> unat (endIP p - startIP p)"
    by (simp add: unat_sub word_le_nat_alt)
  moreover have "ipAt p (unat (?n - startIP p)) = ip"
    using assms(2) by (simp add: ipAt_def uint32ToIP_inverse)
  ultimately show ?thesis using assms(1) by (simp add: ipam_ok_def)
qed

lemma ipAt_index:
  assumes "ipam_ok p" and "i < poolSize p"
  shows "To4 (ipAt p i) = ipAt p i" "ipAt p i \<noteq> []" "ipToUint32 (ipAt p i) = startIP p + of_nat i"
    "\<not> (startIP p + of_nat i < startIP p)" "\<not> (startIP p + of_nat i > endIP p)"
    "unat (startIP p + of_nat i - startIP p) = i"
proof -
  have u: "unat (startIP p + of_nat i) = unat (startIP p) + i" using ipAt_offset [OF assms] .
  show "\<not> (startIP p + of_nat i < startIP p)" "\<not> (startIP p + of_nat i > endIP p)"
    using u ipam_ok_bound [OF assms(1)] assms(2) by (auto simp: word_less_nat_alt)
  have "unat (of_nat i :: u32) = i"
    using u32_unat_less [of "startIP p + of_nat i"] u by (simp add: unat_of_nat)
  then show "unat (startIP p + of_nat i - startIP p) = i" by simp
qed (simp_all add: ipAt_def)

section \<open>Each operation on the abstraction\<close>

lemma allocLoop_Some:
  "allocLoop p i k = Some idx \<Longrightarrow> 0 < poolSize p \<Longrightarrow> idx < poolSize p \<and> \<not> allocBits p ! idx"
  by (induction k arbitrary: i) (auto simp: Let_def split: if_splits)

lemma allocLoop_None:
  "allocLoop p i k = None \<Longrightarrow> j < k \<Longrightarrow> allocBits p ! ((nextFree p + i + j) mod poolSize p)"
proof (induction k arbitrary: i j)
  case (Suc k)
  from Suc.prems(1) have h: "allocBits p ! ((nextFree p + i) mod poolSize p)"
    "allocLoop p (Suc i) k = None"
    by (auto simp: Let_def split: if_splits)
  show ?case
  proof (cases j)
    case 0
    with h(1) show ?thesis by simp
  next
    case (Suc j')
    with Suc.IH [OF h(2), of j'] Suc.prems(2) show ?thesis by simp
  qed
qed simp

lemma cyclic_covers:
  assumes "(x :: nat) < n" and "f < n"
  shows "\<exists>j<n. (f + j) mod n = x"
proof (cases "f \<le> x")
  case True
  then show ?thesis using assms by (intro exI [of _ "x - f"]) auto
next
  case False
  then have "f + (n + x - f) = x + n" using assms by linarith
  then have "(f + (n + x - f)) mod n = x" using assms by simp
  with False assms show ?thesis by (intro exI [of _ "n + x - f"]) auto
qed

lemma inUse_update:
  assumes "ipam_ok p" and "idx < poolSize p"
  shows "inUse (p\<lparr>allocBits := (allocBits p)[idx := b]\<rparr>) =
    (if b then insert (ipAt p idx) (inUse p) else inUse p - {ipAt p idx})"
proof -
  have l: "length (allocBits p) = poolSize p" using assms(1) by (simp add: ipam_ok_def)
  have e: "ipAt (p\<lparr>allocBits := x\<rparr>) = ipAt p" for x by (simp add: ipAt_def fun_eq_iff)
  have "{i. i < poolSize p \<and> (allocBits p)[idx := b] ! i} =
      (if b then insert idx {i. i < poolSize p \<and> allocBits p ! i}
       else {i. i < poolSize p \<and> allocBits p ! i} - {idx})"
    using assms(2) l by (auto simp: nth_list_update)
  moreover have "inj_on (ipAt p) {i. i < poolSize p}"
    using ipAt_inject [OF assms(1)] by (auto intro: inj_onI)
  then have "ipAt p ` ({i. i < poolSize p \<and> allocBits p ! i} - {idx}) =
      ipAt p ` {i. i < poolSize p \<and> allocBits p ! i} - ipAt p ` {idx}"
    using assms(2) by (intro inj_on_image_set_diff) auto
  ultimately show ?thesis by (simp add: inUse_def e)
qed

lemma inUse_nextFree [simp]:
  "inUse (p\<lparr>nextFree := n\<rparr>) = inUse p" "poolRange (p\<lparr>nextFree := n\<rparr>) = poolRange p"
  "poolRange (p\<lparr>allocBits := b\<rparr>) = poolRange p" "ipAt (p\<lparr>nextFree := n\<rparr>) = ipAt p"
  by (simp_all add: inUse_def poolRange_def ipAt_def fun_eq_iff)

lemma Allocate_Inr:
  assumes "ipam_ok p" and "Allocate p = Inr (ip, p')"
  shows "ipam_ok p' \<and> ip \<in> poolRange p \<and> ip \<notin> inUse p \<and> inUse p' = insert ip (inUse p) \<and>
    poolRange p' = poolRange p"
proof -
  obtain idx where a: "allocLoop p 0 (poolSize p) = Some idx"
    and ip: "ip = ipAt p idx"
    and p': "p' = p\<lparr>allocBits := (allocBits p)[idx := True], nextFree := (idx + 1) mod poolSize p\<rparr>"
    using assms(2) by (auto simp: Allocate_def ipAt_def split: option.splits)
  have pos: "0 < poolSize p" using assms(1) by (auto simp: ipam_ok_def)
  have i: "idx < poolSize p" "\<not> allocBits p ! idx" using allocLoop_Some [OF a pos] by auto
  have "ip \<notin> inUse p" using i ipAt_inject [OF assms(1)] by (auto simp: inUse_def ip)
  moreover have "inUse p' = insert ip (inUse p)"
    using inUse_update [OF assms(1) i(1), of True] by (simp add: p' ip)
  moreover have "ipam_ok p'" using assms(1) pos by (simp add: ipam_ok_def p')
  ultimately show ?thesis using i(1) by (auto simp: poolRange_def ip p' ipAt_def)
qed

lemma Allocate_Inl:
  assumes "ipam_ok p"
  shows "(\<exists>e. Allocate p = Inl e) \<longleftrightarrow> inUse p = poolRange p"
proof -
  have f: "nextFree p < poolSize p" using assms by (simp add: ipam_ok_def)
  have "(\<exists>e. Allocate p = Inl e) \<longleftrightarrow> (\<forall>i<poolSize p. allocBits p ! i)"
  proof
    assume "\<exists>e. Allocate p = Inl e"
    then have n: "allocLoop p 0 (poolSize p) = None" by (auto simp: Allocate_def split: option.splits)
    show "\<forall>i<poolSize p. allocBits p ! i"
      using cyclic_covers [OF _ f] allocLoop_None [OF n] by (metis add_0_right)
  next
    assume "\<forall>i<poolSize p. allocBits p ! i"
    then have "allocLoop p 0 (poolSize p) = None"
      using allocLoop_Some [of p 0 "poolSize p"] f by (cases "allocLoop p 0 (poolSize p)") auto
    then show "\<exists>e. Allocate p = Inl e" by (simp add: Allocate_def)
  qed
  also have "\<dots> \<longleftrightarrow> {i. i < poolSize p \<and> allocBits p ! i} = {i. i < poolSize p}" by auto
  also have "\<dots> \<longleftrightarrow> inUse p = poolRange p"
    unfolding inUse_def poolRange_def using ipAt_inject [OF assms]
    by (intro inj_on_image_eq_iff [symmetric, where C = "{i. i < poolSize p}"]) (auto intro: inj_onI)
  finally show ?thesis .
qed

lemma AllocateSpecific_Inr:
  assumes "ipam_ok p" and "AllocateSpecific p ip = Inr p'"
  shows "ipam_ok p' \<and> To4 ip \<in> poolRange p \<and> To4 ip \<notin> inUse p \<and>
    inUse p' = insert (To4 ip) (inUse p) \<and> poolRange p' = poolRange p"
proof -
  let ?i = "unat (ipToUint32 (To4 ip) - startIP p)"
  have c: "To4 ip \<noteq> []" "\<not> (ipToUint32 (To4 ip) < startIP p \<or> ipToUint32 (To4 ip) > endIP p)"
    "\<not> allocBits p ! ?i" "p' = p\<lparr>allocBits := (allocBits p)[?i := True]\<rparr>"
    using assms(2) by (auto simp: AllocateSpecific_def Let_def split: if_splits)
  then have r: "?i < poolSize p" "ipAt p ?i = To4 ip"
    using range_index [OF assms(1) _ c(2)] To4_cases [of ip] by auto
  have "To4 ip \<notin> inUse p"
    using r c(3) ipAt_inject [OF assms(1)] by (auto simp: inUse_def)
  moreover have "ipam_ok p'" using assms(1) by (simp add: ipam_ok_def c(4))
  moreover have "To4 ip \<in> poolRange p" using r by (force simp: poolRange_def)
  ultimately show ?thesis using inUse_update [OF assms(1) r(1), of True] r(2) by (simp add: c(4))
qed

lemma Release_Inr_iff:
  assumes "ipam_ok p"
  shows "(\<exists>p'. Release p ip = Inr p') \<longleftrightarrow> To4 ip \<in> inUse p"
proof
  assume "\<exists>p'. Release p ip = Inr p'"
  then have c: "To4 ip \<noteq> []" "\<not> (ipToUint32 (To4 ip) < startIP p \<or> ipToUint32 (To4 ip) > endIP p)"
    "allocBits p ! unat (ipToUint32 (To4 ip) - startIP p)"
    by (auto simp: Release_def Let_def split: if_splits)
  then show "To4 ip \<in> inUse p"
    using range_index [OF assms _ c(2)] To4_cases [of ip] by (force simp: inUse_def)
next
  assume "To4 ip \<in> inUse p"
  then obtain i where i: "i < poolSize p" "allocBits p ! i" "To4 ip = ipAt p i" by (auto simp: inUse_def)
  then show "\<exists>p'. Release p ip = Inr p'"
    using ipAt_index [OF assms i(1)] by (simp add: Release_def Let_def)
qed

lemma Release_Inr:
  assumes "ipam_ok p" and "Release p ip = Inr p'"
  shows "ipam_ok p' \<and> inUse p' = inUse p - {To4 ip} \<and> poolRange p' = poolRange p"
proof -
  let ?i = "unat (ipToUint32 (To4 ip) - startIP p)"
  let ?q = "p\<lparr>allocBits := (allocBits p)[?i := False]\<rparr>"
  have c: "To4 ip \<noteq> []" "\<not> (ipToUint32 (To4 ip) < startIP p \<or> ipToUint32 (To4 ip) > endIP p)"
    "p' = (if ?i < nextFree p then ?q\<lparr>nextFree := ?i\<rparr> else ?q)"
    using assms(2) by (auto simp: Release_def Let_def split: if_splits)
  then have r: "?i < poolSize p" "ipAt p ?i = To4 ip"
    using range_index [OF assms(1) _ c(2)] To4_cases [of ip] by auto
  have "inUse ?q = inUse p - {To4 ip}" using inUse_update [OF assms(1) r(1), of False] r(2) by simp
  moreover have "ipam_ok p'" using assms(1) r(1) by (simp add: ipam_ok_def c(3))
  ultimately show ?thesis by (simp add: c(3))
qed

lemma AllocateSpecific_free:
  assumes "ipam_ok p" and "To4 ip \<in> poolRange p" and "To4 ip \<notin> inUse p"
  shows "\<exists>p'. AllocateSpecific p ip = Inr p'"
proof -
  obtain i where i: "i < poolSize p" "To4 ip = ipAt p i" using assms(2) by (auto simp: poolRange_def)
  with assms(3) have "\<not> allocBits p ! i" by (force simp: inUse_def)
  with ipAt_index [OF assms(1) i(1)] i(2) show ?thesis by (simp add: AllocateSpecific_def Let_def)
qed

lemma poolRange_To4: "ip \<in> poolRange p \<Longrightarrow> To4 ip = ip"
  by (auto simp: poolRange_def ipAt_def)

lemma inUse_range: "inUse p \<subseteq> poolRange p"
  by (auto simp: inUse_def poolRange_def)

text \<open>The counting loop counts the free bits.\<close>

lemma foldl_count:
  "foldl (\<lambda>count allocated. if \<not> allocated then count + 1 else count) n bs =
     n + length (filter Not bs)"
  by (induction bs arbitrary: n) simp_all

lemma Available_inUse:
  assumes "ipam_ok p"
  shows "Available p + card (inUse p) = poolSize p"
proof -
  have l: "length (allocBits p) = poolSize p" using assms by (simp add: ipam_ok_def)
  have "inj_on (ipAt p) {i. i < poolSize p \<and> allocBits p ! i}"
    using ipAt_inject [OF assms] by (auto intro: inj_onI)
  then have "card (inUse p) = card {i. i < length (allocBits p) \<and> allocBits p ! i}"
    by (simp add: inUse_def card_image l)
  also have "\<dots> = length (filter id (allocBits p))" by (simp add: length_filter_conv_card)
  finally show ?thesis
    using sum_length_filter_compl [of id "allocBits p"] l
    by (simp add: Available_def foldl_count comp_def)
qed

section \<open>The interface the lease holders use\<close>

text \<open>
  What a client of an address pool may rely on. The ledger is the list of addresses it
  holds: with the laws, the ledger stays duplicate-free and equal to the used addresses.
\<close>

locale address_pool =
  fixes ok :: "'p \<Rightarrow> bool"
    and used :: "'p \<Rightarrow> ip set"
    and addrs :: "'p \<Rightarrow> ip set"
    and alloc :: "'p \<Rightarrow> 'e + ip \<times> 'p"
    and release :: "'p \<Rightarrow> ip \<Rightarrow> 'e + 'p"
  assumes alloc_Inr: "ok p \<Longrightarrow> alloc p = Inr (ip, p') \<Longrightarrow>
      ok p' \<and> ip \<in> addrs p \<and> ip \<notin> used p \<and> used p' = insert ip (used p) \<and> addrs p' = addrs p"
    and alloc_Inl: "ok p \<Longrightarrow> (\<exists>e. alloc p = Inl e) \<longleftrightarrow> used p = addrs p"
    and release_iff: "ok p \<Longrightarrow> (\<exists>p'. release p ip = Inr p') \<longleftrightarrow> To4 ip \<in> used p"
    and release_Inr: "ok p \<Longrightarrow> release p ip = Inr p' \<Longrightarrow>
      ok p' \<and> used p' = used p - {To4 ip} \<and> addrs p' = addrs p"
begin

lemma take_lease:
  assumes "ok p" "distinct L" "set L = used p" "alloc p = Inr (ip, p')"
  shows "ok p' \<and> distinct (ip # L) \<and> set (ip # L) = used p' \<and> addrs p' = addrs p"
  using alloc_Inr [OF assms(1,4)] assms(2,3) by auto

lemma give_lease:
  assumes "ok p" "distinct L" "set L = used p" "release p ip = Inr p'"
  shows "ok p' \<and> distinct (remove1 (To4 ip) L) \<and> set (remove1 (To4 ip) L) = used p' \<and>
    addrs p' = addrs p"
  using release_Inr [OF assms(1,4)] assms(2,3) by auto

lemma alloc_total: "ok p \<Longrightarrow> used p \<noteq> addrs p \<Longrightarrow> \<exists>ip p'. alloc p = Inr (ip, p')"
  using alloc_Inl [of p] by (cases "alloc p") auto

lemma release_own: "ok p \<Longrightarrow> alloc p = Inr (ip, p') \<Longrightarrow> To4 ip = ip \<Longrightarrow>
    \<exists>p''. release p' ip = Inr p'' \<and> used p'' = used p"
proof -
  assume a: "ok p" "alloc p = Inr (ip, p')" "To4 ip = ip"
  note p' = alloc_Inr [OF a(1,2)]
  with release_iff [of p' ip] a(3) obtain p'' where r: "release p' ip = Inr p''" by auto
  with p' a(3) release_Inr [of p' ip p''] show ?thesis by auto
qed

end

interpretation pool: address_pool ipam_ok inUse poolRange Allocate Release
  using Allocate_Inr Allocate_Inl Release_Inr_iff Release_Inr by unfold_locales blast+

section \<open>Histories of a pool\<close>

datatype lease_op = Take | Reserve ip | Give ip

text \<open>Any calls, by any clients; the ledger records the addresses handed out and not yet
  taken back.\<close>

fun leaseStep :: "lease_op \<Rightarrow> Pool \<times> ip list \<Rightarrow> Pool \<times> ip list" where
  "leaseStep Take (p, L) = (case Allocate p of Inl _ \<Rightarrow> (p, L) | Inr (ip, p') \<Rightarrow> (p', ip # L))"
| "leaseStep (Reserve ip) (p, L) =
     (case AllocateSpecific p ip of Inl _ \<Rightarrow> (p, L) | Inr p' \<Rightarrow> (p', To4 ip # L))"
| "leaseStep (Give ip) (p, L) =
     (case Release p ip of Inl _ \<Rightarrow> (p, L) | Inr p' \<Rightarrow> (p', remove1 (To4 ip) L))"

definition ledger_ok :: "ip set \<Rightarrow> Pool \<times> ip list \<Rightarrow> bool" where
  "ledger_ok R s \<longleftrightarrow> ipam_ok (fst s) \<and> distinct (snd s) \<and> set (snd s) = inUse (fst s) \<and>
     poolRange (fst s) = R"

lemma leaseStep_ok: "ledger_ok R s \<Longrightarrow> ledger_ok R (leaseStep ev s)"
proof (induction ev s rule: leaseStep.induct)
  case (1 p L)
  then show ?case
    using pool.take_lease [of p L] by (auto simp: ledger_ok_def split: sum.splits)
next
  case (2 ip p L)
  then show ?case
    using AllocateSpecific_Inr [of p ip] by (auto simp: ledger_ok_def split: sum.splits)
next
  case (3 ip p L)
  then show ?case
    using pool.give_lease [of p L ip] by (auto simp: ledger_ok_def split: sum.splits)
qed

lemma leases_ok: "ledger_ok R s \<Longrightarrow> ledger_ok R (fold leaseStep evs s)"
  by (induction evs arbitrary: s) (simp_all add: leaseStep_ok)

lemma NewPool_ok: "NewPool r = Inr p \<Longrightarrow> ipam_ok p \<and> inUse p = {} \<and> PoolSize p \<le> 65536"
  by (auto simp: NewPool_def ipam_ok_def inUse_def PoolSize_def Let_def simp del: replicate_Suc
      split: sum.splits if_splits)

lemma card_poolRange: "ipam_ok p \<Longrightarrow> card (poolRange p) = poolSize p"
  using ipAt_inject [of p] by (simp add: poolRange_def card_image inj_on_def)

text \<open>
  C11. No address is leased twice: after any history of allocations, reservations and
  releases on a new pool, the addresses handed out and not yet taken back are pairwise
  different, lie in the configured range, and together with the free ones they make up
  the whole pool; the next allocation fails exactly when every address is leased.
\<close>

theorem leases_distinct:
  assumes "NewPool r = Inr p" and "fold leaseStep evs (p, []) = (p', L)"
  shows "distinct L \<and> set L \<subseteq> poolRange p \<and> Available p' + length L = PoolSize p \<and>
    ((\<exists>e. Allocate p' = Inl e) \<longleftrightarrow> length L = PoolSize p)"
proof -
  have "ledger_ok (poolRange p) (p, [])" using NewPool_ok [OF assms(1)] by (simp add: ledger_ok_def)
  from leases_ok [OF this, of evs] have l: "ipam_ok p'" "distinct L" "set L = inUse p'"
    "poolRange p' = poolRange p"
    by (simp_all add: ledger_ok_def assms(2))
  have "poolSize p' = poolSize p"
    using l(1,4) card_poolRange [of p'] card_poolRange [of p] NewPool_ok [OF assms(1)] by simp
  moreover have c: "card (inUse p') = length L" using l(2,3) distinct_card by metis
  moreover have "finite (poolRange p')" by (simp add: poolRange_def)
  then have "inUse p' = poolRange p' \<longleftrightarrow> length L = poolSize p'"
    using card_subset_eq [of "poolRange p'" "inUse p'"] inUse_range c card_poolRange [OF l(1)] by auto
  ultimately show ?thesis
    using l inUse_range [of p'] Available_inUse [OF l(1)] pool.alloc_Inl [OF l(1)]
    by (auto simp: PoolSize_def)
qed

text \<open>
  Release gives the address back and nothing else: it succeeds exactly for leased
  addresses (in any textual form of the address), frees one address, and the same address
  can then be reserved again, which restores the set of leases.
\<close>

theorem release_frees_exactly_one:
  assumes "ipam_ok p"
  shows "(\<exists>p'. Release p ip = Inr p') \<longleftrightarrow> To4 ip \<in> inUse p" and
    "Release p ip = Inr p' \<Longrightarrow> Available p' = Available p + 1 \<and> inUse p' = inUse p - {To4 ip} \<and>
       (\<exists>p''. AllocateSpecific p' ip = Inr p'' \<and> inUse p'' = inUse p)"
proof -
  show "(\<exists>p'. Release p ip = Inr p') \<longleftrightarrow> To4 ip \<in> inUse p" by (rule Release_Inr_iff [OF assms])
  assume r: "Release p ip = Inr p'"
  then have u: "To4 ip \<in> inUse p" using Release_Inr_iff [OF assms] by blast
  note p' = Release_Inr [OF assms r]
  have "finite (inUse p)" by (simp add: inUse_def)
  with u have "card (inUse p) = card (inUse p') + 1" using p' card.remove by fastforce
  moreover have "poolSize p' = poolSize p"
    using p' card_poolRange [OF assms] card_poolRange [of p'] by simp
  ultimately have "Available p' = Available p + 1"
    using Available_inUse [OF assms] Available_inUse [of p'] p' by linarith
  moreover obtain p'' where a: "AllocateSpecific p' ip = Inr p''"
    using AllocateSpecific_free [of p' ip] p' u inUse_range [of p] by blast
  ultimately show "Available p' = Available p + 1 \<and> inUse p' = inUse p - {To4 ip} \<and>
      (\<exists>p''. AllocateSpecific p' ip = Inr p'' \<and> inUse p'' = inUse p)"
    using AllocateSpecific_Inr [of p' ip p''] p' u by auto
qed

lemma parseRange_text:
  "parseRange (showIPv4 a b c d @ '' - '' @ showIPv4 a' b' c' d') = Inr ([a, b, c, d], [a', b', c', d'])"
proof -
  let ?x = "showIPv4 a b c d" and ?y = "showIPv4 a' b' c' d'"
  have dash: "CHR ''-'' \<notin> set ?x"
    using showIPv4_chars [of "CHR ''-''" a b c d] by (auto simp: isDigit_def)
  have sp: "\<not> isSpaceChar z" if "z \<in> set ?x \<or> z \<in> set ?y" for z
    using that showIPv4_not_space by blast
  have "SplitN2 (CHR ''-'') (?x @ '' - '' @ ?y) = [?x @ '' '', '' '' @ ?y]"
    using dash SplitN2_append [of "CHR ''-''" "?x @ '' ''" "'' '' @ ?y"] by simp
  moreover have ne: "?x \<noteq> []" "?y \<noteq> []" by (simp_all add: showIPv4_def)
  have "TrimSpace (?x @ '' '') = ?x" "TrimSpace ('' '' @ ?y) = ?y"
    using TrimSpace_surrounded [of ?x "[]" "'' ''"] TrimSpace_surrounded [of ?y "'' ''" "[]"] ne sp
    by (simp_all add: isSpaceChar_def)
  ultimately show ?thesis
    by (simp add: parseRange_def ParseIP_showIPv4)
qed

text \<open>
  The range text means what it says: from the dotted forms of two addresses, with
  blanks around the dash, the constructor makes the empty pool of exactly the addresses
  between them, whenever the first is not after the second, neither is 0.0.0.0, and there
  are at most 65536.
\<close>

theorem NewPool_from_text:
  assumes "s = Uint32 [a, b, c, d]" and "e = Uint32 [a', b', c', d']"
    and "s \<le> e" and "0 < s" and "unat e - unat s < 65536"
  shows "\<exists>p. NewPool (showIPv4 a b c d @ '' - '' @ showIPv4 a' b' c' d') = Inr p \<and>
    StartIP p = [a, b, c, d] \<and> EndIP p = [a', b', c', d'] \<and>
    PoolSize p = unat e - unat s + 1 \<and> Available p = PoolSize p"
proof -
  have "unat (e - s) = unat e - unat s" using assms(3) by (simp add: unat_sub)
  moreover have "e \<noteq> 0" "\<not> e < s" "s \<noteq> 0" using assms(3,4) by auto
  ultimately show ?thesis
    unfolding NewPool_def parseRange_text sum.case prod.case
    using assms by (simp add: ipToUint32_def Let_def StartIP_def EndIP_def PoolSize_def
        uint32ToIP_def PutUint32_Uint32 Available_def foldl_count)
qed

text \<open>A concrete pool.\<close>

definition example_range :: string where
  "example_range = showIPv4 10 0 0 10 @ '' - '' @ showIPv4 10 0 0 12"

definition example_pool :: Pool where
  "example_pool = \<lparr>startIP = 0x0A00000A, endIP = 0x0A00000C, poolSize = 3,
     allocBits = [False, False, False], nextFree = 0\<rparr>"

lemma NewPool_example: "NewPool example_range = Inr example_pool"
  unfolding NewPool_def example_range_def parseRange_text sum.case prod.case
  by (simp add: ipToUint32_def Uint32_def Let_def
      example_pool_def numeral_3_eq_3)

theorem leases_distinct_witness:
  "\<exists>p L. fold leaseStep [Take, Take, Give [10, 0, 0, 10], Take] (example_pool, []) = (p, L) \<and>
     distinct L \<and> Available p + length L = 3"
  using leases_distinct [OF NewPool_example, of "[Take, Take, Give [10, 0, 0, 10], Take]"]
  by (cases "fold leaseStep [Take, Take, Give [10, 0, 0, 10], Take] (example_pool, [])")
    (auto simp: PoolSize_def example_pool_def)

theorem release_frees_exactly_one_witness:
  "\<exists>ip p p'. Allocate example_pool = Inr (ip, p) \<and> Release p ip = Inr p' \<and>
     Available p' = Available p + 1"
proof -
  obtain ip p where a: "Allocate example_pool = Inr (ip, p)"
    by (cases "Allocate example_pool") (auto, code_simp)
  have ok: "ipam_ok example_pool" using NewPool_ok [OF NewPool_example] by simp
  note p = Allocate_Inr [OF ok a]
  then have "To4 ip \<in> inUse p" using poolRange_To4 [of ip example_pool] by simp
  with release_frees_exactly_one(1) [of p ip] p obtain p' where "Release p ip = Inr p'" by blast
  with release_frees_exactly_one(2) [of p ip p'] a p show ?thesis by blast
qed

theorem NewPool_from_text_witness:
  "\<exists>p. NewPool (showIPv4 10 0 0 10 @ '' - '' @ showIPv4 10 0 0 250) = Inr p \<and> PoolSize p = 241"
  using NewPool_from_text [of "0x0A00000A" 10 0 0 10 "0x0A0000FA" 10 0 0 250]
  by (auto simp: Uint32_def)

end
