(* ===== verification/L2tpServer.thy ===== *)
theory L2tpServer
  imports L2tpTunnel Ipam
begin

text \<open>
  The L2TP server (\<^verbatim>\<open>internal/l2tp/server.go\<close>). Its two maps point to the same tunnels, so
  tunnels live in a heap and the maps hold references. A step is one received datagram
  (or one tick of a tunnel's timers); its effects are the datagrams handed to the
  response sender and the packets written to the TUN device, in order. The address pool
  is that of \<open>Ipam\<close>; \<^const>\<open>None\<close> is a run-time panic.
\<close>

type_synonym tunnel_key = "(ip_text \<times> nat) \<times> u16"

record Server =
  tunnels :: "(tunnel_key \<times> nat) list"
  tunnelsByLocalID :: "(u16 \<times> nat) list"
  tunHeap :: "nat \<Rightarrow> Tunnel"
  nextRef :: nat
  srvPool :: "Pool option"
  srvUserDB :: ProfileUserDB
  srvHostname :: bytes
  srvGateway :: ip
  srvDns1 :: ip
  srvDns2 :: ip
  hasRespSender :: bool
  hasTunWriter :: bool
  nextTunnelID :: u32

record ServerConfig =
  cfgHostname :: bytes
  cfgGatewayIP :: ip
  cfgDNS1 :: ip
  cfgDNS2 :: ip
  cfgPool :: "Pool option"
  cfgUserDB :: ProfileUserDB
  cfgSender :: bool
  cfgTUNWriter :: bool

datatype l2tp_effect = SendL2TP bytes udp_addr | WriteTUN bytes

definition NewServer :: "ServerConfig \<Rightarrow> Server" where
  "NewServer cfg =
     \<lparr>tunnels = [], tunnelsByLocalID = [],
      tunHeap = (\<lambda>_. newTunnel 0 \<lparr>addrIP = [], addrPort = 0\<rparr> 0), nextRef = 0,
      srvPool = cfgPool cfg, srvUserDB = cfgUserDB cfg, srvHostname = cfgHostname cfg,
      srvGateway = cfgGatewayIP cfg, srvDns1 = cfgDNS1 cfg, srvDns2 = cfgDNS2 cfg,
      hasRespSender = cfgSender cfg, hasTunWriter = cfgTUNWriter cfg, nextTunnelID = 1\<rparr>"

definition setTunnel :: "nat \<Rightarrow> Tunnel \<Rightarrow> Server \<Rightarrow> Server" where
  "setTunnel r t srv = srv\<lparr>tunHeap := (tunHeap srv)(r := t)\<rparr>"

text \<open>The send function of a tunnel, for the messages of one operation.\<close>

definition sendTo :: "Server \<Rightarrow> udp_addr \<Rightarrow> bytes list \<Rightarrow> l2tp_effect list" where
  "sendTo srv addr ms = (if hasRespSender srv then map (\<lambda>m. SendL2TP m addr) ms else [])"

definition allocateIP :: "Server \<Rightarrow> (ip \<times> Server) option" where
  "allocateIP srv =
     (case srvPool srv of
        None \<Rightarrow> None
      | Some p \<Rightarrow>
          (case Allocate p of
             Inl _ \<Rightarrow> None
           | Inr (ip, p') \<Rightarrow> Some (ip, srv\<lparr>srvPool := Some p'\<rparr>)))"

definition releaseIP :: "ip \<Rightarrow> Server \<Rightarrow> Server" where
  "releaseIP ip srv =
     (case srvPool srv of
        None \<Rightarrow> srv
      | Some p \<Rightarrow>
          if ip = [] then srv
          else (case Release p ip of Inl _ \<Rightarrow> srv | Inr p' \<Rightarrow> srv\<lparr>srvPool := Some p'\<rparr>))"

definition removeTunnel :: "nat \<Rightarrow> Server \<Rightarrow> Server" where
  "removeTunnel r srv =
     srv\<lparr>tunnelsByLocalID := AList.delete (localTunnelID (tunHeap srv r)) (tunnelsByLocalID srv),
         tunnels := (case find (\<lambda>e. snd e = r) (tunnels srv) of
                       None \<Rightarrow> tunnels srv
                     | Some e \<Rightarrow> AList.delete (fst e) (tunnels srv))\<rparr>"

definition handleNewTunnel ::
  "nat \<Rightarrow> L2TPHeader \<Rightarrow> bytes \<Rightarrow> udp_addr \<Rightarrow> Server \<Rightarrow> Server \<times> l2tp_effect list" where
  "handleNewTunnel now hdr payload addr srv =
     (case ParseAVPs payload of
        Inl _ \<Rightarrow> (srv, [])
      | Inr avps \<Rightarrow>
          if GetMessageType avps \<noteq> MsgSCCRQ then (srv, [])
          else
          (case allocID (nextTunnelID srv) of
             (localTID, n) \<Rightarrow>
               (let srv1 = srv\<lparr>nextTunnelID := n\<rparr>;
                    t0 = newTunnel localTID addr now;
                    t1 = t0\<lparr>control := fst (Receive (HdrNs hdr) (HdrNr hdr) False (control t0))\<rparr>
                in case HandleSCCRQ now avps (srvHostname srv1) t1 of
                     (t2, ms, Some err) \<Rightarrow> (srv1, sendTo srv1 addr ms)
                   | (t2, ms, None) \<Rightarrow>
                       (let remote = (case GetAVPUint16 avps AVPAssignedTunnelID of
                                        None \<Rightarrow> 0 | Some v \<Rightarrow> v);
                            key = ((IPString (addrIP addr), addrPort addr), remote);
                            r = nextRef srv1
                        in ((setTunnel r t2 srv1)
                              \<lparr>nextRef := r + 1,
                               tunnels := AList.update key r (tunnels srv1),
                               tunnelsByLocalID := AList.update localTID r (tunnelsByLocalID srv1)\<rparr>,
                            sendTo srv1 addr (ms @ [SendZLB (control t2)]))))))"

text \<open>The ICCN branch: the session is connected, gets an address, and starts PPP.\<close>

definition routeICCN ::
  "nat \<Rightarrow> ppp_rnd \<Rightarrow> nat \<Rightarrow> L2TPHeader \<Rightarrow> Server \<Rightarrow> Server \<times> l2tp_effect list" where
  "routeICCN now rnd r hdr srv =
     (let t = tunHeap srv r in
      case HandleICCN (SessionID hdr) t of
        Inl _ \<Rightarrow> (srv, [])
      | Inr t1 \<Rightarrow>
          (let srv1 = setTunnel r t1 srv in
           case GetSession (SessionID hdr) t1 of
             None \<Rightarrow> (srv1, [])
           | Some sess \<Rightarrow>
               (case allocateIP srv1 of
                  None \<Rightarrow>
                    (case SendCDN now (localSessionID sess) 4 t1 of
                       (t2, ms, ips) \<Rightarrow>
                         (fold releaseIP ips (setTunnel r t2 srv1), sendTo srv1 (peerAddr t1) ms))
                | Some (ip, srv2) \<Rightarrow>
                    (case InitPPP (srvHostname srv) (rndMagic rnd) ip (srvGateway srv) (srvDns1 srv)
                            (srvDns2 srv) sess of
                       (sess', lcpReq) \<Rightarrow>
                         (setTunnel r (t1\<lparr>sessions := AList.update (SessionID hdr) sess' (sessions t1)\<rparr>) srv2,
                          sendTo srv1 (peerAddr t1)
                            (case SendData (remoteTunnelID t1) sess' lcpReq of
                               None \<Rightarrow> [] | Some pkt \<Rightarrow> [pkt]))))))"

definition routeControlMessage ::
  "nat \<Rightarrow> ppp_rnd \<Rightarrow> nat \<Rightarrow> L2TPHeader \<Rightarrow> u16 \<Rightarrow> AVP list \<Rightarrow> Server \<Rightarrow> Server \<times> l2tp_effect list" where
  "routeControlMessage now rnd r hdr msgType avps srv =
     (let t = tunHeap srv r in
      if msgType = MsgSCCCN then
        (case HandleSCCCN t of Inl _ \<Rightarrow> (srv, []) | Inr t' \<Rightarrow> (setTunnel r t' srv, []))
      else if msgType = MsgICRQ then
        (case HandleICRQ now avps t of
           Inl _ \<Rightarrow> (srv, [])
         | Inr (t', m) \<Rightarrow> (setTunnel r t' srv, sendTo srv (peerAddr t) [m, SendZLB (control t')]))
      else if msgType = MsgICCN then routeICCN now rnd r hdr srv
      else if msgType = MsgHello then (setTunnel r (HandleHello now t) srv, [])
      else if msgType = MsgCDN then
        (case HandleCDN avps t of
           (t', ms, ips) \<Rightarrow> (fold releaseIP ips (setTunnel r t' srv), sendTo srv (peerAddr t) ms))
      else if msgType = MsgStopCCN then
        (case HandleStopCCN t of
           (t', ms, ips) \<Rightarrow>
             (removeTunnel r (fold releaseIP ips (setTunnel r t' srv)), sendTo srv (peerAddr t) ms))
      else (srv, []))"

definition handleControlMessage ::
  "nat \<Rightarrow> ppp_rnd \<Rightarrow> L2TPHeader \<Rightarrow> bytes \<Rightarrow> udp_addr \<Rightarrow> Server \<Rightarrow> Server \<times> l2tp_effect list" where
  "handleControlMessage now rnd hdr payload addr srv =
     (if TunnelID hdr = 0 then handleNewTunnel now hdr payload addr srv
      else
      (case map_of (tunnelsByLocalID srv) (TunnelID hdr) of
         None \<Rightarrow> (srv, [])
       | Some r \<Rightarrow>
           (let t0 = (tunHeap srv r)\<lparr>lastActivity := now\<rparr> in
            case Receive (HdrNs hdr) (HdrNr hdr) (length payload = 0) (control t0) of
              (cc, inOrder) \<Rightarrow>
                (let t1 = t0\<lparr>control := cc\<rparr>;
                     srv1 = setTunnel r t1 srv;
                     zlb = sendTo srv (peerAddr t1) [SendZLB cc]
                 in if \<not> inOrder then (srv1, zlb)
                    else
                    (case ParseAVPs payload of
                       Inl _ \<Rightarrow> (srv1, zlb)
                     | Inr avps \<Rightarrow>
                         (case routeControlMessage now rnd r hdr (GetMessageType avps) avps srv1 of
                            (srv2, effs) \<Rightarrow> (srv2, zlb @ effs)))))))"

definition handleDataMessage ::
  "(bytes \<Rightarrow> bytes) \<Rightarrow> nat \<Rightarrow> ppp_rnd \<Rightarrow> L2TPHeader \<Rightarrow> bytes \<Rightarrow> Server \<Rightarrow> (Server \<times> l2tp_effect list) option" where
  "handleDataMessage md5 now rnd hdr payload srv =
     (case map_of (tunnelsByLocalID srv) (TunnelID hdr) of
        None \<Rightarrow> Some (srv, [])
      | Some r \<Rightarrow>
          (let t = (tunHeap srv r)\<lparr>lastActivity := now\<rparr>; srv1 = setTunnel r t srv in
           case GetSession (SessionID hdr) t of
             None \<Rightarrow> Some (srv1, [])
           | Some sess \<Rightarrow>
               (case HandleData \<lparr>envMd5 = md5, envUsers = srvUserDB srv, envHasTun = hasTunWriter srv\<rparr>
                       rnd payload sess of
                  None \<Rightarrow> None
                | Some (sess', resps, tun) \<Rightarrow>
                    Some (setTunnel r (t\<lparr>sessions := AList.update (SessionID hdr) sess' (sessions t)\<rparr>) srv1,
                      map WriteTUN tun @
                      concat (map (\<lambda>resp. case SendData (remoteTunnelID t) sess' resp of
                                            None \<Rightarrow> [] | Some pkt \<Rightarrow> sendTo srv (peerAddr t) [pkt]) resps)))))"

definition HandlePacket ::
  "(bytes \<Rightarrow> bytes) \<Rightarrow> nat \<Rightarrow> ppp_rnd \<Rightarrow> bytes \<Rightarrow> udp_addr \<Rightarrow> Server \<Rightarrow> (Server \<times> l2tp_effect list) option" where
  "HandlePacket md5 now rnd data addr srv =
     (case ParseL2TPHeader data of
        Inl _ \<Rightarrow> Some (srv, [])
      | Inr (hdr, payload) \<Rightarrow>
          if IsControl hdr then Some (handleControlMessage now rnd hdr payload addr srv)
          else handleDataMessage md5 now rnd hdr payload srv)"

text \<open>The timers of one tunnel.\<close>

definition tunnelTick :: "nat \<Rightarrow> nat \<Rightarrow> Server \<Rightarrow> (Server \<times> l2tp_effect list) option" where
  "tunnelTick now r srv =
     (case retransmitTick now (tunHeap srv r) of
        None \<Rightarrow> None
      | Some (t1, ms) \<Rightarrow>
          (case helloTick now t1 of
             (t2, hs) \<Rightarrow> Some (setTunnel r t2 srv, sendTo srv (peerAddr t2) (ms @ hs))))"

definition TunnelCount :: "Server \<Rightarrow> nat" where
  "TunnelCount srv = length (tunnels srv)"

fun closeTunnels :: "nat \<Rightarrow> nat list \<Rightarrow> Server \<Rightarrow> Server \<times> l2tp_effect list" where
  "closeTunnels now [] srv = (srv, [])"
| "closeTunnels now (r # rs) srv =
     (case CloseTunnel now (tunHeap srv r) of
        (t', ms, ips) \<Rightarrow>
          (case closeTunnels now rs (fold releaseIP ips (setTunnel r t' srv)) of
             (srv', effs) \<Rightarrow> (srv', sendTo srv (peerAddr t') ms @ effs)))"

definition CloseServer :: "nat \<Rightarrow> Server \<Rightarrow> Server \<times> l2tp_effect list" where
  "CloseServer now srv =
     (case closeTunnels now (map snd (tunnels srv)) srv of
        (srv', effs) \<Rightarrow> (srv'\<lparr>tunnels := [], tunnelsByLocalID := []\<rparr>, effs))"

section \<open>Which session holds which address\<close>

definition tunLease :: "Tunnel \<Rightarrow> u16 \<Rightarrow> ip option" where
  "tunLease t sid =
     (case map_of (sessions t) sid of
        None \<Rightarrow> None
      | Some s \<Rightarrow> if assignedIP s = [] then None else Some (assignedIP s))"

definition leaseOf :: "Server \<Rightarrow> nat \<times> u16 \<Rightarrow> ip option" where
  "leaseOf srv x =
     (if fst x \<in> snd ` set (tunnelsByLocalID srv) then tunLease (tunHeap srv (fst x)) (snd x) else None)"

definition usedOf :: "Server \<Rightarrow> ip set" where
  "usedOf srv = (case srvPool srv of None \<Rightarrow> {} | Some p \<Rightarrow> inUse p)"

text \<open>No address is held twice, and what is held is in use in the pool.\<close>

definition lease_inv :: "('k \<Rightarrow> ip option) \<Rightarrow> ip set \<Rightarrow> bool" where
  "lease_inv L used \<longleftrightarrow> (\<forall>x y a. L x = Some a \<and> L y = Some a \<longrightarrow> x = y) \<and>
     (\<forall>x a. L x = Some a \<longrightarrow> a \<in> used)"

lemma lease_add: "lease_inv L used \<Longrightarrow> a \<notin> used \<Longrightarrow> lease_inv (L(x := Some a)) (insert a used)"
proof -
  assume l: "lease_inv L used" and a: "a \<notin> used"
  have "y = z" if "(L(x := Some a)) y = Some b" "(L(x := Some a)) z = Some b" for y z b
    using that l a by (cases "y = x"; cases "z = x") (auto simp: lease_inv_def)
  moreover have "b \<in> insert a used" if "(L(x := Some a)) y = Some b" for y b
    using that l by (cases "y = x") (auto simp: lease_inv_def)
  ultimately show ?thesis unfolding lease_inv_def by blast
qed

lemma lease_sub:
  assumes "lease_inv L used" and "\<And>x a. L' x = Some a \<Longrightarrow> L x = Some a \<and> a \<notin> S" and "used - S \<subseteq> used'"
  shows "lease_inv L' used'"
proof -
  have "x = y" if "L' x = Some a" "L' y = Some a" for x y a
    using that assms(2) assms(1) unfolding lease_inv_def by blast
  moreover have "a \<in> used'" if "L' x = Some a" for x a
  proof -
    from assms(2) [OF that] have "a \<in> used - S" using assms(1) by (auto simp: lease_inv_def)
    with assms(3) show ?thesis by blast
  qed
  ultimately show ?thesis unfolding lease_inv_def by blast
qed

definition sess_ok :: "Tunnel \<Rightarrow> bool" where
  "sess_ok t \<longleftrightarrow> distinct (map fst (sessions t)) \<and>
     (\<forall>sid s. map_of (sessions t) sid = Some s \<longrightarrow> sessState s \<noteq> SessionClosed)"

definition srv_inv :: "ip set \<Rightarrow> Server \<Rightarrow> bool" where
  "srv_inv R srv \<longleftrightarrow> lease_inv (leaseOf srv) (usedOf srv) \<and>
     (\<forall>p. srvPool srv = Some p \<longrightarrow> ipam_ok p \<and> poolRange p = R) \<and>
     (\<forall>r\<in>snd ` set (tunnelsByLocalID srv). r < nextRef srv) \<and> (\<forall>r. sess_ok (tunHeap srv r))"

lemma srv_invD:
  assumes "srv_inv R srv"
  shows srv_inv_lease: "lease_inv (leaseOf srv) (usedOf srv)"
    and srv_inv_pool: "\<And>p. srvPool srv = Some p \<Longrightarrow> ipam_ok p \<and> poolRange p = R"
    and srv_inv_ref: "\<And>r. r \<in> snd ` set (tunnelsByLocalID srv) \<Longrightarrow> r < nextRef srv"
    and srv_inv_sess: "\<And>r. sess_ok (tunHeap srv r)"
  using assms unfolding srv_inv_def by blast+

lemma lease_inv_used: "lease_inv L used \<Longrightarrow> L x = Some a \<Longrightarrow> a \<in> used"
  unfolding lease_inv_def by (elim conjE) (drule spec, drule spec, erule (1) mp)

lemma lease_inv_unique: "lease_inv L used \<Longrightarrow> L x = Some a \<Longrightarrow> L y = Some a \<Longrightarrow> x = y"
  unfolding lease_inv_def by (elim conjE) blast

lemmas srv_inv_used = lease_inv_used [OF srv_inv_lease]
lemmas srv_inv_unique = lease_inv_unique [OF srv_inv_lease]

lemma srv_inv_sub:
  assumes "srv_inv R srv" and "\<And>x a. leaseOf srv' x = Some a \<Longrightarrow> leaseOf srv x = Some a \<and> a \<notin> S"
    and "usedOf srv - S \<subseteq> usedOf srv'"
    and "\<And>p. srvPool srv' = Some p \<Longrightarrow> ipam_ok p \<and> poolRange p = R"
    and "\<And>r. r \<in> snd ` set (tunnelsByLocalID srv') \<Longrightarrow> r < nextRef srv'" and "\<And>r. sess_ok (tunHeap srv' r)"
  shows "srv_inv R srv'"
proof -
  have "lease_inv (leaseOf srv) (usedOf srv)" using assms(1) by (simp add: srv_inv_def)
  from lease_sub [OF this assms(2,3)] show ?thesis using assms(4-6) by (simp add: srv_inv_def)
qed

lemma setTunnel_fields [simp]:
  "tunnelsByLocalID (setTunnel r t srv) = tunnelsByLocalID srv" "srvPool (setTunnel r t srv) = srvPool srv"
  "nextRef (setTunnel r t srv) = nextRef srv" "usedOf (setTunnel r t srv) = usedOf srv"
  "tunHeap (setTunnel r t srv) = (tunHeap srv)(r := t)" "tunnels (setTunnel r t srv) = tunnels srv"
  by (simp_all add: setTunnel_def usedOf_def)

text \<open>Changing a tunnel so that it holds a part of what it held.\<close>

lemma srv_inv_setTunnel:
  assumes "srv_inv R srv" and "sess_ok t" and "\<And>sid a. tunLease t sid = Some a \<Longrightarrow> tunLease (tunHeap srv r) sid = Some a"
  shows "srv_inv R (setTunnel r t srv)"
  using assms by (intro srv_inv_sub [OF assms(1), where S = "{}"])
    (auto simp: srv_inv_def leaseOf_def split: if_splits)

lemma tunLease_same: "sessions t' = sessions t \<Longrightarrow> tunLease t' = tunLease t"
  by (simp add: tunLease_def fun_eq_iff)

lemma sess_ok_same: "sessions t' = sessions t \<Longrightarrow> sess_ok t' = sess_ok t"
  by (simp add: sess_ok_def)

lemma srv_inv_same_sessions:
  assumes "srv_inv R srv" and "sessions t = sessions (tunHeap srv r)"
  shows "srv_inv R (setTunnel r t srv)"
proof (rule srv_inv_setTunnel [OF assms(1)])
  show "sess_ok t" using assms(1) sess_ok_same [OF assms(2)] by (simp add: srv_inv_def)
qed (simp add: tunLease_same [OF assms(2)])

section \<open>Releasing\<close>

lemma releaseIP_fields [simp]:
  "tunnelsByLocalID (releaseIP ip srv) = tunnelsByLocalID srv" "tunHeap (releaseIP ip srv) = tunHeap srv"
  "nextRef (releaseIP ip srv) = nextRef srv"
  by (auto simp: releaseIP_def split: option.splits sum.splits)

lemma releaseIP_pool:
  assumes "\<And>p. srvPool srv = Some p \<Longrightarrow> ipam_ok p \<and> poolRange p = R"
  shows "(\<forall>p. srvPool (releaseIP ip srv) = Some p \<longrightarrow> ipam_ok p \<and> poolRange p = R) \<and>
    usedOf srv - {To4 ip} \<subseteq> usedOf (releaseIP ip srv)"
proof (cases "\<exists>p p'. srvPool srv = Some p \<and> ip \<noteq> [] \<and> Release p ip = Inr p'")
  case True
  then obtain p p' where p: "srvPool srv = Some p" "ip \<noteq> []" "Release p ip = Inr p'" by blast
  with pool.release_Inr [OF _ p(3)] assms show ?thesis by (simp add: releaseIP_def usedOf_def)
next
  case False
  then have "releaseIP ip srv = srv"
    by (cases "srvPool srv") (auto simp: releaseIP_def split: sum.splits)
  with assms show ?thesis by auto
qed

lemma fold_releaseIP:
  assumes "\<And>p. srvPool srv = Some p \<Longrightarrow> ipam_ok p \<and> poolRange p = R"
  shows "(\<forall>p. srvPool (fold releaseIP ips srv) = Some p \<longrightarrow> ipam_ok p \<and> poolRange p = R) \<and>
    usedOf srv - To4 ` set ips \<subseteq> usedOf (fold releaseIP ips srv) \<and>
    tunnelsByLocalID (fold releaseIP ips srv) = tunnelsByLocalID srv \<and>
    tunHeap (fold releaseIP ips srv) = tunHeap srv \<and> nextRef (fold releaseIP ips srv) = nextRef srv"
  using assms
proof (induction ips arbitrary: srv)
  case (Cons ip ips)
  have r: "(\<forall>p. srvPool (releaseIP ip srv) = Some p \<longrightarrow> ipam_ok p \<and> poolRange p = R) \<and>
    usedOf srv - {To4 ip} \<subseteq> usedOf (releaseIP ip srv)"
    by (rule releaseIP_pool) (rule Cons.prems)
  have ih: "(\<forall>p. srvPool (fold releaseIP ips (releaseIP ip srv)) = Some p \<longrightarrow> ipam_ok p \<and> poolRange p = R) \<and>
    usedOf (releaseIP ip srv) - To4 ` set ips \<subseteq> usedOf (fold releaseIP ips (releaseIP ip srv)) \<and>
    tunnelsByLocalID (fold releaseIP ips (releaseIP ip srv)) = tunnelsByLocalID (releaseIP ip srv) \<and>
    tunHeap (fold releaseIP ips (releaseIP ip srv)) = tunHeap (releaseIP ip srv) \<and>
    nextRef (fold releaseIP ips (releaseIP ip srv)) = nextRef (releaseIP ip srv)"
    by (rule Cons.IH) (use r in blast)
  have "usedOf srv - To4 ` set (ip # ips) \<subseteq> usedOf (fold releaseIP ips (releaseIP ip srv))"
    using r ih by fastforce
  with ih show ?case by simp
qed simp

lemma released_eq: "sessState s \<noteq> SessionClosed \<Longrightarrow> released s = (if assignedIP s = [] then [] else [assignedIP s])"
  by (simp add: released_def closeSession_def)

lemma used_To4: "srv_inv R srv \<Longrightarrow> a \<in> usedOf srv \<Longrightarrow> To4 a = a"
proof -
  assume "srv_inv R srv" "a \<in> usedOf srv"
  then obtain p where "a \<in> inUse p" by (cases "srvPool srv") (simp_all add: usedOf_def)
  then have "a \<in> poolRange p" using inUse_range by blast
  then show ?thesis by (rule poolRange_To4)
qed

text \<open>Dropping sessions of one registered tunnel and releasing what they held.\<close>

lemma srv_inv_drop:
  assumes inv: "srv_inv R srv" and r: "r \<in> snd ` set (tunnelsByLocalID srv)" and ok: "sess_ok t"
    and sub: "\<And>sid a. tunLease t sid = Some a \<Longrightarrow> tunLease (tunHeap srv r) sid = Some a \<and> a \<notin> set ips"
    and ips: "\<And>a. a \<in> set ips \<Longrightarrow> \<exists>sid. tunLease (tunHeap srv r) sid = Some a"
  shows "srv_inv R (fold releaseIP ips (setTunnel r t srv))"
proof -
  have used: "a \<in> usedOf srv" if m: "a \<in> set ips" for a
  proof -
    obtain sid where "tunLease (tunHeap srv r) sid = Some a" using ips [OF m] by blast
    then have "leaseOf srv (r, sid) = Some a" using r by (simp add: leaseOf_def)
    then show ?thesis by (rule srv_inv_used [OF inv])
  qed
  have "To4 ` set ips = id ` set ips"
    by (rule image_cong [OF refl]) (simp add: used_To4 [OF inv used])
  then have t4: "To4 ` set ips = set ips" by simp
  have p0: "ipam_ok p \<and> poolRange p = R" if "srvPool (setTunnel r t srv) = Some p" for p
    using that srv_inv_pool [OF inv] by simp
  let ?s = "fold releaseIP ips (setTunnel r t srv)"
  note fs = fold_releaseIP [of "setTunnel r t srv" R ips, OF p0]
  have fp: "\<And>p. srvPool ?s = Some p \<Longrightarrow> ipam_ok p \<and> poolRange p = R" using fs by blast
  have fu: "usedOf srv - set ips \<subseteq> usedOf ?s" using fs t4 by simp
  have fk: "tunnelsByLocalID ?s = tunnelsByLocalID srv" "tunHeap ?s = (tunHeap srv)(r := t)"
    "nextRef ?s = nextRef srv"
    using fs by simp_all
  have other: "a \<notin> set ips" if l: "leaseOf srv (q, sid) = Some a" "q \<noteq> r" for q sid a
  proof
    assume "a \<in> set ips"
    then obtain sid' where "leaseOf srv (r, sid') = Some a" using ips r by (auto simp: leaseOf_def)
    with srv_inv_unique [OF inv l(1)] have "(q, sid) = (r, sid')" .
    with l(2) show False by simp
  qed
  show ?thesis
  proof (rule srv_inv_sub [OF inv _ fu fp])
    fix x a
    assume x: "leaseOf ?s x = Some a"
    show "leaseOf srv x = Some a \<and> a \<notin> set ips"
    proof (cases "fst x = r")
      case True
      have "tunLease t (snd x) = Some a" using x fk r True by (simp add: leaseOf_def)
      with sub [OF this] r True show ?thesis by (simp add: leaseOf_def)
    next
      case False
      have "leaseOf srv x = Some a" using x False by (simp add: leaseOf_def fk split: if_split_asm)
      with other [of "fst x" "snd x" a] False show ?thesis by simp
    qed
  next
    show "\<And>q. sess_ok (tunHeap ?s q)" using ok srv_inv_sess [OF inv] by (simp add: fk)
  next
    show "\<And>q. q \<in> snd ` set (tunnelsByLocalID ?s) \<Longrightarrow> q < nextRef ?s"
      using srv_inv_ref [OF inv] by (simp add: fk)
  qed
qed

section \<open>Each step keeps the leases apart\<close>

lemma tunLease_Some: "tunLease t sid = Some a \<longleftrightarrow> (\<exists>s. map_of (sessions t) sid = Some s \<and> assignedIP s = a \<and> a \<noteq> [])"
  by (auto simp: tunLease_def split: option.splits)

lemma map_of_update: "map_of (AList.update k v xs) = (map_of xs)(k := Some v)"
  by (rule update_conv')

lemma map_of_delete: "map_of (AList.delete k xs) = (map_of xs)(k := None)"
  by (rule delete_conv')

lemma sess_ok_update:
  "sess_ok t \<Longrightarrow> sessState s \<noteq> SessionClosed \<Longrightarrow> sessions t' = AList.update sid s (sessions t) \<Longrightarrow> sess_ok t'"
  by (simp add: sess_ok_def distinct_update map_of_update)

lemma sess_ok_delete: "sess_ok t \<Longrightarrow> sessions t' = AList.delete sid (sessions t) \<Longrightarrow> sess_ok t'"
  by (simp add: sess_ok_def distinct_delete map_of_delete)

lemma sess_ok_mapD: "sess_ok t \<Longrightarrow> map_of (sessions t) sid = Some s \<Longrightarrow> sessState s \<noteq> SessionClosed"
  by (simp add: sess_ok_def)

lemma srv_inv_update_session:
  assumes "srv_inv R srv" and "sessions t = AList.update sid s (sessions (tunHeap srv r))"
    and "sessState s \<noteq> SessionClosed"
    and "assignedIP s \<noteq> [] \<Longrightarrow> \<exists>s0. map_of (sessions (tunHeap srv r)) sid = Some s0 \<and> assignedIP s0 = assignedIP s"
  shows "srv_inv R (setTunnel r t srv)"
proof (rule srv_inv_setTunnel [OF assms(1)])
  show "sess_ok t" using sess_ok_update [OF srv_inv_sess [OF assms(1)] assms(3,2)] .
  show "tunLease (tunHeap srv r) x = Some a" if "tunLease t x = Some a" for x a
    using that assms(2,4) by (cases "x = sid") (auto simp: tunLease_Some map_of_update)
qed

lemma srv_inv_delete_session:
  assumes inv: "srv_inv R srv" and r: "r \<in> snd ` set (tunnelsByLocalID srv)"
    and t: "sessions t = AList.delete sid (sessions (tunHeap srv r))"
    and s: "map_of (sessions (tunHeap srv r)) sid = Some s"
  shows "srv_inv R (fold releaseIP (released s) (setTunnel r t srv))"
proof (rule srv_inv_drop [OF inv r])
  note ok = srv_inv_sess [OF inv, of r]
  have rel: "a \<in> set (released s) \<longleftrightarrow> tunLease (tunHeap srv r) sid = Some a" for a
    using released_eq [OF sess_ok_mapD [OF ok s]] s by (auto simp: tunLease_Some)
  show "sess_ok t" using sess_ok_delete [OF ok t] .
  show "\<exists>sid. tunLease (tunHeap srv r) sid = Some a" if "a \<in> set (released s)" for a
    using that rel by blast
  show "tunLease (tunHeap srv r) x = Some a \<and> a \<notin> set (released s)" if "tunLease t x = Some a" for x a
  proof -
    have x: "x \<noteq> sid" "tunLease (tunHeap srv r) x = Some a"
      using that t by (auto simp: tunLease_Some map_of_delete split: if_splits)
    have "tunLease (tunHeap srv r) sid \<noteq> Some a"
    proof
      assume "tunLease (tunHeap srv r) sid = Some a"
      then have "(r, x) = (r, sid)"
        using x(2) r by (intro srv_inv_unique [OF inv, of _ a]) (simp_all add: leaseOf_def)
      with x(1) show False by simp
    qed
    with x(2) rel show ?thesis by simp
  qed
qed

lemma closeAll_leases:
  assumes "sess_ok t" and "a \<in> set (closeAll (sessions t))"
  shows "\<exists>sid. tunLease t sid = Some a"
proof -
  obtain sid s where m: "(sid, s) \<in> set (sessions t)" "a \<in> set (released s)"
    using assms(2) by (auto simp: closeAll_def)
  then have "map_of (sessions t) sid = Some s" using assms(1) by (simp add: sess_ok_def)
  with m(2) released_eq [OF sess_ok_mapD [OF assms(1) this]] have "tunLease t sid = Some a"
    by (auto simp: tunLease_Some split: if_splits)
  then show ?thesis by blast
qed

lemma srv_inv_close_all:
  assumes inv: "srv_inv R srv" and r: "r \<in> snd ` set (tunnelsByLocalID srv)" and t: "sessions t = []"
  shows "srv_inv R (fold releaseIP (closeAll (sessions (tunHeap srv r))) (setTunnel r t srv))"
proof (rule srv_inv_drop [OF inv r])
  show "sess_ok t" by (simp add: t sess_ok_def)
  show "\<exists>sid. tunLease (tunHeap srv r) sid = Some a"
    if "a \<in> set (closeAll (sessions (tunHeap srv r)))" for a
    using closeAll_leases [OF srv_inv_sess [OF inv] that] .
qed (simp add: tunLease_def t)

lemma srv_inv_removeTunnel:
  assumes "srv_inv R srv"
  shows "srv_inv R (removeTunnel r srv)"
proof -
  have sub: "snd ` set (AList.delete k xs) \<subseteq> snd ` set xs" for k and xs :: "(u16 \<times> nat) list"
    by (auto simp: AList.delete_eq)
  have f: "tunHeap (removeTunnel r srv) = tunHeap srv" "usedOf (removeTunnel r srv) = usedOf srv"
    "srvPool (removeTunnel r srv) = srvPool srv" "nextRef (removeTunnel r srv) = nextRef srv"
    "snd ` set (tunnelsByLocalID (removeTunnel r srv)) \<subseteq> snd ` set (tunnelsByLocalID srv)"
    using sub by (simp_all add: removeTunnel_def usedOf_def)
  show ?thesis
  proof (rule srv_inv_sub [OF assms, where S = "{}"])
    show "leaseOf srv x = Some a \<and> a \<notin> {}" if "leaseOf (removeTunnel r srv) x = Some a" for x a
      using that f(5) by (auto simp: leaseOf_def f(1) split: if_split_asm)
    show "\<And>q. q \<in> snd ` set (tunnelsByLocalID (removeTunnel r srv)) \<Longrightarrow> q < nextRef (removeTunnel r srv)"
      using srv_inv_ref [OF assms] f(4) subsetD [OF f(5)] by metis
  qed (simp_all add: f srv_inv_pool [OF assms] srv_inv_sess [OF assms])
qed

lemma alist_update_range: "snd ` set (AList.update k v xs) \<subseteq> insert v (snd ` set xs)"
  by (induction xs) auto

lemma handleNewTunnel_inv:
  assumes inv: "srv_inv R srv" and h: "handleNewTunnel now hdr payload addr srv = (srv', effs)"
  shows "srv_inv R srv'"
proof -
  have n: "srv_inv R (srv\<lparr>nextTunnelID := n\<rparr>)" for n
  proof -
    have "leaseOf (srv\<lparr>nextTunnelID := n\<rparr>) = leaseOf srv" by (simp add: leaseOf_def fun_eq_iff)
    with inv show ?thesis by (simp add: srv_inv_def usedOf_def)
  qed
  consider "srv' = srv" | n where "srv' = srv\<lparr>nextTunnelID := n\<rparr>"
    | n t key tid where "sessions t = []"
        "srv' = setTunnel (nextRef srv) t (srv\<lparr>nextTunnelID := n\<rparr>)
           \<lparr>nextRef := nextRef srv + 1, tunnels := AList.update key (nextRef srv) (tunnels srv),
            tunnelsByLocalID := AList.update tid (nextRef srv) (tunnelsByLocalID srv)\<rparr>"
    using h HandleSCCRQ_sessions
    by (fastforce simp: handleNewTunnel_def Let_def newTunnel_def
        split: sum.splits if_splits prod.splits option.splits)
  then show ?thesis
  proof cases
    case 3
    have rg: "snd ` set (tunnelsByLocalID srv') \<subseteq> insert (nextRef srv) (snd ` set (tunnelsByLocalID srv))"
      unfolding 3(2) using alist_update_range [of tid "nextRef srv" "tunnelsByLocalID srv"] by simp
    have f: "tunHeap srv' = (tunHeap srv)(nextRef srv := t)" "nextRef srv' = nextRef srv + 1"
      "usedOf srv' = usedOf srv" "srvPool srv' = srvPool srv"
      by (simp_all add: 3(2) setTunnel_def usedOf_def)
    show ?thesis
    proof (rule srv_inv_sub [OF inv, where S = "{}"])
      fix x a
      assume x: "leaseOf srv' x = Some a"
      then have l: "tunLease (tunHeap srv' (fst x)) (snd x) = Some a"
        "fst x \<in> snd ` set (tunnelsByLocalID srv')" by (simp_all add: leaseOf_def split: if_split_asm)
      then have "fst x \<noteq> nextRef srv" using 3(1) by (auto simp: f tunLease_def)
      with l rg show "leaseOf srv x = Some a \<and> a \<notin> {}" by (auto simp: leaseOf_def f)
    next
      show "q < nextRef srv'" if "q \<in> snd ` set (tunnelsByLocalID srv')" for q
        using subsetD [OF rg that] srv_inv_ref [OF inv, of q] less_Suc_eq [of q "nextRef srv"]
        by (metis f(2) Suc_eq_plus1 insertE)
    next
      show "sess_ok (tunHeap srv' q)" for q
        using srv_inv_sess [OF inv, of q] 3(1) by (simp add: f sess_ok_def)
    qed (simp_all add: f srv_inv_pool [OF inv])
  qed (simp_all add: inv n)
qed

lemma allocateIP_Some:
  assumes "allocateIP srv = Some (ip, srv')"
  obtains p p' where "srvPool srv = Some p" "Allocate p = Inr (ip, p')" "srv' = srv\<lparr>srvPool := Some p'\<rparr>"
  using assms by (auto simp: allocateIP_def split: option.splits sum.splits)

text \<open>A fresh address for one session of a registered tunnel.\<close>

lemma srv_inv_assign:
  assumes inv: "srv_inv R srv" and r: "r \<in> snd ` set (tunnelsByLocalID srv)"
    and a: "allocateIP srv = Some (ip, srv2)"
    and t: "sessions t = AList.update sid s (sessions (tunHeap srv r))" "assignedIP s = ip" "sessState s \<noteq> SessionClosed"
  shows "srv_inv R (setTunnel r t srv2)"
proof -
  obtain p p' where p: "srvPool srv = Some p" "Allocate p = Inr (ip, p')" "srv2 = srv\<lparr>srvPool := Some p'\<rparr>"
    using allocateIP_Some [OF a] .
  have ok: "ipam_ok p" "poolRange p = R" using srv_inv_pool [OF inv p(1)] by simp_all
  note al = pool.alloc_Inr [OF ok(1) p(2)]
  then have "ip \<noteq> []" by (auto simp: poolRange_def ipAt_def)
  then have "leaseOf (setTunnel r t srv2) = (leaseOf srv)((r, sid) := Some ip)"
    using r t(1,2) by (auto simp: leaseOf_def p(3) tunLease_def map_of_update fun_eq_iff)
  moreover have "usedOf (setTunnel r t srv2) = insert ip (usedOf srv)" "ip \<notin> usedOf srv"
    using al p(1) by (simp_all add: usedOf_def p(3))
  ultimately have "lease_inv (leaseOf (setTunnel r t srv2)) (usedOf (setTunnel r t srv2))"
    using lease_add [OF srv_inv_lease [OF inv]] by simp
  moreover have "sess_ok (tunHeap (setTunnel r t srv2) q)" for q
    using sess_ok_update [OF srv_inv_sess [OF inv] t(3,1)] srv_inv_sess [OF inv] by (simp add: p(3))
  moreover have "q < nextRef srv2" if "q \<in> snd ` set (tunnelsByLocalID srv2)" for q
    using that srv_inv_ref [OF inv] by (simp add: p(3))
  ultimately show ?thesis
    using al ok(2) by (simp add: srv_inv_def p(3))
qed

lemma HandleICCN_Inr:
  assumes "HandleICCN sid t = Inr t1"
  obtains s where "map_of (sessions t) sid = Some s" "sessState s = SessionWaitConnect"
    "sessions t1 = AList.update sid (s\<lparr>sessState := SessionEstablished\<rparr>) (sessions t)"
  using assms by (auto simp: HandleICCN_def handleICCN_def split: option.splits if_splits)

lemma SendCDN_cases:
  assumes "SendCDN now sid rc t = (t', ms, ips)"
  shows "(sessions t' = sessions t \<and> ips = []) \<or>
    (\<exists>s. map_of (sessions t) sid = Some s \<and> sessions t' = AList.delete sid (sessions t) \<and> ips = released s)"
  using assms by (auto simp: SendCDN_def dest: controlSend_eqs(1) split: prod.splits option.splits)

lemma routeICCN_inv:
  assumes inv: "srv_inv R srv" and r: "r \<in> snd ` set (tunnelsByLocalID srv)"
    and h: "routeICCN now rnd r hdr srv = (srv', effs)"
  shows "srv_inv R srv'"
proof (cases "HandleICCN (SessionID hdr) (tunHeap srv r)")
  case (Inl e)
  with h inv show ?thesis by (simp add: routeICCN_def)
next
  case (Inr t1)
  obtain s where s: "map_of (sessions (tunHeap srv r)) (SessionID hdr) = Some s"
    "sessions t1 = AList.update (SessionID hdr) (s\<lparr>sessState := SessionEstablished\<rparr>) (sessions (tunHeap srv r))"
    using HandleICCN_Inr [OF Inr] .
  let ?srv1 = "setTunnel r t1 srv"
  have inv1: "srv_inv R ?srv1"
    by (rule srv_inv_update_session [OF inv s(2)]) (simp_all add: s(1))
  have r1: "r \<in> snd ` set (tunnelsByLocalID ?srv1)" using r by simp
  have g: "GetSession (SessionID hdr) t1 = Some (s\<lparr>sessState := SessionEstablished\<rparr>)"
    by (simp add: GetSession_def s(2) map_of_update)
  show ?thesis
  proof (cases "allocateIP ?srv1")
    case None
    obtain t2 ms ips where c: "SendCDN now (localSessionID s) 4 t1 = (t2, ms, ips)"
      using prod_cases3 by blast
    have srv': "srv' = fold releaseIP ips (setTunnel r t2 ?srv1)"
      using h Inr None g c by (simp add: routeICCN_def Let_def)
    from SendCDN_cases [OF c] show ?thesis
    proof
      assume "sessions t2 = sessions t1 \<and> ips = []"
      then show ?thesis using srv_inv_same_sessions [OF inv1, of t2 r] by (simp add: srv')
    next
      assume "\<exists>u. map_of (sessions t1) (localSessionID s) = Some u \<and>
        sessions t2 = AList.delete (localSessionID s) (sessions t1) \<and> ips = released u"
      then show ?thesis using srv_inv_delete_session [OF inv1 r1, of t2] by (auto simp: srv')
    qed
  next
    case (Some al)
    obtain ip srv2 where a: "allocateIP ?srv1 = Some (ip, srv2)" using Some by (cases al) auto
    obtain s' req where i: "InitPPP (srvHostname srv) (rndMagic rnd) ip (srvGateway srv) (srvDns1 srv)
        (srvDns2 srv) (s\<lparr>sessState := SessionEstablished\<rparr>) = (s', req)" by fastforce
    have s': "assignedIP s' = ip" "sessState s' \<noteq> SessionClosed"
      using i by (auto simp: InitPPP_def split: prod.splits)
    have srv': "srv' = setTunnel r (t1\<lparr>sessions := AList.update (SessionID hdr) s' (sessions t1)\<rparr>) srv2"
      using h Inr a g i by (simp add: routeICCN_def Let_def)
    show ?thesis
      unfolding srv' by (rule srv_inv_assign [OF inv1 r1 a _ s']) simp
  qed
qed

lemma HandleCDN_cases:
  assumes "HandleCDN avps t = (t', ms, ips)"
  shows "(t' = t \<and> ips = []) \<or>
    (\<exists>sid s. map_of (sessions t) sid = Some s \<and> sessions t' = AList.delete sid (sessions t) \<and> ips = released s)"
proof (cases "GetAVPUint16 avps AVPAssignedSessionID")
  case None
  with assms show ?thesis by (simp add: HandleCDN_def)
next
  case (Some sid)
  show ?thesis
  proof (cases "map_of (sessions t) sid")
    case None
    with assms Some show ?thesis by (simp add: HandleCDN_def)
  next
    case (Some s)
    have "sessions t' = AList.delete sid (sessions t)" "ips = released s"
      using assms Some \<open>GetAVPUint16 avps AVPAssignedSessionID = Some sid\<close> by (auto simp: HandleCDN_def)
    with Some show ?thesis by blast
  qed
qed

lemma routeControlMessage_inv:
  assumes inv: "srv_inv R srv" and r: "r \<in> snd ` set (tunnelsByLocalID srv)"
    and h: "routeControlMessage now rnd r hdr mt avps srv = (srv', effs)"
  shows "srv_inv R srv'"
proof -
  note same = srv_inv_same_sessions [OF inv]
  note d = h [unfolded routeControlMessage_def Let_def]
  consider (scccn) "mt = MsgSCCCN" | (icrq) "mt = MsgICRQ" | (iccn) "mt = MsgICCN" | (hello) "mt = MsgHello"
    | (cdn) "mt = MsgCDN" | (stop) "mt = MsgStopCCN"
    | (unknown) "mt \<notin> {MsgSCCCN, MsgICRQ, MsgICCN, MsgHello, MsgCDN, MsgStopCCN}" by blast
  then show ?thesis
  proof cases
    case scccn
    then have "srv' = srv \<or> srv' = setTunnel r ((tunHeap srv r)\<lparr>tunState := TunnelEstablished\<rparr>) srv"
      using d by (cases "tunState (tunHeap srv r) = TunnelWaitCtlConn") (auto simp: HandleSCCCN_def)
    with inv same show ?thesis by auto
  next
    case icrq
    show ?thesis
    proof (cases "HandleICRQ now avps (tunHeap srv r)")
      case (Inl e)
      with d icrq inv show ?thesis by simp
    next
      case (Inr tm)
      then obtain t' m where t': "HandleICRQ now avps (tunHeap srv r) = Inr (t', m)" by (cases tm) auto
      then obtain lsid rsid where "sessions t' = AList.update lsid (newSession lsid rsid) (sessions (tunHeap srv r))"
        by (auto simp: HandleICRQ_def dest!: controlSend_eqs(1) split: if_splits option.splits prod.splits)
      from srv_inv_update_session [OF inv this] t' d icrq show ?thesis by (simp add: newSession_def)
    qed
  next
    case iccn
    with d show ?thesis by (intro routeICCN_inv [OF inv r]) simp
  next
    case hello
    with d same [of "HandleHello now (tunHeap srv r)" r] show ?thesis by (simp add: HandleHello_def)
  next
    case cdn
    obtain t' ms ips where c: "HandleCDN avps (tunHeap srv r) = (t', ms, ips)" using prod_cases3 by blast
    then have srv': "srv' = fold releaseIP ips (setTunnel r t' srv)" using d cdn by simp
    from HandleCDN_cases [OF c] show ?thesis
    proof (elim disjE exE conjE)
      fix sid s
      assume "map_of (sessions (tunHeap srv r)) sid = Some s"
        "sessions t' = AList.delete sid (sessions (tunHeap srv r))" "ips = released s"
      then show ?thesis using srv_inv_delete_session [OF inv r] by (simp add: srv')
    qed (use same [of t' r] srv' in simp)
  next
    case stop
    define t' where "t' = (tunHeap srv r)\<lparr>tunState := TunnelDead, sessions := []\<rparr>"
    have "srv' = removeTunnel r (fold releaseIP (closeAll (sessions (tunHeap srv r))) (setTunnel r t' srv))"
      using d stop by (simp add: HandleStopCCN_def Let_def t'_def)
    with srv_inv_removeTunnel [OF srv_inv_close_all [OF inv r, of t']] show ?thesis by (simp add: t'_def)
  qed (use d inv in auto)
qed

lemma handleControlMessage_inv:
  assumes inv: "srv_inv R srv" and h: "handleControlMessage now rnd hdr payload addr srv = (srv', effs)"
  shows "srv_inv R srv'"
proof (cases "TunnelID hdr = 0")
  case True
  with h show ?thesis by (auto simp: handleControlMessage_def intro: handleNewTunnel_inv [OF inv])
next
  case False
  show ?thesis
  proof (cases "map_of (tunnelsByLocalID srv) (TunnelID hdr)")
    case None
    with False h inv show ?thesis by (simp add: handleControlMessage_def)
  next
    case (Some r)
    then have r: "r \<in> snd ` set (tunnelsByLocalID srv)" by (force dest: map_of_SomeD)
    define t1 where "t1 = (tunHeap srv r)\<lparr>lastActivity := now,
      control := fst (Receive (HdrNs hdr) (HdrNr hdr) (length payload = 0) (control (tunHeap srv r)))\<rparr>"
    have inv1: "srv_inv R (setTunnel r t1 srv)"
      by (rule srv_inv_same_sessions [OF inv]) (simp add: t1_def)
    have "srv' = setTunnel r t1 srv \<or> (\<exists>mt avps effs'.
      routeControlMessage now rnd r hdr mt avps (setTunnel r t1 srv) = (srv', effs'))"
      using h False Some
      by (auto simp: handleControlMessage_def Let_def t1_def split: prod.splits if_splits sum.splits)
    then show ?thesis
    proof (elim disjE exE)
      fix mt avps effs'
      assume rt: "routeControlMessage now rnd r hdr mt avps (setTunnel r t1 srv) = (srv', effs')"
      show ?thesis by (rule routeControlMessage_inv [OF inv1 _ rt]) (simp add: r)
    qed (simp add: inv1)
  qed
qed

lemma handleDataMessage_inv:
  assumes inv: "srv_inv R srv" and h: "handleDataMessage md5 now rnd hdr payload srv = Some (srv', effs)"
  shows "srv_inv R srv'"
proof (cases "map_of (tunnelsByLocalID srv) (TunnelID hdr)")
  case None
  with h inv show ?thesis by (simp add: handleDataMessage_def)
next
  case (Some r)
  let ?t = "(tunHeap srv r)\<lparr>lastActivity := now\<rparr>"
  have inv1: "srv_inv R (setTunnel r ?t srv)" by (rule srv_inv_same_sessions [OF inv]) simp
  show ?thesis
  proof (cases "GetSession (SessionID hdr) ?t")
    case None
    with h Some inv1 show ?thesis by (simp add: handleDataMessage_def Let_def)
  next
    case (Some sess)
    with h \<open>map_of (tunnelsByLocalID srv) (TunnelID hdr) = Some r\<close> obtain sess' resps tun where
      d: "HandleData \<lparr>envMd5 = md5, envUsers = srvUserDB srv, envHasTun = hasTunWriter srv\<rparr> rnd payload sess =
        Some (sess', resps, tun)"
      and srv': "srv' = setTunnel r (?t\<lparr>sessions := AList.update (SessionID hdr) sess' (sessions ?t)\<rparr>) (setTunnel r ?t srv)"
      by (auto simp: handleDataMessage_def Let_def split: option.splits)
    have m: "map_of (sessions (tunHeap srv r)) (SessionID hdr) = Some sess"
      using Some by (simp add: GetSession_def)
    have k: "assignedIP sess' = assignedIP sess" "sessState sess' = sessState sess"
      using HandleData_keeps [OF d] by simp_all
    show ?thesis unfolding srv'
      by (rule srv_inv_update_session [OF inv1, of _ "SessionID hdr" sess'])
        (use m k sess_ok_mapD [OF srv_inv_sess [OF inv] m] in simp_all)
  qed
qed

lemma tunnelTick_inv:
  assumes inv: "srv_inv R srv" and h: "tunnelTick now r srv = Some (srv', effs)"
  shows "srv_inv R srv'"
proof -
  obtain t1 ms where r: "retransmitTick now (tunHeap srv r) = Some (t1, ms)"
    using h by (auto simp: tunnelTick_def split: option.splits)
  obtain t2 hs where hl: "helloTick now t1 = (t2, hs)" by fastforce
  have "sessions t1 = sessions (tunHeap srv r)"
    using r by (auto simp: retransmitTick_def split: option.splits if_splits)
  moreover have "sessions t2 = sessions t1"
    using hl controlSend_fields(1) [of now "[NewMessageTypeAVP MsgHello]" t1]
    by (auto simp: helloTick_def sendHello_def split: if_splits prod.splits dest: controlSend_eqs(1))
  ultimately show ?thesis
    using srv_inv_same_sessions [OF inv, of t2 r] h r hl by (simp add: tunnelTick_def)
qed

section \<open>Runs of the server\<close>

datatype server_event = Datagram nat ppp_rnd bytes udp_addr | Tick nat nat

primrec serverStep ::
  "(bytes \<Rightarrow> bytes) \<Rightarrow> server_event \<Rightarrow> Server \<Rightarrow> (Server \<times> l2tp_effect list) option" where
  "serverStep md5 (Datagram now rnd data addr) srv = HandlePacket md5 now rnd data addr srv"
| "serverStep md5 (Tick now r) srv = tunnelTick now r srv"

inductive server_run :: "(bytes \<Rightarrow> bytes) \<Rightarrow> Server \<Rightarrow> Server \<Rightarrow> bool" for md5 where
  run_refl: "server_run md5 srv srv"
| run_step: "server_run md5 srv srv1 \<Longrightarrow> serverStep md5 ev srv1 = Some (srv2, effs) \<Longrightarrow> server_run md5 srv srv2"

lemma HandlePacket_inv:
  assumes inv: "srv_inv R srv" and h: "HandlePacket md5 now rnd data addr srv = Some (srv', effs)"
  shows "srv_inv R srv'"
proof (cases "ParseL2TPHeader data")
  case (Inl e)
  with h inv show ?thesis by (simp add: HandlePacket_def)
next
  case (Inr hp)
  obtain hdr payload where hp: "hp = (hdr, payload)" by fastforce
  show ?thesis
  proof (cases "IsControl hdr")
    case True
    with h Inr hp handleControlMessage_inv [OF inv] show ?thesis by (simp add: HandlePacket_def)
  next
    case False
    with h Inr hp handleDataMessage_inv [OF inv] show ?thesis by (simp add: HandlePacket_def)
  qed
qed

lemma serverStep_inv: "srv_inv R srv \<Longrightarrow> serverStep md5 ev srv = Some (srv', effs) \<Longrightarrow> srv_inv R srv'"
  by (cases ev) (auto intro: HandlePacket_inv tunnelTick_inv)

lemma server_run_inv: "server_run md5 srv srv' \<Longrightarrow> srv_inv R srv \<Longrightarrow> srv_inv R srv'"
  by (induction rule: server_run.induct) (auto intro: serverStep_inv)

lemma NewServer_inv:
  assumes "cfgPool cfg = Some p" and "ipam_ok p"
  shows "srv_inv (poolRange p) (NewServer cfg)"
proof -
  have "leaseOf (NewServer cfg) = (\<lambda>_. None)" by (simp add: leaseOf_def NewServer_def fun_eq_iff)
  then show ?thesis
    using assms by (simp add: srv_inv_def lease_inv_def NewServer_def sess_ok_def newTunnel_def)
qed

text \<open>The session that a tunnel and a session identifier reach, as the server looks it up.\<close>

definition liveSession :: "Server \<Rightarrow> u16 \<Rightarrow> u16 \<Rightarrow> nat \<Rightarrow> Session \<Rightarrow> bool" where
  "liveSession srv tid sid r s \<longleftrightarrow>
     map_of (tunnelsByLocalID srv) tid = Some r \<and> GetSession sid (tunHeap srv r) = Some s"

lemma liveSession_lease:
  "liveSession srv tid sid r s \<Longrightarrow> assignedIP s \<noteq> [] \<Longrightarrow> leaseOf srv (r, sid) = Some (assignedIP s)"
  by (force simp: liveSession_def GetSession_def leaseOf_def tunLease_def dest: map_of_SomeD)

lemma server_run_session_addresses:
  assumes "cfgPool cfg = Some p" and "ipam_ok p" and "server_run md5 (NewServer cfg) srv"
    and "liveSession srv tid sid r s" and "assignedIP s \<noteq> []"
  shows "(\<exists>p'. srvPool srv = Some p' \<and> assignedIP s \<in> inUse p' \<inter> poolRange p) \<and>
    (\<forall>tid' sid' r' s'. liveSession srv tid' sid' r' s' \<and> assignedIP s' = assignedIP s \<longrightarrow>
       r' = r \<and> sid' = sid)"
proof (intro conjI allI impI)
  note inv = server_run_inv [OF assms(3) NewServer_inv [OF assms(1,2)]]
  note l = liveSession_lease [OF assms(4,5)]
  from srv_inv_used [OF inv l] obtain p' where p': "srvPool srv = Some p'" "assignedIP s \<in> inUse p'"
    by (auto simp: usedOf_def split: option.splits)
  with srv_inv_pool [OF inv p'(1)] inUse_range [of p']
  show "\<exists>p'. srvPool srv = Some p' \<and> assignedIP s \<in> inUse p' \<inter> poolRange p" by auto
  fix tid' sid' r' s'
  assume "liveSession srv tid' sid' r' s' \<and> assignedIP s' = assignedIP s"
  then have "leaseOf srv (r', sid') = Some (assignedIP s)"
    using liveSession_lease [of srv tid' sid' r' s'] assms(5) by auto
  from srv_inv_unique [OF inv this l] show "r' = r" "sid' = sid" by simp_all
qed

section \<open>A call is set up\<close>

text \<open>A control message of a client.\<close>

definition clientMsg :: "u16 \<Rightarrow> u16 \<Rightarrow> u16 \<Rightarrow> u16 \<Rightarrow> AVP list \<Rightarrow> bytes" where
  "clientMsg tid sid ns nr avps =
     BuildControlHeader tid sid ns nr (length (SerializeAVPs avps)) @ SerializeAVPs avps"

lemma SerializeAVPs_pos: "avps \<noteq> [] \<Longrightarrow> length (SerializeAVPs avps) > 0"
  by (cases avps) simp_all

lemma HandlePacket_clientMsg:
  assumes "\<forall>a\<in>set avps. avp_wf a" and "length (SerializeAVPs avps) < 65524"
  obtains h where "HandlePacket md5 now rnd (clientMsg tid sid ns nr avps) addr srv =
      Some (handleControlMessage now rnd h (SerializeAVPs avps) addr srv)"
    "TunnelID h = tid" "SessionID h = sid" "HdrNs h = ns" "HdrNr h = nr"
    "ParseAVPs (SerializeAVPs avps) = Inr avps"
proof -
  obtain h where "ParseL2TPHeader (clientMsg tid sid ns nr avps) = Inr (h, SerializeAVPs avps)"
    "IsControl h" and h: "TunnelID h = tid" "SessionID h = sid" "HdrNs h = ns" "HdrNr h = nr"
    using Parse_BuildControlHeader [OF assms(2), of tid sid ns nr] by (auto simp: clientMsg_def)
  then have "HandlePacket md5 now rnd (clientMsg tid sid ns nr avps) addr srv =
      Some (handleControlMessage now rnd h (SerializeAVPs avps) addr srv)"
    by (simp add: HandlePacket_def)
  moreover have "ParseAVPs (SerializeAVPs avps) = Inr avps"
    using Parse_SerializeAVPs [OF assms(1), of "[]"] by simp
  ultimately show thesis using that h by blast
qed

text \<open>A message in sequence on a known tunnel reaches the handler of its type.\<close>

lemma HandlePacket_in_order:
  assumes "\<forall>a\<in>set avps. avp_wf a" and "length (SerializeAVPs avps) < 65524" and "avps \<noteq> []"
    and "tid \<noteq> 0" and "map_of (tunnelsByLocalID srv) tid = Some r"
    and "recvNr (control (tunHeap srv r)) = ns"
  obtains h t1 zlb where "TunnelID h = tid" "SessionID h = sid"
    "t1 = (tunHeap srv r)\<lparr>lastActivity := now,
       control := (acknowledgeUpTo nr (control (tunHeap srv r)))\<lparr>recvNr := ns + 1\<rparr>\<rparr>"
    "HandlePacket md5 now rnd (clientMsg tid sid ns nr avps) addr srv =
       (case routeControlMessage now rnd r h (GetMessageType avps) avps (setTunnel r t1 srv) of
          (srv2, effs) \<Rightarrow> Some (srv2, zlb @ effs))"
proof -
  obtain h where h: "HandlePacket md5 now rnd (clientMsg tid sid ns nr avps) addr srv =
      Some (handleControlMessage now rnd h (SerializeAVPs avps) addr srv)"
    "TunnelID h = tid" "SessionID h = sid" "HdrNs h = ns" "HdrNr h = nr"
    "ParseAVPs (SerializeAVPs avps) = Inr avps"
    using HandlePacket_clientMsg [OF assms(1,2)] .
  let ?t1 = "(tunHeap srv r)\<lparr>lastActivity := now,
    control := (acknowledgeUpTo nr (control (tunHeap srv r)))\<lparr>recvNr := ns + 1\<rparr>\<rparr>"
  have rc: "Receive ns nr (length (SerializeAVPs avps) = 0) (control (tunHeap srv r)) =
      ((acknowledgeUpTo nr (control (tunHeap srv r)))\<lparr>recvNr := ns + 1\<rparr>, True)"
    using SerializeAVPs_pos [OF assms(3)] assms(6) by (simp add: Receive_def Let_def acknowledgeUpTo_def)
  have "\<exists>zlb. handleControlMessage now rnd h (SerializeAVPs avps) addr srv =
       (case routeControlMessage now rnd r h (GetMessageType avps) avps (setTunnel r ?t1 srv) of
          (srv2, effs) \<Rightarrow> (srv2, zlb @ effs))"
    using h(2-6) assms(4,5) rc by (auto simp: handleControlMessage_def Let_def simp del: length_0_conv)
  with h(1) that [OF h(2,3) refl] show thesis by (auto split: prod.splits)
qed

lemma controlSend_keeps:
  "controlSend now avps t = (t', m) \<Longrightarrow> recvNr (control t') = recvNr (control t) \<and>
     nextSessionID t' = nextSessionID t \<and> sessions t' = sessions t \<and> tunState t' = tunState t"
  by (auto simp: controlSend_def Send_def Let_def)

lemma HandleSCCRQ_keeps:
  assumes "HandleSCCRQ now avps hn t = (t', ms, e)"
  shows "recvNr (control t') = recvNr (control t) \<and> nextSessionID t' = nextSessionID t \<and> sessions t' = sessions t"
  using assms
  by (auto simp: HandleSCCRQ_def Let_def sendStopCCN_def SetRemoteTunnelID_def SetPeerWindow_def
      split: if_splits option.splits prod.splits dest!: controlSend_keeps)

text \<open>The steps of the set-up, as they leave the tunnel of the call.\<close>

definition callAt :: "Server \<Rightarrow> u16 \<Rightarrow> nat \<Rightarrow> tunnel_state \<Rightarrow> u16 \<Rightarrow> (u16 \<times> Session) list \<Rightarrow> bool" where
  "callAt srv tid r st ns ss \<longleftrightarrow> map_of (tunnelsByLocalID srv) tid = Some r \<and>
     tunState (tunHeap srv r) = st \<and> recvNr (control (tunHeap srv r)) = ns \<and>
     sessions (tunHeap srv r) = ss \<and> (ss = [] \<longrightarrow> nextSessionID (tunHeap srv r) = 1)"

lemma small_avps [simp]:
  "length (AvpValue (NewMessageTypeAVP m)) = 2" "length (AvpValue (NewAssignedTunnelIDAVP i)) = 2"
  "length (AvpValue (NewAssignedSessionIDAVP i)) = 2"
  "avp_wf (NewMessageTypeAVP m)" "avp_wf (NewAssignedTunnelIDAVP i)" "avp_wf (NewAssignedSessionIDAVP i)"
  "GetMessageType (NewMessageTypeAVP m # avps) = m"
  by (simp_all add: NewMessageTypeAVP_def NewAssignedTunnelIDAVP_def NewAssignedSessionIDAVP_def mkAVP_def avp_wf_def)

lemma setup_SCCRQ:
  assumes "ctid \<noteq> 0" and "allocID (nextTunnelID srv) = (tid, n)"
  shows "\<exists>srv' effs. HandlePacket md5 now rnd
      (clientMsg 0 0 0 0 [NewMessageTypeAVP MsgSCCRQ, NewAssignedTunnelIDAVP ctid]) addr srv = Some (srv', effs) \<and>
    callAt srv' tid (nextRef srv) TunnelWaitCtlConn 1 [] \<and> srvPool srv' = srvPool srv"
proof -
  let ?avps = "[NewMessageTypeAVP MsgSCCRQ, NewAssignedTunnelIDAVP ctid]"
  obtain h where h: "HandlePacket md5 now rnd (clientMsg 0 0 0 0 ?avps) addr srv =
      Some (handleControlMessage now rnd h (SerializeAVPs ?avps) addr srv)"
    "TunnelID h = 0" "SessionID h = 0" "HdrNs h = 0" "HdrNr h = 0"
    "ParseAVPs (SerializeAVPs ?avps) = Inr ?avps"
    by (rule HandlePacket_clientMsg [of ?avps]) simp_all
  define t1 where "t1 = (newTunnel tid addr now)\<lparr>control := fst (Receive 0 0 False (control (newTunnel tid addr now)))\<rparr>"
  have t1: "tunState t1 = TunnelIdle" "recvNr (control t1) = 1" "sessions t1 = []" "nextSessionID t1 = 1"
    by (simp_all add: t1_def newTunnel_def Receive_def acknowledgeUpTo_def NewControlChannel_def)
  obtain t2 ms err where q: "HandleSCCRQ now ?avps (srvHostname srv) t1 = (t2, ms, err)" using prod_cases3 by blast
  have ok: "sccrqOk ?avps"
    using assms(1) by (simp add: sccrqOk_def NewMessageTypeAVP_def NewAssignedTunnelIDAVP_def mkAVP_def)
  have s2: "err = None" "tunState t2 = TunnelWaitCtlConn" using HandleSCCRQ_cases [OF q t1(1)] ok by auto
  have "recvNr (control t2) = 1 \<and> sessions t2 = [] \<and> nextSessionID t2 = 1"
    using q t1 s2(1)
    by (auto simp: HandleSCCRQ_keeps [OF q])
  with s2 h(1-6) q assms(2) show ?thesis
    by (simp add: handleControlMessage_def handleNewTunnel_def Let_def t1_def callAt_def map_of_update
        del: GetMessageType.simps GetAVPUint16.simps SerializeAVPs.simps)
qed

lemma setup_SCCCN:
  assumes "callAt srv tid r TunnelWaitCtlConn 1 []" and "tid \<noteq> 0"
  shows "\<exists>srv' effs. HandlePacket md5 now rnd (clientMsg tid 0 1 1 [NewMessageTypeAVP MsgSCCCN]) addr srv =
      Some (srv', effs) \<and> callAt srv' tid r TunnelEstablished 2 [] \<and> srvPool srv' = srvPool srv"
proof -
  let ?avps = "[NewMessageTypeAVP MsgSCCCN]"
  note c = assms(1) [unfolded callAt_def]
  obtain h t1 zlb where t1: "t1 = (tunHeap srv r)\<lparr>lastActivity := now,
       control := (acknowledgeUpTo 1 (control (tunHeap srv r)))\<lparr>recvNr := 1 + 1\<rparr>\<rparr>"
    and e: "HandlePacket md5 now rnd (clientMsg tid 0 1 1 ?avps) addr srv =
       (case routeControlMessage now rnd r h (GetMessageType ?avps) ?avps (setTunnel r t1 srv) of
          (srv2, effs) \<Rightarrow> Some (srv2, zlb @ effs))"
    by (rule HandlePacket_in_order [where avps = ?avps and tid = tid and srv = srv and r = r and ns = 1 and sid = 0
      and now = now and nr = 1 and ?md5.0 = md5 and rnd = rnd and addr = addr]) (use c assms(2) in simp_all)
  have "routeControlMessage now rnd r h MsgSCCCN ?avps (setTunnel r t1 srv) =
      (setTunnel r (t1\<lparr>tunState := TunnelEstablished\<rparr>) (setTunnel r t1 srv), [])"
    using c by (simp add: routeControlMessage_def HandleSCCCN_def t1 Let_def)
  with e c show ?thesis by (simp add: callAt_def t1 del: GetMessageType.simps)
qed

lemma setup_ICRQ:
  assumes "callAt srv tid r TunnelEstablished 2 []" and "tid \<noteq> 0" and "csid \<noteq> 0"
  shows "\<exists>srv' effs. HandlePacket md5 now rnd
        (clientMsg tid 0 2 1 [NewMessageTypeAVP MsgICRQ, NewAssignedSessionIDAVP csid]) addr srv =
      Some (srv', effs) \<and> callAt srv' tid r TunnelEstablished 3 [(2, newSession 2 csid)] \<and> srvPool srv' = srvPool srv"
proof -
  let ?avps = "[NewMessageTypeAVP MsgICRQ, NewAssignedSessionIDAVP csid]"
  note c = assms(1) [unfolded callAt_def]
  obtain h t1 zlb where t1: "t1 = (tunHeap srv r)\<lparr>lastActivity := now,
       control := (acknowledgeUpTo 1 (control (tunHeap srv r)))\<lparr>recvNr := 2 + 1\<rparr>\<rparr>"
    and e: "HandlePacket md5 now rnd (clientMsg tid 0 2 1 ?avps) addr srv =
       (case routeControlMessage now rnd r h (GetMessageType ?avps) ?avps (setTunnel r t1 srv) of
          (srv2, effs) \<Rightarrow> Some (srv2, zlb @ effs))"
    by (rule HandlePacket_in_order [where avps = ?avps and tid = tid and srv = srv and r = r and ns = 2 and sid = 0
      and now = now and nr = 1 and ?md5.0 = md5 and rnd = rnd and addr = addr]) (use c assms(2) in simp_all)
  have sid: "GetAVPUint16 ?avps AVPAssignedSessionID = Some csid"
    by (simp add: NewMessageTypeAVP_def NewAssignedSessionIDAVP_def mkAVP_def)
  obtain t2 m where q: "HandleICRQ now ?avps t1 = Inr (t2, m)" and
    k: "recvNr (control t2) = 3" "sessions t2 = [(2, newSession 2 csid)]" "tunState t2 = TunnelEstablished"
  proof -
    let ?t = "t1\<lparr>nextSessionID := 2, sessions := [(2, newSession 2 csid)]\<rparr>"
    obtain t2 m where s: "controlSend now [NewMessageTypeAVP MsgICRP, NewAssignedSessionIDAVP 2] ?t = (t2, m)"
      by fastforce
    have "HandleICRQ now ?avps t1 = Inr (t2, m)"
      unfolding HandleICRQ_def sid using c assms(3) s by (simp add: t1 allocID_def Let_def)
    with controlSend_keeps [OF s] c show thesis by (intro that) (auto simp: t1)
  qed
  have "routeControlMessage now rnd r h MsgICRQ ?avps (setTunnel r t1 srv) =
      (setTunnel r t2 (setTunnel r t1 srv), sendTo srv (peerAddr t1) [m, SendZLB (control t2)])"
    using q by (simp add: routeControlMessage_def sendTo_def setTunnel_def del: GetMessageType.simps)
  with e c k show ?thesis by (simp add: callAt_def del: GetMessageType.simps)
qed

lemma setup_ICCN:
  assumes "callAt srv tid r TunnelEstablished 3 [(2, newSession 2 csid)]" and "tid \<noteq> 0"
    and "srvPool srv = Some p" and "Allocate p = Inr (ip, p')"
  shows "\<exists>srv' effs s. HandlePacket md5 now rnd (clientMsg tid 2 3 2 [NewMessageTypeAVP MsgICCN]) addr srv =
      Some (srv', effs) \<and> liveSession srv' tid 2 r s \<and> sessState s = SessionEstablished \<and>
      assignedIP s = ip \<and> remoteSessionID s = csid \<and> pppPhase s = PPPPhaseLCP \<and> srvPool srv' = Some p' \<and>
      lcpHandler s \<noteq> None"
proof -
  let ?avps = "[NewMessageTypeAVP MsgICCN]"
  note c = assms(1) [unfolded callAt_def]
  obtain h t1 zlb where h: "SessionID h = 2" and t1: "t1 = (tunHeap srv r)\<lparr>lastActivity := now,
       control := (acknowledgeUpTo 2 (control (tunHeap srv r)))\<lparr>recvNr := 3 + 1\<rparr>\<rparr>"
    and e: "HandlePacket md5 now rnd (clientMsg tid 2 3 2 ?avps) addr srv =
       (case routeControlMessage now rnd r h (GetMessageType ?avps) ?avps (setTunnel r t1 srv) of
          (srv2, effs) \<Rightarrow> Some (srv2, zlb @ effs))"
    by (rule HandlePacket_in_order [where avps = ?avps and tid = tid and srv = srv and r = r and ns = 3 and sid = 2
          and now = now and nr = 2 and ?md5.0 = md5 and rnd = rnd and addr = addr])
      (use c assms(2) in simp_all)
  let ?s = "(newSession 2 csid)\<lparr>sessState := SessionEstablished\<rparr>"
  let ?srv1 = "setTunnel r t1 srv"
  let ?t2 = "t1\<lparr>sessions := [(2, ?s)]\<rparr>"
  have hi: "HandleICCN 2 t1 = Inr ?t2"
    using c by (simp add: HandleICCN_def handleICCN_def t1 newSession_def)
  have al: "allocateIP (setTunnel r ?t2 ?srv1) = Some (ip, (setTunnel r ?t2 ?srv1)\<lparr>srvPool := Some p'\<rparr>)"
    using assms(3,4) by (simp add: allocateIP_def)
  obtain s' req where i: "InitPPP (srvHostname ?srv1) (rndMagic rnd) ip (srvGateway ?srv1) (srvDns1 ?srv1)
        (srvDns2 ?srv1) ?s = (s', req)" by fastforce
  have s': "sessState s' = SessionEstablished" "assignedIP s' = ip" "remoteSessionID s' = csid" "pppPhase s' = PPPPhaseLCP"
    "lcpHandler s' \<noteq> None"
    using i by (auto simp: InitPPP_def newSession_def split: prod.splits)
  let ?srv' = "setTunnel r (?t2\<lparr>sessions := [(2, s')]\<rparr>) ((setTunnel r ?t2 ?srv1)\<lparr>srvPool := Some p'\<rparr>)"
  have "routeICCN now rnd r h ?srv1 = (?srv', sendTo (setTunnel r ?t2 ?srv1) (peerAddr t1)
      (case SendData (remoteTunnelID t1) s' req of None \<Rightarrow> [] | Some pkt \<Rightarrow> [pkt]))"
    using hi al i by (simp add: routeICCN_def Let_def h GetSession_def)
  with e have "\<exists>effs. HandlePacket md5 now rnd (clientMsg tid 2 3 2 ?avps) addr srv = Some (?srv', effs)"
    by (simp add: routeControlMessage_def del: GetMessageType.simps)
  moreover have "liveSession ?srv' tid 2 r s'" using c by (simp add: liveSession_def GetSession_def)
  moreover have "srvPool ?srv' = Some p'" by simp
  ultimately show ?thesis using s' by blast
qed

text \<open>The four messages of a client that asks for a call, as server events.\<close>

definition callSetup :: "nat \<Rightarrow> ppp_rnd \<Rightarrow> udp_addr \<Rightarrow> u16 \<Rightarrow> u16 \<Rightarrow> u16 \<Rightarrow> server_event list" where
  "callSetup now rnd addr tid ctid csid =
     map (\<lambda>m. Datagram now rnd m addr)
       [clientMsg 0 0 0 0 [NewMessageTypeAVP MsgSCCRQ, NewAssignedTunnelIDAVP ctid],
        clientMsg tid 0 1 1 [NewMessageTypeAVP MsgSCCCN],
        clientMsg tid 0 2 1 [NewMessageTypeAVP MsgICRQ, NewAssignedSessionIDAVP csid],
        clientMsg tid 2 3 2 [NewMessageTypeAVP MsgICCN]]"

primrec serverSteps :: "(bytes \<Rightarrow> bytes) \<Rightarrow> server_event list \<Rightarrow> Server \<Rightarrow> (Server \<times> l2tp_effect list) option" where
  "serverSteps md5 [] srv = Some (srv, [])"
| "serverSteps md5 (ev # evs) srv =
     (case serverStep md5 ev srv of
        None \<Rightarrow> None
      | Some (srv1, effs) \<Rightarrow>
          (case serverSteps md5 evs srv1 of None \<Rightarrow> None | Some (srv2, effs2) \<Rightarrow> Some (srv2, effs @ effs2)))"

lemma serverSteps_run:
  assumes "serverSteps md5 evs srv = Some (srv', effs)" and "server_run md5 srv0 srv"
  shows "server_run md5 srv0 srv'"
  using assms
proof (induction evs arbitrary: srv effs)
  case (Cons ev evs)
  then obtain srv1 e1 e2 where "serverStep md5 ev srv = Some (srv1, e1)" "serverSteps md5 evs srv1 = Some (srv', e2)"
    by (auto split: option.splits)
  with Cons run_step show ?case by blast
qed simp

lemma allocID_nonzero: "allocID n = (tid, n') \<Longrightarrow> tid \<noteq> 0"
proof -
  assume a: "allocID n = (tid, n')"
  have nat_case: "(x + 1) mod 4294967296 mod 65536 = 1" if "x mod 65536 = 0" for x :: nat
  proof -
    have "(x + 1) mod 4294967296 mod 65536 = (x + 1) mod 65536" by (rule mod_mod_cancel) simp
    also have "\<dots> = (x mod 65536 + 1) mod 65536" by (simp only: mod_add_left_eq)
    finally show ?thesis by (simp add: that)
  qed
  have low: "unat (ucast x :: u16) = unat x mod 65536" for x :: u32
    by (simp add: unsigned_ucast_eq take_bit_eq_mod)
  show ?thesis
  proof (cases "(ucast (n + 1) :: u16) = 0")
    case True
    then have z: "unat (n + 1) mod 65536 = 0" using low [of "n + 1"] by simp
    have "unat (n + 1 + 1) = (unat (n + 1) + 1) mod 4294967296" by (simp only: unat_word_ariths) simp
    then have "unat (n + 1 + 1) mod 65536 = 1"
      using nat_case [OF z] by simp
    then have "(ucast (n + 1 + 1) :: u16) \<noteq> 0" using low [of "n + 1 + 1"] by (metis unat_0 zero_neq_one)
    with a True show ?thesis by (simp add: allocID_def Let_def del: add.assoc) auto
  next
    case False
    with a show ?thesis by (auto simp: allocID_def Let_def split: if_splits)
  qed
qed

lemma call_setup_steps:
  assumes "ctid \<noteq> 0" and "csid \<noteq> 0" and "allocID (nextTunnelID srv) = (tid, n)"
    and "srvPool srv = Some p" and "Allocate p = Inr (ip, p')"
  shows "\<exists>srv' effs s. serverSteps md5 (callSetup now rnd addr tid ctid csid) srv = Some (srv', effs) \<and>
    liveSession srv' tid 2 (nextRef srv) s \<and> sessState s = SessionEstablished \<and> assignedIP s = ip \<and>
    remoteSessionID s = csid \<and> pppPhase s = PPPPhaseLCP \<and> srvPool srv' = Some p' \<and>
    lcpHandler s \<noteq> None"
proof -
  note tid = allocID_nonzero [OF assms(3)]
  obtain srv1 e1 where 1: "HandlePacket md5 now rnd
      (clientMsg 0 0 0 0 [NewMessageTypeAVP MsgSCCRQ, NewAssignedTunnelIDAVP ctid]) addr srv = Some (srv1, e1)"
    "callAt srv1 tid (nextRef srv) TunnelWaitCtlConn 1 []" "srvPool srv1 = srvPool srv"
    using setup_SCCRQ [OF assms(1,3)] by blast
  obtain srv2 e2 where 2: "HandlePacket md5 now rnd (clientMsg tid 0 1 1 [NewMessageTypeAVP MsgSCCCN]) addr srv1 =
      Some (srv2, e2)" "callAt srv2 tid (nextRef srv) TunnelEstablished 2 []" "srvPool srv2 = srvPool srv1"
    using setup_SCCCN [OF 1(2) tid] by blast
  obtain srv3 e3 where 3: "HandlePacket md5 now rnd
      (clientMsg tid 0 2 1 [NewMessageTypeAVP MsgICRQ, NewAssignedSessionIDAVP csid]) addr srv2 = Some (srv3, e3)"
    "callAt srv3 tid (nextRef srv) TunnelEstablished 3 [(2, newSession 2 csid)]" "srvPool srv3 = srvPool srv2"
    using setup_ICRQ [OF 2(2) tid assms(2)] by blast
  have p3: "srvPool srv3 = Some p" using assms(4) 1(3) 2(3) 3(3) by simp
  obtain srv4 e4 s where 4: "HandlePacket md5 now rnd (clientMsg tid 2 3 2 [NewMessageTypeAVP MsgICCN]) addr srv3 =
      Some (srv4, e4)" "liveSession srv4 tid 2 (nextRef srv) s" "sessState s = SessionEstablished" "assignedIP s = ip"
      "remoteSessionID s = csid" "pppPhase s = PPPPhaseLCP" "srvPool srv4 = Some p'"
      "lcpHandler s \<noteq> None"
    using setup_ICCN [OF 3(2) tid p3 assms(5)] by blast
  have "\<exists>effs. serverSteps md5 (callSetup now rnd addr tid ctid csid) srv = Some (srv4, effs)"
    by (simp add: callSetup_def 1(1) 2(1) 3(1) 4(1))
  with 4(2-8) show ?thesis by blast
qed

section \<open>The properties\<close>

text \<open>
  C9. An address belongs to one session: whatever datagrams from whatever clients and
  timer ticks a server with a valid pool has processed, the address of a session that can
  be reached through a tunnel identifier and a session identifier is marked in use in the
  pool, lies in its range, and is the address of no other session of any tunnel.
\<close>

theorem session_addresses_are_exclusive:
  assumes "cfgPool cfg = Some p" and "ipam_ok p" and "server_run md5 (NewServer cfg) srv"
    and "liveSession srv tid sid r s" and "assignedIP s \<noteq> []"
  shows "(\<exists>p'. srvPool srv = Some p' \<and> assignedIP s \<in> inUse p' \<inter> poolRange p) \<and>
    (\<forall>tid' sid' r' s'. liveSession srv tid' sid' r' s' \<and> assignedIP s' = assignedIP s \<longrightarrow>
       r' = r \<and> sid' = sid)"
  using assms by (rule server_run_session_addresses)

text \<open>
  C12. A call is set up in four messages: from any state of the server, a client that sends
  a connection request, the connected message, a call request and the call-connected
  message in sequence ends with an established session under the identifiers the server
  chose, holding the address the pool would hand out next, and starting PPP at LCP; the
  server does not panic.
\<close>

theorem call_setup:
  assumes "ctid \<noteq> 0" and "csid \<noteq> 0" and "allocID (nextTunnelID srv) = (tid, n)"
    and "srvPool srv = Some p" and "Allocate p = Inr (ip, p')"
  shows "\<exists>srv' effs s. serverSteps md5 (callSetup now rnd addr tid ctid csid) srv = Some (srv', effs) \<and>
    liveSession srv' tid 2 (nextRef srv) s \<and> sessState s = SessionEstablished \<and> assignedIP s = ip \<and>
    remoteSessionID s = csid \<and> pppPhase s = PPPPhaseLCP \<and> srvPool srv' = Some p'"
  using call_setup_steps [OF assms] by blast

definition example_config :: ServerConfig where
  "example_config =
     \<lparr>cfgHostname = [115], cfgGatewayIP = [10, 0, 0, 1], cfgDNS1 = [], cfgDNS2 = [],
      cfgPool = Some example_pool, cfgUserDB = example_users, cfgSender = True, cfgTUNWriter = True\<rparr>"

definition example_client :: udp_addr where
  "example_client = \<lparr>addrIP = [203, 0, 113, 9], addrPort = 1701\<rparr>"

lemma poolSize_example: "poolSize example_pool = Suc 2"
  by (simp add: example_pool_def)

lemma example_first_address: "\<exists>p'. Allocate example_pool = Inr ([10, 0, 0, 10], p')"
proof -
  have "allocLoop example_pool 0 (Suc 2) = Some 0"
    by (subst allocLoop.simps) (simp add: example_pool_def)
  then have "allocLoop example_pool 0 (poolSize example_pool) = Some 0"
    by (simp only: poolSize_example)
  moreover have "uint32ToIP (startIP example_pool + of_nat 0) = [10, 0, 0, 10]"
    by (simp add: example_pool_def uint32ToIP_def PutUint32_def)
  ultimately show ?thesis by (simp add: Allocate_def)
qed

lemma example_server: "srvPool (NewServer example_config) = Some example_pool"
    "allocID (nextTunnelID (NewServer example_config)) = (2, 2)"
  by (simp_all add: NewServer_def example_config_def allocID_def Let_def)

theorem call_setup_witness:
  "\<exists>srv' effs s. serverSteps example_md5 (callSetup 0 example_rnd example_client 2 7 9) (NewServer example_config) =
     Some (srv', effs) \<and> liveSession srv' 2 2 0 s \<and> assignedIP s = [10, 0, 0, 10]"
proof -
  obtain p' where "Allocate example_pool = Inr ([10, 0, 0, 10], p')" using example_first_address by blast
  from call_setup [of 7 9 "NewServer example_config" 2 2, OF _ _ example_server(2,1) this]
  show ?thesis by (fastforce simp: NewServer_def)
qed

theorem session_addresses_are_exclusive_witness:
  "\<exists>srv s. server_run example_md5 (NewServer example_config) srv \<and> liveSession srv 2 2 0 s \<and>
     assignedIP s = [10, 0, 0, 10] \<and>
     (\<forall>tid sid r s'. liveSession srv tid sid r s' \<and> assignedIP s' = [10, 0, 0, 10] \<longrightarrow> r = 0 \<and> sid = 2)"
proof -
  obtain p' where "Allocate example_pool = Inr ([10, 0, 0, 10], p')" using example_first_address by blast
  from call_setup_steps [of 7 9 "NewServer example_config" 2 2, OF _ _ example_server(2,1) this]
  obtain srv effs s where s: "serverSteps example_md5 (callSetup 0 example_rnd example_client 2 7 9)
      (NewServer example_config) = Some (srv, effs)"
    "liveSession srv 2 2 0 s" "assignedIP s = [10, 0, 0, 10]"
    by (fastforce simp: NewServer_def)
  have run: "server_run example_md5 (NewServer example_config) srv"
    using serverSteps_run [OF s(1) run_refl] .
  have "cfgPool example_config = Some example_pool" "ipam_ok example_pool"
    using NewPool_ok [OF NewPool_example] by (simp_all add: example_config_def)
  from session_addresses_are_exclusive [OF this run s(2)] s(3) run s(2) show ?thesis by auto
qed

text \<open>Outside the creation of a tunnel the sender's address is never looked at: any host
  that knows the identifiers speaks for the tunnel.\<close>

lemma sender_address_ignored:
  assumes "ParseL2TPHeader data = Inr (hdr, payload)" and "TunnelID hdr \<noteq> 0 \<or> \<not> IsControl hdr"
  shows "HandlePacket md5 now rnd data addr srv = HandlePacket md5 now rnd data addr' srv"
  using assms by (simp add: HandlePacket_def handleControlMessage_def)

end
