(* ===== verification/IkeHeader.thy ===== *)
theory IkeHeader
  imports Prelude
begin

unbundle bit_operations_syntax

text \<open>
  The 28-byte header shared by IKEv1 and IKEv2 (\<^verbatim>\<open>internal/ike/header.go\<close>), and the errors of
  the IKE package. A fixed-size array (\<^verbatim>\<open>[8]byte\<close>) is a list whose length is an invariant.
  A run-time panic is the error \<open>IkePanic\<close>, which no caller turns into anything else.
\<close>

datatype ike_error =
    IkePanic
  | IkeTooShort nat
  | InvalidMajorVersion
  | LengthBelowHeader
  | ZeroInitiatorSPI
  | ChainTruncated nat
  | BadPayloadLength
  | PayloadBeyondBuffer
  | UnsupportedCritical byte
  | MessageBeyondBuffer
  | PayloadTooShort nat
  | SPIBeyondPayload
  | DeleteTruncated
  | SelectorTruncated
  | SelectorBeyondPayload
  | ProposalTruncated
  | ProposalBadLength
  | ProposalSPITruncated

definition HeaderLen :: nat where "HeaderLen = 28"

definition IKEv1Major :: byte where "IKEv1Major = 1"
definition IKEv1Minor :: byte where "IKEv1Minor = 0"
definition IKEv2Major :: byte where "IKEv2Major = 2"
definition IKEv2Minor :: byte where "IKEv2Minor = 0"

abbreviation (input) ExchangeIdentityProtect :: byte where "ExchangeIdentityProtect \<equiv> 2"
abbreviation (input) ExchangeAggressive :: byte where "ExchangeAggressive \<equiv> 4"
abbreviation (input) ExchangeInformationalV1 :: byte where "ExchangeInformationalV1 \<equiv> 5"
abbreviation (input) ExchangeTransaction :: byte where "ExchangeTransaction \<equiv> 6"
abbreviation (input) ExchangeQuickMode :: byte where "ExchangeQuickMode \<equiv> 32"
abbreviation (input) ExchangeIKESAInit :: byte where "ExchangeIKESAInit \<equiv> 34"
abbreviation (input) ExchangeIKEAuth :: byte where "ExchangeIKEAuth \<equiv> 35"
abbreviation (input) ExchangeCreateChildSA :: byte where "ExchangeCreateChildSA \<equiv> 36"
abbreviation (input) ExchangeInformational :: byte where "ExchangeInformational \<equiv> 37"

abbreviation (input) FlagInitiator :: byte where "FlagInitiator \<equiv> 0x08"
abbreviation (input) FlagResponse :: byte where "FlagResponse \<equiv> 0x20"
abbreviation (input) FlagV1Encryption :: byte where "FlagV1Encryption \<equiv> 0x01"

record IkeHeader =
  InitiatorSPI :: bytes
  ResponderSPI :: bytes
  HdrNextPayload :: byte
  MajorVersion :: byte
  MinorVersion :: byte
  Exchange :: byte
  HdrFlags :: byte
  MessageID :: u32
  IkeLength :: u32

definition ParseIkeHeader :: "bytes \<Rightarrow> ike_error + IkeHeader" where
  "ParseIkeHeader buf =
     (if length buf < HeaderLen then Inl (IkeTooShort (length buf))
      else Inr
        \<lparr>InitiatorSPI = slice 0 8 buf, ResponderSPI = slice 8 16 buf,
         HdrNextPayload = buf ! 16, MajorVersion = drop_bit 4 (buf ! 17),
         MinorVersion = buf ! 17 AND 0x0F, Exchange = buf ! 18, HdrFlags = buf ! 19,
         MessageID = Uint32 (slice 20 24 buf), IkeLength = Uint32 (slice 24 28 buf)\<rparr>)"

text \<open>The 28 bytes that \<^verbatim>\<open>Marshal\<close> writes; the rest of the buffer is untouched.\<close>

definition ikeHeaderBytes :: "IkeHeader \<Rightarrow> bytes" where
  "ikeHeaderBytes h =
     InitiatorSPI h @ ResponderSPI h @
     [HdrNextPayload h, push_bit 4 (MajorVersion h) OR (MinorVersion h AND 0x0F), Exchange h, HdrFlags h] @
     PutUint32 (MessageID h) @ PutUint32 (IkeLength h)"

definition MarshalIkeHeader :: "IkeHeader \<Rightarrow> bytes \<Rightarrow> ike_error + bytes" where
  "MarshalIkeHeader h buf =
     (if length buf < HeaderLen then Inl (IkeTooShort (length buf))
      else Inr (copy_at 0 (ikeHeaderBytes h) buf))"

definition MarshalBinary :: "IkeHeader \<Rightarrow> bytes" where
  "MarshalBinary h =
     (case MarshalIkeHeader h (replicate HeaderLen 0) of Inl _ \<Rightarrow> replicate HeaderLen 0 | Inr buf \<Rightarrow> buf)"

definition IsIKEv2 :: "IkeHeader \<Rightarrow> bool" where "IsIKEv2 h \<longleftrightarrow> MajorVersion h = IKEv2Major"
definition IsIKEv1 :: "IkeHeader \<Rightarrow> bool" where "IsIKEv1 h \<longleftrightarrow> MajorVersion h = IKEv1Major"
definition IsResponse :: "IkeHeader \<Rightarrow> bool" where "IsResponse h \<longleftrightarrow> HdrFlags h AND FlagResponse \<noteq> 0"
definition HdrIsInitiator :: "IkeHeader \<Rightarrow> bool" where
  "HdrIsInitiator h \<longleftrightarrow> HdrFlags h AND FlagInitiator \<noteq> 0"
definition IsEncrypted :: "IkeHeader \<Rightarrow> bool" where
  "IsEncrypted h \<longleftrightarrow> HdrFlags h AND FlagV1Encryption \<noteq> 0"
definition SPIPair :: "IkeHeader \<Rightarrow> bytes" where "SPIPair h = InitiatorSPI h @ ResponderSPI h"

definition Validate :: "IkeHeader \<Rightarrow> ike_error option" where
  "Validate h =
     (if MajorVersion h = 0 then Some InvalidMajorVersion
      else if IkeLength h < of_nat HeaderLen then Some LengthBelowHeader
      else if MajorVersion h = IKEv2Major \<and> InitiatorSPI h = replicate 8 0 then Some ZeroInitiatorSPI
      else None)"

definition SetIKEv1 :: "IkeHeader \<Rightarrow> IkeHeader" where
  "SetIKEv1 h = h\<lparr>MajorVersion := IKEv1Major, MinorVersion := IKEv1Minor\<rparr>"

definition SetIKEv2 :: "IkeHeader \<Rightarrow> IkeHeader" where
  "SetIKEv2 h = h\<lparr>MajorVersion := IKEv2Major, MinorVersion := IKEv2Minor\<rparr>"

definition SetResponseFlags :: "bool \<Rightarrow> IkeHeader \<Rightarrow> IkeHeader" where
  "SetResponseFlags initiator h =
     h\<lparr>HdrFlags := (if initiator then FlagResponse OR FlagInitiator else FlagResponse)\<rparr>"

definition SetRequestFlags :: "bool \<Rightarrow> IkeHeader \<Rightarrow> IkeHeader" where
  "SetRequestFlags initiator h = h\<lparr>HdrFlags := (if initiator then 0 OR FlagInitiator else 0)\<rparr>"

section \<open>Headers and bytes\<close>

definition ikeHeader_wf :: "IkeHeader \<Rightarrow> bool" where
  "ikeHeader_wf h \<longleftrightarrow> length (InitiatorSPI h) = 8 \<and> length (ResponderSPI h) = 8 \<and>
     MajorVersion h < 16 \<and> MinorVersion h < 16"

lemma unat_take_bit_4: "unat (take_bit 4 (m :: byte)) = unat m mod 16"
  by (simp only: unsigned_take_bit_eq) (simp add: take_bit_nat_def)

lemma nibble: "(m :: byte) < 16 \<Longrightarrow> take_bit 4 m = m"
  by (simp only: word_unat_eq_iff unat_take_bit_4) (simp add: word_less_nat_alt)

lemma nibble_bit: "(m :: byte) < 16 \<Longrightarrow> bit m n \<Longrightarrow> n < 4"
  using nibble [of m] bit_take_bit_iff [of 4 m n] by auto

lemma mask_15: "(x :: byte) AND 0x0F = take_bit 4 x"
  by (simp add: take_bit_eq_mask mask_eq_exp_minus_1)

lemma version_byte:
  assumes "(a :: byte) < 16" and "b < 16"
  shows "drop_bit 4 (push_bit 4 a OR (b AND 0x0F)) = a" "(push_bit 4 a OR (b AND 0x0F)) AND 0x0F = b"
proof -
  show "drop_bit 4 (push_bit 4 a OR (b AND 0x0F)) = a"
    using nibble_bit [OF assms(1)] by (intro bit_word_eqI) (auto simp: mask_15 bit_simps)
  show "(push_bit 4 a OR (b AND 0x0F)) AND 0x0F = b"
    using nibble_bit [OF assms(2)] by (intro bit_word_eqI) (auto simp: mask_15 bit_simps)
qed

lemma version_byte': "push_bit 4 (drop_bit 4 x) OR ((x AND 0x0F) AND 0x0F) = (x :: byte)"
  "drop_bit 4 x < (16 :: byte)" "x AND 0x0F < (16 :: byte)"
proof -
  show "push_bit 4 (drop_bit 4 x) OR ((x AND 0x0F) AND 0x0F) = x"
    by (rule bit_word_eqI) (auto simp: mask_15 bit_simps)
  show "x AND 0x0F < 16"
    by (simp only: mask_15 word_less_nat_alt unat_take_bit_4) simp
  show "drop_bit 4 x < 16"
  proof -
    have "unat (drop_bit 4 x) = unat x div 16" 
      by (simp only: unsigned_drop_bit_eq) (simp add: drop_bit_nat_def take_bit_nat_eq_self)
    moreover have "unat x < 16 * 16" by simp
    ultimately have "unat (drop_bit 4 x) < 16" using less_mult_imp_div_less [of "unat x" 16 16] by metis
    then show ?thesis by (simp only: word_less_nat_alt) simp
  qed
qed

lemma length_ikeHeaderBytes: "ikeHeader_wf h \<Longrightarrow> length (ikeHeaderBytes h) = 28"
  by (simp add: ikeHeaderBytes_def ikeHeader_wf_def)

lemma MarshalBinary_eq: "ikeHeader_wf h \<Longrightarrow> MarshalBinary h = ikeHeaderBytes h"
  by (simp add: MarshalBinary_def MarshalIkeHeader_def HeaderLen_def copy_at_replicate length_ikeHeaderBytes)

lemma MarshalIkeHeader_append:
  assumes "ikeHeader_wf h" and "length p = 28"
  shows "MarshalIkeHeader h (p @ rest) = Inr (ikeHeaderBytes h @ rest)"
  using copy_at_append [of "[]" 0 p "ikeHeaderBytes h" rest] assms
  by (simp add: MarshalIkeHeader_def HeaderLen_def length_ikeHeaderBytes)

lemma Parse_ikeHeaderBytes:
  assumes "ikeHeader_wf h"
  shows "ParseIkeHeader (ikeHeaderBytes h @ rest) = Inr h"
proof -
  obtain i0 i1 i2 i3 i4 i5 i6 i7 r0 r1 r2 r3 r4 r5 r6 r7 where
    "InitiatorSPI h = [i0, i1, i2, i3, i4, i5, i6, i7]" "ResponderSPI h = [r0, r1, r2, r3, r4, r5, r6, r7]"
    using assms by (auto simp: ikeHeader_wf_def numeral_eq_Suc length_Suc_conv)
  with assms version_byte [of "MajorVersion h" "MinorVersion h"] show ?thesis
    by (simp add: ParseIkeHeader_def ikeHeaderBytes_def ikeHeader_wf_def slice_def HeaderLen_def)
qed

text \<open>
  IKE headers and 28-byte strings are in bijection: serialising a header whose cookies
  have 8 bytes and whose version numbers fit a nibble, whatever follows, parses back to it;
  and any 28 bytes parse to such a header, which serialises to the same bytes.
\<close>

theorem ike_header_bijection:
  "(ikeHeader_wf h \<longrightarrow> ParseIkeHeader (MarshalBinary h @ rest) = Inr h) \<and>
   (28 \<le> length buf \<longrightarrow> (\<exists>h'. ParseIkeHeader buf = Inr h' \<and> ikeHeader_wf h' \<and> MarshalBinary h' = take 28 buf))"
proof (intro conjI impI)
  assume "ikeHeader_wf h"
  then show "ParseIkeHeader (MarshalBinary h @ rest) = Inr h"
    by (simp add: MarshalBinary_eq Parse_ikeHeaderBytes)
next
  assume l: "28 \<le> length buf"
  then obtain h' where h': "ParseIkeHeader buf = Inr h'" by (simp add: ParseIkeHeader_def HeaderLen_def)
  have wf: "ikeHeader_wf h'" using h' l version_byte'
    by (auto simp: ParseIkeHeader_def ikeHeader_wf_def HeaderLen_def)
  define b where "b = take 28 buf"
  have b: "length b = 28" "slice 0 8 buf = slice 0 8 b" "slice 8 16 buf = slice 8 16 b" "buf ! 16 = b ! 16" "buf ! 17 = b ! 17"
    "buf ! 18 = b ! 18" "buf ! 19 = b ! 19" "slice 20 24 buf = slice 20 24 b" "slice 24 28 buf = slice 24 28 b"
    using l by (simp_all add: b_def slice_def take_drop min_def)
  have split: "b = slice 0 8 b @ slice 8 16 b @ [b ! 16, b ! 17, b ! 18, b ! 19] @ slice 20 24 b @ slice 24 28 b"
  proof -
    have "drop 16 b = b ! 16 # b ! 17 # b ! 18 # b ! 19 # drop 20 b"
      using b(1) by (simp add: Cons_nth_drop_Suc numeral_eq_Suc)
    moreover have "drop 20 b = slice 20 24 b @ slice 24 28 b"
      using b(1) slice_append_drop [of 20 24 b] by (simp add: slice_def)
    moreover have "b = slice 0 8 b @ slice 8 16 b @ drop 16 b"
      using slice_append_drop [of 8 16 b] slice_append_drop [of 0 8 b] by simp
    ultimately show ?thesis by simp
  qed
  have u: "PutUint32 (Uint32 x) = x" if "length x = 4" for x
    using that by (auto simp: PutUint32_Uint32 numeral_eq_Suc length_Suc_conv)
  have "ikeHeaderBytes h' = b"
    using h' l b(1) version_byte'(1) [of "b ! 17"]
    by (subst split) (auto simp: ParseIkeHeader_def HeaderLen_def ikeHeaderBytes_def b u)
  with wf h' show "\<exists>h'. ParseIkeHeader buf = Inr h' \<and> ikeHeader_wf h' \<and> MarshalBinary h' = take 28 buf"
    by (auto simp: MarshalBinary_eq b_def)
qed

end
