(* ===== verification/IkeGeneric.thy ===== *)
theory IkeGeneric
  imports IkeHeader
begin

unbundle bit_operations_syntax

text \<open>
  What all IKE payloads share: the 4-byte generic header (\<^verbatim>\<open>internal/ike/payload.go\<close>), the
  helper that puts it before a body (\<^verbatim>\<open>marshalWithHeader\<close> of \<^verbatim>\<open>payload_v2.go\<close>), and the ISAKMP
  data attributes of \<^verbatim>\<open>payload_v1.go\<close>, which both versions use. A loop over a buffer is a
  recursion on the rest of it.
\<close>

abbreviation (input) PayloadNone :: byte where "PayloadNone \<equiv> 0"

definition PayloadHeaderLen :: nat where "PayloadHeaderLen = 4"

record GenericPayloadHeader =
  gphNext :: byte
  Critical :: bool
  gphLength :: u16

definition ParseGenericPayloadHeader :: "bytes \<Rightarrow> ike_error + GenericPayloadHeader" where
  "ParseGenericPayloadHeader buf =
     (if length buf < PayloadHeaderLen then Inl (IkeTooShort (length buf))
      else Inr \<lparr>gphNext = buf ! 0, Critical = (buf ! 1 AND 0x80 \<noteq> 0), gphLength = Uint16 (slice 2 4 buf)\<rparr>)"

text \<open>The four bytes that \<^verbatim>\<open>Marshal\<close> writes into the buffer.\<close>

definition genericHeaderBytes :: "GenericPayloadHeader \<Rightarrow> bytes" where
  "genericHeaderBytes g = [gphNext g, if Critical g then 0x80 else 0] @ PutUint16 (gphLength g)"

definition MarshalGeneric :: "GenericPayloadHeader \<Rightarrow> bytes \<Rightarrow> ike_error + bytes" where
  "MarshalGeneric g buf =
     (if length buf < PayloadHeaderLen then Inl (IkeTooShort (length buf))
      else Inr (copy_at 0 (genericHeaderBytes g) buf))"

definition marshalWithHeader :: "bytes \<Rightarrow> bytes" where
  "marshalWithHeader body =
     [PayloadNone, 0] @ PutUint16 (of_nat (PayloadHeaderLen + length body)) @ body"

text \<open>A nested payload of a chain: a header with the type of the next one, and the body.\<close>

definition withNext :: "byte \<Rightarrow> bytes \<Rightarrow> bytes" where
  "withNext next body =
     genericHeaderBytes \<lparr>gphNext = next, Critical = False, gphLength = of_nat (PayloadHeaderLen + length body)\<rparr> @ body"

lemma length_genericHeaderBytes [simp]: "length (genericHeaderBytes g) = 4"
  by (simp add: genericHeaderBytes_def)

lemma length_withNext [simp]: "length (withNext n b) = 4 + length b"
  by (simp add: withNext_def)

lemma length_marshalWithHeader [simp]: "length (marshalWithHeader b) = 4 + length b"
  by (simp add: marshalWithHeader_def)

lemma Parse_genericHeaderBytes [simp]: "ParseGenericPayloadHeader (genericHeaderBytes g @ r) = Inr g"
  by (simp add: ParseGenericPayloadHeader_def genericHeaderBytes_def PayloadHeaderLen_def slice_def)

lemma Parse_withNext:
  "ParseGenericPayloadHeader (withNext n b @ r) =
     Inr \<lparr>gphNext = n, Critical = False, gphLength = of_nat (4 + length b)\<rparr>"
  by (simp add: withNext_def PayloadHeaderLen_def del: of_nat_add)

lemma slice_withNext:
  "slice 4 (4 + length b) (withNext n b @ r) = b" "drop (4 + length b) (withNext n b @ r) = r"
  by (simp_all add: withNext_def slice_def)

lemma marshalWithHeader_withNext: "marshalWithHeader b = withNext PayloadNone b"
  by (simp add: marshalWithHeader_def withNext_def genericHeaderBytes_def)

section \<open>Attributes\<close>

record ISAKMPAttribute =
  attrType :: u16
  IsTV :: bool
  attrValue :: bytes

definition MarshalAttribute :: "ISAKMPAttribute \<Rightarrow> bytes" where
  "MarshalAttribute a =
     (if IsTV a then
        PutUint16 (attrType a OR 0x8000) @ (if length (attrValue a) \<ge> 2 then take 2 (attrValue a) else [0, 0])
      else
        PutUint16 (attrType a AND 0x7FFF) @ PutUint16 (of_nat (length (attrValue a))) @ attrValue a)"

function ParseISAKMPAttributes :: "bytes \<Rightarrow> ISAKMPAttribute list" where
  "ParseISAKMPAttributes buf =
     (if length buf < 4 then []
      else
      (let typeField = Uint16 (slice 0 2 buf); attrType = typeField AND 0x7FFF in
       if typeField AND 0x8000 \<noteq> 0 then
         \<lparr>attrType = attrType, IsTV = True, attrValue = slice 2 4 buf\<rparr> # ParseISAKMPAttributes (drop 4 buf)
       else
       (let attrLen = unat (Uint16 (slice 2 4 buf)) in
        if 4 + attrLen > length buf then []
        else \<lparr>attrType = attrType, IsTV = False, attrValue = slice 4 (4 + attrLen) buf\<rparr>
               # ParseISAKMPAttributes (drop (4 + attrLen) buf))))"
  by pat_completeness auto
termination by (relation "measure length") auto

declare ParseISAKMPAttributes.simps [simp del]

definition attr_wf :: "ISAKMPAttribute \<Rightarrow> bool" where
  "attr_wf a \<longleftrightarrow> attrType a < 0x8000 \<and> (if IsTV a then length (attrValue a) = 2 else length (attrValue a) < 65536)"

lemma high_bit_16:
  assumes "(t :: u16) < 0x8000"
  shows "(t OR 0x8000) AND 0x7FFF = t" "(t OR 0x8000) AND 0x8000 \<noteq> 0"
    "(t AND 0x7FFF) AND 0x7FFF = t" "(t AND 0x7FFF) AND 0x8000 = 0" "t AND 0x7FFF = t"
proof -
  have m: "x AND 0x7FFF = take_bit 15 x" for x :: u16
    by (simp add: take_bit_eq_mask mask_eq_exp_minus_1)
  have t: "take_bit 15 t = t"
  proof -
    have "unat (take_bit 15 t) = unat t mod 32768"
      by (simp only: unsigned_take_bit_eq) (simp add: take_bit_nat_def)
    with assms show ?thesis by (simp only: word_unat_eq_iff) (simp add: word_less_nat_alt)
  qed
  show 1: "t AND 0x7FFF = t" using m t by metis
  then show "(t AND 0x7FFF) AND 0x7FFF = t" by simp
  show "(t AND 0x7FFF) AND 0x8000 = 0" by (simp only: and.assoc) simp
  show "(t OR 0x8000) AND 0x7FFF = t" using 1 by (simp only: bit.conj_disj_distrib2) simp
  show "(t OR 0x8000) AND 0x8000 \<noteq> 0"
    by (simp only: bit.conj_disj_distrib2 or_eq_0_iff) simp
qed

lemma length_MarshalAttribute [simp]: "length (MarshalAttribute a) = (if IsTV a then 4 else 4 + length (attrValue a))"
  by (simp add: MarshalAttribute_def)

lemma Parse_MarshalAttribute:
  assumes "attr_wf a"
  shows "ParseISAKMPAttributes (MarshalAttribute a @ r) = a # ParseISAKMPAttributes r"
proof (cases "IsTV a")
  case True
  then have v: "length (attrValue a) = 2" "attrType a < 0x8000" using assms by (simp_all add: attr_wf_def)
  note hb = high_bit_16 [OF v(2)]
  show ?thesis
    using True v(1) hb(1,2)
    by (subst ParseISAKMPAttributes.simps) (simp add: MarshalAttribute_def slice_def Let_def)
next
  case False
  then have v: "length (attrValue a) < 65536" "attrType a < 0x8000" using assms by (simp_all add: attr_wf_def)
  note hb = high_bit_16 [OF v(2)]
  show ?thesis
    using False hb(3,4,5) u16_of_nat_unat [OF v(1)]
    by (subst ParseISAKMPAttributes.simps) (simp add: MarshalAttribute_def slice_def Let_def)
qed

lemma Parse_MarshalAttributes:
  "\<forall>a\<in>set as. attr_wf a \<Longrightarrow> ParseISAKMPAttributes (concat (map MarshalAttribute as)) = as"
  by (induction as) (simp_all add: Parse_MarshalAttribute ParseISAKMPAttributes.simps [of "[]"])

end
