(* ===== verification/IkePayloadSA.thy ===== *)
theory IkePayloadSA
  imports IkeGeneric
begin

unbundle bit_operations_syntax

text \<open>
  The IKEv2 Security Association payload (\<^verbatim>\<open>internal/ike/payload_sa.go\<close>): proposals and
  transforms, written with position-dependent "last" marks and read back.
\<close>

definition AttrKeyLength :: u16 where "AttrKeyLength = 14"

record Transform =
  xfType :: byte
  xfID :: u16
  KeyLength :: u16
  xfIsLast :: bool

record Proposal =
  propNumber :: byte
  propProtocolID :: byte
  propSPI :: bytes
  Transforms :: "Transform list"
  propIsLast :: bool

record SAPayload =
  Proposals :: "Proposal list"

definition marshalV2Transform :: "bool \<Rightarrow> Transform \<Rightarrow> bytes" where
  "marshalV2Transform isLast xf =
     (let attrBytes = (if KeyLength xf > 0 then PutUint16 (AttrKeyLength OR 0x8000) @ PutUint16 (KeyLength xf) else [])
      in [if isLast then 0 else 3, 0] @ PutUint16 (of_nat (8 + length attrBytes)) @
         [xfType xf, 0] @ PutUint16 (xfID xf) @ attrBytes)"

text \<open>The loops over the elements: the last one is told apart.\<close>

fun marshalAll :: "(bool \<Rightarrow> 'a \<Rightarrow> bytes) \<Rightarrow> 'a list \<Rightarrow> bytes" where
  "marshalAll f [] = []"
| "marshalAll f (x # xs) = f (xs = []) x @ marshalAll f xs"

definition marshalV2Proposal :: "bool \<Rightarrow> Proposal \<Rightarrow> bytes" where
  "marshalV2Proposal isLast prop =
     (let xformBytes = marshalAll marshalV2Transform (Transforms prop); spiSize = length (propSPI prop)
      in [if isLast then 0 else 2, 0] @ PutUint16 (of_nat (8 + spiSize + length xformBytes)) @
         [propNumber prop, propProtocolID prop, of_nat spiSize, of_nat (length (Transforms prop))] @
         propSPI prop @ xformBytes)"

definition bodySA :: "SAPayload \<Rightarrow> bytes" where
  "bodySA sa = marshalAll marshalV2Proposal (Proposals sa)"

definition transformKeyLength :: "ISAKMPAttribute list \<Rightarrow> u16" where
  "transformKeyLength attrs =
     fold (\<lambda>attr k. if attrType attr = AttrKeyLength \<and> IsTV attr \<and> length (attrValue attr) \<ge> 2
                      then Uint16 (attrValue attr) else k) attrs 0"

primrec parseV2Transforms :: "nat \<Rightarrow> bytes \<Rightarrow> Transform list" where
  "parseV2Transforms 0 buf = []"
| "parseV2Transforms (Suc count) buf =
     (if length buf = 0 \<or> length buf < 8 then []
      else
      (let lastOrMore = buf ! 0; xfLen = unat (Uint16 (slice 2 4 buf)) in
       if xfLen < 8 \<or> xfLen > length buf then []
       else
       (let xf = \<lparr>xfType = buf ! 4, xfID = Uint16 (slice 6 8 buf),
                  KeyLength = (if xfLen > 8 then transformKeyLength (ParseISAKMPAttributes (slice 8 xfLen buf)) else 0),
                  xfIsLast = (lastOrMore = 0)\<rparr>
        in xf # (if lastOrMore = 0 then [] else parseV2Transforms count (drop xfLen buf)))))"

function parseV2Proposals :: "bytes \<Rightarrow> ike_error + Proposal list" where
  "parseV2Proposals buf =
     (if length buf = 0 then Inr []
      else if length buf < 8 then Inl ProposalTruncated
      else
      (let lastOrMore = buf ! 0; propLen = unat (Uint16 (slice 2 4 buf));
           spiSize = unat (buf ! 6); numTransforms = unat (buf ! 7)
       in
       if propLen < 8 \<or> propLen > length buf then Inl ProposalBadLength
       else if spiSize > 0 \<and> 8 + spiSize > propLen then Inl ProposalSPITruncated
       else
       (let prop = \<lparr>propNumber = buf ! 4, propProtocolID = buf ! 5,
                    propSPI = (if spiSize > 0 then slice 8 (8 + spiSize) buf else []),
                    Transforms = parseV2Transforms numTransforms (slice (8 + spiSize) propLen buf),
                    propIsLast = (lastOrMore = 0)\<rparr>
        in if lastOrMore = 0 then Inr [prop]
           else
           (case parseV2Proposals (drop propLen buf) of
              Inl e \<Rightarrow> Inl e
            | Inr ps \<Rightarrow> Inr (prop # ps)))))"
  by pat_completeness auto
termination by (relation "measure length") auto

declare parseV2Proposals.simps [simp del]

definition parseV2SA :: "bytes \<Rightarrow> ike_error + SAPayload" where
  "parseV2SA body =
     (case parseV2Proposals body of Inl e \<Rightarrow> Inl e | Inr ps \<Rightarrow> Inr \<lparr>Proposals = ps\<rparr>)"

section \<open>Round trip\<close>

text \<open>The \<open>IsLast\<close> fields are ignored when writing and set when reading.\<close>

fun markLast :: "(bool \<Rightarrow> 'a \<Rightarrow> 'a) \<Rightarrow> 'a list \<Rightarrow> 'a list" where
  "markLast f [] = []"
| "markLast f (x # xs) = f (xs = []) x # markLast f xs"

definition normTransforms :: "Transform list \<Rightarrow> Transform list" where
  "normTransforms = markLast (\<lambda>b xf. xf\<lparr>xfIsLast := b\<rparr>)"

definition normProposals :: "Proposal list \<Rightarrow> Proposal list" where
  "normProposals = markLast (\<lambda>b p. p\<lparr>Transforms := normTransforms (Transforms p), propIsLast := b\<rparr>)"

definition prop_wf :: "Proposal \<Rightarrow> bool" where
  "prop_wf p \<longleftrightarrow> length (propSPI p) < 256 \<and> length (Transforms p) < 256"

lemma length_marshalV2Transform: "length (marshalV2Transform b xf) = (if KeyLength xf > 0 then 12 else 8)"
  by (simp add: marshalV2Transform_def Let_def)

lemma length_marshalTransforms: "length (marshalAll marshalV2Transform xfs) \<le> 12 * length xfs"
  by (induction xfs) (simp_all add: length_marshalV2Transform)

lemma keyLength_attr:
  "transformKeyLength (ParseISAKMPAttributes (PutUint16 (AttrKeyLength OR 0x8000) @ PutUint16 k)) = k"
proof -
  let ?a = "\<lparr>attrType = AttrKeyLength, IsTV = True, attrValue = PutUint16 k\<rparr>"
  have "attr_wf ?a" by (simp add: attr_wf_def AttrKeyLength_def)
  moreover have "PutUint16 (AttrKeyLength OR 0x8000) @ PutUint16 k = concat (map MarshalAttribute [?a])"
    by (simp add: MarshalAttribute_def)
  ultimately have "ParseISAKMPAttributes (PutUint16 (AttrKeyLength OR 0x8000) @ PutUint16 k) = [?a]"
    using Parse_MarshalAttributes [of "[?a]"] by (simp only: list.set) simp
  then show ?thesis by (simp add: transformKeyLength_def)
qed

lemma parse_marshalV2Transform:
  "parseV2Transforms (Suc n) (marshalV2Transform b xf @ r) =
     xf\<lparr>xfIsLast := b\<rparr> # (if b then [] else parseV2Transforms n r)"
proof (cases "KeyLength xf > 0")
  case True
  have "unat (of_nat 12 :: u16) = 12" by simp
  with True show ?thesis
    using keyLength_attr [of "KeyLength xf"]
    by (simp add: marshalV2Transform_def Let_def slice_def drop_Cons' nth_append)
next
  case False
  then have "KeyLength xf = 0" by (simp add: word_neq_0_conv [symmetric] del: word_neq_0_conv)
  then show ?thesis by (simp add: marshalV2Transform_def Let_def slice_def nth_append)
qed

lemma parse_marshalV2Transforms:
  "parseV2Transforms (length xfs) (marshalAll marshalV2Transform xfs) = normTransforms xfs"
proof (induction xfs)
  case (Cons xf xfs)
  then show ?case
    using parse_marshalV2Transform [of "length xfs" "xfs = []" xf "marshalAll marshalV2Transform xfs"]
    by (simp add: normTransforms_def del: parseV2Transforms.simps)
qed (simp add: normTransforms_def)

lemma parse_marshalV2Proposal:
  assumes "prop_wf p"
  shows "parseV2Proposals (marshalV2Proposal b p @ r) =
    (let p' = p\<lparr>Transforms := normTransforms (Transforms p), propIsLast := b\<rparr> in
     if b then Inr [p'] else case parseV2Proposals r of Inl e \<Rightarrow> Inl e | Inr ps \<Rightarrow> Inr (p' # ps))"
proof -
  let ?x = "marshalAll marshalV2Transform (Transforms p)" and ?n = "length (propSPI p)"
  have n: "?n < 256" "length (Transforms p) < 256" using assms by (simp_all add: prop_wf_def)
  have l: "unat (of_nat (8 + ?n + length ?x) :: u16) = 8 + ?n + length ?x"
    using length_marshalTransforms [of "Transforms p"] n by (intro u16_of_nat_unat) linarith
  let ?buf = "marshalV2Proposal b p @ r"
  have f: "?buf ! 0 = (if b then 0 else 2)" "Uint16 (slice 2 4 ?buf) = of_nat (8 + ?n + length ?x)"
    "?buf ! 4 = propNumber p" "?buf ! 5 = propProtocolID p" "unat (?buf ! 6) = ?n"
    "unat (?buf ! 7) = length (Transforms p)" "slice 8 (8 + ?n) ?buf = propSPI p"
    "slice (8 + ?n) (8 + ?n + length ?x) ?buf = ?x" "drop (8 + ?n + length ?x) ?buf = r"
    "length ?buf = 8 + ?n + length ?x + length r"
    using n by (simp_all add: marshalV2Proposal_def Let_def slice_def byte_of_nat_unat drop_Cons' nth_append del: of_nat_add)
  have rec: "\<lparr>propNumber = propNumber p, propProtocolID = propProtocolID p,
      propSPI = (if ?n > 0 then propSPI p else []), Transforms = xs, propIsLast = i\<rparr> =
      p\<lparr>Transforms := xs, propIsLast := i\<rparr>" for xs i
    by (cases p) simp
  have two: "((if b then 0 else 2) = (0 :: byte)) = b" by simp
  show ?thesis
    unfolding parseV2Proposals.simps [of ?buf] f l Let_def parse_marshalV2Transforms rec two
    by simp
qed

lemma parse_bodySA_proposals:
  "\<forall>p\<in>set ps. prop_wf p \<Longrightarrow> parseV2Proposals (marshalAll marshalV2Proposal ps) = Inr (normProposals ps)"
proof (induction ps)
  case Nil
  then show ?case by (simp add: parseV2Proposals.simps normProposals_def)
next
  case (Cons p ps)
  then show ?case
    using parse_marshalV2Proposal [of p "ps = []" "marshalAll marshalV2Proposal ps"]
    by (cases "ps = []") (simp_all add: normProposals_def Let_def)
qed

lemma parse_bodySA:
  "\<forall>p\<in>set (Proposals sa). prop_wf p \<Longrightarrow> parseV2SA (bodySA sa) = Inr \<lparr>Proposals = normProposals (Proposals sa)\<rparr>"
  by (simp add: parseV2SA_def bodySA_def parse_bodySA_proposals)

end
