(* ===== verification/IkePayloadV1.thy ===== *)
theory IkePayloadV1
  imports IkeGeneric
begin

unbundle bit_operations_syntax

text \<open>
  The IKEv1 payloads (\<^verbatim>\<open>internal/ike/payload_v1.go\<close>): for each payload its fields, the body
  that \<^verbatim>\<open>Marshal\<close> puts behind the generic header, and the parser of a body.
\<close>

definition DOIIPsec :: u32 where "DOIIPsec = 1"
definition SituationIdentityOnly :: u32 where "SituationIdentityOnly = 1"

abbreviation (input) PayloadProposalV1 :: byte where "PayloadProposalV1 \<equiv> 2"
abbreviation (input) PayloadTransformV1 :: byte where "PayloadTransformV1 \<equiv> 3"

section \<open>Security association\<close>

record TransformV1Payload =
  tv1Number :: byte
  tv1TransformID :: byte
  tv1Attributes :: "ISAKMPAttribute list"

record ProposalV1Payload =
  pv1Number :: byte
  pv1ProtocolID :: byte
  pv1SPI :: bytes
  pv1Transforms :: "TransformV1Payload list"

record SAv1Payload =
  sav1DOI :: u32
  sav1Situation :: u32
  sav1Proposals :: "ProposalV1Payload list"

definition marshalTransformV1 :: "TransformV1Payload \<Rightarrow> bytes" where
  "marshalTransformV1 xf =
     [tv1Number xf, tv1TransformID xf, 0, 0] @ concat (map MarshalAttribute (tv1Attributes xf))"

text \<open>A sub-chain: every element behind a generic header that announces whether one follows.\<close>

fun subChain :: "byte \<Rightarrow> bytes list \<Rightarrow> bytes" where
  "subChain t [] = []"
| "subChain t [b] = withNext PayloadNone b"
| "subChain t (b # bs) = withNext t b @ subChain t bs"

definition marshalProposalV1 :: "ProposalV1Payload \<Rightarrow> bytes" where
  "marshalProposalV1 p =
     [pv1Number p, pv1ProtocolID p, of_nat (length (pv1SPI p)), of_nat (length (pv1Transforms p))] @
     pv1SPI p @ subChain PayloadTransformV1 (map marshalTransformV1 (pv1Transforms p))"

definition bodySAv1 :: "SAv1Payload \<Rightarrow> bytes" where
  "bodySAv1 sa =
     PutUint32 (sav1DOI sa) @ PutUint32 (sav1Situation sa) @
     subChain PayloadProposalV1 (map marshalProposalV1 (sav1Proposals sa))"

definition parseV1Transform :: "bytes \<Rightarrow> TransformV1Payload" where
  "parseV1Transform body =
     (if length body < 4 then \<lparr>tv1Number = 0, tv1TransformID = 0, tv1Attributes = []\<rparr>
      else \<lparr>tv1Number = body ! 0, tv1TransformID = body ! 1, tv1Attributes = ParseISAKMPAttributes (drop 4 body)\<rparr>)"

fun parseV1Transforms :: "nat \<Rightarrow> bytes \<Rightarrow> TransformV1Payload list" where
  "parseV1Transforms 0 buf = []"
| "parseV1Transforms (Suc n) buf =
     (if length buf = 0 \<or> length buf < PayloadHeaderLen then []
      else
      (case ParseGenericPayloadHeader buf of
         Inl _ \<Rightarrow> []
       | Inr gph \<Rightarrow>
           (let len = unat (gphLength gph) in
            if len < PayloadHeaderLen \<or> len > length buf then []
            else parseV1Transform (slice PayloadHeaderLen len buf) # parseV1Transforms n (drop len buf))))"

definition parseV1Proposal :: "bytes \<Rightarrow> ike_error + ProposalV1Payload" where
  "parseV1Proposal body =
     (if length body < 4 then Inl (PayloadTooShort (length body))
      else
      (let spiSize = unat (body ! 2); numTransforms = unat (body ! 3) in
       if length body < 4 + spiSize then Inl ProposalSPITruncated
       else Inr
         \<lparr>pv1Number = body ! 0, pv1ProtocolID = body ! 1,
          pv1SPI = (if spiSize > 0 then slice 4 (4 + spiSize) body else []),
          pv1Transforms = parseV1Transforms numTransforms (drop (4 + spiSize) body)\<rparr>))"

function parseV1Proposals :: "byte \<Rightarrow> bytes \<Rightarrow> ike_error + ProposalV1Payload list" where
  "parseV1Proposals nextPL buf =
     (if nextPL \<noteq> PayloadProposalV1 \<or> length buf = 0 \<or> length buf < PayloadHeaderLen then Inr []
      else
      (case ParseGenericPayloadHeader buf of
         Inl e \<Rightarrow> Inl e
       | Inr gph \<Rightarrow>
           (let len = unat (gphLength gph) in
            if len < PayloadHeaderLen \<or> len > length buf then Inr []
            else
            (case parseV1Proposal (slice PayloadHeaderLen len buf) of
               Inl e \<Rightarrow> Inl e
             | Inr p \<Rightarrow>
                 (case parseV1Proposals (gphNext gph) (drop len buf) of
                    Inl e \<Rightarrow> Inl e
                  | Inr ps \<Rightarrow> Inr (p # ps))))))"
  by pat_completeness auto
termination by (relation "measure (\<lambda>(_, buf). length buf)") (auto simp: PayloadHeaderLen_def)

declare parseV1Proposals.simps [simp del]

definition parseV1SA :: "bytes \<Rightarrow> ike_error + SAv1Payload" where
  "parseV1SA body =
     (if length body < 8 then Inl (PayloadTooShort (length body))
      else
      (case parseV1Proposals PayloadProposalV1 (drop 8 body) of
         Inl e \<Rightarrow> Inl e
       | Inr ps \<Rightarrow>
           Inr \<lparr>sav1DOI = Uint32 (slice 0 4 body), sav1Situation = Uint32 (slice 4 8 body), sav1Proposals = ps\<rparr>))"

section \<open>The other payloads\<close>

record IDv1Payload =
  idv1Type :: byte
  idv1Proto :: byte
  idv1Port :: u16
  idv1Data :: bytes

record NotifyV1Payload =
  ntf1DOI :: u32
  ntf1ProtocolID :: byte
  ntf1SPISize :: byte
  ntf1MsgType :: u16
  ntf1SPI :: bytes
  ntf1Data :: bytes

record DeleteV1Payload =
  del1DOI :: u32
  del1ProtocolID :: byte
  del1SPISize :: byte
  del1SPIs :: "bytes list"

record CERTPayload =
  certEncoding :: byte
  certData :: bytes

definition bodyIDv1 :: "IDv1Payload \<Rightarrow> bytes" where
  "bodyIDv1 p = [idv1Type p, idv1Proto p] @ PutUint16 (idv1Port p) @ idv1Data p"

definition bodyNotifyV1 :: "NotifyV1Payload \<Rightarrow> bytes" where
  "bodyNotifyV1 p =
     PutUint32 (ntf1DOI p) @ [ntf1ProtocolID p, of_nat (length (ntf1SPI p))] @ PutUint16 (ntf1MsgType p) @
     ntf1SPI p @ ntf1Data p"

text \<open>The identifiers of a Delete payload, each copied to its slot.\<close>

definition placeSPIs :: "nat \<Rightarrow> bytes list \<Rightarrow> bytes" where
  "placeSPIs width spis =
     fst (foldl (\<lambda>(buf, off) spi. (copy_at off spi buf, off + width)) (replicate (length spis * width) 0, 0) spis)"

definition bodyDeleteV1 :: "DeleteV1Payload \<Rightarrow> bytes" where
  "bodyDeleteV1 p =
     PutUint32 (del1DOI p) @ [del1ProtocolID p, del1SPISize p] @ PutUint16 (of_nat (length (del1SPIs p))) @
     placeSPIs (unat (del1SPISize p)) (del1SPIs p)"

definition parseV1ID :: "bytes \<Rightarrow> ike_error + IDv1Payload" where
  "parseV1ID body =
     (if length body < 4 then Inl (PayloadTooShort (length body))
      else Inr \<lparr>idv1Type = body ! 0, idv1Proto = body ! 1, idv1Port = Uint16 (slice 2 4 body), idv1Data = drop 4 body\<rparr>)"

definition parseV1Cert :: "bytes \<Rightarrow> ike_error + CERTPayload" where
  "parseV1Cert body =
     (if length body < 1 then Inl (PayloadTooShort (length body))
      else Inr \<lparr>certEncoding = body ! 0, certData = drop 1 body\<rparr>)"

text \<open>
  In \<^verbatim>\<open>int(8+spiSize)\<close> the sum is taken in \<^verbatim>\<open>uint8\<close>. The slice \<^verbatim>\<open>body[8 : 8+spiSize]\<close> panics
  when it has wrapped.
\<close>

definition parseV1Notify :: "bytes \<Rightarrow> ike_error + NotifyV1Payload" where
  "parseV1Notify body =
     (if length body < 8 then Inl (PayloadTooShort (length body))
      else
      (let spiSize = body ! 5; stop = unat (8 + spiSize) in
       if stop > length body then Inl SPIBeyondPayload
       else
       (case (if spiSize > 0 then go_slice 8 stop body else Some []) of
          None \<Rightarrow> Inl IkePanic
        | Some spi \<Rightarrow>
            Inr \<lparr>ntf1DOI = Uint32 (slice 0 4 body), ntf1ProtocolID = body ! 4, ntf1SPISize = spiSize,
                 ntf1MsgType = Uint16 (slice 6 8 body), ntf1SPI = spi,
                 ntf1Data = (if stop < length body then drop stop body else [])\<rparr>)))"

primrec splitSPIs :: "nat \<Rightarrow> nat \<Rightarrow> bytes \<Rightarrow> bytes list" where
  "splitSPIs width 0 buf = []"
| "splitSPIs width (Suc n) buf = slice 0 width buf # splitSPIs width n (drop width buf)"

definition parseV1Delete :: "bytes \<Rightarrow> ike_error + DeleteV1Payload" where
  "parseV1Delete body =
     (if length body < 8 then Inl (PayloadTooShort (length body))
      else
      (let spiSize = unat (body ! 5); numSPIs = unat (Uint16 (slice 6 8 body)) in
       if length body < 8 + numSPIs * spiSize then Inl DeleteTruncated
       else Inr \<lparr>del1DOI = Uint32 (slice 0 4 body), del1ProtocolID = body ! 4, del1SPISize = body ! 5,
                 del1SPIs = splitSPIs spiSize numSPIs (drop 8 body)\<rparr>))"

section \<open>Round trips\<close>

definition tv1_wf :: "TransformV1Payload \<Rightarrow> bool" where
  "tv1_wf xf \<longleftrightarrow> (\<forall>a\<in>set (tv1Attributes xf). attr_wf a) \<and> length (marshalTransformV1 xf) < 65532"

definition pv1_wf :: "ProposalV1Payload \<Rightarrow> bool" where
  "pv1_wf p \<longleftrightarrow> length (pv1SPI p) < 256 \<and> length (pv1Transforms p) < 256 \<and>
     (\<forall>xf\<in>set (pv1Transforms p). tv1_wf xf) \<and> length (marshalProposalV1 p) < 65532"

definition sav1_wf :: "SAv1Payload \<Rightarrow> bool" where
  "sav1_wf sa \<longleftrightarrow> (\<forall>p\<in>set (sav1Proposals sa). pv1_wf p)"

definition ntf1_wf :: "NotifyV1Payload \<Rightarrow> bool" where
  "ntf1_wf p \<longleftrightarrow> length (ntf1SPI p) < 248 \<and> ntf1SPISize p = of_nat (length (ntf1SPI p))"

definition del1_wf :: "DeleteV1Payload \<Rightarrow> bool" where
  "del1_wf p \<longleftrightarrow> (\<forall>spi\<in>set (del1SPIs p). length spi = unat (del1SPISize p)) \<and> length (del1SPIs p) < 65536"

lemma subChain_Cons:
  "subChain t (b # bs) = withNext (if bs = [] then PayloadNone else t) b @ subChain t bs"
  by (cases bs) simp_all

lemma Parse_MarshalTransformV1: "tv1_wf xf \<Longrightarrow> parseV1Transform (marshalTransformV1 xf) = xf"
  by (simp add: parseV1Transform_def marshalTransformV1_def tv1_wf_def Parse_MarshalAttributes)

lemma withNext_length_field:
  assumes "length b < 65532"
  shows "unat (of_nat (4 + length b) :: u16) = 4 + length b"
  using assms by (intro u16_of_nat_unat) simp

lemma parseV1Transforms_subChain:
  "\<forall>xf\<in>set xfs. tv1_wf xf \<Longrightarrow>
     parseV1Transforms (length xfs) (subChain PayloadTransformV1 (map marshalTransformV1 xfs)) = xfs"
proof (induction xfs)
  case (Cons xf xfs)
  have l: "length (marshalTransformV1 xf) < 65532" using Cons.prems by (simp add: tv1_wf_def)
  from Cons withNext_length_field [OF l] show ?case
    by (simp add: subChain_Cons PayloadHeaderLen_def Parse_withNext slice_withNext Parse_MarshalTransformV1
        del: of_nat_add of_nat_numeral subChain.simps)
qed simp

lemma Parse_MarshalProposalV1: "pv1_wf p \<Longrightarrow> parseV1Proposal (marshalProposalV1 p) = Inr p"
  by (simp add: parseV1Proposal_def marshalProposalV1_def pv1_wf_def Let_def byte_of_nat_unat slice_def
      parseV1Transforms_subChain drop_Cons')

lemma parseV1Proposals_subChain:
  "\<forall>p\<in>set ps. pv1_wf p \<Longrightarrow>
     parseV1Proposals (if ps = [] then PayloadNone else PayloadProposalV1)
       (subChain PayloadProposalV1 (map marshalProposalV1 ps)) = Inr ps"
proof (induction ps)
  case Nil
  then show ?case by (simp add: parseV1Proposals.simps)
next
  case (Cons p ps)
  have l: "length (marshalProposalV1 p) < 65532" "pv1_wf p" using Cons.prems by (simp_all add: pv1_wf_def)
  have "parseV1Proposals PayloadProposalV1 (subChain PayloadProposalV1 (map marshalProposalV1 (p # ps))) = Inr (p # ps)"
    using Cons withNext_length_field [OF l(1)] Parse_MarshalProposalV1 [OF l(2)]
    by (subst parseV1Proposals.simps)
      (simp add: subChain_Cons PayloadHeaderLen_def Parse_withNext slice_withNext Let_def
        del: of_nat_add of_nat_numeral subChain.simps)
  then show ?case by simp
qed

lemma parse_bodySAv1:
  assumes "sav1_wf sa"
  shows "parseV1SA (bodySAv1 sa) = Inr sa"
proof -
  have "parseV1Proposals PayloadProposalV1 (subChain PayloadProposalV1 (map marshalProposalV1 (sav1Proposals sa))) =
      Inr (sav1Proposals sa)"
    using parseV1Proposals_subChain [of "sav1Proposals sa"] assms
    by (cases "sav1Proposals sa = []") (simp_all add: sav1_wf_def parseV1Proposals.simps)
  then show ?thesis
    by (simp add: parseV1SA_def bodySAv1_def slice_def)
qed

lemma parse_bodyIDv1: "parseV1ID (bodyIDv1 p) = Inr p"
  by (simp add: parseV1ID_def bodyIDv1_def slice_def)

lemma parse_bodyNotifyV1:
  assumes "ntf1_wf p"
  shows "parseV1Notify (bodyNotifyV1 p) = Inr p"
proof -
  let ?n = "length (ntf1SPI p)"
  have n: "?n < 248" "ntf1SPISize p = of_nat ?n" using assms by (simp_all add: ntf1_wf_def)
  have w: "unat (8 + (of_nat ?n :: byte)) = 8 + ?n"
    using n(1) byte_of_nat_unat [of "8 + ?n"] by simp
  have z: "(0 :: byte) < of_nat ?n \<longleftrightarrow> ?n > 0"
    using n(1) byte_of_nat_unat [of ?n] by (auto simp: word_less_nat_alt)
  show ?thesis
    using n w z
    by (simp add: parseV1Notify_def bodyNotifyV1_def slice_def go_slice_def Let_def nth_append drop_Cons')
qed

lemma placeSPIs_concat:
  assumes "\<forall>spi\<in>set spis. length spi = w"
  shows "placeSPIs w spis = concat spis"
proof -
  have "fst (foldl (\<lambda>(buf, off) spi. (copy_at off spi buf, off + w)) (p @ replicate (length spis * w) 0, length p) spis) =
      p @ concat spis" for p
    using assms
  proof (induction spis arbitrary: p)
    case (Cons s spis)
    have "copy_at (length p) s (p @ replicate (length (s # spis) * w) 0) = (p @ s) @ replicate (length spis * w) 0"
      using copy_at_append [of p "length p" "replicate w 0" s "replicate (length spis * w) 0"] Cons.prems
      by (simp add: replicate_add)
    with Cons.IH [of "p @ s"] Cons.prems show ?case by simp
  qed simp
  from this [of "[]"] show ?thesis by (simp add: placeSPIs_def)
qed

lemma splitSPIs_concat: "\<forall>spi\<in>set spis. length spi = w \<Longrightarrow> splitSPIs w (length spis) (concat spis @ r) = spis"
  by (induction spis) (simp_all add: slice_def)

lemma length_concat_spis: "\<forall>spi\<in>set spis. length spi = w \<Longrightarrow> length (concat spis) = length spis * w"
  by (induction spis) simp_all

lemma parse_bodyDeleteV1:
  assumes "del1_wf p"
  shows "parseV1Delete (bodyDeleteV1 p) = Inr p"
proof -
  have s: "\<forall>spi\<in>set (del1SPIs p). length spi = unat (del1SPISize p)" "length (del1SPIs p) < 65536"
    using assms by (simp_all add: del1_wf_def)
  have "splitSPIs (unat (del1SPISize p)) (length (del1SPIs p)) (concat (del1SPIs p)) = del1SPIs p"
    using splitSPIs_concat [OF s(1), of "[]"] by simp
  with s length_concat_spis [OF s(1)] show ?thesis
    by (simp add: parseV1Delete_def bodyDeleteV1_def placeSPIs_concat slice_def Let_def u16_of_nat_unat nth_append)
qed

text \<open>The wrap: a Notify payload that states an SPI of 248 bytes or more takes the process down.\<close>

lemma parseV1Notify_panics_iff:
  "parseV1Notify body = Inl IkePanic \<longleftrightarrow> 8 \<le> length body \<and> 248 \<le> unat (body ! 5)"
proof (cases "8 \<le> length body")
  case True
  let ?s = "unat (body ! 5)"
  have w: "unat (8 + body ! 5) = (8 + ?s) mod 256" by (simp add: unat_word_ariths)
  have b: "?s < 256" by simp
  show ?thesis
  proof (cases "248 \<le> ?s")
    case True
    then have "(8 + ?s) mod 256 = ?s - 248"
    proof -
      have "8 + ?s = (?s - 248) + 256" using True by linarith
      then have "(8 + ?s) mod 256 = (?s - 248) mod 256" by (metis mod_add_self2)
      moreover have "?s - 248 < 256" using b by linarith
      ultimately show ?thesis by (metis mod_less)
    qed
    moreover have "?s - 248 < 8" using b by linarith
    moreover have "0 < body ! 5" using True by (auto simp: word_less_nat_alt)
    ultimately show ?thesis
      using True \<open>8 \<le> length body\<close> b w by (auto simp: parseV1Notify_def Let_def go_slice_def)
  next
    case False
    then have "unat (8 + body ! 5) = 8 + ?s" using w by simp
    with False show ?thesis by (auto simp: parseV1Notify_def Let_def go_slice_def)
  qed
next
  case False
  then show ?thesis by (simp add: parseV1Notify_def)
qed

end
