(* ===== verification/IkePayloadV2.thy ===== *)
theory IkePayloadV2
  imports IkePayloadV1 "HOL-Library.Signed_Division"
begin

unbundle bit_operations_syntax

text \<open>
  The IKEv2 payloads other than SA (\<^verbatim>\<open>internal/ike/payload_v2.go\<close>, and the encrypted fragment
  of \<^verbatim>\<open>fragment.go\<close>): fields, bodies and parsers.
\<close>

record KEPayload =
  DHGroup :: u16
  keData :: bytes

record IDPayload =
  idIsInitiator :: bool
  IDType :: byte
  idData :: bytes

record AUTHPayload =
  Method :: byte
  authData :: bytes

record NotifyPayload =
  ntfProtocolID :: byte
  ntfSPISize :: byte
  NotifyMsgType :: u16
  ntfSPI :: bytes
  NotifyData :: bytes

record DeletePayload =
  delProtocolID :: byte
  delSPISize :: byte
  delSPIs :: "bytes list"

record TrafficSelector =
  TSType :: byte
  IPProtoID :: byte
  StartPort :: u16
  EndPort :: u16
  StartAddr :: bytes
  EndAddr :: bytes

record TSPayload =
  tsIsInitiator :: bool
  Selectors :: "TrafficSelector list"

record ConfigAttribute =
  cfgType :: u16
  cfgValue :: bytes

record CPPayload =
  ConfigType :: byte
  Attributes :: "ConfigAttribute list"

record SKFPayload =
  FragmentNumber :: u16
  TotalFragments :: u16
  skfData :: bytes

section \<open>Bodies\<close>

definition bodyKE :: "KEPayload \<Rightarrow> bytes" where
  "bodyKE p = PutUint16 (DHGroup p) @ [0, 0] @ keData p"

definition bodyID :: "IDPayload \<Rightarrow> bytes" where
  "bodyID p = [IDType p, 0, 0, 0] @ idData p"

definition bodyCERT :: "CERTPayload \<Rightarrow> bytes" where
  "bodyCERT p = [certEncoding p] @ certData p"

definition bodyAUTH :: "AUTHPayload \<Rightarrow> bytes" where
  "bodyAUTH p = [Method p, 0, 0, 0] @ authData p"

definition bodyNotify :: "NotifyPayload \<Rightarrow> bytes" where
  "bodyNotify p =
     [ntfProtocolID p, of_nat (length (ntfSPI p))] @ PutUint16 (NotifyMsgType p) @ ntfSPI p @ NotifyData p"

definition bodyDelete :: "DeletePayload \<Rightarrow> bytes" where
  "bodyDelete p =
     [delProtocolID p, delSPISize p] @ PutUint16 (of_nat (length (delSPIs p))) @
     placeSPIs (unat (delSPISize p)) (delSPIs p)"

definition selectorBytes :: "TrafficSelector \<Rightarrow> bytes" where
  "selectorBytes ts =
     (let addrLen = length (StartAddr ts) in
      [TSType ts, IPProtoID ts] @ PutUint16 (of_nat (8 + addrLen * 2)) @
      PutUint16 (StartPort ts) @ PutUint16 (EndPort ts) @ StartAddr ts @
      copy_at 0 (EndAddr ts) (replicate addrLen 0))"

definition bodyTS :: "TSPayload \<Rightarrow> bytes" where
  "bodyTS p = [of_nat (length (Selectors p)), 0, 0, 0] @ concat (map selectorBytes (Selectors p))"

definition configAttrBytes :: "ConfigAttribute \<Rightarrow> bytes" where
  "configAttrBytes a = PutUint16 (cfgType a) @ PutUint16 (of_nat (length (cfgValue a))) @ cfgValue a"

definition bodyCP :: "CPPayload \<Rightarrow> bytes" where
  "bodyCP p = [ConfigType p, 0, 0, 0] @ concat (map configAttrBytes (Attributes p))"

definition bodySKF :: "SKFPayload \<Rightarrow> bytes" where
  "bodySKF p = PutUint16 (FragmentNumber p) @ PutUint16 (TotalFragments p) @ skfData p"

section \<open>Parsers\<close>

definition parseV2KE :: "bytes \<Rightarrow> ike_error + KEPayload" where
  "parseV2KE body =
     (if length body < 4 then Inl (PayloadTooShort (length body))
      else Inr \<lparr>DHGroup = Uint16 (slice 0 2 body), keData = drop 4 body\<rparr>)"

definition parseV2ID :: "bytes \<Rightarrow> bool \<Rightarrow> ike_error + IDPayload" where
  "parseV2ID body isInitiator =
     (if length body < 4 then Inl (PayloadTooShort (length body))
      else Inr \<lparr>idIsInitiator = isInitiator, IDType = body ! 0, idData = drop 4 body\<rparr>)"

definition parseV2Cert :: "bytes \<Rightarrow> ike_error + CERTPayload" where
  "parseV2Cert body =
     (if length body < 1 then Inl (PayloadTooShort (length body))
      else Inr \<lparr>certEncoding = body ! 0, certData = drop 1 body\<rparr>)"

definition parseV2Auth :: "bytes \<Rightarrow> ike_error + AUTHPayload" where
  "parseV2Auth body =
     (if length body < 4 then Inl (PayloadTooShort (length body))
      else Inr \<lparr>Method = body ! 0, authData = drop 4 body\<rparr>)"

text \<open>As in \<open>parseV1Notify\<close>, \<^verbatim>\<open>int(4+spiSize)\<close> adds in \<^verbatim>\<open>uint8\<close>.\<close>

definition parseV2Notify :: "bytes \<Rightarrow> ike_error + NotifyPayload" where
  "parseV2Notify body =
     (if length body < 4 then Inl (PayloadTooShort (length body))
      else
      (let spiSize = body ! 1; stop = unat (4 + spiSize) in
       if stop > length body then Inl SPIBeyondPayload
       else
       (case (if spiSize > 0 then go_slice 4 stop body else Some []) of
          None \<Rightarrow> Inl IkePanic
        | Some spi \<Rightarrow>
            Inr \<lparr>ntfProtocolID = body ! 0, ntfSPISize = spiSize, NotifyMsgType = Uint16 (slice 2 4 body),
                 ntfSPI = spi, NotifyData = (if stop < length body then drop stop body else [])\<rparr>)))"

definition parseV2Delete :: "bytes \<Rightarrow> ike_error + DeletePayload" where
  "parseV2Delete body =
     (if length body < 4 then Inl (PayloadTooShort (length body))
      else
      (let spiSize = unat (body ! 1); numSPIs = unat (Uint16 (slice 2 4 body)) in
       if length body < 4 + numSPIs * spiSize then Inl DeleteTruncated
       else Inr \<lparr>delProtocolID = body ! 0, delSPISize = body ! 1,
                 delSPIs = splitSPIs spiSize numSPIs (drop 4 body)\<rparr>))"

text \<open>
  One selector after the other. The address length is \<^verbatim>\<open>(selectorLen - 8) / 2\<close>, a signed
  division that rounds towards zero; the slice from 8 to 8 plus a negative length panics.
\<close>

primrec parseSelectors :: "nat \<Rightarrow> bytes \<Rightarrow> ike_error + TrafficSelector list" where
  "parseSelectors 0 buf = Inr []"
| "parseSelectors (Suc n) buf =
     (if length buf < 8 then Inl SelectorTruncated
      else
      (let selectorLen = unat (Uint16 (slice 2 4 buf)) in
       if selectorLen > length buf then Inl SelectorBeyondPayload
       else
       (let addrLen = (int selectorLen - 8) sdiv 2 in
        if addrLen < 0 then Inl IkePanic
        else
        (let k = nat addrLen;
             ts = \<lparr>TSType = buf ! 0, IPProtoID = buf ! 1, StartPort = Uint16 (slice 4 6 buf),
                   EndPort = Uint16 (slice 6 8 buf), StartAddr = slice 8 (8 + k) buf,
                   EndAddr = slice (8 + k) (8 + k * 2) buf\<rparr>
         in
         case parseSelectors n (drop selectorLen buf) of
           Inl e \<Rightarrow> Inl e
         | Inr tss \<Rightarrow> Inr (ts # tss)))))"

definition parseV2TS :: "bytes \<Rightarrow> bool \<Rightarrow> ike_error + TSPayload" where
  "parseV2TS body isInitiator =
     (if length body < 4 then Inl (PayloadTooShort (length body))
      else
      (case parseSelectors (unat (body ! 0)) (drop 4 body) of
         Inl e \<Rightarrow> Inl e
       | Inr tss \<Rightarrow> Inr \<lparr>tsIsInitiator = isInitiator, Selectors = tss\<rparr>))"

function parseConfigAttrs :: "bytes \<Rightarrow> ConfigAttribute list" where
  "parseConfigAttrs buf =
     (if length buf < 4 then []
      else
      (let attrLen = unat (Uint16 (slice 2 4 buf)) in
       if 4 + attrLen > length buf then []
       else \<lparr>cfgType = Uint16 (slice 0 2 buf), cfgValue = slice 4 (4 + attrLen) buf\<rparr>
              # parseConfigAttrs (drop (4 + attrLen) buf)))"
  by pat_completeness auto
termination by (relation "measure length") auto

declare parseConfigAttrs.simps [simp del]

definition parseV2CP :: "bytes \<Rightarrow> ike_error + CPPayload" where
  "parseV2CP body =
     (if length body < 4 then Inl (PayloadTooShort (length body))
      else Inr \<lparr>ConfigType = body ! 0, Attributes = parseConfigAttrs (drop 4 body)\<rparr>)"

definition parseV2SKF :: "bytes \<Rightarrow> ike_error + SKFPayload" where
  "parseV2SKF body =
     (if length body < 4 then Inl (PayloadTooShort (length body))
      else Inr \<lparr>FragmentNumber = Uint16 (slice 0 2 body), TotalFragments = Uint16 (slice 2 4 body),
                skfData = drop 4 body\<rparr>)"

section \<open>Round trips\<close>

lemmas simple_bodies = parseV2KE_def bodyKE_def parseV2ID_def bodyID_def parseV2Cert_def bodyCERT_def
  parseV2Auth_def bodyAUTH_def parseV2SKF_def bodySKF_def parseV2CP_def bodyCP_def parseV1Cert_def

lemma parse_simple_bodies:
  "parseV2KE (bodyKE ke) = Inr ke" "parseV2ID (bodyID i) (idIsInitiator i) = Inr i"
  "parseV2Cert (bodyCERT c) = Inr c" "parseV1Cert (bodyCERT c) = Inr c"
  "parseV2Auth (bodyAUTH a) = Inr a" "parseV2SKF (bodySKF f) = Inr f"
  by (simp_all add: simple_bodies slice_def)

definition ntf_wf :: "NotifyPayload \<Rightarrow> bool" where
  "ntf_wf p \<longleftrightarrow> length (ntfSPI p) < 252 \<and> ntfSPISize p = of_nat (length (ntfSPI p))"

lemma parse_bodyNotify:
  assumes "ntf_wf p"
  shows "parseV2Notify (bodyNotify p) = Inr p"
proof -
  let ?n = "length (ntfSPI p)"
  have n: "?n < 252" "ntfSPISize p = of_nat ?n" using assms by (simp_all add: ntf_wf_def)
  have w: "unat (4 + (of_nat ?n :: byte)) = 4 + ?n"
    using n(1) byte_of_nat_unat [of "4 + ?n"] by simp
  have z: "(0 :: byte) < of_nat ?n \<longleftrightarrow> ?n > 0"
    using n(1) byte_of_nat_unat [of ?n] by (auto simp: word_less_nat_alt)
  show ?thesis
    using n w z
    by (simp add: parseV2Notify_def bodyNotify_def slice_def go_slice_def Let_def nth_append drop_Cons')
qed

definition del_wf :: "DeletePayload \<Rightarrow> bool" where
  "del_wf p \<longleftrightarrow> (\<forall>spi\<in>set (delSPIs p). length spi = unat (delSPISize p)) \<and> length (delSPIs p) < 65536"

lemma parse_bodyDelete:
  assumes "del_wf p"
  shows "parseV2Delete (bodyDelete p) = Inr p"
proof -
  have s: "\<forall>spi\<in>set (delSPIs p). length spi = unat (delSPISize p)" "length (delSPIs p) < 65536"
    using assms by (simp_all add: del_wf_def)
  have "splitSPIs (unat (delSPISize p)) (length (delSPIs p)) (concat (delSPIs p)) = delSPIs p"
    using splitSPIs_concat [OF s(1), of "[]"] by simp
  with s length_concat_spis [OF s(1)] show ?thesis
    by (simp add: parseV2Delete_def bodyDelete_def placeSPIs_concat slice_def Let_def u16_of_nat_unat nth_append)
qed

definition sel_wf :: "TrafficSelector \<Rightarrow> bool" where
  "sel_wf ts \<longleftrightarrow> length (EndAddr ts) = length (StartAddr ts) \<and> length (StartAddr ts) < 32764"

lemma sdiv_2: "(int (8 + n * 2) - 8) sdiv 2 = int n"
  by (simp add: signed_divide_int_def sgn_if)

lemma parse_selectorBytes:
  assumes "sel_wf ts"
  shows "parseSelectors (Suc n) (selectorBytes ts @ r) =
    (case parseSelectors n r of Inl e \<Rightarrow> Inl e | Inr tss \<Rightarrow> Inr (ts # tss))"
proof -
  let ?k = "length (StartAddr ts)" and ?buf = "selectorBytes ts @ r"
  have k: "length (EndAddr ts) = ?k" "?k < 32764" using assms by (simp_all add: sel_wf_def)
  have l: "unat (of_nat (8 + ?k * 2) :: u16) = 8 + ?k * 2" using k by (intro u16_of_nat_unat) simp
  have e: "selectorBytes ts = [TSType ts, IPProtoID ts] @ PutUint16 (of_nat (8 + ?k * 2)) @
      PutUint16 (StartPort ts) @ PutUint16 (EndPort ts) @ StartAddr ts @ EndAddr ts"
    using k(1) by (simp add: selectorBytes_def Let_def copy_at_replicate)
  have f: "?buf ! 0 = TSType ts" "?buf ! 1 = IPProtoID ts" "Uint16 (slice 2 4 ?buf) = of_nat (8 + ?k * 2)"
    "Uint16 (slice 4 6 ?buf) = StartPort ts" "Uint16 (slice 6 8 ?buf) = EndPort ts"
    "slice 8 (8 + ?k) ?buf = StartAddr ts" "slice (8 + ?k) (8 + ?k * 2) ?buf = EndAddr ts"
    "drop (8 + ?k * 2) ?buf = r" "length ?buf = 8 + ?k * 2 + length r"
    using k(1) by (simp_all add: e slice_def drop_Cons' nth_append mult_2_right del: of_nat_add of_nat_mult)
  have rec: "\<lparr>TSType = TSType ts, IPProtoID = IPProtoID ts, StartPort = StartPort ts, EndPort = EndPort ts,
      StartAddr = StartAddr ts, EndAddr = EndAddr ts\<rparr> = ts"
    by (cases ts) simp
  show ?thesis
    unfolding parseSelectors.simps f l sdiv_2 Let_def nat_int rec by simp
qed

lemma parse_selectors:
  "\<forall>ts\<in>set tss. sel_wf ts \<Longrightarrow> parseSelectors (length tss) (concat (map selectorBytes tss)) = Inr tss"
proof (induction tss)
  case (Cons ts tss)
  then show ?case using parse_selectorBytes [of ts "length tss"] by (simp del: parseSelectors.simps(2))
qed simp

definition ts_wf :: "TSPayload \<Rightarrow> bool" where
  "ts_wf p \<longleftrightarrow> length (Selectors p) < 256 \<and> (\<forall>ts\<in>set (Selectors p). sel_wf ts)"

lemma parse_bodyTS: "ts_wf p \<Longrightarrow> parseV2TS (bodyTS p) (tsIsInitiator p) = Inr p"
  by (simp add: parseV2TS_def bodyTS_def ts_wf_def byte_of_nat_unat parse_selectors)

lemma parse_configAttrs:
  "\<forall>a\<in>set as. length (cfgValue a) < 65536 \<Longrightarrow> parseConfigAttrs (concat (map configAttrBytes as)) = as"
proof (induction as)
  case (Cons a as)
  let ?n = "length (cfgValue a)"
  have n: "unat (of_nat ?n :: u16) = ?n" using Cons.prems by (intro u16_of_nat_unat) simp
  have ih: "parseConfigAttrs (concat (map configAttrBytes as)) = as" using Cons by simp
  show ?case
    using n ih by (subst parseConfigAttrs.simps) (simp add: configAttrBytes_def slice_def Let_def)
qed (simp add: parseConfigAttrs.simps)

definition cp_wf :: "CPPayload \<Rightarrow> bool" where
  "cp_wf p \<longleftrightarrow> (\<forall>a\<in>set (Attributes p). length (cfgValue a) < 65536)"

lemma parse_bodyCP: "cp_wf p \<Longrightarrow> parseV2CP (bodyCP p) = Inr p"
  by (simp add: parseV2CP_def bodyCP_def cp_wf_def parse_configAttrs)

section \<open>Panics\<close>

lemma parseV2Notify_panics_iff:
  "parseV2Notify body = Inl IkePanic \<longleftrightarrow> 4 \<le> length body \<and> 252 \<le> unat (body ! 1)"
proof (cases "4 \<le> length body")
  case True
  let ?s = "unat (body ! 1)"
  have w: "unat (4 + body ! 1) = (4 + ?s) mod 256" by (simp add: unat_word_ariths)
  have b: "?s < 256" by simp
  show ?thesis
  proof (cases "252 \<le> ?s")
    case True
    then have "(4 + ?s) mod 256 = ?s - 252"
    proof -
      have "4 + ?s = (?s - 252) + 256" using True by linarith
      then have "(4 + ?s) mod 256 = (?s - 252) mod 256" by (metis mod_add_self2)
      moreover have "?s - 252 < 256" using b by linarith
      ultimately show ?thesis by (metis mod_less)
    qed
    moreover have "?s - 252 < 4" using b by linarith
    moreover have "0 < body ! 1" using True by (auto simp: word_less_nat_alt)
    ultimately show ?thesis
      using True \<open>4 \<le> length body\<close> b w by (auto simp: parseV2Notify_def Let_def go_slice_def)
  next
    case False
    then have "unat (4 + body ! 1) = 4 + ?s" using w by simp
    with False show ?thesis by (auto simp: parseV2Notify_def Let_def go_slice_def)
  qed
next
  case False
  then show ?thesis by (simp add: parseV2Notify_def)
qed

lemma sdiv_neg_iff: "(int n - 8) sdiv 2 < 0 \<longleftrightarrow> n < 7"
proof (cases "n < 8")
  case True
  then have "n \<in> {0, 1, 2, 3, 4, 5, 6, 7}" by auto
  then show ?thesis by (auto simp: signed_divide_int_def)
next
  case False
  then have "(int n - 8) sdiv 2 = (int n - 8) div 2" by (simp add: signed_divide_int_def sgn_if)
  with False show ?thesis by simp
qed

text \<open>The first selector with an impossible length that fits the payload is a panic.\<close>

lemma parseSelectors_short_panics:
  "8 \<le> length buf \<Longrightarrow> unat (Uint16 (slice 2 4 buf)) < 7 \<Longrightarrow> parseSelectors (Suc n) buf = Inl IkePanic"
  using sdiv_neg_iff [of "unat (Uint16 (slice 2 4 buf))"] by (simp add: Let_def)

end
