(* ===== verification/IkeMessage.thy ===== *)
theory IkeMessage
  imports IkePayloadSA IkePayloadV2
begin

unbundle bit_operations_syntax

text \<open>
  Payload chains and whole messages (\<^verbatim>\<open>internal/ike/payload.go\<close>, with the dispatch on the
  payload type of \<^verbatim>\<open>payload_v1.go\<close> and \<^verbatim>\<open>payload_v2.go\<close>). The interface \<^verbatim>\<open>Payload\<close> is a
  datatype with a constructor for each implementation; a payload that cannot be read becomes a
  \<^verbatim>\<open>RawPayload\<close>, a panic stays a panic.
\<close>

section \<open>Payload types\<close>

abbreviation (input) PayloadSAV1 :: byte where "PayloadSAV1 \<equiv> 1"
abbreviation (input) PayloadKEV1 :: byte where "PayloadKEV1 \<equiv> 4"
abbreviation (input) PayloadIDV1 :: byte where "PayloadIDV1 \<equiv> 5"
abbreviation (input) PayloadCERTV1 :: byte where "PayloadCERTV1 \<equiv> 6"
abbreviation (input) PayloadCERTREQV1 :: byte where "PayloadCERTREQV1 \<equiv> 7"
abbreviation (input) PayloadHashV1 :: byte where "PayloadHashV1 \<equiv> 8"
abbreviation (input) PayloadSIGV1 :: byte where "PayloadSIGV1 \<equiv> 9"
abbreviation (input) PayloadNonceV1 :: byte where "PayloadNonceV1 \<equiv> 10"
abbreviation (input) PayloadNotifyV1 :: byte where "PayloadNotifyV1 \<equiv> 11"
abbreviation (input) PayloadDeleteV1 :: byte where "PayloadDeleteV1 \<equiv> 12"
abbreviation (input) PayloadVendorIDV1 :: byte where "PayloadVendorIDV1 \<equiv> 13"
abbreviation (input) PayloadNATDV1 :: byte where "PayloadNATDV1 \<equiv> 20"

abbreviation (input) PayloadSA :: byte where "PayloadSA \<equiv> 33"
abbreviation (input) PayloadKE :: byte where "PayloadKE \<equiv> 34"
abbreviation (input) PayloadIDi :: byte where "PayloadIDi \<equiv> 35"
abbreviation (input) PayloadIDr :: byte where "PayloadIDr \<equiv> 36"
abbreviation (input) PayloadCERT :: byte where "PayloadCERT \<equiv> 37"
abbreviation (input) PayloadCERTREQ :: byte where "PayloadCERTREQ \<equiv> 38"
abbreviation (input) PayloadAUTH :: byte where "PayloadAUTH \<equiv> 39"
abbreviation (input) PayloadNonce :: byte where "PayloadNonce \<equiv> 40"
abbreviation (input) PayloadNotify :: byte where "PayloadNotify \<equiv> 41"
abbreviation (input) PayloadDelete :: byte where "PayloadDelete \<equiv> 42"
abbreviation (input) PayloadVendorID :: byte where "PayloadVendorID \<equiv> 43"
abbreviation (input) PayloadTSi :: byte where "PayloadTSi \<equiv> 44"
abbreviation (input) PayloadTSr :: byte where "PayloadTSr \<equiv> 45"
abbreviation (input) PayloadSK :: byte where "PayloadSK \<equiv> 46"
abbreviation (input) PayloadCP :: byte where "PayloadCP \<equiv> 47"
abbreviation (input) PayloadEAP :: byte where "PayloadEAP \<equiv> 48"
abbreviation (input) PayloadSKF :: byte where "PayloadSKF \<equiv> 53"

datatype Payload =
    PlRaw byte bytes
  | PlSAv1 SAv1Payload
  | PlKEv1 bytes
  | PlNonceV1 bytes
  | PlIDv1 IDv1Payload
  | PlHashV1 bytes
  | PlSIGv1 bytes
  | PlNotifyV1 NotifyV1Payload
  | PlDeleteV1 DeleteV1Payload
  | PlNATDv1 bytes
  | PlSA SAPayload
  | PlKE KEPayload
  | PlNonce bytes
  | PlID IDPayload
  | PlCERT CERTPayload
  | PlCERTREQ CERTPayload
  | PlAUTH AUTHPayload
  | PlNotify NotifyPayload
  | PlDelete DeletePayload
  | PlVendorID bytes
  | PlTS TSPayload
  | PlSK bytes
  | PlCP CPPayload
  | PlEAP bytes
  | PlSKF SKFPayload

definition payloadType :: "Payload \<Rightarrow> byte" where
  "payloadType p =
     (case p of
        PlRaw t _ \<Rightarrow> t
      | PlSAv1 _ \<Rightarrow> PayloadSAV1 | PlKEv1 _ \<Rightarrow> PayloadKEV1 | PlNonceV1 _ \<Rightarrow> PayloadNonceV1
      | PlIDv1 _ \<Rightarrow> PayloadIDV1 | PlHashV1 _ \<Rightarrow> PayloadHashV1 | PlSIGv1 _ \<Rightarrow> PayloadSIGV1
      | PlNotifyV1 _ \<Rightarrow> PayloadNotifyV1 | PlDeleteV1 _ \<Rightarrow> PayloadDeleteV1 | PlNATDv1 _ \<Rightarrow> PayloadNATDV1
      | PlSA _ \<Rightarrow> PayloadSA | PlKE _ \<Rightarrow> PayloadKE | PlNonce _ \<Rightarrow> PayloadNonce
      | PlID i \<Rightarrow> (if idIsInitiator i then PayloadIDi else PayloadIDr)
      | PlCERT _ \<Rightarrow> PayloadCERT | PlCERTREQ _ \<Rightarrow> PayloadCERTREQ | PlAUTH _ \<Rightarrow> PayloadAUTH
      | PlNotify _ \<Rightarrow> PayloadNotify | PlDelete _ \<Rightarrow> PayloadDelete | PlVendorID _ \<Rightarrow> PayloadVendorID
      | PlTS s \<Rightarrow> (if tsIsInitiator s then PayloadTSi else PayloadTSr)
      | PlSK _ \<Rightarrow> PayloadSK | PlCP _ \<Rightarrow> PayloadCP | PlEAP _ \<Rightarrow> PayloadEAP | PlSKF _ \<Rightarrow> PayloadSKF)"

definition payloadBody :: "Payload \<Rightarrow> bytes" where
  "payloadBody p =
     (case p of
        PlRaw _ d \<Rightarrow> d
      | PlSAv1 x \<Rightarrow> bodySAv1 x | PlKEv1 d \<Rightarrow> d | PlNonceV1 d \<Rightarrow> d | PlIDv1 x \<Rightarrow> bodyIDv1 x
      | PlHashV1 d \<Rightarrow> d | PlSIGv1 d \<Rightarrow> d | PlNotifyV1 x \<Rightarrow> bodyNotifyV1 x | PlDeleteV1 x \<Rightarrow> bodyDeleteV1 x
      | PlNATDv1 d \<Rightarrow> d
      | PlSA x \<Rightarrow> bodySA x | PlKE x \<Rightarrow> bodyKE x | PlNonce d \<Rightarrow> d | PlID x \<Rightarrow> bodyID x
      | PlCERT x \<Rightarrow> bodyCERT x | PlCERTREQ x \<Rightarrow> bodyCERT x | PlAUTH x \<Rightarrow> bodyAUTH x
      | PlNotify x \<Rightarrow> bodyNotify x | PlDelete x \<Rightarrow> bodyDelete x | PlVendorID d \<Rightarrow> d | PlTS x \<Rightarrow> bodyTS x
      | PlSK d \<Rightarrow> d | PlCP x \<Rightarrow> bodyCP x | PlEAP d \<Rightarrow> d | PlSKF x \<Rightarrow> bodySKF x)"

definition MarshalPayload :: "Payload \<Rightarrow> bytes" where
  "MarshalPayload p = marshalWithHeader (payloadBody p)"

section \<open>Parsing one payload\<close>

definition parseV1Payload :: "byte \<Rightarrow> bytes \<Rightarrow> ike_error + Payload" where
  "parseV1Payload pt body =
     (if pt = PayloadSAV1 then map_sum id PlSAv1 (parseV1SA body)
      else if pt = PayloadKEV1 then Inr (PlKEv1 body)
      else if pt = PayloadNonceV1 then Inr (PlNonceV1 body)
      else if pt = PayloadIDV1 then map_sum id PlIDv1 (parseV1ID body)
      else if pt = PayloadHashV1 then Inr (PlHashV1 body)
      else if pt = PayloadSIGV1 then Inr (PlSIGv1 body)
      else if pt = PayloadCERTV1 then map_sum id PlCERT (parseV1Cert body)
      else if pt = PayloadCERTREQV1 then map_sum id PlCERTREQ (parseV1Cert body)
      else if pt = PayloadNotifyV1 then map_sum id PlNotifyV1 (parseV1Notify body)
      else if pt = PayloadDeleteV1 then map_sum id PlDeleteV1 (parseV1Delete body)
      else if pt = PayloadVendorIDV1 then Inr (PlVendorID body)
      else if pt = PayloadNATDV1 then Inr (PlNATDv1 body)
      else Inr (PlRaw pt body))"

definition parseV2Payload :: "byte \<Rightarrow> bytes \<Rightarrow> ike_error + Payload" where
  "parseV2Payload pt body =
     (if pt = PayloadKE then map_sum id PlKE (parseV2KE body)
      else if pt = PayloadNonce then Inr (PlNonce body)
      else if pt = PayloadIDi \<or> pt = PayloadIDr then map_sum id PlID (parseV2ID body (pt = PayloadIDi))
      else if pt = PayloadCERT then map_sum id PlCERT (parseV2Cert body)
      else if pt = PayloadCERTREQ then map_sum id PlCERTREQ (parseV2Cert body)
      else if pt = PayloadAUTH then map_sum id PlAUTH (parseV2Auth body)
      else if pt = PayloadNotify then map_sum id PlNotify (parseV2Notify body)
      else if pt = PayloadDelete then map_sum id PlDelete (parseV2Delete body)
      else if pt = PayloadVendorID then Inr (PlVendorID body)
      else if pt = PayloadTSi \<or> pt = PayloadTSr then map_sum id PlTS (parseV2TS body (pt = PayloadTSi))
      else if pt = PayloadSK then Inr (PlSK body)
      else if pt = PayloadCP then map_sum id PlCP (parseV2CP body)
      else if pt = PayloadEAP then Inr (PlEAP body)
      else if pt = PayloadSA then map_sum id PlSA (parseV2SA body)
      else if pt = PayloadSKF then map_sum id PlSKF (parseV2SKF body)
      else Inr (PlRaw pt body))"

definition parseTypedPayload :: "byte \<Rightarrow> bytes \<Rightarrow> bool \<Rightarrow> ike_error + Payload" where
  "parseTypedPayload pt body isV2 =
     (case (if isV2 then parseV2Payload pt body else parseV1Payload pt body) of
        Inl e \<Rightarrow> (if e = IkePanic then Inl IkePanic else Inr (PlRaw pt body))
      | Inr p \<Rightarrow> Inr p)"

definition isRaw :: "Payload \<Rightarrow> bool" where
  "isRaw p \<longleftrightarrow> (case p of PlRaw _ _ \<Rightarrow> True | _ \<Rightarrow> False)"

section \<open>Chains\<close>

record ParsedPayload =
  ppHeader :: GenericPayloadHeader
  ppPayload :: Payload

definition FindFirst :: "byte \<Rightarrow> ParsedPayload list \<Rightarrow> Payload option" where
  "FindFirst pt pc = map_option ppPayload (find (\<lambda>pp. payloadType (ppPayload pp) = pt) pc)"

definition FindAll :: "byte \<Rightarrow> ParsedPayload list \<Rightarrow> Payload list" where
  "FindAll pt pc = map ppPayload (filter (\<lambda>pp. payloadType (ppPayload pp) = pt) pc)"

text \<open>
  The walk of \<^verbatim>\<open>ParsePayloadChain\<close> from \<^verbatim>\<open>offset\<close> on; the chain that an error returns beside
  itself is used by no caller.
\<close>

function parseChainAt :: "bytes \<Rightarrow> byte \<Rightarrow> bool \<Rightarrow> nat \<Rightarrow> ike_error + ParsedPayload list" where
  "parseChainAt buf nextType isV2 offset =
     (if nextType = PayloadNone then Inr []
      else if offset + PayloadHeaderLen > length buf then Inl (ChainTruncated offset)
      else
      (case ParseGenericPayloadHeader (drop offset buf) of
         Inl e \<Rightarrow> Inl e
       | Inr gph \<Rightarrow>
           if unat (gphLength gph) < PayloadHeaderLen then Inl BadPayloadLength
           else
           (let endOffset = offset + unat (gphLength gph) in
            if endOffset > length buf then Inl PayloadBeyondBuffer
            else
            (case parseTypedPayload nextType (slice (offset + PayloadHeaderLen) endOffset buf) isV2 of
               Inl e \<Rightarrow> Inl e
             | Inr payload \<Rightarrow>
                 if isRaw payload \<and> Critical gph then Inl (UnsupportedCritical (payloadType payload))
                 else
                 (case parseChainAt buf (gphNext gph) isV2 endOffset of
                    Inl e \<Rightarrow> Inl e
                  | Inr chain \<Rightarrow> Inr (\<lparr>ppHeader = gph, ppPayload = payload\<rparr> # chain))))))"
  by pat_completeness auto
termination
  by (relation "measure (\<lambda>(buf, _, _, offset). Suc (length buf) - offset)") (auto simp: PayloadHeaderLen_def)

declare parseChainAt.simps [simp del]

definition ParsePayloadChain :: "bytes \<Rightarrow> byte \<Rightarrow> bool \<Rightarrow> ike_error + ParsedPayload list" where
  "ParsePayloadChain buf firstPayload isV2 = parseChainAt buf firstPayload isV2 0"

text \<open>Each serialised payload gets the type of its successor as its first byte.\<close>

fun linkPayloads :: "Payload list \<Rightarrow> bytes" where
  "linkPayloads [] = []"
| "linkPayloads [p] = (MarshalPayload p)[0 := PayloadNone]"
| "linkPayloads (p # q # ps) = (MarshalPayload p)[0 := payloadType q] @ linkPayloads (q # ps)"

definition MarshalPayloadChain :: "Payload list \<Rightarrow> bytes \<times> byte" where
  "MarshalPayloadChain payloads =
     (case payloads of [] \<Rightarrow> ([], PayloadNone) | p # _ \<Rightarrow> (linkPayloads payloads, payloadType p))"

section \<open>Messages\<close>

record Message =
  mHeader :: IkeHeader
  mPayloads :: "ParsedPayload list"
  RawMessage :: bytes

definition ParseMessage :: "bytes \<Rightarrow> ike_error + Message" where
  "ParseMessage buf =
     (if length buf < HeaderLen then Inl (IkeTooShort (length buf))
      else
      (case ParseIkeHeader buf of
         Inl e \<Rightarrow> Inl e
       | Inr hdr \<Rightarrow>
           (case Validate hdr of
              Some e \<Rightarrow> Inl e
            | None \<Rightarrow>
                (let msgLen = unat (IkeLength hdr) in
                 if msgLen > length buf then Inl MessageBeyondBuffer
                 else
                 (case ParsePayloadChain (slice HeaderLen msgLen buf) (HdrNextPayload hdr) (IsIKEv2 hdr) of
                    Inl e \<Rightarrow> Inl e
                  | Inr chain \<Rightarrow> Inr \<lparr>mHeader = hdr, mPayloads = chain, RawMessage = []\<rparr>)))))"

text \<open>\<^verbatim>\<open>Marshal\<close> also completes the header of the message it is called on.\<close>

definition MarshalMessage :: "Message \<Rightarrow> (ike_error + bytes) \<times> Message" where
  "MarshalMessage m =
     (if length (RawMessage m) > 0 then (Inr (RawMessage m), m)
      else
      (let (payloadBytes, firstPayload) = MarshalPayloadChain (map ppPayload (mPayloads m));
           hdr = (mHeader m)\<lparr>HdrNextPayload := firstPayload, IkeLength := of_nat (HeaderLen + length payloadBytes)\<rparr>;
           m' = m\<lparr>mHeader := hdr\<rparr>
       in
       case MarshalIkeHeader hdr (replicate (unat (IkeLength hdr)) 0) of
         Inl e \<Rightarrow> (Inl e, m')
       | Inr buf \<Rightarrow> (Inr (copy_at HeaderLen payloadBytes buf), m')))"

section \<open>Round trips\<close>

definition knownTypes :: "bool \<Rightarrow> byte list" where
  "knownTypes isV2 =
     (if isV2 then [33, 34, 35, 36, 37, 38, 39, 40, 41, 42, 43, 44, 45, 46, 47, 48, 53]
      else [1, 4, 5, 6, 7, 8, 9, 10, 11, 12, 13, 20])"

text \<open>
  The payloads that a version writes and reads back: their counters fit their fields, and a raw
  payload has a type of its own.
\<close>

definition payload_ok :: "bool \<Rightarrow> Payload \<Rightarrow> bool" where
  "payload_ok isV2 p \<longleftrightarrow> length (payloadBody p) < 65532 \<and>
     (case p of
        PlRaw t _ \<Rightarrow> t \<noteq> PayloadNone \<and> t \<notin> set (knownTypes isV2)
      | PlSAv1 x \<Rightarrow> \<not> isV2 \<and> sav1_wf x | PlKEv1 _ \<Rightarrow> \<not> isV2 | PlNonceV1 _ \<Rightarrow> \<not> isV2
      | PlIDv1 _ \<Rightarrow> \<not> isV2 | PlHashV1 _ \<Rightarrow> \<not> isV2 | PlSIGv1 _ \<Rightarrow> \<not> isV2
      | PlNotifyV1 x \<Rightarrow> \<not> isV2 \<and> ntf1_wf x | PlDeleteV1 x \<Rightarrow> \<not> isV2 \<and> del1_wf x | PlNATDv1 _ \<Rightarrow> \<not> isV2
      | PlSA x \<Rightarrow> isV2 \<and> (\<forall>q\<in>set (Proposals x). prop_wf q)
      | PlNotify x \<Rightarrow> isV2 \<and> ntf_wf x | PlDelete x \<Rightarrow> isV2 \<and> del_wf x
      | PlTS x \<Rightarrow> isV2 \<and> ts_wf x | PlCP x \<Rightarrow> isV2 \<and> cp_wf x
      | _ \<Rightarrow> isV2)"

text \<open>What reading changes: the \<open>IsLast\<close> marks of a proposal list.\<close>

definition payloadNorm :: "Payload \<Rightarrow> Payload" where
  "payloadNorm p = (case p of PlSA x \<Rightarrow> PlSA \<lparr>Proposals = normProposals (Proposals x)\<rparr> | _ \<Rightarrow> p)"

lemmas payload_parse_facts = parse_bodySAv1 parse_bodyIDv1 parse_bodyNotifyV1 parse_bodyDeleteV1 parse_bodySA
  parse_simple_bodies parse_bodyNotify parse_bodyDelete parse_bodyTS parse_bodyCP

lemma payloadType_nonzero: "payload_ok v p \<Longrightarrow> payloadType p \<noteq> PayloadNone"
  by (cases p) (simp_all add: payload_ok_def payloadType_def)

lemma parse_id_ts:
  "idIsInitiator i = b \<Longrightarrow> parseV2ID (bodyID i) b = Inr i"
  "ts_wf s \<Longrightarrow> tsIsInitiator s = b \<Longrightarrow> parseV2TS (bodyTS s) b = Inr s"
  using parse_simple_bodies(2) [of i] parse_bodyTS [of s] by auto

lemma parse_payloadBody:
  assumes "payload_ok v p"
  shows "parseTypedPayload (payloadType p) (payloadBody p) v = Inr (payloadNorm p)"
  using assms
  by (cases p)
    (simp_all add: payload_ok_def parseTypedPayload_def parseV1Payload_def parseV2Payload_def payloadType_def
      payloadBody_def payloadNorm_def payload_parse_facts knownTypes_def parse_id_ts split: if_splits)

definition headType :: "Payload list \<Rightarrow> byte" where
  "headType ps = (case ps of [] \<Rightarrow> PayloadNone | p # _ \<Rightarrow> payloadType p)"

lemma withNext_list_update: "(withNext n b)[0 := m] = withNext m b"
  by (simp add: withNext_def genericHeaderBytes_def)

lemma linkPayloads_Cons:
  "linkPayloads (p # ps) = withNext (headType ps) (payloadBody p) @ linkPayloads ps"
  by (cases ps)
    (simp_all add: MarshalPayload_def marshalWithHeader_withNext withNext_list_update headType_def)

lemma MarshalPayloadChain_eq: "MarshalPayloadChain ps = (linkPayloads ps, headType ps)"
  by (cases ps) (simp_all add: MarshalPayloadChain_def headType_def)

text \<open>One step of the walk over a payload that was written with \<^const>\<open>withNext\<close>.\<close>

lemma parseChainAt_step:
  assumes "t \<noteq> PayloadNone" and l: "length b < 65532"
  shows "parseChainAt (pre @ withNext n b @ r) t v (length pre) =
    (case parseTypedPayload t b v of
       Inl e \<Rightarrow> Inl e
     | Inr q \<Rightarrow>
         (case parseChainAt (pre @ withNext n b @ r) n v (length (pre @ withNext n b)) of
            Inl e \<Rightarrow> Inl e
          | Inr c \<Rightarrow>
              Inr (\<lparr>ppHeader = \<lparr>gphNext = n, Critical = False, gphLength = of_nat (4 + length b)\<rparr>, ppPayload = q\<rparr> # c)))"
proof -
  let ?buf = "pre @ withNext n b @ r"
  have s: "slice (length pre + 4) (length pre + (4 + length b)) ?buf = b"
    using slice_withNext(1) [where b = b and n = n and r = r] by (simp add: slice_def)
  have d: "drop (length pre) ?buf = withNext n b @ r" "length ?buf = length pre + (4 + length b) + length r"
    by simp_all
  show ?thesis
    unfolding parseChainAt.simps [of ?buf t v] d Parse_withNext PayloadHeaderLen_def
    using assms(1) withNext_length_field [OF l] s
    by (simp add: Let_def del: of_nat_add of_nat_numeral split: sum.split)
qed

fun chainOf :: "Payload list \<Rightarrow> ParsedPayload list" where
  "chainOf [] = []"
| "chainOf (p # ps) =
     \<lparr>ppHeader = \<lparr>gphNext = headType ps, Critical = False, gphLength = of_nat (4 + length (payloadBody p))\<rparr>,
      ppPayload = payloadNorm p\<rparr> # chainOf ps"

lemma parseChainAt_linkPayloads:
  "\<forall>p\<in>set ps. payload_ok v p \<Longrightarrow>
     parseChainAt (pre @ linkPayloads ps) (headType ps) v (length pre) = Inr (chainOf ps)"
proof (induction ps arbitrary: pre)
  case Nil
  then show ?case by (simp add: parseChainAt.simps headType_def)
next
  case (Cons p ps)
  have p: "payload_ok v p" using Cons.prems by simp
  have l: "length (payloadBody p) < 65532" using p by (simp add: payload_ok_def)
  have ih: "parseChainAt ((pre @ withNext (headType ps) (payloadBody p)) @ linkPayloads ps) (headType ps) v
      (length (pre @ withNext (headType ps) (payloadBody p))) = Inr (chainOf ps)"
    using Cons.IH [of "pre @ withNext (headType ps) (payloadBody p)"] Cons.prems by (simp del: append_assoc)
  have h: "headType (p # ps) = payloadType p" by (simp add: headType_def)
  show ?case
    using parseChainAt_step [OF payloadType_nonzero [OF p] l] parse_payloadBody [OF p] ih
    unfolding h linkPayloads_Cons by simp
qed

section \<open>Whole messages\<close>

text \<open>A message that the code can be asked to send: what \<open>Validate\<close> demands, and payloads of its version.\<close>

definition message_ok :: "Message \<Rightarrow> bool" where
  "message_ok m \<longleftrightarrow> ikeHeader_wf (mHeader m) \<and> MajorVersion (mHeader m) \<noteq> 0 \<and>
     (IsIKEv2 (mHeader m) \<longrightarrow> InitiatorSPI (mHeader m) \<noteq> replicate 8 0) \<and> RawMessage m = [] \<and>
     (\<forall>p\<in>set (map ppPayload (mPayloads m)). payload_ok (IsIKEv2 (mHeader m)) p) \<and>
     length (linkPayloads (map ppPayload (mPayloads m))) < 2 ^ 32 - 28"

text \<open>The header that \<open>MarshalMessage\<close> completes.\<close>

definition finalHeader :: "Message \<Rightarrow> IkeHeader" where
  "finalHeader m =
     (mHeader m)\<lparr>HdrNextPayload := headType (map ppPayload (mPayloads m)),
       IkeLength := of_nat (28 + length (linkPayloads (map ppPayload (mPayloads m))))\<rparr>"

lemma finalHeader_facts:
  "ikeHeader_wf (finalHeader m) = ikeHeader_wf (mHeader m)" "IsIKEv2 (finalHeader m) = IsIKEv2 (mHeader m)"
  "HdrNextPayload (finalHeader m) = headType (map ppPayload (mPayloads m))"
  by (simp_all add: finalHeader_def ikeHeader_wf_def IsIKEv2_def)

lemma u32_of_nat_unat: "n < 2 ^ 32 \<Longrightarrow> unat (of_nat n :: u32) = n"
  by (simp add: unat_of_nat)

lemma finalHeader_length:
  assumes "message_ok m"
  shows "unat (IkeLength (finalHeader m)) = 28 + length (linkPayloads (map ppPayload (mPayloads m)))"
  using assms u32_of_nat_unat [of "28 + length (linkPayloads (map ppPayload (mPayloads m)))"]
  by (simp add: finalHeader_def message_ok_def)

lemma Validate_finalHeader:
  assumes "message_ok m"
  shows "Validate (finalHeader m) = None"
proof -
  have "\<not> IkeLength (finalHeader m) < (28 :: u32)"
    using finalHeader_length [OF assms] by (simp add: word_less_nat_alt)
  with assms show ?thesis
    by (simp add: Validate_def message_ok_def HeaderLen_def finalHeader_def IsIKEv2_def)
qed

lemma MarshalMessage_eq:
  assumes "message_ok m"
  shows "MarshalMessage m =
    (Inr (ikeHeaderBytes (finalHeader m) @ linkPayloads (map ppPayload (mPayloads m))), m\<lparr>mHeader := finalHeader m\<rparr>)"
proof -
  let ?ps = "map ppPayload (mPayloads m)"
  let ?h = "ikeHeaderBytes (finalHeader m)" and ?n = "length (linkPayloads ?ps)"
  have wf: "ikeHeader_wf (finalHeader m)" using assms by (simp add: finalHeader_facts message_ok_def)
  have hdr: "(mHeader m)\<lparr>HdrNextPayload := headType ?ps, IkeLength := of_nat (HeaderLen + ?n)\<rparr> = finalHeader m"
    by (simp add: finalHeader_def HeaderLen_def)
  have "MarshalIkeHeader (finalHeader m) (replicate (28 + ?n) 0) = Inr (?h @ replicate ?n 0)"
    using MarshalIkeHeader_append [OF wf, of "replicate 28 0" "replicate ?n 0"]
    by (simp only: replicate_add length_replicate)
  moreover have "copy_at 28 (linkPayloads ?ps) (?h @ replicate ?n 0) = ?h @ linkPayloads ?ps"
    using copy_at_append [of ?h 28 "replicate ?n 0" "linkPayloads ?ps" "[]"] length_ikeHeaderBytes [OF wf] by simp
  moreover have "RawMessage m = []" using assms by (simp add: message_ok_def)
  ultimately show ?thesis
    using finalHeader_length [OF assms]
    unfolding MarshalMessage_def MarshalPayloadChain_eq prod.case Let_def hdr
    by (simp add: HeaderLen_def)
qed

text \<open>What \<open>ParseMessage\<close> does with a serialised header whose length field covers the payloads.\<close>

lemma ParseMessage_header:
  assumes "ikeHeader_wf h" and "Validate h = None" and "unat (IkeLength h) = 28 + length b"
  shows "ParseMessage (ikeHeaderBytes h @ b @ rest) =
    (case ParsePayloadChain b (HdrNextPayload h) (IsIKEv2 h) of
       Inl e \<Rightarrow> Inl e
     | Inr chain \<Rightarrow> Inr \<lparr>mHeader = h, mPayloads = chain, RawMessage = []\<rparr>)"
proof -
  have "slice 28 (28 + length b) (ikeHeaderBytes h @ b @ rest) = b"
    using length_ikeHeaderBytes [OF assms(1)] by (simp add: slice_def)
  with assms show ?thesis
    by (simp add: ParseMessage_def Parse_ikeHeaderBytes HeaderLen_def length_ikeHeaderBytes)
qed

lemma MarshalMessage_ParseMessage:
  assumes "message_ok m"
  shows "\<exists>buf. fst (MarshalMessage m) = Inr buf \<and>
    ParseMessage (buf @ rest) =
      Inr \<lparr>mHeader = mHeader (snd (MarshalMessage m)), mPayloads = chainOf (map ppPayload (mPayloads m)), RawMessage = []\<rparr>"
proof -
  let ?ps = "map ppPayload (mPayloads m)" and ?v = "IsIKEv2 (mHeader m)"
  have wf: "ikeHeader_wf (finalHeader m)" using assms by (simp add: finalHeader_facts message_ok_def)
  have ok: "\<forall>p\<in>set ?ps. payload_ok ?v p" using assms unfolding message_ok_def by blast
  have "ParsePayloadChain (linkPayloads ?ps) (headType ?ps) ?v = Inr (chainOf ?ps)"
    using parseChainAt_linkPayloads [OF ok, of "[]"] by (simp only: ParsePayloadChain_def append_Nil list.size)
  with ParseMessage_header [OF wf Validate_finalHeader [OF assms] finalHeader_length [OF assms], of rest]
  show ?thesis by (simp add: MarshalMessage_eq [OF assms] finalHeader_facts)
qed

text \<open>
  C32. IKE message round trip. A message that is fit to be sent (a valid header with 8-byte
  cookies, payloads of the header's version whose counters fit their fields) serialises
  without error, and the bytes, whatever follows them in the datagram, parse back: to the
  header as \<open>Marshal\<close> completed it, and to the same payloads in order, each with the type
  of its successor, up to the \<open>IsLast\<close> marks of proposals.
\<close>

theorem message_roundtrip:
  assumes "message_ok m"
  shows "\<exists>buf. fst (MarshalMessage m) = Inr buf \<and>
    ParseMessage (buf @ rest) =
      Inr \<lparr>mHeader = mHeader (snd (MarshalMessage m)), mPayloads = chainOf (map ppPayload (mPayloads m)), RawMessage = []\<rparr>"
  by (rule MarshalMessage_ParseMessage [OF assms])

text \<open>
  The payloads of an accepted chain lie one behind the other inside the buffer: every one
  states at least its own header, and together they are no longer than the buffer.
\<close>

theorem accepted_chain_in_bounds:
  "\<forall>chain. ParsePayloadChain buf t v = Inr chain \<longrightarrow>
     (\<forall>pp\<in>set chain. 4 \<le> unat (gphLength (ppHeader pp))) \<and>
     (\<Sum>pp\<leftarrow>chain. unat (gphLength (ppHeader pp))) \<le> length buf"
proof -
  have "offset \<le> length buf \<Longrightarrow> parseChainAt buf t v offset = Inr chain \<Longrightarrow>
      (\<forall>pp\<in>set chain. 4 \<le> unat (gphLength (ppHeader pp))) \<and>
      offset + (\<Sum>pp\<leftarrow>chain. unat (gphLength (ppHeader pp))) \<le> length buf" for offset chain
  proof (induction buf t v offset arbitrary: chain rule: parseChainAt.induct)
    case (1 buf t v offset)
    show ?case
    proof (cases "t = PayloadNone")
      case True
      with "1.prems" show ?thesis by (simp add: parseChainAt.simps)
    next
      case False
      from "1.prems"(2) False obtain gph payload rest where
        *: "\<not> offset + PayloadHeaderLen > length buf" "ParseGenericPayloadHeader (drop offset buf) = Inr gph"
          "\<not> unat (gphLength gph) < PayloadHeaderLen" "\<not> offset + unat (gphLength gph) > length buf"
          "parseTypedPayload t (slice (offset + PayloadHeaderLen) (offset + unat (gphLength gph)) buf) v = Inr payload"
          "\<not> (isRaw payload \<and> Critical gph)"
          "parseChainAt buf (gphNext gph) v (offset + unat (gphLength gph)) = Inr rest"
          "chain = \<lparr>ppHeader = gph, ppPayload = payload\<rparr> # rest"
        by (subst (asm) parseChainAt.simps) (simp add: Let_def split: sum.splits if_splits)
      from "1.IH" [OF False *(1,2,3) refl *(4,5,6) _ *(7)] *(4)
      show ?thesis using *(3) by (simp add: *(8) PayloadHeaderLen_def)
    qed
  qed
  from this [of 0] show ?thesis by (simp add: ParsePayloadChain_def)
qed

theorem accepted_chain_in_bounds_witness:
  "\<exists>chain. ParsePayloadChain [0, 0, 0, 5, 7, 9] PayloadNonce True = Inr chain \<and>
     (\<Sum>pp\<leftarrow>chain. unat (gphLength (ppHeader pp))) \<le> 6 \<and> length chain = 1"
proof -
  let ?c = "[\<lparr>ppHeader = \<lparr>gphNext = 0, Critical = False, gphLength = 5\<rparr>, ppPayload = PlNonce [7]\<rparr>]"
  have c: "ParsePayloadChain [0, 0, 0, 5, 7, 9] PayloadNonce True = Inr ?c" by code_simp
  with accepted_chain_in_bounds [of "[0, 0, 0, 5, 7, 9]" PayloadNonce True] show ?thesis by auto
qed

definition exampleMessage :: Message where
  "exampleMessage =
     \<lparr>mHeader = \<lparr>InitiatorSPI = replicate 8 1, ResponderSPI = replicate 8 0, HdrNextPayload = 0, MajorVersion = 2,
        MinorVersion = 0, Exchange = ExchangeIKESAInit, HdrFlags = FlagInitiator, MessageID = 0, IkeLength = 0\<rparr>,
      mPayloads = map (\<lambda>p. \<lparr>ppHeader = \<lparr>gphNext = 0, Critical = False, gphLength = 0\<rparr>, ppPayload = p\<rparr>)
        [PlSA \<lparr>Proposals = [\<lparr>propNumber = 1, propProtocolID = 1, propSPI = [],
           Transforms = [\<lparr>xfType = 1, xfID = 12, KeyLength = 256, xfIsLast = False\<rparr>], propIsLast = False\<rparr>]\<rparr>,
         PlNonce [1, 2, 3]],
      RawMessage = []\<rparr>"

theorem message_roundtrip_witness:
  "message_ok exampleMessage \<and>
   (\<exists>buf. fst (MarshalMessage exampleMessage) = Inr buf \<and>
     (\<exists>m. ParseMessage (buf @ [1, 2]) = Inr m \<and> map (payloadType \<circ> ppPayload) (mPayloads m) = [33, 40]))"
proof -
  have ok: "message_ok exampleMessage"
    by (simp add: message_ok_def exampleMessage_def ikeHeader_wf_def IsIKEv2_def IKEv2Major_def payload_ok_def
        linkPayloads_Cons payloadBody_def bodySA_def marshalV2Proposal_def marshalV2Transform_def prop_wf_def Let_def)
  have "map (payloadType \<circ> ppPayload) (chainOf (map ppPayload (mPayloads exampleMessage))) = [33, 40]" by code_simp
  with message_roundtrip [OF ok, of "[1, 2]"] ok show ?thesis by fastforce
qed

section \<open>Encrypted messages\<close>

text \<open>
  The \<^verbatim>\<open>NextPayload\<close> field of an Encrypted payload does not announce a successor: it is the
  type of the first payload inside (RFC 7296, 3.14), and \<open>DecryptSKPayload\<close> is given it. The
  walk of \<open>ParsePayloadChain\<close> does not know that.

  A message whose only payload is an Encrypted payload that holds anything is refused before
  it reaches a handler: with a valid version 2 header, a next-payload field of SK and a length
  that covers the payload, \<open>ParseMessage\<close> fails whenever the type of the first inner payload is
  not zero, whatever the ciphertext is and whatever follows.
\<close>

theorem encrypted_message_refused:
  assumes "ikeHeader_wf h" and "Validate h = None" and "IsIKEv2 h" and "HdrNextPayload h = PayloadSK"
    and "length body < 65532" and "unat (IkeLength h) = 28 + (4 + length body)" and "firstInner \<noteq> PayloadNone"
  shows "ParseMessage (MarshalBinary h @ withNext firstInner body @ rest) = Inl (ChainTruncated (4 + length body))"
proof -
  have t: "parseTypedPayload PayloadSK body True = Inr (PlSK body)"
    by (simp add: parseTypedPayload_def parseV2Payload_def)
  have stop: "parseChainAt (withNext firstInner body) firstInner True (4 + length body) = Inl (ChainTruncated (4 + length body))"
    using assms(7) by (subst parseChainAt.simps) (simp add: PayloadHeaderLen_def)
  have "ParsePayloadChain (withNext firstInner body) PayloadSK True = Inl (ChainTruncated (4 + length body))"
    using parseChainAt_step [OF _ assms(5), of PayloadSK "[]" firstInner "[]" True] t stop
    by (simp add: ParsePayloadChain_def)
  moreover have "unat (IkeLength h) = 28 + length (withNext firstInner body)" using assms(6) by simp
  ultimately show ?thesis
    using ParseMessage_header [OF assms(1,2), of "withNext firstInner body" rest] assms(3,4)
    by (simp add: MarshalBinary_eq [OF assms(1)])
qed

definition exampleHeader :: "byte \<Rightarrow> u32 \<Rightarrow> IkeHeader" where
  "exampleHeader np len =
     \<lparr>InitiatorSPI = replicate 8 1, ResponderSPI = replicate 8 2, HdrNextPayload = np, MajorVersion = 2,
      MinorVersion = 0, Exchange = ExchangeIKEAuth, HdrFlags = FlagInitiator, MessageID = 1, IkeLength = len\<rparr>"

lemma exampleHeader_facts:
  "ikeHeader_wf (exampleHeader np len)" "IsIKEv2 (exampleHeader np len)"
  "28 \<le> len \<Longrightarrow> Validate (exampleHeader np len) = None"
  by (simp_all add: exampleHeader_def ikeHeader_wf_def IsIKEv2_def IKEv2Major_def Validate_def HeaderLen_def
      linorder_not_less)

theorem encrypted_message_refused_witness:
  "ParseMessage (MarshalBinary (exampleHeader PayloadSK 36) @ withNext PayloadIDi [9, 9, 9, 9] @ []) = Inl (ChainTruncated 8)"
  using encrypted_message_refused [OF exampleHeader_facts(1) exampleHeader_facts(3) exampleHeader_facts(2),
      of 36 PayloadSK "[9, 9, 9, 9]" PayloadIDi "[]"]
  by (simp add: exampleHeader_def)

text \<open>
  C37. One unauthenticated datagram stops the server: with a valid version 2 header, a Notify
  payload whose SPI size is 252 or more, or a traffic selector payload whose first selector
  states a length below 7, is a run-time panic in \<open>ParseMessage\<close>, whatever follows; and
  no function above it recovers.
\<close>

theorem hostile_message_panics:
  assumes "ikeHeader_wf h" and "Validate h = None" and "IsIKEv2 h"
    and "length body < 65532" and "unat (IkeLength h) = 28 + (4 + length body)"
    and "HdrNextPayload h = PayloadNotify \<and> 4 \<le> length body \<and> 252 \<le> unat (body ! 1) \<or>
      HdrNextPayload h = PayloadTSi \<and> 12 \<le> length body \<and> body ! 0 \<noteq> 0 \<and> unat (Uint16 (slice 6 8 body)) < 7"
  shows "ParseMessage (MarshalBinary h @ withNext next body @ rest) = Inl IkePanic"
proof -
  have t: "parseTypedPayload (HdrNextPayload h) body True = Inl IkePanic"
    using assms(6)
  proof
    assume n: "HdrNextPayload h = PayloadNotify \<and> 4 \<le> length body \<and> 252 \<le> unat (body ! 1)"
    then have "parseV2Notify body = Inl IkePanic" by (simp add: parseV2Notify_panics_iff)
    with n show ?thesis by (simp add: parseTypedPayload_def parseV2Payload_def)
  next
    assume n: "HdrNextPayload h = PayloadTSi \<and> 12 \<le> length body \<and> body ! 0 \<noteq> 0 \<and> unat (Uint16 (slice 6 8 body)) < 7"
    then obtain k where k: "unat (body ! 0) = Suc k" by (cases "unat (body ! 0)") (simp_all add: unat_eq_zero)
    have "slice 2 4 (drop 4 body) = slice 6 8 body" by (simp add: slice_def)
    with n have "parseSelectors (Suc k) (drop 4 body) = Inl IkePanic"
      by (intro parseSelectors_short_panics) auto
    with n k show ?thesis by (simp add: parseTypedPayload_def parseV2Payload_def parseV2TS_def)
  qed
  have nz: "HdrNextPayload h \<noteq> PayloadNone" using assms(6) by auto
  have "ParsePayloadChain (withNext next body) (HdrNextPayload h) True = Inl IkePanic"
    using parseChainAt_step [OF nz assms(4), of "[]" "next" "[]" True] t
    by (simp add: ParsePayloadChain_def)
  moreover have "unat (IkeLength h) = 28 + length (withNext next body)" using assms(5) by simp
  ultimately show ?thesis
    using ParseMessage_header [OF assms(1,2), of "withNext next body" rest] assms(3)
    by (simp add: MarshalBinary_eq [OF assms(1)])
qed

theorem hostile_message_panics_witness:
  "ParseMessage (MarshalBinary (exampleHeader PayloadNotify 36) @ withNext 0 [0, 252, 0, 0] @ []) = Inl IkePanic"
  using hostile_message_panics [OF exampleHeader_facts(1) exampleHeader_facts(3) exampleHeader_facts(2),
      of 36 "[0, 252, 0, 0]" PayloadNotify 0 "[]"]
  by (simp add: exampleHeader_def)

end
