(* ===== verification/IkeDpd.thy ===== *)
theory IkeDpd
  imports IkeMessage
begin

text \<open>
  Dead peer detection for IKEv1 (\<^verbatim>\<open>internal/ike/dpd.go\<close>). The global sequence counter is an
  argument and a result of \<open>NextDPDSequence\<close>.
\<close>

definition NotifyV1DPD_R_U_THERE :: u16 where "NotifyV1DPD_R_U_THERE = 36136"
definition NotifyV1DPD_R_U_THERE_ACK :: u16 where "NotifyV1DPD_R_U_THERE_ACK = 36137"

definition DPDVendorID :: bytes where
  "DPDVendorID =
     [0xAF, 0xCA, 0xD7, 0x13, 0x68, 0xA1, 0xF1, 0xC9, 0x6B, 0x86, 0x96, 0xFC, 0x77, 0x57, 0x01, 0x00]"

definition NextDPDSequence :: "u32 \<Rightarrow> u32 \<times> u32" where
  "NextDPDSequence counter = (counter + 1, counter + 1)"

definition IsDPDVendorID :: "bytes \<Rightarrow> bool" where
  "IsDPDVendorID vendorData \<longleftrightarrow>
     (if length vendorData \<noteq> length DPDVendorID then False
      else list_all (\<lambda>(i, b). vendorData ! i = b) (enumerate 0 DPDVendorID))"

definition dpdMessage :: "u16 \<Rightarrow> bytes \<Rightarrow> bytes \<Rightarrow> u32 \<Rightarrow> u32 \<Rightarrow> Message" where
  "dpdMessage t initiatorSPI responderSPI messageID sq =
     (let seqData = PutUint32 sq;
          notify = \<lparr>ntf1DOI = DOIIPsec, ntf1ProtocolID = 1, ntf1SPISize = 16, ntf1MsgType = t,
                    ntf1SPI = initiatorSPI @ responderSPI, ntf1Data = seqData\<rparr>
      in
      \<lparr>mHeader = SetIKEv1 \<lparr>InitiatorSPI = initiatorSPI, ResponderSPI = responderSPI, HdrNextPayload = PayloadNotifyV1,
         MajorVersion = 0, MinorVersion = 0, Exchange = ExchangeInformationalV1, HdrFlags = 0, MessageID = messageID,
         IkeLength = 0\<rparr>,
       mPayloads = [\<lparr>ppHeader = \<lparr>gphNext = PayloadNone, Critical = False, gphLength = 0\<rparr>, ppPayload = PlNotifyV1 notify\<rparr>],
       RawMessage = []\<rparr>)"

definition BuildDPDRUThere :: "bytes \<Rightarrow> bytes \<Rightarrow> u32 \<Rightarrow> u32 \<Rightarrow> Message" where
  "BuildDPDRUThere = dpdMessage NotifyV1DPD_R_U_THERE"

definition BuildDPDRUThereAck :: "bytes \<Rightarrow> bytes \<Rightarrow> u32 \<Rightarrow> u32 \<Rightarrow> Message" where
  "BuildDPDRUThereAck = dpdMessage NotifyV1DPD_R_U_THERE_ACK"

definition HandleDPDNotify :: "NotifyV1Payload option \<Rightarrow> bytes \<Rightarrow> bytes \<Rightarrow> u32 \<Rightarrow> Message option" where
  "HandleDPDNotify notify initiatorSPI responderSPI messageID =
     (case notify of
        None \<Rightarrow> None
      | Some p \<Rightarrow>
          if ntf1MsgType p = NotifyV1DPD_R_U_THERE then
            (let sq = (if length (ntf1Data p) \<ge> 4 then Uint32 (take 4 (ntf1Data p)) else 0)
             in Some (BuildDPDRUThereAck initiatorSPI responderSPI messageID sq))
          else None)"

lemma IsDPDVendorID_iff: "IsDPDVendorID v \<longleftrightarrow> v = DPDVendorID"
proof -
  have "list_all (\<lambda>(i, b). v ! i = b) (enumerate 0 DPDVendorID) \<longleftrightarrow> (\<forall>i < length DPDVendorID. v ! i = DPDVendorID ! i)"
    by (simp add: list_all_length nth_enumerate_eq)
  then show ?thesis by (auto simp: IsDPDVendorID_def list_eq_iff_nth_eq)
qed

lemma dpdMessage_ok:
  assumes "length i = 8" and "length r = 8"
  shows "message_ok (dpdMessage t i r mid sq)"
  using assms
  by (simp add: message_ok_def dpdMessage_def ikeHeader_wf_def IsIKEv2_def IKEv2Major_def SetIKEv1_def IKEv1Major_def
      IKEv1Minor_def payload_ok_def ntf1_wf_def linkPayloads_Cons payloadBody_def bodyNotifyV1_def Let_def)

text \<open>
  The liveness check over the wire: the receiver parses the serialised R-U-THERE of a peer to
  one Notify payload, answers it with a message that serialises, and the peer parses that to
  one R-U-THERE-ACK with the identifiers and the sequence number it sent.
\<close>

theorem dpd_roundtrip:
  assumes "length i = 8" and "length r = 8"
  shows "\<exists>req m n ack buf m' n'.
    fst (MarshalMessage (BuildDPDRUThere i r mid sq)) = Inr req \<and> ParseMessage req = Inr m \<and>
    map ppPayload (mPayloads m) = [PlNotifyV1 n] \<and>
    HandleDPDNotify (Some n) (InitiatorSPI (mHeader m)) (ResponderSPI (mHeader m)) (MessageID (mHeader m)) = Some ack \<and>
    fst (MarshalMessage ack) = Inr buf \<and> ParseMessage buf = Inr m' \<and> map ppPayload (mPayloads m') = [PlNotifyV1 n'] \<and>
    ntf1MsgType n' = NotifyV1DPD_R_U_THERE_ACK \<and> ntf1SPI n' = i @ r \<and> Uint32 (ntf1Data n') = sq \<and>
    MessageID (mHeader m') = mid"
proof -
  have wire: "\<exists>buf m n. fst (MarshalMessage (dpdMessage t i r mid sq)) = Inr buf \<and> ParseMessage buf = Inr m \<and>
      map ppPayload (mPayloads m) = [PlNotifyV1 n] \<and> ntf1MsgType n = t \<and> ntf1SPI n = i @ r \<and> ntf1Data n = PutUint32 sq \<and>
      InitiatorSPI (mHeader m) = i \<and> ResponderSPI (mHeader m) = r \<and> MessageID (mHeader m) = mid" for t
  proof -
    let ?m = "dpdMessage t i r mid sq"
    let ?n = "\<lparr>ntf1DOI = DOIIPsec, ntf1ProtocolID = 1, ntf1SPISize = 16, ntf1MsgType = t, ntf1SPI = i @ r, ntf1Data = PutUint32 sq\<rparr>"
    have ok: "message_ok ?m" by (rule dpdMessage_ok [OF assms])
    obtain buf where buf: "fst (MarshalMessage ?m) = Inr buf"
      "ParseMessage buf = Inr \<lparr>mHeader = mHeader (snd (MarshalMessage ?m)), mPayloads = chainOf (map ppPayload (mPayloads ?m)), RawMessage = []\<rparr>"
      using message_roundtrip [OF ok, of "[]"] by auto
    have hdr: "mHeader (snd (MarshalMessage ?m)) = finalHeader ?m" by (simp add: MarshalMessage_eq [OF ok])
    have pl: "map ppPayload (chainOf (map ppPayload (mPayloads ?m))) = [PlNotifyV1 ?n]"
      by (simp add: dpdMessage_def Let_def payloadNorm_def)
    have h: "InitiatorSPI (finalHeader ?m) = i" "ResponderSPI (finalHeader ?m) = r" "MessageID (finalHeader ?m) = mid"
      by (simp_all add: finalHeader_def dpdMessage_def SetIKEv1_def Let_def)
    show ?thesis
      using buf hdr pl h by (intro exI [of _ buf] exI [of _ "\<lparr>mHeader = finalHeader ?m, mPayloads = chainOf (map ppPayload (mPayloads ?m)), RawMessage = []\<rparr>"]
        exI [of _ ?n]) (simp del: chainOf.simps)
  qed
  obtain req m n where a: "fst (MarshalMessage (BuildDPDRUThere i r mid sq)) = Inr req" "ParseMessage req = Inr m"
    "map ppPayload (mPayloads m) = [PlNotifyV1 n]" "ntf1MsgType n = NotifyV1DPD_R_U_THERE" "ntf1Data n = PutUint32 sq"
    "InitiatorSPI (mHeader m) = i" "ResponderSPI (mHeader m) = r" "MessageID (mHeader m) = mid"
    using wire [of NotifyV1DPD_R_U_THERE] by (elim exE conjE) (rule that, simp_all only: BuildDPDRUThere_def)
  have h: "HandleDPDNotify (Some n) i r mid = Some (dpdMessage NotifyV1DPD_R_U_THERE_ACK i r mid sq)"
    using a(4,5) by (simp add: HandleDPDNotify_def BuildDPDRUThereAck_def)
  obtain buf m' n' where b: "fst (MarshalMessage (dpdMessage NotifyV1DPD_R_U_THERE_ACK i r mid sq)) = Inr buf"
    "ParseMessage buf = Inr m'" "map ppPayload (mPayloads m') = [PlNotifyV1 n']"
    "ntf1MsgType n' = NotifyV1DPD_R_U_THERE_ACK" "ntf1SPI n' = i @ r" "ntf1Data n' = PutUint32 sq"
    "MessageID (mHeader m') = mid"
    using wire [of NotifyV1DPD_R_U_THERE_ACK] by (elim exE conjE) (rule that)
  show ?thesis
    using a b h by (intro exI [of _ req] exI [of _ m] exI [of _ n] exI [of _ "dpdMessage NotifyV1DPD_R_U_THERE_ACK i r mid sq"]
      exI [of _ buf] exI [of _ m'] exI [of _ n']) simp
qed

theorem dpd_roundtrip_witness:
  "\<exists>req m. fst (MarshalMessage (BuildDPDRUThere (replicate 8 1) (replicate 8 2) 5 77)) = Inr req \<and> ParseMessage req = Inr m"
  using dpd_roundtrip [of "replicate 8 1" "replicate 8 2" 5 77] by auto

end
