(* ===== verification/IkeRetransmit.thy ===== *)
theory IkeRetransmit
  imports Prelude
begin

text \<open>
  Retransmission of IKE requests (\<^verbatim>\<open>internal/ike/retransmit.go\<close>). A duration is an integer with
  the wrap-around of \<^verbatim>\<open>int64\<close> written out where the code doubles it. A timer is the duration it
  was last armed with; its expiry is an event that the environment chooses, so an expiry may
  also arrive after \<open>Stop\<close>, as it may in Go. The two callbacks become outputs.
\<close>

record RetransmitConfig =
  InitialInterval :: int
  MaxInterval :: int
  MaxRetries :: int

definition wrap64 :: "int \<Rightarrow> int" where
  "wrap64 n = (n + 2 ^ 63) mod 2 ^ 64 - 2 ^ 63"

definition DefaultRetransmitConfig :: RetransmitConfig where
  "DefaultRetransmitConfig =
     \<lparr>InitialInterval = 1 * 1000000000, MaxInterval = 16 * 1000000000, MaxRetries = 5\<rparr>"

record PendingRequest =
  rqMsgID :: u32
  rqData :: bytes
  rqRetries :: int
  rqTimer :: int
  rqInterval :: int

record Retransmitter =
  rtCfg :: RetransmitConfig
  rtPending :: "u32 \<Rightarrow> PendingRequest option"
  rtHasSend :: bool
  rtHasTimeout :: bool

datatype rt_output = RtSend bytes | RtTeardown

definition NewRetransmitter :: "RetransmitConfig \<Rightarrow> bool \<Rightarrow> bool \<Rightarrow> Retransmitter" where
  "NewRetransmitter cfg sendFunc timeoutFunc =
     \<lparr>rtCfg = cfg, rtPending = Map.empty, rtHasSend = sendFunc, rtHasTimeout = timeoutFunc\<rparr>"

definition rtStart :: "Retransmitter \<Rightarrow> u32 \<Rightarrow> bytes \<Rightarrow> Retransmitter" where
  "rtStart r msgID data =
     (case rtPending r msgID of
        Some _ \<Rightarrow> r
      | None \<Rightarrow>
          (let req = \<lparr>rqMsgID = msgID, rqData = data, rqRetries = 0, rqTimer = InitialInterval (rtCfg r),
                      rqInterval = InitialInterval (rtCfg r)\<rparr>
           in r\<lparr>rtPending := (rtPending r)(msgID \<mapsto> req)\<rparr>))"

definition rtStop :: "Retransmitter \<Rightarrow> u32 \<Rightarrow> Retransmitter" where
  "rtStop r msgID =
     (case rtPending r msgID of
        Some _ \<Rightarrow> r\<lparr>rtPending := (rtPending r)(msgID := None)\<rparr>
      | None \<Rightarrow> r)"

definition handleTimeout :: "Retransmitter \<Rightarrow> u32 \<Rightarrow> rt_output list \<times> Retransmitter" where
  "handleTimeout r msgID =
     (case rtPending r msgID of
        None \<Rightarrow> ([], r)
      | Some req \<Rightarrow>
          (let retries = rqRetries req + 1 in
           if retries > MaxRetries (rtCfg r) then
             (if rtHasTimeout r then [RtTeardown] else [], r\<lparr>rtPending := (rtPending r)(msgID := None)\<rparr>)
           else
           (let doubled = wrap64 (rqInterval req * 2);
                interval = (if doubled > MaxInterval (rtCfg r) then MaxInterval (rtCfg r) else doubled);
                req' = req\<lparr>rqRetries := retries, rqInterval := interval, rqTimer := interval\<rparr>
            in (if rtHasSend r then [RtSend (rqData req)] else [], r\<lparr>rtPending := (rtPending r)(msgID \<mapsto> req')\<rparr>))))"

definition rtStopAll :: "Retransmitter \<Rightarrow> Retransmitter" where
  "rtStopAll r = r\<lparr>rtPending := Map.empty\<rparr>"

section \<open>Runs\<close>

datatype rt_event = EvStart u32 bytes | EvStop u32 | EvTimeout u32 | EvStopAll

definition rtStep :: "Retransmitter \<Rightarrow> rt_event \<Rightarrow> rt_output list \<times> Retransmitter" where
  "rtStep r e =
     (case e of
        EvStart i d \<Rightarrow> ([], rtStart r i d)
      | EvStop i \<Rightarrow> ([], rtStop r i)
      | EvTimeout i \<Rightarrow> handleTimeout r i
      | EvStopAll \<Rightarrow> ([], rtStopAll r))"

inductive rt_reachable :: "RetransmitConfig \<Rightarrow> Retransmitter \<Rightarrow> bool" for cfg where
  rt_new: "rt_reachable cfg (NewRetransmitter cfg s t)"
| rt_step: "rt_reachable cfg r \<Longrightarrow> rt_reachable cfg (snd (rtStep r e))"

fun rtTimeouts :: "nat \<Rightarrow> u32 \<Rightarrow> Retransmitter \<Rightarrow> rt_output list \<times> Retransmitter" where
  "rtTimeouts 0 i r = ([], r)"
| "rtTimeouts (Suc n) i r =
     (let (out, r') = handleTimeout r i; (outs, r'') = rtTimeouts n i r' in (out @ outs, r''))"

section \<open>The schedule\<close>

definition cfg_ok :: "RetransmitConfig \<Rightarrow> bool" where
  "cfg_ok cfg \<longleftrightarrow> 0 < InitialInterval cfg \<and> InitialInterval cfg \<le> MaxInterval cfg \<and> MaxInterval cfg < 2 ^ 62 \<and>
     0 \<le> MaxRetries cfg"

definition backoffAt :: "RetransmitConfig \<Rightarrow> nat \<Rightarrow> int" where
  "backoffAt cfg n = min (InitialInterval cfg * 2 ^ n) (MaxInterval cfg)"

lemma wrap64_id: "- (2 ^ 63) \<le> n \<Longrightarrow> n < 2 ^ 63 \<Longrightarrow> wrap64 n = n"
  by (simp add: wrap64_def)

lemma backoff_step:
  assumes "cfg_ok cfg"
  shows "(let d = wrap64 (backoffAt cfg n * 2) in if d > MaxInterval cfg then MaxInterval cfg else d) = backoffAt cfg (Suc n)"
proof -
  have m: "0 < InitialInterval cfg" "InitialInterval cfg \<le> MaxInterval cfg" "MaxInterval cfg < 2 ^ 62"
    using assms by (simp_all add: cfg_ok_def)
  have p: "0 < InitialInterval cfg * 2 ^ n" using m(1) by simp
  have "wrap64 (backoffAt cfg n * 2) = backoffAt cfg n * 2"
    using m p order.strict_implies_order [OF p] by (intro wrap64_id) (auto simp: backoffAt_def min_def simp del: zero_less_mult_iff intro: order_trans [of _ 0])
  then show ?thesis using m p by (auto simp: backoffAt_def Let_def min_def)
qed

lemma rtTimeouts_run:
  assumes "cfg_ok (rtCfg r)" and "rtHasSend r" and "rtHasTimeout r"
    and "rtPending r i = Some req" and "rqRetries req = int k" and "rqInterval req = backoffAt (rtCfg r) k"
    and "int (k + n) \<le> MaxRetries (rtCfg r)"
  shows "\<exists>r' req'. rtTimeouts n i r = (replicate n (RtSend (rqData req)), r') \<and> rtCfg r' = rtCfg r \<and> rtHasSend r' \<and>
    rtHasTimeout r' \<and> rtPending r' i = Some req' \<and> rqData req' = rqData req \<and> rqRetries req' = int (k + n) \<and>
    rqInterval req' = backoffAt (rtCfg r) (k + n) \<and> (\<forall>j. j \<noteq> i \<longrightarrow> rtPending r' j = rtPending r j)"
  using assms
proof (induction n arbitrary: r req k)
  case (Suc n)
  let ?cfg = "rtCfg r"
  let ?req = "req\<lparr>rqRetries := rqRetries req + 1, rqInterval := backoffAt ?cfg (Suc k), rqTimer := backoffAt ?cfg (Suc k)\<rparr>"
  let ?r = "r\<lparr>rtPending := (rtPending r)(i \<mapsto> ?req)\<rparr>"
  have "\<not> rqRetries req + 1 > MaxRetries ?cfg" using Suc.prems(5,7) by simp
  then have h: "handleTimeout r i = ([RtSend (rqData req)], ?r)"
    using Suc.prems(2,4,6) backoff_step [OF Suc.prems(1), of k] by (simp add: handleTimeout_def Let_def)
  have "\<exists>r' req'. rtTimeouts n i ?r = (replicate n (RtSend (rqData ?req)), r') \<and> rtCfg r' = rtCfg ?r \<and> rtHasSend r' \<and>
    rtHasTimeout r' \<and> rtPending r' i = Some req' \<and> rqData req' = rqData ?req \<and> rqRetries req' = int (Suc k + n) \<and>
    rqInterval req' = backoffAt (rtCfg ?r) (Suc k + n) \<and> (\<forall>j. j \<noteq> i \<longrightarrow> rtPending r' j = rtPending ?r j)"
    by (rule Suc.IH) (use Suc.prems in simp_all)
  then show ?case using h by (auto simp: Let_def)
qed auto

text \<open>
  A request that nobody answers is sent again exactly \<open>MaxRetries\<close> times, with the interval
  doubling from \<open>InitialInterval\<close> up to \<open>MaxInterval\<close>, and the next expiry tears the session
  down and forgets the request; other requests are not affected, and from then on expiries of
  its timer do nothing.
\<close>

theorem retransmit_schedule:
  assumes "cfg_ok (rtCfg r)" and "rtHasSend r" and "rtHasTimeout r" and "rtPending r i = None"
  shows "\<exists>r'. rtTimeouts n i (rtStart r i data) =
    ((if int n \<le> MaxRetries (rtCfg r) then replicate n (RtSend data)
      else replicate (nat (MaxRetries (rtCfg r))) (RtSend data) @ [RtTeardown]), r') \<and>
    map_option rqInterval (rtPending r' i) = (if int n \<le> MaxRetries (rtCfg r) then Some (backoffAt (rtCfg r) n) else None) \<and>
    (\<forall>j. j \<noteq> i \<longrightarrow> rtPending r' j = rtPending r j)"
proof -
  let ?cfg = "rtCfg r" and ?m = "nat (MaxRetries (rtCfg r))"
  let ?req = "\<lparr>rqMsgID = i, rqData = data, rqRetries = 0, rqTimer = InitialInterval ?cfg, rqInterval = InitialInterval ?cfg\<rparr>"
  let ?r = "r\<lparr>rtPending := (rtPending r)(i \<mapsto> ?req)\<rparr>"
  have s: "rtStart r i data = ?r" using assms(4) by (simp add: rtStart_def)
  have b: "InitialInterval ?cfg = backoffAt ?cfg 0" using assms(1) by (simp add: backoffAt_def cfg_ok_def)
  have run: "\<exists>r' req'. rtTimeouts n i ?r = (replicate n (RtSend data), r') \<and> rtCfg r' = ?cfg \<and> rtHasSend r' \<and>
    rtHasTimeout r' \<and> rtPending r' i = Some req' \<and> rqRetries req' = int n \<and> rqInterval req' = backoffAt ?cfg n \<and>
    (\<forall>j. j \<noteq> i \<longrightarrow> rtPending r' j = rtPending r j)" if "int n \<le> MaxRetries ?cfg" for n
    using rtTimeouts_run [of ?r i ?req 0 n] assms b that by fastforce
  have split: "rtTimeouts (a + b) i q = (let (o1, q1) = rtTimeouts a i q; (o2, q2) = rtTimeouts b i q1 in (o1 @ o2, q2))" for a b q
    by (induction a arbitrary: q) (auto simp: Let_def split: prod.splits)
  have gone: "rtPending q i = None \<Longrightarrow> rtTimeouts k i q = ([], q)" for k q
    by (induction k) (simp_all add: handleTimeout_def)
  show ?thesis
  proof (cases "int n \<le> MaxRetries ?cfg")
    case True
    with run [OF True] s show ?thesis by fastforce
  next
    case False
    define k where "k = n - ?m - 1"
    have "?m < n" using False assms(1) by (simp add: cfg_ok_def nat_less_iff)
    then have k: "n = ?m + Suc k" by (simp add: k_def)
    have "int ?m \<le> MaxRetries ?cfg" "MaxRetries ?cfg = int ?m" using assms(1) by (simp_all add: cfg_ok_def)
    with run [of ?m] obtain r1 req1 where r1: "rtTimeouts ?m i ?r = (replicate ?m (RtSend data), r1)" "rtCfg r1 = ?cfg"
      "rtHasTimeout r1" "rtPending r1 i = Some req1" "rqRetries req1 = MaxRetries ?cfg"
      "\<forall>j. j \<noteq> i \<longrightarrow> rtPending r1 j = rtPending r j" by auto
    let ?r2 = "r1\<lparr>rtPending := (rtPending r1)(i := None)\<rparr>"
    have "handleTimeout r1 i = ([RtTeardown], ?r2)" using r1 by (simp add: handleTimeout_def)
    then have "rtTimeouts (Suc k) i r1 = ([RtTeardown], ?r2)" using gone [of ?r2 k] by (simp add: Let_def)
    with r1(1) have "rtTimeouts n i ?r = (replicate ?m (RtSend data) @ [RtTeardown], ?r2)"
      by (simp only: k split Let_def prod.case)
    with s r1(6) False show ?thesis by auto
  qed
qed

theorem retransmit_schedule_witness:
  "fst (rtTimeouts 9 1 (rtStart (NewRetransmitter DefaultRetransmitConfig True True) 1 [7])) =
    replicate 5 (RtSend [7]) @ [RtTeardown]"
proof -
  let ?r = "NewRetransmitter DefaultRetransmitConfig True True"
  have "cfg_ok (rtCfg ?r)" "rtHasSend ?r" "rtHasTimeout ?r" "rtPending ?r 1 = None" "MaxRetries (rtCfg ?r) = 5"
    by (simp_all add: NewRetransmitter_def cfg_ok_def DefaultRetransmitConfig_def)
  with retransmit_schedule [of ?r 1 9 "[7]"] show ?thesis by auto
qed

text \<open>
  Every reachable state: a pending request is filed under its identifier, was sent again at
  most \<open>MaxRetries\<close> times, and its timer is armed with its interval, which is positive and at
  most \<open>MaxInterval\<close>.
\<close>

definition rt_inv :: "Retransmitter \<Rightarrow> bool" where
  "rt_inv r \<longleftrightarrow> (\<forall>i req. rtPending r i = Some req \<longrightarrow> rqMsgID req = i \<and> 0 \<le> rqRetries req \<and>
     rqRetries req \<le> MaxRetries (rtCfg r) \<and> rqTimer req = rqInterval req \<and> 0 < rqInterval req \<and>
     rqInterval req \<le> MaxInterval (rtCfg r))"

lemma handleTimeout_inv:
  assumes "cfg_ok (rtCfg r)" and "rt_inv r"
  shows "rt_inv (snd (handleTimeout r i))"
proof (cases "rtPending r i")
  case None
  with assms(2) show ?thesis by (simp add: handleTimeout_def)
next
  case (Some req)
  have "0 < rqInterval req" "rqInterval req \<le> MaxInterval (rtCfg r)" "MaxInterval (rtCfg r) < 2 ^ 62"
    using assms Some by (auto simp: rt_inv_def cfg_ok_def)
  then have "wrap64 (rqInterval req * 2) = rqInterval req * 2" by (intro wrap64_id) simp_all
  with assms Some show ?thesis by (auto simp: handleTimeout_def Let_def rt_inv_def cfg_ok_def)
qed

theorem retransmit_invariant:
  assumes "rt_reachable cfg r" and "cfg_ok cfg"
  shows "rtCfg r = cfg \<and> rt_inv r"
  using assms(1)
proof induction
  case (rt_new s t)
  show ?case by (simp add: NewRetransmitter_def rt_inv_def)
next
  case (rt_step r e)
  then have i: "rtCfg r = cfg" "rt_inv r" by simp_all
  have "rtCfg (snd (rtStep r e)) = cfg"
    using i(1) by (cases e) (auto simp: rtStep_def rtStart_def rtStop_def rtStopAll_def handleTimeout_def Let_def split: option.splits)
  moreover have "rt_inv (snd (rtStep r e))"
    using i assms(2) handleTimeout_inv [of r]
    by (cases e) (auto simp: rtStep_def rtStart_def rtStop_def rtStopAll_def rt_inv_def cfg_ok_def split: option.splits)
  ultimately show ?case by simp
qed

end
