(* ===== verification/IkeProposal.thy ===== *)
theory IkeProposal
  imports IkePayloadSA IkePayloadV1 NetText
begin

text \<open>
  The negotiation of algorithms (\<^verbatim>\<open>internal/ike/proposal.go\<close>, constants of \<^verbatim>\<open>payload_sa.go\<close>):
  matching an IKEv2 offer against the local proposals, the selection for IKEv1 phase 1, and
  the parsers of the \<^verbatim>\<open>ike=\<close> and \<^verbatim>\<open>esp=\<close> configuration strings. A Go map is iterated in an
  order that the language leaves open: where it shows, the order is an argument.
\<close>

section \<open>Identifiers\<close>

abbreviation (input) ProtocolIKE :: byte where "ProtocolIKE \<equiv> 1"
abbreviation (input) ProtocolESP :: byte where "ProtocolESP \<equiv> 3"

abbreviation (input) TransformTypeENCR :: byte where "TransformTypeENCR \<equiv> 1"
abbreviation (input) TransformTypePRF :: byte where "TransformTypePRF \<equiv> 2"
abbreviation (input) TransformTypeINTG :: byte where "TransformTypeINTG \<equiv> 3"
abbreviation (input) TransformTypeDH :: byte where "TransformTypeDH \<equiv> 4"
abbreviation (input) TransformTypeESN :: byte where "TransformTypeESN \<equiv> 5"

abbreviation (input) Encr3DES :: u16 where "Encr3DES \<equiv> 3"
abbreviation (input) EncrAES_CBC :: u16 where "EncrAES_CBC \<equiv> 12"
abbreviation (input) EncrAES_GCM_8 :: u16 where "EncrAES_GCM_8 \<equiv> 18"
abbreviation (input) EncrAES_GCM_12 :: u16 where "EncrAES_GCM_12 \<equiv> 19"
abbreviation (input) EncrAES_GCM_16 :: u16 where "EncrAES_GCM_16 \<equiv> 20"
abbreviation (input) EncrCHACHA20 :: u16 where "EncrCHACHA20 \<equiv> 28"
abbreviation (input) PRFHMAC_SHA1 :: u16 where "PRFHMAC_SHA1 \<equiv> 2"
abbreviation (input) PRFHMAC_SHA256 :: u16 where "PRFHMAC_SHA256 \<equiv> 5"
abbreviation (input) PRFHMAC_SHA384 :: u16 where "PRFHMAC_SHA384 \<equiv> 6"
abbreviation (input) PRFHMAC_SHA512 :: u16 where "PRFHMAC_SHA512 \<equiv> 7"
abbreviation (input) AuthHMAC_SHA1_96 :: u16 where "AuthHMAC_SHA1_96 \<equiv> 2"
abbreviation (input) AuthHMAC_SHA256_128 :: u16 where "AuthHMAC_SHA256_128 \<equiv> 12"
abbreviation (input) AuthHMAC_SHA384_192 :: u16 where "AuthHMAC_SHA384_192 \<equiv> 13"
abbreviation (input) AuthHMAC_SHA512_256 :: u16 where "AuthHMAC_SHA512_256 \<equiv> 14"
abbreviation (input) DHGroup2 :: u16 where "DHGroup2 \<equiv> 2"
abbreviation (input) DHGroup5 :: u16 where "DHGroup5 \<equiv> 5"
abbreviation (input) DHGroup14 :: u16 where "DHGroup14 \<equiv> 14"
abbreviation (input) DHGroup19 :: u16 where "DHGroup19 \<equiv> 19"
abbreviation (input) DHGroup20 :: u16 where "DHGroup20 \<equiv> 20"
abbreviation (input) DHGroup21 :: u16 where "DHGroup21 \<equiv> 21"
abbreviation (input) ESNNone :: u16 where "ESNNone \<equiv> 0"

section \<open>Default proposals\<close>

definition xform :: "byte \<Rightarrow> u16 \<Rightarrow> u16 \<Rightarrow> Transform" where
  "xform t i k = \<lparr>xfType = t, xfID = i, KeyLength = k, xfIsLast = False\<rparr>"

definition mkProposal :: "byte \<Rightarrow> byte \<Rightarrow> Transform list \<Rightarrow> Proposal" where
  "mkProposal num prot xfs =
     \<lparr>propNumber = num, propProtocolID = prot, propSPI = [], Transforms = xfs, propIsLast = False\<rparr>"

definition DefaultIKEProposals :: SAPayload where
  "DefaultIKEProposals = \<lparr>Proposals =
     [mkProposal 1 ProtocolIKE
        [xform TransformTypeENCR EncrAES_GCM_16 256, xform TransformTypePRF PRFHMAC_SHA256 0,
         xform TransformTypeDH DHGroup20 0, xform TransformTypeESN ESNNone 0],
      mkProposal 2 ProtocolIKE
        [xform TransformTypeENCR EncrAES_GCM_16 128, xform TransformTypePRF PRFHMAC_SHA256 0,
         xform TransformTypeDH DHGroup14 0, xform TransformTypeESN ESNNone 0],
      mkProposal 3 ProtocolIKE
        [xform TransformTypeENCR EncrAES_CBC 256, xform TransformTypePRF PRFHMAC_SHA256 0,
         xform TransformTypeINTG AuthHMAC_SHA256_128 0,
         xform TransformTypeDH DHGroup14 0, xform TransformTypeESN ESNNone 0],
      mkProposal 4 ProtocolIKE
        [xform TransformTypeENCR EncrAES_CBC 128, xform TransformTypePRF PRFHMAC_SHA1 0,
         xform TransformTypeINTG AuthHMAC_SHA1_96 0,
         xform TransformTypeDH DHGroup14 0, xform TransformTypeESN ESNNone 0]]\<rparr>"

definition DefaultESPProposals :: SAPayload where
  "DefaultESPProposals = \<lparr>Proposals =
     [mkProposal 1 ProtocolESP
        [xform TransformTypeENCR EncrAES_GCM_16 256, xform TransformTypeESN ESNNone 0],
      mkProposal 2 ProtocolESP
        [xform TransformTypeENCR EncrAES_GCM_16 128, xform TransformTypeESN ESNNone 0],
      mkProposal 3 ProtocolESP
        [xform TransformTypeENCR EncrAES_CBC 256, xform TransformTypeINTG AuthHMAC_SHA256_128 0,
         xform TransformTypeESN ESNNone 0],
      mkProposal 4 ProtocolESP
        [xform TransformTypeENCR EncrAES_CBC 128, xform TransformTypeINTG AuthHMAC_SHA1_96 0,
         xform TransformTypeESN ESNNone 0]]\<rparr>"

section \<open>Matching\<close>

datatype proposal_error =
    NoPeerProposals
  | NoLocalProposals
  | NoProposalChosen
  | BadIKESpec string
  | UnknownEncr string
  | UnknownHash string
  | UnknownDH string

record SelectedProposal =
  ProposalNum :: byte
  selProtocolID :: byte
  selSPI :: bytes
  EncrID :: u16
  EncrKeyLen :: u16
  PRFID :: u16
  IntegID :: u16
  DHID :: u16
  ESN :: u16

text \<open>The map from types to transforms: its value at a type, and its keys.\<close>

definition groupTransforms :: "Transform list \<Rightarrow> byte \<Rightarrow> Transform list" where
  "groupTransforms xfs ty = filter (\<lambda>xf. xfType xf = ty) xfs"

definition groupKeys :: "Transform list \<Rightarrow> byte list" where
  "groupKeys xfs = remdups (map xfType xfs)"

definition transformMatch :: "Transform \<Rightarrow> Transform \<Rightarrow> bool" where
  "transformMatch ours theirs \<longleftrightarrow>
     xfType ours = xfType theirs \<and> xfID ours = xfID theirs \<and>
     \<not> (KeyLength ours \<noteq> 0 \<and> KeyLength theirs \<noteq> 0 \<and> KeyLength ours \<noteq> KeyLength theirs)"

definition hasMatchingTransform :: "Transform list \<Rightarrow> Transform list \<Rightarrow> bool" where
  "hasMatchingTransform ours theirs \<longleftrightarrow> (\<exists>u\<in>set ours. \<exists>t\<in>set theirs. transformMatch u t)"

definition proposalMatch :: "Proposal \<Rightarrow> Proposal \<Rightarrow> bool" where
  "proposalMatch ours theirs \<longleftrightarrow>
     (\<forall>ty\<in>set (groupKeys (Transforms ours)).
        if ty \<notin> set (groupKeys (Transforms theirs)) then ty = TransformTypeINTG
        else hasMatchingTransform (groupTransforms (Transforms ours) ty) (groupTransforms (Transforms theirs) ty))"

definition setSelected :: "byte \<Rightarrow> Transform \<Rightarrow> Transform \<Rightarrow> SelectedProposal \<Rightarrow> SelectedProposal" where
  "setSelected ty u t sel =
     (if ty = TransformTypeENCR then
        sel\<lparr>EncrID := xfID u, EncrKeyLen := (if KeyLength u = 0 then KeyLength t else KeyLength u)\<rparr>
      else if ty = TransformTypePRF then sel\<lparr>PRFID := xfID u\<rparr>
      else if ty = TransformTypeINTG then sel\<lparr>IntegID := xfID u\<rparr>
      else if ty = TransformTypeDH then sel\<lparr>DHID := xfID u\<rparr>
      else if ty = TransformTypeESN then sel\<lparr>ESN := xfID u\<rparr>
      else sel)"

text \<open>
  The loops of \<^verbatim>\<open>extractSelected\<close> for one type: \<^verbatim>\<open>break\<close> leaves the loop over the peer's
  transforms only, so that a later local transform that matches overwrites an earlier one.
\<close>

definition extractType :: "Proposal \<Rightarrow> Proposal \<Rightarrow> byte \<Rightarrow> SelectedProposal \<Rightarrow> SelectedProposal" where
  "extractType ours theirs ty =
     fold (\<lambda>u sel. case find (transformMatch u) (groupTransforms (Transforms theirs) ty) of
                     None \<Rightarrow> sel
                   | Some t \<Rightarrow> setSelected ty u t sel)
       (groupTransforms (Transforms ours) ty)"

definition extractSelected :: "byte list \<Rightarrow> Proposal \<Rightarrow> Proposal \<Rightarrow> SelectedProposal" where
  "extractSelected order ours theirs =
     fold (extractType ours theirs) order
       \<lparr>ProposalNum = propNumber theirs, selProtocolID = propProtocolID theirs, selSPI = propSPI theirs,
        EncrID = 0, EncrKeyLen = 0, PRFID = 0, IntegID = 0, DHID = 0, ESN = 0\<rparr>"

text \<open>\<^verbatim>\<open>buildSelectedProposal\<close> goes to the next type at the first match.\<close>

fun firstMatch :: "Transform list \<Rightarrow> Transform list \<Rightarrow> (Transform \<times> Transform) option" where
  "firstMatch [] theirs = None"
| "firstMatch (u # us) theirs =
     (case find (transformMatch u) theirs of Some t \<Rightarrow> Some (u, t) | None \<Rightarrow> firstMatch us theirs)"

definition chosenTransform :: "Proposal \<Rightarrow> Proposal \<Rightarrow> byte \<Rightarrow> Transform list" where
  "chosenTransform theirProp ourProp ty =
     (case firstMatch (groupTransforms (Transforms ourProp) ty) (groupTransforms (Transforms theirProp) ty) of
        None \<Rightarrow> []
      | Some (u, t) \<Rightarrow> [xform ty (xfID u) (if KeyLength u = 0 then KeyLength t else KeyLength u)])"

definition buildSelectedProposal :: "byte list \<Rightarrow> Proposal \<Rightarrow> Proposal \<Rightarrow> Proposal" where
  "buildSelectedProposal order theirProp ourProp =
     \<lparr>propNumber = propNumber theirProp, propProtocolID = propProtocolID theirProp, propSPI = propSPI theirProp,
      Transforms = concat (map (chosenTransform theirProp ourProp) order), propIsLast = True\<rparr>"

text \<open>The two nested loops of \<^verbatim>\<open>SelectProposal\<close>: the first acceptable pair.\<close>

fun selectPair :: "Proposal list \<Rightarrow> Proposal list \<Rightarrow> (Proposal \<times> Proposal) option" where
  "selectPair [] theirs = None"
| "selectPair (u # us) theirs =
     (case find (\<lambda>t. propProtocolID u = propProtocolID t \<and> proposalMatch u t) theirs of
        Some t \<Rightarrow> Some (u, t)
      | None \<Rightarrow> selectPair us theirs)"

definition SelectProposal ::
  "(Proposal \<Rightarrow> byte list) \<Rightarrow> (Proposal \<Rightarrow> byte list) \<Rightarrow> SAPayload option \<Rightarrow> SAPayload option
   \<Rightarrow> proposal_error + SelectedProposal \<times> Proposal" where
  "SelectProposal ordE ordB ours theirs =
     (case theirs of
        None \<Rightarrow> Inl NoPeerProposals
      | Some theirs \<Rightarrow>
          if Proposals theirs = [] then Inl NoPeerProposals
          else
          (case ours of
             None \<Rightarrow> Inl NoLocalProposals
           | Some ours \<Rightarrow>
               if Proposals ours = [] then Inl NoLocalProposals
               else
               (case selectPair (Proposals ours) (Proposals theirs) of
                  None \<Rightarrow> Inl NoProposalChosen
                | Some (u, t) \<Rightarrow> Inr (extractSelected (ordE u) u t, buildSelectedProposal (ordB u) t u))))"

section \<open>IKEv1 phase 1\<close>

abbreviation (input) V1Encr3DES_CBC :: u16 where "V1Encr3DES_CBC \<equiv> 5"
abbreviation (input) V1EncrAES_CBC :: u16 where "V1EncrAES_CBC \<equiv> 7"
abbreviation (input) V1HashSHA1 :: u16 where "V1HashSHA1 \<equiv> 2"
abbreviation (input) V1HashSHA256 :: u16 where "V1HashSHA256 \<equiv> 4"
abbreviation (input) V1AuthPreSharedKey :: u16 where "V1AuthPreSharedKey \<equiv> 1"
abbreviation (input) V1AuthXAUTH_InitPSK :: u16 where "V1AuthXAUTH_InitPSK \<equiv> 65001"

record V1Phase1Config =
  EncAlg :: u16
  HashAlg :: u16
  AuthMethod :: u16
  v1DHGroup :: u16
  v1KeyLength :: u16
  LifeType :: u16
  LifeDur :: u32

definition v1Config :: "u16 \<Rightarrow> u16 \<Rightarrow> u16 \<Rightarrow> u16 \<Rightarrow> u16 \<Rightarrow> V1Phase1Config" where
  "v1Config e h a d k =
     \<lparr>EncAlg = e, HashAlg = h, AuthMethod = a, v1DHGroup = d, v1KeyLength = k, LifeType = 0, LifeDur = 0\<rparr>"

definition DefaultV1Phase1Configs :: "V1Phase1Config list" where
  "DefaultV1Phase1Configs =
     [v1Config V1EncrAES_CBC V1HashSHA256 V1AuthXAUTH_InitPSK DHGroup14 256,
      v1Config V1EncrAES_CBC V1HashSHA256 V1AuthXAUTH_InitPSK DHGroup14 128,
      v1Config V1EncrAES_CBC V1HashSHA1 V1AuthXAUTH_InitPSK DHGroup14 256,
      v1Config V1EncrAES_CBC V1HashSHA1 V1AuthXAUTH_InitPSK DHGroup14 128,
      v1Config V1Encr3DES_CBC V1HashSHA1 V1AuthXAUTH_InitPSK DHGroup2 0,
      v1Config V1EncrAES_CBC V1HashSHA256 V1AuthPreSharedKey DHGroup14 256,
      v1Config V1EncrAES_CBC V1HashSHA256 V1AuthPreSharedKey DHGroup14 128,
      v1Config V1EncrAES_CBC V1HashSHA1 V1AuthPreSharedKey DHGroup14 256,
      v1Config V1EncrAES_CBC V1HashSHA1 V1AuthPreSharedKey DHGroup14 128,
      v1Config V1EncrAES_CBC V1HashSHA1 V1AuthPreSharedKey DHGroup2 128,
      v1Config V1Encr3DES_CBC V1HashSHA1 V1AuthPreSharedKey DHGroup2 0,
      v1Config V1Encr3DES_CBC V1HashSHA1 V1AuthPreSharedKey DHGroup14 0]"

definition attrToUint16 :: "ISAKMPAttribute \<Rightarrow> u16" where
  "attrToUint16 attr =
     (if length (attrValue attr) \<ge> 2 then Uint16 (attrValue attr)
      else if length (attrValue attr) = 1 then ucast (attrValue attr ! 0)
      else 0)"

definition applyV1Attr :: "ISAKMPAttribute \<Rightarrow> V1Phase1Config \<Rightarrow> V1Phase1Config" where
  "applyV1Attr attr cfg =
     (let val = attrToUint16 attr in
      if attrType attr = 1 then cfg\<lparr>EncAlg := val\<rparr>
      else if attrType attr = 2 then cfg\<lparr>HashAlg := val\<rparr>
      else if attrType attr = 3 then cfg\<lparr>AuthMethod := val\<rparr>
      else if attrType attr = 4 then cfg\<lparr>v1DHGroup := val\<rparr>
      else if attrType attr = 14 then cfg\<lparr>v1KeyLength := val\<rparr>
      else if attrType attr = 11 then cfg\<lparr>LifeType := val\<rparr>
      else if attrType attr = 12 then
        (if IsTV attr then cfg\<lparr>LifeDur := ucast val\<rparr>
         else if length (attrValue attr) = 4 then cfg\<lparr>LifeDur := Uint32 (attrValue attr)\<rparr>
         else cfg)
      else cfg)"

definition parseV1TransformAttrs :: "ISAKMPAttribute list \<Rightarrow> V1Phase1Config" where
  "parseV1TransformAttrs attrs = fold applyV1Attr attrs (v1Config 0 0 0 0 0)"

definition v1ConfigMatch :: "V1Phase1Config \<Rightarrow> V1Phase1Config \<Rightarrow> bool" where
  "v1ConfigMatch supp parsed \<longleftrightarrow>
     EncAlg supp = EncAlg parsed \<and> HashAlg supp = HashAlg parsed \<and> AuthMethod supp = AuthMethod parsed \<and>
     v1DHGroup supp = v1DHGroup parsed \<and>
     \<not> (v1KeyLength supp \<noteq> 0 \<and> v1KeyLength parsed \<noteq> 0 \<and> v1KeyLength supp \<noteq> v1KeyLength parsed)"

definition offeredV1 :: "TransformV1Payload \<Rightarrow> V1Phase1Config" where
  "offeredV1 xf = (parseV1TransformAttrs (tv1Attributes xf))\<lparr>EncAlg := ucast (tv1TransformID xf)\<rparr>"

fun selectV1Transform ::
  "V1Phase1Config list \<Rightarrow> TransformV1Payload list \<Rightarrow> (V1Phase1Config \<times> TransformV1Payload) option" where
  "selectV1Transform supported [] = None"
| "selectV1Transform supported (xf # xfs) =
     (case find (\<lambda>supp. v1ConfigMatch supp (offeredV1 xf)) supported of
        Some supp \<Rightarrow> Some (supp, xf)
      | None \<Rightarrow> selectV1Transform supported xfs)"

fun selectV1In ::
  "V1Phase1Config list \<Rightarrow> ProposalV1Payload list
   \<Rightarrow> (V1Phase1Config \<times> ProposalV1Payload \<times> TransformV1Payload) option" where
  "selectV1In supported [] = None"
| "selectV1In supported (p # ps) =
     (case selectV1Transform supported (pv1Transforms p) of
        Some (supp, xf) \<Rightarrow> Some (supp, p, xf)
      | None \<Rightarrow> selectV1In supported ps)"

definition SelectV1Proposal ::
  "SAv1Payload option \<Rightarrow> V1Phase1Config list
   \<Rightarrow> proposal_error + V1Phase1Config \<times> ProposalV1Payload \<times> TransformV1Payload" where
  "SelectV1Proposal sa supported =
     (case sa of
        None \<Rightarrow> Inl NoPeerProposals
      | Some sa \<Rightarrow>
          if sav1Proposals sa = [] then Inl NoPeerProposals
          else
          (case selectV1In supported (sav1Proposals sa) of
             None \<Rightarrow> Inl NoProposalChosen
           | Some r \<Rightarrow> Inr r))"

section \<open>Configuration strings\<close>

text \<open>\<^verbatim>\<open>strings.Split\<close> with a one-byte separator, and \<^verbatim>\<open>strings.ToLower\<close> on ASCII.\<close>

fun splitOn :: "char \<Rightarrow> string \<Rightarrow> string list" where
  "splitOn sep [] = [[]]"
| "splitOn sep (c # cs) =
     (if c = sep then [] # splitOn sep cs
      else (case splitOn sep cs of [] \<Rightarrow> [[c]] | w # ws \<Rightarrow> (c # w) # ws))"

definition toLowerChar :: "char \<Rightarrow> char" where
  "toLowerChar c = (if 65 \<le> charCode c \<and> charCode c \<le> 90 then char_of (charCode c + 32) else c)"

definition ToLower :: "string \<Rightarrow> string" where
  "ToLower s = map toLowerChar s"

definition parseEncrToken :: "string \<Rightarrow> proposal_error + u16 \<times> u16" where
  "parseEncrToken s0 =
     (let s = ToLower s0 in
      if s = ''aes256gcm16'' \<or> s = ''aes_gcm_16_256'' then Inr (EncrAES_GCM_16, 256)
      else if s = ''aes128gcm16'' \<or> s = ''aes_gcm_16_128'' then Inr (EncrAES_GCM_16, 128)
      else if s = ''aes256'' \<or> s = ''aes_cbc_256'' then Inr (EncrAES_CBC, 256)
      else if s = ''aes128'' \<or> s = ''aes_cbc_128'' \<or> s = ''aes'' then Inr (EncrAES_CBC, 128)
      else if s = ''3des'' then Inr (Encr3DES, 0)
      else if s = ''chacha20poly1305'' then Inr (EncrCHACHA20, 256)
      else Inl (UnknownEncr s))"

definition parseHashToken :: "string \<Rightarrow> proposal_error + u16 \<times> u16" where
  "parseHashToken s0 =
     (let s = ToLower s0 in
      if s = ''sha1'' then Inr (PRFHMAC_SHA1, AuthHMAC_SHA1_96)
      else if s = ''sha256'' \<or> s = ''sha2_256'' then Inr (PRFHMAC_SHA256, AuthHMAC_SHA256_128)
      else if s = ''sha384'' \<or> s = ''sha2_384'' then Inr (PRFHMAC_SHA384, AuthHMAC_SHA384_192)
      else if s = ''sha512'' \<or> s = ''sha2_512'' then Inr (PRFHMAC_SHA512, AuthHMAC_SHA512_256)
      else Inl (UnknownHash s))"

definition parseDHToken :: "string \<Rightarrow> proposal_error + u16" where
  "parseDHToken s0 =
     (let s = ToLower s0 in
      if s = ''modp1024'' \<or> s = ''group2'' then Inr DHGroup2
      else if s = ''modp1536'' \<or> s = ''group5'' then Inr DHGroup5
      else if s = ''modp2048'' \<or> s = ''group14'' then Inr DHGroup14
      else if s = ''ecp256'' \<or> s = ''group19'' then Inr DHGroup19
      else if s = ''ecp384'' \<or> s = ''group20'' then Inr DHGroup20
      else if s = ''ecp521'' \<or> s = ''group21'' then Inr DHGroup21
      else Inl (UnknownDH s))"

definition isAEADCipher :: "u16 \<Rightarrow> bool" where
  "isAEADCipher i \<longleftrightarrow> i = EncrAES_GCM_8 \<or> i = EncrAES_GCM_12 \<or> i = EncrAES_GCM_16 \<or> i = EncrCHACHA20"

text \<open>One comma-separated part, at position \<open>i\<close> of the string.\<close>

definition parseIKEPart :: "nat \<Rightarrow> string \<Rightarrow> proposal_error + Proposal" where
  "parseIKEPart i part =
     (let tokens = splitOn (CHR ''-'') (TrimSpace part) in
      if length tokens < 2 then Inl (BadIKESpec part)
      else
      (case parseEncrToken (tokens ! 0) of
         Inl e \<Rightarrow> Inl e
       | Inr (encrID, keyLen) \<Rightarrow>
           (case parseHashToken (tokens ! 1) of
              Inl e \<Rightarrow> Inl e
            | Inr (prfID, integID) \<Rightarrow>
                (let xfs = [xform TransformTypeENCR encrID keyLen, xform TransformTypePRF prfID 0] @
                       (if integID \<noteq> 0 \<and> \<not> isAEADCipher encrID then [xform TransformTypeINTG integID 0] else [])
                 in
                 case (if length tokens \<ge> 3 then map_sum id (\<lambda>d. [xform TransformTypeDH d 0]) (parseDHToken (tokens ! 2))
                       else Inr []) of
                   Inl e \<Rightarrow> Inl e
                 | Inr dh \<Rightarrow>
                     Inr (mkProposal (of_nat (i + 1)) ProtocolIKE (xfs @ dh @ [xform TransformTypeESN ESNNone 0]))))))"

definition parseESPPart :: "nat \<Rightarrow> string \<Rightarrow> proposal_error + Proposal" where
  "parseESPPart i part =
     (let tokens = splitOn (CHR ''-'') (TrimSpace part) in
      case parseEncrToken (tokens ! 0) of
        Inl e \<Rightarrow> Inl e
      | Inr (encrID, keyLen) \<Rightarrow>
          (case (if length tokens \<ge> 2 \<and> \<not> isAEADCipher encrID then
                   map_sum id (\<lambda>(_, integID). if integID \<noteq> 0 then [xform TransformTypeINTG integID 0] else [])
                     (parseHashToken (tokens ! 1))
                 else Inr []) of
             Inl e \<Rightarrow> Inl e
           | Inr integ \<Rightarrow>
               Inr (mkProposal (of_nat (i + 1)) ProtocolESP
                 ([xform TransformTypeENCR encrID keyLen] @ integ @ [xform TransformTypeESN ESNNone 0]))))"

fun parseParts :: "(nat \<Rightarrow> string \<Rightarrow> proposal_error + Proposal) \<Rightarrow> nat \<Rightarrow> string list \<Rightarrow> proposal_error + Proposal list" where
  "parseParts f i [] = Inr []"
| "parseParts f i (part # parts) =
     (case f i part of
        Inl e \<Rightarrow> Inl e
      | Inr p \<Rightarrow> (case parseParts f (Suc i) parts of Inl e \<Rightarrow> Inl e | Inr ps \<Rightarrow> Inr (p # ps)))"

definition ParseIKEString :: "string \<Rightarrow> proposal_error + SAPayload" where
  "ParseIKEString s =
     (if s = [] then Inr DefaultIKEProposals
      else map_sum id (\<lambda>ps. \<lparr>Proposals = ps\<rparr>) (parseParts parseIKEPart 0 (splitOn (CHR '','') s)))"

definition ParseESPString :: "string \<Rightarrow> proposal_error + SAPayload" where
  "ParseESPString s =
     (if s = [] then Inr DefaultESPProposals
      else map_sum id (\<lambda>ps. \<lparr>Proposals = ps\<rparr>) (parseParts parseESPPart 0 (splitOn (CHR '','') s)))"

section \<open>What is selected\<close>

definition acceptable :: "Proposal \<Rightarrow> Proposal \<Rightarrow> bool" where
  "acceptable u t \<longleftrightarrow> propProtocolID u = propProtocolID t \<and> proposalMatch u t"

lemma find_first:
  "find P xs = Some x \<Longrightarrow> \<exists>j < length xs. xs ! j = x \<and> P x \<and> (\<forall>j' < j. \<not> P (xs ! j'))"
  by (auto simp: find_Some_iff)

lemma find_SomeD: "find P xs = Some x \<Longrightarrow> x \<in> set xs \<and> P x"
  by (auto simp: find_Some_iff)

lemma selectPair_None: "selectPair us ts = None \<longleftrightarrow> (\<forall>u\<in>set us. \<forall>t\<in>set ts. \<not> acceptable u t)"
  by (induction us) (auto simp: acceptable_def find_None_iff split: option.splits dest!: find_SomeD)

lemma selectPair_Some:
  "selectPair us ts = Some (u, t) \<Longrightarrow>
     \<exists>i < length us. \<exists>j < length ts. us ! i = u \<and> ts ! j = t \<and> acceptable u t \<and>
       (\<forall>i' < i. \<forall>t'\<in>set ts. \<not> acceptable (us ! i') t') \<and> (\<forall>j' < j. \<not> acceptable u (ts ! j'))"
proof (induction us)
  case (Cons v us)
  show ?case
  proof (cases "find (\<lambda>t. propProtocolID v = propProtocolID t \<and> proposalMatch v t) ts")
    case None
    then have n: "\<forall>t'\<in>set ts. \<not> acceptable v t'" by (simp add: find_None_iff acceptable_def)
    from None Cons obtain i j where
      *: "i < length us" "j < length ts" "us ! i = u" "ts ! j = t" "acceptable u t"
        "\<forall>i' < i. \<forall>t'\<in>set ts. \<not> acceptable (us ! i') t'" "\<forall>j' < j. \<not> acceptable u (ts ! j')"
      by auto
    have "\<forall>i' < Suc i. \<forall>t'\<in>set ts. \<not> acceptable ((v # us) ! i') t'"
    proof (intro allI impI)
      fix i' assume "i' < Suc i"
      with n *(6) show "\<forall>t'\<in>set ts. \<not> acceptable ((v # us) ! i') t'" by (cases i') simp_all
    qed
    with * show ?thesis by (intro exI [of _ "Suc i"]) auto
  next
    case (Some t0)
    with Cons.prems have "v = u" "t0 = t" by simp_all
    with find_first [OF Some] show ?thesis by (intro exI [of _ 0]) (auto simp: acceptable_def)
  qed
qed simp

text \<open>
  C33. What \<open>SelectProposal\<close> returns when both sides have proposals: an error exactly when no
  local proposal is acceptable with any offered one; otherwise the answer belongs to the
  first local proposal that has an acceptable partner and to the first such partner, whose
  number, protocol and SPI it carries.
\<close>

theorem proposal_selection:
  assumes "Proposals ours \<noteq> []" and "Proposals theirs \<noteq> []"
  shows "case SelectProposal ordE ordB (Some ours) (Some theirs) of
     Inl e \<Rightarrow> e = NoProposalChosen \<and> (\<forall>u\<in>set (Proposals ours). \<forall>t\<in>set (Proposals theirs). \<not> acceptable u t)
   | Inr (sel, p) \<Rightarrow>
       \<exists>i < length (Proposals ours). \<exists>j < length (Proposals theirs).
         let u = Proposals ours ! i; t = Proposals theirs ! j in
         acceptable u t \<and>
         (\<forall>i' < i. \<forall>t'\<in>set (Proposals theirs). \<not> acceptable (Proposals ours ! i') t') \<and>
         (\<forall>j' < j. \<not> acceptable u (Proposals theirs ! j')) \<and>
         sel = extractSelected (ordE u) u t \<and>
         propNumber p = propNumber t \<and> propProtocolID p = propProtocolID t \<and> propSPI p = propSPI t"
proof (cases "selectPair (Proposals ours) (Proposals theirs)")
  case None
  with assms have "SelectProposal ordE ordB (Some ours) (Some theirs) = Inl NoProposalChosen"
    by (simp add: SelectProposal_def)
  with None show ?thesis by (simp add: selectPair_None)
next
  case (Some ut)
  obtain u t where ut: "ut = (u, t)" by (cases ut)
  with Some assms have r: "SelectProposal ordE ordB (Some ours) (Some theirs) =
      Inr (extractSelected (ordE u) u t, buildSelectedProposal (ordB u) t u)"
    by (simp add: SelectProposal_def)
  from selectPair_Some [OF Some [unfolded ut]] obtain i j where
    ij: "i < length (Proposals ours)" "j < length (Proposals theirs)" "Proposals ours ! i = u" "Proposals theirs ! j = t"
      "acceptable u t" "\<forall>i' < i. \<forall>t'\<in>set (Proposals theirs). \<not> acceptable (Proposals ours ! i') t'"
      "\<forall>j' < j. \<not> acceptable u (Proposals theirs ! j')"
    by blast
  show ?thesis
    unfolding r sum.case prod.case Let_def
    using ij by (intro exI [of _ i] exI [of _ j] conjI) (simp_all add: buildSelectedProposal_def)
qed

theorem proposal_selection_witness:
  "\<exists>sel p. SelectProposal (groupKeys \<circ> Transforms) (groupKeys \<circ> Transforms) (Some DefaultESPProposals)
     (Some \<lparr>Proposals = [mkProposal 7 ProtocolESP [xform 1 12 128, xform 3 2 0, xform 5 0 0]]\<rparr>) = Inr (sel, p) \<and>
   propNumber p = 7 \<and> IntegID sel = 2"
proof -
  let ?o = "groupKeys \<circ> Transforms" and ?t = "mkProposal 7 ProtocolESP [xform 1 12 128, xform 3 2 0, xform 5 0 0]"
  have ne: "Proposals DefaultESPProposals \<noteq> []" "Proposals \<lparr>Proposals = [?t]\<rparr> \<noteq> []"
    by (simp_all add: DefaultESPProposals_def)
  have "case SelectProposal ?o ?o (Some DefaultESPProposals) (Some \<lparr>Proposals = [?t]\<rparr>) of
      Inl _ \<Rightarrow> False | Inr (sel, _) \<Rightarrow> IntegID sel = 2"
    by code_simp
  then obtain sel p where r: "SelectProposal ?o ?o (Some DefaultESPProposals) (Some \<lparr>Proposals = [?t]\<rparr>) = Inr (sel, p)"
    "IntegID sel = 2" by (auto split: sum.splits)
  from proposal_selection [OF ne, of ?o ?o] have "propNumber p = 7" unfolding r(1) by (auto simp: Let_def mkProposal_def)
  with r show ?thesis by blast
qed

section \<open>The answer and the keys\<close>

lemma group_unique:
  "distinct (map xfType xfs) \<Longrightarrow> groupTransforms xfs ty = [] \<or> (\<exists>x. groupTransforms xfs ty = [x])"
proof -
  assume d: "distinct (map xfType xfs)"
  have "groupTransforms xfs ty = filter ((=) ty \<circ> xfType) xfs"
    by (auto simp: groupTransforms_def intro!: filter_cong)
  then have "length (groupTransforms xfs ty) = count_list (map xfType xfs) ty"
    by (simp add: count_list_eq_length_filter filter_map)
  also have "\<dots> \<le> 1" using d by (induction xfs) (auto simp: count_list_0_iff)
  finally show ?thesis by (cases "groupTransforms xfs ty") auto
qed

definition pairFor :: "Proposal \<Rightarrow> Proposal \<Rightarrow> byte \<Rightarrow> (Transform \<times> Transform) option" where
  "pairFor u t ty = firstMatch (groupTransforms (Transforms u) ty) (groupTransforms (Transforms t) ty)"

lemma extractType_unique:
  assumes "distinct (map xfType (Transforms u))"
  shows "extractType u t ty sel = (case pairFor u t ty of None \<Rightarrow> sel | Some (a, b) \<Rightarrow> setSelected ty a b sel)"
  using group_unique [OF assms, of ty] by (auto simp: extractType_def pairFor_def split: option.splits)

definition keyLenOf :: "Transform \<times> Transform \<Rightarrow> u16" where
  "keyLenOf ab = (if KeyLength (fst ab) = 0 then KeyLength (snd ab) else KeyLength (fst ab))"

lemma extract_fields:
  assumes "distinct (map xfType (Transforms u))"
  defines "F \<equiv> \<lambda>t order ty get old. if ty \<in> set order then (case pairFor u t ty of None \<Rightarrow> old | Some ab \<Rightarrow> get ab) else old"
  shows
    "EncrID (fold (extractType u t) order s) = F t order 1 (xfID \<circ> fst) (EncrID s)"
    "EncrKeyLen (fold (extractType u t) order s) = F t order 1 keyLenOf (EncrKeyLen s)"
    "PRFID (fold (extractType u t) order s) = F t order 2 (xfID \<circ> fst) (PRFID s)"
    "IntegID (fold (extractType u t) order s) = F t order 3 (xfID \<circ> fst) (IntegID s)"
    "DHID (fold (extractType u t) order s) = F t order 4 (xfID \<circ> fst) (DHID s)"
    "ESN (fold (extractType u t) order s) = F t order 5 (xfID \<circ> fst) (ESN s)"
  by (induction order arbitrary: s)
    (auto simp: F_def extractType_unique [OF assms(1)] setSelected_def keyLenOf_def split: option.splits)

lemma firstMatch_Some:
  "firstMatch us ts = Some (a, b) \<Longrightarrow> a \<in> set us \<and> b \<in> set ts \<and> transformMatch a b"
  by (induction us) (auto split: option.splits simp: find_Some_iff)

lemma firstMatch_None: "firstMatch us ts = None \<longleftrightarrow> \<not> hasMatchingTransform us ts"
  by (induction us) (auto simp: hasMatchingTransform_def find_None_iff split: option.splits dest!: find_SomeD)

lemma chosenTransform_pair:
  "chosenTransform t u ty =
     (case pairFor u t ty of None \<Rightarrow> [] | Some ab \<Rightarrow> [xform ty (xfID (fst ab)) (keyLenOf ab)])"
  by (simp add: chosenTransform_def pairFor_def keyLenOf_def split: option.splits prod.splits)

text \<open>The transform of a type in a proposal.\<close>

definition algorithm :: "Proposal \<Rightarrow> byte \<Rightarrow> Transform option" where
  "algorithm p ty = find (\<lambda>xf. xfType xf = ty) (Transforms p)"

lemma algorithm_built:
  "algorithm (buildSelectedProposal order t u) ty =
     (if ty \<in> set order then map_option (\<lambda>ab. xform ty (xfID (fst ab)) (keyLenOf ab)) (pairFor u t ty) else None)"
proof -
  have "find (\<lambda>xf. xfType xf = ty) (concat (map (chosenTransform t u) order)) =
      (if ty \<in> set order then map_option (\<lambda>ab. xform ty (xfID (fst ab)) (keyLenOf ab)) (pairFor u t ty) else None)"
    by (induction order) (auto simp: chosenTransform_pair xform_def split: option.splits)
  then show ?thesis by (simp add: algorithm_def buildSelectedProposal_def)
qed

definition idOf :: "Transform option \<Rightarrow> u16" where
  "idOf x = (case x of None \<Rightarrow> 0 | Some xf \<Rightarrow> xfID xf)"

definition keyOf :: "Transform option \<Rightarrow> u16" where
  "keyOf x = (case x of None \<Rightarrow> 0 | Some xf \<Rightarrow> KeyLength xf)"

lemma idOf_built:
  "idOf (algorithm (buildSelectedProposal order t u) ty) =
     (if ty \<in> set order then (case pairFor u t ty of None \<Rightarrow> 0 | Some ab \<Rightarrow> xfID (fst ab)) else 0)"
  "keyOf (algorithm (buildSelectedProposal order t u) ty) =
     (if ty \<in> set order then (case pairFor u t ty of None \<Rightarrow> 0 | Some ab \<Rightarrow> keyLenOf ab) else 0)"
  by (simp_all add: algorithm_built idOf_def keyOf_def xform_def split: option.splits)

text \<open>
  The responder's answer and the algorithms it sets up agree: when the local proposal has
  one transform of each type (which every default and every parsed configuration has), the
  identifiers and the key length that \<open>extractSelected\<close> records are those of the transforms
  that \<open>buildSelectedProposal\<close> announces to the peer, in whatever orders the two functions
  iterate over their maps.
\<close>

theorem answer_matches_selection:
  assumes "distinct (map xfType (Transforms u))" and "set ordE = xfType ` set (Transforms u)"
    and "set ordB = xfType ` set (Transforms u)"
  shows "let sel = extractSelected ordE u t; p = buildSelectedProposal ordB t u in
    EncrID sel = idOf (algorithm p TransformTypeENCR) \<and> EncrKeyLen sel = keyOf (algorithm p TransformTypeENCR) \<and>
    PRFID sel = idOf (algorithm p TransformTypePRF) \<and> IntegID sel = idOf (algorithm p TransformTypeINTG) \<and>
    DHID sel = idOf (algorithm p TransformTypeDH) \<and> ESN sel = idOf (algorithm p TransformTypeESN)"
  unfolding Let_def extractSelected_def extract_fields [OF assms(1)] idOf_built assms(2,3)
  by (simp split: option.split)

theorem answer_matches_selection_witness:
  "let u = mkProposal 3 ProtocolESP [xform 1 12 0, xform 3 12 0, xform 5 0 0]; t = mkProposal 1 ProtocolESP [xform 5 0 0, xform 1 12 256]
   in EncrKeyLen (extractSelected [5, 3, 1] u t) = 256 \<and>
      EncrKeyLen (extractSelected [5, 3, 1] u t) = keyOf (algorithm (buildSelectedProposal [1, 3, 5] t u) TransformTypeENCR)"
  using answer_matches_selection [of "mkProposal 3 ProtocolESP [xform 1 12 0, xform 3 12 0, xform 5 0 0]" "[5, 3, 1]" "[1, 3, 5]"
      "mkProposal 1 ProtocolESP [xform 5 0 0, xform 1 12 256]"]
  by (auto simp: Let_def mkProposal_def xform_def extractSelected_def extractType_def groupTransforms_def
      transformMatch_def setSelected_def)

section \<open>What an answer may lack\<close>

definition dropINTG :: "Proposal \<Rightarrow> Proposal" where
  "dropINTG p = p\<lparr>Transforms := filter (\<lambda>xf. xfType xf \<noteq> TransformTypeINTG) (Transforms p)\<rparr>"

lemma dropINTG_group:
  "ty \<noteq> TransformTypeINTG \<Longrightarrow> groupTransforms (Transforms (dropINTG p)) ty = groupTransforms (Transforms p) ty"
  "groupTransforms (Transforms (dropINTG p)) TransformTypeINTG = []"
  "set (groupKeys (Transforms (dropINTG p))) = set (groupKeys (Transforms p)) - {TransformTypeINTG}"
  by (auto simp: dropINTG_def groupTransforms_def groupKeys_def filter_empty_conv intro!: filter_cong)

lemma proposalMatch_dropINTG:
  assumes "proposalMatch u t"
  shows "proposalMatch u (dropINTG t)"
  unfolding proposalMatch_def
proof
  fix ty assume ty: "ty \<in> set (groupKeys (Transforms u))"
  have m: "if ty \<notin> set (groupKeys (Transforms t)) then ty = TransformTypeINTG
      else hasMatchingTransform (groupTransforms (Transforms u) ty) (groupTransforms (Transforms t) ty)"
    using assms ty unfolding proposalMatch_def by blast
  show "if ty \<notin> set (groupKeys (Transforms (dropINTG t))) then ty = TransformTypeINTG
      else hasMatchingTransform (groupTransforms (Transforms u) ty) (groupTransforms (Transforms (dropINTG t)) ty)"
  proof (cases "ty = TransformTypeINTG")
    case True
    then show ?thesis by (simp add: dropINTG_group(3))
  next
    case False
    with m show ?thesis by (simp add: dropINTG_group)
  qed
qed

lemma extractType_dropINTG: "extractType u (dropINTG t) ty sel = (if ty = TransformTypeINTG then sel else extractType u t ty sel)"
proof -
  have id: "fold (\<lambda>u sel. sel) xs sel = sel" for xs :: "Transform list" by (induction xs) simp_all
  show ?thesis
  proof (cases "ty = TransformTypeINTG")
    case True
    then show ?thesis by (simp add: extractType_def dropINTG_group(2) id)
  next
    case False
    then show ?thesis by (simp add: extractType_def dropINTG_group(1))
  qed
qed

lemma IntegID_extractType: "ty \<noteq> TransformTypeINTG \<Longrightarrow> IntegID (extractType u t ty sel) = IntegID sel"
proof -
  assume ty: "ty \<noteq> TransformTypeINTG"
  have "IntegID (fold (\<lambda>a sel. case find (transformMatch a) ts of None \<Rightarrow> sel | Some b \<Rightarrow> setSelected ty a b sel) xs sel) =
      IntegID sel" for xs ts
    using ty by (induction xs arbitrary: sel) (auto simp: setSelected_def split: option.splits)
  then show ?thesis by (simp add: extractType_def)
qed

lemma IntegID_extract_dropINTG:
  "IntegID (fold (extractType u (dropINTG t)) order sel) = IntegID sel"
  by (induction order arbitrary: sel) (simp_all add: extractType_dropINTG IntegID_extractType)

text \<open>
  Integrity protection can be negotiated away. The integrity transform is optional in
  \<open>proposalMatch\<close> for every cipher, not only for the authenticated ones that its comment
  names: a peer whose offer is accepted may leave all its integrity transforms out, and the
  offer is accepted still, with no integrity algorithm selected and none in the answer.
\<close>

theorem integrity_can_be_dropped:
  assumes "propProtocolID u = propProtocolID t" and "proposalMatch u t"
  shows "\<exists>sel p. SelectProposal ordE ordB (Some \<lparr>Proposals = [u]\<rparr>) (Some \<lparr>Proposals = [dropINTG t]\<rparr>) = Inr (sel, p) \<and>
    IntegID sel = 0 \<and> algorithm p TransformTypeINTG = None"
proof -
  have m: "propProtocolID u = propProtocolID (dropINTG t)" "proposalMatch u (dropINTG t)"
    using assms proposalMatch_dropINTG by (simp_all add: dropINTG_def)
  have "firstMatch xs [] = None" for xs by (induction xs) simp_all
  then have "algorithm (buildSelectedProposal (ordB u) (dropINTG t) u) TransformTypeINTG = None"
    by (simp add: algorithm_built pairFor_def dropINTG_group(2))
  with m show ?thesis
    by (simp add: SelectProposal_def extractSelected_def IntegID_extract_dropINTG)
qed

theorem integrity_can_be_dropped_witness:
  "\<exists>sel p. SelectProposal (groupKeys \<circ> Transforms) (groupKeys \<circ> Transforms) (Some \<lparr>Proposals = [Proposals DefaultESPProposals ! 2]\<rparr>)
     (Some \<lparr>Proposals = [dropINTG (Proposals DefaultESPProposals ! 2)]\<rparr>) = Inr (sel, p) \<and> IntegID sel = 0 \<and>
     \<not> isAEADCipher (idOf (algorithm (Proposals DefaultESPProposals ! 2) TransformTypeENCR))"
proof -
  let ?u = "Proposals DefaultESPProposals ! 2" and ?o = "groupKeys \<circ> Transforms"
  have "proposalMatch ?u ?u" and n: "\<not> isAEADCipher (idOf (algorithm ?u TransformTypeENCR))" by code_simp+
  with integrity_can_be_dropped [of ?u ?u ?o ?o] show ?thesis by blast
qed

section \<open>Configured proposals\<close>

text \<open>The types of the transforms of a configured IKE proposal.\<close>

definition ikeShape :: "Proposal \<Rightarrow> bool" where
  "ikeShape p \<longleftrightarrow> propProtocolID p = ProtocolIKE \<and> map xfType (Transforms p) \<in> {[1, 2, 3, 4, 5], [1, 2, 4, 5], [1, 2, 3, 5], [1, 2, 5]} \<and>
     (algorithm p TransformTypeINTG = None \<longleftrightarrow> isAEADCipher (idOf (algorithm p TransformTypeENCR)))"

lemma parseHashToken_integ: "parseHashToken s = Inr (p, integ) \<Longrightarrow> integ \<noteq> 0"
  by (auto simp: parseHashToken_def Let_def split: if_splits)

lemma parseIKEPart_shape:
  assumes "parseIKEPart i part = Inr p"
  shows "ikeShape p \<and> propNumber p = of_nat (i + 1)"
proof -
  let ?tok = "splitOn (CHR ''-'') (TrimSpace part)"
  have long: "\<not> length ?tok < 2" using assms by (cases "length ?tok < 2") (simp_all add: parseIKEPart_def)
  obtain encr klen where e: "parseEncrToken (?tok ! 0) = Inr (encr, klen)"
    using assms long by (cases "parseEncrToken (?tok ! 0)") (auto simp: parseIKEPart_def)
  obtain prfID integ where h: "parseHashToken (?tok ! 1) = Inr (prfID, integ)"
    using assms long e by (cases "parseHashToken (?tok ! 1)") (auto simp: parseIKEPart_def)
  define dhr where "dhr = (if length ?tok \<ge> 3 then map_sum id (\<lambda>d. [xform TransformTypeDH d 0]) (parseDHToken (?tok ! 2)) else Inr [])"
  obtain dh where d: "dhr = Inr dh"
    using assms long e h by (cases dhr) (auto simp: parseIKEPart_def dhr_def Let_def)
  then have dh: "dh = [] \<or> (\<exists>d. dh = [xform TransformTypeDH d 0])"
    by (auto simp: dhr_def map_sum_def split: if_splits sum.splits)
  have p: "p = mkProposal (of_nat (i + 1)) ProtocolIKE (([xform TransformTypeENCR encr klen, xform TransformTypePRF prfID 0] @
      (if integ \<noteq> 0 \<and> \<not> isAEADCipher encr then [xform TransformTypeINTG integ 0] else [])) @
      dh @ [xform TransformTypeESN ESNNone 0])"
    using assms long d unfolding parseIKEPart_def Let_def dhr_def [symmetric] e h by simp
  have "integ \<noteq> 0" using h by (rule parseHashToken_integ)
  with dh show ?thesis
    by (auto simp: p ikeShape_def mkProposal_def xform_def algorithm_def idOf_def)
qed

lemma parseParts_nth:
  "parseParts f i parts = Inr ps \<Longrightarrow> length ps = length parts \<and> (\<forall>k < length ps. f (i + k) (parts ! k) = Inr (ps ! k))"
proof (induction parts arbitrary: i ps)
  case (Cons a parts)
  then obtain q qs where *: "f i a = Inr q" "parseParts f (Suc i) parts = Inr qs" "ps = q # qs"
    by (auto split: sum.splits)
  with Cons.IH [OF *(2)] show ?case by (auto simp: nth_Cons split: nat.split)
qed simp

lemma default_ike_shape: "\<forall>p\<in>set (Proposals DefaultIKEProposals). ikeShape p"
  by (simp add: DefaultIKEProposals_def ikeShape_def mkProposal_def xform_def algorithm_def idOf_def isAEADCipher_def)

text \<open>
  C40. Every proposal that \<open>ParseIKEString\<close> yields, from a configured string or as a default, has
  the protocol IKE, one encryption, one PRF, at most one DH and one ESN transform, and an
  integrity transform exactly when its cipher is not an authenticated one. So the hypothesis
  under which answer and keys agree holds for every configuration.
\<close>

theorem configured_ike_proposals:
  "\<forall>sa. ParseIKEString s = Inr sa \<longrightarrow> (\<forall>p\<in>set (Proposals sa). ikeShape p \<and> distinct (map xfType (Transforms p)))"
proof (intro allI impI)
  fix sa assume sa: "ParseIKEString s = Inr sa"
  have shape: "\<forall>p\<in>set (Proposals sa). ikeShape p"
  proof (cases "s = []")
    case True
    with sa default_ike_shape show ?thesis by (simp add: ParseIKEString_def)
  next
    case False
    with sa obtain ps where ps: "parseParts parseIKEPart 0 (splitOn (CHR '','') s) = Inr ps" "Proposals sa = ps"
      by (auto simp: ParseIKEString_def map_sum_def split: sum.splits)
    show ?thesis
    proof
      fix p assume "p \<in> set (Proposals sa)"
      then obtain k where "k < length ps" "p = ps ! k" by (auto simp: ps(2) in_set_conv_nth)
      with parseParts_nth [OF ps(1)] show "ikeShape p" using parseIKEPart_shape by blast
    qed
  qed
  have "ikeShape p \<Longrightarrow> distinct (map xfType (Transforms p))" for p by (auto simp: ikeShape_def)
  with shape show "\<forall>p\<in>set (Proposals sa). ikeShape p \<and> distinct (map xfType (Transforms p))" by blast
qed

theorem configured_ike_proposals_witness:
  "\<exists>sa. ParseIKEString ''aes256-sha256-modp2048, aes128gcm16-sha1'' = Inr sa \<and> length (Proposals sa) = 2 \<and>
     (\<forall>p\<in>set (Proposals sa). ikeShape p)"
proof -
  have "case ParseIKEString ''aes256-sha256-modp2048, aes128gcm16-sha1'' of
      Inl _ \<Rightarrow> False | Inr sa \<Rightarrow> length (Proposals sa) = 2" by code_simp
  then have "\<exists>sa. ParseIKEString ''aes256-sha256-modp2048, aes128gcm16-sha1'' = Inr sa \<and> length (Proposals sa) = 2"
    by (auto split: sum.splits)
  with configured_ike_proposals [of "''aes256-sha256-modp2048, aes128gcm16-sha1''"] show ?thesis by blast
qed

text \<open>
  The ESN transform is demanded of IKE proposals too, where no peer has a reason to send it
  (RFC 7296, 3.3.3, lists it for AH and ESP only): with whatever \<open>ike=\<close> configuration, an offer
  in which no proposal has an ESN transform is refused, whatever else it holds.
\<close>

theorem offer_without_esn_refused:
  assumes "ParseIKEString s = Inr ours"
    and "\<forall>t\<in>set (Proposals theirs). TransformTypeESN \<notin> xfType ` set (Transforms t)"
  shows "\<exists>e. SelectProposal ordE ordB (Some ours) (Some theirs) = Inl e"
proof -
  have "\<not> acceptable u t" if u: "u \<in> set (Proposals ours)" and t: "t \<in> set (Proposals theirs)" for u t
  proof -
    have "ikeShape u" using configured_ike_proposals [of s] assms(1) u by blast
    then have "TransformTypeESN \<in> set (map xfType (Transforms u))" by (auto simp: ikeShape_def)
    then have "TransformTypeESN \<in> set (groupKeys (Transforms u))" by (simp add: groupKeys_def)
    moreover have "TransformTypeESN \<notin> set (groupKeys (Transforms t))" using assms(2) t by (simp add: groupKeys_def)
    moreover have "(TransformTypeESN :: byte) \<noteq> TransformTypeINTG" by simp
    ultimately show ?thesis unfolding acceptable_def proposalMatch_def by meson
  qed
  then have "selectPair (Proposals ours) (Proposals theirs) = None" by (simp add: selectPair_None)
  then show ?thesis by (simp add: SelectProposal_def)
qed

theorem offer_without_esn_refused_witness:
  "\<exists>e. SelectProposal (groupKeys \<circ> Transforms) (groupKeys \<circ> Transforms) (Some DefaultIKEProposals)
     (Some \<lparr>Proposals = [mkProposal 1 ProtocolIKE [xform 1 20 256, xform 2 5 0, xform 4 20 0]]\<rparr>) = Inl e"
  by (rule offer_without_esn_refused [of "[]"])
    (simp_all add: ParseIKEString_def mkProposal_def xform_def)

section \<open>IKEv1\<close>

lemma selectV1Transform_Some:
  "selectV1Transform supported xfs = Some (supp, xf) \<Longrightarrow>
     supp \<in> set supported \<and> xf \<in> set xfs \<and> v1ConfigMatch supp (offeredV1 xf)"
  by (induction xfs) (auto split: option.splits dest!: find_SomeD)

lemma selectV1In_Some:
  "selectV1In supported ps = Some (supp, p, xf) \<Longrightarrow>
     supp \<in> set supported \<and> p \<in> set ps \<and> xf \<in> set (pv1Transforms p) \<and> v1ConfigMatch supp (offeredV1 xf)"
  by (induction ps) (auto split: option.splits prod.splits dest!: selectV1Transform_Some)

lemma selectV1_None:
  "\<forall>p\<in>set ps. \<forall>xf\<in>set (pv1Transforms p). \<forall>supp\<in>set supported. \<not> v1ConfigMatch supp (offeredV1 xf) \<Longrightarrow>
     selectV1In supported ps = None"
proof (induction ps)
  case (Cons p ps)
  have "selectV1Transform supported xfs = None"
    if "\<forall>xf\<in>set xfs. \<forall>supp\<in>set supported. \<not> v1ConfigMatch supp (offeredV1 xf)" for xfs
    using that by (induction xfs) (auto simp: find_None_iff split: option.splits dest!: find_SomeD)
  with Cons show ?case by simp
qed simp

text \<open>
  What IKEv1 phase 1 selects was offered and is supported: the configuration is one of the
  supported ones, it comes from a transform of a proposal of the offer, and cipher, hash,
  authentication method and group of the two are equal.
\<close>

theorem v1_selection_sound:
  assumes "SelectV1Proposal (Some sa) supported = Inr (cfg, p, xf)"
  shows "cfg \<in> set supported \<and> p \<in> set (sav1Proposals sa) \<and> xf \<in> set (pv1Transforms p) \<and>
    EncAlg cfg = ucast (tv1TransformID xf) \<and>
    HashAlg cfg = HashAlg (parseV1TransformAttrs (tv1Attributes xf)) \<and>
    AuthMethod cfg = AuthMethod (parseV1TransformAttrs (tv1Attributes xf)) \<and>
    v1DHGroup cfg = v1DHGroup (parseV1TransformAttrs (tv1Attributes xf))"
proof -
  have "selectV1In supported (sav1Proposals sa) = Some (cfg, p, xf)"
    using assms by (auto simp: SelectV1Proposal_def split: if_splits option.splits)
  from selectV1In_Some [OF this] show ?thesis by (simp add: v1ConfigMatch_def offeredV1_def)
qed

definition exampleV1Offer :: "byte \<Rightarrow> SAv1Payload" where
  "exampleV1Offer tid =
     \<lparr>sav1DOI = 1, sav1Situation = 1, sav1Proposals =
       [\<lparr>pv1Number = 1, pv1ProtocolID = 1, pv1SPI = [], pv1Transforms =
         [\<lparr>tv1Number = 1, tv1TransformID = tid, tv1Attributes =
           [\<lparr>attrType = 1, IsTV = True, attrValue = [0, 7]\<rparr>, \<lparr>attrType = 14, IsTV = True, attrValue = [1, 0]\<rparr>,
            \<lparr>attrType = 2, IsTV = True, attrValue = [0, 4]\<rparr>, \<lparr>attrType = 3, IsTV = True, attrValue = [0, 1]\<rparr>,
            \<lparr>attrType = 4, IsTV = True, attrValue = [0, 14]\<rparr>]\<rparr>]\<rparr>]\<rparr>"

theorem v1_selection_sound_witness:
  "\<exists>cfg p xf. SelectV1Proposal (Some (exampleV1Offer 7)) DefaultV1Phase1Configs = Inr (cfg, p, xf) \<and>
     HashAlg cfg = 4 \<and> cfg \<in> set DefaultV1Phase1Configs"
proof -
  have "case SelectV1Proposal (Some (exampleV1Offer 7)) DefaultV1Phase1Configs of Inl _ \<Rightarrow> False | Inr (cfg, _) \<Rightarrow> HashAlg cfg = 4"
    by code_simp
  then obtain cfg p xf where r: "SelectV1Proposal (Some (exampleV1Offer 7)) DefaultV1Phase1Configs = Inr (cfg, p, xf)" "HashAlg cfg = 4"
    by (auto split: sum.splits)
  from v1_selection_sound [OF r(1)] r show ?thesis by blast
qed

text \<open>
  The transform identifier of an IKEv1 phase 1 transform is KEY_IKE, 1, in every offer that
  follows RFC 2409; the cipher is the attribute 1. The selection overwrites the attribute with
  the identifier, and no supported configuration has the cipher 1: every such offer is refused,
  whatever its attributes are.
\<close>

theorem v1_standard_offer_refused:
  assumes "\<forall>p\<in>set (sav1Proposals sa). \<forall>xf\<in>set (pv1Transforms p). tv1TransformID xf = 1"
  shows "\<exists>e. SelectV1Proposal (Some sa) DefaultV1Phase1Configs = Inl e"
proof -
  have "\<forall>p\<in>set (sav1Proposals sa). \<forall>xf\<in>set (pv1Transforms p). \<forall>supp\<in>set DefaultV1Phase1Configs.
      \<not> v1ConfigMatch supp (offeredV1 xf)"
  proof (intro ballI)
    fix p xf supp assume *: "p \<in> set (sav1Proposals sa)" "xf \<in> set (pv1Transforms p)" "supp \<in> set DefaultV1Phase1Configs"
    have "EncAlg supp = 7 \<or> EncAlg supp = 5" using *(3) by (auto simp: DefaultV1Phase1Configs_def v1Config_def)
    moreover have "EncAlg (offeredV1 xf) = 1" using assms * by (simp add: offeredV1_def)
    ultimately show "\<not> v1ConfigMatch supp (offeredV1 xf)" by (auto simp: v1ConfigMatch_def)
  qed
  from selectV1_None [OF this] show ?thesis by (simp add: SelectV1Proposal_def)
qed

theorem v1_standard_offer_refused_witness:
  "\<exists>e. SelectV1Proposal (Some (exampleV1Offer 1)) DefaultV1Phase1Configs = Inl e"
  by (rule v1_standard_offer_refused) (simp add: exampleV1Offer_def)

end
