(* ===== verification/IkeCrypto.thy ===== *)
theory IkeCrypto
  imports IkeProposal EspPacket
begin

text \<open>
  The algorithms of the IKE SA (\<^verbatim>\<open>internal/ike/crypto.go\<close>): Diffie-Hellman groups, PRFs,
  integrity algorithms and ciphers. The block ciphers, AEADs, hashes and elliptic curves of
  Go's library are the interface values of \<^verbatim>\<open>EspSa\<close> and the record of curves below; CBC
  mode is the one of \<^verbatim>\<open>EspPacket\<close>. What \<^verbatim>\<open>crypto/rand\<close> delivers is an argument, \<^const>\<open>None\<close>
  where reading it fails.
\<close>

datatype crypto_error =
    UnsupportedAlg u16
  | RandFailed
  | CipherFailed
  | NotAligned nat
  | InvalidPadding nat
  | PaddingMismatch
  | GcmKeyTooShort nat
  | GcmAuthFailed
  | PeerKeyTooSmall
  | PeerKeyTooLarge
  | BadECKey
  | ECDHFailed
  | NonceRange nat
  | CryptoPanic

section \<open>Big integers\<close>

definition SetBytes :: "bytes \<Rightarrow> nat" where
  "SetBytes b = foldl (\<lambda>n x. n * 256 + unat x) 0 b"

fun intBytes :: "nat \<Rightarrow> bytes" where
  "intBytes n = (if n = 0 then [] else intBytes (n div 256) @ [of_nat (n mod 256)])"

declare intBytes.simps [simp del]

fun bigExp :: "nat \<Rightarrow> nat \<Rightarrow> nat \<Rightarrow> nat" where
  "bigExp x y m =
     (if y = 0 then 1 mod m
      else
      (let h = bigExp (x * x mod m) (y div 2) m
       in if y mod 2 = 1 then x * h mod m else h))"

declare bigExp.simps [simp del]

definition padToLen :: "bytes \<Rightarrow> nat \<Rightarrow> bytes" where
  "padToLen b n = (if length b \<ge> n then b else copy_at (n - length b) b (replicate n 0))"

section \<open>Diffie-Hellman groups\<close>

definition modpPrime1024 :: nat where
  "modpPrime1024 = 0xFFFFFFFFFFFFFFFFC90FDAA22168C234C4C6628B80DC1CD129024E088A67CC74020BBEA63B139B22514A08798E3404DDEF9519B3CD3A431B302B0A6DF25F14374FE1356D6D51C245E485B576625E7EC6F44C42E9A637ED6B0BFF5CB6F406B7EDEE386BFB5A899FA5AE9F24117C4B1FE649286651ECE65381FFFFFFFFFFFFFFFF"

definition modpPrime1536 :: nat where
  "modpPrime1536 = 0xFFFFFFFFFFFFFFFFC90FDAA22168C234C4C6628B80DC1CD129024E088A67CC74020BBEA63B139B22514A08798E3404DDEF9519B3CD3A431B302B0A6DF25F14374FE1356D6D51C245E485B576625E7EC6F44C42E9A637ED6B0BFF5CB6F406B7EDEE386BFB5A899FA5AE9F24117C4B1FE649286651ECE45B3DC2007CB8A163BF0598DA48361C55D39A69163FA8FD24CF5F83655D23DCA3AD961C62F356208552BB9ED529077096966D670C354E4ABC9804F1746C08CA237327FFFFFFFFFFFFFFFF"

definition modpPrime2048 :: nat where
  "modpPrime2048 = 0xFFFFFFFFFFFFFFFFC90FDAA22168C234C4C6628B80DC1CD129024E088A67CC74020BBEA63B139B22514A08798E3404DDEF9519B3CD3A431B302B0A6DF25F14374FE1356D6D51C245E485B576625E7EC6F44C42E9A637ED6B0BFF5CB6F406B7EDEE386BFB5A899FA5AE9F24117C4B1FE649286651ECE45B3DC2007CB8A163BF0598DA48361C55D39A69163FA8FD24CF5F83655D23DCA3AD961C62F356208552BB9ED529077096966D670C354E4ABC9804F1746C08CA18217C32905E462E36CE3BE39E772C180E86039B2783A2EC07A28FB5C55DF06F4C52C9DE2BCBF6955817183995497CEA956AE515D2261898FA051015728E5A8AACAA68FFFFFFFFFFFFFFFF"

text \<open>
  A curve of \<^verbatim>\<open>crypto/ecdh\<close>: from randomness to a private key and its uncompressed public
  key, the validation of either, and the shared secret.
\<close>

record ecdh_curve =
  ecGenerateKey :: "bytes \<Rightarrow> (bytes \<times> bytes) option"
  ecPrivateOk :: "bytes \<Rightarrow> bool"
  ecPublicOk :: "bytes \<Rightarrow> bool"
  ecECDH :: "bytes \<Rightarrow> bytes \<Rightarrow> bytes option"

record ecdh_lib =
  P256 :: ecdh_curve
  P384 :: ecdh_curve
  P521 :: ecdh_curve

datatype DHGroup =
    ModpGroup u16 nat nat
  | EcpGroup u16 ecdh_curve

definition NewDHGroup :: "ecdh_lib \<Rightarrow> u16 \<Rightarrow> crypto_error + DHGroup" where
  "NewDHGroup el i =
     (if i = DHGroup2 then Inr (ModpGroup DHGroup2 modpPrime1024 2)
      else if i = DHGroup5 then Inr (ModpGroup DHGroup5 modpPrime1536 2)
      else if i = DHGroup14 then Inr (ModpGroup DHGroup14 modpPrime2048 2)
      else if i = DHGroup19 then Inr (EcpGroup DHGroup19 (P256 el))
      else if i = DHGroup20 then Inr (EcpGroup DHGroup20 (P384 el))
      else if i = DHGroup21 then Inr (EcpGroup DHGroup21 (P521 el))
      else Inl (UnsupportedAlg i))"

fun bitLen :: "nat \<Rightarrow> nat" where
  "bitLen n = (if n = 0 then 0 else Suc (bitLen (n div 2)))"

declare bitLen.simps [simp del]

definition PublicKeySize :: "DHGroup \<Rightarrow> nat" where
  "PublicKeySize g =
     (case g of
        ModpGroup _ p _ \<Rightarrow> (bitLen p + 7) div 8
      | EcpGroup i _ \<Rightarrow>
          if i = DHGroup19 then 64 else if i = DHGroup20 then 96 else if i = DHGroup21 then 132 else 0)"

text \<open>The randomness of a key generation: the integer below \<open>p - 2\<close>, or the bytes.\<close>

definition GenerateKeypair :: "DHGroup \<Rightarrow> nat option \<Rightarrow> bytes \<Rightarrow> crypto_error + bytes \<times> bytes" where
  "GenerateKeypair g rint rbytes =
     (case g of
        ModpGroup i p gen \<Rightarrow>
          (case rint of
             None \<Rightarrow> Inl RandFailed
           | Some r \<Rightarrow>
               (let priv = r + 2; pub = bigExp gen priv p
                in Inr (padToLen (intBytes priv) (PublicKeySize g), padToLen (intBytes pub) (PublicKeySize g))))
      | EcpGroup i c \<Rightarrow>
          (case ecGenerateKey c rbytes of
             None \<Rightarrow> Inl RandFailed
           | Some (priv, ecdhPub) \<Rightarrow>
               Inr (priv, if length ecdhPub > 0 \<and> ecdhPub ! 0 = 0x04 then drop 1 ecdhPub else ecdhPub)))"

definition ComputeSharedSecret :: "DHGroup \<Rightarrow> bytes \<Rightarrow> bytes \<Rightarrow> crypto_error + bytes" where
  "ComputeSharedSecret g privateKey peerPublic =
     (case g of
        ModpGroup i p gen \<Rightarrow>
          (let privInt = SetBytes privateKey; peerInt = SetBytes peerPublic in
           if peerInt < 2 then Inl PeerKeyTooSmall
           else if peerInt > p - 2 then Inl PeerKeyTooLarge
           else Inr (padToLen (intBytes (bigExp peerInt privInt p)) (PublicKeySize g)))
      | EcpGroup i c \<Rightarrow>
          if \<not> ecPrivateOk c privateKey then Inl BadECKey
          else
          (let uncompressed = 0x04 # peerPublic in
           if \<not> ecPublicOk c uncompressed then Inl BadECKey
           else (case ecECDH c privateKey uncompressed of None \<Rightarrow> Inl ECDHFailed | Some s \<Rightarrow> Inr s)))"

section \<open>PRFs and integrity algorithms\<close>

record PRFAlgorithm =
  prfID :: u16
  prfHash :: hash_alg
  prfKeySize :: nat
  prfOutSize :: nat

definition NewPRF :: "u16 \<Rightarrow> crypto_error + PRFAlgorithm" where
  "NewPRF i =
     (if i = PRFHMAC_SHA1 then Inr \<lparr>prfID = i, prfHash = SHA1, prfKeySize = 20, prfOutSize = 20\<rparr>
      else if i = PRFHMAC_SHA256 then Inr \<lparr>prfID = i, prfHash = SHA256, prfKeySize = 32, prfOutSize = 32\<rparr>
      else if i = PRFHMAC_SHA384 then Inr \<lparr>prfID = i, prfHash = SHA384, prfKeySize = 48, prfOutSize = 48\<rparr>
      else if i = PRFHMAC_SHA512 then Inr \<lparr>prfID = i, prfHash = SHA512, prfKeySize = 64, prfOutSize = 64\<rparr>
      else Inl (UnsupportedAlg i))"

definition prfCompute :: "hmac_fun \<Rightarrow> PRFAlgorithm \<Rightarrow> bytes \<Rightarrow> bytes \<Rightarrow> bytes" where
  "prfCompute hmac p key data = hmac (prfHash p) key data"

record IkeIntegrity =
  iiID :: u16
  iiHash :: hash_alg
  iiKeySize :: nat
  iiTruncLen :: nat

definition NewIkeIntegrity :: "u16 \<Rightarrow> crypto_error + IkeIntegrity" where
  "NewIkeIntegrity i =
     (if i = AuthHMAC_SHA1_96 then Inr \<lparr>iiID = i, iiHash = SHA1, iiKeySize = 20, iiTruncLen = 12\<rparr>
      else if i = AuthHMAC_SHA256_128 then Inr \<lparr>iiID = i, iiHash = SHA256, iiKeySize = 32, iiTruncLen = 16\<rparr>
      else if i = AuthHMAC_SHA384_192 then Inr \<lparr>iiID = i, iiHash = SHA384, iiKeySize = 48, iiTruncLen = 24\<rparr>
      else if i = AuthHMAC_SHA512_256 then Inr \<lparr>iiID = i, iiHash = SHA512, iiKeySize = 64, iiTruncLen = 32\<rparr>
      else Inl (UnsupportedAlg i))"

definition ikeICV :: "hmac_fun \<Rightarrow> IkeIntegrity \<Rightarrow> bytes \<Rightarrow> bytes \<Rightarrow> bytes" where
  "ikeICV hmac ii key data = take (iiTruncLen ii) (hmac (iiHash ii) key data)"

definition ikeVerify :: "hmac_fun \<Rightarrow> IkeIntegrity \<Rightarrow> bytes \<Rightarrow> bytes \<Rightarrow> bytes \<Rightarrow> bool" where
  "ikeVerify hmac ii key data expected \<longleftrightarrow> ikeICV hmac ii key data = expected"

section \<open>Ciphers\<close>

datatype IKEEncryptor =
    AesCBC u16 nat
  | AesGCM u16 nat

definition NewIKEEncryptor :: "u16 \<Rightarrow> u16 \<Rightarrow> crypto_error + IKEEncryptor" where
  "NewIKEEncryptor i keyLen =
     (if i = EncrAES_CBC then
        (let ks = unat (keyLen div 8) in Inr (AesCBC i (if ks = 0 then 16 else ks)))
      else if i = EncrAES_GCM_16 then
        (let ks = unat (keyLen div 8) in Inr (AesGCM i (if ks = 0 then 32 else ks)))
      else if i = Encr3DES then Inr (AesCBC i 24)
      else Inl (UnsupportedAlg i))"

definition encKeySize :: "IKEEncryptor \<Rightarrow> nat" where
  "encKeySize e = (case e of AesCBC _ ks \<Rightarrow> ks | AesGCM _ ks \<Rightarrow> ks)"

definition encIVSize :: "IKEEncryptor \<Rightarrow> nat" where
  "encIVSize e = (case e of AesCBC _ _ \<Rightarrow> aesBlockSize | AesGCM _ _ \<Rightarrow> 8)"

definition encBlockSize :: "IKEEncryptor \<Rightarrow> nat" where
  "encBlockSize e = (case e of AesCBC _ _ \<Rightarrow> aesBlockSize | AesGCM _ _ \<Rightarrow> 1)"

definition encIsAEAD :: "IKEEncryptor \<Rightarrow> bool" where
  "encIsAEAD e = (case e of AesCBC _ _ \<Rightarrow> False | AesGCM _ _ \<Rightarrow> True)"

definition pkcs7Pad :: "bytes \<Rightarrow> bytes" where
  "pkcs7Pad plaintext =
     (let padLen = aesBlockSize - length plaintext mod aesBlockSize
      in plaintext @ replicate padLen (of_nat padLen))"

definition pkcs7Strip :: "bytes \<Rightarrow> crypto_error + bytes" where
  "pkcs7Strip plaintext =
     (if plaintext = [] then Inr []
      else
      (let padLen = unat (last plaintext) in
       if padLen < 1 \<or> padLen > aesBlockSize \<or> padLen > length plaintext then Inl (InvalidPadding padLen)
       else if \<exists>x\<in>set (drop (length plaintext - padLen) plaintext). x \<noteq> of_nat padLen then Inl PaddingMismatch
       else Inr (take (length plaintext - padLen) plaintext)))"

text \<open>\<^verbatim>\<open>NewCBCEncrypter\<close> and \<^verbatim>\<open>NewCBCDecrypter\<close> panic on an IV that is not one block.\<close>

definition cbcSeal :: "crypto_lib \<Rightarrow> bytes \<Rightarrow> bytes \<Rightarrow> bytes \<Rightarrow> crypto_error + bytes" where
  "cbcSeal cl key iv plaintext =
     (case aesNewCipher cl key of
        None \<Rightarrow> Inl CipherFailed
      | Some b \<Rightarrow>
          if length iv \<noteq> aesBlockSize then Inl CryptoPanic
          else Inr (cbcEncrypt b iv (pkcs7Pad plaintext)))"

definition cbcOpen :: "crypto_lib \<Rightarrow> bytes \<Rightarrow> bytes \<Rightarrow> bytes \<Rightarrow> crypto_error + bytes" where
  "cbcOpen cl key iv ciphertext =
     (case aesNewCipher cl key of
        None \<Rightarrow> Inl CipherFailed
      | Some b \<Rightarrow>
          if length ciphertext mod aesBlockSize \<noteq> 0 then Inl (NotAligned (length ciphertext))
          else if length iv \<noteq> aesBlockSize then Inl CryptoPanic
          else pkcs7Strip (cbcDecrypt b iv ciphertext))"

definition gcmInit :: "crypto_lib \<Rightarrow> nat \<Rightarrow> bytes \<Rightarrow> crypto_error + aead \<times> bytes" where
  "gcmInit cl keySize key =
     (if length key < keySize + 4 then Inl (GcmKeyTooShort (length key))
      else
      (case aesNewCipher cl (slice 0 keySize key) of
         None \<Rightarrow> Inl CipherFailed
       | Some b \<Rightarrow>
           (case cipherNewGCM cl b of
              None \<Rightarrow> Inl CipherFailed
            | Some a \<Rightarrow> Inr (a, slice keySize (keySize + 4) key))))"

definition gcmNonce :: "bytes \<Rightarrow> bytes \<Rightarrow> bytes" where
  "gcmNonce salt iv = copy_at 4 iv (copy_at 0 salt (replicate 12 0))"

definition EncryptWith :: "crypto_lib \<Rightarrow> IKEEncryptor \<Rightarrow> bytes \<Rightarrow> bytes \<Rightarrow> bytes \<Rightarrow> bytes \<Rightarrow> crypto_error + bytes" where
  "EncryptWith cl e key iv plaintext aad =
     (case e of
        AesCBC _ _ \<Rightarrow> cbcSeal cl key iv plaintext
      | AesGCM _ ks \<Rightarrow>
          (case gcmInit cl ks key of
             Inl err \<Rightarrow> Inl err
           | Inr (a, salt) \<Rightarrow> Inr (Seal a (gcmNonce salt iv) plaintext aad)))"

definition DecryptWith :: "crypto_lib \<Rightarrow> IKEEncryptor \<Rightarrow> bytes \<Rightarrow> bytes \<Rightarrow> bytes \<Rightarrow> bytes \<Rightarrow> crypto_error + bytes" where
  "DecryptWith cl e key iv ciphertext aad =
     (case e of
        AesCBC _ _ \<Rightarrow> cbcOpen cl key iv ciphertext
      | AesGCM _ ks \<Rightarrow>
          (case gcmInit cl ks key of
             Inl err \<Rightarrow> Inl err
           | Inr (a, salt) \<Rightarrow>
               (case Open a (gcmNonce salt iv) ciphertext aad of
                  None \<Rightarrow> Inl GcmAuthFailed
                | Some p \<Rightarrow> Inr p)))"

definition EncryptIKEv1Payload :: "crypto_lib \<Rightarrow> IKEEncryptor \<Rightarrow> bytes \<Rightarrow> bytes \<Rightarrow> bytes \<Rightarrow> crypto_error + bytes" where
  "EncryptIKEv1Payload cl e key iv plaintext = EncryptWith cl e key iv plaintext []"

definition DecryptIKEv1Payload :: "crypto_lib \<Rightarrow> IKEEncryptor \<Rightarrow> bytes \<Rightarrow> bytes \<Rightarrow> bytes \<Rightarrow> crypto_error + bytes" where
  "DecryptIKEv1Payload cl e key iv ciphertext = DecryptWith cl e key iv ciphertext []"

section \<open>Random values\<close>

definition GenerateNonce :: "bytes option \<Rightarrow> nat \<Rightarrow> crypto_error + bytes" where
  "GenerateNonce rnd len =
     (if len < 16 \<or> len > 256 then Inl (NonceRange len)
      else (case rnd of None \<Rightarrow> Inl RandFailed | Some b \<Rightarrow> Inr b))"

text \<open>The successive 8-byte draws; \<^const>\<open>None\<close> as a result means that the loop has not ended yet.\<close>

fun GenerateIKESPI :: "bytes option list \<Rightarrow> (crypto_error + bytes) option" where
  "GenerateIKESPI [] = None"
| "GenerateIKESPI (None # _) = Some (Inl RandFailed)"
| "GenerateIKESPI (Some spi # draws) =
     (if \<exists>b\<in>set spi. b \<noteq> 0 then Some (Inr spi) else GenerateIKESPI draws)"

section \<open>Numbers and bytes\<close>

lemma bigExp_eq: "bigExp x y m = x ^ y mod m"
proof (induction x y m rule: bigExp.induct)
  case (1 x y m)
  show ?case
  proof (cases "y = 0")
    case True
    then show ?thesis by (simp add: bigExp.simps)
  next
    case False
    have h: "bigExp (x * x mod m) (y div 2) m = (x * x) ^ (y div 2) mod m"
      using 1 [OF False] by (simp add: power_mod)
    have y: "y = 2 * (y div 2) + y mod 2" by simp
    then have "x ^ y = (x * x) ^ (y div 2) * x ^ (y mod 2)"
      by (metis power_add power_mult power2_eq_square)
    then show ?thesis
      using False h by (cases "y mod 2 = 1") (simp_all add: bigExp.simps [of x y] Let_def mod_mult_right_eq mult.commute)
  qed
qed

lemma SetBytes_append: "SetBytes (a @ b) = SetBytes a * 256 ^ length b + SetBytes b"
proof -
  have "foldl (\<lambda>n x. n * 256 + unat x) i (b :: bytes) = i * 256 ^ length b + SetBytes b" for i b
  proof (induction b arbitrary: i rule: rev_induct)
    case (snoc x xs)
    from snoc [of i] snoc [of 0] show ?case by (simp add: SetBytes_def algebra_simps)
  qed (simp add: SetBytes_def)
  from this [of "SetBytes a" b] show ?thesis by (simp add: SetBytes_def)
qed

lemma SetBytes_intBytes: "SetBytes (intBytes n) = n"
proof (induction n rule: intBytes.induct)
  case (1 n)
  show ?case
  proof (cases "n = 0")
    case True
    then show ?thesis by (simp add: intBytes.simps SetBytes_def)
  next
    case False
    have "unat (of_nat (n mod 256) :: byte) = n mod 256" by (intro byte_of_nat_unat) simp
    with 1 False show ?thesis by (subst intBytes.simps) (simp add: SetBytes_append, simp add: SetBytes_def)
  qed
qed

lemma SetBytes_zeros: "SetBytes (replicate k 0) = 0"
  by (induction k) (simp_all add: SetBytes_def)

lemma padToLen_eq: "padToLen b n = replicate (n - length b) 0 @ b"
proof (cases "length b \<ge> n")
  case False
  then have "replicate n (0 :: byte) = replicate (n - length b) 0 @ replicate (length b) 0"
    by (simp add: replicate_add [symmetric])
  with False show ?thesis by (simp add: padToLen_def copy_at_def)
qed (simp add: padToLen_def)

lemma SetBytes_padToLen: "SetBytes (padToLen b n) = SetBytes b"
  by (simp add: padToLen_eq SetBytes_append SetBytes_zeros)

lemma length_intBytes: "n < 256 ^ k \<Longrightarrow> length (intBytes n) \<le> k"
proof (induction n arbitrary: k rule: intBytes.induct)
  case (1 n)
  show ?case
  proof (cases "n = 0")
    case True
    then show ?thesis by (simp add: intBytes.simps)
  next
    case False
    with "1.prems" obtain j where k: "k = Suc j" by (cases k) auto
    with "1.prems" have "n div 256 < 256 ^ j" by (simp add: less_mult_imp_div_less mult.commute)
    from "1.IH" [OF False this] False show ?thesis by (subst intBytes.simps) (simp add: k)
  qed
qed

lemma length_padToLen: "n < 256 ^ k \<Longrightarrow> length (padToLen (intBytes n) k) = k"
  using length_intBytes [of n k] by (simp add: padToLen_eq)

lemma less_bitLen: "n < 2 ^ bitLen n"
proof (induction n rule: bitLen.induct)
  case (1 n)
  show ?case
  proof (cases "n = 0")
    case True
    then show ?thesis by simp
  next
    case False
    from 1 [OF False] have "n div 2 < 2 ^ bitLen (n div 2)" .
    then have "n < 2 * 2 ^ bitLen (n div 2)" by linarith
    with False show ?thesis by (simp add: bitLen.simps [of n])
  qed
qed

lemma less_PublicKeySize: "p < 256 ^ PublicKeySize (ModpGroup i p gen)"
proof -
  have "bitLen p \<le> 8 * ((bitLen p + 7) div 8)" by linarith
  then have "(2 :: nat) ^ bitLen p \<le> 2 ^ (8 * ((bitLen p + 7) div 8))" by (intro power_increasing) simp_all
  then have "(2 :: nat) ^ bitLen p \<le> 256 ^ PublicKeySize (ModpGroup i p gen)"
    by (simp add: PublicKeySize_def power_mult)
  with less_bitLen [of p] show ?thesis by linarith
qed

text \<open>
  Both ends of a MODP key exchange compute the same secret. For every MODP group that
  \<open>NewDHGroup\<close> offers and all random values below \<open>p - 2\<close>: if each public key passes the
  range check of the other side, the two shared secrets are equal, they are the big-endian
  form of \<open>g\<close> to the product of the private exponents modulo \<open>p\<close>, and they have the length
  of a public key, as the public keys themselves have.
\<close>

theorem modp_agreement:
  assumes "p > 2" and "ra < p - 2" and "rb < p - 2"
    and "GenerateKeypair (ModpGroup i p gen) (Some ra) [] = Inr (privA, pubA)"
    and "GenerateKeypair (ModpGroup i p gen) (Some rb) [] = Inr (privB, pubB)"
    and "2 \<le> SetBytes pubA" "SetBytes pubA \<le> p - 2" "2 \<le> SetBytes pubB" "SetBytes pubB \<le> p - 2"
  shows "\<exists>s. ComputeSharedSecret (ModpGroup i p gen) privA pubB = Inr s \<and>
    ComputeSharedSecret (ModpGroup i p gen) privB pubA = Inr s \<and>
    SetBytes s = gen ^ ((ra + 2) * (rb + 2)) mod p \<and>
    length s = PublicKeySize (ModpGroup i p gen) \<and> length pubA = PublicKeySize (ModpGroup i p gen)"
proof -
  let ?k = "PublicKeySize (ModpGroup i p gen)"
  have a: "privA = padToLen (intBytes (ra + 2)) ?k" "pubA = padToLen (intBytes (bigExp gen (ra + 2) p)) ?k"
    and b: "privB = padToLen (intBytes (rb + 2)) ?k" "pubB = padToLen (intBytes (bigExp gen (rb + 2) p)) ?k"
    using assms(4,5) by (simp_all add: GenerateKeypair_def Let_def)
  have v: "SetBytes privA = ra + 2" "SetBytes privB = rb + 2"
    "SetBytes pubA = gen ^ (ra + 2) mod p" "SetBytes pubB = gen ^ (rb + 2) mod p"
    unfolding a b SetBytes_padToLen SetBytes_intBytes bigExp_eq by (rule refl)+
  let ?s = "gen ^ ((ra + 2) * (rb + 2)) mod p"
  have s: "bigExp (gen ^ (rb + 2) mod p) (ra + 2) p = ?s" "bigExp (gen ^ (ra + 2) mod p) (rb + 2) p = ?s"
    unfolding bigExp_eq power_mod power_mult [symmetric] by (simp_all only: mult.commute)
  have less: "x mod p < 256 ^ ?k" for x
  proof -
    have "x mod p < p" using assms(1) by simp
    with less_PublicKeySize [of p i gen] show ?thesis by linarith
  qed
  have l: "length (padToLen (intBytes ?s) ?k) = ?k" "length pubA = ?k"
    unfolding a bigExp_eq by (rule length_padToLen, rule less)+
  have "ComputeSharedSecret (ModpGroup i p gen) privA pubB = Inr (padToLen (intBytes ?s) ?k)"
    "ComputeSharedSecret (ModpGroup i p gen) privB pubA = Inr (padToLen (intBytes ?s) ?k)"
    using assms(6-9) unfolding ComputeSharedSecret_def DHGroup.case Let_def v s by simp_all
  then show ?thesis using l by (simp add: SetBytes_padToLen SetBytes_intBytes)
qed

theorem modp_agreement_witness:
  "\<exists>s. ComputeSharedSecret (ModpGroup 2 23 5) [6] [19] = Inr s \<and>
     ComputeSharedSecret (ModpGroup 2 23 5) [15] [8] = Inr s"
proof -
  have "GenerateKeypair (ModpGroup 2 23 5) (Some 4) [] = Inr ([6], [8])"
    "GenerateKeypair (ModpGroup 2 23 5) (Some 13) [] = Inr ([15], [19])" by code_simp+
  from modp_agreement [OF _ _ _ this] show ?thesis by (auto simp: SetBytes_def)
qed

section \<open>Key agreement in every group\<close>

text \<open>
  What \<^verbatim>\<open>crypto/rand\<close> and \<^verbatim>\<open>crypto/ecdh\<close> document: a draw is below its bound; a generated key
  pair is valid, its public key is an uncompressed point, and the two sides of an exchange compute
  the same secret.
\<close>

definition draw_ok :: "DHGroup \<Rightarrow> nat option \<Rightarrow> bool" where
  "draw_ok g rint \<longleftrightarrow> (case g of ModpGroup _ p _ \<Rightarrow> (\<forall>r. rint = Some r \<longrightarrow> r < p - 2) | EcpGroup _ _ \<Rightarrow> True)"

definition curve_ok :: "ecdh_curve \<Rightarrow> bool" where
  "curve_ok c \<longleftrightarrow>
     (\<forall>ra privA pubA. ecGenerateKey c ra = Some (privA, pubA) \<longrightarrow>
        ecPrivateOk c privA \<and> ecPublicOk c pubA \<and> (\<exists>xy. pubA = 0x04 # xy) \<and>
        (\<forall>rb privB pubB. ecGenerateKey c rb = Some (privB, pubB) \<longrightarrow>
           (\<exists>s. ecECDH c privA pubB = Some s \<and> ecECDH c privB pubA = Some s)))"

definition group_ok :: "DHGroup \<Rightarrow> bool" where
  "group_ok g \<longleftrightarrow> (case g of ModpGroup _ p _ \<Rightarrow> 2 < p | EcpGroup _ c \<Rightarrow> curve_ok c)"

text \<open>The range that the receiver of a MODP public key asks for.\<close>

definition in_range :: "DHGroup \<Rightarrow> bytes \<Rightarrow> bool" where
  "in_range g pub \<longleftrightarrow> (case g of ModpGroup _ p _ \<Rightarrow> 2 \<le> SetBytes pub \<and> SetBytes pub \<le> p - 2 | EcpGroup _ _ \<Rightarrow> True)"

text \<open>
  The secret of a private key and a peer's public value, as the RFCs define it: the power modulo
  the prime, in the length of the prime (RFC 3526); the output of the curve for the point with
  these coordinates (RFC 5903).
\<close>

definition dh_secret :: "DHGroup \<Rightarrow> bytes \<Rightarrow> bytes \<Rightarrow> bytes \<Rightarrow> bool" where
  "dh_secret g priv pub s \<longleftrightarrow>
     (case g of
        ModpGroup _ p _ \<Rightarrow> SetBytes s = SetBytes pub ^ SetBytes priv mod p \<and> length s = (bitLen p + 7) div 8
      | EcpGroup _ c \<Rightarrow> ecECDH c priv (0x04 # pub) = Some s)"

lemma ComputeSharedSecret_dh_secret:
  assumes "ComputeSharedSecret g priv pub = Inr s" and "group_ok g"
  shows "dh_secret g priv pub s" and "in_range g pub"
proof -
  have "dh_secret g priv pub s \<and> in_range g pub"
  proof (cases g)
    case (ModpGroup i p gen)
    have s: "s = padToLen (intBytes (SetBytes pub ^ SetBytes priv mod p)) (PublicKeySize (ModpGroup i p gen))"
      and r: "in_range g pub"
      using assms(1) ModpGroup
      by (auto simp: ComputeSharedSecret_def Let_def bigExp_eq in_range_def not_less split: if_splits)
    have "SetBytes pub ^ SetBytes priv mod p < p" using assms(2) ModpGroup by (simp add: group_ok_def)
    with less_PublicKeySize [of p i gen]
    have "SetBytes pub ^ SetBytes priv mod p < 256 ^ PublicKeySize (ModpGroup i p gen)" by linarith
    from length_padToLen [OF this] r show ?thesis
      unfolding s ModpGroup dh_secret_def by (simp add: SetBytes_padToLen SetBytes_intBytes) (simp add: PublicKeySize_def)
  next
    case (EcpGroup i c)
    with assms(1) show ?thesis
      by (auto simp: ComputeSharedSecret_def Let_def dh_secret_def in_range_def split: if_splits option.splits)
  qed
  then show "dh_secret g priv pub s" and "in_range g pub" by simp_all
qed

lemma dh_agreement:
  assumes "group_ok g" and "draw_ok g ra" and "draw_ok g rb"
    and "GenerateKeypair g ra ba = Inr (privA, pubA)" and "GenerateKeypair g rb bb = Inr (privB, pubB)"
    and "in_range g pubA" and "in_range g pubB"
  shows "\<exists>s. ComputeSharedSecret g privA pubB = Inr s \<and> ComputeSharedSecret g privB pubA = Inr s"
proof (cases g)
  case (ModpGroup i p gen)
  obtain xa xb where x: "ra = Some xa" "rb = Some xb"
    using assms(4,5) ModpGroup by (cases ra; cases rb) (auto simp: GenerateKeypair_def)
  have k: "GenerateKeypair (ModpGroup i p gen) (Some xa) [] = Inr (privA, pubA)"
    "GenerateKeypair (ModpGroup i p gen) (Some xb) [] = Inr (privB, pubB)"
    using assms(4,5) ModpGroup x by (simp_all add: GenerateKeypair_def Let_def)
  have "xa < p - 2" "xb < p - 2" "2 < p"
    using assms(1-3) ModpGroup x by (simp_all add: draw_ok_def group_ok_def)
  from modp_agreement [OF this(3,1,2) k] assms(6,7) ModpGroup show ?thesis by (auto simp: in_range_def)
next
  case (EcpGroup i c)
  have ok: "curve_ok c" using assms(1) EcpGroup by (simp add: group_ok_def)
  obtain a where a: "ecGenerateKey c ba = Some (privA, a)"
    "pubA = (if length a > 0 \<and> a ! 0 = 0x04 then drop 1 a else a)"
    using assms(4) EcpGroup by (auto simp: GenerateKeypair_def split: option.splits)
  obtain b where b: "ecGenerateKey c bb = Some (privB, b)"
    "pubB = (if length b > 0 \<and> b ! 0 = 0x04 then drop 1 b else b)"
    using assms(5) EcpGroup by (auto simp: GenerateKeypair_def split: option.splits)
  have A: "ecPrivateOk c privA" "ecPublicOk c a" "a = 0x04 # pubA"
    and B: "ecPrivateOk c privB" "ecPublicOk c b" "b = 0x04 # pubB"
    using ok a b by (fastforce simp: curve_ok_def)+
  obtain s where "ecECDH c privA b = Some s" "ecECDH c privB a = Some s"
    using ok a(1) b(1) by (fastforce simp: curve_ok_def)
  with EcpGroup A B show ?thesis by (simp add: ComputeSharedSecret_def Let_def)
qed

section \<open>Ciphers\<close>

text \<open>A key with which a cipher works, given the documented behaviour of the library's primitives.\<close>

definition cipherOk :: "crypto_lib \<Rightarrow> IKEEncryptor \<Rightarrow> bytes \<Rightarrow> bool" where
  "cipherOk cl e key \<longleftrightarrow>
     (case e of
        AesCBC _ _ \<Rightarrow> (\<exists>b. aesNewCipher cl key = Some b \<and> block_ok b)
      | AesGCM _ ks \<Rightarrow> (\<exists>a salt. gcmInit cl ks key = Inr (a, salt) \<and> aead_ok a))"

lemma pkcs7_roundtrip: "pkcs7Strip (pkcs7Pad p) = Inr p" "16 dvd length (pkcs7Pad p)"
proof -
  define k where "k = 16 - length p mod 16"
  have k: "0 < k" "k \<le> 16" by (simp_all add: k_def)
  have e: "pkcs7Pad p = p @ replicate k (of_nat k)" by (simp add: pkcs7Pad_def Let_def aesBlockSize_def k_def)
  have u: "unat (of_nat k :: byte) = k" using k by (intro byte_of_nat_unat) linarith
  have l: "last (p @ replicate k (of_nat k :: byte)) = of_nat k" using k by simp
  show "pkcs7Strip (pkcs7Pad p) = Inr p"
    unfolding pkcs7Strip_def e Let_def aesBlockSize_def l u using k by simp
  have "k + length p mod 16 = 16" by (simp add: k_def)
  then have "16 dvd length p + k" by presburger
  then show "16 dvd length (pkcs7Pad p)" by (simp add: e)
qed

lemma gcmInit_salt: "gcmInit cl ks key = Inr (a, salt) \<Longrightarrow> length salt = 4"
  by (auto simp: gcmInit_def split: if_splits option.splits)

lemma gcmNonce_eq: "length salt = 4 \<Longrightarrow> length iv = 8 \<Longrightarrow> gcmNonce salt iv = salt @ iv"
  by (simp add: gcmNonce_def copy_at_def)

lemma decrypt_encrypt:
  assumes "cipherOk cl e key" and "length iv = encIVSize e"
  shows "\<exists>c. EncryptWith cl e key iv p aad = Inr c \<and> DecryptWith cl e key iv c aad = Inr p \<and> c \<noteq> []"
proof (cases e)
  case (AesCBC i ks)
  then obtain b where b: "aesNewCipher cl key = Some b" "block_ok b" using assms(1) by (auto simp: cipherOk_def)
  have iv: "length iv = 16" using assms(2) AesCBC by (simp add: encIVSize_def aesBlockSize_def)
  note rt = cbc_roundtrip [OF b(2) iv pkcs7_roundtrip(2) [of p]]
  have "length (pkcs7Pad p) mod 16 = 0" using pkcs7_roundtrip(2) by (simp add: mod_0_imp_dvd dvd_imp_mod_0)
  moreover have "pkcs7Pad p \<noteq> []" by (simp add: pkcs7Pad_def Let_def aesBlockSize_def)
  ultimately show ?thesis
    using AesCBC b iv rt pkcs7_roundtrip(1) [of p]
    by (auto simp: EncryptWith_def DecryptWith_def cbcSeal_def cbcOpen_def aesBlockSize_def)
next
  case (AesGCM i ks)
  then obtain a salt where a: "gcmInit cl ks key = Inr (a, salt)" "aead_ok a" using assms(1) by (auto simp: cipherOk_def)
  have n: "length (gcmNonce salt iv) = 12"
    using gcmInit_salt [OF a(1)] assms(2) AesGCM by (simp add: gcmNonce_eq encIVSize_def)
  with a(2) have "length (Seal a (gcmNonce salt iv) p aad) = length p + 16"
    "Open a (gcmNonce salt iv) (Seal a (gcmNonce salt iv) p aad) aad = Some p"
    by (simp_all add: aead_ok_def)
  then show ?thesis using AesGCM a(1) by (auto simp: EncryptWith_def DecryptWith_def)
qed

end
