(* ===== verification/IkeKeyDeriv.thy ===== *)
theory IkeKeyDeriv
  imports IkeCrypto
begin

text \<open>
  Key derivation (\<^verbatim>\<open>internal/ike/keyderiv.go\<close>): PRF+, the keys of an IKEv2 SA, of its
  successor and of a child SA, and the IKEv1 keys. Byte strings that the code assembles with
  \<^verbatim>\<open>make\<close> and \<^verbatim>\<open>copy\<close> are concatenations. HMAC is the parameter \<open>hmac\<close>.
\<close>

section \<open>PRF+\<close>

lemma unat_inc: "(c :: byte) + 1 \<noteq> 0 \<Longrightarrow> unat (c + 1) = Suc (unat c)"
  by (metis Suc_eq_plus1 add.commute unatSuc)

lemma inc_measure: "(c :: byte) + 1 \<noteq> 0 \<Longrightarrow> 256 - unat (c + 1) < 256 - unat c"
  using unat_inc [of c] byte_unat_less [of c] by linarith

text \<open>
  The loop of \<^verbatim>\<open>PRFPlus\<close>: one round per value of the one-byte counter, until there is enough
  or the counter has wrapped.
\<close>

function prfPlusLoop ::
  "hmac_fun \<Rightarrow> PRFAlgorithm \<Rightarrow> bytes \<Rightarrow> bytes \<Rightarrow> nat \<Rightarrow> bytes \<Rightarrow> bytes \<Rightarrow> byte \<Rightarrow> bytes" where
  "prfPlusLoop hmac prf key seed needed result prev counter =
     (if length result < needed then
        (let t = prfCompute hmac prf key (prev @ seed @ [counter]) in
         if counter + 1 = 0 then result @ t
         else prfPlusLoop hmac prf key seed needed (result @ t) t (counter + 1))
      else result)"
  by pat_completeness auto

termination
  by (relation "measure (\<lambda>(_, _, _, _, _, _, _, c). 256 - unat c)") (simp, simp only: in_measure prod.case, rule inc_measure)

declare prfPlusLoop.simps [simp del]

text \<open>
  \<^verbatim>\<open>result[:needed]\<close>. Past the length of the slice Go panics, or yields unset bytes when the
  capacity happens to reach that far; \<^const>\<open>None\<close> stands for both.
\<close>

definition PRFPlus :: "hmac_fun \<Rightarrow> PRFAlgorithm \<Rightarrow> bytes \<Rightarrow> bytes \<Rightarrow> nat \<Rightarrow> bytes option" where
  "PRFPlus hmac prf key seed needed = go_slice 0 needed (prfPlusLoop hmac prf key seed needed [] [] 1)"

section \<open>IKEv2 keys\<close>

record IKEv2KeyMaterial =
  SK_d :: bytes
  SK_ai :: bytes
  SK_ar :: bytes
  SK_ei :: bytes
  SK_er :: bytes
  SK_pi :: bytes
  SK_pr :: bytes

datatype derive_error = EmptySecret | DerivePanic

text \<open>The slicing of the key material that both derivations share.\<close>

definition splitKeymat :: "nat \<Rightarrow> nat \<Rightarrow> nat \<Rightarrow> bytes \<Rightarrow> IKEv2KeyMaterial" where
  "splitKeymat encKeyLen intKeyLen prfKeyLen keymat =
     (let o1 = prfKeyLen; o2 = o1 + intKeyLen; o3 = o2 + intKeyLen; o4 = o3 + encKeyLen; o5 = o4 + encKeyLen;
          o6 = o5 + prfKeyLen
      in \<lparr>SK_d = slice 0 o1 keymat, SK_ai = slice o1 o2 keymat, SK_ar = slice o2 o3 keymat,
          SK_ei = slice o3 o4 keymat, SK_er = slice o4 o5 keymat, SK_pi = slice o5 o6 keymat,
          SK_pr = slice o6 (o6 + prfKeyLen) keymat\<rparr>)"

definition totalKeymat :: "nat \<Rightarrow> nat \<Rightarrow> nat \<Rightarrow> nat" where
  "totalKeymat encKeyLen intKeyLen prfKeyLen = prfKeyLen + intKeyLen * 2 + encKeyLen * 2 + prfKeyLen * 2"

definition DeriveIKEv2Keys ::
  "hmac_fun \<Rightarrow> PRFAlgorithm \<Rightarrow> bytes \<Rightarrow> bytes \<Rightarrow> bytes \<Rightarrow> bytes \<Rightarrow> bytes \<Rightarrow> nat \<Rightarrow> nat \<Rightarrow> nat
   \<Rightarrow> derive_error + IKEv2KeyMaterial" where
  "DeriveIKEv2Keys hmac prf sharedSecret ni nr spiI spiR encKeyLen intKeyLen prfKeyLen =
     (if length sharedSecret = 0 then Inl EmptySecret
      else
      (let skeyseed = prfCompute hmac prf (ni @ nr) sharedSecret;
           seed = ni @ nr @ spiI @ spiR
       in
       case PRFPlus hmac prf skeyseed seed (totalKeymat encKeyLen intKeyLen prfKeyLen) of
         None \<Rightarrow> Inl DerivePanic
       | Some keymat \<Rightarrow> Inr (splitKeymat encKeyLen intKeyLen prfKeyLen keymat)))"

definition DeriveIKEv2RekeyKeys ::
  "hmac_fun \<Rightarrow> PRFAlgorithm \<Rightarrow> bytes \<Rightarrow> bytes \<Rightarrow> bytes \<Rightarrow> bytes \<Rightarrow> bytes \<Rightarrow> bytes \<Rightarrow> nat \<Rightarrow> nat \<Rightarrow> nat
   \<Rightarrow> derive_error + IKEv2KeyMaterial" where
  "DeriveIKEv2RekeyKeys hmac prf oldSKd newSharedSecret ni nr spiI spiR encKeyLen intKeyLen prfKeyLen =
     (let skeyseed = prfCompute hmac prf oldSKd (newSharedSecret @ ni @ nr);
          seed = ni @ nr @ spiI @ spiR
      in
      case PRFPlus hmac prf skeyseed seed (totalKeymat encKeyLen intKeyLen prfKeyLen) of
        None \<Rightarrow> Inl DerivePanic
      | Some keymat \<Rightarrow> Inr (splitKeymat encKeyLen intKeyLen prfKeyLen keymat))"

definition DeriveChildSAKeys ::
  "hmac_fun \<Rightarrow> PRFAlgorithm \<Rightarrow> bytes \<Rightarrow> bytes \<Rightarrow> bytes \<Rightarrow> bytes \<Rightarrow> nat \<Rightarrow> bytes option" where
  "DeriveChildSAKeys hmac prf skD ni nr dhShared neededBytes =
     PRFPlus hmac prf skD ((if length dhShared > 0 then dhShared else []) @ ni @ nr) neededBytes"

section \<open>IKEv1 keys\<close>

record IKEv1KeyMaterial =
  SKEYID :: bytes
  SKEYID_d :: bytes
  SKEYID_a :: bytes
  SKEYID_e :: bytes

definition DeriveIKEv1Keys ::
  "hmac_fun \<Rightarrow> PRFAlgorithm \<Rightarrow> bytes \<Rightarrow> bytes \<Rightarrow> bytes \<Rightarrow> bytes \<Rightarrow> bytes \<Rightarrow> bytes
   \<Rightarrow> derive_error + IKEv1KeyMaterial" where
  "DeriveIKEv1Keys hmac prf psk sharedSecret ni nr cookieI cookieR =
     (if length sharedSecret = 0 then Inl EmptySecret
      else
      (let skeyid = prfCompute hmac prf psk (ni @ nr);
           suffix = sharedSecret @ cookieI @ cookieR;
           skeyidD = prfCompute hmac prf skeyid (suffix @ [0]);
           skeyidA = prfCompute hmac prf skeyid (skeyidD @ suffix @ [1]);
           skeyidE = prfCompute hmac prf skeyid (skeyidA @ suffix @ [2])
       in Inr \<lparr>SKEYID = skeyid, SKEYID_d = skeyidD, SKEYID_a = skeyidA, SKEYID_e = skeyidE\<rparr>))"

text \<open>The expansion loop of quick mode, which ends only when the PRF yields something.\<close>

partial_function (option) quickModeLoop ::
  "hmac_fun \<Rightarrow> PRFAlgorithm \<Rightarrow> bytes \<Rightarrow> bytes \<Rightarrow> nat \<Rightarrow> bytes \<Rightarrow> bytes \<Rightarrow> bytes option" where
  "quickModeLoop hmac prf skeyidD seed needed result prev =
     (if length result < needed then
        (let k = prfCompute hmac prf skeyidD (prev @ seed)
         in quickModeLoop hmac prf skeyidD seed needed (result @ k) k)
      else Some result)"

definition DeriveIKEv1QuickModeKeys ::
  "hmac_fun \<Rightarrow> PRFAlgorithm \<Rightarrow> bytes \<Rightarrow> byte \<Rightarrow> bytes \<Rightarrow> bytes \<Rightarrow> bytes \<Rightarrow> bytes \<Rightarrow> nat \<Rightarrow> bytes option" where
  "DeriveIKEv1QuickModeKeys hmac prf skeyidD protocol spi ni nr dhShared neededBytes =
     (let seed = (if length dhShared > 0 then dhShared else []) @ [protocol] @ spi @ ni @ nr
      in map_option (take neededBytes) (quickModeLoop hmac prf skeyidD seed neededBytes [] []))"

section \<open>Documented behaviour of HMAC\<close>

definition hashSize :: "hash_alg \<Rightarrow> nat" where
  "hashSize h = (case h of SHA1 \<Rightarrow> 20 | SHA256 \<Rightarrow> 32 | SHA384 \<Rightarrow> 48 | SHA512 \<Rightarrow> 64)"

text \<open>The output of HMAC is as long as that of its hash.\<close>

definition hmac_ok :: "hmac_fun \<Rightarrow> bool" where
  "hmac_ok hmac \<longleftrightarrow> (\<forall>h k d. length (hmac h k d) = hashSize h)"

definition example_hmac :: hmac_fun where
  "example_hmac h k d = take (hashSize h) (d @ k @ replicate (hashSize h) 0)"

lemma example_hmac_ok [simp]: "hmac_ok example_hmac"
  unfolding hmac_ok_def example_hmac_def length_take length_append length_replicate by (intro allI) linarith

lemma hashSize_pos: "0 < hashSize h"
  by (cases h) (simp_all add: hashSize_def)

lemma length_prfCompute: "hmac_ok hmac \<Longrightarrow> length (prfCompute hmac prf k d) = hashSize (prfHash prf)"
  by (simp add: prfCompute_def hmac_ok_def)

lemma NewPRF_size: "NewPRF i = Inr prf \<Longrightarrow> prfOutSize prf = hashSize (prfHash prf) \<and> prfKeySize prf = hashSize (prfHash prf)"
  by (auto simp: NewPRF_def hashSize_def split: if_splits)

section \<open>PRF+ is the function of RFC 7296\<close>

fun blockT :: "hmac_fun \<Rightarrow> PRFAlgorithm \<Rightarrow> bytes \<Rightarrow> bytes \<Rightarrow> nat \<Rightarrow> bytes" where
  "blockT hmac prf key seed 0 = []"
| "blockT hmac prf key seed (Suc i) =
     prfCompute hmac prf key (blockT hmac prf key seed i @ seed @ [of_nat (Suc i)])"

definition keystream :: "hmac_fun \<Rightarrow> PRFAlgorithm \<Rightarrow> bytes \<Rightarrow> bytes \<Rightarrow> nat \<Rightarrow> bytes" where
  "keystream hmac prf key seed n = concat (map (\<lambda>i. blockT hmac prf key seed (Suc i)) [0..<n])"

lemma length_keystream:
  "hmac_ok hmac \<Longrightarrow> length (keystream hmac prf key seed n) = n * hashSize (prfHash prf)"
  by (induction n) (simp_all add: keystream_def length_prfCompute)

lemma keystream_Suc: "keystream hmac prf key seed (Suc n) = keystream hmac prf key seed n @ blockT hmac prf key seed (Suc n)"
  by (simp add: keystream_def)

lemma prfPlusLoop_keystream:
  "n < 255 \<Longrightarrow>
   \<exists>m. n \<le> m \<and> m \<le> 255 \<and>
     prfPlusLoop hmac prf key seed needed (keystream hmac prf key seed n) (blockT hmac prf key seed n) (of_nat (Suc n)) =
       keystream hmac prf key seed m \<and>
     (m = 255 \<or> needed \<le> length (keystream hmac prf key seed m))"
proof (induction "254 - n" arbitrary: n)
  case 0
  then have n: "n = 254" by simp
  let ?k = "keystream hmac prf key seed"
  show ?case
  proof (cases "length (?k n) < needed")
    case True
    then have "prfPlusLoop hmac prf key seed needed (?k n) (blockT hmac prf key seed n) (of_nat (Suc n)) = ?k (Suc n)"
      using keystream_Suc [of hmac "prf" key seed 254] blockT.simps(2) [of hmac "prf" key seed 254] by (subst prfPlusLoop.simps) (simp add: n Let_def)
    with n show ?thesis by (intro exI [of _ 255]) simp
  next
    case False
    then show ?thesis by (intro exI [of _ n]) (subst prfPlusLoop.simps, simp add: n)
  qed
next
  case (Suc x)
  then have n: "Suc n < 255" "x = 254 - Suc n" by linarith+
  let ?k = "keystream hmac prf key seed"
  have nz: "of_nat (Suc n) + 1 \<noteq> (0 :: byte)"
  proof -
    have "unat (of_nat (Suc (Suc n)) :: byte) = Suc (Suc n)" using n by (intro byte_of_nat_unat) simp
    then show ?thesis by (metis Suc_eq_plus1 add.commute nat.distinct(1) of_nat_Suc unat_0)
  qed
  have e: "of_nat (Suc n) + 1 = (of_nat (Suc (Suc n)) :: byte)" by simp
  show ?case
  proof (cases "length (?k n) < needed")
    case True
    then have "prfPlusLoop hmac prf key seed needed (?k n) (blockT hmac prf key seed n) (of_nat (Suc n)) =
        prfPlusLoop hmac prf key seed needed (?k (Suc n)) (blockT hmac prf key seed (Suc n)) (of_nat (Suc (Suc n)))"
      using nz unfolding e by (subst prfPlusLoop.simps) (simp add: keystream_Suc Let_def e del: of_nat_Suc)
    with Suc.hyps(1) [OF n(2) n(1)] show ?thesis using Suc_leD by metis
  next
    case False
    with Suc.prems show ?thesis by (intro exI [of _ n]) (subst prfPlusLoop.simps, simp)
  qed
qed

lemma PRFPlus_keystream:
  assumes "hmac_ok hmac"
  shows "PRFPlus hmac prf key seed needed =
    (if needed \<le> 255 * hashSize (prfHash prf) then Some (take needed (keystream hmac prf key seed 255)) else None)"
proof -
  let ?k = "keystream hmac prf key seed" and ?h = "hashSize (prfHash prf)"
  obtain m where m: "m \<le> 255" "prfPlusLoop hmac prf key seed needed [] [] 1 = ?k m" "m = 255 \<or> needed \<le> length (?k m)"
    using prfPlusLoop_keystream [of 0 hmac "prf" key seed needed] by (auto simp: keystream_def)
  have len: "length (?k n) = n * ?h" for n by (rule length_keystream [OF assms])
  have split: "?k 255 = ?k m @ concat (map (\<lambda>i. blockT hmac prf key seed (Suc i)) [m..<255])"
    using m(1) upt_add_eq_append [of 0 m "255 - m"] by (simp add: keystream_def)
  have le: "m * ?h \<le> 255 * ?h" using m(1) by simp
  show ?thesis
  proof (cases "needed \<le> 255 * ?h")
    case True
    with m(3) len [of m] have n: "needed \<le> length (?k m)" by auto
    have "take needed (?k 255) = take needed (?k m)" using n by (subst split) simp
    with n True show ?thesis by (simp add: PRFPlus_def m(2) go_slice_def slice_def)
  next
    case False
    with le len [of m] have "\<not> needed \<le> length (?k m)" by linarith
    with False show ?thesis by (simp add: PRFPlus_def m(2) go_slice_def)
  qed
qed

text \<open>
  \<open>PRFPlus\<close> is the function of RFC 7296, 2.13: it returns the first \<open>needed\<close> bytes of
  \<open>T1 | T2 | ... | T255\<close>, exactly \<open>needed\<close> of them, whenever that stream is long enough, and only
  then; a longer request does not return key material.
\<close>

theorem PRFPlus_is_prf_plus:
  assumes "hmac_ok hmac"
  shows "PRFPlus hmac prf key seed needed =
    (if needed \<le> 255 * hashSize (prfHash prf) then Some (take needed (keystream hmac prf key seed 255)) else None)"
  by (rule PRFPlus_keystream [OF assms])

theorem PRFPlus_is_prf_plus_witness:
  "PRFPlus example_hmac \<lparr>prfID = 2, prfHash = SHA1, prfKeySize = 20, prfOutSize = 20\<rparr> [1] [2] 5101 = None"
  using PRFPlus_is_prf_plus [OF example_hmac_ok, of "\<lparr>prfID = 2, prfHash = SHA1, prfKeySize = 20, prfOutSize = 20\<rparr>" "[1]" "[2]" 5101]
  by (simp add: hashSize_def)

section \<open>The keys partition the stream\<close>

lemma slices_append: "i \<le> j \<Longrightarrow> slice i j xs @ slice j k xs = slice i k xs" if "j \<le> k" for xs :: bytes
proof -
  assume ij: "i \<le> j"
  have "take (k - i) (drop i xs) = take ((j - i) + (k - j)) (drop i xs)" using that ij by simp
  also have "\<dots> = take (j - i) (drop i xs) @ take (k - j) (drop j xs)"
    using ij by (simp only: take_add drop_drop) simp
  finally show ?thesis by (simp add: slice_def)
qed

lemma splitKeymat_partition:
  assumes "length keymat = totalKeymat e i p"
  shows "let km = splitKeymat e i p keymat in
    SK_d km @ SK_ai km @ SK_ar km @ SK_ei km @ SK_er km @ SK_pi km @ SK_pr km = keymat \<and>
    length (SK_d km) = p \<and> length (SK_ai km) = i \<and> length (SK_ar km) = i \<and> length (SK_ei km) = e \<and>
    length (SK_er km) = e \<and> length (SK_pi km) = p \<and> length (SK_pr km) = p"
proof -
  have "slice 0 (p + i + i + e + e + p + p) keymat = keymat"
    using assms by (simp add: slice_def totalKeymat_def)
  then show ?thesis
    using assms by (simp add: splitKeymat_def Let_def slices_append totalKeymat_def)
qed

text \<open>
  The seven keys of an IKEv2 SA are consecutive, disjoint parts of the PRF+ stream that
  together use it up, each of the length the negotiated algorithms ask for: whenever the
  secret is not empty and the algorithms ask for at most 255 PRF outputs, the derivation
  succeeds, and so it does for the successor SA of a rekeying.
\<close>

theorem ikev2_keys_partition:
  assumes "hmac_ok hmac" and "secret \<noteq> []" and "totalKeymat e i p \<le> 255 * hashSize (prfHash prf)"
  shows "\<exists>km. DeriveIKEv2Keys hmac prf secret ni nr spiI spiR e i p = Inr km \<and>
    SK_d km @ SK_ai km @ SK_ar km @ SK_ei km @ SK_er km @ SK_pi km @ SK_pr km =
      take (totalKeymat e i p) (keystream hmac prf (prfCompute hmac prf (ni @ nr) secret) (ni @ nr @ spiI @ spiR) 255) \<and>
    map length [SK_d km, SK_ai km, SK_ar km, SK_ei km, SK_er km, SK_pi km, SK_pr km] = [p, i, i, e, e, p, p] \<and>
    (\<exists>km'. DeriveIKEv2RekeyKeys hmac prf (SK_d km) secret ni nr spiI spiR e i p = Inr km')"
proof -
  let ?k = "take (totalKeymat e i p) (keystream hmac prf (prfCompute hmac prf (ni @ nr) secret) (ni @ nr @ spiI @ spiR) 255)"
  have "length ?k = totalKeymat e i p" using assms(1,3) by (simp add: length_keystream)
  note sp = splitKeymat_partition [OF this]
  have "DeriveIKEv2Keys hmac prf secret ni nr spiI spiR e i p = Inr (splitKeymat e i p ?k)"
    using assms by (simp add: DeriveIKEv2Keys_def PRFPlus_keystream Let_def)
  moreover have "\<exists>km'. DeriveIKEv2RekeyKeys hmac prf old secret ni nr spiI spiR e i p = Inr km'" for old
    using assms by (simp add: DeriveIKEv2RekeyKeys_def PRFPlus_keystream Let_def)
  ultimately show ?thesis using sp by (auto simp: Let_def)
qed

theorem ikev2_keys_partition_witness:
  "\<exists>km. DeriveIKEv2Keys example_hmac \<lparr>prfID = 2, prfHash = SHA1, prfKeySize = 20, prfOutSize = 20\<rparr> [9] [1] [2] [3] [4] 16 20 20 = Inr km \<and>
     length (SK_er km) = 16"
  using ikev2_keys_partition [OF example_hmac_ok, of "[9]" 16 20 20
      "\<lparr>prfID = 2, prfHash = SHA1, prfKeySize = 20, prfOutSize = 20\<rparr>" "[1]" "[2]" "[3]" "[4]"]
  by (auto simp: totalKeymat_def hashSize_def)

section \<open>Quick mode\<close>

fun blockK :: "hmac_fun \<Rightarrow> PRFAlgorithm \<Rightarrow> bytes \<Rightarrow> bytes \<Rightarrow> nat \<Rightarrow> bytes" where
  "blockK hmac prf key seed 0 = []"
| "blockK hmac prf key seed (Suc i) = prfCompute hmac prf key (blockK hmac prf key seed i @ seed)"

definition streamK :: "hmac_fun \<Rightarrow> PRFAlgorithm \<Rightarrow> bytes \<Rightarrow> bytes \<Rightarrow> nat \<Rightarrow> bytes" where
  "streamK hmac prf key seed n = concat (map (\<lambda>i. blockK hmac prf key seed (Suc i)) [0..<n])"

lemma length_streamK: "hmac_ok hmac \<Longrightarrow> length (streamK hmac prf key seed n) = n * hashSize (prfHash prf)"
  by (induction n) (simp_all add: streamK_def length_prfCompute)

lemma quickModeLoop_stream:
  assumes "hmac_ok hmac"
  shows "\<exists>m. quickModeLoop hmac prf key seed needed (streamK hmac prf key seed n) (blockK hmac prf key seed n) =
      Some (streamK hmac prf key seed m) \<and> needed \<le> length (streamK hmac prf key seed m)"
proof (induction "needed - length (streamK hmac prf key seed n)" arbitrary: n rule: less_induct)
  case less
  let ?k = "streamK hmac prf key seed"
  show ?case
  proof (cases "length (?k n) < needed")
    case True
    have "quickModeLoop hmac prf key seed needed (?k n) (blockK hmac prf key seed n) =
        quickModeLoop hmac prf key seed needed (?k (Suc n)) (blockK hmac prf key seed (Suc n))"
      using True by (subst quickModeLoop.simps) (simp add: Let_def streamK_def)
    moreover have "needed - length (?k (Suc n)) < needed - length (?k n)"
      using True hashSize_pos [of "prfHash prf"] by (simp add: length_streamK [OF assms])
    ultimately show ?thesis using less.hyps [of "Suc n"] by (simp only:)
  next
    case False
    then show ?thesis by (intro exI [of _ n]) (subst quickModeLoop.simps, simp)
  qed
qed

lemma quick_mode_keymat:
  assumes "hmac_ok hmac"
  shows "\<exists>m keymat. DeriveIKEv1QuickModeKeys hmac prf skd protocol spi ni nr dh needed = Some keymat \<and>
    length keymat = needed \<and> keymat = take needed (streamK hmac prf skd (dh @ [protocol] @ spi @ ni @ nr) m)"
proof -
  obtain m where m: "quickModeLoop hmac prf skd (dh @ [protocol] @ spi @ ni @ nr) needed [] [] =
      Some (streamK hmac prf skd (dh @ [protocol] @ spi @ ni @ nr) m)"
    "needed \<le> length (streamK hmac prf skd (dh @ [protocol] @ spi @ ni @ nr) m)"
    using quickModeLoop_stream [OF assms, of "prf" skd "dh @ [protocol] @ spi @ ni @ nr" needed 0]
    by (auto simp: streamK_def [of _ _ _ _ 0])
  have "(if length dh > 0 then dh else []) = dh" by simp
  with m show ?thesis by (intro exI [of _ m]) (simp add: DeriveIKEv1QuickModeKeys_def Let_def)
qed

text \<open>
  C39. The quick-mode expansion ends for every request and yields exactly the bytes asked for:
  the front of \<open>K1 | K2 | ...\<close> of RFC 2409, 5.5, for some number of blocks that suffices.
\<close>

theorem quick_mode_keys:
  assumes "hmac_ok hmac"
  shows "\<exists>m keymat. DeriveIKEv1QuickModeKeys hmac prf skd protocol spi ni nr dh needed = Some keymat \<and>
    length keymat = needed \<and> keymat = take needed (streamK hmac prf skd (dh @ [protocol] @ spi @ ni @ nr) m)"
  using quick_mode_keymat [OF assms] by blast

theorem quick_mode_keys_witness:
  "\<exists>keymat. DeriveIKEv1QuickModeKeys example_hmac \<lparr>prfID = 2, prfHash = SHA1, prfKeySize = 20, prfOutSize = 20\<rparr>
     [1] 3 [2] [3] [4] [] 72 = Some keymat \<and> length keymat = 72"
  using quick_mode_keys [OF example_hmac_ok] by blast

end
