(* ===== verification/IkeEap.thy ===== *)
theory IkeEap
  imports IkeKeyDeriv
begin

unbundle bit_operations_syntax

text \<open>
  EAP packets (\<^verbatim>\<open>internal/ike/eap.go\<close>) and EAP-MSCHAPv2 (\<^verbatim>\<open>eap_mschapv2.go\<close>). Strings are
  byte strings. The digests MD4 and SHA-1 and the DES block function are the record
  \<open>digests\<close>. A builder's 16-bit length field is that of the full packet; every caller in the
  daemon stays far below its range.
\<close>

abbreviation (input) EAPCodeRequest :: byte where "EAPCodeRequest \<equiv> 1"
abbreviation (input) EAPCodeResponse :: byte where "EAPCodeResponse \<equiv> 2"
abbreviation (input) EAPCodeSuccess :: byte where "EAPCodeSuccess \<equiv> 3"
abbreviation (input) EAPCodeFailure :: byte where "EAPCodeFailure \<equiv> 4"

abbreviation (input) EAPTypeIdentity :: byte where "EAPTypeIdentity \<equiv> 1"
abbreviation (input) EAPTypeNAK :: byte where "EAPTypeNAK \<equiv> 3"
abbreviation (input) EAPTypeTLS :: byte where "EAPTypeTLS \<equiv> 13"
abbreviation (input) EAPTypeMSCHAPv2 :: byte where "EAPTypeMSCHAPv2 \<equiv> 26"

record EAPPacket =
  eapCode :: byte
  eapIdentifier :: byte
  eapType :: byte
  eapData :: bytes

datatype eap_error =
    EapTooShort nat
  | EapLengthBeyond nat
  | EapLengthSmall nat
  | EapNotIdentity

definition ParseEAPPacket :: "bytes \<Rightarrow> eap_error + EAPPacket" where
  "ParseEAPPacket data =
     (if length data < 4 then Inl (EapTooShort (length data))
      else
      (let len = unat (Uint16 (slice 2 4 data)) in
       if len > length data then Inl (EapLengthBeyond len)
       else if len < 4 then Inl (EapLengthSmall len)
       else if data ! 0 = EAPCodeSuccess \<or> data ! 0 = EAPCodeFailure then
         Inr \<lparr>eapCode = data ! 0, eapIdentifier = data ! 1, eapType = 0, eapData = []\<rparr>
       else if len < 5 then Inl (EapLengthSmall len)
       else Inr \<lparr>eapCode = data ! 0, eapIdentifier = data ! 1, eapType = data ! 4,
                 eapData = (if len > 5 then slice 5 len data else [])\<rparr>))"

definition MarshalEAP :: "EAPPacket \<Rightarrow> bytes" where
  "MarshalEAP p =
     (if eapCode p = EAPCodeSuccess \<or> eapCode p = EAPCodeFailure then
        [eapCode p, eapIdentifier p] @ PutUint16 4
      else
        [eapCode p, eapIdentifier p] @ PutUint16 (of_nat (5 + length (eapData p))) @ [eapType p] @ eapData p)"

definition BuildEAPIdentityRequest :: "byte \<Rightarrow> bytes" where
  "BuildEAPIdentityRequest i =
     MarshalEAP \<lparr>eapCode = EAPCodeRequest, eapIdentifier = i, eapType = EAPTypeIdentity, eapData = []\<rparr>"

definition BuildEAPSuccess :: "byte \<Rightarrow> bytes" where
  "BuildEAPSuccess i = MarshalEAP \<lparr>eapCode = EAPCodeSuccess, eapIdentifier = i, eapType = 0, eapData = []\<rparr>"

definition BuildEAPFailure :: "byte \<Rightarrow> bytes" where
  "BuildEAPFailure i = MarshalEAP \<lparr>eapCode = EAPCodeFailure, eapIdentifier = i, eapType = 0, eapData = []\<rparr>"

definition ParseEAPIdentityResponse :: "EAPPacket \<Rightarrow> eap_error + bytes" where
  "ParseEAPIdentityResponse p =
     (if eapCode p \<noteq> EAPCodeResponse \<or> eapType p \<noteq> EAPTypeIdentity then Inl EapNotIdentity else Inr (eapData p))"

section \<open>MS-CHAPv2\<close>

abbreviation (input) MSCHAPv2OpChallenge :: byte where "MSCHAPv2OpChallenge \<equiv> 1"
abbreviation (input) MSCHAPv2OpResponse :: byte where "MSCHAPv2OpResponse \<equiv> 2"
abbreviation (input) MSCHAPv2OpSuccess :: byte where "MSCHAPv2OpSuccess \<equiv> 3"
abbreviation (input) MSCHAPv2OpFailure :: byte where "MSCHAPv2OpFailure \<equiv> 4"

record digests =
  md4 :: "bytes \<Rightarrow> bytes"
  sha1 :: "bytes \<Rightarrow> bytes"
  sha256 :: "bytes \<Rightarrow> bytes"
  desEncrypt :: "bytes \<Rightarrow> bytes \<Rightarrow> bytes"

text \<open>A response that was received is recorded by \<open>Some\<close>; before, the slices are nil.\<close>

record MSCHAPv2State =
  ServerChallenge :: bytes
  ServerName :: bytes
  PeerChallenge :: "bytes option"
  NTResponse :: "bytes option"
  msUsername :: bytes
  AuthResp :: bytes

definition GenerateMSCHAPv2Challenge :: "bytes option \<Rightarrow> crypto_error + bytes" where
  "GenerateMSCHAPv2Challenge rnd = (case rnd of None \<Rightarrow> Inl RandFailed | Some c \<Rightarrow> Inr c)"

text \<open>
  \<^verbatim>\<open>[]rune(password)\<close>: the UTF-8 decoding of Go, one replacement character for every byte that
  does not start a valid sequence.
\<close>

definition contByte :: "byte \<Rightarrow> nat \<Rightarrow> nat \<Rightarrow> bool" where
  "contByte b lo hi \<longleftrightarrow> lo \<le> unat b \<and> unat b \<le> hi"

definition decodeRune :: "bytes \<Rightarrow> nat \<times> nat" where
  "decodeRune s =
     (let c0 = unat (s ! 0); n = length s; bad = (0xFFFD, 1);
          c1 = s ! 1; c2 = s ! 2; c3 = s ! 3
      in
      if c0 < 0x80 then (c0, 1)
      else if 0xC2 \<le> c0 \<and> c0 \<le> 0xDF then
        (if n < 2 \<or> \<not> contByte c1 0x80 0xBF then bad
         else ((c0 - 0xC0) * 64 + (unat c1 - 0x80), 2))
      else if 0xE0 \<le> c0 \<and> c0 \<le> 0xEF then
        (if n < 3 \<or> \<not> contByte c1 (if c0 = 0xE0 then 0xA0 else 0x80) (if c0 = 0xED then 0x9F else 0xBF) \<or>
            \<not> contByte c2 0x80 0xBF then bad
         else ((c0 - 0xE0) * 4096 + (unat c1 - 0x80) * 64 + (unat c2 - 0x80), 3))
      else if 0xF0 \<le> c0 \<and> c0 \<le> 0xF4 then
        (if n < 4 \<or> \<not> contByte c1 (if c0 = 0xF0 then 0x90 else 0x80) (if c0 = 0xF4 then 0x8F else 0xBF) \<or>
            \<not> contByte c2 0x80 0xBF \<or> \<not> contByte c3 0x80 0xBF then bad
         else ((c0 - 0xF0) * 262144 + (unat c1 - 0x80) * 4096 + (unat c2 - 0x80) * 64 + (unat c3 - 0x80), 4))
      else bad)"

lemma decodeRune_progress: "0 < snd (decodeRune s)"
  by (simp add: decodeRune_def Let_def)

function runes :: "bytes \<Rightarrow> nat list" where
  "runes s = (if s = [] then [] else (let (r, w) = decodeRune s in r # runes (drop w s)))"
  by pat_completeness auto
termination
proof (relation "measure length")
  fix s :: bytes and x r w assume "s \<noteq> []" "x = decodeRune s" "(r, w) = x"
  then have "0 < w" "s \<noteq> []" using decodeRune_progress [of s] by (metis prod.sel(2), simp)
  then show "(drop w s, s) \<in> measure length" by simp
qed simp

declare runes.simps [simp del]

definition utf16Rune :: "nat \<Rightarrow> nat list" where
  "utf16Rune r =
     (if r < 0xD800 \<or> (0xE000 \<le> r \<and> r < 0x10000) then [r]
      else if 0x10000 \<le> r \<and> r \<le> 0x10FFFF then
        [0xD800 + (r - 0x10000) div 1024, 0xDC00 + (r - 0x10000) mod 1024]
      else [0xFFFD])"

definition utf16LE :: "bytes \<Rightarrow> bytes" where
  "utf16LE password =
     concat (map (\<lambda>c. [of_nat (c mod 256), of_nat (c div 256)]) (concat (map utf16Rune (runes password))))"

definition NtPasswordHash :: "digests \<Rightarrow> bytes \<Rightarrow> bytes" where
  "NtPasswordHash dg password = md4 dg (utf16LE password)"

definition HashNtPasswordHash :: "digests \<Rightarrow> bytes \<Rightarrow> bytes" where
  "HashNtPasswordHash dg ntHash = md4 dg ntHash"

definition ChallengeHash :: "digests \<Rightarrow> bytes \<Rightarrow> bytes \<Rightarrow> bytes \<Rightarrow> bytes" where
  "ChallengeHash dg peerChallenge authChallenge username = take 8 (sha1 dg (peerChallenge @ authChallenge @ username))"

definition desKey8 :: "bytes \<Rightarrow> bytes" where
  "desKey8 k =
     map (\<lambda>x. push_bit 1 x AND 0xFE)
       [drop_bit 1 (k ! 0),
        push_bit 6 (k ! 0 AND 0x01) OR drop_bit 2 (k ! 1),
        push_bit 5 (k ! 1 AND 0x03) OR drop_bit 3 (k ! 2),
        push_bit 4 (k ! 2 AND 0x07) OR drop_bit 4 (k ! 3),
        push_bit 3 (k ! 3 AND 0x0F) OR drop_bit 5 (k ! 4),
        push_bit 2 (k ! 4 AND 0x1F) OR drop_bit 6 (k ! 5),
        push_bit 1 (k ! 5 AND 0x3F) OR drop_bit 7 (k ! 6),
        k ! 6 AND 0x7F]"

definition desEncryptBlock :: "digests \<Rightarrow> bytes \<Rightarrow> bytes \<Rightarrow> bytes" where
  "desEncryptBlock dg key7 data = desEncrypt dg (desKey8 key7) (take 8 data)"

definition ChallengeResponse :: "digests \<Rightarrow> bytes \<Rightarrow> bytes \<Rightarrow> bytes" where
  "ChallengeResponse dg challenge ntHash =
     (let paddedHash = copy_at 0 ntHash (replicate 21 0) in
      foldl (\<lambda>result i. copy_at (i * 8) (desEncryptBlock dg (slice (i * 7) ((i + 1) * 7) paddedHash) challenge) result)
        (replicate 24 0) [0, 1, 2])"

definition GenerateNTResponse :: "digests \<Rightarrow> bytes \<Rightarrow> bytes \<Rightarrow> bytes \<Rightarrow> bytes \<Rightarrow> bytes" where
  "GenerateNTResponse dg authChallenge peerChallenge username password =
     ChallengeResponse dg (ChallengeHash dg peerChallenge authChallenge username) (NtPasswordHash dg password)"

definition magicServerToClient :: bytes where
  "magicServerToClient = strBytes ''Magic server to client signing constant''"

definition magicPad :: bytes where
  "magicPad = strBytes ''Pad to make it do more than one iteration''"

definition hexDigitUpper :: "nat \<Rightarrow> byte" where
  "hexDigitUpper n = of_nat (if n < 10 then 48 + n else 55 + n)"

definition hexUpper :: "bytes \<Rightarrow> bytes" where
  "hexUpper b = concat (map (\<lambda>x. [hexDigitUpper (unat x div 16), hexDigitUpper (unat x mod 16)]) b)"

definition GenerateAuthenticatorResponse :: "digests \<Rightarrow> bytes \<Rightarrow> bytes \<Rightarrow> bytes \<Rightarrow> bytes \<Rightarrow> bytes \<Rightarrow> bytes" where
  "GenerateAuthenticatorResponse dg password ntResponse peerChallenge authChallenge username =
     (let ntHashHash = HashNtPasswordHash dg (NtPasswordHash dg password);
          digest = sha1 dg (ntHashHash @ ntResponse @ magicServerToClient);
          challengeHashVal = ChallengeHash dg peerChallenge authChallenge username
      in strBytes ''S='' @ hexUpper (sha1 dg (digest @ challengeHashVal @ magicPad)))"

definition BuildMSCHAPv2Challenge :: "byte \<Rightarrow> byte \<Rightarrow> bytes \<Rightarrow> bytes \<Rightarrow> bytes" where
  "BuildMSCHAPv2Challenge eapID mschapID challenge serverName =
     MarshalEAP \<lparr>eapCode = EAPCodeRequest, eapIdentifier = eapID, eapType = EAPTypeMSCHAPv2,
       eapData = [MSCHAPv2OpChallenge, mschapID] @ PutUint16 (of_nat (5 + length challenge + length serverName)) @
         [of_nat (length challenge)] @ challenge @ serverName\<rparr>"

definition VerifyMSCHAPv2Response :: "digests \<Rightarrow> bytes \<Rightarrow> bytes \<Rightarrow> bytes \<Rightarrow> bytes \<Rightarrow> bytes option" where
  "VerifyMSCHAPv2Response dg typeData authChallenge username password =
     (if length typeData < 5 then None
      else if typeData ! 0 \<noteq> MSCHAPv2OpResponse then None
      else if typeData ! 4 \<noteq> 49 \<or> length typeData < 5 + 49 then None
      else
      (let responseValue = slice 5 (5 + 49) typeData;
           peerChallenge = slice 0 16 responseValue;
           ntResponse = slice 24 48 responseValue
       in
       if GenerateNTResponse dg authChallenge peerChallenge username password \<noteq> ntResponse then None
       else Some (GenerateAuthenticatorResponse dg password ntResponse peerChallenge authChallenge username)))"

definition mschapMessage :: "byte \<Rightarrow> byte \<Rightarrow> byte \<Rightarrow> bytes \<Rightarrow> bytes" where
  "mschapMessage op eapID mschapID msg =
     MarshalEAP \<lparr>eapCode = EAPCodeRequest, eapIdentifier = eapID, eapType = EAPTypeMSCHAPv2,
       eapData = [op, mschapID] @ PutUint16 (of_nat (4 + length msg)) @ msg\<rparr>"

definition BuildMSCHAPv2Success :: "byte \<Rightarrow> byte \<Rightarrow> bytes \<Rightarrow> bytes" where
  "BuildMSCHAPv2Success eapID mschapID authResp = mschapMessage MSCHAPv2OpSuccess eapID mschapID authResp"

definition BuildMSCHAPv2Failure :: "byte \<Rightarrow> byte \<Rightarrow> bytes \<Rightarrow> bytes" where
  "BuildMSCHAPv2Failure eapID mschapID message = mschapMessage MSCHAPv2OpFailure eapID mschapID message"

definition sendMagic :: bytes where
  "sendMagic = strBytes ''On the client side, this is the send key; on the server side, it is the receive key.''"

definition recvMagic :: bytes where
  "recvMagic = strBytes ''On the client side, this is the receive key; on the server side, it is the send key.''"

definition getAsymmetricStartKey :: "digests \<Rightarrow> bytes \<Rightarrow> bytes \<Rightarrow> bytes \<Rightarrow> bytes \<Rightarrow> nat \<Rightarrow> bytes" where
  "getAsymmetricStartKey dg masterKey magic shsPad1 shsPad2 keyLen =
     (let digest = sha1 dg (masterKey @ shsPad1 @ magic @ shsPad2)
      in take (if keyLen > length digest then length digest else keyLen) digest)"

definition GetMSCHAPv2MSK :: "digests \<Rightarrow> bytes \<Rightarrow> bytes \<Rightarrow> bytes" where
  "GetMSCHAPv2MSK dg password ntResponse =
     (let ntHashHash = HashNtPasswordHash dg (NtPasswordHash dg password);
          masterKey = take 16 (sha1 dg (ntHashHash @ ntResponse @ strBytes ''This is the MPPE Master Key''));
          sendKey = getAsymmetricStartKey dg masterKey sendMagic (replicate 40 0) (replicate 40 0xF2) 32;
          recvKey = getAsymmetricStartKey dg masterKey recvMagic (replicate 40 0) (replicate 40 0xF2) 32
      in copy_at 32 sendKey (copy_at 0 (take 32 recvKey) (replicate 64 0)))"

section \<open>Properties\<close>

definition eap_wf :: "EAPPacket \<Rightarrow> bool" where
  "eap_wf p \<longleftrightarrow>
     (if eapCode p = EAPCodeSuccess \<or> eapCode p = EAPCodeFailure then eapType p = 0 \<and> eapData p = []
      else length (eapData p) < 65531)"

text \<open>
  EAP packets survive the wire: what \<open>Marshal\<close> writes for a packet whose data fits, whatever
  follows it, parses back to the packet.
\<close>

theorem eap_roundtrip:
  assumes "eap_wf p"
  shows "ParseEAPPacket (MarshalEAP p @ rest) = Inr p"
proof (cases "eapCode p = EAPCodeSuccess \<or> eapCode p = EAPCodeFailure")
  case True
  with assms show ?thesis
    by (cases p) (auto simp: eap_wf_def MarshalEAP_def ParseEAPPacket_def slice_def Let_def)
next
  case False
  with assms have n: "length (eapData p) < 65531" by (simp add: eap_wf_def)
  have l: "unat (of_nat (5 + length (eapData p)) :: u16) = 5 + length (eapData p)"
    using n by (intro u16_of_nat_unat) simp
  let ?buf = "MarshalEAP p @ rest"
  have f: "length ?buf = 5 + length (eapData p) + length rest" "Uint16 (slice 2 4 ?buf) = of_nat (5 + length (eapData p))"
    "?buf ! 0 = eapCode p" "?buf ! 1 = eapIdentifier p" "?buf ! 4 = eapType p"
    "slice 5 (5 + length (eapData p)) ?buf = eapData p"
    using False by (simp_all add: MarshalEAP_def slice_def nth_append drop_Cons' del: of_nat_add of_nat_numeral)
  have d: "(if length (eapData p) > 0 then eapData p else []) = eapData p" by simp
  show ?thesis unfolding ParseEAPPacket_def f l Let_def using False by (cases p) simp
qed

theorem eap_roundtrip_witness:
  "ParseEAPPacket (MarshalEAP \<lparr>eapCode = 2, eapIdentifier = 7, eapType = 1, eapData = [97, 98]\<rparr> @ [0]) =
     Inr \<lparr>eapCode = 2, eapIdentifier = 7, eapType = 1, eapData = [97, 98]\<rparr>"
  by (rule eap_roundtrip) (simp add: eap_wf_def)

text \<open>What a response must be to be accepted.\<close>

lemma Verify_Some:
  "VerifyMSCHAPv2Response dg d auth user pw = Some r \<Longrightarrow>
     d ! 0 = MSCHAPv2OpResponse \<and> 54 \<le> length d \<and>
     slice 24 48 (slice 5 54 d) = GenerateNTResponse dg auth (slice 0 16 (slice 5 54 d)) user pw"
  by (auto simp: VerifyMSCHAPv2Response_def Let_def split: if_splits)

text \<open>
  The MSK of the code's derivation, with a 20-byte SHA-1: half of each 32-byte key is zero
  padding behind 20 bytes of digest.
\<close>

lemma length_getAsymmetricStartKey:
  "length (sha1 dg (m @ p1 @ mg @ p2)) = 20 \<Longrightarrow> length (getAsymmetricStartKey dg m mg p1 p2 32) = 20"
  by (simp add: getAsymmetricStartKey_def Let_def)

lemma msk_layout:
  assumes "\<forall>x. length (sha1 dg x) = 20"
  shows "\<exists>recv send. length recv = 20 \<and> length send = 20 \<and>
    GetMSCHAPv2MSK dg pw nt = recv @ replicate 12 0 @ send @ replicate 12 0"
proof -
  define mk where "mk = take 16 (sha1 dg (HashNtPasswordHash dg (NtPasswordHash dg pw) @ nt @ strBytes ''This is the MPPE Master Key''))"
  define r where "r = getAsymmetricStartKey dg mk recvMagic (replicate 40 0) (replicate 40 0xF2) 32"
  define s where "s = getAsymmetricStartKey dg mk sendMagic (replicate 40 0) (replicate 40 0xF2) 32"
  have l: "length r = 20" "length s = 20"
    unfolding r_def s_def using assms by (intro length_getAsymmetricStartKey, simp)+
  have "GetMSCHAPv2MSK dg pw nt = copy_at 32 s (copy_at 0 (take 32 r) (replicate 64 0))"
    by (simp add: GetMSCHAPv2MSK_def Let_def r_def s_def mk_def)
  also have "\<dots> = r @ replicate 12 0 @ s @ replicate 12 0"
    using l by (simp add: copy_at_def)
  finally show ?thesis using l by blast
qed

end
