(* ===== verification/IkeV2Session.thy ===== *)
theory IkeV2Session
  imports IkeEap IkeMessage
begin

unbundle bit_operations_syntax

text \<open>
  The state of an IKEv2 SA and its cryptographic operations (\<^verbatim>\<open>internal/ike/ikev2_session.go\<close>):
  the Encrypted payload in both directions, NAT detection, the AUTH computation and the
  SA_INIT cookie. A nil slice or pointer that the code tests for is \<^const>\<open>None\<close>; a TLS
  connection of the library is an opaque number. The creation time of a session, which nothing
  reads, is left out.
\<close>

section \<open>State\<close>

datatype IKEv2State =
    StateV2Idle
  | StateV2InitRecv
  | StateV2EAPInProgress
  | StateV2EAPDone
  | StateV2Established
  | StateV2Rekeying
  | StateV2Deleting

datatype CookieMode = CookieModeAuto | CookieModeBusy | CookieModeUnlimited

definition ParseCookieMode :: "string \<Rightarrow> CookieMode" where
  "ParseCookieMode s =
     (if s = ''busy'' then CookieModeBusy else if s = ''unlimited'' then CookieModeUnlimited else CookieModeAuto)"

record IKEv2ChildSA =
  cInSPI :: bytes
  cOutSPI :: bytes
  cEncrKey :: bytes
  cIntegKey :: bytes
  cPeerEncrKey :: bytes
  cPeerIntegKey :: bytes
  cEncrID :: u16
  cIntegID :: u16
  cKeyLength :: u16

text \<open>
  The state of an EAP-TLS exchange (\<^verbatim>\<open>eap_tls.go\<close>). A handshake error is a mark; nothing reads it.
\<close>

record eapTLSTransport =
  readBuf :: bytes
  writeBuf :: bytes
  closed :: bool

record EAPTLSState =
  transport :: eapTLSTransport
  tlsConn :: nat
  rxBuf :: bytes
  rxPending :: bool
  handshakeDone :: bool
  handshakeErr :: bool
  peerIdentity :: bytes

datatype EAPState = EapNone | EapMSCHAP MSCHAPv2State | EapTLS EAPTLSState

record IKEv2Session =
  s2InitiatorSPI :: bytes
  s2ResponderSPI :: bytes
  s2IsInitiator :: bool
  s2PeerAddr :: udp_addr
  s2State :: IKEv2State
  s2EncAlg :: u16
  s2PrfAlg :: u16
  s2IntegAlg :: u16
  s2DHGroupID :: u16
  s2KeyLength :: u16
  NonceI :: bytes
  NonceR :: bytes
  DHPrivKey :: bytes
  DHPubKey :: bytes
  PeerDHPubKey :: bytes
  SharedSecret :: bytes
  Keys :: IKEv2KeyMaterial
  s2PRF :: PRFAlgorithm
  Encryptor :: IKEEncryptor
  IntegAlg :: "IkeIntegrity option"
  InitReqBytes :: bytes
  InitRespBytes :: bytes
  PeerIDType :: byte
  PeerID :: bytes
  LocalID :: bytes
  LocalIDType :: byte
  ConnName :: bytes
  PSK :: bytes
  BehindNATLocal :: bool
  BehindNATRemote :: bool
  PeerSupportsFragmentation :: bool
  NextMsgID :: u32
  ChildSAs :: "IKEv2ChildSA list"
  eapState :: EAPState
  EAPIdentifier :: byte
  EAPMethod :: byte
  EAPMSK :: "bytes option"
  pendingAuthSA :: "SAPayload option"
  pendingAuthTSi :: "TSPayload option"
  pendingAuthTSr :: "TSPayload option"
  pendingAuthCP :: "CPPayload option"

definition v2SPIPair :: "IKEv2Session \<Rightarrow> bytes" where
  "v2SPIPair sess = s2InitiatorSPI sess @ s2ResponderSPI sess"

section \<open>Typed payloads of a chain\<close>

text \<open>
  \<^verbatim>\<open>findPayloadAs[T]\<close> of \<^verbatim>\<open>ikev1_main.go\<close>: the first payload whose dynamic type is \<^verbatim>\<open>T\<close>. The
  type assertion is a function to an option.
\<close>

fun findPayloadAs :: "(Payload \<Rightarrow> 'a option) \<Rightarrow> ParsedPayload list \<Rightarrow> 'a option" where
  "findPayloadAs typed [] = None"
| "findPayloadAs typed (pp # chain) =
     (case typed (ppPayload pp) of Some p \<Rightarrow> Some p | None \<Rightarrow> findPayloadAs typed chain)"

definition asSA :: "Payload \<Rightarrow> SAPayload option" where
  "asSA p = (case p of PlSA x \<Rightarrow> Some x | _ \<Rightarrow> None)"

definition asKE :: "Payload \<Rightarrow> KEPayload option" where
  "asKE p = (case p of PlKE x \<Rightarrow> Some x | _ \<Rightarrow> None)"

definition asNonce :: "Payload \<Rightarrow> bytes option" where
  "asNonce p = (case p of PlNonce x \<Rightarrow> Some x | _ \<Rightarrow> None)"

definition asNotify :: "Payload \<Rightarrow> NotifyPayload option" where
  "asNotify p = (case p of PlNotify x \<Rightarrow> Some x | _ \<Rightarrow> None)"

definition asSK :: "Payload \<Rightarrow> bytes option" where
  "asSK p = (case p of PlSK x \<Rightarrow> Some x | _ \<Rightarrow> None)"

definition asID :: "Payload \<Rightarrow> IDPayload option" where
  "asID p = (case p of PlID x \<Rightarrow> Some x | _ \<Rightarrow> None)"

definition asAUTH :: "Payload \<Rightarrow> AUTHPayload option" where
  "asAUTH p = (case p of PlAUTH x \<Rightarrow> Some x | _ \<Rightarrow> None)"

definition asCP :: "Payload \<Rightarrow> CPPayload option" where
  "asCP p = (case p of PlCP x \<Rightarrow> Some x | _ \<Rightarrow> None)"

definition asTS :: "bool \<Rightarrow> Payload \<Rightarrow> TSPayload option" where
  "asTS isInitiator p = (case p of PlTS x \<Rightarrow> if tsIsInitiator x = isInitiator then Some x else None | _ \<Rightarrow> None)"

definition asEAP :: "Payload \<Rightarrow> bytes option" where
  "asEAP p = (case p of PlEAP x \<Rightarrow> Some x | _ \<Rightarrow> None)"

lemmas as_defs = asSA_def asKE_def asNonce_def asNotify_def asSK_def asID_def asAUTH_def asCP_def asTS_def asEAP_def

lemma findPayloadAs_append:
  "findPayloadAs f (xs @ ys) = (case findPayloadAs f xs of Some p \<Rightarrow> Some p | None \<Rightarrow> findPayloadAs f ys)"
  by (induction xs) (auto split: option.splits)

lemma findPayloadAs_None: "findPayloadAs f xs = None \<longleftrightarrow> (\<forall>pp\<in>set xs. f (ppPayload pp) = None)"
  by (induction xs) (auto split: option.splits)

section \<open>The Encrypted payload\<close>

datatype sk_error =
    SkTooShort nat
  | SkNoIntegrity
  | SkIntegrityFailed
  | SkEmpty
  | SkBadPadding nat
  | SkRandFailed
  | SkCipher crypto_error
  | SkChain ike_error

definition skPadLen :: "IKEEncryptor \<Rightarrow> nat \<Rightarrow> nat" where
  "skPadLen enc n =
     (if encIsAEAD enc then 0
      else
      (let blockSize = encBlockSize enc; totalLen = n + 1 in
       if totalLen mod blockSize \<noteq> 0 then blockSize - totalLen mod blockSize else 0))"

definition skPad :: "IKEEncryptor \<Rightarrow> bytes \<Rightarrow> bytes" where
  "skPad enc plaintext =
     (let padLen = skPadLen enc (length plaintext) in plaintext @ replicate padLen 0 @ [of_nat padLen])"

text \<open>The body of an SK payload around a plaintext: what \<^verbatim>\<open>EncryptSKPayload\<close> and each fragment do.\<close>

definition sealBody ::
  "crypto_lib \<Rightarrow> hmac_fun \<Rightarrow> IKEEncryptor \<Rightarrow> IkeIntegrity option \<Rightarrow> bytes \<Rightarrow> bytes \<Rightarrow> bytes \<Rightarrow> bytes \<Rightarrow> bytes
   \<Rightarrow> sk_error + bytes" where
  "sealBody cl hmac enc integ encKey integKey iv hdr plaintext =
     (if encIsAEAD enc then
        (case EncryptWith cl enc encKey iv (skPad enc plaintext) hdr of
           Inl e \<Rightarrow> Inl (SkCipher e)
         | Inr ciphertext \<Rightarrow> Inr (iv @ ciphertext))
      else
        (case EncryptWith cl enc encKey iv (skPad enc plaintext) [] of
           Inl e \<Rightarrow> Inl (SkCipher e)
         | Inr ciphertext \<Rightarrow>
             (case integ of
                None \<Rightarrow> Inl SkNoIntegrity
              | Some ii \<Rightarrow> Inr (iv @ ciphertext @ ikeICV hmac ii integKey (hdr @ iv @ ciphertext)))))"

definition EncryptSKPayload ::
  "crypto_lib \<Rightarrow> hmac_fun \<Rightarrow> bytes option \<Rightarrow> IKEEncryptor \<Rightarrow> IkeIntegrity option \<Rightarrow> bytes \<Rightarrow> bytes \<Rightarrow> bytes
   \<Rightarrow> Payload list \<Rightarrow> sk_error + byte \<times> bytes" where
  "EncryptSKPayload cl hmac rnd enc integ encKey integKey ikeMsgHeader payloads =
     (let (plaintext, firstPT) = MarshalPayloadChain payloads in
      case rnd of
        None \<Rightarrow> Inl SkRandFailed
      | Some iv \<Rightarrow>
          (case sealBody cl hmac enc integ encKey integKey iv ikeMsgHeader plaintext of
             Inl e \<Rightarrow> Inl e
           | Inr skBody \<Rightarrow> Inr (firstPT, skBody)))"

definition stripSKPadding :: "bytes \<Rightarrow> sk_error + bytes" where
  "stripSKPadding plaintext =
     (if length plaintext < 1 then Inl SkEmpty
      else
      (let padLen = unat (last plaintext) in
       if length plaintext < 1 + padLen then Inl (SkBadPadding padLen)
       else Inr (take (length plaintext - 1 - padLen) plaintext)))"

definition DecryptSKPayload ::
  "crypto_lib \<Rightarrow> hmac_fun \<Rightarrow> IKEEncryptor \<Rightarrow> IkeIntegrity option \<Rightarrow> bytes \<Rightarrow> bytes \<Rightarrow> bytes \<Rightarrow> bytes \<Rightarrow> byte
   \<Rightarrow> sk_error + ParsedPayload list" where
  "DecryptSKPayload cl hmac enc integ encKey integKey ikeMsgHeader skBody firstInnerPayload =
     (let ivSize = encIVSize enc;
          finish = (\<lambda>r. case r of
              Inl e \<Rightarrow> Inl (SkCipher e)
            | Inr plaintext \<Rightarrow>
                (case stripSKPadding plaintext of
                   Inl e \<Rightarrow> Inl e
                 | Inr p \<Rightarrow> map_sum SkChain id (ParsePayloadChain p firstInnerPayload True)))
      in
      if length skBody < ivSize + 1 then Inl (SkTooShort (length skBody))
      else if encIsAEAD enc then
        finish (DecryptWith cl enc encKey (slice 0 ivSize skBody) (drop ivSize skBody) ikeMsgHeader)
      else
      (case integ of
         None \<Rightarrow> Inl SkNoIntegrity
       | Some ii \<Rightarrow>
           (let icvLen = iiTruncLen ii in
            if length skBody < ivSize + icvLen + 1 then Inl (SkTooShort (length skBody))
            else
            (let iv = slice 0 ivSize skBody; ciphertext = slice ivSize (length skBody - icvLen) skBody;
                 receivedICV = drop (length skBody - icvLen) skBody
             in
             if \<not> ikeVerify hmac ii integKey (ikeMsgHeader @ iv @ ciphertext) receivedICV then Inl SkIntegrityFailed
             else finish (DecryptWith cl enc encKey iv ciphertext [])))))"

text \<open>\<^verbatim>\<open>decryptSKBody\<close> of \<^verbatim>\<open>fragment.go\<close>: the same format, no payload chain.\<close>

definition decryptSKBody ::
  "crypto_lib \<Rightarrow> hmac_fun \<Rightarrow> IKEEncryptor \<Rightarrow> IkeIntegrity option \<Rightarrow> bytes \<Rightarrow> bytes \<Rightarrow> bytes \<Rightarrow> bytes
   \<Rightarrow> sk_error + bytes" where
  "decryptSKBody cl hmac enc integ encKey integKey aad skBody =
     (let ivSize = encIVSize enc in
      if length skBody < ivSize + 1 then Inl (SkTooShort (length skBody))
      else
      (let iv = slice 0 ivSize skBody; encrypted = drop ivSize skBody;
           finish = (\<lambda>r. case r of Inl e \<Rightarrow> Inl (SkCipher e) | Inr plaintext \<Rightarrow> stripSKPadding plaintext)
       in
       if encIsAEAD enc then finish (DecryptWith cl enc encKey iv encrypted aad)
       else
       (case integ of
          None \<Rightarrow> Inl SkNoIntegrity
        | Some ii \<Rightarrow>
            (let icvLen = iiTruncLen ii in
             if length encrypted < icvLen + 1 then Inl (SkTooShort (length skBody))
             else
             (let ciphertext = slice 0 (length encrypted - icvLen) encrypted;
                  receivedICV = drop (length encrypted - icvLen) encrypted;
                  expectedICV = ikeICV hmac ii integKey (aad @ iv @ ciphertext)
              in
              if length receivedICV \<noteq> length expectedICV then Inl SkIntegrityFailed
              else if \<exists>i < length receivedICV. receivedICV ! i \<noteq> expectedICV ! i then Inl SkIntegrityFailed
              else finish (DecryptWith cl enc encKey iv ciphertext []))))))"

section \<open>NAT detection\<close>

text \<open>\<^verbatim>\<open>hashEqual\<close> of \<^verbatim>\<open>ikev1_main.go\<close>: all differences are collected before the verdict.\<close>

definition hashEqual :: "bytes \<Rightarrow> bytes \<Rightarrow> bool" where
  "hashEqual a b \<longleftrightarrow>
     (if length a \<noteq> length b then False
      else foldl (\<lambda>diff (x, y). diff OR (x XOR y)) 0 (zip a b) = (0 :: byte))"

lemma or_xor_zero: "d OR (a XOR b) = (0 :: byte) \<longleftrightarrow> d = 0 \<and> a = b"
  by (auto simp: bit_eq_iff bit_simps)

lemma hashEqual_iff [simp]: "hashEqual a b \<longleftrightarrow> a = b"
proof -
  have "foldl (\<lambda>diff (x, y). diff OR (x XOR y)) d ps = (0 :: byte) \<longleftrightarrow> d = 0 \<and> (\<forall>(x, y)\<in>set ps. x = y)" for d ps
    using or_xor_zero by (induction ps arbitrary: d) auto
  moreover have "length a = length b \<Longrightarrow> (\<forall>(x, y)\<in>set (zip a b). x = y) \<longleftrightarrow> a = b"
    by (auto simp: set_zip list_eq_iff_nth_eq)
  ultimately show ?thesis by (auto simp: hashEqual_def)
qed

definition ComputeNATDetection :: "digests \<Rightarrow> bytes \<Rightarrow> bytes \<Rightarrow> ip \<Rightarrow> u16 \<Rightarrow> bytes" where
  "ComputeNATDetection dg spiI spiR addr port = sha1 dg (spiI @ spiR @ To4 addr @ PutUint16 port)"

definition CheckNATDetection :: "digests \<Rightarrow> bytes \<Rightarrow> bytes \<Rightarrow> bytes \<Rightarrow> ip \<Rightarrow> u16 \<Rightarrow> bool" where
  "CheckNATDetection dg expected spiI spiR addr port \<longleftrightarrow>
     hashEqual (ComputeNATDetection dg spiI spiR addr port) expected"

section \<open>Authentication data and cookies\<close>

definition idBodyOf :: "Payload \<Rightarrow> bytes" where
  "idBodyOf idPayload =
     (let idBytes = MarshalPayload idPayload
      in if length idBytes > PayloadHeaderLen then drop PayloadHeaderLen idBytes else idBytes)"

definition keyPadV2 :: bytes where "keyPadV2 = strBytes ''Key Pad for IKEv2''"

definition ComputeIKEv2AuthCert :: "hmac_fun \<Rightarrow> PRFAlgorithm \<Rightarrow> bytes \<Rightarrow> bytes \<Rightarrow> bytes \<Rightarrow> Payload \<Rightarrow> bytes" where
  "ComputeIKEv2AuthCert hmac prf initBytes peerNonce skP idPayload =
     initBytes @ peerNonce @ prfCompute hmac prf skP (idBodyOf idPayload)"

definition ComputeIKEv2AuthPSK ::
  "hmac_fun \<Rightarrow> PRFAlgorithm \<Rightarrow> bytes \<Rightarrow> bytes \<Rightarrow> bytes \<Rightarrow> bytes \<Rightarrow> Payload \<Rightarrow> bytes" where
  "ComputeIKEv2AuthPSK hmac prf psk initBytes peerNonce skP idPayload =
     (let signedOctets = initBytes @ peerNonce @ prfCompute hmac prf skP (idBodyOf idPayload);
          authKey = prfCompute hmac prf psk keyPadV2
      in prfCompute hmac prf authKey signedOctets)"

definition GenerateSAInitCookie ::
  "digests \<Rightarrow> PRFAlgorithm \<Rightarrow> bytes \<Rightarrow> udp_addr option \<Rightarrow> bytes \<Rightarrow> bytes \<Rightarrow> bytes" where
  "GenerateSAInitCookie dg prf secretKey peerAddr spiI ni =
     (let h = (if prfID prf = PRFHMAC_SHA256 then sha256 dg else sha1 dg);
          ipPart = (case peerAddr of None \<Rightarrow> [] | Some a \<Rightarrow> if addrIP a = [] then [] else To4 (addrIP a))
      in h (secretKey @ ipPart @ spiI @ ni))"

definition VerifySAInitCookie ::
  "digests \<Rightarrow> PRFAlgorithm \<Rightarrow> bytes \<Rightarrow> udp_addr option \<Rightarrow> bytes \<Rightarrow> bytes \<Rightarrow> bytes \<Rightarrow> bool" where
  "VerifySAInitCookie dg prf secretKey peerAddr spiI ni cookie \<longleftrightarrow>
     hashEqual (GenerateSAInitCookie dg prf secretKey peerAddr spiI ni) cookie"

section \<open>Round trip of the Encrypted payload\<close>

definition integOk :: "hmac_fun \<Rightarrow> IkeIntegrity \<Rightarrow> bool" where
  "integOk hmac ii \<longleftrightarrow> (\<forall>k d. length (ikeICV hmac ii k d) = iiTruncLen ii)"

lemma NewIkeIntegrity_ok: "hmac_ok hmac \<Longrightarrow> NewIkeIntegrity i = Inr ii \<Longrightarrow> integOk hmac ii"
  by (auto simp: NewIkeIntegrity_def integOk_def ikeICV_def hmac_ok_def hashSize_def split: if_splits)

text \<open>The keys, the cipher and the integrity algorithm of one direction of an IKE SA.\<close>

definition skOk :: "crypto_lib \<Rightarrow> hmac_fun \<Rightarrow> IKEEncryptor \<Rightarrow> IkeIntegrity option \<Rightarrow> bytes \<Rightarrow> bool" where
  "skOk cl hmac enc integ encKey \<longleftrightarrow> cipherOk cl enc encKey \<and>
     (\<not> encIsAEAD enc \<longrightarrow> (\<exists>ii. integ = Some ii \<and> integOk hmac ii))"

lemma skPadLen_less: "skPadLen enc n < 256"
proof -
  have "16 - m < (256 :: nat)" for m by simp
  then show ?thesis by (cases enc) (simp_all add: skPadLen_def Let_def encIsAEAD_def encBlockSize_def aesBlockSize_def)
qed

lemma stripSKPadding_skPad: "stripSKPadding (skPad enc p) = Inr p"
  using byte_of_nat_unat [OF skPadLen_less [of enc "length p"]]
  by (simp add: stripSKPadding_def skPad_def Let_def)

lemma sealBody_open:
  assumes "skOk cl hmac enc integ encKey" and "length iv = encIVSize enc"
  shows "\<exists>sk. sealBody cl hmac enc integ encKey integKey iv hdr p = Inr sk \<and>
    decryptSKBody cl hmac enc integ encKey integKey hdr sk = Inr p"
proof (cases "encIsAEAD enc")
  case True
  obtain c where c: "EncryptWith cl enc encKey iv (skPad enc p) hdr = Inr c"
    "DecryptWith cl enc encKey iv c hdr = Inr (skPad enc p)" "c \<noteq> []"
    using decrypt_encrypt [of cl enc encKey iv "skPad enc p" hdr] assms by (auto simp: skOk_def)
  then have "0 < length c" by simp
  with c True assms(2) show ?thesis
    by (simp add: sealBody_def decryptSKBody_def slice_def stripSKPadding_skPad Let_def)
next
  case False
  then obtain ii where ii: "integ = Some ii" "integOk hmac ii" using assms(1) by (auto simp: skOk_def)
  obtain c where c: "EncryptWith cl enc encKey iv (skPad enc p) [] = Inr c"
    "DecryptWith cl enc encKey iv c [] = Inr (skPad enc p)" "c \<noteq> []"
    using decrypt_encrypt [of cl enc encKey iv "skPad enc p" "[]"] assms by (auto simp: skOk_def)
  let ?icv = "ikeICV hmac ii integKey (hdr @ iv @ c)"
  have l: "length ?icv = iiTruncLen ii" using ii(2) by (simp add: integOk_def)
  have "0 < length c" using c by simp
  with c l ii(1) False assms(2) show ?thesis
    by (simp add: sealBody_def decryptSKBody_def slice_def stripSKPadding_skPad Let_def)
qed

text \<open>
  The two decryption routines agree: \<open>DecryptSKPayload\<close> succeeds or fails as \<open>decryptSKBody\<close> of
  the fragment code does, and on success it parses the plaintext that the other returns.
\<close>

lemma decrypt_routines:
  "DecryptSKPayload cl hmac enc integ encKey integKey hdr sk t =
     (case decryptSKBody cl hmac enc integ encKey integKey hdr sk of
        Inl e \<Rightarrow> Inl e
      | Inr p \<Rightarrow> map_sum SkChain id (ParsePayloadChain p t True))"
proof -
  let ?n = "encIVSize enc" and ?s = "length sk"
  have mac: "length a \<noteq> length b \<or> (\<exists>i < length a. a ! i \<noteq> b ! i) \<longleftrightarrow> b \<noteq> a" for a b :: bytes
    by (auto simp: list_eq_iff_nth_eq)
  show ?thesis
  proof (cases "?s < ?n + 1 \<or> encIsAEAD enc")
    case True
    then show ?thesis
      by (cases "?s < ?n + 1") (simp_all add: DecryptSKPayload_def decryptSKBody_def Let_def split: sum.split)
  next
    case False
    show ?thesis
    proof (cases integ)
      case None
      with False show ?thesis by (simp add: DecryptSKPayload_def decryptSKBody_def Let_def)
    next
      case (Some ii)
      let ?k = "iiTruncLen ii"
      show ?thesis
      proof (cases "?s < ?n + ?k + 1")
        case True
        have "?n + 1 \<le> ?s" using False by simp
        then have "length (drop ?n sk) < ?k + 1" unfolding length_drop using True by linarith
        with True False Some show ?thesis by (simp add: DecryptSKPayload_def decryptSKBody_def Let_def del: length_drop)
      next
        case big: False
        then have long: "\<not> ?s - ?n < ?k + 1" by linarith
        have e: "slice 0 (?s - ?n - ?k) (drop ?n sk) = slice ?n (?s - ?k) sk"
          "drop (?s - ?n - ?k) (drop ?n sk) = drop (?s - ?k) sk"
          using big by (simp_all add: slice_def add.commute)
        let ?r = "drop (?s - ?k) sk" and ?x = "ikeICV hmac ii integKey (hdr @ slice 0 ?n sk @ slice ?n (?s - ?k) sk)"
        show ?thesis
        proof (cases "?x = ?r")
          case True
          then have "length ?r = length ?x" "\<not> (\<exists>i < length ?r. ?r ! i \<noteq> ?x ! i)" by simp_all
          with True False Some big long e show ?thesis
            by (simp add: DecryptSKPayload_def decryptSKBody_def ikeVerify_def Let_def split: sum.split)
        next
          case ne: False
          then have "length ?r \<noteq> length ?x \<or> (\<exists>i < length ?r. ?r ! i \<noteq> ?x ! i)" using mac [of ?r ?x] by blast
          with ne False Some big long e show ?thesis
            by (auto simp: DecryptSKPayload_def decryptSKBody_def ikeVerify_def Let_def)
        qed
      qed
    qed
  qed
qed

text \<open>
  Encrypted payloads survive: with a working cipher and integrity algorithm, a fresh IV of
  the right size and IKEv2 payloads whose counters fit, \<open>EncryptSKPayload\<close> succeeds, and
  \<open>DecryptSKPayload\<close> with the same keys, the same message header and the announced first type
  returns the same payloads in order, up to the \<open>IsLast\<close> marks of proposals.
\<close>

theorem sk_roundtrip:
  assumes "skOk cl hmac enc integ encKey" and "length iv = encIVSize enc"
    and "\<forall>p\<in>set payloads. payload_ok True p"
  shows "\<exists>firstPT sk. EncryptSKPayload cl hmac (Some iv) enc integ encKey integKey hdr payloads = Inr (firstPT, sk) \<and>
    DecryptSKPayload cl hmac enc integ encKey integKey hdr sk firstPT = Inr (chainOf payloads)"
proof -
  obtain sk where sk: "sealBody cl hmac enc integ encKey integKey iv hdr (linkPayloads payloads) = Inr sk"
    "decryptSKBody cl hmac enc integ encKey integKey hdr sk = Inr (linkPayloads payloads)"
    using sealBody_open [OF assms(1,2)] by blast
  have "ParsePayloadChain (linkPayloads payloads) (headType payloads) True = Inr (chainOf payloads)"
    using parseChainAt_linkPayloads [OF assms(3), of "[]"] by (simp add: ParsePayloadChain_def)
  with sk show ?thesis
    by (simp add: EncryptSKPayload_def MarshalPayloadChain_eq decrypt_routines)
qed

definition example_lib :: crypto_lib where
  "example_lib = \<lparr>aesNewCipher = (\<lambda>k. Some example_block), cipherNewGCM = (\<lambda>b. Some example_aead), chachaNew = (\<lambda>k. None)\<rparr>"

lemma example_skOk:
  "skOk example_lib example_hmac (AesCBC 12 32) (Some \<lparr>iiID = 12, iiHash = SHA256, iiKeySize = 32, iiTruncLen = 16\<rparr>) key"
proof -
  have "NewIkeIntegrity 12 = Inr \<lparr>iiID = 12, iiHash = SHA256, iiKeySize = 32, iiTruncLen = 16\<rparr>"
    by (simp add: NewIkeIntegrity_def)
  from NewIkeIntegrity_ok [OF example_hmac_ok this] show ?thesis
    by (simp add: skOk_def cipherOk_def example_lib_def)
qed

theorem sk_roundtrip_witness:
  "\<exists>firstPT sk. EncryptSKPayload example_lib example_hmac (Some (replicate 16 9)) (AesCBC 12 32)
       (Some \<lparr>iiID = 12, iiHash = SHA256, iiKeySize = 32, iiTruncLen = 16\<rparr>) [1] [2] [3] [PlNonce [5, 6]] = Inr (firstPT, sk) \<and>
     DecryptSKPayload example_lib example_hmac (AesCBC 12 32)
       (Some \<lparr>iiID = 12, iiHash = SHA256, iiKeySize = 32, iiTruncLen = 16\<rparr>) [1] [2] [3] sk firstPT = Inr (chainOf [PlNonce [5, 6]])"
  by (rule sk_roundtrip [OF example_skOk])
    (simp_all add: encIVSize_def aesBlockSize_def payload_ok_def payloadBody_def)

section \<open>Authenticity\<close>

text \<open>
  With a cipher that does not authenticate, nothing is decrypted that does not carry the
  right integrity value: an SK body that \<open>DecryptSKPayload\<close> accepts ends in the truncated HMAC,
  under the given integrity key, of the message header followed by the rest of the body.
\<close>

theorem sk_accept_authentic:
  assumes "DecryptSKPayload cl hmac enc (Some ii) encKey integKey hdr sk t = Inr chain" and "\<not> encIsAEAD enc"
    and "integOk hmac ii"
  shows "\<exists>body. sk = body @ ikeICV hmac ii integKey (hdr @ body) \<and> encIVSize enc < length body"
proof -
  let ?n = "encIVSize enc" and ?s = "length sk" and ?k = "iiTruncLen ii"
  have big: "\<not> ?s < ?n + 1" "\<not> ?s < ?n + ?k + 1"
    using assms(1,2) by (auto simp: DecryptSKPayload_def Let_def split: if_splits)
  then have v: "ikeICV hmac ii integKey (hdr @ slice 0 ?n sk @ slice ?n (?s - ?k) sk) = drop (?s - ?k) sk"
    using assms(1,2) by (auto simp: DecryptSKPayload_def ikeVerify_def Let_def split: if_splits)
  have "take ?n sk @ take (?s - ?k - ?n) (drop ?n sk) = take (?n + (?s - ?k - ?n)) sk"
    by (rule take_add [symmetric])
  moreover have "?n + (?s - ?k - ?n) = ?s - ?k" using big by linarith
  ultimately have "slice 0 ?n sk @ slice ?n (?s - ?k) sk = take (?s - ?k) sk" by (simp add: slice_def)
  with v have "sk = take (?s - ?k) sk @ ikeICV hmac ii integKey (hdr @ take (?s - ?k) sk)"
    by (metis append_take_drop_id)
  moreover have "?n < length (take (?s - ?k) sk)" using big by simp
  ultimately show ?thesis by blast
qed

theorem sk_accept_authentic_witness:
  "\<exists>sk body. DecryptSKPayload example_lib example_hmac (AesCBC 12 32)
       (Some \<lparr>iiID = 12, iiHash = SHA256, iiKeySize = 32, iiTruncLen = 16\<rparr>) [1] [2] [3] sk 0 = Inr (chainOf []) \<and>
     sk = body @ ikeICV example_hmac \<lparr>iiID = 12, iiHash = SHA256, iiKeySize = 32, iiTruncLen = 16\<rparr> [2] ([3] @ body)"
proof -
  let ?ii = "\<lparr>iiID = 12, iiHash = SHA256, iiKeySize = 32, iiTruncLen = 16\<rparr>"
  obtain sk where sk: "sealBody example_lib example_hmac (AesCBC 12 32) (Some ?ii) [1] [2] (replicate 16 9) [3] [] = Inr sk"
    "decryptSKBody example_lib example_hmac (AesCBC 12 32) (Some ?ii) [1] [2] [3] sk = Inr []"
    using sealBody_open [OF example_skOk, of "replicate 16 9" "[1]" "[2]" "[3]" "[]"]
    by (auto simp: encIVSize_def aesBlockSize_def)
  then have d: "DecryptSKPayload example_lib example_hmac (AesCBC 12 32) (Some ?ii) [1] [2] [3] sk 0 = Inr (chainOf [])"
    by (simp add: decrypt_routines ParsePayloadChain_def parseChainAt.simps)
  have ok: "integOk example_hmac ?ii" by (rule NewIkeIntegrity_ok [of _ 12]) (simp_all add: NewIkeIntegrity_def)
  show ?thesis using sk_accept_authentic [OF d _ ok] d by (auto simp: encIsAEAD_def)
qed

section \<open>Padding\<close>

lemma pkcs7Strip_zero_padding:
  assumes "k < 256" and "k \<noteq> 1" and "p \<noteq> [] \<or> k > 0"
  shows "\<exists>e. pkcs7Strip (p @ replicate k 0 @ [of_nat k]) = Inl e"
proof -
  let ?x = "p @ replicate k 0 @ [of_nat k :: byte]"
  have u: "unat (of_nat k :: byte) = k" using assms(1) by (rule byte_of_nat_unat)
  have ne: "?x \<noteq> []" by simp
  show ?thesis
  proof (cases "k < 1 \<or> k > 16")
    case True
    then show ?thesis using ne u by (simp add: pkcs7Strip_def Let_def aesBlockSize_def)
  next
    case False
    then obtain j where j: "k = Suc (Suc j)" using assms(2) by (cases k; cases "k - 1") auto
    have d: "drop (length ?x - k) ?x = replicate (k - 1) 0 @ [of_nat k]"
      by (simp add: j)
    have nz: "(0 :: byte) \<noteq> of_nat k" using u j by (metis nat.distinct(1) unat_0)
    have "\<exists>x\<in>set (drop (length ?x - k) ?x). x \<noteq> of_nat k"
      unfolding d using nz j by auto
    moreover have "last ?x = of_nat k" by simp
    ultimately show ?thesis using ne u False unfolding pkcs7Strip_def Let_def aesBlockSize_def by auto
  qed
qed

text \<open>
  With AES-CBC the code pads twice: it adds the padding of RFC 7296, 3.14, and \<open>Encrypt\<close> adds
  PKCS#7 padding below it. A body that a peer builds by the RFC alone (payloads, \<open>k\<close> zero bytes
  of padding, the byte \<open>k\<close>, encrypted and with a correct integrity value) is refused for every
  padding length except one.
\<close>

theorem rfc_padding_refused:
  assumes "aesNewCipher cl encKey = Some b" and "block_ok b" and "length iv = 16" and "k < 256" and "k \<noteq> 1"
    and "16 dvd length (p @ replicate k 0 @ [of_nat k])" and "integOk hmac ii"
  shows "let body = iv @ cbcEncrypt b iv (p @ replicate k 0 @ [of_nat k])
    in \<exists>e. DecryptSKPayload cl hmac (AesCBC i ks) (Some ii) encKey integKey hdr
        (body @ ikeICV hmac ii integKey (hdr @ body)) t = Inl e"
proof -
  let ?x = "p @ replicate k 0 @ [of_nat k :: byte]"
  let ?c = "cbcEncrypt b iv ?x"
  let ?icv = "ikeICV hmac ii integKey (hdr @ iv @ ?c)"
  have c: "length ?c = length ?x" "cbcDecrypt b iv ?c = ?x"
    using cbc_roundtrip [OF assms(2,3,6)] by blast+
  have l: "length ?icv = iiTruncLen ii" using assms(7) by (simp add: integOk_def)
  have "p \<noteq> [] \<or> k > 0"
  proof (rule ccontr)
    assume "\<not> (p \<noteq> [] \<or> k > 0)"
    with assms(6) show False by simp
  qed
  with pkcs7Strip_zero_padding [OF assms(4,5)] obtain e where e: "pkcs7Strip ?x = Inl e" by blast
  have "length ?c mod 16 = 0" using assms(6) c(1) by (simp only: dvd_imp_mod_0)
  then have d: "DecryptWith cl (AesCBC i ks) encKey iv ?c [] = Inl e"
    using assms(1,3) c(2) e by (simp add: DecryptWith_def cbcOpen_def aesBlockSize_def)
  have "DecryptSKPayload cl hmac (AesCBC i ks) (Some ii) encKey integKey hdr ((iv @ ?c) @ ?icv) t = Inl (SkCipher e)"
    using assms(3) l d c(1)
    by (simp add: DecryptSKPayload_def encIVSize_def aesBlockSize_def encIsAEAD_def ikeVerify_def slice_def Let_def)
  then show ?thesis by (simp add: Let_def)
qed

theorem rfc_padding_refused_witness:
  "\<exists>e. DecryptSKPayload example_lib example_hmac (AesCBC 12 32) (Some \<lparr>iiID = 12, iiHash = SHA256, iiKeySize = 32, iiTruncLen = 16\<rparr>)
     [1] [2] [3] ((replicate 16 9 @ cbcEncrypt example_block (replicate 16 9) (replicate 12 7 @ replicate 3 0 @ [3])) @
       ikeICV example_hmac \<lparr>iiID = 12, iiHash = SHA256, iiKeySize = 32, iiTruncLen = 16\<rparr> [2]
         ([3] @ replicate 16 9 @ cbcEncrypt example_block (replicate 16 9) (replicate 12 7 @ replicate 3 0 @ [3]))) 33 = Inl e"
proof -
  let ?ii = "\<lparr>iiID = 12, iiHash = SHA256, iiKeySize = 32, iiTruncLen = 16\<rparr>"
  have ok: "integOk example_hmac ?ii" by (rule NewIkeIntegrity_ok [of _ 12]) (simp_all add: NewIkeIntegrity_def)
  have lib: "aesNewCipher example_lib [1] = Some example_block" by (simp add: example_lib_def)
  show ?thesis
    using rfc_padding_refused [OF lib example_block_ok, of "replicate 16 9" 3 "replicate 12 7" example_hmac ?ii 12 32 "[2]" "[3]" 33] ok
    by (simp add: Let_def)
qed

end
