(* ===== verification/IkeFragment.thy ===== *)
theory IkeFragment
  imports IkeV2Session "HOL-Library.AList"
begin

unbundle bit_operations_syntax

text \<open>
  IKEv2 fragmentation (\<^verbatim>\<open>internal/ike/fragment.go\<close>): the reassembly cache of a message, the
  manager of the caches, splitting a message into fragments, and the processing of one.
  A Go map is an association list with distinct keys; a cache that the manager hands out by
  pointer is written back under its key.
\<close>

section \<open>The cache of a message\<close>

record FragmentCache =
  fcMsgID :: u32
  fcTotal :: u16
  fcFragments :: "(u16 \<times> bytes) list"

datatype frag_error =
    InvalidFragment u16 u16
  | FragmentBeyondTotal u16 u16
  | TotalChanged u16 u16
  | Incomplete nat u16
  | MissingFragment u16
  | FragmentMTUTooSmall
  | TooManyFragments nat
  | FragRandFailed
  | FragCrypto sk_error
  | FragPanic

definition NewFragmentCache :: "u32 \<Rightarrow> FragmentCache" where
  "NewFragmentCache msgID = \<lparr>fcMsgID = msgID, fcTotal = 0, fcFragments = []\<rparr>"

definition AddFragment ::
  "FragmentCache \<Rightarrow> u16 \<Rightarrow> u16 \<Rightarrow> bytes \<Rightarrow> (frag_error + bool) \<times> FragmentCache" where
  "AddFragment fc fragNum totalFrags plaintext =
     (if fragNum = 0 \<or> totalFrags = 0 then (Inl (InvalidFragment fragNum totalFrags), fc)
      else if fragNum > totalFrags then (Inl (FragmentBeyondTotal fragNum totalFrags), fc)
      else if fcTotal fc \<noteq> 0 \<and> fcTotal fc \<noteq> totalFrags then (Inl (TotalChanged (fcTotal fc) totalFrags), fc)
      else
      (let fc' = fc\<lparr>fcTotal := totalFrags, fcFragments := AList.update fragNum plaintext (fcFragments fc)\<rparr>
       in (Inr (of_nat (length (fcFragments fc')) = fcTotal fc'), fc')))"

text \<open>
  \<^verbatim>\<open>for i := uint16(1); i <= tot; i++\<close>: the test of the first loop, which looks for a missing
  fragment, and the concatenation of the second, which repeats it. The counter wraps.
\<close>

partial_function (option) reassembleLoop ::
  "(u16 \<times> bytes) list \<Rightarrow> u16 \<Rightarrow> u16 \<Rightarrow> bytes \<Rightarrow> (frag_error + bytes) option" where
  "reassembleLoop fragments tot i result =
     (if i \<le> tot then
        (case map_of fragments i of
           None \<Rightarrow> Some (Inl (MissingFragment i))
         | Some chunk \<Rightarrow> reassembleLoop fragments tot (i + 1) (result @ chunk))
      else Some (Inr result))"

definition Reassemble :: "FragmentCache \<Rightarrow> (frag_error + bytes) option" where
  "Reassemble fc =
     (if fcTotal fc = 0 \<or> of_nat (length (fcFragments fc)) \<noteq> fcTotal fc
      then Some (Inl (Incomplete (length (fcFragments fc)) (fcTotal fc)))
      else reassembleLoop (fcFragments fc) (fcTotal fc) 1 [])"

section \<open>The manager\<close>

type_synonym FragmentManager = "bytes \<times> u32 \<Rightarrow> FragmentCache option"

definition NewFragmentManager :: FragmentManager where
  "NewFragmentManager = Map.empty"

definition GetOrCreate :: "FragmentManager \<Rightarrow> bytes \<Rightarrow> u32 \<Rightarrow> FragmentCache \<times> FragmentManager" where
  "GetOrCreate fm spiPair msgID =
     (case fm (spiPair, msgID) of
        Some cache \<Rightarrow> (cache, fm)
      | None \<Rightarrow> (let cache = NewFragmentCache msgID in (cache, fm((spiPair, msgID) \<mapsto> cache))))"

definition RemoveCache :: "FragmentManager \<Rightarrow> bytes \<Rightarrow> u32 \<Rightarrow> FragmentManager" where
  "RemoveCache fm spiPair msgID = fm((spiPair, msgID) := None)"

section \<open>Sending fragments\<close>

definition DefaultFragmentMTU :: nat where "DefaultFragmentMTU = 1200"

function chunksOf :: "nat \<Rightarrow> bytes \<Rightarrow> bytes list" where
  "chunksOf k xs = (if k = 0 \<or> xs = [] then [] else take k xs # chunksOf k (drop k xs))"
  by pat_completeness auto
termination by (relation "measure (\<lambda>(_, xs). length xs)") auto

declare chunksOf.simps [simp del]

definition fragmentHeader :: "IKEv2Session \<Rightarrow> byte \<Rightarrow> byte \<Rightarrow> bool \<Rightarrow> u32 \<Rightarrow> IkeHeader" where
  "fragmentHeader sess np exchangeType isResponse msgID =
     \<lparr>InitiatorSPI = s2InitiatorSPI sess, ResponderSPI = s2ResponderSPI sess, HdrNextPayload = np,
      MajorVersion = IKEv2Major, MinorVersion = 0, Exchange = exchangeType,
      HdrFlags = (if isResponse then FlagResponse else FlagInitiator), MessageID = msgID, IkeLength = 0\<rparr>"

text \<open>The additional data of a fragment: the header as it is before its length is known.\<close>

definition fragmentAAD :: "IKEv2Session \<Rightarrow> byte \<Rightarrow> bool \<Rightarrow> u32 \<Rightarrow> bytes" where
  "fragmentAAD sess exchangeType isResponse msgID =
     MarshalBinary (fragmentHeader sess PayloadSKF exchangeType isResponse msgID)"

text \<open>The messages for the chunks from number \<open>i\<close> on; \<open>rnd\<close> is the randomness of each.\<close>

fun fragmentLoop ::
  "crypto_lib \<Rightarrow> hmac_fun \<Rightarrow> (nat \<Rightarrow> bytes option) \<Rightarrow> IKEv2Session \<Rightarrow> byte \<Rightarrow> bool \<Rightarrow> u32 \<Rightarrow> byte \<Rightarrow> u16
   \<Rightarrow> nat \<Rightarrow> bytes list \<Rightarrow> frag_error + Message list" where
  "fragmentLoop cl hmac rnd sess exch isResp msgID firstPT tot i [] = Inr []"
| "fragmentLoop cl hmac rnd sess exch isResp msgID firstPT tot i (chunk # chunks) =
     (let fragNum = of_nat (i + 1) :: u16 in
      case rnd i of
        None \<Rightarrow> Inl FragRandFailed
      | Some iv \<Rightarrow>
          (case sealBody cl hmac (Encryptor sess) (IntegAlg sess) (SK_er (Keys sess)) (SK_ar (Keys sess)) iv
                  (fragmentAAD sess exch isResp msgID) chunk of
             Inl e \<Rightarrow> Inl (if e = SkNoIntegrity then FragPanic else FragCrypto e)
           | Inr encryptedBody \<Rightarrow>
               (let skf = \<lparr>FragmentNumber = fragNum, TotalFragments = tot, skfData = encryptedBody\<rparr>;
                    msg = \<lparr>mHeader = fragmentHeader sess (if fragNum = 1 then firstPT else PayloadNone) exch isResp msgID,
                           mPayloads = [\<lparr>ppHeader = \<lparr>gphNext = PayloadNone, Critical = False, gphLength = 0\<rparr>,
                                         ppPayload = PlSKF skf\<rparr>],
                           RawMessage = []\<rparr>
                in
                case fragmentLoop cl hmac rnd sess exch isResp msgID firstPT tot (i + 1) chunks of
                  Inl e \<Rightarrow> Inl e
                | Inr msgs \<Rightarrow> Inr (msg # msgs))))"

definition FragmentSKPayload ::
  "crypto_lib \<Rightarrow> hmac_fun \<Rightarrow> (nat \<Rightarrow> bytes option) \<Rightarrow> IKEv2Session \<Rightarrow> byte \<Rightarrow> bool \<Rightarrow> u32 \<Rightarrow> Payload list \<Rightarrow> int
   \<Rightarrow> frag_error + Message list" where
  "FragmentSKPayload cl hmac rnd sess exch isResp msgID innerPayloads maxFragSize0 =
     (let maxFragSize = (if maxFragSize0 \<le> 0 then DefaultFragmentMTU else nat maxFragSize0);
          (plaintext, firstPT) = MarshalPayloadChain innerPayloads;
          ivSize = encIVSize (Encryptor sess);
          icvSize = (if encIsAEAD (Encryptor sess) then 16
                     else case IntegAlg sess of None \<Rightarrow> 0 | Some ii \<Rightarrow> iiTruncLen ii)
      in
      if maxFragSize \<le> ivSize + icvSize + 1 then Inl FragmentMTUTooSmall
      else
      (let chunks = chunksOf (maxFragSize - ivSize - icvSize - 1) plaintext in
       if length chunks > 65535 then Inl (TooManyFragments (length chunks))
       else fragmentLoop cl hmac rnd sess exch isResp msgID firstPT (of_nat (length chunks)) 0 chunks))"

section \<open>Receiving a fragment\<close>

text \<open>The result \<^const>\<open>None\<close> is a reassembly that does not end.\<close>

definition ReassembleFragment ::
  "crypto_lib \<Rightarrow> hmac_fun \<Rightarrow> FragmentManager \<Rightarrow> IKEv2Session \<Rightarrow> Message \<Rightarrow> SKFPayload
   \<Rightarrow> ((frag_error + bytes \<times> byte \<times> bool) \<times> FragmentManager) option" where
  "ReassembleFragment cl hmac fm sess msg skf =
     (let spiPair = v2SPIPair sess; msgID = MessageID (mHeader msg) in
      case decryptSKBody cl hmac (Encryptor sess) (IntegAlg sess) (SK_ei (Keys sess)) (SK_ai (Keys sess))
             (MarshalBinary (mHeader msg)) (skfData skf) of
        Inl e \<Rightarrow> Some (Inl (FragCrypto e), fm)
      | Inr plainChunk \<Rightarrow>
          (let (cache, fm1) = GetOrCreate fm spiPair msgID;
               (res, cache') = AddFragment cache (FragmentNumber skf) (TotalFragments skf) plainChunk;
               fm2 = fm1((spiPair, msgID) \<mapsto> cache')
           in
           case res of
             Inl e \<Rightarrow> Some (Inl e, fm2)
           | Inr complete \<Rightarrow>
               if \<not> complete then Some (Inr ([], 0, False), fm2)
               else
               (case Reassemble cache' of
                  None \<Rightarrow> None
                | Some (Inl e) \<Rightarrow> Some (Inl e, RemoveCache fm2 spiPair msgID)
                | Some (Inr reassembled) \<Rightarrow>
                    Some (Inr (reassembled,
                            if FragmentNumber skf \<noteq> 1 then PayloadNone else HdrNextPayload (mHeader msg), True),
                          RemoveCache fm2 spiPair msgID))))"

section \<open>Reassembly in any order\<close>

text \<open>A cache that holds fragments of the message with the given chunks.\<close>

definition fc_holds :: "bytes list \<Rightarrow> FragmentCache \<Rightarrow> bool" where
  "fc_holds chunks fc \<longleftrightarrow> distinct (map fst (fcFragments fc)) \<and>
     (fcTotal fc = 0 \<and> fcFragments fc = [] \<or> fcTotal fc = of_nat (length chunks)) \<and>
     (\<forall>(k, v)\<in>set (fcFragments fc). 1 \<le> unat k \<and> unat k \<le> length chunks \<and> v = chunks ! (unat k - 1))"

lemma fc_holds_new: "fc_holds chunks (NewFragmentCache i)"
  by (simp add: fc_holds_def NewFragmentCache_def)

lemma update_subset_set: "set (AList.update k v al) \<subseteq> insert (k, v) (set al)"
  by (induction al) auto

lemma AddFragment_holds:
  assumes h: "fc_holds chunks fc" and n: "length chunks < 65536" "1 \<le> k" "k \<le> length chunks"
  shows "\<exists>fin fc'. AddFragment fc (of_nat k) (of_nat (length chunks)) (chunks ! (k - 1)) = (Inr fin, fc') \<and>
    fc_holds chunks fc' \<and> fcTotal fc' = of_nat (length chunks) \<and>
    fst ` set (fcFragments fc') = insert (of_nat k) (fst ` set (fcFragments fc)) \<and>
    (fin \<longleftrightarrow> of_nat (length (fcFragments fc')) = (of_nat (length chunks) :: u16))"
proof -
  have u: "unat (of_nat k :: u16) = k" "unat (of_nat (length chunks) :: u16) = length chunks"
    using n by (simp_all add: u16_of_nat_unat)
  have z: "(of_nat k :: u16) \<noteq> 0" "(of_nat (length chunks) :: u16) \<noteq> 0"
    using n u by (metis not_one_le_zero unat_0, metis le_zero_eq not_one_le_zero unat_0)
  have le: "\<not> of_nat k > (of_nat (length chunks) :: u16)" using u n(3) by (simp add: word_less_nat_alt)
  have t: "\<not> (fcTotal fc \<noteq> 0 \<and> fcTotal fc \<noteq> of_nat (length chunks))" using h unfolding fc_holds_def by blast
  let ?fc' = "fc\<lparr>fcTotal := of_nat (length chunks), fcFragments := AList.update (of_nat k) (chunks ! (k - 1)) (fcFragments fc)\<rparr>"
  have d: "distinct (map fst (fcFragments fc))" using h by (simp add: fc_holds_def)
  have e: "\<forall>(k', v)\<in>set (fcFragments ?fc'). 1 \<le> unat k' \<and> unat k' \<le> length chunks \<and> v = chunks ! (unat k' - 1)"
  proof (clarify, intro conjI)
    fix k' v assume "(k', v) \<in> set (fcFragments ?fc')"
    then have "(k', v) \<in> set (fcFragments fc) \<or> (k' = of_nat k \<and> v = chunks ! (k - 1))"
      using update_subset_set [of "of_nat k" "chunks ! (k - 1)" "fcFragments fc"] by fastforce
    then have "1 \<le> unat k' \<and> unat k' \<le> length chunks \<and> v = chunks ! (unat k' - 1)"
      using h n u(1) unfolding fc_holds_def by auto
    then show "1 \<le> unat k'" "unat k' \<le> length chunks" "v = chunks ! (unat k' - 1)" by simp_all
  qed
  have "fc_holds chunks ?fc'"
    unfolding fc_holds_def using d e by (simp add: distinct_update)
  moreover have "fst ` set (fcFragments ?fc') = insert (of_nat k) (fst ` set (fcFragments fc))"
    using dom_update [of "of_nat k :: u16" "chunks ! (k - 1)" "fcFragments fc"] by simp
  ultimately show ?thesis
    using z le t by (simp add: AddFragment_def Let_def)
qed

definition feed :: "bytes list \<Rightarrow> FragmentCache \<Rightarrow> nat \<Rightarrow> FragmentCache" where
  "feed chunks fc k = snd (AddFragment fc (of_nat k) (of_nat (length chunks)) (chunks ! (k - 1)))"

lemma feed_all:
  assumes "length chunks < 65536" and "\<forall>k\<in>set ks. 1 \<le> k \<and> k \<le> length chunks"
  shows "fc_holds chunks (foldl (feed chunks) (NewFragmentCache i) ks) \<and>
    fst ` set (fcFragments (foldl (feed chunks) (NewFragmentCache i) ks)) = of_nat ` set ks \<and>
    fcTotal (foldl (feed chunks) (NewFragmentCache i) ks) = (if ks = [] then 0 else of_nat (length chunks))"
  using assms(2)
proof (induction ks rule: rev_induct)
  case Nil
  then show ?case by (simp add: fc_holds_def NewFragmentCache_def)
next
  case (snoc k ks)
  let ?fc = "foldl (feed chunks) (NewFragmentCache i) ks"
  have ih: "fc_holds chunks ?fc" "fst ` set (fcFragments ?fc) = of_nat ` set ks" using snoc by simp_all
  obtain fin fc' where f: "AddFragment ?fc (of_nat k) (of_nat (length chunks)) (chunks ! (k - 1)) = (Inr fin, fc')"
    "fc_holds chunks fc'" "fcTotal fc' = of_nat (length chunks)"
    "fst ` set (fcFragments fc') = insert (of_nat k) (fst ` set (fcFragments ?fc))"
    using AddFragment_holds [OF ih(1) assms(1), of k] snoc.prems by auto
  then have "feed chunks ?fc k = fc'" by (simp add: feed_def)
  with f ih show ?case by simp
qed

lemma reassembleLoop_run:
  assumes "\<forall>j. 1 \<le> j \<and> j \<le> length chunks \<longrightarrow> map_of frs (of_nat j) = Some (chunks ! (j - 1))"
    and "length chunks < 65536" and "1 \<le> i" and "i \<le> Suc (length chunks)"
  shows "reassembleLoop frs (of_nat (length chunks)) (of_nat i) acc =
    reassembleLoop frs (of_nat (length chunks)) (of_nat (Suc (length chunks))) (acc @ concat (drop (i - 1) chunks))"
  using assms(3,4)
proof (induction "Suc (length chunks) - i" arbitrary: i acc)
  case 0
  then have "i = Suc (length chunks)" by simp
  then show ?case by simp
next
  case (Suc x)
  then have i: "i \<le> length chunks" by simp
  have le: "of_nat i \<le> (of_nat (length chunks) :: u16)"
    using i assms(2) by (simp add: word_le_nat_alt u16_of_nat_unat)
  have m: "map_of frs (of_nat i) = Some (chunks ! (i - 1))" using assms(1) i Suc.prems(1) by blast
  have d: "concat (drop (i - 1) chunks) = chunks ! (i - 1) @ concat (drop i chunks)"
  proof -
    have "i - 1 < length chunks" using i Suc.prems(1) by linarith
    then have "drop (i - 1) chunks = chunks ! (i - 1) # drop (Suc (i - 1)) chunks" by (simp add: Cons_nth_drop_Suc)
    with Suc.prems(1) show ?thesis by simp
  qed
  have "reassembleLoop frs (of_nat (length chunks)) (of_nat i) acc =
      reassembleLoop frs (of_nat (length chunks)) (of_nat (Suc i)) (acc @ chunks ! (i - 1))"
    using le m by (subst reassembleLoop.simps) (simp add: add.commute)
  moreover have "x = Suc (length chunks) - Suc i" using Suc.hyps(2) by linarith
  ultimately show ?case
    using Suc.hyps(1) [of "Suc i" "acc @ chunks ! (i - 1)"] i d by (simp del: of_nat_Suc)
qed

lemma map_of_holds:
  assumes "fc_holds chunks fc" and "fst ` set (fcFragments fc) = of_nat ` {1..length chunks}" and "length chunks < 65536"
  shows "\<forall>j. 1 \<le> j \<and> j \<le> length chunks \<longrightarrow> map_of (fcFragments fc) (of_nat j) = Some (chunks ! (j - 1))"
proof (intro allI impI)
  fix j assume j: "1 \<le> j \<and> j \<le> length chunks"
  then have "of_nat j \<in> fst ` set (fcFragments fc)" using assms(2) by simp
  then obtain v where v: "(of_nat j, v) \<in> set (fcFragments fc)" by auto
  have "unat (of_nat j :: u16) = j" using j assms(3) by (simp add: u16_of_nat_unat)
  with v assms(1) have "v = chunks ! (j - 1)" unfolding fc_holds_def by auto
  with v assms(1) show "map_of (fcFragments fc) (of_nat j) = Some (chunks ! (j - 1))"
    by (simp add: fc_holds_def)
qed

lemma length_fragments:
  assumes "fc_holds chunks fc" and "fst ` set (fcFragments fc) = of_nat ` K" and "K \<subseteq> {1..length chunks}"
    and "length chunks < 65536"
  shows "length (fcFragments fc) = card K"
proof -
  have "length (fcFragments fc) = card (fst ` set (fcFragments fc))"
    using assms(1) distinct_card [of "map fst (fcFragments fc)"] by (simp add: fc_holds_def)
  moreover have "inj_on (of_nat :: nat \<Rightarrow> u16) K"
  proof (rule inj_onI)
    fix x y assume "x \<in> K" "y \<in> K" "of_nat x = (of_nat y :: u16)"
    moreover from this have "x < 65536" "y < 65536" using assms(3,4) by fastforce+
    ultimately show "x = y" using u16_of_nat_unat by metis
  qed
  ultimately show ?thesis using assms(2) by (simp add: card_image)
qed

text \<open>
  C38. Reassembly depends on which fragments arrived, not on their order or on repetitions: feed
  a new cache the fragments of a message with fewer than 65535 chunks, in any order, some of
  them several times; \<open>Reassemble\<close> returns the message exactly when all of them were fed, and
  reports it incomplete otherwise.
\<close>

theorem fragments_reassemble:
  assumes "0 < length chunks" and "length chunks < 65535" and "set ks \<subseteq> {1..length chunks}"
  shows "Reassemble (foldl (feed chunks) (NewFragmentCache i) ks) =
    Some (if set ks = {1..length chunks} then Inr (concat chunks)
          else Inl (Incomplete (card (set ks)) (if ks = [] then 0 else of_nat (length chunks))))"
proof -
  let ?fc = "foldl (feed chunks) (NewFragmentCache i) ks" and ?n = "length chunks"
  have n: "?n < 65536" "\<forall>k\<in>set ks. 1 \<le> k \<and> k \<le> ?n" using assms(2,3) by auto
  have h: "fc_holds chunks ?fc" "fst ` set (fcFragments ?fc) = of_nat ` set ks"
    "fcTotal ?fc = (if ks = [] then 0 else of_nat ?n)"
    using feed_all [OF n, of i] by blast+
  have len: "length (fcFragments ?fc) = card (set ks)" by (rule length_fragments [OF h(1,2) assms(3) n(1)])
  have cn: "card (set ks) \<le> ?n" using card_mono [OF _ assms(3)] by simp
  show ?thesis
  proof (cases "set ks = {1..?n}")
    case True
    have ne: "ks \<noteq> []"
    proof
      assume "ks = []"
      with True have "{1..?n} = {}" by simp
      with assms(1) show False by (simp add: Suc_le_eq)
    qed
    have nz: "(of_nat ?n :: u16) \<noteq> 0" using assms(1) u16_of_nat_unat [OF n(1)] by (metis less_numeral_extra(3) unat_0)
    have stop: "\<not> (of_nat (Suc ?n) :: u16) \<le> of_nat ?n"
    proof -
      have "unat (of_nat (Suc ?n) :: u16) = Suc ?n" using assms(2) by (intro u16_of_nat_unat) simp
      then show ?thesis using u16_of_nat_unat [OF n(1)] by (simp add: word_le_nat_alt)
    qed
    have "reassembleLoop (fcFragments ?fc) (of_nat ?n) (of_nat 1) [] = Some (Inr (concat chunks))"
      using reassembleLoop_run [OF map_of_holds [OF h(1) _ n(1)] n(1), of 1 "[]"] h(2) True stop
      by (simp add: reassembleLoop.simps [of _ _ "of_nat (Suc ?n)"] del: of_nat_Suc)
    with True len ne nz h(3) show ?thesis by (simp add: Reassemble_def)
  next
    case False
    have "card (set ks) < ?n"
      using False assms(3) psubset_card_mono [of "{1..?n}" "set ks"] by auto
    then have "ks \<noteq> [] \<Longrightarrow> of_nat (card (set ks)) \<noteq> (of_nat ?n :: u16)"
      using u16_of_nat_unat [OF n(1)] u16_of_nat_unat [of "card (set ks)"] n(1) by (metis less_trans nat_neq_iff)
    with False len h(3) show ?thesis by (auto simp: Reassemble_def)
  qed
qed

theorem fragments_reassemble_witness:
  "Reassemble (foldl (feed [[1, 2], [3], [4, 5]]) (NewFragmentCache 7) [3, 1, 3, 2]) = Some (Inr [1, 2, 3, 4, 5])"
proof -
  have s: "set [3, 1, 3, 2 :: nat] = {1..length [[1, 2], [3], [4, 5 :: byte]]}" by (auto simp: numeral_eq_Suc atLeastAtMostSuc_conv)
  show ?thesis using fragments_reassemble [of "[[1, 2], [3], [4, 5]]" "[3, 1, 3, 2]" 7] s by auto
qed

text \<open>
  The largest message that the format allows is never delivered: with 65535 fragments, all
  received, the 16-bit counter of \<open>Reassemble\<close> wraps to fragment 0 and reports it missing.
\<close>

theorem max_fragments_never_reassemble:
  assumes "length chunks = 65535" and "set ks = {1..65535}"
  shows "Reassemble (foldl (feed chunks) (NewFragmentCache i) ks) = Some (Inl (MissingFragment 0))"
proof -
  let ?fc = "foldl (feed chunks) (NewFragmentCache i) ks" and ?n = "length chunks"
  have n: "?n < 65536" "\<forall>k\<in>set ks. 1 \<le> k \<and> k \<le> ?n" using assms by auto
  note fa = feed_all [OF n, of i]
  have ne: "ks \<noteq> []" using assms(2) by auto
  then have h: "fc_holds chunks ?fc" "fst ` set (fcFragments ?fc) = of_nat ` set ks" "fcTotal ?fc = of_nat ?n"
    using fa by simp_all
  have len: "length (fcFragments ?fc) = 65535"
    using length_fragments [OF h(1,2) _ n(1)] assms by simp
  have z: "map_of (fcFragments ?fc) 0 = None"
  proof (rule ccontr)
    assume "map_of (fcFragments ?fc) 0 \<noteq> None"
    then obtain v where "(0, v) \<in> set (fcFragments ?fc)" by (auto dest: map_of_SomeD)
    with h(1) have "1 \<le> unat (0 :: u16)" unfolding fc_holds_def by auto
    then show False by simp
  qed
  have w: "(of_nat (Suc ?n) :: u16) = 0" using assms(1) by simp
  have "reassembleLoop (fcFragments ?fc) (of_nat ?n) 0 (concat chunks) = Some (Inl (MissingFragment 0))"
    using z by (subst reassembleLoop.simps) simp
  with reassembleLoop_run [OF map_of_holds [OF h(1) _ n(1)] n(1), of 1 "[]"] h(2) assms
  have "reassembleLoop (fcFragments ?fc) (of_nat ?n) 1 [] = Some (Inl (MissingFragment 0))"
    unfolding w by simp
  with len h(3) assms(1) show ?thesis by (simp add: Reassemble_def)
qed

theorem max_fragments_never_reassemble_witness:
  "Reassemble (foldl (feed (replicate 65535 [])) (NewFragmentCache 7) [1..<65536]) = Some (Inl (MissingFragment 0))"
  by (rule max_fragments_never_reassemble) (simp_all add: atLeastLessThanSuc_atLeastAtMost [symmetric])

end
