(* ===== verification/IkeV2Init.thy ===== *)
theory IkeV2Init
  imports IkeFragment
begin

unbundle bit_operations_syntax

text \<open>
  The IKE_SA_INIT exchange of the IKEv2 responder (\<^verbatim>\<open>internal/ike/ikev2_init.go\<close>). The
  libraries the daemon calls are one record, \<open>ike_lib\<close>: the ciphers, HMAC, the digests, the
  elliptic curves, and the two orders in which Go walks the map of a proposal's transforms.
  A handler is the configuration it was created with. Random draws are a record of arguments.
  A message is serialised by a method that completes its header, so the message that a handler
  returns is the completed one.
\<close>

section \<open>The handler\<close>

record ike_lib =
  ilCrypto :: crypto_lib
  ilHmac :: hmac_fun
  ilDigests :: digests
  ilEcdh :: ecdh_lib
  ilOrdE :: "Proposal \<Rightarrow> byte list"
  ilOrdB :: "Proposal \<Rightarrow> byte list"

record IKEv2Handler =
  defaultIKEProposals :: SAPayload
  defaultChildProposals :: SAPayload
  getConnPSK :: "udp_addr \<Rightarrow> bytes \<Rightarrow> (bytes \<times> bytes) option"
  getEAPCredentials :: "(bytes \<Rightarrow> bytes option) option"
  hLocalID :: bytes
  hLocalIDType :: byte
  cookieMode :: CookieMode
  cookieSecret :: bytes

definition NewIKEv2Handler ::
  "bytes option \<Rightarrow> (udp_addr \<Rightarrow> bytes \<Rightarrow> (bytes \<times> bytes) option) \<Rightarrow> (bytes \<Rightarrow> bytes option) option \<Rightarrow> bytes \<Rightarrow> byte
   \<Rightarrow> CookieMode \<Rightarrow> IKEv2Handler" where
  "NewIKEv2Handler rnd psk creds lid lidType mode =
     \<lparr>defaultIKEProposals = DefaultIKEProposals, defaultChildProposals = DefaultESPProposals, getConnPSK = psk,
      getEAPCredentials = creds, hLocalID = lid, hLocalIDType = lidType, cookieMode = mode,
      cookieSecret = (case rnd of None \<Rightarrow> replicate 32 0 | Some secret \<Rightarrow> secret)\<rparr>"

datatype v2_error =
    V2Panic
  | V2SpiDraws
  | V2Rand
  | V2Crypto crypto_error
  | V2Keys derive_error
  | V2Marshal ike_error
  | V2State IKEv2State
  | V2Missing byte
  | V2Sk sk_error
  | V2NoPSK
  | V2Eap eap_error
  | V2EapCode byte
  | V2EapState
  | V2NoSession
  | V2NoPayloads
  | V2NotSK

record v2_draws =
  drSPI :: "bytes option list"
  drPrivInt :: "nat option"
  drPrivBytes :: bytes
  drNonce :: "bytes option"
  drChildSPI :: "bytes option"
  drIV :: "bytes option"
  drChallenge :: "bytes option"

abbreviation (input) NotifyInvalidSyntax :: u16 where "NotifyInvalidSyntax \<equiv> 7"
abbreviation (input) NotifyNoProposalChosen :: u16 where "NotifyNoProposalChosen \<equiv> 14"
abbreviation (input) NotifyInvalidKEPayload :: u16 where "NotifyInvalidKEPayload \<equiv> 17"
abbreviation (input) NotifyAuthenticationFailed :: u16 where "NotifyAuthenticationFailed \<equiv> 24"
abbreviation (input) NotifyNoAdditionalSAS :: u16 where "NotifyNoAdditionalSAS \<equiv> 35"
abbreviation (input) NotifyInitialContact :: u16 where "NotifyInitialContact \<equiv> 16384"
abbreviation (input) NotifyNATDetectionSourceIP :: u16 where "NotifyNATDetectionSourceIP \<equiv> 16388"
abbreviation (input) NotifyNATDetectionDestIP :: u16 where "NotifyNATDetectionDestIP \<equiv> 16389"
abbreviation (input) NotifyCookie :: u16 where "NotifyCookie \<equiv> 16390"
abbreviation (input) NotifyIKEv2FragmentationSupported :: u16 where "NotifyIKEv2FragmentationSupported \<equiv> 16430"

text \<open>\<^verbatim>\<open>ParsedPayload{Payload: p}\<close> and \<^verbatim>\<open>&NotifyPayload{NotifyMsgType: t, NotifyData: data}\<close>.\<close>

definition ppOf :: "Payload \<Rightarrow> ParsedPayload" where
  "ppOf p = \<lparr>ppHeader = \<lparr>gphNext = 0, Critical = False, gphLength = 0\<rparr>, ppPayload = p\<rparr>"

definition notifyOf :: "u16 \<Rightarrow> bytes \<Rightarrow> Payload" where
  "notifyOf t data = PlNotify \<lparr>ntfProtocolID = 0, ntfSPISize = 0, NotifyMsgType = t, ntfSPI = [], NotifyData = data\<rparr>"

lemma ppPayload_ppOf [simp]: "ppPayload (ppOf p) = p"
  by (simp add: ppOf_def)

definition responseHeader :: "bytes \<Rightarrow> bytes \<Rightarrow> byte \<Rightarrow> u32 \<Rightarrow> IkeHeader" where
  "responseHeader spiI spiR exch msgID =
     SetResponseFlags False (SetIKEv2
       \<lparr>InitiatorSPI = spiI, ResponderSPI = spiR, HdrNextPayload = 0, MajorVersion = 0, MinorVersion = 0,
        Exchange = exch, HdrFlags = 0, MessageID = msgID, IkeLength = 0\<rparr>)"

section \<open>Errors and cookies\<close>

definition findNotifyPayload :: "ParsedPayload list \<Rightarrow> u16 \<Rightarrow> NotifyPayload option" where
  "findNotifyPayload chain t =
     findPayloadAs (\<lambda>p. case asNotify p of Some n \<Rightarrow> if NotifyMsgType n = t then Some n else None | None \<Rightarrow> None) chain"

definition buildSAInitError :: "Message \<Rightarrow> u16 \<Rightarrow> bytes \<Rightarrow> Message" where
  "buildSAInitError req t data =
     \<lparr>mHeader = responseHeader (InitiatorSPI (mHeader req)) (replicate 8 0) ExchangeIKESAInit 0,
      mPayloads = [ppOf (notifyOf t data)], RawMessage = []\<rparr>"

definition cookiePRF :: PRFAlgorithm where
  "cookiePRF = \<lparr>prfID = PRFHMAC_SHA256, prfHash = SHA256, prfKeySize = 32, prfOutSize = 32\<rparr>"

definition buildCookieResponse :: "ike_lib \<Rightarrow> IKEv2Handler \<Rightarrow> Message \<Rightarrow> udp_addr \<Rightarrow> bytes \<Rightarrow> Message" where
  "buildCookieResponse lib h req peerAddr ni =
     \<lparr>mHeader = responseHeader (InitiatorSPI (mHeader req)) (replicate 8 0) ExchangeIKESAInit 0,
      mPayloads = [ppOf (notifyOf NotifyCookie
        (GenerateSAInitCookie (ilDigests lib) cookiePRF (cookieSecret h) (Some peerAddr) (InitiatorSPI (mHeader req)) ni))],
      RawMessage = []\<rparr>"

section \<open>NAT detection\<close>

definition natStep :: "ike_lib \<Rightarrow> IKEv2Session \<Rightarrow> ParsedPayload \<Rightarrow> IKEv2Session" where
  "natStep lib sess pp =
     (case asNotify (ppPayload pp) of
        None \<Rightarrow> sess
      | Some n \<Rightarrow>
          if NotifyMsgType n = NotifyNATDetectionSourceIP \<and>
             \<not> CheckNATDetection (ilDigests lib) (NotifyData n) (s2InitiatorSPI sess) (s2ResponderSPI sess)
                 (addrIP (s2PeerAddr sess)) (of_nat (addrPort (s2PeerAddr sess)))
          then sess\<lparr>BehindNATRemote := True\<rparr>
          else sess)"

definition processNATDetection :: "ike_lib \<Rightarrow> IKEv2Session \<Rightarrow> Message \<Rightarrow> IKEv2Session" where
  "processNATDetection lib sess msg = foldl (natStep lib) sess (mPayloads msg)"

section \<open>The exchange\<close>

definition ikeEncKeyLen :: "IKEEncryptor \<Rightarrow> nat" where
  "ikeEncKeyLen enc = encKeySize enc + (if encIsAEAD enc then 4 else 0)"

text \<open>\<^verbatim>\<open>integrity\<close> stays nil for an AEAD cipher or without an integrity transform.\<close>

definition chooseIntegrity :: "IKEEncryptor \<Rightarrow> u16 \<Rightarrow> crypto_error + IkeIntegrity option" where
  "chooseIntegrity enc integID =
     (if \<not> encIsAEAD enc \<and> integID \<noteq> 0 then map_sum id Some (NewIkeIntegrity integID) else Inr None)"

definition intKeyLenOf :: "IkeIntegrity option \<Rightarrow> nat" where
  "intKeyLenOf integ = (case integ of None \<Rightarrow> 0 | Some ii \<Rightarrow> iiKeySize ii)"

text \<open>The session that \<^verbatim>\<open>HandleSAInit\<close> creates (lines 183 to 207).\<close>

definition initSession ::
  "IKEv2Handler \<Rightarrow> Message \<Rightarrow> udp_addr \<Rightarrow> SelectedProposal \<Rightarrow> KEPayload \<Rightarrow> bytes \<Rightarrow> bytes \<Rightarrow> bytes
   \<Rightarrow> bytes \<times> bytes \<Rightarrow> bytes \<Rightarrow> PRFAlgorithm \<Rightarrow> IKEEncryptor \<Rightarrow> IkeIntegrity option \<Rightarrow> IKEv2KeyMaterial \<Rightarrow> IKEv2Session" where
  "initSession h msg peerAddr sel ke ni respSPI nonceR dhKeys shared prf enc integ keys =
     \<lparr>s2InitiatorSPI = InitiatorSPI (mHeader msg), s2ResponderSPI = respSPI, s2IsInitiator = False,
      s2PeerAddr = peerAddr, s2State = StateV2InitRecv, s2EncAlg = EncrID sel, s2PrfAlg = PRFID sel,
      s2IntegAlg = IntegID sel, s2DHGroupID = DHID sel, s2KeyLength = EncrKeyLen sel, NonceI = ni, NonceR = nonceR,
      DHPrivKey = fst dhKeys, DHPubKey = snd dhKeys, PeerDHPubKey = keData ke, SharedSecret = shared, Keys = keys,
      s2PRF = prf, Encryptor = enc, IntegAlg = integ, InitReqBytes = [], InitRespBytes = [], PeerIDType = 0,
      PeerID = [], LocalID = hLocalID h, LocalIDType = hLocalIDType h, ConnName = [], PSK = [],
      BehindNATLocal = False, BehindNATRemote = False, PeerSupportsFragmentation = False, NextMsgID = 0,
      ChildSAs = [], eapState = EapNone, EAPIdentifier = 0, EAPMethod = 0, EAPMSK = None, pendingAuthSA = None,
      pendingAuthTSi = None, pendingAuthTSr = None, pendingAuthCP = None\<rparr>"

text \<open>The answer to an accepted request (lines 224 to 263).\<close>

definition saInitResponse :: "ike_lib \<Rightarrow> IKEv2Session \<Rightarrow> Proposal \<Rightarrow> Message" where
  "saInitResponse lib sess selProp =
     (let nat = ComputeNATDetection (ilDigests lib) (s2InitiatorSPI sess) (s2ResponderSPI sess)
                  (addrIP (s2PeerAddr sess)) (of_nat (addrPort (s2PeerAddr sess)))
      in
      \<lparr>mHeader = responseHeader (s2InitiatorSPI sess) (s2ResponderSPI sess) ExchangeIKESAInit 0,
       mPayloads = [ppOf (PlSA \<lparr>Proposals = [selProp]\<rparr>), ppOf (PlKE \<lparr>DHGroup = s2DHGroupID sess, keData = DHPubKey sess\<rparr>),
         ppOf (PlNonce (NonceR sess)), ppOf (notifyOf NotifyNATDetectionSourceIP nat),
         ppOf (notifyOf NotifyNATDetectionDestIP nat), ppOf (notifyOf NotifyIKEv2FragmentationSupported [])],
       RawMessage = []\<rparr>)"

definition saInitFinish ::
  "ike_lib \<Rightarrow> Message \<Rightarrow> IKEv2Session \<Rightarrow> Proposal \<Rightarrow> v2_error + Message \<times> IKEv2Session option" where
  "saInitFinish lib msg sess selProp =
     (case MarshalMessage msg of
        (Inl e, _) \<Rightarrow> Inl (V2Marshal e)
      | (Inr reqBytes, msg') \<Rightarrow>
          (let sess1 = processNATDetection lib (sess\<lparr>InitReqBytes := reqBytes\<rparr>) msg';
               sess2 = (if findNotifyPayload (mPayloads msg') NotifyIKEv2FragmentationSupported \<noteq> None
                        then sess1\<lparr>PeerSupportsFragmentation := True\<rparr> else sess1)
           in
           case MarshalMessage (saInitResponse lib sess2 selProp) of
             (Inl e, _) \<Rightarrow> Inl (V2Marshal e)
           | (Inr respBytes, resp) \<Rightarrow> Inr (resp, Some (sess2\<lparr>InitRespBytes := respBytes\<rparr>))))"

text \<open>Key agreement, from the choice of the proposal on (lines 113 to 180).\<close>

definition saInitKeys ::
  "ike_lib \<Rightarrow> IKEv2Handler \<Rightarrow> v2_draws \<Rightarrow> Message \<Rightarrow> udp_addr \<Rightarrow> SelectedProposal \<Rightarrow> Proposal \<Rightarrow> KEPayload \<Rightarrow> bytes
   \<Rightarrow> v2_error + Message \<times> IKEv2Session option" where
  "saInitKeys lib h dr msg peerAddr sel selProp ke ni =
     (case GenerateIKESPI (drSPI dr) of
        None \<Rightarrow> Inl V2SpiDraws
      | Some (Inl e) \<Rightarrow> Inl (V2Crypto e)
      | Some (Inr respSPI) \<Rightarrow>
     (case NewDHGroup (ilEcdh lib) (DHID sel) of Inl e \<Rightarrow> Inl (V2Crypto e) | Inr dh \<Rightarrow>
     (case GenerateKeypair dh (drPrivInt dr) (drPrivBytes dr) of Inl e \<Rightarrow> Inl (V2Crypto e) | Inr dhKeys \<Rightarrow>
     (case ComputeSharedSecret dh (fst dhKeys) (keData ke) of Inl e \<Rightarrow> Inl (V2Crypto e) | Inr shared \<Rightarrow>
     (case GenerateNonce (drNonce dr) 32 of Inl e \<Rightarrow> Inl (V2Crypto e) | Inr nonceR \<Rightarrow>
     (case NewPRF (PRFID sel) of Inl e \<Rightarrow> Inl (V2Crypto e) | Inr prf \<Rightarrow>
     (case NewIKEEncryptor (EncrID sel) (EncrKeyLen sel) of Inl e \<Rightarrow> Inl (V2Crypto e) | Inr enc \<Rightarrow>
     (case chooseIntegrity enc (IntegID sel) of Inl e \<Rightarrow> Inl (V2Crypto e) | Inr integ \<Rightarrow>
     (case DeriveIKEv2Keys (ilHmac lib) prf shared ni nonceR (InitiatorSPI (mHeader msg)) respSPI
             (ikeEncKeyLen enc) (intKeyLenOf integ) (prfKeySize prf) of
        Inl e \<Rightarrow> Inl (if e = DerivePanic then V2Panic else V2Keys e)
      | Inr keys \<Rightarrow>
          saInitFinish lib msg
            (initSession h msg peerAddr sel ke ni respSPI nonceR dhKeys shared prf enc integ keys) selProp)))))))))"

definition HandleSAInit ::
  "ike_lib \<Rightarrow> IKEv2Handler \<Rightarrow> v2_draws \<Rightarrow> Message \<Rightarrow> udp_addr \<Rightarrow> v2_error + Message \<times> IKEv2Session option" where
  "HandleSAInit lib h dr msg peerAddr =
     (case findPayloadAs asSA (mPayloads msg) of
        None \<Rightarrow> Inr (buildSAInitError msg NotifyInvalidSyntax [], None)
      | Some sa \<Rightarrow>
     (case findPayloadAs asKE (mPayloads msg) of
        None \<Rightarrow> Inr (buildSAInitError msg NotifyInvalidSyntax [], None)
      | Some ke \<Rightarrow>
     (case findPayloadAs asNonce (mPayloads msg) of
        None \<Rightarrow> Inr (buildSAInitError msg NotifyInvalidSyntax [], None)
      | Some ni \<Rightarrow>
          (let cookieNotify = findNotifyPayload (mPayloads msg) NotifyCookie in
           if cookieMode h = CookieModeBusy \<and> cookieNotify = None then
             Inr (buildCookieResponse lib h msg peerAddr ni, None)
           else if (case cookieNotify of
                      None \<Rightarrow> False
                    | Some c \<Rightarrow> \<not> VerifySAInitCookie (ilDigests lib) cookiePRF (cookieSecret h) (Some peerAddr)
                        (InitiatorSPI (mHeader msg)) ni (NotifyData c)) then
             Inr (buildSAInitError msg NotifyInvalidSyntax [], None)
           else
           (case SelectProposal (ilOrdE lib) (ilOrdB lib) (Some (defaultIKEProposals h)) (Some sa) of
              Inl _ \<Rightarrow> Inr (buildSAInitError msg NotifyNoProposalChosen [], None)
            | Inr (sel, selProp) \<Rightarrow>
                if DHGroup ke \<noteq> DHID sel then
                  Inr (buildSAInitError msg NotifyInvalidKEPayload
                    [ucast (drop_bit 8 (DHID sel)), ucast (DHID sel)], None)
                else saInitKeys lib h dr msg peerAddr sel selProp ke ni)))))"

section \<open>Facts about accepted requests\<close>

lemma natStep_other:
  "natStep lib sess pp = sess \<or> natStep lib sess pp = sess\<lparr>BehindNATRemote := True\<rparr>"
  by (simp add: natStep_def split: option.split)

lemma processNATDetection_eq: "\<exists>b. processNATDetection lib sess msg = sess\<lparr>BehindNATRemote := b\<rparr>"
proof -
  have "\<exists>b. foldl (natStep lib) sess pps = sess\<lparr>BehindNATRemote := b\<rparr>" for pps
  proof (induction pps arbitrary: sess)
    case Nil
    show ?case by (intro exI [of _ "BehindNATRemote sess"]) simp
  next
    case (Cons pp pps)
    show ?case using natStep_other [of lib sess pp] Cons.IH [of sess] Cons.IH [of "sess\<lparr>BehindNATRemote := True\<rparr>"] by auto
  qed
  then show ?thesis by (simp add: processNATDetection_def)
qed

lemma MarshalMessage_payloads:
  "MarshalMessage m = (r, m') \<Longrightarrow> mPayloads m' = mPayloads m \<and>
     InitiatorSPI (mHeader m') = InitiatorSPI (mHeader m) \<and> ResponderSPI (mHeader m') = ResponderSPI (mHeader m)"
  by (auto simp: MarshalMessage_def Let_def split: if_splits prod.splits sum.splits)

text \<open>What is returned for an accepted request: the created session, up to the marks of its request.\<close>

lemma saInitFinish_Some:
  assumes "saInitFinish lib msg sess0 selProp = Inr (resp, Some sess)"
  shows "\<exists>req b c bytes. fst (MarshalMessage msg) = Inr req \<and>
    sess = sess0\<lparr>InitReqBytes := req, BehindNATRemote := b, PeerSupportsFragmentation := c, InitRespBytes := bytes\<rparr> \<and>
    MarshalMessage (saInitResponse lib sess selProp) = (Inr bytes, resp) \<and>
    b = BehindNATRemote (processNATDetection lib (sess0\<lparr>InitReqBytes := req\<rparr>) msg)"
proof -
  obtain req msg' where m: "MarshalMessage msg = (Inr req, msg')"
    using assms by (cases "MarshalMessage msg") (auto simp: saInitFinish_def split: sum.splits)
  have p: "mPayloads msg' = mPayloads msg" using MarshalMessage_payloads [OF m] by simp
  obtain b where b: "processNATDetection lib (sess0\<lparr>InitReqBytes := req\<rparr>) msg' = sess0\<lparr>InitReqBytes := req, BehindNATRemote := b\<rparr>"
    using processNATDetection_eq [of lib "sess0\<lparr>InitReqBytes := req\<rparr>" msg'] by auto
  have b': "processNATDetection lib (sess0\<lparr>InitReqBytes := req\<rparr>) msg = processNATDetection lib (sess0\<lparr>InitReqBytes := req\<rparr>) msg'"
    by (simp add: processNATDetection_def p)
  define s2 where "s2 = (if findNotifyPayload (mPayloads msg') NotifyIKEv2FragmentationSupported \<noteq> None
    then sess0\<lparr>InitReqBytes := req, BehindNATRemote := b, PeerSupportsFragmentation := True\<rparr>
    else sess0\<lparr>InitReqBytes := req, BehindNATRemote := b\<rparr>)"
  have e: "(case MarshalMessage (saInitResponse lib s2 selProp) of
      (Inl e, _) \<Rightarrow> Inl (V2Marshal e) | (Inr respBytes, resp) \<Rightarrow> Inr (resp, Some (s2\<lparr>InitRespBytes := respBytes\<rparr>))) =
      Inr (resp, Some sess)"
    using assms unfolding saInitFinish_def m Let_def prod.case sum.case b s2_def by simp
  then obtain bytes where f: "MarshalMessage (saInitResponse lib s2 selProp) = (Inr bytes, resp)"
    "sess = s2\<lparr>InitRespBytes := bytes\<rparr>"
    by (cases "MarshalMessage (saInitResponse lib s2 selProp)") (auto split: sum.splits)
  have r: "saInitResponse lib sess selProp = saInitResponse lib s2 selProp" by (simp add: saInitResponse_def f(2))
  have "sess = sess0\<lparr>InitReqBytes := req, BehindNATRemote := b, PeerSupportsFragmentation := PeerSupportsFragmentation s2,
      InitRespBytes := bytes\<rparr>"
    by (simp add: f(2) s2_def)
  with f(1) r m b b' show ?thesis by auto
qed

lemma saInitKeys_Some:
  assumes "saInitKeys lib h dr msg peer sel selProp ke ni = Inr (resp, Some sess)"
  shows "\<exists>spiR dh dhKeys shared nonceR prf enc integ keys.
    GenerateIKESPI (drSPI dr) = Some (Inr spiR) \<and> NewDHGroup (ilEcdh lib) (DHID sel) = Inr dh \<and>
    GenerateKeypair dh (drPrivInt dr) (drPrivBytes dr) = Inr dhKeys \<and>
    ComputeSharedSecret dh (fst dhKeys) (keData ke) = Inr shared \<and> drNonce dr = Some nonceR \<and>
    NewPRF (PRFID sel) = Inr prf \<and> NewIKEEncryptor (EncrID sel) (EncrKeyLen sel) = Inr enc \<and>
    chooseIntegrity enc (IntegID sel) = Inr integ \<and>
    DeriveIKEv2Keys (ilHmac lib) prf shared ni nonceR (InitiatorSPI (mHeader msg)) spiR
      (ikeEncKeyLen enc) (intKeyLenOf integ) (prfKeySize prf) = Inr keys \<and>
    saInitFinish lib msg (initSession h msg peer sel ke ni spiR nonceR dhKeys shared prf enc integ keys) selProp =
      Inr (resp, Some sess)"
  using assms
  by (simp add: saInitKeys_def GenerateNonce_def del: split_paired_Ex split: option.split_asm sum.split_asm)

lemma HandleSAInit_Some:
  assumes "HandleSAInit lib h dr msg peer = Inr (resp, Some sess)"
  shows "\<exists>sa ke ni sel selProp. findPayloadAs asSA (mPayloads msg) = Some sa \<and>
    findPayloadAs asKE (mPayloads msg) = Some ke \<and> findPayloadAs asNonce (mPayloads msg) = Some ni \<and>
    (cookieMode h = CookieModeBusy \<longrightarrow> findNotifyPayload (mPayloads msg) NotifyCookie \<noteq> None) \<and>
    (\<forall>c. findNotifyPayload (mPayloads msg) NotifyCookie = Some c \<longrightarrow>
       VerifySAInitCookie (ilDigests lib) cookiePRF (cookieSecret h) (Some peer) (InitiatorSPI (mHeader msg)) ni (NotifyData c)) \<and>
    SelectProposal (ilOrdE lib) (ilOrdB lib) (Some (defaultIKEProposals h)) (Some sa) = Inr (sel, selProp) \<and>
    DHGroup ke = DHID sel \<and> saInitKeys lib h dr msg peer sel selProp ke ni = Inr (resp, Some sess)"
  using assms unfolding HandleSAInit_def Let_def
  by (simp split: option.split_asm sum.split_asm prod.split_asm if_split_asm)

section \<open>Both sides hold the same keys\<close>

lemma DHGroup_prime: "NewDHGroup el i = Inr (ModpGroup j p gen) \<Longrightarrow> 2 < p"
  by (auto simp: NewDHGroup_def modpPrime1024_def modpPrime1536_def modpPrime2048_def split: if_splits)

lemma NewDHGroup_ok:
  assumes "NewDHGroup el i = Inr g" and "\<And>c. g = EcpGroup i c \<Longrightarrow> curve_ok c"
  shows "group_ok g"
proof (cases g)
  case (ModpGroup j p gen)
  with assms(1) DHGroup_prime show ?thesis by (simp add: group_ok_def)
next
  case (EcpGroup j c)
  moreover have "j = i" using assms(1) EcpGroup by (auto simp: NewDHGroup_def split: if_splits)
  ultimately show ?thesis using assms(2) by (simp add: group_ok_def)
qed

lemma saInitResponse_payloads:
  "MarshalMessage (saInitResponse lib sess selProp) = (Inr bytes, resp) \<Longrightarrow>
     findPayloadAs asKE (mPayloads resp) = Some \<lparr>DHGroup = s2DHGroupID sess, keData = DHPubKey sess\<rparr> \<and>
     findPayloadAs asNonce (mPayloads resp) = Some (NonceR sess) \<and>
     InitiatorSPI (mHeader resp) = s2InitiatorSPI sess \<and> ResponderSPI (mHeader resp) = s2ResponderSPI sess"
  by (drule MarshalMessage_payloads)
    (simp add: saInitResponse_def Let_def as_defs responseHeader_def SetResponseFlags_def SetIKEv2_def)

text \<open>
  C31. IKE_SA_INIT agrees on keys, in each of the six groups. Take an initiator that made its key
  pair in the group the responder selected and sent the public key in its request, and a request
  that creates a session. From the response alone (its KE payload, its nonce, its SPIs) and its own
  private key, nonce and SPI the initiator computes the responder's shared secret, which is the
  Diffie-Hellman secret of RFC 3526 or the curve's output of RFC 5903 (\<open>dh_secret\<close>), and with the
  algorithms of the session it derives the responder's seven keys. This rests on what the libraries
  document: draws below their bound for a MODP group, \<open>curve_ok\<close> for an elliptic curve; and a MODP
  public key of the responder must pass the range check that the initiator makes.
\<close>

theorem sa_init_agreement:
  assumes "HandleSAInit lib h dr msg peer = Inr (resp, Some sess)"
    and "NewDHGroup (ilEcdh lib) (s2DHGroupID sess) = Inr g"
    and "draw_ok g (drPrivInt dr)" and "draw_ok g rI" and "\<And>i c. g = EcpGroup i c \<Longrightarrow> curve_ok c"
    and "GenerateKeypair g rI bI = Inr (privI, pubI)"
    and "map_option keData (findPayloadAs asKE (mPayloads msg)) = Some pubI"
    and "in_range g (DHPubKey sess)"
  shows "\<exists>ke nonceR. findPayloadAs asKE (mPayloads resp) = Some ke \<and> findPayloadAs asNonce (mPayloads resp) = Some nonceR \<and>
    DHGroup ke = s2DHGroupID sess \<and>
    g \<in> {ModpGroup 2 modpPrime1024 2, ModpGroup 5 modpPrime1536 2, ModpGroup 14 modpPrime2048 2,
      EcpGroup 19 (P256 (ilEcdh lib)), EcpGroup 20 (P384 (ilEcdh lib)), EcpGroup 21 (P521 (ilEcdh lib))} \<and>
    ComputeSharedSecret g privI (keData ke) = Inr (SharedSecret sess) \<and>
    dh_secret g privI (keData ke) (SharedSecret sess) \<and>
    findPayloadAs asNonce (mPayloads msg) = Some (NonceI sess) \<and>
    DeriveIKEv2Keys (ilHmac lib) (s2PRF sess) (SharedSecret sess) (NonceI sess) nonceR (InitiatorSPI (mHeader msg))
      (ResponderSPI (mHeader resp)) (ikeEncKeyLen (Encryptor sess)) (intKeyLenOf (IntegAlg sess)) (prfKeySize (s2PRF sess)) =
      Inr (Keys sess)"
proof -
  obtain sa ke ni sel selProp where a: "findPayloadAs asKE (mPayloads msg) = Some ke"
    "findPayloadAs asNonce (mPayloads msg) = Some ni" "saInitKeys lib h dr msg peer sel selProp ke ni = Inr (resp, Some sess)"
    using HandleSAInit_Some [OF assms(1)] by blast
  obtain spiR dh dhKeys shared nonceR prfAlg enc integ keys where b: "NewDHGroup (ilEcdh lib) (DHID sel) = Inr dh"
    "GenerateKeypair dh (drPrivInt dr) (drPrivBytes dr) = Inr dhKeys"
    "ComputeSharedSecret dh (fst dhKeys) (keData ke) = Inr shared"
    "DeriveIKEv2Keys (ilHmac lib) prfAlg shared ni nonceR (InitiatorSPI (mHeader msg)) spiR
      (ikeEncKeyLen enc) (intKeyLenOf integ) (prfKeySize prfAlg) = Inr keys"
    "saInitFinish lib msg (initSession h msg peer sel ke ni spiR nonceR dhKeys shared prfAlg enc integ keys) selProp =
      Inr (resp, Some sess)"
    using saInitKeys_Some [OF a(3)] by blast
  obtain req b c bytes where s: "sess = (initSession h msg peer sel ke ni spiR nonceR dhKeys shared prfAlg enc integ keys)
      \<lparr>InitReqBytes := req, BehindNATRemote := b, PeerSupportsFragmentation := c, InitRespBytes := bytes\<rparr>"
    "MarshalMessage (saInitResponse lib sess selProp) = (Inr bytes, resp)"
    using saInitFinish_Some [OF b(5)] by blast
  have f: "s2DHGroupID sess = DHID sel" "DHPubKey sess = snd dhKeys" "SharedSecret sess = shared" "NonceI sess = ni"
    "NonceR sess = nonceR" "Keys sess = keys" "s2PRF sess = prfAlg" "Encryptor sess = enc" "IntegAlg sess = integ"
    "s2ResponderSPI sess = spiR"
    by (simp_all add: s(1) initSession_def)
  have dh: "dh = g" using b(1) assms(2) f(1) by simp
  have ok: "group_ok g" using NewDHGroup_ok [OF assms(2)] assms(5) by blast
  have six: "g \<in> {ModpGroup 2 modpPrime1024 2, ModpGroup 5 modpPrime1536 2, ModpGroup 14 modpPrime2048 2,
      EcpGroup 19 (P256 (ilEcdh lib)), EcpGroup 20 (P384 (ilEcdh lib)), EcpGroup 21 (P521 (ilEcdh lib))}"
    using assms(2) by (auto simp: NewDHGroup_def split: if_splits)
  obtain privR pubR where kr: "dhKeys = (privR, pubR)" by (cases dhKeys)
  have pI: "keData ke = pubI" using a(1) assms(7) by simp
  have rI: "in_range g pubI" using ComputeSharedSecret_dh_secret(2) [OF b(3)] pI ok dh by simp
  obtain sh where sh: "ComputeSharedSecret g privI pubR = Inr sh" "ComputeSharedSecret g privR pubI = Inr sh"
    using dh_agreement [OF ok assms(4,3,6) b(2) [unfolded dh kr] rI] assms(8) f(2) kr by auto
  have "sh = shared" using sh(2) b(3) pI unfolding dh kr by simp
  with saInitResponse_payloads [OF s(2)] sh(1) ComputeSharedSecret_dh_secret(1) [OF sh(1) ok] six a(2) b(4) f kr
  show ?thesis by auto
qed

section \<open>A run\<close>

lemma bitLen_le: "n < 2 ^ m \<Longrightarrow> bitLen n \<le> m"
proof (induction n arbitrary: m rule: bitLen.induct)
  case (1 n)
  show ?case
  proof (cases "n = 0")
    case True
    then show ?thesis by (simp add: bitLen.simps)
  next
    case False
    then obtain k where k: "m = Suc k" using "1.prems" by (cases m) auto
    with "1.prems" have "n div 2 < 2 ^ k" by simp
    with 1(1) [OF False] k False show ?thesis by (simp add: bitLen.simps [of n])
  qed
qed

lemma MarshalMessage_Inr:
  assumes "RawMessage m = []" and "length (linkPayloads (map ppPayload (mPayloads m))) < 2 ^ 32 - 28"
  shows "\<exists>b m'. MarshalMessage m = (Inr b, m')"
proof -
  let ?n = "length (linkPayloads (map ppPayload (mPayloads m)))"
  have "unat (of_nat (28 + ?n) :: u32) = 28 + ?n" using assms(2) by (intro u32_of_nat_unat) simp
  with assms(1) show ?thesis
    by (simp add: MarshalMessage_def MarshalPayloadChain_eq MarshalIkeHeader_def HeaderLen_def Let_def)
qed

definition exampleCurve :: ecdh_curve where
  "exampleCurve = \<lparr>ecGenerateKey = (\<lambda>r. Some (r, 0x04 # r)), ecPrivateOk = (\<lambda>_. True),
     ecPublicOk = (\<lambda>u. u \<noteq> [] \<and> hd u = 0x04), ecECDH = (\<lambda>a u. Some (map2 (+) a (drop 1 u)))\<rparr>"

lemma exampleCurve_ok: "curve_ok exampleCurve"
proof -
  have "map2 (+) a b = map2 (+) b (a :: bytes)" for a b by (rule nth_equalityI) (simp_all add: add.commute)
  then show ?thesis by (simp add: curve_ok_def exampleCurve_def)
qed

definition exampleIkeLib :: ike_lib where
  "exampleIkeLib =
     \<lparr>ilCrypto = example_lib, ilHmac = example_hmac,
      ilDigests = \<lparr>md4 = (\<lambda>x. x), sha1 = (\<lambda>x. x), sha256 = (\<lambda>x. x), desEncrypt = (\<lambda>_ x. x)\<rparr>,
      ilEcdh = \<lparr>P256 = exampleCurve, P384 = exampleCurve, P521 = exampleCurve\<rparr>,
      ilOrdE = (\<lambda>_. [1, 2, 3, 4, 5]), ilOrdB = (\<lambda>_. [1, 2, 3, 4, 5])\<rparr>"

definition exampleV2Handler :: "CookieMode \<Rightarrow> IKEv2Handler" where
  "exampleV2Handler mode =
     NewIKEv2Handler (Some [9]) (\<lambda>_ peerID. if peerID = strBytes ''alice'' then Some (strBytes ''secret'', strBytes ''home'') else None)
       (Some (\<lambda>user. if user = strBytes ''alice'' then Some (strBytes ''password'') else None)) (strBytes ''gw'') 2 mode"

definition exampleDraws :: v2_draws where
  "exampleDraws = \<lparr>drSPI = [Some (replicate 8 5)], drPrivInt = Some 0, drPrivBytes = [], drNonce = Some (replicate 32 7),
     drChildSPI = Some [0, 0, 0, 3], drIV = Some (replicate 8 6), drChallenge = Some (replicate 16 1)\<rparr>"

abbreviation (input) group14 :: DHGroup where "group14 \<equiv> ModpGroup 14 modpPrime2048 2"

definition examplePub :: bytes where
  "examplePub = padToLen (intBytes (bigExp 2 2 modpPrime2048)) (PublicKeySize group14)"

definition exampleRequest :: "Payload list \<Rightarrow> Message" where
  "exampleRequest extra =
     \<lparr>mHeader = \<lparr>InitiatorSPI = replicate 8 1, ResponderSPI = replicate 8 0, HdrNextPayload = 33, MajorVersion = 2,
        MinorVersion = 0, Exchange = ExchangeIKESAInit, HdrFlags = FlagInitiator, MessageID = 0, IkeLength = 0\<rparr>,
      mPayloads = map ppOf ([PlSA \<lparr>Proposals = [Proposals DefaultIKEProposals ! 1]\<rparr>,
        PlKE \<lparr>DHGroup = 14, keData = examplePub\<rparr>, PlNonce [1, 2, 3]] @ extra),
      RawMessage = []\<rparr>"

definition examplePeer :: udp_addr where
  "examplePeer = \<lparr>addrIP = [192, 0, 2, 7], addrPort = 500\<rparr>"

lemma modpPrime2048_bounds: "2 < modpPrime2048" "modpPrime2048 < 2 ^ 2048"
  by (simp_all add: modpPrime2048_def)

lemma PublicKeySize_group14: "0 < PublicKeySize group14" "PublicKeySize group14 \<le> 256"
proof -
  have "modpPrime2048 < 256 ^ PublicKeySize group14" by (rule less_PublicKeySize)
  then have "PublicKeySize group14 \<noteq> 0" using modpPrime2048_bounds(1) by (intro notI) simp
  then show "0 < PublicKeySize group14" by simp
  show "PublicKeySize group14 \<le> 256"
    using bitLen_le [OF modpPrime2048_bounds(2)] by (simp add: PublicKeySize_def)
qed

lemma SetBytes_examplePub: "SetBytes examplePub = 4"
proof -
  have "(2 :: nat) ^ 2 mod modpPrime2048 = 4" by (simp add: modpPrime2048_def)
  then show ?thesis by (simp only: examplePub_def SetBytes_padToLen SetBytes_intBytes bigExp_eq)
qed

lemma example_keypair:
  "GenerateKeypair group14 (Some 0) b = Inr (padToLen (intBytes 2) (PublicKeySize group14), examplePub)"
  by (simp add: GenerateKeypair_def examplePub_def numeral_2_eq_2)

lemma example_shared:
  "\<exists>s. ComputeSharedSecret group14 (padToLen (intBytes 2) (PublicKeySize group14)) examplePub = Inr s \<and> s \<noteq> [] \<and>
     length examplePub \<le> 256"
proof -
  have r: "0 < modpPrime2048 - 2" "4 \<le> modpPrime2048 - 2" by (simp_all add: modpPrime2048_def)
  have p: "2 \<le> SetBytes examplePub" "SetBytes examplePub \<le> modpPrime2048 - 2"
    using r(2) by (simp_all add: SetBytes_examplePub)
  obtain s where "ComputeSharedSecret group14 (padToLen (intBytes 2) (PublicKeySize group14)) examplePub = Inr s"
    "length s = PublicKeySize group14" "length examplePub = PublicKeySize group14"
    using modp_agreement [OF modpPrime2048_bounds(1) r(1,1) example_keypair example_keypair p p] by blast
  with PublicKeySize_group14 show ?thesis by auto
qed

definition exampleSel :: SelectedProposal where
  "exampleSel = \<lparr>ProposalNum = 2, selProtocolID = 1, selSPI = [], EncrID = EncrAES_GCM_16, EncrKeyLen = 128,
     PRFID = PRFHMAC_SHA256, IntegID = 0, DHID = 14, ESN = 0\<rparr>"

lemma example_selected:
  "SelectProposal (\<lambda>_. [1, 2, 3, 4, 5]) (\<lambda>_. [1, 2, 3, 4, 5]) (Some DefaultIKEProposals)
     (Some \<lparr>Proposals = [Proposals DefaultIKEProposals ! 1]\<rparr>) =
   Inr (exampleSel, (Proposals DefaultIKEProposals ! 1)\<lparr>propIsLast := True\<rparr>)"
  by code_simp

lemma length_examplePub: "length examplePub \<le> 256"
  using example_shared by blast

lemma findNotify_ppOf: "findNotifyPayload (map ppOf ps) t = None \<longleftrightarrow> (\<forall>p\<in>set ps. \<forall>n. asNotify p = Some n \<longrightarrow> NotifyMsgType n \<noteq> t)"
  by (induction ps) (auto simp: findNotifyPayload_def split: option.splits)

lemma example_response_marshals:
  assumes "length (s2InitiatorSPI s) = 8" and "length (s2ResponderSPI s) = 8" and "s2PeerAddr s = examplePeer"
    and "length (DHPubKey s) \<le> 256" and "length (NonceR s) = 32" and "k \<in> {0, 1}"
  shows "\<exists>b m'. MarshalMessage (saInitResponse exampleIkeLib s ((Proposals DefaultIKEProposals ! k)\<lparr>propIsLast := True\<rparr>)) = (Inr b, m')"
  using assms
  by (intro MarshalMessage_Inr)
    (auto simp: saInitResponse_def Let_def linkPayloads_Cons payloadBody_def bodySA_def bodyKE_def notifyOf_def bodyNotify_def
      DefaultIKEProposals_def mkProposal_def xform_def marshalV2Proposal_def marshalV2Transform_def exampleIkeLib_def
      ComputeNATDetection_def examplePeer_def To4_def)

text \<open>An accepted request, from the results of its steps.\<close>

lemma sa_init_runs:
  assumes "findPayloadAs asSA (mPayloads msg) = Some sa" and "findPayloadAs asKE (mPayloads msg) = Some ke"
    and "findPayloadAs asNonce (mPayloads msg) = Some ni" and "findNotifyPayload (mPayloads msg) NotifyCookie = None"
    and "cookieMode h \<noteq> CookieModeBusy"
    and sel: "SelectProposal (ilOrdE lib) (ilOrdB lib) (Some (defaultIKEProposals h)) (Some sa) = Inr (sel, selProp)"
      "DHGroup ke = DHID sel"
    and dh: "NewDHGroup (ilEcdh lib) (DHID sel) = Inr g" "GenerateKeypair g (drPrivInt dr) (drPrivBytes dr) = Inr kp"
      "ComputeSharedSecret g (fst kp) (keData ke) = Inr sh"
    and draws: "GenerateIKESPI (drSPI dr) = Some (Inr spiR)" "drNonce dr = Some nr"
    and algs: "NewPRF (PRFID sel) = Inr prfAlg" "NewIKEEncryptor (EncrID sel) (EncrKeyLen sel) = Inr enc"
      "chooseIntegrity enc (IntegID sel) = Inr integ"
    and keys: "DeriveIKEv2Keys (ilHmac lib) prfAlg sh ni nr (InitiatorSPI (mHeader msg)) spiR
      (ikeEncKeyLen enc) (intKeyLenOf integ) (prfKeySize prfAlg) = Inr keys"
    and m: "MarshalMessage msg = (Inr req, msg')"
    and resp: "\<And>s. s2InitiatorSPI s = InitiatorSPI (mHeader msg) \<Longrightarrow> s2ResponderSPI s = spiR \<Longrightarrow> s2PeerAddr s = peer \<Longrightarrow>
      DHPubKey s = snd kp \<Longrightarrow> NonceR s = nr \<Longrightarrow> \<exists>b m'. MarshalMessage (saInitResponse lib s selProp) = (Inr b, m')"
  shows "\<exists>resp sess. HandleSAInit lib h dr msg peer = Inr (resp, Some sess) \<and>
    s2DHGroupID sess = DHID sel \<and> DHPubKey sess = snd kp \<and> s2ResponderSPI sess = spiR \<and> s2PeerAddr sess = peer"
proof -
  let ?s0 = "initSession h msg peer sel ke ni spiR nr kp sh prfAlg enc integ keys"
  obtain b where b: "processNATDetection lib (?s0\<lparr>InitReqBytes := req\<rparr>) msg' = ?s0\<lparr>InitReqBytes := req, BehindNATRemote := b\<rparr>"
    using processNATDetection_eq [of lib "?s0\<lparr>InitReqBytes := req\<rparr>" msg'] by auto
  define s2 where "s2 = (if findNotifyPayload (mPayloads msg') NotifyIKEv2FragmentationSupported \<noteq> None
    then ?s0\<lparr>InitReqBytes := req, BehindNATRemote := b, PeerSupportsFragmentation := True\<rparr>
    else ?s0\<lparr>InitReqBytes := req, BehindNATRemote := b\<rparr>)"
  have f: "s2InitiatorSPI s2 = InitiatorSPI (mHeader msg)" "s2ResponderSPI s2 = spiR" "s2PeerAddr s2 = peer"
    "DHPubKey s2 = snd kp" "NonceR s2 = nr" "s2DHGroupID s2 = DHID sel"
    by (simp_all add: s2_def initSession_def)
  obtain rb resp where r: "MarshalMessage (saInitResponse lib s2 selProp) = (Inr rb, resp)" using resp [OF f(1-5)] by blast
  have "saInitFinish lib msg ?s0 selProp = Inr (resp, Some (s2\<lparr>InitRespBytes := rb\<rparr>))"
    using r unfolding saInitFinish_def m Let_def prod.case sum.case b s2_def by simp
  moreover have "saInitKeys lib h dr msg peer sel selProp ke ni = saInitFinish lib msg ?s0 selProp"
    unfolding saInitKeys_def using dh draws algs keys by (simp add: GenerateNonce_def)
  moreover have "HandleSAInit lib h dr msg peer = saInitKeys lib h dr msg peer sel selProp ke ni"
    unfolding HandleSAInit_def assms(1-4) using assms(5) sel by (simp add: Let_def)
  ultimately show ?thesis using f by auto
qed

lemma example_sa_init_for:
  assumes "InitiatorSPI (mHeader msg) = replicate 8 1" and "findPayloadAs asSA (mPayloads msg) = Some sa"
    and "findPayloadAs asKE (mPayloads msg) = Some \<lparr>DHGroup = 14, keData = examplePub\<rparr>" and "findPayloadAs asNonce (mPayloads msg) = Some [1, 2, 3]"
    and "findNotifyPayload (mPayloads msg) NotifyCookie = None"
    and "cookieMode h \<noteq> CookieModeBusy \<and> defaultIKEProposals h = DefaultIKEProposals"
    and "SelectProposal (\<lambda>_. [1, 2, 3, 4, 5]) (\<lambda>_. [1, 2, 3, 4, 5]) (Some DefaultIKEProposals) (Some sa) =
      Inr (exampleSel, (Proposals DefaultIKEProposals ! 1)\<lparr>propIsLast := True\<rparr>)"
    and "MarshalMessage msg = (Inr req, msg')"
  shows "\<exists>resp sess. HandleSAInit exampleIkeLib h exampleDraws msg examplePeer = Inr (resp, Some sess) \<and>
    s2DHGroupID sess = 14 \<and> DHPubKey sess = examplePub \<and> s2ResponderSPI sess = replicate 8 5 \<and> s2PeerAddr sess = examplePeer"
proof -
  let ?prfAlg = cookiePRF and ?enc = "AesGCM EncrAES_GCM_16 16"
  let ?kp = "(padToLen (intBytes 2) (PublicKeySize group14), examplePub)"
  let ?selProp = "(Proposals DefaultIKEProposals ! 1)\<lparr>propIsLast := True\<rparr>"
  obtain sh where sh: "ComputeSharedSecret group14 (fst ?kp) examplePub = Inr sh" "sh \<noteq> []" "length examplePub \<le> 256"
    using example_shared by auto
  have "totalKeymat (ikeEncKeyLen ?enc) (intKeyLenOf None) (prfKeySize ?prfAlg) \<le> 255 * hashSize (prfHash ?prfAlg)"
    by (simp add: totalKeymat_def ikeEncKeyLen_def encKeySize_def encIsAEAD_def intKeyLenOf_def cookiePRF_def hashSize_def)
  then obtain keys where keys: "DeriveIKEv2Keys (ilHmac exampleIkeLib) ?prfAlg sh [1, 2, 3] (replicate 32 7) (InitiatorSPI (mHeader msg)) (replicate 8 5)
      (ikeEncKeyLen ?enc) (intKeyLenOf None) (prfKeySize ?prfAlg) = Inr keys"
    using ikev2_keys_partition [OF example_hmac_ok sh(2)] by (fastforce simp: exampleIkeLib_def)
  have "\<exists>resp sess. HandleSAInit exampleIkeLib h exampleDraws msg examplePeer = Inr (resp, Some sess) \<and>
    s2DHGroupID sess = DHID exampleSel \<and> DHPubKey sess = snd ?kp \<and> s2ResponderSPI sess = replicate 8 5 \<and> s2PeerAddr sess = examplePeer"
  proof (rule sa_init_runs [OF assms(2-5) _ _ _ _ _ _ _ _ _ _ _ keys assms(8)])
    show "SelectProposal (ilOrdE exampleIkeLib) (ilOrdB exampleIkeLib) (Some (defaultIKEProposals h)) (Some sa) = Inr (exampleSel, ?selProp)"
      using assms(6,7) by (simp add: exampleIkeLib_def)
    show "NewDHGroup (ilEcdh exampleIkeLib) (DHID exampleSel) = Inr group14" by (simp add: NewDHGroup_def exampleSel_def)
    show "GenerateIKESPI (drSPI exampleDraws) = Some (Inr (replicate 8 5))" by code_simp
    show "NewIKEEncryptor (EncrID exampleSel) (EncrKeyLen exampleSel) = Inr ?enc" by code_simp
    show "\<exists>b m'. MarshalMessage (saInitResponse exampleIkeLib s ?selProp) = (Inr b, m')"
      if "s2InitiatorSPI s = InitiatorSPI (mHeader msg)" "s2ResponderSPI s = replicate 8 5" "s2PeerAddr s = examplePeer"
        "DHPubKey s = snd ?kp" "NonceR s = replicate 32 7" for s
      using that sh(3) assms(1) by (intro example_response_marshals) simp_all
  qed (use assms(6) sh(1) example_keypair in \<open>simp_all add: exampleSel_def exampleDraws_def NewPRF_def cookiePRF_def chooseIntegrity_def encIsAEAD_def\<close>)
  then show ?thesis by (simp add: exampleSel_def)
qed

lemma example_sa_init_message:
  assumes "InitiatorSPI (mHeader msg) = replicate 8 1" and "findPayloadAs asSA (mPayloads msg) = Some sa"
    and "findPayloadAs asKE (mPayloads msg) = Some \<lparr>DHGroup = 14, keData = examplePub\<rparr>" and "findPayloadAs asNonce (mPayloads msg) = Some [1, 2, 3]"
    and "findNotifyPayload (mPayloads msg) NotifyCookie = None" and "mode \<noteq> CookieModeBusy"
    and "SelectProposal (\<lambda>_. [1, 2, 3, 4, 5]) (\<lambda>_. [1, 2, 3, 4, 5]) (Some DefaultIKEProposals) (Some sa) =
      Inr (exampleSel, (Proposals DefaultIKEProposals ! 1)\<lparr>propIsLast := True\<rparr>)"
    and "MarshalMessage msg = (Inr req, msg')"
  shows "\<exists>resp sess. HandleSAInit exampleIkeLib (exampleV2Handler mode) exampleDraws msg examplePeer = Inr (resp, Some sess) \<and>
    s2DHGroupID sess = 14 \<and> DHPubKey sess = examplePub \<and> s2ResponderSPI sess = replicate 8 5 \<and> s2PeerAddr sess = examplePeer"
  by (rule example_sa_init_for [OF assms(1-5) _ assms(7,8)])
    (use assms(6) in \<open>simp add: exampleV2Handler_def NewIKEv2Handler_def\<close>)

lemma example_sa_init:
  assumes "findNotifyPayload (map ppOf extra) NotifyCookie = None" and "mode \<noteq> CookieModeBusy"
    and "length (linkPayloads (map ppPayload (mPayloads (exampleRequest extra)))) < 1000"
  shows "\<exists>resp sess. HandleSAInit exampleIkeLib (exampleV2Handler mode) exampleDraws (exampleRequest extra) examplePeer = Inr (resp, Some sess) \<and>
    s2DHGroupID sess = 14 \<and> DHPubKey sess = examplePub \<and> s2ResponderSPI sess = replicate 8 5 \<and> s2PeerAddr sess = examplePeer"
proof -
  obtain req msg' where m: "MarshalMessage (exampleRequest extra) = (Inr req, msg')"
    using MarshalMessage_Inr [of "exampleRequest extra"] assms(3) by (auto simp: exampleRequest_def)
  show ?thesis
    by (rule example_sa_init_message [OF _ _ _ _ _ assms(2) example_selected m])
      (use assms(1) in \<open>simp_all add: exampleRequest_def as_defs findNotifyPayload_def\<close>)
qed

text \<open>The same exchange in the preferred group, the curve P-384.\<close>

definition ecpSel :: SelectedProposal where
  "ecpSel = exampleSel\<lparr>ProposalNum := 1, EncrKeyLen := 256, DHID := 20\<rparr>"

definition ecpRequest :: Message where
  "ecpRequest = (exampleRequest [])\<lparr>mPayloads := map ppOf [PlSA \<lparr>Proposals = [Proposals DefaultIKEProposals ! 0]\<rparr>,
     PlKE \<lparr>DHGroup = 20, keData = replicate 96 3\<rparr>, PlNonce [1, 2, 3]]\<rparr>"

definition ecpDraws :: v2_draws where
  "ecpDraws = exampleDraws\<lparr>drPrivBytes := replicate 96 2\<rparr>"

abbreviation (input) group20 :: DHGroup where "group20 \<equiv> EcpGroup 20 exampleCurve"

lemma ecp_selected:
  "SelectProposal (\<lambda>_. [1, 2, 3, 4, 5]) (\<lambda>_. [1, 2, 3, 4, 5]) (Some DefaultIKEProposals)
     (Some \<lparr>Proposals = [Proposals DefaultIKEProposals ! 0]\<rparr>) =
   Inr (ecpSel, (Proposals DefaultIKEProposals ! 0)\<lparr>propIsLast := True\<rparr>)"
  by code_simp

lemma ecp_keypair: "GenerateKeypair group20 r (replicate 96 b) = Inr (replicate 96 b, replicate 96 b)"
  by (simp add: GenerateKeypair_def exampleCurve_def)

lemma ecp_shared: "ComputeSharedSecret group20 (replicate 96 a) (replicate 96 b) = Inr (replicate 96 (a + b))"
  by (simp add: ComputeSharedSecret_def exampleCurve_def Let_def zip_replicate)

lemma ecp_sa_init:
  "\<exists>resp sess. HandleSAInit exampleIkeLib (exampleV2Handler CookieModeAuto) ecpDraws ecpRequest examplePeer = Inr (resp, Some sess) \<and>
    s2DHGroupID sess = 20 \<and> DHPubKey sess = replicate 96 2"
proof -
  let ?prfAlg = cookiePRF and ?enc = "AesGCM EncrAES_GCM_16 32" and ?kp = "(replicate 96 2, replicate 96 2) :: bytes \<times> bytes"
  let ?selProp = "(Proposals DefaultIKEProposals ! 0)\<lparr>propIsLast := True\<rparr>"
  have "totalKeymat (ikeEncKeyLen ?enc) (intKeyLenOf None) (prfKeySize ?prfAlg) \<le> 255 * hashSize (prfHash ?prfAlg)"
    by (simp add: totalKeymat_def ikeEncKeyLen_def encKeySize_def encIsAEAD_def intKeyLenOf_def cookiePRF_def hashSize_def)
  then obtain keys where keys: "DeriveIKEv2Keys (ilHmac exampleIkeLib) ?prfAlg (replicate 96 5) [1, 2, 3] (replicate 32 7)
      (InitiatorSPI (mHeader ecpRequest)) (replicate 8 5) (ikeEncKeyLen ?enc) (intKeyLenOf None) (prfKeySize ?prfAlg) = Inr keys"
    using ikev2_keys_partition [OF example_hmac_ok, of "replicate 96 5"] by (fastforce simp: exampleIkeLib_def)
  have "length (linkPayloads (map ppPayload (mPayloads ecpRequest))) < 1000"
    by (simp add: ecpRequest_def linkPayloads_Cons payloadBody_def bodySA_def bodyKE_def
        DefaultIKEProposals_def mkProposal_def xform_def marshalV2Proposal_def marshalV2Transform_def)
  then obtain req msg' where m: "MarshalMessage ecpRequest = (Inr req, msg')"
    using MarshalMessage_Inr [of ecpRequest] by (auto simp: ecpRequest_def exampleRequest_def)
  have p: "findPayloadAs asSA (mPayloads ecpRequest) = Some \<lparr>Proposals = [Proposals DefaultIKEProposals ! 0]\<rparr>"
    "findPayloadAs asKE (mPayloads ecpRequest) = Some \<lparr>DHGroup = 20, keData = replicate 96 3\<rparr>"
    "findPayloadAs asNonce (mPayloads ecpRequest) = Some [1, 2, 3]"
    "findNotifyPayload (mPayloads ecpRequest) NotifyCookie = None" "InitiatorSPI (mHeader ecpRequest) = replicate 8 1"
    by (simp_all add: ecpRequest_def exampleRequest_def as_defs findNotifyPayload_def)
  have "\<exists>resp sess. HandleSAInit exampleIkeLib (exampleV2Handler CookieModeAuto) ecpDraws ecpRequest examplePeer = Inr (resp, Some sess) \<and>
    s2DHGroupID sess = DHID ecpSel \<and> DHPubKey sess = snd ?kp \<and> s2ResponderSPI sess = replicate 8 5 \<and> s2PeerAddr sess = examplePeer"
  proof (rule sa_init_runs [OF p(1-4) _ _ _ _ _ _ _ _ _ _ _ keys m])
    show "SelectProposal (ilOrdE exampleIkeLib) (ilOrdB exampleIkeLib) (Some (defaultIKEProposals (exampleV2Handler CookieModeAuto)))
        (Some \<lparr>Proposals = [Proposals DefaultIKEProposals ! 0]\<rparr>) = Inr (ecpSel, ?selProp)"
      using ecp_selected by (simp add: exampleIkeLib_def exampleV2Handler_def NewIKEv2Handler_def)
    show "NewDHGroup (ilEcdh exampleIkeLib) (DHID ecpSel) = Inr group20"
      by (simp add: NewDHGroup_def ecpSel_def exampleIkeLib_def)
    show "GenerateKeypair group20 (drPrivInt ecpDraws) (drPrivBytes ecpDraws) = Inr ?kp"
      by (simp add: ecpDraws_def ecp_keypair)
    show "ComputeSharedSecret group20 (fst ?kp) (keData \<lparr>DHGroup = 20, keData = replicate 96 3\<rparr>) = Inr (replicate 96 5)"
      by (simp add: ecp_shared)
    show "GenerateIKESPI (drSPI ecpDraws) = Some (Inr (replicate 8 5))" by code_simp
    show "NewIKEEncryptor (EncrID ecpSel) (EncrKeyLen ecpSel) = Inr ?enc" by code_simp
    show "\<exists>b m'. MarshalMessage (saInitResponse exampleIkeLib s ?selProp) = (Inr b, m')"
      if "s2InitiatorSPI s = InitiatorSPI (mHeader ecpRequest)" "s2ResponderSPI s = replicate 8 5" "s2PeerAddr s = examplePeer"
        "DHPubKey s = snd ?kp" "NonceR s = replicate 32 7" for s
      using that p(5) by (intro example_response_marshals) simp_all
  qed (simp_all add: ecpSel_def exampleSel_def ecpDraws_def exampleDraws_def NewPRF_def cookiePRF_def chooseIntegrity_def
      encIsAEAD_def exampleV2Handler_def NewIKEv2Handler_def)
  then show ?thesis by (simp add: ecpSel_def) blast
qed

theorem sa_init_agreement_witness:
  "(\<exists>resp sess ke. HandleSAInit exampleIkeLib (exampleV2Handler CookieModeAuto) exampleDraws (exampleRequest []) examplePeer = Inr (resp, Some sess) \<and>
     findPayloadAs asKE (mPayloads resp) = Some ke \<and>
     ComputeSharedSecret group14 (padToLen (intBytes 2) (PublicKeySize group14)) (keData ke) = Inr (SharedSecret sess)) \<and>
   (\<exists>resp sess ke. HandleSAInit exampleIkeLib (exampleV2Handler CookieModeAuto) ecpDraws ecpRequest examplePeer = Inr (resp, Some sess) \<and>
     findPayloadAs asKE (mPayloads resp) = Some ke \<and> DHGroup ke = 20 \<and>
     ecECDH exampleCurve (replicate 96 3) (0x04 # keData ke) = Some (SharedSecret sess))"
proof (rule conjI)
  show "\<exists>resp sess ke. HandleSAInit exampleIkeLib (exampleV2Handler CookieModeAuto) exampleDraws (exampleRequest []) examplePeer = Inr (resp, Some sess) \<and>
     findPayloadAs asKE (mPayloads resp) = Some ke \<and>
     ComputeSharedSecret group14 (padToLen (intBytes 2) (PublicKeySize group14)) (keData ke) = Inr (SharedSecret sess)"
  proof -
    have len: "length (linkPayloads (map ppPayload (mPayloads (exampleRequest [])))) < 1000"
      using length_examplePub
      by (simp add: exampleRequest_def linkPayloads_Cons payloadBody_def bodySA_def bodyKE_def
          DefaultIKEProposals_def mkProposal_def xform_def marshalV2Proposal_def marshalV2Transform_def)
    obtain resp sess where r: "HandleSAInit exampleIkeLib (exampleV2Handler CookieModeAuto) exampleDraws (exampleRequest []) examplePeer = Inr (resp, Some sess)"
      "s2DHGroupID sess = 14" "DHPubKey sess = examplePub"
      using example_sa_init [OF _ _ len, of CookieModeAuto] by (auto simp: findNotifyPayload_def)
    have g: "NewDHGroup (ilEcdh exampleIkeLib) (s2DHGroupID sess) = Inr group14" by (simp add: NewDHGroup_def r(2))
    have z: "0 < modpPrime2048 - 2" "4 \<le> modpPrime2048 - 2" by (simp_all add: modpPrime2048_def)
    have pub: "in_range group14 (DHPubKey sess)"
      using z(2) by (simp add: in_range_def r(3) SetBytes_examplePub)
    have "draw_ok group14 (drPrivInt exampleDraws)" "draw_ok group14 (Some 0)"
      using z(1) by (simp_all add: exampleDraws_def draw_ok_def)
    moreover have "map_option keData (findPayloadAs asKE (mPayloads (exampleRequest []))) = Some examplePub"
      by (simp add: exampleRequest_def as_defs)
    ultimately show ?thesis
      using sa_init_agreement [OF r(1) g _ _ _ example_keypair _ pub] r(1) by auto
  qed
next
  obtain resp sess where r: "HandleSAInit exampleIkeLib (exampleV2Handler CookieModeAuto) ecpDraws ecpRequest examplePeer = Inr (resp, Some sess)"
    "s2DHGroupID sess = 20" "DHPubKey sess = replicate 96 2"
    using ecp_sa_init by blast
  have g: "NewDHGroup (ilEcdh exampleIkeLib) (s2DHGroupID sess) = Inr group20" by (simp add: NewDHGroup_def r(2) exampleIkeLib_def)
  have "map_option keData (findPayloadAs asKE (mPayloads ecpRequest)) = Some (replicate 96 3)"
    by (simp add: ecpRequest_def as_defs)
  from sa_init_agreement [OF r(1) g _ _ _ ecp_keypair [of None] this] r(1,2)
  show "\<exists>resp sess ke. HandleSAInit exampleIkeLib (exampleV2Handler CookieModeAuto) ecpDraws ecpRequest examplePeer = Inr (resp, Some sess) \<and>
     findPayloadAs asKE (mPayloads resp) = Some ke \<and> DHGroup ke = 20 \<and>
     ecECDH exampleCurve (replicate 96 3) (0x04 # keData ke) = Some (SharedSecret sess)"
    by (fastforce simp: draw_ok_def in_range_def exampleCurve_ok dh_secret_def)
qed

section \<open>Cookies and NAT detection\<close>

text \<open>
  C36. The cookie gate. In busy mode a request creates a session exactly when it carries a COOKIE
  notify that is the digest of the responder's secret, the peer's address, its SPI and its
  nonce, and the request would create that session on a responder that asks for no cookies;
  every other request leaves no state, and a request without a cookie is answered with that
  digest before any Diffie-Hellman work.
\<close>

theorem cookie_gate:
  assumes "cookieMode h = CookieModeBusy" and "findPayloadAs asNonce (mPayloads msg) = Some ni"
  shows "HandleSAInit lib h dr msg peer = Inr (resp, Some sess) \<longleftrightarrow>
    (\<exists>c. findNotifyPayload (mPayloads msg) NotifyCookie = Some c \<and> NotifyData c =
       GenerateSAInitCookie (ilDigests lib) cookiePRF (cookieSecret h) (Some peer) (InitiatorSPI (mHeader msg)) ni) \<and>
    HandleSAInit lib (h\<lparr>cookieMode := CookieModeUnlimited\<rparr>) dr msg peer = Inr (resp, Some sess)"
proof -
  have keys: "saInitKeys lib (h\<lparr>cookieMode := m\<rparr>) = saInitKeys lib h" for m
  proof -
    have "initSession (h\<lparr>cookieMode := m\<rparr>) = initSession h" by (intro ext) (simp add: initSession_def)
    then show ?thesis by (intro ext) (simp only: saInitKeys_def)
  qed
  show ?thesis
    using assms(1,2) unfolding HandleSAInit_def keys
    by (auto simp: VerifySAInitCookie_def Let_def split: option.splits sum.splits if_splits)
qed

theorem cookie_gate_witness:
  "\<not> (\<exists>resp sess. HandleSAInit exampleIkeLib (exampleV2Handler CookieModeBusy) exampleDraws (exampleRequest []) examplePeer = Inr (resp, Some sess))"
proof -
  have n: "findNotifyPayload (mPayloads (exampleRequest [])) NotifyCookie = None"
    by (simp add: exampleRequest_def findNotifyPayload_def as_defs)
  have h: "cookieMode (exampleV2Handler CookieModeBusy) = CookieModeBusy"
    by (simp add: exampleV2Handler_def NewIKEv2Handler_def)
  have ni: "findPayloadAs asNonce (mPayloads (exampleRequest [])) = Some [1, 2, 3]"
    by (simp add: exampleRequest_def as_defs)
  show ?thesis using cookie_gate [OF h ni] n by simp
qed

lemma natFlag:
  "BehindNATRemote (foldl (natStep lib) sess pps) \<longleftrightarrow> BehindNATRemote sess \<or>
     (\<exists>pp\<in>set pps. \<exists>n. asNotify (ppPayload pp) = Some n \<and> NotifyMsgType n = NotifyNATDetectionSourceIP \<and>
        NotifyData n \<noteq> ComputeNATDetection (ilDigests lib) (s2InitiatorSPI sess) (s2ResponderSPI sess)
          (addrIP (s2PeerAddr sess)) (of_nat (addrPort (s2PeerAddr sess))))"
proof (induction pps arbitrary: sess)
  case (Cons pp pps)
  show ?case
    by (simp only: foldl.simps Cons.IH) (auto simp: natStep_def CheckNATDetection_def split: option.splits)
qed simp

text \<open>
  A peer without NAT is taken to be behind one. An initiator computes the hash of its
  NAT_DETECTION_SOURCE_IP notify before it knows the responder's SPI, with zeros in its place
  (RFC 7296, 2.23); the responder compares it with a hash over the SPI it has just drawn.
  Whenever an accepted request carries that hash for the very address it came from, and SHA-1
  does not collide on the two inputs, the session is marked as behind NAT.
\<close>

theorem direct_peer_marked_nat:
  assumes "HandleSAInit lib h dr msg peer = Inr (resp, Some sess)"
    and "findNotifyPayload (mPayloads msg) NotifyNATDetectionSourceIP = Some n"
    and "NotifyData n = ComputeNATDetection (ilDigests lib) (InitiatorSPI (mHeader msg)) (replicate 8 0) (addrIP peer) (of_nat (addrPort peer))"
    and "\<forall>spi. spi \<noteq> replicate 8 0 \<and> length spi = 8 \<longrightarrow>
      ComputeNATDetection (ilDigests lib) (InitiatorSPI (mHeader msg)) spi (addrIP peer) (of_nat (addrPort peer)) \<noteq> NotifyData n"
    and "\<forall>d\<in>set (drSPI dr). \<forall>spi. d = Some spi \<longrightarrow> length spi = 8"
  shows "BehindNATRemote sess"
proof -
  obtain sa ke ni sel selProp where a: "saInitKeys lib h dr msg peer sel selProp ke ni = Inr (resp, Some sess)"
    using HandleSAInit_Some [OF assms(1)] by blast
  obtain spiR dhKeys shared nonceR prfAlg enc integ keys where b: "GenerateIKESPI (drSPI dr) = Some (Inr spiR)"
    "saInitFinish lib msg (initSession h msg peer sel ke ni spiR nonceR dhKeys shared prfAlg enc integ keys) selProp =
      Inr (resp, Some sess)"
    using saInitKeys_Some [OF a] by blast
  let ?s0 = "initSession h msg peer sel ke ni spiR nonceR dhKeys shared prfAlg enc integ keys"
  obtain req where s: "BehindNATRemote sess = BehindNATRemote (processNATDetection lib (?s0\<lparr>InitReqBytes := req\<rparr>) msg)"
    using saInitFinish_Some [OF b(2)] by auto
  have draws: "GenerateIKESPI ds = Some (Inr spiR) \<Longrightarrow> Some spiR \<in> set ds \<and> (\<exists>b\<in>set spiR. b \<noteq> 0)" for ds
    by (induction ds rule: GenerateIKESPI.induct) (auto split: if_splits)
  from draws [OF b(1)] assms(5) have spi: "spiR \<noteq> replicate 8 0" "length spiR = 8" by auto
  have "\<exists>pp\<in>set pps. asNotify (ppPayload pp) = Some n \<and> NotifyMsgType n = NotifyNATDetectionSourceIP"
    if "findNotifyPayload pps NotifyNATDetectionSourceIP = Some n" for pps
    using that by (induction pps) (auto simp: findNotifyPayload_def split: option.splits if_splits)
  from this [OF assms(2)] obtain pp where pp: "pp \<in> set (mPayloads msg)" "asNotify (ppPayload pp) = Some n"
    "NotifyMsgType n = NotifyNATDetectionSourceIP" by blast
  have "NotifyData n \<noteq> ComputeNATDetection (ilDigests lib) (InitiatorSPI (mHeader msg)) spiR (addrIP peer) (of_nat (addrPort peer))"
    using assms(4) spi by metis
  with pp show ?thesis
    unfolding s processNATDetection_def natFlag by (intro disjI2 bexI [of _ pp] exI [of _ n]) (simp_all add: initSession_def)
qed

theorem direct_peer_marked_nat_witness:
  "\<exists>resp sess. HandleSAInit exampleIkeLib (exampleV2Handler CookieModeAuto) exampleDraws
     (exampleRequest [notifyOf NotifyNATDetectionSourceIP (replicate 8 1 @ replicate 8 0 @ [192, 0, 2, 7, 1, 244])]) examplePeer =
     Inr (resp, Some sess) \<and> BehindNATRemote sess"
proof -
  let ?extra = "[notifyOf NotifyNATDetectionSourceIP (replicate 8 1 @ replicate 8 0 @ [192, 0, 2, 7, 1, 244])]"
  let ?nat = "\<lambda>spi. ComputeNATDetection (ilDigests exampleIkeLib) (replicate 8 1) spi (addrIP examplePeer) (of_nat (addrPort examplePeer))"
  have nat: "?nat spi = replicate 8 1 @ spi @ [192, 0, 2, 7, 1, 244]" for spi
    by (simp add: ComputeNATDetection_def exampleIkeLib_def examplePeer_def To4_def PutUint16_def)
  have len: "length (linkPayloads (map ppPayload (mPayloads (exampleRequest ?extra)))) < 1000"
    using length_examplePub
    by (simp add: exampleRequest_def linkPayloads_Cons payloadBody_def bodySA_def bodyKE_def notifyOf_def bodyNotify_def
        DefaultIKEProposals_def mkProposal_def xform_def marshalV2Proposal_def marshalV2Transform_def)
  obtain resp sess where r: "HandleSAInit exampleIkeLib (exampleV2Handler CookieModeAuto) exampleDraws (exampleRequest ?extra) examplePeer = Inr (resp, Some sess)"
    using example_sa_init [OF _ _ len, of CookieModeAuto] by (auto simp: findNotifyPayload_def as_defs notifyOf_def)
  have i: "InitiatorSPI (mHeader (exampleRequest ?extra)) = replicate 8 1" by (simp add: exampleRequest_def)
  have n: "findNotifyPayload (mPayloads (exampleRequest ?extra)) NotifyNATDetectionSourceIP =
      Some \<lparr>ntfProtocolID = 0, ntfSPISize = 0, NotifyMsgType = NotifyNATDetectionSourceIP, ntfSPI = [], NotifyData = ?nat (replicate 8 0)\<rparr>"
    unfolding nat by (simp add: exampleRequest_def findNotifyPayload_def as_defs notifyOf_def)
  have "\<forall>spi. spi \<noteq> replicate 8 0 \<and> length spi = 8 \<longrightarrow> ?nat spi \<noteq> ?nat (replicate 8 0)"
    unfolding nat by auto
  then have "BehindNATRemote sess"
    using direct_peer_marked_nat [OF r n] by (simp add: i exampleDraws_def)
  with r show ?thesis by blast
qed

end
