(* ===== verification/IkeV1Phase1.thy ===== *)
theory IkeV1Phase1
  imports IkeV2Init
begin

text \<open>
  IKEv1 phase 1, responder (\<^verbatim>\<open>internal/ike/ikev1_session.go\<close>, \<^verbatim>\<open>ikev1_main.go\<close> and the phase 1 half
  of \<^verbatim>\<open>ikev1_aggr.go\<close>): the session, Main Mode and Aggressive Mode with a pre-shared key. A handler
  returns its result and the session, which it may have changed before it failed. The parameters
  of the Go library are those of \<open>ike_lib\<close>.
\<close>

section \<open>The session\<close>

datatype IKEv1State =
    StateV1Idle | StateV1MainSARecv | StateV1MainKERecv | StateV1MainIDRecv | StateV1AggrRecv | StateV1AggrDone
  | StateV1Established | StateV1XAUTHSent | StateV1XAUTHDone | StateV1Deleting

record IKEv1ChildSA =
  v1MsgID :: u32
  v1InSPI :: bytes
  v1OutSPI :: bytes
  v1EncrKey :: bytes
  v1IntegKey :: bytes
  v1PeerEncrKey :: bytes
  v1PeerIntegKey :: bytes
  v1EncrID :: u16
  v1IntegID :: u16
  v1ChildKeyLength :: u16

record IKEv1Session =
  CookieI :: bytes
  CookieR :: bytes
  s1State :: IKEv1State
  s1EncAlg :: u16
  s1HashAlg :: u16
  s1AuthMethod :: u16
  s1DHGroupID :: u16
  s1KeyLength :: u16
  s1DHPrivKey :: bytes
  s1DHPubKey :: bytes
  s1PeerDHPubKey :: bytes
  s1SharedSecret :: bytes
  s1NonceI :: bytes
  s1NonceR :: bytes
  s1Keys :: "IKEv1KeyMaterial option"
  s1PRF :: PRFAlgorithm
  s1Encryptor :: "IKEEncryptor option"
  CurrentIV :: bytes
  s1PeerAddr :: udp_addr
  s1PeerID :: bytes
  s1LocalID :: bytes
  s1PSK :: bytes
  s1ConnName :: bytes
  XAUTHUser :: bytes
  s1NextMsgID :: u32
  s1ChildSAs :: "IKEv1ChildSA list"

definition v1SPIPair :: "IKEv1Session \<Rightarrow> bytes" where
  "v1SPIPair s = CookieI s @ CookieR s"

record IKEv1Handler =
  supportedP1 :: "V1Phase1Config list"
  v1ConnPSK :: "udp_addr \<Rightarrow> (bytes \<times> bytes) option"
  getXAUTHCredentials :: "(bytes \<Rightarrow> bytes \<Rightarrow> bool) option"
  v1LocalID :: bytes
  v1LocalIDType :: byte

definition NewIKEv1Handler ::
  "(udp_addr \<Rightarrow> (bytes \<times> bytes) option) \<Rightarrow> (bytes \<Rightarrow> bytes \<Rightarrow> bool) option \<Rightarrow> bytes \<Rightarrow> byte \<Rightarrow> IKEv1Handler" where
  "NewIKEv1Handler psk xauth lid lidType =
     \<lparr>supportedP1 = DefaultV1Phase1Configs, v1ConnPSK = psk, getXAUTHCredentials = xauth, v1LocalID = lid, v1LocalIDType = lidType\<rparr>"

text \<open>A call that would not return has the value \<open>V1Diverges\<close>.\<close>

datatype v1_error =
    V1Panic
  | V1Diverges
  | V1State IKEv1State
  | V1Missing byte
  | V1Proposal proposal_error
  | V1NoPSK
  | V1Rand
  | V1Crypto crypto_error
  | V1Keys derive_error
  | V1NotEncrypted
  | V1Marshal ike_error
  | V1Chain ike_error
  | V1BadHash
  | V1NotConfig
  | V1NoAddress

record v1_draws =
  d1Cookie :: "bytes option"
  d1PrivInt :: "nat option"
  d1PrivBytes :: bytes
  d1Nonce :: "bytes option"
  d1SPI :: "bytes option"

definition v1Crypto :: "crypto_error \<Rightarrow> v1_error" where
  "v1Crypto e = (if e = CryptoPanic then V1Panic else V1Crypto e)"

definition v1Chain :: "ike_error \<Rightarrow> v1_error" where
  "v1Chain e = (if e = IkePanic then V1Panic else V1Chain e)"

text \<open>The version 1 payloads of a chain.\<close>

definition asSAv1 :: "Payload \<Rightarrow> SAv1Payload option" where
  "asSAv1 p = (case p of PlSAv1 x \<Rightarrow> Some x | _ \<Rightarrow> None)"

definition asKEv1 :: "Payload \<Rightarrow> bytes option" where
  "asKEv1 p = (case p of PlKEv1 x \<Rightarrow> Some x | _ \<Rightarrow> None)"

definition asNonceV1 :: "Payload \<Rightarrow> bytes option" where
  "asNonceV1 p = (case p of PlNonceV1 x \<Rightarrow> Some x | _ \<Rightarrow> None)"

definition asIDv1 :: "Payload \<Rightarrow> IDv1Payload option" where
  "asIDv1 p = (case p of PlIDv1 x \<Rightarrow> Some x | _ \<Rightarrow> None)"

definition asHashV1 :: "Payload \<Rightarrow> bytes option" where
  "asHashV1 p = (case p of PlHashV1 x \<Rightarrow> Some x | _ \<Rightarrow> None)"

lemmas v1_as_defs = asSAv1_def asKEv1_def asNonceV1_def asIDv1_def asHashV1_def

section \<open>Utilities\<close>

abbreviation (input) V1HashSHA384 :: u16 where "V1HashSHA384 \<equiv> 5"
abbreviation (input) V1HashSHA512 :: u16 where "V1HashSHA512 \<equiv> 6"
abbreviation (input) V1EncrDES_CBC :: u16 where "V1EncrDES_CBC \<equiv> 1"
abbreviation (input) DOIIPsec :: u32 where "DOIIPsec \<equiv> 1"
abbreviation (input) SituationIdentityOnly :: u32 where "SituationIdentityOnly \<equiv> 1"
abbreviation (input) IDIPv4Addr :: byte where "IDIPv4Addr \<equiv> 1"

definition v1HashToPRF :: "u16 \<Rightarrow> u16" where
  "v1HashToPRF h =
     (if h = V1HashSHA1 then PRFHMAC_SHA1
      else if h = V1HashSHA256 then PRFHMAC_SHA256
      else if h = V1HashSHA384 then PRFHMAC_SHA384
      else if h = V1HashSHA512 then PRFHMAC_SHA512
      else PRFHMAC_SHA1)"

definition v1EncToV2Enc :: "u16 \<Rightarrow> u16" where
  "v1EncToV2Enc e =
     (if e = V1EncrAES_CBC then EncrAES_CBC else if e = V1Encr3DES_CBC then Encr3DES else EncrAES_CBC)"

definition v1EncKeySize :: "u16 \<Rightarrow> u16 \<Rightarrow> nat" where
  "v1EncKeySize e keyLen =
     (if keyLen > 0 then unat (keyLen div 8)
      else if e = V1EncrAES_CBC then 16
      else if e = V1Encr3DES_CBC then 24
      else if e = V1EncrDES_CBC then 8
      else 16)"

text \<open>The loop of \<^verbatim>\<open>expandV1EncKey\<close> ends only when the PRF yields something.\<close>

partial_function (option) expandLoop :: "hmac_fun \<Rightarrow> PRFAlgorithm \<Rightarrow> bytes \<Rightarrow> nat \<Rightarrow> bytes \<Rightarrow> bytes \<Rightarrow> bytes option" where
  "expandLoop hmac prf skeyidE needed expanded prev =
     (if length expanded < needed then
        (let k = prfCompute hmac prf skeyidE prev in expandLoop hmac prf skeyidE needed (expanded @ k) k)
      else Some expanded)"

definition expandV1EncKey :: "hmac_fun \<Rightarrow> PRFAlgorithm \<Rightarrow> bytes \<Rightarrow> nat \<Rightarrow> bytes option" where
  "expandV1EncKey hmac prf skeyidE needed =
     (if length skeyidE \<ge> needed then Some (take needed skeyidE)
      else map_option (take needed) (expandLoop hmac prf skeyidE needed [] [0]))"

definition computeV1InitialIV :: "digests \<Rightarrow> u16 \<Rightarrow> bytes \<Rightarrow> bytes \<Rightarrow> IKEEncryptor option \<Rightarrow> bytes" where
  "computeV1InitialIV dg hashAlg ni nr enc =
     (let full = (if hashAlg = V1HashSHA256 then sha256 dg (ni @ nr) else sha1 dg (ni @ nr));
          blockSize = (case enc of None \<Rightarrow> 16 | Some e \<Rightarrow> encBlockSize e)
      in if length full < blockSize then full else take blockSize full)"

definition ComputeV1QuickModeIV :: "digests \<Rightarrow> u16 \<Rightarrow> bytes \<Rightarrow> u32 \<Rightarrow> nat \<Rightarrow> bytes" where
  "ComputeV1QuickModeIV dg hashAlg phase1IV msgID blockSize =
     (let full = (if hashAlg = V1HashSHA256 then sha256 dg (phase1IV @ PutUint32 msgID) else sha1 dg (phase1IV @ PutUint32 msgID))
      in if length full < blockSize then full else take blockSize full)"

text \<open>The IV after a message: its last block, if it has one.\<close>

definition nextIV :: "nat \<Rightarrow> bytes \<Rightarrow> bytes \<Rightarrow> bytes" where
  "nextIV blockSize iv enc = (if length enc \<ge> blockSize then drop (length enc - blockSize) enc else iv)"

definition v1Header :: "IKEv1Session \<Rightarrow> byte \<Rightarrow> byte \<Rightarrow> u32 \<Rightarrow> byte \<Rightarrow> nat \<Rightarrow> IkeHeader" where
  "v1Header sess exch flags msgID next len =
     SetIKEv1 \<lparr>InitiatorSPI = CookieI sess, ResponderSPI = CookieR sess, HdrNextPayload = next, MajorVersion = 0, MinorVersion = 0,
       Exchange = exch, HdrFlags = flags, MessageID = msgID, IkeLength = of_nat len\<rparr>"

text \<open>An encrypted message is serialised by hand, behind its header.\<close>

definition v1EncryptedMessage :: "IkeHeader \<Rightarrow> bytes \<Rightarrow> v1_error + Message" where
  "v1EncryptedMessage hdr encResp =
     (case MarshalIkeHeader hdr (replicate (HeaderLen + length encResp) 0) of
        Inl e \<Rightarrow> Inl (V1Marshal e)
      | Inr raw \<Rightarrow> Inr \<lparr>mHeader = hdr, mPayloads = [], RawMessage = copy_at HeaderLen encResp raw\<rparr>)"

section \<open>The phase 1 hashes\<close>

definition computeV1Hash :: "hmac_fun \<Rightarrow> IKEv1Session \<Rightarrow> bool \<Rightarrow> IDv1Payload \<Rightarrow> v1_error + bytes" where
  "computeV1Hash hmac sess isInitiator idp =
     (let idBytes = MarshalPayload (PlIDv1 idp);
          idBody = (if length idBytes > PayloadHeaderLen then drop PayloadHeaderLen idBytes else idBytes);
          input = (if isInitiator then s1PeerDHPubKey sess @ s1DHPubKey sess @ CookieI sess @ CookieR sess
                   else s1DHPubKey sess @ s1PeerDHPubKey sess @ CookieR sess @ CookieI sess) @ idBody
      in case s1Keys sess of
           None \<Rightarrow> Inl V1Panic
         | Some keys \<Rightarrow> Inr (prfCompute hmac (s1PRF sess) (SKEYID keys) input))"

section \<open>Main Mode\<close>

text \<open>The response SA that carries the transform that was chosen.\<close>

definition v1ResponseSA :: "TransformV1Payload \<Rightarrow> SAv1Payload" where
  "v1ResponseSA xf =
     \<lparr>sav1DOI = DOIIPsec, sav1Situation = SituationIdentityOnly,
      sav1Proposals = [\<lparr>pv1Number = 1, pv1ProtocolID = ProtocolIKE, pv1SPI = [], pv1Transforms = [xf]\<rparr>]\<rparr>"

definition newV1Session :: "IkeHeader \<Rightarrow> bytes \<Rightarrow> IKEv1State \<Rightarrow> V1Phase1Config \<Rightarrow> PRFAlgorithm \<Rightarrow> udp_addr \<Rightarrow> bytes \<Rightarrow> bytes \<Rightarrow> bytes \<Rightarrow> IKEv1Session" where
  "newV1Session hdr cookieR st cfg pa peerAddr psk connName lid =
     \<lparr>CookieI = InitiatorSPI hdr, CookieR = cookieR, s1State = st, s1EncAlg = EncAlg cfg, s1HashAlg = HashAlg cfg,
      s1AuthMethod = AuthMethod cfg, s1DHGroupID = v1DHGroup cfg, s1KeyLength = v1KeyLength cfg, s1DHPrivKey = [], s1DHPubKey = [],
      s1PeerDHPubKey = [], s1SharedSecret = [], s1NonceI = [], s1NonceR = [], s1Keys = None, s1PRF = pa, s1Encryptor = None,
      CurrentIV = [], s1PeerAddr = peerAddr, s1PeerID = [], s1LocalID = lid, s1PSK = psk, s1ConnName = connName, XAUTHUser = [],
      s1NextMsgID = 0, s1ChildSAs = []\<rparr>"

definition HandleMainMode1 ::
  "IKEv1Handler \<Rightarrow> v1_draws \<Rightarrow> Message \<Rightarrow> udp_addr \<Rightarrow> v1_error + Message \<times> IKEv1Session" where
  "HandleMainMode1 h dr msg peerAddr =
     (case findPayloadAs asSAv1 (mPayloads msg) of
        None \<Rightarrow> Inl (V1Missing PayloadSAV1)
      | Some sa \<Rightarrow>
     (case SelectV1Proposal (Some sa) (supportedP1 h) of
        Inl e \<Rightarrow> Inl (V1Proposal e)
      | Inr (matched, _, xf) \<Rightarrow>
     (case v1ConnPSK h peerAddr of
        None \<Rightarrow> Inl V1NoPSK
      | Some (psk, connName) \<Rightarrow>
     (case d1Cookie dr of
        None \<Rightarrow> Inl V1Rand
      | Some cookieR \<Rightarrow>
     (case NewPRF (v1HashToPRF (HashAlg matched)) of
        Inl e \<Rightarrow> Inl (v1Crypto e)
      | Inr pa \<Rightarrow>
          (let sess = newV1Session (mHeader msg) cookieR StateV1MainSARecv matched pa peerAddr psk connName (v1LocalID h)
           in Inr (\<lparr>mHeader = v1Header sess ExchangeIdentityProtect 0 0 0 0, mPayloads = [ppOf (PlSAv1 (v1ResponseSA xf))],
                    RawMessage = []\<rparr>, sess)))))))"

text \<open>Message 3: each assignment that fails leaves its zero value in the session.\<close>

definition HandleMainMode3 ::
  "ike_lib \<Rightarrow> v1_draws \<Rightarrow> IKEv1Session \<Rightarrow> Message \<Rightarrow> (v1_error + Message) \<times> IKEv1Session" where
  "HandleMainMode3 lib dr sess msg =
     (if s1State sess \<noteq> StateV1MainSARecv then (Inl (V1State (s1State sess)), sess)
      else
     (case findPayloadAs asKEv1 (mPayloads msg) of
        None \<Rightarrow> (Inl (V1Missing PayloadKEV1), sess)
      | Some ke \<Rightarrow>
     (case findPayloadAs asNonceV1 (mPayloads msg) of
        None \<Rightarrow> (Inl (V1Missing PayloadNonceV1), sess)
      | Some ni \<Rightarrow>
     (let sess1 = sess\<lparr>s1PeerDHPubKey := ke, s1NonceI := ni\<rparr> in
      case NewDHGroup (ilEcdh lib) (s1DHGroupID sess) of
        Inl e \<Rightarrow> (Inl (v1Crypto e), sess1)
      | Inr dh \<Rightarrow>
     (case GenerateKeypair dh (d1PrivInt dr) (d1PrivBytes dr) of
        Inl e \<Rightarrow> (Inl (v1Crypto e), sess1\<lparr>s1DHPrivKey := [], s1DHPubKey := []\<rparr>)
      | Inr (privKey, pubKey) \<Rightarrow>
     (let sess2 = sess1\<lparr>s1DHPrivKey := privKey, s1DHPubKey := pubKey\<rparr> in
      case ComputeSharedSecret dh privKey ke of
        Inl e \<Rightarrow> (Inl (v1Crypto e), sess2\<lparr>s1SharedSecret := []\<rparr>)
      | Inr shared \<Rightarrow>
     (let sess3 = sess2\<lparr>s1SharedSecret := shared\<rparr> in
      case GenerateNonce (d1Nonce dr) 32 of
        Inl e \<Rightarrow> (Inl (v1Crypto e), sess3\<lparr>s1NonceR := []\<rparr>)
      | Inr nr \<Rightarrow>
     (let sess4 = sess3\<lparr>s1NonceR := nr\<rparr> in
      case DeriveIKEv1Keys (ilHmac lib) (s1PRF sess) (s1PSK sess) shared ni nr (CookieI sess) (CookieR sess) of
        Inl e \<Rightarrow> (Inl (V1Keys e), sess4\<lparr>s1Keys := None\<rparr>)
      | Inr keys \<Rightarrow>
     (let iv0 = computeV1InitialIV (ilDigests lib) (s1HashAlg sess) ni nr (s1Encryptor sess);
          sess5 = sess4\<lparr>s1Keys := Some keys, CurrentIV := iv0\<rparr>
      in
      case NewIKEEncryptor (v1EncToV2Enc (s1EncAlg sess)) (s1KeyLength sess) of
        Inl e \<Rightarrow> (Inl (v1Crypto e), sess5\<lparr>s1Encryptor := None\<rparr>)
      | Inr enc \<Rightarrow>
     (case expandV1EncKey (ilHmac lib) (s1PRF sess) (SKEYID_e keys) (v1EncKeySize (s1EncAlg sess) (s1KeyLength sess)) of
        None \<Rightarrow> (Inl V1Diverges, sess5\<lparr>s1Encryptor := Some enc\<rparr>)
      | Some keyE \<Rightarrow>
          (let sess6 = sess5\<lparr>s1Encryptor := Some enc, s1Keys := Some (keys\<lparr>SKEYID_e := keyE\<rparr>),
                 CurrentIV := computeV1InitialIV (ilDigests lib) (s1HashAlg sess) ni nr (Some enc), s1State := StateV1MainKERecv\<rparr>
           in (Inr \<lparr>mHeader = v1Header sess6 ExchangeIdentityProtect 0 0 0 0,
                    mPayloads = [ppOf (PlKEv1 pubKey), ppOf (PlNonceV1 nr)], RawMessage = []\<rparr>, sess6))))))))))))"

text \<open>
  An encrypted request of phase 1 or 2: everything behind the header is decrypted under an IV
  and parsed with the type in the header as that of the first payload. A nil cipher or nil keys
  panic.
\<close>

definition openV1 ::
  "ike_lib \<Rightarrow> IKEv1Session \<Rightarrow> bytes \<Rightarrow> bytes \<Rightarrow> byte \<Rightarrow> v1_error + ParsedPayload list" where
  "openV1 lib sess iv encPayload first =
     (case (s1Encryptor sess, s1Keys sess) of
        (Some enc, Some keys) \<Rightarrow>
          (case DecryptIKEv1Payload (ilCrypto lib) enc (SKEYID_e keys) iv encPayload of
             Inl e \<Rightarrow> Inl (v1Crypto e)
           | Inr decrypted \<Rightarrow> map_sum v1Chain id (ParsePayloadChain decrypted first False))
      | _ \<Rightarrow> Inl V1Panic)"

definition v1BlockSize :: "IKEv1Session \<Rightarrow> nat" where
  "v1BlockSize sess = (case s1Encryptor sess of None \<Rightarrow> 16 | Some e \<Rightarrow> encBlockSize e)"

text \<open>The bytes of a request behind its header, and the header after re-marshalling.\<close>

definition v1Body :: "Message \<Rightarrow> v1_error + bytes \<times> byte" where
  "v1Body msg =
     (case MarshalMessage msg of
        (Inl e, _) \<Rightarrow> Inl (V1Marshal e)
      | (Inr b, msg') \<Rightarrow> if length b < HeaderLen then Inl V1Panic else Inr (drop HeaderLen b, HdrNextPayload (mHeader msg')))"

text \<open>The payloads of a reply, chained and encrypted with the session's cipher.\<close>

definition sealV1 :: "ike_lib \<Rightarrow> IKEv1Session \<Rightarrow> bytes \<Rightarrow> Payload list \<Rightarrow> v1_error + bytes \<times> byte" where
  "sealV1 lib sess iv payloads =
     (let (b, firstPT) = MarshalPayloadChain payloads in
      case (s1Encryptor sess, s1Keys sess) of
        (Some enc, Some keys) \<Rightarrow>
          (case EncryptIKEv1Payload (ilCrypto lib) enc (SKEYID_e keys) iv b of
             Inl e \<Rightarrow> Inl (v1Crypto e)
           | Inr encResp \<Rightarrow> Inr (encResp, firstPT))
      | _ \<Rightarrow> Inl V1Panic)"

text \<open>The responder's identity and hash, and the end of phase 1 (lines 263 to 332).\<close>

definition mainMode5Reply :: "ike_lib \<Rightarrow> IKEv1Handler \<Rightarrow> IKEv1Session \<Rightarrow> (v1_error + Message) \<times> IKEv1Session" where
  "mainMode5Reply lib h sess2 =
     (let localID = \<lparr>idv1Type = v1LocalIDType h, idv1Proto = 0, idv1Port = 0, idv1Data = s1LocalID sess2\<rparr> in
      case computeV1Hash (ilHmac lib) sess2 False localID of
        Inl e \<Rightarrow> (Inl e, sess2)
      | Inr respHash \<Rightarrow>
     (case sealV1 lib sess2 (CurrentIV sess2) [PlIDv1 localID, PlHashV1 respHash] of
        Inl e \<Rightarrow> (Inl e, sess2)
      | Inr (encResp, firstPT) \<Rightarrow>
     (let sess3 = sess2\<lparr>CurrentIV := nextIV (v1BlockSize sess2) (CurrentIV sess2) encResp\<rparr> in
      case v1EncryptedMessage (v1Header sess3 ExchangeIdentityProtect FlagV1Encryption 0 firstPT (HeaderLen + length encResp)) encResp of
        Inl e \<Rightarrow> (Inl e, sess3)
      | Inr resp \<Rightarrow> (Inr resp, sess3\<lparr>s1State := StateV1Established\<rparr>))))"

definition HandleMainMode5 ::
  "ike_lib \<Rightarrow> IKEv1Handler \<Rightarrow> IKEv1Session \<Rightarrow> Message \<Rightarrow> (v1_error + Message) \<times> IKEv1Session" where
  "HandleMainMode5 lib h sess msg =
     (if s1State sess \<noteq> StateV1MainKERecv then (Inl (V1State (s1State sess)), sess)
      else if \<not> IsEncrypted (mHeader msg) then (Inl V1NotEncrypted, sess)
      else
     (case v1Body msg of
        Inl e \<Rightarrow> (Inl e, sess)
      | Inr (encPayload, first) \<Rightarrow>
     (case openV1 lib sess (CurrentIV sess) encPayload first of
        Inl e \<Rightarrow> (Inl e, if \<exists>c. e = V1Chain c then sess\<lparr>CurrentIV := nextIV (v1BlockSize sess) (CurrentIV sess) encPayload\<rparr> else sess)
      | Inr chain \<Rightarrow>
     (let sess1 = sess\<lparr>CurrentIV := nextIV (v1BlockSize sess) (CurrentIV sess) encPayload\<rparr> in
      case (findPayloadAs asIDv1 chain, findPayloadAs asHashV1 chain) of
        (None, _) \<Rightarrow> (Inl (V1Missing PayloadIDV1), sess1)
      | (Some _, None) \<Rightarrow> (Inl (V1Missing PayloadHashV1), sess1)
      | (Some idp, Some hashI) \<Rightarrow>
     (let sess2 = sess1\<lparr>s1PeerID := idv1Data idp\<rparr> in
      case computeV1Hash (ilHmac lib) sess2 True idp of
        Inl e \<Rightarrow> (Inl e, sess2)
      | Inr expected \<Rightarrow>
          if \<not> hashEqual expected hashI then (Inl V1BadHash, sess2)
          else
          mainMode5Reply lib h sess2)))))"

section \<open>Aggressive Mode\<close>

text \<open>HASH_R and the answer (lines 118 to 157).\<close>

definition aggressiveReply ::
  "ike_lib \<Rightarrow> IKEv1Handler \<Rightarrow> TransformV1Payload \<Rightarrow> IKEv1Session \<Rightarrow> v1_error + Message \<times> IKEv1Session" where
  "aggressiveReply lib h xf sess =
     (let localID = \<lparr>idv1Type = v1LocalIDType h, idv1Proto = 0, idv1Port = 0, idv1Data = v1LocalID h\<rparr> in
      case computeV1Hash (ilHmac lib) sess False localID of
        Inl e \<Rightarrow> Inl e
      | Inr hashR \<Rightarrow>
          Inr (\<lparr>mHeader = v1Header sess ExchangeAggressive 0 0 0 0,
                mPayloads = map ppOf [PlSAv1 (v1ResponseSA xf), PlKEv1 (s1DHPubKey sess), PlNonceV1 (s1NonceR sess), PlIDv1 localID,
                  PlHashV1 hashR],
                RawMessage = []\<rparr>, sess))"

definition HandleAggressive1 ::
  "ike_lib \<Rightarrow> IKEv1Handler \<Rightarrow> v1_draws \<Rightarrow> Message \<Rightarrow> udp_addr \<Rightarrow> v1_error + Message \<times> IKEv1Session" where
  "HandleAggressive1 lib h dr msg peerAddr =
     (case findPayloadAs asSAv1 (mPayloads msg) of
        None \<Rightarrow> Inl (V1Missing PayloadSAV1)
      | Some sa \<Rightarrow>
     (case findPayloadAs asKEv1 (mPayloads msg) of
        None \<Rightarrow> Inl (V1Missing PayloadKEV1)
      | Some ke \<Rightarrow>
     (case findPayloadAs asNonceV1 (mPayloads msg) of
        None \<Rightarrow> Inl (V1Missing PayloadNonceV1)
      | Some ni \<Rightarrow>
     (case findPayloadAs asIDv1 (mPayloads msg) of
        None \<Rightarrow> Inl (V1Missing PayloadIDV1)
      | Some idp \<Rightarrow>
     (case SelectV1Proposal (Some sa) (supportedP1 h) of
        Inl e \<Rightarrow> Inl (V1Proposal e)
      | Inr (matched, _, xf) \<Rightarrow>
     (case v1ConnPSK h peerAddr of
        None \<Rightarrow> Inl V1NoPSK
      | Some (psk, connName) \<Rightarrow>
     (case d1Cookie dr of
        None \<Rightarrow> Inl V1Rand
      | Some cookieR \<Rightarrow>
     (case NewPRF (v1HashToPRF (HashAlg matched)) of
        Inl e \<Rightarrow> Inl (v1Crypto e)
      | Inr pa \<Rightarrow>
     (case NewDHGroup (ilEcdh lib) (v1DHGroup matched) of
        Inl e \<Rightarrow> Inl (v1Crypto e)
      | Inr dh \<Rightarrow>
     (case GenerateKeypair dh (d1PrivInt dr) (d1PrivBytes dr) of
        Inl e \<Rightarrow> Inl (v1Crypto e)
      | Inr (privKey, pubKey) \<Rightarrow>
     (case ComputeSharedSecret dh privKey ke of
        Inl e \<Rightarrow> Inl (v1Crypto e)
      | Inr shared \<Rightarrow>
     (case GenerateNonce (d1Nonce dr) 32 of
        Inl e \<Rightarrow> Inl (v1Crypto e)
      | Inr nr \<Rightarrow>
     (case DeriveIKEv1Keys (ilHmac lib) pa psk shared ni nr (InitiatorSPI (mHeader msg)) cookieR of
        Inl e \<Rightarrow> Inl (V1Keys e)
      | Inr keys \<Rightarrow>
     (case NewIKEEncryptor (v1EncToV2Enc (EncAlg matched)) (v1KeyLength matched) of
        Inl e \<Rightarrow> Inl (v1Crypto e)
      | Inr enc \<Rightarrow>
     (case expandV1EncKey (ilHmac lib) pa (SKEYID_e keys) (v1EncKeySize (EncAlg matched) (v1KeyLength matched)) of
        None \<Rightarrow> Inl V1Diverges
      | Some keyE \<Rightarrow>
          aggressiveReply lib h xf
            ((newV1Session (mHeader msg) cookieR StateV1AggrRecv matched pa peerAddr psk connName (v1LocalID h))
               \<lparr>s1DHPrivKey := privKey, s1DHPubKey := pubKey, s1PeerDHPubKey := ke, s1SharedSecret := shared, s1NonceI := ni, s1NonceR := nr,
                s1Keys := Some (keys\<lparr>SKEYID_e := keyE\<rparr>), s1Encryptor := Some enc,
                CurrentIV := computeV1InitialIV (ilDigests lib) (HashAlg matched) ni nr (Some enc), s1PeerID := idv1Data idp\<rparr>))))))))))))))))"

definition HandleAggressive3 :: "ike_lib \<Rightarrow> IKEv1Session \<Rightarrow> Message \<Rightarrow> v1_error option \<times> IKEv1Session" where
  "HandleAggressive3 lib sess msg =
     (if s1State sess \<noteq> StateV1AggrRecv then (Some (V1State (s1State sess)), sess)
      else
     (case findPayloadAs asHashV1 (mPayloads msg) of
        None \<Rightarrow> (Some (V1Missing PayloadHashV1), sess)
      | Some hashI \<Rightarrow>
     (case computeV1Hash (ilHmac lib) sess True \<lparr>idv1Type = IDIPv4Addr, idv1Proto = 0, idv1Port = 0, idv1Data = s1PeerID sess\<rparr> of
        Inl e \<Rightarrow> (Some e, sess)
      | Inr expected \<Rightarrow>
          if \<not> hashEqual expected hashI then (Some V1BadHash, sess)
          else (None, sess\<lparr>s1State := StateV1Established\<rparr>))))"

section \<open>The key of phase 1\<close>

fun expandK :: "hmac_fun \<Rightarrow> PRFAlgorithm \<Rightarrow> bytes \<Rightarrow> nat \<Rightarrow> bytes" where
  "expandK hmac prf key 0 = [0]"
| "expandK hmac prf key (Suc i) = prfCompute hmac prf key (expandK hmac prf key i)"

definition expandStream :: "hmac_fun \<Rightarrow> PRFAlgorithm \<Rightarrow> bytes \<Rightarrow> nat \<Rightarrow> bytes" where
  "expandStream hmac prf key n = concat (map (\<lambda>i. expandK hmac prf key (Suc i)) [0..<n])"

lemma length_expandStream: "hmac_ok hmac \<Longrightarrow> length (expandStream hmac prf key n) = n * hashSize (prfHash prf)"
  by (induction n) (simp_all add: expandStream_def length_prfCompute)

lemma expandLoop_stream:
  assumes "hmac_ok hmac"
  shows "\<exists>m. expandLoop hmac prf key needed (expandStream hmac prf key n) (expandK hmac prf key n) =
      Some (expandStream hmac prf key m) \<and> needed \<le> length (expandStream hmac prf key m)"
proof (induction "needed - length (expandStream hmac prf key n)" arbitrary: n rule: less_induct)
  case less
  let ?k = "expandStream hmac prf key"
  show ?case
  proof (cases "length (?k n) < needed")
    case True
    have "expandLoop hmac prf key needed (?k n) (expandK hmac prf key n) = expandLoop hmac prf key needed (?k (Suc n)) (expandK hmac prf key (Suc n))"
      using True by (subst expandLoop.simps) (simp add: Let_def expandStream_def)
    moreover have "needed - length (?k (Suc n)) < needed - length (?k n)"
      using True hashSize_pos [of "prfHash prf"] by (simp add: length_expandStream [OF assms])
    ultimately show ?thesis using less.hyps [of "Suc n"] by (simp only:)
  next
    case False
    then show ?thesis by (intro exI [of _ n]) (subst expandLoop.simps, simp)
  qed
qed

lemma expandV1EncKey_Some:
  assumes "hmac_ok hmac"
  shows "\<exists>m. expandV1EncKey hmac prf key needed =
    Some (take needed (if needed \<le> length key then key else expandStream hmac prf key m)) \<and>
    needed \<le> length (if needed \<le> length key then key else expandStream hmac prf key m)"
proof -
  obtain m where "expandLoop hmac prf key needed [] [0] = Some (expandStream hmac prf key m)"
    "needed \<le> length (expandStream hmac prf key m)"
    using expandLoop_stream [OF assms, of "prf" key needed 0] by (auto simp: expandStream_def [of _ _ _ 0])
  then show ?thesis by (intro exI [of _ m]) (simp add: expandV1EncKey_def)
qed

text \<open>
  The expansion of the encryption key ends for every length and yields exactly that many bytes:
  the front of SKEYID_e, or of \<open>K1 | K2 | ...\<close> of RFC 2409, appendix B.
\<close>

theorem v1_key_expansion:
  assumes "hmac_ok hmac"
  shows "\<exists>m k. expandV1EncKey hmac prf key needed = Some k \<and> length k = needed \<and>
    k = take needed (if needed \<le> length key then key else expandStream hmac prf key m)"
  using expandV1EncKey_Some [OF assms, of "prf" key needed] by force

theorem v1_key_expansion_witness:
  "\<exists>k. expandV1EncKey example_hmac \<lparr>prfID = 2, prfHash = SHA1, prfKeySize = 20, prfOutSize = 20\<rparr> [1, 2, 3] 32 = Some k \<and> length k = 32"
  using v1_key_expansion [OF example_hmac_ok] by blast

section \<open>Main Mode agrees on keys\<close>

lemma HandleMainMode3_Inr:
  assumes "HandleMainMode3 lib dr s msg = (Inr resp, s')"
  shows "\<exists>ke ni dh privKey pubKey shared nr keys enc keyE.
    findPayloadAs asKEv1 (mPayloads msg) = Some ke \<and> findPayloadAs asNonceV1 (mPayloads msg) = Some ni \<and>
    NewDHGroup (ilEcdh lib) (s1DHGroupID s) = Inr dh \<and> GenerateKeypair dh (d1PrivInt dr) (d1PrivBytes dr) = Inr (privKey, pubKey) \<and>
    ComputeSharedSecret dh privKey ke = Inr shared \<and>
    DeriveIKEv1Keys (ilHmac lib) (s1PRF s) (s1PSK s) shared ni nr (CookieI s) (CookieR s) = Inr keys \<and>
    NewIKEEncryptor (v1EncToV2Enc (s1EncAlg s)) (s1KeyLength s) = Inr enc \<and>
    expandV1EncKey (ilHmac lib) (s1PRF s) (SKEYID_e keys) (v1EncKeySize (s1EncAlg s) (s1KeyLength s)) = Some keyE \<and>
    mPayloads resp = [ppOf (PlKEv1 pubKey), ppOf (PlNonceV1 nr)] \<and> s1State s = StateV1MainSARecv \<and>
    s' = s\<lparr>s1PeerDHPubKey := ke, s1NonceI := ni, s1DHPrivKey := privKey, s1DHPubKey := pubKey, s1SharedSecret := shared, s1NonceR := nr,
      s1Encryptor := Some enc, s1Keys := Some (keys\<lparr>SKEYID_e := keyE\<rparr>),
      CurrentIV := computeV1InitialIV (ilDigests lib) (s1HashAlg s) ni nr (Some enc), s1State := StateV1MainKERecv\<rparr>"
  using assms unfolding HandleMainMode3_def Let_def
  by (clarsimp split: if_split_asm option.split_asm sum.split_asm prod.split_asm) 
    (rule exI, rule exI, rule conjI, assumption, rule exI, rule conjI, assumption, rule conjI, rule refl, rule refl)

text \<open>
  Main Mode agrees on keys. When the responder answers message 3 of an initiator that made its key
  pair in the session's group, then from the answer, its own private key and the pre-shared key
  the initiator derives exactly the keys of the session.
\<close>

theorem main_mode_agreement:
  assumes "HandleMainMode3 lib dr s msg = (Inr resp, s')" and "NewDHGroup (ilEcdh lib) (s1DHGroupID s) = Inr (ModpGroup i p gen)"
    and "d1PrivInt dr = Some rb" and "rb < p - 2" and "ra < p - 2"
    and "GenerateKeypair (ModpGroup i p gen) (Some ra) [] = Inr (privI, pubI)" and "findPayloadAs asKEv1 (mPayloads msg) = Some pubI"
    and "2 \<le> SetBytes (s1DHPubKey s')" and "SetBytes (s1DHPubKey s') \<le> p - 2"
  shows "\<exists>pubR nr ni shared keys keyE. findPayloadAs asKEv1 (mPayloads resp) = Some pubR \<and> findPayloadAs asNonceV1 (mPayloads resp) = Some nr \<and>
    findPayloadAs asNonceV1 (mPayloads msg) = Some ni \<and> ComputeSharedSecret (ModpGroup i p gen) privI pubR = Inr shared \<and>
    DeriveIKEv1Keys (ilHmac lib) (s1PRF s) (s1PSK s) shared ni nr (CookieI s) (CookieR s) = Inr keys \<and>
    expandV1EncKey (ilHmac lib) (s1PRF s) (SKEYID_e keys) (v1EncKeySize (s1EncAlg s) (s1KeyLength s)) = Some keyE \<and>
    s1Keys s' = Some (keys\<lparr>SKEYID_e := keyE\<rparr>) \<and> s1State s' = StateV1MainKERecv"
proof -
  obtain ke ni dh privR pubR sh nr keys enc keyE where m: "findPayloadAs asKEv1 (mPayloads msg) = Some ke"
    "findPayloadAs asNonceV1 (mPayloads msg) = Some ni" "NewDHGroup (ilEcdh lib) (s1DHGroupID s) = Inr dh"
    "GenerateKeypair dh (d1PrivInt dr) (d1PrivBytes dr) = Inr (privR, pubR)" "ComputeSharedSecret dh privR ke = Inr sh"
    "DeriveIKEv1Keys (ilHmac lib) (s1PRF s) (s1PSK s) sh ni nr (CookieI s) (CookieR s) = Inr keys"
    "expandV1EncKey (ilHmac lib) (s1PRF s) (SKEYID_e keys) (v1EncKeySize (s1EncAlg s) (s1KeyLength s)) = Some keyE"
    "mPayloads resp = [ppOf (PlKEv1 pubR), ppOf (PlNonceV1 nr)]" and s': "s1DHPubKey s' = pubR"
    "s1Keys s' = Some (keys\<lparr>SKEYID_e := keyE\<rparr>)" "s1State s' = StateV1MainKERecv"
    using HandleMainMode3_Inr [OF assms(1)] by auto
  have dh: "dh = ModpGroup i p gen" "ke = pubI" using m(1,3) assms(2,7) by simp_all
  have gen: "GenerateKeypair (ModpGroup i p gen) (Some rb) [] = Inr (privR, pubR)"
    using m(4) assms(3) unfolding dh by (simp add: GenerateKeypair_def Let_def)
  have rI: "2 \<le> SetBytes pubI" "SetBytes pubI \<le> p - 2"
    using m(5) unfolding dh by (auto simp: ComputeSharedSecret_def Let_def not_less split: if_splits)
  obtain sh' where "ComputeSharedSecret (ModpGroup i p gen) privI pubR = Inr sh'" "ComputeSharedSecret (ModpGroup i p gen) privR pubI = Inr sh'"
    using modp_agreement [OF DHGroup_prime [OF assms(2)] assms(5,4,6) gen rI] assms(8,9) s'(1) by auto
  with m s' dh show ?thesis by (auto simp: v1_as_defs)
qed

section \<open>Main Mode completes\<close>

lemma cbc_seal_open:
  assumes "cipherOk cl (AesCBC i ks) key" and "length iv = 16"
  shows "\<exists>c. EncryptIKEv1Payload cl (AesCBC i ks) key iv p = Inr c \<and> DecryptIKEv1Payload cl (AesCBC i ks) key iv c = Inr p \<and> 16 \<le> length c"
proof -
  obtain b where b: "aesNewCipher cl key = Some b" "block_ok b" using assms(1) by (auto simp: cipherOk_def)
  note rt = cbc_roundtrip [OF b(2) assms(2) pkcs7_roundtrip(2) [of p]]
  have "16 \<le> length (pkcs7Pad p)"
    using pkcs7_roundtrip(2) [of p] by (intro dvd_imp_le) (simp_all add: pkcs7Pad_def Let_def aesBlockSize_def)
  moreover obtain c where "EncryptWith cl (AesCBC i ks) key iv p [] = Inr c" "DecryptWith cl (AesCBC i ks) key iv c [] = Inr p"
    using decrypt_encrypt [OF assms(1), of iv p "[]"] assms(2) by (auto simp: encIVSize_def aesBlockSize_def)
  ultimately show ?thesis
    using b rt assms(2) by (auto simp: EncryptIKEv1Payload_def DecryptIKEv1Payload_def EncryptWith_def cbcSeal_def aesBlockSize_def)
qed

lemma parse_link:
  "\<forall>p\<in>set ps. payload_ok v p \<Longrightarrow> ParsePayloadChain (linkPayloads ps) (headType ps) v = Inr (chainOf ps)"
  using parseChainAt_linkPayloads [of ps v "[]"] by (simp add: ParsePayloadChain_def)

text \<open>What both ends do with the session's keys is inverse.\<close>

lemma sealV1_openV1:
  assumes "s1Encryptor sess = Some (AesCBC i ks)" and "s1Keys sess = Some k" and "cipherOk (ilCrypto lib) (AesCBC i ks) (SKEYID_e k)"
    and "length iv = 16" and "\<forall>p\<in>set ps. payload_ok False p"
  shows "\<exists>enc. sealV1 lib sess iv ps = Inr (enc, headType ps) \<and> openV1 lib sess iv enc (headType ps) = Inr (chainOf ps) \<and> 16 \<le> length enc"
  using cbc_seal_open [OF assms(3,4), of "linkPayloads ps"] parse_link [OF assms(5)] assms(1,2)
  by (auto simp: sealV1_def openV1_def MarshalPayloadChain_eq)

lemma v1Header_wf: "length (CookieI s) = 8 \<Longrightarrow> length (CookieR s) = 8 \<Longrightarrow> ikeHeader_wf (v1Header s e f m n l)"
  by (simp add: v1Header_def ikeHeader_wf_def SetIKEv1_def IKEv1Major_def IKEv1Minor_def)

lemma v1EncryptedMessage_eq:
  assumes "ikeHeader_wf hdr"
  shows "v1EncryptedMessage hdr enc = Inr \<lparr>mHeader = hdr, mPayloads = [], RawMessage = ikeHeaderBytes hdr @ enc\<rparr>"
proof -
  have "MarshalIkeHeader hdr (replicate (28 + length enc) 0) = Inr (ikeHeaderBytes hdr @ replicate (length enc) 0)"
    unfolding replicate_add by (rule MarshalIkeHeader_append [OF assms]) simp
  then show ?thesis
    using copy_at_append [of "ikeHeaderBytes hdr" 28 "replicate (length enc) 0" enc "[]"] length_ikeHeaderBytes [OF assms]
    by (simp add: v1EncryptedMessage_def HeaderLen_def)
qed

text \<open>An encrypted request as it arrives.\<close>

definition v1Request :: "IKEv1Session \<Rightarrow> byte \<Rightarrow> u32 \<Rightarrow> byte \<Rightarrow> bytes \<Rightarrow> Message" where
  "v1Request sess exch mid first enc =
     (let hdr = v1Header sess exch FlagV1Encryption mid first (HeaderLen + length enc)
      in \<lparr>mHeader = hdr, mPayloads = [], RawMessage = ikeHeaderBytes hdr @ enc\<rparr>)"

lemma v1Body_request:
  assumes "length (CookieI s) = 8" and "length (CookieR s) = 8"
  shows "v1Body (v1Request s exch mid first enc) = Inr (enc, first)"
proof -
  note wf = v1Header_wf [OF assms]
  have "\<not> length (ikeHeaderBytes (v1Header s exch FlagV1Encryption mid first (HeaderLen + length enc))) + length enc < HeaderLen"
    using length_ikeHeaderBytes [OF wf] by (simp add: HeaderLen_def)
  then show ?thesis
    using length_ikeHeaderBytes [OF wf, of exch FlagV1Encryption mid first "HeaderLen + length enc"]
    by (simp add: v1Body_def v1Request_def Let_def MarshalMessage_def HeaderLen_def)
      (simp add: v1Header_def SetIKEv1_def)
qed

lemma nextIV_length: "16 \<le> length enc \<Longrightarrow> length (nextIV 16 iv enc) = 16"
  by (simp add: nextIV_def)

lemma computeV1Hash_cong [simp]:
  "computeV1Hash hmac (s\<lparr>CurrentIV := iv\<rparr>) b idp = computeV1Hash hmac s b idp"
  "computeV1Hash hmac (s\<lparr>s1PeerID := pid\<rparr>) b idp = computeV1Hash hmac s b idp"
  by (simp_all add: computeV1Hash_def Let_def split: option.split)

lemma v1Chain_two:
  "findPayloadAs asIDv1 (chainOf [PlIDv1 idp, PlHashV1 hh]) = Some idp"
  "findPayloadAs asHashV1 (chainOf [PlIDv1 idp, PlHashV1 hh]) = Some hh"
  by (simp_all add: v1_as_defs payloadNorm_def)

text \<open>
  Main Mode ends with both sides authenticated. Let the session have its keys and a working CBC
  cipher. The initiator that holds the same keys sends its identity and its HASH_I, encrypted under the
  current IV: the handler establishes the session for that identity, and from its answer the
  initiator, decrypting with the last block it sent as IV, reads the responder's identity and
  the HASH_R that it computes itself.
\<close>

theorem main_mode_completes:
  assumes "length (CookieI s) = 8" and "length (CookieR s) = 8" and "length (CurrentIV s) = 16"
    and "s1State s = StateV1MainKERecv" and "s1Keys s = Some k" and "s1Encryptor s = Some (AesCBC i ks)"
    and "cipherOk (ilCrypto lib) (AesCBC i ks) (SKEYID_e k)" and "hmac_ok (ilHmac lib)"
    and "payload_ok False (PlIDv1 idp)" and "length (s1LocalID s) < 60000"
    and "computeV1Hash (ilHmac lib) s True idp = Inr hashI"
    and "sealV1 lib s (CurrentIV s) [PlIDv1 idp, PlHashV1 hashI] = Inr (enc, first)"
  shows "\<exists>resp s' hashR. HandleMainMode5 lib h s (v1Request s ExchangeIdentityProtect 0 first enc) = (Inr resp, s') \<and>
    s1State s' = StateV1Established \<and> s1PeerID s' = idv1Data idp \<and>
    (let localID = \<lparr>idv1Type = v1LocalIDType h, idv1Proto = 0, idv1Port = 0, idv1Data = s1LocalID s\<rparr>
     in computeV1Hash (ilHmac lib) s False localID = Inr hashR \<and>
        openV1 lib s (nextIV 16 (CurrentIV s) enc) (drop 28 (RawMessage resp)) (HdrNextPayload (mHeader resp)) =
          Inr (chainOf [PlIDv1 localID, PlHashV1 hashR]))"
proof -
  let ?id = "\<lparr>idv1Type = v1LocalIDType h, idv1Proto = 0, idv1Port = 0, idv1Data = s1LocalID s\<rparr>"
  have hash: "payload_ok False (PlHashV1 hh)" if "computeV1Hash (ilHmac lib) s b x = Inr hh" for hh b x
  proof -
    have "length hh \<le> 64"
      using that assms(5,8) by (auto simp: computeV1Hash_def Let_def length_prfCompute hashSize_def split: hash_alg.split)
    then show ?thesis by (simp add: payload_ok_def payloadBody_def)
  qed
  have "\<forall>p\<in>set [PlIDv1 idp, PlHashV1 hashI]. payload_ok False p" using assms(9) hash [OF assms(11)] by simp
  note so = sealV1_openV1 [OF assms(6,5,7,3) this]
  have first: "first = headType [PlIDv1 idp, PlHashV1 hashI]" and
    open1: "openV1 lib s (CurrentIV s) enc first = Inr (chainOf [PlIDv1 idp, PlHashV1 hashI])" and len: "16 \<le> length enc"
    using so assms(12) by auto
  define s2 where "s2 = s\<lparr>CurrentIV := nextIV 16 (CurrentIV s) enc, s1PeerID := idv1Data idp\<rparr>"
  obtain hashR where hashR: "computeV1Hash (ilHmac lib) s False ?id = Inr hashR"
    using assms(5) by (simp add: computeV1Hash_def Let_def)
  have "payload_ok False (PlIDv1 ?id)" using assms(10) by (simp add: payload_ok_def payloadBody_def bodyIDv1_def)
  then have "\<forall>p\<in>set [PlIDv1 ?id, PlHashV1 hashR]. payload_ok False p" using hash [OF hashR] by simp
  moreover have f: "s1Encryptor s2 = Some (AesCBC i ks)" "s1Keys s2 = Some k" "CurrentIV s2 = nextIV 16 (CurrentIV s) enc"
    "s1LocalID s2 = s1LocalID s" "CookieI s2 = CookieI s" "CookieR s2 = CookieR s"
    using assms(5,6) by (simp_all add: s2_def)
  ultimately obtain enc2 where e2: "sealV1 lib s2 (CurrentIV s2) [PlIDv1 ?id, PlHashV1 hashR] = Inr (enc2, headType [PlIDv1 ?id, PlHashV1 hashR])"
    "openV1 lib s2 (CurrentIV s2) enc2 (headType [PlIDv1 ?id, PlHashV1 hashR]) = Inr (chainOf [PlIDv1 ?id, PlHashV1 hashR])"
    using sealV1_openV1 [OF f(1,2) assms(7) nextIV_length [OF len]] f(3) by metis
  let ?s3 = "s2\<lparr>CurrentIV := nextIV 16 (CurrentIV s2) enc2\<rparr>"
  let ?hdr = "v1Header ?s3 ExchangeIdentityProtect FlagV1Encryption 0 (headType [PlIDv1 ?id, PlHashV1 hashR]) (HeaderLen + length enc2)"
  have wf: "ikeHeader_wf ?hdr" using assms(1,2) f by (intro v1Header_wf) simp_all
  have bs: "v1BlockSize s = 16" "v1BlockSize s2 = 16" using assms(6) f(1) by (simp_all add: v1BlockSize_def encBlockSize_def aesBlockSize_def)
  have enc: "IsEncrypted (mHeader (v1Request s ExchangeIdentityProtect 0 first enc))"
    by (simp add: v1Request_def Let_def IsEncrypted_def v1Header_def SetIKEv1_def)
  have "HandleMainMode5 lib h s (v1Request s ExchangeIdentityProtect 0 first enc) =
      (Inr \<lparr>mHeader = ?hdr, mPayloads = [], RawMessage = ikeHeaderBytes ?hdr @ enc2\<rparr>, ?s3\<lparr>s1State := StateV1Established\<rparr>)"
    unfolding HandleMainMode5_def mainMode5Reply_def v1Body_request [OF assms(1,2)] bs
    using assms(4,11) enc open1 v1Chain_two [of idp hashI] hashR e2(1) v1EncryptedMessage_eq [OF wf] bs(2) f
    by (simp add: Let_def hashEqual_iff s2_def del: chainOf.simps)
  moreover have "openV1 lib s iv = openV1 lib s2 iv" for iv using f assms(5,6) by (intro ext) (simp add: openV1_def)
  then have "openV1 lib s (nextIV 16 (CurrentIV s) enc) enc2 (HdrNextPayload ?hdr) = Inr (chainOf [PlIDv1 ?id, PlHashV1 hashR])"
    using e2(2) f(3) by (simp add: v1Header_def SetIKEv1_def)
  ultimately show ?thesis
    using hashR length_ikeHeaderBytes [OF wf] by (simp add: Let_def s2_def)
qed

section \<open>Examples\<close>

definition exampleV1Draws :: v1_draws where
  "exampleV1Draws = \<lparr>d1Cookie = Some (replicate 8 5), d1PrivInt = Some 0, d1PrivBytes = [], d1Nonce = Some (replicate 32 7), d1SPI = Some [0, 0, 1, 1]\<rparr>"

definition peerHdr :: "bytes \<Rightarrow> IkeHeader" where
  "peerHdr spi = \<lparr>InitiatorSPI = spi, ResponderSPI = replicate 8 0, HdrNextPayload = 0, MajorVersion = 1, MinorVersion = 0,
     Exchange = ExchangeIdentityProtect, HdrFlags = 0, MessageID = 0, IkeLength = 0\<rparr>"

definition exampleV1Session :: IKEv1Session where
  "exampleV1Session =
     (newV1Session (peerHdr (replicate 8 1)) (replicate 8 5) StateV1MainSARecv
        \<lparr>EncAlg = V1EncrAES_CBC, HashAlg = V1HashSHA256, AuthMethod = 1, v1DHGroup = 14, v1KeyLength = 128, LifeType = 0, LifeDur = 0\<rparr>
        cookiePRF examplePeer (strBytes ''secret'') (strBytes ''home'') (strBytes ''gw''))"

definition exampleV1Message3 :: Message where
  "exampleV1Message3 = \<lparr>mHeader = peerHdr (replicate 8 1), mPayloads = [ppOf (PlKEv1 examplePub), ppOf (PlNonceV1 [1, 2, 3])], RawMessage = []\<rparr>"

lemma exampleV1Session_facts:
  "s1State exampleV1Session = StateV1MainSARecv" "s1DHGroupID exampleV1Session = 14" "s1EncAlg exampleV1Session = 7"
  "s1KeyLength exampleV1Session = 128" "s1HashAlg exampleV1Session = 4" "CookieI exampleV1Session = replicate 8 1"
  "CookieR exampleV1Session = replicate 8 5" "s1LocalID exampleV1Session = strBytes ''gw''" "s1ChildSAs exampleV1Session = []"
  by (simp_all add: exampleV1Session_def newV1Session_def peerHdr_def)

lemma example_main_mode_3:
  "\<exists>resp s' k. HandleMainMode3 exampleIkeLib exampleV1Draws exampleV1Session exampleV1Message3 = (Inr resp, s') \<and>
     s1State s' = StateV1MainKERecv \<and> s1DHPubKey s' = examplePub \<and> s1Keys s' = Some k \<and> s1Encryptor s' = Some (AesCBC 12 16) \<and>
     length (CurrentIV s') = 16 \<and> CookieI s' = replicate 8 1 \<and> CookieR s' = replicate 8 5 \<and> s1LocalID s' = strBytes ''gw''"
proof -
  let ?lib = exampleIkeLib and ?s = exampleV1Session
  have p: "findPayloadAs asKEv1 (mPayloads exampleV1Message3) = Some examplePub"
    "findPayloadAs asNonceV1 (mPayloads exampleV1Message3) = Some [1, 2, 3]"
    by (simp_all add: exampleV1Message3_def v1_as_defs)
  have g: "NewDHGroup (ilEcdh ?lib) (s1DHGroupID ?s) = Inr group14" by (simp add: NewDHGroup_def exampleV1Session_facts)
  obtain sh where sh: "ComputeSharedSecret group14 (padToLen (intBytes 2) (PublicKeySize group14)) examplePub = Inr sh" "sh \<noteq> []"
    using example_shared by blast
  have n: "GenerateNonce (d1Nonce exampleV1Draws) 32 = Inr (replicate 32 7)" by (simp add: GenerateNonce_def exampleV1Draws_def)
  obtain keys where k: "DeriveIKEv1Keys (ilHmac ?lib) (s1PRF ?s) (s1PSK ?s) sh [1, 2, 3] (replicate 32 7) (CookieI ?s) (CookieR ?s) = Inr keys"
    using sh(2) by (simp add: DeriveIKEv1Keys_def Let_def)
  have e: "NewIKEEncryptor (v1EncToV2Enc (s1EncAlg ?s)) (s1KeyLength ?s) = Inr (AesCBC 12 16)"
    unfolding exampleV1Session_facts by code_simp
  obtain ke where x: "expandV1EncKey (ilHmac ?lib) (s1PRF ?s) (SKEYID_e keys) (v1EncKeySize (s1EncAlg ?s) (s1KeyLength ?s)) = Some ke"
    using expandV1EncKey_Some [of "ilHmac ?lib" "s1PRF ?s" "SKEYID_e keys" "v1EncKeySize (s1EncAlg ?s) (s1KeyLength ?s)"]
    by (auto simp: exampleIkeLib_def)
  have iv: "length (computeV1InitialIV (ilDigests ?lib) (s1HashAlg ?s) [1, 2, 3] (replicate 32 7) (Some (AesCBC 12 16))) = 16"
    by (simp add: computeV1InitialIV_def exampleV1Session_facts exampleIkeLib_def encBlockSize_def aesBlockSize_def)
  have d: "d1PrivInt exampleV1Draws = Some 0" by (simp add: exampleV1Draws_def)
  show ?thesis
    unfolding HandleMainMode3_def Let_def p g d n option.case sum.case
    using sh(1) k e x iv example_keypair exampleV1Session_facts by auto
qed

theorem main_mode_agreement_witness:
  "\<exists>resp s' pubR sh. HandleMainMode3 exampleIkeLib exampleV1Draws exampleV1Session exampleV1Message3 = (Inr resp, s') \<and>
     findPayloadAs asKEv1 (mPayloads resp) = Some pubR \<and>
     ComputeSharedSecret group14 (padToLen (intBytes 2) (PublicKeySize group14)) pubR = Inr sh \<and> s1State s' = StateV1MainKERecv"
proof -
  obtain resp s' where r: "HandleMainMode3 exampleIkeLib exampleV1Draws exampleV1Session exampleV1Message3 = (Inr resp, s')"
    "s1DHPubKey s' = examplePub" using example_main_mode_3 by blast
  have g: "NewDHGroup (ilEcdh exampleIkeLib) (s1DHGroupID exampleV1Session) = Inr group14" by (simp add: NewDHGroup_def exampleV1Session_facts)
  have z: "0 < modpPrime2048 - 2" "4 \<le> modpPrime2048 - 2" by (simp_all add: modpPrime2048_def)
  have pub: "2 \<le> SetBytes (s1DHPubKey s')" "SetBytes (s1DHPubKey s') \<le> modpPrime2048 - 2"
    using z(2) by (simp_all add: r(2) SetBytes_examplePub)
  have "d1PrivInt exampleV1Draws = Some 0" by (simp add: exampleV1Draws_def)
  moreover have "findPayloadAs asKEv1 (mPayloads exampleV1Message3) = Some examplePub" by (simp add: exampleV1Message3_def v1_as_defs)
  ultimately show ?thesis
    using main_mode_agreement [OF r(1) g _ z(1,1) example_keypair _ pub] r(1) by auto
qed

theorem main_mode_completes_witness:
  "\<exists>(s :: IKEv1Session) msg resp s'. s1State s = StateV1MainKERecv \<and>
     HandleMainMode5 exampleIkeLib (NewIKEv1Handler (\<lambda>_. None) None (strBytes ''gw'') 2) s msg = (Inr resp, s') \<and>
     s1State s' = StateV1Established \<and> s1PeerID s' = strBytes ''alice''"
proof -
  let ?id = "\<lparr>idv1Type = 3, idv1Proto = 0, idv1Port = 0, idv1Data = strBytes ''alice''\<rparr>" and ?lib = exampleIkeLib
  obtain s :: IKEv1Session and k where s: "s1State s = StateV1MainKERecv" "s1Keys s = Some k" "s1Encryptor s = Some (AesCBC 12 16)"
    "length (CurrentIV s) = 16" "CookieI s = replicate 8 1" "CookieR s = replicate 8 5" "s1LocalID s = strBytes ''gw''"
    using example_main_mode_3 by blast
  have l: "length (CookieI s) = 8" "length (CookieR s) = 8" "length (s1LocalID s) < 60000"
    using s by (simp_all add: strBytes_def)
  have c: "cipherOk (ilCrypto ?lib) (AesCBC 12 16) (SKEYID_e k)" by (simp add: cipherOk_def exampleIkeLib_def example_lib_def)
  have h: "hmac_ok (ilHmac ?lib)" by (simp add: exampleIkeLib_def)
  obtain hashI where hi: "computeV1Hash (ilHmac ?lib) s True ?id = Inr hashI"
    using s(2) by (simp add: computeV1Hash_def Let_def)
  have "length hashI \<le> 64"
    using hi s(2) h by (auto simp: computeV1Hash_def Let_def length_prfCompute hashSize_def split: hash_alg.split)
  then have ok: "\<forall>p\<in>set [PlIDv1 ?id, PlHashV1 hashI]. payload_ok False p"
    by (simp add: payload_ok_def payloadBody_def bodyIDv1_def strBytes_def)
  then obtain enc where e: "sealV1 ?lib s (CurrentIV s) [PlIDv1 ?id, PlHashV1 hashI] = Inr (enc, headType [PlIDv1 ?id, PlHashV1 hashI])"
    using sealV1_openV1 [OF s(3,2) c s(4) ok] by blast
  have i: "payload_ok False (PlIDv1 ?id)" using ok by simp
  show ?thesis
    using main_mode_completes [OF l(1,2) s(4,1,2,3) c h i l(3) hi e, of "NewIKEv1Handler (\<lambda>_. None) None (strBytes ''gw'') 2"] s(1)
    by (metis IDv1Payload.select_convs(4))
qed

end
