(* ===== verification/IkeV2Auth.thy ===== *)
theory IkeV2Auth
  imports IkeV2Init
begin

unbundle bit_operations_syntax

text \<open>
  IKE_AUTH and CREATE_CHILD_SA of the IKEv2 responder (\<^verbatim>\<open>internal/ike/ikev2_auth.go\<close>, and
  \<^verbatim>\<open>startEAPExchange\<close> of \<^verbatim>\<open>ikev2_eap_auth.go\<close>). A handler works on the session it locks: it
  returns its result together with the session as it left it, also when it fails. The
  function that assigns an address is an argument: no function, an error, or an address with
  its mask.
\<close>

type_synonym ip_assignment = "(ip \<times> bytes option) option option"

type_synonym v2_result = "(v2_error + Message) \<times> IKEv2Session"

section \<open>Messages in both directions\<close>

definition skFailure :: "sk_error \<Rightarrow> v2_error" where
  "skFailure e = (if e = SkChain IkePanic \<or> e = SkCipher CryptoPanic then V2Panic else V2Sk e)"

text \<open>The first step of every handler: find the Encrypted payload, authenticate and decrypt it.\<close>

definition openRequest :: "ike_lib \<Rightarrow> IKEv2Session \<Rightarrow> Message \<Rightarrow> v2_error + ParsedPayload list" where
  "openRequest lib sess msg =
     (case findPayloadAs asSK (mPayloads msg) of
        None \<Rightarrow> Inl (V2Missing PayloadSK)
      | Some skBody \<Rightarrow>
          (case MarshalMessage msg of
             (Inl e, _) \<Rightarrow> Inl (V2Marshal e)
           | (Inr msgBytes, msg') \<Rightarrow>
               (case go_slice 0 HeaderLen msgBytes of
                  None \<Rightarrow> Inl V2Panic
                | Some aad \<Rightarrow>
                    map_sum skFailure id
                      (DecryptSKPayload (ilCrypto lib) (ilHmac lib) (Encryptor sess) (IntegAlg sess) (SK_ei (Keys sess))
                         (SK_ai (Keys sess)) aad skBody (HdrNextPayload (mHeader msg'))))))"

definition buildEncryptedResponse ::
  "ike_lib \<Rightarrow> bytes option \<Rightarrow> IKEv2Session \<Rightarrow> byte \<Rightarrow> u32 \<Rightarrow> Payload list \<Rightarrow> v2_error + Message" where
  "buildEncryptedResponse lib rnd sess exchType msgID innerPayloads =
     (let tmpHeader = responseHeader (s2InitiatorSPI sess) (s2ResponderSPI sess) exchType msgID;
          tmpHeaderBytes = MarshalBinary tmpHeader
      in
      case EncryptSKPayload (ilCrypto lib) (ilHmac lib) rnd (Encryptor sess) (IntegAlg sess) (SK_er (Keys sess))
             (SK_ar (Keys sess)) tmpHeaderBytes innerPayloads of
        Inl e \<Rightarrow> Inl (skFailure e)
      | Inr (firstPT, skBody) \<Rightarrow>
          (let skPayloadBytes = (marshalWithHeader skBody)[0 := firstPT];
               totalLen = HeaderLen + length skPayloadBytes;
               hdr = tmpHeader\<lparr>HdrNextPayload := PayloadSK, IkeLength := of_nat totalLen\<rparr>
           in
           case MarshalIkeHeader hdr (replicate totalLen 0) of
             Inl e \<Rightarrow> Inl (V2Marshal e)
           | Inr rawResp \<Rightarrow>
               Inr \<lparr>mHeader = hdr, mPayloads = [], RawMessage = copy_at HeaderLen skPayloadBytes rawResp\<rparr>))"

definition buildEncryptedNotify ::
  "ike_lib \<Rightarrow> bytes option \<Rightarrow> IKEv2Session \<Rightarrow> u32 \<Rightarrow> byte \<Rightarrow> u16 \<Rightarrow> bytes \<Rightarrow> v2_error + Message" where
  "buildEncryptedNotify lib rnd sess msgID exchType t data =
     buildEncryptedResponse lib rnd sess exchType msgID [notifyOf t data]"

definition buildAuthError :: "ike_lib \<Rightarrow> bytes option \<Rightarrow> IKEv2Session \<Rightarrow> u16 \<Rightarrow> v2_error + Message" where
  "buildAuthError lib rnd sess t = buildEncryptedNotify lib rnd sess 1 ExchangeIKEAuth t []"

section \<open>Authentication\<close>

abbreviation (input) AuthRSASig :: byte where "AuthRSASig \<equiv> 1"
abbreviation (input) AuthSharedKey :: byte where "AuthSharedKey \<equiv> 2"
abbreviation (input) AuthECDSASHA256 :: byte where "AuthECDSASHA256 \<equiv> 9"
abbreviation (input) AuthECDSASHA384 :: byte where "AuthECDSASHA384 \<equiv> 10"
abbreviation (input) AuthDigitalSig :: byte where "AuthDigitalSig \<equiv> 14"

datatype auth_failure = PskMismatch | UnsupportedMethod byte

definition verifyAuth :: "ike_lib \<Rightarrow> IKEv2Session \<Rightarrow> AUTHPayload \<Rightarrow> IDPayload \<Rightarrow> auth_failure option" where
  "verifyAuth lib sess auth idp =
     (if Method auth = AuthSharedKey then
        (if hashEqual (ComputeIKEv2AuthPSK (ilHmac lib) (s2PRF sess) (PSK sess) (InitReqBytes sess) (NonceR sess)
              (SK_pi (Keys sess)) (PlID idp)) (authData auth)
         then None else Some PskMismatch)
      else if Method auth = AuthRSASig \<or> Method auth = AuthECDSASHA256 \<or> Method auth = AuthECDSASHA384 \<or>
        Method auth = AuthDigitalSig then None
      else Some (UnsupportedMethod (Method auth)))"

section \<open>Child SAs\<close>

abbreviation (input) CPRequest :: byte where "CPRequest \<equiv> 1"
abbreviation (input) CPReply :: byte where "CPReply \<equiv> 2"
abbreviation (input) ConfigInternalIP4Address :: u16 where "ConfigInternalIP4Address \<equiv> 1"
abbreviation (input) ConfigInternalIP4Netmask :: u16 where "ConfigInternalIP4Netmask \<equiv> 2"
abbreviation (input) ConfigInternalIP4DNS :: u16 where "ConfigInternalIP4DNS \<equiv> 3"

definition buildCPReply :: "ip_assignment \<Rightarrow> ip list \<Rightarrow> CPPayload" where
  "buildCPReply assignIP dnsServers =
     (let addr = (case assignIP of
                    Some (Some (ip, ipMask)) \<Rightarrow>
                      \<lparr>cfgType = ConfigInternalIP4Address, cfgValue = To4 ip\<rparr> #
                      (case ipMask of None \<Rightarrow> [] | Some m \<Rightarrow> [\<lparr>cfgType = ConfigInternalIP4Netmask, cfgValue = m\<rparr>])
                  | _ \<Rightarrow> []);
          dns = (if length dnsServers = 0 then [v4InV6Prefix @ [1, 1, 1, 1], v4InV6Prefix @ [1, 0, 0, 1]] else dnsServers)
      in \<lparr>ConfigType = CPReply, Attributes = addr @ map (\<lambda>d. \<lparr>cfgType = ConfigInternalIP4DNS, cfgValue = To4 d\<rparr>) dns\<rparr>)"

definition childKeyLengths :: "SelectedProposal \<Rightarrow> nat \<times> nat" where
  "childKeyLengths sel =
     (let ks = unat (EncrKeyLen sel div 8);
          encKeyLen = (if EncrID sel = EncrAES_GCM_16 then (if ks = 0 then 32 else ks) + 4 else if ks = 0 then 16 else ks);
          intKeyLen = (if IntegID sel \<noteq> 0
                       then (case NewIkeIntegrity (IntegID sel) of Inl _ \<Rightarrow> 0 | Inr ii \<Rightarrow> iiKeySize ii) else 0)
      in (encKeyLen, intKeyLen))"

text \<open>The derivation and the splitting of the keys, and the peer's SPI.\<close>

definition buildChildSA ::
  "ike_lib \<Rightarrow> IKEv2Session \<Rightarrow> SelectedProposal \<Rightarrow> SAPayload \<Rightarrow> bytes \<Rightarrow> bytes \<Rightarrow> bytes \<Rightarrow> IKEv2ChildSA option" where
  "buildChildSA lib sess sel sa inSPI ni nr =
     (let (encKeyLen, intKeyLen) = childKeyLengths sel in
      case DeriveChildSAKeys (ilHmac lib) (s2PRF sess) (SK_d (Keys sess)) ni nr [] ((encKeyLen + intKeyLen) * 2) of
        None \<Rightarrow> None
      | Some keymat \<Rightarrow>
          (let o1 = encKeyLen; o2 = o1 + intKeyLen; o3 = o2 + encKeyLen;
               outSPI = (case Proposals sa of
                           [] \<Rightarrow> replicate 4 0
                         | p # _ \<Rightarrow> if length (propSPI p) \<ge> 4 then take 4 (propSPI p) else replicate 4 0)
           in Some
             \<lparr>cInSPI = inSPI, cOutSPI = outSPI, cEncrKey = slice o2 o3 keymat,
              cIntegKey = (if intKeyLen > 0 then slice o3 (o3 + intKeyLen) keymat else []),
              cPeerEncrKey = slice 0 o1 keymat, cPeerIntegKey = (if intKeyLen > 0 then slice o1 o2 keymat else []),
              cEncrID = EncrID sel, cIntegID = IntegID sel, cKeyLength = EncrKeyLen sel\<rparr>))"

text \<open>
  From the choice of the child proposal to the end: the same steps in \<^verbatim>\<open>HandleAuth\<close> (lines 91
  to 238) and in \<^verbatim>\<open>handleFinalEAPAuth\<close> (lines 313 to 424).
\<close>

definition authResponse :: "ike_lib \<Rightarrow> IKEv2Session \<Rightarrow> Proposal \<Rightarrow> TSPayload option \<Rightarrow> TSPayload option \<Rightarrow> Payload list \<Rightarrow> Payload list" where
  "authResponse lib sess prop tsI tsR cpReply =
     (let respID = \<lparr>idIsInitiator = False, IDType = LocalIDType sess, idData = LocalID sess\<rparr>;
          respAuth = ComputeIKEv2AuthPSK (ilHmac lib) (s2PRF sess) (PSK sess) (InitRespBytes sess) (NonceI sess)
                       (SK_pr (Keys sess)) (PlID respID)
      in [PlID respID, PlAUTH \<lparr>Method = AuthSharedKey, authData = respAuth\<rparr>, PlSA \<lparr>Proposals = [prop]\<rparr>] @
         map PlTS (case tsI of None \<Rightarrow> [] | Some t \<Rightarrow> [t]) @ map PlTS (case tsR of None \<Rightarrow> [] | Some t \<Rightarrow> [t]) @ cpReply)"

definition finishAuth ::
  "ike_lib \<Rightarrow> IKEv2Handler \<Rightarrow> v2_draws \<Rightarrow> IKEv2Session \<Rightarrow> u32 \<Rightarrow> SAPayload option \<Rightarrow> TSPayload option \<Rightarrow> TSPayload option
   \<Rightarrow> CPPayload option \<Rightarrow> ip_assignment \<Rightarrow> ip list \<Rightarrow> v2_result" where
  "finishAuth lib h dr sess msgID saPayload tsI tsR cp assignIP dnsServers =
     (case saPayload of
        None \<Rightarrow> (buildAuthError lib (drIV dr) sess NotifyNoProposalChosen, sess)
      | Some sa \<Rightarrow>
     (case SelectProposal (ilOrdE lib) (ilOrdB lib) (Some (defaultChildProposals h)) (Some sa) of
        Inl _ \<Rightarrow> (buildAuthError lib (drIV dr) sess NotifyNoProposalChosen, sess)
      | Inr (sel, prop) \<Rightarrow>
     (case drChildSPI dr of
        None \<Rightarrow> (Inl V2Rand, sess)
      | Some inSPI \<Rightarrow>
     (case buildChildSA lib sess sel sa inSPI (NonceI sess) (NonceR sess) of
        None \<Rightarrow> (Inl V2Panic, sess)
      | Some childSA \<Rightarrow>
          (let sess1 = sess\<lparr>ChildSAs := ChildSAs sess @ [childSA]\<rparr>;
               cpReply = (case cp of
                            Some c \<Rightarrow> if ConfigType c = CPRequest \<and> assignIP \<noteq> None
                                      then [PlCP (buildCPReply assignIP dnsServers)] else []
                          | None \<Rightarrow> [])
           in
           case buildEncryptedResponse lib (drIV dr) sess1 ExchangeIKEAuth msgID
                  (authResponse lib sess (prop\<lparr>propSPI := inSPI\<rparr>) tsI tsR cpReply) of
             Inl e \<Rightarrow> (Inl e, sess1)
           | Inr resp \<Rightarrow> (Inr resp, sess1\<lparr>s2State := StateV2Established\<rparr>))))))"

section \<open>The handlers\<close>

definition startEAPExchange :: "ike_lib \<Rightarrow> v2_draws \<Rightarrow> IKEv2Session \<Rightarrow> v2_result" where
  "startEAPExchange lib dr sess =
     (let sess1 = sess\<lparr>EAPIdentifier := 1, s2State := StateV2EAPInProgress\<rparr>;
          respID = \<lparr>idIsInitiator = False, IDType = LocalIDType sess, idData = LocalID sess\<rparr>
      in (buildEncryptedResponse lib (drIV dr) sess1 ExchangeIKEAuth 1
            [PlID respID, PlEAP (BuildEAPIdentityRequest (EAPIdentifier sess1))], sess1))"

definition HandleAuth ::
  "ike_lib \<Rightarrow> IKEv2Handler \<Rightarrow> v2_draws \<Rightarrow> IKEv2Session \<Rightarrow> Message \<Rightarrow> ip_assignment \<Rightarrow> ip list \<Rightarrow> v2_result" where
  "HandleAuth lib h dr sess msg assignIP dnsServers =
     (if s2State sess \<noteq> StateV2InitRecv then (Inl (V2State (s2State sess)), sess)
      else
      (case openRequest lib sess msg of
         Inl e \<Rightarrow> (Inl e, sess)
       | Inr innerChain \<Rightarrow>
           (let auth = findPayloadAs asAUTH innerChain;
                sa = findPayloadAs asSA innerChain;
                tsI = findPayloadAs (asTS True) innerChain;
                tsR = findPayloadAs (asTS False) innerChain;
                cp = findPayloadAs asCP innerChain
            in
            case findPayloadAs asID innerChain of
              None \<Rightarrow> (Inl (V2Missing PayloadIDi), sess)
            | Some idp \<Rightarrow>
                (let sess1 = sess\<lparr>PeerIDType := IDType idp, PeerID := idData idp\<rparr> in
                 case auth of
                   None \<Rightarrow>
                     if getEAPCredentials h \<noteq> None then
                       startEAPExchange lib dr
                         (sess1\<lparr>pendingAuthSA := sa, pendingAuthTSi := tsI, pendingAuthTSr := tsR, pendingAuthCP := cp\<rparr>)
                     else (Inl (V2Missing PayloadAUTH), sess1)
                 | Some a \<Rightarrow>
                     (case getConnPSK h (s2PeerAddr sess1) (PeerID sess1) of
                        None \<Rightarrow> (Inl V2NoPSK, sess1)
                      | Some (psk, connName) \<Rightarrow>
                          (let sess2 = sess1\<lparr>PSK := psk, ConnName := connName\<rparr> in
                           case verifyAuth lib sess2 a idp of
                             Some _ \<Rightarrow> (buildAuthError lib (drIV dr) sess2 NotifyAuthenticationFailed, sess2)
                           | None \<Rightarrow> finishAuth lib h dr sess2 1 sa tsI tsR cp assignIP dnsServers)))))) "

definition HandleCreateChildSA ::
  "ike_lib \<Rightarrow> IKEv2Handler \<Rightarrow> v2_draws \<Rightarrow> IKEv2Session \<Rightarrow> Message \<Rightarrow> v2_result" where
  "HandleCreateChildSA lib h dr sess msg =
     (if s2State sess \<noteq> StateV2Established then (Inl (V2State (s2State sess)), sess)
      else
      (case openRequest lib sess msg of
         Inl e \<Rightarrow> (Inl e, sess)
       | Inr innerChain \<Rightarrow>
           (case (findPayloadAs asSA innerChain, findPayloadAs asNonce innerChain) of
              (Some sa, Some ni) \<Rightarrow>
                (let msgID = MessageID (mHeader msg);
                     isIKERekey = (case Proposals sa of [] \<Rightarrow> False | p # _ \<Rightarrow> propProtocolID p = ProtocolIKE)
                 in
                 if isIKERekey then
                   (buildEncryptedNotify lib (drIV dr) sess msgID ExchangeCreateChildSA NotifyNoAdditionalSAS [], sess)
                 else
                 (case SelectProposal (ilOrdE lib) (ilOrdB lib) (Some (defaultChildProposals h)) (Some sa) of
                    Inl _ \<Rightarrow> (buildEncryptedNotify lib (drIV dr) sess msgID ExchangeCreateChildSA NotifyNoProposalChosen [], sess)
                  | Inr (sel, prop) \<Rightarrow>
                 (case GenerateNonce (drNonce dr) 32 of
                    Inl e \<Rightarrow> (Inl (V2Crypto e), sess)
                  | Inr nr \<Rightarrow>
                 (case drChildSPI dr of
                    None \<Rightarrow> (Inl V2Rand, sess)
                  | Some inSPI \<Rightarrow>
                 (case buildChildSA lib sess sel sa inSPI ni nr of
                    None \<Rightarrow> (Inl V2Panic, sess)
                  | Some childSA \<Rightarrow>
                      (let sess1 = sess\<lparr>ChildSAs := ChildSAs sess @ [childSA]\<rparr>;
                           resp = [PlSA \<lparr>Proposals = [prop\<lparr>propSPI := inSPI\<rparr>]\<rparr>, PlNonce nr] @
                             map PlTS (case findPayloadAs (asTS True) innerChain of None \<Rightarrow> [] | Some t \<Rightarrow> [t]) @
                             map PlTS (case findPayloadAs (asTS False) innerChain of None \<Rightarrow> [] | Some t \<Rightarrow> [t])
                       in (buildEncryptedResponse lib (drIV dr) sess1 ExchangeCreateChildSA msgID resp, sess1)))))))
            | _ \<Rightarrow> (Inl (V2Missing PayloadSA), sess))))"

section \<open>Requests of a peer that holds the keys\<close>

text \<open>
  What a peer with the session's keys can send: the payloads, sealed with the initiator's keys
  under the header of the message they travel in. The length of the sealed body does not
  depend on that header.
\<close>

definition peerHeader :: "IKEv2Session \<Rightarrow> byte \<Rightarrow> u32 \<Rightarrow> nat \<Rightarrow> IkeHeader" where
  "peerHeader sess exch mid n =
     \<lparr>InitiatorSPI = s2InitiatorSPI sess, ResponderSPI = s2ResponderSPI sess, HdrNextPayload = PayloadSK, MajorVersion = IKEv2Major,
      MinorVersion = 0, Exchange = exch, HdrFlags = FlagInitiator, MessageID = mid, IkeLength = of_nat (32 + n)\<rparr>"

definition peerBody :: "ike_lib \<Rightarrow> IKEv2Session \<Rightarrow> bytes \<Rightarrow> bytes \<Rightarrow> bytes \<Rightarrow> bytes" where
  "peerBody lib sess iv hdr plaintext =
     (case sealBody (ilCrypto lib) (ilHmac lib) (Encryptor sess) (IntegAlg sess) (SK_ei (Keys sess)) (SK_ai (Keys sess)) iv hdr plaintext of
        Inl _ \<Rightarrow> [] | Inr sk \<Rightarrow> sk)"

definition peerRequest :: "ike_lib \<Rightarrow> IKEv2Session \<Rightarrow> bytes \<Rightarrow> byte \<Rightarrow> u32 \<Rightarrow> Payload list \<Rightarrow> Message" where
  "peerRequest lib sess iv exch mid payloads =
     (let n = length (peerBody lib sess iv [] (linkPayloads payloads)); h = peerHeader sess exch mid n
      in \<lparr>mHeader = h, mPayloads = chainOf [PlSK (peerBody lib sess iv (ikeHeaderBytes h) (linkPayloads payloads))], RawMessage = []\<rparr>)"

text \<open>A session whose ciphers work and whose SPIs have their size.\<close>

definition sessOk :: "ike_lib \<Rightarrow> IKEv2Session \<Rightarrow> bool" where
  "sessOk lib sess \<longleftrightarrow> length (s2InitiatorSPI sess) = 8 \<and> length (s2ResponderSPI sess) = 8 \<and>
     s2InitiatorSPI sess \<noteq> replicate 8 0 \<and>
     skOk (ilCrypto lib) (ilHmac lib) (Encryptor sess) (IntegAlg sess) (SK_ei (Keys sess)) \<and>
     skOk (ilCrypto lib) (ilHmac lib) (Encryptor sess) (IntegAlg sess) (SK_er (Keys sess))"

lemma sealBody_length:
  assumes "skOk cl hmac enc integ k" and "length iv = encIVSize enc"
    and "sealBody cl hmac enc integ k ik iv h1 p = Inr a" and "sealBody cl hmac enc integ k ik iv h2 p = Inr b"
  shows "length a = length b"
proof (cases "encIsAEAD enc")
  case True
  then obtain i ks where e: "enc = AesGCM i ks" by (cases enc) (simp_all add: encIsAEAD_def)
  obtain g salt where g: "gcmInit cl ks k = Inr (g, salt)" "aead_ok g"
    using assms(1) unfolding e by (auto simp: skOk_def cipherOk_def)
  have "length (gcmNonce salt iv) = 12"
    using gcmInit_salt [OF g(1)] assms(2) e by (simp add: gcmNonce_eq encIVSize_def)
  with g(2) have "length (Seal g (gcmNonce salt iv) q h) = length q + 16" for q h by (simp add: aead_ok_def)
  with assms(3,4) g(1) show ?thesis by (auto simp: e sealBody_def EncryptWith_def encIsAEAD_def)
next
  case False
  then obtain ii where "integ = Some ii" "integOk hmac ii" using assms(1) by (auto simp: skOk_def)
  with False assms(3,4) show ?thesis by (auto simp: sealBody_def integOk_def split: sum.splits)
qed

lemma peerBody_open:
  assumes "sessOk lib sess" and "length iv = encIVSize (Encryptor sess)"
  shows "decryptSKBody (ilCrypto lib) (ilHmac lib) (Encryptor sess) (IntegAlg sess) (SK_ei (Keys sess)) (SK_ai (Keys sess)) hdr
      (peerBody lib sess iv hdr p) = Inr p"
    and "length (peerBody lib sess iv hdr p) = length (peerBody lib sess iv [] p)"
proof -
  have k: "skOk (ilCrypto lib) (ilHmac lib) (Encryptor sess) (IntegAlg sess) (SK_ei (Keys sess))"
    using assms(1) by (simp add: sessOk_def)
  obtain sk where sk: "sealBody (ilCrypto lib) (ilHmac lib) (Encryptor sess) (IntegAlg sess) (SK_ei (Keys sess)) (SK_ai (Keys sess)) iv hdr p = Inr sk"
    "decryptSKBody (ilCrypto lib) (ilHmac lib) (Encryptor sess) (IntegAlg sess) (SK_ei (Keys sess)) (SK_ai (Keys sess)) hdr sk = Inr p"
    using sealBody_open [OF k assms(2)] by blast
  obtain sk0 where sk0: "sealBody (ilCrypto lib) (ilHmac lib) (Encryptor sess) (IntegAlg sess) (SK_ei (Keys sess)) (SK_ai (Keys sess)) iv [] p = Inr sk0"
    using sealBody_open [OF k assms(2)] by blast
  show "decryptSKBody (ilCrypto lib) (ilHmac lib) (Encryptor sess) (IntegAlg sess) (SK_ei (Keys sess)) (SK_ai (Keys sess)) hdr
      (peerBody lib sess iv hdr p) = Inr p"
    using sk by (simp add: peerBody_def)
  show "length (peerBody lib sess iv hdr p) = length (peerBody lib sess iv [] p)"
    using sealBody_length [OF k assms(2) sk(1) sk0] sk(1) sk0 by (simp add: peerBody_def)
qed

text \<open>The size limits of the messages.\<close>

definition fitsMessage :: "ike_lib \<Rightarrow> IKEv2Session \<Rightarrow> bytes \<Rightarrow> Payload list \<Rightarrow> bool" where
  "fitsMessage lib sess iv ps \<longleftrightarrow> length iv = encIVSize (Encryptor sess) \<and> (\<forall>p\<in>set ps. payload_ok True p) \<and>
     length (peerBody lib sess iv [] (linkPayloads ps)) < 65532"

lemma peerRequest_message_ok:
  assumes "sessOk lib sess" and "fitsMessage lib sess iv ps"
  shows "message_ok (peerRequest lib sess iv exch mid ps) \<and>
    finalHeader (peerRequest lib sess iv exch mid ps) =
      peerHeader sess exch mid (length (peerBody lib sess iv [] (linkPayloads ps)))"
proof -
  let ?n = "length (peerBody lib sess iv [] (linkPayloads ps))"
  let ?h = "peerHeader sess exch mid ?n"
  have iv: "length iv = encIVSize (Encryptor sess)" using assms(2) by (simp add: fitsMessage_def)
  have l: "length (peerBody lib sess iv (ikeHeaderBytes ?h) (linkPayloads ps)) = ?n"
    by (rule peerBody_open(2) [OF assms(1) iv])
  have "?n < 65532" using assms(2) by (simp add: fitsMessage_def)
  with l assms show ?thesis
    by (simp add: message_ok_def peerRequest_def Let_def peerHeader_def ikeHeader_wf_def sessOk_def IsIKEv2_def IKEv2Major_def
        payload_ok_def payloadBody_def payloadNorm_def linkPayloads_Cons finalHeader_def headType_def payloadType_def)
qed

text \<open>
  The responder authenticates and decrypts such a request, but reads its first payload as one
  more Encrypted payload, because it passes the type of the outer payload for that of the
  first inner one.
\<close>

lemma openRequest_peerRequest:
  assumes "sessOk lib sess" and "fitsMessage lib sess iv (p0 # ps)"
  shows "\<exists>gph. openRequest lib sess (peerRequest lib sess iv exch mid (p0 # ps)) =
    Inr (\<lparr>ppHeader = gph, ppPayload = PlSK (payloadBody p0)\<rparr> # chainOf ps)"
proof -
  let ?m = "peerRequest lib sess iv exch mid (p0 # ps)" and ?p = "linkPayloads (p0 # ps)"
  let ?h = "peerHeader sess exch mid (length (peerBody lib sess iv [] ?p))"
  note mo = peerRequest_message_ok [OF assms, of exch mid]
  have iv: "length iv = encIVSize (Encryptor sess)" and ok: "\<forall>p\<in>set (p0 # ps). payload_ok True p"
    using assms(2) by (simp_all add: fitsMessage_def)
  have wf: "ikeHeader_wf ?h" using assms(1) by (simp add: peerHeader_def ikeHeader_wf_def sessOk_def IKEv2Major_def)
  have pl: "map ppPayload (mPayloads ?m) = [PlSK (peerBody lib sess iv (ikeHeaderBytes ?h) ?p)]"
    by (simp add: peerRequest_def Let_def payloadNorm_def del: linkPayloads.simps)
  have sk: "findPayloadAs asSK (mPayloads ?m) = Some (peerBody lib sess iv (ikeHeaderBytes ?h) ?p)"
    by (simp add: peerRequest_def Let_def payloadNorm_def asSK_def del: linkPayloads.simps)
  have aad: "go_slice 0 HeaderLen (ikeHeaderBytes ?h @ r) = Some (ikeHeaderBytes ?h)" for r
    using length_ikeHeaderBytes [OF wf] by (simp add: go_slice_def slice_def HeaderLen_def)
  have np: "HdrNextPayload ?h = PayloadSK" by (simp add: peerHeader_def)
  have step: "ParsePayloadChain ?p PayloadSK True =
      Inr (\<lparr>ppHeader = \<lparr>gphNext = headType ps, Critical = False, gphLength = of_nat (4 + length (payloadBody p0))\<rparr>,
            ppPayload = PlSK (payloadBody p0)\<rparr> # chainOf ps)"
  proof -
    have b: "length (payloadBody p0) < 65532" using ok by (simp add: payload_ok_def)
    have t: "parseTypedPayload PayloadSK (payloadBody p0) True = Inr (PlSK (payloadBody p0))"
      by (simp add: parseTypedPayload_def parseV2Payload_def)
    have "parseChainAt (withNext (headType ps) (payloadBody p0) @ linkPayloads ps) (headType ps) True
        (length (withNext (headType ps) (payloadBody p0))) = Inr (chainOf ps)"
      using ok by (intro parseChainAt_linkPayloads) simp
    with parseChainAt_step [OF _ b, of PayloadSK "[]" "headType ps" "linkPayloads ps" True] t show ?thesis
      by (simp add: ParsePayloadChain_def linkPayloads_Cons)
  qed
  have "openRequest lib sess ?m = map_sum skFailure id (DecryptSKPayload (ilCrypto lib) (ilHmac lib) (Encryptor sess) (IntegAlg sess)
      (SK_ei (Keys sess)) (SK_ai (Keys sess)) (ikeHeaderBytes ?h) (peerBody lib sess iv (ikeHeaderBytes ?h) ?p) PayloadSK)"
    unfolding openRequest_def sk option.case MarshalMessage_eq [OF conjunct1 [OF mo]] prod.case sum.case conjunct2 [OF mo] aad
    by (simp add: np)
  then show ?thesis
    using peerBody_open(1) [OF assms(1) iv, of "ikeHeaderBytes ?h" ?p] step by (simp add: decrypt_routines)
qed

section \<open>What IKE_AUTH accepts\<close>

lemma findPayloadAs_SK [simp]:
  "asID (PlSK b) = None" "asAUTH (PlSK b) = None" "asSA (PlSK b) = None" "asCP (PlSK b) = None" "asTS i (PlSK b) = None"
  "asNonce (PlSK b) = None" "asEAP (PlSK b) = None"
  by (simp_all add: as_defs)

lemma findPayloadAs_chainOf_none:
  "(\<forall>p\<in>set ps. f (payloadNorm p) = None) \<Longrightarrow> findPayloadAs f (chainOf ps) = None"
  by (induction ps) simp_all

text \<open>
  No conforming initiator can authenticate, even if its message gets past the parser. Let
  the request be sealed with the right keys under the right header, with the ID payload of
  the initiator first and no second ID payload, as RFC 7296 lays it out: the handler reads the
  ID payload as an Encrypted payload, finds no identity, fails, and leaves the session as it
  was.
\<close>

theorem conforming_auth_refused:
  assumes "sessOk lib sess" and "fitsMessage lib sess iv (PlID idp # rest)"
    and "\<forall>p\<in>set rest. \<forall>i. p \<noteq> PlID i" and "s2State sess = StateV2InitRecv"
  shows "HandleAuth lib h dr sess (peerRequest lib sess iv exch mid (PlID idp # rest)) assignIP dns =
    (Inl (V2Missing PayloadIDi), sess)"
proof -
  obtain gph where o: "openRequest lib sess (peerRequest lib sess iv exch mid (PlID idp # rest)) =
    Inr (\<lparr>ppHeader = gph, ppPayload = PlSK (payloadBody (PlID idp))\<rparr> # chainOf rest)"
    using openRequest_peerRequest [OF assms(1,2)] by blast
  have "asID (payloadNorm p) = None" if "p \<in> set rest" for p
    using assms(3) that by (cases p) (auto simp: asID_def payloadNorm_def)
  then have "findPayloadAs asID (chainOf rest) = None" by (intro findPayloadAs_chainOf_none) simp
  with o assms(4) show ?thesis by (simp add: HandleAuth_def)
qed

lemma finishAuth_Established:
  assumes "finishAuth lib h dr sess mid sa tsI tsR cp assignIP dns = (r, sess')" and "s2State sess' = StateV2Established"
    and "s2State sess \<noteq> StateV2Established"
  shows "\<exists>m c. r = Inr m \<and> ChildSAs sess' = ChildSAs sess @ [c] \<and> PSK sess' = PSK sess \<and> PeerID sess' = PeerID sess"
  using assms unfolding finishAuth_def Let_def
  by (auto split: option.splits sum.splits prod.splits intro: sym [of "Inr _"])

text \<open>
  C18. How an IKE_AUTH request without EAP establishes a session. The request decrypts with the
  session's keys to a chain with an ID and an AUTH payload; the configuration knows a key for
  the address and the ID; and AUTH either carries the PRF value of RFC 7296, 2.15, for that
  key over the SA_INIT request, the nonce and the ID, or names one of four signature methods.
  The response is a message, and exactly one child SA was added.
\<close>

theorem established_by_auth:
  assumes "HandleAuth lib h dr sess msg assignIP dns = (r, sess')" and "s2State sess' = StateV2Established"
    and "s2State sess \<noteq> StateV2Established"
  shows "\<exists>chain idp auth psk name c. openRequest lib sess msg = Inr chain \<and> findPayloadAs asID chain = Some idp \<and>
    findPayloadAs asAUTH chain = Some auth \<and> getConnPSK h (s2PeerAddr sess) (idData idp) = Some (psk, name) \<and>
    (Method auth \<in> {AuthRSASig, AuthECDSASHA256, AuthECDSASHA384, AuthDigitalSig} \<or>
     Method auth = AuthSharedKey \<and>
     authData auth = ComputeIKEv2AuthPSK (ilHmac lib) (s2PRF sess) psk (InitReqBytes sess) (NonceR sess) (SK_pi (Keys sess)) (PlID idp)) \<and>
    (\<exists>m. r = Inr m) \<and> PeerID sess' = idData idp \<and> ChildSAs sess' = ChildSAs sess @ [c]"
proof -
  have st: "s2State sess = StateV2InitRecv"
    using assms unfolding HandleAuth_def by (auto split: if_splits)
  obtain chain where o: "openRequest lib sess msg = Inr chain"
    using assms st unfolding HandleAuth_def by (auto split: sum.splits)
  obtain idp where i: "findPayloadAs asID chain = Some idp"
    using assms st o unfolding HandleAuth_def by (auto simp: Let_def split: option.splits)
  let ?s1 = "sess\<lparr>PeerIDType := IDType idp, PeerID := idData idp\<rparr>"
  obtain auth where a: "findPayloadAs asAUTH chain = Some auth"
  proof (cases "findPayloadAs asAUTH chain")
    case None
    with assms st o i show ?thesis
      unfolding HandleAuth_def by (auto simp: Let_def startEAPExchange_def split: if_splits)
  qed (rule that)
  obtain psk name where k: "getConnPSK h (s2PeerAddr sess) (idData idp) = Some (psk, name)"
    using assms st o i a unfolding HandleAuth_def by (auto simp: Let_def split: option.splits)
  let ?s2 = "?s1\<lparr>PSK := psk, ConnName := name\<rparr>"
  have v: "verifyAuth lib ?s2 auth idp = None"
    using assms st o i a k unfolding HandleAuth_def by (auto simp: Let_def split: option.splits)
  then have f: "finishAuth lib h dr ?s2 1 (findPayloadAs asSA chain) (findPayloadAs (asTS True) chain)
      (findPayloadAs (asTS False) chain) (findPayloadAs asCP chain) assignIP dns = (r, sess')"
    using assms(1) st o i a k unfolding HandleAuth_def by (simp add: Let_def)
  have "s2State ?s2 \<noteq> StateV2Established" using st by simp
  from finishAuth_Established [OF f assms(2) this] obtain m c where c: "r = Inr m" "ChildSAs sess' = ChildSAs sess @ [c]"
    "PeerID sess' = idData idp" by auto
  have "Method auth \<in> {AuthRSASig, AuthECDSASHA256, AuthECDSASHA384, AuthDigitalSig} \<or> Method auth = AuthSharedKey \<and>
     authData auth = ComputeIKEv2AuthPSK (ilHmac lib) (s2PRF sess) psk (InitReqBytes sess) (NonceR sess) (SK_pi (Keys sess)) (PlID idp)"
    using v by (auto simp: verifyAuth_def split: if_splits)
  with o i a k c show ?thesis by blast
qed

lemma buildEncryptedResponse_Inr:
  assumes "skOk (ilCrypto lib) (ilHmac lib) (Encryptor sess) (IntegAlg sess) (SK_er (Keys sess))"
    and "rnd = Some iv" and "length iv = encIVSize (Encryptor sess)"
  shows "\<exists>m. buildEncryptedResponse lib rnd sess exch mid ps = Inr m"
proof -
  obtain sk where sk: "sealBody (ilCrypto lib) (ilHmac lib) (Encryptor sess) (IntegAlg sess) (SK_er (Keys sess)) (SK_ar (Keys sess)) iv
      (MarshalBinary (responseHeader (s2InitiatorSPI sess) (s2ResponderSPI sess) exch mid)) (linkPayloads ps) = Inr sk"
    using sealBody_open [OF assms(1,3)] by blast
  then show ?thesis
    using assms(2)
    by (simp add: buildEncryptedResponse_def EncryptSKPayload_def MarshalPayloadChain_eq Let_def MarshalIkeHeader_def HeaderLen_def)
qed

text \<open>When the rest of the exchange succeeds.\<close>

lemma finishAuth_ok:
  assumes "skOk (ilCrypto lib) (ilHmac lib) (Encryptor sess) (IntegAlg sess) (SK_er (Keys sess))"
    and "drIV dr = Some iv" and "length iv = encIVSize (Encryptor sess)" and "drChildSPI dr = Some inSPI"
    and "SelectProposal (ilOrdE lib) (ilOrdB lib) (Some (defaultChildProposals h)) (Some sa) = Inr (sel, prop)"
    and "buildChildSA lib sess sel sa inSPI (NonceI sess) (NonceR sess) = Some c"
  shows "\<exists>m. finishAuth lib h dr sess mid (Some sa) tsI tsR cp assignIP dns =
    (Inr m, sess\<lparr>ChildSAs := ChildSAs sess @ [c], s2State := StateV2Established\<rparr>)"
proof -
  have "\<exists>m. buildEncryptedResponse lib (Some iv) (sess\<lparr>ChildSAs := ChildSAs sess @ [c]\<rparr>) ExchangeIKEAuth mid ps = Inr m" for ps
    by (rule buildEncryptedResponse_Inr [where iv = iv]) (use assms in simp_all)
  then have "\<exists>m. buildEncryptedResponse lib (drIV dr) (sess\<lparr>ChildSAs := ChildSAs sess @ [c]\<rparr>) ExchangeIKEAuth mid
      (authResponse lib sess (prop\<lparr>propSPI := inSPI\<rparr>) tsI tsR r) = Inr m" for r
    using assms(2) by simp
  from this [of "case cp of Some c \<Rightarrow> if ConfigType c = CPRequest \<and> assignIP \<noteq> None then [PlCP (buildCPReply assignIP dns)] else []
      | None \<Rightarrow> []"] show ?thesis
    using assms(4-6) by (auto simp: finishAuth_def Let_def)
qed

lemma buildChildSA_ok:
  assumes "hmac_ok (ilHmac lib)" and "childKeyLengths sel = (e, i)" and "(e + i) * 2 \<le> 255 * hashSize (prfHash (s2PRF sess))"
  shows "\<exists>c. buildChildSA lib sess sel sa spi ni nr = Some c"
  using PRFPlus_keystream [OF assms(1), of "s2PRF sess" _ _ "(e + i) * 2"] assms(2,3)
  by (simp add: buildChildSA_def DeriveChildSAKeys_def Let_def)

definition exampleV2Session :: "IKEv2Session" where
  "exampleV2Session =
     \<lparr>s2InitiatorSPI = replicate 8 1, s2ResponderSPI = replicate 8 5, s2IsInitiator = False, s2PeerAddr = examplePeer,
      s2State = StateV2InitRecv, s2EncAlg = EncrAES_GCM_16, s2PrfAlg = PRFHMAC_SHA256, s2IntegAlg = 0,
      s2DHGroupID = 14, s2KeyLength = 128, NonceI = [1, 2, 3], NonceR = [4, 5, 6], DHPrivKey = [], DHPubKey = [], PeerDHPubKey = [],
      SharedSecret = [9], Keys = \<lparr>SK_d = [1], SK_ai = [2], SK_ar = [3], SK_ei = replicate 20 4, SK_er = replicate 20 5, SK_pi = [6], SK_pr = [7]\<rparr>,
      s2PRF = cookiePRF, Encryptor = AesGCM 20 16,
      IntegAlg = None, InitReqBytes = [1, 1], InitRespBytes = [2, 2],
      PeerIDType = 0, PeerID = [], LocalID = strBytes ''gw'', LocalIDType = 2, ConnName = [], PSK = [], BehindNATLocal = False,
      BehindNATRemote = False, PeerSupportsFragmentation = False, NextMsgID = 0, ChildSAs = [], eapState = EapNone,
      EAPIdentifier = 0, EAPMethod = 0, EAPMSK = None, pendingAuthSA = None, pendingAuthTSi = None, pendingAuthTSr = None,
      pendingAuthCP = None\<rparr>"

definition exampleID :: IDPayload where
  "exampleID = \<lparr>idIsInitiator = True, IDType = 3, idData = strBytes ''alice''\<rparr>"

definition exampleChildSA :: SAPayload where
  "exampleChildSA = \<lparr>Proposals = [(Proposals DefaultESPProposals ! 0)\<lparr>propSPI := [0, 0, 0, 9]\<rparr>]\<rparr>"

lemma example_gcm: "gcmInit example_lib 16 (replicate 20 x) = Inr (example_aead, replicate 4 x)"
  by (simp add: gcmInit_def example_lib_def slice_def)

lemma example_sessOk: "sessOk exampleIkeLib exampleV2Session"
  using example_gcm
  by (simp add: sessOk_def skOk_def cipherOk_def encIsAEAD_def exampleV2Session_def exampleIkeLib_def)

lemma example_fits:
  assumes "length (linkPayloads ps) < 60000" and "\<forall>p\<in>set ps. payload_ok True p"
    and "Encryptor sess = AesGCM 20 16" and "SK_ei (Keys sess) = replicate 20 4"
  shows "fitsMessage exampleIkeLib sess (replicate 8 6) ps"
proof -
  have "aead_ok example_aead" by simp
  then have "length (Seal example_aead (gcmNonce (replicate 4 4) (replicate 8 6)) p aad) = length p + 16" for p aad
    unfolding aead_ok_def by (simp add: gcmNonce_eq)
  then have "length (peerBody exampleIkeLib sess (replicate 8 6) [] (linkPayloads ps)) = length (linkPayloads ps) + 25"
    using example_gcm [of 4] assms(3,4)
    by (simp add: peerBody_def sealBody_def EncryptWith_def encIsAEAD_def exampleIkeLib_def skPad_def skPadLen_def Let_def)
  with assms show ?thesis by (simp add: fitsMessage_def encIVSize_def)
qed

lemmas example_payload_simps = linkPayloads_Cons payload_ok_def payloadBody_def bodyID_def bodyAUTH_def bodySA_def
  exampleID_def exampleChildSA_def DefaultESPProposals_def mkProposal_def xform_def marshalV2Proposal_def
  marshalV2Transform_def prop_wf_def strBytes_def

theorem conforming_auth_refused_witness:
  "fst (HandleAuth exampleIkeLib (exampleV2Handler CookieModeAuto) exampleDraws exampleV2Session
     (peerRequest exampleIkeLib exampleV2Session (replicate 8 6) ExchangeIKEAuth 1
        [PlID exampleID, PlAUTH \<lparr>Method = 2, authData = [1]\<rparr>, PlSA exampleChildSA]) None []) = Inl (V2Missing PayloadIDi)"
proof -
  have "fitsMessage exampleIkeLib exampleV2Session (replicate 8 6)
      [PlID exampleID, PlAUTH \<lparr>Method = 2, authData = [1]\<rparr>, PlSA exampleChildSA]"
    by (rule example_fits) (simp_all add: example_payload_simps exampleV2Session_def)
  moreover have "s2State exampleV2Session = StateV2InitRecv" by (simp add: exampleV2Session_def)
  ultimately show ?thesis
    using conforming_auth_refused [OF example_sessOk] by simp
qed

text \<open>The child proposal as the responder reads it, and the answer.\<close>

definition exampleReadSA :: SAPayload where
  "exampleReadSA = \<lparr>Proposals = normProposals (Proposals exampleChildSA)\<rparr>"

lemma example_read_sa:
  "exampleReadSA = \<lparr>Proposals = [\<lparr>propNumber = 1, propProtocolID = 3, propSPI = [0, 0, 0, 9],
     Transforms = [\<lparr>xfType = 1, xfID = 20, KeyLength = 256, xfIsLast = False\<rparr>, \<lparr>xfType = 5, xfID = 0, KeyLength = 0, xfIsLast = True\<rparr>],
     propIsLast = True\<rparr>]\<rparr>"
  by code_simp

lemma example_read_norm: "payloadNorm (PlSA exampleReadSA) = PlSA exampleReadSA"
  unfolding example_read_sa by code_simp

lemma example_child_proposal:
  "\<exists>prop. SelectProposal (ilOrdE exampleIkeLib) (ilOrdB exampleIkeLib) (Some (defaultChildProposals (exampleV2Handler CookieModeAuto))) (Some exampleReadSA) =
     Inr (\<lparr>ProposalNum = 1, selProtocolID = 3, selSPI = [0, 0, 0, 9], EncrID = 20, EncrKeyLen = 256, PRFID = 0, IntegID = 0, DHID = 0, ESN = 0\<rparr>, prop)"
proof -
  have "case SelectProposal (ilOrdE exampleIkeLib) (ilOrdB exampleIkeLib) (Some (defaultChildProposals (exampleV2Handler CookieModeAuto))) (Some exampleReadSA) of
      Inl _ \<Rightarrow> False | Inr (sel, _) \<Rightarrow> sel =
    \<lparr>ProposalNum = 1, selProtocolID = 3, selSPI = [0, 0, 0, 9], EncrID = 20, EncrKeyLen = 256, PRFID = 0, IntegID = 0, DHID = 0, ESN = 0\<rparr>"
    by code_simp
  then show ?thesis by (auto split: sum.split_asm)
qed

lemma example_child_lengths:
  "childKeyLengths \<lparr>ProposalNum = 1, selProtocolID = 3, selSPI = [0, 0, 0, 9], EncrID = 20, EncrKeyLen = 256, PRFID = 0, IntegID = 0, DHID = 0, ESN = 0\<rparr> = (36, 0)"
  by code_simp

lemma example_session_facts:
  "s2State exampleV2Session = StateV2InitRecv" "PSK exampleV2Session = []" "EAPMSK exampleV2Session = None"
  "ChildSAs exampleV2Session = []" "encIVSize (Encryptor exampleV2Session) = 8" "prfHash (s2PRF exampleV2Session) = SHA256"
  "Encryptor exampleV2Session = AesGCM 20 16" "SK_ei (Keys exampleV2Session) = replicate 20 4"
  by (simp_all add: exampleV2Session_def cookiePRF_def encIVSize_def)

lemma example_auth_length:
  "length (ComputeIKEv2AuthPSK (ilHmac exampleIkeLib) (s2PRF exampleV2Session) k rb n sk idp) = 32"
  using example_hmac_ok
  by (simp add: ComputeIKEv2AuthPSK_def ComputeIKEv2AuthCert_def prfCompute_def exampleIkeLib_def hmac_ok_def example_session_facts hashSize_def)

theorem established_by_auth_witness:
  "\<exists>msg r sess'. HandleAuth exampleIkeLib (exampleV2Handler CookieModeAuto) exampleDraws exampleV2Session msg None [] = (r, sess') \<and>
     s2State sess' = StateV2Established \<and> (\<exists>m. r = Inr m) \<and> PeerID sess' = strBytes ''alice'' \<and> length (ChildSAs sess') = 1"
proof -
  let ?h = "exampleV2Handler CookieModeAuto" and ?lib = exampleIkeLib and ?s = exampleV2Session
  let ?auth = "\<lparr>Method = AuthSharedKey, authData = ComputeIKEv2AuthPSK (ilHmac ?lib) (s2PRF ?s) (strBytes ''secret'') (InitReqBytes ?s) (NonceR ?s)
     (SK_pi (Keys ?s)) (PlID exampleID)\<rparr>"
  let ?ps = "[PlID exampleID, PlAUTH ?auth, PlSA exampleReadSA]"
  let ?m = "peerRequest ?lib ?s (replicate 8 6) ExchangeIKEAuth 1 (PlNonce [0] # ?ps)"
  have "fitsMessage ?lib ?s (replicate 8 6) (PlNonce [0] # ?ps)"
    by (rule example_fits) (simp_all add: example_payload_simps example_read_sa example_auth_length example_session_facts del: One_nat_def)
  from openRequest_peerRequest [OF example_sessOk this] obtain g where
    o: "openRequest ?lib ?s ?m = Inr (\<lparr>ppHeader = g, ppPayload = PlSK (payloadBody (PlNonce [0]))\<rparr> # chainOf ?ps)" by blast
  let ?s1 = "?s\<lparr>PeerIDType := IDType exampleID, PeerID := idData exampleID, PSK := strBytes ''secret'', ConnName := strBytes ''home''\<rparr>"
  obtain q where p: "SelectProposal (ilOrdE ?lib) (ilOrdB ?lib) (Some (defaultChildProposals ?h)) (Some exampleReadSA) = Inr
      (\<lparr>ProposalNum = 1, selProtocolID = 3, selSPI = [0, 0, 0, 9], EncrID = 20, EncrKeyLen = 256, PRFID = 0, IntegID = 0, DHID = 0, ESN = 0\<rparr>, q)"
    using example_child_proposal by blast
  have hk: "hmac_ok (ilHmac ?lib)" by (simp add: exampleIkeLib_def)
  obtain c where c: "buildChildSA ?lib ?s1 \<lparr>ProposalNum = 1, selProtocolID = 3, selSPI = [0, 0, 0, 9], EncrID = 20, EncrKeyLen = 256,
      PRFID = 0, IntegID = 0, DHID = 0, ESN = 0\<rparr> exampleReadSA [0, 0, 0, 3] (NonceI ?s1) (NonceR ?s1) = Some c"
    using buildChildSA_ok [OF hk example_child_lengths, of ?s1 exampleReadSA "[0, 0, 0, 3]" "NonceI ?s1" "NonceR ?s1"]
      example_session_facts(6) by (auto simp: hashSize_def)
  have sk: "skOk (ilCrypto ?lib) (ilHmac ?lib) (Encryptor ?s1) (IntegAlg ?s1) (SK_er (Keys ?s1))"
    using example_sessOk by (simp add: sessOk_def)
  have d: "drIV exampleDraws = Some (replicate 8 6)" "drChildSPI exampleDraws = Some [0, 0, 0, 3]"
    "length (replicate 8 (6::byte)) = encIVSize (Encryptor ?s1)"
    by (simp_all add: exampleDraws_def example_session_facts(5))
  obtain m where f: "finishAuth ?lib ?h exampleDraws ?s1 1 (Some exampleReadSA) None None None None [] =
      (Inr m, ?s1\<lparr>ChildSAs := ChildSAs ?s1 @ [c], s2State := StateV2Established\<rparr>)"
    using finishAuth_ok [OF sk d(1,3,2) p c] by blast
  have k: "getConnPSK ?h (s2PeerAddr ?s) (idData exampleID) = Some (strBytes ''secret'', strBytes ''home'')"
    by (simp add: exampleV2Handler_def NewIKEv2Handler_def exampleID_def)
  have v: "verifyAuth ?lib ?s1 ?auth exampleID = None" by (simp add: verifyAuth_def hashEqual_iff)
  have run: "HandleAuth ?lib ?h exampleDraws ?s ?m None [] = (Inr m, ?s1\<lparr>ChildSAs := ChildSAs ?s1 @ [c], s2State := StateV2Established\<rparr>)"
    unfolding HandleAuth_def o using k v f example_read_norm
    by (simp add: example_session_facts(1) as_defs payloadNorm_def Let_def)
  show ?thesis
  proof (intro exI conjI)
    have st: "s2State (?s1\<lparr>ChildSAs := ChildSAs ?s1 @ [c], s2State := StateV2Established\<rparr>) = StateV2Established"
      "s2State ?s \<noteq> StateV2Established" by (simp_all add: example_session_facts(1))
    show "(Inr m :: v2_error + Message) = Inr m" and "HandleAuth ?lib ?h exampleDraws ?s ?m None [] = (Inr m, ?s1\<lparr>ChildSAs := ChildSAs ?s1 @ [c], s2State := StateV2Established\<rparr>)"
      by (rule refl, rule run)
    show "s2State (?s1\<lparr>ChildSAs := ChildSAs ?s1 @ [c], s2State := StateV2Established\<rparr>) = StateV2Established" by (rule st(1))
    show "PeerID (?s1\<lparr>ChildSAs := ChildSAs ?s1 @ [c], s2State := StateV2Established\<rparr>) = strBytes ''alice''"
      by (simp add: exampleID_def)
    show "length (ChildSAs (?s1\<lparr>ChildSAs := ChildSAs ?s1 @ [c], s2State := StateV2Established\<rparr>)) = 1"
      using established_by_auth [OF run st] by (auto simp: example_session_facts(4))
  qed
qed

end
