(* ===== verification/IkeSession.thy ===== *)
theory IkeSession
  imports IkeV1Phase1 IkeV2Auth EspEngine "HOL-Library.AList"
begin

text \<open>
  The session manager of \<^verbatim>\<open>internal/ike/session.go\<close>: the tables of IKE sessions and the bridge to the
  ESP engine. The tables hold the sessions by value; a session that is taken out of them gets the
  state \<open>Deleting\<close> in the code, which only a handler that still holds the pointer could see. A
  step is \<^const>\<open>None\<close> where the code panics. \<open>assignedIPs\<close> is an association list: its order is the
  one in which the code's \<^verbatim>\<open>range\<close> visits the map, and its keys are the texts of the addresses.
\<close>

record session_manager =
  v1Sessions :: "bytes \<rightharpoonup> IKEv1Session"
  v2Sessions :: "bytes \<rightharpoonup> IKEv2Session"
  identityMap :: "bytes \<rightharpoonup> bytes"
  assignedIPs :: "(ip_text \<times> bytes) list"
  espEngine :: "engine option"

definition NewSessionManager :: "engine option \<Rightarrow> session_manager" where
  "NewSessionManager e =
     \<lparr>v1Sessions = Map.empty, v2Sessions = Map.empty, identityMap = Map.empty, assignedIPs = [], espEngine = e\<rparr>"

section \<open>Taking a session down\<close>

definition removeESPChildSA :: "bytes \<Rightarrow> ip \<Rightarrow> session_manager \<Rightarrow> session_manager" where
  "removeESPChildSA inSPI assignedIP sm =
     (case espEngine sm of
        None \<Rightarrow> sm
      | Some e \<Rightarrow>
          (let e1 = RemoveInboundSA e (Uint32 inSPI)
           in sm\<lparr>espEngine := Some (if assignedIP \<noteq> [] then RemoveOutboundSA e1 assignedIP else e1)\<rparr>))"

text \<open>\<^verbatim>\<open>net.ParseIP\<close> of an address text that \<^verbatim>\<open>net.IP.String\<close> made.\<close>

definition ParseIPText :: "ip_text \<Rightarrow> ip" where
  "ParseIPText t = (case t of TextV4 b \<Rightarrow> v4InV6Prefix @ b | TextV6 b \<Rightarrow> b | TextNil \<Rightarrow> [] | TextBad _ \<Rightarrow> [])"

text \<open>The loop over the assigned addresses: the first that belongs to the session goes, and ends it.\<close>

fun unbindFirst :: "bytes \<Rightarrow> (ip_text \<times> bytes) list \<Rightarrow> ip \<times> (ip_text \<times> bytes) list" where
  "unbindFirst spiPair [] = ([], [])"
| "unbindFirst spiPair ((t, pair) # rest) =
     (if pair = spiPair then (ParseIPText t, rest)
      else (let (ip, rest') = unbindFirst spiPair rest in (ip, (t, pair) # rest')))"

definition evictV2 :: "bytes \<Rightarrow> session_manager \<Rightarrow> bytes \<times> session_manager" where
  "evictV2 spiPair sm =
     (case v2Sessions sm spiPair of
        None \<Rightarrow> ([], sm)
      | Some sess \<Rightarrow>
          (let sm1 = fold (\<lambda>child. removeESPChildSA (cInSPI child) []) (ChildSAs sess) sm
           in (PeerID sess, sm1\<lparr>v2Sessions := (v2Sessions sm1)(spiPair := None)\<rparr>)))"

definition evictV1 :: "bytes \<Rightarrow> bytes \<times> session_manager \<Rightarrow> bytes \<times> session_manager" where
  "evictV1 spiPair r =
     (let (peerIDStr, sm) = r in
      case v1Sessions sm spiPair of
        None \<Rightarrow> r
      | Some sess \<Rightarrow>
          (let sm1 = fold (\<lambda>child. removeESPChildSA (v1InSPI child) []) (s1ChildSAs sess) sm
           in (s1PeerID sess, sm1\<lparr>v1Sessions := (v1Sessions sm1)(spiPair := None)\<rparr>)))"

definition evictSessionLocked :: "bytes \<Rightarrow> session_manager \<Rightarrow> session_manager option" where
  "evictSessionLocked spiPair sm =
     (let (peerIDStr, sm1) = evictV1 spiPair (evictV2 spiPair sm);
          sm2 = (if peerIDStr \<noteq> [] \<and> identityMap sm1 peerIDStr = Some spiPair
                 then sm1\<lparr>identityMap := (identityMap sm1)(peerIDStr := None)\<rparr> else sm1);
          (assignedIP, left) = unbindFirst spiPair (assignedIPs sm2);
          sm3 = sm2\<lparr>assignedIPs := left\<rparr>
      in
      if assignedIP \<noteq> [] then
        (case espEngine sm3 of
           None \<Rightarrow> None
         | Some e \<Rightarrow> Some (sm3\<lparr>espEngine := Some (RemoveOutboundSA e assignedIP)\<rparr>))
      else Some sm3)"

section \<open>The tables\<close>

definition RegisterV2Session :: "IKEv2Session \<Rightarrow> session_manager \<Rightarrow> session_manager option" where
  "RegisterV2Session sess sm =
     (let spiPair = v2SPIPair sess in
      case (case identityMap sm (PeerID sess) of Some existingSPI \<Rightarrow> evictSessionLocked existingSPI sm | None \<Rightarrow> Some sm) of
        None \<Rightarrow> None
      | Some sm1 \<Rightarrow>
          (let sm2 = sm1\<lparr>v2Sessions := (v2Sessions sm1)(spiPair \<mapsto> sess)\<rparr>
           in Some (if length (PeerID sess) > 0 then sm2\<lparr>identityMap := (identityMap sm2)(PeerID sess \<mapsto> spiPair)\<rparr> else sm2)))"

definition GetV2Session :: "session_manager \<Rightarrow> bytes \<Rightarrow> IKEv2Session option" where
  "GetV2Session sm spiPair = v2Sessions sm spiPair"

definition DeleteV2Session :: "bytes \<Rightarrow> session_manager \<Rightarrow> session_manager option" where
  "DeleteV2Session spiPair sm = evictSessionLocked spiPair sm"

definition RegisterV1Session :: "IKEv1Session \<Rightarrow> session_manager \<Rightarrow> session_manager option" where
  "RegisterV1Session sess sm =
     (let spiPair = v1SPIPair sess in
      case (if length (s1PeerID sess) > 0 then
              (case (case identityMap sm (s1PeerID sess) of
                       Some existingSPI \<Rightarrow> evictSessionLocked existingSPI sm | None \<Rightarrow> Some sm) of
                 None \<Rightarrow> None
               | Some sm1 \<Rightarrow> Some (sm1\<lparr>identityMap := (identityMap sm1)(s1PeerID sess \<mapsto> spiPair)\<rparr>))
            else Some sm) of
        None \<Rightarrow> None
      | Some sm2 \<Rightarrow> Some (sm2\<lparr>v1Sessions := (v1Sessions sm2)(spiPair \<mapsto> sess)\<rparr>))"

definition GetV1Session :: "session_manager \<Rightarrow> bytes \<Rightarrow> IKEv1Session option" where
  "GetV1Session sm spiPair = v1Sessions sm spiPair"

definition DeleteV1Session :: "bytes \<Rightarrow> session_manager \<Rightarrow> session_manager option" where
  "DeleteV1Session spiPair sm = evictSessionLocked spiPair sm"

section \<open>Child SAs in the ESP engine\<close>

datatype install_error =
    InstPanic
  | NoESPEngine
  | BadESPKey u16 nat
  | UnsupportedESP u16
  | ESPKeyTooShort
  | ESPFailed esp_error

definition espCipher :: "u16 \<Rightarrow> bytes \<Rightarrow> install_error + CipherSuite" where
  "espCipher encrID encrKey =
     (if encrID = 20 then
        (if length encrKey = 20 then Inr AES128GCM
         else if length encrKey = 36 then Inr AES256GCM
         else Inl (BadESPKey encrID (length encrKey)))
      else if encrID = 28 then
        (if length encrKey = 36 then Inr CHACHA20POLY1305 else Inl (BadESPKey encrID (length encrKey)))
      else Inl (UnsupportedESP encrID))"

definition buildESPSA :: "crypto_lib \<Rightarrow> u32 \<Rightarrow> u16 \<Rightarrow> bytes \<Rightarrow> udp_addr \<Rightarrow> install_error + SecurityAssociation" where
  "buildESPSA cl spi encrID encrKey peerAddr =
     (case espCipher encrID encrKey of
        Inl e \<Rightarrow> Inl e
      | Inr espEncr \<Rightarrow>
          (let saltLen = AEADSaltSize espEncr in
           if length encrKey \<le> saltLen then Inl ESPKeyTooShort
           else
           (let keyLen = length encrKey - saltLen in
            map_sum ESPFailed id
              (NewSecurityAssociation cl spi espEncr (take keyLen encrKey) (drop keyLen encrKey) (Some peerAddr) True))))"

text \<open>
  Both installations (lines 181 to 225 and 228 to 274) but for the keys they take from the child.
  \<open>inRef\<close> and \<open>outRef\<close> are the references of the two new SA objects. The error of \<^verbatim>\<open>AddInbound\<close> is
  lost in \<^verbatim>\<open>AddInboundSA\<close>.
\<close>

definition newSA :: "sa_ref \<Rightarrow> SecurityAssociation \<Rightarrow> engine \<Rightarrow> engine" where
  "newSA r sa e = e\<lparr>store := (store e)(r := sa)\<rparr>"

definition bindIP :: "ip \<Rightarrow> bytes \<Rightarrow> session_manager \<Rightarrow> session_manager" where
  "bindIP assignedIP spiPair sm = sm\<lparr>assignedIPs := AList.update (IPString assignedIP) spiPair (assignedIPs sm)\<rparr>"

definition installChild ::
  "crypto_lib \<Rightarrow> sa_ref \<Rightarrow> sa_ref \<Rightarrow> bytes \<Rightarrow> bytes \<Rightarrow> u16 \<Rightarrow> bytes \<Rightarrow> bytes \<Rightarrow> udp_addr \<Rightarrow> bytes \<Rightarrow> ip \<Rightarrow> session_manager
   \<Rightarrow> install_error option \<times> session_manager" where
  "installChild cl inRef outRef inSPI outSPI encrID inKey outKey peerAddr spiPair assignedIP sm =
     (case espEngine sm of
        None \<Rightarrow> (Some NoESPEngine, sm)
      | Some e \<Rightarrow>
     (case buildESPSA cl (Uint32 inSPI) encrID inKey peerAddr of
        Inl err \<Rightarrow> (Some err, sm)
      | Inr inSA \<Rightarrow>
     (case AddInboundSA (newSA inRef inSA e) (Some inRef) of
        None \<Rightarrow> (Some InstPanic, sm)
      | Some e1 \<Rightarrow>
     (case buildESPSA cl (Uint32 outSPI) encrID outKey peerAddr of
        Inl err \<Rightarrow> (Some err, sm\<lparr>espEngine := Some (RemoveInboundSA e1 (Uint32 inSPI))\<rparr>)
      | Inr outSA \<Rightarrow>
          (let e2 = newSA outRef outSA e1 in
           if assignedIP \<noteq> [] then
             (None, bindIP assignedIP spiPair (sm\<lparr>espEngine := Some (AddOutboundSA e2 assignedIP outRef)\<rparr>))
           else (None, sm\<lparr>espEngine := Some e2\<rparr>))))))"

definition InstallV2ChildSA ::
  "crypto_lib \<Rightarrow> sa_ref \<Rightarrow> sa_ref \<Rightarrow> IKEv2Session \<Rightarrow> IKEv2ChildSA \<Rightarrow> ip \<Rightarrow> session_manager
   \<Rightarrow> install_error option \<times> session_manager" where
  "InstallV2ChildSA cl inRef outRef sess child assignedIP sm =
     installChild cl inRef outRef (cInSPI child) (cOutSPI child) (cEncrID child) (cPeerEncrKey child) (cEncrKey child)
       (s2PeerAddr sess) (v2SPIPair sess) assignedIP sm"

definition InstallV1ChildSA ::
  "crypto_lib \<Rightarrow> sa_ref \<Rightarrow> sa_ref \<Rightarrow> IKEv1Session \<Rightarrow> IKEv1ChildSA \<Rightarrow> ip \<Rightarrow> session_manager
   \<Rightarrow> install_error option \<times> session_manager" where
  "InstallV1ChildSA cl inRef outRef sess child assignedIP sm =
     installChild cl inRef outRef (v1InSPI child) (v1OutSPI child) (v1EncrID child) (v1EncrKey child) (v1PeerEncrKey child)
       (s1PeerAddr sess) (v1SPIPair sess) assignedIP sm"


section \<open>What a removal leaves\<close>

lemma removeESPChildSA_update:
  "removeESPChildSA spi [] sm = sm\<lparr>espEngine := map_option (\<lambda>e. RemoveInboundSA e (Uint32 spi)) (espEngine sm)\<rparr>"
  by (cases sm) (simp add: removeESPChildSA_def Let_def split: option.split)

lemma fold_removeESPChildSA:
  "fold (\<lambda>c. removeESPChildSA (f c) []) cs sm =
     sm\<lparr>espEngine := map_option (fold (\<lambda>c e. RemoveInboundSA e (Uint32 (f c))) cs) (espEngine sm)\<rparr>"
proof (induction cs arbitrary: sm)
  case Nil
  show ?case by (cases sm) (simp add: option.map_ident)
next
  case (Cons c cs)
  show ?case
    unfolding fold_Cons comp_apply Cons removeESPChildSA_update [of "f c"] by (simp add: option.map_comp comp_def)
qed

lemma RemoveInbound_fold:
  "LookupBySPI (saDB (fold (\<lambda>c e. RemoveInboundSA e (g c)) cs e)) spi =
     (if spi \<in> g ` set cs then None else LookupBySPI (saDB e) spi)"
  by (induction cs arbitrary: e) (auto simp: RemoveInboundSA_def RemoveInbound_def LookupBySPI_def split: option.splits)

lemma spd_RemoveInbound_fold [simp]: "spd (fold (\<lambda>c e. RemoveInboundSA e (g c)) cs e) = spd e"
  by (induction cs arbitrary: e) (simp_all add: RemoveInboundSA_def)

text \<open>The SPIs of the child SAs of the sessions with a given pair.\<close>

definition childSPIs :: "session_manager \<Rightarrow> bytes \<Rightarrow> u32 set" where
  "childSPIs sm pair =
     (case v2Sessions sm pair of None \<Rightarrow> {} | Some s \<Rightarrow> (\<lambda>c. Uint32 (cInSPI c)) ` set (ChildSAs s)) \<union>
     (case v1Sessions sm pair of None \<Rightarrow> {} | Some s \<Rightarrow> (\<lambda>c. Uint32 (v1InSPI c)) ` set (s1ChildSAs s))"

definition inboundOf :: "session_manager \<Rightarrow> u32 \<Rightarrow> sa_ref option" where
  "inboundOf sm spi = (case espEngine sm of None \<Rightarrow> None | Some e \<Rightarrow> LookupBySPI (saDB e) spi)"

definition outboundOf :: "session_manager \<Rightarrow> ip \<Rightarrow> sa_ref option" where
  "outboundOf sm dst = (case espEngine sm of None \<Rightarrow> None | Some e \<Rightarrow> spd e (To16 dst))"

lemma evictV2_facts:
  "evictV2 pair sm = (pid, sm1) \<Longrightarrow>
     v2Sessions sm1 = (v2Sessions sm)(pair := None) \<and> v1Sessions sm1 = v1Sessions sm \<and> identityMap sm1 = identityMap sm \<and>
     assignedIPs sm1 = assignedIPs sm \<and> outboundOf sm1 = outboundOf sm \<and> (espEngine sm1 = None \<longleftrightarrow> espEngine sm = None) \<and>
     pid = (case v2Sessions sm pair of None \<Rightarrow> [] | Some s \<Rightarrow> PeerID s) \<and>
     inboundOf sm1 = (\<lambda>spi. if spi \<in> (case v2Sessions sm pair of None \<Rightarrow> {} | Some s \<Rightarrow> (\<lambda>c. Uint32 (cInSPI c)) ` set (ChildSAs s))
       then None else inboundOf sm spi)"
  by (auto simp: evictV2_def fold_removeESPChildSA fun_eq_iff inboundOf_def outboundOf_def RemoveInbound_fold split: option.splits)

lemma evictV1_facts:
  "evictV1 pair (pid0, sm) = (pid, sm1) \<Longrightarrow>
     v1Sessions sm1 = (v1Sessions sm)(pair := None) \<and> v2Sessions sm1 = v2Sessions sm \<and> identityMap sm1 = identityMap sm \<and>
     assignedIPs sm1 = assignedIPs sm \<and> outboundOf sm1 = outboundOf sm \<and> (espEngine sm1 = None \<longleftrightarrow> espEngine sm = None) \<and>
     pid = (case v1Sessions sm pair of None \<Rightarrow> pid0 | Some s \<Rightarrow> s1PeerID s) \<and>
     inboundOf sm1 = (\<lambda>spi. if spi \<in> (case v1Sessions sm pair of None \<Rightarrow> {} | Some s \<Rightarrow> (\<lambda>c. Uint32 (v1InSPI c)) ` set (s1ChildSAs s))
       then None else inboundOf sm spi)"
  by (auto simp: evictV1_def fold_removeESPChildSA fun_eq_iff inboundOf_def outboundOf_def RemoveInbound_fold split: option.splits)

text \<open>The identity of the session under a pair; version 1 wins when both versions use the pair.\<close>

definition pairIdentity :: "session_manager \<Rightarrow> bytes \<Rightarrow> bytes" where
  "pairIdentity sm pair =
     (case v1Sessions sm pair of
        Some s \<Rightarrow> s1PeerID s
      | None \<Rightarrow> (case v2Sessions sm pair of Some s \<Rightarrow> PeerID s | None \<Rightarrow> []))"

definition freeIdentity :: "bytes \<Rightarrow> bytes \<Rightarrow> (bytes \<rightharpoonup> bytes) \<Rightarrow> (bytes \<rightharpoonup> bytes)" where
  "freeIdentity pid pair m = (if pid \<noteq> [] \<and> m pid = Some pair then m(pid := None) else m)"

lemma evict_facts:
  assumes "evictSessionLocked pair sm = Some sm'"
  shows "v1Sessions sm' = (v1Sessions sm)(pair := None)" "v2Sessions sm' = (v2Sessions sm)(pair := None)"
    "identityMap sm' = freeIdentity (pairIdentity sm pair) pair (identityMap sm)"
    "assignedIPs sm' = snd (unbindFirst pair (assignedIPs sm))"
    "inboundOf sm' = (\<lambda>spi. if spi \<in> childSPIs sm pair then None else inboundOf sm spi)"
    "outboundOf sm' = (\<lambda>dst. if fst (unbindFirst pair (assignedIPs sm)) \<noteq> [] \<and> To16 dst = To16 (fst (unbindFirst pair (assignedIPs sm)))
       then None else outboundOf sm dst)"
    "espEngine sm' = None \<longleftrightarrow> espEngine sm = None"
proof -
  obtain pid2 sm2 where e2: "evictV2 pair sm = (pid2, sm2)" by fastforce
  obtain pid1 sm1 where e1: "evictV1 pair (pid2, sm2) = (pid1, sm1)" by fastforce
  obtain ip left where u: "unbindFirst pair (assignedIPs sm) = (ip, left)" by fastforce
  note f2 = evictV2_facts [OF e2] and f1 = evictV1_facts [OF e1]
  define sm3 where "sm3 = (if pid1 \<noteq> [] \<and> identityMap sm1 pid1 = Some pair then sm1\<lparr>identityMap := (identityMap sm1)(pid1 := None)\<rparr> else sm1)"
  have f3: "v1Sessions sm3 = v1Sessions sm1" "v2Sessions sm3 = v2Sessions sm1" "assignedIPs sm3 = assignedIPs sm1" "espEngine sm3 = espEngine sm1"
    "identityMap sm3 = freeIdentity pid1 pair (identityMap sm1)"
    by (simp_all add: sm3_def freeIdentity_def)
  have a3: "assignedIPs sm3 = assignedIPs sm" using f1 f2 f3 by simp
  have p: "pid1 = pairIdentity sm pair" using f1 f2 by (auto simp: pairIdentity_def split: option.split)
  have r: "(if ip \<noteq> [] then (case espEngine sm3 of None \<Rightarrow> None | Some e \<Rightarrow> Some (sm3\<lparr>assignedIPs := left, espEngine := Some (RemoveOutboundSA e ip)\<rparr>))
      else Some (sm3\<lparr>assignedIPs := left\<rparr>)) = Some sm'"
    using assms unfolding evictSessionLocked_def Let_def e2 e1 prod.case sm3_def [symmetric] a3 u by (auto split: if_split_asm option.split_asm)
  then have "v1Sessions sm' = v1Sessions sm3" "v2Sessions sm' = v2Sessions sm3" "identityMap sm' = identityMap sm3"
    by (auto split: if_split_asm option.split_asm)
  then show "v1Sessions sm' = (v1Sessions sm)(pair := None)" "v2Sessions sm' = (v2Sessions sm)(pair := None)"
    "identityMap sm' = freeIdentity (pairIdentity sm pair) pair (identityMap sm)"
    using f1 f2 f3 p by simp_all
  show "assignedIPs sm' = snd (unbindFirst pair (assignedIPs sm))"
    using r u by (auto split: if_split_asm option.split_asm)
  have inb: "inboundOf sm' = inboundOf sm1" and eng: "espEngine sm' = None \<longleftrightarrow> espEngine sm1 = None"
    using r f3 by (auto simp: inboundOf_def RemoveOutboundSA_def fun_eq_iff split: if_split_asm option.split_asm)
  show "inboundOf sm' = (\<lambda>spi. if spi \<in> childSPIs sm pair then None else inboundOf sm spi)"
    using inb f1 f2 by (auto simp: childSPIs_def fun_eq_iff split: option.splits)
  show "espEngine sm' = None \<longleftrightarrow> espEngine sm = None" using eng f1 f2 by simp
  have "outboundOf sm' = (\<lambda>dst. if ip \<noteq> [] \<and> To16 dst = To16 ip then None else outboundOf sm1 dst)"
    using r f3 by (auto simp: outboundOf_def RemoveOutboundSA_def fun_eq_iff split: if_split_asm option.split_asm)
  then show "outboundOf sm' = (\<lambda>dst. if fst (unbindFirst pair (assignedIPs sm)) \<noteq> [] \<and> To16 dst = To16 (fst (unbindFirst pair (assignedIPs sm)))
       then None else outboundOf sm dst)"
    unfolding u fst_conv using f1 f2 by (elim conjE) (simp only:)
qed


lemma evict_total:
  assumes "espEngine sm \<noteq> None"
  shows "\<exists>sm'. evictSessionLocked pair sm = Some sm'"
proof -
  obtain pid2 sm2 where e2: "evictV2 pair sm = (pid2, sm2)" by fastforce
  obtain pid1 sm1 where e1: "evictV1 pair (pid2, sm2) = (pid1, sm1)" by fastforce
  obtain e where "espEngine sm1 = Some e" using evictV2_facts [OF e2] evictV1_facts [OF e1] assms by auto
  then show ?thesis unfolding evictSessionLocked_def Let_def e2 e1 prod.case by (auto split: prod.split)
qed

section \<open>A table of sessions\<close>

text \<open>
  What the two tables promise their users: a registered session is found under its pair, a deleted pair
  is not found, and nothing else ever comes in.
\<close>

locale session_table =
  fixes register :: "'s \<Rightarrow> 'm \<Rightarrow> 'm option"
    and delete :: "bytes \<Rightarrow> 'm \<Rightarrow> 'm option"
    and get :: "'m \<Rightarrow> bytes \<Rightarrow> 's option"
    and pair :: "'s \<Rightarrow> bytes"
  assumes get_register: "register s m = Some m' \<Longrightarrow> get m' (pair s) = Some s"
    and register_others: "register s m = Some m' \<Longrightarrow> get m' k = Some x \<Longrightarrow> k = pair s \<and> x = s \<or> get m k = Some x"
    and get_delete: "delete k m = Some m' \<Longrightarrow> get m' = (get m)(k := None)"
begin

fun run :: "('s + bytes) list \<Rightarrow> 'm \<Rightarrow> 'm option" where
  "run [] m = Some m"
| "run (Inl s # ops) m = Option.bind (register s m) (run ops)"
| "run (Inr k # ops) m = Option.bind (delete k m) (run ops)"

text \<open>Every session that is found was there or was registered, and it is found under its own pair.\<close>

lemma run_found:
  assumes "run ops m = Some m'" and "get m' k = Some x"
  shows "get m k = Some x \<or> Inl x \<in> set ops \<and> k = pair x"
  using assms
proof (induction ops arbitrary: m)
  case (Cons a ops)
  show ?case
  proof (cases a)
    case (Inl s)
    with Cons.prems obtain m1 where m1: "register s m = Some m1" "run ops m1 = Some m'" by (auto simp: Option.bind_eq_Some_conv)
    from Cons.IH [OF m1(2) Cons.prems(2)] register_others [OF m1(1)] Inl show ?thesis by auto
  next
    case (Inr j)
    with Cons.prems obtain m1 where m1: "delete j m = Some m1" "run ops m1 = Some m'" by (auto simp: Option.bind_eq_Some_conv)
    from Cons.IH [OF m1(2) Cons.prems(2)] get_delete [OF m1(1)] Inr show ?thesis by (auto split: if_split_asm)
  qed
qed simp

text \<open>What was deleted last stays away.\<close>

lemma delete_stays:
  assumes "delete k m = Some m1" and "run ops m1 = Some m'" and "get m' k = Some x"
  shows "Inl x \<in> set ops"
  using run_found [OF assms(2,3)] get_delete [OF assms(1)] by auto

end

text \<open>What registering does before the new entry: the session that holds the identity is evicted.\<close>

definition evictedFor :: "bytes \<Rightarrow> session_manager \<Rightarrow> session_manager \<Rightarrow> bool" where
  "evictedFor i sm sm1 \<longleftrightarrow>
     sm1 = sm \<and> (i = [] \<or> identityMap sm i = None) \<or> (\<exists>q. identityMap sm i = Some q \<and> evictSessionLocked q sm = Some sm1)"

lemma evictedFor_tables:
  assumes "evictedFor i sm sm1"
  shows "v1Sessions sm1 k = Some s1 \<Longrightarrow> v1Sessions sm k = Some s1" "v2Sessions sm1 k = Some s2 \<Longrightarrow> v2Sessions sm k = Some s2"
  using assms evict_facts(1,2) by (auto simp: evictedFor_def split: if_split_asm)

lemma RegisterV2Session_Some:
  assumes "RegisterV2Session s sm = Some sm'"
  shows "\<exists>sm1. evictedFor (PeerID s) sm sm1 \<and>
    sm' = sm1\<lparr>v2Sessions := (v2Sessions sm1)(v2SPIPair s \<mapsto> s),
      identityMap := (if PeerID s \<noteq> [] then (identityMap sm1)(PeerID s \<mapsto> v2SPIPair s) else identityMap sm1)\<rparr>"
  using assms by (auto simp: RegisterV2Session_def evictedFor_def Let_def split: option.split_asm)

lemma RegisterV1Session_Some:
  assumes "RegisterV1Session s sm = Some sm'"
  shows "\<exists>sm1. evictedFor (s1PeerID s) sm sm1 \<and>
    sm' = sm1\<lparr>v1Sessions := (v1Sessions sm1)(v1SPIPair s \<mapsto> s),
      identityMap := (if s1PeerID s \<noteq> [] then (identityMap sm1)(s1PeerID s \<mapsto> v1SPIPair s) else identityMap sm1)\<rparr>"
  using assms by (auto simp: RegisterV1Session_def evictedFor_def Let_def split: option.split_asm if_split_asm)

interpretation v2_table: session_table RegisterV2Session DeleteV2Session GetV2Session v2SPIPair
proof
  fix s m m' k and x :: IKEv2Session assume "RegisterV2Session s m = Some m'"
  then obtain m1 where r: "evictedFor (PeerID s) m m1" "v2Sessions m' = (v2Sessions m1)(v2SPIPair s \<mapsto> s)"
    using RegisterV2Session_Some by fastforce
  then show "GetV2Session m' (v2SPIPair s) = Some s" by (simp add: GetV2Session_def)
  assume "GetV2Session m' k = Some x"
  with r evictedFor_tables(2) [OF r(1)] show "k = v2SPIPair s \<and> x = s \<or> GetV2Session m k = Some x"
    by (auto simp: GetV2Session_def split: if_split_asm)
next
  fix k m m' assume "DeleteV2Session k m = Some m'"
  with evict_facts(2) show "GetV2Session m' = (GetV2Session m)(k := None)"
    by (auto simp: DeleteV2Session_def GetV2Session_def [abs_def])
qed

interpretation v1_table: session_table RegisterV1Session DeleteV1Session GetV1Session v1SPIPair
proof
  fix s m m' k and x :: IKEv1Session assume "RegisterV1Session s m = Some m'"
  then obtain m1 where r: "evictedFor (s1PeerID s) m m1" "v1Sessions m' = (v1Sessions m1)(v1SPIPair s \<mapsto> s)"
    using RegisterV1Session_Some by fastforce
  then show "GetV1Session m' (v1SPIPair s) = Some s" by (simp add: GetV1Session_def)
  assume "GetV1Session m' k = Some x"
  with r evictedFor_tables(1) [OF r(1)] show "k = v1SPIPair s \<and> x = s \<or> GetV1Session m k = Some x"
    by (auto simp: GetV1Session_def split: if_split_asm)
next
  fix k m m' assume "DeleteV1Session k m = Some m'"
  with evict_facts(1) show "GetV1Session m' = (GetV1Session m)(k := None)"
    by (auto simp: DeleteV1Session_def GetV1Session_def [abs_def])
qed

section \<open>One connection per identity\<close>

inductive manager_reachable :: "crypto_lib \<Rightarrow> session_manager \<Rightarrow> bool" for cl where
  mr_new: "manager_reachable cl (NewSessionManager e)"
| mr_reg2: "manager_reachable cl sm \<Longrightarrow> RegisterV2Session s sm = Some sm' \<Longrightarrow> manager_reachable cl sm'"
| mr_reg1: "manager_reachable cl sm \<Longrightarrow> RegisterV1Session s1 sm = Some sm' \<Longrightarrow> manager_reachable cl sm'"
| mr_del2: "manager_reachable cl sm \<Longrightarrow> DeleteV2Session pair sm = Some sm' \<Longrightarrow> manager_reachable cl sm'"
| mr_del1: "manager_reachable cl sm \<Longrightarrow> DeleteV1Session pair sm = Some sm' \<Longrightarrow> manager_reachable cl sm'"
| mr_inst2: "manager_reachable cl sm \<Longrightarrow> manager_reachable cl (snd (InstallV2ChildSA cl r r' s c2 ip sm))"
| mr_inst1: "manager_reachable cl sm \<Longrightarrow> manager_reachable cl (snd (InstallV1ChildSA cl r r' s1 c1 ip sm))"

text \<open>Every session with an identity is the one that the identity leads to.\<close>

definition identities_ok :: "session_manager \<Rightarrow> bool" where
  "identities_ok sm \<longleftrightarrow>
     (\<forall>p s. v2Sessions sm p = Some s \<longrightarrow> p = v2SPIPair s \<and> (PeerID s \<noteq> [] \<longrightarrow> identityMap sm (PeerID s) = Some p)) \<and>
     (\<forall>p s. v1Sessions sm p = Some s \<longrightarrow> p = v1SPIPair s \<and> (s1PeerID s \<noteq> [] \<longrightarrow> identityMap sm (s1PeerID s) = Some p))"

lemma identities_ok_evict:
  assumes "identities_ok sm" and "evictSessionLocked q sm = Some sm'"
  shows "identities_ok sm'"
proof -
  have "freeIdentity pid q m i = Some p" if "m i = Some p" "p \<noteq> q" for pid m i p
    using that by (auto simp: freeIdentity_def)
  with assms(1) show ?thesis
    unfolding identities_ok_def evict_facts(1-3) [OF assms(2)] by auto
qed

lemma identities_ok_evictedFor:
  assumes "identities_ok sm" and "evictedFor i sm sm1"
  shows "identities_ok sm1"
    and "i \<noteq> [] \<Longrightarrow> v2Sessions sm1 p = Some t \<Longrightarrow> PeerID t \<noteq> i" and "i \<noteq> [] \<Longrightarrow> v1Sessions sm1 p = Some u \<Longrightarrow> s1PeerID u \<noteq> i"
proof -
  show "identities_ok sm1" using assms identities_ok_evict by (auto simp: evictedFor_def)
  have e: "(identityMap sm i = None \<and> sm1 = sm) \<or>
      (\<exists>q. identityMap sm i = Some q \<and> v2Sessions sm1 = (v2Sessions sm)(q := None) \<and> v1Sessions sm1 = (v1Sessions sm)(q := None))" if "i \<noteq> []"
    using assms(2) that evict_facts(1,2) by (auto simp: evictedFor_def)
  show "PeerID t \<noteq> i" if "i \<noteq> []" "v2Sessions sm1 p = Some t"
    using e [OF that(1)] that assms(1) unfolding identities_ok_def by (auto split: if_split_asm)
  show "s1PeerID u \<noteq> i" if "i \<noteq> []" "v1Sessions sm1 p = Some u"
    using e [OF that(1)] that assms(1) unfolding identities_ok_def by (auto split: if_split_asm)
qed

lemma installChild_tables [simp]:
  "v1Sessions (snd (installChild cl r r' i o' enc ik ok pa pair ip sm)) = v1Sessions sm"
  "v2Sessions (snd (installChild cl r r' i o' enc ik ok pa pair ip sm)) = v2Sessions sm"
  "identityMap (snd (installChild cl r r' i o' enc ik ok pa pair ip sm)) = identityMap sm"
  by (simp_all add: installChild_def bindIP_def Let_def split: option.split sum.split)

lemma identities_ok_reachable:
  assumes "manager_reachable cl sm"
  shows "identities_ok sm"
  using assms
proof induction
  case (mr_reg2 sm s sm')
  obtain sm1 where r: "evictedFor (PeerID s) sm sm1"
    "sm' = sm1\<lparr>v2Sessions := (v2Sessions sm1)(v2SPIPair s \<mapsto> s),
      identityMap := (if PeerID s \<noteq> [] then (identityMap sm1)(PeerID s \<mapsto> v2SPIPair s) else identityMap sm1)\<rparr>"
    using RegisterV2Session_Some [OF mr_reg2.hyps(2)] by blast
  note ok = identities_ok_evictedFor [OF mr_reg2.IH r(1)]
  show ?case using ok by (auto simp: r(2) identities_ok_def)
next
  case (mr_reg1 sm s sm')
  obtain sm1 where r: "evictedFor (s1PeerID s) sm sm1"
    "sm' = sm1\<lparr>v1Sessions := (v1Sessions sm1)(v1SPIPair s \<mapsto> s),
      identityMap := (if s1PeerID s \<noteq> [] then (identityMap sm1)(s1PeerID s \<mapsto> v1SPIPair s) else identityMap sm1)\<rparr>"
    using RegisterV1Session_Some [OF mr_reg1.hyps(2)] by blast
  note ok = identities_ok_evictedFor [OF mr_reg1.IH r(1)]
  show ?case using ok by (auto simp: r(2) identities_ok_def)
qed (simp_all add: identities_ok_evict DeleteV2Session_def DeleteV1Session_def InstallV2ChildSA_def InstallV1ChildSA_def,
     simp_all add: identities_ok_def NewSessionManager_def)


definition identityAt :: "session_manager \<Rightarrow> bytes \<Rightarrow> bytes \<Rightarrow> bool" where
  "identityAt sm p i \<longleftrightarrow>
     (\<exists>s. GetV2Session sm p = Some s \<and> PeerID s = i) \<or> (\<exists>s. GetV1Session sm p = Some s \<and> s1PeerID s = i)"

text \<open>
  C30. One connection per identity. In every state that registering, deleting and installing lead to, at
  most one SPI pair has a session of a given non-empty peer identity, over both versions of the
  protocol, and every session is found under its own pair.
\<close>

theorem single_connection:
  assumes "manager_reachable cl sm"
  shows "(\<forall>i p p'. i \<noteq> [] \<and> identityAt sm p i \<and> identityAt sm p' i \<longrightarrow> p = p') \<and>
    (\<forall>p s. GetV2Session sm p = Some s \<longrightarrow> p = v2SPIPair s) \<and> (\<forall>p s. GetV1Session sm p = Some s \<longrightarrow> p = v1SPIPair s)"
proof -
  have ok: "identities_ok sm" by (rule identities_ok_reachable [OF assms])
  have "identityMap sm i = Some p" if "identityAt sm p i" "i \<noteq> []" for p i
    using ok that by (auto simp: identities_ok_def identityAt_def GetV2Session_def GetV1Session_def)
  then have "p = p'" if "i \<noteq> []" "identityAt sm p i" "identityAt sm p' i" for i p p'
    using that by (metis option.inject)
  then show ?thesis using ok unfolding identities_ok_def GetV2Session_def GetV1Session_def by blast
qed

text \<open>
  Deleting takes a session down completely: it and its child SAs are gone from the tables and from the
  engine's inbound SAs; the sessions of every other pair, and every inbound SA that is not one of its
  children, stay.
\<close>

theorem delete_takes_down:
  assumes "DeleteV2Session pair sm = Some sm'"
  shows "GetV2Session sm' pair = None \<and> GetV1Session sm' pair = None \<and>
    (\<forall>p. p \<noteq> pair \<longrightarrow> GetV2Session sm' p = GetV2Session sm p \<and> GetV1Session sm' p = GetV1Session sm p) \<and>
    (\<forall>s c. GetV2Session sm pair = Some s \<and> c \<in> set (ChildSAs s) \<longrightarrow> inboundOf sm' (Uint32 (cInSPI c)) = None) \<and>
    (\<forall>s c. GetV1Session sm pair = Some s \<and> c \<in> set (s1ChildSAs s) \<longrightarrow> inboundOf sm' (Uint32 (v1InSPI c)) = None) \<and>
    (\<forall>spi. spi \<notin> childSPIs sm pair \<longrightarrow> inboundOf sm' spi = inboundOf sm spi)"
proof -
  have e: "evictSessionLocked pair sm = Some sm'" using assms by (simp add: DeleteV2Session_def)
  show ?thesis
    unfolding GetV2Session_def GetV1Session_def evict_facts(1,2,5) [OF e] by (auto simp: childSPIs_def)
qed

section \<open>What Install puts into the engine\<close>

lemma espCipher_Inr:
  "espCipher encrID key = Inr suite \<longleftrightarrow>
     encrID = 20 \<and> length key = 20 \<and> suite = AES128GCM \<or> encrID = 20 \<and> length key = 36 \<and> suite = AES256GCM \<or>
     encrID = 28 \<and> length key = 36 \<and> suite = CHACHA20POLY1305"
  by (auto simp: espCipher_def)

text \<open>AES-GCM and ChaCha20-Poly1305 accept every key of their size.\<close>

definition aead_lib_ok :: "crypto_lib \<Rightarrow> bool" where
  "aead_lib_ok cl \<longleftrightarrow>
     (\<forall>k. length k \<in> {16, 32} \<longrightarrow> (\<exists>b a. aesNewCipher cl k = Some b \<and> cipherNewGCM cl b = Some a)) \<and>
     (\<forall>k. length k = 32 \<longrightarrow> chachaNew cl k \<noteq> None)"

lemma buildESPSA_iff:
  assumes "aead_lib_ok cl"
  shows "(\<exists>sa. buildESPSA cl spi encrID key peer = Inr sa) \<longleftrightarrow>
    encrID = 20 \<and> length key \<in> {20, 36} \<or> encrID = 28 \<and> length key = 36"
proof -
  have k: "length (take (length key - 4) key) = length key - 4" by simp
  have a: "(\<exists>a. NewAEAD cl 1 k = Inr a) \<longleftrightarrow> length k = 16" "(\<exists>a. NewAEAD cl 2 k = Inr a) \<longleftrightarrow> length k = 32"
    "(\<exists>a. NewAEAD cl 3 k = Inr a) \<longleftrightarrow> length k = 32" for k
    using assms by (force simp: NewAEAD_def AEADKeySize_def aead_lib_ok_def split: option.split)+
  have n: "(\<exists>sa. NewSecurityAssociation cl spi suite kk salt pr w = Inr sa) \<longleftrightarrow> (\<exists>a. NewAEAD cl suite kk = Inr a)" for suite kk salt pr w
    by (auto simp: NewSecurityAssociation_def split: sum.split)
  have m: "(\<exists>sa. map_sum ESPFailed id r = Inr sa) \<longleftrightarrow> (\<exists>sa. r = Inr sa)" for r :: "esp_error + SecurityAssociation" by (cases r) auto
  show ?thesis
  proof (cases "espCipher encrID key")
    case (Inl e)
    then have "\<not> (encrID = 20 \<and> length key \<in> {20, 36} \<or> encrID = 28 \<and> length key = 36)"
      by (auto simp: espCipher_def split: if_splits)
    with Inl show ?thesis by (simp add: buildESPSA_def)
  next
    case (Inr suite)
    then consider "encrID = 20" "length key = 20" "suite = 1" | "encrID = 20" "length key = 36" "suite = 2" | "encrID = 28" "length key = 36" "suite = 3"
      by (auto simp: espCipher_Inr)
    then show ?thesis using Inr by cases (simp_all add: buildESPSA_def AEADSaltSize_def Let_def m n a)
  qed
qed

lemma buildESPSA_SPI:
  "buildESPSA cl spi encrID key peer = Inr sa \<Longrightarrow> SPI sa = spi"
  by (auto simp: buildESPSA_def NewSecurityAssociation_def Let_def split: sum.splits if_splits)

text \<open>
  Which negotiated child SAs the engine can carry: those with AES-GCM and a key of 128 or 256 bits (or
  none stated). A child with ChaCha20-Poly1305 would need 288 bits; every other cipher that IKE_AUTH
  negotiates, the CBC suites of the default proposals among them, is refused.
\<close>

theorem installable_children:
  assumes "aead_lib_ok cl" and "buildChildSA lib sess sel sa inSPI ni nr = Some child"
  shows "(\<exists>esa. buildESPSA cl spi (cEncrID child) (cPeerEncrKey child) peer = Inr esa) \<longleftrightarrow>
    EncrID sel = 20 \<and> unat (EncrKeyLen sel div 8) \<in> {0, 16, 32} \<or> EncrID sel = 28 \<and> unat (EncrKeyLen sel div 8) = 36"
proof -
  obtain e i where l: "childKeyLengths sel = (e, i)" by fastforce
  have "cEncrID child = EncrID sel" and len: "length (cPeerEncrKey child) = e"
    using assms(2) l
    by (auto simp: buildChildSA_def Let_def DeriveChildSAKeys_def PRFPlus_def go_slice_def split: option.split_asm if_split_asm)
  moreover have "e = (if EncrID sel = 20 then (if unat (EncrKeyLen sel div 8) = 0 then 32 else unat (EncrKeyLen sel div 8)) + 4
      else if unat (EncrKeyLen sel div 8) = 0 then 16 else unat (EncrKeyLen sel div 8))"
    using l by (simp add: childKeyLengths_def Let_def)
  ultimately show ?thesis using buildESPSA_iff [OF assms(1)] by auto
qed


text \<open>The address table and its texts.\<close>

lemma To16_text: "length ip = 4 \<or> length ip = 16 \<Longrightarrow> To16 (ParseIPText (IPString ip)) = To16 ip"
  by (auto simp: IPString_def ParseIPText_def To16_def To4_def split: if_splits) (metis append_take_drop_id)+

lemma ParseIPText_nonempty: "length ip = 4 \<or> length ip = 16 \<Longrightarrow> ParseIPText (IPString ip) \<noteq> []"
  by (auto simp: IPString_def ParseIPText_def To4_def)

lemma unbindFirst_update:
  "pair \<notin> snd ` set al \<Longrightarrow> fst (unbindFirst pair (AList.update t pair al)) = ParseIPText t"
  by (induction al) (auto split: prod.split)

lemma installChild_None:
  assumes "installChild cl r r' i o' enc ik ok pa pair ip sm = (None, sm')"
  shows "\<exists>e e1 inSA outSA. espEngine sm = Some e \<and> buildESPSA cl (Uint32 i) enc ik pa = Inr inSA \<and>
    buildESPSA cl (Uint32 o') enc ok pa = Inr outSA \<and> AddInboundSA (newSA r inSA e) (Some r) = Some e1 \<and>
    sm' = (if ip \<noteq> [] then bindIP ip pair (sm\<lparr>espEngine := Some (AddOutboundSA (newSA r' outSA e1) ip r')\<rparr>)
           else sm\<lparr>espEngine := Some (newSA r' outSA e1)\<rparr>)"
  using assms by (auto simp: installChild_def Let_def split: option.split_asm sum.split_asm if_split_asm)

lemma AddInboundSA_fresh:
  assumes "AddInboundSA (newSA r sa e) (Some r) = Some e1" and "255 < SPI sa" and "LookupBySPI (saDB e) (SPI sa) = None"
  shows "LookupBySPI (saDB e1) = (LookupBySPI (saDB e))(SPI sa \<mapsto> r) \<and> store e1 = (store e)(r := sa) \<and> spd e1 = spd e"
  using assms by (auto simp: AddInboundSA_def newSA_def AddInbound_def LookupBySPI_def Let_def fun_eq_iff split: if_splits)

text \<open>
  C29. Installing a child SA connects both directions. The inbound SPI now leads to a new SA that holds the
  peer's keys, packets for the assigned address leave through a new SA that holds our keys and the
  peer's SPI, and nothing else in the engine changes. Deleting the session afterwards undoes both: neither
  the SPI nor the address leads to an SA any more.
\<close>

theorem install_and_delete:
  assumes "InstallV2ChildSA cl r r' sess child ip sm = (None, sm')" and "length ip = 4 \<or> length ip = 16" and "r \<noteq> r'"
    and "255 < Uint32 (cInSPI child)" and "inboundOf sm (Uint32 (cInSPI child)) = None" and "v2SPIPair sess \<notin> snd ` set (assignedIPs sm)"
    and "GetV2Session sm (v2SPIPair sess) = Some sess" and "child \<in> set (ChildSAs sess)"
  shows "(\<exists>e e'. espEngine sm = Some e \<and> espEngine sm' = Some e' \<and>
      inboundOf sm' = (inboundOf sm)(Uint32 (cInSPI child) \<mapsto> r) \<and> selectOutSA e' ip = Some r' \<and>
      buildESPSA cl (Uint32 (cInSPI child)) (cEncrID child) (cPeerEncrKey child) (s2PeerAddr sess) = Inr (store e' r) \<and>
      buildESPSA cl (Uint32 (cOutSPI child)) (cEncrID child) (cEncrKey child) (s2PeerAddr sess) = Inr (store e' r') \<and>
      (\<forall>q. q \<notin> {r, r'} \<longrightarrow> store e' q = store e q) \<and> (\<forall>d. To16 d \<noteq> To16 ip \<longrightarrow> outboundOf sm' d = outboundOf sm d)) \<and>
    (\<exists>sm''. DeleteV2Session (v2SPIPair sess) sm' = Some sm'' \<and>
      inboundOf sm'' (Uint32 (cInSPI child)) = None \<and> outboundOf sm'' ip = None)"
proof -
  let ?i = "Uint32 (cInSPI child)"
  have ne: "ip \<noteq> []" using assms(2) by auto
  obtain e e1 inSA outSA where i: "espEngine sm = Some e" "buildESPSA cl ?i (cEncrID child) (cPeerEncrKey child) (s2PeerAddr sess) = Inr inSA"
    "buildESPSA cl (Uint32 (cOutSPI child)) (cEncrID child) (cEncrKey child) (s2PeerAddr sess) = Inr outSA"
    "AddInboundSA (newSA r inSA e) (Some r) = Some e1"
    "sm' = bindIP ip (v2SPIPair sess) (sm\<lparr>espEngine := Some (AddOutboundSA (newSA r' outSA e1) ip r')\<rparr>)"
    using installChild_None [OF assms(1) [unfolded InstallV2ChildSA_def]] ne by auto
  have s: "SPI inSA = ?i" using buildESPSA_SPI [OF i(2)] .
  have f: "LookupBySPI (saDB e1) = (LookupBySPI (saDB e))(?i \<mapsto> r)" "store e1 = (store e)(r := inSA)" "spd e1 = spd e"
    using AddInboundSA_fresh [OF i(4)] assms(4,5) s i(1) by (auto simp: inboundOf_def)
  let ?e' = "AddOutboundSA (newSA r' outSA e1) ip r'"
  have e': "espEngine sm' = Some ?e'" "v2Sessions sm' = v2Sessions sm"
    "assignedIPs sm' = AList.update (IPString ip) (v2SPIPair sess) (assignedIPs sm)"
    by (simp_all add: i(5) bindIP_def)
  have "inboundOf sm' = (inboundOf sm)(?i \<mapsto> r)"
    using f e' i(1) by (simp add: inboundOf_def fun_eq_iff AddOutboundSA_def newSA_def)
  moreover have "selectOutSA ?e' ip = Some r'" using ne by (simp add: selectOutSA_def AddOutboundSA_def)
  moreover have "store ?e' r = inSA" "store ?e' r' = outSA" "\<forall>q. q \<notin> {r, r'} \<longrightarrow> store ?e' q = store e q"
    using f assms(3) by (simp_all add: AddOutboundSA_def newSA_def)
  moreover have "\<forall>d. To16 d \<noteq> To16 ip \<longrightarrow> outboundOf sm' d = outboundOf sm d"
    using e' f i(1) by (simp add: outboundOf_def AddOutboundSA_def newSA_def)
  moreover have "\<exists>sm''. DeleteV2Session (v2SPIPair sess) sm' = Some sm'' \<and> inboundOf sm'' ?i = None \<and> outboundOf sm'' ip = None"
  proof -
    have u: "fst (unbindFirst (v2SPIPair sess) (assignedIPs sm')) = ParseIPText (IPString ip)"
      unfolding e'(3) by (rule unbindFirst_update [OF assms(6)])
    obtain sm'' where d: "DeleteV2Session (v2SPIPair sess) sm' = Some sm''"
      using evict_total [of sm'] e'(1) unfolding DeleteV2Session_def by auto
    note ev = evict_facts [OF d [unfolded DeleteV2Session_def]]
    have "?i \<in> childSPIs sm' (v2SPIPair sess)"
      using assms(7,8) e'(2) by (auto simp: childSPIs_def GetV2Session_def)
    then have "inboundOf sm'' ?i = None" by (simp add: ev(5))
    moreover have "outboundOf sm'' ip = None"
      using u To16_text [OF assms(2)] ParseIPText_nonempty [OF assms(2)] by (simp add: ev(6))
    ultimately show ?thesis using d by blast
  qed
  ultimately show ?thesis using i(1-3) e'(1) by auto
qed


section \<open>Examples\<close>

definition exampleAeadLib :: crypto_lib where
  "exampleAeadLib = example_lib\<lparr>chachaNew := (\<lambda>k. Some example_aead)\<rparr>"

lemma exampleAeadLib_ok: "aead_lib_ok exampleAeadLib"
  by (simp add: aead_lib_ok_def exampleAeadLib_def example_lib_def)

definition exampleChild :: IKEv2ChildSA where
  "exampleChild =
     \<lparr>cInSPI = [0, 0, 2, 0], cOutSPI = [0, 0, 3, 0], cEncrKey = replicate 36 1, cIntegKey = [], cPeerEncrKey = replicate 36 2,
      cPeerIntegKey = [], cEncrID = 20, cIntegID = 0, cKeyLength = 256\<rparr>"

definition exampleIdSession :: IKEv2Session where
  "exampleIdSession = exampleV2Session\<lparr>PeerID := strBytes ''alice'', ChildSAs := [exampleChild]\<rparr>"

definition exampleManager :: session_manager where
  "exampleManager = (NewSessionManager (Some example_engine))
     \<lparr>v2Sessions := [v2SPIPair exampleIdSession \<mapsto> exampleIdSession], identityMap := [strBytes ''alice'' \<mapsto> v2SPIPair exampleIdSession]\<rparr>"

lemma exampleIdSession_facts:
  "PeerID exampleIdSession = strBytes ''alice''" "ChildSAs exampleIdSession = [exampleChild]"
  by (simp_all add: exampleIdSession_def)

lemma strBytes_alice: "strBytes ''alice'' \<noteq> []" by (simp add: strBytes_def)

lemma example_register:
  "RegisterV2Session exampleIdSession (NewSessionManager (Some example_engine)) = Some exampleManager"
  using strBytes_alice
  by (simp add: RegisterV2Session_def Let_def exampleManager_def NewSessionManager_def exampleIdSession_facts)

theorem single_connection_witness:
  "manager_reachable exampleAeadLib exampleManager \<and> identityAt exampleManager (v2SPIPair exampleIdSession) (strBytes ''alice'') \<and>
     \<not> identityAt exampleManager (replicate 16 9) (strBytes ''alice'')"
proof -
  have r: "manager_reachable exampleAeadLib exampleManager"
    by (rule mr_reg2 [OF mr_new example_register])
  have "identityAt exampleManager (v2SPIPair exampleIdSession) (strBytes ''alice'')"
    by (simp add: identityAt_def GetV2Session_def exampleManager_def exampleIdSession_facts)
  moreover have "v2SPIPair exampleIdSession \<noteq> replicate 16 9"
  proof
    assume "v2SPIPair exampleIdSession = replicate 16 9"
    then have "hd (v2SPIPair exampleIdSession) = hd (replicate 16 9)" by simp
    then show False by (simp add: v2SPIPair_def exampleIdSession_def exampleV2Session_def hd_append)
  qed
  moreover have "identityAt exampleManager (replicate 16 9) (strBytes ''alice'') \<Longrightarrow>
      v2SPIPair exampleIdSession = replicate 16 9"
    using single_connection [OF r] strBytes_alice calculation(1) by blast
  ultimately show ?thesis using r by blast
qed

theorem delete_takes_down_witness:
  "\<exists>sm'. DeleteV2Session (v2SPIPair exampleIdSession) exampleManager = Some sm' \<and> GetV2Session sm' (v2SPIPair exampleIdSession) = None \<and>
     inboundOf sm' 512 = None"
proof -
  obtain sm' where d: "DeleteV2Session (v2SPIPair exampleIdSession) exampleManager = Some sm'"
    using evict_total [of exampleManager] unfolding DeleteV2Session_def by (auto simp: exampleManager_def NewSessionManager_def)
  have "GetV2Session exampleManager (v2SPIPair exampleIdSession) = Some exampleIdSession" "exampleChild \<in> set (ChildSAs exampleIdSession)"
    by (simp_all add: GetV2Session_def exampleManager_def exampleIdSession_facts)
  moreover have "Uint32 (cInSPI exampleChild) = 512" by code_simp
  ultimately show ?thesis using delete_takes_down [OF d] d by metis
qed

theorem installable_children_witness:
  "\<exists>child esa. buildChildSA exampleIkeLib exampleV2Session
      \<lparr>ProposalNum = 1, selProtocolID = 3, selSPI = [0, 0, 0, 9], EncrID = 20, EncrKeyLen = 256, PRFID = 0, IntegID = 0, DHID = 0, ESN = 0\<rparr>
      exampleChildSA [0, 0, 2, 0] [1] [2] = Some child \<and>
     buildESPSA exampleAeadLib 512 (cEncrID child) (cPeerEncrKey child) examplePeer = Inr esa"
proof -
  let ?sel = "\<lparr>ProposalNum = 1, selProtocolID = 3, selSPI = [0, 0, 0, 9], EncrID = 20, EncrKeyLen = 256, PRFID = 0, IntegID = 0, DHID = 0, ESN = 0\<rparr>"
  have "\<exists>child. buildChildSA exampleIkeLib exampleV2Session ?sel exampleChildSA [0, 0, 2, 0] [1] [2] = Some child"
    using PRFPlus_keystream [of "ilHmac exampleIkeLib" "s2PRF exampleV2Session" "SK_d (Keys exampleV2Session)" "[1, 2]" 72]
    by (simp add: buildChildSA_def childKeyLengths_def Let_def DeriveChildSAKeys_def exampleIkeLib_def exampleV2Session_def cookiePRF_def hashSize_def)
  then obtain child where c: "buildChildSA exampleIkeLib exampleV2Session ?sel exampleChildSA [0, 0, 2, 0] [1] [2] = Some child" by blast
  with installable_children [OF exampleAeadLib_ok c] show ?thesis by auto
qed

theorem install_and_delete_witness:
  "\<exists>sm' sm''. InstallV2ChildSA exampleAeadLib 7 8 exampleIdSession exampleChild [10, 0, 0, 2] exampleManager = (None, sm') \<and>
     inboundOf sm' 512 = Some 7 \<and> DeleteV2Session (v2SPIPair exampleIdSession) sm' = Some sm'' \<and> inboundOf sm'' 512 = None"
proof -
  have spi: "Uint32 (cInSPI exampleChild) = 512" by code_simp
  have b: "\<exists>sa. buildESPSA exampleAeadLib spi (cEncrID exampleChild) k (s2PeerAddr exampleIdSession) = Inr sa" if "length k = 36" for spi k
    using buildESPSA_iff [OF exampleAeadLib_ok, of spi "cEncrID exampleChild" k] that by (simp add: exampleChild_def)
  have l: "length (cPeerEncrKey exampleChild) = 36" "length (cEncrKey exampleChild) = 36" by (simp_all add: exampleChild_def)
  have e: "espEngine exampleManager = Some example_engine" "assignedIPs exampleManager = []"
    by (simp_all add: exampleManager_def NewSessionManager_def)
  obtain sm' where i: "InstallV2ChildSA exampleAeadLib 7 8 exampleIdSession exampleChild [10, 0, 0, 2] exampleManager = (None, sm')"
    using b [OF l(1), of "Uint32 (cInSPI exampleChild)"] b [OF l(2), of "Uint32 (cOutSPI exampleChild)"] e
    by (auto simp: InstallV2ChildSA_def installChild_def AddInboundSA_def Let_def)
  have "inboundOf exampleManager 512 = None"
    using e by (simp add: inboundOf_def LookupBySPI_def example_engine_def)
  moreover have "GetV2Session exampleManager (v2SPIPair exampleIdSession) = Some exampleIdSession"
    by (simp add: GetV2Session_def exampleManager_def)
  ultimately have f: "(255 :: u32) < Uint32 (cInSPI exampleChild)" "inboundOf exampleManager (Uint32 (cInSPI exampleChild)) = None"
    "v2SPIPair exampleIdSession \<notin> snd ` set (assignedIPs exampleManager)" "exampleChild \<in> set (ChildSAs exampleIdSession)"
    "GetV2Session exampleManager (v2SPIPair exampleIdSession) = Some exampleIdSession"
    by (simp_all add: spi e exampleIdSession_facts)
  have "length [10, 0, 0, 2 :: byte] = 4 \<or> length [10, 0, 0, 2 :: byte] = 16" "(7::nat) \<noteq> 8" by simp_all
  from install_and_delete [OF i this f(1,2,3,5,4)] i show ?thesis by (auto simp: spi)
qed

end
