(* ===== verification/IkeV1Phase2.thy ===== *)
theory IkeV1Phase2
  imports IkeV1Phase1 IkeV2Auth
begin

text \<open>
  IKEv1 after phase 1: Quick Mode (\<^verbatim>\<open>internal/ike/ikev1_quick.go\<close>), Mode Config (the second half of
  \<^verbatim>\<open>ikev1_aggr.go\<close>) and extended authentication in Transaction Exchanges (\<^verbatim>\<open>ikev1_xauth.go\<close>).
\<close>

section \<open>Quick Mode\<close>

abbreviation (input) V1ESPTransformDES :: byte where "V1ESPTransformDES \<equiv> 2"
abbreviation (input) V1ESPTransform3DES :: byte where "V1ESPTransform3DES \<equiv> 3"
abbreviation (input) V1ESPTransformAES :: byte where "V1ESPTransformAES \<equiv> 12"
abbreviation (input) V1P2AttrAuthAlg :: u16 where "V1P2AttrAuthAlg \<equiv> 5"
abbreviation (input) V1P2AttrKeyLength :: u16 where "V1P2AttrKeyLength \<equiv> 6"

definition extractEncrKeyLen :: "TransformV1Payload \<Rightarrow> nat" where
  "extractEncrKeyLen xf =
     (if tv1TransformID xf = V1ESPTransformAES then
        foldl (\<lambda>len a. if attrType a = V1P2AttrKeyLength \<and> attrToUint16 a > 0 then unat (attrToUint16 a) div 8 else len)
          16 (tv1Attributes xf)
      else if tv1TransformID xf = V1ESPTransform3DES then 24
      else if tv1TransformID xf = V1ESPTransformDES then 8
      else 16)"

definition extractIntegKeyLen :: "TransformV1Payload \<Rightarrow> nat" where
  "extractIntegKeyLen xf =
     foldl (\<lambda>len a. if attrType a = V1P2AttrAuthAlg then
                      (if attrToUint16 a = 5 then 32 else if attrToUint16 a = 2 then 20
                       else if attrToUint16 a = 1 then 16 else len)
                    else len)
       12 (tv1Attributes xf)"

definition extractV1ChildKeyLens :: "TransformV1Payload list \<Rightarrow> nat \<times> nat" where
  "extractV1ChildKeyLens transforms =
     (case transforms of [] \<Rightarrow> (16, 12) | xf # _ \<Rightarrow> (extractEncrKeyLen xf, extractIntegKeyLen xf))"

text \<open>The keys of the child SA, cut from the key material one behind the other.\<close>

definition v1ChildSA :: "u32 \<Rightarrow> bytes \<Rightarrow> bytes \<Rightarrow> nat \<Rightarrow> nat \<Rightarrow> bytes \<Rightarrow> IKEv1ChildSA" where
  "v1ChildSA msgID inSPI outSPI e i keymat =
     \<lparr>v1MsgID = msgID, v1InSPI = inSPI, v1OutSPI = outSPI, v1EncrKey = slice 0 e keymat, v1IntegKey = slice e (e + i) keymat,
      v1PeerEncrKey = slice (e + i) (e + i + e) keymat, v1PeerIntegKey = slice (e + i + e) (e + i + e + i) keymat,
      v1EncrID = 0, v1IntegID = 0, v1ChildKeyLength = 0\<rparr>"

definition quickHash1 :: "hmac_fun \<Rightarrow> IKEv1Session \<Rightarrow> bytes \<Rightarrow> u32 \<Rightarrow> SAv1Payload \<Rightarrow> bytes \<Rightarrow> bytes" where
  "quickHash1 hmac sess skeyidA msgID sa ni =
     prfCompute hmac (s1PRF sess) skeyidA (PutUint32 msgID @ MarshalPayload (PlSAv1 sa) @ MarshalPayload (PlNonceV1 ni))"

definition quickHash2 :: "hmac_fun \<Rightarrow> IKEv1Session \<Rightarrow> bytes \<Rightarrow> u32 \<Rightarrow> bytes \<Rightarrow> SAv1Payload \<Rightarrow> bytes \<Rightarrow> bytes" where
  "quickHash2 hmac sess skeyidA msgID ni sa nr =
     prfCompute hmac (s1PRF sess) skeyidA (PutUint32 msgID @ ni @ MarshalPayload (PlSAv1 sa) @ nr)"

text \<open>From the verified HASH(1) on (lines 84 to 194).\<close>

definition quickRespond ::
  "ike_lib \<Rightarrow> v1_draws \<Rightarrow> IKEv1Session \<Rightarrow> IKEv1KeyMaterial \<Rightarrow> bytes \<Rightarrow> u32 \<Rightarrow> SAv1Payload \<Rightarrow> bytes
   \<Rightarrow> (v1_error + Message) \<times> IKEv1Session" where
  "quickRespond lib dr sess keys qmIV msgID sa ni =
     (case GenerateNonce (d1Nonce dr) 32 of
        Inl e \<Rightarrow> (Inl (v1Crypto e), sess)
      | Inr nr \<Rightarrow>
     (case d1SPI dr of
        None \<Rightarrow> (Inl V1Rand, sess)
      | Some inSPI \<Rightarrow>
     (case sav1Proposals sa of
        [] \<Rightarrow> (Inl V1Panic, sess)
      | p0 # _ \<Rightarrow>
     (let outSPI = (if length (pv1SPI p0) \<ge> 4 then take 4 (pv1SPI p0) else replicate 4 0);
          respSA = \<lparr>sav1DOI = DOIIPsec, sav1Situation = SituationIdentityOnly,
                    sav1Proposals = [\<lparr>pv1Number = 1, pv1ProtocolID = ProtocolESP, pv1SPI = inSPI, pv1Transforms = pv1Transforms p0\<rparr>]\<rparr>;
          hash2 = quickHash2 (ilHmac lib) sess (SKEYID_a keys) msgID ni respSA nr
      in
      case sealV1 lib sess qmIV [PlHashV1 hash2, PlSAv1 respSA, PlNonceV1 nr] of
        Inl e \<Rightarrow> (Inl e, sess)
      | Inr (encResp, firstPT) \<Rightarrow>
     (let (e, i) = extractV1ChildKeyLens (pv1Transforms p0) in
      case DeriveIKEv1QuickModeKeys (ilHmac lib) (s1PRF sess) (SKEYID_d keys) ProtocolESP outSPI ni nr [] ((e + i) * 2) of
        None \<Rightarrow> (Inl V1Diverges, sess)
      | Some keymat \<Rightarrow>
          (let sess1 = sess\<lparr>s1ChildSAs := s1ChildSAs sess @ [v1ChildSA msgID inSPI outSPI e i keymat]\<rparr>
           in (v1EncryptedMessage (v1Header sess1 ExchangeQuickMode FlagV1Encryption msgID firstPT (HeaderLen + length encResp)) encResp,
               sess1)))))))"

definition HandleQuickMode1 ::
  "ike_lib \<Rightarrow> v1_draws \<Rightarrow> IKEv1Session \<Rightarrow> Message \<Rightarrow> (v1_error + Message) \<times> IKEv1Session" where
  "HandleQuickMode1 lib dr sess msg =
     (if s1State sess \<noteq> StateV1Established then (Inl (V1State (s1State sess)), sess)
      else
     (let msgID = MessageID (mHeader msg);
          qmIV0 = ComputeV1QuickModeIV (ilDigests lib) (s1HashAlg sess) (CurrentIV sess) msgID (v1BlockSize sess)
      in
      case v1Body msg of
        Inl e \<Rightarrow> (Inl e, sess)
      | Inr (encPayload, first) \<Rightarrow>
     (case openV1 lib sess qmIV0 encPayload first of
        Inl e \<Rightarrow> (Inl e, sess)
      | Inr chain \<Rightarrow>
     (case (findPayloadAs asHashV1 chain, findPayloadAs asSAv1 chain, findPayloadAs asNonceV1 chain) of
        (None, _, _) \<Rightarrow> (Inl (V1Missing PayloadHashV1), sess)
      | (Some _, None, _) \<Rightarrow> (Inl (V1Missing PayloadSAV1), sess)
      | (Some _, Some _, None) \<Rightarrow> (Inl (V1Missing PayloadNonceV1), sess)
      | (Some hash1, Some sa, Some ni) \<Rightarrow>
     (case s1Keys sess of
        None \<Rightarrow> (Inl V1Panic, sess)
      | Some keys \<Rightarrow>
          if \<not> hashEqual (quickHash1 (ilHmac lib) sess (SKEYID_a keys) msgID sa ni) hash1 then (Inl V1BadHash, sess)
          else quickRespond lib dr sess keys (nextIV (v1BlockSize sess) qmIV0 encPayload) msgID sa ni)))))"

text \<open>Message 3 is accepted unseen.\<close>

definition HandleQuickMode3 :: "IKEv1Session \<Rightarrow> Message \<Rightarrow> v1_error option \<times> IKEv1Session" where
  "HandleQuickMode3 sess msg = (None, sess)"

section \<open>Mode Config\<close>

abbreviation (input) ModeConfigRequest :: byte where "ModeConfigRequest \<equiv> 1"
abbreviation (input) ModeConfigReply :: byte where "ModeConfigReply \<equiv> 2"
abbreviation (input) MCAttrInternalIP4 :: u16 where "MCAttrInternalIP4 \<equiv> 1"
abbreviation (input) MCAttrInternalIP4Mask :: u16 where "MCAttrInternalIP4Mask \<equiv> 2"
abbreviation (input) MCAttrInternalIP4DNS :: u16 where "MCAttrInternalIP4DNS \<equiv> 3"
abbreviation (input) PayloadISAKMPCfg :: byte where "PayloadISAKMPCfg \<equiv> 14"

record ModeConfigPayload =
  mcConfigType :: byte
  mcIdentifier :: u16
  mcAttributes :: "ISAKMPAttribute list"

text \<open>The body; as a payload of a chain it is a raw payload of type 14.\<close>

definition modeConfigBody :: "ModeConfigPayload \<Rightarrow> bytes" where
  "modeConfigBody p =
     [mcConfigType p, 0, ucast (drop_bit 8 (mcIdentifier p)), ucast (mcIdentifier p)] @ concat (map MarshalAttribute (mcAttributes p))"

text \<open>The last raw payload of type 14 with at least four bytes.\<close>

definition findModeConfig :: "ParsedPayload list \<Rightarrow> ModeConfigPayload option" where
  "findModeConfig chain =
     foldl (\<lambda>r pp. case ppPayload pp of
                     PlRaw t d \<Rightarrow>
                       if t = PayloadISAKMPCfg \<and> length d \<ge> 4 then
                         Some \<lparr>mcConfigType = d ! 0, mcIdentifier = Uint16 (slice 2 4 d), mcAttributes = ParseISAKMPAttributes (drop 4 d)\<rparr>
                       else r
                   | _ \<Rightarrow> r) None chain"

definition configAttributes :: "ip \<Rightarrow> bytes option \<Rightarrow> ip list \<Rightarrow> ISAKMPAttribute list" where
  "configAttributes ip ipMask dnsServers =
     (let dns = (if length dnsServers = 0 then [[1, 1, 1, 1], [1, 0, 0, 1]] else dnsServers)
      in [\<lparr>attrType = MCAttrInternalIP4, IsTV = False, attrValue = To4 ip\<rparr>,
          \<lparr>attrType = MCAttrInternalIP4Mask, IsTV = False, attrValue = (case ipMask of None \<Rightarrow> [] | Some m \<Rightarrow> m)\<rparr>] @
         map (\<lambda>d. \<lparr>attrType = MCAttrInternalIP4DNS, IsTV = False, attrValue = To4 d\<rparr>) dns)"

text \<open>A nil \<^verbatim>\<open>assignIP\<close> panics.\<close>

definition HandleModeConfig ::
  "ike_lib \<Rightarrow> IKEv1Session \<Rightarrow> Message \<Rightarrow> ip_assignment \<Rightarrow> ip list \<Rightarrow> v1_error + Message" where
  "HandleModeConfig lib sess msg assignIP dnsServers =
     (if s1State sess \<noteq> StateV1Established then Inl (V1State (s1State sess))
      else
     (let msgID = MessageID (mHeader msg);
          qmIV0 = ComputeV1QuickModeIV (ilDigests lib) (s1HashAlg sess) (CurrentIV sess) msgID (v1BlockSize sess)
      in
      case v1Body msg of
        Inl e \<Rightarrow> Inl e
      | Inr (encPayload, first) \<Rightarrow>
     (case openV1 lib sess qmIV0 encPayload first of
        Inl e \<Rightarrow> Inl e
      | Inr chain \<Rightarrow>
     (case findModeConfig chain of
        None \<Rightarrow> Inl V1NotConfig
      | Some req \<Rightarrow>
          if mcConfigType req \<noteq> ModeConfigRequest then Inl V1NotConfig
          else
     (case assignIP of
        None \<Rightarrow> Inl V1Panic
      | Some None \<Rightarrow> Inl V1NoAddress
      | Some (Some (ip, ipMask)) \<Rightarrow>
     (case s1Keys sess of
        None \<Rightarrow> Inl V1Panic
      | Some keys \<Rightarrow>
          (let reply = modeConfigBody \<lparr>mcConfigType = ModeConfigReply, mcIdentifier = mcIdentifier req,
                         mcAttributes = configAttributes ip ipMask dnsServers\<rparr>;
               respHash = prfCompute (ilHmac lib) (s1PRF sess) (SKEYID_a keys) (PutUint32 msgID @ marshalWithHeader reply)
           in
           case sealV1 lib sess (nextIV (v1BlockSize sess) qmIV0 encPayload) [PlHashV1 respHash, PlRaw PayloadISAKMPCfg reply] of
             Inl e \<Rightarrow> Inl e
           | Inr (encResp, firstPT) \<Rightarrow>
               v1EncryptedMessage (v1Header sess ExchangeInformationalV1 FlagV1Encryption msgID firstPT (HeaderLen + length encResp))
                 encResp)))))))"

section \<open>Extended authentication\<close>

abbreviation (input) ISAKMPCfgRequest :: byte where "ISAKMPCfgRequest \<equiv> 1"
abbreviation (input) ISAKMPCfgSet :: byte where "ISAKMPCfgSet \<equiv> 3"
abbreviation (input) XAUTH_TYPE :: u16 where "XAUTH_TYPE \<equiv> 16520"
abbreviation (input) XAUTH_USER_NAME :: u16 where "XAUTH_USER_NAME \<equiv> 16521"
abbreviation (input) XAUTH_USER_PASSWORD :: u16 where "XAUTH_USER_PASSWORD \<equiv> 16522"
abbreviation (input) XAUTH_STATUS :: u16 where "XAUTH_STATUS \<equiv> 16527"

definition buildXAUTHMessage ::
  "ike_lib \<Rightarrow> IKEv1Session \<Rightarrow> u32 \<Rightarrow> byte \<Rightarrow> ISAKMPAttribute list \<Rightarrow> (v1_error + Message) \<times> IKEv1Session" where
  "buildXAUTHMessage lib sess msgID ctype attrs =
     (case s1Keys sess of
        None \<Rightarrow> (Inl V1Panic, sess)
      | Some keys \<Rightarrow>
          (let cfgBody = [ctype, 0, 0, 0] @ concat (map MarshalAttribute attrs);
               hashData = prfCompute (ilHmac lib) (s1PRF sess) (SKEYID_a keys) (PutUint32 msgID @ cfgBody);
               txIV = ComputeV1QuickModeIV (ilDigests lib) (s1HashAlg sess) (CurrentIV sess) msgID (v1BlockSize sess)
           in
           case sealV1 lib sess txIV [PlHashV1 hashData, PlRaw PayloadISAKMPCfg cfgBody] of
             Inl e \<Rightarrow> (Inl e, sess)
           | Inr (encResp, firstPT) \<Rightarrow>
               (case v1EncryptedMessage (v1Header sess ExchangeTransaction FlagV1Encryption msgID firstPT (HeaderLen + length encResp)) encResp of
                  Inl e \<Rightarrow> (Inl e, sess)
                | Inr resp \<Rightarrow> (Inr resp, if ctype = ISAKMPCfgRequest then sess\<lparr>s1State := StateV1XAUTHSent\<rparr> else sess))))"

definition buildXAUTHResult :: "ike_lib \<Rightarrow> IKEv1Session \<Rightarrow> u32 \<Rightarrow> bool \<Rightarrow> (v1_error + Message) \<times> IKEv1Session" where
  "buildXAUTHResult lib sess msgID success =
     buildXAUTHMessage lib sess msgID ISAKMPCfgSet
       [\<lparr>attrType = XAUTH_STATUS, IsTV = True, attrValue = PutUint16 (if success then 1 else 0)\<rparr>]"

definition InitiateXAUTH :: "ike_lib \<Rightarrow> IKEv1Session \<Rightarrow> (v1_error + Message) \<times> IKEv1Session" where
  "InitiateXAUTH lib sess =
     (if s1State sess \<noteq> StateV1Established then (Inl (V1State (s1State sess)), sess)
      else
      (let sess1 = sess\<lparr>s1NextMsgID := s1NextMsgID sess + 1\<rparr>
       in buildXAUTHMessage lib sess1 (s1NextMsgID sess1) ISAKMPCfgRequest
            [\<lparr>attrType = XAUTH_TYPE, IsTV = True, attrValue = [0, 0]\<rparr>, \<lparr>attrType = XAUTH_USER_NAME, IsTV = False, attrValue = []\<rparr>,
             \<lparr>attrType = XAUTH_USER_PASSWORD, IsTV = False, attrValue = []\<rparr>]))"

text \<open>The attributes of all raw payloads; the last user name and the last password count.\<close>

definition xauthAttributes :: "ParsedPayload list \<Rightarrow> ISAKMPAttribute list" where
  "xauthAttributes chain =
     concat (map (\<lambda>pp. case ppPayload pp of
                         PlRaw _ d \<Rightarrow> if length d < 4 then [] else ParseISAKMPAttributes (drop 4 d)
                       | _ \<Rightarrow> []) chain)"

definition lastAttribute :: "u16 \<Rightarrow> ISAKMPAttribute list \<Rightarrow> bytes" where
  "lastAttribute t attrs = foldl (\<lambda>v a. if attrType a = t then attrValue a else v) [] attrs"

definition handleXAUTHReply ::
  "ike_lib \<Rightarrow> IKEv1Handler \<Rightarrow> IKEv1Session \<Rightarrow> ParsedPayload list \<Rightarrow> u32 \<Rightarrow> (v1_error + Message) \<times> IKEv1Session" where
  "handleXAUTHReply lib h sess chain msgID =
     (let attrs = xauthAttributes chain;
          username = lastAttribute XAUTH_USER_NAME attrs;
          password = lastAttribute XAUTH_USER_PASSWORD attrs
      in
      if username = [] then buildXAUTHResult lib sess msgID False
      else
      (case getXAUTHCredentials h of
         None \<Rightarrow> buildXAUTHResult lib sess msgID False
       | Some verify \<Rightarrow>
           if \<not> verify username password then buildXAUTHResult lib sess msgID False
           else buildXAUTHResult lib (sess\<lparr>XAUTHUser := username, s1State := StateV1XAUTHDone\<rparr>) msgID True))"

definition HandleTransaction ::
  "ike_lib \<Rightarrow> IKEv1Handler \<Rightarrow> IKEv1Session \<Rightarrow> bytes \<Rightarrow> IkeHeader \<Rightarrow> (v1_error + Message) \<times> IKEv1Session" where
  "HandleTransaction lib h sess packetData hdr =
     (if s1State sess \<noteq> StateV1XAUTHSent \<and> s1State sess \<noteq> StateV1Established then (Inl (V1State (s1State sess)), sess)
      else if length packetData < HeaderLen then (Inl V1Panic, sess)
      else
      (let msgID = MessageID hdr;
           txIV = ComputeV1QuickModeIV (ilDigests lib) (s1HashAlg sess) (CurrentIV sess) msgID (v1BlockSize sess)
       in
       case openV1 lib sess txIV (drop HeaderLen packetData) (HdrNextPayload hdr) of
         Inl e \<Rightarrow> (Inl e, sess)
       | Inr chain \<Rightarrow>
           (case findPayloadAs asHashV1 chain of
              None \<Rightarrow> (Inl (V1Missing PayloadHashV1), sess)
            | Some _ \<Rightarrow>
                if s1State sess = StateV1XAUTHSent then handleXAUTHReply lib h sess chain msgID
                else (Inl (V1State (s1State sess)), sess))))"

section \<open>Reachable sessions\<close>

text \<open>A session as message 1 of either mode makes it, after calls of any handlers with any messages.\<close>

inductive v1_reachable :: "ike_lib \<Rightarrow> IKEv1Handler \<Rightarrow> IKEv1Session \<Rightarrow> bool" for lib h where
  r1_main: "HandleMainMode1 h dr msg peer = Inr (resp, s) \<Longrightarrow> v1_reachable lib h s"
| r1_aggr: "HandleAggressive1 lib h dr msg peer = Inr (resp, s) \<Longrightarrow> v1_reachable lib h s"
| r1_main3: "v1_reachable lib h s \<Longrightarrow> v1_reachable lib h (snd (HandleMainMode3 lib dr s msg))"
| r1_main5: "v1_reachable lib h s \<Longrightarrow> v1_reachable lib h (snd (HandleMainMode5 lib h s msg))"
| r1_aggr3: "v1_reachable lib h s \<Longrightarrow> v1_reachable lib h (snd (HandleAggressive3 lib s msg))"
| r1_quick: "v1_reachable lib h s \<Longrightarrow> v1_reachable lib h (snd (HandleQuickMode1 lib dr s msg))"
| r1_quick3: "v1_reachable lib h s \<Longrightarrow> v1_reachable lib h (snd (HandleQuickMode3 s msg))"
| r1_xauth: "v1_reachable lib h s \<Longrightarrow> v1_reachable lib h (snd (InitiateXAUTH lib s))"
| r1_trans: "v1_reachable lib h s \<Longrightarrow> v1_reachable lib h (snd (HandleTransaction lib h s packet hdr))"

definition v1_keyed :: "ike_lib \<Rightarrow> IKEv1Session \<Rightarrow> bool" where
  "v1_keyed lib s \<longleftrightarrow> s1Encryptor s \<noteq> None \<and>
     (\<exists>k. s1Keys s = Some k \<and> SKEYID k = prfCompute (ilHmac lib) (s1PRF s) (s1PSK s) (s1NonceI s @ s1NonceR s))"

definition v1_inv :: "ike_lib \<Rightarrow> IKEv1Handler \<Rightarrow> IKEv1Session \<Rightarrow> bool" where
  "v1_inv lib h s \<longleftrightarrow>
     (s1State s = StateV1MainSARecv \<or>
      s1State s \<in> {StateV1MainKERecv, StateV1AggrRecv, StateV1Established, StateV1XAUTHSent, StateV1XAUTHDone} \<and> v1_keyed lib s) \<and>
     (\<exists>name. v1ConnPSK h (s1PeerAddr s) = Some (s1PSK s, name)) \<and>
     (s1State s = StateV1XAUTHDone \<longrightarrow> XAUTHUser s \<noteq> [] \<and>
        (\<exists>verify pw. getXAUTHCredentials h = Some verify \<and> verify (XAUTHUser s) pw))"

lemma v1_keyed_update [simp]:
  "v1_keyed lib (s\<lparr>CurrentIV := iv\<rparr>) = v1_keyed lib s"
  "v1_keyed lib (s\<lparr>s1PeerID := d\<rparr>) = v1_keyed lib s"
  "v1_keyed lib (s\<lparr>s1State := st\<rparr>) = v1_keyed lib s"
  "v1_keyed lib (s\<lparr>XAUTHUser := d\<rparr>) = v1_keyed lib s"
  "v1_keyed lib (s\<lparr>s1NextMsgID := m\<rparr>) = v1_keyed lib s"
  "v1_keyed lib (s\<lparr>s1ChildSAs := c\<rparr>) = v1_keyed lib s"
  by (simp_all add: v1_keyed_def)

lemma v1_inv_update [simp]:
  "v1_inv lib h (s\<lparr>CurrentIV := iv\<rparr>) = v1_inv lib h s"
  "v1_inv lib h (s\<lparr>s1PeerID := d\<rparr>) = v1_inv lib h s"
  "v1_inv lib h (s\<lparr>s1NextMsgID := m\<rparr>) = v1_inv lib h s"
  "v1_inv lib h (s\<lparr>s1ChildSAs := c\<rparr>) = v1_inv lib h s"
  by (simp_all add: v1_inv_def)

lemma DeriveIKEv1Keys_SKEYID:
  "DeriveIKEv1Keys hmac pa psk shared ni nr ci cr = Inr k \<Longrightarrow> SKEYID k = prfCompute hmac pa psk (ni @ nr)"
  by (auto simp: DeriveIKEv1Keys_def Let_def split: if_splits)

lemma HandleMainMode1_inv: "HandleMainMode1 h dr msg peer = Inr (resp, s) \<Longrightarrow> v1_inv lib h s"
  by (auto simp: HandleMainMode1_def Let_def v1_inv_def newV1Session_def split: option.splits sum.splits prod.splits)

lemma aggressiveReply_session: "aggressiveReply lib h xf sess = Inr (resp, s) \<Longrightarrow> s = sess"
  by (auto simp: aggressiveReply_def Let_def split: sum.splits)

lemma HandleAggressive1_inv:
  assumes "HandleAggressive1 lib h dr msg peer = Inr (resp, s)"
  shows "v1_inv lib h s"
proof -
  define Q where "Q t \<longleftrightarrow> (\<exists>hdr cr psk name cfg ni nr shared pa keys keyE enc ke privKey pubKey iv pid.
    v1ConnPSK h peer = Some (psk, name) \<and> DeriveIKEv1Keys (ilHmac lib) pa psk shared ni nr (InitiatorSPI hdr) cr = Inr keys \<and>
    t = (newV1Session hdr cr StateV1AggrRecv cfg pa peer psk name (v1LocalID h))
      \<lparr>s1DHPrivKey := privKey, s1DHPubKey := pubKey, s1PeerDHPubKey := ke, s1SharedSecret := shared, s1NonceI := ni, s1NonceR := nr,
       s1Keys := Some (keys\<lparr>SKEYID_e := keyE\<rparr>), s1Encryptor := Some enc, CurrentIV := iv, s1PeerID := pid\<rparr>)" for t
  have "Q s"
    using assms unfolding HandleAggressive1_def
    by (simp split: option.split_asm sum.split_asm prod.split_asm)
      (drule aggressiveReply_session, unfold Q_def, (rule exI)+, rule conjI, assumption, rule conjI, assumption, assumption)
  then show ?thesis using DeriveIKEv1Keys_SKEYID by (force simp: Q_def v1_inv_def v1_keyed_def newV1Session_def)
qed

lemma HandleMainMode3_inv:
  assumes "v1_inv lib h s"
  shows "v1_inv lib h (snd (HandleMainMode3 lib dr s msg))"
proof (cases "s1State s = StateV1MainSARecv")
  case True
  obtain r s' where e: "HandleMainMode3 lib dr s msg = (r, s')" by fastforce
  show ?thesis
  proof (cases r)
    case (Inr resp)
    with e have "HandleMainMode3 lib dr s msg = (Inr resp, s')" by simp
    from HandleMainMode3_Inr [OF this] obtain shared ni nr keys keyE enc where
      k: "DeriveIKEv1Keys (ilHmac lib) (s1PRF s) (s1PSK s) shared ni nr (CookieI s) (CookieR s) = Inr keys"
      "s1Keys s' = Some (keys\<lparr>SKEYID_e := keyE\<rparr>)" "s1Encryptor s' = Some enc" "s1PRF s' = s1PRF s" "s1PSK s' = s1PSK s"
      "s1NonceI s' = ni" "s1NonceR s' = nr" "s1State s' = StateV1MainKERecv" "s1PeerAddr s' = s1PeerAddr s"
      by auto
    with assms DeriveIKEv1Keys_SKEYID [OF k(1)] e show ?thesis by (simp add: v1_inv_def v1_keyed_def)
  next
    case (Inl x)
    have "s1State s' = s1State s \<and> s1PSK s' = s1PSK s \<and> s1PeerAddr s' = s1PeerAddr s"
      using e Inl unfolding HandleMainMode3_def Let_def
      by (auto split: if_split_asm option.split_asm sum.split_asm prod.split_asm)
    with assms True e show ?thesis by (simp add: v1_inv_def)
  qed
qed (use assms in \<open>simp add: HandleMainMode3_def\<close>)

lemma mainMode5Reply_inv:
  assumes "v1_inv lib h s" and "s1State s = StateV1MainKERecv"
  shows "v1_inv lib h (snd (mainMode5Reply lib h s))"
proof -
  have "v1_inv lib h (s\<lparr>CurrentIV := iv, s1State := StateV1Established\<rparr>)" for iv
    using assms by (auto simp: v1_inv_def)
  then show ?thesis
    using assms(1) by (simp add: mainMode5Reply_def Let_def split: sum.split prod.split)
qed

lemma HandleMainMode5_inv:
  assumes "v1_inv lib h s"
  shows "v1_inv lib h (snd (HandleMainMode5 lib h s msg))"
proof (cases "s1State s = StateV1MainKERecv")
  case True
  have "v1_inv lib h (snd (mainMode5Reply lib h (s\<lparr>CurrentIV := iv, s1PeerID := pid\<rparr>)))" for iv pid
    by (rule mainMode5Reply_inv) (simp_all add: assms True)
  then show ?thesis
    using assms by (simp add: HandleMainMode5_def Let_def split: option.split sum.split prod.split)
qed (use assms in \<open>simp add: HandleMainMode5_def\<close>)

lemma HandleAggressive3_inv: "v1_inv lib h s \<Longrightarrow> v1_inv lib h (snd (HandleAggressive3 lib s msg))"
  by (auto simp: HandleAggressive3_def v1_inv_def split: option.split sum.split)

lemma quickRespond_session: "\<exists>c. snd (quickRespond lib dr s keys iv mid sa ni) = s\<lparr>s1ChildSAs := c\<rparr>"
proof -
  have id: "\<exists>c. s = s\<lparr>s1ChildSAs := c\<rparr>" by (intro exI [of _ "s1ChildSAs s"]) simp
  have ex: "\<exists>c. s\<lparr>s1ChildSAs := d\<rparr> = s\<lparr>s1ChildSAs := c\<rparr>" for d by blast
  show ?thesis
    by (simp add: quickRespond_def Let_def id ex split: option.split sum.split prod.split list.split)
qed

lemma HandleQuickMode1_inv: "v1_inv lib h s \<Longrightarrow> v1_inv lib h (snd (HandleQuickMode1 lib dr s msg))"
  using quickRespond_session
  by (auto simp: HandleQuickMode1_def Let_def split: option.split sum.split prod.split) (metis v1_inv_update(4))+

lemma buildXAUTHMessage_session:
  "snd (buildXAUTHMessage lib s mid t attrs) = s \<or>
     t = ISAKMPCfgRequest \<and> snd (buildXAUTHMessage lib s mid t attrs) = s\<lparr>s1State := StateV1XAUTHSent\<rparr>"
  by (auto simp: buildXAUTHMessage_def Let_def split: option.split sum.split prod.split)

lemma InitiateXAUTH_inv:
  assumes "v1_inv lib h s"
  shows "v1_inv lib h (snd (InitiateXAUTH lib s))"
proof (cases "s1State s = StateV1Established")
  case True
  let ?s1 = "s\<lparr>s1NextMsgID := s1NextMsgID s + 1\<rparr>"
  have "v1_inv lib h ?s1" "v1_inv lib h (?s1\<lparr>s1State := StateV1XAUTHSent\<rparr>)"
    using assms True by (auto simp: v1_inv_def)
  then have "v1_inv lib h (snd (buildXAUTHMessage lib ?s1 mid t attrs))" for mid t attrs
    using buildXAUTHMessage_session [of lib ?s1 mid t attrs] by (elim disjE conjE) simp_all
  with True show ?thesis by (simp add: InitiateXAUTH_def Let_def)
qed (use assms in \<open>simp add: InitiateXAUTH_def\<close>)

lemma buildXAUTHResult_session [simp]: "snd (buildXAUTHResult lib s mid b) = s"
  using buildXAUTHMessage_session [of lib s mid 3] by (simp add: buildXAUTHResult_def)

lemma HandleTransaction_inv:
  assumes "v1_inv lib h s"
  shows "v1_inv lib h (snd (HandleTransaction lib h s packet hdr))"
proof -
  have done1: "v1_inv lib h (s\<lparr>XAUTHUser := u, s1State := StateV1XAUTHDone\<rparr>)"
    if "s1State s = StateV1XAUTHSent" "u \<noteq> []" "getXAUTHCredentials h = Some verify" "verify u pw" for u verify pw
    using assms that by (auto simp: v1_inv_def)
  show ?thesis
    using assms by (auto intro: done1 simp: HandleTransaction_def handleXAUTHReply_def Let_def split: option.split sum.split)
qed

text \<open>
  C28. What holds of every IKEv1 session, whatever messages it received. Its pre-shared key is the one
  configured for the peer's address; from the key exchange on it has a cipher and keys, so that no
  handler meets a nil pointer, and SKEYID is the PRF of that pre-shared key over the two nonces;
  and extended authentication is done only for a user whose password the configuration
  accepted.
\<close>

theorem v1_sessions_sound:
  assumes "v1_reachable lib h s"
  shows "(\<exists>name. v1ConnPSK h (s1PeerAddr s) = Some (s1PSK s, name)) \<and>
    (s1State s \<noteq> StateV1MainSARecv \<longrightarrow> s1Encryptor s \<noteq> None \<and>
       (\<exists>k. s1Keys s = Some k \<and> SKEYID k = prfCompute (ilHmac lib) (s1PRF s) (s1PSK s) (s1NonceI s @ s1NonceR s))) \<and>
    (s1State s = StateV1XAUTHDone \<longrightarrow> (\<exists>verify pw. getXAUTHCredentials h = Some verify \<and> verify (XAUTHUser s) pw \<and> XAUTHUser s \<noteq> []))"
proof -
  have "v1_inv lib h s"
    using assms
    by induction (simp_all add: HandleMainMode1_inv HandleAggressive1_inv HandleMainMode3_inv HandleMainMode5_inv HandleAggressive3_inv
        HandleQuickMode1_inv HandleQuickMode3_def InitiateXAUTH_inv HandleTransaction_inv)
  then show ?thesis by (auto simp: v1_inv_def v1_keyed_def)
qed


definition exampleV1Message1 :: Message where
  "exampleV1Message1 = \<lparr>mHeader = peerHdr (replicate 8 1), mPayloads = [ppOf (PlSAv1
     \<lparr>sav1DOI = 1, sav1Situation = 1, sav1Proposals = [\<lparr>pv1Number = 1, pv1ProtocolID = 1, pv1SPI = [], pv1Transforms =
       [\<lparr>tv1Number = 1, tv1TransformID = 7, tv1Attributes =
          [\<lparr>attrType = 14, IsTV = True, attrValue = [0, 128]\<rparr>, \<lparr>attrType = 2, IsTV = True, attrValue = [0, 4]\<rparr>,
           \<lparr>attrType = 3, IsTV = True, attrValue = [0, 1]\<rparr>, \<lparr>attrType = 4, IsTV = True, attrValue = [0, 14]\<rparr>]\<rparr>]\<rparr>]\<rparr>)], RawMessage = []\<rparr>"

definition exampleV1Handler :: IKEv1Handler where
  "exampleV1Handler = NewIKEv1Handler (\<lambda>_. Some (strBytes ''secret'', strBytes ''home'')) None (strBytes ''gw'') 2"

lemma example_main_mode_1: "\<exists>resp. HandleMainMode1 exampleV1Handler exampleV1Draws exampleV1Message1 examplePeer = Inr (resp, exampleV1Session)"
proof -
  let ?cfg = "\<lparr>EncAlg = V1EncrAES_CBC, HashAlg = V1HashSHA256, AuthMethod = 1, v1DHGroup = 14, v1KeyLength = 128, LifeType = 0, LifeDur = 0\<rparr>"
  let ?sa = "case ppPayload (mPayloads exampleV1Message1 ! 0) of PlSAv1 x \<Rightarrow> x"
  have sa: "findPayloadAs asSAv1 (mPayloads exampleV1Message1) = Some ?sa"
    by (simp add: exampleV1Message1_def v1_as_defs)
  have "case SelectV1Proposal (Some ?sa) DefaultV1Phase1Configs of Inl _ \<Rightarrow> False | Inr (cfg, _) \<Rightarrow> cfg = ?cfg"
    by code_simp
  then obtain p xf where sel: "SelectV1Proposal (Some ?sa) DefaultV1Phase1Configs = Inr (?cfg, p, xf)" by (auto split: sum.splits)
  have pa: "NewPRF (v1HashToPRF V1HashSHA256) = Inr cookiePRF" by code_simp
  show ?thesis
    using sa sel pa
    by (simp add: HandleMainMode1_def exampleV1Handler_def NewIKEv1Handler_def exampleV1Draws_def Let_def exampleV1Session_def newV1Session_def
        peerHdr_def exampleV1Message1_def)
qed

theorem v1_sessions_sound_witness:
  "\<exists>s :: IKEv1Session. s1State s = StateV1MainKERecv \<and> v1_reachable exampleIkeLib exampleV1Handler s \<and> s1Encryptor s \<noteq> None"
proof -
  obtain resp1 where "HandleMainMode1 exampleV1Handler exampleV1Draws exampleV1Message1 examplePeer = Inr (resp1, exampleV1Session)"
    using example_main_mode_1 by blast
  then have r1: "v1_reachable exampleIkeLib exampleV1Handler exampleV1Session" by (rule r1_main)
  obtain resp s where s: "HandleMainMode3 exampleIkeLib exampleV1Draws exampleV1Session exampleV1Message3 = (Inr resp, s)"
    "s1State s = StateV1MainKERecv" using example_main_mode_3 by blast
  have "v1_reachable exampleIkeLib exampleV1Handler s" using r1_main3 [OF r1, of exampleV1Draws exampleV1Message3] s(1) by simp
  with v1_sessions_sound [OF this] s(2) show ?thesis by auto
qed

section \<open>Who is authenticated\<close>

text \<open>The message as Main Mode 5 reads it: decrypted under the session's key and IV.\<close>

definition main5Chain :: "ike_lib \<Rightarrow> IKEv1Session \<Rightarrow> Message \<Rightarrow> ParsedPayload list option" where
  "main5Chain lib s msg =
     (case v1Body msg of
        Inl _ \<Rightarrow> None
      | Inr (enc, first) \<Rightarrow> (case openV1 lib s (CurrentIV s) enc first of Inl _ \<Rightarrow> None | Inr chain \<Rightarrow> Some chain))"

lemma mainMode5Reply_peer [simp]: "s1PeerID (snd (mainMode5Reply lib h s)) = s1PeerID s"
  by (simp add: mainMode5Reply_def Let_def split: sum.split prod.split)

lemma computeV1Hash_initiator:
  assumes "computeV1Hash hmac s True idp = Inr hh"
  shows "\<exists>k. s1Keys s = Some k \<and> hh = prfCompute hmac (s1PRF s) (SKEYID k)
    (s1PeerDHPubKey s @ s1DHPubKey s @ CookieI s @ CookieR s @ bodyIDv1 idp)"
  using assms by (auto simp: computeV1Hash_def Let_def MarshalPayload_def marshalWithHeader_def payloadBody_def bodyIDv1_def PayloadHeaderLen_def split: option.splits if_splits)

lemma HandleMainMode5_established:
  assumes "s1State s \<noteq> StateV1Established" and "s1State (snd (HandleMainMode5 lib h s msg)) = StateV1Established"
  shows "\<exists>chain idp. s1State s = StateV1MainKERecv \<and> main5Chain lib s msg = Some chain \<and> findPayloadAs asIDv1 chain = Some idp \<and>
    (\<exists>hh. computeV1Hash (ilHmac lib) s True idp = Inr hh \<and> findPayloadAs asHashV1 chain = Some hh) \<and>
    s1PeerID (snd (HandleMainMode5 lib h s msg)) = idv1Data idp"
  using assms
  by (simp add: HandleMainMode5_def main5Chain_def Let_def hashEqual_iff split: if_split_asm option.split_asm sum.split_asm prod.split_asm)

text \<open>
  C27. A session is established only by a peer that knows SKEYID, hence the pre-shared key: whatever
  message 5 of Main Mode or message 3 of Aggressive Mode was received, when it made the session
  \<open>Established\<close> it carried, encrypted in Main Mode, the hash HASH_I that the PRF gives under SKEYID for
  the exchanged public values, the cookies and the identity.
\<close>

theorem v1_established_by_hash:
  assumes "s1State s \<noteq> StateV1Established"
  shows "(s1State (snd (HandleMainMode5 lib h s msg)) = StateV1Established \<longrightarrow>
      s1State s = StateV1MainKERecv \<and>
      (\<exists>chain idp k. main5Chain lib s msg = Some chain \<and> findPayloadAs asIDv1 chain = Some idp \<and> s1Keys s = Some k \<and>
         findPayloadAs asHashV1 chain = Some (prfCompute (ilHmac lib) (s1PRF s) (SKEYID k)
           (s1PeerDHPubKey s @ s1DHPubKey s @ CookieI s @ CookieR s @ bodyIDv1 idp)) \<and>
         s1PeerID (snd (HandleMainMode5 lib h s msg)) = idv1Data idp)) \<and>
    (s1State (snd (HandleAggressive3 lib s msg)) = StateV1Established \<longrightarrow>
      s1State s = StateV1AggrRecv \<and>
      (\<exists>k. s1Keys s = Some k \<and>
         findPayloadAs asHashV1 (mPayloads msg) = Some (prfCompute (ilHmac lib) (s1PRF s) (SKEYID k)
           (s1PeerDHPubKey s @ s1DHPubKey s @ CookieI s @ CookieR s @ [IDIPv4Addr, 0, 0, 0] @ s1PeerID s))))"
proof (intro conjI impI)
  assume "s1State (snd (HandleMainMode5 lib h s msg)) = StateV1Established"
  note e = HandleMainMode5_established [OF assms this]
  then show "s1State s = StateV1MainKERecv" by blast
  from e show "\<exists>chain idp k. main5Chain lib s msg = Some chain \<and> findPayloadAs asIDv1 chain = Some idp \<and> s1Keys s = Some k \<and>
      findPayloadAs asHashV1 chain = Some (prfCompute (ilHmac lib) (s1PRF s) (SKEYID k)
        (s1PeerDHPubKey s @ s1DHPubKey s @ CookieI s @ CookieR s @ bodyIDv1 idp)) \<and>
      s1PeerID (snd (HandleMainMode5 lib h s msg)) = idv1Data idp"
    using computeV1Hash_initiator by blast
next
  let ?id = "\<lparr>idv1Type = IDIPv4Addr, idv1Proto = 0, idv1Port = 0, idv1Data = s1PeerID s\<rparr>"
  assume a: "s1State (snd (HandleAggressive3 lib s msg)) = StateV1Established"
  then obtain hh where h: "s1State s = StateV1AggrRecv" "findPayloadAs asHashV1 (mPayloads msg) = Some hh"
    "computeV1Hash (ilHmac lib) s True ?id = Inr hh"
    using assms by (auto simp: HandleAggressive3_def hashEqual_iff split: if_split_asm option.split_asm sum.split_asm)
  then show "s1State s = StateV1AggrRecv" by blast
  have "bodyIDv1 ?id = [1, 0, 0, 0] @ s1PeerID s" by (simp add: bodyIDv1_def PutUint16_def)
  then show "\<exists>k. s1Keys s = Some k \<and>
      findPayloadAs asHashV1 (mPayloads msg) = Some (prfCompute (ilHmac lib) (s1PRF s) (SKEYID k)
        (s1PeerDHPubKey s @ s1DHPubKey s @ CookieI s @ CookieR s @ [IDIPv4Addr, 0, 0, 0] @ s1PeerID s))"
    using computeV1Hash_initiator [OF h(3)] h(2) by auto
qed


theorem v1_established_by_hash_witness:
  "\<exists>(s :: IKEv1Session) msg hh. s1State s = StateV1AggrRecv \<and> s1State (snd (HandleAggressive3 exampleIkeLib s msg)) = StateV1Established \<and>
     findPayloadAs asHashV1 (mPayloads msg) = Some hh"
proof -
  let ?k = "\<lparr>SKEYID = [1], SKEYID_d = [2], SKEYID_a = [3], SKEYID_e = [4]\<rparr>"
  let ?s = "exampleV1Session\<lparr>s1State := StateV1AggrRecv, s1Keys := Some ?k, s1PeerID := [1, 2, 3, 4]\<rparr>"
  let ?id = "\<lparr>idv1Type = IDIPv4Addr, idv1Proto = 0, idv1Port = 0, idv1Data = s1PeerID ?s\<rparr>"
  obtain hh where hh: "computeV1Hash (ilHmac exampleIkeLib) ?s True ?id = Inr hh" by (simp add: computeV1Hash_def Let_def)
  let ?msg = "\<lparr>mHeader = peerHdr (replicate 8 1), mPayloads = [ppOf (PlHashV1 hh)], RawMessage = []\<rparr>"
  have "s1State (snd (HandleAggressive3 exampleIkeLib ?s ?msg)) = StateV1Established"
    using hh by (simp add: HandleAggressive3_def v1_as_defs hashEqual_iff)
  with v1_established_by_hash [of ?s exampleIkeLib exampleV1Handler ?msg] show ?thesis
    by (intro exI [of _ ?s] exI [of _ ?msg]) simp
qed

section \<open>What Quick Mode makes\<close>

text \<open>The message as Quick Mode reads it.\<close>

definition quickChain :: "ike_lib \<Rightarrow> IKEv1Session \<Rightarrow> Message \<Rightarrow> ParsedPayload list option" where
  "quickChain lib s msg =
     (case v1Body msg of
        Inl _ \<Rightarrow> None
      | Inr (enc, first) \<Rightarrow>
          (case openV1 lib s (ComputeV1QuickModeIV (ilDigests lib) (s1HashAlg s) (CurrentIV s) (MessageID (mHeader msg)) (v1BlockSize s)) enc first of
             Inl _ \<Rightarrow> None
           | Inr chain \<Rightarrow> Some chain))"

lemma v1ChildSA_keys:
  assumes "length keymat = (e + i) * 2"
  shows "let c = v1ChildSA mid inS outS e i keymat in
    keymat = v1EncrKey c @ v1IntegKey c @ v1PeerEncrKey c @ v1PeerIntegKey c \<and>
    length (v1EncrKey c) = e \<and> length (v1IntegKey c) = i \<and> length (v1PeerEncrKey c) = e \<and> length (v1PeerIntegKey c) = i"
proof -
  have n: "e + i + e + i = length keymat" using assms by simp
  have "take e keymat @ take i (drop e keymat) @ take e (drop (e + i) keymat) @ take i (drop (e + i + e) keymat) = take (e + i + e + i) keymat"
    by (simp only: take_add append_assoc)
  then show ?thesis
    using n by (simp add: v1ChildSA_def Let_def slice_def drop_take)
qed

lemma quickRespond_Inr:
  assumes "quickRespond lib dr s keys iv mid sa ni = (Inr resp, s')" and "hmac_ok (ilHmac lib)"
  shows "\<exists>nr spi outSPI e i keymat. GenerateNonce (d1Nonce dr) 32 = Inr nr \<and> d1SPI dr = Some spi \<and> sav1Proposals sa \<noteq> [] \<and>
    extractV1ChildKeyLens (pv1Transforms (hd (sav1Proposals sa))) = (e, i) \<and>
    outSPI = (if length (pv1SPI (hd (sav1Proposals sa))) \<ge> 4 then take 4 (pv1SPI (hd (sav1Proposals sa))) else replicate 4 0) \<and>
    DeriveIKEv1QuickModeKeys (ilHmac lib) (s1PRF s) (SKEYID_d keys) ProtocolESP outSPI ni nr [] ((e + i) * 2) = Some keymat \<and>
    s' = s\<lparr>s1ChildSAs := s1ChildSAs s @ [v1ChildSA mid spi outSPI e i keymat]\<rparr>"
    (is "\<exists>nr spi outSPI e i keymat. ?P nr spi outSPI e i keymat")
proof -
  obtain nr spi p0 ps where a: "GenerateNonce (d1Nonce dr) 32 = Inr nr" "d1SPI dr = Some spi" "sav1Proposals sa = p0 # ps"
    using assms(1) by (auto simp: quickRespond_def split: option.split_asm sum.split_asm list.split_asm)
  define outSPI where "outSPI = (if length (pv1SPI p0) \<ge> 4 then take 4 (pv1SPI p0) else replicate 4 0)"
  obtain e i where l: "extractV1ChildKeyLens (pv1Transforms p0) = (e, i)" by fastforce
  obtain keymat where k: "DeriveIKEv1QuickModeKeys (ilHmac lib) (s1PRF s) (SKEYID_d keys) ProtocolESP outSPI ni nr [] ((e + i) * 2) = Some keymat"
    using quick_mode_keymat [OF assms(2)] by blast
  have "s' = s\<lparr>s1ChildSAs := s1ChildSAs s @ [v1ChildSA mid spi outSPI e i keymat]\<rparr>"
    using assms(1) a l k by (simp add: quickRespond_def Let_def outSPI_def [symmetric] split: sum.split_asm prod.split_asm)
  then have "?P nr spi outSPI e i keymat" using a l k by (simp add: outSPI_def)
  then show ?thesis by blast
qed

lemma HandleQuickMode1_Inr:
  assumes "HandleQuickMode1 lib dr s msg = (Inr resp, s')"
  shows "\<exists>chain sa ni k iv. s1State s = StateV1Established \<and> quickChain lib s msg = Some chain \<and> findPayloadAs asSAv1 chain = Some sa \<and>
    findPayloadAs asNonceV1 chain = Some ni \<and> s1Keys s = Some k \<and>
    findPayloadAs asHashV1 chain = Some (quickHash1 (ilHmac lib) s (SKEYID_a k) (MessageID (mHeader msg)) sa ni) \<and>
    quickRespond lib dr s k iv (MessageID (mHeader msg)) sa ni = (Inr resp, s')"
  using assms
  by (auto simp: HandleQuickMode1_def quickChain_def Let_def hashEqual_iff split: if_split_asm option.split_asm sum.split_asm prod.split_asm)

text \<open>
  Quick Mode. An accepted request was encrypted for an established session and carried the HASH(1)
  that the PRF gives under SKEYID_a; it adds exactly one child SA and changes nothing else. The
  four keys of the child, one behind the other, are the key material derived from SKEYID_d, the SPI of
  the peer's first proposal and both nonces, and their lengths are those of the first transform.
\<close>

theorem quick_mode_child:
  assumes "HandleQuickMode1 lib dr s msg = (Inr resp, s')" and "hmac_ok (ilHmac lib)"
  shows "\<exists>chain sa ni k nr c. s1State s = StateV1Established \<and> quickChain lib s msg = Some chain \<and>
    findPayloadAs asSAv1 chain = Some sa \<and> findPayloadAs asNonceV1 chain = Some ni \<and> s1Keys s = Some k \<and>
    findPayloadAs asHashV1 chain = Some (quickHash1 (ilHmac lib) s (SKEYID_a k) (MessageID (mHeader msg)) sa ni) \<and>
    s' = s\<lparr>s1ChildSAs := s1ChildSAs s @ [c]\<rparr> \<and> v1MsgID c = MessageID (mHeader msg) \<and> d1SPI dr = Some (v1InSPI c) \<and>
    (length (pv1SPI (hd (sav1Proposals sa))) \<ge> 4 \<longrightarrow> v1OutSPI c = take 4 (pv1SPI (hd (sav1Proposals sa)))) \<and>
    extractV1ChildKeyLens (pv1Transforms (hd (sav1Proposals sa))) = (length (v1EncrKey c), length (v1IntegKey c)) \<and>
    length (v1PeerEncrKey c) = length (v1EncrKey c) \<and> length (v1PeerIntegKey c) = length (v1IntegKey c) \<and>
    GenerateNonce (d1Nonce dr) 32 = Inr nr \<and>
    DeriveIKEv1QuickModeKeys (ilHmac lib) (s1PRF s) (SKEYID_d k) ProtocolESP (v1OutSPI c) ni nr []
      ((length (v1EncrKey c) + length (v1IntegKey c)) * 2) =
      Some (v1EncrKey c @ v1IntegKey c @ v1PeerEncrKey c @ v1PeerIntegKey c)"
proof -
  obtain chain sa ni k iv where h: "s1State s = StateV1Established" "quickChain lib s msg = Some chain" "findPayloadAs asSAv1 chain = Some sa"
    "findPayloadAs asNonceV1 chain = Some ni" "s1Keys s = Some k"
    "findPayloadAs asHashV1 chain = Some (quickHash1 (ilHmac lib) s (SKEYID_a k) (MessageID (mHeader msg)) sa ni)"
    "quickRespond lib dr s k iv (MessageID (mHeader msg)) sa ni = (Inr resp, s')"
    using HandleQuickMode1_Inr [OF assms(1)] by blast
  obtain nr spi outSPI e i keymat where q: "GenerateNonce (d1Nonce dr) 32 = Inr nr" "d1SPI dr = Some spi"
    "extractV1ChildKeyLens (pv1Transforms (hd (sav1Proposals sa))) = (e, i)"
    "outSPI = (if length (pv1SPI (hd (sav1Proposals sa))) \<ge> 4 then take 4 (pv1SPI (hd (sav1Proposals sa))) else replicate 4 0)"
    "DeriveIKEv1QuickModeKeys (ilHmac lib) (s1PRF s) (SKEYID_d k) ProtocolESP outSPI ni nr [] ((e + i) * 2) = Some keymat"
    "s' = s\<lparr>s1ChildSAs := s1ChildSAs s @ [v1ChildSA (MessageID (mHeader msg)) spi outSPI e i keymat]\<rparr>"
    using quickRespond_Inr [OF h(7) assms(2)] by blast
  let ?c = "v1ChildSA (MessageID (mHeader msg)) spi outSPI e i keymat"
  have "length keymat = (e + i) * 2" using q(5) quick_mode_keymat [OF assms(2)] by (metis option.inject)
  note c = v1ChildSA_keys [OF this, of "MessageID (mHeader msg)" spi outSPI, unfolded Let_def]
  have f: "v1MsgID ?c = MessageID (mHeader msg)" "v1InSPI ?c = spi" "v1OutSPI ?c = outSPI" by (simp_all add: v1ChildSA_def)
  show ?thesis
    by (rule exI [of _ chain], rule exI [of _ sa], rule exI [of _ ni], rule exI [of _ k], rule exI [of _ nr], rule exI [of _ ?c])
      (use h q c f in auto)
qed

lemma children_cong [simp]:
  "openV1 lib (s\<lparr>s1ChildSAs := c\<rparr>) = openV1 lib s" "sealV1 lib (s\<lparr>s1ChildSAs := c\<rparr>) = sealV1 lib s"
  "v1BlockSize (s\<lparr>s1ChildSAs := c\<rparr>) = v1BlockSize s" "v1Header (s\<lparr>s1ChildSAs := c\<rparr>) = v1Header s"
  "quickHash1 hmac (s\<lparr>s1ChildSAs := c\<rparr>) = quickHash1 hmac s" "quickHash2 hmac (s\<lparr>s1ChildSAs := c\<rparr>) = quickHash2 hmac s"
  by (simp_all add: fun_eq_iff openV1_def sealV1_def v1BlockSize_def v1Header_def quickHash1_def quickHash2_def)

lemma quickRespond_cong: "fst (quickRespond lib dr (s\<lparr>s1ChildSAs := c\<rparr>) k iv mid sa ni) = fst (quickRespond lib dr s k iv mid sa ni)"
  by (simp add: quickRespond_def Let_def split: option.split sum.split prod.split list.split)

lemma HandleQuickMode1_cong: "fst (HandleQuickMode1 lib dr (s\<lparr>s1ChildSAs := c\<rparr>) msg) = fst (HandleQuickMode1 lib dr s msg)"
  by (simp add: HandleQuickMode1_def quickRespond_cong Let_def split: option.split sum.split prod.split)

lemma HandleQuickMode1_adds:
  assumes "HandleQuickMode1 lib dr s msg = (Inr resp, s')"
  shows "\<exists>c. s' = s\<lparr>s1ChildSAs := s1ChildSAs s @ [c]\<rparr>"
proof -
  obtain k iv sa ni where "quickRespond lib dr s k iv (MessageID (mHeader msg)) sa ni = (Inr resp, s')"
    using HandleQuickMode1_Inr [OF assms] by blast
  then show ?thesis
    by (auto simp: quickRespond_def Let_def split: option.split_asm sum.split_asm prod.split_asm list.split_asm)
qed

text \<open>
  Quick Mode has no replay protection. A request that was accepted is accepted as often as it is
  sent again: with the same random draws the answer is even the same message, and each time the
  session gains one more child SA.
\<close>

theorem quick_mode_replay:
  assumes "HandleQuickMode1 lib dr s msg = (Inr resp, s')"
  shows "\<exists>s''. HandleQuickMode1 lib dr s' msg = (Inr resp, s'') \<and> length (s1ChildSAs s'') = length (s1ChildSAs s) + 2"
proof -
  obtain c where c: "s' = s\<lparr>s1ChildSAs := s1ChildSAs s @ [c]\<rparr>" using HandleQuickMode1_adds [OF assms] by blast
  obtain r s'' where r: "HandleQuickMode1 lib dr s' msg = (r, s'')" by fastforce
  have "r = Inr resp" using HandleQuickMode1_cong [of lib dr "s1ChildSAs s @ [c]" s msg] assms r c by simp
  with r have r2: "HandleQuickMode1 lib dr s' msg = (Inr resp, s'')" by simp
  from HandleQuickMode1_adds [OF r2] c have "length (s1ChildSAs s'') = length (s1ChildSAs s) + 2" by auto
  with r2 show ?thesis by blast
qed


section \<open>Examples\<close>

definition exampleQuickSA :: "bytes \<Rightarrow> SAv1Payload" where
  "exampleQuickSA spi =
     \<lparr>sav1DOI = DOIIPsec, sav1Situation = SituationIdentityOnly, sav1Proposals =
       [\<lparr>pv1Number = 1, pv1ProtocolID = ProtocolESP, pv1SPI = spi, pv1Transforms =
         [\<lparr>tv1Number = 1, tv1TransformID = 12, tv1Attributes =
            [\<lparr>attrType = 6, IsTV = True, attrValue = [1, 0]\<rparr>, \<lparr>attrType = 5, IsTV = True, attrValue = [0, 5]\<rparr>]\<rparr>]\<rparr>]\<rparr>"

definition exampleQuickSession :: IKEv1Session where
  "exampleQuickSession = exampleV1Session
     \<lparr>s1State := StateV1Established, s1Keys := Some \<lparr>SKEYID = [1], SKEYID_d = [2], SKEYID_a = [3], SKEYID_e = [4]\<rparr>,
      s1Encryptor := Some (AesCBC 12 16), CurrentIV := replicate 16 0\<rparr>"

lemma example_quick_ok: "payload_ok False (PlSAv1 (exampleQuickSA [0, 0, 0, 9]))" "payload_ok False (PlSAv1 (exampleQuickSA [0, 0, 1, 1]))"
  by (simp_all add: payload_ok_def payloadBody_def exampleQuickSA_def sav1_wf_def pv1_wf_def tv1_wf_def attr_wf_def
      marshalTransformV1_def marshalProposalV1_def bodySAv1_def MarshalAttribute_def)

lemma example_quick_mode:
  "\<exists>msg resp s'. MessageID (mHeader msg) = 77 \<and> HandleQuickMode1 exampleIkeLib exampleV1Draws exampleQuickSession msg = (Inr resp, s')"
proof -
  let ?lib = exampleIkeLib and ?s = exampleQuickSession and ?sa = "exampleQuickSA [0, 0, 0, 9]" and ?rsa = "exampleQuickSA [0, 0, 1, 1]"
  let ?k = "\<lparr>SKEYID = [1], SKEYID_d = [2], SKEYID_a = [3], SKEYID_e = [4]\<rparr>"
  have f: "s1Encryptor ?s = Some (AesCBC 12 16)" "s1Keys ?s = Some ?k" "s1State ?s = StateV1Established"
    "s1HashAlg ?s = 4" "length (CurrentIV ?s) = 16" "CookieI ?s = replicate 8 1" "CookieR ?s = replicate 8 5"
    by (simp_all add: exampleQuickSession_def exampleV1Session_facts)
  have l: "length (CookieI ?s) = 8" "length (CookieR ?s) = 8" using f by simp_all
  have hm: "hmac_ok (ilHmac ?lib)" by (simp add: exampleIkeLib_def)
  have c: "cipherOk (ilCrypto ?lib) (AesCBC 12 16) (SKEYID_e ?k)" by (simp add: cipherOk_def exampleIkeLib_def example_lib_def)
  have bs: "v1BlockSize ?s = 16" using f(1) by (simp add: v1BlockSize_def encBlockSize_def aesBlockSize_def)
  define iv where "iv = ComputeV1QuickModeIV (ilDigests ?lib) (s1HashAlg ?s) (CurrentIV ?s) 77 (v1BlockSize ?s)"
  have iv: "length iv = 16" by (simp add: iv_def bs f(4,5) ComputeV1QuickModeIV_def exampleIkeLib_def)
  have small: "payload_ok False (PlHashV1 hh)" if "length hh \<le> 64" for hh using that by (simp add: payload_ok_def payloadBody_def)
  have prf64: "length (prfCompute (ilHmac ?lib) a b d) \<le> 64" for a b d
    using hm by (simp add: length_prfCompute hashSize_def split: hash_alg.split)
  define hh where "hh = quickHash1 (ilHmac ?lib) ?s (SKEYID_a ?k) 77 ?sa [6, 6]"
  have "\<forall>p\<in>set [PlHashV1 hh, PlSAv1 ?sa, PlNonceV1 [6, 6]]. payload_ok False p"
    using small [of hh] prf64 example_quick_ok by (simp add: hh_def quickHash1_def) (simp add: payload_ok_def payloadBody_def)
  from sealV1_openV1 [OF f(1,2) c iv this] obtain enc where e:
    "openV1 ?lib ?s iv enc (headType [PlHashV1 hh, PlSAv1 ?sa, PlNonceV1 [6, 6]]) = Inr (chainOf [PlHashV1 hh, PlSAv1 ?sa, PlNonceV1 [6, 6]])"
    "16 \<le> length enc" by blast
  let ?msg = "v1Request ?s ExchangeQuickMode 77 (headType [PlHashV1 hh, PlSAv1 ?sa, PlNonceV1 [6, 6]]) enc"
  have mid: "MessageID (mHeader ?msg) = 77" by (simp add: v1Request_def Let_def v1Header_def SetIKEv1_def)
  have n: "GenerateNonce (d1Nonce exampleV1Draws) 32 = Inr (replicate 32 7)" "d1SPI exampleV1Draws = Some [0, 0, 1, 1]"
    by (simp_all add: GenerateNonce_def exampleV1Draws_def)
  define h2 where "h2 = quickHash2 (ilHmac ?lib) ?s (SKEYID_a ?k) 77 [6, 6] ?rsa (replicate 32 7)"
  then have h2: "quickHash2 (ilHmac ?lib) ?s [3] 77 [6, 6] ?rsa (replicate 32 7) = h2" by simp
  have "\<forall>p\<in>set [PlHashV1 h2, PlSAv1 ?rsa, PlNonceV1 (replicate 32 7)]. payload_ok False p"
    using small [of h2] prf64 example_quick_ok by (simp add: h2_def quickHash2_def) (simp add: payload_ok_def payloadBody_def)
  from sealV1_openV1 [OF f(1,2) c nextIV_length [OF e(2), of iv] this] obtain enc2 where e2:
    "sealV1 ?lib ?s (nextIV 16 iv enc) [PlHashV1 h2, PlSAv1 ?rsa, PlNonceV1 (replicate 32 7)] = Inr (enc2, headType [PlHashV1 h2, PlSAv1 ?rsa, PlNonceV1 (replicate 32 7)])"
    by blast
  obtain xs where p: "sav1Proposals ?sa = [\<lparr>pv1Number = 1, pv1ProtocolID = ProtocolESP, pv1SPI = [0, 0, 0, 9], pv1Transforms = xs\<rparr>]"
    "?rsa = \<lparr>sav1DOI = DOIIPsec, sav1Situation = SituationIdentityOnly, sav1Proposals =
       [\<lparr>pv1Number = 1, pv1ProtocolID = ProtocolESP, pv1SPI = [0, 0, 1, 1], pv1Transforms = xs\<rparr>]\<rparr>"
    by (simp add: exampleQuickSA_def)
  obtain a b where ab: "extractV1ChildKeyLens xs = (a, b)" by fastforce
  obtain km where km: "DeriveIKEv1QuickModeKeys (ilHmac ?lib) (s1PRF ?s) (SKEYID_d ?k) ProtocolESP [0, 0, 0, 9] [6, 6] (replicate 32 7) [] ((a + b) * 2) = Some km"
    using quick_mode_keymat [OF hm] by blast
  have "\<exists>resp s'. quickRespond ?lib exampleV1Draws ?s ?k (nextIV 16 iv enc) 77 ?sa [6, 6] = (Inr resp, s')"
    unfolding quickRespond_def n sum.case option.case p(1) list.case
    using e2 ab km v1EncryptedMessage_eq v1Header_wf [OF l] by (simp add: p(2) [symmetric] h2 Let_def)
  moreover have "HandleQuickMode1 ?lib exampleV1Draws ?s ?msg = quickRespond ?lib exampleV1Draws ?s ?k (nextIV 16 iv enc) 77 ?sa [6, 6]"
    unfolding HandleQuickMode1_def mid v1Body_request [OF l] Let_def iv_def [symmetric]
    using e(1) f bs by (simp add: v1_as_defs payloadNorm_def hashEqual_iff hh_def)
  ultimately show ?thesis using mid by metis
qed

theorem quick_mode_child_witness:
  "\<exists>msg resp s' c. HandleQuickMode1 exampleIkeLib exampleV1Draws exampleQuickSession msg = (Inr resp, s') \<and>
     s' = exampleQuickSession\<lparr>s1ChildSAs := [c]\<rparr> \<and> v1MsgID c = 77"
proof -
  obtain msg resp s' where m: "MessageID (mHeader msg) = 77"
    "HandleQuickMode1 exampleIkeLib exampleV1Draws exampleQuickSession msg = (Inr resp, s')" using example_quick_mode by blast
  have "hmac_ok (ilHmac exampleIkeLib)" "s1ChildSAs exampleQuickSession = []"
    by (simp_all add: exampleIkeLib_def exampleQuickSession_def exampleV1Session_facts)
  with quick_mode_child [OF m(2)] m show ?thesis by fastforce
qed

theorem quick_mode_replay_witness:
  "\<exists>msg resp s' s''. HandleQuickMode1 exampleIkeLib exampleV1Draws exampleQuickSession msg = (Inr resp, s') \<and>
     HandleQuickMode1 exampleIkeLib exampleV1Draws s' msg = (Inr resp, s'') \<and> length (s1ChildSAs s'') = 2"
proof -
  obtain msg resp s' where m: "HandleQuickMode1 exampleIkeLib exampleV1Draws exampleQuickSession msg = (Inr resp, s')"
    using example_quick_mode by blast
  have "length (s1ChildSAs exampleQuickSession) = 0" by (simp add: exampleQuickSession_def exampleV1Session_facts)
  with quick_mode_replay [OF m] obtain s'' where "HandleQuickMode1 exampleIkeLib exampleV1Draws s' msg = (Inr resp, s'')"
    "length (s1ChildSAs s'') = 2" by auto
  with m show ?thesis by blast
qed

end
