(* ===== verification/IkeV2Eap.thy ===== *)
theory IkeV2Eap
  imports IkeV2Auth
begin

text \<open>
  EAP inside IKE_AUTH (\<^verbatim>\<open>internal/ike/ikev2_eap_auth.go\<close>, \<^verbatim>\<open>eap_tls.go\<close>): the identity exchange,
  MS-CHAPv2, EAP-TLS over an in-memory transport, and the final AUTH exchange. The TLS
  implementation of Go is the record \<open>tls_lib\<close>: the state of a connection is a number, and one call
  of \<^verbatim>\<open>Handshake\<close> reads from and writes to the transport and changes it. The theory ends with a
  step relation over the requests of a session and the invariant of its reachable states.
\<close>

section \<open>The in-memory transport\<close>

definition newEAPTLSTransport :: eapTLSTransport where
  "newEAPTLSTransport = \<lparr>readBuf = [], writeBuf = [], closed = False\<rparr>"

text \<open>\<^verbatim>\<open>Read\<close> into a buffer of \<open>n\<close> bytes; \<^const>\<open>None\<close> is \<^verbatim>\<open>io.EOF\<close>.\<close>

definition tlsRead :: "nat \<Rightarrow> eapTLSTransport \<Rightarrow> bytes option \<times> eapTLSTransport" where
  "tlsRead n t =
     (if closed t \<or> length (readBuf t) = 0 then (None, t)
      else (Some (take n (readBuf t)), t\<lparr>readBuf := drop n (readBuf t)\<rparr>))"

text \<open>\<^verbatim>\<open>Write\<close> returns the number of bytes written, or \<^verbatim>\<open>io.ErrClosedPipe\<close>.\<close>

definition tlsWrite :: "bytes \<Rightarrow> eapTLSTransport \<Rightarrow> nat option \<times> eapTLSTransport" where
  "tlsWrite b t = (if closed t then (None, t) else (Some (length b), t\<lparr>writeBuf := writeBuf t @ b\<rparr>))"

definition tlsClose :: "eapTLSTransport \<Rightarrow> eapTLSTransport" where
  "tlsClose t = t\<lparr>closed := True\<rparr>"

definition feedData :: "bytes \<Rightarrow> eapTLSTransport \<Rightarrow> eapTLSTransport" where
  "feedData d t = t\<lparr>readBuf := readBuf t @ d\<rparr>"

definition takeData :: "eapTLSTransport \<Rightarrow> bytes \<times> eapTLSTransport" where
  "takeData t = (writeBuf t, t\<lparr>writeBuf := []\<rparr>)"

datatype tls_outcome = TlsOk | TlsNeedsMore | TlsFatal

record tls_lib =
  tlsServer :: "bytes \<Rightarrow> bytes \<Rightarrow> nat"
  tlsHandshake :: "nat \<Rightarrow> eapTLSTransport \<Rightarrow> tls_outcome \<times> eapTLSTransport \<times> nat"
  tlsPeerNames :: "nat \<Rightarrow> bytes list"
  tlsExport :: "nat \<Rightarrow> bytes option"

section \<open>Answers\<close>

definition sendEAPPayload :: "ike_lib \<Rightarrow> v2_draws \<Rightarrow> IKEv2Session \<Rightarrow> bytes \<Rightarrow> u32 \<Rightarrow> v2_error + Message" where
  "sendEAPPayload lib dr sess data msgID = buildEncryptedResponse lib (drIV dr) sess ExchangeIKEAuth msgID [PlEAP data]"

text \<open>The answers that count the identifier up first.\<close>

definition answerEAP :: "ike_lib \<Rightarrow> v2_draws \<Rightarrow> IKEv2Session \<Rightarrow> (byte \<Rightarrow> bytes) \<Rightarrow> u32 \<Rightarrow> v2_result" where
  "answerEAP lib dr sess packet msgID =
     (let sess1 = sess\<lparr>EAPIdentifier := EAPIdentifier sess + 1\<rparr>
      in (sendEAPPayload lib dr sess1 (packet (EAPIdentifier sess1)) msgID, sess1))"

definition sendEAPFailure :: "ike_lib \<Rightarrow> v2_draws \<Rightarrow> IKEv2Session \<Rightarrow> u32 \<Rightarrow> v2_result" where
  "sendEAPFailure lib dr sess msgID = answerEAP lib dr sess BuildEAPFailure msgID"

section \<open>EAP-TLS\<close>

abbreviation (input) eapTLSFlagLength :: byte where "eapTLSFlagLength \<equiv> 0x80"
abbreviation (input) eapTLSFlagMore :: byte where "eapTLSFlagMore \<equiv> 0x40"
abbreviation (input) eapTLSFlagStart :: byte where "eapTLSFlagStart \<equiv> 0x20"

definition eapTLSMaxFragment :: nat where
  "eapTLSMaxFragment = 1024"

definition eapTLSRequest :: "bytes \<Rightarrow> byte \<Rightarrow> bytes" where
  "eapTLSRequest data i = MarshalEAP \<lparr>eapCode = EAPCodeRequest, eapIdentifier = i, eapType = EAPTypeTLS, eapData = data\<rparr>"

definition sendEAPTLSFragments :: "ike_lib \<Rightarrow> v2_draws \<Rightarrow> IKEv2Session \<Rightarrow> bytes \<Rightarrow> u32 \<Rightarrow> bool \<Rightarrow> v2_result" where
  "sendEAPTLSFragments lib dr sess tlsData msgID isLast =
     answerEAP lib dr sess (eapTLSRequest
       (if length tlsData \<le> eapTLSMaxFragment then (if isLast then 0 else eapTLSFlagLength) # tlsData
        else (eapTLSFlagLength OR eapTLSFlagMore OR eapTLSFlagStart) # PutUint32 (of_nat (length tlsData)) @
             take eapTLSMaxFragment tlsData)) msgID"

text \<open>\<^verbatim>\<open>initEAPTLS\<close>: the certificate provider gives the certificate, or an error, and the CA pool.\<close>

definition initEAPTLS :: "tls_lib \<Rightarrow> (bytes option \<times> bytes) option \<Rightarrow> IKEv2Session \<Rightarrow> bool \<times> IKEv2Session" where
  "initEAPTLS tls certProvider sess =
     (case certProvider of
        None \<Rightarrow> (False, sess)
      | Some (None, _) \<Rightarrow> (False, sess)
      | Some (Some cert, caPool) \<Rightarrow>
          (True, sess\<lparr>eapState := EapTLS \<lparr>transport = newEAPTLSTransport, tlsConn = tlsServer tls cert caPool, rxBuf = [],
             rxPending = False, handshakeDone = False, handshakeErr = False, peerIdentity = []\<rparr>, EAPMethod := EAPTypeTLS\<rparr>))"

text \<open>
  The handshake (lines 176 to 223): the new state and session, and whether a fatal error ended
  it.
\<close>

definition driveHandshake :: "tls_lib \<Rightarrow> EAPTLSState \<Rightarrow> IKEv2Session \<Rightarrow> bool \<times> EAPTLSState \<times> IKEv2Session" where
  "driveHandshake tls st sess =
     (if handshakeDone st then (False, st, sess)
      else
      (case tlsHandshake tls (tlsConn st) (transport st) of
         (outcome, tr, conn) \<Rightarrow>
           (let st1 = st\<lparr>transport := tr, tlsConn := conn\<rparr> in
            case outcome of
              TlsNeedsMore \<Rightarrow> (False, st1, sess)
            | TlsFatal \<Rightarrow> (True, st1\<lparr>handshakeErr := True\<rparr>, sess)
            | TlsOk \<Rightarrow>
                (let st2 = st1\<lparr>handshakeDone := True,
                       peerIdentity := (case tlsPeerNames tls conn of [] \<Rightarrow> peerIdentity st1 | n # _ \<Rightarrow> n)\<rparr>;
                     msk = (case tlsExport tls conn of Some k \<Rightarrow> k | None \<Rightarrow> replicate 64 0)
                 in (False, st2, sess\<lparr>EAPMSK := Some msk\<rparr>)))))"

definition handleEAPTLS ::
  "ike_lib \<Rightarrow> tls_lib \<Rightarrow> v2_draws \<Rightarrow> IKEv2Session \<Rightarrow> EAPPacket \<Rightarrow> u32 \<Rightarrow> v2_result" where
  "handleEAPTLS lib tls dr sess pkt msgID =
     (case eapState sess of
        EapTLS st \<Rightarrow>
          (let data = eapData pkt in
           if length data < 1 then sendEAPFailure lib dr sess msgID
           else
           (let flags = data ! 0; offset = (if flags AND eapTLSFlagLength \<noteq> 0 then 5 else 1) in
            if offset = 5 \<and> length data < 5 then sendEAPFailure lib dr sess msgID
            else
            (let st1 = st\<lparr>rxBuf := rxBuf st @ drop offset data\<rparr> in
             if flags AND eapTLSFlagMore \<noteq> 0 then
               answerEAP lib dr (sess\<lparr>eapState := EapTLS (st1\<lparr>rxPending := True\<rparr>)\<rparr>) (eapTLSRequest [0]) msgID
             else
             (let tlsData = rxBuf st1;
                  st2 = st1\<lparr>rxPending := False, rxBuf := [],
                    transport := (if length tlsData > 0 then feedData tlsData (transport st1) else transport st1)\<rparr>
              in
              case driveHandshake tls st2 sess of
                (True, st3, sess1) \<Rightarrow> sendEAPFailure lib dr (sess1\<lparr>eapState := EapTLS st3\<rparr>) msgID
              | (False, st3, sess1) \<Rightarrow>
                  (let (outData, tr) = takeData (transport st3);
                       sess2 = sess1\<lparr>eapState := EapTLS (st3\<lparr>transport := tr\<rparr>)\<rparr>
                   in
                   if length outData = 0 \<and> handshakeDone st3 then
                     answerEAP lib dr (sess2\<lparr>s2State := StateV2EAPDone\<rparr>) BuildEAPSuccess msgID
                   else sendEAPTLSFragments lib dr sess2 outData msgID (handshakeDone st3))))))
      | _ \<Rightarrow> (Inl V2EapState, sess))"

section \<open>Identity and MS-CHAPv2\<close>

text \<open>A nil \<^verbatim>\<open>getEAPCredentials\<close> panics when it is called.\<close>

definition handleEAPIdentity :: "ike_lib \<Rightarrow> IKEv2Handler \<Rightarrow> v2_draws \<Rightarrow> IKEv2Session \<Rightarrow> EAPPacket \<Rightarrow> u32 \<Rightarrow> v2_result" where
  "handleEAPIdentity lib h dr sess pkt msgID =
     (case ParseEAPIdentityResponse pkt of
        Inl e \<Rightarrow> (Inl (V2Eap e), sess)
      | Inr identity \<Rightarrow>
          (case getEAPCredentials h of
             None \<Rightarrow> (Inl V2Panic, sess)
           | Some creds \<Rightarrow>
               if creds identity = None then sendEAPFailure lib dr sess msgID
               else
               (let sess1 = sess\<lparr>EAPMethod := EAPTypeMSCHAPv2\<rparr> in
                case GenerateMSCHAPv2Challenge (drChallenge dr) of
                  Inl e \<Rightarrow> (Inl (V2Crypto e), sess1)
                | Inr challenge \<Rightarrow>
                    answerEAP lib dr
                      (sess1\<lparr>eapState := EapMSCHAP \<lparr>ServerChallenge = challenge, ServerName = strBytes ''swan-ng'', PeerChallenge = None,
                         NTResponse = None, msUsername = identity, AuthResp = []\<rparr>\<rparr>)
                      (\<lambda>i. BuildMSCHAPv2Challenge i i challenge (strBytes ''swan-ng'')) msgID)))"

definition handleMSCHAPv2Response ::
  "ike_lib \<Rightarrow> IKEv2Handler \<Rightarrow> v2_draws \<Rightarrow> IKEv2Session \<Rightarrow> MSCHAPv2State \<Rightarrow> EAPPacket \<Rightarrow> u32 \<Rightarrow> v2_result" where
  "handleMSCHAPv2Response lib h dr sess st pkt msgID =
     (case getEAPCredentials h of
        None \<Rightarrow> (Inl V2Panic, sess)
      | Some creds \<Rightarrow>
          (case creds (msUsername st) of
             None \<Rightarrow> sendEAPFailure lib dr sess msgID
           | Some password \<Rightarrow>
               (case VerifyMSCHAPv2Response (ilDigests lib) (eapData pkt) (ServerChallenge st) (msUsername st) password of
                  None \<Rightarrow> answerEAP lib dr sess (\<lambda>i. BuildMSCHAPv2Failure i i (strBytes ''E=691 R=0 V=3'')) msgID
                | Some authResp \<Rightarrow>
                    (let st1 = st\<lparr>AuthResp := authResp\<rparr>;
                         st2 = (if length (eapData pkt) \<ge> 5 + 49 then
                                  (let responseValue = slice 5 (5 + 49) (eapData pkt)
                                   in st1\<lparr>PeerChallenge := Some (slice 0 16 responseValue), NTResponse := Some (slice 24 48 responseValue)\<rparr>)
                                else st1)
                     in answerEAP lib dr (sess\<lparr>eapState := EapMSCHAP st2\<rparr>) (\<lambda>i. BuildMSCHAPv2Success i i authResp) msgID))))"

definition handleMSCHAPv2SuccessAck ::
  "ike_lib \<Rightarrow> IKEv2Handler \<Rightarrow> v2_draws \<Rightarrow> IKEv2Session \<Rightarrow> MSCHAPv2State \<Rightarrow> u32 \<Rightarrow> v2_result" where
  "handleMSCHAPv2SuccessAck lib h dr sess st msgID =
     (case getEAPCredentials h of
        None \<Rightarrow> (Inl V2Panic, sess)
      | Some creds \<Rightarrow>
          (case creds (msUsername st) of
             None \<Rightarrow> sendEAPFailure lib dr sess msgID
           | Some password \<Rightarrow>
               (let sess1 = (case NTResponse st of
                               None \<Rightarrow> sess
                             | Some nt \<Rightarrow> sess\<lparr>EAPMSK := Some (GetMSCHAPv2MSK (ilDigests lib) password nt)\<rparr>)
                in answerEAP lib dr (sess1\<lparr>s2State := StateV2EAPDone\<rparr>) BuildEAPSuccess msgID)))"

definition handleEAPMSCHAPv2 :: "ike_lib \<Rightarrow> IKEv2Handler \<Rightarrow> v2_draws \<Rightarrow> IKEv2Session \<Rightarrow> EAPPacket \<Rightarrow> u32 \<Rightarrow> v2_result" where
  "handleEAPMSCHAPv2 lib h dr sess pkt msgID =
     (case eapState sess of
        EapMSCHAP st \<Rightarrow>
          if length (eapData pkt) < 1 then sendEAPFailure lib dr sess msgID
          else if eapData pkt ! 0 = MSCHAPv2OpResponse then handleMSCHAPv2Response lib h dr sess st pkt msgID
          else if eapData pkt ! 0 = MSCHAPv2OpSuccess then handleMSCHAPv2SuccessAck lib h dr sess st msgID
          else sendEAPFailure lib dr sess msgID
      | _ \<Rightarrow> (Inl V2EapState, sess))"

definition processEAPResponse ::
  "ike_lib \<Rightarrow> tls_lib \<Rightarrow> IKEv2Handler \<Rightarrow> v2_draws \<Rightarrow> IKEv2Session \<Rightarrow> EAPPacket \<Rightarrow> u32 \<Rightarrow> v2_result" where
  "processEAPResponse lib tls h dr sess pkt msgID =
     (if eapCode pkt \<noteq> EAPCodeResponse then (Inl (V2EapCode (eapCode pkt)), sess)
      else if eapType pkt = EAPTypeIdentity then handleEAPIdentity lib h dr sess pkt msgID
      else if eapType pkt = EAPTypeMSCHAPv2 then handleEAPMSCHAPv2 lib h dr sess pkt msgID
      else if eapType pkt = EAPTypeTLS then handleEAPTLS lib tls dr sess pkt msgID
      else sendEAPFailure lib dr sess msgID)"

section \<open>The final exchange\<close>

definition handleFinalEAPAuth ::
  "ike_lib \<Rightarrow> IKEv2Handler \<Rightarrow> v2_draws \<Rightarrow> IKEv2Session \<Rightarrow> ParsedPayload list \<Rightarrow> u32 \<Rightarrow> ip_assignment \<Rightarrow> ip list \<Rightarrow> v2_result" where
  "handleFinalEAPAuth lib h dr sess innerChain msgID assignIP dnsServers =
     (case findPayloadAs asAUTH innerChain of
        None \<Rightarrow> (Inl (V2Missing PayloadAUTH), sess)
      | Some auth \<Rightarrow>
          (let sess1 = (case EAPMSK sess of None \<Rightarrow> sess | Some msk \<Rightarrow> sess\<lparr>PSK := msk\<rparr>);
               idp = \<lparr>idIsInitiator = True, IDType = PeerIDType sess1, idData = PeerID sess1\<rparr>
           in
           case verifyAuth lib sess1 auth idp of
             Some _ \<Rightarrow> (buildAuthError lib (drIV dr) sess1 NotifyAuthenticationFailed, sess1)
           | None \<Rightarrow>
               (case finishAuth lib h dr sess1 msgID (pendingAuthSA sess1) (pendingAuthTSi sess1) (pendingAuthTSr sess1)
                       (pendingAuthCP sess1) assignIP dnsServers of
                  (r, sess2) \<Rightarrow>
                    (r, if s2State sess2 = StateV2Established
                        then sess2\<lparr>pendingAuthSA := None, pendingAuthTSi := None, pendingAuthTSr := None, pendingAuthCP := None\<rparr>
                        else sess2))))"

definition HandleAuthEAP ::
  "ike_lib \<Rightarrow> tls_lib \<Rightarrow> IKEv2Handler \<Rightarrow> v2_draws \<Rightarrow> IKEv2Session \<Rightarrow> Message \<Rightarrow> ip_assignment \<Rightarrow> ip list \<Rightarrow> v2_result" where
  "HandleAuthEAP lib tls h dr sess msg assignIP dnsServers =
     (case openRequest lib sess msg of
        Inl e \<Rightarrow> (Inl e, sess)
      | Inr innerChain \<Rightarrow>
          if s2State sess = StateV2EAPDone then
            handleFinalEAPAuth lib h dr sess innerChain (MessageID (mHeader msg)) assignIP dnsServers
          else
          (case findPayloadAs asEAP innerChain of
             None \<Rightarrow> (Inl (V2Missing PayloadEAP), sess)
           | Some data \<Rightarrow>
               (case ParseEAPPacket data of
                  Inl e \<Rightarrow> (Inl (V2Eap e), sess)
                | Inr pkt \<Rightarrow> processEAPResponse lib tls h dr sess pkt (MessageID (mHeader msg)))))"

section \<open>Reachable sessions\<close>

text \<open>How the server passes an IKE_AUTH request on (\<^verbatim>\<open>server.go\<close>, lines 101 to 107).\<close>

definition authExchange ::
  "ike_lib \<Rightarrow> tls_lib \<Rightarrow> IKEv2Handler \<Rightarrow> v2_draws \<Rightarrow> IKEv2Session \<Rightarrow> Message \<Rightarrow> ip_assignment \<Rightarrow> ip list \<Rightarrow> v2_result" where
  "authExchange lib tls h dr sess msg assignIP dnsServers =
     (if s2State sess = StateV2EAPInProgress \<or> s2State sess = StateV2EAPDone
      then HandleAuthEAP lib tls h dr sess msg assignIP dnsServers
      else HandleAuth lib h dr sess msg assignIP dnsServers)"

text \<open>A session as SA_INIT makes it, after any requests of any content.\<close>

inductive session_reachable :: "ike_lib \<Rightarrow> tls_lib \<Rightarrow> IKEv2Handler \<Rightarrow> IKEv2Session \<Rightarrow> bool" for lib tls h where
  reach_init: "HandleSAInit lib h dr msg peer = Inr (resp, Some sess) \<Longrightarrow> session_reachable lib tls h sess"
| reach_auth: "session_reachable lib tls h sess \<Longrightarrow>
    session_reachable lib tls h (snd (authExchange lib tls h dr sess msg assignIP dns))"
| reach_child: "session_reachable lib tls h sess \<Longrightarrow>
    session_reachable lib tls h (snd (HandleCreateChildSA lib h dr sess msg))"

text \<open>The NT response that a state holds was computed from the password of its user.\<close>

definition mschap_ok :: "ike_lib \<Rightarrow> IKEv2Handler \<Rightarrow> MSCHAPv2State \<Rightarrow> bool" where
  "mschap_ok lib h ms \<longleftrightarrow>
     (\<exists>creds pw. getEAPCredentials h = Some creds \<and> creds (msUsername ms) = Some pw \<and>
        (\<forall>nt. NTResponse ms = Some nt \<longrightarrow>
           (\<exists>pc. nt = GenerateNTResponse (ilDigests lib) (ServerChallenge ms) pc (msUsername ms) pw)))"

text \<open>A key that comes from a proven password.\<close>

definition proven_msk :: "ike_lib \<Rightarrow> IKEv2Handler \<Rightarrow> bytes \<Rightarrow> bool" where
  "proven_msk lib h k \<longleftrightarrow>
     (\<exists>creds user pw sc pc. getEAPCredentials h = Some creds \<and> creds user = Some pw \<and>
        k = GetMSCHAPv2MSK (ilDigests lib) pw (GenerateNTResponse (ilDigests lib) sc pc user pw))"

definition v2_inv :: "ike_lib \<Rightarrow> IKEv2Handler \<Rightarrow> IKEv2Session \<Rightarrow> bool" where
  "v2_inv lib h s \<longleftrightarrow>
     s2State s \<in> {StateV2InitRecv, StateV2EAPInProgress, StateV2EAPDone, StateV2Established} \<and>
     (case eapState s of EapTLS _ \<Rightarrow> False | EapMSCHAP ms \<Rightarrow> mschap_ok lib h ms | EapNone \<Rightarrow> True) \<and>
     (case EAPMSK s of None \<Rightarrow> True | Some k \<Rightarrow> proven_msk lib h k) \<and>
     (PSK s = [] \<or> (\<exists>pid name. getConnPSK h (s2PeerAddr s) pid = Some (PSK s, name)) \<or> proven_msk lib h (PSK s)) \<and>
     (s2State s = StateV2Established \<longrightarrow> ChildSAs s \<noteq> [])"

named_theorems v2_cases \<open>the sessions that a handler returns\<close>

lemma snd_answerEAP [simp]: "snd (answerEAP lib dr s p m) = s\<lparr>EAPIdentifier := EAPIdentifier s + 1\<rparr>"
  by (simp add: answerEAP_def Let_def)

lemma snd_sendEAPFailure [simp]: "snd (sendEAPFailure lib dr s m) = s\<lparr>EAPIdentifier := EAPIdentifier s + 1\<rparr>"
  by (simp add: sendEAPFailure_def)

lemma v2_inv_update [simp]:
  "v2_inv lib h (s\<lparr>EAPIdentifier := i\<rparr>) = v2_inv lib h s"
  "v2_inv lib h (s\<lparr>EAPMethod := i\<rparr>) = v2_inv lib h s"
  "v2_inv lib h (s\<lparr>PeerIDType := i\<rparr>) = v2_inv lib h s"
  "v2_inv lib h (s\<lparr>PeerID := d\<rparr>) = v2_inv lib h s"
  "v2_inv lib h (s\<lparr>ConnName := d\<rparr>) = v2_inv lib h s"
  "v2_inv lib h (s\<lparr>pendingAuthSA := a\<rparr>) = v2_inv lib h s"
  "v2_inv lib h (s\<lparr>pendingAuthTSi := t\<rparr>) = v2_inv lib h s"
  "v2_inv lib h (s\<lparr>pendingAuthTSr := t\<rparr>) = v2_inv lib h s"
  "v2_inv lib h (s\<lparr>pendingAuthCP := c\<rparr>) = v2_inv lib h s"
  by (simp_all add: v2_inv_def)

lemma v2_inv_child: "v2_inv lib h s \<Longrightarrow> v2_inv lib h (s\<lparr>ChildSAs := ChildSAs s @ [c]\<rparr>)"
  by (simp add: v2_inv_def)

lemma v2_inv_established: "v2_inv lib h s \<Longrightarrow> v2_inv lib h (s\<lparr>ChildSAs := ChildSAs s @ [c], s2State := StateV2Established\<rparr>)"
  by (simp add: v2_inv_def)

lemma finishAuth_inv:
  assumes "v2_inv lib h s"
  shows "v2_inv lib h (snd (finishAuth lib h dr s m sa ti tr cp a d))"
  using assms v2_inv_child [OF assms] v2_inv_established [OF assms]
  by (simp add: finishAuth_def Let_def split: option.split sum.split)

lemma HandleAuth_inv:
  assumes "v2_inv lib h s"
  shows "v2_inv lib h (snd (HandleAuth lib h dr s msg a d))"
proof (cases "s2State s = StateV2InitRecv")
  case True
  have psk: "v2_inv lib h (s\<lparr>PeerIDType := i, PeerID := p, PSK := k\<rparr>)"
    if "getConnPSK h (s2PeerAddr s) p' = Some (k, n)" for i p p' k n
    using assms that by (auto simp: v2_inv_def)
  have eap: "v2_inv lib h (snd (startEAPExchange lib dr s'))" if "v2_inv lib h s'" for s'
    using that by (simp add: startEAPExchange_def Let_def v2_inv_def)
  show ?thesis
    using assms True
    by (auto simp: HandleAuth_def Let_def intro!: eap finishAuth_inv psk split: option.split sum.split)
qed (simp add: HandleAuth_def assms)

lemma HandleCreateChildSA_inv:
  assumes "v2_inv lib h s"
  shows "v2_inv lib h (snd (HandleCreateChildSA lib h dr s msg))"
  using assms v2_inv_child [OF assms]
  by (simp add: HandleCreateChildSA_def Let_def split: option.split sum.split)

lemma handleEAPIdentity_inv:
  assumes "v2_inv lib h s"
  shows "v2_inv lib h (snd (handleEAPIdentity lib h dr s pkt m))"
  using assms
  by (auto simp: handleEAPIdentity_def Let_def v2_inv_def mschap_ok_def split: option.split sum.split)

lemma handleMSCHAPv2Response_inv:
  assumes "v2_inv lib h s" and "eapState s = EapMSCHAP ms"
  shows "v2_inv lib h (snd (handleMSCHAPv2Response lib h dr s ms pkt m))"
proof -
  have "mschap_ok lib h (ms\<lparr>AuthResp := r, PeerChallenge := Some pc, NTResponse := Some (slice 24 48 (slice 5 54 (eapData pkt)))\<rparr>)"
    if "getEAPCredentials h = Some creds" "creds (msUsername ms) = Some pw"
      "VerifyMSCHAPv2Response (ilDigests lib) (eapData pkt) (ServerChallenge ms) (msUsername ms) pw = Some r" for creds pw r pc
    using Verify_Some [OF that(3)] that(1,2) by (auto simp: mschap_ok_def)
  note ok = this
  show ?thesis
  proof (cases "\<exists>creds pw r. getEAPCredentials h = Some creds \<and> creds (msUsername ms) = Some pw \<and>
      VerifyMSCHAPv2Response (ilDigests lib) (eapData pkt) (ServerChallenge ms) (msUsername ms) pw = Some r")
    case True
    then obtain creds pw r where c: "getEAPCredentials h = Some creds" "creds (msUsername ms) = Some pw"
      "VerifyMSCHAPv2Response (ilDigests lib) (eapData pkt) (ServerChallenge ms) (msUsername ms) pw = Some r" by blast
    have "54 \<le> length (eapData pkt)" using Verify_Some [OF c(3)] by simp
    with c ok [OF c] assms show ?thesis by (auto simp: handleMSCHAPv2Response_def Let_def v2_inv_def)
  next
    case False
    with assms show ?thesis by (simp add: handleMSCHAPv2Response_def split: option.split)
  qed
qed

lemma handleMSCHAPv2SuccessAck_inv:
  assumes "v2_inv lib h s" and "eapState s = EapMSCHAP ms"
  shows "v2_inv lib h (snd (handleMSCHAPv2SuccessAck lib h dr s ms m))"
proof -
  have "proven_msk lib h (GetMSCHAPv2MSK (ilDigests lib) pw nt)"
    if "getEAPCredentials h = Some creds" "creds (msUsername ms) = Some pw" "NTResponse ms = Some nt" for creds pw nt
    using assms that by (auto simp: v2_inv_def mschap_ok_def proven_msk_def)
  then show ?thesis
    using assms
    by (auto simp: handleMSCHAPv2SuccessAck_def Let_def v2_inv_def split: option.split)
qed

lemma processEAPResponse_inv:
  assumes "v2_inv lib h s"
  shows "v2_inv lib h (snd (processEAPResponse lib tls h dr s pkt m))"
proof (cases "eapState s")
  case (EapMSCHAP ms)
  show ?thesis
    using assms handleEAPIdentity_inv [OF assms] handleMSCHAPv2Response_inv [OF assms EapMSCHAP]
      handleMSCHAPv2SuccessAck_inv [OF assms EapMSCHAP] EapMSCHAP
    by (simp add: processEAPResponse_def handleEAPMSCHAPv2_def handleEAPTLS_def)
next
  case EapNone
  then show ?thesis
    using assms handleEAPIdentity_inv [OF assms]
    by (simp add: processEAPResponse_def handleEAPMSCHAPv2_def handleEAPTLS_def)
next
  case (EapTLS t)
  with assms show ?thesis by (simp add: v2_inv_def)
qed

lemma handleFinalEAPAuth_inv:
  assumes "v2_inv lib h s"
  shows "v2_inv lib h (snd (handleFinalEAPAuth lib h dr s chain m a d))"
proof -
  define s1 where "s1 = (case EAPMSK s of None \<Rightarrow> s | Some msk \<Rightarrow> s\<lparr>PSK := msk\<rparr>)"
  have i: "v2_inv lib h s1" using assms by (auto simp: s1_def v2_inv_def split: option.split)
  obtain r s2 where f: "finishAuth lib h dr s1 m (pendingAuthSA s1) (pendingAuthTSi s1) (pendingAuthTSr s1) (pendingAuthCP s1) a d = (r, s2)"
    by (cases "finishAuth lib h dr s1 m (pendingAuthSA s1) (pendingAuthTSi s1) (pendingAuthTSr s1) (pendingAuthCP s1) a d")
  have "v2_inv lib h s2" using finishAuth_inv [OF i] f by (metis sndI)
  with i f assms show ?thesis
    unfolding handleFinalEAPAuth_def s1_def [symmetric] Let_def by (simp split: option.split)
qed

lemma authExchange_inv:
  assumes "v2_inv lib h s"
  shows "v2_inv lib h (snd (authExchange lib tls h dr s msg a d))"
  using assms HandleAuth_inv [OF assms] handleFinalEAPAuth_inv [OF assms] processEAPResponse_inv [OF assms]
  by (simp add: authExchange_def HandleAuthEAP_def split: sum.split option.split)

lemma HandleSAInit_inv:
  assumes "HandleSAInit lib h dr msg peer = Inr (resp, Some sess)"
  shows "v2_inv lib h sess"
proof -
  obtain sel selProp ke ni where "saInitKeys lib h dr msg peer sel selProp ke ni = Inr (resp, Some sess)"
    using HandleSAInit_Some [OF assms] by blast
  from saInitKeys_Some [OF this] obtain spiR nonceR dhKeys shared pa enc integ keys where
    "saInitFinish lib msg (initSession h msg peer sel ke ni spiR nonceR dhKeys shared pa enc integ keys) selProp = Inr (resp, Some sess)"
    by blast
  from saInitFinish_Some [OF this] obtain req b c bytes where
    "sess = (initSession h msg peer sel ke ni spiR nonceR dhKeys shared pa enc integ keys)
      \<lparr>InitReqBytes := req, BehindNATRemote := b, PeerSupportsFragmentation := c, InitRespBytes := bytes\<rparr>"
    by blast
  then show ?thesis by (simp add: v2_inv_def initSession_def)
qed

text \<open>
  C25. Where the key of an established session comes from. In every session that SA_INIT created and
  that then received requests of any content, whatever the TLS library does: an established
  session has a child SA, and its key is one the configuration holds for the peer's address and
  some identity, or an MSK of a user whose password answered the server's challenge, or empty.
\<close>

theorem session_key_sources:
  assumes "session_reachable lib tls h sess"
  shows "(s2State sess = StateV2Established \<longrightarrow> ChildSAs sess \<noteq> []) \<and>
    (PSK sess = [] \<or> (\<exists>pid name. getConnPSK h (s2PeerAddr sess) pid = Some (PSK sess, name)) \<or>
     (\<exists>creds user pw sc pc. getEAPCredentials h = Some creds \<and> creds user = Some pw \<and>
        PSK sess = GetMSCHAPv2MSK (ilDigests lib) pw (GenerateNTResponse (ilDigests lib) sc pc user pw)))"
proof -
  have "v2_inv lib h sess"
    using assms by induction (simp_all add: HandleSAInit_inv authExchange_inv HandleCreateChildSA_inv)
  then show ?thesis by (auto simp: v2_inv_def proven_msk_def)
qed

section \<open>A session without a password\<close>

lemma openRequest_cong:
  assumes "Encryptor s' = Encryptor s" and "IntegAlg s' = IntegAlg s" and "Keys s' = Keys s"
  shows "openRequest lib s' m = openRequest lib s m"
  unfolding openRequest_def assms ..

text \<open>
  What an initiator sends that finished SA_INIT and knows the name of a user: an identity
  without AUTH, the name, the acknowledgement of an MS-CHAPv2 success that it was never sent, and
  AUTH under the empty key. Each request starts with a payload that the responder misreads.
\<close>

definition bypassPayloads :: "ike_lib \<Rightarrow> IKEv2Session \<Rightarrow> IDPayload \<Rightarrow> SAPayload \<Rightarrow> bytes \<Rightarrow> Payload list list" where
  "bypassPayloads lib sess idp sa user =
     [[PlNonce [0], PlID idp, PlSA sa],
      [PlNonce [0], PlEAP (MarshalEAP \<lparr>eapCode = EAPCodeResponse, eapIdentifier = 1, eapType = EAPTypeIdentity, eapData = user\<rparr>)],
      [PlNonce [0], PlEAP (MarshalEAP \<lparr>eapCode = EAPCodeResponse, eapIdentifier = 2, eapType = EAPTypeMSCHAPv2, eapData = [MSCHAPv2OpSuccess]\<rparr>)],
      [PlNonce [0], PlAUTH \<lparr>Method = AuthSharedKey,
         authData = ComputeIKEv2AuthPSK (ilHmac lib) (s2PRF sess) [] (InitReqBytes sess) (NonceR sess) (SK_pi (Keys sess)) (PlID idp)\<rparr>]]"

text \<open>The session after some requests, each with the random draws made for it.\<close>

definition runAuth ::
  "ike_lib \<Rightarrow> tls_lib \<Rightarrow> IKEv2Handler \<Rightarrow> IKEv2Session \<Rightarrow> (v2_draws \<times> Message) list \<Rightarrow> IKEv2Session" where
  "runAuth lib tls h sess reqs = foldl (\<lambda>s (dr, m). snd (authExchange lib tls h dr s m None [])) sess reqs"

lemma bypass_identity:
  assumes "openRequest lib s m = Inr (\<lparr>ppHeader = g, ppPayload = PlSK b\<rparr> # chainOf [PlID idp, PlSA sa])"
    and "s2State s = StateV2InitRecv" and "getEAPCredentials h \<noteq> None" and "payloadNorm (PlSA sa) = PlSA sa"
  shows "snd (authExchange lib tls h dr s m None []) =
    s\<lparr>PeerIDType := IDType idp, PeerID := idData idp, pendingAuthSA := Some sa, pendingAuthTSi := None, pendingAuthTSr := None,
      pendingAuthCP := None, EAPIdentifier := 1, s2State := StateV2EAPInProgress\<rparr>"
  using assms
  by (simp add: authExchange_def HandleAuth_def startEAPExchange_def Let_def as_defs payloadNorm_def)

lemma bypass_eap:
  assumes "openRequest lib s m = Inr (\<lparr>ppHeader = g, ppPayload = PlSK b\<rparr> # chainOf [PlEAP (MarshalEAP pkt)])"
    and "s2State s = StateV2EAPInProgress" and "eap_wf pkt"
  shows "snd (authExchange lib tls h dr s m None []) = snd (processEAPResponse lib tls h dr s pkt (MessageID (mHeader m)))"
  using assms eap_roundtrip [OF assms(3), of "[]"]
  by (simp add: authExchange_def HandleAuthEAP_def as_defs payloadNorm_def)

lemma bypass_final:
  assumes "openRequest lib s m = Inr (\<lparr>ppHeader = g, ppPayload = PlSK b\<rparr> # chainOf [PlAUTH a])"
    and "s2State s = StateV2EAPDone" and "EAPMSK s = None"
    and "verifyAuth lib s a \<lparr>idIsInitiator = True, IDType = PeerIDType s, idData = PeerID s\<rparr> = None"
    and "finishAuth lib h dr s (MessageID (mHeader m)) (pendingAuthSA s) (pendingAuthTSi s) (pendingAuthTSr s) (pendingAuthCP s) None [] =
      (r, s\<lparr>ChildSAs := ChildSAs s @ [c], s2State := StateV2Established\<rparr>)"
  shows "snd (authExchange lib tls h dr s m None []) =
    s\<lparr>ChildSAs := ChildSAs s @ [c], s2State := StateV2Established,
      pendingAuthSA := None, pendingAuthTSi := None, pendingAuthTSr := None, pendingAuthCP := None\<rparr>"
  using assms
  by (simp add: authExchange_def HandleAuthEAP_def handleFinalEAPAuth_def as_defs payloadNorm_def Let_def)

lemma bypass_open:
  assumes "sessOk lib s" and "\<forall>ps\<in>set (bypassPayloads lib s idp sa user). fitsMessage lib s iv ps"
    and "k < 4" and "Encryptor s' = Encryptor s" and "IntegAlg s' = IntegAlg s" and "Keys s' = Keys s"
  shows "\<exists>g. openRequest lib s' (peerRequest lib s iv exch mid (bypassPayloads lib s idp sa user ! k)) =
    Inr (\<lparr>ppHeader = g, ppPayload = PlSK (payloadBody (PlNonce [0]))\<rparr> # chainOf (tl (bypassPayloads lib s idp sa user ! k)))"
proof -
  let ?ps = "bypassPayloads lib s idp sa user"
  have "length ?ps = 4" by (simp add: bypassPayloads_def)
  with assms(3) have "?ps ! k \<in> set ?ps" by (intro nth_mem) (simp only:)
  moreover have "k = 0 \<or> k = 1 \<or> k = 2 \<or> k = 3" using assms(3) by linarith
  then have "?ps ! k = PlNonce [0] # tl (?ps ! k)" by (auto simp: bypassPayloads_def)
  ultimately show ?thesis
    using openRequest_peerRequest [OF assms(1), of iv "PlNonce [0]" "tl (?ps ! k)" exch mid] assms(2)
      openRequest_cong [OF assms(4-6)] by metis
qed

text \<open>The session after the first three requests.\<close>

definition bypassDone :: "IKEv2Session \<Rightarrow> IDPayload \<Rightarrow> SAPayload \<Rightarrow> bytes \<Rightarrow> bytes \<Rightarrow> IKEv2Session" where
  "bypassDone s idp sa user ch =
     s\<lparr>PeerIDType := IDType idp, PeerID := idData idp, pendingAuthSA := Some sa, pendingAuthTSi := None, pendingAuthTSr := None,
       pendingAuthCP := None, EAPIdentifier := 3, s2State := StateV2EAPDone, EAPMethod := EAPTypeMSCHAPv2,
       eapState := EapMSCHAP \<lparr>ServerChallenge = ch, ServerName = strBytes ''swan-ng'', PeerChallenge = None, NTResponse = None,
         msUsername = user, AuthResp = []\<rparr>\<rparr>"

lemma bypass_done:
  assumes "sessOk lib s" and "s2State s = StateV2InitRecv" and "getEAPCredentials h = Some creds" and "creds user \<noteq> None"
    and "length user < 60000" and "\<forall>ps\<in>set (bypassPayloads lib s idp sa user). fitsMessage lib s iv ps"
    and "payloadNorm (PlSA sa) = PlSA sa" and "drChallenge d2 = Some ch"
    and m: "\<And>k. m k = peerRequest lib s iv ExchangeIKEAuth 1 (bypassPayloads lib s idp sa user ! k)"
  shows "runAuth lib tls h s [(d1, m 0), (d2, m 1), (d3, m 2)] = bypassDone s idp sa user ch"
proof -
  let ?ps = "bypassPayloads lib s idp sa user"
  let ?id = "\<lparr>eapCode = 2, eapIdentifier = 1, eapType = 1, eapData = user\<rparr>"
  let ?ack = "\<lparr>eapCode = 2, eapIdentifier = 2, eapType = 26, eapData = [3]\<rparr>"
  note o = bypass_open [OF assms(1,6), of _ _ ExchangeIKEAuth 1, folded m]
  have t: "tl (?ps ! 0) = [PlID idp, PlSA sa]" "tl (?ps ! 1) = [PlEAP (MarshalEAP ?id)]" "tl (?ps ! 2) = [PlEAP (MarshalEAP ?ack)]"
    by (simp_all add: bypassPayloads_def)
  define s1 where "s1 = s\<lparr>PeerIDType := IDType idp, PeerID := idData idp, pendingAuthSA := Some sa, pendingAuthTSi := None,
    pendingAuthTSr := None, pendingAuthCP := None, EAPIdentifier := 1, s2State := StateV2EAPInProgress\<rparr>"
  define ms where "ms = \<lparr>ServerChallenge = ch, ServerName = strBytes ''swan-ng'', PeerChallenge = None, NTResponse = None, msUsername = user, AuthResp = []\<rparr>"
  define s2 where "s2 = s1\<lparr>EAPMethod := EAPTypeMSCHAPv2, eapState := EapMSCHAP ms, EAPIdentifier := 2\<rparr>"
  have same: "Encryptor s1 = Encryptor s" "IntegAlg s1 = IntegAlg s" "Keys s1 = Keys s"
    "Encryptor s2 = Encryptor s" "IntegAlg s2 = IntegAlg s" "Keys s2 = Keys s"
    by (simp_all add: s1_def s2_def)
  have w: "eap_wf ?id" "eap_wf ?ack" using assms(5) by (simp_all add: eap_wf_def)
  have r1: "snd (authExchange lib tls h d1 s (m 0) None []) = s1"
    using o [of 0 s] bypass_identity [OF _ assms(2) _ assms(7)] assms(3) unfolding t(1) s1_def by force
  have "snd (processEAPResponse lib tls h d2 s1 ?id x) = s2" for x
    using assms(3,4,8) by (auto simp: processEAPResponse_def handleEAPIdentity_def ParseEAPIdentityResponse_def
        GenerateMSCHAPv2Challenge_def Let_def s2_def s1_def ms_def)
  with o [of 1 s1] same bypass_eap [of lib s1 "m 1" _ _ ?id] w(1)
  have r2: "snd (authExchange lib tls h d2 s1 (m 1) None []) = s2"
    unfolding t(2) by (force simp: s1_def)
  have "snd (processEAPResponse lib tls h d3 s2 ?ack x) = bypassDone s idp sa user ch" for x
    using assms(3,4) by (auto simp: processEAPResponse_def handleEAPMSCHAPv2_def handleMSCHAPv2SuccessAck_def
        Let_def bypassDone_def s2_def s1_def ms_def)
  with o [of 2 s2] same bypass_eap [of lib s2 "m 2" _ _ ?ack] w(2)
  have "snd (authExchange lib tls h d3 s2 (m 2) None []) = bypassDone s idp sa user ch"
    unfolding t(3) by (force simp: s2_def s1_def)
  with r1 r2 show ?thesis by (simp add: runAuth_def)
qed

text \<open>
  C24. EAP authentication can be skipped. On a responder with EAP users, let an initiator have
  finished SA_INIT and know the name of one user, but no password and no shared key. Four
  requests, which it computes from the session's keys alone, establish the session and its child
  SA: the code takes an acknowledgement of MS-CHAPv2 success without a preceding response, no
  MSK is set, and AUTH is then verified under the key of the fresh session, the empty string.
\<close>

theorem eap_bypass:
  assumes "sessOk lib s" and "s2State s = StateV2InitRecv" and "PSK s = []" and "EAPMSK s = None"
    and "getEAPCredentials h = Some creds" and "creds user \<noteq> None" and "length user < 60000" and "idIsInitiator idp"
    and "\<forall>ps\<in>set (bypassPayloads lib s idp sa user). fitsMessage lib s iv ps" and "payloadNorm (PlSA sa) = PlSA sa"
    and "SelectProposal (ilOrdE lib) (ilOrdB lib) (Some (defaultChildProposals h)) (Some sa) = Inr (sel, prop)"
    and "hmac_ok (ilHmac lib)" and "childKeyLengths sel = (e, i)" and "(e + i) * 2 \<le> 255 * hashSize (prfHash (s2PRF s))"
    and "drChallenge d2 = Some ch" and "drChildSPI d4 = Some spi" and "drIV d4 = Some riv" and "length riv = encIVSize (Encryptor s)"
  shows "\<exists>c. let s' = runAuth lib tls h s (zip [d1, d2, d3, d4]
      (map (peerRequest lib s iv ExchangeIKEAuth 1) (bypassPayloads lib s idp sa user)))
    in s2State s' = StateV2Established \<and> ChildSAs s' = ChildSAs s @ [c] \<and> PSK s' = [] \<and> PeerID s' = idData idp"
proof -
  let ?ps = "bypassPayloads lib s idp sa user" and ?s3 = "bypassDone s idp sa user ch"
  let ?m = "\<lambda>k. peerRequest lib s iv ExchangeIKEAuth 1 (?ps ! k)"
  let ?auth = "\<lparr>Method = AuthSharedKey, authData = ComputeIKEv2AuthPSK (ilHmac lib) (s2PRF s) [] (InitReqBytes s) (NonceR s) (SK_pi (Keys s)) (PlID idp)\<rparr>"
  note same = bypassDone_def [of s idp sa user ch]
  have run: "runAuth lib tls h s [(d1, ?m 0), (d2, ?m 1), (d3, ?m 2)] = ?s3"
    using bypass_done [OF assms(1,2,5,6,7,9,10,15), of ?m] by blast
  have "\<lparr>idIsInitiator = True, IDType = IDType idp, idData = idData idp\<rparr> = idp" using assms(8) by simp
  then have v: "verifyAuth lib ?s3 ?auth \<lparr>idIsInitiator = True, IDType = PeerIDType ?s3, idData = PeerID ?s3\<rparr> = None"
    using assms(3) by (simp add: verifyAuth_def same hashEqual_iff)
  obtain c where c: "buildChildSA lib ?s3 sel sa spi (NonceI ?s3) (NonceR ?s3) = Some c"
    using buildChildSA_ok [OF assms(12,13), of ?s3 sa spi "NonceI ?s3" "NonceR ?s3"] assms(14) same by auto
  have "skOk (ilCrypto lib) (ilHmac lib) (Encryptor ?s3) (IntegAlg ?s3) (SK_er (Keys ?s3))"
    using assms(1) by (simp add: sessOk_def same)
  from finishAuth_ok [OF this assms(17) _ assms(16,11) c] assms(18)
  obtain mm where f: "finishAuth lib h d4 ?s3 (MessageID (mHeader (?m 3))) (pendingAuthSA ?s3) (pendingAuthTSi ?s3) (pendingAuthTSr ?s3)
      (pendingAuthCP ?s3) None [] = (Inr mm, ?s3\<lparr>ChildSAs := ChildSAs ?s3 @ [c], s2State := StateV2Established\<rparr>)"
    by (force simp: same)
  have "tl (?ps ! 3) = [PlAUTH ?auth]" by (simp add: bypassPayloads_def)
  with bypass_open [OF assms(1,9), of 3 ?s3 ExchangeIKEAuth 1] obtain g where
    "openRequest lib ?s3 (?m 3) = Inr (\<lparr>ppHeader = g, ppPayload = PlSK (payloadBody (PlNonce [0]))\<rparr> # chainOf [PlAUTH ?auth])"
    by (auto simp: same)
  from bypass_final [OF this _ _ v f] assms(4) have "snd (authExchange lib tls h d4 ?s3 (?m 3) None []) =
      ?s3\<lparr>ChildSAs := ChildSAs ?s3 @ [c], s2State := StateV2Established,
        pendingAuthSA := None, pendingAuthTSi := None, pendingAuthTSr := None, pendingAuthCP := None\<rparr>"
    by (simp add: same)
  moreover have "zip [d1, d2, d3, d4] (map (peerRequest lib s iv ExchangeIKEAuth 1) ?ps) =
      [(d1, ?m 0), (d2, ?m 1), (d3, ?m 2)] @ [(d4, ?m 3)]"
    by (simp add: bypassPayloads_def)
  ultimately have "runAuth lib tls h s (zip [d1, d2, d3, d4] (map (peerRequest lib s iv ExchangeIKEAuth 1) ?ps)) =
      ?s3\<lparr>ChildSAs := ChildSAs ?s3 @ [c], s2State := StateV2Established,
        pendingAuthSA := None, pendingAuthTSi := None, pendingAuthTSr := None, pendingAuthCP := None\<rparr>"
    using run by (simp add: runAuth_def)
  then show ?thesis using assms(3) by (simp add: same Let_def)
qed

definition exampleTls :: tls_lib where
  "exampleTls = \<lparr>tlsServer = (\<lambda>_ _. 0), tlsHandshake = (\<lambda>c t. (TlsNeedsMore, t, c)), tlsPeerNames = (\<lambda>_. []), tlsExport = (\<lambda>_. None)\<rparr>"

theorem session_key_sources_witness:
  "\<exists>sess. session_reachable exampleIkeLib exampleTls (exampleV2Handler CookieModeAuto) sess \<and> s2ResponderSPI sess = replicate 8 5 \<and>
     (s2State sess = StateV2Established \<longrightarrow> ChildSAs sess \<noteq> [])"
proof -
  have len: "length (linkPayloads (map ppPayload (mPayloads (exampleRequest [])))) < 1000"
    using length_examplePub
    by (simp add: exampleRequest_def linkPayloads_Cons payloadBody_def bodySA_def bodyKE_def DefaultIKEProposals_def mkProposal_def
        xform_def marshalV2Proposal_def marshalV2Transform_def)
  have "\<exists>resp sess. HandleSAInit exampleIkeLib (exampleV2Handler CookieModeAuto) exampleDraws (exampleRequest []) examplePeer = Inr (resp, Some sess) \<and>
    s2DHGroupID sess = 14 \<and> DHPubKey sess = examplePub \<and> s2ResponderSPI sess = replicate 8 5 \<and> s2PeerAddr sess = examplePeer"
    by (rule example_sa_init) (use len in \<open>simp_all add: findNotifyPayload_def\<close>)
  then obtain resp sess where r: "HandleSAInit exampleIkeLib (exampleV2Handler CookieModeAuto) exampleDraws (exampleRequest []) examplePeer = Inr (resp, Some sess)"
    "s2ResponderSPI sess = replicate 8 5" by blast
  then have "session_reachable exampleIkeLib exampleTls (exampleV2Handler CookieModeAuto) sess" by (intro reach_init)
  with session_key_sources [OF this] r(2) show ?thesis by blast
qed

theorem eap_bypass_witness:
  "\<exists>reqs s'. runAuth exampleIkeLib exampleTls (exampleV2Handler CookieModeAuto) exampleV2Session
       (zip [exampleDraws, exampleDraws, exampleDraws, exampleDraws] reqs) = s' \<and>
     s2State s' = StateV2Established \<and> PSK s' = [] \<and> length (ChildSAs s') = 1"
proof -
  let ?h = "exampleV2Handler CookieModeAuto" and ?user = "strBytes ''alice''"
  let ?ps = "bypassPayloads exampleIkeLib exampleV2Session exampleID exampleReadSA ?user"
  note h = example_session_facts
  have creds: "getEAPCredentials ?h = Some (\<lambda>user. if user = strBytes ''alice'' then Some (strBytes ''password'') else None)"
    by (simp add: exampleV2Handler_def NewIKEv2Handler_def)
  have fits: "\<forall>ps\<in>set ?ps. fitsMessage exampleIkeLib exampleV2Session (replicate 8 6) ps"
    by (auto intro!: example_fits [OF _ _ h(7,8)]
        simp: bypassPayloads_def example_payload_simps example_read_sa MarshalEAP_def example_auth_length)
  obtain q where p: "SelectProposal (ilOrdE exampleIkeLib) (ilOrdB exampleIkeLib) (Some (defaultChildProposals ?h)) (Some exampleReadSA) = Inr
      (\<lparr>ProposalNum = 1, selProtocolID = 3, selSPI = [0, 0, 0, 9], EncrID = 20, EncrKeyLen = 256, PRFID = 0, IntegID = 0, DHID = 0, ESN = 0\<rparr>, q)"
    using example_child_proposal by blast
  have hk: "hmac_ok (ilHmac exampleIkeLib)" by (simp add: exampleIkeLib_def)
  have d: "drIV exampleDraws = Some (replicate 8 6)" "drChildSPI exampleDraws = Some [0, 0, 0, 3]"
    "drChallenge exampleDraws = Some (replicate 16 1)" "length (replicate 8 (6::byte)) = encIVSize (Encryptor exampleV2Session)"
    by (simp_all add: exampleDraws_def h(5))
  have i: "idIsInitiator exampleID" by (simp add: exampleID_def)
  have x: "length ?user < 60000" "(36 + 0) * 2 \<le> 255 * hashSize (prfHash (s2PRF exampleV2Session))"
    by (simp_all add: strBytes_def h(6) hashSize_def)
  obtain c where "let s' = runAuth exampleIkeLib exampleTls ?h exampleV2Session (zip [exampleDraws, exampleDraws, exampleDraws, exampleDraws]
      (map (peerRequest exampleIkeLib exampleV2Session (replicate 8 6) ExchangeIKEAuth 1) ?ps))
    in s2State s' = StateV2Established \<and> ChildSAs s' = ChildSAs exampleV2Session @ [c] \<and> PSK s' = [] \<and> PeerID s' = idData exampleID"
    using eap_bypass [OF example_sessOk h(1-3) creds _ x(1) i fits example_read_norm p hk example_child_lengths x(2) d(3,2,1,4),
      of exampleTls exampleDraws exampleDraws] by auto
  then show ?thesis by (auto simp: Let_def h(4))
qed

end
