(* ===== verification/IkeServer.thy ===== *)
theory IkeServer
  imports IkeSession IkeV1Phase2 IkeV2Eap
begin

text \<open>
  The INFORMATIONAL exchange (\<^verbatim>\<open>internal/ike/info.go\<close>) and the server that receives every IKE datagram
  (\<^verbatim>\<open>internal/ike/server.go\<close>). The handlers change the sessions in the tables of the manager in place:
  here the changed session is put back. What the server sends is the list of effects of a step. A step is \<^const>\<open>None\<close>
  where the code panics or does not return; nothing above it recovers.
\<close>

section \<open>Informational\<close>

text \<open>
  One decrypted payload: the switch looks at the \<^verbatim>\<open>NextPayload\<close> field of the payload's own header.
  INITIAL_CONTACT is only logged.
\<close>

definition infoPayload :: "IKEv2Session \<Rightarrow> ParsedPayload \<Rightarrow> session_manager \<Rightarrow> session_manager option" where
  "infoPayload sess p sm =
     (if gphNext (ppHeader p) = PayloadDelete then
        (case ppPayload p of
           PlDelete del \<Rightarrow>
             if delProtocolID del = ProtocolIKE then DeleteV2Session (v2SPIPair sess) sm
             else if delProtocolID del = ProtocolESP then
               Some (case espEngine sm of
                       None \<Rightarrow> sm
                     | Some e \<Rightarrow> sm\<lparr>espEngine := Some (fold (\<lambda>spi e. RemoveInboundSA e (Uint32 spi)) (filter (\<lambda>b. length b = 4) (delSPIs del)) e)\<rparr>)
             else Some sm
         | _ \<Rightarrow> Some sm)
      else Some sm)"

fun infoPayloads :: "IKEv2Session \<Rightarrow> ParsedPayload list \<Rightarrow> session_manager \<Rightarrow> session_manager option" where
  "infoPayloads sess [] sm = Some sm"
| "infoPayloads sess (p # ps) sm = Option.bind (infoPayload sess p sm) (infoPayloads sess ps)"

definition infoHeader :: "IkeHeader \<Rightarrow> IkeHeader" where
  "infoHeader hdr =
     \<lparr>InitiatorSPI = InitiatorSPI hdr, ResponderSPI = ResponderSPI hdr, HdrNextPayload = PayloadSK, MajorVersion = IKEv2Major,
      MinorVersion = 0, Exchange = ExchangeInformational, HdrFlags = FlagResponse, MessageID = MessageID hdr, IkeLength = 0\<rparr>"

definition HandleInformational ::
  "ike_lib \<Rightarrow> v2_draws \<Rightarrow> IKEv2Session option \<Rightarrow> Message \<Rightarrow> session_manager \<Rightarrow> (v2_error + Message) \<times> session_manager" where
  "HandleInformational lib dr sessp msg sm =
     (case sessp of
        None \<Rightarrow> (Inl V2NoSession, sm)
      | Some sess \<Rightarrow>
     (case mPayloads msg of
        [] \<Rightarrow> (Inl V2NoPayloads, sm)
      | pp # _ \<Rightarrow>
     (case (case ppPayload pp of PlRaw t d \<Rightarrow> if t = PayloadSK then Some d else None | _ \<Rightarrow> None) of
        None \<Rightarrow> (Inl V2NotSK, sm)
      | Some skData \<Rightarrow>
     (let k = Keys sess;
          (decKey, intDecKey, encKeyOut, intEncKeyOut) =
            (if s2IsInitiator sess then (SK_er k, SK_ar k, SK_ei k, SK_ai k) else (SK_ei k, SK_ai k, SK_er k, SK_ar k))
      in
      case DecryptSKPayload (ilCrypto lib) (ilHmac lib) (Encryptor sess) (IntegAlg sess) decKey intDecKey (MarshalBinary (mHeader msg))
             skData (HdrNextPayload (mHeader msg)) of
        Inl e \<Rightarrow> (Inl (skFailure e), sm)
      | Inr payloads \<Rightarrow>
     (case infoPayloads sess payloads sm of
        None \<Rightarrow> (Inl V2Panic, sm)
      | Some sm1 \<Rightarrow>
     (case EncryptSKPayload (ilCrypto lib) (ilHmac lib) (drIV dr) (Encryptor sess) (IntegAlg sess) encKeyOut intEncKeyOut
             (MarshalBinary (infoHeader (mHeader msg))) [] of
        Inl e \<Rightarrow> (Inl (skFailure e), sm1)
      | Inr (firstPT, skBody) \<Rightarrow>
          (Inr \<lparr>mHeader = (infoHeader (mHeader msg))\<lparr>HdrNextPayload := firstPT\<rparr>, mPayloads = [ppOf (PlRaw PayloadSK skBody)], RawMessage = []\<rparr>,
           sm1)))))))"

section \<open>The server\<close>

record ike_server =
  sessionMgr :: session_manager
  V1Handler :: IKEv1Handler
  V2Handler :: IKEv2Handler
  udpSender :: bool

datatype ike_effect = SendTo nat bytes udp_addr

definition NewIkeServer :: "session_manager \<Rightarrow> IKEv1Handler \<Rightarrow> IKEv2Handler \<Rightarrow> bool \<Rightarrow> ike_server" where
  "NewIkeServer sm v1 v2 sender = \<lparr>sessionMgr = sm, V1Handler = v1, V2Handler = v2, udpSender = sender\<rparr>"

definition sendResponse :: "ike_server \<Rightarrow> Message \<Rightarrow> udp_addr \<Rightarrow> bool \<Rightarrow> ike_effect list" where
  "sendResponse s msg remoteAddr isNATT =
     (if \<not> udpSender s then []
      else
      (case fst (MarshalMessage msg) of
         Inl _ \<Rightarrow> []
       | Inr data \<Rightarrow>
           if isNATT then [SendTo 4500 (copy_at 4 data (replicate (length data + 4) 0)) remoteAddr]
           else [SendTo 500 data remoteAddr]))"

text \<open>The errors that are no Go errors but a run-time panic, or a call that does not return.\<close>

definition v2Panics :: "v2_error \<Rightarrow> bool" where
  "v2Panics e \<longleftrightarrow> e \<in> {V2Panic, V2Keys DerivePanic, V2Crypto CryptoPanic}"

definition v1Panics :: "v1_error \<Rightarrow> bool" where
  "v1Panics e \<longleftrightarrow> e \<in> {V1Panic, V1Diverges, V1Keys DerivePanic, V1Chain IkePanic}"

definition answer :: "ike_server \<Rightarrow> ('e \<Rightarrow> bool) \<Rightarrow> 'e + Message \<Rightarrow> udp_addr \<Rightarrow> bool \<Rightarrow> (ike_server \<times> ike_effect list) option" where
  "answer s panics r remoteAddr isNATT =
     (case r of
        Inl e \<Rightarrow> if panics e then None else Some (s, [])
      | Inr resp \<Rightarrow> Some (s, sendResponse s resp remoteAddr isNATT))"

definition putV2 :: "ike_server \<Rightarrow> bytes \<Rightarrow> IKEv2Session \<Rightarrow> ike_server" where
  "putV2 s spiPair sess = s\<lparr>sessionMgr := (sessionMgr s)\<lparr>v2Sessions := (v2Sessions (sessionMgr s))(spiPair \<mapsto> sess)\<rparr>\<rparr>"

definition putV1 :: "ike_server \<Rightarrow> bytes \<Rightarrow> IKEv1Session \<Rightarrow> ike_server" where
  "putV1 s spiPair sess = s\<lparr>sessionMgr := (sessionMgr s)\<lparr>v1Sessions := (v1Sessions (sessionMgr s))(spiPair \<mapsto> sess)\<rparr>\<rparr>"

definition saInitV2 ::
  "ike_lib \<Rightarrow> v2_draws \<Rightarrow> ike_server \<Rightarrow> Message \<Rightarrow> udp_addr \<Rightarrow> bool \<Rightarrow> (ike_server \<times> ike_effect list) option" where
  "saInitV2 lib dr s msg remoteAddr isNATT =
     (case HandleSAInit lib (V2Handler s) dr msg remoteAddr of
        Inl e \<Rightarrow> if v2Panics e then None else Some (s, [])
      | Inr (resp, newSess) \<Rightarrow>
          (case (case newSess of None \<Rightarrow> Some (sessionMgr s) | Some sess \<Rightarrow> RegisterV2Session sess (sessionMgr s)) of
             None \<Rightarrow> None
           | Some sm \<Rightarrow> (let s1 = s\<lparr>sessionMgr := sm\<rparr> in Some (s1, sendResponse s1 resp remoteAddr isNATT))))"

definition handleIKEv2 ::
  "ike_lib \<Rightarrow> tls_lib \<Rightarrow> v2_draws \<Rightarrow> ike_server \<Rightarrow> bytes \<Rightarrow> udp_addr \<Rightarrow> bool \<Rightarrow> (ike_server \<times> ike_effect list) option" where
  "handleIKEv2 lib tls dr s packetData remoteAddr isNATT =
     (case ParseMessage packetData of
        Inl e \<Rightarrow> if e = IkePanic then None else Some (s, [])
      | Inr msg \<Rightarrow>
          if Exchange (mHeader msg) = ExchangeIKESAInit then saInitV2 lib dr s msg remoteAddr isNATT
          else if Exchange (mHeader msg) = ExchangeIKEAuth then
            (case GetV2Session (sessionMgr s) (SPIPair (mHeader msg)) of
               None \<Rightarrow> Some (s, [])
             | Some sess \<Rightarrow>
                 (let (r, sess') = authExchange lib tls (V2Handler s) dr sess msg None []
                  in answer (putV2 s (SPIPair (mHeader msg)) sess') v2Panics r remoteAddr isNATT))
          else if Exchange (mHeader msg) = ExchangeInformational then
            (case GetV2Session (sessionMgr s) (SPIPair (mHeader msg)) of
               None \<Rightarrow> Some (s, [])
             | Some sess \<Rightarrow>
                 (let (r, sm) = HandleInformational lib dr (Some sess) msg (sessionMgr s)
                  in answer (s\<lparr>sessionMgr := sm\<rparr>) v2Panics r remoteAddr isNATT))
          else Some (s, []))"

definition mainMode1 ::
  "v1_draws \<Rightarrow> ike_server \<Rightarrow> bytes \<Rightarrow> udp_addr \<Rightarrow> bool \<Rightarrow> (ike_server \<times> ike_effect list) option" where
  "mainMode1 dr s packetData remoteAddr isNATT =
     (case ParseMessage packetData of
        Inl e \<Rightarrow> if e = IkePanic then None else Some (s, [])
      | Inr msg \<Rightarrow>
          (case HandleMainMode1 (V1Handler s) dr msg remoteAddr of
             Inl e \<Rightarrow> if v1Panics e then None else Some (s, [])
           | Inr (resp, newSess) \<Rightarrow>
               (case RegisterV1Session newSess (sessionMgr s) of
                  None \<Rightarrow> None
                | Some sm \<Rightarrow> (let s1 = s\<lparr>sessionMgr := sm\<rparr> in Some (s1, sendResponse s1 resp remoteAddr isNATT)))))"

text \<open>Later messages of Main Mode are looked up and dropped; no other phase 1 exchange has a case.\<close>

definition handleIKEv1 ::
  "ike_lib \<Rightarrow> v1_draws \<Rightarrow> ike_server \<Rightarrow> bytes \<Rightarrow> IkeHeader \<Rightarrow> udp_addr \<Rightarrow> bool \<Rightarrow> (ike_server \<times> ike_effect list) option" where
  "handleIKEv1 lib dr s packetData hdr remoteAddr isNATT =
     (if Exchange hdr = ExchangeIdentityProtect then
        (if ResponderSPI hdr = replicate 8 0 then mainMode1 dr s packetData remoteAddr isNATT else Some (s, []))
      else if Exchange hdr = ExchangeTransaction then
        (case GetV1Session (sessionMgr s) (SPIPair hdr) of
           None \<Rightarrow> Some (s, [])
         | Some sess \<Rightarrow>
             (let (r, sess') = HandleTransaction lib (V1Handler s) sess packetData hdr
              in answer (putV1 s (SPIPair hdr) sess') v1Panics r remoteAddr isNATT))
      else Some (s, []))"

text \<open>A count beyond the buffer is a slice out of range.\<close>

definition HandleIkePacket ::
  "ike_lib \<Rightarrow> tls_lib \<Rightarrow> v2_draws \<Rightarrow> v1_draws \<Rightarrow> ike_server \<Rightarrow> bytes \<Rightarrow> nat \<Rightarrow> udp_addr \<Rightarrow> bool
   \<Rightarrow> (ike_server \<times> ike_effect list) option" where
  "HandleIkePacket lib tls dr dr1 s buf n remoteAddr isNATT =
     (if n < HeaderLen then Some (s, [])
      else if n > length buf then None
      else
      (let packetData = take n buf in
       case ParseIkeHeader packetData of
         Inl _ \<Rightarrow> Some (s, [])
       | Inr hdr \<Rightarrow>
           if Validate hdr \<noteq> None then Some (s, [])
           else if MajorVersion hdr = IKEv2Major then handleIKEv2 lib tls dr s packetData remoteAddr isNATT
           else if MajorVersion hdr = IKEv1Major then handleIKEv1 lib dr1 s packetData hdr remoteAddr isNATT
           else Some (s, [])))"


section \<open>INFORMATIONAL is always refused\<close>

lemma ParseMessage_header_eq: "ParseMessage buf = Inr msg \<Longrightarrow> ParseIkeHeader buf = Inr (mHeader msg)"
  by (auto simp: ParseMessage_def Let_def split: if_split_asm sum.split_asm option.split_asm)

text \<open>The parser makes a raw payload only of a type it does not know, and it knows SK.\<close>

lemma map_sum_Inr: "map_sum id f r = Inr x \<longleftrightarrow> (\<exists>y. r = Inr y \<and> x = f y)"
  by (cases r) auto

lemma parseV2Payload_raw: "parseV2Payload t b = Inr (PlRaw t' d) \<Longrightarrow> t' = t \<and> t \<noteq> PayloadSK"
  by (auto simp: parseV2Payload_def map_sum_Inr split: if_split_asm)

lemma parseTypedPayload_raw: "parseTypedPayload t b True \<noteq> Inr (PlRaw PayloadSK d)"
proof
  assume r: "parseTypedPayload t b True = Inr (PlRaw PayloadSK d)"
  show False
  proof (cases "parseV2Payload t b")
    case (Inl e)
    with r have "t = PayloadSK" by (auto simp: parseTypedPayload_def split: if_split_asm)
    with Inl show False by (simp add: parseV2Payload_def)
  next
    case (Inr p)
    with r parseV2Payload_raw [of t b PayloadSK d] show False by (auto simp: parseTypedPayload_def)
  qed
qed

lemma ParseMessage_first_raw:
  assumes "ParseMessage buf = Inr msg" and "IsIKEv2 (mHeader msg)" and "mPayloads msg = pp # ps"
  shows "ppPayload pp \<noteq> PlRaw PayloadSK d"
proof -
  obtain b nt where "parseChainAt b nt True 0 = Inr (pp # ps)"
    using assms by (auto simp: ParseMessage_def ParsePayloadChain_def Let_def split: if_split_asm sum.split_asm option.split_asm)
  then obtain body where "parseTypedPayload nt body True = Inr (ppPayload pp)"
    by (subst (asm) parseChainAt.simps) (auto simp: Let_def split: if_split_asm sum.split_asm)
  with parseTypedPayload_raw show ?thesis by metis
qed

lemma HandleInformational_parsed:
  assumes "ParseMessage buf = Inr msg" and "IsIKEv2 (mHeader msg)"
  shows "\<exists>e \<in> {V2NoPayloads, V2NotSK}. HandleInformational lib dr (Some sess) msg sm = (Inl e, sm)"
proof (cases "mPayloads msg")
  case (Cons pp ps)
  have "(case ppPayload pp of PlRaw t d \<Rightarrow> if t = PayloadSK then Some d else None | _ \<Rightarrow> None) = None"
    using ParseMessage_first_raw [OF assms Cons] by (auto split: Payload.split)
  with Cons show ?thesis by (simp add: HandleInformational_def)
qed (simp add: HandleInformational_def)

text \<open>
  No INFORMATIONAL request that arrives from the network is ever answered: the handler wants a raw
  payload of type SK, and the parser never makes one. Liveness checks are not answered, and
  no DELETE of the peer is ever acted upon.
\<close>

theorem informational_refused:
  assumes "ParseMessage buf = Inr msg" and "IsIKEv2 (mHeader msg)"
  shows "\<exists>e \<in> {V2NoPayloads, V2NotSK}. HandleInformational lib dr (Some sess) msg sm = (Inl e, sm)"
  by (rule HandleInformational_parsed [OF assms])

section \<open>What the server keeps\<close>

lemma finishAuth_pair: "v2SPIPair (snd (finishAuth lib h dr s m sa ti tr cp a d)) = v2SPIPair s"
  by (simp add: finishAuth_def Let_def v2SPIPair_def split: option.split sum.split)

lemma HandleAuth_pair: "v2SPIPair (snd (HandleAuth lib h dr s msg a d)) = v2SPIPair s"
  using finishAuth_pair
  by (simp add: HandleAuth_def startEAPExchange_def Let_def v2SPIPair_def split: option.split sum.split)

lemma handleEAPIdentity_pair: "v2SPIPair (snd (handleEAPIdentity lib h dr s pkt m)) = v2SPIPair s"
  by (simp add: handleEAPIdentity_def Let_def v2SPIPair_def split: option.split sum.split)

lemma handleMSCHAPv2Response_pair: "v2SPIPair (snd (handleMSCHAPv2Response lib h dr s ms pkt m)) = v2SPIPair s"
  by (simp add: handleMSCHAPv2Response_def Let_def v2SPIPair_def split: option.split sum.split)

lemma handleMSCHAPv2SuccessAck_pair: "v2SPIPair (snd (handleMSCHAPv2SuccessAck lib h dr s ms m)) = v2SPIPair s"
  by (simp add: handleMSCHAPv2SuccessAck_def Let_def v2SPIPair_def split: option.split sum.split)

lemma processEAPResponse_pair:
  assumes "v2_inv lib h s"
  shows "v2SPIPair (snd (processEAPResponse lib tls h dr s pkt m)) = v2SPIPair s"
proof -
  have u: "v2SPIPair (s\<lparr>EAPIdentifier := i\<rparr>) = v2SPIPair s" for i by (simp add: v2SPIPair_def)
  show ?thesis
    using assms handleEAPIdentity_pair handleMSCHAPv2Response_pair handleMSCHAPv2SuccessAck_pair u
    by (cases "eapState s") (simp_all add: processEAPResponse_def handleEAPMSCHAPv2_def handleEAPTLS_def v2_inv_def)
qed

lemma handleFinalEAPAuth_pair: "v2SPIPair (snd (handleFinalEAPAuth lib h dr s chain m a d)) = v2SPIPair s"
proof -
  define s1 where "s1 = (case EAPMSK s of None \<Rightarrow> s | Some msk \<Rightarrow> s\<lparr>PSK := msk\<rparr>)"
  have i: "v2SPIPair s1 = v2SPIPair s" by (auto simp: s1_def v2SPIPair_def split: option.split)
  obtain r s2 where f: "finishAuth lib h dr s1 m (pendingAuthSA s1) (pendingAuthTSi s1) (pendingAuthTSr s1) (pendingAuthCP s1) a d = (r, s2)"
    by (cases "finishAuth lib h dr s1 m (pendingAuthSA s1) (pendingAuthTSi s1) (pendingAuthTSr s1) (pendingAuthCP s1) a d")
  have "v2SPIPair s2 = v2SPIPair s1"
    using f finishAuth_pair [of lib h dr s1 m "pendingAuthSA s1" "pendingAuthTSi s1" "pendingAuthTSr s1" "pendingAuthCP s1" a d] by simp
  with i f show ?thesis
    unfolding handleFinalEAPAuth_def s1_def [symmetric] Let_def by (simp add: v2SPIPair_def split: option.split)
qed

lemma authExchange_pair:
  assumes "v2_inv lib h s"
  shows "v2SPIPair (snd (authExchange lib tls h dr s msg a d)) = v2SPIPair s"
  using HandleAuth_pair handleFinalEAPAuth_pair processEAPResponse_pair [OF assms]
  by (simp add: authExchange_def HandleAuthEAP_def split: sum.split option.split)

lemma session_reachable_inv: "session_reachable lib tls h sess \<Longrightarrow> v2_inv lib h sess"
  by (induction rule: session_reachable.induct) (simp_all add: HandleSAInit_inv authExchange_inv HandleCreateChildSA_inv)

lemma HandleSAInit_peer:
  assumes "HandleSAInit lib h dr msg peer = Inr (resp, Some sess)"
  shows "PeerID sess = []"
proof -
  obtain sel selProp ke ni where "saInitKeys lib h dr msg peer sel selProp ke ni = Inr (resp, Some sess)"
    using HandleSAInit_Some [OF assms] by blast
  from saInitKeys_Some [OF this] obtain spiR nonceR dhKeys shared pa enc integ keys where
    "saInitFinish lib msg (initSession h msg peer sel ke ni spiR nonceR dhKeys shared pa enc integ keys) selProp = Inr (resp, Some sess)"
    by blast
  from saInitFinish_Some [OF this] obtain req b c bytes where
    "sess = (initSession h msg peer sel ke ni spiR nonceR dhKeys shared pa enc integ keys)
      \<lparr>InitReqBytes := req, BehindNATRemote := b, PeerSupportsFragmentation := c, InitRespBytes := bytes\<rparr>"
    by blast
  then show ?thesis by (simp add: initSession_def)
qed

definition v1_fresh :: "IKEv1Session \<Rightarrow> bool" where
  "v1_fresh t \<longleftrightarrow> s1State t = StateV1MainSARecv \<and> s1Keys t = None \<and> s1ChildSAs t = [] \<and> s1PeerID t = []"

lemma HandleMainMode1_fresh: "HandleMainMode1 h dr msg peer = Inr (resp, t) \<Longrightarrow> v1_fresh t"
  by (auto simp: HandleMainMode1_def newV1Session_def v1_fresh_def Let_def split: option.split_asm sum.split_asm prod.split_asm)

lemma HandleTransaction_fresh: "v1_fresh t \<Longrightarrow> HandleTransaction lib h t packet hdr = (Inl (V1State StateV1MainSARecv), t)"
  by (simp add: HandleTransaction_def v1_fresh_def)

definition server_inv :: "ike_lib \<Rightarrow> tls_lib \<Rightarrow> engine option \<Rightarrow> IKEv1Handler \<Rightarrow> IKEv2Handler \<Rightarrow> ike_server \<Rightarrow> bool" where
  "server_inv lib tls e h1 h2 s \<longleftrightarrow>
     V1Handler s = h1 \<and> V2Handler s = h2 \<and> espEngine (sessionMgr s) = e \<and> identityMap (sessionMgr s) = Map.empty \<and>
     assignedIPs (sessionMgr s) = [] \<and>
     (\<forall>p t. GetV1Session (sessionMgr s) p = Some t \<longrightarrow> v1_fresh t) \<and>
     (\<forall>p t. GetV2Session (sessionMgr s) p = Some t \<longrightarrow> p = v2SPIPair t \<and> session_reachable lib tls h2 t)"


inductive server_reachable :: "ike_lib \<Rightarrow> tls_lib \<Rightarrow> engine option \<Rightarrow> IKEv1Handler \<Rightarrow> IKEv2Handler \<Rightarrow> ike_server \<Rightarrow> bool"
  for lib tls e h1 h2 where
  sr_new: "server_reachable lib tls e h1 h2 (NewIkeServer (NewSessionManager e) h1 h2 sender)"
| sr_packet: "server_reachable lib tls e h1 h2 s \<Longrightarrow> HandleIkePacket lib tls dr dr1 s buf n peer natt = Some (s', effs) \<Longrightarrow>
    server_reachable lib tls e h1 h2 s'"

lemma answer_Some: "answer s panics r peer natt = Some (s', effs) \<Longrightarrow> s' = s"
  by (auto simp: answer_def split: sum.split_asm if_split_asm)

lemma server_inv_saInit:
  assumes "server_inv lib tls e h1 h2 s" and "saInitV2 lib dr s msg peer natt = Some (s', effs)"
  shows "server_inv lib tls e h1 h2 s'"
proof (cases "HandleSAInit lib (V2Handler s) dr msg peer")
  case (Inl x)
  then show ?thesis using assms by (auto simp: saInitV2_def split: if_split_asm)
next
  case (Inr r)
  then obtain resp new where r: "HandleSAInit lib (V2Handler s) dr msg peer = Inr (resp, new)" by (cases r) auto
  show ?thesis
  proof (cases new)
    case None
    then have "s' = s" using r assms(2) by (simp add: saInitV2_def Let_def)
    with assms(1) show ?thesis by simp
  next
    case (Some sess)
    have h: "V2Handler s = h2" "identityMap (sessionMgr s) = Map.empty" using assms(1) by (simp_all add: server_inv_def)
    from r h Some have i: "HandleSAInit lib h2 dr msg peer = Inr (resp, Some sess)" by simp
    have reg: "RegisterV2Session sess (sessionMgr s) =
        Some ((sessionMgr s)\<lparr>v2Sessions := (v2Sessions (sessionMgr s))(v2SPIPair sess \<mapsto> sess)\<rparr>)"
      using h HandleSAInit_peer [OF i] by (simp add: RegisterV2Session_def Let_def)
    with r Some assms(2) have "s' = s\<lparr>sessionMgr := (sessionMgr s)\<lparr>v2Sessions := (v2Sessions (sessionMgr s))(v2SPIPair sess \<mapsto> sess)\<rparr>\<rparr>"
      by (auto simp: saInitV2_def Let_def)
    with assms(1) reach_init [OF i] show ?thesis
      by (auto simp: server_inv_def GetV2Session_def GetV1Session_def)
  qed
qed

lemma server_inv_v2:
  assumes "server_inv lib tls e h1 h2 s" and "handleIKEv2 lib tls dr s packet peer natt = Some (s', effs)"
    and "ParseIkeHeader packet = Inr hdr" and "MajorVersion hdr = IKEv2Major"
  shows "server_inv lib tls e h1 h2 s'"
proof (cases "ParseMessage packet")
  case (Inl x)
  then show ?thesis using assms(1,2) by (auto simp: handleIKEv2_def split: if_split_asm)
next
  case (Inr msg)
  have v2: "IsIKEv2 (mHeader msg)" using ParseMessage_header_eq [OF Inr] assms(3,4) by (simp add: IsIKEv2_def)
  consider "Exchange (mHeader msg) = ExchangeIKESAInit" | "Exchange (mHeader msg) = ExchangeIKEAuth" |
    "Exchange (mHeader msg) = ExchangeInformational" | "s' = s"
    using assms(2) Inr by (auto simp: handleIKEv2_def split: if_split_asm)
  then show ?thesis
  proof cases
    case 1
    then have "saInitV2 lib dr s msg peer natt = Some (s', effs)" using assms(2) Inr by (simp add: handleIKEv2_def)
    then show ?thesis by (rule server_inv_saInit [OF assms(1)])
  next
    case 2
    show ?thesis
    proof (cases "GetV2Session (sessionMgr s) (SPIPair (mHeader msg))")
      case None
      then have "s' = s" using 2 assms(2) Inr by (simp add: handleIKEv2_def)
      with assms(1) show ?thesis by simp
    next
      case (Some sess)
      let ?x = "authExchange lib tls (V2Handler s) dr sess msg None []"
      have "s' = putV2 s (SPIPair (mHeader msg)) (snd ?x)"
        using 2 Some assms(2) Inr answer_Some by (auto simp: handleIKEv2_def split: prod.split_asm)
      moreover have h: "SPIPair (mHeader msg) = v2SPIPair sess" "session_reachable lib tls h2 sess" "V2Handler s = h2"
        using Some assms(1) by (auto simp: server_inv_def)
      moreover have "v2SPIPair (snd ?x) = v2SPIPair sess"
        using authExchange_pair [OF session_reachable_inv [OF h(2)]] h(3) by simp
      moreover have "session_reachable lib tls h2 (snd ?x)" using reach_auth [OF h(2)] h(3) by simp
      ultimately show ?thesis using assms(1) by (auto simp: server_inv_def putV2_def GetV2Session_def GetV1Session_def)
    qed
  next
    case 3
    have "s' = s"
    proof (cases "GetV2Session (sessionMgr s) (SPIPair (mHeader msg))")
      case (Some sess)
      obtain x where "HandleInformational lib dr (Some sess) msg (sessionMgr s) = (Inl x, sessionMgr s)"
        using HandleInformational_parsed [OF Inr v2, of lib dr sess "sessionMgr s"] by blast
      then show ?thesis using 3 Some assms(2) Inr by (auto simp: handleIKEv2_def answer_def split: if_split_asm)
    qed (use 3 assms(2) Inr in \<open>simp add: handleIKEv2_def\<close>)
    with assms(1) show ?thesis by simp
  qed (use assms(1) in simp)
qed

lemma server_inv_v1:
  assumes "server_inv lib tls e h1 h2 s" and "handleIKEv1 lib dr s packet hdr peer natt = Some (s', effs)"
  shows "server_inv lib tls e h1 h2 s'"
proof -
  consider "mainMode1 dr s packet peer natt = Some (s', effs)" | "Exchange hdr = ExchangeTransaction" | "s' = s"
    using assms(2) by (auto simp: handleIKEv1_def split: if_split_asm)
  then show ?thesis
  proof cases
    case 1
    show ?thesis
    proof (cases "s' = s")
      case False
      then obtain msg resp t sm where m: "HandleMainMode1 (V1Handler s) dr msg peer = Inr (resp, t)"
        "RegisterV1Session t (sessionMgr s) = Some sm" "s' = s\<lparr>sessionMgr := sm\<rparr>"
        using 1 by (auto simp: mainMode1_def Let_def split: sum.split_asm if_split_asm option.split_asm)
      have f: "v1_fresh t" by (rule HandleMainMode1_fresh [OF m(1)])
      then have "sm = (sessionMgr s)\<lparr>v1Sessions := (v1Sessions (sessionMgr s))(v1SPIPair t \<mapsto> t)\<rparr>"
        using m(2) by (simp add: RegisterV1Session_def Let_def v1_fresh_def)
      with m(3) f assms(1) show ?thesis by (auto simp: server_inv_def GetV1Session_def GetV2Session_def)
    qed (use assms(1) in simp)
  next
    case 2
    show ?thesis
    proof (cases "GetV1Session (sessionMgr s) (SPIPair hdr)")
      case None
      then have "s' = s" using 2 assms(2) by (simp add: handleIKEv1_def)
      with assms(1) show ?thesis by simp
    next
      case (Some t)
      then have f: "v1_fresh t" using assms(1) by (simp add: server_inv_def)
      have "s' = putV1 s (SPIPair hdr) t"
        using 2 Some assms(2) HandleTransaction_fresh [OF f] answer_Some by (auto simp: handleIKEv1_def)
      with f assms(1) show ?thesis by (auto simp: server_inv_def putV1_def GetV1Session_def GetV2Session_def)
    qed
  qed (use assms(1) in simp)
qed

lemma server_reachable_inv:
  assumes "server_reachable lib tls e h1 h2 s"
  shows "server_inv lib tls e h1 h2 s"
  using assms
proof induction
  case (sr_new sender)
  show ?case by (simp add: server_inv_def NewIkeServer_def NewSessionManager_def GetV1Session_def GetV2Session_def)
next
  case (sr_packet s dr dr1 buf n peer natt s' effs)
  show ?case
  proof (cases "s' = s")
    case False
    then obtain hdr where hdr: "ParseIkeHeader (take n buf) = Inr hdr"
      "(MajorVersion hdr = IKEv2Major \<and> handleIKEv2 lib tls dr s (take n buf) peer natt = Some (s', effs)) \<or>
        handleIKEv1 lib dr1 s (take n buf) hdr peer natt = Some (s', effs)"
      using sr_packet.hyps(2) by (auto simp: HandleIkePacket_def Let_def split: if_split_asm sum.split_asm)
    from hdr(2) show ?thesis
      using server_inv_v2 [OF sr_packet.IH _ hdr(1)] server_inv_v1 [OF sr_packet.IH] by auto
  qed (use sr_packet.IH in simp)
qed

text \<open>
  Sessions and table agree. In every server that any datagrams lead to, an IKEv2 session lies under its
  own SPI pair and is one that SA_INIT made and the IKE_AUTH handlers advanced: so everything proved of reachable
  sessions holds of the sessions of a running server. An established one has a child SA.
\<close>

theorem server_sessions_sound:
  assumes "server_reachable lib tls e h1 h2 s" and "GetV2Session (sessionMgr s) p = Some sess"
  shows "p = v2SPIPair sess \<and> session_reachable lib tls h2 sess \<and> (s2State sess = StateV2Established \<longrightarrow> ChildSAs sess \<noteq> [])"
proof -
  have "p = v2SPIPair sess" "session_reachable lib tls h2 sess"
    using server_reachable_inv [OF assms(1)] assms(2) by (auto simp: server_inv_def)
  then show ?thesis using session_reachable_inv [of lib tls h2 sess] by (simp add: v2_inv_def)
qed

text \<open>
  C26. What the server never does. Whatever datagrams arrive: no IKEv1 session ever gets past the first message of Main
  Mode, so none has keys or a child SA; no identity is ever recorded, so the rule of one
  connection per identity is never applied; and the ESP engine stays as it was at the start, so no
  negotiated child SA ever carries traffic.
\<close>

theorem server_never:
  assumes "server_reachable lib tls e h1 h2 s"
  shows "(\<forall>p t. GetV1Session (sessionMgr s) p = Some t \<longrightarrow>
      s1State t = StateV1MainSARecv \<and> s1Keys t = None \<and> s1ChildSAs t = []) \<and>
    identityMap (sessionMgr s) = Map.empty \<and> assignedIPs (sessionMgr s) = [] \<and> espEngine (sessionMgr s) = e"
  using server_reachable_inv [OF assms] by (auto simp: server_inv_def v1_fresh_def)

text \<open>
  Answers find their way through NAT traversal. What the server sends on port 4500 is an answer of the handlers behind
  a Non-ESP marker: the demultiplexer of the receiving side takes it for IKE and gives its IKE code exactly
  the serialised answer, never for ESP.
\<close>

theorem natt_answers_are_ike:
  assumes "SendTo port d addr \<in> set (sendResponse s msg peer natt)"
  shows "\<exists>data. fst (MarshalMessage msg) = Inr data \<and> addr = peer \<and>
    (if natt then port = 4500 \<and> ClassifyNATT d = Inr (PacketTypeIKE, data) else port = 500 \<and> d = data)"
proof -
  obtain data where m: "fst (MarshalMessage msg) = Inr data" "udpSender s"
    using assms by (cases "fst (MarshalMessage msg)") (auto simp: sendResponse_def split: if_split_asm)
  have "copy_at 4 data (replicate (length data + 4) 0) = PrependNonESPMarker data"
    by (simp add: PrependNonESPMarker_def NonESPMarkerLen_def add.commute)
  with m assms show ?thesis by (auto simp: sendResponse_def ClassifyNATT_marker split: if_split_asm)
qed

section \<open>Examples\<close>

definition exampleServer :: ike_server where
  "exampleServer = NewIkeServer (NewSessionManager None) exampleV1Handler (exampleV2Handler CookieModeAuto) True"

lemma example_reachable: "server_reachable exampleIkeLib exampleTls None exampleV1Handler (exampleV2Handler CookieModeAuto) exampleServer"
  by (simp add: exampleServer_def sr_new)

lemma exampleRequest_ok: "message_ok (exampleRequest [])"
proof -
  have "prop_wf (Proposals DefaultIKEProposals ! 1)" by code_simp
  then show ?thesis
    using length_examplePub
    by (simp add: message_ok_def exampleRequest_def ikeHeader_wf_def IsIKEv2_def IKEv2Major_def payload_ok_def payloadBody_def bodySA_def bodyKE_def
        linkPayloads_Cons)
      (simp add: DefaultIKEProposals_def mkProposal_def xform_def marshalV2Proposal_def marshalV2Transform_def)
qed

lemma MarshalMessage_again: "MarshalMessage m = (Inr b, m') \<Longrightarrow> MarshalMessage m' = (Inr b, m')"
  by (auto simp: MarshalMessage_def Let_def split: if_split_asm prod.split_asm sum.split_asm)

lemma HandleSAInit_serialised:
  assumes "HandleSAInit lib h dr msg peer = Inr (resp, Some sess)"
  shows "\<exists>b. fst (MarshalMessage resp) = Inr b"
proof -
  obtain sel selProp ke ni where "saInitKeys lib h dr msg peer sel selProp ke ni = Inr (resp, Some sess)"
    using HandleSAInit_Some [OF assms] by blast
  from saInitKeys_Some [OF this] obtain spiR nonceR dhKeys shared pa enc integ keys where
    "saInitFinish lib msg (initSession h msg peer sel ke ni spiR nonceR dhKeys shared pa enc integ keys) selProp = Inr (resp, Some sess)"
    by blast
  from saInitFinish_Some [OF this] obtain b where "MarshalMessage (saInitResponse lib sess selProp) = (Inr b, resp)"
    by blast
  from MarshalMessage_again [OF this] show ?thesis by simp
qed

text \<open>The example request, serialised, arrives: the server has a session.\<close>

lemma example_packet_for:
  fixes srv :: ike_server
  assumes "cookieMode (V2Handler srv) \<noteq> CookieModeBusy \<and> defaultIKEProposals (V2Handler srv) = DefaultIKEProposals"
    and "identityMap (sessionMgr srv) = Map.empty"
  shows "\<exists>buf sess s effs. HandleIkePacket exampleIkeLib exampleTls exampleDraws exampleV1Draws srv buf (length buf) examplePeer False = Some (s, effs) \<and>
     GetV2Session (sessionMgr s) (v2SPIPair sess) = Some sess \<and> (udpSender srv \<longrightarrow> (\<exists>data. effs = [SendTo 500 data examplePeer]))"
proof -
  let ?m = "exampleRequest []" and ?lib = exampleIkeLib and ?h = "V2Handler srv"
  obtain buf where "fst (MarshalMessage ?m) = Inr buf" "ParseMessage (buf @ []) =
      Inr \<lparr>mHeader = mHeader (snd (MarshalMessage ?m)), mPayloads = chainOf (map ppPayload (mPayloads ?m)), RawMessage = []\<rparr>"
    using MarshalMessage_ParseMessage [OF exampleRequest_ok] by blast
  moreover have mm: "mHeader (snd (MarshalMessage ?m)) = finalHeader ?m" by (simp add: MarshalMessage_eq [OF exampleRequest_ok])
  ultimately obtain msg where p: "ParseMessage buf = Inr msg" "mHeader msg = finalHeader ?m" "mPayloads msg = chainOf (map ppPayload (mPayloads ?m))"
    "RawMessage msg = []" by (metis Message.select_convs append_Nil2)
  have hdr: "InitiatorSPI (mHeader msg) = replicate 8 1" "MajorVersion (mHeader msg) = 2" "Exchange (mHeader msg) = ExchangeIKESAInit"
    by (simp_all add: p(2) finalHeader_def exampleRequest_def)
  let ?sa = "\<lparr>Proposals = normProposals [Proposals DefaultIKEProposals ! 1]\<rparr>"
  have ps: "findPayloadAs asSA (mPayloads msg) = Some ?sa"
    "findPayloadAs asKE (mPayloads msg) = Some \<lparr>DHGroup = 14, keData = examplePub\<rparr>" "findPayloadAs asNonce (mPayloads msg) = Some [1, 2, 3]"
    "findNotifyPayload (mPayloads msg) NotifyCookie = None"
    by (simp_all add: p(3) exampleRequest_def as_defs payloadNorm_def findNotifyPayload_def)
  have sel: "SelectProposal (\<lambda>_. [1, 2, 3, 4, 5]) (\<lambda>_. [1, 2, 3, 4, 5]) (Some DefaultIKEProposals) (Some ?sa) =
      Inr (exampleSel, (Proposals DefaultIKEProposals ! 1)\<lparr>propIsLast := True\<rparr>)"
    by code_simp
  have "length (marshalAll marshalV2Proposal (normProposals [Proposals DefaultIKEProposals ! 1])) \<le> 100" by code_simp
  then have "\<exists>req msg'. MarshalMessage msg = (Inr req, msg')"
    using length_examplePub
    by (intro MarshalMessage_Inr)
      (simp_all add: p(3,4) exampleRequest_def linkPayloads_Cons payloadNorm_def payloadBody_def bodySA_def bodyKE_def)
  then obtain req msg' where m: "MarshalMessage msg = (Inr req, msg')" by blast
  obtain resp sess where h: "HandleSAInit ?lib ?h exampleDraws msg examplePeer = Inr (resp, Some sess)"
    using example_sa_init_for [OF hdr(1) ps assms(1) sel m] by auto
  have "RegisterV2Session sess (sessionMgr srv) =
      Some ((sessionMgr srv)\<lparr>v2Sessions := (v2Sessions (sessionMgr srv))(v2SPIPair sess \<mapsto> sess)\<rparr>)"
    using HandleSAInit_peer [OF h] assms(2) by (simp add: RegisterV2Session_def Let_def)
  moreover obtain d where "fst (MarshalMessage resp) = Inr d" using HandleSAInit_serialised [OF h] by blast
  ultimately obtain s effs where s: "saInitV2 ?lib exampleDraws srv msg examplePeer False = Some (s, effs)"
    "GetV2Session (sessionMgr s) (v2SPIPair sess) = Some sess" "udpSender srv \<longrightarrow> effs = [SendTo 500 d examplePeer]"
    using h by (auto simp: saInitV2_def GetV2Session_def sendResponse_def Let_def)
  have "HeaderLen \<le> length buf" "Validate (mHeader msg) = None" "ParseIkeHeader buf = Inr (mHeader msg)"
    using p(1) ParseMessage_header_eq [OF p(1)] by (auto simp: ParseMessage_def Let_def split: if_split_asm option.split_asm sum.split_asm)
  then have "HandleIkePacket ?lib exampleTls exampleDraws exampleV1Draws srv buf (length buf) examplePeer False =
      handleIKEv2 ?lib exampleTls exampleDraws srv buf examplePeer False"
    by (simp add: HandleIkePacket_def hdr IKEv2Major_def)
  also have "\<dots> = Some (s, effs)" using p(1) hdr s(1) by (simp add: handleIKEv2_def)
  finally show ?thesis using s(2,3) by blast
qed

lemma example_packet:
  "\<exists>buf sess s effs. HandleIkePacket exampleIkeLib exampleTls exampleDraws exampleV1Draws exampleServer buf (length buf) examplePeer False = Some (s, effs) \<and>
     GetV2Session (sessionMgr s) (v2SPIPair sess) = Some sess"
  using example_packet_for [of exampleServer]
  by (auto simp: exampleServer_def NewIkeServer_def NewSessionManager_def exampleV2Handler_def NewIKEv2Handler_def)

theorem server_sessions_sound_witness:
  "\<exists>(s :: ike_server) p sess. server_reachable exampleIkeLib exampleTls None exampleV1Handler (exampleV2Handler CookieModeAuto) s \<and>
     GetV2Session (sessionMgr s) p = Some sess \<and> session_reachable exampleIkeLib exampleTls (exampleV2Handler CookieModeAuto) sess"
proof -
  obtain buf sess s effs where p: "HandleIkePacket exampleIkeLib exampleTls exampleDraws exampleV1Draws exampleServer buf (length buf) examplePeer False = Some (s, effs)"
    "GetV2Session (sessionMgr s) (v2SPIPair sess) = Some sess" using example_packet by blast
  note r = sr_packet [OF example_reachable p(1)]
  show ?thesis using server_sessions_sound [OF r p(2)] r p(2) by blast
qed

theorem server_never_witness:
  "\<exists>s :: ike_server. server_reachable exampleIkeLib exampleTls None exampleV1Handler (exampleV2Handler CookieModeAuto) s \<and>
     v2Sessions (sessionMgr s) \<noteq> Map.empty \<and> identityMap (sessionMgr s) = Map.empty"
proof -
  obtain buf sess s effs where p: "HandleIkePacket exampleIkeLib exampleTls exampleDraws exampleV1Draws exampleServer buf (length buf) examplePeer False = Some (s, effs)"
    "GetV2Session (sessionMgr s) (v2SPIPair sess) = Some sess" using example_packet by blast
  note r = sr_packet [OF example_reachable p(1)]
  have "v2Sessions (sessionMgr s) \<noteq> Map.empty" using p(2) by (auto simp: GetV2Session_def)
  with server_never [OF r] r show ?thesis by blast
qed

theorem natt_answers_are_ike_witness:
  "SendTo 4500 [0, 0, 0, 0, 7, 8] examplePeer \<in>
     set (sendResponse exampleServer \<lparr>mHeader = exampleHeader 0 0, mPayloads = [], RawMessage = [7, 8]\<rparr> examplePeer True) \<and>
   ClassifyNATT [0, 0, 0, 0, 7, 8] = Inr (PacketTypeIKE, [7, 8])"
proof -
  let ?m = "\<lparr>mHeader = exampleHeader 0 0, mPayloads = [], RawMessage = [7, 8]\<rparr>"
  have m: "MarshalMessage ?m = (Inr [7, 8], ?m)" by (simp add: MarshalMessage_def)
  have "SendTo 4500 [0, 0, 0, 0, 7, 8] examplePeer \<in> set (sendResponse exampleServer ?m examplePeer True)"
    by (simp add: sendResponse_def m exampleServer_def NewIkeServer_def copy_at_def numeral_eq_Suc)
  from natt_answers_are_ike [OF this] this m show ?thesis by auto
qed

theorem informational_refused_witness:
  "\<exists>buf msg. ParseMessage buf = Inr msg \<and> mPayloads msg \<noteq> [] \<and>
     (\<exists>e. HandleInformational exampleIkeLib exampleDraws (Some exampleV2Session) msg (NewSessionManager None) = (Inl e, NewSessionManager None))"
proof -
  let ?buf = "MarshalBinary (exampleHeader PayloadSK 36) @ [0, 0, 0, 8, 1, 2, 3, 4]"
  have "case ParseMessage ?buf of Inl _ \<Rightarrow> False | Inr m \<Rightarrow> IsIKEv2 (mHeader m) \<and> mPayloads m \<noteq> []"
    by code_simp
  then obtain msg where m: "ParseMessage ?buf = Inr msg" "IsIKEv2 (mHeader msg)" "mPayloads msg \<noteq> []"
    by (cases "ParseMessage ?buf") auto
  with informational_refused [OF m(1,2)] show ?thesis by blast
qed

end
