(* ===== verification/Config.thy ===== *)
theory Config
  imports Prelude "HOL-Library.AList"
begin

text \<open>
  The configuration of the daemon (\<^verbatim>\<open>internal/config/types.go\<close>) and its validation
  (\<^verbatim>\<open>applyDefaultsAndValidate\<close>, \<^verbatim>\<open>applyConnectionDefaults\<close> in \<^verbatim>\<open>loader.go\<close>). A Go
  \<^verbatim>\<open>map[string]*ConnectionConfig\<close> is an association list with distinct keys whose values may
  be nil pointers (\<^const>\<open>None\<close>): YAML decodes a connection without a body to one. The order in
  which \<^verbatim>\<open>range\<close> visits a map is an argument.
\<close>

section \<open>The structures\<close>

record CfgServer =
  Hostname :: string
  Listen :: string

record TUNConfig =
  DeviceName :: string
  TunMTU :: int

record LoggingConfig =
  LogLevel :: string
  LogOutput :: string
  LogFile :: string
  MaxSize :: int
  MaxBackups :: int
  MaxAge :: int
  LogCompress :: bool

record ConnectionConfig =
  connLeft :: string
  connLeftID :: string
  connLeftSubnet :: string
  connLeftSourceIP :: string
  connLeftNextHop :: string
  connLeftProtoPort :: string
  connLeftAddressPool :: string
  connLeftCert :: string
  connLeftAuth :: string
  connLeftSendCert :: string
  connLeftModeCfgServer :: string
  connLeftModeCfgClient :: string
  connRight :: string
  connRightID :: string
  connRightSubnet :: string
  connRightSourceIP :: string
  connRightNextHop :: string
  connRightProtoPort :: string
  connRightAddressPool :: string
  connRightCert :: string
  connRightAuth :: string
  connRightSendCert :: string
  connRightModeCfgServer :: string
  connRightModeCfgClient :: string
  connAuthBy :: string
  connPSK :: string
  connType :: string
  connAuto :: string
  connKeyExchange :: string
  connIKE :: string
  connESP :: string
  connPhase2Alg :: string
  connPhase2 :: string
  connEncapsulation :: string
  connNATKeepalive :: string
  connEnableTCP :: string
  connTCPRemotePort :: int
  connIKELifetime :: string
  connSALifetime :: string
  connRekey :: string
  connRekeyMargin :: string
  connRekeyFuzz :: string
  connKeyingTries :: int
  connPFS :: string
  connDPDDelay :: int
  connDPDTimeout :: int
  connDPDAction :: string
  connMOBIKE :: string
  connFragmentation :: string
  connReplayWindow :: int
  connESN :: string
  connRetransmitTimeout :: string
  connRetransmitInterval :: int
  connCompress :: string
  connSHA2TruncBug :: string
  connNarrowing :: string
  connInitialContact :: string
  connModeCfgDNS :: string
  connModeCfgDomains :: string
  connHostAddrFamily :: string
  connClientAddrFamily :: string

type_synonym connections = "(string \<times> ConnectionConfig option) list"

record IPSecConfig =
  ipConnections :: connections
  ConnectionDir :: "string list"
  ipHotReload :: bool

record IPAMConfig =
  ipamRange :: string
  ipamDNS :: "string list"

record IKEv2Config =
  v2Enabled :: bool
  v2CookieMode :: string
  v2IPAM :: IPAMConfig
  v2Profile :: "string list"
  v2HotReload :: bool

record L2TPIPAMConfig =
  l2Gateway :: string
  l2Range :: string
  l2DNS :: "string list"

record L2TPConfig =
  l2Enabled :: bool
  l2IPAM :: L2TPIPAMConfig
  l2Profile :: "string list"
  l2HotReload :: bool

record Config =
  cfgServer :: CfgServer
  cfgLogging :: LoggingConfig
  cfgTUN :: TUNConfig
  cfgIPSec :: IPSecConfig
  cfgIKEv2 :: IKEv2Config
  cfgL2TP :: L2TPConfig

text \<open>The zero value of a connection: what an empty YAML mapping decodes to.\<close>

definition zeroConnection :: ConnectionConfig where
  "zeroConnection = ConnectionConfig.make
     '''' '''' '''' '''' '''' '''' '''' '''' '''' '''' '''' '''' '''' '''' '''' '''' '''' '''' '''' '''' '''' '''' '''' '''' '''' '''' '''' '''' '''' '''' '''' '''' '''' '''' '''' '''' 0 '''' '''' '''' '''' '''' 0 '''' 0 0 '''' '''' '''' 0 '''' '''' 0 '''' '''' '''' '''' '''' '''' '''' ''''"

section \<open>Defaults of a connection\<close>

datatype conn_error = LeftRequired | RightRequired | AuthByRequired | PSKRequired

definition orElse :: "string \<Rightarrow> string \<Rightarrow> string" where
  "orElse s d = (if s = [] then d else s)"

text \<open>
  The assignments of the source, in its order. Each field's default depends on that field
  alone, apart from \<^verbatim>\<open>DPDAction\<close> (on \<^verbatim>\<open>DPDDelay\<close>) and \<^verbatim>\<open>ESP\<close> (on \<^verbatim>\<open>Phase2Alg\<close>).
\<close>

definition fillDefaults :: "ConnectionConfig \<Rightarrow> ConnectionConfig" where
  "fillDefaults c = c\<lparr>
     connType := orElse (connType c) ''tunnel'',
     connAuto := orElse (connAuto c) ''ignore'',
     connKeyExchange := orElse (connKeyExchange c) ''ikev2'',
     connEncapsulation := orElse (connEncapsulation c) ''auto'',
     connNATKeepalive := orElse (connNATKeepalive c) ''yes'',
     connEnableTCP := orElse (connEnableTCP c) ''no'',
     connIKELifetime := orElse (connIKELifetime c) ''8h'',
     connSALifetime := orElse (connSALifetime c) ''8h'',
     connRekey := orElse (connRekey c) ''yes'',
     connRekeyMargin := orElse (connRekeyMargin c) ''9m'',
     connRekeyFuzz := orElse (connRekeyFuzz c) ''100%'',
     connPFS := orElse (connPFS c) ''yes'',
     connDPDAction := (if connDPDDelay c > 0 \<and> connDPDAction c = [] then ''clear'' else connDPDAction c),
     connMOBIKE := orElse (connMOBIKE c) ''no'',
     connFragmentation := orElse (connFragmentation c) ''yes'',
     connESN := orElse (connESN c) ''either'',
     connRetransmitTimeout := orElse (connRetransmitTimeout c) ''60s'',
     connRetransmitInterval := (if connRetransmitInterval c = 0 then 500 else connRetransmitInterval c),
     connCompress := orElse (connCompress c) ''no'',
     connSHA2TruncBug := orElse (connSHA2TruncBug c) ''no'',
     connNarrowing := orElse (connNarrowing c) ''no'',
     connInitialContact := orElse (connInitialContact c) ''yes'',
     connPhase2 := orElse (connPhase2 c) ''esp'',
     connESP := (if connESP c = [] \<and> connPhase2Alg c \<noteq> [] then connPhase2Alg c else connESP c)\<rparr>"

definition applyConnectionDefaults :: "ConnectionConfig \<Rightarrow> conn_error + ConnectionConfig" where
  "applyConnectionDefaults c =
     (if connLeft c = [] then Inl LeftRequired
      else if connRight c = [] then Inl RightRequired
      else if connAuthBy c = [] then Inl AuthByRequired
      else if connAuthBy c = ''secret'' \<and> connPSK c = [] then Inl PSKRequired
      else Inr (fillDefaults c))"

text \<open>What the rest of the daemon reads without checking again.\<close>

definition connValid :: "ConnectionConfig \<Rightarrow> bool" where
  "connValid c \<longleftrightarrow> connLeft c \<noteq> [] \<and> connRight c \<noteq> [] \<and> connAuthBy c \<noteq> []
     \<and> \<not> (connAuthBy c = ''secret'' \<and> connPSK c = [])"

definition defaultedFields :: "ConnectionConfig \<Rightarrow> string list" where
  "defaultedFields c = [connType c, connAuto c, connKeyExchange c, connEncapsulation c, connNATKeepalive c,
     connEnableTCP c, connIKELifetime c, connSALifetime c, connRekey c, connRekeyMargin c,
     connRekeyFuzz c, connPFS c, connMOBIKE c, connFragmentation c, connESN c,
     connRetransmitTimeout c, connCompress c, connSHA2TruncBug c, connNarrowing c,
     connInitialContact c, connPhase2 c]"

definition connComplete :: "ConnectionConfig \<Rightarrow> bool" where
  "connComplete c \<longleftrightarrow>
     [] \<notin> set (defaultedFields c)
     \<and> connRetransmitInterval c \<noteq> 0
     \<and> \<not> (connDPDDelay c > 0 \<and> connDPDAction c = [])
     \<and> \<not> (connESP c = [] \<and> connPhase2Alg c \<noteq> [])"

lemma orElse_not_Nil [simp]: "d \<noteq> [] \<Longrightarrow> orElse s d \<noteq> []"
  by (simp add: orElse_def)

lemma orElse_set [simp]: "s \<noteq> [] \<Longrightarrow> orElse s d = s"
  by (simp add: orElse_def)

lemma fillDefaults_complete: "connComplete (fillDefaults c)"
  by (simp add: connComplete_def defaultedFields_def fillDefaults_def orElse_def)

lemma fillDefaults_id:
  assumes "connComplete c"
  shows "fillDefaults c = c"
proof -
  from assms have f:
    "(if connDPDDelay c > 0 \<and> connDPDAction c = [] then ''clear'' else connDPDAction c) = connDPDAction c"
    "(if connRetransmitInterval c = 0 then 500 else connRetransmitInterval c) = connRetransmitInterval c"
    "(if connESP c = [] \<and> connPhase2Alg c \<noteq> [] then connPhase2Alg c else connESP c) = connESP c"
    by (auto simp: connComplete_def)
  have g: "orElse x d = x" if "x \<in> set (defaultedFields c)" for x d
    using assms that by (intro orElse_set) (auto simp: connComplete_def)
  show ?thesis unfolding fillDefaults_def f by (simp add: g defaultedFields_def)
qed

lemma fillDefaults_idem: "fillDefaults (fillDefaults c) = fillDefaults c"
  by (rule fillDefaults_id [OF fillDefaults_complete])

lemma fillDefaults_identity [simp]:
  "connLeft (fillDefaults c) = connLeft c" "connRight (fillDefaults c) = connRight c"
  "connRightID (fillDefaults c) = connRightID c" "connAuthBy (fillDefaults c) = connAuthBy c"
  "connPSK (fillDefaults c) = connPSK c"
  "connKeyExchange (fillDefaults c) = orElse (connKeyExchange c) ''ikev2''"
  by (simp_all add: fillDefaults_def)

lemma connValid_fillDefaults [simp]: "connValid (fillDefaults c) = connValid c"
  by (simp add: connValid_def)

lemma applyConnectionDefaults_Inr_iff:
  "applyConnectionDefaults c = Inr c' \<longleftrightarrow> connValid c \<and> c' = fillDefaults c"
  by (auto simp: applyConnectionDefaults_def connValid_def)

lemma applyConnectionDefaults_Inl_iff:
  "(\<exists>e. applyConnectionDefaults c = Inl e) \<longleftrightarrow> \<not> connValid c"
  by (auto simp: applyConnectionDefaults_def connValid_def)

section \<open>Validation of the whole configuration\<close>

datatype config_error =
    HostnameUnavailable
  | NoConnections
  | BadConnection string conn_error

fun defaultsLoop :: "string list \<Rightarrow> connections \<Rightarrow> (config_error + connections) option" where
  "defaultsLoop [] m = Some (Inr m)"
| "defaultsLoop (name # ns) m =
     (case map_of m name of
        None \<Rightarrow> defaultsLoop ns m
      | Some None \<Rightarrow> None
      | Some (Some c) \<Rightarrow>
          (case applyConnectionDefaults c of
             Inl e \<Rightarrow> Some (Inl (BadConnection name e))
           | Inr c' \<Rightarrow> defaultsLoop ns (AList.update name (Some c') m)))"

definition serverDefaults :: "string \<Rightarrow> CfgServer \<Rightarrow> CfgServer" where
  "serverDefaults h s = s\<lparr>Hostname := orElse (Hostname s) h, Listen := orElse (Listen s) ''0.0.0.0''\<rparr>"

definition loggingDefaults :: "LoggingConfig \<Rightarrow> LoggingConfig" where
  "loggingDefaults l = l\<lparr>
     LogLevel := orElse (LogLevel l) ''info'',
     LogOutput := orElse (LogOutput l) ''stdout'',
     MaxSize := (if MaxSize l = 0 then 10 else MaxSize l),
     MaxBackups := (if MaxBackups l = 0 then 5 else MaxBackups l),
     MaxAge := (if MaxAge l = 0 then 7 else MaxAge l)\<rparr>"

definition defaultDNS :: "string list" where
  "defaultDNS = [''1.1.1.1'', ''1.0.0.1'']"

definition ikev2Defaults :: "IKEv2Config \<Rightarrow> IKEv2Config" where
  "ikev2Defaults v = v\<lparr>
     v2CookieMode := orElse (v2CookieMode v) ''auto'',
     v2IPAM := (v2IPAM v)\<lparr>
       ipamRange := orElse (ipamRange (v2IPAM v)) ''10.0.0.10 - 10.0.0.250'',
       ipamDNS := (if ipamDNS (v2IPAM v) = [] then defaultDNS else ipamDNS (v2IPAM v))\<rparr>\<rparr>"

definition l2tpDefaults :: "L2TPConfig \<Rightarrow> L2TPConfig" where
  "l2tpDefaults l = l\<lparr>l2IPAM := (l2IPAM l)\<lparr>
     l2Gateway := orElse (l2Gateway (l2IPAM l)) ''192.168.42.1'',
     l2Range := orElse (l2Range (l2IPAM l)) ''192.168.42.2 - 192.168.42.254'',
     l2DNS := (if l2DNS (l2IPAM l) = [] then defaultDNS else l2DNS (l2IPAM l))\<rparr>\<rparr>"

text \<open>
  \<open>hostname\<close> is what \<^verbatim>\<open>os.Hostname\<close> returns, \<open>ks\<close> the order of the \<^verbatim>\<open>range\<close> loop. The result
  is \<^const>\<open>None\<close> where the loop dereferences a nil connection.
\<close>

definition applyDefaultsAndValidate ::
  "string option \<Rightarrow> string list \<Rightarrow> Config \<Rightarrow> (config_error + Config) option" where
  "applyDefaultsAndValidate hostname ks cfg =
     (case (if Hostname (cfgServer cfg) = [] then hostname else Some (Hostname (cfgServer cfg))) of
        None \<Rightarrow> Some (Inl HostnameUnavailable)
      | Some h \<Rightarrow>
          if ipConnections (cfgIPSec cfg) = [] then Some (Inl NoConnections)
          else
          (case defaultsLoop ks (ipConnections (cfgIPSec cfg)) of
             None \<Rightarrow> None
           | Some (Inl e) \<Rightarrow> Some (Inl e)
           | Some (Inr m) \<Rightarrow>
               Some (Inr (cfg\<lparr>
                 cfgServer := serverDefaults h (cfgServer cfg),
                 cfgLogging := loggingDefaults (cfgLogging cfg),
                 cfgIPSec := (cfgIPSec cfg)\<lparr>ipConnections := m\<rparr>,
                 cfgIKEv2 := ikev2Defaults (cfgIKEv2 cfg),
                 cfgL2TP := l2tpDefaults (cfgL2TP cfg)\<rparr>))))"

text \<open>A legal order of a \<^verbatim>\<open>range\<close> loop over a map: every key once.\<close>

definition rangeOrder :: "(string \<times> 'v) list \<Rightarrow> string list \<Rightarrow> bool" where
  "rangeOrder m ks \<longleftrightarrow> distinct ks \<and> set ks = fst ` set m"

definition connsValid :: "connections \<Rightarrow> bool" where
  "connsValid m \<longleftrightarrow> list_all (\<lambda>(n, co). case co of None \<Rightarrow> False | Some c \<Rightarrow> connValid c) m"

abbreviation fillAll :: "connections \<Rightarrow> connections" where
  "fillAll \<equiv> map (\<lambda>(n, co). (n, map_option fillDefaults co))"

lemma update_present:
  "distinct (map fst m) \<Longrightarrow> map_of m n = Some x \<Longrightarrow>
     AList.update n y m = map (\<lambda>(k, v). (k, if k = n then y else v)) m"
proof (induction m)
  case (Cons p m)
  have "map (\<lambda>(k, v). (k, if k = n then y else v)) m = m" if "n \<notin> fst ` set m"
    by (rule map_idI) (use that in force)
  with Cons show ?case by (cases p) auto
qed simp

lemma map_of_overwrite:
  "map_of (map (\<lambda>(n, co). (n, if n = k then y else co)) m) n =
     (if n = k then map_option (\<lambda>_. y) (map_of m k) else map_of m n)"
  by (induction m) auto

lemma keys_map_snd: "map fst (map (\<lambda>(k, v). (k, f k v)) m) = map fst m"
  by (induction m) auto

lemma defaultsLoop_success:
  assumes "distinct (map fst m)" and "distinct ks" and "set ks \<subseteq> fst ` set m"
    and "\<forall>n\<in>set ks. \<exists>c. map_of m n = Some (Some c) \<and> connValid c"
  shows "defaultsLoop ks m =
    Some (Inr (map (\<lambda>(n, co). (n, if n \<in> set ks then map_option fillDefaults co else co)) m))"
  using assms
proof (induction ks arbitrary: m)
  case (Cons k ks)
  from Cons.prems(4) obtain c where c: "map_of m k = Some (Some c)" "connValid c" by auto
  let ?m = "map (\<lambda>(n, co). (n, if n = k then Some (fillDefaults c) else co)) m"
  have u: "AList.update k (Some (fillDefaults c)) m = ?m"
    by (rule update_present [OF Cons.prems(1) c(1)])
  have lk: "map_of ?m n = (if n = k then Some (Some (fillDefaults c)) else map_of m n)" for n
    using c(1) by (simp add: map_of_overwrite)
  have keys: "fst ` set ?m = fst ` set m" by (simp only: set_map [symmetric] keys_map_snd)
  have "defaultsLoop ks ?m =
    Some (Inr (map (\<lambda>(n, co). (n, if n \<in> set ks then map_option fillDefaults co else co)) ?m))"
  proof (rule Cons.IH)
    show "distinct (map fst ?m)" using Cons.prems(1) by (simp only: keys_map_snd)
    show "set ks \<subseteq> fst ` set ?m" unfolding keys using Cons.prems(3) by auto
    show "\<forall>n\<in>set ks. \<exists>c. map_of ?m n = Some (Some c) \<and> connValid c"
      unfolding lk using Cons.prems(2,4) by auto
  qed (use Cons.prems(2) in auto)
  moreover have co: "co = Some c" if "(k, co) \<in> set m" for co
    using that c(1) Cons.prems(1) by (simp add: map_of_eq_Some_iff)
  then have "map (\<lambda>(n, co). (n, if n \<in> set ks then map_option fillDefaults co else co)) ?m =
      map (\<lambda>(n, co). (n, if n \<in> set (k # ks) then map_option fillDefaults co else co)) m"
    using Cons.prems(2) by (auto dest!: co)
  moreover have "applyConnectionDefaults c = Inr (fillDefaults c)"
    using c(2) by (simp add: applyConnectionDefaults_Inr_iff)
  ultimately show ?case using c(1) u by simp
qed (simp add: case_prod_beta')

lemma defaultsLoop_failure:
  assumes "distinct (map fst m)" and "distinct ks" and "n \<in> set ks"
    and "map_of m n = Some co" and "\<not> (\<exists>c. co = Some c \<and> connValid c)"
  shows "\<not> (\<exists>m'. defaultsLoop ks m = Some (Inr m'))"
  using assms
proof (induction ks arbitrary: m)
  case (Cons k ks)
  show ?case
  proof (cases "n = k")
    case True
    with Cons.prems(4,5) show ?thesis
      by (cases co) (auto simp: applyConnectionDefaults_Inr_iff split: sum.split)
  next
    case False
    with Cons.prems(3) have n: "n \<in> set ks" by simp
    show ?thesis
    proof (cases "map_of m k")
      case None
      with Cons n show ?thesis by auto
    next
      case (Some x)
      have "\<not> (\<exists>m'. defaultsLoop ks (AList.update k (Some c') m) = Some (Inr m'))" for c'
      proof (rule Cons.IH)
        show "distinct (map fst (AList.update k (Some c') m))"
          using Cons.prems(1) by (simp add: distinct_update)
        show "map_of (AList.update k (Some c') m) n = Some co"
          using False Cons.prems(4) by (simp add: update_conv)
      qed (use Cons.prems n in auto)
      with Some show ?thesis by (auto split: option.split sum.split)
    qed
  qed
qed simp

lemma connsValid_lookup:
  assumes "distinct (map fst m)"
  shows "connsValid m \<longleftrightarrow> (\<forall>n\<in>fst ` set m. \<exists>c. map_of m n = Some (Some c) \<and> connValid c)"
proof
  assume v: "connsValid m"
  show "\<forall>n\<in>fst ` set m. \<exists>c. map_of m n = Some (Some c) \<and> connValid c"
  proof
    fix n assume "n \<in> fst ` set m"
    then obtain co where co: "(n, co) \<in> set m" by auto
    with v have "case co of None \<Rightarrow> False | Some c \<Rightarrow> connValid c"
      by (auto simp: connsValid_def list_all_iff)
    with co assms show "\<exists>c. map_of m n = Some (Some c) \<and> connValid c"
      by (cases co) (auto simp: map_of_eq_Some_iff)
  qed
next
  assume a: "\<forall>n\<in>fst ` set m. \<exists>c. map_of m n = Some (Some c) \<and> connValid c"
  have "case co of None \<Rightarrow> False | Some c \<Rightarrow> connValid c" if "(n, co) \<in> set m" for n co
  proof -
    from that have "n \<in> fst ` set m" by force
    with a obtain c where "map_of m n = Some (Some c)" "connValid c" by blast
    with that assms show ?thesis by (simp add: map_of_eq_Some_iff [THEN iffD2])
  qed
  then show "connsValid m" by (auto simp: connsValid_def list_all_iff)
qed

lemma defaultsLoop_iff:
  assumes m: "distinct (map fst m)" and ks: "rangeOrder m ks"
  shows "defaultsLoop ks m = Some (Inr m') \<longleftrightarrow> connsValid m \<and> m' = fillAll m"
proof (cases "connsValid m")
  case True
  have "map (\<lambda>(n, co). (n, if n \<in> set ks then map_option fillDefaults co else co)) m = fillAll m"
    using ks by (intro map_cong) (auto simp: rangeOrder_def rev_image_eqI)
  moreover have "defaultsLoop ks m =
    Some (Inr (map (\<lambda>(n, co). (n, if n \<in> set ks then map_option fillDefaults co else co)) m))"
    using True ks connsValid_lookup [OF m] by (intro defaultsLoop_success [OF m]) (auto simp: rangeOrder_def)
  ultimately show ?thesis using True by auto
next
  case False
  then obtain n co where "n \<in> set ks" "map_of m n = Some co" "\<not> (\<exists>c. co = Some c \<and> connValid c)"
    using ks connsValid_lookup [OF m] unfolding rangeOrder_def
    by (metis map_of_eq_None_iff not_None_eq)
  with False ks defaultsLoop_failure [OF m] show ?thesis by (auto simp: rangeOrder_def)
qed

definition hostnameOf :: "string option \<Rightarrow> Config \<Rightarrow> string option" where
  "hostnameOf hostname cfg =
     (if Hostname (cfgServer cfg) = [] then hostname else Some (Hostname (cfgServer cfg)))"

definition withDefaults :: "string \<Rightarrow> Config \<Rightarrow> Config" where
  "withDefaults h cfg = cfg\<lparr>
     cfgServer := serverDefaults h (cfgServer cfg),
     cfgLogging := loggingDefaults (cfgLogging cfg),
     cfgIPSec := (cfgIPSec cfg)\<lparr>ipConnections := fillAll (ipConnections (cfgIPSec cfg))\<rparr>,
     cfgIKEv2 := ikev2Defaults (cfgIKEv2 cfg),
     cfgL2TP := l2tpDefaults (cfgL2TP cfg)\<rparr>"

lemma validation_iff:
  assumes "distinct (map fst (ipConnections (cfgIPSec cfg)))"
    and "rangeOrder (ipConnections (cfgIPSec cfg)) ks"
  shows "applyDefaultsAndValidate hostname ks cfg = Some (Inr cfg') \<longleftrightarrow>
    (\<exists>h. hostnameOf hostname cfg = Some h \<and> cfg' = withDefaults h cfg) \<and>
    ipConnections (cfgIPSec cfg) \<noteq> [] \<and> connsValid (ipConnections (cfgIPSec cfg))"
proof (cases "hostnameOf hostname cfg")
  case None
  then show ?thesis by (simp add: applyDefaultsAndValidate_def hostnameOf_def)
next
  case (Some h)
  let ?m = "ipConnections (cfgIPSec cfg)"
  have d: "applyDefaultsAndValidate hostname ks cfg =
    (if ?m = [] then Some (Inl NoConnections)
     else case defaultsLoop ks ?m of None \<Rightarrow> None | Some (Inl e) \<Rightarrow> Some (Inl e)
       | Some (Inr m) \<Rightarrow> Some (Inr (cfg\<lparr>
           cfgServer := serverDefaults h (cfgServer cfg), cfgLogging := loggingDefaults (cfgLogging cfg),
           cfgIPSec := (cfgIPSec cfg)\<lparr>ipConnections := m\<rparr>,
           cfgIKEv2 := ikev2Defaults (cfgIKEv2 cfg), cfgL2TP := l2tpDefaults (cfgL2TP cfg)\<rparr>)))"
    using Some by (simp add: applyDefaultsAndValidate_def hostnameOf_def)
  show ?thesis
  proof (cases "connsValid ?m")
    case True
    with defaultsLoop_iff [OF assms] have "defaultsLoop ks ?m = Some (Inr (fillAll ?m))" by simp
    with True Some d show ?thesis by (auto simp: withDefaults_def)
  next
    case False
    with defaultsLoop_iff [OF assms] have "defaultsLoop ks ?m \<noteq> Some (Inr m)" for m by simp
    with False d show ?thesis by (auto split: option.split sum.split)
  qed
qed

section \<open>The documented defaults\<close>

text \<open>
  What a loaded connection is, field by field, stated apart from the code: the fields that the
  comments of \<^verbatim>\<open>types.go\<close> and the loader give a default, with that default; the three fields whose
  default depends on more than themselves; and every other field, which stays as written (also the
  ones for which \<^verbatim>\<open>types.go\<close> names a default that the loader never fills in:
  \<^verbatim>\<open>leftid\<close>, \<^verbatim>\<open>rightid\<close>, \<^verbatim>\<open>leftnexthop\<close>, \<^verbatim>\<open>leftsendcert\<close>, \<^verbatim>\<open>tcp-remoteport\<close>, \<^verbatim>\<open>replay-window\<close>).
\<close>

definition connDefaults :: "((ConnectionConfig \<Rightarrow> string) \<times> string) list" where
  "connDefaults = [
     (connType, ''tunnel''), (connAuto, ''ignore''), (connKeyExchange, ''ikev2''),
     (connEncapsulation, ''auto''), (connNATKeepalive, ''yes''), (connEnableTCP, ''no''),
     (connIKELifetime, ''8h''), (connSALifetime, ''8h''), (connRekey, ''yes''), (connRekeyMargin, ''9m''),
     (connRekeyFuzz, ''100%''), (connPFS, ''yes''), (connMOBIKE, ''no''), (connFragmentation, ''yes''),
     (connESN, ''either''), (connRetransmitTimeout, ''60s''), (connCompress, ''no''),
     (connSHA2TruncBug, ''no''), (connNarrowing, ''no''), (connInitialContact, ''yes''),
     (connPhase2, ''esp'')]"

definition connKept :: "(ConnectionConfig \<Rightarrow> string) list" where
  "connKept = [
     connLeft, connLeftID, connLeftSubnet, connLeftSourceIP, connLeftNextHop, connLeftProtoPort,
     connLeftAddressPool, connLeftCert, connLeftAuth, connLeftSendCert, connLeftModeCfgServer,
     connLeftModeCfgClient, connRight, connRightID, connRightSubnet, connRightSourceIP, connRightNextHop,
     connRightProtoPort, connRightAddressPool, connRightCert, connRightAuth, connRightSendCert,
     connRightModeCfgServer, connRightModeCfgClient, connAuthBy, connPSK, connIKE, connPhase2Alg,
     connModeCfgDNS, connModeCfgDomains, connHostAddrFamily, connClientAddrFamily]"

definition connKeptInts :: "(ConnectionConfig \<Rightarrow> int) list" where
  "connKeptInts = [connTCPRemotePort, connKeyingTries, connDPDDelay, connDPDTimeout, connReplayWindow]"

definition connLoaded :: "ConnectionConfig \<Rightarrow> ConnectionConfig \<Rightarrow> bool" where
  "connLoaded c c' \<longleftrightarrow>
     list_all (\<lambda>(f, d). f c' = (if f c = '''' then d else f c)) connDefaults \<and>
     list_all (\<lambda>f. f c' = f c) connKept \<and> list_all (\<lambda>f. f c' = f c) connKeptInts \<and>
     connRetransmitInterval c' = (if connRetransmitInterval c = 0 then 500 else connRetransmitInterval c) \<and>
     connDPDAction c' = (if connDPDAction c = '''' \<and> connDPDDelay c > 0 then ''clear'' else connDPDAction c) \<and>
     connESP c' = (if connESP c = '''' then connPhase2Alg c else connESP c)"

lemma connLoaded_fillDefaults: "connLoaded c (fillDefaults c)"
  by (simp add: connLoaded_def connDefaults_def connKept_def connKeptInts_def fillDefaults_def orElse_def)

text \<open>The specification leaves nothing open.\<close>

lemma connLoaded_unique: "connLoaded c c' \<Longrightarrow> c' = fillDefaults c"
  by (rule ConnectionConfig.equality)
    (simp_all add: connLoaded_def connDefaults_def connKept_def connKeptInts_def fillDefaults_def orElse_def)

text \<open>The rest of a loaded configuration; \<open>dir\<close> is the directory of the file, \<open>os\<close> the name of the host.\<close>

definition globalsLoaded :: "string option \<Rightarrow> (string \<Rightarrow> string) \<Rightarrow> Config \<Rightarrow> Config \<Rightarrow> bool" where
  "globalsLoaded os resolve raw cfg \<longleftrightarrow>
     (let dflt = (\<lambda>x d. if x = '''' then d else x); dfltInt = (\<lambda>x d. if x = 0 then d else x :: int);
          dns = (\<lambda>x. if x = [] then [''1.1.1.1'', ''1.0.0.1''] else x)
      in
      Some (Hostname (cfgServer cfg)) =
        (if Hostname (cfgServer raw) = '''' then os else Some (Hostname (cfgServer raw))) \<and>
      Listen (cfgServer cfg) = dflt (Listen (cfgServer raw)) ''0.0.0.0'' \<and>
      cfgLogging cfg =
        \<lparr>LogLevel = dflt (LogLevel (cfgLogging raw)) ''info'', LogOutput = dflt (LogOutput (cfgLogging raw)) ''stdout'',
         LogFile = LogFile (cfgLogging raw), MaxSize = dfltInt (MaxSize (cfgLogging raw)) 10,
         MaxBackups = dfltInt (MaxBackups (cfgLogging raw)) 5, MaxAge = dfltInt (MaxAge (cfgLogging raw)) 7,
         LogCompress = LogCompress (cfgLogging raw)\<rparr> \<and>
      cfgTUN cfg = cfgTUN raw \<and>
      ConnectionDir (cfgIPSec cfg) = ConnectionDir (cfgIPSec raw) \<and> ipHotReload (cfgIPSec cfg) = ipHotReload (cfgIPSec raw) \<and>
      cfgIKEv2 cfg =
        \<lparr>v2Enabled = v2Enabled (cfgIKEv2 raw), v2CookieMode = dflt (v2CookieMode (cfgIKEv2 raw)) ''auto'',
         v2IPAM = \<lparr>ipamRange = dflt (ipamRange (v2IPAM (cfgIKEv2 raw))) ''10.0.0.10 - 10.0.0.250'',
           ipamDNS = dns (ipamDNS (v2IPAM (cfgIKEv2 raw)))\<rparr>,
         v2Profile = map resolve (v2Profile (cfgIKEv2 raw)), v2HotReload = v2HotReload (cfgIKEv2 raw)\<rparr> \<and>
      cfgL2TP cfg =
        \<lparr>l2Enabled = l2Enabled (cfgL2TP raw),
         l2IPAM = \<lparr>l2Gateway = dflt (l2Gateway (l2IPAM (cfgL2TP raw))) ''192.168.42.1'',
           l2Range = dflt (l2Range (l2IPAM (cfgL2TP raw))) ''192.168.42.2 - 192.168.42.254'',
           l2DNS = dns (l2DNS (l2IPAM (cfgL2TP raw)))\<rparr>,
         l2Profile = map resolve (l2Profile (cfgL2TP raw)), l2HotReload = l2HotReload (cfgL2TP raw)\<rparr>)"

end
