(* ===== verification/GoPath.thy ===== *)
theory GoPath
  imports Prelude
begin

text \<open>
  The parts of Go's \<^verbatim>\<open>path/filepath\<close> and \<^verbatim>\<open>strings\<close> packages that the configuration loader,
  the certificate manager and the commands call, for a Unix path syntax: \<^verbatim>\<open>Clean\<close>, \<^verbatim>\<open>Join\<close>,
  \<^verbatim>\<open>Dir\<close>, \<^verbatim>\<open>Base\<close>, \<^verbatim>\<open>Ext\<close>, \<^verbatim>\<open>IsAbs\<close>, \<^verbatim>\<open>Abs\<close>, and \<^verbatim>\<open>HasSuffix\<close>, \<^verbatim>\<open>TrimSuffix\<close>. A path is a string; its
  components are the strings between the slashes.
\<close>

section \<open>Components\<close>

abbreviation slash :: char where "slash \<equiv> CHR ''/''"

fun splitSlash :: "string \<Rightarrow> string list" where
  "splitSlash [] = [[]]"
| "splitSlash (c # cs) =
     (if c = slash then [] # splitSlash cs
      else (case splitSlash cs of [] \<Rightarrow> [[c]] | x # xs \<Rightarrow> (c # x) # xs))"

fun joinSlash :: "string list \<Rightarrow> string" where
  "joinSlash [] = []"
| "joinSlash [x] = x"
| "joinSlash (x # y # xs) = x @ slash # joinSlash (y # xs)"

text \<open>The names that the path syntax gives no meaning to.\<close>

definition plainName :: "string \<Rightarrow> bool" where
  "plainName c \<longleftrightarrow> c \<noteq> [] \<and> c \<noteq> ''.'' \<and> c \<noteq> ''..'' \<and> slash \<notin> set c"

lemma splitSlash_not_Nil [simp]: "splitSlash s \<noteq> []"
  by (induction s) (auto split: list.splits)

lemma splitSlash_no_slash: "c \<in> set (splitSlash s) \<Longrightarrow> slash \<notin> set c"
  by (induction s arbitrary: c) (fastforce split: if_split_asm list.split_asm)+

lemma splitSlash_plain: "slash \<notin> set s \<Longrightarrow> splitSlash s = [s]"
  by (induction s) auto

lemma splitSlash_append_slash: "splitSlash (a @ slash # b) = splitSlash a @ splitSlash b"
  by (induction a) (auto split: list.splits)

lemma splitSlash_joinSlash:
  "cs \<noteq> [] \<Longrightarrow> \<forall>c\<in>set cs. slash \<notin> set c \<Longrightarrow> splitSlash (joinSlash cs) = cs"
  by (induction cs rule: joinSlash.induct) (auto simp: splitSlash_plain splitSlash_append_slash)

lemma joinSlash_snoc: "joinSlash (xs @ [x]) = (if xs = [] then x else joinSlash xs @ slash # x)"
  by (induction xs rule: joinSlash.induct) auto

section \<open>Clean\<close>

definition IsAbs :: "string \<Rightarrow> bool" where
  "IsAbs p \<longleftrightarrow> p \<noteq> [] \<and> hd p = slash"

fun cleanStack :: "bool \<Rightarrow> string list \<Rightarrow> string list \<Rightarrow> string list" where
  "cleanStack rooted out [] = rev out"
| "cleanStack rooted out (c # cs) =
     (if c = [] \<or> c = ''.'' then cleanStack rooted out cs
      else if c = ''..'' then
        (if out \<noteq> [] \<and> hd out \<noteq> ''..'' then cleanStack rooted (tl out) cs
         else if rooted then cleanStack rooted out cs
         else cleanStack rooted (c # out) cs)
      else cleanStack rooted (c # out) cs)"

definition components :: "string \<Rightarrow> string list" where
  "components p = cleanStack (IsAbs p) [] (splitSlash p)"

definition Clean :: "string \<Rightarrow> string" where
  "Clean p =
     (if IsAbs p then slash # joinSlash (components p)
      else if components p = [] then ''.''
      else joinSlash (components p))"

text \<open>A cleaned list: the parent marks come first, and only in a relative path.\<close>

definition cleaned :: "bool \<Rightarrow> string list \<Rightarrow> bool" where
  "cleaned rooted cs \<longleftrightarrow>
     (\<exists>k xs. cs = replicate k ''..'' @ xs \<and> (rooted \<longrightarrow> k = 0) \<and> list_all plainName xs)"

lemma not_plainName [simp]: "\<not> plainName []" "\<not> plainName ''.''" "\<not> plainName ''..''"
  by (auto simp: plainName_def)

lemma plainNameD:
  assumes "plainName c"
  shows "c \<noteq> []" "c \<noteq> ''.''" "c \<noteq> ''..''" "slash \<notin> set c"
  using assms by (auto simp: plainName_def)

lemma cleaned_Nil [simp]: "cleaned r []"
  unfolding cleaned_def by (rule exI [of _ 0]) simp

lemma cleaned_snoc_plain: "cleaned r cs \<Longrightarrow> plainName c \<Longrightarrow> cleaned r (cs @ [c])"
proof -
  assume "cleaned r cs" "plainName c"
  then obtain k xs where "cs = replicate k ''..'' @ xs" "r \<longrightarrow> k = 0" "list_all plainName (xs @ [c])"
    by (auto simp: cleaned_def)
  then show ?thesis unfolding cleaned_def by (intro exI [of _ k] exI [of _ "xs @ [c]"]) simp
qed

lemma cleaned_butlast: "cleaned r (cs @ [c]) \<Longrightarrow> cleaned r cs"
proof -
  assume "cleaned r (cs @ [c])"
  then obtain k xs where k: "cs @ [c] = replicate k ''..'' @ xs" "r \<longrightarrow> k = 0" "list_all plainName xs"
    by (auto simp: cleaned_def)
  show ?thesis
  proof (cases xs rule: rev_cases)
    case Nil
    with k obtain j where "k = Suc j" by (cases k) auto
    with k Nil have "cs @ [c] = replicate j ''..'' @ [''..'']" by (simp add: replicate_append_same)
    then have "cs = replicate j ''..''" by simp
    with k \<open>k = Suc j\<close> show ?thesis unfolding cleaned_def by (intro exI [of _ j] exI [of _ "[]"]) auto
  next
    case (snoc ys y)
    with k show ?thesis unfolding cleaned_def by (intro exI [of _ k] exI [of _ ys]) auto
  qed
qed

lemma cleaned_parent:
  assumes "cleaned False cs" and "cs = [] \<or> last cs = ''..''"
  shows "cleaned False (cs @ [''..''])"
proof -
  from assms(1) obtain k xs where k: "cs = replicate k ''..'' @ xs" "list_all plainName xs"
    by (auto simp: cleaned_def)
  with assms(2) have "xs = []" by (cases xs rule: rev_cases) auto
  with k have "cs @ [''..''] = replicate (Suc k) ''..'' @ []" by (simp add: replicate_append_same)
  then show ?thesis unfolding cleaned_def by (intro exI [of _ "Suc k"] exI [of _ "[]"]) auto
qed

lemma cleanStack_cleaned:
  "cleaned r (rev out) \<Longrightarrow> \<forall>c\<in>set cs. slash \<notin> set c \<Longrightarrow> cleaned r (cleanStack r out cs)"
proof (induction r out cs rule: cleanStack.induct)
  case (2 r out c cs)
  have ns: "slash \<notin> set c" "\<forall>c\<in>set cs. slash \<notin> set c" using "2.prems" by auto
  consider "c = [] \<or> c = ''.''" | "c = ''..''" "out \<noteq> [] \<and> hd out \<noteq> ''..''"
    | "c = ''..''" "\<not> (out \<noteq> [] \<and> hd out \<noteq> ''..'')" r
    | "c = ''..''" "\<not> (out \<noteq> [] \<and> hd out \<noteq> ''..'')" "\<not> r"
    | "plainName c" "c \<noteq> [] \<and> c \<noteq> ''.''" "c \<noteq> ''..''"
    using ns by (auto simp: plainName_def)
  then show ?case
  proof cases
    case 1
    with 2 ns show ?thesis by auto
  next
    case p: 2
    then have "cleaned r (rev (tl out) @ [hd out])" using "2.prems"(1) by (cases out) auto
    from "2.IH"(2) [OF _ p cleaned_butlast [OF this] ns(2)] p show ?thesis by simp
  next
    case 3
    then have "cleanStack r out (c # cs) = cleanStack r out cs" by auto
    with "2.IH"(3) [OF _ 3 "2.prems"(1) ns(2)] 3 show ?thesis by simp
  next
    case 4
    then have "rev out = [] \<or> last (rev out) = ''..''" by (auto simp: last_rev)
    with "2.prems"(1) 4 have "cleaned r (rev (c # out))" using cleaned_parent [of "rev out"] by simp
    then have "cleaned r (cleanStack r (c # out) cs)" using "2.IH"(4) [OF _ 4 _ ns(2)] 4 by simp
    moreover have "cleanStack r out (c # cs) = cleanStack r (c # out) cs" using 4 by auto
    ultimately show ?thesis by argo
  next
    case 5
    then have "cleaned r (rev (c # out))" using "2.prems"(1) cleaned_snoc_plain [of r "rev out" c] by simp
    from "2.IH"(5) [OF _ 5(3) this ns(2)] 5 show ?thesis by simp
  qed
qed simp

lemma components_cleaned: "cleaned (IsAbs p) (components p)"
  unfolding components_def by (rule cleanStack_cleaned) (auto dest: splitSlash_no_slash)

lemma cleaned_entries:
  assumes "cleaned r cs" and "c \<in> set cs"
  shows "c \<noteq> []" "slash \<notin> set c" "c \<noteq> ''.''"
proof -
  from assms have "c = ''..'' \<or> plainName c" by (auto simp: cleaned_def list_all_iff)
  then show "c \<noteq> []" "slash \<notin> set c" "c \<noteq> ''.''" by (auto dest: plainNameD)
qed

lemma cleaned_rooted: "cleaned True cs \<longleftrightarrow> list_all plainName cs"
  by (auto simp: cleaned_def)

lemma cleanStack_append:
  "cleanStack r out (xs @ ys) = cleanStack r (rev (cleanStack r out xs)) ys"
  by (induction r out xs rule: cleanStack.induct) auto

lemma cleanStack_parents:
  "cleanStack False (replicate j ''..'' @ []) (replicate k ''..'') = replicate (j + k) ''..''"
proof (induction k arbitrary: j)
  case (Suc k)
  then show ?case using Suc.IH [of "Suc j"] by (cases j) auto
qed simp

lemma cleanStack_plain:
  "list_all plainName cs \<Longrightarrow> cleanStack r out cs = rev out @ cs"
  by (induction r out cs rule: cleanStack.induct) auto

lemma cleanStack_id:
  assumes "cleaned r cs"
  shows "cleanStack r [] cs = cs"
proof -
  from assms obtain k xs where k: "cs = replicate k ''..'' @ xs" "r \<longrightarrow> k = 0" "list_all plainName xs"
    by (auto simp: cleaned_def)
  have "cleanStack r [] (replicate k ''..'') = replicate k ''..''"
    using k(2) cleanStack_parents [of 0 k] by (cases r) auto
  with k show ?thesis by (simp add: cleanStack_append cleanStack_plain)
qed

lemma cleanStack_empty_first: "cleanStack r out ([] # cs) = cleanStack r out cs"
  by simp

lemma hd_joinSlash: "x \<noteq> [] \<Longrightarrow> hd (joinSlash (x # xs)) = hd x"
  by (cases xs) auto

lemma joinSlash_Nil_iff: "[] \<notin> set cs \<Longrightarrow> joinSlash cs = [] \<longleftrightarrow> cs = []"
  by (cases cs rule: joinSlash.cases) auto

lemma IsAbs_joinSlash: "cleaned r cs \<Longrightarrow> \<not> IsAbs (joinSlash cs)"
proof (cases cs)
  case (Cons x xs)
  assume "cleaned r cs"
  from cleaned_entries [OF this, of x] Cons have "x \<noteq> []" "slash \<notin> set x" by auto
  with Cons show ?thesis by (cases x) (auto simp: IsAbs_def hd_joinSlash)
qed (simp add: IsAbs_def)

lemma IsAbs_Clean [simp]: "IsAbs (Clean p) = IsAbs p"
  using IsAbs_joinSlash [OF components_cleaned [of p]] by (auto simp: Clean_def) (auto simp: IsAbs_def)

lemma components_Clean [simp]: "components (Clean p) = components p"
proof -
  let ?cs = "components p"
  have cl: "cleaned (IsAbs p) ?cs" by (rule components_cleaned)
  have ns: "\<forall>c\<in>set ?cs. slash \<notin> set c" using cleaned_entries [OF cl] by blast
  have id: "cleanStack (IsAbs p) [] ?cs = ?cs" by (rule cleanStack_id [OF cl])
  have "components (Clean p) = cleanStack (IsAbs p) [] (splitSlash (Clean p))"
    by (simp add: components_def)
  also have "\<dots> = ?cs"
  proof (cases "?cs = []")
    case True
    then show ?thesis by (simp add: Clean_def)
  next
    case False
    with ns id show ?thesis by (cases "IsAbs p") (simp_all add: Clean_def splitSlash_joinSlash)
  qed
  finally show ?thesis .
qed

lemma Clean_idem [simp]: "Clean (Clean p) = Clean p"
  by (simp add: Clean_def [of "Clean p"]) (simp add: Clean_def)

lemma Clean_not_Nil [simp]: "Clean p \<noteq> []"
proof -
  have "[] \<notin> set (components p)" using cleaned_entries(1) [OF components_cleaned [of p]] by blast
  then show ?thesis by (simp add: Clean_def joinSlash_Nil_iff)
qed

section \<open>Join, Dir, Base and Ext\<close>

definition pathJoin :: "string \<Rightarrow> string \<Rightarrow> string" where
  "pathJoin a b =
     (if a \<noteq> [] then Clean (a @ slash # b) else if b \<noteq> [] then Clean b else [])"

definition pathDir :: "string \<Rightarrow> string" where
  "pathDir p = Clean (rev (dropWhile (\<lambda>c. c \<noteq> slash) (rev p)))"

definition pathBase :: "string \<Rightarrow> string" where
  "pathBase p =
     (if p = [] then ''.''
      else
       (let q = rev (dropWhile (\<lambda>c. c = slash) (rev p))
        in if q = [] then [slash] else last (splitSlash q)))"

definition pathExt :: "string \<Rightarrow> string" where
  "pathExt p =
     (let t = takeWhile (\<lambda>c. c \<noteq> slash \<and> c \<noteq> CHR ''.'') (rev p);
          r = drop (length t) (rev p)
      in if r \<noteq> [] \<and> hd r = CHR ''.'' then CHR ''.'' # rev t else [])"

definition HasSuffix :: "string \<Rightarrow> string \<Rightarrow> bool" where
  "HasSuffix s suf \<longleftrightarrow> length suf \<le> length s \<and> drop (length s - length suf) s = suf"

definition TrimSuffix :: "string \<Rightarrow> string \<Rightarrow> string" where
  "TrimSuffix s suf = (if HasSuffix s suf then take (length s - length suf) s else s)"

text \<open>The working directory is an argument; \<^const>\<open>None\<close> is a failing \<^verbatim>\<open>os.Getwd\<close>.\<close>

definition pathAbs :: "string option \<Rightarrow> string \<Rightarrow> string option" where
  "pathAbs wd p = (if IsAbs p then Some (Clean p) else map_option (\<lambda>d. pathJoin d p) wd)"

lemma IsAbs_append: "a \<noteq> [] \<Longrightarrow> IsAbs (a @ b) = IsAbs a"
  by (cases a) (auto simp: IsAbs_def)

lemma IsAbs_pathJoin [simp]: "IsAbs d \<Longrightarrow> IsAbs (pathJoin d p)"
  by (auto simp: pathJoin_def IsAbs_append) (auto simp: IsAbs_def)

lemma Clean_pathJoin: "a \<noteq> [] \<or> b \<noteq> [] \<Longrightarrow> Clean (pathJoin a b) = pathJoin a b"
  by (auto simp: pathJoin_def)

lemma IsAbs_pathDir: "IsAbs p \<Longrightarrow> IsAbs (pathDir p)"
proof -
  assume "IsAbs p"
  then obtain r where p: "p = slash # r" by (cases p) (auto simp: IsAbs_def)
  have "IsAbs (rev (dropWhile (\<lambda>c. c \<noteq> slash) (rev p)))"
  proof (cases "slash \<in> set r")
    case True
    then have "rev (dropWhile (\<lambda>c. c \<noteq> slash) (rev p)) = slash # rev (dropWhile (\<lambda>c. c \<noteq> slash) (rev r))"
      by (simp add: p dropWhile_append1)
    then show ?thesis by (simp add: IsAbs_def)
  next
    case False
    then have "dropWhile (\<lambda>c. c \<noteq> slash) (rev r @ [slash]) = [slash]"
      by (subst dropWhile_append2) auto
    then show ?thesis by (simp add: p IsAbs_def)
  qed
  then show ?thesis by (simp add: pathDir_def)
qed

lemma IsAbs_pathAbs: "pathAbs wd p = Some q \<Longrightarrow> (\<forall>d. wd = Some d \<longrightarrow> IsAbs d) \<Longrightarrow> IsAbs q"
  by (auto simp: pathAbs_def split: if_split_asm)

lemma components_pathJoin:
  assumes "d \<noteq> []" and "plainName n"
  shows "components (pathJoin d n) = components d @ [n]"
proof -
  note n = plainNameD [OF assms(2)]
  have "components (d @ slash # n) = cleanStack (IsAbs d) [] (splitSlash d @ [n])"
    using assms(1) n by (simp add: components_def IsAbs_append splitSlash_append_slash splitSlash_plain)
  also have "\<dots> = components d @ [n]"
    using n by (simp add: cleanStack_append components_def)
  finally show ?thesis using assms(1) by (simp add: pathJoin_def)
qed

lemma pathJoin_plain:
  assumes "d \<noteq> []" and "plainName n"
  shows "pathJoin d n =
    (if IsAbs d then slash # joinSlash (components d @ [n]) else joinSlash (components d @ [n]))"
proof -
  have "pathJoin d n = Clean (d @ slash # n)" using assms(1) by (simp add: pathJoin_def)
  moreover have "components (d @ slash # n) = components d @ [n]"
    using components_pathJoin [OF assms] assms(1) by (simp add: pathJoin_def)
  moreover have "IsAbs (d @ slash # n) = IsAbs d" using assms(1) by (simp add: IsAbs_append)
  ultimately show ?thesis by (simp add: Clean_def)
qed

lemma pathBase_after_slash:
  assumes "plainName n"
  shows "pathBase (a @ slash # n) = n" and "pathBase n = n"
proof -
  note pn = plainNameD [OF assms]
  have "last n \<noteq> slash" using last_in_set [OF pn(1)] pn(4) by metis
  then have n: "rev n \<noteq> []" "hd (rev n) \<noteq> slash" using pn(1) by (auto simp: hd_rev)
  have d: "dropWhile (\<lambda>c. c = slash) (rev n @ ys) = rev n @ ys" for ys
    using n by (cases "rev n") auto
  show "pathBase (a @ slash # n) = n"
    using pn d [of "slash # rev a"]
    by (simp add: pathBase_def splitSlash_append_slash splitSlash_plain)
  show "pathBase n = n"
    using pn d [of "[]"] by (simp add: pathBase_def splitSlash_plain)
qed

lemma pathBase_pathJoin [simp]:
  assumes "d \<noteq> []" and "plainName n"
  shows "pathBase (pathJoin d n) = n"
proof -
  have "\<exists>a. pathJoin d n = a @ slash # n \<or> pathJoin d n = n"
  proof (cases "components d = []")
    case True
    with assms show ?thesis by (auto simp: pathJoin_plain intro: exI [of _ "[]"])
  next
    case False
    with assms show ?thesis
      by (cases "IsAbs d") (auto simp: pathJoin_plain joinSlash_snoc
          intro: exI [of _ "slash # joinSlash (components d)"])
  qed
  then show ?thesis using pathBase_after_slash [OF assms(2)] by auto
qed

section \<open>Suffixes\<close>

lemma HasSuffix_append [simp]: "HasSuffix (s @ suf) suf"
  by (simp add: HasSuffix_def)

lemma TrimSuffix_append [simp]: "TrimSuffix (s @ suf) suf = s"
  by (simp add: TrimSuffix_def)

lemma HasSuffixE: "HasSuffix s suf \<Longrightarrow> (\<And>x. s = x @ suf \<Longrightarrow> P) \<Longrightarrow> P"
  unfolding HasSuffix_def by (metis append_take_drop_id)

lemma pathExt_append:
  "slash \<notin> set e \<Longrightarrow> CHR ''.'' \<notin> set e \<Longrightarrow> pathExt (s @ CHR ''.'' # e) = CHR ''.'' # e"
proof -
  assume e: "slash \<notin> set e" "CHR ''.'' \<notin> set e"
  have "takeWhile (\<lambda>c. c \<noteq> slash \<and> c \<noteq> CHR ''.'') (rev e @ CHR ''.'' # rev s) = rev e"
    using e by (subst takeWhile_append2) auto
  then show ?thesis by (simp add: pathExt_def)
qed

end
