(* ===== verification/ConfigWatcher.thy ===== *)
theory ConfigWatcher
  imports Config GoPath
begin

text \<open>
  The hot-reload watcher (\<^verbatim>\<open>internal/config/watcher.go\<close>): file-system events restart a timer,
  and the callback runs when the timer expires. Time is in milliseconds; \<^verbatim>\<open>fsnotify\<close>
  delivers events in the order of their times. A timer that expires at the time of an event
  runs before it.
\<close>

section \<open>The watcher\<close>

record Watcher =
  profileDir :: string
  watchEnabled :: bool
  debounce :: nat

text \<open>\<open>created\<close> tells whether the system gives a notification handle.\<close>

definition NewWatcher :: "bool \<Rightarrow> string \<Rightarrow> Config \<Rightarrow> Watcher option" where
  "NewWatcher created configPath cfg =
     (let cfgDir = pathDir configPath; dir = pathJoin cfgDir ''profile.d'' in
      if \<not> created then None
      else Some \<lparr>profileDir = dir,
        watchEnabled = (ipHotReload (cfgIPSec cfg) \<or> v2HotReload (cfgIKEv2 cfg) \<or> l2HotReload (cfgL2TP cfg)),
        debounce = 500\<rparr>)"

datatype fs_op = OpCreate | OpWrite | OpRemove | OpRename | OpChmod

datatype watch_event =
  Changed "fs_op list" | WatchError | Cancelled | EventsClosed | ErrorsClosed

definition relevant :: "fs_op list \<Rightarrow> bool" where
  "relevant ops \<longleftrightarrow> list_ex (\<lambda>op. op \<in> {OpWrite, OpCreate, OpRemove, OpRename}) ops"

text \<open>The timer that is due at time \<open>t\<close>, and what is left of it.\<close>

definition expired :: "nat option \<Rightarrow> nat \<Rightarrow> nat list" where
  "expired timer t = (case timer of None \<Rightarrow> [] | Some x \<Rightarrow> if x \<le> t then [x] else [])"

definition pending :: "nat option \<Rightarrow> nat \<Rightarrow> nat option" where
  "pending timer t = (case timer of None \<Rightarrow> None | Some x \<Rightarrow> if x \<le> t then None else Some x)"

text \<open>
  The loop, as the times at which the callback runs. Cancellation stops the timer; a closed
  channel ends the loop and leaves the timer running.
\<close>

fun watchLoop :: "nat \<Rightarrow> nat option \<Rightarrow> (nat \<times> watch_event) list \<Rightarrow> nat list" where
  "watchLoop d timer [] = (case timer of None \<Rightarrow> [] | Some x \<Rightarrow> [x])"
| "watchLoop d timer ((t, ev) # evs) =
     expired timer t @
     (case ev of
        Cancelled \<Rightarrow> []
      | EventsClosed \<Rightarrow> (case pending timer t of None \<Rightarrow> [] | Some x \<Rightarrow> [x])
      | ErrorsClosed \<Rightarrow> (case pending timer t of None \<Rightarrow> [] | Some x \<Rightarrow> [x])
      | WatchError \<Rightarrow> watchLoop d (pending timer t) evs
      | Changed ops \<Rightarrow>
          if relevant ops then watchLoop d (Some (t + d)) evs
          else watchLoop d (pending timer t) evs)"

definition StartWatcher :: "bool \<Rightarrow> Watcher \<Rightarrow> (nat \<times> watch_event) list \<Rightarrow> nat list" where
  "StartWatcher addOk w evs =
     (if \<not> watchEnabled w then [] else if \<not> addOk then [] else watchLoop (debounce w) None evs)"

section \<open>The debounce contract\<close>

text \<open>The times of the changes, and those of them that nothing follows within the period.\<close>

definition changeTimes :: "(nat \<times> watch_event) list \<Rightarrow> nat list" where
  "changeTimes evs =
     map fst (filter (\<lambda>(t, ev). case ev of Changed ops \<Rightarrow> relevant ops | _ \<Rightarrow> False) evs)"

fun settled :: "nat \<Rightarrow> nat list \<Rightarrow> nat list" where
  "settled d [] = []"
| "settled d [t] = [t + d]"
| "settled d (t # t' # ts) = (if t + d \<le> t' then (t + d) # settled d (t' # ts) else settled d (t' # ts))"

definition keepsRunning :: "watch_event \<Rightarrow> bool" where
  "keepsRunning ev \<longleftrightarrow> ev \<notin> {Cancelled, EventsClosed, ErrorsClosed}"

lemma changeTimes_simps [simp]:
  "changeTimes [] = []"
  "changeTimes ((t, Changed ops) # evs) = (if relevant ops then [t] else []) @ changeTimes evs"
  "changeTimes ((t, WatchError) # evs) = changeTimes evs"
  by (simp_all add: changeTimes_def)

lemma changeTimes_ge: "\<forall>p\<in>set evs. t \<le> fst p \<Longrightarrow> \<forall>x\<in>set (changeTimes evs). t \<le> x"
  by (auto simp: changeTimes_def)

lemma settled_step: "ts = [] \<or> t + d \<le> hd ts \<Longrightarrow> settled d (t # ts) = (t + d) # settled d ts"
  by (cases ts) auto

lemma settled_drop: "t' < t + d \<Longrightarrow> settled d (t # t' # ts) = settled d (t' # ts)"
  by simp

lemma watchLoop_settled:
  assumes "sorted (map fst evs)" and "\<forall>p\<in>set evs. keepsRunning (snd p)"
  shows "watchLoop d None evs = settled d (changeTimes evs) \<and>
    (\<forall>t0. (\<forall>p\<in>set evs. t0 \<le> fst p) \<longrightarrow>
       watchLoop d (Some (t0 + d)) evs = settled d (t0 # changeTimes evs))"
  using assms
proof (induction evs)
  case (Cons p evs)
  obtain t ev where p: "p = (t, ev)" by (cases p)
  from Cons p have none: "watchLoop d None evs = settled d (changeTimes evs)"
    and some: "\<And>t0. \<forall>p\<in>set evs. t0 \<le> fst p \<Longrightarrow>
      watchLoop d (Some (t0 + d)) evs = settled d (t0 # changeTimes evs)" by auto
  have ge: "\<forall>p\<in>set evs. t \<le> fst p" using Cons.prems p by simp
  then have R: "changeTimes evs = [] \<or> t \<le> hd (changeTimes evs)"
    using changeTimes_ge [OF ge] by (cases "changeTimes evs") auto
  have ev: "ev = WatchError \<or> (\<exists>ops. ev = Changed ops)"
    using Cons.prems p by (cases ev) (auto simp: keepsRunning_def)
  have "watchLoop d (Some (t0 + d)) (p # evs) = settled d (t0 # changeTimes (p # evs))"
    if t0: "t0 \<le> t" "\<forall>p\<in>set evs. t0 \<le> fst p" for t0
  proof (cases "t0 + d \<le> t")
    case True
    with R have s: "settled d (t0 # changeTimes evs) = (t0 + d) # settled d (changeTimes evs)"
      by (intro settled_step) auto
    from True ev s show ?thesis using none some [OF ge] p by (auto simp: expired_def pending_def)
  next
    case False
    with ev show ?thesis using some [OF t0(2)] some [OF ge] p by (auto simp: expired_def pending_def)
  qed
  moreover have "watchLoop d None (p # evs) = settled d (changeTimes (p # evs))"
    using ev none some [OF ge] p by (auto simp: expired_def pending_def)
  ultimately show ?case using p by simp
qed auto

text \<open>
  Debouncing: while the watcher runs, the callback runs exactly one period after each
  change that no other change follows within the period, and at no other time.
\<close>
theorem watcher_debounces:
  assumes "watchEnabled w" and "sorted (map fst evs)" and "\<forall>p\<in>set evs. keepsRunning (snd p)"
  shows "StartWatcher True w evs = settled (debounce w) (changeTimes evs)"
  using assms(1) watchLoop_settled [OF assms(2,3)] by (simp add: StartWatcher_def)

theorem watcher_debounces_witness:
  "StartWatcher True \<lparr>profileDir = [], watchEnabled = True, debounce = 500\<rparr>
     [(0, Changed [OpWrite]), (100, WatchError), (400, Changed [OpCreate, OpChmod]),
      (700, Changed [OpChmod]), (2000, Changed [OpRemove])] = [900, 2500]"
  by (subst watcher_debounces) (auto simp: keepsRunning_def relevant_def)

text \<open>No change is lost, and a burst costs one callback.\<close>

lemma settled_last: "ts \<noteq> [] \<Longrightarrow> settled d ts \<noteq> [] \<and> last (settled d ts) = last ts + d"
  by (induction d ts rule: settled.induct) auto

lemma settled_burst: "ts \<noteq> [] \<Longrightarrow> successively (\<lambda>a b. b < a + d) ts \<Longrightarrow> settled d ts = [last ts + d]"
  by (induction d ts rule: settled.induct) auto

text \<open>After cancellation nothing is called back that was not due before it.\<close>

lemma cancelled_quiet:
  assumes "x \<in> set (watchLoop d timer ((t, Cancelled) # evs))"
  shows "x \<le> t"
  using assms by (auto simp: expired_def split: option.splits if_splits)

text \<open>The watcher looks at \<^verbatim>\<open>profile.d\<close> only, whichever of the three settings enables it.\<close>

lemma NewWatcher_dir:
  "NewWatcher True path cfg = Some w \<Longrightarrow> profileDir w = pathJoin (pathDir path) ''profile.d''"
  by (auto simp: NewWatcher_def Let_def)

lemma disabled_watcher: "\<not> watchEnabled w \<Longrightarrow> StartWatcher ok w evs = []"
  by (simp add: StartWatcher_def)

end
