(* ===== verification/TunDevice.thy ===== *)
theory TunDevice
  imports Prelude
begin

text \<open>
  The TUN device wrapper (\<^verbatim>\<open>internal/tun/tun.go\<close>). The driver
  (\<^verbatim>\<open>golang.zx2c4.com/wireguard/tun\<close>) is a parameter: a read is a function of the buffer and
  the offset that returns an error, or the number of packets, the size of the first and the
  buffer afterwards; a write hands the driver a buffer and an offset.
\<close>

section \<open>Creating a device\<close>

definition DefaultDeviceName :: string where "DefaultDeviceName = ''swan0''"
definition DefaultMTU :: int where "DefaultMTU = 1280"
definition tunReadOffset :: nat where "tunReadOffset = 4"

record Device =
  devName :: string
  devMTU :: int
  devClosed :: bool

datatype tun_error =
    CreateFailed | NameFailed
  | ReadBufferTooSmall nat | DriverRead | NoPackets | DriverWrite | DriverClose

text \<open>
  The driver's creation on Linux, by the requested name and MTU: the device's own report of
  its name may fail, in which case the new device is closed again (the flag of the result).
\<close>

definition createPlatformTUN ::
  "(string \<Rightarrow> int \<Rightarrow> bool) \<Rightarrow> string option \<Rightarrow> string \<Rightarrow> int \<Rightarrow> tun_error + string" where
  "createPlatformTUN create nameOf requestedName mtu =
     (if \<not> create requestedName mtu then Inl CreateFailed
      else case nameOf of None \<Rightarrow> Inl NameFailed | Some actualName \<Rightarrow> Inr actualName)"

definition NewDevice ::
  "(string \<Rightarrow> int \<Rightarrow> bool) \<Rightarrow> string option \<Rightarrow> string \<Rightarrow> int \<Rightarrow> tun_error + Device" where
  "NewDevice create nameOf name0 mtu0 =
     (let name = (if name0 = [] then DefaultDeviceName else name0);
          mtu = (if mtu0 \<le> 0 then DefaultMTU else mtu0)
      in case createPlatformTUN create nameOf name mtu of
           Inl e \<Rightarrow> Inl e
         | Inr actualName \<Rightarrow> Inr \<lparr>devName = actualName, devMTU = mtu, devClosed = False\<rparr>)"

text \<open>\<^verbatim>\<open>Available\<close>, by the platform, the presence of the device node and the effective user.\<close>

datatype goos = Linux | Darwin | Windows | OtherOS string

datatype tun_reason = NoDeviceNode | NotRoot | UnsupportedPlatform string

definition TunAvailable :: "goos \<Rightarrow> bool \<Rightarrow> nat \<Rightarrow> tun_reason option" where
  "TunAvailable os devNode euid =
     (case os of
        Linux \<Rightarrow> if \<not> devNode then Some NoDeviceNode else if euid \<noteq> 0 then Some NotRoot else None
      | Darwin \<Rightarrow> if euid \<noteq> 0 then Some NotRoot else None
      | Windows \<Rightarrow> None
      | OtherOS s \<Rightarrow> Some (UnsupportedPlatform s))"

section \<open>Reading and writing\<close>

type_synonym tun_read = "bytes \<Rightarrow> nat \<Rightarrow> (nat \<times> nat \<times> bytes) option"

text \<open>\<^const>\<open>None\<close> is a slice out of range; otherwise the result and the buffer afterwards.\<close>

definition ReadPacket :: "tun_read \<Rightarrow> bytes \<Rightarrow> ((tun_error + nat) \<times> bytes) option" where
  "ReadPacket rd buf =
     (if length buf < tunReadOffset + 1 then Some (Inl (ReadBufferTooSmall (length buf)), buf)
      else
      (case rd buf tunReadOffset of
         None \<Rightarrow> Some (Inl DriverRead, buf)
       | Some (n, pktSize, buf') \<Rightarrow>
           if n = 0 then Some (Inl NoPackets, buf')
           else if pktSize > 0 then
             (case go_slice tunReadOffset (tunReadOffset + pktSize) buf' of
                None \<Rightarrow> None
              | Some pkt \<Rightarrow> Some (Inr pktSize, copy_at 0 pkt buf'))
           else Some (Inr pktSize, buf')))"

text \<open>The buffer handed to the driver is the effect; nothing is handed over for no bytes.\<close>

definition WritePacket ::
  "(bytes \<Rightarrow> nat \<Rightarrow> bool) \<Rightarrow> bytes \<Rightarrow> int \<Rightarrow> (tun_error option \<times> bytes option) option" where
  "WritePacket wr buf n =
     (if n \<le> 0 then Some (None, None)
      else
      (case go_slice 0 (nat n) buf of
         None \<Rightarrow> None
       | Some pkt \<Rightarrow>
           (let writeBuf = copy_at tunReadOffset pkt (replicate (tunReadOffset + nat n) 0)
            in Some (if wr writeBuf tunReadOffset then None else Some DriverWrite, Some writeBuf))))"

section \<open>Closing\<close>

text \<open>The flag of the result says whether the driver's \<^verbatim>\<open>Close\<close> was called.\<close>

definition CloseDevice :: "bool \<Rightarrow> Device \<Rightarrow> tun_error option \<times> bool \<times> Device" where
  "CloseDevice driverOk d =
     (if devClosed d then (None, False, d)
      else (if driverOk then None else Some DriverClose, True, d\<lparr>devClosed := True\<rparr>))"

text \<open>\<^verbatim>\<open>watchContext\<close>: on cancellation the device is closed; the flag is the logged error.\<close>

definition watchContext :: "bool \<Rightarrow> Device \<Rightarrow> bool \<times> bool \<times> Device" where
  "watchContext driverOk d =
     (let (err, called, d') = CloseDevice driverOk d in (err \<noteq> None \<and> \<not> devClosed d', called, d'))"

fun closeAllCalls :: "bool list \<Rightarrow> Device \<Rightarrow> nat \<times> Device" where
  "closeAllCalls [] d = (0, d)"
| "closeAllCalls (ok # oks) d =
     (let (_, called, d') = CloseDevice ok d; (k, d'') = closeAllCalls oks d' in (k + (if called then 1 else 0), d''))"

section \<open>Properties\<close>

text \<open>The documented behaviour of a driver read: one packet, placed at the offset.\<close>

definition driverDelivers :: "tun_read \<Rightarrow> bytes \<Rightarrow> bytes \<Rightarrow> bool" where
  "driverDelivers rd buf pkt \<longleftrightarrow>
     rd buf tunReadOffset = Some (1, length pkt, copy_at tunReadOffset pkt buf)"

lemma slice_copy_at:
  "i + length s \<le> length d \<Longrightarrow> slice i (i + length s) (copy_at i s d) = s"
  by (simp add: slice_def copy_at_def)

lemma ReadPacket_delivers:
  assumes "driverDelivers rd buf pkt" and "pkt \<noteq> []" and "tunReadOffset + length pkt \<le> length buf"
  obtains buf' where "ReadPacket rd buf = Some (Inr (length pkt), buf')"
    and "take (length pkt) buf' = pkt" and "length buf' = length buf"
proof -
  let ?b = "copy_at tunReadOffset pkt buf"
  have l: "length ?b = length buf" using assms(3) by simp
  then have s: "go_slice tunReadOffset (tunReadOffset + length pkt) ?b = Some pkt"
    using assms(3) slice_copy_at [OF assms(3)] by (simp add: go_slice_def)
  have "\<not> length buf < tunReadOffset + 1" using assms(2,3) by (cases pkt) auto
  with assms(1,2) s have "ReadPacket rd buf = Some (Inr (length pkt), copy_at 0 pkt ?b)"
    by (simp add: ReadPacket_def driverDelivers_def)
  moreover have "take (length pkt) (copy_at 0 pkt ?b) = pkt"
    using assms(3) l by (simp add: copy_at_def)
  ultimately show ?thesis using that l by simp
qed

lemma WritePacket_hands_over:
  assumes "0 < n" and "nat n \<le> length buf"
  obtains b where "WritePacket wr buf n = Some (if wr b tunReadOffset then None else Some DriverWrite, Some b)"
    and "drop tunReadOffset b = take (nat n) buf"
proof -
  let ?b = "copy_at tunReadOffset (take (nat n) buf) (replicate (tunReadOffset + nat n) 0)"
  have "WritePacket wr buf n = Some (if wr ?b tunReadOffset then None else Some DriverWrite, Some ?b)"
    using assms by (simp add: WritePacket_def go_slice_def slice_def Let_def)
  moreover have "drop tunReadOffset ?b = take (nat n) buf"
    using assms by (simp add: copy_at_def)
  ultimately show ?thesis using that by blast
qed

text \<open>
  A packet written to one device reaches the driver whole, and a device whose driver
  delivers it hands the reader the same bytes at the start of its buffer.
\<close>
theorem tun_loopback:
  assumes "0 < n" and "nat n \<le> length buf" and "tunReadOffset + nat n \<le> length buf2"
    and "\<And>b. WritePacket wr buf n = Some (None, Some b) \<Longrightarrow> driverDelivers rd buf2 (drop tunReadOffset b)"
    and "\<And>b. wr b tunReadOffset"
  shows "\<exists>b buf2'. WritePacket wr buf n = Some (None, Some b)
     \<and> ReadPacket rd buf2 = Some (Inr (nat n), buf2') \<and> take (nat n) buf2' = take (nat n) buf"
proof -
  obtain b where b: "WritePacket wr buf n = Some (None, Some b)" "drop tunReadOffset b = take (nat n) buf"
    using WritePacket_hands_over [OF assms(1,2), of wr] assms(5) by metis
  have d: "driverDelivers rd buf2 (take (nat n) buf)" using assms(4) [OF b(1)] b(2) by simp
  have "take (nat n) buf \<noteq> []" using assms(1,2) by auto
  then obtain buf2' where "ReadPacket rd buf2 = Some (Inr (nat n), buf2')" "take (nat n) buf2' = take (nat n) buf"
    using ReadPacket_delivers [OF d] assms(2,3) by (metis length_take min.absorb2)
  with b show ?thesis by blast
qed

theorem tun_loopback_witness:
  "\<exists>b buf2'. WritePacket (\<lambda>_ _. True) [0x45, 0x00, 0x07] 3 = Some (None, Some b)
     \<and> ReadPacket (\<lambda>buf off. Some (1, 3, copy_at off [0x45, 0x00, 0x07] buf)) (replicate 8 0) = Some (Inr (nat 3), buf2')
     \<and> take (nat 3) buf2' = take (nat 3) [0x45, 0x00, 0x07 :: byte]"
  by (rule tun_loopback) (auto simp: WritePacket_def go_slice_def slice_def Let_def driverDelivers_def
      copy_at_def tunReadOffset_def)

text \<open>A reported size that does not fit the buffer behind the offset is a panic.\<close>

lemma ReadPacket_panics_iff:
  "ReadPacket rd buf = None \<longleftrightarrow>
     tunReadOffset < length buf \<and>
     (\<exists>n size buf'. rd buf tunReadOffset = Some (n, size, buf') \<and> n \<noteq> 0 \<and> 0 < size
        \<and> length buf' < tunReadOffset + size)"
  by (auto simp: ReadPacket_def go_slice_def split: option.split)

text \<open>However often a device is closed, its driver is closed once.\<close>

lemma closeAllCalls_closed: "devClosed d \<Longrightarrow> closeAllCalls oks d = (0, d)"
  by (induction oks) (auto simp: CloseDevice_def)

lemma close_once: "\<not> devClosed d \<Longrightarrow> oks \<noteq> [] \<Longrightarrow> fst (closeAllCalls oks d) = 1 \<and> devClosed (snd (closeAllCalls oks d))"
  by (cases oks) (auto simp: CloseDevice_def closeAllCalls_closed)

text \<open>The watcher never logs an error: it tests the flag that \<^verbatim>\<open>Close\<close> has just set.\<close>

lemma watchContext_silent: "fst (watchContext ok d) = False"
  by (simp add: watchContext_def CloseDevice_def)

end
