(* ===== verification/Listener.thy ===== *)
theory Listener
  imports EspNatt NetText
begin

text \<open>
  The UDP listeners (\<^verbatim>\<open>internal/listener/listener.go\<close>): a manager with one listener per bound
  port, and the receive loop of a listener over the shared buffer pool. Sockets are
  numbers; what the system answers to a bind and to a receive is an argument. The type of
  handlers is a parameter: the daemon gives each port its own.
\<close>

section \<open>The manager\<close>

definition PortIKE :: nat where "PortIKE = 500"
definition PortNATT :: nat where "PortNATT = 4500"
definition PortL2TP :: nat where "PortL2TP = 1701"

record 'h UDPListener =
  lsSock :: nat
  lsPort :: nat
  lsHandler :: 'h
  lsLabel :: string

record 'h Manager =
  mgrListeners :: "'h UDPListener list"
  mgrRunning :: bool

datatype listen_error = BindFailed nat string | SendFailed nat | NoListener nat

definition NewManager :: "'h Manager" where
  "NewManager = \<lparr>mgrListeners = [], mgrRunning = False\<rparr>"

text \<open>
  \<open>bind\<close> answers a bind of an address and port with a socket and the port it got, if any. A
  listen address that does not parse is the nil address, which stands for all interfaces.
\<close>

definition AddUDP ::
  "(ip \<Rightarrow> nat \<Rightarrow> (nat \<times> nat) option) \<Rightarrow> string \<Rightarrow> nat \<Rightarrow> string \<Rightarrow> 'h \<Rightarrow> 'h Manager
     \<Rightarrow> listen_error option \<times> 'h Manager" where
  "AddUDP bind listenAddr port label handler m =
     (case bind (ParseIP listenAddr) port of
        None \<Rightarrow> (Some (BindFailed port label), m)
      | Some (sock, actualPort) \<Rightarrow>
          (None, m\<lparr>mgrListeners := mgrListeners m @
             [\<lparr>lsSock = sock, lsPort = actualPort, lsHandler = handler, lsLabel = label\<rparr>]\<rparr>))"

text \<open>Starting: the sockets whose loops start; a manager that runs starts nothing.\<close>

definition StartManager :: "'h Manager \<Rightarrow> nat list \<times> 'h Manager" where
  "StartManager m =
     (if mgrRunning m then ([], m)
      else (map lsSock (mgrListeners m), m\<lparr>mgrRunning := True\<rparr>))"

definition closeListeners :: "'h Manager \<Rightarrow> nat list" where
  "closeListeners m = map lsSock (mgrListeners m)"

definition GetConn :: "nat \<Rightarrow> 'h Manager \<Rightarrow> nat option" where
  "GetConn port m = map_option lsSock (find (\<lambda>l. lsPort l = port) (mgrListeners m))"

text \<open>\<open>write\<close> tells whether the system takes the datagram; the effect is the socket used.\<close>

definition SendUDP ::
  "(nat \<Rightarrow> bytes \<Rightarrow> udp_addr \<Rightarrow> bool) \<Rightarrow> nat \<Rightarrow> bytes \<Rightarrow> udp_addr \<Rightarrow> 'h Manager
     \<Rightarrow> listen_error + nat" where
  "SendUDP write port data remoteAddr m =
     (case find (\<lambda>l. lsPort l = port) (mgrListeners m) of
        None \<Rightarrow> Inl (NoListener port)
      | Some l \<Rightarrow> if write (lsSock l) data remoteAddr then Inr (lsSock l) else Inl (SendFailed port))"

lemma find_append_case:
  "find P (xs @ ys) = (case find P xs of None \<Rightarrow> find P ys | Some x \<Rightarrow> Some x)"
  by (induction xs) auto

lemma AddUDP_GetConn:
  assumes "AddUDP bind addr port label hd m = (None, m')"
    and "\<forall>l\<in>set (mgrListeners m). lsPort l \<noteq> p"
    and "bind (ParseIP addr) port = Some (sock, p)"
  shows "GetConn p m' = Some sock"
proof -
  have "find (\<lambda>l. lsPort l = p) (mgrListeners m) = None"
    using assms(2) by (simp add: find_None_iff)
  with assms(1,3) show ?thesis by (auto simp: AddUDP_def GetConn_def find_append_case)
qed

lemma AddUDP_keeps:
  "AddUDP bind addr port label hd m = (e, m') \<Longrightarrow> GetConn p m = Some sock \<Longrightarrow> GetConn p m' = Some sock"
  by (auto simp: AddUDP_def GetConn_def find_append_case split: option.split_asm)

lemma SendUDP_GetConn:
  "SendUDP write port d a m =
     (case GetConn port m of None \<Rightarrow> Inl (NoListener port)
      | Some s \<Rightarrow> if write s d a then Inr s else Inl (SendFailed port))"
  by (simp add: SendUDP_def GetConn_def split: option.split)

lemma start_once: "fst (StartManager (snd (StartManager m))) = []"
  by (simp add: StartManager_def)

section \<open>The receive loop\<close>

datatype read_result = ReadErr | ReadOk bytes udp_addr

text \<open>
  One iteration: whether the context is done at its start, the pool's choice, what the
  receive returns, and whether the context is done after a failed receive. The result is
  the handler's calls, the pool, and whether the loop has returned. A datagram longer than
  the buffer is cut off.
\<close>

type_synonym iteration = "bool \<times> nat option \<times> read_result \<times> bool"

fun readLoop ::
  "iteration list \<Rightarrow> BufferPool \<Rightarrow> (bytes \<times> nat \<times> udp_addr) list \<times> BufferPool \<times> bool" where
  "readLoop [] pool = ([], pool, False)"
| "readLoop ((doneBefore, choice, res, doneAfter) # its) pool =
     (if doneBefore then ([], pool, True)
      else
      (let (buf, pool1) = PoolGet choice pool in
       case res of
         ReadErr \<Rightarrow>
           if doneAfter then ([], PoolPut buf pool1, True) else readLoop its (PoolPut buf pool1)
       | ReadOk data remoteAddr \<Rightarrow>
           (let n = min (length data) (length buf); buf' = copy_at 0 (take n data) buf in
            if n = 0 then readLoop its (PoolPut buf' pool1)
            else
            (let (calls, pool2, returned) = readLoop its (PoolPut buf' pool1)
             in ((buf', n, remoteAddr) # calls, pool2, returned)))))"

text \<open>The reference: the datagrams received until the loop stops, each up to the buffer size.\<close>

fun arrivals :: "nat \<Rightarrow> iteration list \<Rightarrow> (bytes \<times> udp_addr) list" where
  "arrivals sz [] = []"
| "arrivals sz ((doneBefore, choice, res, doneAfter) # its) =
     (if doneBefore then []
      else
      (case res of
         ReadErr \<Rightarrow> if doneAfter then [] else arrivals sz its
       | ReadOk data remoteAddr \<Rightarrow>
           if data = [] then arrivals sz its else (take sz data, remoteAddr) # arrivals sz its))"

lemma PoolGet_ok:
  assumes "pool_ok pool" and "PoolGet c pool = (buf, pool1)"
  shows "buf = replicate (bp_size pool) 0" and "pool_ok pool1" and "bp_size pool1 = bp_size pool"
    and "length (bp_pool pool) \<le> Suc (length (bp_pool pool1))"
proof -
  show "pool_ok pool1" using pool_ok_ops(3) [OF assms(1), of c] assms(2) by simp
  show "buf = replicate (bp_size pool) 0" "bp_size pool1 = bp_size pool"
    "length (bp_pool pool) \<le> Suc (length (bp_pool pool1))"
    using assms by (auto simp: PoolGet_def pool_ok_def split: option.split_asm if_split_asm)
qed

lemma PoolPut_ok:
  "pool_ok pool \<Longrightarrow> length buf = bp_size pool \<Longrightarrow>
     pool_ok (PoolPut buf pool) \<and> bp_size (PoolPut buf pool) = bp_size pool
     \<and> length (bp_pool (PoolPut buf pool)) = Suc (length (bp_pool pool))"
  by (simp add: PoolPut_def pool_ok_def)

lemma receive_buffer:
  fixes data :: bytes and sz :: nat
  defines "n \<equiv> min (length data) sz"
  shows "length (copy_at 0 (take n data) (replicate sz 0)) = sz"
    and "take n (copy_at 0 (take n data) (replicate sz 0)) = take sz data"
    and "drop n (copy_at 0 (take n data) (replicate sz 0)) = replicate (sz - n) 0"
  by (auto simp: copy_at_def n_def min_def)

text \<open>
  C23. The receive loop hands the handler every datagram of the stream, in order and up to
  the buffer size, and nothing else; the rest of each buffer is zero, so no bytes of an
  earlier datagram are visible behind it, whichever buffer the pool recycles; and no buffer
  is lost.
\<close>
theorem read_loop_delivers:
  assumes "pool_ok pool" and "0 < bp_size pool" and "readLoop its pool = (calls, pool', returned)"
  shows "map (\<lambda>(buf, n, a). (take n buf, a)) calls = arrivals (bp_size pool) its
    \<and> list_all (\<lambda>(buf, n, a). length buf = bp_size pool \<and> 0 < n \<and> n \<le> bp_size pool
        \<and> drop n buf = replicate (bp_size pool - n) 0) calls
    \<and> pool_ok pool' \<and> bp_size pool' = bp_size pool
    \<and> length (bp_pool pool) \<le> length (bp_pool pool')"
  using assms
proof (induction its pool arbitrary: calls pool' returned rule: readLoop.induct)
  case (2 doneBefore choice res doneAfter its pool)
  let ?size = "bp_size pool"
  obtain buf pool1 where g: "PoolGet choice pool = (buf, pool1)" by fastforce
  note gok = PoolGet_ok [OF "2.prems"(1) g]
  have put: "pool_ok (PoolPut b pool1) \<and> bp_size (PoolPut b pool1) = ?size
      \<and> length (bp_pool pool) \<le> length (bp_pool (PoolPut b pool1))" if "length b = ?size" for b
    using PoolPut_ok [OF gok(2), of b] gok(3,4) that by simp
  show ?case
  proof (cases "doneBefore")
    case False
    show ?thesis
    proof (cases res)
      case ReadErr
      have b: "length buf = ?size" using gok(1) by simp
      show ?thesis
      proof (cases doneAfter)
        case True
        with "2.prems" False ReadErr g put [OF b] show ?thesis by auto
      next
        case na: False
        from "2.prems"(3) False ReadErr g na
        have r: "readLoop its (PoolPut buf pool1) = (calls, pool', returned)" by simp
        have "map (\<lambda>(buf, n, a). (take n buf, a)) calls = arrivals (bp_size (PoolPut buf pool1)) its
          \<and> list_all (\<lambda>(b, n, a). length b = bp_size (PoolPut buf pool1) \<and> 0 < n \<and> n \<le> bp_size (PoolPut buf pool1)
              \<and> drop n b = replicate (bp_size (PoolPut buf pool1) - n) 0) calls
          \<and> pool_ok pool' \<and> bp_size pool' = bp_size (PoolPut buf pool1)
          \<and> length (bp_pool (PoolPut buf pool1)) \<le> length (bp_pool pool')"
          using "2.IH"(1) [OF False refl _ ReadErr na] g r put [OF b] "2.prems"(2) by simp
        with False ReadErr na put [OF b] show ?thesis by auto
      qed
    next
      case (ReadOk data addr)
      let ?n = "min (length data) (length buf)"
      let ?b = "copy_at 0 (take ?n data) buf"
      let ?P = "PoolPut ?b pool1"
      have bl: "length buf = ?size" using gok(1) by simp
      have rb: "length ?b = ?size" "take ?n ?b = take ?size data" "drop ?n ?b = replicate (?size - ?n) 0"
        using receive_buffer [of data ?size] unfolding bl gok(1) by simp_all
      obtain calls1 pool2 ret where r: "readLoop its ?P = (calls1, pool2, ret)" by (cases "readLoop its ?P")
      have IH: "map (\<lambda>(buf, n, a). (take n buf, a)) calls1 = arrivals ?size its
          \<and> list_all (\<lambda>(b, n, a). length b = ?size \<and> 0 < n \<and> n \<le> ?size \<and> drop n b = replicate (?size - n) 0) calls1
          \<and> pool_ok pool2 \<and> bp_size pool2 = ?size \<and> length (bp_pool ?P) \<le> length (bp_pool pool2)"
      proof (cases "?n = 0")
        case True
        from "2.IH"(2) [OF False refl _ ReadOk refl refl True] g r put [OF rb(1)] "2.prems"(2)
        show ?thesis by simp
      next
        case nz: False
        from "2.IH"(3) [OF False refl _ ReadOk refl refl nz] g r put [OF rb(1)] "2.prems"(2)
        show ?thesis by simp
      qed
      show ?thesis
      proof (cases "data = []")
        case True
        with "2.prems"(3) False ReadOk g r have "calls = calls1" "pool' = pool2" by (auto simp: Let_def)
        with IH True False ReadOk put [OF rb(1)] show ?thesis by auto
      next
        case nd: False
        then have "?n \<noteq> 0" using bl "2.prems"(2) by simp
        with "2.prems"(3) False ReadOk g r have "calls = (?b, ?n, addr) # calls1" "pool' = pool2"
          by (auto simp: Let_def)
        with IH nd False ReadOk put [OF rb(1)] rb \<open>?n \<noteq> 0\<close> bl show ?thesis by auto
      qed
    qed
  qed (use "2.prems" in auto)
qed auto

theorem read_loop_delivers_witness:
  "map (\<lambda>(buf, n, a). (take n buf, a))
     (fst (readLoop [(False, None, ReadOk [1, 2, 3] \<lparr>addrIP = [], addrPort = 7\<rparr>, False),
        (False, Some 0, ReadErr, False), (False, Some 0, ReadOk [9] \<lparr>addrIP = [], addrPort = 8\<rparr>, False),
        (True, None, ReadErr, True)] (NewBufferPool 2))) =
   [([1, 2], \<lparr>addrIP = [], addrPort = 7\<rparr>), ([9], \<lparr>addrIP = [], addrPort = 8\<rparr>)]"
  using read_loop_delivers [OF pool_ok_ops(1) _ surjective_pairing [THEN trans, OF arg_cong2 [where f = Pair, OF refl surjective_pairing]],
      of 2 "[(False, None, ReadOk [1, 2, 3] \<lparr>addrIP = [], addrPort = 7\<rparr>, False),
        (False, Some 0, ReadErr, False), (False, Some 0, ReadOk [9] \<lparr>addrIP = [], addrPort = 8\<rparr>, False),
        (True, None, ReadErr, True)]"]
  by (simp add: NewBufferPool_def)

text \<open>Shutdown: once the context is done and the socket is closed, the next round returns.\<close>

lemma read_loop_stops:
  "snd (snd (readLoop ((d, c, ReadErr, True) # its) pool))"
  "snd (snd (readLoop ((True, c, r, d') # its) pool))"
  by (auto simp: Let_def split: prod.split)

end
