(* ===== verification/EspOutbound.thy ===== *)
theory EspOutbound
  imports EspEngine TunDevice Listener
begin

text \<open>
  The outbound loop of the ESP engine (\<^verbatim>\<open>internal/esp/engine.go\<close>, \<^verbatim>\<open>outboundLoop\<close>) around the step of
  \<open>EspEngine\<close>: a buffer of the pool, a packet of the TUN device, the step, and the buffer back. The
  stream of the loop says for every round whether the context is done, which buffer the pool gives,
  what the driver does, whether the context is done after a failed read, and the random draw.
\<close>

record outbound_round =
  orDone :: bool
  orChoice :: "nat option"
  orRead :: tun_read
  orDoneAfter :: bool
  orIV :: "bytes option"

text \<open>The result: what is sent, the engine, the pool, and whether the loop has returned.\<close>

fun outboundLoop ::
  "hmac_fun \<Rightarrow> outbound_round list \<Rightarrow> engine \<Rightarrow> BufferPool \<Rightarrow> (effect list \<times> engine \<times> BufferPool \<times> bool) option" where
  "outboundLoop hmac [] e pool = Some ([], e, pool, False)"
| "outboundLoop hmac (r # rs) e pool =
     (if orDone r then Some ([], e, pool, True)
      else
      (let (buf, pool1) = PoolGet (orChoice r) pool in
       case ReadPacket (orRead r) buf of
         None \<Rightarrow> None
       | Some (Inl err, buf') \<Rightarrow>
           if orDoneAfter r then Some ([], e, PoolPut buf' pool1, True)
           else outboundLoop hmac rs e (PoolPut buf' pool1)
       | Some (Inr n, buf') \<Rightarrow>
           if n = 0 then outboundLoop hmac rs e (PoolPut buf' pool1)
           else
           (case go_slice 0 n buf' of
              None \<Rightarrow> None
            | Some packet \<Rightarrow>
                (case outboundStep hmac (orIV r) e packet of
                   None \<Rightarrow> None
                 | Some (effs, e1) \<Rightarrow>
                     (case outboundLoop hmac rs e1 (PoolPut buf' pool1) of
                        None \<Rightarrow> None
                      | Some (effs', e', pool', returned) \<Rightarrow> Some (effs @ effs', e', pool', returned))))))"

section \<open>The reference\<close>

text \<open>What a driver does with a buffer, as documented: it fails, or places one packet at the offset.\<close>

datatype delivery = NoPacket | Packet bytes

definition driverRead :: "delivery \<Rightarrow> tun_read" where
  "driverRead d buf off =
     (case d of NoPacket \<Rightarrow> None | Packet p \<Rightarrow> Some (1, length p, copy_at off p buf))"

text \<open>The packets of the stream, with the draws of their rounds, until the loop returns.\<close>

type_synonym delivery_round = "bool \<times> nat option \<times> delivery \<times> bool \<times> bytes option"

fun roundOf :: "delivery_round \<Rightarrow> outbound_round" where
  "roundOf (dn, c, d, da, iv) = \<lparr>orDone = dn, orChoice = c, orRead = driverRead d, orDoneAfter = da, orIV = iv\<rparr>"

fun packetsOf :: "delivery_round list \<Rightarrow> (bytes \<times> bytes option) list" where
  "packetsOf [] = []"
| "packetsOf ((dn, c, d, da, iv) # ds) =
     (if dn then []
      else
      (case d of
         NoPacket \<Rightarrow> if da then [] else packetsOf ds
       | Packet p \<Rightarrow> if p = [] then packetsOf ds else (p, iv) # packetsOf ds))"

fun sendPackets :: "hmac_fun \<Rightarrow> (bytes \<times> bytes option) list \<Rightarrow> engine \<Rightarrow> (effect list \<times> engine) option" where
  "sendPackets hmac [] e = Some ([], e)"
| "sendPackets hmac ((p, iv) # ps) e =
     (case outboundStep hmac iv e p of
        None \<Rightarrow> None
      | Some (effs, e1) \<Rightarrow>
          (case sendPackets hmac ps e1 of None \<Rightarrow> None | Some (effs', e') \<Rightarrow> Some (effs @ effs', e')))"

fun packetFits :: "nat \<Rightarrow> delivery_round \<Rightarrow> bool" where
  "packetFits sz (dn, c, d, da, iv) \<longleftrightarrow> (case d of NoPacket \<Rightarrow> True | Packet p \<Rightarrow> tunReadOffset + length p \<le> sz)"

definition loopResult :: "effect list \<times> engine \<times> BufferPool \<times> bool \<Rightarrow> effect list \<times> engine" where
  "loopResult r = (fst r, fst (snd r))"

lemma loopResult_simp [simp]: "loopResult (effs, e, pool, returned) = (effs, e)"
  by (simp add: loopResult_def)

text \<open>One read of the driver, by what it delivers.\<close>

lemma ReadPacket_driver:
  assumes "tunReadOffset < length buf"
  shows "ReadPacket (driverRead NoPacket) buf = Some (Inl DriverRead, buf)"
    and "ReadPacket (driverRead (Packet [])) buf = Some (Inr 0, buf)"
    and "p \<noteq> [] \<Longrightarrow> tunReadOffset + length p \<le> length buf \<Longrightarrow>
      \<exists>buf'. ReadPacket (driverRead (Packet p)) buf = Some (Inr (length p), buf') \<and> go_slice 0 (length p) buf' = Some p
        \<and> length buf' = length buf"
proof -
  show "ReadPacket (driverRead NoPacket) buf = Some (Inl DriverRead, buf)"
    using assms by (simp add: ReadPacket_def driverRead_def)
  show "ReadPacket (driverRead (Packet [])) buf = Some (Inr 0, buf)"
    using assms by (simp add: ReadPacket_def driverRead_def copy_at_def)
  assume p: "p \<noteq> []" "tunReadOffset + length p \<le> length buf"
  have "driverDelivers (driverRead (Packet p)) buf p" by (simp add: driverDelivers_def driverRead_def)
  from ReadPacket_delivers [OF this p] obtain buf' where
    "ReadPacket (driverRead (Packet p)) buf = Some (Inr (length p), buf')" "take (length p) buf' = p" "length buf' = length buf" .
  with p show "\<exists>buf'. ReadPacket (driverRead (Packet p)) buf = Some (Inr (length p), buf') \<and> go_slice 0 (length p) buf' = Some p
      \<and> length buf' = length buf"
    by (auto simp: go_slice_def slice_def)
qed

text \<open>
  C22. The outbound loop sends exactly what the packets of the device call for: its effects and its
  engine are those of one step for every packet the driver delivers, in order, until the loop
  returns; it panics exactly when one of these steps does; and it loses no buffer.
\<close>
theorem outbound_loop_refines:
  assumes "pool_ok pool" and "tunReadOffset < bp_size pool" and "list_all (packetFits (bp_size pool)) ds"
  shows "map_option loopResult (outboundLoop hmac (map roundOf ds) e pool) = sendPackets hmac (packetsOf ds) e
    \<and> (\<forall>effs e' pool' returned. outboundLoop hmac (map roundOf ds) e pool = Some (effs, e', pool', returned) \<longrightarrow>
         pool_ok pool' \<and> bp_size pool' = bp_size pool \<and> length (bp_pool pool) \<le> length (bp_pool pool'))"
  using assms
proof (induction ds arbitrary: e pool)
  case (Cons d ds)
  obtain dn c dl da iv where d: "d = (dn, c, dl, da, iv)" by (cases d) auto
  obtain buf pool1 where g: "PoolGet c pool = (buf, pool1)" by fastforce
  note gok = PoolGet_ok [OF Cons.prems(1) g]
  have len: "length buf = bp_size pool" using gok(1) by simp
  have put: "pool_ok (PoolPut b pool1) \<and> bp_size (PoolPut b pool1) = bp_size pool
      \<and> length (bp_pool pool) \<le> length (bp_pool (PoolPut b pool1))" if "length b = bp_size pool" for b
    using PoolPut_ok [OF gok(2), of b] gok(3,4) that by simp
  have ih: "map_option loopResult (outboundLoop hmac (map roundOf ds) e1 (PoolPut b pool1)) = sendPackets hmac (packetsOf ds) e1
    \<and> (\<forall>effs e' pool' returned. outboundLoop hmac (map roundOf ds) e1 (PoolPut b pool1) = Some (effs, e', pool', returned) \<longrightarrow>
         pool_ok pool' \<and> bp_size pool' = bp_size pool \<and> length (bp_pool pool) \<le> length (bp_pool pool'))"
    if "length b = bp_size pool" for b e1
    using Cons.IH [of "PoolPut b pool1" e1] put [OF that] Cons.prems(2,3) by (auto intro: order_trans)
  show ?case
  proof (cases dn)
    case True
    with d Cons.prems(1) show ?thesis by simp
  next
    case False
    have big: "tunReadOffset < length buf" using Cons.prems(2) len by simp
    consider "dl = NoPacket" | "dl = Packet []" | p where "dl = Packet p" "p \<noteq> []"
      by (cases dl) auto
    then show ?thesis
    proof cases
      case 1
      with False d g ReadPacket_driver(1) [OF big] ih [OF len] put [OF len] show ?thesis by simp
    next
      case 2
      with False d g ReadPacket_driver(2) [OF big] ih [OF len] show ?thesis by simp
    next
      case 3
      have "tunReadOffset + length p \<le> length buf" using Cons.prems(3) d 3 len by simp
      from ReadPacket_driver(3) [OF big 3(2) this] obtain b where
        b: "ReadPacket (driverRead dl) buf = Some (Inr (length p), b)" "go_slice 0 (length p) b = Some p" "length b = bp_size pool"
        using 3 len by auto
      show ?thesis
      proof (cases "outboundStep hmac iv e p")
        case None
        with False d g b 3 show ?thesis by simp
      next
        case (Some r)
        obtain effs e1 where r: "r = (effs, e1)" by fastforce
        with Some False d g b 3 ih [OF b(3), of e1] show ?thesis
          by (cases "outboundLoop hmac (map roundOf ds) e1 (PoolPut b pool1)") (auto split: option.split)
      qed
    qed
  qed
qed simp

theorem outbound_loop_refines_witness:
  "map_option fst (outboundLoop (\<lambda>_ _ _. []) (map roundOf
      [(False, None, NoPacket, False, None), (False, Some 0, Packet [0x45, 0, 0, 1], False, Some (replicate 16 5)), (True, None, NoPacket, False, None)])
      (example_engine\<lparr>defaultOutSA := Some 0\<rparr>) (NewBufferPool 64)) =
   map_option fst (outboundStep (\<lambda>_ _ _. []) (Some (replicate 16 5)) (example_engine\<lparr>defaultOutSA := Some 0\<rparr>) [0x45, 0, 0, 1])"
proof -
  let ?ds = "[(False, None, NoPacket, False, None), (False, Some 0, Packet [0x45, 0, 0, 1], False, Some (replicate 16 5)), (True, None, NoPacket, False, None)]"
  let ?e = "example_engine\<lparr>defaultOutSA := Some 0\<rparr>"
  have "map_option loopResult (outboundLoop (\<lambda>_ _ _. []) (map roundOf ?ds) ?e (NewBufferPool 64)) =
      sendPackets (\<lambda>_ _ _. []) (packetsOf ?ds) ?e"
    using outbound_loop_refines [OF pool_ok_ops(1) [of 64], of ?ds "\<lambda>_ _ _. []" ?e]
    by (simp add: NewBufferPool_def tunReadOffset_def)
  then have "map_option fst (map_option loopResult (outboundLoop (\<lambda>_ _ _. []) (map roundOf ?ds) ?e (NewBufferPool 64))) =
      map_option fst (sendPackets (\<lambda>_ _ _. []) (packetsOf ?ds) ?e)" by (rule arg_cong)
  then show ?thesis
    by (simp add: option.map_comp comp_def loopResult_def split: option.splits)
qed

end
