(* ===== verification/FileSystem.thy ===== *)
theory FileSystem
  imports GoPath "HOL-Library.AList" "HOL-Library.List_Lexorder" "HOL-Library.Char_ord"
begin

text \<open>
  The files of the host as the daemon and its commands see them through \<^verbatim>\<open>os.Stat\<close>,
  \<^verbatim>\<open>os.ReadFile\<close>, \<^verbatim>\<open>os.ReadDir\<close>, \<^verbatim>\<open>os.WriteFile\<close> and \<^verbatim>\<open>os.MkdirAll\<close>. A file system is a finite
  map from absolute component lists to nodes; the root always exists. A path that the
  process may neither open nor pass through is \<open>fsDenied\<close>. There are no symbolic links,
  a write that starts also completes, and a new file gets the mode that was asked for.
\<close>

section \<open>Nodes and lookup\<close>

type_synonym path = "string list"

datatype node = DirNode | FileNode bytes nat

datatype os_error = ErrNotExist | ErrPermission | ErrNotDir | ErrIsDir

record fsys =
  fsNodes :: "(path \<times> node) list"
  fsDenied :: "path \<Rightarrow> bool"
  fsCwd :: string

definition fsPath :: "fsys \<Rightarrow> string \<Rightarrow> path" where
  "fsPath fs p = cleanStack True [] (splitSlash (if IsAbs p then p else fsCwd fs @ slash # p))"

definition fsLookup :: "fsys \<Rightarrow> path \<Rightarrow> node option" where
  "fsLookup fs q = (if q = [] then Some DirNode else map_of (fsNodes fs) q)"

definition fsPut :: "path \<Rightarrow> node \<Rightarrow> fsys \<Rightarrow> fsys" where
  "fsPut q n fs = fs\<lparr>fsNodes := AList.update q n (fsNodes fs)\<rparr>"

text \<open>The walk to the last component, through directories that may be searched.\<close>

fun walk :: "fsys \<Rightarrow> path \<Rightarrow> path \<Rightarrow> os_error option" where
  "walk fs pre [] = None"
| "walk fs pre (c # cs) =
     (case fsLookup fs pre of
        None \<Rightarrow> Some ErrNotExist
      | Some (FileNode _ _) \<Rightarrow> Some ErrNotDir
      | Some DirNode \<Rightarrow> if fsDenied fs pre then Some ErrPermission else walk fs (pre @ [c]) cs)"

section \<open>Reading\<close>

definition Stat :: "fsys \<Rightarrow> string \<Rightarrow> os_error + node" where
  "Stat fs p =
     (if p = [] then Inl ErrNotExist
      else case walk fs [] (fsPath fs p) of
        Some e \<Rightarrow> Inl e
      | None \<Rightarrow> (case fsLookup fs (fsPath fs p) of None \<Rightarrow> Inl ErrNotExist | Some n \<Rightarrow> Inr n))"

definition ReadFile :: "fsys \<Rightarrow> string \<Rightarrow> os_error + bytes" where
  "ReadFile fs p =
     (case Stat fs p of
        Inl e \<Rightarrow> Inl e
      | Inr DirNode \<Rightarrow> Inl ErrIsDir
      | Inr (FileNode d _) \<Rightarrow> if fsDenied fs (fsPath fs p) then Inl ErrPermission else Inr d)"

text \<open>The entries of a directory, sorted by name; each with the mark of a directory.\<close>

definition ReadDir :: "fsys \<Rightarrow> string \<Rightarrow> os_error + (string \<times> bool) list" where
  "ReadDir fs p =
     (case Stat fs p of
        Inl e \<Rightarrow> Inl e
      | Inr (FileNode _ _) \<Rightarrow> Inl ErrNotDir
      | Inr DirNode \<Rightarrow>
          if fsDenied fs (fsPath fs p) then Inl ErrPermission
          else Inr (sort_key fst
            (map (\<lambda>(k, n). (last k, n = DirNode))
              (filter (\<lambda>(k, n). k \<noteq> [] \<and> butlast k = fsPath fs p) (fsNodes fs)))))"

text \<open>The test of \<^verbatim>\<open>certman.fileExists\<close> rests on \<^const>\<open>Stat\<close>: a file, not a directory.\<close>

section \<open>Writing\<close>

definition WriteFile :: "fsys \<Rightarrow> string \<Rightarrow> bytes \<Rightarrow> nat \<Rightarrow> os_error + fsys" where
  "WriteFile fs p d mode =
     (if p = [] then Inl ErrNotExist
      else case walk fs [] (fsPath fs p) of
        Some e \<Rightarrow> Inl e
      | None \<Rightarrow>
          (case fsLookup fs (fsPath fs p) of
             Some DirNode \<Rightarrow> Inl ErrIsDir
           | Some (FileNode _ m) \<Rightarrow>
               if fsDenied fs (fsPath fs p) then Inl ErrPermission
               else Inr (fsPut (fsPath fs p) (FileNode d m) fs)
           | None \<Rightarrow>
               if fsDenied fs (fsPath fs p) then Inl ErrPermission
               else Inr (fsPut (fsPath fs p) (FileNode d mode) fs)))"

fun mkdirs :: "fsys \<Rightarrow> path \<Rightarrow> path \<Rightarrow> os_error option \<times> fsys" where
  "mkdirs fs pre [] = (None, fs)"
| "mkdirs fs pre (c # cs) =
     (if fsDenied fs pre then (Some ErrPermission, fs)
      else case fsLookup fs (pre @ [c]) of
        Some DirNode \<Rightarrow> mkdirs fs (pre @ [c]) cs
      | Some (FileNode _ _) \<Rightarrow> (Some ErrNotDir, fs)
      | None \<Rightarrow> mkdirs (fsPut (pre @ [c]) DirNode fs) (pre @ [c]) cs)"

definition MkdirAll :: "fsys \<Rightarrow> string \<Rightarrow> os_error option \<times> fsys" where
  "MkdirAll fs p = (if p = [] then (Some ErrNotExist, fs) else mkdirs fs [] (fsPath fs p))"

section \<open>Laws\<close>

lemma fsPut_simps [simp]:
  "fsDenied (fsPut q n fs) = fsDenied fs" "fsCwd (fsPut q n fs) = fsCwd fs"
  "fsPath (fsPut q n fs) = fsPath fs"
  by (auto simp: fsPut_def fsPath_def fun_eq_iff)

lemma fsLookup_fsPut:
  "q \<noteq> [] \<Longrightarrow> fsLookup (fsPut q n fs) = (fsLookup fs)(q \<mapsto> n)"
  by (auto simp: fsLookup_def fsPut_def update_conv fun_eq_iff)

lemma fsLookup_Nil [simp]: "fsLookup fs [] = Some DirNode"
  by (simp add: fsLookup_def)

text \<open>
  One file system extends another when it keeps every node's kind and forgets none: what
  could be reached stays reachable.
\<close>

definition extends :: "fsys \<Rightarrow> fsys \<Rightarrow> bool" where
  "extends fs fs' \<longleftrightarrow>
     fsDenied fs' = fsDenied fs \<and> fsCwd fs' = fsCwd fs \<and>
     (\<forall>q. fsLookup fs q = Some DirNode \<longrightarrow> fsLookup fs' q = Some DirNode) \<and>
     (\<forall>q d m. fsLookup fs q = Some (FileNode d m) \<longrightarrow> (\<exists>d'. fsLookup fs' q = Some (FileNode d' m)))"

lemma extends_refl [simp]: "extends fs fs"
  by (simp add: extends_def)

lemma extends_trans [trans]: "extends fs fs' \<Longrightarrow> extends fs' fs'' \<Longrightarrow> extends fs fs''"
  unfolding extends_def by (auto; metis)

lemma extends_fsPath: "extends fs fs' \<Longrightarrow> fsPath fs' = fsPath fs"
  by (auto simp: extends_def fsPath_def fun_eq_iff)

lemma extends_put_file:
  assumes "q \<noteq> []" and "fsLookup fs q = None \<or> (\<exists>d. fsLookup fs q = Some (FileNode d m))"
  shows "extends fs (fsPut q (FileNode d' m) fs)"
  using assms by (auto simp: extends_def fsLookup_fsPut)

lemma extends_put_dir: "q \<noteq> [] \<Longrightarrow> fsLookup fs q = None \<Longrightarrow> extends fs (fsPut q DirNode fs)"
  by (auto simp: extends_def fsLookup_fsPut)

lemma walk_extends: "extends fs fs' \<Longrightarrow> walk fs pre cs = None \<Longrightarrow> walk fs' pre cs = None"
  by (induction fs pre cs rule: walk.induct)
    (auto simp: extends_def split: option.splits node.splits if_splits)

lemma WriteFile_success:
  assumes "WriteFile fs p d mode = Inr fs'"
  obtains m where "fsPath fs p \<noteq> []" "p \<noteq> []" "walk fs [] (fsPath fs p) = None" "\<not> fsDenied fs (fsPath fs p)"
    "fs' = fsPut (fsPath fs p) (FileNode d m) fs"
    "(fsLookup fs (fsPath fs p) = None \<and> m = mode) \<or> (\<exists>d0. fsLookup fs (fsPath fs p) = Some (FileNode d0 m))"
proof -
  have ne: "fsPath fs p \<noteq> []"
    using assms by (auto simp: WriteFile_def split: if_split_asm)
  show ?thesis
    using assms ne by (auto simp: WriteFile_def split: if_split_asm option.split_asm node.split_asm intro: that)
qed

lemma WriteFile_extends: "WriteFile fs p d mode = Inr fs' \<Longrightarrow> extends fs fs'"
  by (erule WriteFile_success) (auto intro: extends_put_file)

lemma Stat_extends:
  assumes "extends fs fs'"
  shows "Stat fs p = Inr DirNode \<Longrightarrow> Stat fs' p = Inr DirNode"
    and "Stat fs p = Inr (FileNode d m) \<Longrightarrow> \<exists>d'. Stat fs' p = Inr (FileNode d' m)"
proof -
  note w = walk_extends [OF assms, of "[]" "fsPath fs p"] and fp = extends_fsPath [OF assms]
  show "Stat fs p = Inr DirNode \<Longrightarrow> Stat fs' p = Inr DirNode"
    using assms w fp by (auto simp: Stat_def extends_def split: if_split_asm option.split_asm)
  assume s: "Stat fs p = Inr (FileNode d m)"
  then have l: "fsLookup fs (fsPath fs p) = Some (FileNode d m)" "walk fs [] (fsPath fs p) = None" "p \<noteq> []"
    by (auto simp: Stat_def split: if_split_asm option.split_asm)
  then obtain d' where "fsLookup fs' (fsPath fs p) = Some (FileNode d' m)"
    using assms l(1) unfolding extends_def by blast
  with w l fp show "\<exists>d'. Stat fs' p = Inr (FileNode d' m)" by (simp add: Stat_def)
qed

theorem ReadFile_WriteFile:
  assumes "WriteFile fs p d mode = Inr fs'"
  shows "ReadFile fs' p = Inr d"
proof -
  obtain m where w: "fsPath fs p \<noteq> []" "p \<noteq> []" "walk fs [] (fsPath fs p) = None"
    "\<not> fsDenied fs (fsPath fs p)" "fs' = fsPut (fsPath fs p) (FileNode d m) fs"
    using WriteFile_success [OF assms] by metis
  have "walk fs' [] (fsPath fs p) = None"
    by (rule walk_extends [OF WriteFile_extends [OF assms] w(3)])
  with w show ?thesis by (simp add: ReadFile_def Stat_def fsLookup_fsPut)
qed

theorem ReadFile_WriteFile_other:
  assumes "WriteFile fs p d mode = Inr fs'" and "ReadFile fs p' = Inr d'" and "fsPath fs p' \<noteq> fsPath fs p"
  shows "ReadFile fs' p' = Inr d'"
proof -
  obtain m where w: "fsPath fs p \<noteq> []" "fs' = fsPut (fsPath fs p) (FileNode d m) fs"
    using WriteFile_success [OF assms(1)] by metis
  have "walk fs [] (fsPath fs p') = None" "p' \<noteq> []"
    using assms(2) by (auto simp: ReadFile_def Stat_def split: if_split_asm option.split_asm)
  then have "walk fs' [] (fsPath fs p') = None"
    using walk_extends [OF WriteFile_extends [OF assms(1)]] by blast
  with assms w \<open>p' \<noteq> []\<close> show ?thesis
    by (auto simp: ReadFile_def Stat_def fsLookup_fsPut split: option.split_asm node.split_asm if_split_asm)
qed

lemma mkdirs_extends: "mkdirs fs pre cs = (e, fs') \<Longrightarrow> extends fs fs'"
proof (induction fs pre cs rule: mkdirs.induct)
  case (2 fs pre c cs)
  then show ?case
    by (auto split: if_split_asm option.split_asm node.split_asm
        intro: extends_trans [OF extends_put_dir])
qed simp

lemma mkdirs_keeps_files:
  "mkdirs fs pre cs = (e, fs') \<Longrightarrow> fsLookup fs q = Some (FileNode d m) \<Longrightarrow> fsLookup fs' q = Some (FileNode d m)"
proof (induction fs pre cs rule: mkdirs.induct)
  case (2 fs pre c cs)
  then show ?case
    by (cases "q = pre @ [c]")
      (auto split: if_split_asm option.split_asm node.split_asm simp: fsLookup_fsPut)
qed simp

lemma mkdirs_walk:
  "mkdirs fs pre cs = (None, fs') \<Longrightarrow> fsLookup fs pre = Some DirNode \<Longrightarrow>
     walk fs' pre cs = None \<and> fsLookup fs' (pre @ cs) = Some DirNode"
proof (induction fs pre cs rule: mkdirs.induct)
  case (2 fs pre c cs)
  let ?fs1 = "case fsLookup fs (pre @ [c]) of None \<Rightarrow> fsPut (pre @ [c]) DirNode fs | Some _ \<Rightarrow> fs"
  have nd: "\<not> fsDenied fs pre" using "2.prems"(1) by (simp split: if_split_asm)
  have d: "fsLookup ?fs1 (pre @ [c]) = Some DirNode"
    using "2.prems"(1) by (auto simp: fsLookup_fsPut split: if_split_asm option.splits node.split_asm)
  have m: "mkdirs ?fs1 (pre @ [c]) cs = (None, fs')"
    using "2.prems"(1) by (auto split: if_split_asm option.splits node.split_asm)
  have IH: "walk fs' (pre @ [c]) cs = None \<and> fsLookup fs' (pre @ [c] @ cs) = Some DirNode"
    using "2.IH" "2.prems"(1) d m nd by (auto split: if_split_asm option.split_asm node.split_asm)
  have e: "extends fs fs'" using mkdirs_extends [OF "2.prems"(1)] .
  then have "fsLookup fs' pre = Some DirNode" "\<not> fsDenied fs' pre"
    using "2.prems"(2) nd by (auto simp: extends_def)
  with IH show ?case by simp
qed simp

lemma MkdirAll_extends: "MkdirAll fs p = (e, fs') \<Longrightarrow> extends fs fs'"
  by (auto simp: MkdirAll_def dest: mkdirs_extends split: if_split_asm)

theorem MkdirAll_dir: "MkdirAll fs p = (None, fs') \<Longrightarrow> Stat fs' p = Inr DirNode"
  using mkdirs_walk [of fs "[]" "fsPath fs p" fs'] extends_fsPath [OF MkdirAll_extends, of fs p None fs']
  by (auto simp: MkdirAll_def Stat_def split: if_split_asm)

theorem MkdirAll_keeps_reads:
  assumes "MkdirAll fs p = (e, fs')" and "ReadFile fs q = Inr d"
  shows "ReadFile fs' q = Inr d"
proof -
  have ext: "extends fs fs'" by (rule MkdirAll_extends [OF assms(1)])
  then have fp: "fsPath fs' = fsPath fs" "fsDenied fs' = fsDenied fs" by (auto simp: extends_fsPath extends_def)
  obtain m where q: "Stat fs q = Inr (FileNode d m)" "\<not> fsDenied fs (fsPath fs q)"
    using assms(2) by (auto simp: ReadFile_def split: sum.split_asm node.split_asm if_split_asm)
  then have l: "fsLookup fs (fsPath fs q) = Some (FileNode d m)" "walk fs [] (fsPath fs q) = None" "q \<noteq> []"
    by (auto simp: Stat_def split: if_split_asm option.split_asm)
  have "fsLookup fs' (fsPath fs q) = Some (FileNode d m)"
    using assms(1) mkdirs_keeps_files [OF _ l(1)] l(1) by (auto simp: MkdirAll_def split: if_split_asm)
  with walk_extends [OF ext l(2)] l(3) fp q(2) show ?thesis
    by (simp add: ReadFile_def Stat_def)
qed

lemma ReadFile_Stat: "ReadFile fs p = Inr d \<Longrightarrow> \<exists>m. Stat fs p = Inr (FileNode d m)"
  by (auto simp: ReadFile_def split: sum.split_asm node.split_asm if_split_asm)

text \<open>Cleaned absolute paths are equal exactly when their components are.\<close>

lemma fsPath_absolute: "IsAbs p \<Longrightarrow> fsPath fs p = components p"
  by (simp add: fsPath_def components_def)

lemma components_abs_inject:
  assumes "IsAbs p" "IsAbs q" "Clean p = p" "Clean q = q" "components p = components q"
  shows "p = q"
  using assms by (metis Clean_def)

end
