(* ===== verification/ConfigLoader.thy ===== *)
theory ConfigLoader
  imports Config FileSystem
begin

text \<open>
  Loading the configuration (\<^verbatim>\<open>internal/config/loader.go\<close>): where the file is, the connections
  that separate files add, validation, and the profile paths. The YAML decoder
  (\<^verbatim>\<open>gopkg.in/yaml.v3\<close>) is a parameter; what the loader relies on is that a decoded mapping
  has distinct keys (\<open>yaml_ok\<close>).
\<close>

section \<open>The host and the decoder\<close>

record host =
  hFiles :: fsys
  hHostname :: "string option"
  hExecutable :: "string option"
  hSymlinks :: "string \<Rightarrow> string option"
  hGetwd :: "string option"

record yaml_lib =
  yConfig :: "bytes \<Rightarrow> Config option"
  yConn :: "bytes \<Rightarrow> ConnectionConfig option"

abbreviation conns :: "Config \<Rightarrow> connections" where
  "conns cfg \<equiv> ipConnections (cfgIPSec cfg)"

definition yaml_ok :: "yaml_lib \<Rightarrow> bool" where
  "yaml_ok y \<longleftrightarrow> (\<forall>d cfg. yConfig y d = Some cfg \<longrightarrow> distinct (map fst (conns cfg)))"

definition order_ok :: "(connections \<Rightarrow> string list) \<Rightarrow> bool" where
  "order_ok ord \<longleftrightarrow> (\<forall>m. distinct (map fst m) \<longrightarrow> rangeOrder m (ord m))"

datatype load_error =
    ReadConfig os_error | ParseConfig
  | AccessDir string os_error | ReadConnDir string os_error
  | ReadConn string os_error | ParseConn string
  | Invalid config_error

section \<open>The configuration file\<close>

definition ResolveConfigPath :: "host \<Rightarrow> string \<Rightarrow> string option" where
  "ResolveConfigPath h flagPath =
     (if flagPath \<noteq> [] then pathAbs (hGetwd h) flagPath
      else
      (case hExecutable h of
         None \<Rightarrow> None
       | Some exe \<Rightarrow>
           (case hSymlinks h exe of
              None \<Rightarrow> None
            | Some exe' \<Rightarrow> Some (pathJoin (pathDir exe') ''config.yaml''))))"

text \<open>The path does not depend on the working directory of a later process.\<close>

lemma resolved_path_absolute:
  assumes "ResolveConfigPath h flag = Some p"
    and "\<And>d. hGetwd h = Some d \<Longrightarrow> IsAbs d"
    and "\<And>e e'. hExecutable h = Some e \<Longrightarrow> hSymlinks h e = Some e' \<Longrightarrow> IsAbs e'"
  shows "IsAbs p"
  using assms(1) assms(2) assms(3) IsAbs_pathAbs [of "hGetwd h" flag p]
  by (auto simp: ResolveConfigPath_def IsAbs_pathDir split: if_split_asm option.split_asm)

section \<open>Connections in separate files\<close>

definition connName :: "string \<Rightarrow> string" where
  "connName filePath = TrimSuffix (pathBase filePath) (pathExt (pathBase filePath))"

definition loadConnectionFile ::
  "yaml_lib \<Rightarrow> fsys \<Rightarrow> string \<Rightarrow> connections \<Rightarrow> load_error + connections" where
  "loadConnectionFile y fs filePath m =
     (case ReadFile fs filePath of
        Inl e \<Rightarrow> Inl (ReadConn filePath e)
      | Inr data \<Rightarrow>
          (case yConn y data of
             None \<Rightarrow> Inl (ParseConn filePath)
           | Some conn \<Rightarrow>
               if map_of m (connName filePath) \<noteq> None then Inr m
               else Inr (AList.update (connName filePath) (Some conn) m)))"

fun loadFiles :: "yaml_lib \<Rightarrow> fsys \<Rightarrow> string list \<Rightarrow> connections \<Rightarrow> load_error + connections" where
  "loadFiles y fs [] m = Inr m"
| "loadFiles y fs (f # rest) m =
     (case loadConnectionFile y fs f m of
        Inl e \<Rightarrow> Inl e
      | Inr m' \<Rightarrow> loadFiles y fs rest m')"

definition isYaml :: "string \<Rightarrow> bool" where
  "isYaml name \<longleftrightarrow> HasSuffix name ''.yaml'' \<or> HasSuffix name ''.yml''"

definition dirFiles :: "string \<Rightarrow> (string \<times> bool) list \<Rightarrow> string list" where
  "dirFiles absDir entries =
     map (\<lambda>(n, _). pathJoin absDir n) (filter (\<lambda>(n, isDir). \<not> isDir \<and> isYaml n) entries)"

definition absoluteIn :: "string \<Rightarrow> string \<Rightarrow> string" where
  "absoluteIn cfgDir p = (if IsAbs p then p else pathJoin cfgDir p)"

definition loadPath ::
  "yaml_lib \<Rightarrow> fsys \<Rightarrow> string \<Rightarrow> string \<Rightarrow> connections \<Rightarrow> load_error + connections" where
  "loadPath y fs cfgDir dir m =
     (let absDir = absoluteIn cfgDir dir in
      case Stat fs absDir of
        Inl e \<Rightarrow> if e = ErrNotExist then Inr m else Inl (AccessDir absDir e)
      | Inr (FileNode _ _) \<Rightarrow> loadConnectionFile y fs absDir m
      | Inr DirNode \<Rightarrow>
          (case ReadDir fs absDir of
             Inl e \<Rightarrow> Inl (ReadConnDir absDir e)
           | Inr entries \<Rightarrow> loadFiles y fs (dirFiles absDir entries) m))"

fun loadPaths ::
  "yaml_lib \<Rightarrow> fsys \<Rightarrow> string \<Rightarrow> string list \<Rightarrow> connections \<Rightarrow> load_error + connections" where
  "loadPaths y fs cfgDir [] m = Inr m"
| "loadPaths y fs cfgDir (d # ds) m =
     (case loadPath y fs cfgDir d m of
        Inl e \<Rightarrow> Inl e
      | Inr m' \<Rightarrow> loadPaths y fs cfgDir ds m')"

definition connectionDirs :: "fsys \<Rightarrow> string \<Rightarrow> string list \<Rightarrow> string list" where
  "connectionDirs fs cfgDir dirs =
     (if dirs = []
      then (if Stat fs (pathJoin cfgDir ''ipsec.d'') = Inr DirNode then [''ipsec.d''] else [])
      else dirs)"

definition loadConnectionDirs ::
  "yaml_lib \<Rightarrow> fsys \<Rightarrow> string \<Rightarrow> Config \<Rightarrow> load_error + connections" where
  "loadConnectionDirs y fs cfgDir cfg =
     loadPaths y fs cfgDir (connectionDirs fs cfgDir (ConnectionDir (cfgIPSec cfg))) (conns cfg)"

section \<open>Load\<close>

definition resolveProfilePaths :: "string \<Rightarrow> string list \<Rightarrow> string list" where
  "resolveProfilePaths cfgDir paths = map (absoluteIn cfgDir) paths"

definition setConns :: "connections \<Rightarrow> Config \<Rightarrow> Config" where
  "setConns m cfg = cfg\<lparr>cfgIPSec := (cfgIPSec cfg)\<lparr>ipConnections := m\<rparr>\<rparr>"

definition resolveProfiles :: "string \<Rightarrow> Config \<Rightarrow> Config" where
  "resolveProfiles cfgDir cfg = cfg\<lparr>
     cfgIKEv2 := (cfgIKEv2 cfg)\<lparr>v2Profile := resolveProfilePaths cfgDir (v2Profile (cfgIKEv2 cfg))\<rparr>,
     cfgL2TP := (cfgL2TP cfg)\<lparr>l2Profile := resolveProfilePaths cfgDir (l2Profile (cfgL2TP cfg))\<rparr>\<rparr>"

text \<open>The result is \<^const>\<open>None\<close> where validation dereferences a nil connection.\<close>

definition Load ::
  "yaml_lib \<Rightarrow> host \<Rightarrow> (connections \<Rightarrow> string list) \<Rightarrow> string \<Rightarrow> (load_error + Config) option" where
  "Load y h ord path =
     (case ReadFile (hFiles h) path of
        Inl e \<Rightarrow> Some (Inl (ReadConfig e))
      | Inr data \<Rightarrow>
          (case yConfig y data of
             None \<Rightarrow> Some (Inl ParseConfig)
           | Some cfg \<Rightarrow>
               (case loadConnectionDirs y (hFiles h) (pathDir path) cfg of
                  Inl e \<Rightarrow> Some (Inl e)
                | Inr m \<Rightarrow>
                    (case applyDefaultsAndValidate (hHostname h) (ord m) (setConns m cfg) of
                       None \<Rightarrow> None
                     | Some (Inl e) \<Rightarrow> Some (Inl (Invalid e))
                     | Some (Inr cfg') \<Rightarrow> Some (Inr (resolveProfiles (pathDir path) cfg'))))))"

section \<open>What the files contribute\<close>

text \<open>The files that the loader reads, in its order.\<close>

definition pathFiles :: "fsys \<Rightarrow> string \<Rightarrow> string list" where
  "pathFiles fs absDir =
     (case Stat fs absDir of
        Inl _ \<Rightarrow> []
      | Inr (FileNode _ _) \<Rightarrow> [absDir]
      | Inr DirNode \<Rightarrow> (case ReadDir fs absDir of Inl _ \<Rightarrow> [] | Inr entries \<Rightarrow> dirFiles absDir entries))"

definition connFiles :: "fsys \<Rightarrow> string \<Rightarrow> Config \<Rightarrow> string list" where
  "connFiles fs cfgDir cfg =
     concat (map (\<lambda>d. pathFiles fs (absoluteIn cfgDir d))
       (connectionDirs fs cfgDir (ConnectionDir (cfgIPSec cfg))))"

definition decodeFile :: "yaml_lib \<Rightarrow> fsys \<Rightarrow> string \<Rightarrow> ConnectionConfig option" where
  "decodeFile y fs f = (case ReadFile fs f of Inl _ \<Rightarrow> None | Inr d \<Rightarrow> yConn y d)"

text \<open>The specification: an inline connection wins, then the first file of that name.\<close>

definition mergedConns :: "yaml_lib \<Rightarrow> fsys \<Rightarrow> string list \<Rightarrow> connections \<Rightarrow> string \<rightharpoonup> ConnectionConfig option" where
  "mergedConns y fs files m = map_of (m @ map (\<lambda>f. (connName f, decodeFile y fs f)) files)"

lemma loadConnectionFile_spec:
  assumes "loadConnectionFile y fs f m = Inr m'"
  shows "decodeFile y fs f \<noteq> None"
    and "map_of m' = map_of (m @ [(connName f, decodeFile y fs f)])"
    and "distinct (map fst m) \<Longrightarrow> distinct (map fst m')"
  using assms
  by (auto simp: loadConnectionFile_def decodeFile_def update_conv map_add_def fun_eq_iff distinct_update
      split: sum.split_asm option.split_asm if_split_asm option.split)

lemma loadFiles_append:
  "loadFiles y fs (xs @ ys) m = (case loadFiles y fs xs m of Inl e \<Rightarrow> Inl e | Inr m' \<Rightarrow> loadFiles y fs ys m')"
  by (induction y fs xs m rule: loadFiles.induct) (auto split: sum.split)

lemma loadFiles_spec:
  assumes "loadFiles y fs files m = Inr m'"
  shows "\<forall>f\<in>set files. decodeFile y fs f \<noteq> None"
    and "map_of m' = mergedConns y fs files m"
    and "distinct (map fst m) \<Longrightarrow> distinct (map fst m')"
  using assms
proof (induction y fs files m arbitrary: m' rule: loadFiles.induct)
  case (1 y fs m)
  { case 1 then show ?case by simp next case 2 then show ?case by (simp add: mergedConns_def)
  next case 3 then show ?case by simp }
next
  case IH: (2 y fs f rest m)
  { case 1
    then show ?case using IH(1) by (auto split: sum.split_asm dest: loadConnectionFile_spec(1))
  next
    case 2
    then obtain m1 where m1: "loadConnectionFile y fs f m = Inr m1" "loadFiles y fs rest m1 = Inr m'"
      by (auto split: sum.split_asm)
    with IH(2) have "map_of m' = mergedConns y fs rest m1" by simp
    also have "\<dots> = mergedConns y fs (f # rest) m"
      using loadConnectionFile_spec(2) [OF m1(1)] by (auto simp: mergedConns_def map_add_def fun_eq_iff split: option.split)
    finally show ?case .
  next
    case 3
    then show ?case using IH(3) by (auto split: sum.split_asm dest: loadConnectionFile_spec(3)) }
qed

lemma loadPath_files:
  "loadPath y fs cfgDir d m = Inr m' \<Longrightarrow> loadFiles y fs (pathFiles fs (absoluteIn cfgDir d)) m = Inr m'"
  by (auto simp: loadPath_def pathFiles_def Let_def
      split: sum.split_asm node.split_asm if_split_asm)

lemma loadPaths_files:
  "loadPaths y fs cfgDir ds m = Inr m' \<Longrightarrow>
     loadFiles y fs (concat (map (\<lambda>d. pathFiles fs (absoluteIn cfgDir d)) ds)) m = Inr m'"
proof (induction y fs cfgDir ds m arbitrary: m' rule: loadPaths.induct)
  case (2 y fs cfgDir d ds m)
  then show ?case by (auto simp: loadFiles_append split: sum.split_asm dest: loadPath_files)
qed simp

lemma loadConnectionDirs_spec:
  assumes "loadConnectionDirs y fs cfgDir cfg = Inr m"
  shows "map_of m = mergedConns y fs (connFiles fs cfgDir cfg) (conns cfg)"
    and "distinct (map fst (conns cfg)) \<Longrightarrow> distinct (map fst m)"
  using loadFiles_spec [OF loadPaths_files [OF assms [unfolded loadConnectionDirs_def]]]
  by (auto simp: connFiles_def)

text \<open>A file \<^verbatim>\<open><name>.yaml\<close> or \<^verbatim>\<open><name>.yml\<close> in a directory defines the connection \<open><name>\<close>.\<close>

lemma connName_yaml:
  assumes "d \<noteq> []" and "plainName (n @ ''.yaml'')"
  shows "connName (pathJoin d (n @ ''.yaml'')) = n"
  using pathExt_append [of "''yaml''" n] assms by (simp add: connName_def)

lemma connName_yml:
  assumes "d \<noteq> []" and "plainName (n @ ''.yml'')"
  shows "connName (pathJoin d (n @ ''.yml'')) = n"
  using pathExt_append [of "''yml''" n] assms by (simp add: connName_def)

section \<open>Properties of loading\<close>

definition configReady :: "Config \<Rightarrow> bool" where
  "configReady cfg \<longleftrightarrow>
     Hostname (cfgServer cfg) \<noteq> [] \<and> Listen (cfgServer cfg) \<noteq> []
     \<and> LogLevel (cfgLogging cfg) \<noteq> [] \<and> LogOutput (cfgLogging cfg) \<noteq> []
     \<and> conns cfg \<noteq> [] \<and> distinct (map fst (conns cfg))
     \<and> list_all (\<lambda>(n, co). case co of None \<Rightarrow> False | Some c \<Rightarrow> connValid c \<and> connComplete c) (conns cfg)
     \<and> v2CookieMode (cfgIKEv2 cfg) \<noteq> []
     \<and> ipamRange (v2IPAM (cfgIKEv2 cfg)) \<noteq> [] \<and> ipamDNS (v2IPAM (cfgIKEv2 cfg)) \<noteq> []
     \<and> l2Gateway (l2IPAM (cfgL2TP cfg)) \<noteq> [] \<and> l2Range (l2IPAM (cfgL2TP cfg)) \<noteq> []
     \<and> l2DNS (l2IPAM (cfgL2TP cfg)) \<noteq> []
     \<and> list_all IsAbs (v2Profile (cfgIKEv2 cfg)) \<and> list_all IsAbs (l2Profile (cfgL2TP cfg))"

lemma conns_simps [simp]:
  "conns (setConns m cfg) = m" "conns (resolveProfiles d cfg) = conns cfg"
  "conns (withDefaults hn cfg) = fillAll (conns cfg)"
  "hostnameOf ho (setConns m cfg) = hostnameOf ho cfg"
  by (simp_all add: setConns_def resolveProfiles_def withDefaults_def hostnameOf_def)

lemma list_all_absoluteIn: "IsAbs d \<Longrightarrow> list_all IsAbs (resolveProfilePaths d ps)"
  by (auto simp: resolveProfilePaths_def absoluteIn_def list_all_iff)

lemma resolveProfilePaths_absolute: "list_all IsAbs ps \<Longrightarrow> resolveProfilePaths d ps = ps"
  by (simp add: resolveProfilePaths_def absoluteIn_def list_all_iff map_idI)

lemma fillAll_keys: "map fst (fillAll m) = map fst m"
  by (induction m) auto

lemma map_of_fillAll: "map_of (fillAll m) n = map_option (map_option fillDefaults) (map_of m n)"
  by (induction m) auto

lemma configReady_withDefaults:
  assumes "hn \<noteq> []" and "IsAbs d" and "conns cfg \<noteq> []" and "distinct (map fst (conns cfg))"
    and "connsValid (conns cfg)"
  shows "configReady (resolveProfiles d (withDefaults hn cfg))"
proof -
  have "list_all (\<lambda>(n, co). case co of None \<Rightarrow> False | Some c \<Rightarrow> connValid c \<and> connComplete c)
    (fillAll (conns cfg))"
    using assms(5) by (auto simp: connsValid_def list_all_iff fillDefaults_complete split: option.splits)
  moreover have "defaultDNS \<noteq> []" by (simp add: defaultDNS_def)
  ultimately show ?thesis
    using assms unfolding configReady_def conns_simps fillAll_keys
    by (simp add: withDefaults_def resolveProfiles_def serverDefaults_def loggingDefaults_def
        ikev2Defaults_def l2tpDefaults_def list_all_absoluteIn orElse_def)
qed

text \<open>A successful load, step by step.\<close>

lemma Load_iff:
  assumes "yaml_ok y" and "order_ok ord"
  shows "Load y h ord path = Some (Inr cfg) \<longleftrightarrow>
    (\<exists>data raw m hn. ReadFile (hFiles h) path = Inr data \<and> yConfig y data = Some raw
       \<and> loadConnectionDirs y (hFiles h) (pathDir path) raw = Inr m
       \<and> hostnameOf (hHostname h) raw = Some hn \<and> m \<noteq> [] \<and> connsValid m
       \<and> cfg = resolveProfiles (pathDir path) (withDefaults hn (setConns m raw)))"
proof -
  have v: "applyDefaultsAndValidate (hHostname h) (ord m) (setConns m raw) = Some (Inr cfg') \<longleftrightarrow>
    (\<exists>hn. hostnameOf (hHostname h) raw = Some hn \<and> cfg' = withDefaults hn (setConns m raw)) \<and>
    m \<noteq> [] \<and> connsValid m"
    if "yConfig y data = Some raw" "loadConnectionDirs y (hFiles h) (pathDir path) raw = Inr m"
    for data raw m cfg'
  proof -
    have "distinct (map fst m)"
      using that assms(1) loadConnectionDirs_spec(2) by (auto simp: yaml_ok_def)
    with assms(2) have "rangeOrder m (ord m)" by (simp add: order_ok_def)
    with \<open>distinct (map fst m)\<close> show ?thesis
      using validation_iff [of "setConns m raw" "ord m" "hHostname h" cfg'] by simp
  qed
  show ?thesis
  proof
    assume "Load y h ord path = Some (Inr cfg)"
    then obtain data raw m cfg' where l:
      "ReadFile (hFiles h) path = Inr data" "yConfig y data = Some raw"
      "loadConnectionDirs y (hFiles h) (pathDir path) raw = Inr m"
      "applyDefaultsAndValidate (hHostname h) (ord m) (setConns m raw) = Some (Inr cfg')"
      "cfg = resolveProfiles (pathDir path) cfg'"
      by (auto simp: Load_def split: sum.split_asm option.split_asm)
    from v [OF l(2,3), of cfg', THEN iffD1, OF l(4)] obtain hn where
      "hostnameOf (hHostname h) raw = Some hn" "cfg' = withDefaults hn (setConns m raw)" "m \<noteq> []" "connsValid m"
      by blast
    with l show "\<exists>data raw m hn. ReadFile (hFiles h) path = Inr data \<and> yConfig y data = Some raw
       \<and> loadConnectionDirs y (hFiles h) (pathDir path) raw = Inr m
       \<and> hostnameOf (hHostname h) raw = Some hn \<and> m \<noteq> [] \<and> connsValid m
       \<and> cfg = resolveProfiles (pathDir path) (withDefaults hn (setConns m raw))"
      by (intro exI conjI) simp_all
  next
    assume "\<exists>data raw m hn. ReadFile (hFiles h) path = Inr data \<and> yConfig y data = Some raw
       \<and> loadConnectionDirs y (hFiles h) (pathDir path) raw = Inr m
       \<and> hostnameOf (hHostname h) raw = Some hn \<and> m \<noteq> [] \<and> connsValid m
       \<and> cfg = resolveProfiles (pathDir path) (withDefaults hn (setConns m raw))"
    then obtain data raw m hn where l: "ReadFile (hFiles h) path = Inr data" "yConfig y data = Some raw"
      "loadConnectionDirs y (hFiles h) (pathDir path) raw = Inr m"
      "hostnameOf (hHostname h) raw = Some hn" "m \<noteq> []" "connsValid m"
      "cfg = resolveProfiles (pathDir path) (withDefaults hn (setConns m raw))" by blast
    with v [OF l(2,3), of "withDefaults hn (setConns m raw)"]
    show "Load y h ord path = Some (Inr cfg)" by (simp add: Load_def)
  qed
qed

text \<open>The order in which Go ranges over the map does not decide whether loading succeeds.\<close>

lemma load_order_irrelevant:
  "yaml_ok y \<Longrightarrow> order_ok ord \<Longrightarrow> order_ok ord' \<Longrightarrow>
     Load y h ord path = Some (Inr cfg) \<longleftrightarrow> Load y h ord' path = Some (Inr cfg)"
  by (simp add: Load_iff)

lemma defaultsLoop_nil:
  assumes "map_of m n = Some None" and "n \<in> set ks" and "distinct ks"
    and "\<forall>k c. map_of m k = Some (Some c) \<longrightarrow> connValid c"
  shows "defaultsLoop ks m = None"
  using assms
proof (induction ks arbitrary: m)
  case (Cons k ks)
  show ?case
  proof (cases "n = k")
    case False
    with Cons.prems have n: "n \<in> set ks" "distinct ks" by auto
    show ?thesis
    proof (cases "map_of m k")
      case None
      with Cons n show ?thesis by simp
    next
      case (Some co)
      show ?thesis
      proof (cases co)
        case None
        with Some show ?thesis by simp
      next
        case (Some c)
        with \<open>map_of m k = Some co\<close> have c: "map_of m k = Some (Some c)" by simp
        with Cons.prems(4) have v: "connValid c" by blast
        have "defaultsLoop ks (AList.update k (Some (fillDefaults c)) m) = None"
          using Cons.prems n False v by (intro Cons.IH) (auto simp: update_conv)
        with c v show ?thesis by (simp add: applyConnectionDefaults_Inr_iff [THEN iffD2])
      qed
    qed
  qed (use Cons.prems in simp)
qed simp


lemma globalsLoaded_withDefaults:
  assumes "hostnameOf os raw = Some hn"
  shows "globalsLoaded os (absoluteIn d) raw (resolveProfiles d (withDefaults hn (setConns m raw)))"
  using assms
  by (auto simp: globalsLoaded_def Let_def hostnameOf_def resolveProfiles_def resolveProfilePaths_def withDefaults_def
      setConns_def serverDefaults_def loggingDefaults_def ikev2Defaults_def l2tpDefaults_def orElse_def defaultDNS_def)

lemma rel_connLoaded: "rel_option (rel_option connLoaded) x (map_option (map_option fillDefaults) x)"
  by (simp add: option.rel_map option.rel_refl connLoaded_fillDefaults)

text \<open>
  C20. A loaded configuration is what the files say with the defaults of the loader: its
  connections are exactly the inline ones and, for the other names, the first file of that name in
  the listed directories, each with the listed default in every field of \<open>connDefaults\<close> that was
  empty and every other field as written (\<open>connLoaded\<close>); everything outside the connections is as
  written, with the defaults and the absolute profile paths of \<open>globalsLoaded\<close>. And it is ready
  for use: every value that the daemon reads without a check is set, every connection is present,
  valid and complete, every profile path is absolute.
\<close>
theorem load_sound:
  assumes "Load y h ord path = Some (Inr cfg)" and "yaml_ok y" and "order_ok ord"
    and "IsAbs path" and "hHostname h \<noteq> Some []"
  shows "configReady cfg \<and>
    (\<exists>data raw. ReadFile (hFiles h) path = Inr data \<and> yConfig y data = Some raw \<and>
       globalsLoaded (hHostname h) (absoluteIn (pathDir path)) raw cfg \<and>
       (\<forall>n. rel_option (rel_option connLoaded)
          (mergedConns y (hFiles h) (connFiles (hFiles h) (pathDir path) raw) (conns raw) n) (map_of (conns cfg) n)))"
proof -
  from assms(1) [unfolded Load_iff [OF assms(2,3)]] obtain data raw m hn where l:
    "ReadFile (hFiles h) path = Inr data" "yConfig y data = Some raw"
    "loadConnectionDirs y (hFiles h) (pathDir path) raw = Inr m"
    "hostnameOf (hHostname h) raw = Some hn" "m \<noteq> []" "connsValid m"
    "cfg = resolveProfiles (pathDir path) (withDefaults hn (setConns m raw))" by blast
  have "distinct (map fst m)"
    using l(2,3) assms(2) loadConnectionDirs_spec(2) by (auto simp: yaml_ok_def)
  moreover have "hn \<noteq> []" using l(4) assms(5) by (auto simp: hostnameOf_def split: if_split_asm)
  ultimately have "configReady cfg"
    using l configReady_withDefaults [of hn "pathDir path" "setConns m raw"] IsAbs_pathDir [OF assms(4)] by simp
  moreover have "map_of (conns cfg) n = map_option (map_option fillDefaults)
      (mergedConns y (hFiles h) (connFiles (hFiles h) (pathDir path) raw) (conns raw) n)" for n
    using l(7) loadConnectionDirs_spec(1) [OF l(3)] by (simp add: map_of_fillAll)
  moreover have "globalsLoaded (hHostname h) (absoluteIn (pathDir path)) raw cfg"
    unfolding l(7) by (rule globalsLoaded_withDefaults [OF l(4)])
  ultimately show ?thesis using l(1,2) by (auto simp: rel_connLoaded)
qed

definition exampleConn :: "string \<Rightarrow> ConnectionConfig" where
  "exampleConn right = zeroConnection\<lparr>connLeft := ''%defaultroute'', connRight := right,
     connAuthBy := ''secret'', connPSK := ''key''\<rparr>"

definition exampleRaw :: "connections \<Rightarrow> Config" where
  "exampleRaw m =
     \<lparr>cfgServer = \<lparr>Hostname = '''', Listen = ''''\<rparr>,
      cfgLogging = \<lparr>LogLevel = '''', LogOutput = '''', LogFile = '''', MaxSize = 0, MaxBackups = 0,
        MaxAge = 0, LogCompress = False\<rparr>,
      cfgTUN = \<lparr>DeviceName = '''', TunMTU = 0\<rparr>,
      cfgIPSec = \<lparr>ipConnections = m, ConnectionDir = [], ipHotReload = False\<rparr>,
      cfgIKEv2 = \<lparr>v2Enabled = False, v2CookieMode = '''', v2IPAM = \<lparr>ipamRange = '''', ipamDNS = []\<rparr>,
        v2Profile = [], v2HotReload = False\<rparr>,
      cfgL2TP = \<lparr>l2Enabled = True, l2IPAM = \<lparr>l2Gateway = '''', l2Range = '''', l2DNS = []\<rparr>,
        l2Profile = [''profile.d/l2tp-alice.yaml''], l2HotReload = False\<rparr>\<rparr>"

definition exampleYaml :: "connections \<Rightarrow> yaml_lib" where
  "exampleYaml m =
     \<lparr>yConfig = (\<lambda>d. if d = [0] then Some (exampleRaw m) else None),
      yConn = (\<lambda>d. if d = [1] then Some (exampleConn ''203.0.113.9'') else None)\<rparr>"

definition exampleFiles :: fsys where
  "exampleFiles =
     \<lparr>fsNodes = [([''etc''], DirNode), ([''etc'', ''config.yaml''], FileNode [0] 420),
        ([''etc'', ''ipsec.d''], DirNode), ([''etc'', ''ipsec.d'', ''office.yaml''], FileNode [1] 420)],
      fsDenied = (\<lambda>_. False), fsCwd = ''/''\<rparr>"

definition exampleHost :: host where
  "exampleHost = \<lparr>hFiles = exampleFiles, hHostname = Some ''vpn'', hExecutable = None,
     hSymlinks = (\<lambda>_. None), hGetwd = Some ''/''\<rparr>"

definition inlineConns :: connections where
  "inlineConns = [(''l2tp'', Some (exampleConn ''%any''))]"

lemma exampleYaml_ok: "distinct (map fst m) \<Longrightarrow> yaml_ok (exampleYaml m)"
  by (simp add: yaml_ok_def exampleYaml_def exampleRaw_def)

lemma order_ok_keys: "order_ok (map fst)"
  by (auto simp: order_ok_def rangeOrder_def)

lemmas example_defs = exampleHost_def exampleFiles_def exampleYaml_def exampleRaw_def
  Stat_def ReadFile_def ReadDir_def fsPath_def IsAbs_def fsLookup_def

lemma example_paths:
  "pathDir ''/etc/config.yaml'' = ''/etc''" "pathJoin ''/etc'' ''ipsec.d'' = ''/etc/ipsec.d''"
  "pathJoin ''/etc/ipsec.d'' ''office.yaml'' = ''/etc/ipsec.d/office.yaml''"
  "connName ''/etc/ipsec.d/office.yaml'' = ''office''"
  by code_simp+

lemma example_reads:
  "ReadFile exampleFiles ''/etc/config.yaml'' = Inr [0]"
  "ReadFile exampleFiles ''/etc/ipsec.d/office.yaml'' = Inr [1]"
  "Stat exampleFiles ''/etc/ipsec.d'' = Inr DirNode"
  "ReadDir exampleFiles ''/etc/ipsec.d'' = Inr [(''office.yaml'', False)]"
  by (simp_all add: example_defs)

lemma example_dirs:
  assumes "map_of m ''office'' = None"
  shows "loadConnectionDirs (exampleYaml m) exampleFiles ''/etc'' (exampleRaw m) =
    Inr (AList.update ''office'' (Some (exampleConn ''203.0.113.9'')) m)"
  using assms
  by (simp add: loadConnectionDirs_def connectionDirs_def loadPath_def absoluteIn_def IsAbs_def
      example_paths example_reads dirFiles_def isYaml_def HasSuffix_def loadConnectionFile_def
      exampleRaw_def exampleYaml_def)

definition exampleLoaded :: Config where
  "exampleLoaded = resolveProfiles ''/etc'' (withDefaults ''vpn'' (setConns
     (inlineConns @ [(''office'', Some (exampleConn ''203.0.113.9''))]) (exampleRaw inlineConns)))"

lemma example_load:
  "Load (exampleYaml inlineConns) exampleHost (map fst) ''/etc/config.yaml'' = Some (Inr exampleLoaded)"
proof -
  have "connsValid (inlineConns @ [(''office'', Some (exampleConn ''203.0.113.9''))])"
    by (simp add: connsValid_def inlineConns_def exampleConn_def connValid_def)
  moreover have "loadConnectionDirs (exampleYaml inlineConns) exampleFiles ''/etc'' (exampleRaw inlineConns) =
      Inr (inlineConns @ [(''office'', Some (exampleConn ''203.0.113.9''))])"
    by (subst example_dirs) (simp_all add: inlineConns_def)
  moreover have "yConfig (exampleYaml inlineConns) [0] = Some (exampleRaw inlineConns)"
    by (simp add: exampleYaml_def)
  ultimately show ?thesis
    using exampleYaml_ok [of inlineConns] order_ok_keys
    by (subst Load_iff) (auto simp: inlineConns_def exampleHost_def example_reads example_paths
        hostnameOf_def exampleRaw_def exampleLoaded_def)
qed

theorem load_sound_witness:
  "configReady exampleLoaded \<and> Listen (cfgServer exampleLoaded) = ''0.0.0.0'' \<and>
   (\<exists>c. map_of (conns exampleLoaded) ''office'' = Some (Some c) \<and> connType c = ''tunnel'' \<and> connPFS c = ''yes'' \<and>
      connPSK c = ''key'' \<and> connReplayWindow c = 0)"
proof -
  have "yaml_ok (exampleYaml inlineConns)" "IsAbs ''/etc/config.yaml''" "hHostname exampleHost \<noteq> Some []"
    by (auto simp: exampleYaml_ok inlineConns_def IsAbs_def exampleHost_def)
  from load_sound [OF example_load this(1) order_ok_keys this(2,3)] obtain data raw where
    l: "configReady exampleLoaded" "ReadFile (hFiles exampleHost) ''/etc/config.yaml'' = Inr data"
      "yConfig (exampleYaml inlineConns) data = Some raw"
      "globalsLoaded (hHostname exampleHost) (absoluteIn (pathDir ''/etc/config.yaml'')) raw exampleLoaded"
      "rel_option (rel_option connLoaded) (mergedConns (exampleYaml inlineConns) (hFiles exampleHost)
         (connFiles (hFiles exampleHost) (pathDir ''/etc/config.yaml'') raw) (conns raw) ''office'') (map_of (conns exampleLoaded) ''office'')"
    by blast
  have raw: "data = [0]" "raw = exampleRaw inlineConns"
    using l(2,3) by (auto simp: exampleHost_def example_reads exampleYaml_def split: if_splits)
  have "connFiles exampleFiles ''/etc'' raw = [''/etc/ipsec.d/office.yaml'']"
    by (simp add: raw connFiles_def connectionDirs_def pathFiles_def exampleRaw_def absoluteIn_def IsAbs_def
        example_paths example_reads dirFiles_def isYaml_def HasSuffix_def)
  then have "mergedConns (exampleYaml inlineConns) (hFiles exampleHost)
         (connFiles (hFiles exampleHost) (pathDir ''/etc/config.yaml'') raw) (conns raw) ''office'' = Some (Some (exampleConn ''203.0.113.9''))"
    by (simp add: mergedConns_def raw exampleHost_def example_paths example_reads decodeFile_def exampleRaw_def
        inlineConns_def exampleYaml_def)
  with l(5) obtain c where c: "map_of (conns exampleLoaded) ''office'' = Some (Some c)" "connLoaded (exampleConn ''203.0.113.9'') c"
    by (auto simp: option_rel_Some1)
  have "connType c = ''tunnel''" "connPFS c = ''yes''" "connPSK c = ''key''" "connReplayWindow c = 0"
    using c(2) by (simp_all add: connLoaded_def connDefaults_def connKept_def connKeptInts_def exampleConn_def zeroConnection_def ConnectionConfig.make_def)
  moreover have "Listen (cfgServer exampleLoaded) = ''0.0.0.0''"
    using l(4) by (simp add: globalsLoaded_def Let_def raw exampleRaw_def)
  ultimately show ?thesis using l(1) c(1) by blast
qed

lemma exampleLoaded_ready: "configReady exampleLoaded"
  unfolding exampleLoaded_def
  by (rule configReady_withDefaults)
    (auto simp: IsAbs_def inlineConns_def connsValid_def exampleConn_def connValid_def)

text \<open>
  A connection without a body, which YAML decodes to a nil pointer, makes the loader
  panic, whatever the order of the loop, when nothing else is wrong with the file.
\<close>
theorem nil_connection_panics:
  assumes "ReadFile (hFiles h) path = Inr data" and "yConfig y data = Some raw"
    and "loadConnectionDirs y (hFiles h) (pathDir path) raw = Inr m"
    and "hostnameOf (hHostname h) raw = Some hn"
    and "map_of m n = Some None" and "\<forall>k c. map_of m k = Some (Some c) \<longrightarrow> connValid c"
    and "yaml_ok y" and "order_ok ord"
  shows "Load y h ord path = None"
proof -
  have "distinct (map fst m)"
    using assms(2,3,7) loadConnectionDirs_spec(2) by (auto simp: yaml_ok_def)
  with assms(8) have ord: "rangeOrder m (ord m)" by (simp add: order_ok_def)
  have "n \<in> fst ` set m" using assms(5) by (metis map_of_eq_None_iff option.distinct(1))
  with ord have "n \<in> set (ord m)" "distinct (ord m)" by (auto simp: rangeOrder_def)
  then have "defaultsLoop (ord m) m = None"
    by (rule defaultsLoop_nil [OF assms(5) _ _ assms(6)])
  moreover have "m \<noteq> []" using assms(5) by auto
  moreover have "hostnameOf (hHostname h) (setConns m raw) = Some hn" using assms(4) by simp
  ultimately have "applyDefaultsAndValidate (hHostname h) (ord m) (setConns m raw) = None"
    by (simp add: applyDefaultsAndValidate_def hostnameOf_def setConns_def)
  with assms(1,2,3) show ?thesis by (simp add: Load_def)
qed

theorem nil_connection_panics_witness:
  "Load (exampleYaml [(''l2tp'', None)]) exampleHost (map fst) ''/etc/config.yaml'' = None"
proof (rule nil_connection_panics [where n = "''l2tp''"])
  show "loadConnectionDirs (exampleYaml [(''l2tp'', None)]) (hFiles exampleHost) (pathDir ''/etc/config.yaml'')
      (exampleRaw [(''l2tp'', None)]) = Inr [(''l2tp'', None), (''office'', Some (exampleConn ''203.0.113.9''))]"
    using example_dirs [of "[(''l2tp'', None)]"] by (simp add: exampleHost_def example_paths)
  show "yaml_ok (exampleYaml [(''l2tp'', None)])" by (rule exampleYaml_ok) simp
qed (auto simp: exampleHost_def example_reads order_ok_keys hostnameOf_def exampleRaw_def
    exampleYaml_def exampleConn_def connValid_def split: if_split_asm)

end
