(* ===== verification/CertManager.thy ===== *)
theory CertManager
  imports FileSystem NetText
begin

text \<open>
  The certificate manager (\<^verbatim>\<open>internal/certman/pem.go\<close>, \<^verbatim>\<open>ca.go\<close>, \<^verbatim>\<open>server.go\<close>,
  \<^verbatim>\<open>client.go\<close>) over the files of the host. The algorithms of \<^verbatim>\<open>crypto/x509\<close>, \<^verbatim>\<open>crypto/ecdsa\<close>
  and \<^verbatim>\<open>encoding/pem\<close> are parameters (\<open>cert_lib\<close>); keys and DER encodings are byte strings, a
  random draw is an argument. \<open>cert_lib_ok\<close> states the round trips that the standard library
  documents.
\<close>

section \<open>Certificates and the library\<close>

datatype cert_time = Now nat | AddDate cert_time int int int

datatype key_usage = KUDigitalSignature | KUKeyEncipherment | KUCertSign | KUCRLSign
datatype ext_usage = EKUServerAuth | EKUClientAuth

record Certificate =
  cSerial :: nat
  cCommonName :: string
  cOrganization :: "string list"
  cNotBefore :: cert_time
  cNotAfter :: cert_time
  cKeyUsage :: "key_usage set"
  cExtKeyUsage :: "ext_usage list"
  cBasicConstraintsValid :: bool
  cIsCA :: bool
  cMaxPathLen :: nat
  cDNSNames :: "string list"
  cIPAddresses :: "ip list"

datatype any_key = ECKey bytes | OtherKey

record cert_lib =
  clGenKey :: "nat \<Rightarrow> bytes option"
  clRandInt :: "nat \<Rightarrow> nat \<Rightarrow> nat option"
  clPublic :: "bytes \<Rightarrow> bytes"
  clCreate :: "nat \<Rightarrow> Certificate \<Rightarrow> Certificate \<Rightarrow> bytes \<Rightarrow> bytes \<Rightarrow> bytes option"
  clParse :: "bytes \<Rightarrow> Certificate option"
  clMarshalPKCS8 :: "bytes \<Rightarrow> bytes option"
  clParsePKCS8 :: "bytes \<Rightarrow> any_key option"
  clParseEC :: "bytes \<Rightarrow> bytes option"
  clPemEncode :: "string \<Rightarrow> bytes \<Rightarrow> bytes"
  clPemDecode :: "bytes \<Rightarrow> (string \<times> bytes) option"

definition cert_lib_ok :: "cert_lib \<Rightarrow> bool" where
  "cert_lib_ok L \<longleftrightarrow>
     (\<forall>t b. clPemDecode L (clPemEncode L t b) = Some (t, b))
     \<and> (\<forall>k b. clMarshalPKCS8 L k = Some b \<longrightarrow> clParsePKCS8 L b = Some (ECKey k))"

datatype cert_error =
    MkdirFailed os_error
  | CertReadFailed string os_error | CertInvalidPEM string | CertUnparsable string
  | KeyReadFailed string os_error | KeyInvalidPEM string | KeyUnparsable string
  | KeyNotECDSA string | KeyUnsupported string string
  | KeyGenerationFailed | SerialFailed | CertCreationFailed | KeyMarshalFailed
  | CertSaveFailed os_error | KeySaveFailed os_error
  | ClientExists string
  | ExportRead string os_error | NoPEMBlock string | P12Failed | JsonFailed | ExportWrite os_error

section \<open>PEM files (pem.go)\<close>

definition LoadCertFromPEM :: "cert_lib \<Rightarrow> fsys \<Rightarrow> string \<Rightarrow> cert_error + Certificate" where
  "LoadCertFromPEM L fs path =
     (case ReadFile fs path of
        Inl e \<Rightarrow> Inl (CertReadFailed path e)
      | Inr data \<Rightarrow>
          (case clPemDecode L data of
             None \<Rightarrow> Inl (CertInvalidPEM path)
           | Some (ty, block) \<Rightarrow>
               if ty \<noteq> ''CERTIFICATE'' then Inl (CertInvalidPEM path)
               else (case clParse L block of None \<Rightarrow> Inl (CertUnparsable path) | Some c \<Rightarrow> Inr c)))"

definition LoadKeyFromPEM :: "cert_lib \<Rightarrow> fsys \<Rightarrow> string \<Rightarrow> cert_error + bytes" where
  "LoadKeyFromPEM L fs path =
     (case ReadFile fs path of
        Inl e \<Rightarrow> Inl (KeyReadFailed path e)
      | Inr data \<Rightarrow>
          (case clPemDecode L data of
             None \<Rightarrow> Inl (KeyInvalidPEM path)
           | Some (ty, block) \<Rightarrow>
               if ty = ''PRIVATE KEY'' then
                 (case clParsePKCS8 L block of
                    None \<Rightarrow> Inl (KeyUnparsable path)
                  | Some OtherKey \<Rightarrow> Inl (KeyNotECDSA path)
                  | Some (ECKey k) \<Rightarrow> Inr k)
               else if ty = ''EC PRIVATE KEY'' then
                 (case clParseEC L block of None \<Rightarrow> Inl (KeyUnparsable path) | Some k \<Rightarrow> Inr k)
               else Inl (KeyUnsupported ty path)))"

definition SaveCertPEM :: "cert_lib \<Rightarrow> fsys \<Rightarrow> bytes \<Rightarrow> string \<Rightarrow> cert_error + fsys" where
  "SaveCertPEM L fs certDER path =
     (case WriteFile fs path (clPemEncode L ''CERTIFICATE'' certDER) 420 of
        Inl e \<Rightarrow> Inl (CertSaveFailed e) | Inr fs' \<Rightarrow> Inr fs')"

definition SaveKeyPEM :: "cert_lib \<Rightarrow> fsys \<Rightarrow> bytes \<Rightarrow> string \<Rightarrow> cert_error + fsys" where
  "SaveKeyPEM L fs key path =
     (case clMarshalPKCS8 L key of
        None \<Rightarrow> Inl KeyMarshalFailed
      | Some keyBytes \<Rightarrow>
          (case WriteFile fs path (clPemEncode L ''PRIVATE KEY'' keyBytes) 384 of
             Inl e \<Rightarrow> Inl (KeySaveFailed e) | Inr fs' \<Rightarrow> Inr fs'))"

definition ReadRawPEM :: "fsys \<Rightarrow> string \<Rightarrow> cert_error + bytes" where
  "ReadRawPEM fs path = (case ReadFile fs path of Inl e \<Rightarrow> Inl (ExportRead path e) | Inr d \<Rightarrow> Inr d)"

definition ReadDER :: "cert_lib \<Rightarrow> fsys \<Rightarrow> string \<Rightarrow> cert_error + bytes" where
  "ReadDER L fs path =
     (case ReadFile fs path of
        Inl e \<Rightarrow> Inl (ExportRead path e)
      | Inr d \<Rightarrow> (case clPemDecode L d of None \<Rightarrow> Inl (NoPEMBlock path) | Some (_, b) \<Rightarrow> Inr b))"

definition fileExists :: "fsys \<Rightarrow> string \<Rightarrow> bool" where
  "fileExists fs path = (case Stat fs path of Inl _ \<Rightarrow> False | Inr n \<Rightarrow> n \<noteq> DirNode)"

definition generateSerial :: "cert_lib \<Rightarrow> nat \<Rightarrow> cert_error + nat" where
  "generateSerial L dr = (case clRandInt L dr (2 ^ 128) of None \<Rightarrow> Inl SerialFailed | Some n \<Rightarrow> Inr n)"

section \<open>The certificate authority (ca.go)\<close>

text \<open>The draws of one operation: key, serial number, signature, and the clock.\<close>

record cert_draws =
  drKey :: nat
  drSerial :: nat
  drSign :: nat
  drNow :: nat

definition caTemplate :: "nat \<Rightarrow> nat \<Rightarrow> Certificate" where
  "caTemplate serial now =
     \<lparr>cSerial = serial, cCommonName = ''SWAN-NG Root CA'', cOrganization = [''SWAN-NG''],
      cNotBefore = Now now, cNotAfter = AddDate (Now now) 25 0 0,
      cKeyUsage = {KUCertSign, KUCRLSign}, cExtKeyUsage = [],
      cBasicConstraintsValid = True, cIsCA = True, cMaxPathLen = 1,
      cDNSNames = [], cIPAddresses = []\<rparr>"

text \<open>A stored pair is loaded; the certificate first.\<close>

definition loadPair :: "cert_lib \<Rightarrow> fsys \<Rightarrow> string \<Rightarrow> string \<Rightarrow> cert_error + Certificate \<times> bytes" where
  "loadPair L fs certPath keyPath =
     (case LoadCertFromPEM L fs certPath of
        Inl e \<Rightarrow> Inl e
      | Inr cert \<Rightarrow> (case LoadKeyFromPEM L fs keyPath of Inl e \<Rightarrow> Inl e | Inr key \<Rightarrow> Inr (cert, key)))"

text \<open>A pair is created and stored; \<open>parent\<close> and \<open>signer\<close> depend on the new template and key.\<close>

definition createPair ::
  "cert_lib \<Rightarrow> cert_draws \<Rightarrow> fsys \<Rightarrow> (nat \<Rightarrow> Certificate) \<Rightarrow> (Certificate \<Rightarrow> Certificate) \<Rightarrow> (bytes \<Rightarrow> bytes)
     \<Rightarrow> string \<Rightarrow> string \<Rightarrow> (cert_error + bytes \<times> bytes) \<times> fsys" where
  "createPair L dr fs template parent signer certPath keyPath =
     (case clGenKey L (drKey dr) of
        None \<Rightarrow> (Inl KeyGenerationFailed, fs)
      | Some key \<Rightarrow>
          (case generateSerial L (drSerial dr) of
             Inl e \<Rightarrow> (Inl e, fs)
           | Inr serial \<Rightarrow>
               (case clCreate L (drSign dr) (template serial) (parent (template serial)) (clPublic L key) (signer key) of
                  None \<Rightarrow> (Inl CertCreationFailed, fs)
                | Some certDER \<Rightarrow>
                    (case SaveCertPEM L fs certDER certPath of
                       Inl e \<Rightarrow> (Inl e, fs)
                     | Inr fs1 \<Rightarrow>
                         (case SaveKeyPEM L fs1 key keyPath of
                            Inl e \<Rightarrow> (Inl e, fs1)
                          | Inr fs2 \<Rightarrow> (Inr (certDER, key), fs2))))))"

definition InitCA ::
  "cert_lib \<Rightarrow> cert_draws \<Rightarrow> fsys \<Rightarrow> string \<Rightarrow> (cert_error + Certificate \<times> bytes) \<times> fsys" where
  "InitCA L dr fs certsDir =
     (case MkdirAll fs certsDir of
        (Some e, fs1) \<Rightarrow> (Inl (MkdirFailed e), fs1)
      | (None, fs1) \<Rightarrow>
          (let certPath = pathJoin certsDir ''ca.crt''; keyPath = pathJoin certsDir ''ca.key'' in
           if fileExists fs1 certPath \<and> fileExists fs1 keyPath then (loadPair L fs1 certPath keyPath, fs1)
           else
           (case createPair L dr fs1 (\<lambda>serial. caTemplate serial (drNow dr)) (\<lambda>t. t) (\<lambda>key. key) certPath keyPath of
              (Inl e, fs2) \<Rightarrow> (Inl e, fs2)
            | (Inr (certDER, key), fs2) \<Rightarrow>
                (case clParse L certDER of
                   None \<Rightarrow> (Inl (CertUnparsable certPath), fs2)
                 | Some cert \<Rightarrow> (Inr (cert, key), fs2)))))"

section \<open>Server and client certificates (server.go, client.go)\<close>

definition serverTemplate :: "string \<Rightarrow> nat \<Rightarrow> nat \<Rightarrow> Certificate" where
  "serverTemplate hostname serial now =
     \<lparr>cSerial = serial, cCommonName = hostname, cOrganization = [''SWAN-NG''],
      cNotBefore = Now now, cNotAfter = AddDate (Now now) 10 0 0,
      cKeyUsage = {KUDigitalSignature, KUKeyEncipherment}, cExtKeyUsage = [EKUServerAuth],
      cBasicConstraintsValid = False, cIsCA = False, cMaxPathLen = 0,
      cDNSNames = [hostname],
      cIPAddresses = (if ParseIP hostname \<noteq> [] then [ParseIP hostname] else [])\<rparr>"

definition InitServerCert ::
  "cert_lib \<Rightarrow> cert_draws \<Rightarrow> fsys \<Rightarrow> string \<Rightarrow> string \<Rightarrow> Certificate \<Rightarrow> bytes
     \<Rightarrow> (cert_error + Certificate \<times> bytes) \<times> fsys" where
  "InitServerCert L dr fs certsDir hostname caCert caKey =
     (let certPath = pathJoin certsDir ''server.crt''; keyPath = pathJoin certsDir ''server.key'' in
      if fileExists fs certPath \<and> fileExists fs keyPath then (loadPair L fs certPath keyPath, fs)
      else
      (case createPair L dr fs (\<lambda>serial. serverTemplate hostname serial (drNow dr)) (\<lambda>_. caCert) (\<lambda>_. caKey)
          certPath keyPath of
         (Inl e, fs1) \<Rightarrow> (Inl e, fs1)
       | (Inr (certDER, key), fs1) \<Rightarrow>
           (case clParse L certDER of
              None \<Rightarrow> (Inl (CertUnparsable certPath), fs1)
            | Some cert \<Rightarrow>
                (case MkdirAll fs1 (pathJoin certsDir ''clients'') of
                   (Some e, fs2) \<Rightarrow> (Inl (MkdirFailed e), fs2)
                 | (None, fs2) \<Rightarrow> (Inr (cert, key), fs2)))))"

definition clientTemplate :: "string \<Rightarrow> int \<Rightarrow> nat \<Rightarrow> nat \<Rightarrow> Certificate" where
  "clientTemplate username validityMonths serial now =
     \<lparr>cSerial = serial, cCommonName = username, cOrganization = [''SWAN-NG''],
      cNotBefore = Now now, cNotAfter = AddDate (Now now) 0 validityMonths 0,
      cKeyUsage = {KUDigitalSignature}, cExtKeyUsage = [EKUClientAuth],
      cBasicConstraintsValid = False, cIsCA = False, cMaxPathLen = 0,
      cDNSNames = [], cIPAddresses = []\<rparr>"

definition clientCertPath :: "string \<Rightarrow> string \<Rightarrow> string" where
  "clientCertPath certsDir username = pathJoin (pathJoin certsDir ''clients'') (username @ ''.crt'')"

definition clientKeyPath :: "string \<Rightarrow> string \<Rightarrow> string" where
  "clientKeyPath certsDir username = pathJoin (pathJoin certsDir ''clients'') (username @ ''.key'')"

definition GenerateClientCert ::
  "cert_lib \<Rightarrow> cert_draws \<Rightarrow> fsys \<Rightarrow> string \<Rightarrow> string \<Rightarrow> int \<Rightarrow> Certificate \<Rightarrow> bytes
     \<Rightarrow> (cert_error + string \<times> string) \<times> fsys" where
  "GenerateClientCert L dr fs certsDir username validityMonths caCert caKey =
     (if fileExists fs (clientCertPath certsDir username) then (Inl (ClientExists username), fs)
      else
      (case createPair L dr fs (\<lambda>serial. clientTemplate username validityMonths serial (drNow dr))
          (\<lambda>_. caCert) (\<lambda>_. caKey) (clientCertPath certsDir username) (clientKeyPath certsDir username) of
         (Inl e, fs1) \<Rightarrow> (Inl e, fs1)
       | (Inr _, fs1) \<Rightarrow>
           (Inr (clientCertPath certsDir username, clientKeyPath certsDir username), fs1)))"

section \<open>Laws\<close>

lemma cert_lib_okD:
  assumes "cert_lib_ok L"
  shows "clPemDecode L (clPemEncode L t b) = Some (t, b)"
    and "clMarshalPKCS8 L k = Some b \<Longrightarrow> clParsePKCS8 L b = Some (ECKey k)"
  using assms by (auto simp: cert_lib_ok_def)

lemma fileExists_iff: "fileExists fs p \<longleftrightarrow> (\<exists>d m. Stat fs p = Inr (FileNode d m))"
proof (cases "Stat fs p")
  case (Inr n)
  then show ?thesis by (cases n) (simp_all add: fileExists_def)
qed (simp add: fileExists_def)

lemma fileExists_extends: "extends fs fs' \<Longrightarrow> fileExists fs p \<Longrightarrow> fileExists fs' p"
  unfolding fileExists_iff using Stat_extends(2) by blast

lemma fileExists_read: "ReadFile fs p = Inr d \<Longrightarrow> fileExists fs p"
  unfolding fileExists_iff using ReadFile_Stat by blast

lemma SaveCertPEM_Inr:
  assumes "SaveCertPEM L fs der path = Inr fs'" and "cert_lib_ok L" and "clParse L der = Some cert"
  shows "LoadCertFromPEM L fs' path = Inr cert"
proof -
  from assms(1) have "WriteFile fs path (clPemEncode L ''CERTIFICATE'' der) 420 = Inr fs'"
    by (simp add: SaveCertPEM_def split: sum.split_asm)
  from ReadFile_WriteFile [OF this] assms(2,3) show ?thesis
    by (simp add: LoadCertFromPEM_def cert_lib_okD)
qed

lemma SaveKeyPEM_Inr:
  assumes "SaveKeyPEM L fs key path = Inr fs'" and "cert_lib_ok L"
  shows "LoadKeyFromPEM L fs' path = Inr key"
proof -
  from assms(1) obtain b where "clMarshalPKCS8 L key = Some b"
    "WriteFile fs path (clPemEncode L ''PRIVATE KEY'' b) 384 = Inr fs'"
    by (auto simp: SaveKeyPEM_def split: sum.split_asm option.split_asm)
  from ReadFile_WriteFile [OF this(2)] this(1) assms(2) show ?thesis
    by (simp add: LoadKeyFromPEM_def cert_lib_okD)
qed

lemma SaveKeyPEM_keeps:
  assumes "SaveKeyPEM L fs key path = Inr fs'" and "ReadFile fs p = Inr d" and "fsPath fs p \<noteq> fsPath fs path"
  shows "ReadFile fs' p = Inr d"
  using assms ReadFile_WriteFile_other [OF _ assms(2,3)]
  by (auto simp: SaveKeyPEM_def split: sum.split_asm option.split_asm)

lemma Save_extends:
  "SaveCertPEM L fs der path = Inr fs' \<Longrightarrow> extends fs fs'"
  "SaveKeyPEM L fs key path = Inr fs' \<Longrightarrow> extends fs fs'"
  by (auto simp: SaveCertPEM_def SaveKeyPEM_def split: sum.split_asm option.split_asm dest: WriteFile_extends)

lemma createPair_extends: "createPair L dr fs t p s cp kp = (r, fs') \<Longrightarrow> extends fs fs'"
  by (auto simp: createPair_def split: sum.split_asm option.split_asm
      intro: extends_trans dest!: Save_extends)

text \<open>A created pair is found again: both files hold it, provided that they are two files.\<close>

lemma createPair_stored:
  assumes "createPair L dr fs t p s certPath keyPath = (Inr (der, key), fs')" and "cert_lib_ok L"
    and "clParse L der = Some cert" and "fsPath fs certPath \<noteq> fsPath fs keyPath"
  shows "loadPair L fs' certPath keyPath = Inr (cert, key)"
    and "fileExists fs' certPath" and "fileExists fs' keyPath"
proof -
  from assms(1) obtain fs1 where s: "SaveCertPEM L fs der certPath = Inr fs1" "SaveKeyPEM L fs1 key keyPath = Inr fs'"
    by (auto simp: createPair_def split: sum.split_asm option.split_asm)
  obtain d where d: "ReadFile fs1 certPath = Inr d"
    using ReadFile_WriteFile s(1) by (auto simp: SaveCertPEM_def split: sum.split_asm)
  have "fsPath fs1 = fsPath fs" by (rule extends_fsPath [OF Save_extends(1) [OF s(1)]])
  then have d': "ReadFile fs' certPath = Inr d" using SaveKeyPEM_keeps [OF s(2) d] assms(4) by simp
  have c: "LoadCertFromPEM L fs' certPath = Inr cert"
    using SaveCertPEM_Inr [OF s(1) assms(2,3)] d d' by (simp add: LoadCertFromPEM_def)
  have k: "LoadKeyFromPEM L fs' keyPath = Inr key" by (rule SaveKeyPEM_Inr [OF s(2) assms(2)])
  from c k show "loadPair L fs' certPath keyPath = Inr (cert, key)" by (simp add: loadPair_def)
  show "fileExists fs' certPath" by (rule fileExists_read [OF d'])
  from k obtain b where "ReadFile fs' keyPath = Inr b" by (auto simp: LoadKeyFromPEM_def split: sum.split_asm)
  then show "fileExists fs' keyPath" by (rule fileExists_read)
qed

lemma mkdirs_again:
  "mkdirs fs pre cs = (None, fs1) \<Longrightarrow> extends fs1 fs' \<Longrightarrow> mkdirs fs' pre cs = (None, fs')"
proof (induction fs pre cs arbitrary: rule: mkdirs.induct)
  case (2 fs pre c cs)
  have nd: "\<not> fsDenied fs pre" using "2.prems"(1) by (simp split: if_split_asm)
  have e: "extends fs fs'" using extends_trans [OF mkdirs_extends [OF "2.prems"(1)] "2.prems"(2)] .
  then have nd': "\<not> fsDenied fs' pre" using nd by (simp add: extends_def)
  show ?case
  proof (cases "fsLookup fs (pre @ [c])")
    case None
    with "2.prems" nd have m: "mkdirs (fsPut (pre @ [c]) DirNode fs) (pre @ [c]) cs = (None, fs1)" by simp
    have "fsLookup fs' (pre @ [c]) = Some DirNode"
      using extends_trans [OF mkdirs_extends [OF m] "2.prems"(2)]
      by (simp add: extends_def fsLookup_fsPut)
    with "2.IH"(1) [OF nd None m "2.prems"(2)] nd' show ?thesis by simp
  next
    case (Some n)
    with "2.prems" nd have n: "n = DirNode" by (auto split: node.split_asm)
    with "2.prems" nd Some have m: "mkdirs fs (pre @ [c]) cs = (None, fs1)" by simp
    have "fsLookup fs' (pre @ [c]) = Some DirNode" using e Some n by (simp add: extends_def)
    with "2.IH"(2) [OF nd Some n m "2.prems"(2)] nd' show ?thesis by simp
  qed
qed simp

lemma MkdirAll_again:
  "MkdirAll fs p = (None, fs1) \<Longrightarrow> extends fs1 fs' \<Longrightarrow> MkdirAll fs' p = (None, fs')"
  using extends_fsPath [OF extends_trans [OF MkdirAll_extends, of fs p None fs1 fs']]
    mkdirs_again [of fs "[]" "fsPath fs p" fs1 fs']
  by (auto simp: MkdirAll_def split: if_split_asm)

lemma fsPath_join:
  "IsAbs d \<Longrightarrow> plainName n \<Longrightarrow> fsPath fs (pathJoin d n) = components d @ [n]"
  using fsPath_absolute [OF IsAbs_pathJoin, of d fs n] components_pathJoin [of d n] by (auto simp: IsAbs_def)

section \<open>Properties\<close>

lemma ca_paths_differ:
  "IsAbs dir \<Longrightarrow> fsPath fs (pathJoin dir ''ca.crt'') \<noteq> fsPath fs (pathJoin dir ''ca.key'')"
  by (simp add: fsPath_join plainName_def)

text \<open>
  C34. The certificate authority is created once: whatever \<open>InitCA\<close> returned, created or
  loaded, a later call on the files it left returns the same certificate and key and changes
  nothing, whatever it would draw.
\<close>
theorem ca_is_stable:
  assumes "InitCA L dr fs dir = (Inr (cert, key), fs')" and "cert_lib_ok L" and "IsAbs dir"
  shows "InitCA L dr' fs' dir = (Inr (cert, key), fs')"
proof -
  let ?c = "pathJoin dir ''ca.crt''" and ?k = "pathJoin dir ''ca.key''"
  obtain fs1 where m: "MkdirAll fs dir = (None, fs1)"
    using assms(1) by (auto simp: InitCA_def split: prod.split_asm option.split_asm)
  have "extends fs1 fs' \<and> loadPair L fs' ?c ?k = Inr (cert, key) \<and> fileExists fs' ?c \<and> fileExists fs' ?k"
  proof (cases "fileExists fs1 ?c \<and> fileExists fs1 ?k")
    case True
    with assms(1) m show ?thesis by (auto simp: InitCA_def)
  next
    case False
    with assms(1) m obtain der where p:
      "createPair L dr fs1 (\<lambda>serial. caTemplate serial (drNow dr)) (\<lambda>t. t) (\<lambda>key. key) ?c ?k = (Inr (der, key), fs')"
      "clParse L der = Some cert"
      by (auto simp: InitCA_def Let_def split: prod.split_asm sum.split_asm option.split_asm)
    from createPair_stored [OF p(1) assms(2) p(2) ca_paths_differ [OF assms(3)]] createPair_extends [OF p(1)]
    show ?thesis by simp
  qed
  with MkdirAll_again [OF m, of fs'] show ?thesis by (simp add: InitCA_def)
qed

text \<open>A small library for the examples: DER is the list of the certificate's serial number.\<close>

definition exampleCertLib :: cert_lib where
  "exampleCertLib =
     \<lparr>clGenKey = (\<lambda>n. Some [of_nat n]), clRandInt = (\<lambda>n lim. Some n), clPublic = (\<lambda>k. k),
      clCreate = (\<lambda>r t p pub signer. Some [of_nat (cSerial t)]),
      clParse = (\<lambda>b. Some (caTemplate (unat (hd b)) 0)),
      clMarshalPKCS8 = Some, clParsePKCS8 = (\<lambda>b. Some (ECKey b)), clParseEC = Some,
      clPemEncode = (\<lambda>t b. replicate (length t) 1 @ [0] @ map (\<lambda>c. of_nat (of_char c)) t @ b),
      clPemDecode = (\<lambda>d. let n = length (takeWhile (\<lambda>x. x = 1) d); r = drop (Suc n) d
        in Some (map (\<lambda>b. char_of (unat b)) (take n r), drop n r))\<rparr>"

lemma exampleCertLib_ok: "cert_lib_ok exampleCertLib"
proof -
  have t: "takeWhile (\<lambda>x. x = 1) (replicate n 1 @ 0 # r) = replicate n (1 :: byte)" for n r
    by (induction n) auto
  have "char_of (unat (of_nat (of_char c) :: byte)) = c" for c
    by (simp add: unat_of_nat)
  then have "map (\<lambda>b. char_of (unat b)) (map (\<lambda>c. of_nat (of_char c)) s :: bytes) = s" for s
    by (simp add: comp_def)
  with t show ?thesis by (simp add: cert_lib_ok_def exampleCertLib_def Let_def)
qed

definition exampleCertDraws :: cert_draws where
  "exampleCertDraws = \<lparr>drKey = 7, drSerial = 9, drSign = 0, drNow = 0\<rparr>"

definition emptyHost :: fsys where
  "emptyHost = \<lparr>fsNodes = [([''etc''], DirNode)], fsDenied = (\<lambda>_. False), fsCwd = ''/''\<rparr>"

lemma example_ca:
  "fst (InitCA exampleCertLib exampleCertDraws emptyHost ''/etc/certs'') = Inr (caTemplate 9 0, [7])"
  by (simp add: InitCA_def MkdirAll_def emptyHost_def fsPath_def IsAbs_def fsLookup_def fsPut_def
      pathJoin_def Clean_def components_def fileExists_def Stat_def createPair_def exampleCertLib_def exampleCertDraws_def
      generateSerial_def SaveCertPEM_def SaveKeyPEM_def WriteFile_def caTemplate_def)

theorem ca_is_stable_witness:
  "\<forall>dr. InitCA exampleCertLib dr (snd (InitCA exampleCertLib exampleCertDraws emptyHost ''/etc/certs'')) ''/etc/certs'' =
     (Inr (caTemplate 9 0, [7]), snd (InitCA exampleCertLib exampleCertDraws emptyHost ''/etc/certs''))"
  by (intro allI, rule ca_is_stable [OF _ exampleCertLib_ok, of exampleCertDraws emptyHost])
    (auto simp: prod_eq_iff example_ca IsAbs_def)

lemma createPair_keeps:
  assumes "createPair L dr fs t p s cp kp = (r, fs')" and "ReadFile fs q = Inr d"
    and "fsPath fs q \<noteq> fsPath fs cp" and "fsPath fs q \<noteq> fsPath fs kp"
  shows "ReadFile fs' q = Inr d"
proof -
  have "ReadFile fs1 q = Inr d \<and> fsPath fs1 = fsPath fs" if "SaveCertPEM L fs der cp = Inr fs1" for der fs1
    using that ReadFile_WriteFile_other [OF _ assms(2,3)] extends_fsPath [OF Save_extends(1) [OF that]]
    by (auto simp: SaveCertPEM_def split: sum.split_asm)
  with assms show ?thesis
    by (auto simp: createPair_def split: sum.split_asm option.split_asm intro: SaveKeyPEM_keeps)
qed

text \<open>An issued certificate is never overwritten, and no other file changes.\<close>

lemma client_certificate_kept:
  assumes "GenerateClientCert L dr fs dir u m ca k = (r, fs')" and "ReadFile fs q = Inr d"
    and "fsPath fs q \<noteq> fsPath fs (clientKeyPath dir u)"
  shows "ReadFile fs' q = Inr d"
proof (cases "fileExists fs (clientCertPath dir u)")
  case True
  with assms show ?thesis by (simp add: GenerateClientCert_def)
next
  case False
  have "fsPath fs q \<noteq> fsPath fs (clientCertPath dir u)"
  proof
    assume eq: "fsPath fs q = fsPath fs (clientCertPath dir u)"
    obtain md where "Stat fs q = Inr (FileNode d md)" using ReadFile_Stat [OF assms(2)] by blast
    then have "walk fs [] (fsPath fs q) = None" "fsLookup fs (fsPath fs q) = Some (FileNode d md)"
      by (auto simp: Stat_def split: if_split_asm option.split_asm)
    moreover have "clientCertPath dir u \<noteq> []" by (simp add: clientCertPath_def pathJoin_def)
    ultimately have "Stat fs (clientCertPath dir u) = Inr (FileNode d md)"
      using eq by (simp add: Stat_def)
    with False show False by (simp add: fileExists_def)
  qed
  with assms False show ?thesis
    by (auto simp: GenerateClientCert_def split: prod.split_asm sum.split_asm intro: createPair_keeps)
qed

end
