(* ===== verification/CertExport.thy ===== *)
theory CertExport
  imports CertManager
begin

text \<open>
  The profiles that the certificate manager exports for clients (\<^verbatim>\<open>export_p12.go\<close>,
  \<^verbatim>\<open>export_mobileconfig.go\<close>, \<^verbatim>\<open>export_sswan.go\<close>, \<^verbatim>\<open>export_l2tp.go\<close>). Text templates are
  lists of lines, each with its indentation and its pieces; a piece is a literal or a
  field. \<^verbatim>\<open>text/template\<close> inserts field values as they are. The PKCS#12 and JSON encoders,
  base64 and the UUID generator are parameters.
\<close>

section \<open>Templates\<close>

datatype tfield =
    FHostname | FUsername | FPassword | FPSK
  | FCACertBase64 | FP12Base64 | FP12Password | FProfileUUID | FCAUUID | FClientCertUUID | FVPNUUID

datatype piece = Lit string | Field tfield

type_synonym template = "(nat \<times> piece list) list"

definition renderLine :: "(tfield \<Rightarrow> string) \<Rightarrow> nat \<times> piece list \<Rightarrow> string" where
  "renderLine env l =
     replicate (fst l) (CHR 0x09) @
     concat (map (\<lambda>p. case p of Lit s \<Rightarrow> s | Field f \<Rightarrow> env f) (snd l))"

fun render :: "(tfield \<Rightarrow> string) \<Rightarrow> template \<Rightarrow> string" where
  "render env [] = []"
| "render env [l] = renderLine env l"
| "render env (l # l' # ls) = renderLine env l @ CHR 0x0A # render env (l' # ls)"

definition l2tpProfileTemplate :: template where
  "l2tpProfileTemplate =
     [(0, [Lit ''===================================='']),
      (0, [Lit ''  SWAN-NG L2TP/IPsec VPN Profile'']),
      (0, [Lit ''===================================='']),
      (0, []),
      (0, [Lit ''Server Address : '', Field FHostname]),
      (0, [Lit ''L2TP Username  : '', Field FUsername]),
      (0, [Lit ''L2TP Password  : '', Field FPassword]),
      (0, [Lit ''IPsec PSK      : '', Field FPSK]),
      (0, []),
      (0, [Lit ''------------------------------------'']),
      (0, [Lit ''Connection Type: L2TP over IPsec'']),
      (0, [Lit ''Authentication : PSK + PPP CHAP'']),
      (0, [Lit ''------------------------------------'']),
      (0, []),
      (0, [Lit ''Notes:'']),
      (0, [Lit ''- Use the Server Address above as the VPN server endpoint.'']),
      (0, [Lit ''- Enter the IPsec PSK in the IPsec/IKE pre-shared key field.'']),
      (0, [Lit ''- Enter the L2TP Username and Password for PPP authentication.'']),
      (0, [Lit ''- This profile supports multiple concurrent sessions.'']),
      (0, [Lit ''===================================='']),
      (0, [])]"

definition mobileconfigTemplate :: template where
  "mobileconfigTemplate =
     [(0, [Lit ''<?xml version=\"1.0\" encoding=\"UTF-8\"?>'']),
      (0, [Lit ''<!DOCTYPE plist PUBLIC \"-//Apple//DTD PLIST 1.0//EN\" \"http://www.apple.com/DTDs/PropertyList-1.0.dtd\">'']),
      (0, [Lit ''<plist version=\"1.0\">'']),
      (0, [Lit ''<dict>'']),
      (1, [Lit ''<key>PayloadContent</key>'']),
      (1, [Lit ''<array>'']),
      (2, [Lit ''<dict>'']),
      (3, [Lit ''<key>PayloadCertificateFileName</key>'']),
      (3, [Lit ''<string>ca.crt</string>'']),
      (3, [Lit ''<key>PayloadContent</key>'']),
      (3, [Lit ''<data>'', Field FCACertBase64, Lit ''</data>'']),
      (3, [Lit ''<key>PayloadDisplayName</key>'']),
      (3, [Lit ''<string>SWAN-NG Root CA</string>'']),
      (3, [Lit ''<key>PayloadIdentifier</key>'']),
      (3, [Lit ''<string>com.swan-ng.ca.'', Field FProfileUUID, Lit ''</string>'']),
      (3, [Lit ''<key>PayloadType</key>'']),
      (3, [Lit ''<string>com.apple.security.root</string>'']),
      (3, [Lit ''<key>PayloadUUID</key>'']),
      (3, [Lit ''<string>'', Field FCAUUID, Lit ''</string>'']),
      (3, [Lit ''<key>PayloadVersion</key>'']),
      (3, [Lit ''<integer>1</integer>'']),
      (2, [Lit ''</dict>'']),
      (2, [Lit ''<dict>'']),
      (3, [Lit ''<key>Password</key>'']),
      (3, [Lit ''<string>'', Field FP12Password, Lit ''</string>'']),
      (3, [Lit ''<key>PayloadCertificateFileName</key>'']),
      (3, [Lit ''<string>'', Field FUsername, Lit ''.p12</string>'']),
      (3, [Lit ''<key>PayloadContent</key>'']),
      (3, [Lit ''<data>'', Field FP12Base64, Lit ''</data>'']),
      (3, [Lit ''<key>PayloadDisplayName</key>'']),
      (3, [Lit ''<string>'', Field FUsername, Lit '' Client Certificate</string>'']),
      (3, [Lit ''<key>PayloadIdentifier</key>'']),
      (3, [Lit ''<string>com.swan-ng.client.'', Field FProfileUUID, Lit ''</string>'']),
      (3, [Lit ''<key>PayloadType</key>'']),
      (3, [Lit ''<string>com.apple.security.pkcs12</string>'']),
      (3, [Lit ''<key>PayloadUUID</key>'']),
      (3, [Lit ''<string>'', Field FClientCertUUID, Lit ''</string>'']),
      (3, [Lit ''<key>PayloadVersion</key>'']),
      (3, [Lit ''<integer>1</integer>'']),
      (2, [Lit ''</dict>'']),
      (2, [Lit ''<dict>'']),
      (3, [Lit ''<key>PayloadDisplayName</key>'']),
      (3, [Lit ''<string>SWAN-NG VPN</string>'']),
      (3, [Lit ''<key>PayloadIdentifier</key>'']),
      (3, [Lit ''<string>com.swan-ng.vpn.'', Field FProfileUUID, Lit ''</string>'']),
      (3, [Lit ''<key>PayloadType</key>'']),
      (3, [Lit ''<string>com.apple.vpn.managed</string>'']),
      (3, [Lit ''<key>PayloadUUID</key>'']),
      (3, [Lit ''<string>'', Field FVPNUUID, Lit ''</string>'']),
      (3, [Lit ''<key>PayloadVersion</key>'']),
      (3, [Lit ''<integer>1</integer>'']),
      (3, [Lit ''<key>UserDefinedName</key>'']),
      (3, [Lit ''<string>SWAN-NG VPN ('', Field FUsername, Lit '')</string>'']),
      (3, [Lit ''<key>VPNType</key>'']),
      (3, [Lit ''<string>IKEv2</string>'']),
      (3, [Lit ''<key>IKEv2</key>'']),
      (3, [Lit ''<dict>'']),
      (4, [Lit ''<key>AuthenticationMethod</key>'']),
      (4, [Lit ''<string>Certificate</string>'']),
      (4, [Lit ''<key>RemoteAddress</key>'']),
      (4, [Lit ''<string>'', Field FHostname, Lit ''</string>'']),
      (4, [Lit ''<key>RemoteIdentifier</key>'']),
      (4, [Lit ''<string>'', Field FHostname, Lit ''</string>'']),
      (4, [Lit ''<key>LocalIdentifier</key>'']),
      (4, [Lit ''<string>'', Field FUsername, Lit ''</string>'']),
      (4, [Lit ''<key>PayloadCertificateUUID</key>'']),
      (4, [Lit ''<string>'', Field FClientCertUUID, Lit ''</string>'']),
      (4, [Lit ''<key>CertificateType</key>'']),
      (4, [Lit ''<string>ECDSA384</string>'']),
      (4, [Lit ''<key>ServerCertificateIssuerCommonName</key>'']),
      (4, [Lit ''<string>SWAN-NG Root CA</string>'']),
      (4, [Lit ''<key>EnablePFS</key>'']),
      (4, [Lit ''<integer>1</integer>'']),
      (4, [Lit ''<key>IKESecurityAssociationParameters</key>'']),
      (4, [Lit ''<dict>'']),
      (5, [Lit ''<key>EncryptionAlgorithm</key>'']),
      (5, [Lit ''<string>AES-256-GCM</string>'']),
      (5, [Lit ''<key>DiffieHellmanGroup</key>'']),
      (5, [Lit ''<integer>14</integer>'']),
      (5, [Lit ''<key>IntegrityAlgorithm</key>'']),
      (5, [Lit ''<string>SHA2-384</string>'']),
      (5, [Lit ''<key>LifeTimeInMinutes</key>'']),
      (5, [Lit ''<integer>1440</integer>'']),
      (4, [Lit ''</dict>'']),
      (4, [Lit ''<key>ChildSecurityAssociationParameters</key>'']),
      (4, [Lit ''<dict>'']),
      (5, [Lit ''<key>EncryptionAlgorithm</key>'']),
      (5, [Lit ''<string>AES-256-GCM</string>'']),
      (5, [Lit ''<key>DiffieHellmanGroup</key>'']),
      (5, [Lit ''<integer>14</integer>'']),
      (5, [Lit ''<key>IntegrityAlgorithm</key>'']),
      (5, [Lit ''<string>SHA2-384</string>'']),
      (5, [Lit ''<key>LifeTimeInMinutes</key>'']),
      (5, [Lit ''<integer>1440</integer>'']),
      (4, [Lit ''</dict>'']),
      (3, [Lit ''</dict>'']),
      (2, [Lit ''</dict>'']),
      (1, [Lit ''</array>'']),
      (1, [Lit ''<key>PayloadDisplayName</key>'']),
      (1, [Lit ''<string>SWAN-NG VPN ('', Field FUsername, Lit '')</string>'']),
      (1, [Lit ''<key>PayloadIdentifier</key>'']),
      (1, [Lit ''<string>com.swan-ng.profile.'', Field FUsername, Lit ''</string>'']),
      (1, [Lit ''<key>PayloadRemovalDisallowed</key>'']),
      (1, [Lit ''<false/>'']),
      (1, [Lit ''<key>PayloadType</key>'']),
      (1, [Lit ''<string>Configuration</string>'']),
      (1, [Lit ''<key>PayloadUUID</key>'']),
      (1, [Lit ''<string>'', Field FProfileUUID, Lit ''</string>'']),
      (1, [Lit ''<key>PayloadVersion</key>'']),
      (1, [Lit ''<integer>1</integer>'']),
      (0, [Lit ''</dict>'']),
      (0, [Lit ''</plist>''])]"

section \<open>The export functions\<close>

record sswanProfile =
  ssUUID :: string
  ssName :: string
  ssType :: string
  ssRemoteAddr :: string
  ssRemoteID :: string
  ssRemoteCert :: string
  ssLocalP12 :: string
  ssLocalID :: string

record export_lib =
  xlP12 :: "bytes \<Rightarrow> Certificate \<Rightarrow> Certificate list \<Rightarrow> string \<Rightarrow> bytes option"
  xlJSON :: "sswanProfile \<Rightarrow> bytes option"
  xlBase64 :: "bytes \<Rightarrow> string"
  xlUUID :: "nat \<Rightarrow> string"

definition writeExport :: "fsys \<Rightarrow> string \<Rightarrow> bytes \<Rightarrow> nat \<Rightarrow> cert_error + fsys" where
  "writeExport fs path d mode = (case WriteFile fs path d mode of Inl e \<Rightarrow> Inl (ExportWrite e) | Inr fs' \<Rightarrow> Inr fs')"

definition ExportP12 ::
  "cert_lib \<Rightarrow> export_lib \<Rightarrow> fsys \<Rightarrow> string \<Rightarrow> string \<Rightarrow> string \<Rightarrow> string \<Rightarrow> string \<Rightarrow> cert_error + fsys" where
  "ExportP12 L X fs certPath keyPath caCertPath outputPath password =
     (case LoadCertFromPEM L fs certPath of
        Inl e \<Rightarrow> Inl e
      | Inr clientCert \<Rightarrow>
          (case LoadKeyFromPEM L fs keyPath of
             Inl e \<Rightarrow> Inl e
           | Inr clientKey \<Rightarrow>
               (case LoadCertFromPEM L fs caCertPath of
                  Inl e \<Rightarrow> Inl e
                | Inr caCert \<Rightarrow>
                    (case xlP12 X clientKey clientCert [caCert] password of
                       None \<Rightarrow> Inl P12Failed
                     | Some pfxData \<Rightarrow> writeExport fs outputPath pfxData 384))))"

definition mobileconfigEnv ::
  "export_lib \<Rightarrow> nat \<Rightarrow> string \<Rightarrow> string \<Rightarrow> bytes \<Rightarrow> bytes \<Rightarrow> string \<Rightarrow> tfield \<Rightarrow> string" where
  "mobileconfigEnv X dr username hostname caDER p12Data p12Password f =
     (case f of
        FUsername \<Rightarrow> username | FHostname \<Rightarrow> hostname
      | FCACertBase64 \<Rightarrow> xlBase64 X caDER | FP12Base64 \<Rightarrow> xlBase64 X p12Data
      | FP12Password \<Rightarrow> p12Password
      | FProfileUUID \<Rightarrow> xlUUID X dr | FCAUUID \<Rightarrow> xlUUID X (dr + 1)
      | FClientCertUUID \<Rightarrow> xlUUID X (dr + 2) | FVPNUUID \<Rightarrow> xlUUID X (dr + 3)
      | _ \<Rightarrow> [])"

definition ExportMobileconfig ::
  "cert_lib \<Rightarrow> export_lib \<Rightarrow> nat \<Rightarrow> fsys \<Rightarrow> string \<Rightarrow> string \<Rightarrow> string \<Rightarrow> string \<Rightarrow> string \<Rightarrow> string
     \<Rightarrow> cert_error + fsys" where
  "ExportMobileconfig L X dr fs username hostname caCertPath p12Path p12Password outputPath =
     (case ReadDER L fs caCertPath of
        Inl e \<Rightarrow> Inl e
      | Inr caDER \<Rightarrow>
          (case ReadFile fs p12Path of
             Inl e \<Rightarrow> Inl (ExportRead p12Path e)
           | Inr p12Data \<Rightarrow>
               writeExport fs outputPath
                 (strBytes (render (mobileconfigEnv X dr username hostname caDER p12Data p12Password)
                    mobileconfigTemplate)) 438))"

definition ExportSSwan ::
  "export_lib \<Rightarrow> nat \<Rightarrow> fsys \<Rightarrow> string \<Rightarrow> string \<Rightarrow> string \<Rightarrow> string \<Rightarrow> string \<Rightarrow> cert_error + fsys" where
  "ExportSSwan X dr fs username hostname caCertPath p12Path outputPath =
     (case ReadRawPEM fs caCertPath of
        Inl e \<Rightarrow> Inl e
      | Inr caPEM \<Rightarrow>
          (case ReadFile fs p12Path of
             Inl e \<Rightarrow> Inl (ExportRead p12Path e)
           | Inr p12Data \<Rightarrow>
               (case xlJSON X \<lparr>ssUUID = xlUUID X dr, ssName = ''SWAN-NG VPN ('' @ username @ '')'',
                   ssType = ''ikev2-cert'', ssRemoteAddr = hostname, ssRemoteID = hostname,
                   ssRemoteCert = xlBase64 X caPEM, ssLocalP12 = xlBase64 X p12Data, ssLocalID = username\<rparr> of
                  None \<Rightarrow> Inl JsonFailed
                | Some data \<Rightarrow> writeExport fs outputPath data 420)))"

definition l2tpEnv :: "string \<Rightarrow> string \<Rightarrow> string \<Rightarrow> string \<Rightarrow> tfield \<Rightarrow> string" where
  "l2tpEnv username password hostname psk f =
     (case f of FHostname \<Rightarrow> hostname | FUsername \<Rightarrow> username | FPassword \<Rightarrow> password | FPSK \<Rightarrow> psk | _ \<Rightarrow> [])"

definition ExportL2TPProfile ::
  "fsys \<Rightarrow> string \<Rightarrow> string \<Rightarrow> string \<Rightarrow> string \<Rightarrow> string \<Rightarrow> cert_error + fsys" where
  "ExportL2TPProfile fs username password hostname psk outputPath =
     writeExport fs outputPath (strBytes (render (l2tpEnv username password hostname psk) l2tpProfileTemplate)) 438"

section \<open>Lemmas\<close>

lemma writeExport_keeps:
  assumes "writeExport fs path d mode = Inr fs'" and "ReadFile fs q = Inr d'" and "fsPath fs q \<noteq> fsPath fs path"
  shows "ReadFile fs' q = Inr d'"
  using assms ReadFile_WriteFile_other [OF _ assms(2,3)] by (auto simp: writeExport_def split: sum.split_asm)

lemma writeExport_read: "writeExport fs path d mode = Inr fs' \<Longrightarrow> ReadFile fs' path = Inr d"
  using ReadFile_WriteFile by (auto simp: writeExport_def split: sum.split_asm)

lemma writeExport_extends: "writeExport fs path d mode = Inr fs' \<Longrightarrow> extends fs fs'"
  by (auto simp: writeExport_def split: sum.split_asm dest: WriteFile_extends)

lemma exports_extend:
  "ExportP12 L X fs c k ca out pw = Inr fs' \<Longrightarrow> extends fs fs'"
  "ExportMobileconfig L X dr fs u h ca p12 pw out = Inr fs' \<Longrightarrow> extends fs fs'"
  "ExportSSwan X dr fs u h ca p12 out = Inr fs' \<Longrightarrow> extends fs fs'"
  "ExportL2TPProfile fs u pw h psk out = Inr fs' \<Longrightarrow> extends fs fs'"
  by (auto simp: ExportP12_def ExportMobileconfig_def ExportSSwan_def ExportL2TPProfile_def
      split: sum.split_asm option.split_asm intro: writeExport_extends)

text \<open>The bundle holds the certificate and the key of the two files, and the CA certificate.\<close>

lemma ExportP12_contents:
  assumes "ExportP12 L X fs c k ca out pw = Inr fs'"
  shows "\<exists>cert key caCert pfx. LoadCertFromPEM L fs c = Inr cert \<and> LoadKeyFromPEM L fs k = Inr key
    \<and> LoadCertFromPEM L fs ca = Inr caCert \<and> xlP12 X key cert [caCert] pw = Some pfx \<and> ReadFile fs' out = Inr pfx"
  using assms by (auto simp: ExportP12_def split: sum.split_asm option.split_asm dest: writeExport_read)

end
