(* ===== verification/Commands.thy ===== *)
theory Commands
  imports ConfigLoader CertExport Chap
begin

text \<open>
  The commands (\<^verbatim>\<open>cmd/swan-ng/main.go\<close>, \<^verbatim>\<open>ikev2.go\<close>, \<^verbatim>\<open>l2tp.go\<close>, \<^verbatim>\<open>service.go\<close>,
  \<^verbatim>\<open>version.go\<close>) and the logger they set up (\<^verbatim>\<open>internal/log/log.go\<close>). A command is a function
  of the loaded configuration, the path it came from, the operator's input and the files,
  and returns its error or result together with the files it leaves. Printing is left out.
\<close>

section \<open>The logger\<close>

datatype slog_level = LevelDebug | LevelInfo | LevelWarn | LevelError

record LogConfig =
  lcLevel :: string
  lcOutput :: string
  lcFilePath :: string
  lcMaxSize :: int
  lcMaxBackups :: int
  lcMaxAge :: int
  lcCompress :: bool

datatype log_target = Stdout | RotatedFile string int int int bool

definition logLevelOf :: "string \<Rightarrow> slog_level" where
  "logLevelOf s =
     (if s = ''debug'' then LevelDebug else if s = ''info'' then LevelInfo
      else if s = ''warn'' then LevelWarn else if s = ''error'' then LevelError else LevelInfo)"

definition InitLogger :: "LogConfig \<Rightarrow> slog_level \<times> log_target list" where
  "InitLogger c =
     (logLevelOf (lcLevel c),
      if lcOutput c = ''file'' \<and> lcFilePath c \<noteq> []
      then [Stdout, RotatedFile (lcFilePath c) (lcMaxSize c) (lcMaxBackups c) (lcMaxAge c) (lcCompress c)]
      else [Stdout])"

section \<open>Loading the configuration (main.go)\<close>

datatype export_stage = StCA | StServer | StClient | StP12 | StMobileconfig | StSSwan | StL2TPProfile

datatype cmd_error =
    PathUnresolved | LoadFailed load_error
  | NoHostname
  | CertFailed export_stage cert_error
  | ProfileDirFailed os_error | ProfileMarshalFailed | ProfileWriteFailed os_error
  | ConnNotFound string | ConnWithoutPSK string | NoSecretConn
  | PromptFailed | EmptyPassword | PasswordMismatch

definition loggerConfig :: "Config \<Rightarrow> LogConfig" where
  "loggerConfig cfg =
     \<lparr>lcLevel = LogLevel (cfgLogging cfg), lcOutput = LogOutput (cfgLogging cfg),
      lcFilePath = LogFile (cfgLogging cfg), lcMaxSize = MaxSize (cfgLogging cfg),
      lcMaxBackups = MaxBackups (cfgLogging cfg), lcMaxAge = MaxAge (cfgLogging cfg),
      lcCompress = LogCompress (cfgLogging cfg)\<rparr>"

text \<open>The result is the configuration, its path and the logger.\<close>

definition loadConfig ::
  "yaml_lib \<Rightarrow> host \<Rightarrow> (connections \<Rightarrow> string list) \<Rightarrow> string
     \<Rightarrow> (cmd_error + Config \<times> string \<times> (slog_level \<times> log_target list)) option" where
  "loadConfig y h ord cfgPath =
     (case ResolveConfigPath h cfgPath of
        None \<Rightarrow> Some (Inl PathUnresolved)
      | Some resolvedPath \<Rightarrow>
          (case Load y h ord resolvedPath of
             None \<Rightarrow> None
           | Some (Inl e) \<Rightarrow> Some (Inl (LoadFailed e))
           | Some (Inr cfg) \<Rightarrow> Some (Inr (cfg, resolvedPath, InitLogger (loggerConfig cfg)))))"

section \<open>Looking up a connection\<close>

text \<open>\<^const>\<open>None\<close> is the dereference of a nil connection.\<close>

fun findByAuthBy ::
  "string list \<Rightarrow> connections \<Rightarrow> string \<Rightarrow> (string \<times> ConnectionConfig) option option" where
  "findByAuthBy [] m authBy = Some None"
| "findByAuthBy (k # ks) m authBy =
     (case map_of m k of
        None \<Rightarrow> findByAuthBy ks m authBy
      | Some None \<Rightarrow> None
      | Some (Some c) \<Rightarrow> if connAuthBy c = authBy then Some (Some (k, c)) else findByAuthBy ks m authBy)"

definition FindConnectionByAuthBy ::
  "(connections \<Rightarrow> string list) \<Rightarrow> Config \<Rightarrow> string \<Rightarrow> (string \<times> ConnectionConfig) option option" where
  "FindConnectionByAuthBy ord cfg authBy = findByAuthBy (ord (conns cfg)) (conns cfg) authBy"

definition resolveL2TPConnection ::
  "(connections \<Rightarrow> string list) \<Rightarrow> Config \<Rightarrow> string \<Rightarrow> (cmd_error + string \<times> ConnectionConfig) option" where
  "resolveL2TPConnection ord cfg name =
     (if name \<noteq> [] then
        (case map_of (conns cfg) name of
           None \<Rightarrow> Some (Inl (ConnNotFound name))
         | Some None \<Rightarrow> None
         | Some (Some conn) \<Rightarrow>
             if connPSK conn = [] then Some (Inl (ConnWithoutPSK name)) else Some (Inr (name, conn)))
      else
        (case FindConnectionByAuthBy ord cfg ''secret'' of
           None \<Rightarrow> None
         | Some None \<Rightarrow> Some (Inl NoSecretConn)
         | Some (Some r) \<Rightarrow> Some (Inr r)))"

section \<open>Certificate validity prompt\<close>

text \<open>\<^verbatim>\<open>strconv.Atoi\<close>: an optional sign and decimal digits, in the range of an \<^verbatim>\<open>int\<close>.\<close>

definition digitsValue :: "string \<Rightarrow> int option" where
  "digitsValue s =
     (if s \<noteq> [] \<and> list_all isDigit s
      then Some (foldl (\<lambda>n c. 10 * n + (int (charCode c) - 48)) 0 s) else None)"

definition Atoi :: "string \<Rightarrow> int option" where
  "Atoi s =
     (let neg = (s \<noteq> [] \<and> hd s = CHR ''-'');
          digits = (if s \<noteq> [] \<and> hd s \<in> {CHR ''-'', CHR ''+''} then tl s else s)
      in case digitsValue digits of
           None \<Rightarrow> None
         | Some v \<Rightarrow> (let n = (if neg then - v else v) in if - (2 ^ 63) \<le> n \<and> n < 2 ^ 63 then Some n else None))"

definition promptCertValidity :: "string \<Rightarrow> int" where
  "promptCertValidity line =
     (let input = TrimSpace line in
      if input = [] then 120
      else case Atoi input of None \<Rightarrow> 120 | Some months \<Rightarrow> if months \<le> 0 then 120 else months)"

section \<open>ikev2 add-user\<close>

record ikev2ProfileData =
  ipUsername :: string
  ipCertificate :: string
  ipKey :: string
  ipValidityMonths :: int

record l2tpProfileData =
  lpUsername :: string
  lpPassword :: string

record profile_lib =
  plMarshalIKEv2 :: "ikev2ProfileData \<Rightarrow> bytes option"
  plMarshalL2TP :: "l2tpProfileData \<Rightarrow> bytes option"
  plUnmarshalL2TP :: "bytes \<Rightarrow> L2TPProfile option"

definition writeProfile :: "fsys \<Rightarrow> string \<Rightarrow> bytes option \<Rightarrow> nat \<Rightarrow> cmd_error + fsys" where
  "writeProfile fs path data mode =
     (case data of
        None \<Rightarrow> Inl ProfileMarshalFailed
      | Some d \<Rightarrow> (case WriteFile fs path d mode of Inl e \<Rightarrow> Inl (ProfileWriteFailed e) | Inr fs' \<Rightarrow> Inr fs'))"

definition writeIKEv2Profile ::
  "profile_lib \<Rightarrow> fsys \<Rightarrow> string \<Rightarrow> string \<Rightarrow> int \<Rightarrow> string \<Rightarrow> string \<Rightarrow> cmd_error + fsys" where
  "writeIKEv2Profile P fs path username validityMonths certPath keyPath =
     writeProfile fs path (plMarshalIKEv2 P \<lparr>ipUsername = username, ipCertificate = certPath, ipKey = keyPath,
       ipValidityMonths = validityMonths\<rparr>) 420"

definition writeL2TPProfile :: "profile_lib \<Rightarrow> fsys \<Rightarrow> string \<Rightarrow> string \<Rightarrow> string \<Rightarrow> cmd_error + fsys" where
  "writeL2TPProfile P fs path username password =
     writeProfile fs path (plMarshalL2TP P \<lparr>lpUsername = username, lpPassword = password\<rparr>) 384"

record cmd_libs =
  cmCert :: cert_lib
  cmExport :: export_lib
  cmProfile :: profile_lib

record cmd_draws =
  cdCA :: cert_draws
  cdServer :: cert_draws
  cdClient :: cert_draws
  cdUUID :: nat

definition profilePath :: "string \<Rightarrow> string \<Rightarrow> string \<Rightarrow> string \<Rightarrow> string" where
  "profilePath profileDir prefix username suffix = pathJoin profileDir (prefix @ username @ suffix)"

text \<open>Steps 5 and 6: the profiles of an issued certificate.\<close>

definition exportProfiles ::
  "cmd_libs \<Rightarrow> nat \<Rightarrow> fsys \<Rightarrow> string \<Rightarrow> string \<Rightarrow> string \<Rightarrow> string \<Rightarrow> int \<Rightarrow> string \<Rightarrow> string
     \<Rightarrow> (cmd_error + string list) \<times> fsys" where
  "exportProfiles M uuid fs cfgDir certsDir hostname username validityMonths clientCert clientKey =
     (case MkdirAll fs (pathJoin cfgDir ''profile.d'') of
        (Some e, fs1) \<Rightarrow> (Inl (ProfileDirFailed e), fs1)
      | (None, fs1) \<Rightarrow>
          (let profileDir = pathJoin cfgDir ''profile.d'';
               caCertPath = pathJoin certsDir ''ca.crt'';
               p12Path = profilePath profileDir ''ikev2-'' username ''.p12'';
               mobileconfigPath = profilePath profileDir ''ikev2-'' username ''.mobileconfig'';
               sswanPath = profilePath profileDir ''ikev2-'' username ''.sswan'';
               yamlPath = profilePath profileDir ''ikev2-'' username ''.yaml''
           in
           case ExportP12 (cmCert M) (cmExport M) fs1 clientCert clientKey caCertPath p12Path username of
             Inl e \<Rightarrow> (Inl (CertFailed StP12 e), fs1)
           | Inr fs2 \<Rightarrow>
               (case ExportMobileconfig (cmCert M) (cmExport M) uuid fs2 username hostname caCertPath p12Path
                   username mobileconfigPath of
                  Inl e \<Rightarrow> (Inl (CertFailed StMobileconfig e), fs2)
                | Inr fs3 \<Rightarrow>
                    (case ExportSSwan (cmExport M) (uuid + 4) fs3 username hostname caCertPath p12Path sswanPath of
                       Inl e \<Rightarrow> (Inl (CertFailed StSSwan e), fs3)
                     | Inr fs4 \<Rightarrow>
                         (case writeIKEv2Profile (cmProfile M) fs4 yamlPath username validityMonths clientCert clientKey of
                            Inl e \<Rightarrow> (Inl e, fs4)
                          | Inr fs5 \<Rightarrow> (Inr [clientCert, clientKey, p12Path, mobileconfigPath, sswanPath, yamlPath], fs5))))))"

definition ikev2AddUser ::
  "cmd_libs \<Rightarrow> cmd_draws \<Rightarrow> fsys \<Rightarrow> Config \<Rightarrow> string \<Rightarrow> string \<Rightarrow> string \<Rightarrow> (cmd_error + string list) \<times> fsys" where
  "ikev2AddUser M dr fs cfg resolvedConfigPath input username =
     (let hostname = Hostname (cfgServer cfg);
          cfgDir = pathDir resolvedConfigPath;
          certsDir = pathJoin cfgDir ''certs''
      in
      if hostname = [] then (Inl NoHostname, fs)
      else
      (case InitCA (cmCert M) (cdCA dr) fs certsDir of
         (Inl e, fs1) \<Rightarrow> (Inl (CertFailed StCA e), fs1)
       | (Inr (caCert, caKey), fs1) \<Rightarrow>
           (case InitServerCert (cmCert M) (cdServer dr) fs1 certsDir hostname caCert caKey of
              (Inl e, fs2) \<Rightarrow> (Inl (CertFailed StServer e), fs2)
            | (Inr _, fs2) \<Rightarrow>
                (case GenerateClientCert (cmCert M) (cdClient dr) fs2 certsDir username (promptCertValidity input)
                    caCert caKey of
                   (Inl e, fs3) \<Rightarrow> (Inl (CertFailed StClient e), fs3)
                 | (Inr (clientCert, clientKey), fs3) \<Rightarrow>
                     exportProfiles M (cdUUID dr) fs3 cfgDir certsDir hostname username (promptCertValidity input)
                       clientCert clientKey))))"

section \<open>l2tp add-user\<close>

text \<open>The two answers of the operator; \<^const>\<open>None\<close> is a failing terminal.\<close>

definition l2tpAddUser ::
  "profile_lib \<Rightarrow> (connections \<Rightarrow> string list) \<Rightarrow> fsys \<Rightarrow> Config \<Rightarrow> string \<Rightarrow> string \<Rightarrow> string option
     \<Rightarrow> string option \<Rightarrow> string \<Rightarrow> ((cmd_error + string \<times> string \<times> string) \<times> fsys) option" where
  "l2tpAddUser P ord fs cfg resolvedConfigPath connFlag answer1 answer2 username =
     (let hostname = Hostname (cfgServer cfg) in
      if hostname = [] then Some (Inl NoHostname, fs)
      else
      (case resolveL2TPConnection ord cfg connFlag of
         None \<Rightarrow> None
       | Some (Inl e) \<Rightarrow> Some (Inl e, fs)
       | Some (Inr (name, conn)) \<Rightarrow>
           (case answer1 of
              None \<Rightarrow> Some (Inl PromptFailed, fs)
            | Some password \<Rightarrow>
                if password = [] then Some (Inl EmptyPassword, fs)
                else
                (case answer2 of
                   None \<Rightarrow> Some (Inl PromptFailed, fs)
                 | Some confirm \<Rightarrow>
                     if password \<noteq> confirm then Some (Inl PasswordMismatch, fs)
                     else
                     (let cfgDir = pathDir resolvedConfigPath; profileDir = pathJoin cfgDir ''profile.d'' in
                      case MkdirAll fs profileDir of
                        (Some e, fs1) \<Rightarrow> Some (Inl (ProfileDirFailed e), fs1)
                      | (None, fs1) \<Rightarrow>
                          (case writeL2TPProfile P fs1 (profilePath profileDir ''l2tp-'' username ''.yaml'')
                              username password of
                             Inl e \<Rightarrow> Some (Inl e, fs1)
                           | Inr fs2 \<Rightarrow>
                               (case ExportL2TPProfile fs2 username password hostname (connPSK conn)
                                   (profilePath profileDir ''l2tp-'' username ''.txt'') of
                                  Inl e \<Rightarrow> Some (Inl (CertFailed StL2TPProfile e), fs2)
                                | Inr fs3 \<Rightarrow>
                                    Some (Inr (name, profilePath profileDir ''l2tp-'' username ''.yaml'',
                                      profilePath profileDir ''l2tp-'' username ''.txt''), fs3))))))))"

section \<open>service install and version\<close>

text \<open>The arguments with which the system starts the service.\<close>

definition serviceArguments :: "string \<Rightarrow> string list" where
  "serviceArguments cfgPath = [''daemon''] @ (if cfgPath \<noteq> [] then [''--config'', cfgPath] else [])"

definition versionLine :: "string \<Rightarrow> string \<Rightarrow> string" where
  "versionLine version commit =
     ''swan-ng version '' @ orElse version ''dev'' @ '' (commit: '' @ orElse commit ''unknown'' @ '')''"

section \<open>Properties\<close>

lemma writeProfile_extends: "writeProfile fs path d mode = Inr fs' \<Longrightarrow> extends fs fs'"
  by (auto simp: writeProfile_def split: option.split_asm sum.split_asm dest: WriteFile_extends)

lemma exportProfiles_extends:
  "exportProfiles M uuid fs cfgDir certsDir hostname u months c k = (r, fs') \<Longrightarrow> extends fs fs'"
  unfolding exportProfiles_def Let_def
  by (auto split: prod.split_asm option.split_asm sum.split_asm simp: writeIKEv2Profile_def
      dest!: MkdirAll_extends exports_extend writeProfile_extends intro: extends_trans)
    (meson extends_trans)

lemma InitCA_extends:
  assumes "InitCA L dr fs dir = (r, fs')"
  shows "extends fs fs'"
proof (cases "MkdirAll fs dir")
  case (Pair e fs1)
  note m = MkdirAll_extends [OF Pair]
  show ?thesis
    using assms Pair m
    by (auto simp: InitCA_def Let_def split: option.split_asm prod.split_asm sum.split_asm if_split_asm
        intro: extends_trans dest!: createPair_extends)
qed

lemma InitServerCert_extends:
  "InitServerCert L dr fs dir h ca k = (r, fs') \<Longrightarrow> extends fs fs'"
  unfolding InitServerCert_def Let_def
  by (auto split: option.split_asm prod.split_asm sum.split_asm if_split_asm
      intro: extends_trans dest!: createPair_extends MkdirAll_extends)

lemma GenerateClientCert_issued:
  assumes "GenerateClientCert L dr fs dir u m ca k = (Inr x, fs')"
  shows "fileExists fs' (clientCertPath dir u)" and "extends fs fs'"
    and "x = (clientCertPath dir u, clientKeyPath dir u)"
proof -
  obtain d kp where p: "createPair L dr fs (\<lambda>serial. clientTemplate u m serial (drNow dr)) (\<lambda>_. ca) (\<lambda>_. k)
      (clientCertPath dir u) kp = (Inr d, fs')" and x: "x = (clientCertPath dir u, clientKeyPath dir u)"
    using assms by (auto simp: GenerateClientCert_def split: if_split_asm prod.split_asm sum.split_asm)
  from p obtain der fs1 key where s: "SaveCertPEM L fs der (clientCertPath dir u) = Inr fs1" "SaveKeyPEM L fs1 key kp = Inr fs'"
    by (auto simp: createPair_def split: option.split_asm sum.split_asm)
  then obtain b where "ReadFile fs1 (clientCertPath dir u) = Inr b"
    using ReadFile_WriteFile by (auto simp: SaveCertPEM_def split: sum.split_asm)
  then show "fileExists fs' (clientCertPath dir u)"
    using fileExists_extends [OF Save_extends(2) [OF s(2)] fileExists_read] by blast
  show "extends fs fs'" by (rule createPair_extends [OF p])
  show "x = (clientCertPath dir u, clientKeyPath dir u)" by (rule x)
qed

text \<open>The outcomes that come after the certificate was issued.\<close>

definition afterIssue :: "cmd_error + string list \<Rightarrow> bool" where
  "afterIssue r \<longleftrightarrow>
     (case r of
        Inr _ \<Rightarrow> True
      | Inl e \<Rightarrow>
          (case e of
             CertFailed st _ \<Rightarrow> st \<in> {StP12, StMobileconfig, StSSwan}
           | ProfileDirFailed _ \<Rightarrow> True | ProfileMarshalFailed \<Rightarrow> True | ProfileWriteFailed _ \<Rightarrow> True
           | _ \<Rightarrow> False))"

abbreviation certsDirOf :: "string \<Rightarrow> string" where
  "certsDirOf path \<equiv> pathJoin (pathDir path) ''certs''"

lemma issued_certificate_exists:
  assumes "ikev2AddUser M dr fs cfg path input u = (r, fs')" and "afterIssue r"
  shows "fileExists fs' (clientCertPath (certsDirOf path) u)"
proof -
  from assms obtain fs2 fs3 ca key x where
    g: "GenerateClientCert (cmCert M) (cdClient dr) fs2 (certsDirOf path) u (promptCertValidity input) ca key = (Inr x, fs3)"
    and e: "exportProfiles M (cdUUID dr) fs3 (pathDir path) (certsDirOf path) (Hostname (cfgServer cfg)) u
      (promptCertValidity input) (fst x) (snd x) = (r, fs')"
    by (auto simp: ikev2AddUser_def Let_def afterIssue_def split: prod.split_asm sum.split_asm if_split_asm)
  from GenerateClientCert_issued(1) [OF g] exportProfiles_extends [OF e] show ?thesis
    by (rule fileExists_extends [rotated])
qed

text \<open>
  C35. \<^verbatim>\<open>ikev2 add-user\<close> cannot be repeated: once a run has issued the certificate, whether it
  then succeeded or failed to export a profile, every later run for that user fails, on
  whatever the files have grown to, with whatever input and draws.
\<close>
theorem add_user_not_retryable:
  assumes "ikev2AddUser M dr fs cfg path input u = (r, fs1)" and "afterIssue r" and "extends fs1 fs2"
  shows "\<exists>e. fst (ikev2AddUser M dr' fs2 cfg' path input' u) = Inl e"
proof -
  have ex: "fileExists fs2 (clientCertPath (certsDirOf path) u)"
    by (rule fileExists_extends [OF assms(3) issued_certificate_exists [OF assms(1,2)]])
  show ?thesis
  proof (cases "Hostname (cfgServer cfg') = []")
    case False
    obtain r1 fsa where ca: "InitCA (cmCert M) (cdCA dr') fs2 (certsDirOf path) = (r1, fsa)" by fastforce
    show ?thesis
    proof (cases r1)
      case (Inr ck)
      obtain c k where ck: "ck = (c, k)" by fastforce
      obtain r2 fsb where sc: "InitServerCert (cmCert M) (cdServer dr') fsa (certsDirOf path)
        (Hostname (cfgServer cfg')) c k = (r2, fsb)" by fastforce
      have "fileExists fsb (clientCertPath (certsDirOf path) u)"
        using ex fileExists_extends [OF extends_trans [OF InitCA_extends [OF ca] InitServerCert_extends [OF sc]]]
        by blast
      then have "GenerateClientCert (cmCert M) (cdClient dr') fsb (certsDirOf path) u m c k = (Inl (ClientExists u), fsb)" for m
        by (simp add: GenerateClientCert_def)
      with False ca Inr ck sc show ?thesis
        by (cases r2) (simp_all add: ikev2AddUser_def)
    qed (use False ca in \<open>simp add: ikev2AddUser_def\<close>)
  qed (simp add: ikev2AddUser_def)
qed

text \<open>
  What the loader of \<open>Chap\<close> gets for a list of profile paths: each file is read and parsed,
  and one that cannot be used is skipped.
\<close>

definition readProfiles :: "profile_lib \<Rightarrow> fsys \<Rightarrow> string list \<Rightarrow> L2TPProfile option list" where
  "readProfiles P fs paths =
     map (\<lambda>p. case ReadFile fs p of Inl _ \<Rightarrow> None | Inr d \<Rightarrow> plUnmarshalL2TP P d) paths"

definition profile_lib_ok :: "profile_lib \<Rightarrow> bool" where
  "profile_lib_ok P \<longleftrightarrow>
     (\<forall>p d. plMarshalL2TP P p = Some d \<longrightarrow>
        plUnmarshalL2TP P d = Some \<lparr>profUsername = strBytes (lpUsername p), profPassword = strBytes (lpPassword p)\<rparr>)"

lemma writeProfile_read:
  assumes "writeProfile fs path d mode = Inr fs'"
  shows "\<exists>b. d = Some b \<and> ReadFile fs' path = Inr b"
  using assms by (auto simp: writeProfile_def split: option.split_asm sum.split_asm dest: ReadFile_WriteFile)

lemma profile_path:
  assumes "IsAbs dir" and "slash \<notin> set u" and "plainName (pre @ u @ suf)"
  shows "fsPath fs (profilePath dir pre u suf) = components dir @ [pre @ u @ suf]"
  using assms by (simp add: profilePath_def fsPath_join)

lemma l2tp_names:
  assumes "slash \<notin> set u"
  shows "plainName (''l2tp-'' @ u @ ''.yaml'')" and "plainName (''l2tp-'' @ u @ ''.txt'')"
  using assms by (auto simp: plainName_def)

text \<open>
  A user that \<^verbatim>\<open>l2tp add-user\<close> created can log in: the profile it wrote, read by the
  server's user database, gives that user exactly the password that was entered twice, and
  the distribution profile that was written after it has not disturbed it.
\<close>
theorem l2tp_user_can_log_in:
  assumes "l2tpAddUser P ord fs cfg path flag a1 a2 u = Some (Inr (name, yamlPath, txtPath), fs')"
    and "profile_lib_ok P" and "IsAbs path" and "u \<noteq> []" and "slash \<notin> set u"
  shows "\<exists>pw. a1 = Some pw \<and> a2 = Some pw \<and> pw \<noteq> [] \<and> IsAbs yamlPath
    \<and> LookupUser (LoadProfiles (readProfiles P fs' [yamlPath]) db) (strBytes u) = Some (strBytes pw)"
proof -
  let ?dir = "pathJoin (pathDir path) ''profile.d''"
  let ?y = "profilePath ?dir ''l2tp-'' u ''.yaml''" and ?t = "profilePath ?dir ''l2tp-'' u ''.txt''"
  have dir: "IsAbs ?dir" using IsAbs_pathDir [OF assms(3)] by simp
  from assms(1) obtain pw fs1 fs2 and conn :: ConnectionConfig where a: "a1 = Some pw" "a2 = Some pw" "pw \<noteq> []"
    and p: "yamlPath = ?y" "txtPath = ?t"
    and w: "writeL2TPProfile P fs1 ?y u pw = Inr fs2"
    and x: "ExportL2TPProfile fs2 u pw (Hostname (cfgServer cfg)) (connPSK conn) ?t = Inr fs'"
    unfolding l2tpAddUser_def Let_def
    by (auto split: option.split_asm sum.split_asm prod.split_asm if_split_asm)
  from writeProfile_read [OF w [unfolded writeL2TPProfile_def]] obtain b where
    b: "plMarshalL2TP P \<lparr>lpUsername = u, lpPassword = pw\<rparr> = Some b" "ReadFile fs2 ?y = Inr b" by blast
  have "fsPath fs2 ?y \<noteq> fsPath fs2 ?t"
    using dir assms(5) l2tp_names [OF assms(5)] by (simp add: profile_path)
  then have r: "ReadFile fs' ?y = Inr b"
    using writeExport_keeps [OF x [unfolded ExportL2TPProfile_def] b(2)] by simp
  have "plUnmarshalL2TP P b = Some \<lparr>profUsername = strBytes u, profPassword = strBytes pw\<rparr>"
    using assms(2) b(1) by (auto simp: profile_lib_ok_def)
  moreover have "strBytes u \<noteq> []" using assms(4) by (simp add: strBytes_def)
  moreover have "IsAbs ?y" using dir by (simp add: profilePath_def)
  ultimately show ?thesis using a p r by (simp add: readProfiles_def LookupUser_def)
qed

text \<open>The service is installed with the flag as it was typed: a relative path stays relative.\<close>

lemma service_flag_unresolved:
  "p \<noteq> [] \<Longrightarrow> serviceArguments p = [''daemon'', ''--config'', p]"
  by (simp add: serviceArguments_def)

lemma promptCertValidity_positive: "0 < promptCertValidity line"
  by (simp add: promptCertValidity_def Let_def split: option.split)

section \<open>Examples\<close>

definition exampleExport :: export_lib where
  "exampleExport =
     \<lparr>xlP12 = (\<lambda>k c cs pw. None), xlJSON = (\<lambda>p. Some []), xlBase64 = (\<lambda>b. []), xlUUID = (\<lambda>n. [])\<rparr>"

definition exampleProfileLib :: profile_lib where
  "exampleProfileLib =
     \<lparr>plMarshalIKEv2 = (\<lambda>p. Some []),
      plMarshalL2TP = (\<lambda>p. Some (replicate (length (lpUsername p)) 1 @ [0] @ strBytes (lpUsername p) @ strBytes (lpPassword p))),
      plUnmarshalL2TP = (\<lambda>d. let n = length (takeWhile (\<lambda>x. x = 1) d); r = drop (Suc n) d
        in Some \<lparr>profUsername = take n r, profPassword = drop n r\<rparr>)\<rparr>"

lemma exampleProfileLib_ok: "profile_lib_ok exampleProfileLib"
proof -
  have t: "takeWhile (\<lambda>x. x = 1) (replicate n 1 @ 0 # r) = replicate n (1 :: byte)" for n r
    by (induction n) auto
  then show ?thesis by (auto simp: profile_lib_ok_def exampleProfileLib_def Let_def strBytes_def)
qed

definition exampleConfig :: Config where
  "exampleConfig = withDefaults ''vpn'' (exampleRaw inlineConns)"

lemma example_add_user:
  "\<exists>fs'. l2tpAddUser exampleProfileLib (map fst) emptyHost exampleConfig ''/etc/config.yaml'' '''' (Some ''pw'') (Some ''pw'') ''al''
       = Some (Inr (''l2tp'', ''/etc/profile.d/l2tp-al.yaml'', ''/etc/profile.d/l2tp-al.txt''), fs')"
proof -
  let ?dir = "''/etc/profile.d''"
  have paths: "pathJoin ''/etc'' ''profile.d'' = ?dir"
    "profilePath ?dir ''l2tp-'' ''al'' ''.yaml'' = ''/etc/profile.d/l2tp-al.yaml''"
    "profilePath ?dir ''l2tp-'' ''al'' ''.txt'' = ''/etc/profile.d/l2tp-al.txt''"
    by code_simp+
  have conn: "resolveL2TPConnection (map fst) exampleConfig '''' = Some (Inr (''l2tp'', fillDefaults (exampleConn ''%any'')))"
    by (simp add: resolveL2TPConnection_def FindConnectionByAuthBy_def exampleConfig_def inlineConns_def
        exampleRaw_def withDefaults_def exampleConn_def)
  have host: "Hostname (cfgServer exampleConfig) = ''vpn''"
    by (simp add: exampleConfig_def withDefaults_def exampleRaw_def serverDefaults_def orElse_def)
  show ?thesis
    by (simp add: l2tpAddUser_def host conn example_paths paths MkdirAll_def emptyHost_def fsPath_def IsAbs_def
        fsLookup_def fsPut_def writeL2TPProfile_def writeProfile_def exampleProfileLib_def WriteFile_def
        ExportL2TPProfile_def writeExport_def)
qed

theorem l2tp_user_can_log_in_witness:
  "\<exists>yamlPath txtPath fs'.
     l2tpAddUser exampleProfileLib (map fst) emptyHost exampleConfig ''/etc/config.yaml'' '''' (Some ''pw'') (Some ''pw'') ''al''
       = Some (Inr (''l2tp'', yamlPath, txtPath), fs')
     \<and> LookupUser (LoadProfiles (readProfiles exampleProfileLib fs' [yamlPath]) NewProfileUserDB) (strBytes ''al'')
       = Some (strBytes ''pw'')"
proof -
  obtain fs' where fs': "l2tpAddUser exampleProfileLib (map fst) emptyHost exampleConfig ''/etc/config.yaml''
      '''' (Some ''pw'') (Some ''pw'') ''al''
    = Some (Inr (''l2tp'', ''/etc/profile.d/l2tp-al.yaml'', ''/etc/profile.d/l2tp-al.txt''), fs')"
    using example_add_user by blast
  from l2tp_user_can_log_in [OF fs' exampleProfileLib_ok, of NewProfileUserDB]
  have "LookupUser (LoadProfiles (readProfiles exampleProfileLib fs' [''/etc/profile.d/l2tp-al.yaml'']) NewProfileUserDB)
      (strBytes ''al'') = Some (strBytes ''pw'')" by (simp add: IsAbs_def)
  with fs' show ?thesis by blast
qed

definition exampleCmdLibs :: cmd_libs where
  "exampleCmdLibs = \<lparr>cmCert = exampleCertLib, cmExport = exampleExport, cmProfile = exampleProfileLib\<rparr>"

definition exampleCmdDraws :: cmd_draws where
  "exampleCmdDraws = \<lparr>cdCA = exampleCertDraws, cdServer = exampleCertDraws, cdClient = exampleCertDraws, cdUUID = 0\<rparr>"

text \<open>The first run fails to encode the bundle; so does every other.\<close>

theorem add_user_not_retryable_witness:
  "\<forall>dr. \<exists>e. fst (ikev2AddUser exampleCmdLibs dr
     (snd (ikev2AddUser exampleCmdLibs exampleCmdDraws emptyHost exampleConfig ''/etc/config.yaml'' '''' ''al''))
     exampleConfig ''/etc/config.yaml'' '''' ''al'') = Inl e"
proof (intro allI, rule add_user_not_retryable [OF _ _ extends_refl])
  let ?run = "ikev2AddUser exampleCmdLibs exampleCmdDraws emptyHost exampleConfig ''/etc/config.yaml'' '''' ''al''"
  show "?run = (fst ?run, snd ?run)" by simp
  have paths: "pathJoin ''/etc'' ''certs'' = ''/etc/certs''" "pathJoin ''/etc/certs'' ''ca.crt'' = ''/etc/certs/ca.crt''"
    "pathJoin ''/etc/certs'' ''ca.key'' = ''/etc/certs/ca.key''"
    "pathJoin ''/etc/certs'' ''server.crt'' = ''/etc/certs/server.crt''"
    "pathJoin ''/etc/certs'' ''server.key'' = ''/etc/certs/server.key''"
    "pathJoin ''/etc/certs'' ''clients'' = ''/etc/certs/clients''"
    "clientCertPath ''/etc/certs'' ''al'' = ''/etc/certs/clients/al.crt''"
    "clientKeyPath ''/etc/certs'' ''al'' = ''/etc/certs/clients/al.key''"
    "pathJoin ''/etc'' ''profile.d'' = ''/etc/profile.d''"
    by code_simp+
  have host: "Hostname (cfgServer exampleConfig) = ''vpn''"
    by (simp add: exampleConfig_def withDefaults_def exampleRaw_def serverDefaults_def orElse_def)
  show "afterIssue (fst ?run)"
    by (simp add: ikev2AddUser_def host example_paths paths InitCA_def MkdirAll_def emptyHost_def fsPath_def IsAbs_def
        fsLookup_def fsPut_def fileExists_def Stat_def createPair_def exampleCmdLibs_def exampleCmdDraws_def
        exampleCertLib_def exampleCertDraws_def generateSerial_def SaveCertPEM_def SaveKeyPEM_def WriteFile_def
        InitServerCert_def GenerateClientCert_def exportProfiles_def ExportP12_def LoadCertFromPEM_def
        LoadKeyFromPEM_def ReadFile_def exampleExport_def afterIssue_def Let_def)
qed

end
