(* ===== verification/DaemonPeers.thy ===== *)
theory DaemonPeers
  imports Commands IkeServer
begin

text \<open>
  How the daemon finds the key of a peer (\<^verbatim>\<open>cmd/swan-ng/daemon.go\<close>, the closures
  \<^verbatim>\<open>v1PSKFunc\<close> and \<^verbatim>\<open>v2PSKFunc\<close>): a search through the configured connections in the order of
  a Go map, with the text of \<^verbatim>\<open>net.IP.String\<close>. What the searches guarantee is carried to the
  sessions of the IKE server.
\<close>

section \<open>The text of an address\<close>

definition hexDigit :: "nat \<Rightarrow> char" where
  "hexDigit n = char_of (if n < 10 then 48 + n else 87 + n)"

text \<open>A 16-bit group in lower-case hexadecimal, without leading zeros.\<close>

definition showGroup :: "nat \<Rightarrow> string" where
  "showGroup v =
     (if v < 16 then [hexDigit v]
      else if v < 256 then [hexDigit (v div 16), hexDigit (v mod 16)]
      else if v < 4096 then [hexDigit (v div 256), hexDigit (v div 16 mod 16), hexDigit (v mod 16)]
      else [hexDigit (v div 4096), hexDigit (v div 256 mod 16), hexDigit (v div 16 mod 16), hexDigit (v mod 16)])"

definition zeroRun :: "nat list \<Rightarrow> nat \<Rightarrow> nat" where
  "zeroRun gs i = length (takeWhile (\<lambda>g. g = 0) (drop i gs))"

text \<open>The first longest run of at least two zero groups, as its start and length.\<close>

definition longestRun :: "nat list \<Rightarrow> nat \<times> nat" where
  "longestRun gs =
     foldl (\<lambda>(s, l) i. if 2 \<le> zeroRun gs i \<and> l < zeroRun gs i then (i, zeroRun gs i) else (s, l)) (255, 0) [0..<8]"

definition showIPv6 :: "nat list \<Rightarrow> string" where
  "showIPv6 gs =
     (let (s, l) = longestRun gs in
      concat (map (\<lambda>i.
        if i = s then ''::''
        else if s < i \<and> i < s + l then []
        else (if i \<noteq> 0 \<and> i \<noteq> s + l then '':'' else []) @ showGroup (gs ! i)) [0..<8]))"

definition showBytes :: "bytes \<Rightarrow> string" where
  "showBytes b = concat (map (\<lambda>x. [hexDigit (unat x div 16), hexDigit (unat x mod 16)]) b)"

definition ipString :: "ip \<Rightarrow> string" where
  "ipString ip =
     (case IPString ip of
        TextNil \<Rightarrow> ''<nil>''
      | TextV4 v \<Rightarrow> showIPv4 (v ! 0) (v ! 1) (v ! 2) (v ! 3)
      | TextV6 v \<Rightarrow> showIPv6 (map (\<lambda>i. 256 * unat (v ! (2 * i)) + unat (v ! (2 * i + 1))) [0..<8])
      | TextBad v \<Rightarrow> CHR ''?'' # showBytes v)"

section \<open>The searches\<close>

text \<open>The loop of both closures; the outer \<^const>\<open>None\<close> is the dereference of a nil connection.\<close>

fun pskLoop ::
  "(ConnectionConfig \<Rightarrow> bool) \<Rightarrow> string list \<Rightarrow> connections \<Rightarrow> (bytes \<times> bytes) option option" where
  "pskLoop matches [] m = Some None"
| "pskLoop matches (name # ks) m =
     (case map_of m name of
        None \<Rightarrow> pskLoop matches ks m
      | Some None \<Rightarrow> None
      | Some (Some conn) \<Rightarrow>
          if matches conn \<and> connPSK conn \<noteq> [] then Some (Some (strBytes (connPSK conn), strBytes name))
          else pskLoop matches ks m)"

definition v1Matches :: "udp_addr \<Rightarrow> ConnectionConfig \<Rightarrow> bool" where
  "v1Matches peer conn \<longleftrightarrow>
     connAuthBy conn = ''secret'' \<and> connKeyExchange conn = ''ikev1''
     \<and> (connRight conn = ''%any'' \<or> connRight conn = ipString (addrIP peer))"

definition matchID :: "ConnectionConfig \<Rightarrow> string" where
  "matchID conn = (if connRightID conn \<noteq> [] then connRightID conn else connRight conn)"

definition v2Matches :: "udp_addr \<Rightarrow> bytes \<Rightarrow> ConnectionConfig \<Rightarrow> bool" where
  "v2Matches peer peerID conn \<longleftrightarrow>
     connAuthBy conn = ''secret'' \<and> (connKeyExchange conn = [] \<or> connKeyExchange conn = ''ikev2'')
     \<and> (matchID conn = ''%any'' \<or> strBytes (matchID conn) = peerID \<or> matchID conn = ipString (addrIP peer))"

definition v1PSKFunc ::
  "(connections \<Rightarrow> string list) \<Rightarrow> Config \<Rightarrow> udp_addr \<Rightarrow> (bytes \<times> bytes) option option" where
  "v1PSKFunc ord cfg peer = pskLoop (v1Matches peer) (ord (conns cfg)) (conns cfg)"

definition v2PSKFunc ::
  "(connections \<Rightarrow> string list) \<Rightarrow> Config \<Rightarrow> udp_addr \<Rightarrow> bytes \<Rightarrow> (bytes \<times> bytes) option option" where
  "v2PSKFunc ord cfg peer peerID = pskLoop (v2Matches peer peerID) (ord (conns cfg)) (conns cfg)"

text \<open>
  The callbacks that the handlers get. A loaded configuration has no nil connection
  (\<open>psk_search_total\<close>), so the outer option is \<^const>\<open>Some\<close> there.
\<close>

definition v1Callback :: "(connections \<Rightarrow> string list) \<Rightarrow> Config \<Rightarrow> udp_addr \<Rightarrow> (bytes \<times> bytes) option" where
  "v1Callback ord cfg peer = (case v1PSKFunc ord cfg peer of None \<Rightarrow> None | Some r \<Rightarrow> r)"

definition v2Callback ::
  "(connections \<Rightarrow> string list) \<Rightarrow> Config \<Rightarrow> udp_addr \<Rightarrow> bytes \<Rightarrow> (bytes \<times> bytes) option" where
  "v2Callback ord cfg peer peerID = (case v2PSKFunc ord cfg peer peerID of None \<Rightarrow> None | Some r \<Rightarrow> r)"

section \<open>What the searches find\<close>

lemma configReady_conn:
  "configReady cfg \<Longrightarrow> map_of (conns cfg) n = Some co \<Longrightarrow> \<exists>c. co = Some c \<and> connValid c \<and> connComplete c"
  by (auto simp: configReady_def list_all_iff dest!: map_of_SomeD split: option.splits)

lemma pskLoop_total:
  assumes "\<And>n. map_of m n \<noteq> Some None"
  shows "pskLoop f ks m \<noteq> None"
proof (induction ks)
  case (Cons k ks)
  show ?case
  proof (cases "map_of m k")
    case (Some co)
    with assms [of k] Cons show ?thesis by (cases co) auto
  qed (use Cons in simp)
qed simp

lemma psk_search_total:
  assumes "configReady cfg"
  shows "v1PSKFunc ord cfg peer \<noteq> None" and "v2PSKFunc ord cfg peer pid \<noteq> None"
  using configReady_conn [OF assms] pskLoop_total unfolding v1PSKFunc_def v2PSKFunc_def
  by (metis option.distinct(1))+

lemma pskLoop_found:
  "pskLoop f ks m = Some (Some (k, name)) \<Longrightarrow>
     \<exists>n c. n \<in> set ks \<and> map_of m n = Some (Some c) \<and> f c \<and> connPSK c \<noteq> [] \<and> k = strBytes (connPSK c) \<and> name = strBytes n"
  by (induction f ks m rule: pskLoop.induct) (auto split: option.split_asm if_split_asm)

lemma pskLoop_not_found:
  "pskLoop f ks m = Some None \<Longrightarrow> n \<in> set ks \<Longrightarrow> map_of m n = Some (Some c) \<Longrightarrow> \<not> (f c \<and> connPSK c \<noteq> [])"
  by (induction f ks m rule: pskLoop.induct) (auto split: option.split_asm if_split_asm)

lemma order_keys:
  "order_ok ord \<Longrightarrow> configReady cfg \<Longrightarrow> set (ord (conns cfg)) = fst ` set (conns cfg)"
  by (simp add: order_ok_def rangeOrder_def configReady_def)

definition pskOf :: "(ConnectionConfig \<Rightarrow> bool) \<Rightarrow> connections \<Rightarrow> bytes \<Rightarrow> bytes \<Rightarrow> bool" where
  "pskOf f m k name \<longleftrightarrow>
     (\<exists>n c. map_of m n = Some (Some c) \<and> f c \<and> connPSK c \<noteq> [] \<and> k = strBytes (connPSK c) \<and> name = strBytes n)"

text \<open>
  The key search: it finds a key exactly when some connection matches the peer, whatever
  order the map is ranged in; what it finds is the key of a matching connection; and when
  only one connection matches, every order finds that one.
\<close>
theorem psk_search:
  assumes "configReady cfg" and "order_ok ord"
  shows "(v2Callback ord cfg peer pid = Some (k, name) \<longrightarrow> pskOf (v2Matches peer pid) (conns cfg) k name) \<and>
    ((\<exists>r. v2Callback ord cfg peer pid = Some r) \<longleftrightarrow> (\<exists>k name. pskOf (v2Matches peer pid) (conns cfg) k name)) \<and>
    (pskOf (v2Matches peer pid) (conns cfg) k name \<and> (\<forall>k' name'. pskOf (v2Matches peer pid) (conns cfg) k' name' \<longrightarrow> name' = name \<and> k' = k)
       \<longrightarrow> v2Callback ord cfg peer pid = Some (k, name))"
proof -
  let ?f = "v2Matches peer pid" and ?m = "conns cfg"
  obtain r where r: "pskLoop ?f (ord ?m) ?m = Some r"
    using psk_search_total(2) [OF assms(1), of ord peer pid] by (auto simp: v2PSKFunc_def)
  then have cb: "v2Callback ord cfg peer pid = r" by (simp add: v2Callback_def v2PSKFunc_def)
  have sound: "pskOf ?f ?m k name" if "r = Some (k, name)" for k name
    using pskLoop_found [of ?f "ord ?m" ?m k name] r that by (auto simp: pskOf_def)
  have none: False if p: "pskOf ?f ?m k name" "r = None" for k name
  proof -
    from p(1) obtain n c where n: "map_of ?m n = Some (Some c)" "?f c \<and> connPSK c \<noteq> []" by (auto simp: pskOf_def)
    then have "n \<in> set (ord ?m)"
      using order_keys [OF assms(2,1)] by (metis domI dom_map_of_conv_image_fst)
    with pskLoop_not_found [of ?f "ord ?m" ?m n c] r p(2) n show False by simp
  qed
  show ?thesis unfolding cb
  proof (intro conjI impI iffI)
    show "pskOf ?f ?m k name" if "r = Some (k, name)" using sound that .
    show "\<exists>k name. pskOf ?f ?m k name" if "\<exists>x. r = Some x" using sound that by (metis surj_pair)
    show "\<exists>x. r = Some x" if "\<exists>k name. pskOf ?f ?m k name" using none that by (cases r) auto
    show "r = Some (k, name)"
      if a: "pskOf ?f ?m k name \<and> (\<forall>k' name'. pskOf ?f ?m k' name' \<longrightarrow> name' = name \<and> k' = k)"
    proof (cases r)
      case None
      with none a show ?thesis by blast
    next
      case (Some x)
      obtain k' name' where "x = (k', name')" by fastforce
      with Some sound [of k' name'] a show ?thesis by auto
    qed
  qed
qed

text \<open>
  With defaults filled in, no connection serves an IKEv1 peer unless it asks for
  \<^verbatim>\<open>ikev1\<close> by name: the key that \<^verbatim>\<open>l2tp add-user\<close> hands out for the responder connection of the
  example configuration, which does not, is refused by the daemon for every peer.
\<close>
theorem default_connections_refuse_ikev1:
  assumes "\<And>n c. map_of m n = Some (Some c) \<Longrightarrow> connKeyExchange c \<noteq> ''ikev1''"
    and "conns cfg = fillAll m"
  shows "\<not> (\<exists>k name. v1Callback ord cfg peer = Some (k, name))"
proof
  assume "\<exists>k name. v1Callback ord cfg peer = Some (k, name)"
  then obtain k name where "pskLoop (v1Matches peer) (ord (conns cfg)) (conns cfg) = Some (Some (k, name))"
    by (auto simp: v1Callback_def v1PSKFunc_def split: option.split_asm)
  from pskLoop_found [OF this] obtain n c where c: "map_of (conns cfg) n = Some (Some c)" "v1Matches peer c" by blast
  then obtain c0 where "map_of m n = Some (Some c0)" "c = fillDefaults c0"
    unfolding assms(2) map_of_fillAll by auto
  with assms(1) [of n c0] c(2) show False
    by (auto simp: v1Matches_def orElse_def split: if_split_asm)
qed

section \<open>From the search to the sessions\<close>

text \<open>Without a database of EAP users, a session is established by AUTH alone.\<close>

definition auth_only :: "IKEv2Handler \<Rightarrow> IKEv2Session \<Rightarrow> bool" where
  "auth_only h s \<longleftrightarrow>
     s2State s = StateV2InitRecv \<or>
     s2State s = StateV2Established \<and> (\<exists>name. getConnPSK h (s2PeerAddr s) (PeerID s) = Some (PSK s, name))"

lemma finishAuth_keeps:
  "PSK (snd (finishAuth lib h dr s m sa ti tr cp a d)) = PSK s
   \<and> PeerID (snd (finishAuth lib h dr s m sa ti tr cp a d)) = PeerID s
   \<and> s2PeerAddr (snd (finishAuth lib h dr s m sa ti tr cp a d)) = s2PeerAddr s
   \<and> s2State (snd (finishAuth lib h dr s m sa ti tr cp a d)) \<in> {s2State s, StateV2Established}"
  by (simp add: finishAuth_def Let_def split: option.split sum.split)

lemma HandleAuth_auth_only:
  assumes "auth_only h s" and "getEAPCredentials h = None"
  shows "auth_only h (snd (HandleAuth lib h dr s msg a d))"
proof (cases "s2State s = StateV2InitRecv")
  case True
  have fin: "auth_only h (snd (finishAuth lib h dr s' m sa ti tr cp a d))"
    if "s2State s' = StateV2InitRecv" "getConnPSK h (s2PeerAddr s') (PeerID s') = Some (PSK s', name)" for s' m sa ti tr cp name
    using finishAuth_keeps [of lib h dr s' m sa ti tr cp a d] that by (auto simp: auth_only_def)
  show ?thesis
    using True assms(2)
    by (auto simp: HandleAuth_def Let_def auth_only_def [of h "s\<lparr>PeerIDType := _, PeerID := _\<rparr>"]
        auth_only_def [of h "s\<lparr>PeerIDType := _, PeerID := _, PSK := _, ConnName := _\<rparr>"] auth_only_def [of h s]
        intro!: fin split: option.split sum.split)
qed (simp add: HandleAuth_def assms)

lemma session_auth_only:
  assumes "session_reachable lib tls h s" and "getEAPCredentials h = None"
  shows "auth_only h s"
  using assms(1)
proof induction
  case (reach_init dr msg peer resp sess)
  obtain sel selProp ke ni where "saInitKeys lib h dr msg peer sel selProp ke ni = Inr (resp, Some sess)"
    using HandleSAInit_Some [OF reach_init] by blast
  from saInitKeys_Some [OF this] obtain spiR nonceR dhKeys shared pa enc integ keys where
    "saInitFinish lib msg (initSession h msg peer sel ke ni spiR nonceR dhKeys shared pa enc integ keys) selProp = Inr (resp, Some sess)"
    by blast
  from saInitFinish_Some [OF this] obtain req b c bytes where
    "sess = (initSession h msg peer sel ke ni spiR nonceR dhKeys shared pa enc integ keys)
      \<lparr>InitReqBytes := req, BehindNATRemote := b, PeerSupportsFragmentation := c, InitRespBytes := bytes\<rparr>"
    by blast
  then show ?case by (simp add: auth_only_def initSession_def)
next
  case (reach_auth sess dr msg assignIP dns)
  then have "s2State sess \<notin> {StateV2EAPInProgress, StateV2EAPDone}" by (auto simp: auth_only_def)
  then show ?case
    using HandleAuth_auth_only [OF reach_auth.IH assms(2)] by (simp add: authExchange_def)
next
  case (reach_child sess dr msg)
  then have "auth_only h (sess\<lparr>ChildSAs := cs\<rparr>)" for cs by (simp add: auth_only_def)
  with reach_child show ?case
    by (simp add: HandleCreateChildSA_def Let_def split: option.split sum.split)
qed

section \<open>Examples\<close>

definition examplePeerAddr :: udp_addr where
  "examplePeerAddr = \<lparr>addrIP = [203, 0, 113, 9], addrPort = 500\<rparr>"

lemma example_peer_text: "ipString (addrIP examplePeerAddr) = ''203.0.113.9''"
  by code_simp

lemma exampleLoaded_conns:
  "conns exampleLoaded = [(''l2tp'', Some (fillDefaults (exampleConn ''%any''))),
     (''office'', Some (fillDefaults (exampleConn ''203.0.113.9'')))]"
  by (simp add: exampleLoaded_def inlineConns_def)

lemma exampleConn_fields:
  "connAuthBy (exampleConn r) = ''secret''" "connKeyExchange (exampleConn r) = []" "connRight (exampleConn r) = r"
  "connRightID (exampleConn r) = []" "connPSK (exampleConn r) = ''key''"
  by (simp_all add: exampleConn_def zeroConnection_def ConnectionConfig.make_def)

theorem psk_search_witness:
  "\<exists>r. v2Callback (rev \<circ> map fst) exampleLoaded examplePeerAddr [] = Some r"
proof -
  have ok: "order_ok (rev \<circ> map fst)" by (auto simp: order_ok_def rangeOrder_def)
  have "pskOf (v2Matches examplePeerAddr []) (conns exampleLoaded) (strBytes ''key'') (strBytes ''office'')"
    unfolding pskOf_def exampleLoaded_conns
    by (rule exI [of _ "''office''"])
      (simp add: v2Matches_def matchID_def exampleConn_fields example_peer_text orElse_def)
  with psk_search [OF exampleLoaded_ready ok, of examplePeerAddr "[]" "[]" "[]"] show ?thesis by blast
qed

theorem default_connections_refuse_ikev1_witness:
  "\<not> (\<exists>k name. v1Callback (map fst) exampleLoaded examplePeerAddr = Some (k, name))"
proof (rule default_connections_refuse_ikev1)
  show "conns exampleLoaded = fillAll [(''l2tp'', Some (exampleConn ''%any'')), (''office'', Some (exampleConn ''203.0.113.9''))]"
    by (simp add: exampleLoaded_conns)
qed (auto simp: exampleConn_fields split: if_split_asm)

text \<open>
  When two connections match, the order of the map decides: here a peer gets the key of its
  own connection or that of the one for everybody.
\<close>

lemma psk_depends_on_order:
  fixes c1 c2 :: ConnectionConfig
  defines "c1 \<equiv> (exampleConn ''%any'')\<lparr>connPSK := ''guest''\<rparr>" and "c2 \<equiv> exampleConn ''203.0.113.9''"
  shows "pskLoop (v2Matches examplePeerAddr []) [''any'', ''office''] [(''any'', Some c1), (''office'', Some c2)] =
      Some (Some (strBytes ''guest'', strBytes ''any''))"
    and "pskLoop (v2Matches examplePeerAddr []) [''office'', ''any''] [(''any'', Some c1), (''office'', Some c2)] =
      Some (Some (strBytes ''key'', strBytes ''office''))"
  by (simp_all add: c1_def c2_def v2Matches_def matchID_def exampleConn_fields example_peer_text)

end
