(* ===== verification/DaemonStart.thy ===== *)
theory DaemonStart
  imports DaemonPeers Listener TunDevice L2tpServer
begin

text \<open>
  How the daemon is put together (\<^verbatim>\<open>cmd/swan-ng/daemon.go\<close>): the TUN device, the ESP engine, the
  IKE server and its handlers, the L2TP server and the three listeners. The engine is shared by
  pointer in the code; here the session manager of the IKE server holds it, and what the code
  does to it before the listeners start is done before it is handed over.
\<close>

section \<open>The environment of a start\<close>

text \<open>
  What the operating system, the files and the random source answer. \<open>dbHeap\<close> is the store that
  the security associations are created in; none exists at the start. \<open>dbOrder\<close> is the order in
  which the map of connections is ranged over, the same for all calls of one daemon.
\<close>

record daemon_boot =
  dbOS :: goos
  dbDevNode :: bool
  dbEuid :: nat
  dbCreate :: "string \<Rightarrow> int \<Rightarrow> bool"
  dbNameOf :: "string option"
  dbBind :: "ip \<Rightarrow> nat \<Rightarrow> (nat \<times> nat) option"
  dbSecret :: "bytes option"
  dbHeap :: sa_store
  dbProfiles :: profile_lib
  dbFiles :: fsys
  dbOrder :: "connections \<Rightarrow> string list"

datatype port_handler = NattHandler | IkeHandler | L2tpHandler

record daemon =
  dmIke :: ike_server
  dmL2tp :: "Server option"
  dmTun :: "Device option"
  dmListeners :: "port_handler Manager"

section \<open>The L2TP server\<close>

definition dnsServer :: "string list \<Rightarrow> nat \<Rightarrow> string \<Rightarrow> ip" where
  "dnsServer servers i dflt =
     (if i < length servers \<and> ParseIP (servers ! i) \<noteq> [] then ParseIP (servers ! i) else ParseIP dflt)"

definition l2tpUsers :: "daemon_boot \<Rightarrow> Config \<Rightarrow> string \<Rightarrow> ProfileUserDB" where
  "l2tpUsers boot cfg resolvedConfigPath =
     (if l2Profile (cfgL2TP cfg) = [] then NewProfileUserDB
      else LoadProfiles
        (readProfiles (dbProfiles boot) (dbFiles boot)
          (resolveProfilePaths (pathDir resolvedConfigPath) (l2Profile (cfgL2TP cfg)))) NewProfileUserDB)"

text \<open>The configuration of the server has no response sender: the code sets none.\<close>

definition initL2TPServer ::
  "daemon_boot \<Rightarrow> Config \<Rightarrow> string \<Rightarrow> bool \<Rightarrow> engine \<Rightarrow> ipam_error + Server \<times> engine" where
  "initL2TPServer boot cfg resolvedConfigPath haveTun e =
     (case NewPool (l2Range (l2IPAM (cfgL2TP cfg))) of
        Inl err \<Rightarrow> Inl err
      | Inr l2tpPool \<Rightarrow>
          (let dns = l2DNS (l2IPAM (cfgL2TP cfg));
               srvCfg =
                 \<lparr>cfgHostname = strBytes (Hostname (cfgServer cfg)),
                  cfgGatewayIP = ParseIP (l2Gateway (l2IPAM (cfgL2TP cfg))),
                  cfgDNS1 = dnsServer dns 0 ''1.1.1.1'', cfgDNS2 = dnsServer dns 1 ''1.0.0.1'',
                  cfgPool = Some l2tpPool, cfgUserDB = l2tpUsers boot cfg resolvedConfigPath,
                  cfgSender = False, cfgTUNWriter = haveTun\<rparr>
           in Inr (NewServer srvCfg, SetL2TPHandler e True)))"

section \<open>The start\<close>

definition openTun :: "daemon_boot \<Rightarrow> Config \<Rightarrow> Device option" where
  "openTun boot cfg =
     (let tunName = (if DeviceName (cfgTUN cfg) = [] then DefaultDeviceName else DeviceName (cfgTUN cfg));
          tunMTU = (if TunMTU (cfgTUN cfg) \<le> 0 then DefaultMTU else TunMTU (cfgTUN cfg))
      in case TunAvailable (dbOS boot) (dbDevNode boot) (dbEuid boot) of
           Some reason \<Rightarrow> None
         | None \<Rightarrow>
             (case NewDevice (dbCreate boot) (dbNameOf boot) tunName tunMTU of
                Inl _ \<Rightarrow> None
              | Inr d \<Rightarrow> Some d))"

text \<open>A port that cannot be bound is only logged.\<close>

definition bindListeners :: "daemon_boot \<Rightarrow> Config \<Rightarrow> port_handler Manager" where
  "bindListeners boot cfg =
     (let listenAddr = (if Listen (cfgServer cfg) = [] then ''0.0.0.0'' else Listen (cfgServer cfg));
          m1 = snd (AddUDP (dbBind boot) listenAddr PortNATT ''NAT-T/ESP'' NattHandler NewManager);
          m2 = snd (AddUDP (dbBind boot) listenAddr PortIKE ''IKE'' IkeHandler m1)
      in snd (AddUDP (dbBind boot) listenAddr PortL2TP ''L2TP'' L2tpHandler m2))"

definition daemonV1 :: "daemon_boot \<Rightarrow> Config \<Rightarrow> IKEv1Handler" where
  "daemonV1 boot cfg = NewIKEv1Handler (v1Callback (dbOrder boot) cfg) None (strBytes ''swan-ng'') IDIPv4Addr"

definition daemonV2 :: "daemon_boot \<Rightarrow> Config \<Rightarrow> IKEv2Handler" where
  "daemonV2 boot cfg =
     NewIKEv2Handler (dbSecret boot) (v2Callback (dbOrder boot) cfg) None (strBytes ''swan-ng'') IDIPv4Addr CookieModeAuto"

text \<open>\<^const>\<open>None\<close> is the error of a failing engine, with which the command ends.\<close>

definition startDaemon :: "daemon_boot \<Rightarrow> Config \<Rightarrow> string \<Rightarrow> daemon option" where
  "startDaemon boot cfg resolvedConfigPath =
     (let tunDev = openTun boot cfg; haveTun = (tunDev \<noteq> None) in
      case NewEngine (dbHeap boot) (Some NewSADatabase) True None 0 haveTun haveTun True of
        None \<Rightarrow> None
      | Some e0 \<Rightarrow>
          (let (l2tp, e1) =
             (if l2Enabled (cfgL2TP cfg) then
                (case initL2TPServer boot cfg resolvedConfigPath haveTun e0 of
                   Inl _ \<Rightarrow> (None, e0)
                 | Inr (srv, e1) \<Rightarrow> (Some srv, e1))
              else (None, e0))
           in Some \<lparr>dmIke = NewIkeServer (NewSessionManager (Some (StartEngine e1)))
                             (daemonV1 boot cfg) (daemonV2 boot cfg) True,
                    dmL2tp = l2tp, dmTun = tunDev,
                    dmListeners = snd (StartManager (bindListeners boot cfg))\<rparr>))"

text \<open>The end: the L2TP server closes its tunnels, and the device and the sockets are closed.\<close>

definition stopDaemon :: "nat \<Rightarrow> bool \<Rightarrow> daemon \<Rightarrow> daemon \<times> l2tp_effect list \<times> nat list" where
  "stopDaemon now driverOk d =
     (let (l2tp, effs) =
        (case dmL2tp d of
           None \<Rightarrow> (None, [])
         | Some srv \<Rightarrow> (case CloseServer now srv of (srv', effs) \<Rightarrow> (Some srv', effs)))
      in (d\<lparr>dmL2tp := l2tp, dmTun := map_option (\<lambda>t. snd (snd (watchContext driverOk t))) (dmTun d)\<rparr>,
          effs, closeListeners (dmListeners d)))"

section \<open>What a start gives\<close>

text \<open>The engine of a daemon: nothing is registered, and nothing selected for outbound packets.\<close>

definition bareEngine :: "engine \<Rightarrow> bool" where
  "bareEngine e \<longleftrightarrow> bySPI (saDB e) = Map.empty \<and> spd e = Map.empty \<and> defaultOutSA e = None"

lemma startDaemon_eq:
  "\<exists>e. bareEngine e \<and>
     startDaemon boot cfg path = Some
       \<lparr>dmIke = NewIkeServer (NewSessionManager (Some e)) (daemonV1 boot cfg) (daemonV2 boot cfg) True,
        dmL2tp = (if l2Enabled (cfgL2TP cfg) then
           (case initL2TPServer boot cfg path (openTun boot cfg \<noteq> None) e of Inl _ \<Rightarrow> None | Inr r \<Rightarrow> Some (fst r)) else None),
        dmTun = openTun boot cfg, dmListeners = snd (StartManager (bindListeners boot cfg))\<rparr>"
proof -
  let ?tun = "openTun boot cfg \<noteq> None"
  obtain e0 where e0: "NewEngine (dbHeap boot) (Some NewSADatabase) True None 0 ?tun ?tun True = Some e0" "bareEngine e0"
    by (simp add: NewEngine_def bareEngine_def NewSADatabase_def)
  define e where "e = StartEngine (if l2Enabled (cfgL2TP cfg) \<and> (\<exists>p. NewPool (l2Range (l2IPAM (cfgL2TP cfg))) = Inr p)
    then SetL2TPHandler e0 True else e0)"
  have "bareEngine e"
    using e0(2) by (simp add: e_def bareEngine_def StartEngine_def SetL2TPHandler_def)
  then show ?thesis
    unfolding startDaemon_def initL2TPServer_def Let_def e0(1) option.case
    by (intro exI [of _ e] conjI) (auto simp: e_def split: sum.split)
qed

lemma startDaemon_l2tp:
  assumes "startDaemon boot cfg path = Some d" and "l2Enabled (cfgL2TP cfg)"
    and "NewPool (l2Range (l2IPAM (cfgL2TP cfg))) = Inr pool"
  obtains srv where "dmL2tp d = Some srv" and "srvPool srv = Some pool" and "srvUserDB srv = l2tpUsers boot cfg path"
    and "nextTunnelID srv = 1" and "\<not> hasRespSender srv"
proof -
  from startDaemon_eq [of boot cfg path] assms obtain e where
    "dmL2tp d = (case initL2TPServer boot cfg path (openTun boot cfg \<noteq> None) e of Inl _ \<Rightarrow> None | Inr r \<Rightarrow> Some (fst r))"
    by auto
  with assms(3) have "\<exists>srv. dmL2tp d = Some srv \<and> srvPool srv = Some pool \<and> srvUserDB srv = l2tpUsers boot cfg path
      \<and> nextTunnelID srv = 1 \<and> \<not> hasRespSender srv"
    by (auto simp: initL2TPServer_def Let_def NewServer_def)
  with that show thesis by blast
qed

text \<open>
  C21. From the command line to the login: a user that \<^verbatim>\<open>l2tp add-user\<close> created, whose profile the
  loaded configuration lists, is known to the L2TP server of the started daemon under exactly
  the password that was typed, if no profile listed after it names the same user.
\<close>
theorem added_user_is_served:
  assumes "l2tpAddUser (dbProfiles boot) ord fs cfg0 path flag a1 a2 u = Some (Inr (name, yamlPath, txtPath), dbFiles boot)"
    and "profile_lib_ok (dbProfiles boot)" and "IsAbs path" and "u \<noteq> []" and "slash \<notin> set u"
    and "configReady cfg" and "l2Enabled (cfgL2TP cfg)" and "l2Profile (cfgL2TP cfg) = ps @ yamlPath # qs"
    and "\<forall>p. Some p \<in> set (readProfiles (dbProfiles boot) (dbFiles boot) qs) \<longrightarrow> profUsername p \<noteq> strBytes u"
    and "NewPool (l2Range (l2IPAM (cfgL2TP cfg))) = Inr pool" and "startDaemon boot cfg cfgPath = Some d"
  shows "\<exists>srv pw. dmL2tp d = Some srv \<and> a1 = Some pw \<and> a2 = Some pw \<and> pw \<noteq> []
    \<and> LookupUser (srvUserDB srv) (strBytes u) = Some (strBytes pw)"
proof -
  let ?P = "dbProfiles boot" and ?fs = "dbFiles boot"
  define db where "db = LoadProfiles (readProfiles ?P ?fs ps) NewProfileUserDB"
  obtain pw where pw: "a1 = Some pw" "a2 = Some pw" "pw \<noteq> []"
    "LookupUser (LoadProfiles (readProfiles ?P ?fs [yamlPath]) db) (strBytes u) = Some (strBytes pw)"
    using l2tp_user_can_log_in [OF assms(1-5), of db] by blast
  have "list_all IsAbs (l2Profile (cfgL2TP cfg))" using assms(6) by (simp add: configReady_def)
  then have "l2tpUsers boot cfg cfgPath = LoadProfiles (readProfiles ?P ?fs (ps @ [yamlPath] @ qs)) NewProfileUserDB"
    using assms(8) by (simp add: l2tpUsers_def resolveProfilePaths_absolute)
  also have "\<dots> = LoadProfiles (readProfiles ?P ?fs qs) (LoadProfiles (readProfiles ?P ?fs [yamlPath]) db)"
    unfolding db_def by (simp only: readProfiles_def map_append LoadProfiles_append)
  finally have "LookupUser (l2tpUsers boot cfg cfgPath) (strBytes u) = Some (strBytes pw)"
    using LoadProfiles_preserves [OF pw(4) assms(9)] by simp
  with pw startDaemon_l2tp [OF assms(11,7,10)] show ?thesis by metis
qed

section \<open>Examples\<close>

definition exampleDaemonConfig :: Config where
  "exampleDaemonConfig = exampleLoaded\<lparr>cfgL2TP := (cfgL2TP exampleLoaded)
     \<lparr>l2Enabled := True, l2Profile := [''/etc/profile.d/l2tp-al.yaml'']\<rparr>\<rparr>"

lemma exampleDaemonConfig_ready: "configReady exampleDaemonConfig"
  using exampleLoaded_ready by (simp add: configReady_def exampleDaemonConfig_def IsAbs_def)

lemma default_l2tp_pool:
  "\<exists>p. NewPool ''192.168.42.2 - 192.168.42.254'' = Inr p \<and> StartIP p = [192, 168, 42, 2] \<and> PoolSize p = 253 \<and> Available p = 253"
proof -
  have t: "showIPv4 192 168 42 2 @ '' - '' @ showIPv4 192 168 42 254 = ''192.168.42.2 - 192.168.42.254''" by code_simp
  show ?thesis
    using NewPool_from_text [of "0xC0A82A02" 192 168 42 2 "0xC0A82AFE" 192 168 42 254] unfolding t
    by (auto simp: Uint32_def)
qed

lemma exampleDaemonConfig_l2tp:
  "l2Enabled (cfgL2TP exampleDaemonConfig)" "l2Range (l2IPAM (cfgL2TP exampleDaemonConfig)) = ''192.168.42.2 - 192.168.42.254''"
  "l2Profile (cfgL2TP exampleDaemonConfig) = [''/etc/profile.d/l2tp-al.yaml'']"
  "conns exampleDaemonConfig = conns exampleLoaded"
  by (simp_all add: exampleDaemonConfig_def exampleLoaded_def resolveProfiles_def withDefaults_def exampleRaw_def
      l2tpDefaults_def orElse_def setConns_def)

definition exampleBoot :: "fsys \<Rightarrow> daemon_boot" where
  "exampleBoot fs =
     \<lparr>dbOS = Linux, dbDevNode = True, dbEuid = 0, dbCreate = (\<lambda>_ _. True), dbNameOf = Some ''swan0'',
      dbBind = (\<lambda>_ port. Some (port, port)), dbSecret = Some (replicate 32 1), dbHeap = (\<lambda>_. example_sa),
      dbProfiles = exampleProfileLib, dbFiles = fs, dbOrder = map fst\<rparr>"

theorem added_user_is_served_witness:
  "\<exists>fs d srv. startDaemon (exampleBoot fs) exampleDaemonConfig ''/etc/config.yaml'' = Some d \<and> dmL2tp d = Some srv
     \<and> LookupUser (srvUserDB srv) (strBytes ''al'') = Some (strBytes ''pw'')"
proof -
  obtain fs' where fs': "l2tpAddUser exampleProfileLib (map fst) emptyHost exampleConfig ''/etc/config.yaml'' ''''
      (Some ''pw'') (Some ''pw'') ''al''
    = Some (Inr (''l2tp'', ''/etc/profile.d/l2tp-al.yaml'', ''/etc/profile.d/l2tp-al.txt''), fs')"
    using example_add_user by blast
  obtain p where p: "NewPool (l2Range (l2IPAM (cfgL2TP exampleDaemonConfig))) = Inr p"
    using default_l2tp_pool exampleDaemonConfig_l2tp(2) by auto
  obtain d where d: "startDaemon (exampleBoot fs') exampleDaemonConfig ''/etc/config.yaml'' = Some d"
    using startDaemon_eq [of "exampleBoot fs'" exampleDaemonConfig "''/etc/config.yaml''"] by blast
  have b: "dbProfiles (exampleBoot fs') = exampleProfileLib" "dbFiles (exampleBoot fs') = fs'"
    by (simp_all add: exampleBoot_def)
  show ?thesis
    using added_user_is_served [of "exampleBoot fs'" "map fst" emptyHost exampleConfig "''/etc/config.yaml''" "''''"
        "Some ''pw''" "Some ''pw''" "''al''" "''l2tp''" "''/etc/profile.d/l2tp-al.yaml''" "''/etc/profile.d/l2tp-al.txt''"
        exampleDaemonConfig "[]" "[]", OF _ _ _ _ _ exampleDaemonConfig_ready exampleDaemonConfig_l2tp(1) _ _ p d]
      fs' d by (auto simp: b exampleProfileLib_ok IsAbs_def exampleDaemonConfig_l2tp(3) readProfiles_def)
qed

end
