(* ===== verification/Daemon.thy ===== *)
theory Daemon
  imports DaemonStart
begin

text \<open>
  The running daemon (\<^verbatim>\<open>cmd/swan-ng/daemon.go\<close>): what the handler of each port does with a
  datagram, the packets of the TUN device and the timers of the L2TP tunnels, as steps of one
  state. A step is \<^const>\<open>None\<close> where the program panics; a panic in any of its goroutines ends
  the whole process, since nothing recovers. The effects of a step are the datagrams that leave a
  socket and the packets handed to the TUN device.
\<close>

section \<open>Handlers\<close>

record daemon_env =
  deLib :: ike_lib
  deTls :: tls_lib
  deMd5 :: "bytes \<Rightarrow> bytes"
  deHmac :: hmac_fun
  deWrite :: "nat \<Rightarrow> bytes \<Rightarrow> udp_addr \<Rightarrow> bool"

text \<open>The clock and the random draws of one step.\<close>

record daemon_draws =
  ddV2 :: v2_draws
  ddV1 :: v1_draws
  ddPPP :: ppp_rnd
  ddIV :: "bytes option"
  ddNow :: nat

text \<open>
  \<open>ToSender\<close> is a datagram handed to the response sender of the L2TP server, of which the
  daemon has none.
\<close>

datatype daemon_effect = Sent nat bytes udp_addr | TunOut bytes | ToSender bytes udp_addr

definition udpOut :: "daemon_env \<Rightarrow> daemon \<Rightarrow> nat \<Rightarrow> bytes \<Rightarrow> udp_addr \<Rightarrow> daemon_effect list" where
  "udpOut env d port data addr =
     (case SendUDP (deWrite env) port data addr (dmListeners d) of
        Inl _ \<Rightarrow> []
      | Inr sock \<Rightarrow> [Sent sock data addr])"

definition ikeReceive ::
  "daemon_env \<Rightarrow> daemon_draws \<Rightarrow> bytes \<Rightarrow> nat \<Rightarrow> udp_addr \<Rightarrow> bool \<Rightarrow> daemon \<Rightarrow> (daemon \<times> daemon_effect list) option" where
  "ikeReceive env dr buf n addr isNATT d =
     (case HandleIkePacket (deLib env) (deTls env) (ddV2 dr) (ddV1 dr) (dmIke d) buf n addr isNATT of
        None \<Rightarrow> None
      | Some (s, effs) \<Rightarrow>
          Some (d\<lparr>dmIke := s\<rparr>, concat (map (\<lambda>eff. case eff of SendTo port data a \<Rightarrow> udpOut env d port data a) effs)))"

definition l2tpOut :: "l2tp_effect \<Rightarrow> daemon_effect" where
  "l2tpOut eff = (case eff of SendL2TP data a \<Rightarrow> ToSender data a | WriteTUN pkt \<Rightarrow> TunOut pkt)"

definition l2tpReceive ::
  "daemon_env \<Rightarrow> daemon_draws \<Rightarrow> bytes \<Rightarrow> udp_addr \<Rightarrow> daemon \<Rightarrow> (daemon \<times> daemon_effect list) option" where
  "l2tpReceive env dr data addr d =
     (case dmL2tp d of
        None \<Rightarrow> Some (d, [])
      | Some srv \<Rightarrow>
          (case HandlePacket (deMd5 env) (ddNow dr) (ddPPP dr) data addr srv of
             None \<Rightarrow> None
           | Some (srv', effs) \<Rightarrow> Some (d\<lparr>dmL2tp := Some srv'\<rparr>, map l2tpOut effs)))"

text \<open>
  The L2TP server as the handler of the engine: the call runs on the daemon's state and adds what
  leaves it; the engine is a field of that state which the call does not touch.
\<close>

definition l2tpCallback :: "daemon_env \<Rightarrow> daemon_draws \<Rightarrow> (daemon \<times> daemon_effect list) l2tp_handler" where
  "l2tpCallback env dr data addr w =
     (case l2tpReceive env dr data addr (fst w) of
        None \<Rightarrow> None
      | Some (d', outs) \<Rightarrow> Some (d', snd w @ outs))"

text \<open>What an effect of the engine sends; the call that \<open>ToL2TP\<close> records has been made.\<close>

definition engineOut :: "daemon_env \<Rightarrow> daemon \<Rightarrow> effect \<Rightarrow> daemon_effect list" where
  "engineOut env d eff =
     (case eff of
        TunWrite pkt \<Rightarrow> [TunOut pkt]
      | ToL2TP data addr \<Rightarrow> []
      | UdpSend port data peer \<Rightarrow> udpOut env d port data peer)"

definition setEngine :: "engine \<Rightarrow> daemon \<Rightarrow> daemon" where
  "setEngine e d = d\<lparr>dmIke := (dmIke d)\<lparr>sessionMgr := (sessionMgr (dmIke d))\<lparr>espEngine := Some e\<rparr>\<rparr>\<rparr>"

definition espReceive ::
  "daemon_env \<Rightarrow> daemon_draws \<Rightarrow> bytes \<Rightarrow> nat \<Rightarrow> udp_addr \<Rightarrow> daemon \<Rightarrow> (daemon \<times> daemon_effect list) option" where
  "espReceive env dr buf n remoteAddr d =
     (case espEngine (sessionMgr (dmIke d)) of
        None \<Rightarrow> None
      | Some e \<Rightarrow>
          (case HandleInboundESP (deHmac env) (l2tpCallback env dr) e buf n remoteAddr (d, []) of
             None \<Rightarrow> None
           | Some (effs, e', d', outs) \<Rightarrow> Some (setEngine e' d', outs @ concat (map (engineOut env d') effs))))"

definition espSend ::
  "daemon_env \<Rightarrow> daemon_draws \<Rightarrow> bytes \<Rightarrow> daemon \<Rightarrow> (daemon \<times> daemon_effect list) option" where
  "espSend env dr packet d =
     (case espEngine (sessionMgr (dmIke d)) of
        None \<Rightarrow> None
      | Some e \<Rightarrow>
          (case outboundStep (deHmac env) (ddIV dr) e packet of
             None \<Rightarrow> None
           | Some (effs, e') \<Rightarrow> Some (setEngine e' d, concat (map (engineOut env d) effs))))"

definition handlePort ::
  "daemon_env \<Rightarrow> daemon_draws \<Rightarrow> port_handler \<Rightarrow> bytes \<Rightarrow> nat \<Rightarrow> udp_addr \<Rightarrow> daemon \<Rightarrow> (daemon \<times> daemon_effect list) option" where
  "handlePort env dr h buf n remoteAddr d =
     (case h of
        NattHandler \<Rightarrow>
          (case ClassifyNATT (take n buf) of
             Inl _ \<Rightarrow> Some (d, [])
           | Inr (pktType, payload) \<Rightarrow>
               if pktType = PacketTypeIKE then ikeReceive env dr payload (length payload) remoteAddr True d
               else espReceive env dr buf n remoteAddr d)
      | IkeHandler \<Rightarrow> ikeReceive env dr buf n remoteAddr False d
      | L2tpHandler \<Rightarrow> l2tpReceive env dr (take n buf) remoteAddr d)"

section \<open>Steps\<close>

text \<open>
  \<open>Recv\<close> is a buffer and a count that a receive loop hands to its handler, if there is a
  listener with that handler; \<open>TunPacket\<close> a packet that the outbound loop reads, if there is a
  device; \<open>Timer\<close> the timers of one tunnel.
\<close>

datatype daemon_event = Recv port_handler bytes nat udp_addr | TunPacket bytes | Timer nat

definition daemonStep ::
  "daemon_env \<Rightarrow> daemon_draws \<Rightarrow> daemon_event \<Rightarrow> daemon \<Rightarrow> (daemon \<times> daemon_effect list) option" where
  "daemonStep env dr ev d =
     (case ev of
        Recv h buf n addr \<Rightarrow>
          if h \<in> lsHandler ` set (mgrListeners (dmListeners d)) then handlePort env dr h buf n addr d else Some (d, [])
      | TunPacket packet \<Rightarrow>
          if dmTun d = None then Some (d, [])
          else espSend env dr packet d
      | Timer r \<Rightarrow>
          (case dmL2tp d of
             None \<Rightarrow> Some (d, [])
           | Some srv \<Rightarrow>
               (case tunnelTick (ddNow dr) r srv of
                  None \<Rightarrow> None
                | Some (srv', effs) \<Rightarrow> Some (d\<lparr>dmL2tp := Some srv'\<rparr>, map l2tpOut effs))))"

inductive daemon_reachable :: "daemon_env \<Rightarrow> daemon_boot \<Rightarrow> Config \<Rightarrow> string \<Rightarrow> daemon \<Rightarrow> bool"
  for env boot cfg path where
  dr_start: "startDaemon boot cfg path = Some d \<Longrightarrow> daemon_reachable env boot cfg path d"
| dr_step: "daemon_reachable env boot cfg path d \<Longrightarrow> daemonStep env dr ev d = Some (d', effs) \<Longrightarrow>
    daemon_reachable env boot cfg path d'"

primrec daemonRun ::
  "daemon_env \<Rightarrow> (daemon_draws \<times> daemon_event) list \<Rightarrow> daemon \<Rightarrow> (daemon \<times> daemon_effect list) option" where
  "daemonRun env [] d = Some (d, [])"
| "daemonRun env (ev # evs) d =
     (case daemonStep env (fst ev) (snd ev) d of
        None \<Rightarrow> None
      | Some (d1, effs1) \<Rightarrow>
          (case daemonRun env evs d1 of
             None \<Rightarrow> None
           | Some (d2, effs2) \<Rightarrow> Some (d2, effs1 @ effs2)))"

section \<open>An L2TP server without a sender\<close>

lemma mute_ops [simp]:
  "hasRespSender (setTunnel r t srv) = hasRespSender srv"
  "hasRespSender (releaseIP ip srv) = hasRespSender srv"
  "hasRespSender (removeTunnel r srv) = hasRespSender srv"
  by (auto simp: setTunnel_def releaseIP_def removeTunnel_def split: option.splits sum.splits)

lemma mute_fold [simp]: "hasRespSender (fold releaseIP ips srv) = hasRespSender srv"
  by (induction ips arbitrary: srv) simp_all

lemma mute_allocate: "allocateIP srv = Some (ip, srv') \<Longrightarrow> hasRespSender srv' = hasRespSender srv"
  by (auto simp: allocateIP_def split: option.splits sum.splits)

lemma mute_sendTo [simp]: "\<not> hasRespSender srv \<Longrightarrow> sendTo srv a ms = []"
  by (simp add: sendTo_def)

lemma mute_newTunnel:
  "\<not> hasRespSender srv \<Longrightarrow> \<not> hasRespSender (fst (handleNewTunnel now hdr pl addr srv)) \<and> snd (handleNewTunnel now hdr pl addr srv) = []"
  by (simp add: handleNewTunnel_def Let_def split: sum.split prod.split option.split)

lemma mute_ICCN:
  "\<not> hasRespSender srv \<Longrightarrow> \<not> hasRespSender (fst (routeICCN now rnd r hdr srv)) \<and> snd (routeICCN now rnd r hdr srv) = []"
  by (auto simp: routeICCN_def Let_def split: sum.split prod.split option.split dest!: mute_allocate)

lemma mute_route:
  "\<not> hasRespSender srv \<Longrightarrow>
     \<not> hasRespSender (fst (routeControlMessage now rnd r hdr ty avps srv)) \<and> snd (routeControlMessage now rnd r hdr ty avps srv) = []"
  using mute_ICCN [of srv now rnd r hdr]
  by (simp add: routeControlMessage_def Let_def split: sum.split prod.split)

lemma mute_control:
  "\<not> hasRespSender srv \<Longrightarrow>
     \<not> hasRespSender (fst (handleControlMessage now rnd hdr pl addr srv)) \<and> snd (handleControlMessage now rnd hdr pl addr srv) = []"
  using mute_newTunnel [of srv now hdr pl addr] mute_route
  by (auto simp: handleControlMessage_def Let_def split: sum.split prod.split option.split)

lemma concat_sendTo:
  "\<not> hasRespSender srv \<Longrightarrow>
     concat (map (\<lambda>resp. case f resp of None \<Rightarrow> [] | Some pkt \<Rightarrow> sendTo srv a [pkt]) resps) = []"
  by (auto split: option.split)

lemma mute_data:
  assumes "handleDataMessage md5 now rnd hdr pl srv = Some (srv', effs)" and "\<not> hasRespSender srv"
  shows "\<not> hasRespSender srv' \<and> set effs \<subseteq> range WriteTUN"
  using assms
  by (auto simp: handleDataMessage_def Let_def concat_sendTo split: option.split_asm prod.split_asm)

lemma HandlePacket_mute:
  assumes "HandlePacket md5 now rnd data addr srv = Some (srv', effs)" and "\<not> hasRespSender srv"
  shows "\<not> hasRespSender srv' \<and> set effs \<subseteq> range WriteTUN"
proof (cases "ParseL2TPHeader data")
  case (Inr x)
  obtain hdr pl where x: "x = (hdr, pl)" by fastforce
  show ?thesis
  proof (cases "IsControl hdr")
    case True
    with assms Inr x mute_control [OF assms(2), of now rnd hdr pl addr] show ?thesis by (simp add: HandlePacket_def)
  next
    case False
    with assms Inr x mute_data show ?thesis by (simp add: HandlePacket_def)
  qed
qed (use assms in \<open>simp add: HandlePacket_def\<close>)

lemma tunnelTick_mute:
  "tunnelTick now r srv = Some (srv', effs) \<Longrightarrow> \<not> hasRespSender srv \<Longrightarrow> \<not> hasRespSender srv' \<and> effs = []"
  by (auto simp: tunnelTick_def split: option.split_asm prod.split_asm)

section \<open>An engine without security associations\<close>

lemma bare_inbound: "bareEngine e \<Longrightarrow> HandleInboundESP hmac h e buf n addr w = Some ([], e, w)"
  by (simp add: HandleInboundESP_def bareEngine_def LookupBySPI_def split: sum.split prod.split)

lemma bare_outbound: "bareEngine e \<Longrightarrow> outboundStep hmac iv e packet = Some ([], e)"
  by (simp add: outboundStep_def selectOutSA_def bareEngine_def Let_def)

lemma esp_bare:
  assumes "espEngine (sessionMgr (dmIke d)) = Some e" and "bareEngine e"
  shows "espReceive env dr buf n addr d = Some (d, [])" and "espSend env dr packet d = Some (d, [])"
  using assms by (simp_all add: espReceive_def espSend_def bare_inbound bare_outbound setEngine_def)

text \<open>With security associations installed, a panic of the L2TP server reaches the daemon through ESP.\<close>

lemma espReceive_panics_iff:
  assumes "espEngine (sessionMgr (dmIke d)) = Some e" and "engine_ok e" and "n \<le> length buf"
  shows "espReceive env dr buf n addr d = None \<longleftrightarrow>
    (\<exists>p srv. l2tpPayloadOf (deHmac env) e (take n buf) = Some p \<and> dmL2tp d = Some srv \<and>
       HandlePacket (deMd5 env) (ddNow dr) (ddPPP dr) p addr srv = None)"
proof -
  have "espReceive env dr buf n addr d = None \<longleftrightarrow>
      HandleInboundESP (deHmac env) (l2tpCallback env dr) e buf n addr (d, []) = None"
    using assms(1) by (simp add: espReceive_def split: option.split prod.split)
  moreover have "l2tpCallback env dr p addr (d, []) = None \<longleftrightarrow>
      (\<exists>srv. dmL2tp d = Some srv \<and> HandlePacket (deMd5 env) (ddNow dr) (ddPPP dr) p addr srv = None)" for p
    by (simp add: l2tpCallback_def l2tpReceive_def split: option.split)
  ultimately show ?thesis
    using HandleInboundESP_l2tp(1) [OF assms(3) engine_ok_ready [OF assms(2)], of "deHmac env" "l2tpCallback env dr" addr "(d, [])"]
    by simp
qed

section \<open>What the IKE server sends\<close>

lemma answer_sends:
  "answer s panics r peer natt = Some (s', effs) \<Longrightarrow> \<exists>msg. effs = [] \<or> effs = sendResponse s msg peer natt"
  by (auto simp: answer_def split: sum.split_asm if_split_asm)

lemma HandleIkePacket_sends:
  assumes "HandleIkePacket lib tls dr dr1 s buf n peer natt = Some (s', effs)"
  shows "\<exists>s1 msg. effs = [] \<or> effs = sendResponse s1 msg peer natt"
proof -
  have v2: ?thesis if "handleIKEv2 lib tls dr s pd peer natt = Some (s', effs)" for pd
    using that
    by (auto simp: handleIKEv2_def saInitV2_def Let_def split: sum.split_asm if_split_asm option.split_asm prod.split_asm
        dest!: answer_sends)
  have v1: ?thesis if "handleIKEv1 lib dr1 s pd hdr peer natt = Some (s', effs)" for pd hdr
    using that
    by (auto simp: handleIKEv1_def mainMode1_def Let_def split: sum.split_asm if_split_asm option.split_asm prod.split_asm
        dest!: answer_sends)
  show ?thesis
    using assms v1 v2 by (auto simp: HandleIkePacket_def Let_def split: sum.split_asm if_split_asm)
qed

lemma udpOut_Sent: "eff \<in> set (udpOut env d port data addr) \<Longrightarrow> \<exists>sock. eff = Sent sock data addr \<and> GetConn port (dmListeners d) = Some sock"
  by (auto simp: udpOut_def SendUDP_GetConn split: sum.split_asm option.split_asm if_split_asm)

section \<open>The invariant of the daemon\<close>

definition daemon_inv :: "daemon_env \<Rightarrow> daemon_boot \<Rightarrow> Config \<Rightarrow> daemon \<Rightarrow> bool" where
  "daemon_inv env boot cfg d \<longleftrightarrow>
     (\<exists>e. bareEngine e \<and> espEngine (sessionMgr (dmIke d)) = Some e \<and>
        server_reachable (deLib env) (deTls env) (Some e) (daemonV1 boot cfg) (daemonV2 boot cfg) (dmIke d)) \<and>
     (\<forall>srv. dmL2tp d = Some srv \<longrightarrow> \<not> hasRespSender srv) \<and>
     dmListeners d = snd (StartManager (bindListeners boot cfg))"

lemma server_engine: "server_reachable lib tls e h1 h2 s \<Longrightarrow> espEngine (sessionMgr s) = e"
  using server_reachable_inv [of lib tls e h1 h2 s] by (simp add: server_inv_def)

lemma startDaemon_inv: "startDaemon boot cfg path = Some d \<Longrightarrow> daemon_inv env boot cfg d"
  using startDaemon_eq [of boot cfg path]
  by (auto simp: daemon_inv_def sr_new initL2TPServer_def NewServer_def NewIkeServer_def NewSessionManager_def Let_def
      intro!: exI sr_new [unfolded NewIkeServer_def NewSessionManager_def] split: sum.split_asm if_split_asm)

text \<open>An IKE datagram, an L2TP datagram, or nothing: that is all a step can be.\<close>

lemma daemonStep_cases:
  assumes "daemon_inv env boot cfg d" and "daemonStep env dr ev d = Some (d', effs)"
  shows "(d' = d \<and> effs = []) \<or>
    (\<exists>h buf n addr pkt m. ev = Recv h buf n addr \<and> (h = NattHandler \<or> h = IkeHandler)
       \<and> ikeReceive env dr pkt m addr (h = NattHandler) d = Some (d', effs)) \<or>
    (\<exists>srv srv' es. dmL2tp d = Some srv \<and> d' = d\<lparr>dmL2tp := Some srv'\<rparr> \<and> effs = map l2tpOut es \<and>
       ((\<exists>buf n addr. ev = Recv L2tpHandler buf n addr \<and>
          HandlePacket (deMd5 env) (ddNow dr) (ddPPP dr) (take n buf) addr srv = Some (srv', es)) \<or>
        (\<exists>r. ev = Timer r \<and> tunnelTick (ddNow dr) r srv = Some (srv', es))))"
proof -
  obtain e where e: "bareEngine e" "espEngine (sessionMgr (dmIke d)) = Some e"
    using assms(1) by (auto simp: daemon_inv_def)
  note w = esp_bare [OF e(2,1)]
  show ?thesis
  proof (cases ev)
    case (Recv h buf n addr)
    show ?thesis
    proof (cases h)
      case NattHandler
      with assms(2) Recv w show ?thesis
        by (auto simp: daemonStep_def handlePort_def split: if_split_asm sum.split_asm prod.split_asm)
    next
      case IkeHandler
      with assms(2) Recv show ?thesis
        by (auto simp: daemonStep_def handlePort_def split: if_split_asm)
    next
      case L2tpHandler
      with assms(2) Recv show ?thesis
        by (auto simp: daemonStep_def handlePort_def l2tpReceive_def split: if_split_asm option.split_asm prod.split_asm)
    qed
  next
    case (TunPacket packet)
    with assms(2) w show ?thesis by (auto simp: daemonStep_def split: if_split_asm)
  next
    case (Timer r)
    with assms(2) show ?thesis by (auto simp: daemonStep_def split: option.split_asm prod.split_asm)
  qed
qed

lemma ikeReceive_inv:
  assumes "daemon_inv env boot cfg d" and "ikeReceive env dr pkt k addr natt d = Some (d', effs)"
  shows "daemon_inv env boot cfg d'"
proof -
  obtain e where e: "bareEngine e" "server_reachable (deLib env) (deTls env) (Some e) (daemonV1 boot cfg) (daemonV2 boot cfg) (dmIke d)"
    using assms(1) by (auto simp: daemon_inv_def)
  obtain s es where s: "HandleIkePacket (deLib env) (deTls env) (ddV2 dr) (ddV1 dr) (dmIke d) pkt k addr natt = Some (s, es)"
    "d' = d\<lparr>dmIke := s\<rparr>"
    using assms(2) by (auto simp: ikeReceive_def split: option.split_asm prod.split_asm)
  note r = sr_packet [OF e(2) s(1)]
  from r server_engine [OF r] e(1) s(2) assms(1) show ?thesis by (auto simp: daemon_inv_def)
qed

lemma l2tp_inv: "daemon_inv env boot cfg d \<Longrightarrow> \<not> hasRespSender srv \<Longrightarrow> daemon_inv env boot cfg (d\<lparr>dmL2tp := Some srv\<rparr>)"
  by (simp add: daemon_inv_def)

lemma daemonStep_inv:
  assumes "daemon_inv env boot cfg d" and "daemonStep env dr ev d = Some (d', effs)"
  shows "daemon_inv env boot cfg d'"
proof -
  have m: "\<not> hasRespSender srv" if "dmL2tp d = Some srv" for srv
    using assms(1) that by (simp add: daemon_inv_def)
  from daemonStep_cases [OF assms] show ?thesis
    using assms(1) m HandlePacket_mute tunnelTick_mute
    by (elim disjE exE conjE) (auto intro: ikeReceive_inv l2tp_inv)
qed

lemma daemon_reachable_inv: "daemon_reachable env boot cfg path d \<Longrightarrow> daemon_inv env boot cfg d"
  by (induction rule: daemon_reachable.induct) (auto intro: startDaemon_inv daemonStep_inv)

section \<open>Both IKE ports agree\<close>

definition withMarker :: "ike_effect \<Rightarrow> ike_effect" where
  "withMarker eff = (case eff of SendTo port data addr \<Rightarrow> SendTo 4500 (PrependNonESPMarker data) addr)"

lemma sendResponse_marker: "sendResponse s msg peer True = map withMarker (sendResponse s msg peer False)"
  by (simp add: sendResponse_def withMarker_def PrependNonESPMarker_def NonESPMarkerLen_def add.commute split: sum.split)

lemma answer_marker: "answer s panics r peer True = map_option (apsnd (map withMarker)) (answer s panics r peer False)"
  by (simp add: answer_def sendResponse_marker split: sum.split)

lemma handleIKEv2_marker:
  "handleIKEv2 lib tls dr s pd peer True = map_option (apsnd (map withMarker)) (handleIKEv2 lib tls dr s pd peer False)"
  by (auto simp: handleIKEv2_def saInitV2_def answer_marker sendResponse_marker Let_def
      split: sum.split option.split prod.split)

lemma handleIKEv1_marker:
  "handleIKEv1 lib dr s pd hdr peer True = map_option (apsnd (map withMarker)) (handleIKEv1 lib dr s pd hdr peer False)"
  by (auto simp: handleIKEv1_def mainMode1_def answer_marker sendResponse_marker Let_def
      split: sum.split option.split prod.split)

lemma HandleIkePacket_marker:
  "HandleIkePacket lib tls dr dr1 s buf n peer True =
     map_option (apsnd (map withMarker)) (HandleIkePacket lib tls dr dr1 s buf n peer False)"
  by (simp add: HandleIkePacket_def handleIKEv2_marker handleIKEv1_marker Let_def split: sum.split)

section \<open>The properties\<close>

text \<open>
  C19. The two IKE ports are one service: a message behind a Non-ESP marker on port 4500 leads to
  the same state of the IKE server as the bare message on port 500, and to the same answers,
  each behind a marker and from port 4500; and it panics on one port exactly when on the other.
\<close>
theorem ike_ports_agree:
  "handlePort env dr NattHandler (PrependNonESPMarker msg) (4 + length msg) addr d =
     (case HandleIkePacket (deLib env) (deTls env) (ddV2 dr) (ddV1 dr) (dmIke d) msg (length msg) addr False of
        None \<Rightarrow> None
      | Some (s, effs) \<Rightarrow> Some (d\<lparr>dmIke := s\<rparr>,
          concat (map (\<lambda>eff. case eff of SendTo port data a \<Rightarrow> udpOut env d 4500 (PrependNonESPMarker data) a) effs))) \<and>
   handlePort env dr IkeHandler msg (length msg) addr d =
     (case HandleIkePacket (deLib env) (deTls env) (ddV2 dr) (ddV1 dr) (dmIke d) msg (length msg) addr False of
        None \<Rightarrow> None
      | Some (s, effs) \<Rightarrow> Some (d\<lparr>dmIke := s\<rparr>,
          concat (map (\<lambda>eff. case eff of SendTo port data a \<Rightarrow> udpOut env d port data a) effs)))"
proof -
  have "length (PrependNonESPMarker msg) = 4 + length msg"
    by (simp add: PrependNonESPMarker_def NonESPMarkerLen_def copy_at_def)
  then have t: "take (4 + length msg) (PrependNonESPMarker msg) = PrependNonESPMarker msg" by simp
  have m: "(\<lambda>eff. case withMarker eff of SendTo port data a \<Rightarrow> udpOut env d port data a) =
      (\<lambda>eff. case eff of SendTo port data a \<Rightarrow> udpOut env d 4500 (PrependNonESPMarker data) a)"
    by (auto simp: withMarker_def split: ike_effect.split)
  show ?thesis
    unfolding handlePort_def port_handler.case t ClassifyNATT_marker sum.case prod.case ikeReceive_def HandleIkePacket_marker
    by (simp add: comp_def m split: option.split prod.split)
qed

text \<open>
  C2. What leaves the daemon. In every state that any datagrams, packets of the TUN device and
  timers lead to, the next step sends nothing but answers of the IKE server, from the port the
  request came to and to its sender; on port 4500 every answer is one that the receiver's
  demultiplexer takes for IKE. In particular no ESP packet and no L2TP message is ever sent, and
  a packet read from the TUN device goes nowhere.
\<close>
theorem only_ike_leaves:
  assumes "daemon_reachable env boot cfg path d" and "daemonStep env dr ev d = Some (d', effs)" and "eff \<in> set effs"
  shows "(\<exists>h buf n addr sock data. ev = Recv h buf n addr \<and> eff = Sent sock data addr \<and>
      (h = NattHandler \<and> GetConn 4500 (dmListeners d) = Some sock \<and> (\<exists>ike. ClassifyNATT data = Inr (PacketTypeIKE, ike)) \<or>
       h = IkeHandler \<and> GetConn 500 (dmListeners d) = Some sock)) \<or>
    (\<exists>buf n addr pkt. ev = Recv L2tpHandler buf n addr \<and> eff = TunOut pkt)"
proof -
  note inv = daemon_reachable_inv [OF assms(1)]
  have m: "\<not> hasRespSender srv" if "dmL2tp d = Some srv" for srv
    using inv that by (simp add: daemon_inv_def)
  from daemonStep_cases [OF inv assms(2)] assms(3)
  consider (ike) h buf n addr pkt k where "ev = Recv h buf n addr" "h = NattHandler \<or> h = IkeHandler"
      "ikeReceive env dr pkt k addr (h = NattHandler) d = Some (d', effs)"
    | (l2tp) srv srv' es buf n addr where "dmL2tp d = Some srv" "effs = map l2tpOut es" "ev = Recv L2tpHandler buf n addr"
      "HandlePacket (deMd5 env) (ddNow dr) (ddPPP dr) (take n buf) addr srv = Some (srv', es)"
    | (timer) srv srv' es r where "dmL2tp d = Some srv" "effs = map l2tpOut es" "tunnelTick (ddNow dr) r srv = Some (srv', es)"
    by (metis list.set(1) empty_iff)
  then show ?thesis
  proof cases
    case ike
    then obtain s es where s: "HandleIkePacket (deLib env) (deTls env) (ddV2 dr) (ddV1 dr) (dmIke d) pkt k addr (h = NattHandler) = Some (s, es)"
      "effs = concat (map (\<lambda>eff. case eff of SendTo port data a \<Rightarrow> udpOut env d port data a) es)"
      by (auto simp: ikeReceive_def split: option.split_asm prod.split_asm)
    from assms(3) s(2) obtain port data a where e: "SendTo port data a \<in> set es" "eff \<in> set (udpOut env d port data a)"
      by (auto split: ike_effect.split_asm)
    with HandleIkePacket_sends [OF s(1)] obtain s1 msg where "SendTo port data a \<in> set (sendResponse s1 msg addr (h = NattHandler))" by auto
    from natt_answers_are_ike [OF this] udpOut_Sent [OF e(2)] ike(1,2) show ?thesis by (auto split: if_split_asm)
  next
    case l2tp
    with HandlePacket_mute [OF l2tp(4) m [OF l2tp(1)]] assms(3) show ?thesis by (auto simp: l2tpOut_def)
  next
    case timer
    with tunnelTick_mute [OF timer(3) m [OF timer(1)]] assms(3) show ?thesis by simp
  qed
qed

text \<open>
  C6. Every session rests on the configuration. In every reachable daemon an IKEv2 session lies
  under its own SPI pair and is either half-open or established, and an established one has
  the nonempty key of a configured connection that matches the peer's address or the identity
  it showed, and a child SA.
\<close>
theorem daemon_sessions_are_configured:
  assumes "daemon_reachable env boot cfg path d" and "GetV2Session (sessionMgr (dmIke d)) p = Some sess"
  shows "p = v2SPIPair sess \<and>
    (s2State sess = StateV2InitRecv \<or>
     s2State sess = StateV2Established \<and> ChildSAs sess \<noteq> [] \<and>
       (\<exists>n c. map_of (conns cfg) n = Some (Some c) \<and> v2Matches (s2PeerAddr sess) (PeerID sess) c \<and>
          connPSK c \<noteq> [] \<and> PSK sess = strBytes (connPSK c)))"
proof -
  let ?h = "daemonV2 boot cfg"
  obtain e where "server_reachable (deLib env) (deTls env) (Some e) (daemonV1 boot cfg) ?h (dmIke d)"
    using daemon_reachable_inv [OF assms(1)] by (auto simp: daemon_inv_def)
  from server_reachable_inv [OF this] assms(2)
  have s: "p = v2SPIPair sess" "session_reachable (deLib env) (deTls env) ?h sess" by (auto simp: server_inv_def)
  have "auth_only ?h sess" by (rule session_auth_only [OF s(2)]) (simp add: daemonV2_def NewIKEv2Handler_def)
  moreover have "\<exists>n c. map_of (conns cfg) n = Some (Some c) \<and> v2Matches peer pid c \<and> connPSK c \<noteq> [] \<and> k = strBytes (connPSK c)"
    if "getConnPSK ?h peer pid = Some (k, name)" for peer pid k name
  proof -
    have "pskLoop (v2Matches peer pid) (dbOrder boot (conns cfg)) (conns cfg) = Some (Some (k, name))"
      using that by (auto simp: daemonV2_def NewIKEv2Handler_def v2Callback_def v2PSKFunc_def split: option.split_asm)
    from pskLoop_found [OF this] show ?thesis by blast
  qed
  moreover have "s2State sess = StateV2Established \<Longrightarrow> ChildSAs sess \<noteq> []"
    using session_reachable_inv [OF s(2)] by (simp add: v2_inv_def)
  ultimately show ?thesis using s(1) by (auto simp: auth_only_def)
qed

section \<open>Shutdown\<close>

lemma closeTunnels_mute:
  "\<not> hasRespSender srv \<Longrightarrow> \<not> hasRespSender (fst (closeTunnels now rs srv)) \<and> snd (closeTunnels now rs srv) = []"
proof (induction now rs srv rule: closeTunnels.induct)
  case (2 now r rs srv)
  obtain t' ms ips where c: "CloseTunnel now (tunHeap srv r) = (t', ms, ips)" by (cases "CloseTunnel now (tunHeap srv r)") auto
  have "\<not> hasRespSender (fold releaseIP ips (setTunnel r t' srv))" using 2(2) by simp
  with 2(1) [OF c [symmetric] refl] c 2(2) show ?case by (simp split: prod.split)
qed simp

text \<open>
  The end of every run: the L2TP server has no tunnel left, the TUN device and every socket are
  closed, and no peer was told, since the L2TP server has no sender.
\<close>

lemma shutdown_leaves_nothing:
  assumes "daemon_reachable env boot cfg path d" and "stopDaemon now driverOk d = (d', effs, socks)"
  shows "effs = [] \<and> socks = map lsSock (mgrListeners (dmListeners d)) \<and>
    (\<forall>srv. dmL2tp d' = Some srv \<longrightarrow> tunnels srv = [] \<and> tunnelsByLocalID srv = []) \<and>
    (\<forall>t. dmTun d' = Some t \<longrightarrow> devClosed t)"
proof -
  have m: "\<not> hasRespSender srv" if "dmL2tp d = Some srv" for srv
    using daemon_reachable_inv [OF assms(1)] that by (simp add: daemon_inv_def)
  have t: "devClosed (snd (snd (watchContext driverOk t)))" for t
    by (simp add: watchContext_def CloseDevice_def)
  show ?thesis
  proof (cases "dmL2tp d")
    case None
    with assms(2) t show ?thesis by (auto simp: stopDaemon_def closeListeners_def)
  next
    case (Some srv)
    with assms(2) t closeTunnels_mute [OF m [OF Some], of now "map snd (tunnels srv)"] show ?thesis
      by (auto simp: stopDaemon_def closeListeners_def CloseServer_def split: prod.split_asm)
  qed
qed

section \<open>The daemon can be stopped from outside\<close>

text \<open>The five datagrams: a call is set up blindly, then one LCP packet states a length of 3.\<close>

definition callDatagrams :: "bytes list" where
  "callDatagrams =
     [clientMsg 0 0 0 0 [NewMessageTypeAVP MsgSCCRQ, NewAssignedTunnelIDAVP 7],
      clientMsg 2 0 1 1 [NewMessageTypeAVP MsgSCCCN],
      clientMsg 2 0 2 1 [NewMessageTypeAVP MsgICRQ, NewAssignedSessionIDAVP 9],
      clientMsg 2 2 3 2 [NewMessageTypeAVP MsgICCN]]"

definition shortLCP :: bytes where
  "shortLCP = BuildDataHeader 2 2 @ SerializePPPFrame PPPProtoLCP [9, 1, 0, 3]"

lemma callDatagrams_setup: "map (\<lambda>m. Datagram now rnd m addr) callDatagrams = callSetup now rnd addr 2 7 9"
  by (simp add: callDatagrams_def callSetup_def)

lemma shortLCP_panics:
  assumes "liveSession srv 2 2 r s" and "sessState s = SessionEstablished" and "lcpHandler s \<noteq> None"
  shows "HandlePacket md5 now rnd shortLCP addr srv = None"
proof -
  obtain h where h: "lcpHandler s = Some h" using assms(3) by blast
  have "LcpHandle (rndMagic rnd) [9, 1, 0, 3] h = None"
    by (simp add: LcpHandle_def pppHeader_def go_slice_def Uint16_def slice_def Let_def)
  then have l: "handleLCP rnd [9, 1, 0, 3] s = None" by (simp add: handleLCP_def h)
  obtain k where k: "ParseL2TPHeader shortLCP = Inr (k, SerializePPPFrame PPPProtoLCP [9, 1, 0, 3])" "\<not> IsControl k"
    "TunnelID k = 2" "SessionID k = 2"
    using Parse_BuildDataHeader [of 2 2 "SerializePPPFrame PPPProtoLCP [9, 1, 0, 3]"] by (auto simp: shortLCP_def)
  have "HandleData env rnd (SerializePPPFrame PPPProtoLCP [9, 1, 0, 3]) s = None" for env
    using l assms(2) by (simp add: HandleData_def Parse_SerializePPPFrame)
  with assms(1) k show ?thesis
    by (simp add: HandlePacket_def handleDataMessage_def liveSession_def GetSession_def Let_def)
qed

lemma daemonRun_l2tp:
  assumes "dmL2tp d = Some srv" and "L2tpHandler \<in> lsHandler ` set (mgrListeners (dmListeners d))"
  shows "daemonRun env (map (\<lambda>m. (dr, Recv L2tpHandler m (length m) addr)) ms) d =
    (case serverSteps (deMd5 env) (map (\<lambda>m. Datagram (ddNow dr) (ddPPP dr) m addr) ms) srv of
       None \<Rightarrow> None
     | Some (srv', effs) \<Rightarrow> Some (d\<lparr>dmL2tp := Some srv'\<rparr>, map l2tpOut effs))"
  using assms
proof (induction ms arbitrary: d srv)
  case (Cons m ms)
  have step: "daemonStep env dr (Recv L2tpHandler m (length m) addr) d = l2tpReceive env dr m addr d"
    using Cons.prems(2) by (simp add: daemonStep_def handlePort_def)
  show ?case
  proof (cases "HandlePacket (deMd5 env) (ddNow dr) (ddPPP dr) m addr srv")
    case None
    with Cons.prems(1) step show ?thesis by (simp add: l2tpReceive_def)
  next
    case (Some r)
    obtain srv1 e1 where r: "r = (srv1, e1)" by fastforce
    have "dmL2tp (d\<lparr>dmL2tp := Some srv1\<rparr>) = Some srv1"
      "L2tpHandler \<in> lsHandler ` set (mgrListeners (dmListeners (d\<lparr>dmL2tp := Some srv1\<rparr>)))" using Cons.prems(2) by simp_all
    from Cons.IH [OF this] Some r Cons.prems(1) step show ?thesis
      by (simp add: l2tpReceive_def split: option.split)
  qed
qed simp

lemma serverSteps_append:
  "serverSteps md5 (xs @ ys) srv =
     (case serverSteps md5 xs srv of None \<Rightarrow> None
      | Some (srv1, e1) \<Rightarrow> (case serverSteps md5 ys srv1 of None \<Rightarrow> None | Some (srv2, e2) \<Rightarrow> Some (srv2, e1 @ e2)))"
  by (induction xs arbitrary: srv) (simp_all split: option.split)

lemma bound_l2tp:
  "dbBind boot (ParseIP (Listen (cfgServer cfg))) PortL2TP \<noteq> None \<Longrightarrow> Listen (cfgServer cfg) \<noteq> [] \<Longrightarrow>
     L2tpHandler \<in> lsHandler ` set (mgrListeners (snd (StartManager (bindListeners boot cfg))))"
  by (auto simp: bindListeners_def StartManager_def AddUDP_def Let_def split: option.splits)

lemma NewPool_allocates:
  assumes "NewPool r = Inr p"
  shows "\<exists>ip p'. Allocate p = Inr (ip, p')"
proof (rule ccontr)
  note ok = NewPool_ok [OF assms]
  assume "\<not> ?thesis"
  then have "\<exists>e. Allocate p = Inl e" by (cases "Allocate p") auto
  then have "poolRange p = {}" using Allocate_Inl [of p] ok by simp
  then have "poolSize p = 0" using card_poolRange [of p] ok by simp
  with assms show False by (auto simp: NewPool_def Let_def split: sum.split_asm if_split_asm)
qed

text \<open>
  C1. Five datagrams end the process. With the L2TP server enabled and its port bound, the same
  five datagrams, from any address and without any secret, make every daemon panic: after the
  first four a call is up although no answer was ever sent, and the fifth is an LCP packet that
  states a length shorter than its own header.
\<close>
theorem five_datagrams_end_the_daemon:
  assumes "configReady cfg" and "l2Enabled (cfgL2TP cfg)" and "NewPool (l2Range (l2IPAM (cfgL2TP cfg))) = Inr pool"
    and "dbBind boot (ParseIP (Listen (cfgServer cfg))) PortL2TP \<noteq> None" and "startDaemon boot cfg path = Some d"
  shows "daemonRun env (map (\<lambda>m. (dr, Recv L2tpHandler m (length m) addr)) callDatagrams) d \<noteq> None \<and>
    daemonRun env (map (\<lambda>m. (dr, Recv L2tpHandler m (length m) addr)) (callDatagrams @ [shortLCP])) d = None"
proof -
  obtain srv where srv: "dmL2tp d = Some srv" "srvPool srv = Some pool" "nextTunnelID srv = 1"
    using startDaemon_l2tp [OF assms(5,2,3)] by blast
  have b: "L2tpHandler \<in> lsHandler ` set (mgrListeners (dmListeners d))"
    using bound_l2tp [OF assms(4)] assms(1) startDaemon_eq [of boot cfg path] assms(5) by (auto simp: configReady_def)
  obtain ip p' where "Allocate pool = Inr (ip, p')" using NewPool_allocates [OF assms(3)] by blast
  moreover have "allocID (nextTunnelID srv) = (2, 2)" by (simp add: srv(3) allocID_def Let_def)
  ultimately obtain srv' effs s where s: "serverSteps (deMd5 env) (callSetup (ddNow dr) (ddPPP dr) addr 2 7 9) srv = Some (srv', effs)"
    "liveSession srv' 2 2 (nextRef srv) s" "sessState s = SessionEstablished" "lcpHandler s \<noteq> None"
    using call_setup_steps [of 7 9 srv 2 2 pool ip p' "deMd5 env" "ddNow dr" "ddPPP dr" addr] srv(2) by auto
  have "serverSteps (deMd5 env) (map (\<lambda>m. Datagram (ddNow dr) (ddPPP dr) m addr) (callDatagrams @ [shortLCP])) srv = None"
    using s(1) shortLCP_panics [OF s(2-4)] by (simp add: serverSteps_append callDatagrams_setup)
  then show ?thesis
    using s(1) by (simp add: daemonRun_l2tp [OF srv(1) b] callDatagrams_setup del: map_append)
qed

section \<open>Examples\<close>

definition exampleEnv :: daemon_env where
  "exampleEnv =
     \<lparr>deLib = exampleIkeLib, deTls = exampleTls, deMd5 = example_md5, deHmac = (\<lambda>_ _ _. []), deWrite = (\<lambda>_ _ _. True)\<rparr>"

definition exampleDaemonDraws :: daemon_draws where
  "exampleDaemonDraws =
     \<lparr>ddV2 = exampleDraws, ddV1 = exampleV1Draws, ddPPP = example_rnd, ddIV = None, ddNow = 0\<rparr>"

lemma example_listeners:
  "lsHandler ` set (mgrListeners (snd (StartManager (bindListeners (exampleBoot fs) cfg)))) = UNIV"
  "GetConn 500 (snd (StartManager (bindListeners (exampleBoot fs) cfg))) = Some 500"
proof -
  have u: "UNIV = {NattHandler, IkeHandler, L2tpHandler}" using port_handler.exhaust by auto
  show "lsHandler ` set (mgrListeners (snd (StartManager (bindListeners (exampleBoot fs) cfg)))) = UNIV"
    unfolding u by (auto simp: bindListeners_def exampleBoot_def StartManager_def AddUDP_def NewManager_def Let_def)
  show "GetConn 500 (snd (StartManager (bindListeners (exampleBoot fs) cfg))) = Some 500"
    by (simp add: bindListeners_def exampleBoot_def StartManager_def AddUDP_def NewManager_def GetConn_def Let_def
        PortNATT_def PortIKE_def PortL2TP_def)
qed

lemma example_daemon_start: "\<exists>d. startDaemon (exampleBoot fs) exampleDaemonConfig ''/etc/config.yaml'' = Some d"
  using startDaemon_eq by blast

text \<open>The example request arrives on port 500: a session appears, and an answer leaves.\<close>

lemma example_daemon_step:
  assumes "startDaemon (exampleBoot fs) cfg path = Some d"
  shows "\<exists>buf sess d' data. daemonStep exampleEnv exampleDaemonDraws (Recv IkeHandler buf (length buf) examplePeer) d =
      Some (d', [Sent 500 data examplePeer]) \<and> GetV2Session (sessionMgr (dmIke d')) (v2SPIPair sess) = Some sess"
proof -
  obtain e where d: "dmIke d = NewIkeServer (NewSessionManager (Some e)) (daemonV1 (exampleBoot fs) cfg) (daemonV2 (exampleBoot fs) cfg) True"
    "dmListeners d = snd (StartManager (bindListeners (exampleBoot fs) cfg))"
    using startDaemon_eq [of "exampleBoot fs" cfg path] assms by auto
  have c: "cookieMode (V2Handler (dmIke d)) \<noteq> CookieModeBusy \<and> defaultIKEProposals (V2Handler (dmIke d)) = DefaultIKEProposals"
    "identityMap (sessionMgr (dmIke d)) = Map.empty" "udpSender (dmIke d)"
    by (simp_all add: d(1) NewIkeServer_def NewSessionManager_def daemonV2_def NewIKEv2Handler_def)
  obtain buf sess s data where p: "HandleIkePacket exampleIkeLib exampleTls exampleDraws exampleV1Draws (dmIke d) buf (length buf) examplePeer False =
      Some (s, [SendTo 500 data examplePeer])" "GetV2Session (sessionMgr s) (v2SPIPair sess) = Some sess"
    using example_packet_for [OF c(1,2)] c(3) by auto
  have u: "udpOut exampleEnv d 500 data examplePeer = [Sent 500 data examplePeer]"
    using example_listeners(2) d(2) by (simp add: udpOut_def SendUDP_GetConn exampleEnv_def)
  have l: "IkeHandler \<in> lsHandler ` set (mgrListeners (dmListeners d))" using example_listeners(1) d(2) by simp
  have "ikeReceive exampleEnv exampleDaemonDraws buf (length buf) examplePeer False d =
      Some (d\<lparr>dmIke := s\<rparr>, [Sent 500 data examplePeer])"
    using p(1) u by (simp add: ikeReceive_def exampleEnv_def exampleDaemonDraws_def)
  with l p(2) have "daemonStep exampleEnv exampleDaemonDraws (Recv IkeHandler buf (length buf) examplePeer) d =
      Some (d\<lparr>dmIke := s\<rparr>, [Sent 500 data examplePeer]) \<and> GetV2Session (sessionMgr (dmIke (d\<lparr>dmIke := s\<rparr>))) (v2SPIPair sess) = Some sess"
    by (simp add: daemonStep_def handlePort_def)
  then show ?thesis by blast
qed

theorem only_ike_leaves_witness:
  "\<exists>d buf d' data. daemonStep exampleEnv exampleDaemonDraws (Recv IkeHandler buf (length buf) examplePeer) d =
      Some (d', [Sent 500 data examplePeer]) \<and> GetConn 500 (dmListeners d) = Some 500"
proof -
  obtain d where d: "startDaemon (exampleBoot (hFiles exampleHost)) exampleDaemonConfig ''/etc/config.yaml'' = Some d"
    using example_daemon_start by blast
  obtain buf d' data where s: "daemonStep exampleEnv exampleDaemonDraws (Recv IkeHandler buf (length buf) examplePeer) d =
      Some (d', [Sent 500 data examplePeer])"
    using example_daemon_step [OF d] by blast
  from only_ike_leaves [OF dr_start [OF d] s, of "Sent 500 data examplePeer"] s show ?thesis by auto
qed

theorem daemon_sessions_are_configured_witness:
  "\<exists>d p sess. daemon_reachable exampleEnv (exampleBoot (hFiles exampleHost)) exampleDaemonConfig ''/etc/config.yaml'' d \<and>
     GetV2Session (sessionMgr (dmIke d)) p = Some sess \<and> s2State sess \<in> {StateV2InitRecv, StateV2Established}"
proof -
  obtain d where d: "startDaemon (exampleBoot (hFiles exampleHost)) exampleDaemonConfig ''/etc/config.yaml'' = Some d"
    using example_daemon_start by blast
  obtain buf sess d' data where s: "daemonStep exampleEnv exampleDaemonDraws (Recv IkeHandler buf (length buf) examplePeer) d =
      Some (d', [Sent 500 data examplePeer])" "GetV2Session (sessionMgr (dmIke d')) (v2SPIPair sess) = Some sess"
    using example_daemon_step [OF d] by blast
  note r = dr_step [OF dr_start [OF d] s(1)]
  from daemon_sessions_are_configured [OF r s(2)] r s(2) show ?thesis by blast
qed

theorem five_datagrams_end_the_daemon_witness:
  "\<exists>d. startDaemon (exampleBoot (hFiles exampleHost)) exampleDaemonConfig ''/etc/config.yaml'' = Some d \<and>
     daemonRun exampleEnv (map (\<lambda>m. (exampleDaemonDraws, Recv L2tpHandler m (length m) example_client)) (callDatagrams @ [shortLCP])) d = None"
proof -
  obtain d where d: "startDaemon (exampleBoot (hFiles exampleHost)) exampleDaemonConfig ''/etc/config.yaml'' = Some d"
    using example_daemon_start by blast
  obtain p where p: "NewPool (l2Range (l2IPAM (cfgL2TP exampleDaemonConfig))) = Inr p"
    using default_l2tp_pool exampleDaemonConfig_l2tp(2) by auto
  have "dbBind (exampleBoot (hFiles exampleHost)) a PortL2TP \<noteq> None" for a by (simp add: exampleBoot_def)
  from five_datagrams_end_the_daemon [OF exampleDaemonConfig_ready exampleDaemonConfig_l2tp(1) p this d] d show ?thesis by blast
qed

end
