(* ===== verification/Spec2Isabelle.thy ===== *)
theory Spec2Isabelle
  imports EspEngine EspPmtu L2tpServer IkeDpd IkeRetransmit IkeServer ConfigWatcher EspOutbound Daemon
begin

text \<open>
  A model of the Go program SWAN-NG, a user-space IPsec VPN server: the ESP data plane, the L2TP
  and PPP stack it carries, the address pool, the IKE server, the configuration, the certificates,
  the commands, and the daemon that composes them. Paths are under \<^verbatim>\<open>src/\<close>.

  \<^bold>\<open>The program.\<close> A datagram on port 4500 is classified (\<^verbatim>\<open>esp/natt.go\<close>): IKE goes to the IKE
  server, ESP to the engine, which looks the SPI up in the SA database, decrypts, checks the replay
  window and writes the inner packet to the TUN device or, for inner UDP port 1701, hands it to the
  L2TP server. The L2TP server runs a reliable control channel and sessions; a session runs PPP
  (LCP, CHAP, IPCP) with an address of the pool, and its data reach the TUN device. The IKE server
  agrees on keys (IKE_SA_INIT), authenticates the peer (IKE_AUTH, with a shared key or EAP) and
  derives the child SAs that the engine uses. The daemon (\<^verbatim>\<open>cmd/swan-ng/daemon.go\<close>) loads the
  configuration, opens the TUN device, starts the engine and the servers, and binds three UDP
  ports; the other commands create users: certificates for IKEv2, passwords for L2TP.

  \<^bold>\<open>The theories.\<close> One per component, in the order the program composes them.
  \<^item> \<open>Prelude\<close>, \<open>NetIP\<close>, \<open>NetText\<close>: byte strings, big-endian integers, slices and bounds of Go, IP
    addresses, the text of addresses; the lemmas that every codec shares.
  \<^item> \<open>EspReplay\<close> (\<^verbatim>\<open>esp/replay.go\<close>), \<open>EspSa\<close> (\<^verbatim>\<open>cipher.go\<close>, \<^verbatim>\<open>integrity.go\<close>, \<^verbatim>\<open>sa.go\<close>), \<open>EspSaDb\<close>
    (\<^verbatim>\<open>sa.go\<close>), \<open>EspPacket\<close> (\<^verbatim>\<open>packet.go\<close>), \<open>EspNatt\<close> (\<^verbatim>\<open>natt.go\<close>, \<^verbatim>\<open>pool.go\<close>), \<open>EspPmtu\<close> (\<^verbatim>\<open>pmtu.go\<close>),
    \<open>EspEngine\<close> (\<^verbatim>\<open>engine.go\<close>): the bitmap window refines the set specification of RFC 4303, sealing
    and opening are inverse, no AEAD nonce is used twice, every effect of the inbound path is
    authentic and happens once per sequence number, and a datagram panics only where the L2TP
    handler that it is handed to does. A packet of the advertised MTU fits the path.
  \<^item> \<open>Ipam\<close> (\<^verbatim>\<open>ipam/pool.go\<close>): leases are distinct over every history.
  \<^item> \<open>L2tpPacket\<close>, \<open>L2tpControl\<close>, \<open>Ppp\<close>, \<open>Lcp\<close>, \<open>Chap\<close>, \<open>Ipcp\<close>, \<open>L2tpSession\<close>, \<open>L2tpTunnel\<close>,
    \<open>L2tpServer\<close> (the files of \<^verbatim>\<open>l2tp/\<close> of these names): codecs, exactly-once delivery over a lossy
    network, the PPP phases (data only after a proven password), and the server's invariant on
    addresses.
  \<^item> \<open>IkeHeader\<close> (\<^verbatim>\<open>ike/header.go\<close>), \<open>IkeGeneric\<close>, \<open>IkePayloadV1\<close>, \<open>IkePayloadSA\<close>, \<open>IkePayloadV2\<close>,
    \<open>IkeMessage\<close> (\<^verbatim>\<open>payload*.go\<close>): every payload as a constructor of one datatype, parsing as a
    recursion over the buffer with the panics of Go as values, serialisation, and the round trip.
  \<^item> \<open>IkeProposal\<close> (\<^verbatim>\<open>proposal.go\<close>): selection for both versions of IKE and the proposal strings.
  \<^item> \<open>IkeCrypto\<close> (\<^verbatim>\<open>crypto.go\<close>), \<open>IkeKeyDeriv\<close> (\<^verbatim>\<open>keyderiv.go\<close>): groups, padding, key schedules.
  \<^item> \<open>IkeEap\<close> (\<^verbatim>\<open>eap.go\<close>, \<^verbatim>\<open>eap_mschapv2.go\<close>), \<open>IkeV2Session\<close> (\<^verbatim>\<open>ikev2_session.go\<close>), \<open>IkeFragment\<close>
    (\<^verbatim>\<open>fragment.go\<close>), \<open>IkeV2Init\<close> (\<^verbatim>\<open>ikev2_init.go\<close>), \<open>IkeV2Auth\<close> (\<^verbatim>\<open>ikev2_auth.go\<close>): the Encrypted
    payload, fragments, and the handlers of the IKEv2 exchanges with every error branch.
  \<^item> \<open>IkeV2Eap\<close> (\<^verbatim>\<open>ikev2_eap_auth.go\<close>, \<^verbatim>\<open>eap_tls.go\<close>): EAP inside IKE_AUTH. An invariant of all reachable
    sessions says where their keys come from; the same theory shows the run in which a peer without
    a password is let in.
  \<^item> \<open>IkeV1Phase1\<close> (\<^verbatim>\<open>ikev1_main.go\<close>, \<^verbatim>\<open>ikev1_session.go\<close>, \<^verbatim>\<open>ikev1_aggr.go\<close>) and \<open>IkeV1Phase2\<close> (\<^verbatim>\<open>ikev1_quick.go\<close>,
    \<^verbatim>\<open>ikev1_xauth.go\<close>, Mode Config of \<^verbatim>\<open>ikev1_aggr.go\<close>): Main Mode agrees on keys and completes, a session is
    established only by a message with the right hash, an invariant of all reachable sessions,
    and what an accepted Quick Mode request adds.
  \<^item> \<open>IkeSession\<close> (\<^verbatim>\<open>session.go\<close>): the tables of sessions, as two interpretations of one locale, and the bridge
    to the ESP engine; one connection per identity, and installing and deleting child SAs.
  \<^item> \<open>IkeServer\<close> (\<^verbatim>\<open>server.go\<close>, \<^verbatim>\<open>info.go\<close>): the composition. Every session of a reachable server is one of the
    reachable sessions of the theories before; and what no datagram can make the server do.
  \<^item> \<open>IkeDpd\<close> (\<^verbatim>\<open>dpd.go\<close>), \<open>IkeRetransmit\<close> (\<^verbatim>\<open>retransmit.go\<close>): liveness checks and retransmission.
  \<^item> \<open>GoPath\<close>, \<open>FileSystem\<close>: what the program uses of Go's \<^verbatim>\<open>path/filepath\<close>, \<^verbatim>\<open>strings\<close> and file
    operations; cleaning a path is idempotent, and what is written is read back.
  \<^item> \<open>Config\<close> (\<^verbatim>\<open>config/types.go\<close>, \<^verbatim>\<open>loader.go\<close>), \<open>ConfigLoader\<close> (\<^verbatim>\<open>loader.go\<close>), \<open>ConfigWatcher\<close>
    (\<^verbatim>\<open>watcher.go\<close>): a load that succeeds gives a complete and valid configuration whose connections
    are those of the file and then of the connection files, whatever order maps are ranged over,
    and every field is as written or has its default (\<open>connDefaults\<close>, \<open>globalsLoaded\<close>);
    the watcher calls back once per burst of changes.
  \<^item> \<open>CertManager\<close> (\<^verbatim>\<open>certman/pem.go\<close>, \<^verbatim>\<open>ca.go\<close>, \<^verbatim>\<open>server.go\<close>, \<^verbatim>\<open>client.go\<close>), \<open>CertExport\<close>
    (\<^verbatim>\<open>certman/export_*.go\<close>): a certificate authority is created once, a client certificate is never
    overwritten, and the templates of the exported profiles.
  \<^item> \<open>TunDevice\<close> (\<^verbatim>\<open>tun/\<close>), \<open>Listener\<close> (\<^verbatim>\<open>listener/listener.go\<close>): packets through the driver's
    buffers, and the receive loop, which delivers the stream of datagrams. \<open>EspOutbound\<close>
    (\<^verbatim>\<open>esp/engine.go\<close>): the outbound loop between the device and the engine.
  \<^item> \<open>Commands\<close> (\<^verbatim>\<open>log/log.go\<close>, \<^verbatim>\<open>cmd/swan-ng/main.go\<close>, \<^verbatim>\<open>ikev2.go\<close>, \<^verbatim>\<open>l2tp.go\<close>, \<^verbatim>\<open>service.go\<close>,
    \<^verbatim>\<open>version.go\<close>): the commands as functions of configuration, input and files.
  \<^item> \<open>DaemonPeers\<close>, \<open>DaemonStart\<close>, \<open>Daemon\<close> (\<^verbatim>\<open>cmd/swan-ng/daemon.go\<close>): the key searches, the start, and
    the steps of the running program over all its parts. The properties that span components
    are here: every established session has the key of a configured connection, nothing but IKE
    answers ever leaves the process, a user that a command created is known to the server, and five
    fixed datagrams end the process.

  \<^bold>\<open>Conventions.\<close> A struct is a record, a Go interface with a closed set of implementations a
  datatype. Machine integers are words; \<^typ>\<open>nat\<close> stands for a Go \<^verbatim>\<open>int\<close> that is a length or an
  index and cannot wrap. A pointer whose identity matters is an address of a store. A panic is
  \<^const>\<open>None\<close> or a constructor of the error type, so that no branch of the code disappears. A
  method that locks a mutex is one step. Random draws, the clock and the iteration order over a Go
  map are arguments. What the code logs is left out, and so are the \<^verbatim>\<open>String\<close> methods that only
  the logs use.

  \<^bold>\<open>Parameters.\<close> The primitives of the Go library (block ciphers, AEAD, hashes, HMAC, elliptic
  curves) are arguments of the definitions that use them, with what the code relies on as
  hypotheses (\<open>aead_ok\<close>, \<open>block_ok\<close>, \<open>integ_ok\<close>, \<open>hmac_ok\<close>, \<open>curve_ok\<close>); every property with such a
  hypothesis has a witness with a concrete instance. The L2TP handler of the ESP engine is an
  interface: the engine's definitions take it as an argument that may panic and change a state of
  its own, and \<open>Daemon\<close> passes the model of the L2TP server (\<open>l2tpCallback\<close>).

  \<^bold>\<open>Loops.\<close> Loops over a buffer recurse structurally or with the buffer's length as measure; the
  payload chain recurses on the offset, which grows by at least four in every round. PRF+ is
  bounded by its one-byte counter. The loop that looks for a free identifier takes the list of
  random draws.

  \<^bold>\<open>Not modelled.\<close> The command line parser (\<^verbatim>\<open>cobra\<close>), the service manager behind \<^verbatim>\<open>service install\<close>
  and \<^verbatim>\<open>uninstall\<close>, what is printed or logged, and the accessors and \<^verbatim>\<open>String\<close> methods that only
  logs use. The TUN driver, the sockets, the file notification library, YAML, JSON, PKCS#12 and X.509
  are parameters: they are libraries or the operating system. The macOS and Windows variants of
  \<^verbatim>\<open>createPlatformTUN\<close> only pass a name to the driver. Goroutines appear as steps in any order;
  data races between them (the code locks its shared maps) are outside the model. The order in
  which the daemon ranges over its connections is one parameter per start, where Go may choose
  anew in every call.
\<close>

end
